(* ===== verification/C_Prelude.thy ===== *)
theory C_Prelude
  imports Main "HOL-Library.Word"
begin

text \<open>
  The vocabulary every component of the mail library shares: bytes (\<open>char\<close>) with their
  numeric codes, the \<^verbatim>\<open><ctype.h>\<close> predicates in the "C" locale (the program sets
  \<^verbatim>\<open>LC_CTYPE\<close> to "C" in \<^verbatim>\<open>sqwebmail.c\<close>), C strings as byte lists whose end is the NUL
  terminator, shifts and ors on small integers, and the two interfaces several components
  implement: a codec (an encoder with its decoder) and a byte stream consumer.
\<close>

unbundle bit_operations_syntax

named_theorems ctype_simps \<open>the character classes, as ranges of character codes\<close>

named_theorems cshift_simps \<open>shifts, masks and ors of small naturals, as arithmetic\<close>

subsection \<open>Bytes\<close>

abbreviation code :: "char \<Rightarrow> nat" where
  "code c \<equiv> of_char c"

abbreviation nul :: char where "nul \<equiv> CHR 0x00"
abbreviation nl :: char where "nl \<equiv> CHR 0x0A"
abbreviation cr :: char where "cr \<equiv> CHR 0x0D"
abbreviation sp :: char where "sp \<equiv> CHR 0x20"
abbreviation dquote :: char where "dquote \<equiv> CHR 0x22"
abbreviation bslash :: char where "bslash \<equiv> CHR 0x5C"

lemma char_eq_code: "c = d \<longleftrightarrow> code c = code d"
  by simp

lemma code_less_256: "code c < 256"
  by (rule nat_of_char_less_256)

lemma code_le_255 [simp]: "code c \<le> 255"
  using code_less_256 [of c] by linarith

lemma code_char_of [simp]: "n < 256 \<Longrightarrow> code (char_of n) = n"
  by simp

lemma char_of_code [simp]: "char_of (code c) = c"
  by simp

text \<open>The value of a plain \<^verbatim>\<open>char\<close>, which is signed on the platforms the code is built for.\<close>

definition schar :: "char \<Rightarrow> int" where
  "schar c = (if code c < 128 then int (code c) else int (code c) - 256)"

lemma schar_high: "128 \<le> code c \<Longrightarrow> schar c < 0"
proof -
  have "128 \<le> n \<Longrightarrow> n < 256 \<Longrightarrow> (if n < 128 then int n else int n - 256) < 0" for n :: nat
    by simp
  then show "128 \<le> code c \<Longrightarrow> ?thesis"
    unfolding schar_def using code_less_256 by blast
qed

definition isspace :: "char \<Rightarrow> bool" where
  "isspace c \<longleftrightarrow> code c = 32 \<or> (9 \<le> code c \<and> code c \<le> 13)"

definition isdigit :: "char \<Rightarrow> bool" where
  "isdigit c \<longleftrightarrow> 48 \<le> code c \<and> code c \<le> 57"

definition isupper :: "char \<Rightarrow> bool" where
  "isupper c \<longleftrightarrow> 65 \<le> code c \<and> code c \<le> 90"

definition islower :: "char \<Rightarrow> bool" where
  "islower c \<longleftrightarrow> 97 \<le> code c \<and> code c \<le> 122"

definition isalpha :: "char \<Rightarrow> bool" where
  "isalpha c \<longleftrightarrow> isupper c \<or> islower c"

definition isalnum :: "char \<Rightarrow> bool" where
  "isalnum c \<longleftrightarrow> isalpha c \<or> isdigit c"

lemmas [ctype_simps] =
  char_eq_code isspace_def isdigit_def isupper_def islower_def isalpha_def isalnum_def schar_def

definition toupper :: "char \<Rightarrow> char" where
  "toupper c = (if islower c then char_of (code c - 32) else c)"

definition tolower :: "char \<Rightarrow> char" where
  "tolower c = (if isupper c then char_of (code c + 32) else c)"

lemma code_toupper: "code (toupper c) = (if islower c then code c - 32 else code c)"
  by (auto simp: toupper_def islower_def)

lemma code_tolower: "code (tolower c) = (if isupper c then code c + 32 else code c)"
  by (simp add: tolower_def isupper_def)

lemmas [ctype_simps] = code_toupper code_tolower

lemma toupper_idem [simp]: "toupper (toupper c) = toupper c"
  by (auto simp: ctype_simps)

lemma tolower_idem [simp]: "tolower (tolower c) = tolower c"
  by (auto simp: ctype_simps)

lemma isspace_toupper [simp]: "isspace (toupper c) = isspace c"
  by (auto simp: ctype_simps)

lemma tolower_toupper [simp]: "tolower (toupper c) = tolower c"
  by (auto simp: ctype_simps)

text \<open>\<^verbatim>\<open>strncasecmp(s, pat, strlen(pat)) == 0\<close>: the pattern is a prefix up to case.\<close>

fun caseprefix :: "string \<Rightarrow> string \<Rightarrow> bool" where
  "caseprefix [] s \<longleftrightarrow> True"
| "caseprefix (a # as) [] \<longleftrightarrow> False"
| "caseprefix (a # as) (b # bs) \<longleftrightarrow> tolower a = tolower b \<and> caseprefix as bs"

lemma caseprefix_length: "caseprefix pat s \<Longrightarrow> length pat \<le> length s"
  by (induction pat s rule: caseprefix.induct) auto

definition strcaseeq :: "string \<Rightarrow> string \<Rightarrow> bool" where
  "strcaseeq a b \<longleftrightarrow> map tolower a = map tolower b"

subsection \<open>C strings\<close>

text \<open>
  A C string is the list of its bytes; the terminator is the end of the list, and reading at
  the end yields NUL. \<open>cstring\<close> says that no byte of the list is the terminator.
\<close>

definition cstring :: "string \<Rightarrow> bool" where
  "cstring s \<longleftrightarrow> nul \<notin> set s"

definition cread :: "string \<Rightarrow> char" where
  "cread s = (case s of [] \<Rightarrow> nul | c # _ \<Rightarrow> c)"

lemma cread_simps [simp]: "cread [] = nul" "cread (c # s) = c"
  by (simp_all add: cread_def)

definition skipspace :: "string \<Rightarrow> string" where
  "skipspace s = dropWhile isspace s"

lemma length_skipspace: "length (skipspace s) \<le> length s"
  by (simp add: skipspace_def length_dropWhile_le)

lemma skipspace_idem [simp]: "skipspace (skipspace s) = skipspace s"
  by (simp add: skipspace_def)

text \<open>A scan for a character that is there, and for one that is not.\<close>

lemma scan_until [simp]:
  "c \<notin> set p \<Longrightarrow> takeWhile (\<lambda>d. d \<noteq> c) (p @ c # q) = p"
  "c \<notin> set p \<Longrightarrow> dropWhile (\<lambda>d. d \<noteq> c) (p @ c # q) = c # q"
  "c \<notin> set p \<Longrightarrow> takeWhile (\<lambda>d. d \<noteq> c) p = p"
  "c \<notin> set p \<Longrightarrow> dropWhile (\<lambda>d. d \<noteq> c) p = []"
  by (induction p) auto

text \<open>Looking a character up in an alphabet without repetitions.\<close>

lemma index_distinct:
  "distinct xs \<Longrightarrow> b < length xs \<Longrightarrow> length (takeWhile (\<lambda>d. d \<noteq> xs ! b) xs) = b"
proof -
  assume xs: "distinct xs" "b < length xs"
  then have "takeWhile (\<lambda>d. d \<noteq> xs ! b) (take b xs @ xs ! b # drop (Suc b) xs) = take b xs"
    by (subst takeWhile_append2) (auto simp: in_set_conv_nth nth_eq_iff_index_eq)
  with xs show ?thesis
    by (simp flip: id_take_nth_drop)
qed

subsection \<open>Decimal digits\<close>

definition digit_char :: "nat \<Rightarrow> char" where
  "digit_char n = char_of (48 + n)"

definition digit_val :: "char \<Rightarrow> nat" where
  "digit_val c = code c - 48"

lemma digit_val_char [simp]: "n < 10 \<Longrightarrow> digit_val (digit_char n) = n"
  by (simp add: digit_val_def digit_char_def)

lemma isdigit_digit_char [simp]: "n < 10 \<Longrightarrow> isdigit (digit_char n)"
  by (simp add: isdigit_def digit_char_def)

lemma digit_val_less: "isdigit c \<Longrightarrow> digit_val c < 10"
  by (auto simp: isdigit_def digit_val_def)

text \<open>The decimal numeral \<^verbatim>\<open>%lu\<close> prints, with \<^verbatim>\<open>%0wlu\<close>, and the value of a digit string.\<close>

fun dec :: "nat \<Rightarrow> string" where
  "dec n = (if n < 10 then [digit_char n] else dec (n div 10) @ [digit_char (n mod 10)])"

declare dec.simps [simp del]

definition dec_pad :: "nat \<Rightarrow> nat \<Rightarrow> string" where
  "dec_pad w n = replicate (w - length (dec n)) CHR ''0'' @ dec n"

definition dec_val :: "nat \<Rightarrow> string \<Rightarrow> nat" where
  "dec_val i s = foldl (\<lambda>i c. i * 10 + digit_val c) i s"

lemma dec_val_simps [simp]:
  "dec_val i [] = i"
  "dec_val i (c # s) = dec_val (i * 10 + digit_val c) s"
  "dec_val i (s @ t) = dec_val (dec_val i s) t"
  by (simp_all add: dec_val_def)

lemma dec_val_dec [simp]: "dec_val 0 (dec n) = n"
  by (induction n rule: dec.induct) (subst dec.simps, simp)

lemma dec_digits: "list_all isdigit (dec n)"
  by (induction n rule: dec.induct) (subst dec.simps, simp)

lemma dec_ne [simp]: "dec n \<noteq> []"
  by (subst dec.simps) simp

lemma isdigit_dec: "c \<in> set (dec n) \<Longrightarrow> isdigit c"
  using dec_digits [of n] by (simp add: list_all_iff)

lemma isdigit_hd_dec [simp]: "isdigit (hd (dec n))"
  using isdigit_dec [of "hd (dec n)" n] by simp

lemma digit_0: "digit_val CHR ''0'' = 0" "isdigit CHR ''0''"
  by (simp_all add: digit_val_def isdigit_def)

lemma dec_pad_val [simp]: "dec_val 0 (dec_pad w n) = n"
proof -
  have "dec_val 0 (replicate k CHR ''0'') = 0" for k
    by (induction k) (simp_all add: digit_0)
  then show ?thesis by (simp add: dec_pad_def)
qed

lemma dec_pad_digits: "list_all isdigit (dec_pad w n)"
  using dec_digits [of n] by (auto simp: dec_pad_def list_all_iff digit_0)

lemma dec_pad_ne [simp]: "dec_pad w n \<noteq> []"
  by (simp add: dec_pad_def)

text \<open>Reading digits: where the digits of \<open>s @ r\<close> end when \<open>r\<close> does not start with one.\<close>

definition nodigit :: "string \<Rightarrow> bool" where
  "nodigit r \<longleftrightarrow> r = [] \<or> \<not> isdigit (hd r)"

lemma nodigit_simps [simp]: "nodigit []" "nodigit (c # r) \<longleftrightarrow> \<not> isdigit c"
  by (simp_all add: nodigit_def)

lemma takeWhile_digits:
  "list_all isdigit ds \<Longrightarrow> nodigit r \<Longrightarrow> takeWhile isdigit (ds @ r) = ds \<and> dropWhile isdigit (ds @ r) = r"
  by (cases r) (auto simp: list_all_iff nodigit_def takeWhile_append dropWhile_append)

subsection \<open>Lines\<close>

fun split_nl :: "string \<Rightarrow> string list" where
  "split_nl [] = [[]]"
| "split_nl (c # s) =
     (if c = nl then [] # split_nl s
      else (case split_nl s of [] \<Rightarrow> [[c]] | x # xs \<Rightarrow> (c # x) # xs))"

lemma split_nl_ne [simp]: "split_nl s \<noteq> []"
  by (induction s) (auto split: list.splits)

lemma split_nl_nonl: "nl \<notin> set x \<Longrightarrow> split_nl (x @ s) = (x @ hd (split_nl s)) # tl (split_nl s)"
  by (induction x) (auto split: list.splits)

lemma split_nl_plain: "nl \<notin> set x \<Longrightarrow> split_nl x = [x]"
  using split_nl_nonl [of x "[]"] by simp

lemma split_nl_line: "nl \<notin> set x \<Longrightarrow> split_nl (x @ nl # s) = x # split_nl s"
  using split_nl_nonl [of x "nl # s"] by simp

subsection \<open>Shifts and ors\<close>

lemma or_nat_disjoint:
  fixes x y :: nat
  assumes "y < 2 ^ n"
  shows "x * 2 ^ n OR y = x * 2 ^ n + y"
proof -
  have "(x * 2 ^ n) AND y = 0"
  proof (rule bit_eqI)
    fix k
    have "bit y k \<Longrightarrow> k < n"
      using assms by (metis bit_take_bit_iff take_bit_nat_eq_self)
    then show "bit ((x * 2 ^ n) AND y) k = bit (0 :: nat) k"
      by (auto simp: bit_and_iff push_bit_eq_mult [symmetric] bit_push_bit_iff)
  qed
  then show ?thesis
    by (simp add: disjunctive_add_eq_or)
qed

lemma push_bit_or_nat:
  fixes x y :: nat
  shows "y < 2 ^ n \<Longrightarrow> push_bit n x OR y = x * 2 ^ n + y"
  by (simp add: push_bit_eq_mult or_nat_disjoint)

lemma and_mask_mod:
  fixes x :: nat
  shows "x AND (2 ^ n - 1) = x mod 2 ^ n"
  by (simp add: take_bit_eq_mask mask_eq_exp_minus_1 flip: take_bit_eq_mod)

lemma and_mask_nat:
  fixes x :: nat
  shows "x AND 3 = x mod 4" "x AND 7 = x mod 8" "x AND 15 = x mod 16"
    "x AND 31 = x mod 32" "x AND 63 = x mod 64" "x AND 127 = x mod 128" "x AND 255 = x mod 256"
  using and_mask_mod [of x 2] and_mask_mod [of x 3] and_mask_mod [of x 4] and_mask_mod [of x 5]
    and_mask_mod [of x 6] and_mask_mod [of x 7] and_mask_mod [of x 8]
  by simp_all

end
