(* ===== verification/Rfc822_Token.thy ===== *)
theory Rfc822_Token
  imports C_Prelude
begin

text \<open>
  The lexer of \<^verbatim>\<open>rfc822/rfc822.c\<close>: \<open>tokenize\<close> splits an address header into
  \<open>rfc822token\<close> records. A token holds the offset of its text in the parsed string (\<open>None\<close> is
  the pointer to the empty literal of the fake null address in \<^verbatim>\<open><>\<close>) and its length, as the
  C structure holds a pointer and a length. The code runs the lexer twice, first with a NULL
  token array to count the tokens, then to fill an array of that size; the flag \<open>tokp\<close> is
  whether the array is there. Errors reported to \<^verbatim>\<open>err_func\<close> are the list of their positions.
\<close>

subsection \<open>Tokens\<close>

record rfc822token =
  token :: char
  ptr :: "nat option"
  tlen :: nat

definition rfc822_is_atom :: "char \<Rightarrow> bool" where
  "rfc822_is_atom c \<longleftrightarrow> c = nul \<or> c = dquote \<or> c = CHR ''(''"

definition tok_text :: "string \<Rightarrow> rfc822token \<Rightarrow> string" where
  "tok_text buf t = (case ptr t of None \<Rightarrow> [] | Some i \<Rightarrow> take (tlen t) (drop i buf))"

definition rfc_atoms :: string where
  "rfc_atoms = ''<>@,;:.[]%!?=/''"

definition atom_stops :: string where
  "atom_stops = ''<>@,;:.[]()%!'' @ [dquote, bslash] @ ''?=/''"

definition is_atomchar :: "char \<Rightarrow> bool" where
  "is_atomchar c \<longleftrightarrow> \<not> isspace c \<and> c \<notin> set atom_stops"

subsection \<open>The lexer\<close>

text \<open>
  The inner loop of a comment, from the opening parenthesis: given the nesting level it
  returns whether the comment is closed and how many characters the loop went over.
\<close>

fun tok_comment :: "nat \<Rightarrow> string \<Rightarrow> bool \<times> nat" where
  "tok_comment level [] = (False, 0)"
| "tok_comment level (c # p) =
     (let level1 = (if c = CHR ''('' then level + 1 else level);
          level2 = (if c = CHR '')'' then level1 - 1 else level1)
      in if c = CHR '')'' \<and> level2 = 0 then (True, 1)
         else if c = bslash \<and> p \<noteq> [] then apsnd (\<lambda>n. n + 2) (tok_comment level2 (tl p))
         else apsnd (\<lambda>n. n + 1) (tok_comment level2 p))"

text \<open>The inner loop of a quoted string, from the character after the opening quote.\<close>

fun tok_quoted :: "string \<Rightarrow> bool \<times> nat" where
  "tok_quoted [] = (False, 0)"
| "tok_quoted (c # p) =
     (if c = dquote then (True, 0)
      else if c = bslash \<and> p \<noteq> [] then apsnd (\<lambda>n. n + 2) (tok_quoted (tl p))
      else apsnd (\<lambda>n. n + 1) (tok_quoted p))"

text \<open>
  One turn of the lexer's loop at position \<open>i\<close>, on the character \<open>c\<close> with \<open>p\<close> after it: the
  tokens it appends, the error positions it reports, how many characters it consumes and
  whether the lexer is then inside angle brackets. An unterminated comment or quoted string
  consumes the rest, where the code returns.
\<close>

definition tok_step ::
    "nat \<Rightarrow> char \<Rightarrow> string \<Rightarrow> bool \<Rightarrow> rfc822token list \<times> nat list \<times> nat \<times> bool" where
  "tok_step i c p inbracket =
     (if isspace c then ([], [], 1, inbracket)
      else if c = CHR ''('' then
        (case tok_comment 0 (c # p) of (closed, n) \<Rightarrow>
           if closed then ([\<lparr>token = CHR ''('', ptr = Some i, tlen = n\<rparr>], [], n, inbracket)
           else ([\<lparr>token = dquote, ptr = Some i, tlen = n\<rparr>], [i + n], n, inbracket))
      else if c = dquote then
        (case tok_quoted p of (closed, n) \<Rightarrow>
           if closed
           then ([\<lparr>token = dquote, ptr = Some (i + 1), tlen = n\<rparr>], [], 1 + n + 1, inbracket)
           else ([\<lparr>token = dquote, ptr = Some (i + 1), tlen = n\<rparr>], [i + 1 + n], 1 + n, inbracket))
      else if c = bslash \<or> c = CHR '')'' then ([], [i], 1, inbracket)
      else if c \<in> set rfc_atoms then
        (if (c = CHR ''<'' \<and> inbracket) \<or> (c = CHR ''>'' \<and> \<not> inbracket) then ([], [i], 1, inbracket)
         else (\<lparr>token = c, ptr = Some i, tlen = 1\<rparr>
               # (if c = CHR ''<'' \<and> cread p = CHR ''>''
                  then [\<lparr>token = nul, ptr = None, tlen = 0\<rparr>] else []),
               [], 1, if c = CHR ''<'' then True else if c = CHR ''>'' then False else inbracket))
      else let n = length (takeWhile is_atomchar (c # p))
           in if i + n = 0
              then ([\<lparr>token = dquote, ptr = Some (i + n), tlen = 1\<rparr>], [i + n], n + 1, inbracket)
              else ([\<lparr>token = nul, ptr = Some i, tlen = n\<rparr>], [], n, inbracket))"

lemma tok_comment_bounds:
  "snd (tok_comment level p) \<le> length p \<and>
    (fst (tok_comment level p) \<longrightarrow> 1 \<le> snd (tok_comment level p)) \<and>
    (\<not> fst (tok_comment level p) \<longrightarrow> snd (tok_comment level p) = length p)"
proof (induction level p rule: tok_comment.induct)
  case (2 level c p)
  then show ?case
    by (cases p) (simp_all add: Let_def)
qed simp

lemma tok_quoted_bounds:
  "snd (tok_quoted p) \<le> length p \<and>
    (fst (tok_quoted p) \<longrightarrow> snd (tok_quoted p) < length p \<and> p ! snd (tok_quoted p) = dquote) \<and>
    (\<not> fst (tok_quoted p) \<longrightarrow> snd (tok_quoted p) = length p)"
proof (induction p rule: tok_quoted.induct)
  case (2 c p)
  then show ?case
    by (cases p) simp_all
qed simp

declare tok_comment.simps [simp del] tok_quoted.simps [simp del]

lemma is_atomchar_not_stop:
  "\<not> isspace c \<Longrightarrow> c \<noteq> CHR ''('' \<Longrightarrow> c \<noteq> dquote \<Longrightarrow> c \<noteq> bslash \<Longrightarrow> c \<noteq> CHR '')'' \<Longrightarrow>
    c \<notin> set rfc_atoms \<Longrightarrow> is_atomchar c"
  by (simp add: is_atomchar_def atom_stops_def rfc_atoms_def)

text \<open>The outcomes of a turn.\<close>

lemma tok_step_cases:
  assumes step: "tok_step i c p inb = (ts, es, n, inb')"
  obtains
    (space) "isspace c" "ts = []" "es = []" "n = 1" "inb' = inb"
  | (comment) "c = CHR ''(''" "fst (tok_comment 0 (c # p))" "n = snd (tok_comment 0 (c # p))"
      "ts = [\<lparr>token = CHR ''('', ptr = Some i, tlen = n\<rparr>]" "es = []" "inb' = inb"
  | (open_comment) "c = CHR ''(''" "\<not> fst (tok_comment 0 (c # p))" "n = snd (tok_comment 0 (c # p))"
      "ts = [\<lparr>token = dquote, ptr = Some i, tlen = n\<rparr>]" "es = [i + n]" "inb' = inb"
  | (quoted) "c = dquote" "fst (tok_quoted p)" "n = 1 + snd (tok_quoted p) + 1"
      "ts = [\<lparr>token = dquote, ptr = Some (i + 1), tlen = snd (tok_quoted p)\<rparr>]" "es = []" "inb' = inb"
  | (open_quoted) "c = dquote" "\<not> fst (tok_quoted p)" "n = 1 + snd (tok_quoted p)"
      "ts = [\<lparr>token = dquote, ptr = Some (i + 1), tlen = snd (tok_quoted p)\<rparr>]"
      "es = [i + 1 + snd (tok_quoted p)]" "inb' = inb"
  | (stray) "ts = []" "es = [i]" "n = 1" "inb' = inb"
  | (rfc_atom) "\<not> isspace c" "c \<in> set rfc_atoms" "c = CHR ''<'' \<Longrightarrow> \<not> inb" "c = CHR ''>'' \<Longrightarrow> inb"
      "ts = \<lparr>token = c, ptr = Some i, tlen = 1\<rparr>
         # (if c = CHR ''<'' \<and> cread p = CHR ''>'' then [\<lparr>token = nul, ptr = None, tlen = 0\<rparr>] else [])"
      "es = []" "n = 1" "inb' = (if c = CHR ''<'' then True else if c = CHR ''>'' then False else inb)"
  | (atom) "is_atomchar c" "n = length (takeWhile is_atomchar (c # p))"
      "ts = [\<lparr>token = nul, ptr = Some i, tlen = n\<rparr>]" "es = []" "inb' = inb"
proof (cases "isspace c")
  case True
  with step show thesis by (intro space) (simp_all add: tok_step_def)
next
  case nospace: False
  show thesis
  proof (cases "c = CHR ''(''")
    case True
    then show thesis
      using step nospace comment open_comment
      by (cases "fst (tok_comment 0 (c # p))") (auto simp: tok_step_def case_prod_unfold)
  next
    case nocomment: False
    show thesis
    proof (cases "c = dquote")
      case True
      then show thesis
        using step nospace quoted open_quoted
        by (cases "fst (tok_quoted p)") (simp_all add: tok_step_def case_prod_unfold)
    next
      case noquote: False
      show thesis
      proof (cases "c = bslash \<or> c = CHR '')'' \<or>
          (c \<in> set rfc_atoms \<and> (c = CHR ''<'' \<and> inb \<or> c = CHR ''>'' \<and> \<not> inb))")
        case True
        then show thesis
          using step nospace by (intro stray) (auto simp: tok_step_def rfc_atoms_def)
      next
        case nostray: False
        show thesis
        proof (cases "c \<in> set rfc_atoms")
          case True
          with step nospace nocomment noquote nostray show thesis
            by (intro rfc_atom) (auto simp: tok_step_def)
        next
          case False
          with nospace nocomment noquote nostray have "is_atomchar c"
            by (simp add: is_atomchar_not_stop)
          with step nospace nocomment noquote nostray False show thesis
            by (intro atom) (auto simp: tok_step_def Let_def)
        qed
      qed
    qed
  qed
qed

text \<open>Every turn consumes at least one character, and no more than there are.\<close>

lemma tok_step_consumes:
  assumes "tok_step i c p inb = (ts, es, n, inb')"
  shows "1 \<le> n \<and> n \<le> length (c # p)"
  using assms
proof (cases rule: tok_step_cases)
  case atom
  then show ?thesis
    using length_takeWhile_le [of is_atomchar p] by simp
qed (use tok_comment_bounds [of 0 "c # p"] tok_quoted_bounds [of p] in auto)

type_synonym tokout = "rfc822token list \<times> nat \<times> nat list"

text \<open>
  The loop: the tokens stored (none when the array is NULL), the final \<^verbatim>\<open>*toklen\<close> and the
  positions reported to \<^verbatim>\<open>err_func\<close>.
\<close>

function tokenize_loop :: "bool \<Rightarrow> nat \<Rightarrow> string \<Rightarrow> bool \<Rightarrow> tokout" where
  "tokenize_loop tokp i [] inbracket = ([], 0, [])"
| "tokenize_loop tokp i (c # p) inbracket =
     (case tok_step i c p inbracket of (ts, es, n, inbracket') \<Rightarrow>
        case tokenize_loop tokp (i + n) (drop n (c # p)) inbracket' of (ts', m, es') \<Rightarrow>
          (if tokp then ts @ ts' else [], length ts + m, es @ es'))"
  by pat_completeness auto
termination
  by (relation "measure (\<lambda>(tokp, i, p, inb). length p)")
    (auto dest!: tok_step_consumes [OF sym])

definition tokenize :: "bool \<Rightarrow> string \<Rightarrow> tokout" where
  "tokenize tokp addr = tokenize_loop tokp 0 addr False"

subsection \<open>The array the second pass fills\<close>

lemma tokenize_loop_passes:
  "snd (tokenize_loop False i p inb) = snd (tokenize_loop True i p inb) \<and>
   length (fst (tokenize_loop True i p inb)) = fst (snd (tokenize_loop True i p inb))"
proof (induction True i p inb rule: tokenize_loop.induct)
  case (2 i c p inb)
  obtain ts es n inb' where step: "tok_step i c p inb = (ts, es, n, inb')"
    by (metis prod.collapse)
  show ?case
    using 2 [OF step [symmetric] refl refl] by (simp add: step prod_eq_iff split: prod.splits)
qed simp

text \<open>
  Memory safety of the two lexer passes: the counting pass (\<open>tokp\<close> NULL) reports exactly
  the number of tokens the second pass stores, so the array \<open>rfc822t_alloc_new\<close> callocs
  between the two is filled to its last element and never beyond, whatever the header, and
  both passes report the same errors.
\<close>

theorem tokenize_fills_array:
  "length (fst (tokenize True addr)) = fst (snd (tokenize False addr)) \<and>
   snd (snd (tokenize True addr)) = snd (snd (tokenize False addr))"
  using tokenize_loop_passes [of 0 addr False] by (simp add: tokenize_def)

subsection \<open>Tokens lie inside the parsed string\<close>

definition tok_within :: "nat \<Rightarrow> nat \<Rightarrow> rfc822token \<Rightarrow> bool" where
  "tok_within lo hi t \<longleftrightarrow>
     (case ptr t of None \<Rightarrow> token t = nul \<and> tlen t = 0
      | Some k \<Rightarrow> lo \<le> k \<and> k + tlen t \<le> hi \<and> (token t = nul \<longrightarrow> 0 < tlen t))"

lemma tok_within_mono:
  "tok_within lo hi t \<Longrightarrow> lo' \<le> lo \<Longrightarrow> hi \<le> hi' \<Longrightarrow> tok_within lo' hi' t"
  by (auto simp: tok_within_def split: option.splits)

lemma length_atom_pos: "is_atomchar c \<Longrightarrow> 0 < length (takeWhile is_atomchar (c # p))"
  by simp

lemma tok_step_within:
  assumes "tok_step i c p inb = (ts, es, n, inb')" and "t \<in> set ts"
  shows "tok_within i (i + n) t"
  using assms(1)
proof (cases rule: tok_step_cases)
  case rfc_atom
  then show ?thesis
    using assms(2) by (auto simp: tok_within_def rfc_atoms_def split: if_splits)
qed (use assms(2) tok_comment_bounds [of 0 "c # p"] tok_quoted_bounds [of p] in
    \<open>auto simp: tok_within_def\<close>)

lemma tokenize_loop_within:
  "t \<in> set (fst (tokenize_loop True i p inb)) \<Longrightarrow> tok_within i (i + length p) t"
proof (induction True i p inb rule: tokenize_loop.induct)
  case (2 i c p inb)
  obtain ts es n inb' where step: "tok_step i c p inb = (ts, es, n, inb')"
    by (metis prod.collapse)
  note n = tok_step_consumes [OF step]
  from "2.prems" consider "t \<in> set ts"
    | "t \<in> set (fst (tokenize_loop True (i + n) (drop n (c # p)) inb'))"
    by (auto simp: step split: prod.splits)
  then show ?case
  proof cases
    case 1
    then show ?thesis
      using tok_step_within [OF step] tok_within_mono n by fastforce
  next
    case 2
    then have "tok_within (i + n) (i + n + length (drop n (c # p))) t"
      by (rule "2.hyps" [OF step [symmetric] refl refl])
    then show ?thesis
      by (rule tok_within_mono) (use n in auto)
  qed
qed simp

text \<open>
  Every token the lexer stores points inside the parsed string: its text is a substring of
  the address, starting at its offset and ending no later than the terminator; the only
  exception is the fake empty atom of \<^verbatim>\<open><>\<close>, whose pointer is to the empty literal. An atom
  always has at least one character.
\<close>

theorem tokens_within_address:
  "list_all (tok_within 0 (length addr)) (fst (tokenize True addr))"
  using tokenize_loop_within [of _ 0 addr False] by (simp add: tokenize_def list_all_iff)

subsection \<open>Tokens by their text\<close>

text \<open>
  The specification of the lexer forgets positions: a token is its kind with its text. Empty
  atoms (the fake null address) have no text to lex and are left out.
\<close>

type_synonym tokview = "char \<times> string"

definition tview :: "string \<Rightarrow> rfc822token \<Rightarrow> tokview" where
  "tview buf t = (token t, tok_text buf t)"

definition real_tok :: "tokview \<Rightarrow> bool" where
  "real_tok v \<longleftrightarrow> v \<noteq> (nul, [])"

definition tviews :: "string \<Rightarrow> rfc822token list \<Rightarrow> tokview list" where
  "tviews buf ts = filter real_tok (map (tview buf) ts)"

lemma tviews_simps [simp]:
  "tviews buf [] = []"
  "tviews buf (ts @ us) = tviews buf ts @ tviews buf us"
  by (simp_all add: tviews_def)

function lexv :: "string \<Rightarrow> bool \<Rightarrow> tokview list" where
  "lexv [] inb = []"
| "lexv (c # p) inb =
     (case tok_step 0 c p inb of (ts, es, n, inb') \<Rightarrow>
        tviews (c # p) ts @ lexv (drop n (c # p)) inb')"
  by pat_completeness auto
termination
  by (relation "measure (\<lambda>(p, inb). length p)") (auto dest!: tok_step_consumes [OF sym])

definition tok_shift :: "nat \<Rightarrow> rfc822token \<Rightarrow> rfc822token" where
  "tok_shift i t = t\<lparr>ptr := map_option ((+) i) (ptr t)\<rparr>"

lemma tok_step_shift:
  "tok_step i c p inb =
    (case tok_step 0 c p inb of (ts, es, n, inb') \<Rightarrow> (map (tok_shift i) ts, map ((+) i) es, n, inb'))"
  by (simp add: tok_step_def Let_def case_prod_unfold tok_shift_def is_atomchar_not_stop)

lemma tview_shift: "drop i buf = p \<Longrightarrow> tview buf (tok_shift i t) = tview p t"
  by (auto simp: tview_def tok_text_def tok_shift_def add.commute split: option.splits)

lemma tviews_shift: "drop i buf = p \<Longrightarrow> tviews buf (map (tok_shift i) ts) = tviews p ts"
  by (simp add: tviews_def tview_shift o_def)

text \<open>The lexer refines its specification.\<close>

lemma tokenize_loop_lexv:
  "drop i buf = p \<Longrightarrow> tviews buf (fst (tokenize_loop True i p inb)) = lexv p inb"
proof (induction True i p inb rule: tokenize_loop.induct)
  case (2 i c p inb)
  obtain ts es n inb' where step: "tok_step 0 c p inb = (ts, es, n, inb')"
    by (metis prod.collapse)
  then have stepi: "tok_step i c p inb = (map (tok_shift i) ts, map ((+) i) es, n, inb')"
    by (simp add: tok_step_shift [of i])
  have "drop (i + n) buf = drop n (c # p)"
    using "2.prems" by (metis add.commute drop_drop)
  then have "tviews buf (fst (tokenize_loop True (i + n) (drop n (c # p)) inb'))
      = lexv (drop n (c # p)) inb'"
    by (rule "2.hyps" [OF stepi [symmetric] refl refl])
  then show ?case
    using "2.prems" by (simp add: stepi step tviews_shift case_prod_unfold)
qed simp

corollary tokenize_lexv: "tviews addr (fst (tokenize True addr)) = lexv addr False"
  by (simp add: tokenize_def tokenize_loop_lexv)

end
