(* ===== verification/Rfc822_Print.thy ===== *)
theory Rfc822_Print
  imports Rfc822_Token
begin

text \<open>
  Printing tokens back (\<open>print_token\<close> and \<open>rfc822tok_print\<close> of \<^verbatim>\<open>rfc822/rfc822.c\<close>). The
  characters passed one by one to \<^verbatim>\<open>print_func\<close> are the string the functions return. The
  lemmas show that what is printed lexes back to the same tokens, and that a quoted token
  stays one quoted token whatever its text is.
\<close>

subsection \<open>Printing one token\<close>

text \<open>The loop of \<open>print_token\<close> over the text of a quoted string; \<^verbatim>\<open>n\<close> is what is left of it.\<close>

fun print_quoted :: "string \<Rightarrow> string" where
  "print_quoted [] = []"
| "print_quoted [c] = (if c = dquote \<or> c = bslash then [bslash, c] else [c])"
| "print_quoted (c # d # s) =
     (if c = dquote then bslash # c # print_quoted (d # s)
      else if c = bslash then c # d # print_quoted s
      else c # print_quoted (d # s))"

definition print_token :: "string \<Rightarrow> rfc822token \<Rightarrow> string" where
  "print_token buf t =
     (if token t = nul \<or> token t = CHR ''('' then tok_text buf t
      else if token t \<noteq> dquote then [token t]
      else dquote # print_quoted (tok_text buf t) @ [dquote])"

fun tok_print_loop :: "string \<Rightarrow> bool \<Rightarrow> rfc822token list \<Rightarrow> string" where
  "tok_print_loop buf prev_isatom [] = []"
| "tok_print_loop buf prev_isatom (t # ts) =
     (if prev_isatom \<and> rfc822_is_atom (token t) then [sp] else []) @ print_token buf t
     @ tok_print_loop buf (rfc822_is_atom (token t)) ts"

definition rfc822tok_print :: "string \<Rightarrow> rfc822token list \<Rightarrow> string" where
  "rfc822tok_print buf ts = tok_print_loop buf False ts"

subsection \<open>Quoted text\<close>

lemma print_quoted_plain:
  "c \<noteq> dquote \<Longrightarrow> c \<noteq> bslash \<Longrightarrow> print_quoted (c # s) = c # print_quoted s"
  by (cases s) simp_all

lemma print_quoted_dquote: "print_quoted (dquote # s) = bslash # dquote # print_quoted s"
  by (cases s) simp_all

lemma tok_quoted_plain:
  "c \<noteq> dquote \<Longrightarrow> c \<noteq> bslash \<Longrightarrow> tok_quoted (c # s) = apsnd Suc (tok_quoted s)"
  by (simp add: tok_quoted.simps)

lemma tok_quoted_escape: "tok_quoted (bslash # d # s) = apsnd (\<lambda>n. n + 2) (tok_quoted s)"
  by (simp add: tok_quoted.simps)

text \<open>A printed quoted string ends at the quote the printer appends.\<close>

lemma tok_quoted_print:
  "tok_quoted (print_quoted x @ dquote # r) = (True, length (print_quoted x))"
proof (induction x rule: print_quoted.induct)
  case (2 c)
  then show ?case
    by (cases "c = dquote \<or> c = bslash") (auto simp: tok_quoted.simps)
next
  case (3 c d s)
  consider "c = dquote" | "c = bslash" | "c \<noteq> dquote" "c \<noteq> bslash"
    by blast
  then show ?case
    by cases (use 3 in \<open>auto simp: tok_quoted_escape tok_quoted_plain\<close>)
qed (simp add: tok_quoted.simps)

text \<open>The text of a quoted string that the lexer found closed prints as itself.\<close>

lemma print_quoted_lexed:
  "fst (tok_quoted p) \<Longrightarrow> print_quoted (take (snd (tok_quoted p)) p) = take (snd (tok_quoted p)) p"
proof (induction p rule: tok_quoted.induct)
  case (2 c p)
  consider "c = dquote" | "c = bslash" | "c \<noteq> dquote" "c \<noteq> bslash"
    by blast
  then show ?case
  proof cases
    case 2
    with "2.prems" obtain d q where "p = d # q"
      by (cases p) (simp_all add: tok_quoted.simps)
    with 2 "2.IH" "2.prems" show ?thesis
      by (simp add: tok_quoted_escape)
  qed (use 2 in \<open>auto simp: tok_quoted.simps print_quoted_plain\<close>)
qed simp

text \<open>The value of a quoted string: the escapes taken out, as \<open>rfc822_prname_orlist\<close> does.\<close>

fun dequote :: "string \<Rightarrow> string" where
  "dequote [] = []"
| "dequote [c] = [c]"
| "dequote (c # d # s) = (if c = bslash then d # dequote s else c # dequote (d # s))"

lemma dequote_plain: "c \<noteq> bslash \<Longrightarrow> dequote (c # s) = c # dequote s"
  by (cases s) simp_all

lemma dequote_print_quoted: "dequote (print_quoted x) = dequote x"
proof (induction x rule: print_quoted.induct)
  case (3 c d s)
  consider "c = dquote" | "c = bslash" | "c \<noteq> dquote" "c \<noteq> bslash"
    by blast
  then show ?case
    by cases (use 3 in \<open>auto simp: dequote_plain print_quoted_plain\<close>)
qed auto

subsection \<open>Comments\<close>

lemma tok_comment_open: "tok_comment level (CHR ''('' # p) = apsnd Suc (tok_comment (level + 1) p)"
  by (simp add: tok_comment.simps)

lemma tok_comment_close:
  "tok_comment level (CHR '')'' # p) =
    (if level - 1 = 0 then (True, 1) else apsnd Suc (tok_comment (level - 1) p))"
  by (simp add: tok_comment.simps Let_def)

lemma tok_comment_escape:
  "tok_comment level (bslash # d # p) = apsnd (\<lambda>n. n + 2) (tok_comment level p)"
  by (simp add: tok_comment.simps)

lemma tok_comment_plain:
  "c \<noteq> CHR ''('' \<Longrightarrow> c \<noteq> CHR '')'' \<Longrightarrow> c \<noteq> bslash \<Longrightarrow>
    tok_comment level (c # p) = apsnd Suc (tok_comment level p)"
  by (simp add: tok_comment.simps Let_def)

lemmas tok_comment_rules =
  tok_comment_open tok_comment_close tok_comment_escape tok_comment_plain

lemma tok_comment_take:
  "fst (tok_comment level p) \<Longrightarrow>
    tok_comment level (take (snd (tok_comment level p)) p @ r) = tok_comment level p"
proof (induction level p rule: tok_comment.induct)
  case (2 level c p)
  consider "c = CHR ''(''" | "c = CHR '')''" | (last) "c = bslash" "p = []"
    | (esc) d q where "c = bslash" "p = d # q"
    | "c \<noteq> CHR ''(''" "c \<noteq> CHR '')''" "c \<noteq> bslash"
    by (cases p) auto
  then show ?case
    by cases (use 2 in \<open>auto simp: tok_comment_rules tok_comment.simps Let_def\<close>)
qed (simp add: tok_comment.simps)

subsection \<open>Printing by text\<close>

definition vprint_token :: "tokview \<Rightarrow> string" where
  "vprint_token v =
     (if fst v = nul \<or> fst v = CHR ''('' then snd v
      else if fst v \<noteq> dquote then [fst v]
      else dquote # print_quoted (snd v) @ [dquote])"

fun vprint :: "bool \<Rightarrow> tokview list \<Rightarrow> string" where
  "vprint prev [] = []"
| "vprint prev (v # vs) =
     (if prev \<and> rfc822_is_atom (fst v) then [sp] else []) @ vprint_token v
     @ vprint (rfc822_is_atom (fst v)) vs"

lemma tok_print_loop_vprint: "tok_print_loop buf prev ts = vprint prev (map (tview buf) ts)"
  by (induction ts arbitrary: prev) (simp_all add: tview_def vprint_token_def print_token_def)

lemma vprint_nonatom:
  "\<not> rfc822_is_atom k \<Longrightarrow> vprint b ((k, x) # vs) = vprint False ((k, x) # vs)"
  by simp

text \<open>
  The fake atom of the null address prints nothing and no space either, since a closing
  bracket follows it, so the tokens of a string print as their texts do.
\<close>

lemma lexv_gt: "lexv (CHR ''>'' # p) True = (CHR ''>'', ''>'') # lexv p False"
  by (simp add: tok_step_def isspace_def rfc_atoms_def tviews_def tview_def tok_text_def
      real_tok_def)

lemma tviews_one:
  "real_tok (tview buf t) \<Longrightarrow> tviews buf [t] = [tview buf t]"
  by (simp add: tviews_def)

lemma real_tok_kind: "k \<noteq> nul \<Longrightarrow> real_tok (k, x)"
  by (simp add: real_tok_def)

lemma vprint_tokenize:
  "drop i buf = p \<Longrightarrow>
    vprint b (map (tview buf) (fst (tokenize_loop True i p inb))) = vprint b (lexv p inb)"
proof (induction True i p inb arbitrary: b rule: tokenize_loop.induct)
  case (2 i c p inb)
  obtain ts es n inb' where step: "tok_step 0 c p inb = (ts, es, n, inb')"
    by (metis prod.collapse)
  then have stepi: "tok_step i c p inb = (map (tok_shift i) ts, map ((+) i) es, n, inb')"
    by (simp add: tok_step_shift [of i])
  define q where "q = drop n (c # p)"
  have "drop (i + n) buf = q"
    using "2.prems" by (metis add.commute drop_drop q_def)
  then have IH: "vprint b (map (tview buf) (fst (tokenize_loop True (i + n) q inb')))
      = vprint b (lexv q inb')" for b
    using "2.hyps" [OF stepi [symmetric] refl refl, of b] by (simp add: q_def)
  have lhs: "fst (tokenize_loop True i (c # p) inb)
      = map (tok_shift i) ts @ fst (tokenize_loop True (i + n) q inb')"
    by (simp add: stepi q_def case_prod_unfold)
  have views: "map (tview buf) (map (tok_shift i) ts) = map (tview (c # p)) ts"
    using "2.prems" by (simp add: tview_shift)
  have rhs: "lexv (c # p) inb = tviews (c # p) ts @ lexv q inb'"
    by (simp add: step q_def)
  show ?case
  proof (cases "\<forall>t \<in> set ts. real_tok (tview (c # p) t)")
    case True
    then have "tviews (c # p) ts = map (tview (c # p)) ts"
      by (simp add: tviews_def)
    moreover have "vprint b (vs @ map (tview buf) (fst (tokenize_loop True (i + n) q inb')))
        = vprint b (vs @ lexv q inb')" for b vs
      by (induction vs arbitrary: b) (simp_all add: IH)
    ultimately show ?thesis
      by (simp only: lhs rhs views map_append)
  next
    case False
    have "c = CHR ''<'' \<and> cread p = CHR ''>'' \<and> n = 1 \<and> inb' \<and>
      ts = [\<lparr>token = c, ptr = Some 0, tlen = 1\<rparr>, \<lparr>token = nul, ptr = None, tlen = 0\<rparr>]"
      using step
    proof (cases rule: tok_step_cases)
      case rfc_atom
      with False show ?thesis
        by (auto simp: real_tok_def tview_def tok_text_def rfc_atoms_def split: if_splits)
    next
      case atom
      with False show ?thesis
        by (auto simp: real_tok_def tview_def tok_text_def)
    qed (use False in \<open>auto simp: real_tok_def tview_def\<close>)
    then have fake: "c = CHR ''<''" "cread p = CHR ''>''" "n = 1" "inb'"
      "ts = [\<lparr>token = c, ptr = Some 0, tlen = 1\<rparr>, \<lparr>token = nul, ptr = None, tlen = 0\<rparr>]"
      by blast+
    from fake(2) obtain p' where p: "p = CHR ''>'' # p'"
      by (cases p) auto
    then have q: "q = CHR ''>'' # p'"
      by (simp add: q_def fake)
    have gt: "\<not> rfc822_is_atom CHR ''>''"
      by (simp add: rfc822_is_atom_def)
    have "vprint True (lexv q inb') = vprint False (lexv q inb')"
      using vprint_nonatom [OF gt] by (simp only: q fake lexv_gt simp_thms)
    then show ?thesis
      using IH by (simp only: lhs rhs views map_append)
        (simp add: fake(5) tviews_def tview_def tok_text_def real_tok_def fake(1)
          vprint_token_def rfc822_is_atom_def)
  qed
qed simp

subsection \<open>What is printed lexes back\<close>

text \<open>The token texts an error-free run of the lexer produces.\<close>

fun wfv :: "bool \<Rightarrow> tokview list \<Rightarrow> bool" where
  "wfv inb [] \<longleftrightarrow> True"
| "wfv inb ((k, x) # vs) \<longleftrightarrow>
     (if k = nul then x \<noteq> [] \<and> list_all is_atomchar x \<and> wfv inb vs
      else if k = CHR ''('' then
        x \<noteq> [] \<and> hd x = CHR ''('' \<and> tok_comment 0 x = (True, length x) \<and> wfv inb vs
      else if k = dquote then print_quoted x = x \<and> wfv inb vs
      else k \<in> set rfc_atoms \<and> x = [k] \<and> (k = CHR ''<'' \<longrightarrow> \<not> inb) \<and> (k = CHR ''>'' \<longrightarrow> inb) \<and>
        wfv (if k = CHR ''<'' then True else if k = CHR ''>'' then False else inb) vs)"

lemma takeWhile_take: "takeWhile P xs = take (length (takeWhile P xs)) xs"
  by (metis append_eq_conv_conj takeWhile_dropWhile_id)

lemma wfv_step:
  assumes step: "tok_step 0 c p inb = (ts, [], n, inb')" and "wfv inb' vs"
  shows "wfv inb (tviews (c # p) ts @ vs)"
  using step
proof (cases rule: tok_step_cases)
  case comment
  then show ?thesis
    using assms(2) tok_comment_take [of 0 "c # p" "[]"] tok_comment_bounds [of 0 "c # p"]
    by (cases n) (auto simp: tviews_def tview_def tok_text_def real_tok_def prod_eq_iff)
next
  case quoted
  then show ?thesis
    using assms(2) print_quoted_lexed [of p]
    by (auto simp: tviews_def tview_def tok_text_def real_tok_def)
next
  case atom
  then show ?thesis
    using assms(2) takeWhile_take [of is_atomchar "c # p"]
    by (auto simp: tviews_def tview_def tok_text_def real_tok_def list_all_iff
        dest: set_takeWhileD)
next
  case rfc_atom
  have "c \<noteq> nul" "c \<noteq> dquote" "c \<noteq> CHR ''(''"
    using rfc_atom(2) by (auto simp: rfc_atoms_def)
  then show ?thesis
    using assms(2) rfc_atom
    by (auto simp: tviews_def tview_def tok_text_def real_tok_def split: if_splits)
qed (use assms(2) in \<open>auto simp: tviews_def\<close>)

lemma lexv_wfv:
  "snd (snd (tokenize_loop True i p inb)) = [] \<Longrightarrow> wfv inb (lexv p inb)"
proof (induction True i p inb rule: tokenize_loop.induct)
  case (2 i c p inb)
  obtain ts es n inb' where step: "tok_step 0 c p inb = (ts, es, n, inb')"
    by (metis prod.collapse)
  then have stepi: "tok_step i c p inb = (map (tok_shift i) ts, map ((+) i) es, n, inb')"
    by (simp add: tok_step_shift [of i])
  from "2.prems" have es: "es = []"
    and rest: "snd (snd (tokenize_loop True (i + n) (drop n (c # p)) inb')) = []"
    by (auto simp: stepi case_prod_unfold)
  from rest have "wfv inb' (lexv (drop n (c # p)) inb')"
    by (rule "2.hyps" [OF stepi [symmetric] refl refl])
  with wfv_step step es show ?case
    by (simp add: step)
qed simp

lemma lexv_space: "isspace c \<Longrightarrow> lexv (c # p) inb = lexv p inb"
  by (simp add: tok_step_def)

lemma lexv_atom:
  assumes "x \<noteq> []" "list_all is_atomchar x" "r = [] \<or> \<not> is_atomchar (hd r)"
  shows "lexv (x @ r) inb = (nul, x) # lexv r inb"
proof -
  obtain c x' where x: "x = c # x'"
    using assms(1) by (cases x) auto
  have c: "is_atomchar c"
    using assms(2) x by simp
  have tw: "takeWhile is_atomchar (x @ r) = x"
    using assms(2,3) by (cases r) (auto simp: list_all_iff takeWhile_append)
  have "tok_step 0 c (x' @ r) inb = ([\<lparr>token = nul, ptr = Some 0, tlen = length x\<rparr>], [], length x, inb)"
    using c tw x
    by (auto simp: tok_step_def Let_def is_atomchar_def atom_stops_def rfc_atoms_def)
  then show ?thesis
    by (simp add: x tviews_def tview_def tok_text_def real_tok_def)
qed

lemma lexv_comment:
  assumes "x \<noteq> []" "hd x = CHR ''(''" "tok_comment 0 x = (True, length x)"
  shows "lexv (x @ r) inb = (CHR ''('', x) # lexv r inb"
proof -
  obtain x' where x: "x = CHR ''('' # x'"
    using assms(1,2) by (cases x) auto
  have "tok_comment 0 (CHR ''('' # x' @ r) = (True, length x)"
    using tok_comment_take [of 0 x r] assms(3) x by simp
  then have "tok_step 0 (CHR ''('') (x' @ r) inb
      = ([\<lparr>token = CHR ''('', ptr = Some 0, tlen = length x\<rparr>], [], length x, inb)"
    by (simp add: tok_step_def isspace_def)
  then show ?thesis
    by (simp add: x tviews_def tview_def tok_text_def real_tok_def)
qed

lemma lexv_quoted:
  "lexv (dquote # print_quoted x @ dquote # r) inb = (dquote, print_quoted x) # lexv r inb"
proof -
  have "tok_step 0 dquote (print_quoted x @ dquote # r) inb
      = ([\<lparr>token = dquote, ptr = Some 1, tlen = length (print_quoted x)\<rparr>], [],
         length (print_quoted x) + 2, inb)"
    by (simp add: tok_step_def isspace_def tok_quoted_print)
  then show ?thesis
    by (simp add: tviews_def tview_def tok_text_def real_tok_def)
qed

lemma lexv_rfc_atom:
  assumes "k \<in> set rfc_atoms" "k = CHR ''<'' \<longrightarrow> \<not> inb" "k = CHR ''>'' \<longrightarrow> inb"
  shows "lexv (k # r) inb =
    (k, [k]) # lexv r (if k = CHR ''<'' then True else if k = CHR ''>'' then False else inb)"
proof -
  have "\<not> isspace k" "k \<noteq> CHR ''(''" "k \<noteq> dquote" "k \<noteq> bslash" "k \<noteq> CHR '')''" "k \<noteq> nul"
    using assms(1) by (auto simp: rfc_atoms_def isspace_def)
  with assms show ?thesis
    by (auto simp: tok_step_def tviews_def tview_def tok_text_def real_tok_def)
qed

text \<open>A word is always separated from what is printed after it.\<close>

lemma vprint_boundary:
  "wfv inb vs \<Longrightarrow> vprint True vs = [] \<or> \<not> is_atomchar (hd (vprint True vs))"
proof (cases vs)
  case (Cons v vs')
  moreover obtain k x where v: "v = (k, x)" by force
  moreover assume "wfv inb vs"
  ultimately show ?thesis
    by (cases "rfc822_is_atom k")
      (auto simp: vprint_token_def rfc822_is_atom_def is_atomchar_def isspace_def rfc_atoms_def
        atom_stops_def split: if_splits)
qed simp

lemma lexv_vprint: "wfv inb vs \<Longrightarrow> lexv (vprint b vs) inb = vs"
proof (induction vs arbitrary: b inb)
  case (Cons v vs)
  obtain k x where v: "v = (k, x)" by force
  have space: "lexv (sp # p) inb = lexv p inb" for p
    by (rule lexv_space) (simp add: isspace_def)
  consider "k = nul" | "k = CHR ''(''" | "k = dquote" | "k \<noteq> nul" "k \<noteq> CHR ''(''" "k \<noteq> dquote"
    by blast
  then have "lexv (vprint_token v @ vprint (rfc822_is_atom k) vs) inb = v # vs"
  proof cases
    case 1
    with Cons v show ?thesis
      using vprint_boundary lexv_atom
      by (auto simp: vprint_token_def rfc822_is_atom_def)
  next
    case 2
    with Cons v show ?thesis
      using lexv_comment by (auto simp: vprint_token_def rfc822_is_atom_def)
  next
    case 3
    with Cons v show ?thesis
      using lexv_quoted [of x] by (simp add: vprint_token_def rfc822_is_atom_def)
  next
    case 4
    with Cons v show ?thesis
      using lexv_rfc_atom by (auto simp: vprint_token_def)
  qed
  then show ?case
    using space v by auto
qed simp

text \<open>
  C8. Printing a parsed header gives it back: for a string the lexer accepts without an error,
  the tokens printed by \<open>rfc822tok_print\<close> lex to the same tokens, each of the same kind and with
  the same text, in the same order (the fake empty atoms of \<^verbatim>\<open><>\<close> aside). So unparsing an
  address never merges, splits or re-reads a token.
\<close>

theorem tok_print_roundtrip:
  assumes "snd (snd (tokenize True addr)) = []"
  shows "tviews (rfc822tok_print addr (fst (tokenize True addr)))
           (fst (tokenize True (rfc822tok_print addr (fst (tokenize True addr)))))
         = tviews addr (fst (tokenize True addr))"
proof -
  have "rfc822tok_print addr (fst (tokenize True addr)) = vprint False (lexv addr False)"
    by (simp add: rfc822tok_print_def tok_print_loop_vprint tokenize_def vprint_tokenize)
  moreover have "wfv False (lexv addr False)"
    using assms by (simp add: tokenize_def lexv_wfv)
  ultimately show ?thesis
    by (simp only: tokenize_lexv lexv_vprint)
qed

lemmas tok_eval =
  tok_step_def tok_comment.simps tok_quoted.simps isspace_def rfc_atoms_def is_atomchar_def
  atom_stops_def Let_def

theorem tok_print_roundtrip_witness:
  "tviews (rfc822tok_print ''a \"b c\" <d@e>'' (fst (tokenize True ''a \"b c\" <d@e>'')))
     (fst (tokenize True (rfc822tok_print ''a \"b c\" <d@e>'' (fst (tokenize True ''a \"b c\" <d@e>'')))))
   = tviews ''a \"b c\" <d@e>'' (fst (tokenize True ''a \"b c\" <d@e>'')) \<and>
   length (fst (tokenize True ''a \"b c\" <d@e>'')) = 7"
proof -
  have "snd (snd (tokenize True ''a \"b c\" <d@e>'')) = []"
    and "length (fst (tokenize True ''a \"b c\" <d@e>'')) = 7"
    by (simp_all add: tokenize_def tok_eval)
  then show ?thesis
    using tok_print_roundtrip by blast
qed

text \<open>
  A quoted token cannot break out of its quotes: whatever text a token of kind quoted string
  holds (a real name, or a comment turned into one), what \<open>print_token\<close> writes for it is lexed
  as exactly one quoted string followed by whatever comes next, and removing the escapes gives
  the value of the original text.
\<close>

theorem quoted_token_contained:
  assumes "token t = dquote"
  shows "lexv (print_token buf t @ r) inb = (dquote, print_quoted (tok_text buf t)) # lexv r inb \<and>
    dequote (print_quoted (tok_text buf t)) = dequote (tok_text buf t)"
  using assms lexv_quoted by (simp add: print_token_def dequote_print_quoted)

theorem quoted_token_contained_witness:
  "lexv (print_token ''(x\" <y@z>)'' \<lparr>token = dquote, ptr = Some 0, tlen = 10\<rparr> @ '', q'') False =
    (dquote, ''(x'' @ [bslash, dquote] @ '' <y@z>)'') # lexv '', q'' False"
  using quoted_token_contained
    [of "\<lparr>token = dquote, ptr = Some 0, tlen = 10\<rparr>" "''(x\" <y@z>)''" "'', q''" False]
  by (simp add: tok_text_def)

end
