(* ===== verification/Rfc822_Addr.thy ===== *)
theory Rfc822_Addr
  imports Rfc822_Print
begin

text \<open>
  The address parser and the address printers of \<^verbatim>\<open>rfc822/rfc822.c\<close>,
  \<^verbatim>\<open>rfc822_getaddr.c\<close> and \<^verbatim>\<open>rfc822_getaddrs.c\<close>. The parser works on the token array in
  place and links tokens into chains with their \<open>next\<close> pointers; the chains of one address lie
  in the segment of the array that the address consumes, so a chain is the list of its tokens
  (NULL is the empty list). The flag \<open>withaddrs\<close> is whether the \<^verbatim>\<open>addrs\<close> array is there: the
  code first runs the parser with NULL to count the addresses.

  The difference of two token pointers, computed when a phrase is turned into one quoted
  string, is only defined in C when both point into the parsed string, and must not be negative;
  a parse that subtracts the pointer of the fake null address or gets a negative length is
  \<open>None\<close>.
\<close>

subsection \<open>The parser\<close>

record rfc822addr =
  atokens :: "rfc822token list"
  aname :: "rfc822token list"

definition is_word :: "rfc822token \<Rightarrow> bool" where
  "is_word t \<longleftrightarrow> token t = nul \<or> token t = dquote"

text \<open>\<^verbatim>\<open>tokens[i-1].ptr + tokens[i-1].len - tokens->ptr\<close>\<close>

definition tok_span :: "rfc822token \<Rightarrow> rfc822token \<Rightarrow> nat option" where
  "tok_span t u =
     (case (ptr t, ptr u) of (Some a, Some b) \<Rightarrow> if a \<le> b + tlen u then Some (b + tlen u - a) else None
      | _ \<Rightarrow> None)"

text \<open>
  The phrase before \<^verbatim>\<open><\<close>: atoms and comments are kept, anything else is made one quoted string
  over the whole phrase. Comments of the phrase become quoted strings.
\<close>

definition phrase_tokens :: "rfc822token list \<Rightarrow> rfc822token list option" where
  "phrase_tokens ts =
     (if list_all (\<lambda>t. token t = nul \<or> token t = CHR ''('') ts then Some ts
      else map_option (\<lambda>l. [(hd ts)\<lparr>token := dquote, tlen := l\<rparr>]) (tok_span (hd ts) (last ts)))"

definition requote :: "rfc822token \<Rightarrow> rfc822token" where
  "requote t = (if token t = CHR ''('' then t\<lparr>token := dquote\<rparr> else t)"

text \<open>Where an old style address ends: at a comma, a semicolon, or two atoms in a row.\<close>

fun old_style_end :: "bool \<Rightarrow> rfc822token list \<Rightarrow> nat" where
  "old_style_end flag [] = 0"
| "old_style_end flag (t # ts) =
     (if token t = CHR '','' \<or> token t = CHR '';'' then 0
      else if token t = CHR ''('' then Suc (old_style_end flag ts)
      else if token t = nul \<or> token t = dquote then (if flag then 0 else Suc (old_style_end True ts))
      else Suc (old_style_end False ts))"

definition old_style_addr :: "rfc822token list \<Rightarrow> rfc822addr" where
  "old_style_addr seg =
     (let comments = filter (\<lambda>t. token t = CHR ''('') seg
      in \<lparr>atokens = filter (\<lambda>t. token t \<noteq> CHR ''('') seg,
          aname = (if comments = [] then [] else [last comments])\<rparr>)"

text \<open>
  One turn of \<open>parseaddr\<close>: how many tokens it consumes and the entry it appends, if any. A
  turn is \<open>None\<close> when the C code would subtract unrelated pointers.
\<close>

definition parse_step :: "bool \<Rightarrow> rfc822token list \<Rightarrow> (nat \<times> rfc822addr option) option" where
  "parse_step withaddrs ts =
     (let i = length (takeWhile is_word ts)
      in if i < length ts \<and> token (ts ! i) = CHR '':''
         then Some (i + 1, Some \<lparr>atokens = [], aname = take (i + 1) ts\<rparr>)
         else if token (hd ts) = CHR '','' then Some (1, None)
         else if token (hd ts) = CHR '';'' then Some (1, Some \<lparr>atokens = [], aname = [hd ts]\<rparr>)
         else
           let i = length (takeWhile (\<lambda>t. token t \<notin> {CHR '';'', CHR '','', CHR ''<''}) ts)
           in if i < length ts \<and> token (ts ! i) = CHR ''<''
              then
                let route = takeWhile (\<lambda>t. token t \<noteq> CHR ''>'') (drop (i + 1) ts);
                    used = i + 1 + length route;
                    used' = (if used < length ts then used + 1 else used)
                in if withaddrs
                   then map_option
                     (\<lambda>name. (used', Some \<lparr>atokens = route, aname = map requote name\<rparr>))
                     (phrase_tokens (take i ts))
                   else Some (used', Some \<lparr>atokens = [], aname = []\<rparr>)
              else
                let i = old_style_end False ts
                in if i = 0 then Some (1, None)
                   else Some (i, Some (old_style_addr (take i ts))))"

lemma old_style_end_le: "old_style_end flag ts \<le> length ts"
  by (induction flag ts rule: old_style_end.induct) auto

lemma parse_step_consumes:
  "parse_step w ts = Some (n, a) \<Longrightarrow> ts \<noteq> [] \<Longrightarrow> 1 \<le> n \<and> n \<le> length ts"
  using old_style_end_le [of False ts]
    length_takeWhile_le [of "\<lambda>t. token t \<noteq> CHR ''>''"
      "drop (length (takeWhile (\<lambda>t. token t \<notin> {CHR '';'', CHR '','', CHR ''<''}) ts) + 1) ts"]
  by (auto simp: parse_step_def Let_def Suc_le_eq split: if_splits)

text \<open>
  The loop: the entries stored and \<^verbatim>\<open>*naddrs\<close>. In the counting pass nothing is stored.
\<close>

function parseaddr :: "bool \<Rightarrow> rfc822token list \<Rightarrow> (rfc822addr list \<times> nat) option" where
  "parseaddr w [] = Some ([], 0)"
| "parseaddr w (t # ts) =
     (case parse_step w (t # ts) of
        None \<Rightarrow> None
      | Some (n, a) \<Rightarrow>
          (case parseaddr w (drop n (t # ts)) of
             None \<Rightarrow> None
           | Some (as, m) \<Rightarrow>
               Some (case a of None \<Rightarrow> (as, m) | Some ad \<Rightarrow> (if w then ad # as else as, m + 1))))"
  by pat_completeness auto
termination
  by (relation "measure (\<lambda>(w, ts). length ts)") (auto dest!: parse_step_consumes)

text \<open>The counting pass and the filling pass agree.\<close>

lemma parse_step_passes:
  "parse_step True ts = Some (n, a) \<Longrightarrow>
    \<exists>a'. parse_step False ts = Some (n, a') \<and> (a = None \<longleftrightarrow> a' = None)"
  by (auto simp: parse_step_def Let_def split: if_splits)

lemma parseaddr_passes:
  "parseaddr True ts = Some (as, m) \<Longrightarrow> parseaddr False ts = Some ([], m) \<and> length as = m"
proof (induction True ts arbitrary: as m rule: parseaddr.induct)
  case (2 t ts)
  from "2.prems" obtain n a as' m' where
    step: "parse_step True (t # ts) = Some (n, a)"
    and rest: "parseaddr True (drop n (t # ts)) = Some (as', m')"
    and out: "(as, m) = (case a of None \<Rightarrow> (as', m') | Some ad \<Rightarrow> (ad # as', m' + 1))"
    by (auto split: option.splits prod.splits)
  from "2.hyps" [OF step refl rest] parse_step_passes [OF step] out show ?case
    by (auto split: option.splits)
qed simp

subsection \<open>The pointer arithmetic of the parser is defined\<close>

text \<open>
  What the lexer guarantees about an array of tokens: positions increase and stay below \<open>hi\<close>, and
  the null address follows an opening angle bracket (\<open>prev\<close> is whether the token before was one).
\<close>

fun tchain :: "nat \<Rightarrow> nat \<Rightarrow> bool \<Rightarrow> rfc822token list \<Rightarrow> bool" where
  "tchain lo hi prev [] \<longleftrightarrow> True"
| "tchain lo hi prev (t # ts) \<longleftrightarrow>
     (case ptr t of
        None \<Rightarrow> prev \<and> tlen t = 0 \<and> token t = nul \<and> tchain lo hi False ts
      | Some k \<Rightarrow> lo \<le> k \<and> k + tlen t \<le> hi \<and> tchain (k + tlen t) hi (token t = CHR ''<'') ts)"

lemma tchain_mono: "tchain lo hi prev ts \<Longrightarrow> lo' \<le> lo \<Longrightarrow> (prev \<longrightarrow> prev') \<Longrightarrow> tchain lo' hi prev' ts"
proof (induction ts arbitrary: lo prev lo' prev')
  case (Cons u ts)
  show ?case
    by (cases "ptr u") (use Cons in auto)
qed simp

lemma tchain_tokenize_loop: "tchain i (i + length p) False (fst (tokenize_loop True i p inb))"
proof (induction True i p inb rule: tokenize_loop.induct)
  case (2 i c p inb)
  obtain ts es n inb' where step: "tok_step i c p inb = (ts, es, n, inb')"
    by (metis prod.collapse)
  note n = tok_step_consumes [OF step]
  define us where "us = fst (tokenize_loop True (i + n) (drop n (c # p)) inb')"
  have len: "i + n + length (drop n (c # p)) = i + length (c # p)"
    using n by simp
  have IH: "tchain (i + n) (i + length (c # p)) False us"
    using "2.hyps" [OF step [symmetric] refl refl] unfolding us_def len .
  have IH': "lo \<le> i + n \<Longrightarrow> tchain lo (i + length (c # p)) b us" for lo b
    using tchain_mono [OF IH, of lo b] by simp
  have lhs: "fst (tokenize_loop True i (c # p) inb) = ts @ us"
    by (simp add: step us_def case_prod_unfold)
  from step have "tchain i (i + length (c # p)) False (ts @ us)"
  proof (cases rule: tok_step_cases)
    case rfc_atom
    with IH' [of "i + 1"] n show ?thesis by auto
  qed (use n IH' in auto)
  then show ?case
    by (simp only: lhs)
qed simp

lemma tchain_append:
  "tchain lo hi prev (xs @ ys) \<Longrightarrow>
    \<exists>lo'. lo \<le> lo' \<and> tchain lo' hi (if xs = [] then prev else token (last xs) = CHR ''<'') ys"
proof (induction xs arbitrary: lo prev)
  case (Cons t xs)
  show ?case
  proof (cases "ptr t")
    case None
    with Cons.prems have "tchain lo hi False (xs @ ys)" "token t = nul" by auto
    with Cons.IH [of lo False] obtain lo' where
      "lo \<le> lo'" "tchain lo' hi (if xs = [] then False else token (last xs) = CHR ''<'') ys"
      by blast
    with \<open>token t = nul\<close> show ?thesis by (intro exI [of _ lo']) (auto split: if_splits)
  next
    case (Some k)
    with Cons.prems have k: "lo \<le> k" "tchain (k + tlen t) hi (token t = CHR ''<'') (xs @ ys)"
      by auto
    from Cons.IH [OF k(2)] obtain lo' where
      "k + tlen t \<le> lo'"
      "tchain lo' hi (if xs = [] then token t = CHR ''<'' else token (last xs) = CHR ''<'') ys"
      by blast
    with k(1) show ?thesis by (intro exI [of _ lo']) (auto split: if_splits)
  qed
qed auto

lemma tchain_prefix: "tchain lo hi prev (xs @ ys) \<Longrightarrow> tchain lo hi prev xs"
  by (induction lo hi prev xs rule: tchain.induct) (auto split: option.splits)

lemma tchain_drop:
  assumes "tchain lo hi False ts" and "n = 0 \<or> length ts \<le> n \<or> token (ts ! (n - 1)) \<noteq> CHR ''<''"
  shows "\<exists>lo'. tchain lo' hi False (drop n ts)"
proof (cases "n = 0 \<or> length ts \<le> n")
  case False
  then have "ts \<noteq> []" "0 < n" "n < length ts" by auto
  then have "take n ts \<noteq> []" "last (take n ts) = ts ! (n - 1)"
    by (simp_all add: last_conv_nth)
  with assms False tchain_append [of lo hi False "take n ts" "drop n ts"] show ?thesis
    by auto
qed (use assms in auto)

lemma tchain_bounds:
  "tchain lo hi prev ts \<Longrightarrow> t \<in> set ts \<Longrightarrow>
    ptr t = None \<and> tlen t = 0 \<or> (\<exists>k. ptr t = Some k \<and> lo \<le> k \<and> k + tlen t \<le> hi)"
proof (induction ts arbitrary: lo prev)
  case (Cons u ts)
  show ?case
  proof (cases "ptr u")
    case None
    with Cons.prems(1) have "tchain lo hi False ts" "tlen u = 0" by auto
    with Cons.IH [of lo False] Cons.prems(2) None show ?thesis by auto
  next
    case (Some k)
    with Cons.prems(1) have k: "tchain (k + tlen u) hi (token u = CHR ''<'') ts" "lo \<le> k" "k + tlen u \<le> hi"
      by auto
    then have "tchain lo hi (token u = CHR ''<'') ts"
      using tchain_mono [OF k(1), of lo] by simp
    moreover have "t = u \<or> t \<in> set ts"
      using Cons.prems(2) by auto
    ultimately show ?thesis
      using Cons.IH [of lo "token u = CHR ''<''"] Some k by auto
  qed
qed simp

text \<open>Without an opening bracket before it, no token of a segment is the null address.\<close>

lemma tchain_no_null:
  "tchain lo hi False ts \<Longrightarrow> \<forall>t \<in> set ts. token t \<noteq> CHR ''<'' \<Longrightarrow> t \<in> set ts \<Longrightarrow>
    \<exists>k. ptr t = Some k \<and> lo \<le> k"
proof (induction ts arbitrary: lo)
  case (Cons u ts)
  then obtain k where u: "ptr u = Some k" "lo \<le> k" "tchain (k + tlen u) hi False ts"
    by (auto split: option.splits)
  with Cons show ?case by fastforce
qed simp

lemma phrase_defined:
  assumes chain: "tchain lo hi False ts" and nolt: "\<forall>t \<in> set ts. token t \<noteq> CHR ''<''"
  shows "\<exists>us. phrase_tokens ts = Some us \<and>
    (\<forall>t \<in> set us. \<exists>k. ptr t = Some k \<and> k + tlen t \<le> hi)"
proof (cases "list_all (\<lambda>t. token t = nul \<or> token t = CHR ''('') ts")
  case True
  then show ?thesis
    using tchain_no_null [OF chain nolt] tchain_bounds [OF chain] by (fastforce simp: phrase_tokens_def)
next
  case False
  then obtain t us where ts: "ts = t # us"
    by (cases ts) auto
  obtain a where a: "ptr t = Some a"
    using tchain_no_null [OF chain nolt, of t] ts by auto
  obtain b where b: "ptr (last ts) = Some b" "b + tlen (last ts) \<le> hi"
    using tchain_no_null [OF chain nolt last_in_set] tchain_bounds [OF chain last_in_set] ts
    by fastforce
  have "a \<le> b + tlen (last ts)"
  proof (cases "us = []")
    case False
    then have "last ts \<in> set us" and "\<forall>t \<in> set us. token t \<noteq> CHR ''<''"
      using ts nolt by auto
    moreover have "tchain (a + tlen t) hi False us"
      using chain nolt ts a by simp
    ultimately show ?thesis
      using tchain_no_null [of "a + tlen t" hi us "last ts"] b by auto
  qed (use a b ts in auto)
  with False a b ts show ?thesis
    by (auto simp: phrase_tokens_def tok_span_def)
qed

lemma old_style_end_no_lt:
  "(\<And>i. i = length (takeWhile (\<lambda>t. token t \<notin> {CHR '';'', CHR '','', CHR ''<''}) ts) \<Longrightarrow>
     i < length ts \<Longrightarrow> token (ts ! i) \<noteq> CHR ''<'') \<Longrightarrow>
    t \<in> set (take (old_style_end flag ts) ts) \<Longrightarrow> token t \<noteq> CHR ''<''"
proof (induction flag ts rule: old_style_end.induct)
  case (2 flag u ts)
  have u: "token u \<noteq> CHR ''<'' \<or> token u = CHR '','' \<or> token u = CHR '';''"
    using "2.prems"(1) [of 0] by auto
  have "\<And>i. \<lbrakk>i = length (takeWhile (\<lambda>t. token t \<notin> {CHR '';'', CHR '','', CHR ''<''}) ts);
     i < length ts; token u \<noteq> CHR '',''; token u \<noteq> CHR '';''\<rbrakk> \<Longrightarrow> token (ts ! i) \<noteq> CHR ''<''"
    using "2.prems"(1) u by auto
  with 2 u show ?case by (auto split: if_splits)
qed simp

text \<open>One turn on tokens of the lexer is defined, and the tokens left are as the lexer made them.\<close>

definition addr_within :: "nat \<Rightarrow> rfc822addr \<Rightarrow> bool" where
  "addr_within hi a \<longleftrightarrow>
     (\<forall>t \<in> set (atokens a @ aname a).
        ptr t = None \<and> tlen t = 0 \<or> (\<exists>k. ptr t = Some k \<and> k + tlen t \<le> hi))"

lemma tchain_within:
  "tchain lo hi prev ts \<Longrightarrow> set (atokens a) \<subseteq> set ts \<Longrightarrow> set (aname a) \<subseteq> set ts \<Longrightarrow> addr_within hi a"
  using tchain_bounds by (fastforce simp: addr_within_def)

lemma takeWhile_nth_stop:
  "i = length (takeWhile P xs) \<Longrightarrow> i < length xs \<Longrightarrow> \<not> P (xs ! i)"
  using nth_length_takeWhile by fastforce

lemma parse_step_angle:
  assumes chain: "tchain lo hi False ts"
    and i: "i = length (takeWhile (\<lambda>t. token t \<notin> {CHR '';'', CHR '','', CHR ''<''}) ts)" "i < length ts"
  shows "\<exists>us. phrase_tokens (take i ts) = Some us \<and>
    addr_within hi \<lparr>atokens = takeWhile P (drop (i + 1) ts), aname = map requote us\<rparr>"
proof -
  have pre: "take i ts = takeWhile (\<lambda>t. token t \<notin> {CHR '';'', CHR '','', CHR ''<''}) ts"
    using i(1) takeWhile_take by metis
  have nolt: "\<forall>t \<in> set (take i ts). token t \<noteq> CHR ''<''"
    unfolding pre by (auto dest: set_takeWhileD)
  have "tchain lo hi False (take i ts)"
    using chain tchain_prefix [of lo hi False "take i ts" "drop i ts"] by simp
  from phrase_defined [OF this nolt] obtain us where us: "phrase_tokens (take i ts) = Some us"
    "\<forall>t \<in> set us. \<exists>k. ptr t = Some k \<and> k + tlen t \<le> hi"
    by blast
  have route: "set (takeWhile P (drop (i + 1) ts)) \<subseteq> set ts"
    by (auto dest: set_takeWhileD in_set_dropD)
  have "\<forall>t \<in> set (takeWhile P (drop (i + 1) ts)).
      ptr t = None \<and> tlen t = 0 \<or> (\<exists>k. ptr t = Some k \<and> k + tlen t \<le> hi)"
    using route tchain_bounds [OF chain] by blast
  moreover have "\<forall>t \<in> set (map requote us). \<exists>k. ptr t = Some k \<and> k + tlen t \<le> hi"
    using us(2) by (auto simp: requote_def)
  ultimately show ?thesis
    using us(1) by (auto simp: addr_within_def)
qed

lemma parse_step_defined:
  assumes chain: "tchain lo hi False ts" and ne: "ts \<noteq> []"
  shows "\<exists>n a. parse_step True ts = Some (n, a) \<and> (\<exists>lo'. tchain lo' hi False (drop n ts)) \<and>
    (\<forall>ad. a = Some ad \<longrightarrow> addr_within hi ad)"
proof -
  define i where "i = length (takeWhile is_word ts)"
  define j where "j = length (takeWhile (\<lambda>t. token t \<notin> {CHR '';'', CHR '','', CHR ''<''}) ts)"
  define route where "route = takeWhile (\<lambda>t. token t \<noteq> CHR ''>'') (drop (j + 1) ts)"
  define k where "k = old_style_end False ts"
  have hd: "hd ts = ts ! 0"
    using ne by (simp add: hd_conv_nth)
  have step: "parse_step True ts =
     (if i < length ts \<and> token (ts ! i) = CHR '':''
      then Some (i + 1, Some \<lparr>atokens = [], aname = take (i + 1) ts\<rparr>)
      else if token (hd ts) = CHR '','' then Some (1, None)
      else if token (hd ts) = CHR '';'' then Some (1, Some \<lparr>atokens = [], aname = [hd ts]\<rparr>)
      else if j < length ts \<and> token (ts ! j) = CHR ''<''
      then map_option (\<lambda>name. (if j + 1 + length route < length ts then j + 1 + length route + 1
          else j + 1 + length route, Some \<lparr>atokens = route, aname = map requote name\<rparr>))
        (phrase_tokens (take j ts))
      else if k = 0 then Some (1, None) else Some (k, Some (old_style_addr (take k ts))))"
    unfolding i_def j_def route_def k_def by (simp only: parse_step_def Let_def if_True)
  have within: "set (atokens a) \<subseteq> set ts \<Longrightarrow> set (aname a) \<subseteq> set ts \<Longrightarrow> addr_within hi a" for a
    using tchain_within [OF chain] .
  consider (group) "i < length ts \<and> token (ts ! i) = CHR '':''"
    | (punct) "\<not> (i < length ts \<and> token (ts ! i) = CHR '':'')"
        "token (hd ts) = CHR '','' \<or> token (hd ts) = CHR '';''"
    | (angle) "\<not> (i < length ts \<and> token (ts ! i) = CHR '':'')"
        "token (hd ts) \<noteq> CHR '',''" "token (hd ts) \<noteq> CHR '';''"
        "j < length ts \<and> token (ts ! j) = CHR ''<''"
    | (old) "\<not> (i < length ts \<and> token (ts ! i) = CHR '':'')"
        "token (hd ts) \<noteq> CHR '',''" "token (hd ts) \<noteq> CHR '';''"
        "\<not> (j < length ts \<and> token (ts ! j) = CHR ''<'')"
    by blast
  then show ?thesis
  proof cases
    case group
    then have "parse_step True ts = Some (i + 1, Some \<lparr>atokens = [], aname = take (i + 1) ts\<rparr>)"
      by (simp add: step)
    moreover have "\<exists>lo'. tchain lo' hi False (drop (i + 1) ts)"
      by (rule tchain_drop [OF chain]) (use group in auto)
    moreover have "addr_within hi \<lparr>atokens = [], aname = take (i + 1) ts\<rparr>"
      by (rule within) (auto dest: in_set_takeD)
    ultimately show ?thesis by blast
  next
    case punct
    have "\<exists>lo'. tchain lo' hi False (drop 1 ts)"
      by (rule tchain_drop [OF chain]) (use punct hd in auto)
    moreover have "addr_within hi \<lparr>atokens = [], aname = [hd ts]\<rparr>"
      by (rule within) (use ne in auto)
    ultimately show ?thesis
      using punct by (auto simp: step)
  next
    case angle
    then obtain us where us: "phrase_tokens (take j ts) = Some us"
      "addr_within hi \<lparr>atokens = route, aname = map requote us\<rparr>"
      using parse_step_angle [OF chain j_def] unfolding route_def by blast
    define used where "used = j + 1 + length route"
    define n where "n = (if used < length ts then used + 1 else used)"
    have "parse_step True ts = Some (n, Some \<lparr>atokens = route, aname = map requote us\<rparr>)"
      using angle us(1)
      by (auto simp: step n_def used_def)
    moreover have "\<exists>lo'. tchain lo' hi False (drop n ts)"
    proof (cases "used < length ts")
      case True
      have "token (drop (j + 1) ts ! length route) = CHR ''>''"
        using takeWhile_nth_stop [of "length route" "\<lambda>t. token t \<noteq> CHR ''>''" "drop (j + 1) ts"]
          True by (simp add: route_def used_def)
      with True have "token (ts ! used) = CHR ''>''"
        by (simp add: used_def)
      with True show ?thesis
        by (intro tchain_drop [OF chain]) (simp add: n_def)
    next
      case False
      then show ?thesis by (auto simp: n_def)
    qed
    ultimately show ?thesis using us(2) by blast
  next
    case old
    show ?thesis
    proof (cases "k = 0")
      case True
      then have "parse_step True ts = Some (1, None)"
        using old by (auto simp: step)
      moreover from True ne old have False
        by (cases ts) (auto simp: k_def split: if_splits)
      ultimately show ?thesis by blast
    next
      case False
      then have turn: "parse_step True ts = Some (k, Some (old_style_addr (take k ts)))"
        using old by (auto simp: step)
      have "\<forall>t \<in> set (take k ts). token t \<noteq> CHR ''<''"
        using old(4) old_style_end_no_lt [of ts] unfolding j_def k_def by blast
      moreover have "0 < k" "k \<le> length ts"
        using False old_style_end_le [of False ts] by (simp_all add: k_def)
      then have "ts ! (k - 1) \<in> set (take k ts)"
        by (auto simp: in_set_conv_nth intro!: exI [of _ "k - 1"])
      ultimately have "\<exists>lo'. tchain lo' hi False (drop k ts)"
        by (intro tchain_drop [OF chain]) blast
      moreover have "addr_within hi (old_style_addr (take k ts))"
        by (rule within)
          (auto simp: old_style_addr_def Let_def dest: in_set_takeD
            dest!: last_in_set [of "filter P xs" for P xs])
      ultimately show ?thesis using turn by blast
    qed
  qed
qed

lemma parseaddr_defined:
  "tchain lo hi False ts \<Longrightarrow>
    \<exists>as. parseaddr True ts = Some (as, length as) \<and> (\<forall>a \<in> set as. addr_within hi a)"
proof (induction True ts arbitrary: lo rule: parseaddr.induct)
  case (2 t ts)
  from parse_step_defined [OF "2.prems"] obtain n a lo' where
    step: "parse_step True (t # ts) = Some (n, a)"
    and rest: "tchain lo' hi False (drop n (t # ts))"
    and a: "\<forall>ad. a = Some ad \<longrightarrow> addr_within hi ad"
    by auto
  from "2.hyps" [OF step refl rest] obtain as where
    "parseaddr True (drop n (t # ts)) = Some (as, length as)" "\<forall>a \<in> set as. addr_within hi a"
    by blast
  with step a show ?case by (cases a) auto
qed simp

text \<open>\<open>rfc822t_alloc\<close> and \<open>rfc822a_alloc\<close>: lex and parse an address header.\<close>

definition rfc822t_alloc :: "string \<Rightarrow> rfc822token list" where
  "rfc822t_alloc addr = fst (tokenize True addr)"

definition rfc822a_alloc :: "rfc822token list \<Rightarrow> (rfc822addr list \<times> nat) option" where
  "rfc822a_alloc ts =
     (case parseaddr False ts of
        None \<Rightarrow> None
      | Some (_, naddrs) \<Rightarrow> parseaddr True ts)"

text \<open>
  C9. Parsing any header is memory-safe and total: on the tokens the lexer made from any string,
  the counting pass and the filling pass of \<open>rfc822a_alloc\<close> return the same number of
  addresses, which is the number of entries stored, the pointer subtraction that turns a
  phrase into one quoted string only ever subtracts pointers into the parsed string and never
  gives a negative length, and every token of every address lies inside the string.
\<close>

theorem rfc822a_alloc_safe:
  "\<exists>as. rfc822a_alloc (rfc822t_alloc addr) = Some (as, length as) \<and>
    parseaddr False (rfc822t_alloc addr) = Some ([], length as) \<and>
    list_all (addr_within (length addr)) as"
proof -
  have "tchain 0 (length addr) False (rfc822t_alloc addr)"
    using tchain_tokenize_loop [of 0 addr False] by (simp add: rfc822t_alloc_def tokenize_def)
  from parseaddr_defined [OF this] obtain as where
    as: "parseaddr True (rfc822t_alloc addr) = Some (as, length as)"
      "\<forall>a \<in> set as. addr_within (length addr) a"
    by blast
  with parseaddr_passes [OF as(1)] show ?thesis
    by (simp add: rfc822a_alloc_def list_all_iff)
qed

end
