(* ===== verification/Rfc822_Addr_Print.thy ===== *)
theory Rfc822_Addr_Print
  imports Rfc822_Addr
begin

text \<open>
  What the rest of the library does with a parsed address list (\<^verbatim>\<open>rfc822/rfc822.c\<close>,
  \<^verbatim>\<open>rfc822_getaddr.c\<close>, \<^verbatim>\<open>rfc822_getaddrs.c\<close>): printing the list, one address or one name,
  deleting an address, and printing the list wrapped at a width. The printers call back
  \<^verbatim>\<open>print_func\<close> for a character and \<^verbatim>\<open>print_separator\<close> for a separator; here they return
  the sequence of the calls. \<^verbatim>\<open>decode_func\<close> is a callback of the caller (it decodes an
  encoded name) and a parameter; memory allocation succeeds.
\<close>

subsection \<open>Printing a list of addresses\<close>

datatype pcall = PChar char | PSep string

definition rfc822_gettok :: "string \<Rightarrow> rfc822token list \<Rightarrow> string" where
  "rfc822_gettok buf ts = filter (\<lambda>c. c \<noteq> nl) (rfc822tok_print buf ts)"

fun adjacent_atoms :: "rfc822token list \<Rightarrow> bool" where
  "adjacent_atoms (t # u # ts) \<longleftrightarrow>
     rfc822_is_atom (token t) \<and> rfc822_is_atom (token u) \<or> adjacent_atoms (u # ts)"
| "adjacent_atoms _ \<longleftrightarrow> False"

definition print_name ::
    "string \<Rightarrow> (string \<Rightarrow> string option) option \<Rightarrow> rfc822token list \<Rightarrow> string" where
  "print_name buf decode_func name =
     (case decode_func of
        None \<Rightarrow> rfc822tok_print buf name
      | Some f \<Rightarrow> (case f (rfc822_gettok buf name) of None \<Rightarrow> [] | Some q \<Rightarrow> q))"

definition print_addr ::
    "string \<Rightarrow> (string \<Rightarrow> string option) option \<Rightarrow> rfc822addr \<Rightarrow> string" where
  "print_addr buf decode_func a =
     (if aname a \<noteq> [] \<and> token (hd (aname a)) = CHR ''(''
      then rfc822tok_print buf (atokens a) @ [sp] @ print_name buf decode_func (aname a)
      else
        let head = (if aname a \<noteq> [] then print_name buf decode_func (aname a) @ [sp] else []);
            print_braces = (if aname a \<noteq> [] then True else adjacent_atoms (atokens a))
        in head @ (if print_braces then ''<'' else [])
           @ rfc822tok_print buf (atokens a) @ (if print_braces then ''>'' else []))"

fun rfc822_print_common ::
    "string \<Rightarrow> (string \<Rightarrow> string option) option \<Rightarrow> rfc822addr list \<Rightarrow> pcall list" where
  "rfc822_print_common buf decode_func [] = []"
| "rfc822_print_common buf decode_func (a # as) =
     (if atokens a = [] then
        map PChar (rfc822tok_print buf (aname a))
        @ (if aname a \<noteq> [] \<and> as \<noteq> [] \<and>
             (token (last (aname a)) = CHR '':'' \<or> token (last (aname a)) = CHR '';'')
           then [PSep [sp]] else [])
        @ rfc822_print_common buf decode_func as
      else
        map PChar (print_addr buf decode_func a)
        @ (case as of
             [] \<Rightarrow> []
           | b # _ \<Rightarrow>
               if atokens b \<noteq> [] \<or> (aname b \<noteq> [] \<and> rfc822_is_atom (token (hd (aname b))))
               then [PSep '', ''] else [])
        @ rfc822_print_common buf decode_func as)"

definition rfc822_print :: "string \<Rightarrow> rfc822addr list \<Rightarrow> pcall list" where
  "rfc822_print buf as = rfc822_print_common buf None as"

definition rfc822_deladdr :: "rfc822addr list \<Rightarrow> int \<Rightarrow> rfc822addr list" where
  "rfc822_deladdr as i =
     (if i < 0 \<or> int (length as) \<le> i then as
      else take (nat i) as @ drop (nat i + 1) as)"

definition rfc822_praddr :: "string \<Rightarrow> rfc822addr list \<Rightarrow> int \<Rightarrow> string" where
  "rfc822_praddr buf as i =
     (if i < 0 \<or> int (length as) \<le> i then []
      else if atokens (as ! nat i) \<noteq> []
      then rfc822tok_print buf (atokens (as ! nat i)) @ [nl] else [])"

definition rfc822_addrlist :: "string \<Rightarrow> rfc822addr list \<Rightarrow> string" where
  "rfc822_addrlist buf as = concat (map (\<lambda>i. rfc822_praddr buf as (int i)) [0..<length as])"

text \<open>
  The loop of \<open>rfc822_prname_orlist\<close>: a quoted string without its escapes, a comment without
  its parentheses, anything else as it prints.
\<close>

definition prname_token :: "string \<Rightarrow> rfc822token \<Rightarrow> string" where
  "prname_token buf t =
     (if token t = dquote then dequote (tok_text buf t)
      else if token t \<noteq> CHR ''('' then print_token buf t
      else take (tlen t - 2) (drop 1 (tok_text buf t)))"

fun prname_loop :: "string \<Rightarrow> bool \<Rightarrow> rfc822token list \<Rightarrow> string" where
  "prname_loop buf prev_isatom [] = []"
| "prname_loop buf prev_isatom (t # ts) =
     (if rfc822_is_atom (token t) \<and> prev_isatom then [sp] else []) @ prname_token buf t
     @ prname_loop buf (rfc822_is_atom (token t)) ts"

definition rfc822_prname_orlist :: "string \<Rightarrow> rfc822addr list \<Rightarrow> int \<Rightarrow> string" where
  "rfc822_prname_orlist buf as i =
     (if i < 0 \<or> int (length as) \<le> i then []
      else
        let a = as ! nat i
        in (if aname a \<noteq> [] then prname_loop buf False (aname a)
            else rfc822tok_print buf (atokens a)) @ [nl])"

definition rfc822_prname :: "string \<Rightarrow> rfc822addr list \<Rightarrow> int \<Rightarrow> string" where
  "rfc822_prname buf as i =
     (if i < 0 \<or> int (length as) \<le> i \<or> atokens (as ! nat i) = [] then []
      else rfc822_prname_orlist buf as i)"

definition rfc822_namelist :: "string \<Rightarrow> rfc822addr list \<Rightarrow> string" where
  "rfc822_namelist buf as = concat (map (\<lambda>i. rfc822_prname buf as (int i)) [0..<length as])"

definition rfc822_getaddr :: "string \<Rightarrow> rfc822addr list \<Rightarrow> int \<Rightarrow> string" where
  "rfc822_getaddr buf as i = filter (\<lambda>c. c \<noteq> nl) (rfc822_praddr buf as i)"

definition rfc822_getname :: "string \<Rightarrow> rfc822addr list \<Rightarrow> int \<Rightarrow> string" where
  "rfc822_getname buf as i =
     filter (\<lambda>c. c \<noteq> dquote) (filter (\<lambda>c. c \<noteq> nl) (rfc822_prname buf as i))"

definition rfc822_getname_orlist :: "string \<Rightarrow> rfc822addr list \<Rightarrow> int \<Rightarrow> string" where
  "rfc822_getname_orlist buf as i =
     filter (\<lambda>c. c \<noteq> dquote) (filter (\<lambda>c. c \<noteq> nl) (rfc822_prname_orlist buf as i))"

subsection \<open>Printing into one buffer, and wrapped\<close>

text \<open>\<open>cntlen\<close> with \<open>cntlensep\<close> counts the buffer, \<open>saveaddr\<close> with \<open>saveaddrsep\<close> fills it.\<close>

fun saveaddrs :: "pcall list \<Rightarrow> string" where
  "saveaddrs [] = []"
| "saveaddrs (PChar c # cs) = c # saveaddrs cs"
| "saveaddrs (PSep s # cs) = s @ saveaddrs cs"

definition rfc822_getaddrs :: "string \<Rightarrow> rfc822addr list \<Rightarrow> string" where
  "rfc822_getaddrs buf as = saveaddrs (rfc822_print buf as)"

fun saveaddrs_wrap :: "pcall list \<Rightarrow> string" where
  "saveaddrs_wrap [] = []"
| "saveaddrs_wrap (PChar c # cs) = c # saveaddrs_wrap cs"
| "saveaddrs_wrap (PSep s # cs) = map (\<lambda>c. if c = sp then nl else c) s @ saveaddrs_wrap cs"

text \<open>
  The loop of \<open>rfc822_getaddrs_wrap\<close> over the buffer: \<open>start\<close>, \<open>p\<close> and \<open>lastnl\<close> are the
  offsets of the C pointers.
\<close>

function wrap_loop :: "int \<Rightarrow> string \<Rightarrow> nat \<Rightarrow> nat \<Rightarrow> nat option \<Rightarrow> string" where
  "wrap_loop w buf start p lastnl =
     (if length buf \<le> p then buf
      else
        let q = p + length (takeWhile (\<lambda>c. c \<noteq> nl) (drop p buf));
            next = (if q < length buf then q + 1 else q)
        in if int q - int start < w
           then wrap_loop w (case lastnl of None \<Rightarrow> buf | Some k \<Rightarrow> buf[k := sp]) start next (Some q)
           else
             (case lastnl of
                Some k \<Rightarrow> wrap_loop w buf (k + 1) q None
              | None \<Rightarrow> wrap_loop w buf (q + 1) next None))"
  by pat_completeness auto

termination
  by (relation "measure (\<lambda>(w, buf, start, p, lastnl).
        2 * (length buf - p) + (if lastnl = None then 0 else 1))")
    (auto split: option.splits simp: Let_def)

definition rfc822_getaddrs_wrap :: "string \<Rightarrow> rfc822addr list \<Rightarrow> int \<Rightarrow> string" where
  "rfc822_getaddrs_wrap buf as w = wrap_loop w (saveaddrs_wrap (rfc822_print buf as)) 0 0 None"

declare wrap_loop.simps [simp del]

lemma wrap_loop_end: "length buf \<le> p \<Longrightarrow> wrap_loop w buf start p lastnl = buf"
  by (simp add: wrap_loop.simps)

subsection \<open>Wrapping is greedy line filling\<close>

text \<open>
  The specification: a line takes the next piece as long as it stays shorter than \<open>w\<close>; a newline
  that ends the text is kept.
\<close>

fun greedy :: "int \<Rightarrow> string \<Rightarrow> string list \<Rightarrow> string" where
  "greedy w cur [] = cur"
| "greedy w cur (x # xs) =
     (if x = [] \<and> xs = [] then cur @ [nl]
      else if int (length cur + 1 + length x) < w then greedy w (cur @ sp # x) xs
      else cur @ nl # greedy w x xs)"

definition wrap_spec :: "int \<Rightarrow> string \<Rightarrow> string" where
  "wrap_spec w s = greedy w (hd (split_nl s)) (tl (split_nl s))"

lemma split_nl_cases:
  obtains (plain) "nl \<notin> set s" "split_nl s = [s]"
  | (line) x r where "s = x @ nl # r" "nl \<notin> set x" "split_nl s = x # split_nl r"
proof (cases "nl \<in> set s")
  case True
  then obtain x r where "s = x @ nl # r" "nl \<notin> set x"
    using split_list_first by fastforce
  then show thesis
    using line split_nl_line by blast
qed (use plain split_nl_plain in auto)

lemma takeWhile_nonl:
  "nl \<notin> set x \<Longrightarrow> takeWhile (\<lambda>c. c \<noteq> nl) (x @ nl # r) = x"
  "nl \<notin> set x \<Longrightarrow> takeWhile (\<lambda>c. c \<noteq> nl) x = x"
  by (induction x) auto

text \<open>The loop when a line is open (it has a break it may undo) and when a line begins.\<close>

definition wrap_open :: "int \<Rightarrow> string \<Rightarrow> bool" where
  "wrap_open w rest \<longleftrightarrow>
     (\<forall>pre cur. int (length cur) < w \<longrightarrow>
        wrap_loop w (pre @ cur @ nl # rest) (length pre) (length pre + length cur + 1)
          (Some (length pre + length cur)) = pre @ greedy w cur (split_nl rest))"

definition wrap_begin :: "int \<Rightarrow> string \<Rightarrow> bool" where
  "wrap_begin w rest \<longleftrightarrow>
     (\<forall>pre x r. rest = x @ r \<longrightarrow> nl \<notin> set x \<longrightarrow>
        wrap_loop w (pre @ rest) (length pre) (length pre + length x) None = pre @ wrap_spec w rest)"

lemma wrap_openD:
  "wrap_open w rest \<Longrightarrow> int (length cur) < w \<Longrightarrow>
    wrap_loop w (pre @ cur @ nl # rest) (length pre) (Suc (length pre + length cur))
      (Some (length pre + length cur)) = pre @ greedy w cur (split_nl rest)"
  by (simp add: wrap_open_def)

lemma wrap_beginD:
  "wrap_begin w (x @ r) \<Longrightarrow> nl \<notin> set x \<Longrightarrow>
    wrap_loop w (pre @ x @ r) (length pre) (length pre + length x) None = pre @ wrap_spec w (x @ r)"
  by (simp add: wrap_begin_def)

lemma wrap_begin_step:
  assumes "\<And>rest'. length rest' < length rest \<Longrightarrow> wrap_open w rest' \<and> wrap_begin w rest'"
  shows "wrap_begin w rest"
  unfolding wrap_begin_def
proof (intro allI impI)
  fix pre x r
  assume rest: "rest = x @ r" and x: "nl \<notin> set x"
  show "wrap_loop w (pre @ rest) (length pre) (length pre + length x) None = pre @ wrap_spec w rest"
  proof (cases "r = []")
    case True
    then show ?thesis
      using rest x by (simp add: wrap_loop_end wrap_spec_def split_nl_plain)
  next
    case False
    show ?thesis
    proof (cases rule: split_nl_cases [of r])
      case plain
      then have "split_nl rest = [rest]"
        using rest x by (simp add: split_nl_plain)
      then show ?thesis
        using plain rest x False
        by (subst wrap_loop.simps) (simp add: takeWhile_nonl wrap_spec_def wrap_loop_end Let_def)
    next
      case (line y r')
      have spec: "wrap_spec w rest = greedy w (x @ y) (split_nl r')"
        using line x rest split_nl_line [of "x @ y" r'] by (simp add: wrap_spec_def)
      have lt: "wrap_open w r'" "wrap_begin w r'"
        using assms [of r'] line(1) rest by auto
      show ?thesis
      proof (cases "int (length (x @ y)) < w")
        case True
        then show ?thesis
          using wrap_openD [OF lt(1), of "x @ y" pre] line(1,2) rest spec
          by (subst wrap_loop.simps) (simp add: takeWhile_nonl add.assoc Let_def)
      next
        case False
        have "greedy w (x @ y) (split_nl r') = (x @ y) @ nl # wrap_spec w r'"
          using False by (cases "split_nl r'") (auto simp: wrap_spec_def)
        then show ?thesis
          using wrap_beginD [of w "[]" r' "pre @ x @ y @ [nl]"] lt(2) line(1,2) rest spec False
          by (subst wrap_loop.simps) (simp add: takeWhile_nonl add.assoc Let_def)
      qed
    qed
  qed
qed

lemma wrap_open_step:
  assumes "\<And>rest'. length rest' < length rest \<Longrightarrow> wrap_open w rest' \<and> wrap_begin w rest'"
    and "wrap_begin w rest"
  shows "wrap_open w rest"
  unfolding wrap_open_def
proof (intro allI impI)
  fix pre cur :: string
  assume cur: "int (length cur) < w"
  show "wrap_loop w (pre @ cur @ nl # rest) (length pre) (length pre + length cur + 1)
          (Some (length pre + length cur)) = pre @ greedy w cur (split_nl rest)"
  proof (cases "rest = []")
    case True
    then show ?thesis by (simp add: wrap_loop_end)
  next
    case False
    obtain x r where rest: "rest = x @ r" "nl \<notin> set x"
      "r = [] \<and> split_nl rest = [x] \<or> (\<exists>r'. r = nl # r' \<and> split_nl rest = x # split_nl r')"
    proof (cases rule: split_nl_cases [of rest])
      case plain
      then show thesis using that [of rest "[]"] by simp
    next
      case (line x r)
      then show thesis using that [of x "nl # r"] by simp
    qed
    have tw: "takeWhile (\<lambda>c. c \<noteq> nl) rest = x"
    proof -
      have "r = [] \<or> (\<exists>r'. r = nl # r')"
        using rest(3) by blast
      then show ?thesis
        by (auto simp: rest(1) takeWhile_nonl [OF rest(2)])
    qed
    have upd: "(pre @ cur @ nl # rest)[length pre + length cur := sp] = pre @ (cur @ sp # x) @ r"
      using rest(1) by (simp add: list_update_append)
    have "\<not> (x = [] \<and> tl (split_nl rest) = [])"
      using rest(1,3) False by (elim disjE exE conjE) simp_all
    then have spec: "greedy w cur (split_nl rest) =
        (if int (length cur + 1 + length x) < w then greedy w (cur @ sp # x) (tl (split_nl rest))
         else cur @ nl # wrap_spec w rest)"
      using rest(3) by (elim disjE exE conjE) (simp_all add: wrap_spec_def)
    define q where "q = length pre + length cur + 1 + length x"
    have drop: "drop (length pre + length cur + 1) (pre @ cur @ nl # rest) = rest"
      by simp
    have len: "length (pre @ cur @ nl # rest) = q + length r" "0 < length x + length r"
      using rest(1) False by (auto simp: q_def)
    have step: "wrap_loop w (pre @ cur @ nl # rest) (length pre) (length pre + length cur + 1)
          (Some (length pre + length cur)) =
        (if int (length cur + 1 + length x) < w
         then wrap_loop w (pre @ (cur @ sp # x) @ r) (length pre) (if r = [] then q else q + 1) (Some q)
         else wrap_loop w (pre @ cur @ nl # rest) (length pre + length cur + 1) q None)"
      by (subst wrap_loop.simps, unfold drop tw len(1)) (use len(2) in \<open>auto simp: Let_def upd q_def\<close>)
    show ?thesis
    proof (cases "int (length cur + 1 + length x) < w")
      case fits: True
      show ?thesis
        using rest(3)
      proof (elim disjE exE conjE)
        assume "r = []" and "split_nl rest = [x]"
        with fits show ?thesis
          unfolding step spec by (simp add: wrap_loop_end q_def)
      next
        fix r' assume r: "r = nl # r'" "split_nl rest = x # split_nl r'"
        then have "wrap_open w r'"
          using assms(1) [of r'] rest(1) by simp
        from wrap_openD [OF this, of "cur @ sp # x" pre] fits r show ?thesis
          unfolding step spec by (simp add: add.assoc q_def)
      qed
    next
      case False
      have "wrap_loop w ((pre @ cur @ [nl]) @ x @ r) (length (pre @ cur @ [nl]))
          (length (pre @ cur @ [nl]) + length x) None = (pre @ cur @ [nl]) @ wrap_spec w (x @ r)"
        by (rule wrap_beginD) (use assms(2) rest in auto)
      with False show ?thesis
        unfolding step spec using rest(1) by (simp add: q_def)
    qed
  qed
qed

lemma wrap_loop_spec: "wrap_open w rest \<and> wrap_begin w rest"
proof (induction rest rule: measure_induct_rule [of length])
  case (less rest)
  then show ?case
    using wrap_begin_step [of rest w] wrap_open_step [of rest w] by blast
qed

text \<open>
  C28. \<open>rfc822_getaddrs_wrap\<close> is greedy line filling: its in-place loop over the printed buffer,
  which undoes a line break after the fact by overwriting the newline with a space, computes
  exactly the specification that lets a line take the next address as long as the line stays
  shorter than \<open>w\<close>. It ends on every input and every width, negative ones included.
\<close>

theorem getaddrs_wrap_greedy:
  "rfc822_getaddrs_wrap buf as w = wrap_spec w (saveaddrs_wrap (rfc822_print buf as))"
  using wrap_beginD [of w "[]" "saveaddrs_wrap (rfc822_print buf as)" "[]"] wrap_loop_spec
  by (simp add: rfc822_getaddrs_wrap_def)

end
