(* ===== verification/Rfc822_Date.thy ===== *)
theory Rfc822_Date
  imports C_Prelude "HOL-Library.Signed_Division"
begin

text \<open>
  Dates: parsing (\<^verbatim>\<open>rfc822/rfc822_parsedt.c\<close>) and printing (\<open>rfc822_mkdt\<close> there and
  \<^verbatim>\<open>rfc822/rfc822_mkdate.c\<close>). A parser takes the string from its pointer on and returns what
  is left of it; numbers are read modulo 2 ^ 32 like the \<^verbatim>\<open>unsigned\<close> variables of the code, and
  \<^verbatim>\<open>time_t\<close> is \<open>int\<close>. \<^verbatim>\<open>gmtime\<close> of the C library is defined here for times from the epoch
  on, and \<^verbatim>\<open>localtime\<close> is \<open>gmtime\<close> at the zone's offset \<^verbatim>\<open>tm_gmtoff\<close> (the
  \<^verbatim>\<open>USE_TIME_GMTOFF\<close> branch).
\<close>

subsection \<open>The calendar\<close>

definition weekdays :: "string list" where
  "weekdays = [''Sun'', ''Mon'', ''Tue'', ''Wed'', ''Thu'', ''Fri'', ''Sat'']"

definition mnames :: "string list" where
  "mnames = [''Jan'', ''Feb'', ''Mar'', ''Apr'', ''May'', ''Jun'', ''Jul'', ''Aug'', ''Sep'',
     ''Oct'', ''Nov'', ''Dec'']"

definition leap :: "nat \<Rightarrow> bool" where
  "leap y \<longleftrightarrow> y mod 400 = 0 \<or> (y mod 4 = 0 \<and> y mod 100 \<noteq> 0)"

definition mlength :: "nat list" where
  "mlength = [31, 28, 31, 30, 31, 30, 31, 31, 30, 31, 30, 31]"

definition mdays :: "nat \<Rightarrow> nat \<Rightarrow> nat" where
  "mdays m y = (if m \<noteq> 2 then mlength ! (m - 1) else if leap y then 29 else 28)"

definition zonenames :: "string list" where
  "zonenames = [''UT'', ''GMT'', ''EST'', ''EDT'', ''CST'', ''CDT'', ''MST'', ''MDT'', ''PST'',
     ''PDT'', ''Z''] @ map (\<lambda>c. [c]) ''ABCDEFGHIKLM'' @ map (\<lambda>c. [c]) ''NOPQRSTUVWXY''"

definition ZH :: "int \<Rightarrow> int" where
  "ZH n = n * 60 * 60"

definition zoneoffset :: "int list" where
  "zoneoffset = [0, 0, ZH (- 5), ZH (- 4), ZH (- 6), ZH (- 5), ZH (- 7), ZH (- 6), ZH (- 8),
     ZH (- 7), 0, ZH (- 1), ZH (- 2), ZH (- 3), ZH (- 4), ZH (- 5), ZH (- 6), ZH (- 7), ZH (- 8),
     ZH (- 9), ZH (- 10), ZH (- 11), ZH (- 12), ZH 1, ZH 2, ZH 3, ZH 4, ZH 5, ZH 6, ZH 7, ZH 8,
     ZH 9, ZH 10, ZH 11, ZH 12]"

subsection \<open>The parser\<close>

fun parsedig_loop :: "nat \<Rightarrow> string \<Rightarrow> nat \<times> string" where
  "parsedig_loop i [] = (i, [])"
| "parsedig_loop i (c # p) =
     (if isdigit c then parsedig_loop ((i * 10 + digit_val c) mod 2 ^ 32) p else (i, c # p))"

definition parsedig :: "string \<Rightarrow> nat \<times> string" where
  "parsedig p = parsedig_loop 0 p"

fun parsekey_from :: "nat \<Rightarrow> string list \<Rightarrow> string \<Rightarrow> nat \<times> string" where
  "parsekey_from m [] s = (0, s)"
| "parsekey_from m (k # ks) s =
     (if caseprefix k s then (m + 1, drop (length k) s) else parsekey_from (m + 1) ks s)"

definition parsekey :: "string \<Rightarrow> string list \<Rightarrow> nat \<times> string" where
  "parsekey mon ary = parsekey_from 0 ary mon"

text \<open>\<open>None\<close> is the result -1.\<close>

definition parsetime :: "string \<Rightarrow> (nat \<times> string) option" where
  "parsetime t =
     (if \<not> isdigit (cread t) then None
      else case parsedig t of (h, t) \<Rightarrow>
        if h > 23 then None
        else if cread t \<noteq> CHR '':'' then None
        else
          let t = tl t
          in if \<not> isdigit (cread t) then None
             else case parsedig t of (m, t) \<Rightarrow>
               if cread t = CHR '':''
               then
                 let t = tl t
                 in if \<not> isdigit (cread t) then None
                    else case parsedig t of (s, t) \<Rightarrow>
                      if m > 59 \<or> s > 59 then None else Some (h * 60 * 60 + m * 60 + s, t)
               else if m > 59 then None else Some (h * 60 * 60 + m * 60, t))"

lemma length_parsedig_loop: "length (snd (parsedig_loop i p)) \<le> length p"
  by (induction i p rule: parsedig_loop.induct) auto

lemma parsedig_length: "(d, s) = parsedig_loop i p \<Longrightarrow> length s < Suc (length p)"
  using length_parsedig_loop [of i p] by (cases "parsedig_loop i p") simp

lemma parsekey_from_length:
  "parsekey_from m ks s = (n, s') \<Longrightarrow> [] \<notin> set ks \<Longrightarrow>
    (n = 0 \<longrightarrow> s' = s) \<and> (n \<noteq> 0 \<longrightarrow> length s' < length s)"
proof (induction m ks s rule: parsekey_from.induct)
  case (2 m k ks s)
  then have "0 < length k"
    by auto
  then have "caseprefix k s \<Longrightarrow> length s - length k < length s"
    using caseprefix_length [of k s] by (intro diff_less) linarith+
  with 2 show ?case
    by (auto split: if_splits)
qed simp

lemma parsekey_length:
  "parsekey s mnames = (n, s') \<Longrightarrow> (n = 0 \<longrightarrow> s' = s) \<and> (n \<noteq> 0 \<longrightarrow> length s' < length s)"
  using parsekey_from_length [of 0 mnames s] by (simp add: parsekey_def mnames_def del: parsekey_from.simps)

text \<open>
  The loop that looks for the day and the month in either order, skipping the day of the week.
\<close>

function parse_daymon :: "nat \<Rightarrow> nat \<Rightarrow> string \<Rightarrow> (nat \<times> nat \<times> string) option" where
  "parse_daymon day mon [] = (if day \<noteq> 0 \<and> mon \<noteq> 0 then Some (day, mon, []) else None)"
| "parse_daymon day mon (c # p) =
     (if day \<noteq> 0 \<and> mon \<noteq> 0 then Some (day, mon, c # p)
      else if isalpha c then
        (if mon \<noteq> 0 then None
         else case parsekey (c # p) mnames of (m, s) \<Rightarrow>
           parse_daymon day m (if m = 0 then dropWhile isalpha s else s))
      else if isdigit c then
        (if day \<noteq> 0 then None
         else case parsedig (c # p) of (d, s) \<Rightarrow>
           if d = 0 then None else parse_daymon d mon s)
      else parse_daymon day mon p)"
  by pat_completeness auto
termination
proof (relation "measure (\<lambda>(day, mon, s). length s)", goal_cases)
  case (2 day mon c p m s)
  then show ?case
    using parsekey_length [of "c # p" m s] length_dropWhile_le [of isalpha p]
    by auto
next
  case (3 day mon c p d s)
  then show ?case
    using parsedig_length by (auto simp: parsedig_def)
qed simp_all

text \<open>The time zone: the offset in seconds.\<close>

definition parse_zone :: "string \<Rightarrow> int" where
  "parse_zone s =
     (let s = dropWhile (\<lambda>c. \<not> (isalnum c \<or> c = CHR ''+'' \<or> c = CHR ''-'')) s
      in if isalpha (cread s) then
           (case parsekey s zonenames of (n, _) \<Rightarrow> if n > 0 then zoneoffset ! (n - 1) else 0)
         else
           let sign = (if cread s = CHR ''-'' then - 1 else 1 :: int);
               s = (if cread s = CHR ''-'' \<or> cread s = CHR ''+'' then tl s else s)
           in if isdigit (cread s) then
                (case parsedig s of (n, _) \<Rightarrow>
                   let n = (if n > 2359 \<or> n mod 100 > 59 then 0 else n)
                   in sign * (int (n mod 100) * 60 + int (n div 100) * 60 * 60))
              else 0)"

text \<open>The loop over the years, which steps over four years at once from a leap year.\<close>

function year_loop :: "nat \<Rightarrow> nat \<Rightarrow> int \<Rightarrow> int" where
  "year_loop y year t =
     (if y < year then
        if leap y then
          if year - y \<ge> 4 then year_loop (y + 4) year (t + (365 * 3 + 366) * 24 * 60 * 60)
          else year_loop (y + 1) year (t + 24 * 60 * 60 + 365 * 24 * 60 * 60)
        else year_loop (y + 1) year (t + 365 * 24 * 60 * 60)
      else t)"
  by pat_completeness auto
termination by (relation "measure (\<lambda>(y, year, t). year - y)") auto

declare year_loop.simps [simp del]

definition month_loop :: "nat \<Rightarrow> nat \<Rightarrow> int \<Rightarrow> int" where
  "month_loop mon year t = foldl (\<lambda>t y. t + int (mdays y year * 24 * 60 * 60)) t [1..<mon]"

definition rfc822_parsedt :: "string \<Rightarrow> int" where
  "rfc822_parsedt rfcdt =
     (case parse_daymon 0 0 rfcdt of
        None \<Rightarrow> 0
      | Some (day, mon, s) \<Rightarrow>
          let s = skipspace s
          in if \<not> isdigit (cread s) then 0
             else case parsedig s of (year, s) \<Rightarrow>
               let year = (if year < 70 then year + 2000 else year);
                   year = (if year < 100 then year + 1900 else year);
                   s = skipspace s
               in if day = 0 \<or> mon = 0 \<or> mon > 12 \<or> day > mdays mon year then 0
                  else case parsetime s of
                    None \<Rightarrow> 0
                  | Some (secs, s) \<Rightarrow>
                      let offset = parse_zone s
                      in if year < 1970 then 0
                         else if year > 9999 then 0
                         else month_loop mon year (year_loop 1970 year 0)
                           + (int day - 1) * 24 * 60 * 60 + int secs - offset)"

subsection \<open>The printers\<close>

record tm =
  tm_wday :: nat
  tm_mday :: nat
  tm_mon :: nat
  tm_year :: nat
  tm_hour :: nat
  tm_min :: nat
  tm_sec :: nat

definition ylength :: "nat \<Rightarrow> nat" where
  "ylength y = (if leap y then 366 else 365)"

function civil_year :: "nat \<Rightarrow> nat \<Rightarrow> nat \<times> nat" where
  "civil_year y d = (if d < ylength y then (y, d) else civil_year (y + 1) (d - ylength y))"
  by pat_completeness auto
termination by (relation "measure (\<lambda>(y, d). d)") (auto simp: ylength_def)

function civil_month :: "nat \<Rightarrow> nat \<Rightarrow> nat \<Rightarrow> nat \<times> nat" where
  "civil_month y m d =
     (if d < mdays m y \<or> m \<ge> 12 then (m, d) else civil_month y (m + 1) (d - mdays m y))"
  by pat_completeness auto
termination by (relation "measure (\<lambda>(y, m, d). 12 - m)") auto

declare civil_year.simps [simp del] civil_month.simps [simp del]

text \<open>\<^verbatim>\<open>gmtime\<close> of the C library.\<close>

definition gmtime :: "nat \<Rightarrow> tm" where
  "gmtime t =
     (case civil_year 1970 (t div 86400) of (y, d) \<Rightarrow>
        case civil_month y 1 d of (m, d) \<Rightarrow>
          \<lparr>tm_wday = (t div 86400 + 4) mod 7, tm_mday = d + 1, tm_mon = m - 1, tm_year = y - 1900,
           tm_hour = t mod 86400 div 3600, tm_min = t mod 3600 div 60, tm_sec = t mod 60\<rparr>)"

definition print_tm :: "tm \<Rightarrow> string" where
  "print_tm p =
     weekdays ! tm_wday p @ '', '' @ dec_pad 2 (tm_mday p) @ '' '' @ mnames ! tm_mon p @ '' ''
     @ dec_pad 4 (tm_year p + 1900) @ '' '' @ dec_pad 2 (tm_hour p) @ '':'' @ dec_pad 2 (tm_min p)
     @ '':'' @ dec_pad 2 (tm_sec p) @ '' ''"

definition rfc822_mkdt :: "nat \<Rightarrow> string" where
  "rfc822_mkdt t = print_tm (gmtime t) @ ''GMT''"

text \<open>\<^verbatim>\<open>%+05d\<close>\<close>

definition print_offset :: "int \<Rightarrow> string" where
  "print_offset n = (if n < 0 then CHR ''-'' else CHR ''+'') # dec_pad 4 (nat \<bar>n\<bar>)"

definition rfc822_mkdate_buf :: "int \<Rightarrow> nat \<Rightarrow> string" where
  "rfc822_mkdate_buf gmtoff t =
     (let (p, offset) = (if gmtoff smod 60 \<noteq> 0 then (gmtime t, 0)
            else (gmtime (nat (int t + gmtoff)), gmtoff));
          offset = offset sdiv 60;
          offset = offset smod 60 + offset sdiv 60 * 100
      in print_tm p @ print_offset offset)"

definition rfc822_mkdate :: "int \<Rightarrow> nat \<Rightarrow> string" where
  "rfc822_mkdate gmtoff t = rfc822_mkdate_buf gmtoff t"

subsection \<open>The calendar arithmetic\<close>

text \<open>Days before year \<open>y\<close>, in closed form.\<close>

definition leaps :: "nat \<Rightarrow> nat" where
  "leaps n = n div 4 - n div 100 + n div 400"

definition days0 :: "nat \<Rightarrow> nat" where
  "days0 y = 365 * y + leaps (y - 1)"

lemma leaps_Suc: "leaps (Suc n) = leaps n + (if leap (Suc n) then 1 else 0)"
proof -
  have "n div 100 \<le> n div 4"
    by (simp add: div_le_mono2)
  moreover have "Suc n mod 400 = 0 \<Longrightarrow> Suc n mod 100 = 0" "Suc n mod 100 = 0 \<Longrightarrow> Suc n mod 4 = 0"
    by presburger+
  ultimately show ?thesis
    by (auto simp: leaps_def leap_def div_Suc)
qed

lemma days0_Suc: "1 \<le> y \<Longrightarrow> days0 (Suc y) = days0 y + ylength y"
  using leaps_Suc [of "y - 1"] by (simp add: days0_def ylength_def)

lemma leap_mod4: "leap y \<Longrightarrow> y mod 4 = 0"
  unfolding leap_def by presburger

lemma days0_4: "1 \<le> y \<Longrightarrow> leap y \<Longrightarrow> days0 (y + 4) = days0 y + 1461"
proof -
  assume y: "1 \<le> y" "leap y"
  have "y mod 4 = 0 \<Longrightarrow> (y + 1) mod 4 \<noteq> 0 \<and> (y + 2) mod 4 \<noteq> 0 \<and> (y + 3) mod 4 \<noteq> 0"
    by presburger
  then have "(y + 1) mod 4 \<noteq> 0" "(y + 2) mod 4 \<noteq> 0" "(y + 3) mod 4 \<noteq> 0"
    using leap_mod4 [OF y(2)] by simp_all
  then have "\<not> leap (y + 1)" "\<not> leap (y + 2)" "\<not> leap (y + 3)"
    using leap_mod4 [of "y + 1"] leap_mod4 [of "y + 2"] leap_mod4 [of "y + 3"] by - (rule notI, simp)+
  with y show ?thesis
    using days0_Suc [of y] days0_Suc [of "y + 1"] days0_Suc [of "y + 2"] days0_Suc [of "y + 3"]
    by (simp add: ylength_def numeral_eq_Suc)
qed

lemma year_loop_days0:
  "1 \<le> y \<Longrightarrow> y \<le> year \<Longrightarrow>
    year_loop y year t = t + 86400 * (int (days0 year) - int (days0 y))"
proof (induction y year t rule: year_loop.induct)
  case (1 y year t)
  show ?case
  proof (cases "y < year")
    case True
    then show ?thesis
      using 1 days0_4 [of y] days0_Suc [of y]
      by (subst year_loop.simps) (auto simp: ylength_def)
  next
    case False
    with 1 show ?thesis by (simp add: year_loop.simps)
  qed
qed

lemma civil_year_days0:
  "civil_year y d = (y', d') \<Longrightarrow> 1 \<le> y \<Longrightarrow>
    y \<le> y' \<and> d' < ylength y' \<and> days0 y' + d' = days0 y + d"
proof (induction y d rule: civil_year.induct)
  case (1 y d)
  show ?case
  proof (cases "d < ylength y")
    case True
    with 1 show ?thesis by (simp add: civil_year.simps)
  next
    case False
    then have "civil_year (y + 1) (d - ylength y) = (y', d')"
      using 1(2) by (simp add: civil_year.simps [of y])
    from "1.IH" [OF False this] False show ?thesis
      using days0_Suc [of y] 1(3) by simp
  qed
qed

lemma days0_mono: "a \<le> b \<Longrightarrow> 1 \<le> a \<Longrightarrow> days0 a \<le> days0 b"
proof (induction b rule: dec_induct)
  case (step n)
  then show ?case using days0_Suc [of n] by simp
qed simp

lemma less_cases: "n < 7 \<Longrightarrow> n \<in> {0, 1, 2, 3, 4, 5, 6 :: nat}"
  "n < 12 \<Longrightarrow> n \<in> {0, 1, 2, 3, 4, 5, 6, 7, 8, 9, 10, 11 :: nat}"
proof -
  assume "n < 7"
  then have "n \<in> set [0..<7]" by simp
  then show "n \<in> {0, 1, 2, 3, 4, 5, 6 :: nat}" by (auto simp: upt_rec numeral_eq_Suc)
next
  assume "n < 12"
  then have "n \<in> set [0..<12]" by simp
  then show "n \<in> {0, 1, 2, 3, 4, 5, 6, 7, 8, 9, 10, 11 :: nat}"
    by (auto simp: upt_rec numeral_eq_Suc)
qed

lemma mdays_le: "m < 12 \<Longrightarrow> mdays (m + 1) y \<le> 31"
  by (drule less_cases) (auto simp: mdays_def mlength_def)

definition msum :: "nat \<Rightarrow> nat \<Rightarrow> nat \<Rightarrow> nat" where
  "msum y a b = (\<Sum>m = a..<b. mdays m y)"

lemma month_loop_msum: "1 \<le> mon \<Longrightarrow> month_loop mon y t = t + int (msum y 1 mon) * 86400"
proof (induction mon rule: dec_induct)
  case (step n)
  then show ?case
    by (simp add: month_loop_def msum_def algebra_simps)
qed (simp add: month_loop_def msum_def)

lemma ylength_msum: "ylength y = msum y 1 13"
  by (simp add: msum_def ylength_def mdays_def mlength_def numeral_eq_Suc)

lemma civil_month_msum:
  "civil_month y m d = (m', d') \<Longrightarrow> 1 \<le> m \<Longrightarrow> m \<le> 12 \<Longrightarrow> d < msum y m 13 \<Longrightarrow>
    m \<le> m' \<and> m' \<le> 12 \<and> d' < mdays m' y \<and> msum y m m' + d' = d"
proof (induction y m d rule: civil_month.induct)
  case (1 y m d)
  have split: "msum y m k = mdays m y + msum y (Suc m) k" if "m < k" for k
    using that by (simp add: msum_def sum.atLeast_Suc_lessThan)
  show ?case
  proof (cases "d < mdays m y \<or> m \<ge> 12")
    case True
    then have out: "m' = m" "d' = d"
      using 1(2) by (simp_all add: civil_month.simps)
    moreover have "d < mdays m y"
      using True 1(3-5) split [of 13] by (cases "m = 12") (auto simp: msum_def)
    ultimately show ?thesis
      using 1(4) by (simp add: msum_def)
  next
    case False
    then have "civil_month y (m + 1) (d - mdays m y) = (m', d')"
      using 1(2) by (simp add: civil_month.simps [of y m])
    moreover have "d - mdays m y < msum y (m + 1) 13"
      using False 1(5) split [of 13] by simp linarith
    ultimately have
      "m + 1 \<le> m' \<and> m' \<le> 12 \<and> d' < mdays m' y \<and> msum y (m + 1) m' + d' = d - mdays m y"
      using "1.IH" [OF False] False by simp
    with False split [of m'] show ?thesis by simp linarith
  qed
qed

text \<open>What \<open>gmtime\<close> gives, in the ranges the printers rely on.\<close>

lemma gmtime_civil:
  assumes "gmtime t = p"
  shows "tm_wday p < 7" "tm_mon p < 12" "1 \<le> tm_mday p" "tm_mday p \<le> mdays (tm_mon p + 1) (tm_year p + 1900)"
    "tm_hour p < 24" "tm_min p < 60" "tm_sec p < 60" "70 \<le> tm_year p"
    "days0 (tm_year p + 1900) + msum (tm_year p + 1900) 1 (tm_mon p + 1) + (tm_mday p - 1)
       = days0 1970 + t div 86400"
    "tm_hour p * 3600 + tm_min p * 60 + tm_sec p = t mod 86400"
proof -
  obtain y d where y: "civil_year 1970 (t div 86400) = (y, d)"
    by force
  obtain m d' where m: "civil_month y 1 d = (m, d')"
    by force
  have cy: "1970 \<le> y" "d < ylength y" "days0 y + d = days0 1970 + t div 86400"
    using civil_year_days0 [OF y] by auto
  have cm: "1 \<le> m" "m \<le> 12" "d' < mdays m y" "msum y 1 m + d' = d"
    using civil_month_msum [OF m] cy(2) by (auto simp: ylength_msum)
  have p: "p = \<lparr>tm_wday = (t div 86400 + 4) mod 7, tm_mday = d' + 1, tm_mon = m - 1,
      tm_year = y - 1900, tm_hour = t mod 86400 div 3600, tm_min = t mod 3600 div 60,
      tm_sec = t mod 60\<rparr>"
    using assms y m by (simp add: gmtime_def)
  show "tm_wday p < 7" "tm_mon p < 12" "1 \<le> tm_mday p"
    "tm_mday p \<le> mdays (tm_mon p + 1) (tm_year p + 1900)" "tm_min p < 60" "tm_sec p < 60"
    "70 \<le> tm_year p"
    "days0 (tm_year p + 1900) + msum (tm_year p + 1900) 1 (tm_mon p + 1) + (tm_mday p - 1)
       = days0 1970 + t div 86400"
    using cy cm by (auto simp: p)
  show "tm_hour p < 24"
    by (simp add: p div_less_iff_less_mult)
  have "t mod 86400 mod 3600 = t mod 3600" "t mod 3600 mod 60 = t mod 60"
    by (simp_all add: mod_mod_cancel)
  then show "tm_hour p * 3600 + tm_min p * 60 + tm_sec p = t mod 86400"
    using div_mult_mod_eq [of "t mod 86400" 3600] div_mult_mod_eq [of "t mod 3600" 60]
    by (simp add: p)
qed

text \<open>The seconds the parser adds up again are the time \<open>gmtime\<close> was given.\<close>

lemma gmtime_seconds:
  assumes "gmtime t = p"
  shows "month_loop (tm_mon p + 1) (tm_year p + 1900) (year_loop 1970 (tm_year p + 1900) 0)
    + (int (tm_mday p) - 1) * 24 * 60 * 60 + int (tm_hour p * 60 * 60 + tm_min p * 60 + tm_sec p) = int t"
proof -
  note civil = gmtime_civil [OF assms]
  have year: "1970 \<le> tm_year p + 1900"
    using civil(8) by simp
  have "int (days0 (tm_year p + 1900)) + int (msum (tm_year p + 1900) 1 (tm_mon p + 1))
      + (int (tm_mday p) - 1) = int (days0 1970) + int (t div 86400)"
    using civil(3,9) by linarith
  moreover have "int (tm_hour p * 60 * 60 + tm_min p * 60 + tm_sec p) = int (t mod 86400)"
    using civil(10) by linarith
  moreover have "int t = int (t div 86400) * 86400 + int (t mod 86400)"
    by (metis div_mult_mod_eq of_nat_add of_nat_mult of_nat_numeral)
  ultimately show ?thesis
    using year year_loop_days0 [of 1970 "tm_year p + 1900" 0] month_loop_msum [of "tm_mon p + 1"]
    by (simp add: algebra_simps)
qed

lemma gmtime_year:
  assumes "t < 253402300800"
  shows "tm_year (gmtime t) + 1900 \<le> 9999"
proof (rule ccontr)
  assume "\<not> ?thesis"
  then have "days0 10000 \<le> days0 (tm_year (gmtime t) + 1900)"
    by (intro days0_mono) simp_all
  also have "\<dots> \<le> days0 1970 + t div 86400"
    using gmtime_civil(9) [OF refl, of t] by linarith
  finally have "days0 10000 \<le> days0 1970 + t div 86400" .
  moreover have "days0 10000 = days0 1970 + 2932897"
    by (simp add: days0_def leaps_def)
  ultimately show False
    using assms by simp
qed

subsection \<open>Parsing what was printed\<close>

lemma dec_val_ge: "i \<le> dec_val i ds"
proof (induction ds arbitrary: i)
  case (Cons c ds)
  show ?case using Cons [of "i * 10 + digit_val c"] by simp
qed simp

lemma parsedig_digits:
  "list_all isdigit ds \<Longrightarrow> nodigit r \<Longrightarrow> dec_val i ds < 2 ^ 32 \<Longrightarrow>
    parsedig_loop i (ds @ r) = (dec_val i ds, r)"
proof (induction ds arbitrary: i)
  case Nil
  then show ?case by (cases r) auto
next
  case (Cons c ds)
  then show ?case
    using dec_val_ge [of "i * 10 + digit_val c" ds] by simp
qed

lemma parsedig_pad:
  "nodigit r \<Longrightarrow> n < 2 ^ 32 \<Longrightarrow> parsedig (dec_pad w n @ r) = (n, r)"
  using parsedig_digits [of "dec_pad w n" r 0] by (simp add: parsedig_def dec_pad_digits)

lemma hd_dec_pad: "isdigit (hd (dec_pad w n @ r))" "\<not> isalpha (hd (dec_pad w n @ r))"
proof -
  have "hd (dec_pad w n) \<in> set (dec_pad w n)" by simp
  then show "isdigit (hd (dec_pad w n @ r))"
    using dec_pad_digits [of w n] by (simp add: list_all_iff)
  then show "\<not> isalpha (hd (dec_pad w n @ r))"
    by (auto simp: isalpha_def isdigit_def isupper_def islower_def)
qed

lemma cread_dec_pad: "isdigit (cread (dec_pad w n @ r))"
  using hd_dec_pad [of w n r] by (cases "dec_pad w n") auto

lemma parse_daymon_digits:
  assumes "day = 0" "0 < n" "n < 2 ^ 32" "nodigit r"
  shows "parse_daymon day mon (dec_pad w n @ r) = parse_daymon n mon r"
proof -
  obtain c p where p: "dec_pad w n @ r = c # p"
    by (cases "dec_pad w n") auto
  then have "isdigit c" "\<not> isalpha c"
    using hd_dec_pad [of w n r] by auto
  moreover have "parsedig (c # p) = (n, r)"
    using parsedig_pad [of r n w] assms p by simp
  ultimately show ?thesis
    using assms by (simp add: p)
qed

lemmas date_eval =
  parsekey_def mnames_def weekdays_def tolower_def isupper_def isalpha_def islower_def
  isdigit_def isspace_def

lemma parse_daymon_weekday:
  "n < 7 \<Longrightarrow> parse_daymon 0 0 (weekdays ! n @ '', '' @ r) = parse_daymon 0 0 r"
  by (drule less_cases) (auto simp: date_eval)

lemma parse_daymon_month:
  "n < 12 \<Longrightarrow> 0 < day \<Longrightarrow>
    parse_daymon day 0 ('' '' @ mnames ! n @ sp # r) = Some (day, n + 1, sp # r)"
  by (drule less_cases) (auto simp: date_eval)

lemma isdigit_sep [simp]: "\<not> isdigit CHR '':''" "\<not> isdigit sp"
  by (simp_all add: isdigit_def)

lemma parsetime_print:
  assumes "h < 24" "m < 60" "s < 60" "nodigit r"
  shows "parsetime (dec_pad 2 h @ CHR '':'' # dec_pad 2 m @ CHR '':'' # dec_pad 2 s @ r)
    = Some (h * 60 * 60 + m * 60 + s, r)"
  using assms by (simp add: parsetime_def cread_dec_pad parsedig_pad Let_def)

lemma skipspace_dec_pad [simp]: "skipspace (dec_pad w n @ r) = dec_pad w n @ r"
  using cread_dec_pad [of w n r]
  by (cases "dec_pad w n @ r") (auto simp: skipspace_def isdigit_def isspace_def)

lemma parsedt_print:
  assumes "t < 253402300800"
  shows "rfc822_parsedt (print_tm (gmtime t) @ z) = int t - parse_zone (sp # z)"
proof -
  define p where "p = gmtime t"
  note civil = gmtime_civil [OF p_def [symmetric]]
  have year: "tm_year p + 1900 \<le> 9999" "1970 \<le> tm_year p + 1900"
    using gmtime_year [OF assms] civil(8) by (simp_all add: p_def)
  have mday: "tm_mday p < 2 ^ 32"
    using civil(4) mdays_le [OF civil(2), of "tm_year p + 1900"] by simp
  define time where "time = dec_pad 2 (tm_hour p) @ CHR '':'' # dec_pad 2 (tm_min p)
    @ CHR '':'' # dec_pad 2 (tm_sec p) @ sp # z"
  define rest where "rest = dec_pad 4 (tm_year p + 1900) @ sp # time"
  have printed: "print_tm p @ z = weekdays ! tm_wday p @ '', '' @ dec_pad 2 (tm_mday p) @ '' ''
      @ mnames ! tm_mon p @ sp # rest"
    by (simp add: print_tm_def rest_def time_def)
  have daymon: "parse_daymon 0 0 (print_tm p @ z) = Some (tm_mday p, tm_mon p + 1, sp # rest)"
    unfolding printed parse_daymon_weekday [OF civil(1)]
    using parse_daymon_digits [of 0 "tm_mday p"] parse_daymon_month [OF civil(2)] civil(3) mday
    by simp
  have space: "skipspace (sp # s) = skipspace s" for s
    by (simp add: skipspace_def isspace_def)
  have year_text: "skipspace (sp # rest) = rest" "isdigit (cread rest)"
    "parsedig rest = (tm_year p + 1900, sp # time)"
    using year by (simp_all add: rest_def space cread_dec_pad parsedig_pad)
  have time_text: "skipspace (sp # time) = time" "parsetime time
      = Some (tm_hour p * 60 * 60 + tm_min p * 60 + tm_sec p, sp # z)"
    unfolding time_def by (simp_all add: space parsetime_print civil)
  show ?thesis
    using daymon year_text time_text year civil(2-4) gmtime_seconds [OF p_def [symmetric]]
    by (simp add: rfc822_parsedt_def p_def [symmetric])
qed

text \<open>
  A date printed by \<open>rfc822_mkdt\<close> parses back to the same time: for every time from the
  epoch to the end of year 9999, \<open>rfc822_parsedt\<close> of the printed date is the time. This covers
  the calendar of both directions: the year loop that steps over four years at once from a leap
  year, the month lengths, the leap years of the centuries, and the parse of every field.
\<close>

theorem parsedt_mkdt:
  assumes "t < 253402300800"
  shows "rfc822_parsedt (rfc822_mkdt t) = int t"
proof -
  have "parse_zone (sp # ''GMT'') = 0"
    by (simp add: parse_zone_def zonenames_def zoneoffset_def date_eval isalnum_def)
  then show ?thesis
    using parsedt_print [OF assms] by (simp add: rfc822_mkdt_def)
qed

theorem parsedt_mkdt_witness: "rfc822_parsedt (rfc822_mkdt 951782400) = 951782400"
  using parsedt_mkdt [of 951782400] by simp

text \<open>The offset of a zone: minutes as hhmm and back.\<close>

lemma print_offset_hhmm:
  fixes o1 :: int
  assumes "\<bar>o1\<bar> < 1440"
  defines "n \<equiv> nat \<bar>o1 smod 60 + o1 sdiv 60 * 100\<bar>"
  shows "n \<le> 2359" "n mod 100 \<le> 59" "int (n mod 100) + int (n div 100) * 60 = \<bar>o1\<bar>"
    "o1 smod 60 + o1 sdiv 60 * 100 < 0 \<longleftrightarrow> o1 < 0"
proof -
  define a where "a = nat \<bar>o1\<bar>"
  have a: "a < 1440" "int a = \<bar>o1\<bar>"
    using assms by (simp_all add: a_def)
  have parts: "o1 smod 60 = sgn o1 * int (a mod 60)" "o1 sdiv 60 = sgn o1 * int (a div 60)"
    by (simp_all add: a_def signed_divide_int_def signed_modulo_int_def zdiv_int zmod_int)
  then have "o1 smod 60 + o1 sdiv 60 * 100 = sgn o1 * int (a mod 60 + a div 60 * 100)"
    by (simp add: algebra_simps)
  then have v: "o1 smod 60 + o1 sdiv 60 * 100
      = (if o1 < 0 then - int (a mod 60 + a div 60 * 100) else int (a mod 60 + a div 60 * 100))"
    using a(2) by (cases "o1 = 0") (auto simp: sgn_if)
  then have "int n = int (a mod 60 + a div 60 * 100)"
    by (simp add: n_def)
  then have n: "n = a mod 60 + a div 60 * 100"
    by linarith
  have m: "a mod 60 < 60" "a div 60 < 24"
    using a(1) by (simp_all add: less_mult_imp_div_less)
  show "n \<le> 2359" "n mod 100 \<le> 59"
    using m by (simp_all add: n)
  have "n mod 100 = a mod 60" "n div 100 = a div 60"
    using m by (simp_all add: n)
  then show "int (n mod 100) + int (n div 100) * 60 = \<bar>o1\<bar>"
    using a(2) div_mult_mod_eq [of a 60] by linarith
  have "a = 0 \<or> 0 < n"
    using n div_mult_mod_eq [of a 60] by (cases "a mod 60 = 0") auto
  then show "o1 smod 60 + o1 sdiv 60 * 100 < 0 \<longleftrightarrow> o1 < 0"
    using v n a(2) by auto
qed

lemma parse_zone_offset:
  assumes "\<bar>o1\<bar> < 1440"
  shows "parse_zone (sp # print_offset (o1 smod 60 + o1 sdiv 60 * 100)) = o1 * 60"
proof -
  define v where "v = o1 smod 60 + o1 sdiv 60 * 100"
  note n = print_offset_hhmm [OF assms, folded v_def]
  have dig: "parsedig (dec_pad 4 (nat \<bar>v\<bar>)) = (nat \<bar>v\<bar>, [])"
    using parsedig_pad [of "[]" "nat \<bar>v\<bar>" 4] n(1) by simp
  have cr: "isdigit (cread (dec_pad 4 (nat \<bar>v\<bar>)))"
    using cread_dec_pad [of 4 "nat \<bar>v\<bar>" "[]"] by simp
  have sign: "\<not> isalnum sp" "\<not> isalpha (CHR ''+'')" "\<not> isalpha (CHR ''-'')"
    by (simp_all add: isalnum_def isalpha_def isupper_def islower_def isdigit_def)
  have "int (nat \<bar>v\<bar> mod 100) * 60 + int (nat \<bar>v\<bar> div 100) * 60 * 60 = \<bar>o1\<bar> * 60"
    using n(3) by linarith
  then show ?thesis
    using n(1,2,4) dig cr sign unfolding v_def [symmetric]
    by (cases "v < 0") (simp_all add: parse_zone_def print_offset_def Let_def not_le [symmetric])
qed

text \<open>
  C24. A date printed by \<open>rfc822_mkdate\<close> in any time zone parses back to the same time: whatever
  the zone's offset within a day, including offsets that are no whole minutes (where the code
  falls back to GMT), as long as the local date is in the years 1970 to 9999.
\<close>

theorem parsedt_mkdate:
  assumes "t < 253402300800" "\<bar>gmtoff\<bar> < 86400" "0 \<le> int t + gmtoff"
    "int t + gmtoff < 253402300800"
  shows "rfc822_parsedt (rfc822_mkdate gmtoff t) = int t"
proof (cases "gmtoff smod 60 = 0")
  case True
  have whole: "gmtoff sdiv 60 * 60 = gmtoff"
    using True sdiv_mult_smod_eq [of gmtoff 60] by simp
  then have "\<bar>gmtoff sdiv 60\<bar> < 1440"
    using assms(2) by linarith
  with True whole show ?thesis
    using parsedt_print [of "nat (int t + gmtoff)"] parse_zone_offset [of "gmtoff sdiv 60"] assms(3,4)
    by (simp add: rfc822_mkdate_def rfc822_mkdate_buf_def Let_def)
next
  case False
  then show ?thesis
    using parsedt_print [OF assms(1)] parse_zone_offset [of 0]
    by (simp add: rfc822_mkdate_def rfc822_mkdate_buf_def Let_def)
qed

theorem parsedt_mkdate_witness: "rfc822_parsedt (rfc822_mkdate (- 12600) 951782400) = 951782400"
  using parsedt_mkdate [of 951782400 "- 12600"] by simp

end
