(* ===== verification/Rfc822_Header.thy ===== *)
theory Rfc822_Header
  imports C_Prelude
begin

text \<open>
  The reader of message headers (\<^verbatim>\<open>rfc822/rfc822hdr.c\<close>). A file is the list of the bytes
  still to be read. \<open>pos\<close> is the optional position the caller keeps, which stops the reader at
  \<open>epos\<close>. The buffer grows as needed (memory allocation succeeds), so its filled part is the
  list of its bytes; \<open>hdr_maxsize\<close> limits what is kept of a header when it is not 0.
\<close>

subsection \<open>The code\<close>

record rfc822hdr =
  header :: string
  hdr_value :: string
  hdr_maxsize :: nat

text \<open>What \<^verbatim>\<open>getc\<close> would return next decides whether a newline ends the header.\<close>

definition hdr_ends :: "string \<Rightarrow> bool" where
  "hdr_ends f \<longleftrightarrow> (case f of [] \<Rightarrow> True | c # _ \<Rightarrow> c = nl \<or> c = cr \<or> \<not> isspace c)"

text \<open>The loop: \<open>h\<close> is the filled part of the buffer.\<close>

fun hdr_loop ::
    "nat \<Rightarrow> nat \<Rightarrow> string \<Rightarrow> string \<Rightarrow> nat option \<Rightarrow> string \<times> string \<times> nat option" where
  "hdr_loop maxsize epos h [] pos = (h, [], map_option (\<lambda>p. if epos \<le> p then p else epos) pos)"
| "hdr_loop maxsize epos h (c # f) pos =
     (if \<exists>p. pos = Some p \<and> epos \<le> p then (h, c # f, pos)
      else
        let pos = map_option Suc pos
        in if c = nl \<and> h = [] then (h, f, if pos = None then None else Some epos)
           else if c = nl \<and> hdr_ends f then (h, f, pos)
           else
             let h = (if maxsize \<noteq> 0 \<and> length h + 1 + 2 > maxsize then h else h @ [c])
             in hdr_loop maxsize epos h f pos)"

text \<open>The name and the value of a header, cut at the first colon.\<close>

definition hdr_split :: "string \<Rightarrow> string \<times> string" where
  "hdr_split h =
     (let h = takeWhile (\<lambda>c. c \<noteq> nul) h;
          name = takeWhile (\<lambda>c. c \<noteq> CHR '':'') h
      in (name, skipspace (drop (Suc (length name)) h)))"

definition rfc822hdr_read ::
    "rfc822hdr \<Rightarrow> string \<Rightarrow> nat option \<Rightarrow> nat \<Rightarrow> rfc822hdr \<times> string \<times> nat option \<times> int" where
  "rfc822hdr_read h f pos epos =
     (case hdr_loop (hdr_maxsize h) epos [] f pos of (b, f, pos) \<Rightarrow>
        if b = [] then (h\<lparr>header := [], hdr_value := []\<rparr>, f, if pos = None then None else Some epos, 1)
        else case hdr_split b of (name, val) \<Rightarrow> (h\<lparr>header := name, hdr_value := val\<rparr>, f, pos, 0))"

definition rfc822hdr_fixname :: "rfc822hdr \<Rightarrow> rfc822hdr" where
  "rfc822hdr_fixname h = h\<lparr>header := map tolower (header h)\<rparr>"

function collapse :: "string \<Rightarrow> string" where
  "collapse [] = []"
| "collapse (c # p) = (if c = nl then sp # collapse (skipspace p) else c # collapse p)"
  by pat_completeness auto
termination
  by (relation "measure length") (auto simp: less_Suc_eq_le length_skipspace)

definition rfc822hdr_collapse :: "rfc822hdr \<Rightarrow> rfc822hdr" where
  "rfc822hdr_collapse h = h\<lparr>hdr_value := collapse (hdr_value h)\<rparr>"

subsection \<open>Reading one header\<close>

lemma hdr_loop_length: "length (fst (snd (hdr_loop m e h f pos))) \<le> length f"
  by (induction m e h f pos rule: hdr_loop.induct) (auto simp: Let_def le_SucI)

lemma hdr_loop_progress:
  "fst (hdr_loop m e h f pos) \<noteq> h \<Longrightarrow> length (fst (snd (hdr_loop m e h f pos))) < length f"
  using hdr_loop_length by (cases "(m, e, h, f, pos)" rule: hdr_loop.cases)
    (auto simp: Let_def less_Suc_eq_le split: if_splits)

lemma rfc822hdr_read_progress:
  "rfc822hdr_read h f pos epos = (h', f', pos', 0) \<Longrightarrow> length f' < length f"
  using hdr_loop_progress [of "hdr_maxsize h" epos "[]" f pos]
  by (auto simp: rfc822hdr_read_def split: prod.splits if_splits)

text \<open>
  The loop of the callers, \<^verbatim>\<open>while (rfc822hdr_read(&h, fp, NULL, 0) == 0)\<close>, with the headers
  it sees and the rest of the file at its end.
\<close>

function read_headers :: "rfc822hdr \<Rightarrow> string \<Rightarrow> (string \<times> string) list \<times> string" where
  "read_headers h f =
     (case rfc822hdr_read h f None 0 of (h, f', pos, rc) \<Rightarrow>
        if rc = 0 then apfst (\<lambda>hs. (header h, hdr_value h) # hs) (read_headers h f') else ([], f'))"
  by pat_completeness auto
termination
  by (relation "measure (\<lambda>(h, f). length f)") (auto dest: rfc822hdr_read_progress [OF sym])

declare read_headers.simps [simp del]

text \<open>A header that continues over every newline in it.\<close>

fun folded :: "string \<Rightarrow> bool" where
  "folded [] \<longleftrightarrow> True"
| "folded (c # s) \<longleftrightarrow> (c = nl \<longrightarrow> \<not> hdr_ends s) \<and> folded s"

lemma hdr_ends_append: "s \<noteq> [] \<Longrightarrow> hdr_ends (s @ r) = hdr_ends s"
  by (cases s) (simp_all add: hdr_ends_def)

lemma hdr_loop_folded:
  "folded b \<Longrightarrow> hdr_ends f \<Longrightarrow> h @ b \<noteq> [] \<Longrightarrow> (h = [] \<Longrightarrow> hd b \<noteq> nl) \<Longrightarrow>
    hdr_loop 0 e h (b @ nl # f) None = (h @ b, f, None)"
proof (induction b arbitrary: h)
  case (Cons c b)
  have "\<not> hdr_ends (b @ nl # f)" if "c = nl"
    using Cons.prems(1) that by (cases b) (auto simp: hdr_ends_def)
  with Cons show ?case
    using Cons.IH [of "h @ [c]"] by auto
qed simp

lemma hdr_split_field:
  assumes "list_all (\<lambda>c. c \<noteq> nul \<and> c \<noteq> CHR '':'') name" "nul \<notin> set val" "val = [] \<or> \<not> isspace (hd val)"
  shows "hdr_split (name @ '': '' @ val) = (name, val)"
proof -
  have cut: "takeWhile (\<lambda>c. c \<noteq> nul) (name @ '': '' @ val) = name @ '': '' @ val"
    using assms(1,2) by (subst takeWhile_eq_all_conv) (auto simp: list_all_iff)
  have colon: "takeWhile (\<lambda>c. c \<noteq> CHR '':'') (name @ '': '' @ val) = name"
    using assms(1) by (simp add: list_all_iff takeWhile_append)
  have "skipspace (sp # val) = val"
  proof -
    have "isspace sp" by (simp add: isspace_def)
    with assms(3) show ?thesis by (cases val) (simp_all add: skipspace_def)
  qed
  then show ?thesis
    unfolding hdr_split_def Let_def cut colon by simp
qed

definition header_field :: "string \<times> string \<Rightarrow> bool" where
  "header_field = (\<lambda>(name, val).
     name \<noteq> [] \<and> list_all (\<lambda>c. c \<noteq> nul \<and> c \<noteq> CHR '':'' \<and> \<not> isspace c) name \<and>
     nul \<notin> set val \<and> folded val \<and> (val = [] \<or> \<not> isspace (hd val)))"

definition header_text :: "string \<times> string \<Rightarrow> string" where
  "header_text = (\<lambda>(name, val). name @ '': '' @ val @ [nl])"

lemma folded_append: "nl \<notin> set x \<Longrightarrow> folded (x @ y) \<longleftrightarrow> folded y"
  by (induction x) auto

lemma rfc822hdr_read_field:
  assumes "header_field (name, val)" "hdr_ends f" "hdr_maxsize h = 0"
  shows "rfc822hdr_read h (header_text (name, val) @ f) None 0 =
    (h\<lparr>header := name, hdr_value := val\<rparr>, f, None, 0)"
proof -
  have all: "\<forall>c \<in> set name. c \<noteq> nul \<and> c \<noteq> CHR '':'' \<and> \<not> isspace c" "name \<noteq> []"
    using assms(1) by (simp_all add: header_field_def list_all_iff)
  moreover have "isspace nl" by (simp add: isspace_def)
  ultimately have "nl \<notin> set name" by blast
  moreover from this have "hd name \<noteq> nl"
    using hd_in_set [OF all(2)] by metis
  moreover have "list_all (\<lambda>c. c \<noteq> nul \<and> c \<noteq> CHR '':'') name"
    unfolding list_all_iff using all(1) by blast
  ultimately have name: "nl \<notin> set name" "list_all (\<lambda>c. c \<noteq> nul \<and> c \<noteq> CHR '':'') name" "hd name \<noteq> nl" "name \<noteq> []"
    using all(2) by - assumption+
  have "folded (name @ '': '' @ val)"
    using assms(1) folded_append [of "name @ '': ''" val] name(1) by (simp add: header_field_def)
  then have "hdr_loop 0 0 [] ((name @ '': '' @ val) @ nl # f) None = ([] @ name @ '': '' @ val, f, None)"
    using name(3,4) assms(2) by (intro hdr_loop_folded) simp_all
  moreover have "hdr_split (name @ '': '' @ val) = (name, val)"
    using name(2) assms(1) by (intro hdr_split_field) (simp_all add: header_field_def)
  moreover have "header_text (name, val) @ f = (name @ '': '' @ val) @ nl # f"
    by (simp add: header_text_def)
  ultimately show ?thesis
    using assms(3) by (simp only: rfc822hdr_read_def) simp
qed

lemma header_text_ends: "header_field fd \<Longrightarrow> hdr_ends (header_text fd @ f)"
proof (cases fd)
  case (Pair name val)
  assume "header_field fd"
  with Pair show ?thesis
    by (cases name) (auto simp: header_field_def header_text_def hdr_ends_def)
qed

text \<open>
  C34. Reading the headers of a message gives its headers: the loop over \<open>rfc822hdr_read\<close>
  returns, in order, the names and values of a block of headers, folded over several lines or
  not, stops at the empty line, and leaves the file at the first byte of the body.
\<close>

theorem rfc822hdr_reads_block:
  assumes "list_all header_field fds" "hdr_maxsize h = 0"
  shows "read_headers h (concat (map header_text fds) @ nl # body) = (fds, body)"
  using assms
proof (induction fds arbitrary: h)
  case Nil
  then show ?case
    by (subst read_headers.simps) (simp add: rfc822hdr_read_def)
next
  case (Cons fd fds)
  obtain name val where fd: "fd = (name, val)" by force
  have "hdr_ends (concat (map header_text fds) @ nl # body)"
    using Cons.prems(1) header_text_ends by (cases fds) (auto simp: hdr_ends_def)
  then have "rfc822hdr_read h (header_text fd @ concat (map header_text fds) @ nl # body) None 0 =
      (h\<lparr>header := name, hdr_value := val\<rparr>, concat (map header_text fds) @ nl # body, None, 0)"
    using Cons.prems unfolding fd by (intro rfc822hdr_read_field) simp_all
  then show ?case
    using Cons by (subst read_headers.simps) (simp add: fd)
qed

theorem rfc822hdr_reads_block_witness:
  "read_headers \<lparr>header = [], hdr_value = [], hdr_maxsize = 0\<rparr>
     (''From: me'' @ nl # ''Subject: a'' @ nl # '' b'' @ nl # nl # ''text'') =
   ([(''From'', ''me''), (''Subject'', ''a'' @ nl # '' b'')], ''text'')"
  using rfc822hdr_reads_block [of "[(''From'', ''me''), (''Subject'', ''a'' @ nl # '' b'')]"
      "\<lparr>header = [], hdr_value = [], hdr_maxsize = 0\<rparr>" "''text''"]
  by (simp add: header_field_def header_text_def isspace_def hdr_ends_def)

subsection \<open>Limits\<close>

lemma hdr_loop_limit: "m \<noteq> 0 \<Longrightarrow> length h + 2 \<le> m \<Longrightarrow> length (fst (hdr_loop m e h f pos)) + 2 \<le> m"
  by (induction m e h f pos rule: hdr_loop.induct) (auto simp: Let_def)

lemma hdr_loop_pos:
  "p \<le> e \<Longrightarrow> \<exists>p'. snd (snd (hdr_loop m e h f (Some p))) = Some p' \<and> p' \<le> e \<and>
    p + (length f - length (fst (snd (hdr_loop m e h f (Some p))))) \<le> p'"
proof (induction f arbitrary: h p)
  case (Cons c f)
  show ?case
  proof (cases "e \<le> p")
    case False
    then have "Suc p \<le> e" by simp
    then show ?thesis
      using False Cons.IH [of "Suc p"] hdr_loop_length [of m e _ f "Some (Suc p)"]
      by (fastforce simp: Let_def Suc_diff_le)
  qed (use Cons.prems in simp)
qed simp

lemma collapse_nonl: "nl \<notin> set (collapse s)"
  by (induction s rule: collapse.induct) auto

lemma hdr_split_length: "length (fst (hdr_split b)) + length (snd (hdr_split b)) \<le> length b"
proof -
  define c where "c = takeWhile (\<lambda>c. c \<noteq> nul) b"
  define n where "n = takeWhile (\<lambda>c. c \<noteq> CHR '':'') c"
  have "length c \<le> length b" "length n \<le> length c"
    by (simp_all add: c_def n_def length_takeWhile_le)
  then show ?thesis
    using length_skipspace [of "drop (Suc (length n)) c"]
    by (simp add: hdr_split_def Let_def c_def [symmetric] n_def [symmetric])
qed

text \<open>
  The reader stays within its limits: with a maximum size set, the name and the value of a
  header together fit in it with two bytes to spare, and with a position, no byte at or after the
  end position is consumed and the position never passes the end; a collapsed value is a single
  line.
\<close>

theorem rfc822hdr_limits:
  assumes "rfc822hdr_read h f (Some p) epos = (h', f', pos', rc)" "p \<le> epos"
    and "hdr_maxsize h \<ge> 2"
  shows "length (header h') + length (hdr_value h') + 2 \<le> hdr_maxsize h \<and>
    p + (length f - length f') \<le> epos \<and> (\<exists>p'. pos' = Some p' \<and> p' \<le> epos) \<and>
    nl \<notin> set (hdr_value (rfc822hdr_collapse h'))"
proof -
  obtain b f1 pos1 where b: "hdr_loop (hdr_maxsize h) epos [] f (Some p) = (b, f1, pos1)"
    by (metis prod_cases3)
  have len: "length b + 2 \<le> hdr_maxsize h"
    using hdr_loop_limit [of "hdr_maxsize h" "[]" epos f "Some p"] assms(3) b by simp
  obtain p' where p': "pos1 = Some p'" "p' \<le> epos" "p + (length f - length f1) \<le> p'"
    using hdr_loop_pos [OF assms(2), of "hdr_maxsize h" "[]" f] b by auto
  have f': "f' = f1" "\<exists>p'. pos' = Some p' \<and> p' \<le> epos"
    using assms(1) b p' by (auto simp: rfc822hdr_read_def split: prod.splits if_splits)
  have "length (header h') + length (hdr_value h') \<le> length b"
    using assms(1) b hdr_split_length [of b]
    by (auto simp: rfc822hdr_read_def split: prod.splits if_splits)
  with len p' f' show ?thesis
    by (simp add: rfc822hdr_collapse_def collapse_nonl)
qed

theorem rfc822hdr_limits_witness:
  "\<exists>h' f' pos' rc.
    rfc822hdr_read \<lparr>header = [], hdr_value = [], hdr_maxsize = 8\<rparr> ''From: someone'' (Some 0) 9 = (h', f', pos', rc) \<and>
    length (header h') + length (hdr_value h') + 2 \<le> 8 \<and> length ''From: someone'' - length f' \<le> 9"
proof -
  let ?h = "\<lparr>header = [], hdr_value = [], hdr_maxsize = 8\<rparr>"
  obtain h' f' pos' rc where r: "rfc822hdr_read ?h ''From: someone'' (Some 0) 9 = (h', f', pos', rc)"
    by (metis prod_cases4)
  show ?thesis
    using rfc822hdr_limits [OF r] r by (intro exI [of _ h'] exI [of _ f'] exI [of _ pos'] exI [of _ rc]) simp
qed

end
