(* ===== verification/Numlib.thy ===== *)
theory Numlib
  imports C_Prelude "HOL-Library.Signed_Division"
begin

text \<open>
  The number printers of \<^verbatim>\<open>numlib\<close>. The system types have the sizes of a 64 bit Linux:
  \<^verbatim>\<open>dev_t\<close>, \<^verbatim>\<open>ino_t\<close>, \<^verbatim>\<open>size_t\<close> are unsigned of 64 bits, \<^verbatim>\<open>uid_t\<close>, \<^verbatim>\<open>gid_t\<close>
  unsigned of 32, \<^verbatim>\<open>time_t\<close>, \<^verbatim>\<open>off_t\<close> signed of 64 and \<^verbatim>\<open>pid_t\<close> signed of 32. A printer
  fills a buffer from its end, so the argument \<open>p\<close> of a loop is what has been stored.
\<close>

subsection \<open>The code\<close>

text \<open>The division and the remainder of C, which truncate, on the value of the type.\<close>

definition c_digit :: "int \<Rightarrow> char" where
  "c_digit t = char_of (nat ((48 + t smod 10) mod 256))"

lemma sdiv_measure: "(t::int) sdiv 10 \<noteq> 0 \<Longrightarrow> nat \<bar>t sdiv 10\<bar> < nat \<bar>t\<bar>"
  by (auto simp: signed_divide_int_def sgn_if split: if_splits)

function dec_loop :: "int \<Rightarrow> string \<Rightarrow> string" where
  "dec_loop t p =
     (let p = c_digit t # p; t = t sdiv 10
      in if t \<noteq> 0 then dec_loop t p else p)"
  by pat_completeness auto
termination
  by (relation "measure (\<lambda>(t, p). nat \<bar>t\<bar>)") (use sdiv_measure in auto)

declare dec_loop.simps [simp del]

definition libmail_str_dev_t :: "64 word \<Rightarrow> string" where
  "libmail_str_dev_t t = dec_loop (uint t) []"

definition libmail_str_ino_t :: "64 word \<Rightarrow> string" where
  "libmail_str_ino_t t = dec_loop (uint t) []"

definition libmail_str_size_t :: "64 word \<Rightarrow> string" where
  "libmail_str_size_t t = dec_loop (uint t) []"

definition libmail_str_uid_t :: "32 word \<Rightarrow> string" where
  "libmail_str_uid_t t = dec_loop (uint t) []"

definition libmail_str_gid_t :: "32 word \<Rightarrow> string" where
  "libmail_str_gid_t t = dec_loop (uint t) []"

definition libmail_str_pid_t :: "32 word \<Rightarrow> string" where
  "libmail_str_pid_t t = dec_loop (sint t) []"

definition libmail_str_time_t :: "64 word \<Rightarrow> string" where
  "libmail_str_time_t t = dec_loop (sint t) []"

definition libmail_str_off_t :: "64 word \<Rightarrow> string" where
  "libmail_str_off_t t =
     (if sint t < 0 then CHR ''-'' # dec_loop (sint (- t)) [] else dec_loop (sint t) [])"

text \<open>The hexadecimal printers: \<open>n\<close> digits, the low ones first.\<close>

fun hex_loop :: "nat \<Rightarrow> int \<Rightarrow> string \<Rightarrow> string" where
  "hex_loop 0 t p = p"
| "hex_loop (Suc n) t p = hex_loop n (t sdiv 16) (''0123456789ABCDEF'' ! nat (t AND 15) # p)"

definition libmail_strh_dev_t :: "64 word \<Rightarrow> string" where
  "libmail_strh_dev_t t = hex_loop (8 * 2) (uint t) []"

definition libmail_strh_ino_t :: "64 word \<Rightarrow> string" where
  "libmail_strh_ino_t t = hex_loop (8 * 2) (uint t) []"

definition libmail_strh_pid_t :: "32 word \<Rightarrow> string" where
  "libmail_strh_pid_t t = hex_loop (4 * 2) (sint t) []"

definition libmail_strh_time_t :: "64 word \<Rightarrow> string" where
  "libmail_strh_time_t t = hex_loop (8 * 2) (sint t) []"

text \<open>
  Sizes for people. \<open>tenths\<close> is the floating point expression
  \<^verbatim>\<open>(double)n / (1024.0 * 1024.0) * 10\<close>, truncated.
\<close>

definition cat_n :: "string \<Rightarrow> nat \<Rightarrow> string" where
  "cat_n buf n = buf @ dec_loop (int n) []"

definition libmail_str_sizekb :: "(64 word \<Rightarrow> nat) \<Rightarrow> 64 word \<Rightarrow> string" where
  "libmail_str_sizekb tenths n =
     (if n < 1024 then cat_n ''0.'' (unat (10 * n div 1024)) @ ''K''
      else if n < 1024 * 1024 then cat_n [] (unat ((n + 512) div 1024)) @ ''K''
      else let nm = tenths n in cat_n (cat_n [] (nm div 10) @ ''.'') (nm mod 10) @ ''M'')"

subsection \<open>Decimal\<close>

lemma dec_loop_dec: "dec_loop (int n) p = dec n @ p"
proof (induction n arbitrary: p rule: less_induct)
  case (less n)
  have "int n sdiv 10 = int (n div 10)" "int n smod 10 = int (n mod 10)"
    by (simp_all add: signed_divide_int_def signed_modulo_int_def sgn_if zdiv_int zmod_int)
  moreover have "c_digit (int n) = digit_char (n mod 10)"
    using calculation(2) by (simp add: c_digit_def digit_char_def nat_add_distrib)
  ultimately show ?case
    using less [of "n div 10"] by (subst dec_loop.simps, subst dec.simps) (auto simp: Let_def)
qed

lemma length_dec: "n < 10 ^ k \<Longrightarrow> 0 < k \<Longrightarrow> length (dec n) \<le> k"
proof (induction k arbitrary: n)
  case (Suc k)
  show ?case
  proof (cases "n < 10")
    case False
    then have "0 < k" using Suc.prems by (cases k) auto
    moreover have "n div 10 < 10 ^ k"
      using Suc.prems(1) by (simp add: less_mult_imp_div_less mult.commute)
    ultimately show ?thesis
      using Suc.IH [of "n div 10"] False by (subst dec.simps) simp
  qed (subst dec.simps, simp)
qed simp

text \<open>The value the loop goes on with only shrinks, whatever its sign.\<close>

lemma length_dec_loop: "\<bar>t\<bar> < 10 ^ k \<Longrightarrow> 0 < k \<Longrightarrow> length (dec_loop t p) \<le> k + length p"
proof (induction k arbitrary: t p)
  case (Suc k)
  show ?case
  proof (cases "t sdiv 10 = 0")
    case False
    have "\<bar>t sdiv 10\<bar> = \<bar>t\<bar> div 10"
      by (auto simp: signed_divide_int_def abs_mult)
    with False have "0 < k" "\<bar>t sdiv 10\<bar> < 10 ^ k"
      using Suc.prems(1) by (cases k; auto)+
    then show ?thesis
      using Suc.IH [of "t sdiv 10" "c_digit t # p"] False by (subst dec_loop.simps) (simp add: Let_def)
  qed (subst dec_loop.simps, simp add: Let_def)
qed simp

subsection \<open>Hexadecimal\<close>

definition hex_val :: "string \<Rightarrow> nat" where
  "hex_val s = foldl (\<lambda>v c. v * 16 + length (takeWhile (\<lambda>d. d \<noteq> c) ''0123456789ABCDEF'')) 0 s"

lemma hex_val_append:
  "foldl (\<lambda>v c. v * 16 + f c) a (xs @ [x]) = foldl (\<lambda>v c. v * 16 + f c) (a::nat) xs * 16 + f x"
  by simp

lemma hex_loop_append: "hex_loop n t p = hex_loop n t [] @ p"
proof (induction n arbitrary: t p)
  case (Suc n)
  show ?case
    using Suc [of "t sdiv 16" "''0123456789ABCDEF'' ! nat (t AND 15) # p"]
      Suc [of "t sdiv 16" "[''0123456789ABCDEF'' ! nat (t AND 15)]"] by simp
qed simp

lemma hex_index: "n < 16 \<Longrightarrow> length (takeWhile (\<lambda>d. d \<noteq> ''0123456789ABCDEF'' ! n) ''0123456789ABCDEF'') = n"
  by (rule index_distinct) simp_all

lemma length_hex_loop: "length (hex_loop n t p) = n + length p"
  by (induction n arbitrary: t p) simp_all

lemma hex_loop_val: "int m < 16 ^ n \<Longrightarrow> hex_val (hex_loop n (int m) []) = m"
proof (induction n arbitrary: m)
  case (Suc n)
  have d: "int m sdiv 16 = int (m div 16)"
    by (simp add: signed_divide_int_def sgn_if zdiv_int)
  have "m AND 15 = m mod 16"
    by (simp add: and_mask_nat)
  then have a: "nat (int m AND 15) = m mod 16"
    by (metis nat_int of_nat_and_eq of_nat_numeral)
  have "int (m div 16) < 16 ^ n"
    using Suc.prems by (simp add: zdiv_int)
  then show ?case
    using Suc.IH [of "m div 16"] hex_index [of "m mod 16"]
    by (simp add: d a hex_loop_append [of n _ "[_]"] hex_val_def)
qed (simp add: hex_val_def)

subsection \<open>What the printers print\<close>

lemma unsigned_small: "unat (w :: 64 word) < 10 ^ 20" "unat (v :: 32 word) < 10 ^ 10"
proof -
  have "unat w < 2 ^ 64" "unat v < 2 ^ 32"
    using unsigned_less [of w, where ?'a = nat] unsigned_less [of v, where ?'a = nat] by simp_all
  then show "unat w < 10 ^ 20" "unat v < 10 ^ 10" by simp_all
qed

lemma signed_small: "\<bar>sint (w :: 64 word)\<bar> < 10 ^ 19" "\<bar>sint (v :: 32 word)\<bar> < 10 ^ 10"
proof -
  have "- (2 ^ 63) \<le> sint w \<and> sint w < 2 ^ 63" "- (2 ^ 31) \<le> sint v \<and> sint v < 2 ^ 31"
    using sint_ge [of w] sint_lt [of w] sint_ge [of v] sint_lt [of v] by simp_all
  then show "\<bar>sint w\<bar> < 10 ^ 19" "\<bar>sint v\<bar> < 10 ^ 10" by (simp_all add: abs_less_iff)
qed

lemma sint_minus: "sint (w :: 64 word) \<noteq> - (2 ^ 63) \<Longrightarrow> sint w < 0 \<Longrightarrow> sint (- w) = - sint w"
proof -
  assume "sint w \<noteq> - (2 ^ 63)" "sint w < 0"
  moreover have "- (2 ^ 63) \<le> sint w" using sint_ge [of w] by simp
  ultimately have "- (2 ^ 63) \<le> - sint w" "- sint w < 2 ^ 63" by linarith+
  then have "signed_take_bit 63 (- sint w) = - sint w"
    by (simp add: signed_take_bit_int_eq_self)
  then show ?thesis
    by (simp add: sint_word_minus)
qed

lemma sint_dec: "0 \<le> sint w \<Longrightarrow> dec_loop (sint w) [] = dec (nat (sint w))"
  using dec_loop_dec [of "nat (sint w)" "[]"] by simp

lemma uint_dec: "dec_loop (uint w) [] = dec (unat w)"
  using dec_loop_dec [of "unat w" "[]"] by simp

lemma off_dec:
  "0 \<le> sint d \<Longrightarrow> libmail_str_off_t d = dec (nat (sint d))"
  "sint d < 0 \<Longrightarrow> sint d \<noteq> - (2 ^ 63) \<Longrightarrow> libmail_str_off_t d = CHR ''-'' # dec (nat (- sint d))"
  using dec_loop_dec [of "nat (- sint d)" "[]"] sint_minus [of d]
  by (simp_all add: libmail_str_off_t_def sint_dec)

lemma hex_dec:
  "hex_val (libmail_strh_dev_t d) = unat d"
  "0 \<le> sint d \<Longrightarrow> hex_val (libmail_strh_time_t d) = nat (sint d)"
  "0 \<le> sint u \<Longrightarrow> hex_val (libmail_strh_pid_t u) = nat (sint u)"
proof -
  have "int (unat d) < 16 ^ 16"
    using unsigned_less [of d, where ?'a = int] by simp
  then show "hex_val (libmail_strh_dev_t d) = unat d"
    using hex_loop_val [of "unat d" 16] by (simp add: libmail_strh_dev_t_def del: hex_loop.simps)
  have "sint d < 16 ^ 16" "sint u < 16 ^ 8"
    using sint_lt [of d] sint_lt [of u] by simp_all
  then show "0 \<le> sint d \<Longrightarrow> hex_val (libmail_strh_time_t d) = nat (sint d)"
    "0 \<le> sint u \<Longrightarrow> hex_val (libmail_strh_pid_t u) = nat (sint u)"
    using hex_loop_val [of "nat (sint d)" 16] hex_loop_val [of "nat (sint u)" 8]
    by (simp_all add: libmail_strh_time_t_def libmail_strh_pid_t_def del: hex_loop.simps)
qed

lemma length_print:
  "length (dec_loop (uint d) []) \<le> 21" "length (dec_loop (sint d) []) \<le> 20"
  "length (dec_loop (uint u) []) \<le> 21" "length (dec_loop (sint u) []) \<le> 20"
  for d :: "64 word" and u :: "32 word"
proof -
  have "\<bar>uint d\<bar> < 10 ^ 20" "\<bar>uint u\<bar> < 10 ^ 10"
    using unsigned_less [of d, where ?'a = int] unsigned_less [of u, where ?'a = int] by simp_all
  then show "length (dec_loop (uint d) []) \<le> 21" "length (dec_loop (uint u) []) \<le> 21"
    using length_dec_loop [of "uint d" 20 "[]"] length_dec_loop [of "uint u" 10 "[]"] by simp_all
  show "length (dec_loop (sint d) []) \<le> 20" "length (dec_loop (sint u) []) \<le> 20"
    using length_dec_loop [OF signed_small(1) [of d], of "[]"] length_dec_loop [OF signed_small(2) [of u], of "[]"]
    by simp_all
qed

lemma length_signed: "\<not> sint d < 0 \<Longrightarrow> length (dec (nat (sint d))) \<le> 21" for d :: "64 word"
  using length_print(2) [of d] sint_dec [of d] by simp

text \<open>
  The number printers are right and stay within their buffers of \<^verbatim>\<open>NUMBUFSIZE\<close> (60)
  bytes. Unsigned types and values of signed types that are not negative print as their decimal
  numeral, an offset of any sign but the least one with its sign, and the hexadecimal printers
  give all digits of the type, whose value is the number. With any argument, negative times and
  process numbers (which do not print as numerals) included, no printer stores more than 21
  characters.
\<close>

theorem numlib_prints:
  "libmail_str_dev_t d = dec (unat d) \<and> libmail_str_ino_t d = dec (unat d) \<and>
   libmail_str_size_t d = dec (unat d) \<and> libmail_str_uid_t u = dec (unat u) \<and>
   libmail_str_gid_t u = dec (unat u) \<and>
   (0 \<le> sint u \<longrightarrow> libmail_str_pid_t u = dec (nat (sint u))) \<and>
   (0 \<le> sint d \<longrightarrow> libmail_str_time_t d = dec (nat (sint d)) \<and> libmail_str_off_t d = dec (nat (sint d))) \<and>
   (sint d < 0 \<longrightarrow> sint d \<noteq> - (2 ^ 63) \<longrightarrow> libmail_str_off_t d = CHR ''-'' # dec (nat (- sint d))) \<and>
   hex_val (libmail_strh_dev_t d) = unat d \<and> length (libmail_strh_dev_t d) = 16 \<and>
   (0 \<le> sint d \<longrightarrow> hex_val (libmail_strh_time_t d) = nat (sint d)) \<and>
   (0 \<le> sint u \<longrightarrow> hex_val (libmail_strh_pid_t u) = nat (sint u)) \<and>
   list_all (\<lambda>s. length s \<le> 21)
     [libmail_str_dev_t d, libmail_str_ino_t d, libmail_str_size_t d, libmail_str_uid_t u, libmail_str_gid_t u,
      libmail_str_pid_t u, libmail_str_time_t d, libmail_str_off_t d]"
  using off_dec [of d] hex_dec length_signed [of d] length_print(1,2) [of d] length_print(3,4) [of u] length_print(2) [of "- d"]
  by (simp add: uint_dec sint_dec libmail_str_dev_t_def libmail_str_ino_t_def libmail_str_size_t_def
      libmail_str_uid_t_def libmail_str_gid_t_def libmail_str_pid_t_def libmail_str_time_t_def
      libmail_strh_dev_t_def length_hex_loop libmail_str_off_t_def)

theorem numlib_prints_witness:
  "libmail_str_off_t (- 17) = CHR ''-'' # dec 17 \<and> libmail_str_pid_t 4711 = dec 4711"
  using numlib_prints [of "- 17" 4711] by simp

end
