(* ===== verification/Userdb.thy ===== *)
theory Userdb
  imports Numlib
begin

text \<open>
  The user database (\<^verbatim>\<open>userdb/userdb.c\<close>): records of fields separated by bars, fetched from a
  database file by account name or by user number. The database library is not part of the
  repository's sources read here: an open file is the partial function \<open>fetch\<close> from keys to
  records, and the outcomes of \<^verbatim>\<open>stat\<close> and of opening the file are arguments. Memory
  allocation succeeds.
\<close>

subsection \<open>The connection\<close>

record userdb_conn =
  initialized :: bool
  conn_dt :: int
  conn_di :: int

text \<open>
  \<open>junk\<close> stands for the fields of \<^verbatim>\<open>stat_buf\<close> that are read after \<^verbatim>\<open>stat\<close> has failed.
\<close>

definition userdb_init ::
    "(int \<times> int) option \<Rightarrow> int \<times> int \<Rightarrow> bool \<Rightarrow> userdb_conn \<Rightarrow> userdb_conn" where
  "userdb_init stat junk opens c =
     (let st = (case stat of None \<Rightarrow> junk | Some s \<Rightarrow> s)
      in if initialized c \<and> stat \<noteq> None \<and> st = (conn_dt c, conn_di c) then c
         else if \<not> initialized c \<and> stat = None then c
         else c\<lparr>conn_dt := fst st, conn_di := snd st, initialized := opens\<rparr>)"

definition userdb_close :: "userdb_conn \<Rightarrow> userdb_conn" where
  "userdb_close c = c\<lparr>initialized := False\<rparr>"

definition userdb :: "(string \<Rightarrow> string option) \<Rightarrow> userdb_conn \<Rightarrow> string \<Rightarrow> string option" where
  "userdb fetch c u = (if initialized c then map_option (takeWhile (\<lambda>c. c \<noteq> nul)) (fetch u) else None)"

definition userdbshadow :: "(string \<Rightarrow> string option) option \<Rightarrow> string \<Rightarrow> string option" where
  "userdbshadow db u =
     (case db of None \<Rightarrow> None | Some fetch \<Rightarrow> map_option (takeWhile (\<lambda>c. c \<noteq> nul)) (fetch u))"

subsection \<open>Fields of a record\<close>

text \<open>The field's contents as the rest of the record from there, and their length.\<close>

function userdb_get :: "string \<Rightarrow> string \<Rightarrow> (string \<times> nat) option" where
  "userdb_get u n =
     (if u = [] then None
      else
        let v = drop (length n) u
        in if take (length n) u = n \<and> (v = [] \<or> hd v = CHR ''='' \<or> hd v = CHR ''|'') then
             (if v \<noteq> [] \<and> hd v = CHR ''='' then Some (tl v, length (takeWhile (\<lambda>c. c \<noteq> CHR ''|'') (tl v)))
              else Some (v, 0))
           else case dropWhile (\<lambda>c. c \<noteq> CHR ''|'') u of [] \<Rightarrow> None | _ # u \<Rightarrow> userdb_get u n)"
  by pat_completeness auto
termination
proof (relation "measure (\<lambda>(u, n). length u)")
  have "length t < length u" if "dropWhile (\<lambda>c. c \<noteq> CHR ''|'') u = c # t" for u t c
    using length_dropWhile_le [of "\<lambda>c. c \<noteq> CHR ''|''" u] unfolding that by simp
  then show "u \<noteq> [] \<Longrightarrow> v = drop (length n) u \<Longrightarrow>
      \<not> (take (length n) u = n \<and> (v = [] \<or> hd v = CHR ''='' \<or> hd v = CHR ''|'')) \<Longrightarrow>
      dropWhile (\<lambda>c. c \<noteq> CHR ''|'') u = c # t \<Longrightarrow> ((t, n), u, n) \<in> measure (\<lambda>(u, n). length u)"
    for u n v c t by simp
qed simp

declare userdb_get.simps [simp del]

definition userdb_getu :: "string \<Rightarrow> string \<Rightarrow> 32 word \<Rightarrow> 32 word" where
  "userdb_getu u n defnum =
     (case userdb_get u n of
        None \<Rightarrow> defnum
      | Some (p, l) \<Rightarrow> foldl (\<lambda>v c. v * 10 + of_nat (code c - 48)) 0 (takeWhile isdigit (take l p)))"

definition userdb_gets :: "string \<Rightarrow> string \<Rightarrow> string option" where
  "userdb_gets u n = map_option (\<lambda>(p, l). take l p) (userdb_get u n)"

text \<open>\<^verbatim>\<open>atol\<close>, which saturates, and its value as a user or group number.\<close>

definition c_atol :: "string \<Rightarrow> int" where
  "c_atol s =
     (let s = skipspace s;
          neg = (s \<noteq> [] \<and> hd s = CHR ''-'');
          s = (if s \<noteq> [] \<and> (hd s = CHR ''-'' \<or> hd s = CHR ''+'') then tl s else s);
          v = int (dec_val 0 (takeWhile isdigit s))
      in max (- (2 ^ 63)) (min (2 ^ 63 - 1) (if neg then - v else v)))"

record userdbs =
  udb_name :: "string option"
  udb_gecos :: "string option"
  udb_dir :: string
  udb_shell :: "string option"
  udb_mailbox :: "string option"
  udb_quota :: "string option"
  udb_uid :: "32 word"
  udb_gid :: "32 word"
  udb_source :: "string option"

definition userdb_creates :: "string \<Rightarrow> userdbs option" where
  "userdb_creates u =
     (case userdb_gets u ''home'' of
        None \<Rightarrow> None
      | Some dir \<Rightarrow>
          (case userdb_gets u ''uid'' of
             None \<Rightarrow> None
           | Some uid \<Rightarrow>
               (case userdb_gets u ''gid'' of
                  None \<Rightarrow> None
                | Some gid \<Rightarrow>
                    Some \<lparr>udb_name = None, udb_gecos = userdb_gets u ''gecos'', udb_dir = dir,
                      udb_shell = userdb_gets u ''shell'', udb_mailbox = userdb_gets u ''mail'',
                      udb_quota = userdb_gets u ''quota'', udb_uid = word_of_int (c_atol uid),
                      udb_gid = word_of_int (c_atol gid), udb_source = userdb_gets u ''_''\<rparr>)))"

definition userdb_createsuid ::
    "(string \<Rightarrow> string option) \<Rightarrow> userdb_conn \<Rightarrow> 32 word \<Rightarrow> userdbs option" where
  "userdb_createsuid fetch c u =
     (case userdb fetch c (dec_loop (uint u) ''='') of
        None \<Rightarrow> None
      | Some p \<Rightarrow>
          (case userdb fetch c p of
             None \<Rightarrow> None
           | Some q \<Rightarrow> map_option (\<lambda>s. s\<lparr>udb_name := Some p\<rparr>) (userdb_creates q)))"

subsection \<open>Records as lists of fields\<close>

text \<open>A field is its name with a value or without one; the bars separate the fields.\<close>

fun udb_record :: "(string \<times> string option) list \<Rightarrow> string" where
  "udb_record [] = []"
| "udb_record [(n, v)] = n @ (case v of None \<Rightarrow> [] | Some v \<Rightarrow> CHR ''='' # v)"
| "udb_record ((n, v) # fs) =
     n @ (case v of None \<Rightarrow> [] | Some v \<Rightarrow> CHR ''='' # v) @ CHR ''|'' # udb_record fs"

definition udb_field :: "string \<times> string option \<Rightarrow> bool" where
  "udb_field = (\<lambda>(n, v). n \<noteq> [] \<and> CHR ''|'' \<notin> set n \<and> CHR ''='' \<notin> set n \<and>
     (\<forall>x. v = Some x \<longrightarrow> CHR ''|'' \<notin> set x))"

text \<open>
  For a name without separators the test of \<open>userdb_get\<close> compares the name with what is in front
  of the first separator.
\<close>

definition sep :: "char \<Rightarrow> bool" where
  "sep c \<longleftrightarrow> c = CHR ''='' \<or> c = CHR ''|''"

definition key :: "string \<Rightarrow> string" where
  "key u = takeWhile (\<lambda>c. \<not> sep c) u"

lemma userdb_get_key:
  assumes "list_all (\<lambda>c. \<not> sep c) n" "u \<noteq> []"
  shows "userdb_get u n =
    (if key u = n then
       (let v = drop (length n) u
        in if v \<noteq> [] \<and> hd v = CHR ''='' then Some (tl v, length (takeWhile (\<lambda>c. c \<noteq> CHR ''|'') (tl v)))
           else Some (v, 0))
     else case dropWhile (\<lambda>c. c \<noteq> CHR ''|'') u of [] \<Rightarrow> None | _ # u \<Rightarrow> userdb_get u n)"
proof -
  define v where "v = drop (length n) u"
  have "take (length n) u = n \<and> (v = [] \<or> hd v = CHR ''='' \<or> hd v = CHR ''|'') \<longleftrightarrow> key u = n"
  proof
    assume m: "take (length n) u = n \<and> (v = [] \<or> hd v = CHR ''='' \<or> hd v = CHR ''|'')"
    then have "u = n @ v" "v = [] \<or> sep (hd v)"
      using append_take_drop_id [of "length n" u] by (auto simp: v_def sep_def)
    with assms(1) show "key u = n"
      by (cases v) (auto simp: key_def list_all_iff takeWhile_append)
  next
    assume k: "key u = n"
    then have "length n \<le> length u" "take (length n) u = n" "v = dropWhile (\<lambda>c. \<not> sep c) u"
      unfolding key_def v_def
      by (auto simp: length_takeWhile_le takeWhile_eq_take [symmetric] dropWhile_eq_drop
          dest: arg_cong [of _ _ length])
    then show "take (length n) u = n \<and> (v = [] \<or> hd v = CHR ''='' \<or> hd v = CHR ''|'')"
      using hd_dropWhile [of "\<lambda>c. \<not> sep c" u] by (cases "v = []") (auto simp: sep_def)
  qed
  with assms(2) show ?thesis
    by (subst userdb_get.simps) (simp add: v_def Let_def)
qed

definition field_text :: "string \<times> string option \<Rightarrow> string" where
  "field_text = (\<lambda>(n, v). n @ (case v of None \<Rightarrow> [] | Some v \<Rightarrow> CHR ''='' # v))"

lemma udb_record_simps [simp]:
  "udb_record [fd] = field_text fd"
  "fs \<noteq> [] \<Longrightarrow> udb_record (fd # fs) = field_text fd @ CHR ''|'' # udb_record fs"
  by (cases fd; cases fs; simp add: field_text_def)+

lemma field_text:
  assumes "udb_field (n, v)" "r = [] \<or> hd r = CHR ''|''"
  shows "key (field_text (n, v) @ r) = n" "field_text (n, v) \<noteq> []"
    "dropWhile (\<lambda>c. c \<noteq> CHR ''|'') (field_text (n, v) @ r) = r"
    "userdb_gets (field_text (n, v) @ r) n = Some (case v of None \<Rightarrow> [] | Some x \<Rightarrow> x)"
proof -
  have n: "list_all (\<lambda>c. \<not> sep c) n" "n \<noteq> []"
    using assms(1) by (auto simp: udb_field_def list_all_iff sep_def)
  show key: "key (field_text (n, v) @ r) = n"
    using n assms(2) by (cases v; cases r) (auto simp: key_def field_text_def sep_def list_all_iff takeWhile_append)
  show ne: "field_text (n, v) \<noteq> []"
    using n by (simp add: field_text_def)
  have "CHR ''|'' \<notin> set (field_text (n, v))"
    using assms(1) by (auto simp: udb_field_def field_text_def split: option.splits)
  then show "dropWhile (\<lambda>c. c \<noteq> CHR ''|'') (field_text (n, v) @ r) = r"
    using assms(2) by (cases r) (auto simp: dropWhile_append)
  have "takeWhile (\<lambda>c. c \<noteq> CHR ''|'') (x @ r) = x" if "v = Some x" for x
    using assms that by (cases r) (auto simp: udb_field_def takeWhile_append)
  then show "userdb_gets (field_text (n, v) @ r) n = Some (case v of None \<Rightarrow> [] | Some x \<Rightarrow> x)"
  proof -
    assume tw: "\<And>x. v = Some x \<Longrightarrow> takeWhile (\<lambda>c. c \<noteq> CHR ''|'') (x @ r) = x"
    have "drop (length n) (field_text (n, v) @ r) = (case v of None \<Rightarrow> [] | Some v \<Rightarrow> CHR ''='' # v) @ r"
      by (simp add: field_text_def)
    then have "userdb_get (field_text (n, v) @ r) n =
        (case v of None \<Rightarrow> Some (r, 0) | Some x \<Rightarrow> Some (x @ r, length x))"
      using userdb_get_key [OF n(1), of "field_text (n, v) @ r"] key ne assms(2) tw
      by (auto simp: Let_def split: option.splits)
    then show ?thesis
      by (simp add: userdb_gets_def split: option.splits)
  qed
qed

lemma userdb_gets_skip:
  assumes "udb_field (n, v)" "r = [] \<or> hd r = CHR ''|''" "list_all (\<lambda>c. \<not> sep c) m" "m \<noteq> n"
  shows "userdb_gets (field_text (n, v) @ r) m = (if r = [] then None else userdb_gets (tl r) m)"
  using field_text [OF assms(1,2)] assms(4) unfolding userdb_gets_def
  by (subst userdb_get_key [OF assms(3)]) (auto split: list.splits)

text \<open>
  Looking up a field of a record is looking up its name in the list of fields: the first
  field of that name counts, a field without a value is the empty string, and the name is not
  found as a part of another name or in a value.
\<close>

theorem userdb_gets_assoc:
  assumes "list_all udb_field fs" "CHR ''='' \<notin> set n" "CHR ''|'' \<notin> set n"
  shows "userdb_gets (udb_record fs) n = map_option (\<lambda>v. case v of None \<Rightarrow> [] | Some x \<Rightarrow> x) (map_of fs n)"
proof -
  have n: "list_all (\<lambda>c. \<not> sep c) n"
    using assms(2,3) by (auto simp: list_all_iff sep_def)
  show ?thesis
    using assms(1)
  proof (induction fs)
    case Nil
    then show ?case
      by (simp add: userdb_gets_def userdb_get.simps)
  next
    case (Cons fd fs)
    obtain k v where fd: "fd = (k, v)" by force
    define r where "r = (if fs = [] then [] else CHR ''|'' # udb_record fs)"
    have "udb_record (fd # fs) = field_text (k, v) @ r" "r = [] \<or> hd r = CHR ''|''" "udb_field (k, v)"
      using Cons.prems by (simp_all add: fd r_def)
    with Cons show ?case
      using field_text(4) [of k v r] userdb_gets_skip [of k v r n] n
      by (cases "k = n") (auto simp: fd r_def)
  qed
qed

theorem userdb_gets_assoc_witness:
  "userdb_gets ''homedir=/x|home=/home/ann|imap|uid=1'' ''home'' = Some ''/home/ann''"
  using userdb_gets_assoc [of "[(''homedir'', Some ''/x''), (''home'', Some ''/home/ann''), (''imap'', None),
      (''uid'', Some ''1'')]" "''home''"]
  by (simp add: udb_field_def field_text_def)

end
