(* ===== verification/Rfc2045_Header.thy ===== *)
theory Rfc2045_Header
  imports Rfc822_Addr_Print Userdb
begin

text \<open>
  The header of a MIME section (\<^verbatim>\<open>rfc2045/rfc2045.c\<close>, \<open>do_header\<close> and what it calls): the
  fields of \<^verbatim>\<open>struct rfc2045\<close> that describe a section, its attribute lists, and how a completed header line
  changes them. A pointer to a string is an option, a list of attributes a list of pairs;
  memory allocation succeeds. \<^verbatim>\<open>rfc2045_in_reformime\<close> is an argument.
\<close>

subsection \<open>A section\<close>

record part_info =
  pindex :: nat
  startpos :: nat
  endpos :: nat
  startbody :: nat
  endbody :: nat
  nlines :: nat
  nbodylines :: nat
  mime_version :: "string option"
  content_type :: "string option"
  content_type_attr :: "(string \<times> string) list"
  content_disposition :: "string option"
  content_disposition_attr :: "(string \<times> string) list"
  boundary :: "string option"
  content_transfer_encoding :: "string option"
  content_8bit :: bool
  content_id :: "string option"
  content_description :: "string option"
  content_language :: "string option"
  content_md5 :: "string option"
  content_base :: "string option"
  content_location :: "string option"
  rfcviolation :: nat
  numparts :: nat
  workinheader :: bool
  workclosed :: bool
  isdummy :: bool
  informdata :: bool
  hdr :: string

definition alloc_info :: part_info where
  "alloc_info =
     \<lparr>pindex = 1, startpos = 0, endpos = 0, startbody = 0, endbody = 0, nlines = 0, nbodylines = 0,
      mime_version = None, content_type = None, content_type_attr = [], content_disposition = None,
      content_disposition_attr = [], boundary = None, content_transfer_encoding = None, content_8bit = False,
      content_id = None, content_description = None, content_language = None, content_md5 = None,
      content_base = None, content_location = None, rfcviolation = 0, numparts = 0, workinheader = True,
      workclosed = False, isdummy = False, informdata = False, hdr = []\<rparr>"

definition ERR8BITHEADER :: nat where "ERR8BITHEADER = 1"
definition ERR8BITCONTENT :: nat where "ERR8BITCONTENT = 2"
definition ERR2COMPLEX :: nat where "ERR2COMPLEX = 4"
definition ERRBADBOUNDARY :: nat where "ERRBADBOUNDARY = 8"

subsection \<open>Attributes\<close>

fun rfc2045_getattr :: "(string \<times> string) list \<Rightarrow> string \<Rightarrow> string option" where
  "rfc2045_getattr [] name = None"
| "rfc2045_getattr ((n, v) # p) name = (if n = name then Some v else rfc2045_getattr p name)"

fun rfc2045_setattr :: "(string \<times> string) list \<Rightarrow> string \<Rightarrow> string option \<Rightarrow> (string \<times> string) list" where
  "rfc2045_setattr [] name val = (case val of None \<Rightarrow> [] | Some v \<Rightarrow> [(name, v)])"
| "rfc2045_setattr ((n, w) # p) name val =
     (if n = name then (case val of None \<Rightarrow> p | Some v \<Rightarrow> (n, v) # p)
      else (n, w) # rfc2045_setattr p name val)"

subsection \<open>Tokens as strings\<close>

definition paste_tokens :: "string \<Rightarrow> rfc822token list \<Rightarrow> string" where
  "paste_tokens buf ts =
     concat (map (\<lambda>t. if token t = CHR ''('' then []
                      else if rfc822_is_atom (token t) then tok_text buf t else [token t]) ts)"

definition lower_paste_tokens :: "string \<Rightarrow> rfc822token list \<Rightarrow> string" where
  "lower_paste_tokens buf ts = map tolower (paste_tokens buf ts)"

subsection \<open>The headers\<close>

text \<open>
  The parameters after the content type, from the first semicolon on: the tokens of the name, of
  which the first is used, and those of the value. \<open>reformime\<close> makes the value one quoted string.
\<close>

function content_params :: "bool \<Rightarrow> rfc822token list \<Rightarrow> (rfc822token \<times> rfc822token list) list" where
  "content_params reformime [] = []"
| "content_params reformime (t # ts) =
     (let i = length (takeWhile (\<lambda>t. token t \<noteq> CHR '';'') (t # ts));
          seg = takeWhile (\<lambda>t. token t \<noteq> CHR '';'') (t # ts);
          j = 1 + length (takeWhile (\<lambda>t. token t = CHR ''('') (drop 1 seg));
          found = (seg \<noteq> [] \<and> j < i \<and> token (seg ! j) = CHR ''='');
          j = j + 1;
          i = (if found \<and> reformime \<and> j < i \<and> token (seg ! j) = dquote then j + 1 else i)
      in (if found then [(t, drop j (take i (t # ts)))] else []) @ content_params reformime (drop (i + 1) (t # ts)))"
  by pat_completeness auto
termination
  by (relation "measure (\<lambda>(r, ts). length ts)") (auto simp: Let_def)

declare content_params.simps [simp del]

definition parse_content_header ::
    "bool \<Rightarrow> string \<Rightarrow> rfc822token list \<Rightarrow> string \<times> (string \<times> rfc822token list) list" where
  "parse_content_header reformime buf header =
     (let ts = drop 2 header;
          ty = takeWhile (\<lambda>t. token t \<noteq> CHR '';'') ts
      in (lower_paste_tokens buf ty,
          map (\<lambda>(t, v). (lower_paste_tokens buf [t], v)) (content_params reformime (drop (length ty + 1) ts))))"

text \<open>
  Whether a boundary is a prefix of that of an outer section or the other way round. The
  outer boundaries are listed from the parent up.
\<close>

definition boundary_clash :: "string \<Rightarrow> string option list \<Rightarrow> bool" where
  "boundary_clash p outer =
     list_ex (\<lambda>b. case b of None \<Rightarrow> False
       | Some a \<Rightarrow> take (min (length a) (length p)) a = take (min (length a) (length p)) p) outer"

definition save_content_type_parameter ::
    "string \<Rightarrow> string option list \<Rightarrow> string \<times> rfc822token list \<Rightarrow> part_info \<times> bool \<Rightarrow> part_info \<times> bool" where
  "save_content_type_parameter buf outer = (\<lambda>(name, ts) (r, bad).
     let p = (if name = ''charset'' then lower_paste_tokens buf ts else paste_tokens buf ts);
         r = r\<lparr>content_type_attr := rfc2045_setattr (content_type_attr r) name (Some p)\<rparr>
     in if name = ''boundary''
        then let p = lower_paste_tokens buf ts
             in (r\<lparr>boundary := Some p\<rparr>, bad \<or> boundary_clash p outer)
        else (r, bad))"

definition content_type_header ::
    "bool \<Rightarrow> string \<Rightarrow> string option list \<Rightarrow> rfc822token list \<Rightarrow> part_info \<Rightarrow> part_info \<times> bool" where
  "content_type_header reformime buf outer header r =
     (case parse_content_header reformime buf header of (ty, ps) \<Rightarrow>
        fold (save_content_type_parameter buf outer) ps (r\<lparr>content_type := Some ty\<rparr>, False))"

definition content_disposition_header :: "bool \<Rightarrow> string \<Rightarrow> rfc822token list \<Rightarrow> part_info \<Rightarrow> part_info" where
  "content_disposition_header reformime buf header r =
     (case parse_content_header reformime buf header of (ty, ps) \<Rightarrow>
        fold (\<lambda>(name, ts) r. r\<lparr>content_disposition_attr :=
            rfc2045_setattr (content_disposition_attr r) name (Some (paste_tokens buf ts))\<rparr>)
          ps (r\<lparr>content_disposition := Some ty\<rparr>))"

definition content_transfer_encoding_header :: "string \<Rightarrow> rfc822token list \<Rightarrow> part_info \<Rightarrow> part_info" where
  "content_transfer_encoding_header buf header r =
     (let p = lower_paste_tokens buf (drop 2 header)
      in r\<lparr>content_transfer_encoding := Some p, content_8bit := (p = ''8bit'' \<or> content_8bit r)\<rparr>)"

text \<open>The first address with tokens; \<open>None\<close> of \<open>rfc822a_alloc\<close> does not occur.\<close>

definition first_addr :: "string \<Rightarrow> rfc822token list \<Rightarrow> string option" where
  "first_addr buf ts =
     (case rfc822a_alloc ts of
        None \<Rightarrow> None
      | Some (as, n) \<Rightarrow>
          map_option (\<lambda>i. rfc822_getaddr buf as (int i)) (find (\<lambda>i. atokens (as ! i) \<noteq> []) [0..<n]))"

definition content_id_header :: "string \<Rightarrow> rfc822token list \<Rightarrow> part_info \<Rightarrow> part_info" where
  "content_id_header buf header p =
     (case first_addr buf header of None \<Rightarrow> p | Some s \<Rightarrow> p\<lparr>content_id := Some s\<rparr>)"

text \<open>The raw text of a header after its colon.\<close>

definition header_value :: "string \<Rightarrow> string option" where
  "header_value buf =
     (case dropWhile (\<lambda>c. c \<noteq> CHR '':'') buf of [] \<Rightarrow> None | _ # t \<Rightarrow> Some (skipspace t))"

definition set_value :: "string option \<Rightarrow> string option \<Rightarrow> string option" where
  "set_value v old = (case v of None \<Rightarrow> old | Some s \<Rightarrow> if s = [] then old else Some s)"

definition unquote_tokens :: "rfc822token list \<Rightarrow> rfc822token list" where
  "unquote_tokens ts = map (\<lambda>t. if token t = dquote then t\<lparr>token := nul\<rparr> else t) ts"

text \<open>
  \<open>do_header\<close>: the section, and whether its boundary is ambiguous, which is noted at the
  root.
\<close>

definition do_header :: "bool \<Rightarrow> string option list \<Rightarrow> part_info \<Rightarrow> part_info \<times> bool" where
  "do_header reformime outer p =
     (let buf = hdr p; header = rfc822t_alloc buf
      in if buf = [] then (p, False)
         else if length header < 2 \<or> token (header ! 0) \<noteq> nul \<or> token (header ! 1) \<noteq> CHR '':'' then (p, False)
         else
           let t = lower_paste_tokens buf [header ! 0]
           in if t = ''mime-version'' then (p\<lparr>mime_version := Some (paste_tokens buf (drop 2 header))\<rparr>, False)
              else if t = ''content-type'' then content_type_header reformime buf outer header p
              else if t = ''content-transfer-encoding'' then (content_transfer_encoding_header buf header p, False)
              else if t = ''content-disposition'' then (content_disposition_header reformime buf header p, False)
              else if t = ''content-id'' then (content_id_header buf header p, False)
              else if t = ''content-description''
                then (p\<lparr>content_description := set_value (header_value buf) (content_description p)\<rparr>, False)
              else if t = ''content-language''
                then (p\<lparr>content_language := set_value (header_value buf) (content_language p)\<rparr>, False)
              else if t = ''content-base''
                then (p\<lparr>content_base := Some (paste_tokens buf (drop 2 (unquote_tokens header)))\<rparr>, False)
              else if t = ''content-location''
                then (p\<lparr>content_location := Some (paste_tokens buf (drop 2 (unquote_tokens header)))\<rparr>, False)
              else if t = ''content-md5''
                then (p\<lparr>content_md5 := set_value (header_value buf) (content_md5 p)\<rparr>, False)
              else (p, False))"

subsection \<open>What the callers ask\<close>

definition getinfo :: "string option \<Rightarrow> string \<Rightarrow> string" where
  "getinfo s def = (case s of None \<Rightarrow> def | Some t \<Rightarrow> if t = [] then def else t)"

text \<open>\<open>defcharset\<close> is \<^verbatim>\<open>rfc2045_defcharset\<close>.\<close>

definition rfc2045_mimeinfo :: "string \<Rightarrow> part_info \<Rightarrow> string \<times> string \<times> string" where
  "rfc2045_mimeinfo defcharset p =
     (getinfo (content_type p) ''text/plain'', getinfo (content_transfer_encoding p) ''8bit'',
      case rfc2045_getattr (content_type_attr p) ''charset'' of None \<Rightarrow> defcharset | Some c \<Rightarrow> c)"

definition rfc2045_boundary :: "part_info \<Rightarrow> string" where
  "rfc2045_boundary p = (case rfc2045_getattr (content_type_attr p) ''boundary'' of None \<Rightarrow> [] | Some cb \<Rightarrow> cb)"

definition rfc2045_isflowed :: "part_info \<Rightarrow> bool" where
  "rfc2045_isflowed p \<longleftrightarrow> rfc2045_getattr (content_type_attr p) ''format'' = Some ''flowed''"

definition rfc2045_related_start :: "part_info \<Rightarrow> string option" where
  "rfc2045_related_start p =
     (case rfc2045_getattr (content_type_attr p) ''start'' of
        None \<Rightarrow> None
      | Some cb \<Rightarrow> if cb = [] then None else first_addr cb (rfc822t_alloc cb))"

definition string_or_empty :: "string option \<Rightarrow> string" where
  "string_or_empty s = (case s of None \<Rightarrow> [] | Some t \<Rightarrow> t)"

text \<open>The positions, given whether the section is part of another.\<close>

definition rfc2045_mimepos :: "bool \<Rightarrow> part_info \<Rightarrow> nat \<times> nat \<times> nat \<times> nat \<times> nat" where
  "rfc2045_mimepos parent p =
     (let end_pos = (if parent then endbody p else endpos p);
          lines = (if parent \<and> nlines p \<noteq> 0 then nlines p - 1 else nlines p);
          blines = (if parent \<and> nbodylines p \<noteq> 0 then nbodylines p - 1 else nbodylines p);
          start_body = (if startbody p = startpos p then end_pos else startbody p)
      in (startpos p, end_pos, start_body, lines, blines))"

subsection \<open>Attributes are a map\<close>

lemma getattr_None: "name \<notin> fst ` set p \<Longrightarrow> rfc2045_getattr p name = None"
  by (induction p name rule: rfc2045_getattr.induct) auto

lemma getattr_setattr:
  "distinct (map fst p) \<Longrightarrow>
    rfc2045_getattr (rfc2045_setattr p name val) n = (if n = name then val else rfc2045_getattr p n)"
  by (induction p name val rule: rfc2045_setattr.induct) (auto split: option.splits simp: getattr_None)

lemma keys_setattr: "set (map fst (rfc2045_setattr p name val)) \<subseteq> insert name (set (map fst p))"
  by (induction p name val rule: rfc2045_setattr.induct) (auto split: option.splits)

lemma distinct_setattr: "distinct (map fst p) \<Longrightarrow> distinct (map fst (rfc2045_setattr p name val))"
proof (induction p name val rule: rfc2045_setattr.induct)
  case (2 n w p name val)
  then show ?case
    using keys_setattr [of p name val] by (cases val) auto
qed (simp split: option.splits)

text \<open>
  A header line changes what describes the section, but not its position, its state or its
  place: what is left of a section without its description.
\<close>

definition place :: "part_info \<Rightarrow> part_info" where
  "place p = p\<lparr>mime_version := None, content_type := None, content_type_attr := [], content_disposition := None,
     content_disposition_attr := [], boundary := None, content_transfer_encoding := None, content_8bit := False,
     content_id := None, content_description := None, content_language := None, content_md5 := None,
     content_base := None, content_location := None\<rparr>"

lemma place_simps [simp]:
  "startpos (place p) = startpos p" "endpos (place p) = endpos p" "startbody (place p) = startbody p"
  "endbody (place p) = endbody p" "workinheader (place p) = workinheader p" "workclosed (place p) = workclosed p"
  "isdummy (place p) = isdummy p" "informdata (place p) = informdata p" "numparts (place p) = numparts p"
  by (simp_all add: place_def)

lemma place_params: "place (fst (fold (save_content_type_parameter buf outer) ps (p, bad))) = place p"
proof (induction ps arbitrary: p bad)
  case (Cons x ps)
  obtain q bad' where q: "save_content_type_parameter buf outer x (p, bad) = (q, bad')" by fastforce
  then have "place q = place p"
    by (cases x) (auto simp: save_content_type_parameter_def place_def Let_def split: if_splits)
  with Cons.IH [of q bad'] q show ?case by simp
qed simp

lemma place_disposition:
  "place (fold (\<lambda>(name, ts) r. r\<lparr>content_disposition_attr :=
      rfc2045_setattr (content_disposition_attr r) name (Some (paste_tokens buf ts))\<rparr>) ps p) = place p"
  by (induction ps arbitrary: p) (auto simp: place_def)

lemma do_header_place: "place (fst (do_header reformime outer p)) = place p"
proof -
  have "place (content_disposition_header reformime buf header p) = place p" for buf header
    by (simp add: content_disposition_header_def place_disposition split: prod.splits) (simp add: place_def)
  moreover have "place (fst (content_type_header reformime buf outer header p)) = place p" for buf header
    by (simp add: content_type_header_def place_params split: prod.splits) (simp add: place_def)
  moreover have "place (content_transfer_encoding_header buf header p) = place p"
    "place (content_id_header buf header p) = place p" for buf header
    by (simp_all add: content_transfer_encoding_header_def content_id_header_def place_def Let_def split: option.splits)
  ultimately show ?thesis
    by (simp add: do_header_def Let_def) (simp add: place_def)
qed

end
