(* ===== verification/C_Interfaces.thy ===== *)
theory C_Interfaces
  imports C_Prelude
begin

text \<open>
  The two contracts several components of the library implement. A \<open>codec\<close> is an encoder
  with a decoder that gives the value back; a \<open>byte_stream\<close> is an operation that is fed its
  input in pieces of any size, where \<open>view\<close> is what of its state can be observed. The lemmas proved here once are instantiated by the theories
  of the components (URL encoding, quoted-printable, base64, UTF-8, modified UTF-7, MD5, SHA1).
\<close>

locale codec =
  fixes enc :: "'a \<Rightarrow> 'b"
    and dec :: "'b \<Rightarrow> 'a option"
    and valid :: "'a \<Rightarrow> bool"
  assumes dec_enc: "valid x \<Longrightarrow> dec (enc x) = Some x"
begin

lemma enc_inject: "valid x \<Longrightarrow> valid y \<Longrightarrow> enc x = enc y \<longleftrightarrow> x = y"
  by (metis dec_enc option.inject)

lemma inj_on_enc: "inj_on enc {x. valid x}"
  by (rule inj_onI) (simp add: enc_inject)

lemma dec_unique: "valid x \<Longrightarrow> enc x = e \<Longrightarrow> dec e = Some y \<Longrightarrow> x = y"
  by (metis dec_enc option.inject)

end

locale byte_stream =
  fixes feed :: "'s \<Rightarrow> 'x list \<Rightarrow> 's"
    and wf :: "'s \<Rightarrow> bool"
    and view :: "'s \<Rightarrow> 'v"
  assumes feed_append: "wf s \<Longrightarrow> view (feed s (xs @ ys)) = view (feed (feed s xs) ys)"
    and feed_Nil: "wf s \<Longrightarrow> view (feed s []) = view s"
    and feed_wf: "wf s \<Longrightarrow> wf (feed s xs)"
    and feed_view: "wf s \<Longrightarrow> wf t \<Longrightarrow> view s = view t \<Longrightarrow> view (feed s xs) = view (feed t xs)"
begin

definition feeds :: "'x list list \<Rightarrow> 's \<Rightarrow> 's" where
  "feeds xss s = fold (\<lambda>x s. feed s x) xss s"

lemma feeds_simps [simp]: "feeds [] s = s" "feeds (xs # xss) s = feeds xss (feed s xs)"
  by (simp_all add: feeds_def)

lemma feeds_wf: "wf s \<Longrightarrow> wf (feeds xss s)"
  by (induction xss arbitrary: s) (simp_all add: feed_wf)

lemma feeds_view: "wf s \<Longrightarrow> wf t \<Longrightarrow> view s = view t \<Longrightarrow> view (feeds xss s) = view (feeds xss t)"
proof (induction xss arbitrary: s t)
  case (Cons xs xss)
  show ?case
    using Cons.IH [of "feed s xs" "feed t xs"] Cons.prems by (simp add: feed_wf feed_view [of s t])
qed simp

text \<open>Only the concatenation of the pieces counts.\<close>

lemma feeds_concat: "wf s \<Longrightarrow> view (feeds xss s) = view (feed s (concat xss))"
proof (induction xss arbitrary: s)
  case (Cons xs xss)
  then show ?case by (simp add: feed_wf feed_append)
qed (simp add: feed_Nil)

lemma feeds_repiece: "wf s \<Longrightarrow> concat xss = concat yss \<Longrightarrow> view (feeds xss s) = view (feeds yss s)"
  by (simp add: feeds_concat)

end

text \<open>
  A \<open>consumer\<close> is a stream whose result is known: \<open>total s r\<close> is what will have been produced
  when the state \<open>s\<close> is fed \<open>r\<close> and then closed. It gives the contract of \<open>byte_stream\<close>.
\<close>

locale consumer =
  fixes feed :: "'s \<Rightarrow> 'x list \<Rightarrow> 's"
    and wf :: "'s \<Rightarrow> bool"
    and total :: "'s \<Rightarrow> 'x list \<Rightarrow> 'v"
  assumes consumer_wf: "wf s \<Longrightarrow> wf (feed s xs)"
    and total_feed: "wf s \<Longrightarrow> total (feed s xs) r = total s (xs @ r)"

sublocale consumer < byte_stream feed wf total
  by unfold_locales (auto simp: fun_eq_iff total_feed consumer_wf)

context consumer
begin

lemma total_feeds: "wf s \<Longrightarrow> total (feeds xss s) r = total s (concat xss @ r)"
  by (induction xss arbitrary: s) (simp_all add: total_feed consumer_wf)

end

end
