(* ===== verification/Rfc2045_Parse.thy ===== *)
theory Rfc2045_Parse
  imports Rfc2045_Header C_Interfaces
begin

text \<open>
  The MIME parser (\<^verbatim>\<open>rfc2045/rfc2045.c\<close>): a message is fed line by line into a tree of
  sections. A node of the tree is its \<open>part_info\<close> with the list of its sections
  (\<^verbatim>\<open>firstpart\<close>, \<^verbatim>\<open>next\<close>, \<^verbatim>\<open>lastpart\<close>). The parser only ever works on the last section of the last section
  of ... the root, so a pointer to a section is the number of steps down that path, and following
  \<^verbatim>\<open>parent\<close> pointers is counting down. The hooks for rewriting (\<^verbatim>\<open>rfc2045acptr\<close>) are not set.
\<close>

subsection \<open>The tree\<close>

datatype mime_part = Part (info: part_info) (subparts: "mime_part list")

definition rfc2045_alloc :: mime_part where
  "rfc2045_alloc = Part alloc_info []"

fun node :: "nat \<Rightarrow> mime_part \<Rightarrow> mime_part" where
  "node 0 p = p"
| "node (Suc d) p = node d (last (subparts p))"

text \<open>A change of the section at a depth, and of all sections from there up to the root.\<close>

fun at_depth :: "nat \<Rightarrow> (mime_part \<Rightarrow> mime_part) \<Rightarrow> mime_part \<Rightarrow> mime_part" where
  "at_depth 0 g p = g p"
| "at_depth (Suc d) g p = Part (info p) (butlast (subparts p) @ [at_depth d g (last (subparts p))])"

fun along :: "nat \<Rightarrow> (part_info \<Rightarrow> part_info) \<Rightarrow> mime_part \<Rightarrow> mime_part" where
  "along 0 f p = Part (f (info p)) (subparts p)"
| "along (Suc d) f p = Part (f (info p)) (butlast (subparts p) @ [along d f (last (subparts p))])"

definition set_info :: "(part_info \<Rightarrow> part_info) \<Rightarrow> mime_part \<Rightarrow> mime_part" where
  "set_info f p = Part (f (info p)) (subparts p)"

definition update_counts :: "nat \<Rightarrow> nat \<Rightarrow> nat \<Rightarrow> nat \<Rightarrow> mime_part \<Rightarrow> mime_part" where
  "update_counts d newcnt newendcnt k =
     along d (\<lambda>i. i\<lparr>endpos := newcnt, endbody := newendcnt, nlines := nlines i + k,
       nbodylines := (if workinheader i then nbodylines i else nbodylines i + k)\<rparr>)"

definition append_part_noinherit :: "nat \<Rightarrow> nat \<Rightarrow> mime_part \<Rightarrow> mime_part" where
  "append_part_noinherit d pos root =
     set_info (\<lambda>i. i\<lparr>numparts := numparts i + 1\<rparr>)
       (at_depth d (\<lambda>p. Part (info p) (subparts p @
           [Part (alloc_info\<lparr>pindex := (if subparts p = [] then 0 else pindex (info (last (subparts p))) + 1),
              startpos := pos, endpos := pos, startbody := pos, endbody := pos\<rparr>) []])) root)"

definition append_part :: "nat \<Rightarrow> nat \<Rightarrow> mime_part \<Rightarrow> mime_part" where
  "append_part d pos root =
     (let p = info (node d root)
      in at_depth (d + 1)
           (set_info (\<lambda>i. i\<lparr>content_transfer_encoding := content_transfer_encoding p,
              content_type_attr := rfc2045_setattr (content_type_attr i) ''charset''
                (rfc2045_getattr (content_type_attr p) ''charset'')\<rparr>))
           (append_part_noinherit d pos root))"

text \<open>The boundaries of the sections around the one at a depth, from its parent up.\<close>

fun outer_boundaries :: "nat \<Rightarrow> mime_part \<Rightarrow> string option list" where
  "outer_boundaries 0 p = []"
| "outer_boundaries (Suc d) p = outer_boundaries d (last (subparts p)) @ [boundary (info p)]"

definition violate :: "nat \<Rightarrow> part_info \<Rightarrow> part_info" where
  "violate e i = i\<lparr>rfcviolation := rfcviolation i OR e\<rparr>"

subsection \<open>One line\<close>

text \<open>Whether the last section of a section is there and still open.\<close>

definition open_last :: "mime_part \<Rightarrow> bool" where
  "open_last p \<longleftrightarrow> subparts p \<noteq> [] \<and> \<not> workclosed (info (last (subparts p)))"

lemma size_last_subparts: "subparts p \<noteq> [] \<Longrightarrow> size (last (subparts p)) < size p"
proof (cases p)
  case (Part i ps)
  assume "subparts p \<noteq> []"
  with Part have "last ps \<in> set ps" by simp
  then have "size (last ps) \<le> size_list size ps" by (simp add: size_list_estimation')
  with Part show ?thesis by simp
qed

text \<open>
  The depth of a long line of form data that is being read, below a boundary.
\<close>

function formdata_depth :: "mime_part \<Rightarrow> nat option" where
  "formdata_depth p =
     (if \<not> open_last p then None
      else if boundary (info p) \<noteq> None \<and> \<not> workinheader (info p) \<and> informdata (info (last (subparts p)))
      then Some 1
      else map_option Suc (formdata_depth (last (subparts p))))"
  by pat_completeness auto
termination
  by (relation "measure size") (auto simp: open_last_def size_last_subparts)

text \<open>
  Drilling down: the line is trash after a closed section, the last boundary or a boundary between
  the sections of the section found, or a line of the section found.
\<close>

datatype line_kind = Trash | Last_boundary | Boundary | Own_line

definition boundary_line :: "string \<Rightarrow> nat \<Rightarrow> string \<Rightarrow> bool" where
  "boundary_line c n cb \<longleftrightarrow> take 2 c = ''--'' \<and> 2 + length cb \<le> n \<and> caseprefix cb (drop 2 c)"

function drill :: "string \<Rightarrow> nat \<Rightarrow> mime_part \<Rightarrow> line_kind \<times> nat" where
  "drill c n p =
     (if subparts p = [] then (Own_line, 0)
      else if workclosed (info (last (subparts p))) then (Trash, 0)
      else
        case boundary (info p) of
          None \<Rightarrow> apsnd Suc (drill c n (last (subparts p)))
        | Some cb \<Rightarrow>
            if workinheader (info p) then apsnd Suc (drill c n (last (subparts p)))
            else if boundary_line c n cb then
              (if 4 + length cb \<le> n \<and> take 2 (drop (2 + length cb) c) = ''--'' then (Last_boundary, 0)
               else (Boundary, 0))
            else apsnd Suc (drill c n (last (subparts p))))"
  by pat_completeness auto
termination
  by (relation "measure (\<lambda>(c, n, p). size p)") (auto simp: size_last_subparts)

declare formdata_depth.simps [simp del] drill.simps [simp del]

definition ismime1 :: "string option \<Rightarrow> bool" where
  "ismime1 v = (case v of None \<Rightarrow> False | Some s \<Rightarrow> c_atol s = 1)"

text \<open>
  The end of the header of the section, given the content type of its parent: the defaults, and what is dropped when
  the section is not MIME 1.0 or not a multipart.
\<close>

definition header_defaults :: "string option \<Rightarrow> part_info \<Rightarrow> part_info" where
  "header_defaults parent_type p =
     (let p = (if ismime1 (mime_version p) then p
               else p\<lparr>content_type := None, content_type_attr := [], content_disposition := None,
                 content_disposition_attr := [], boundary := None\<rparr>);
          p = (if ismime1 (mime_version p) \<and> content_type p = None
               then p\<lparr>content_type := Some (if parent_type = Some ''multipart/digest'' then ''message/rfc822'' else ''text/plain'')\<rparr>
               else p)
      in if (case content_type p of None \<Rightarrow> True | Some t \<Rightarrow> take 10 t \<noteq> ''multipart/'')
         then p\<lparr>boundary := None\<rparr> else p)"

definition parent_type :: "nat \<Rightarrow> mime_part \<Rightarrow> string option" where
  "parent_type d root = (if d = 0 then None else content_type (info (node (d - 1) root)))"

definition do_header_at :: "bool \<Rightarrow> nat \<Rightarrow> mime_part \<Rightarrow> mime_part" where
  "do_header_at reformime d root =
     (case do_header reformime (outer_boundaries d root) (info (node d root)) of (i, bad) \<Rightarrow>
        let root = at_depth d (set_info (\<lambda>_. i)) root
        in if bad then set_info (violate ERRBADBOUNDARY) root else root)"

definition body_line :: "nat \<Rightarrow> bool \<Rightarrow> nat \<Rightarrow> nat \<Rightarrow> mime_part \<Rightarrow> mime_part" where
  "body_line d bit8 cnt n root =
     (let p = info (node d root);
          root = (if bit8 \<and> \<not> content_8bit p \<and> rfcviolation p AND ERR8BITCONTENT = 0
                  then along d (violate ERR8BITCONTENT) root else root);
          cnt_update = (if (case parent_type d root of None \<Rightarrow> False | Some t \<Rightarrow> caseprefix ''multipart/'' t)
                        then n else cnt)
      in update_counts d (endpos p + cnt) (endpos p + cnt_update) 1 root)"

definition end_of_header :: "bool \<Rightarrow> nat \<Rightarrow> nat \<Rightarrow> mime_part \<Rightarrow> mime_part" where
  "end_of_header reformime d cnt root =
     (let root = do_header_at reformime d root;
          pos = endpos (info (node d root)) + cnt;
          root = at_depth d (set_info (\<lambda>i. i\<lparr>workinheader := False, startbody := pos\<rparr>)) root;
          root = update_counts d pos pos 1 root;
          root = at_depth d (set_info (\<lambda>i. i\<lparr>nbodylines := nbodylines i - 1\<rparr>)) root;
          root = at_depth d (set_info (header_defaults (parent_type d root))) root;
          p = info (node d root)
      in if content_type p = Some ''message/rfc822'' then append_part_noinherit d pos root
         else if boundary p \<noteq> None
         then at_depth (d + 1) (set_info (\<lambda>i. i\<lparr>workinheader := False, isdummy := True\<rparr>)) (append_part d pos root)
         else root)"

definition header_line :: "bool \<Rightarrow> nat \<Rightarrow> string \<Rightarrow> nat \<Rightarrow> nat \<Rightarrow> mime_part \<Rightarrow> mime_part" where
  "header_line reformime d c cnt n root =
     (let pos = endpos (info (node d root));
          root = update_counts d (pos + cnt) (pos + n) 1 root;
          root = (if isspace (cread c) then at_depth d (set_info (\<lambda>i. i\<lparr>hdr := hdr i @ [sp]\<rparr>)) root
                  else at_depth d (set_info (\<lambda>i. i\<lparr>hdr := []\<rparr>)) (do_header_at reformime d root))
      in at_depth d (set_info (\<lambda>i. i\<lparr>hdr := hdr i @ take n c\<rparr>)) root)"

text \<open>\<open>doline\<close>: the line ends in a newline.\<close>

definition doline :: "bool \<Rightarrow> string \<Rightarrow> mime_part \<Rightarrow> mime_part" where
  "doline reformime line root =
     (if numparts (info root) > 300 then set_info (violate ERR2COMPLEX) root
      else
        let cnt = length line;
            c = map (\<lambda>x. if x = nul then sp else x) line;
            bit8 = list_ex (\<lambda>x. 128 \<le> code x) c;
            n = cnt - 1;
            n = (if 0 < n \<and> c ! (n - 1) = cr then n - 1 else n);
            (d0, root) =
              (case formdata_depth root of
                 None \<Rightarrow> (0, root)
               | Some d \<Rightarrow> (d, at_depth d (set_info (\<lambda>i. i\<lparr>informdata := False\<rparr>)) root));
            (kind, d1) = drill c n (node d0 root);
            d = d0 + d1;
            p = info (node d root)
        in case kind of
             Trash \<Rightarrow> update_counts d (endpos p + cnt) (endpos p + n) 1 root
           | Last_boundary \<Rightarrow>
               update_counts d (endpos p + cnt) (endpos p + cnt) 1
                 (at_depth (d + 1) (set_info (\<lambda>i. i\<lparr>workclosed := True\<rparr>)) root)
           | Boundary \<Rightarrow>
               at_depth (d + 1) (set_info (\<lambda>i. i\<lparr>mime_version := mime_version p\<rparr>))
                 (update_counts d (endpos p + cnt) (endpos p + n) 1 (append_part d (endpos p + cnt) root))
           | Own_line \<Rightarrow>
               if \<not> workinheader p then body_line d bit8 cnt n root
               else
                 let root = (if bit8 \<and> rfcviolation p AND ERR8BITHEADER = 0
                             then along d (violate ERR8BITHEADER) root else root)
                 in if n = 0 then end_of_header reformime d cnt root
                    else header_line reformime d c cnt n root)"

subsection \<open>The message\<close>

text \<open>The parser: the tree and the contents of the work buffer.\<close>

type_synonym mime_parser = "mime_part \<times> string"

function open_depth :: "mime_part \<Rightarrow> nat" where
  "open_depth p = (if open_last p then Suc (open_depth (last (subparts p))) else 0)"
  by pat_completeness auto
termination
  by (relation "measure size") (auto simp: open_last_def size_last_subparts)

declare open_depth.simps [simp del]

definition rfc2045_parse_partial :: "mime_parser \<Rightarrow> mime_parser" where
  "rfc2045_parse_partial = (\<lambda>(root, workbuf).
     if workbuf = [] then (root, workbuf)
     else
       let d = open_depth root;
           l = length workbuf;
           l = (if workbuf ! (l - 1) = cr then l - 1 else l);
           pos = endpos (info (node d root)) + l
       in (at_depth d (set_info (\<lambda>i. i\<lparr>informdata := True\<rparr>)) (update_counts d pos pos 0 root), drop l workbuf))"

function parse_lines :: "bool \<Rightarrow> mime_parser \<Rightarrow> string \<Rightarrow> mime_parser" where
  "parse_lines reformime h buf =
     (if buf = [] then h
      else
        let l = length (takeWhile (\<lambda>c. c \<noteq> nl) buf)
        in if l < length buf
           then parse_lines reformime (doline reformime (snd h @ take (l + 1) buf) (fst h), []) (drop (l + 1) buf)
           else (fst h, snd h @ buf))"
  by pat_completeness auto
termination
  by (relation "measure (\<lambda>(r, h, buf). length buf)") auto

declare parse_lines.simps [simp del]

definition rfc2045_parse :: "bool \<Rightarrow> mime_parser \<Rightarrow> string \<Rightarrow> mime_parser" where
  "rfc2045_parse reformime h buf =
     (let h = parse_lines reformime h buf
      in if length (snd h) > 1024 then rfc2045_parse_partial h else h)"

subsection \<open>Changes along the path\<close>

text \<open>All operations are of one form: a change of the sections above a depth, and one of the section there.\<close>

fun path :: "nat \<Rightarrow> (part_info \<Rightarrow> part_info) \<Rightarrow> (mime_part \<Rightarrow> mime_part) \<Rightarrow> mime_part \<Rightarrow> mime_part" where
  "path 0 f g p = g p"
| "path (Suc d) f g p = Part (f (info p)) (butlast (subparts p) @ [path d f g (last (subparts p))])"

lemma path_path: "path d f g (path d f' g' p) = path d (f \<circ> f') (g \<circ> g') p"
  by (induction d arbitrary: p) simp_all

lemma node_path: "node d (path d f g p) = g (node d p)"
  by (induction d arbitrary: p) simp_all

lemma at_depth_path: "at_depth d g = path d id g"
proof
  show "at_depth d g p = path d id g p" for p
    by (induction d arbitrary: p) simp_all
qed

lemma along_path: "along d f = path d f (set_info f)"
proof
  show "along d f p = path d f (set_info f) p" for p
    by (induction d arbitrary: p) (simp_all add: set_info_def)
qed

lemma at_depth_below: "at_depth (d + 1) g = path d id (at_depth 1 g)"
proof
  show "at_depth (d + 1) g p = path d id (at_depth 1 g) p" for p
    by (induction d arbitrary: p) simp_all
qed

lemma path_root:
  assumes "\<And>i. f (h i) = h (f i)" "\<And>q. g (set_info h q) = set_info h (g q)"
  shows "path d f g (set_info h p) = set_info h (path d f g p)"
  using assms by (cases d) (simp_all add: set_info_def)

lemma set_info_simps [simp]: "info (set_info f p) = f (info p)" "subparts (set_info f p) = subparts p"
  by (simp_all add: set_info_def)

lemma set_info_id: "set_info id p = p"
  by (cases p) (simp add: set_info_def)

fun open_path :: "nat \<Rightarrow> mime_part \<Rightarrow> bool" where
  "open_path 0 p \<longleftrightarrow> True"
| "open_path (Suc d) p \<longleftrightarrow> open_last p \<and> open_path d (last (subparts p))"

lemma open_path_add: "open_path (d + d') p \<longleftrightarrow> open_path d p \<and> open_path d' (node d p)"
  by (induction d arbitrary: p) auto

lemma node_add: "node (d + d') p = node d' (node d p)"
  by (induction d arbitrary: p) auto

subsection \<open>Sections are intervals\<close>

text \<open>
  A section starts, its body starts, its body ends and it ends, in this order; its sections are
  within its body, one after the other, and the one that is still open ends where it ends. Only sections whose header is
  complete have sections.
\<close>

definition interval :: "part_info \<Rightarrow> bool" where
  "interval i \<longleftrightarrow> startpos i \<le> startbody i \<and> startbody i \<le> endbody i \<and> endbody i \<le> endpos i \<and>
     nbodylines i \<le> nlines i"

fun follow :: "nat \<Rightarrow> nat \<Rightarrow> mime_part list \<Rightarrow> bool" where
  "follow lo hi [] \<longleftrightarrow> lo \<le> hi"
| "follow lo hi (p # ps) \<longleftrightarrow> lo \<le> startpos (info p) \<and> startpos (info p) \<le> endpos (info p) \<and> follow (endpos (info p)) hi ps"

lemma follow_append: "follow lo hi (ps @ qs) \<longleftrightarrow> (\<exists>m. follow lo m ps \<and> follow m hi qs)"
proof (induction ps arbitrary: lo)
  case Nil
  show ?case by (cases qs) (auto intro: exI [of _ lo])
next
  case (Cons p ps)
  then show ?case by auto
qed

lemma follow_mono: "follow lo hi ps \<Longrightarrow> hi \<le> hi' \<Longrightarrow> follow lo hi' ps"
  by (induction ps arbitrary: lo) auto

lemma follow_bounds: "follow lo hi ps \<Longrightarrow> lo \<le> hi"
  by (induction ps arbitrary: lo) fastforce+

fun mime_ok :: "mime_part \<Rightarrow> bool" where
  "mime_ok (Part i ps) \<longleftrightarrow>
     interval i \<and> follow (startbody i) (endpos i) ps \<and> (\<forall>p \<in> set ps. mime_ok p) \<and>
     (ps \<noteq> [] \<and> \<not> workclosed (info (last ps)) \<longrightarrow> endpos (info (last ps)) = endpos i) \<and>
     (ps \<noteq> [] \<longrightarrow> \<not> workinheader i)"

lemma mime_ok_info: "mime_ok p \<Longrightarrow> interval (info p)"
  by (cases p) simp

lemma node_open:
  "mime_ok p \<Longrightarrow> open_path d p \<Longrightarrow> mime_ok (node d p) \<and> endpos (info (node d p)) = endpos (info p)"
proof (induction d arbitrary: p)
  case (Suc d)
  obtain i ps where p: "p = Part i ps" by (cases p)
  have "mime_ok (last ps)" "endpos (info (last ps)) = endpos i"
    using Suc.prems by (auto simp: p open_last_def)
  with Suc p show ?case by (auto simp: open_last_def)
qed simp

text \<open>A step that moves the ends of all open sections to the same place.\<close>

lemma path_ok:
  assumes "mime_ok p" "open_path d p" "endpos (info p) \<le> b" "b \<le> e"
    and F: "\<And>i. startpos (F i) = startpos i \<and> startbody (F i) = startbody i \<and> endpos (F i) = e \<and> endbody (F i) = b \<and>
      workinheader (F i) = workinheader i \<and> (nbodylines i \<le> nlines i \<longrightarrow> nbodylines (F i) \<le> nlines (F i))"
    and G: "mime_ok (G (node d p))" "startpos (info (G (node d p))) = startpos (info (node d p))"
      "endpos (info (G (node d p))) = e"
  shows "mime_ok (path d F G p) \<and> startpos (info (path d F G p)) = startpos (info p) \<and> endpos (info (path d F G p)) = e"
  using assms(1-3) G
proof (induction d arbitrary: p)
  case (Suc d)
  obtain i ps where p: "p = Part i ps" by (cases p)
  let ?q = "path d F G (last ps)"
  have ps: "ps \<noteq> []" "mime_ok (last ps)" "endpos (info (last ps)) = endpos i"
    using Suc.prems(1,2) by (auto simp: p open_last_def)
  have q: "mime_ok ?q" "startpos (info ?q) = startpos (info (last ps))" "endpos (info ?q) = e"
    using Suc.IH [of "last ps"] Suc.prems ps by (auto simp: p)
  obtain m where m: "follow (startbody i) m (butlast ps)" "m \<le> startpos (info (last ps))"
    using Suc.prems(1) ps(1) follow_append [of "startbody i" "endpos i" "butlast ps" "[last ps]"] by (auto simp: p)
  have "startpos (info ?q) \<le> e"
    using mime_ok_info [OF q(1)] q(3) by (simp add: interval_def)
  with m q have "follow (startbody i) e (butlast ps @ [?q])"
    by (auto simp: follow_append)
  moreover have "interval (F i)"
    using Suc.prems(1,3) F [of i] assms(4) by (auto simp: p interval_def)
  ultimately show ?case
    using Suc.prems(1) q F [of i] ps(1) by (auto simp: p dest: in_set_butlastD)
qed simp

text \<open>A step that moves nothing.\<close>

definition unmoved :: "part_info \<Rightarrow> part_info \<Rightarrow> bool" where
  "unmoved i j \<longleftrightarrow> startpos i = startpos j \<and> startbody i = startbody j \<and> endbody i = endbody j \<and> endpos i = endpos j \<and>
     nlines i = nlines j \<and> nbodylines i = nbodylines j \<and> workinheader i = workinheader j \<and> workclosed i = workclosed j"

lemma set_info_unmoved: "mime_ok p \<Longrightarrow> unmoved (f (info p)) (info p) \<Longrightarrow> mime_ok (set_info f p)"
  by (cases p) (auto simp: set_info_def unmoved_def interval_def)

definition same_ends :: "part_info \<Rightarrow> part_info \<Rightarrow> bool" where
  "same_ends i j \<longleftrightarrow> startpos i = startpos j \<and> endpos i = endpos j \<and> workclosed i = workclosed j"

lemma unmoved_same_ends: "unmoved i j \<Longrightarrow> same_ends i j"
  by (simp add: unmoved_def same_ends_def)

lemma along_unmoved:
  assumes "\<And>i. unmoved (F i) i" "mime_ok p" "open_path d p" "mime_ok (G (node d p))"
    "same_ends (info (G (node d p))) (info (node d p))"
  shows "mime_ok (path d F G p) \<and> same_ends (info (path d F G p)) (info p)"
  using assms(2-)
proof (induction d arbitrary: p)
  case (Suc d)
  obtain i ps where p: "p = Part i ps" by (cases p)
  let ?q = "path d F G (last ps)"
  have ps: "ps \<noteq> []" "mime_ok (last ps)" "endpos (info (last ps)) = endpos i"
    using Suc.prems(1,2) by (auto simp: p open_last_def)
  have q: "mime_ok ?q" "same_ends (info ?q) (info (last ps))"
    using Suc.IH [of "last ps"] Suc.prems ps by (auto simp: p)
  obtain m where "follow (startbody i) m (butlast ps)" "follow m (endpos i) [last ps]"
    using Suc.prems(1) ps(1) follow_append [of "startbody i" "endpos i" "butlast ps" "[last ps]"] by (auto simp: p)
  with q have "follow (startbody i) (endpos i) (butlast ps @ [?q])"
    by (auto simp: follow_append same_ends_def)
  then show ?case
    using Suc.prems(1) q assms(1) [of i] ps(1)
    by (auto simp: p same_ends_def unmoved_def interval_def dest: in_set_butlastD)
qed simp

subsection \<open>The section a line belongs to\<close>

lemma drill_found:
  assumes "drill c n p = (kind, d)"
  shows "open_path d p \<and>
    (kind = Trash \<longrightarrow> \<not> open_last (node d p)) \<and>
    (kind = Own_line \<longrightarrow> subparts (node d p) = []) \<and>
    (kind \<in> {Last_boundary, Boundary} \<longrightarrow> open_last (node d p) \<and> \<not> workinheader (info (node d p)))"
  using assms
proof (induction c n p arbitrary: kind d rule: drill.induct)
  case (1 c n p)
  show ?case
  proof (cases "open_last p")
    case False
    with 1(4) show ?thesis
      by (subst (asm) drill.simps) (auto simp: open_last_def split: if_splits)
  next
    case True
    have step: ?thesis if "apsnd Suc (drill c n (last (subparts p))) = (kind, d)"
      "\<And>kind d. drill c n (last (subparts p)) = (kind, d) \<Longrightarrow> open_path d (last (subparts p)) \<and>
        (kind = Trash \<longrightarrow> \<not> open_last (node d (last (subparts p)))) \<and>
        (kind = Own_line \<longrightarrow> subparts (node d (last (subparts p))) = []) \<and>
        (kind \<in> {Last_boundary, Boundary} \<longrightarrow> open_last (node d (last (subparts p))) \<and>
          \<not> workinheader (info (node d (last (subparts p)))))"
      using that True by (cases "drill c n (last (subparts p))") auto
    note eq = 1(4) [unfolded drill.simps [of c n p]]
    show ?thesis
    proof (cases "boundary (info p)")
      case None
      with True eq 1(1) show ?thesis by (intro step) (auto simp: open_last_def)
    next
      case (Some cb)
      show ?thesis
      proof (cases "workinheader (info p) \<or> \<not> boundary_line c n cb")
        case T: True
        with True Some eq have "apsnd Suc (drill c n (last (subparts p))) = (kind, d)"
          by (auto simp: open_last_def split: if_splits)
        moreover from T True Some 1(2,3) have "drill c n (last (subparts p)) = (kind, d) \<Longrightarrow>
            open_path d (last (subparts p)) \<and>
            (kind = Trash \<longrightarrow> \<not> open_last (node d (last (subparts p)))) \<and>
            (kind = Own_line \<longrightarrow> subparts (node d (last (subparts p))) = []) \<and>
            (kind \<in> {Last_boundary, Boundary} \<longrightarrow> open_last (node d (last (subparts p))) \<and>
              \<not> workinheader (info (node d (last (subparts p)))))" for kind d
          by (cases "workinheader (info p)") (auto simp: open_last_def)
        ultimately show ?thesis by (rule step)
      next
        case False
        with True Some eq show ?thesis by (auto simp: open_last_def split: if_splits)
      qed
    qed
  qed
qed

lemma formdata_depth_open: "formdata_depth p = Some d \<Longrightarrow> open_path d p"
proof (induction p arbitrary: d rule: formdata_depth.induct)
  case (1 p)
  from 1(2) [unfolded formdata_depth.simps [of p]] 1(1) show ?case
    by (auto split: if_splits)
qed

lemma open_depth_open: "open_path (open_depth p) p \<and> \<not> open_last (node (open_depth p) p)"
proof (induction p rule: open_depth.induct)
  case (1 p)
  then show ?case by (subst (1 2) open_depth.simps) simp
qed

subsection \<open>A section at work\<close>

text \<open>
  The section the parser works on: nothing below it is open. The changes of a line keep the invariant, and the counts
  of a line move the ends of all open sections.
\<close>

definition working :: "nat \<Rightarrow> nat \<Rightarrow> nat \<Rightarrow> mime_part \<Rightarrow> bool" where
  "working d s e p \<longleftrightarrow> mime_ok p \<and> open_path d p \<and> \<not> open_last (node d p) \<and> startpos (info p) = s \<and> endpos (info p) = e"

lemma path_open:
  assumes "\<And>i. workclosed (F i) = workclosed i" "workclosed (info (G (node d p))) = workclosed (info (node d p))"
    "open_path d p"
  shows "open_path d (path d F G p) \<and> workclosed (info (path d F G p)) = workclosed (info p)"
  using assms(2,3)
  by (induction d arbitrary: p) (auto simp: open_last_def assms(1))

lemma open_last_set_info [simp]: "open_last (set_info f p) = open_last p"
  by (simp add: open_last_def)

lemma node_set_info: "subparts (node d (set_info f p)) = subparts (node d p)"
  "open_path d (set_info f p) = open_path d p"
  by (cases d; simp)+

lemma open_last_node_set_info: "open_last (node d (set_info f p)) = open_last (node d p)"
  by (simp add: open_last_def node_set_info)

lemma working_along:
  assumes "working d s e p" "\<And>i. unmoved (F i) i" "unmoved (G (info (node d p))) (info (node d p))"
  shows "working d s e (path d F (set_info G) p)"
proof -
  have "\<And>i. workclosed (F i) = workclosed i" using assms(2) by (simp add: unmoved_def)
  moreover have "workclosed (G (info (node d p))) = workclosed (info (node d p))"
    using assms(3) by (simp add: unmoved_def)
  ultimately show ?thesis
    using assms along_unmoved [of F p d "set_info G"] path_open [of F "set_info G" d p] node_open [of p d]
    by (auto simp: working_def node_path set_info_unmoved unmoved_same_ends) (simp_all add: same_ends_def)
qed

lemma working_at:
  assumes "working d s e p" "unmoved (f (info (node d p))) (info (node d p))"
  shows "working d s e (at_depth d (set_info f) p)"
  using working_along [of d s e p id f] assms by (simp add: at_depth_path unmoved_def)

lemma working_root:
  assumes "working d s e p" "unmoved (f (info p)) (info p)"
  shows "working d s e (set_info f p)"
  using assms by (auto simp: working_def set_info_unmoved node_set_info open_last_node_set_info unmoved_def)

lemma working_node: "working d s e p \<Longrightarrow> mime_ok (node d p) \<and> endpos (info (node d p)) = e"
  using node_open [of p d] by (simp add: working_def)

lemma set_info_moved:
  assumes "mime_ok p" "\<not> open_last p" "interval (f (info p))" "startbody (f (info p)) = startbody (info p)"
    "endpos (info p) \<le> endpos (f (info p))" "subparts p \<noteq> [] \<longrightarrow> \<not> workinheader (f (info p))"
  shows "mime_ok (set_info f p)"
  using assms by (cases p) (auto simp: set_info_def open_last_def intro: follow_mono)

lemma working_move:
  assumes "working d s e p" "e \<le> b" "b \<le> e'"
    and F: "\<And>i. startpos (F i) = startpos i \<and> startbody (F i) = startbody i \<and> endpos (F i) = e' \<and> endbody (F i) = b \<and>
      workinheader (F i) = workinheader i \<and> workclosed (F i) = workclosed i \<and>
      (nbodylines i \<le> nlines i \<longrightarrow> nbodylines (F i) \<le> nlines (F i))"
    and G: "mime_ok (set_info G (node d p))" "startpos (G (info (node d p))) = startpos (info (node d p))"
      "endpos (G (info (node d p))) = e'" "workclosed (G (info (node d p))) = workclosed (info (node d p))"
  shows "working d s e' (path d F (set_info G) p)"
proof -
  have "mime_ok (path d F (set_info G) p) \<and> startpos (info (path d F (set_info G) p)) = startpos (info p) \<and>
      endpos (info (path d F (set_info G) p)) = e'"
    using assms(1,2,3) F G by (intro path_ok) (auto simp: working_def)
  moreover have "open_path d (path d F (set_info G) p)"
    using assms(1) F G path_open [of F "set_info G" d p] by (simp add: working_def)
  ultimately show ?thesis
    using assms(1) by (simp add: working_def node_path)
qed

lemma working_update:
  assumes "working d s e p" "e \<le> b" "b \<le> e'"
  shows "working d s e' (update_counts d e' b k p)"
proof -
  have "mime_ok (node d p)" "endpos (info (node d p)) = e" "\<not> open_last (node d p)"
    using assms(1) working_node by (auto simp: working_def)
  moreover from this have "interval (info (node d p))" using mime_ok_info by blast
  moreover from calculation have "subparts (node d p) \<noteq> [] \<longrightarrow> \<not> workinheader (info (node d p))"
    by (cases "node d p") auto
  ultimately show ?thesis
    unfolding update_counts_def along_path using assms
    by (intro working_move [OF assms] set_info_moved) (auto simp: interval_def)
qed

subsection \<open>A new section\<close>

definition stands :: "nat \<Rightarrow> nat \<Rightarrow> nat \<Rightarrow> mime_part \<Rightarrow> bool" where
  "stands d s e p \<longleftrightarrow> mime_ok p \<and> open_path d p \<and> startpos (info p) = s \<and> endpos (info p) = e"

lemma working_stands: "working d s e p \<Longrightarrow> stands d s e p"
  by (simp add: working_def stands_def)

lemma stands_root: "stands d s e p \<Longrightarrow> unmoved (f (info p)) (info p) \<Longrightarrow> stands d s e (set_info f p)"
  by (auto simp: stands_def set_info_unmoved node_set_info unmoved_def)

lemma stands_path:
  assumes "stands d s e p" "\<And>i. unmoved (F i) i" "mime_ok (G (node d p))"
    "same_ends (info (G (node d p))) (info (node d p))"
  shows "stands d s e (path d F G p)"
proof -
  have "\<And>i. workclosed (F i) = workclosed i" using assms(2) by (simp add: unmoved_def)
  with assms show ?thesis
    using along_unmoved [of F p d G] path_open [of F G d p]
    by (auto simp: stands_def) (simp_all add: same_ends_def)
qed

lemma stands_node: "stands d s e p \<Longrightarrow> mime_ok (node d p) \<and> endpos (info (node d p)) = e"
  using node_open [of p d] by (simp add: stands_def)

lemma stands_at:
  assumes "stands d s e p" "unmoved (f (info (node d p))) (info (node d p))"
  shows "stands d s e (at_depth d (set_info f) p)"
  unfolding at_depth_path using assms stands_node [OF assms(1)]
  by (intro stands_path) (simp_all add: set_info_unmoved unmoved_same_ends, simp add: unmoved_def)

text \<open>What \<open>append_part\<close> does, as one change of the path.\<close>

definition add_last :: "(part_info \<Rightarrow> part_info) \<Rightarrow> nat \<Rightarrow> mime_part \<Rightarrow> mime_part" where
  "add_last h pos p = Part (info p) (subparts p @
     [Part (h (alloc_info\<lparr>pindex := (if subparts p = [] then 0 else pindex (info (last (subparts p))) + 1),
        startpos := pos, endpos := pos, startbody := pos, endbody := pos\<rparr>)) []])"

lemma append_part_noinherit_path:
  "append_part_noinherit d pos root =
     set_info (\<lambda>i. i\<lparr>numparts := numparts i + 1\<rparr>) (path d id (add_last id pos) root)"
  by (simp add: append_part_noinherit_def add_last_def [abs_def] at_depth_path)

lemma below_append:
  "at_depth (d + 1) (set_info h) (set_info (\<lambda>i. i\<lparr>numparts := numparts i + 1\<rparr>) (path d F (add_last h' pos) root)) =
   set_info (\<lambda>i. i\<lparr>numparts := numparts i + 1\<rparr>) (path d F (add_last (h \<circ> h') pos) root)"
proof -
  have "at_depth (Suc 0) (set_info h) \<circ> add_last h' pos = add_last (h \<circ> h') pos"
    by (simp add: fun_eq_iff add_last_def set_info_def)
  then show ?thesis
    unfolding at_depth_below by (subst path_root) (simp_all add: set_info_def path_path)
qed

lemma append_part_path:
  obtains h where "\<And>i. unmoved (h i) i"
    "append_part d pos root = set_info (\<lambda>i. i\<lparr>numparts := numparts i + 1\<rparr>) (path d id (add_last h pos) root)"
proof
  let ?p = "info (node d root)"
  let ?h = "\<lambda>i. i\<lparr>content_transfer_encoding := content_transfer_encoding ?p,
     content_type_attr := rfc2045_setattr (content_type_attr i) ''charset'' (rfc2045_getattr (content_type_attr ?p) ''charset'')\<rparr>"
  show "unmoved (?h i) i" for i by (simp add: unmoved_def)
  show "append_part d pos root = set_info (\<lambda>i. i\<lparr>numparts := numparts i + 1\<rparr>) (path d id (add_last ?h pos) root)"
    unfolding append_part_def append_part_noinherit_path Let_def below_append by (simp add: comp_def)
qed

definition settled :: "(part_info \<Rightarrow> part_info) \<Rightarrow> bool" where
  "settled h \<longleftrightarrow> (\<forall>i. unmoved ((h i)\<lparr>workinheader := workinheader i\<rparr>) i)"

lemma settled_unmoved: "(\<And>i. unmoved (h i) i) \<Longrightarrow> settled h"
  by (simp add: settled_def unmoved_def)

lemma settledD:
  assumes "settled h"
  shows "startpos (h i) = startpos i" "endpos (h i) = endpos i" "startbody (h i) = startbody i"
    "endbody (h i) = endbody i" "nlines (h i) = nlines i" "nbodylines (h i) = nbodylines i"
    "workclosed (h i) = workclosed i"
  using assms by (auto simp: settled_def unmoved_def)

lemma add_last_ok:
  assumes "mime_ok p" "settled h" "interval (U (info p))" "startbody (U (info p)) = startbody (info p)"
    "endpos (U (info p)) = pos" "endpos (info p) \<le> pos" "\<not> workinheader (U (info p))"
  shows "mime_ok (set_info U (add_last h pos p))"
  using assms(1,3-)
  by (cases p) (auto simp: set_info_def add_last_def settledD [OF assms(2)] follow_append interval_def alloc_info_def)

lemma add_last_open: "settled h \<Longrightarrow> open_path 1 (set_info U (add_last h pos p))"
  by (simp add: open_last_def add_last_def settledD alloc_info_def)

lemma info_add_last [simp]: "info (add_last h pos p) = info p"
  by (simp add: add_last_def)

lemma stands_append:
  assumes p: "stands d s e p" "\<not> workinheader (info (node d p))" and h: "settled h"
  shows "stands (d + 1) s e (set_info (\<lambda>i. i\<lparr>numparts := numparts i + 1\<rparr>) (path d id (add_last h e) p))"
proof (rule stands_root)
  let ?q = "path d id (add_last h e) p"
  have n: "mime_ok (node d p)" "endpos (info (node d p)) = e" using stands_node [OF p(1)] by auto
  have "mime_ok (set_info id (add_last h e (node d p)))"
    using n p(2) mime_ok_info [OF n(1)] by (intro add_last_ok) (simp_all add: h)
  then have "mime_ok (add_last h e (node d p))" by (simp add: set_info_def add_last_def)
  then have "stands d s e ?q"
    using p(1) by (intro stands_path) (simp_all add: unmoved_def same_ends_def)
  moreover have "open_path 1 (node d ?q)"
    using add_last_open [OF h, of id e "node d p"] by (simp add: node_path set_info_id)
  ultimately show "stands (d + 1) s e ?q"
    by (simp only: stands_def open_path_add)
qed (simp add: unmoved_def)

lemma stands_boundary:
  assumes p: "stands d s e p" "\<not> workinheader (info (node d p))" and be: "e \<le> b" "b \<le> e'"
  shows "stands (d + 1) s e' (update_counts d e' b k (append_part d e' p))"
proof -
  define U :: "part_info \<Rightarrow> part_info" where "U = (\<lambda>i. i\<lparr>endpos := e', endbody := b, nlines := nlines i + k,
    nbodylines := (if workinheader i then nbodylines i else nbodylines i + k)\<rparr>)"
  obtain h where h: "\<And>i. unmoved (h i) i" and
    a: "append_part d e' p = set_info (\<lambda>i. i\<lparr>numparts := numparts i + 1\<rparr>) (path d id (add_last h e') p)"
    by (rule append_part_path [where d = d and pos = e' and root = p]) blast
  let ?q = "path d U (set_info U \<circ> add_last h e') p"
  have eq: "update_counts d e' b k (append_part d e' p) = set_info (\<lambda>i. i\<lparr>numparts := numparts i + 1\<rparr>) ?q"
  proof -
    have "update_counts d e' b k p = path d U (set_info U) p" for p
      by (simp add: update_counts_def along_path U_def)
    moreover have "path d U (set_info U) (set_info (\<lambda>i. i\<lparr>numparts := numparts i + 1\<rparr>) p) =
        set_info (\<lambda>i. i\<lparr>numparts := numparts i + 1\<rparr>) (path d U (set_info U) p)" for p
      by (rule path_root) (simp_all add: set_info_def U_def)
    ultimately show ?thesis by (simp add: a path_path)
  qed
  have n: "mime_ok (node d p)" "endpos (info (node d p)) = e" using stands_node [OF p(1)] by auto
  have i: "interval (info (node d p))" using mime_ok_info n(1) by blast
  have "mime_ok (set_info U (add_last h e' (node d p)))"
    using n p(2) i be by (intro add_last_ok) (auto simp: settled_unmoved [OF h] U_def interval_def)
  then have "mime_ok ?q \<and> startpos (info ?q) = startpos (info p) \<and> endpos (info ?q) = e'"
    using p(1) be by (intro path_ok [of _ _ b]) (auto simp: stands_def U_def)
  moreover have "open_path d ?q"
    using p(1) path_open [of U "set_info U \<circ> add_last h e'" d p] by (simp add: stands_def U_def)
  moreover have "open_path 1 (node d ?q)"
    using add_last_open [OF settled_unmoved [OF h], of U] by (simp add: node_path)
  ultimately have "stands (d + 1) s e' ?q"
    using p(1) by (simp only: stands_def open_path_add)
  then show ?thesis
    unfolding eq by (rule stands_root) (simp add: unmoved_def)
qed

subsection \<open>A line keeps the invariant\<close>

lemma do_header_unmoved: "unmoved (fst (do_header reformime outer i)) i"
proof -
  have "startpos (place p) = startpos p \<and> endpos (place p) = endpos p \<and> startbody (place p) = startbody p \<and>
      endbody (place p) = endbody p \<and> nlines (place p) = nlines p \<and> nbodylines (place p) = nbodylines p \<and>
      workinheader (place p) = workinheader p \<and> workclosed (place p) = workclosed p" for p
    by (simp add: place_def)
  then show ?thesis
    unfolding unmoved_def by (metis do_header_place)
qed

lemma working_do_header: "working d s e p \<Longrightarrow> working d s e (do_header_at reformime d p)"
proof -
  obtain i bad where i: "do_header reformime (outer_boundaries d p) (info (node d p)) = (i, bad)" by fastforce
  then have "unmoved i (info (node d p))" by (metis do_header_unmoved fst_conv)
  moreover assume "working d s e p"
  ultimately have "working d s e (at_depth d (set_info (\<lambda>_. i)) p)" by (rule working_at [rotated])
  then show ?thesis
    by (auto simp: do_header_at_def i Let_def intro: working_root) (rule working_root, simp_all add: violate_def unmoved_def)
qed

lemma subparts_do_header: "subparts (node d (do_header_at reformime d p)) = subparts (node d p)"
  by (simp add: do_header_at_def at_depth_path node_path node_set_info Let_def split: prod.split)

lemma working_violate:
  "working d s e p \<Longrightarrow> working d s e (if b then along d (violate k) p else p)"
  by (auto simp: along_path violate_def unmoved_def intro: working_along)

lemma stands_0: "stands d s e p \<Longrightarrow> stands 0 s e p"
  by (simp add: stands_def)

lemma body_line_ok:
  assumes "working d s e p" "n \<le> cnt"
  shows "working d s (e + cnt) (body_line d bit8 cnt n p)"
proof -
  have "working d s (e + cnt) (update_counts d (e + cnt) (e + m) 1 (if b then along d (violate k) p else p))"
    if "m \<le> cnt" for m b k
    using that by (intro working_update [OF working_violate [OF assms(1)]]) simp_all
  then show ?thesis
    using working_node [OF assms(1)] assms(2) unfolding body_line_def Let_def by (simp del: if_split)
qed

lemma header_line_ok:
  assumes "working d s e p" "n \<le> cnt"
  shows "working d s (e + cnt) (header_line reformime d c cnt n p)"
proof -
  have "working d s (e + cnt) (update_counts d (e + cnt) (e + n) 1 p)"
    using assms(2) by (intro working_update [OF assms(1)]) simp_all
  moreover have "working d s k (at_depth d (set_info (\<lambda>i. i\<lparr>hdr := f i\<rparr>)) q)" if "working d s k q" for f k q
    using that by (rule working_at) (simp add: unmoved_def)
  ultimately show ?thesis
    using working_node [OF assms(1)] by (simp add: header_line_def Let_def working_do_header)
qed

lemma header_defaults_unmoved: "unmoved (header_defaults t i) i"
  by (simp add: header_defaults_def Let_def unmoved_def)

lemma end_of_header_ok:
  assumes "working d s e p" "subparts (node d p) = []"
  shows "stands 0 s (e + cnt) (end_of_header reformime d cnt p)"
proof -
  let ?pos = "e + cnt"
  define U :: "part_info \<Rightarrow> part_info" where "U = (\<lambda>i. i\<lparr>endpos := ?pos, endbody := ?pos, nlines := nlines i + 1,
    nbodylines := (if workinheader i then nbodylines i else nbodylines i + 1)\<rparr>)"
  define G where "G = (\<lambda>i. (U (i\<lparr>workinheader := False, startbody := ?pos\<rparr>))\<lparr>nbodylines := nbodylines i\<rparr>)"
  define q where "q = do_header_at reformime d p"
  define q1 where "q1 = path d U (set_info G) q"
  have q: "working d s e q" "subparts (node d q) = []"
    using assms working_do_header subparts_do_header by (auto simp: q_def)
  have nq: "mime_ok (node d q)" "endpos (info (node d q)) = e" using working_node [OF q(1)] by auto
  then have i: "interval (info (node d q))" using mime_ok_info by blast
  have "mime_ok (set_info G (node d q))"
    using q(2) i nq(2) by (cases "node d q") (auto simp: set_info_def G_def U_def interval_def)
  then have q1: "working d s ?pos q1"
    unfolding q1_def by (intro working_move [OF q(1), of ?pos]) (simp_all add: U_def G_def)
  have eq: "at_depth d (set_info (\<lambda>i. i\<lparr>nbodylines := nbodylines i - 1\<rparr>))
      (update_counts d ?pos ?pos 1 (at_depth d (set_info (\<lambda>i. i\<lparr>workinheader := False, startbody := ?pos\<rparr>)) q)) = q1"
  proof -
    have "update_counts d ?pos ?pos 1 = path d U (set_info U)"
      by (simp only: update_counts_def along_path U_def)
    moreover have "set_info (\<lambda>i. i\<lparr>nbodylines := nbodylines i - 1\<rparr>) \<circ>
        (set_info U \<circ> set_info (\<lambda>i. i\<lparr>workinheader := False, startbody := ?pos\<rparr>)) = set_info G"
      by (simp add: fun_eq_iff set_info_def G_def U_def)
    ultimately show ?thesis by (simp add: q1_def at_depth_path path_path)
  qed
  define q2 where "q2 = at_depth d (set_info (header_defaults (parent_type d q1))) q1"
  have q2: "stands d s ?pos q2"
    unfolding q2_def by (rule working_stands, rule working_at [OF q1], rule header_defaults_unmoved)
  have w: "\<not> workinheader (info (node d q2))"
    using header_defaults_unmoved [of "parent_type d q1"]
    by (simp add: q2_def q1_def at_depth_path node_path G_def U_def unmoved_def)
  let ?dummy = "\<lambda>i :: part_info. i\<lparr>workinheader := False, isdummy := True\<rparr>"
  have "stands (d + 1) s ?pos (append_part_noinherit d ?pos q2)"
    unfolding append_part_noinherit_path by (rule stands_append [OF q2 w]) (simp add: settled_def unmoved_def)
  moreover have "stands (d + 1) s ?pos (at_depth (d + 1) (set_info ?dummy) (append_part d ?pos q2))"
  proof -
    obtain h where h: "\<And>i. unmoved (h i) i" and
      a: "append_part d ?pos q2 = set_info (\<lambda>i. i\<lparr>numparts := numparts i + 1\<rparr>) (path d id (add_last h ?pos) q2)"
      by (rule append_part_path [where d = d and pos = ?pos and root = q2]) blast
    show ?thesis
      unfolding a below_append
      by (rule stands_append [OF q2 w]) (use h in \<open>simp add: settled_def unmoved_def\<close>)
  qed
  ultimately show ?thesis
    using q2 stands_0 unfolding end_of_header_def Let_def q_def [symmetric] nq(2) eq q2_def [symmetric] by auto
qed

lemma close_last_ok:
  assumes "stands d s e p" "open_last (node d p)"
  shows "working d s e (at_depth (d + 1) (set_info (\<lambda>i. i\<lparr>workclosed := True\<rparr>)) p)"
proof -
  let ?close = "set_info (\<lambda>i. i\<lparr>workclosed := True\<rparr>)"
  have n: "mime_ok (node d p)" "subparts (node d p) \<noteq> []"
    using stands_node [OF assms(1)] assms(2) by (auto simp: open_last_def)
  obtain i ps where q: "node d p = Part i ps" by (cases "node d p")
  have l: "mime_ok (?close (last ps))" if "mime_ok (last ps)"
    using that by (cases "last ps") (auto simp: set_info_def interval_def)
  have "mime_ok (at_depth 1 ?close (node d p))"
    using n l follow_append [of "startbody i" "endpos i" "butlast ps" "[last ps]"]
    by (auto simp: q follow_append dest: in_set_butlastD)
  then have "stands d s e (path d id (at_depth 1 ?close) p)"
    using assms(1) by (intro stands_path) (simp_all add: unmoved_def same_ends_def)
  then show ?thesis
    unfolding at_depth_below by (simp add: stands_def working_def node_path open_last_def)
qed

lemma doline_within:
  assumes p: "stands d s e p" and k: "drill c n (node d p) = (kind, k)" and n: "n \<le> cnt"
  defines "i \<equiv> info (node (d + k) p)"
  shows "stands 0 s (e + cnt) (case kind of
      Trash \<Rightarrow> update_counts (d + k) (endpos i + cnt) (endpos i + n) 1 p
    | Last_boundary \<Rightarrow> update_counts (d + k) (endpos i + cnt) (endpos i + cnt) 1
        (at_depth (d + k + 1) (set_info (\<lambda>i. i\<lparr>workclosed := True\<rparr>)) p)
    | Boundary \<Rightarrow> at_depth (d + k + 1) (set_info (\<lambda>j. j\<lparr>mime_version := mime_version i\<rparr>))
        (update_counts (d + k) (endpos i + cnt) (endpos i + n) 1 (append_part (d + k) (endpos i + cnt) p))
    | Own_line \<Rightarrow>
        if \<not> workinheader i then body_line (d + k) bit8 cnt n p
        else let p = (if bit8 \<and> rfcviolation i AND ERR8BITHEADER = 0 then along (d + k) (violate ERR8BITHEADER) p else p)
          in if n = 0 then end_of_header reformime (d + k) cnt p else header_line reformime (d + k) c cnt n p)"
proof -
  note found = drill_found [OF k]
  have st: "stands (d + k) s e p"
    using p found by (auto simp: stands_def open_path_add)
  then have i: "endpos i = e" using stands_node by (auto simp: i_def)
  have wk: "working (d + k) s e p" if "kind \<in> {Trash, Own_line}"
  proof -
    have "\<not> open_last (node (d + k) p)" using that found by (auto simp: node_add open_last_def)
    with st show ?thesis by (simp add: working_def stands_def)
  qed
  show ?thesis
  proof (cases kind)
    case Trash
    have "working (d + k) s (e + cnt) (update_counts (d + k) (e + cnt) (e + n) 1 p)"
      using Trash wk n by (intro working_update [of _ _ e]) simp_all
    then show ?thesis by (simp add: Trash i working_stands [THEN stands_0])
  next
    case Last_boundary
    then have "open_last (node (d + k) p)" using found by (simp add: node_add)
    from close_last_ok [OF st this] have "working (d + k) s (e + cnt)
        (update_counts (d + k) (e + cnt) (e + cnt) 1 (at_depth (d + k + 1) (set_info (\<lambda>i. i\<lparr>workclosed := True\<rparr>)) p))"
      by (intro working_update [of _ _ e]) simp_all
    then show ?thesis by (simp add: Last_boundary i working_stands [THEN stands_0])
  next
    case Boundary
    then have "\<not> workinheader (info (node (d + k) p))" using found by (simp add: node_add)
    from stands_boundary [OF st this, of "e + n" "e + cnt" 1]
    have "stands (d + k + 1) s (e + cnt) (update_counts (d + k) (e + cnt) (e + n) 1 (append_part (d + k) (e + cnt) p))"
      using n by simp
    then have "stands (d + k + 1) s (e + cnt) (at_depth (d + k + 1) (set_info (\<lambda>j. j\<lparr>mime_version := mime_version i\<rparr>))
        (update_counts (d + k) (e + cnt) (e + n) 1 (append_part (d + k) (e + cnt) p)))"
      by (rule stands_at) (simp add: unmoved_def)
    then show ?thesis using i by (simp add: Boundary stands_0)
  next
    case Own_line
    let ?q = "if bit8 \<and> rfcviolation i AND ERR8BITHEADER = 0 then along (d + k) (violate ERR8BITHEADER) p else p"
    have w: "working (d + k) s e p" using Own_line wk by simp
    have q: "working (d + k) s e ?q" using w by (rule working_violate)
    have "subparts (node (d + k) p) = []" using Own_line found by (simp add: node_add)
    then have "subparts (node (d + k) ?q) = []" by (simp add: along_path node_path)
    note this [THEN end_of_header_ok [OF q, THEN stands_0], of cnt reformime]
    moreover have "stands 0 s (e + cnt) (header_line reformime (d + k) c cnt n ?q)"
      using header_line_ok [OF q n] working_stands stands_0 by blast
    moreover have "stands 0 s (e + cnt) (body_line (d + k) bit8 cnt n p)"
      using body_line_ok [OF w n] working_stands stands_0 by blast
    ultimately show ?thesis
      by (cases "workinheader i"; cases "n = 0"; simp add: Own_line Let_def del: if_split)
  qed
qed

lemma doline_ok:
  assumes "stands 0 s e root"
  shows "stands 0 s (if numparts (info root) > 300 then e else e + length line) (doline reformime line root)"
proof (cases "numparts (info root) > 300")
  case True
  then show ?thesis
    using stands_root [OF assms, of "violate ERR2COMPLEX"] by (simp add: doline_def violate_def unmoved_def)
next
  case False
  let ?c = "map (\<lambda>x. if x = nul then sp else x) line"
  let ?m = "length line - 1"
  let ?n = "if 0 < ?m \<and> ?c ! (?m - 1) = cr then ?m - 1 else ?m"
  have n: "?n \<le> length line" by auto
  obtain d0 r where r: "(d0, r) = (case formdata_depth root of None \<Rightarrow> (0, root)
      | Some d \<Rightarrow> (d, at_depth d (set_info (\<lambda>i. i\<lparr>informdata := False\<rparr>)) root))"
    by (metis surj_pair)
  have "stands d0 s e r"
  proof (cases "formdata_depth root")
    case (Some d)
    then have "stands d s e root" using assms formdata_depth_open by (simp add: stands_def)
    then have "stands d s e (at_depth d (set_info (\<lambda>i. i\<lparr>informdata := False\<rparr>)) root)"
      by (rule stands_at) (simp add: unmoved_def)
    with Some r show ?thesis by simp
  qed (use r assms in simp)
  moreover obtain kind k where k: "drill ?c ?n (node d0 r) = (kind, k)" by fastforce
  ultimately show ?thesis
    using doline_within [OF _ k n, of s e "list_ex (\<lambda>x. 128 \<le> code x) ?c" reformime] False
    unfolding doline_def Let_def r [symmetric] by (simp add: k Let_def del: if_split)
qed

lemma doline_numparts:
  "numparts (info root) > 300 \<Longrightarrow> numparts (info (doline reformime line root)) = numparts (info root)"
  by (simp add: doline_def violate_def)

subsection \<open>Any message in any pieces\<close>

text \<open>The invariant of the parser after some number of bytes.\<close>

definition parser_ok :: "nat \<Rightarrow> mime_parser \<Rightarrow> bool" where
  "parser_ok k h \<longleftrightarrow> mime_ok (fst h) \<and> startpos (info (fst h)) = 0 \<and>
     endpos (info (fst h)) + length (snd h) \<le> k \<and>
     (numparts (info (fst h)) \<le> 300 \<longrightarrow> endpos (info (fst h)) + length (snd h) = k)"

lemma parser_ok_stands: "parser_ok k h \<Longrightarrow> stands 0 0 (endpos (info (fst h))) (fst h)"
  by (simp add: parser_ok_def stands_def)

lemma doline_parser:
  assumes "parser_ok k (root, w)" "line = w @ b"
  shows "parser_ok (k + length b) (doline reformime line root, [])"
  using doline_ok [OF parser_ok_stands [OF assms(1)], of line reformime] assms doline_numparts [of root reformime line]
  by (auto simp: parser_ok_def stands_def split: if_splits)

lemma parse_lines_line:
  assumes "length (takeWhile (\<lambda>c. c \<noteq> nl) buf) < length buf"
  defines "l \<equiv> length (takeWhile (\<lambda>c. c \<noteq> nl) buf)"
  shows "parse_lines reformime h buf =
     parse_lines reformime (doline reformime (snd h @ take (l + 1) buf) (fst h), []) (drop (l + 1) buf)"
proof -
  have "buf \<noteq> []" using assms(1) by auto
  with assms(1) show ?thesis
    unfolding parse_lines.simps [of reformime h buf] l_def Let_def by (simp only: if_True if_False)
qed

lemma parse_lines_last:
  assumes "\<not> length (takeWhile (\<lambda>c. c \<noteq> nl) buf) < length buf"
  shows "parse_lines reformime h buf = (fst h, snd h @ buf)"
  using assms unfolding parse_lines.simps [of reformime h buf] Let_def by (simp only: if_False) simp

lemma parse_lines_parser: "parser_ok k h \<Longrightarrow> parser_ok (k + length buf) (parse_lines reformime h buf)"
proof (induction reformime h buf arbitrary: k rule: parse_lines.induct)
  case (1 reformime h buf)
  let ?l = "length (takeWhile (\<lambda>c. c \<noteq> nl) buf)"
  show ?case
  proof (cases "?l < length buf")
    case True
    obtain root w where h: "h = (root, w)" by fastforce
    have "parser_ok (k + length (take (?l + 1) buf)) (doline reformime (w @ take (?l + 1) buf) root, [])"
      using 1(2) by (intro doline_parser) (simp_all add: h)
    moreover have "length (take (?l + 1) buf) = ?l + 1" using True by simp
    ultimately have "parser_ok (k + (?l + 1)) (doline reformime (snd h @ take (?l + 1) buf) (fst h), [])"
      by (simp only: h fst_conv snd_conv)
    moreover have "k + (?l + 1) + length (drop (?l + 1) buf) = k + length buf" using True by simp
    moreover have ne: "buf \<noteq> []" using True by auto
    ultimately show ?thesis
      using 1(1) [OF ne refl True, of "k + (?l + 1)"] by (simp add: parse_lines_line [OF True])
  next
    case False
    with 1(2) show ?thesis by (simp add: parse_lines_last parser_ok_def)
  qed
qed

lemma update_counts_numparts: "numparts (info (update_counts d e b k p)) = numparts (info p)"
  by (cases d) (simp_all add: update_counts_def)

lemma at_depth_numparts: "(\<And>i. numparts (f i) = numparts i) \<Longrightarrow> numparts (info (at_depth d (set_info f) p)) = numparts (info p)"
  by (cases d) simp_all

lemma partial_parser:
  assumes "parser_ok k h"
  shows "parser_ok k (rfc2045_parse_partial h)"
proof (cases "snd h = []")
  case True
  with assms show ?thesis by (cases h) (simp add: rfc2045_parse_partial_def)
next
  case False
  obtain root w where h: "h = (root, w)" by fastforce
  define l where "l = (if w ! (length w - 1) = cr then length w - 1 else length w)"
  define d where "d = open_depth root"
  let ?e = "endpos (info root)"
  have l: "l \<le> length w" by (simp add: l_def)
  have "working d 0 ?e root"
    using parser_ok_stands [OF assms] open_depth_open [of root] by (simp add: working_def stands_def d_def h)
  moreover from this have e: "endpos (info (node d root)) = ?e" using working_node by blast
  ultimately have "working d 0 (?e + l) (at_depth d (set_info (\<lambda>i. i\<lparr>informdata := True\<rparr>))
      (update_counts d (?e + l) (?e + l) 0 root))"
    by (intro working_at working_update [of _ _ ?e]) (simp_all add: unmoved_def)
  moreover have "numparts (info (at_depth d (set_info (\<lambda>i. i\<lparr>informdata := True\<rparr>))
      (update_counts d (?e + l) (?e + l) 0 root))) = numparts (info root)"
    by (simp add: at_depth_numparts update_counts_numparts)
  moreover have "rfc2045_parse_partial h = (at_depth d (set_info (\<lambda>i. i\<lparr>informdata := True\<rparr>))
      (update_counts d (?e + l) (?e + l) 0 root), drop l w)"
    using False by (simp only: h rfc2045_parse_partial_def Let_def prod.case snd_conv if_False d_def [symmetric]
      l_def [symmetric] e)
  ultimately show ?thesis
    using assms l by (auto simp: h parser_ok_def working_def)
qed

lemma rfc2045_parse_parser: "parser_ok k h \<Longrightarrow> parser_ok (k + length buf) (rfc2045_parse reformime h buf)"
  by (simp add: rfc2045_parse_def Let_def parse_lines_parser partial_parser)

definition parse_pieces :: "bool \<Rightarrow> string list \<Rightarrow> mime_parser" where
  "parse_pieces reformime bufs = fold (\<lambda>buf h. rfc2045_parse reformime h buf) bufs (rfc2045_alloc, [])"

text \<open>Without the work buffer's limit only the concatenation of the pieces counts.\<close>

lemma parse_lines_append: "parse_lines reformime h (a @ b) = parse_lines reformime (parse_lines reformime h a) b"
proof (induction reformime h a rule: parse_lines.induct)
  case (1 reformime h a)
  let ?l = "length (takeWhile (\<lambda>c. c \<noteq> nl) a)"
  show ?case
  proof (cases "?l < length a")
    case True
    then have "takeWhile (\<lambda>c. c \<noteq> nl) a \<noteq> a" by (metis less_irrefl)
    then have "nl \<in> set a" by (auto simp: takeWhile_eq_all_conv)
    then have t: "takeWhile (\<lambda>c. c \<noteq> nl) (a @ b) = takeWhile (\<lambda>c. c \<noteq> nl) a" by (simp add: takeWhile_append1)
    have ne: "a \<noteq> []" using True by auto
    then show ?thesis
      using 1 [OF ne refl True] True parse_lines_line [of "a @ b" reformime h] by (simp add: t parse_lines_line [OF True])
  next
    case False
    then have "?l = length a" using length_takeWhile_le [of "\<lambda>c. c \<noteq> nl" a] by linarith
    then have t: "takeWhile (\<lambda>c. c \<noteq> nl) a = a" by (metis takeWhile_eq_take take_all order_refl)
    note a = parse_lines_last [OF False]
    have "takeWhile (\<lambda>c. c \<noteq> nl) (a @ b) = a @ takeWhile (\<lambda>c. c \<noteq> nl) b"
      using t by (metis takeWhile_append2 takeWhile_eq_all_conv)
    then show ?thesis
      using parse_lines_line [of b reformime "(fst h, snd h @ a)"] parse_lines_line [of "a @ b" reformime h]
        parse_lines_last [of b reformime "(fst h, snd h @ a)"] parse_lines_last [of "a @ b" reformime h]
      by (cases "length (takeWhile (\<lambda>c. c \<noteq> nl) b) < length b") (simp_all add: a)
  qed
qed

interpretation mime_lines: byte_stream "parse_lines reformime" "\<lambda>h. True" id for reformime
proof
  show "id (parse_lines reformime h []) = id h" for h
    by (simp add: parse_lines_last)
qed (simp_all add: parse_lines_append)

lemma parse_lines_rest:
  assumes "nl \<notin> set (snd h)"
  shows "nl \<notin> set (snd (parse_lines reformime h buf)) \<and> (\<exists>a. snd h @ buf = a @ snd (parse_lines reformime h buf))"
  using assms
proof (induction reformime h buf rule: parse_lines.induct)
  case (1 reformime h buf)
  let ?l = "length (takeWhile (\<lambda>c. c \<noteq> nl) buf)"
  show ?case
  proof (cases "?l < length buf")
    case True
    then have ne: "buf \<noteq> []" by auto
    let ?h = "(doline reformime (snd h @ take (?l + 1) buf) (fst h), [])"
    note eq = parse_lines_line [OF True, of reformime h]
    define r where "r = snd (parse_lines reformime ?h (drop (?l + 1) buf))"
    obtain a where a: "drop (?l + 1) buf = a @ r" and r: "nl \<notin> set r"
      using 1(1) [OF ne refl True] by (auto simp: r_def)
    have "snd h @ buf = snd h @ take (?l + 1) buf @ drop (?l + 1) buf"
      by (simp only: append_take_drop_id)
    also have "\<dots> = (snd h @ take (?l + 1) buf @ a) @ r"
      by (simp only: a append.assoc)
    finally show ?thesis using r unfolding eq r_def [symmetric] by blast
  next
    case False
    then have "?l = length buf" using length_takeWhile_le [of "\<lambda>c. c \<noteq> nl" buf] by linarith
    then have "takeWhile (\<lambda>c. c \<noteq> nl) buf = buf" by (metis takeWhile_eq_take take_all order_refl)
    then have "nl \<notin> set buf" by (auto simp: takeWhile_eq_all_conv)
    with 1(2) show ?thesis by (simp add: parse_lines_last [OF False])
  qed
qed

lemma rfc2045_parse_short:
  assumes "nl \<notin> set (snd h)" "\<And>a b. snd h @ buf = a @ b \<Longrightarrow> nl \<notin> set b \<Longrightarrow> length b \<le> 1024"
  shows "rfc2045_parse reformime h buf = parse_lines reformime h buf"
  using parse_lines_rest [OF assms(1), of reformime buf] assms(2)
  by (force simp: rfc2045_parse_def Let_def)

text \<open>
  C1. However a message is cut into pieces, and whatever is in it, the tree keeps its invariant \<open>mime_ok\<close>:
  every section starts, its body starts, its body ends and it ends in this order, its sections follow
  each other within its body, and the open one ends where it ends. What was read of the message (the end of the root and
  the work buffer) is at most what was fed, and all of it unless the limit of 300 sections was exceeded.
\<close>

theorem mime_sections_nested:
  assumes "parse_pieces reformime bufs = (root, workbuf)"
  shows "mime_ok root \<and> startpos (info root) = 0 \<and>
    endpos (info root) + length workbuf \<le> length (concat bufs) \<and>
    (numparts (info root) \<le> 300 \<longrightarrow> endpos (info root) + length workbuf = length (concat bufs))"
proof -
  have "parser_ok (k + length (concat bufs)) (fold (\<lambda>buf h. rfc2045_parse reformime h buf) bufs h)"
    if "parser_ok k h" for k h
    using that
  proof (induction bufs arbitrary: k h)
    case (Cons b bufs)
    from Cons.IH [OF rfc2045_parse_parser [OF Cons.prems, of b reformime]] show ?case by (simp add: add.assoc)
  qed simp
  moreover have "parser_ok 0 (rfc2045_alloc, [])"
    by (simp add: parser_ok_def rfc2045_alloc_def alloc_info_def interval_def)
  ultimately have "parser_ok (0 + length (concat bufs)) (parse_pieces reformime bufs)"
    unfolding parse_pieces_def by blast
  with assms show ?thesis by (simp add: parser_ok_def)
qed

lemma mime_sections_nested_witness:
  "mime_ok (fst (parse_pieces False [[nl, CHR ''h''], [CHR ''i'', nl]])) \<and>
   endpos (info (fst (parse_pieces False [[nl, CHR ''h''], [CHR ''i'', nl]]))) = 4"
proof -
  let ?h = "parse_pieces False [[nl, CHR ''h''], [CHR ''i'', nl]]"
  have "numparts (info (fst ?h)) \<le> 300" by code_simp
  moreover have "snd ?h = []" by code_simp
  ultimately show ?thesis
    using mime_sections_nested [of False "[[nl, CHR ''h''], [CHR ''i'', nl]]" "fst ?h" "snd ?h", OF prod.collapse [symmetric]]
    by simp
qed

text \<open>
  C2. When no line is longer than 1024 bytes, it does not matter how a message is cut into pieces: the sections,
  their headers and positions and the work buffer are those of the message fed at once.
\<close>

theorem mime_parse_pieces:
  assumes "\<And>a b c. concat bufs = a @ b @ c \<Longrightarrow> nl \<notin> set b \<Longrightarrow> length b \<le> 1024"
  shows "parse_pieces reformime bufs = rfc2045_parse reformime (rfc2045_alloc, []) (concat bufs)"
proof -
  let ?h = "\<lambda>s. parse_lines reformime (rfc2045_alloc, []) s"
  have short: "rfc2045_parse reformime (?h s) b = ?h (s @ b)" if "concat bufs = s @ b @ t" for s b t
  proof (unfold parse_lines_append, rule rfc2045_parse_short)
    show "nl \<notin> set (snd (?h s))" using parse_lines_rest [of "(rfc2045_alloc, [])" reformime s] by simp
    fix x y assume xy: "snd (?h s) @ b = x @ y" "nl \<notin> set y"
    obtain a where "s = a @ snd (?h s)" using parse_lines_rest [of "(rfc2045_alloc, [])" reformime s] by auto
    with xy that have "concat bufs = (a @ x) @ y @ t" by (metis append.assoc)
    then show "length y \<le> 1024" using assms xy(2) by blast
  qed
  have "fold (\<lambda>buf h. rfc2045_parse reformime h buf) bs (?h s) = ?h (s @ concat bs)" if "concat bufs = s @ concat bs" for bs s
    using that
  proof (induction bs arbitrary: s)
    case (Cons b bs)
    from Cons.IH [of "s @ b"] short [of s b "concat bs"] Cons.prems show ?case by simp
  qed simp
  from this [of "[]" bufs] have "parse_pieces reformime bufs = ?h (concat bufs)"
    by (simp add: parse_pieces_def parse_lines_last)
  also have "\<dots> = rfc2045_parse reformime (rfc2045_alloc, []) (concat bufs)"
    using short [of "[]" "concat bufs" "[]"] by (simp add: parse_lines_last)
  finally show ?thesis .
qed

lemma mime_parse_pieces_witness:
  "parse_pieces False [''a'' @ [nl] @ ''b'', ''c'' @ [nl]] =
   rfc2045_parse False (rfc2045_alloc, []) (''a'' @ [nl] @ ''bc'' @ [nl])"
proof -
  let ?bufs = "[''a'' @ [nl] @ ''b'', ''c'' @ [nl]]"
  have "length b \<le> 1024" if "concat ?bufs = a @ b @ c" "nl \<notin> set b" for a b c
    using arg_cong [OF that(1), of length] by simp
  from mime_parse_pieces [of ?bufs False, OF this] show ?thesis by simp
qed

end
