(* ===== verification/Imap_Subject.thy ===== *)
theory Imap_Subject
  imports C_Prelude "HOL-Library.Sublist"
begin

text \<open>
  The base subject of IMAP threading (\<^verbatim>\<open>rfc822/imapsubj.c\<close>): the reply and forward marks
  and the mailing list tags of a subject are taken off, so that the messages of a thread
  compare equal. Pointers into the string are the rest of the string from there.
\<close>

subsection \<open>The code\<close>

definition skipblob :: "string \<Rightarrow> string" where
  "skipblob p =
     (case p of
        [] \<Rightarrow> p
      | c # q \<Rightarrow>
          if c = CHR ''['' then
            case dropWhile (\<lambda>c. c \<noteq> CHR ''['' \<and> c \<noteq> CHR '']'') q of
              [] \<Rightarrow> p
            | d # r \<Rightarrow> if d = CHR '']'' then skipspace r else p
          else p)"

lemma length_skipblob:
  assumes "skipblob p \<noteq> p"
  shows "length (skipblob p) < length p"
proof -
  obtain q r where p: "p = CHR ''['' # q" "skipblob p = skipspace r"
    "dropWhile (\<lambda>c. c \<noteq> CHR ''['' \<and> c \<noteq> CHR '']'') q = CHR '']'' # r"
    using assms by (auto simp: skipblob_def split: list.splits if_splits)
  have "length r < length q"
    using length_dropWhile_le [of "\<lambda>c. c \<noteq> CHR ''['' \<and> c \<noteq> CHR '']''" q] unfolding p(3) by simp
  with p(1,2) length_skipspace [of r] show ?thesis by simp
qed

function skipblobs :: "string \<Rightarrow> string" where
  "skipblobs p = (let q = skipblob p in if q \<noteq> p then skipblobs q else q)"
  by pat_completeness auto
termination
  by (relation "measure length") (auto simp: length_skipblob)

declare skipblobs.simps [simp del]

text \<open>The first loop of \<^verbatim>\<open>stripsubj\<close>: a run of white space becomes one blank.\<close>

function squeeze :: "string \<Rightarrow> string" where
  "squeeze [] = []"
| "squeeze (c # p) = (if \<not> isspace c then c # squeeze p else sp # squeeze (skipspace p))"
  by pat_completeness auto
termination
  by (relation "measure length") (auto simp: less_Suc_eq_le length_skipspace)

text \<open>The trailing text; \<open>refwd\<close> is \<^verbatim>\<open>*hasrefwd\<close>.\<close>

function strip_trailer :: "string \<Rightarrow> bool \<Rightarrow> string \<times> bool" where
  "strip_trailer s refwd =
     (if s = [] then (s, refwd)
      else if isspace (last s) then strip_trailer (butlast s) refwd
      else if 5 \<le> length s \<and> caseprefix ''(FWD)'' (drop (length s - 5) s)
        then strip_trailer (take (length s - 5) s) True
      else (s, refwd))"
  by pat_completeness auto
termination
  by (relation "measure (\<lambda>(s, refwd). length s)") auto

declare strip_trailer.simps [simp del]

definition skip_refwd :: "string \<Rightarrow> string option" where
  "skip_refwd q =
     (if caseprefix ''RE'' q then Some (drop 2 q)
      else if caseprefix ''FWD'' q then Some (drop 3 q)
      else if caseprefix ''FW'' q then Some (drop 2 q)
      else None)"

text \<open>Where the text after \<open>(*subj-blob subj-refwd)\<close> starts, when the prefix is there.\<close>

definition skip_leader :: "string \<Rightarrow> string option" where
  "skip_leader p =
     (case skip_refwd (skipblobs p) of
        None \<Rightarrow> None
      | Some q \<Rightarrow>
          (case skipblob q of [] \<Rightarrow> None | c # r \<Rightarrow> if c = CHR '':'' then Some r else None))"

lemma length_skipblob_le: "length (skipblob p) \<le> length p"
  using length_skipblob [of p] by (cases "skipblob p = p") auto

lemma length_skipblobs: "length (skipblobs p) \<le> length p"
proof (induction p rule: skipblobs.induct)
  case (1 p)
  then show ?case
    using length_skipblob [of p] by (subst skipblobs.simps) (auto simp: Let_def)
qed

lemma length_skip_leader:
  assumes "skip_leader p = Some q"
  shows "length q < length p"
proof -
  obtain r c where r: "skip_refwd (skipblobs p) = Some r" "skipblob r = c # q"
    using assms by (auto simp: skip_leader_def split: option.splits list.splits if_splits)
  have "length r \<le> length (skipblobs p)"
    using r(1) by (auto simp: skip_refwd_def split: if_splits)
  moreover have "length q < length r"
    using length_skipblob_le [of r] r(2) by simp
  ultimately show ?thesis
    using length_skipblobs [of p] by linarith
qed

text \<open>The inner loop over the prefix text.\<close>

function strip_leader :: "string \<Rightarrow> bool \<Rightarrow> string \<times> bool" where
  "strip_leader p refwd =
     (if p \<noteq> [] \<and> isspace (hd p) then strip_leader (tl p) refwd
      else case skip_leader p of
        Some q \<Rightarrow> strip_leader q True
      | None \<Rightarrow>
          let q = skipblob p
          in if q \<noteq> p \<and> q \<noteq> [] then strip_leader q refwd else (p, refwd))"
  by pat_completeness auto
termination
  by (relation "measure (\<lambda>(p, refwd). length p)") (auto simp: length_skipblob length_skip_leader)

declare strip_leader.simps [simp del]

definition fwd_hdr :: "string \<Rightarrow> bool" where
  "fwd_hdr p \<longleftrightarrow> caseprefix ''[FWD:'' p \<and> last p = CHR '']''"

lemma strip_trailer_prefix: "prefix (fst (strip_trailer s refwd)) s"
proof (induction s refwd rule: strip_trailer.induct)
  case (1 s refwd)
  have "prefix (butlast s) s" "prefix (take n s) s" for n
    by (simp_all add: prefixeq_butlast take_is_prefix)
  with 1 show ?case
    by (subst strip_trailer.simps) (auto intro: prefix_order.trans)
qed

lemma skipblob_suffix: "suffix (skipblob p) p"
proof (cases "skipblob p = p")
  case False
  then obtain q r where p: "p = CHR ''['' # q" "skipblob p = skipspace r"
    "dropWhile (\<lambda>c. c \<noteq> CHR ''['' \<and> c \<noteq> CHR '']'') q = CHR '']'' # r"
    by (auto simp: skipblob_def split: list.splits if_splits)
  have "suffix (skipspace r) r" "suffix r (CHR '']'' # r)"
    by (simp_all add: skipspace_def suffix_dropWhile suffix_ConsI)
  moreover have "suffix (CHR '']'' # r) q"
    unfolding p(3) [symmetric] by (rule suffix_dropWhile)
  ultimately show ?thesis
    using p(1,2) by (metis suffix_ConsI suffix_order.trans)
qed simp

lemma skipblobs_suffix: "suffix (skipblobs p) p"
proof (induction p rule: skipblobs.induct)
  case (1 p)
  then show ?case
    using skipblob_suffix [of p]
    by (subst skipblobs.simps) (auto simp: Let_def intro: suffix_order.trans)
qed

lemma skip_leader_suffix: "skip_leader p = Some q \<Longrightarrow> suffix q p"
proof -
  assume "skip_leader p = Some q"
  then obtain r c where r: "skip_refwd (skipblobs p) = Some r" "skipblob r = c # q"
    by (auto simp: skip_leader_def split: option.splits list.splits if_splits)
  have "suffix r (skipblobs p)"
    using r(1) by (auto simp: skip_refwd_def suffix_drop split: if_splits)
  moreover have "suffix q r"
    using skipblob_suffix [of r] r(2) suffix_ConsD by fastforce
  ultimately show "suffix q p"
    using skipblobs_suffix [of p] by (meson suffix_order.trans)
qed

lemma strip_leader_suffix: "suffix (fst (strip_leader p refwd)) p"
proof (induction p refwd rule: strip_leader.induct)
  case (1 p refwd)
  have "suffix (tl p) p" by (simp add: suffix_tl)
  with 1 show ?case
    using skipblob_suffix [of p] skip_leader_suffix [of p]
    by (subst strip_leader.simps)
      (auto simp: Let_def split: option.splits intro: suffix_order.trans)
qed

text \<open>The outer loop, and what is left of the string at the end.\<close>

function strip_loop :: "string \<Rightarrow> bool \<Rightarrow> string \<times> bool" where
  "strip_loop s refwd =
     (case strip_trailer s refwd of (s, refwd) \<Rightarrow>
      case strip_leader s refwd of (p, refwd) \<Rightarrow>
        if fwd_hdr p then strip_loop (drop 5 (butlast p)) True else (p, refwd))"
  by pat_completeness auto
termination
proof (relation "measure (\<lambda>(s, refwd). length s)")
  fix s refwd s' refwd' p refwd''
  assume e: "(s', refwd') = strip_trailer s refwd" "(p, refwd'') = strip_leader s' refwd'" "fwd_hdr p"
  have "length s' \<le> length s" "length p \<le> length s'"
    using prefix_length_le [OF strip_trailer_prefix [of s refwd]]
      suffix_length_le [OF strip_leader_suffix [of s' refwd']] by (simp_all flip: e(1,2))
  moreover have "p \<noteq> []"
    using e(3) by (auto simp: fwd_hdr_def)
  ultimately have "length p - 6 < length s"
    by (cases p) auto
  then show "((drop 5 (butlast p), True), s, refwd) \<in> measure (\<lambda>(s, refwd). length s)"
    by simp
qed auto

declare strip_loop.simps [simp del]

definition stripsubj :: "string \<Rightarrow> bool \<Rightarrow> string \<times> bool" where
  "stripsubj s refwd = strip_loop (squeeze s) refwd"

definition rfc822_coresubj :: "string \<Rightarrow> string \<times> bool" where
  "rfc822_coresubj s = stripsubj (map (\<lambda>c. if code c < 128 then toupper c else c) s) False"

definition rfc822_coresubj_nouc :: "string \<Rightarrow> string \<times> bool" where
  "rfc822_coresubj_nouc s = stripsubj s False"

subsection \<open>The pieces are stable\<close>

definition trailer_ok :: "string \<Rightarrow> bool" where
  "trailer_ok s \<longleftrightarrow>
     s = [] \<or> \<not> isspace (last s) \<and> \<not> (5 \<le> length s \<and> caseprefix ''(FWD)'' (drop (length s - 5) s))"

lemma strip_trailer_ok: "trailer_ok s \<Longrightarrow> strip_trailer s refwd = (s, refwd)"
  by (subst strip_trailer.simps) (auto simp: trailer_ok_def)

lemma strip_trailer_result: "trailer_ok (fst (strip_trailer s refwd))"
proof (induction s refwd rule: strip_trailer.induct)
  case (1 s refwd)
  then show ?case
    by (subst strip_trailer.simps) (auto simp: trailer_ok_def)
qed

lemma trailer_ok_suffix:
  assumes "trailer_ok s" "suffix p s"
  shows "trailer_ok p"
proof (cases "p = []")
  case False
  obtain x where "s = x @ p"
    using assms(2) by (auto simp: suffix_def)
  with False assms(1) show ?thesis
    by (auto simp: trailer_ok_def)
qed (simp add: trailer_ok_def)

definition leader_ok :: "string \<Rightarrow> bool" where
  "leader_ok p \<longleftrightarrow> \<not> (p \<noteq> [] \<and> isspace (hd p)) \<and> skip_leader p = None \<and> (skipblob p = p \<or> skipblob p = [])"

lemma strip_leader_ok: "leader_ok p \<Longrightarrow> strip_leader p refwd = (p, refwd)"
  by (subst strip_leader.simps) (auto simp: leader_ok_def Let_def)

lemma strip_leader_result: "leader_ok (fst (strip_leader p refwd))"
proof (induction p refwd rule: strip_leader.induct)
  case (1 p refwd)
  then show ?case
    by (subst strip_leader.simps) (auto simp: leader_ok_def Let_def split: option.splits)
qed

fun squeezed :: "string \<Rightarrow> bool" where
  "squeezed [] \<longleftrightarrow> True"
| "squeezed (c # p) \<longleftrightarrow> (isspace c \<longrightarrow> c = sp \<and> (p = [] \<or> \<not> isspace (hd p))) \<and> squeezed p"

lemma squeeze_ok: "squeezed s \<Longrightarrow> squeeze s = s"
proof (induction s rule: squeeze.induct)
  case (2 c p)
  show ?case
  proof (cases "isspace c")
    case True
    then have "skipspace p = p"
      using 2(3) by (cases p) (auto simp: skipspace_def)
    with 2 True show ?thesis by simp
  qed (use 2 in simp)
qed simp

lemma squeezed_result: "squeezed (squeeze s)"
proof (induction s rule: squeeze.induct)
  case (2 c p)
  show ?case
  proof (cases "isspace c")
    case True
    have "skipspace p = [] \<or> (\<exists>d q. skipspace p = d # q \<and> \<not> isspace d)"
      using hd_dropWhile [of isspace p] by (cases "dropWhile isspace p") (auto simp: skipspace_def)
    with 2 True show ?thesis by auto
  next
    case False
    with 2 show ?thesis by simp
  qed
qed simp

lemma squeezed_append: "squeezed (x @ y) \<Longrightarrow> squeezed x \<and> squeezed y"
  by (induction x) (auto simp: hd_append split: if_splits)

lemma squeezed_suffix: "squeezed s \<Longrightarrow> suffix p s \<Longrightarrow> squeezed p"
  by (auto simp: suffix_def dest: squeezed_append)

lemma squeezed_prefix: "squeezed s \<Longrightarrow> prefix p s \<Longrightarrow> squeezed p"
  by (auto simp: prefix_def dest: squeezed_append)

lemma set_squeeze: "set (squeeze s) \<subseteq> insert sp (set s)"
proof (induction s rule: squeeze.induct)
  case (2 c p)
  then show ?case
    using set_dropWhileD [of _ isspace p] by (auto simp: skipspace_def)
qed simp

text \<open>What is true of every core subject.\<close>

definition core :: "string \<Rightarrow> bool" where
  "core p \<longleftrightarrow> squeezed p \<and> trailer_ok p \<and> leader_ok p \<and> \<not> fwd_hdr p"

lemma stripsubj_core: "core p \<Longrightarrow> stripsubj p refwd = (p, refwd)"
  by (simp add: stripsubj_def core_def squeeze_ok strip_loop.simps strip_trailer_ok strip_leader_ok)

lemma strip_loop_result:
  "squeezed s \<Longrightarrow> core (fst (strip_loop s refwd)) \<and> set (fst (strip_loop s refwd)) \<subseteq> set s"
proof (induction s refwd rule: strip_loop.induct)
  case (1 s refwd)
  obtain t h where t: "strip_trailer s refwd = (t, h)" by force
  obtain p g where p: "strip_leader t h = (p, g)" by force
  have facts: "prefix t s" "trailer_ok t" "suffix p t" "leader_ok p"
    using t p strip_trailer_prefix [of s refwd] strip_trailer_result [of s refwd]
      strip_leader_suffix [of t h] strip_leader_result [of t h] by auto
  then have p_ok: "squeezed p" "trailer_ok p" "set p \<subseteq> set s"
    using 1(2) squeezed_prefix squeezed_suffix trailer_ok_suffix set_mono_prefix set_mono_suffix
    by blast+
  show ?case
  proof (cases "fwd_hdr p")
    case True
    have "squeezed (drop 5 (butlast p))"
      using p_ok(1) squeezed_prefix [OF _ prefixeq_butlast] squeezed_suffix [OF _ suffix_drop] by blast
    moreover have "set (drop 5 (butlast p)) \<subseteq> set p"
      by (meson in_set_butlastD in_set_dropD subsetI)
    ultimately show ?thesis
      using 1(1) [OF t [symmetric] p [symmetric]] True t p p_ok
      by (subst (1 2) strip_loop.simps) auto
  next
    case False
    with facts p_ok t p show ?thesis
      by (subst (1 2) strip_loop.simps) (simp add: core_def)
  qed
qed

lemma rfc822_coresubj_core:
  "core (fst (rfc822_coresubj s))"
  "c \<in> set (fst (rfc822_coresubj s)) \<Longrightarrow> code c < 128 \<Longrightarrow> toupper c = c"
proof -
  let ?u = "map (\<lambda>c. if code c < 128 then toupper c else c) s"
  have r: "core (fst (rfc822_coresubj s)) \<and> set (fst (rfc822_coresubj s)) \<subseteq> set (squeeze ?u)"
    unfolding rfc822_coresubj_def stripsubj_def by (rule strip_loop_result) (rule squeezed_result)
  then show "core (fst (rfc822_coresubj s))" by simp
  have "toupper c = c" if "code c < 128" "c \<in> set ?u" for c
    using that by (auto split: if_splits)
  moreover have "toupper sp = sp" by (simp add: toupper_def islower_def)
  ultimately show "c \<in> set (fst (rfc822_coresubj s)) \<Longrightarrow> code c < 128 \<Longrightarrow> toupper c = c"
    using r set_squeeze [of ?u] by blast
qed

subsection \<open>The marks of replies and forwards\<close>

lemma strip_trailer_fwd: "strip_trailer (x @ ''(FWD)'') refwd = strip_trailer x True"
  by (subst strip_trailer.simps) (simp add: isspace_def)

lemma strip_trailer_re: "strip_trailer (''RE:'' @ x) refwd = apfst (\<lambda>t. ''RE:'' @ t) (strip_trailer x refwd)"
proof (induction x refwd rule: strip_trailer.induct)
  case (1 x refwd)
  show ?case
  proof (cases "x = []")
    case True
    have "trailer_ok ''RE:''" "trailer_ok ([] :: string)"
      by (simp_all add: trailer_ok_def isspace_def)
    with True show ?thesis by (simp add: strip_trailer_ok)
  next
    case False
    define y where "y = ''RE:'' @ x"
    have y: "y \<noteq> []" "last y = last x" "butlast y = ''RE:'' @ butlast x" "length y = length x + 3"
      using False by (simp_all add: y_def butlast_append)
    have paren: "tolower (CHR ''('') \<noteq> tolower (CHR ''R'')" "tolower (CHR ''('') \<noteq> tolower (CHR ''E'')"
      "tolower (CHR ''('') \<noteq> tolower (CHR '':'')"
      by (simp_all add: tolower_def isupper_def char_of_def)
    have short: "\<not> caseprefix ''(FWD)'' (drop (length y - 5) y)" if "length x < 5"
      using that paren by (auto simp: y_def less_Suc_eq numeral_eq_Suc length_Suc_conv)
    have long: "drop (length y - 5) y = drop (length x - 5) x"
      "take (length y - 5) y = ''RE:'' @ take (length x - 5) x" if "5 \<le> length x"
    proof -
      have e: "length y - 5 = Suc (Suc (Suc (length x - 5)))"
        using that y(4) by simp
      show "drop (length y - 5) y = drop (length x - 5) x"
        "take (length y - 5) y = ''RE:'' @ take (length x - 5) x"
        unfolding e by (simp_all add: y_def)
    qed
    show ?thesis
      unfolding y_def [symmetric]
    proof (cases "isspace (last x)"; cases "5 \<le> length x \<and> caseprefix ''(FWD)'' (drop (length x - 5) x)")
      assume "\<not> isspace (last x)" "\<not> (5 \<le> length x \<and> caseprefix ''(FWD)'' (drop (length x - 5) x))"
      moreover from this have "\<not> caseprefix ''(FWD)'' (drop (length y - 5) y)"
        using short long by (cases "length x < 5") auto
      ultimately have "trailer_ok x" "trailer_ok y"
        using y by (simp_all add: trailer_ok_def)
      then show "strip_trailer y refwd = apfst (\<lambda>t. ''RE:'' @ t) (strip_trailer x refwd)"
        by (simp add: strip_trailer_ok y_def)
    qed (use 1 False y long in \<open>simp_all add: strip_trailer.simps [of y] strip_trailer.simps [of x]\<close>)
  qed
qed

lemma squeeze_nonspace: "list_all (\<lambda>c. \<not> isspace c) x \<Longrightarrow> squeeze (x @ y) = x @ squeeze y"
  by (induction x) simp_all

lemma strip_leader_re:
  "strip_leader (''RE:'' @ x) refwd = strip_leader x True"
  "\<not> fwd_hdr (''RE:'' @ x)"
proof -
  have "skipblobs (''RE:'' @ x) = ''RE:'' @ x" "skipblob (CHR '':'' # x) = CHR '':'' # x"
    by (simp_all add: skipblobs.simps skipblob_def)
  then have "skip_leader (''RE:'' @ x) = Some x"
    by (simp add: skip_leader_def skip_refwd_def)
  then show "strip_leader (''RE:'' @ x) refwd = strip_leader x True"
    by (subst strip_leader.simps) (simp add: isspace_def)
qed (simp add: fwd_hdr_def tolower_def isupper_def)

text \<open>The flag is only ever set, and it has no influence on the text.\<close>

lemma strip_trailer_flag: "strip_trailer s refwd = apsnd (\<lambda>h. refwd \<or> h) (strip_trailer s False)"
proof (induction s refwd rule: strip_trailer.induct)
  case (1 s refwd)
  have "strip_trailer s' True = apsnd (\<lambda>h. True) (strip_trailer s' False) \<Longrightarrow> snd (strip_trailer s' True)" for s'
    by simp
  with 1 show ?case
    by (subst (1 2) strip_trailer.simps) (auto simp: prod_eq_iff)
qed

lemma strip_leader_flag: "strip_leader p refwd = apsnd (\<lambda>h. refwd \<or> h) (strip_leader p False)"
proof (induction p refwd rule: strip_leader.induct)
  case (1 p refwd)
  have "strip_leader p' True = apsnd (\<lambda>h. True) (strip_leader p' False) \<Longrightarrow> snd (strip_leader p' True)" for p'
    by simp
  with 1 show ?case
    by (subst (1 2) strip_leader.simps) (auto simp: prod_eq_iff Let_def split: option.splits)
qed

lemma strip_loop_unfold:
  "strip_loop s refwd =
     (let t = fst (strip_trailer s False); p = fst (strip_leader t False)
      in if fwd_hdr p then strip_loop (drop 5 (butlast p)) True
         else (p, refwd \<or> snd (strip_trailer s False) \<or> snd (strip_leader t False)))"
  by (subst strip_loop.simps, subst strip_trailer_flag, subst strip_leader_flag)
    (simp add: case_prod_unfold Let_def)

lemma strip_loop_True: "snd (strip_loop s True)"
proof (induction s True rule: strip_loop.induct)
  case (1 s)
  obtain t h where t: "strip_trailer s True = (t, h)" by force
  obtain p g where p: "strip_leader t h = (p, g)" by force
  have h: "fst (strip_trailer s False) = t" "fst (strip_leader t False) = p"
    using t p strip_trailer_flag [of s True] strip_leader_flag [of t h] by (metis fst_apsnd fst_conv)+
  show ?case
    using 1 [OF t [symmetric] p [symmetric]] by (subst strip_loop_unfold) (simp add: h Let_def)
qed

lemma strip_loop_flag:
  "fst (strip_loop s refwd) = fst (strip_loop s False)" "snd (strip_loop s True)"
  by (subst (1 2) strip_loop_unfold) (simp_all add: Let_def strip_loop_True)

text \<open>One more mark in front or behind.\<close>

lemma strip_loop_re: "strip_loop (''RE:'' @ x) refwd = (fst (strip_loop x False), True)"
proof -
  have "fst (strip_trailer (''RE:'' @ x) False) = ''RE:'' @ fst (strip_trailer x False)"
    by (simp only: strip_trailer_re fst_apfst)
  moreover have "strip_leader (''RE:'' @ y) False = apsnd (\<lambda>h. True) (strip_leader y False)" for y
    unfolding strip_leader_re(1) using strip_leader_flag [of y True] by simp
  ultimately show ?thesis
    using strip_loop_True
    by (subst (1 2) strip_loop_unfold) (simp add: Let_def prod_eq_iff del: append_Cons append.append_Cons)
qed

lemma strip_loop_fwd: "strip_loop (x @ ''(FWD)'') refwd = (fst (strip_loop x False), True)"
proof -
  have "strip_trailer (x @ ''(FWD)'') False = apsnd (\<lambda>h. True) (strip_trailer x False)"
    unfolding strip_trailer_fwd using strip_trailer_flag [of x True] by simp
  then show ?thesis
    using strip_loop_True by (subst (1 2) strip_loop_unfold) (simp add: Let_def prod_eq_iff)
qed

lemma squeeze_nonspace_end:
  "list_all (\<lambda>c. \<not> isspace c) y \<Longrightarrow> y \<noteq> [] \<Longrightarrow> squeeze (x @ y) = squeeze x @ y"
proof (induction x rule: squeeze.induct)
  case 1
  then show ?case
    using squeeze_nonspace [of y "[]"] by simp
next
  case (2 c p)
  have "skipspace (p @ y) = skipspace p @ y"
    using 2(3,4) by (cases y) (auto simp: skipspace_def dropWhile_append dropWhile_eq_Nil_conv)
  with 2 show ?case by simp
qed

lemma ucase_toupper: "(if code c < 128 then toupper c else c) = toupper c"
  by (simp add: toupper_def islower_def)

lemma toupper_tolower [simp]: "toupper (tolower c) = toupper c"
  by (auto simp: ctype_simps)

lemma strcaseeq_upper:
  assumes "strcaseeq m m'"
  shows "map toupper m = map toupper m'"
proof -
  have "map toupper x = map toupper (map tolower x)" for x by simp
  with assms show ?thesis
    unfolding strcaseeq_def by metis
qed



end
