(* ===== verification/Utf8.thy ===== *)
theory Utf8
  imports C_Interfaces
begin

text \<open>
  UTF-8 conversion (\<^verbatim>\<open>unicode/utf8.c\<close>). A \<^verbatim>\<open>unicode_char\<close> is a \<^verbatim>\<open>wchar_t\<close>, a signed
  32 bit integer, modelled by \<open>int\<close> (shifts right are arithmetic, masks are on two's
  complement); a zero terminated array of them is the list of its elements. Both directions
  work in two passes, the first of which computes the size of the buffer the second fills.
\<close>

type_synonym unicode_char = int

subsection \<open>Decoding\<close>

definition cont :: "char \<Rightarrow> bool" where
  "cont c \<longleftrightarrow> code c AND 0xC0 = 0x80"

text \<open>\<^verbatim>\<open>uc <<= 6; uc |= c & 0x3F\<close>\<close>

definition ushift :: "nat \<Rightarrow> char \<Rightarrow> nat" where
  "ushift uc c = push_bit 6 uc OR (code c AND 0x3F)"

text \<open>\<open>s\<close> starts with the bytes \<open>c # s'\<close>, and \<open>k\<close> continuation bytes follow \<open>c\<close>.\<close>

definition conts :: "nat \<Rightarrow> string \<Rightarrow> bool" where
  "conts k s \<longleftrightarrow> k \<le> length s \<and> list_all cont (take k s)"

text \<open>
  One character at \<open>c # s\<close>: the number of bytes and the value, or \<open>None\<close> for an invalid byte.
\<close>

definition utf8_step :: "char \<Rightarrow> string \<Rightarrow> (nat \<times> nat) option" where
  "utf8_step c s =
     (let v = (\<lambda>mask k. foldl ushift (code c AND mask) (take k s))
      in if code c AND 0x80 = 0 then Some (1, code c)
         else if code c AND 0xE0 = 0xC0 \<and> conts 1 s then Some (2, v 0x1F 1)
         else if code c AND 0xF0 = 0xE0 \<and> conts 2 s then Some (3, v 0x0F 2)
         else if code c AND 0xF8 = 0xF0 \<and> conts 3 s then Some (4, v 0x07 3)
         else if code c AND 0xFC = 0xF8 \<and> conts 4 s then Some (5, v 0x03 4)
         else if code c AND 0xFE = 0xFC \<and> conts 5 s then Some (6, v 0x01 5)
         else None)"

lemma utf8_step_consumes: "utf8_step c s = Some (n, uc) \<Longrightarrow> 1 \<le> n \<and> n \<le> length (c # s)"
  by (auto simp: utf8_step_def Let_def conts_def split: if_splits)

lemma utf8_step_less: "utf8_step c s = Some (n, uc) \<Longrightarrow> Suc (length s) - n < Suc (length s)"
  by (drule utf8_step_consumes) simp

text \<open>
  The first pass: the number of array elements (with the terminator), or the offset of an
  invalid byte when the caller asked for errors (\<open>strict\<close> is whether \<open>ip\<close> is given).
\<close>

function tou_count :: "bool \<Rightarrow> nat \<Rightarrow> nat \<Rightarrow> string \<Rightarrow> nat + nat" where
  "tou_count strict l n [] = Inr n"
| "tou_count strict l n (c # s) =
     (case utf8_step c s of
        Some (k, _) \<Rightarrow> tou_count strict (l + k) (n + 1) (drop k (c # s))
      | None \<Rightarrow> if strict then Inl l else tou_count strict (l + 1) (n + 1) s)"
  by pat_completeness auto
termination
  by (relation "measure (\<lambda>(strict, l, n, s). length s)") (auto intro: utf8_step_less)

text \<open>The second pass: an invalid byte is taken as it is, sign extended.\<close>

function tou_fill :: "string \<Rightarrow> unicode_char list" where
  "tou_fill [] = []"
| "tou_fill (c # s) =
     (case utf8_step c s of
        Some (k, uc) \<Rightarrow> int uc # tou_fill (drop k (c # s))
      | None \<Rightarrow> schar c # tou_fill s)"
  by pat_completeness auto
termination
  by (relation "measure length") (auto intro: utf8_step_less)

text \<open>The array, or the offset stored in \<^verbatim>\<open>*ip\<close> when the result is NULL.\<close>

definition unicode_utf8_tou :: "bool \<Rightarrow> string \<Rightarrow> nat + unicode_char list" where
  "unicode_utf8_tou ip cp =
     (case tou_count ip 0 1 cp of Inl l \<Rightarrow> Inl l | Inr n \<Rightarrow> Inr (tou_fill cp))"

subsection \<open>Encoding\<close>

definition to_char :: "int \<Rightarrow> char" where
  "to_char i = char_of (nat (i mod 256))"

text \<open>\<^verbatim>\<open>(char)(uc & 0x3F) | 0x80\<close> after shifting \<open>uc\<close> right by \<open>n\<close> bits.\<close>

definition tail_byte :: "nat \<Rightarrow> unicode_char \<Rightarrow> char" where
  "tail_byte n uc = to_char ((drop_bit n uc AND 0x3F) OR 0x80)"

definition fromu_char :: "unicode_char \<Rightarrow> string" where
  "fromu_char uc =
     (if uc = uc AND 0x007F then [to_char uc]
      else if uc = uc AND 0x07FF then
        [to_char ((drop_bit 6 uc AND 0x1F) OR 0xC0), tail_byte 0 uc]
      else if uc = uc AND 0x00FFFF then
        [to_char ((drop_bit 12 uc AND 0x0F) OR 0xE0), tail_byte 6 uc, tail_byte 0 uc]
      else if uc = uc AND 0x001FFFFF then
        [to_char ((drop_bit 18 uc AND 0x07) OR 0xF0), tail_byte 12 uc, tail_byte 6 uc, tail_byte 0 uc]
      else if uc = uc AND 0x03FFFFFF then
        [to_char ((drop_bit 24 uc AND 0x03) OR 0xF8), tail_byte 18 uc, tail_byte 12 uc,
         tail_byte 6 uc, tail_byte 0 uc]
      else
        [to_char ((drop_bit 30 uc AND 0x01) OR 0xFC), tail_byte 24 uc, tail_byte 18 uc,
         tail_byte 12 uc, tail_byte 6 uc, tail_byte 0 uc])"

text \<open>
  One call of the pass: the bytes stored in \<open>p\<close> when it is given (from the offset the pass is
  at), and the total length.
\<close>

fun unicode_utf8_fromu_pass :: "bool \<Rightarrow> unicode_char list \<Rightarrow> string \<times> nat" where
  "unicode_utf8_fromu_pass p [] = ([], 0)"
| "unicode_utf8_fromu_pass p (uc # us) =
     (case unicode_utf8_fromu_pass p us of (s, l) \<Rightarrow>
        ((if p then fromu_char uc @ s else []),
         (if uc = uc AND 0x007F then 1 else if uc = uc AND 0x07FF then 2
          else if uc = uc AND 0x00FFFF then 3 else if uc = uc AND 0x001FFFFF then 4
          else if uc = uc AND 0x03FFFFFF then 5 else 6) + l))"

definition unicode_utf8_fromu :: "unicode_char list \<Rightarrow> string" where
  "unicode_utf8_fromu cp = fst (unicode_utf8_fromu_pass True cp)"

subsection \<open>The arrays of the two passes\<close>

lemma tou_count_length: "tou_count strict l n cp = Inr m \<Longrightarrow> m = n + length (tou_fill cp)"
  by (induction strict l n cp rule: tou_count.induct) (auto split: option.splits if_splits)

lemma tou_count_lenient: "\<exists>m. tou_count False l n cp = Inr m"
  by (induction False l n cp rule: tou_count.induct) (auto split: option.splits)

lemma length_fromu_char:
  "length (fromu_char uc) =
     (if uc = uc AND 0x007F then 1 else if uc = uc AND 0x07FF then 2
      else if uc = uc AND 0x00FFFF then 3 else if uc = uc AND 0x001FFFFF then 4
      else if uc = uc AND 0x03FFFFFF then 5 else 6)"
  by (simp add: fromu_char_def)

lemma fromu_pass_length:
  "snd (unicode_utf8_fromu_pass p us) = length (fst (unicode_utf8_fromu_pass True us))"
  by (induction us) (simp_all add: case_prod_unfold length_fromu_char)

text \<open>
  The buffers of both UTF-8 conversions have the size the filling pass needs: for every
  byte string, valid or not, the array of \<open>unicode_utf8_tou\<close> has one element more than the
  characters stored (the terminator), and for every array of characters, negative ones
  included, the first pass of \<open>unicode_utf8_fromu\<close> gives the length of what the second writes.
\<close>

theorem utf8_buffers_exact:
  "tou_count False 0 1 cp = Inr (length (tou_fill cp) + 1) \<and>
   snd (unicode_utf8_fromu_pass False us) = length (unicode_utf8_fromu us)"
  using tou_count_lenient [of 0 1 cp] tou_count_length [of False 0 1 cp]
  by (auto simp: unicode_utf8_fromu_def fromu_pass_length)

subsection \<open>Round trip\<close>

lemma int_and_nat: "int n AND numeral k = int (n AND numeral k)"
  by (simp add: of_nat_and_eq)

lemma int_or_nat: "int n OR numeral k = int (n OR numeral k)"
  by (simp add: of_nat_or_eq)

lemma drop_bit_int_nat: "drop_bit k (int n) = int (n div 2 ^ k)"
  by (simp add: drop_bit_eq_div zdiv_int)

lemma and_low: "m = 2 ^ k - 1 \<Longrightarrow> n AND m = n mod 2 ^ k" for n :: nat
  by (simp only: and_mask_mod)

lemma low_bits:
  fixes n :: nat
  shows "n AND 0x7F = n mod 2 ^ 7" "n AND 0x07FF = n mod 2 ^ 11" "n AND 0xFFFF = n mod 2 ^ 16"
    "n AND 0x1FFFFF = n mod 2 ^ 21" "n AND 0x3FFFFFF = n mod 2 ^ 26"
    "n AND 0x3F = n mod 2 ^ 6" "n AND 0x1F = n mod 2 ^ 5" "n AND 0x0F = n mod 2 ^ 4"
    "n AND 0x07 = n mod 2 ^ 3" "n AND 0x03 = n mod 2 ^ 2" "n AND 0x01 = n mod 2 ^ 1"
  by (rule and_low, simp)+

lemma or_high:
  fixes n :: nat
  shows "n < 64 \<Longrightarrow> n OR 0x80 = 0x80 + n" "n < 32 \<Longrightarrow> n OR 0xC0 = 0xC0 + n"
    "n < 16 \<Longrightarrow> n OR 0xE0 = 0xE0 + n" "n < 8 \<Longrightarrow> n OR 0xF0 = 0xF0 + n"
    "n < 4 \<Longrightarrow> n OR 0xF8 = 0xF8 + n" "n < 2 \<Longrightarrow> n OR 0xFC = 0xFC + n"
  using or_nat_disjoint [of n 6 2] or_nat_disjoint [of n 5 6] or_nat_disjoint [of n 4 14]
    or_nat_disjoint [of n 3 30] or_nat_disjoint [of n 2 62] or_nat_disjoint [of n 1 126]
  by (simp_all add: or.commute)

lemma to_char_int: "m < 256 \<Longrightarrow> to_char (int m) = char_of m"
  by (simp add: to_char_def nat_mod_distrib)

text \<open>A lead byte, or a continuation byte: \<open>b\<close> with low bits under the marker \<open>h\<close>.\<close>

lemma to_char_or:
  "(\<And>n. n < 2 ^ k \<Longrightarrow> n OR numeral h = numeral h + (n :: nat)) \<Longrightarrow> numeral m = (2 ^ k - 1 :: nat) \<Longrightarrow>
    numeral h + 2 ^ k \<le> (256 :: nat) \<Longrightarrow>
    to_char ((drop_bit j (int n) AND numeral m) OR numeral h) = char_of (numeral h + n div 2 ^ j mod 2 ^ k)"
proof -
  assume or: "\<And>n. n < 2 ^ k \<Longrightarrow> n OR numeral h = numeral h + (n :: nat)"
    and m: "numeral m = (2 ^ k - 1 :: nat)" and h: "numeral h + 2 ^ k \<le> (256 :: nat)"
  have "(drop_bit j (int n) AND numeral m) OR numeral h
      = int (numeral h + n div 2 ^ j mod 2 ^ k)"
    unfolding drop_bit_int_nat int_and_nat and_low [OF m] int_or_nat by (subst or) simp_all
  moreover have "n div 2 ^ j mod 2 ^ k < 2 ^ k"
    by simp
  then have "numeral h + n div 2 ^ j mod 2 ^ k < 256"
    using h by linarith
  ultimately show ?thesis
    by (simp only: to_char_int)
qed

text \<open>The bytes of a character, arithmetically.\<close>

definition tailb :: "nat \<Rightarrow> nat \<Rightarrow> char" where
  "tailb k n = char_of (0x80 + n div 2 ^ k mod 64)"

lemma tail_byte_int: "tail_byte k (int n) = tailb k n"
  unfolding tail_byte_def tailb_def using to_char_or [of 6] by (simp add: or_high)

lemma int_eq_mod: "int n = int (n mod m) \<longleftrightarrow> n < m" if "0 < m"
  using that by (metis mod_less mod_less_divisor of_nat_eq_iff)

lemma fits_iff:
  "int n = int n AND 0x7F \<longleftrightarrow> n < 2 ^ 7" "int n = int n AND 0x07FF \<longleftrightarrow> n < 2 ^ 11"
  "int n = int n AND 0xFFFF \<longleftrightarrow> n < 2 ^ 16" "int n = int n AND 0x1FFFFF \<longleftrightarrow> n < 2 ^ 21"
  "int n = int n AND 0x3FFFFFF \<longleftrightarrow> n < 2 ^ 26"
  unfolding int_and_nat low_bits by (rule int_eq_mod, simp)+

lemma or_high':
  "n < 2 ^ 5 \<Longrightarrow> n OR 0xC0 = 0xC0 + n" "n < 2 ^ 4 \<Longrightarrow> n OR 0xE0 = 0xE0 + n"
  "n < 2 ^ 3 \<Longrightarrow> n OR 0xF0 = 0xF0 + n" "n < 2 ^ 2 \<Longrightarrow> n OR 0xF8 = 0xF8 + n"
  "n < 2 ^ 1 \<Longrightarrow> n OR 0xFC = 0xFC + n" for n :: nat
  by (rule or_high, simp)+

lemma lead_byte:
  "to_char ((drop_bit j (int n) AND 0x1F) OR 0xC0) = char_of (0xC0 + n div 2 ^ j mod 2 ^ 5)"
  "to_char ((drop_bit j (int n) AND 0x0F) OR 0xE0) = char_of (0xE0 + n div 2 ^ j mod 2 ^ 4)"
  "to_char ((drop_bit j (int n) AND 0x07) OR 0xF0) = char_of (0xF0 + n div 2 ^ j mod 2 ^ 3)"
  "to_char ((drop_bit j (int n) AND 0x03) OR 0xF8) = char_of (0xF8 + n div 2 ^ j mod 2 ^ 2)"
  "to_char ((drop_bit j (int n) AND Numeral1) OR 0xFC) = char_of (0xFC + n div 2 ^ j mod 2 ^ 1)"
  by (rule to_char_or, (rule or_high', assumption), simp, simp)+

lemmas lead_byte_one = lead_byte(5) [unfolded numeral_One]

lemma fromu_char_bytes:
  "fromu_char (int n) =
     (if n < 2 ^ 7 then [char_of n]
      else if n < 2 ^ 11 then [char_of (0xC0 + n div 2 ^ 6 mod 2 ^ 5), tailb 0 n]
      else if n < 2 ^ 16 then [char_of (0xE0 + n div 2 ^ 12 mod 2 ^ 4), tailb 6 n, tailb 0 n]
      else if n < 2 ^ 21 then
        [char_of (0xF0 + n div 2 ^ 18 mod 2 ^ 3), tailb 12 n, tailb 6 n, tailb 0 n]
      else if n < 2 ^ 26 then
        [char_of (0xF8 + n div 2 ^ 24 mod 2 ^ 2), tailb 18 n, tailb 12 n, tailb 6 n, tailb 0 n]
      else
        [char_of (0xFC + n div 2 ^ 30 mod 2 ^ 1), tailb 24 n, tailb 18 n, tailb 12 n, tailb 6 n,
         tailb 0 n])"
  unfolding fromu_char_def fits_iff lead_byte(1-4) lead_byte_one tail_byte_int
  by (simp add: to_char_int)

text \<open>A marker above the low bits of a byte is read back with a mask above them.\<close>

lemma and_above:
  fixes n :: nat
  assumes "n < 2 ^ k"
  shows "(h * 2 ^ k + n) AND (m * 2 ^ k) = (h AND m) * 2 ^ k"
proof -
  have "(h * 2 ^ k + n) AND (m * 2 ^ k) = push_bit k (drop_bit k (h * 2 ^ k + n) AND m)"
    by (rule bit_eqI) (auto simp: bit_simps simp flip: push_bit_eq_mult)
  moreover have "drop_bit k (h * 2 ^ k + n) = h"
    using assms by (simp add: drop_bit_eq_div)
  ultimately show ?thesis by (simp add: push_bit_eq_mult)
qed

lemma below_mark:
  "(192 + n) mod 32 = n mod 32" "(224 + n) mod 16 = n mod 16" "(240 + n) mod 8 = n mod 8"
  "(248 + n) mod 4 = n mod 4" for n :: nat
  using mod_mult_self3 [of 6 32 n] mod_mult_self3 [of 14 16 n] mod_mult_self3 [of 30 8 n]
    mod_mult_self3 [of 62 4 n]
  by simp_all

lemma marks_C0:
  fixes n :: nat
  assumes "n < 2 ^ 5"
  shows "(0xC0 + n) AND 0x80 = 0x80" "(0xC0 + n) AND 0xE0 = 0xC0" "(0xC0 + n) AND 0x1F = n"
  using and_above [OF assms, of 6 4] and_above [OF assms, of 6 7] assms by (simp_all add: low_bits below_mark)

lemma marks_E0:
  fixes n :: nat
  assumes "n < 2 ^ 4"
  shows "(0xE0 + n) AND 0x80 = 0x80" "(0xE0 + n) AND 0xE0 = 0xE0" "(0xE0 + n) AND 0xF0 = 0xE0"
    "(0xE0 + n) AND 0x0F = n"
  using and_above [OF assms, of 14 8] and_above [OF assms, of 14 14] and_above [OF assms, of 14 15]
    assms by (simp_all add: low_bits below_mark)

lemma marks_F0:
  fixes n :: nat
  assumes "n < 2 ^ 3"
  shows "(0xF0 + n) AND 0x80 = 0x80" "(0xF0 + n) AND 0xE0 = 0xE0" "(0xF0 + n) AND 0xF0 = 0xF0"
    "(0xF0 + n) AND 0xF8 = 0xF0" "(0xF0 + n) AND 0x07 = n"
  using and_above [OF assms, of 30 16] and_above [OF assms, of 30 28] and_above [OF assms, of 30 30]
    and_above [OF assms, of 30 31] assms by (simp_all add: low_bits below_mark)

lemma marks_F8:
  fixes n :: nat
  assumes "n < 2 ^ 2"
  shows "(0xF8 + n) AND 0x80 = 0x80" "(0xF8 + n) AND 0xE0 = 0xE0" "(0xF8 + n) AND 0xF0 = 0xF0"
    "(0xF8 + n) AND 0xF8 = 0xF8" "(0xF8 + n) AND 0xFC = 0xF8" "(0xF8 + n) AND 0x03 = n"
  using and_above [OF assms, of 62 32] and_above [OF assms, of 62 56] and_above [OF assms, of 62 60]
    and_above [OF assms, of 62 62] and_above [OF assms, of 62 63] assms by (simp_all add: low_bits below_mark)

lemma marks_FC:
  fixes n :: nat
  assumes "n < 2 ^ 1"
  shows "(0xFC + n) AND 0x80 = 0x80" "(0xFC + n) AND 0xE0 = 0xE0" "(0xFC + n) AND 0xF0 = 0xF0"
    "(0xFC + n) AND 0xF8 = 0xF8" "(0xFC + n) AND 0xFC = 0xFC" "(0xFC + n) AND 0xFE = 0xFC"
    "(0xFC + n) AND 0x01 = n"
proof -
  have "n = 0 \<or> n = 1" using assms by auto
  then show "(0xFC + n) AND 0x80 = 0x80" "(0xFC + n) AND 0xE0 = 0xE0" "(0xFC + n) AND 0xF0 = 0xF0"
    "(0xFC + n) AND 0xF8 = 0xF8" "(0xFC + n) AND 0xFC = 0xFC" "(0xFC + n) AND 0xFE = 0xFC"
    "(0xFC + n) AND 0x01 = n"
    by auto
qed

lemma mark_ascii:
  fixes n :: nat
  assumes "n < 2 ^ 7"
  shows "n AND 0x80 = 0"
  using and_above [OF assms, of 0 1] by simp

lemma code_tailb: "code (tailb k n) = 0x80 + n div 2 ^ k mod 64"
  by (simp add: tailb_def)

lemma cont_tailb [simp]: "cont (tailb k n)"
  using and_above [of "n div 2 ^ k mod 64" 6 2 3] by (simp add: cont_def code_tailb)

lemma ushift_tailb: "ushift uc (tailb k n) = uc * 64 + n div 2 ^ k mod 64"
proof -
  have "code (tailb k n) AND 0x3F = n div 2 ^ k mod 64"
    by (simp add: code_tailb low_bits mod_add_eq [symmetric])
  then show ?thesis
    using push_bit_or_nat [of "n div 2 ^ k mod 64" 6 uc] by (simp add: ushift_def)
qed

lemmas utf8_marks = marks_C0 marks_E0 marks_F0 marks_F8 marks_FC mark_ascii

lemma radix64: "n div 2 ^ (k + 6) mod 2 ^ j * 64 + n div 2 ^ k mod 64 = n div 2 ^ k mod 2 ^ (j + 6)"
  for n :: nat
proof -
  have "n div 2 ^ k mod (64 * 2 ^ j) = 64 * (n div 2 ^ k div 64 mod 2 ^ j) + n div 2 ^ k mod 64"
    by (rule mod_mult2_eq)
  moreover have "n div 2 ^ k div 64 = n div 2 ^ (k + 6)"
    by (simp add: div_mult2_eq power_add)
  ultimately show ?thesis
    by (simp add: power_add mult.commute)
qed

lemma utf8_step_ascii: "n < 2 ^ 7 \<Longrightarrow> utf8_step (char_of n) r = Some (1, n)"
  by (simp add: utf8_step_def mark_ascii)

lemma conts_tailb:
  "conts 1 (tailb k n # r)" "conts 2 (tailb j n # tailb k n # r)"
  "conts 3 (tailb i n # tailb j n # tailb k n # r)"
  "conts 4 (tailb h n # tailb i n # tailb j n # tailb k n # r)"
  "conts 5 (tailb g n # tailb h n # tailb i n # tailb j n # tailb k n # r)"
  by (simp_all add: conts_def eval_nat_numeral)

lemma take_tails:
  "take 1 (a # r) = [a]" "take 2 (a # b # r) = [a, b]" "take 3 (a # b # c # r) = [a, b, c]"
  "take 4 (a # b # c # d # r) = [a, b, c, d]" "take 5 (a # b # c # d # e # r) = [a, b, c, d, e]"
  by (simp_all add: eval_nat_numeral)

lemmas utf8_step_rules = utf8_step_def conts_tailb take_tails ushift_tailb Let_def

lemma utf8_step_2:
  assumes "h < 2 ^ 5"
  shows "utf8_step (char_of (0xC0 + h)) (tailb k n # r) = Some (2, h * 64 + n div 2 ^ k mod 64)"
proof -
  have "code (char_of (0xC0 + h)) = 0xC0 + h" using assms by simp
  then show ?thesis
    unfolding utf8_step_def by (simp only: marks_C0 [OF assms] utf8_step_rules) (simp add: ushift_tailb)
qed

lemma utf8_step_3:
  assumes "h < 2 ^ 4"
  shows "utf8_step (char_of (0xE0 + h)) (tailb j n # tailb k n # r)
    = Some (3, (h * 64 + n div 2 ^ j mod 64) * 64 + n div 2 ^ k mod 64)"
proof -
  have "code (char_of (0xE0 + h)) = 0xE0 + h" using assms by simp
  then show ?thesis
    unfolding utf8_step_def by (simp only: marks_E0 [OF assms] utf8_step_rules) (simp add: ushift_tailb)
qed

lemma utf8_step_4:
  assumes "h < 2 ^ 3"
  shows "utf8_step (char_of (0xF0 + h)) (tailb i n # tailb j n # tailb k n # r)
    = Some (4, ((h * 64 + n div 2 ^ i mod 64) * 64 + n div 2 ^ j mod 64) * 64 + n div 2 ^ k mod 64)"
proof -
  have "code (char_of (0xF0 + h)) = 0xF0 + h" using assms by simp
  then show ?thesis
    unfolding utf8_step_def by (simp only: marks_F0 [OF assms] utf8_step_rules) (simp add: ushift_tailb)
qed

lemma utf8_step_5:
  assumes "h < 2 ^ 2"
  shows "utf8_step (char_of (0xF8 + h)) (tailb g n # tailb i n # tailb j n # tailb k n # r)
    = Some (5, (((h * 64 + n div 2 ^ g mod 64) * 64 + n div 2 ^ i mod 64) * 64 + n div 2 ^ j mod 64) * 64
        + n div 2 ^ k mod 64)"
proof -
  have "code (char_of (0xF8 + h)) = 0xF8 + h" using assms by simp
  then show ?thesis
    unfolding utf8_step_def by (simp only: marks_F8 [OF assms] utf8_step_rules) (simp add: ushift_tailb)
qed

lemma utf8_step_6:
  assumes "h < 2 ^ 1"
  shows "utf8_step (char_of (0xFC + h)) (tailb f n # tailb g n # tailb i n # tailb j n # tailb k n # r)
    = Some (6, ((((h * 64 + n div 2 ^ f mod 64) * 64 + n div 2 ^ g mod 64) * 64
        + n div 2 ^ i mod 64) * 64 + n div 2 ^ j mod 64) * 64 + n div 2 ^ k mod 64)"
proof -
  have "code (char_of (0xFC + h)) = 0xFC + h" using assms by simp
  then show ?thesis
    unfolding utf8_step_def by (simp only: marks_FC [OF assms] utf8_step_rules) (simp add: ushift_tailb)
qed

lemma radix64_at:
  "k' = k + 6 \<Longrightarrow> j' = j + 6 \<Longrightarrow>
    n div 2 ^ k' mod 2 ^ j * 64 + n div 2 ^ k mod 64 = n div 2 ^ k mod 2 ^ j'" for n :: nat
  by (simp only: radix64)

lemma radix64_num:
  fixes n :: nat
  shows
  "n div 2 ^ 6 mod 2 ^ 5 * 64 + n div 2 ^ 0 mod 64 = n div 2 ^ 0 mod 2 ^ 11"
  "n div 2 ^ 6 mod 2 ^ 10 * 64 + n div 2 ^ 0 mod 64 = n div 2 ^ 0 mod 2 ^ 16"
  "n div 2 ^ 6 mod 2 ^ 15 * 64 + n div 2 ^ 0 mod 64 = n div 2 ^ 0 mod 2 ^ 21"
  "n div 2 ^ 6 mod 2 ^ 20 * 64 + n div 2 ^ 0 mod 64 = n div 2 ^ 0 mod 2 ^ 26"
  "n div 2 ^ 6 mod 2 ^ 25 * 64 + n div 2 ^ 0 mod 64 = n div 2 ^ 0 mod 2 ^ 31"
  "n div 2 ^ 12 mod 2 ^ 4 * 64 + n div 2 ^ 6 mod 64 = n div 2 ^ 6 mod 2 ^ 10"
  "n div 2 ^ 12 mod 2 ^ 9 * 64 + n div 2 ^ 6 mod 64 = n div 2 ^ 6 mod 2 ^ 15"
  "n div 2 ^ 12 mod 2 ^ 14 * 64 + n div 2 ^ 6 mod 64 = n div 2 ^ 6 mod 2 ^ 20"
  "n div 2 ^ 12 mod 2 ^ 19 * 64 + n div 2 ^ 6 mod 64 = n div 2 ^ 6 mod 2 ^ 25"
  "n div 2 ^ 18 mod 2 ^ 3 * 64 + n div 2 ^ 12 mod 64 = n div 2 ^ 12 mod 2 ^ 9"
  "n div 2 ^ 18 mod 2 ^ 8 * 64 + n div 2 ^ 12 mod 64 = n div 2 ^ 12 mod 2 ^ 14"
  "n div 2 ^ 18 mod 2 ^ 13 * 64 + n div 2 ^ 12 mod 64 = n div 2 ^ 12 mod 2 ^ 19"
  "n div 2 ^ 24 mod 2 ^ 2 * 64 + n div 2 ^ 18 mod 64 = n div 2 ^ 18 mod 2 ^ 8"
  "n div 2 ^ 24 mod 2 ^ 7 * 64 + n div 2 ^ 18 mod 64 = n div 2 ^ 18 mod 2 ^ 13"
  "n div 2 ^ 30 mod 2 ^ 1 * 64 + n div 2 ^ 24 mod 64 = n div 2 ^ 24 mod 2 ^ 7"
  by (rule radix64_at, simp, simp)+

lemma utf8_step_char:
  assumes "n < 2 ^ 31"
  shows "\<exists>c s. fromu_char (int n) = c # s \<and> utf8_step c (s @ r) = Some (length s + 1, n)"
proof -
  have low: "n < 2 ^ k \<Longrightarrow> n div 2 ^ 0 mod 2 ^ k = n" for k
    by simp
  have mods: "n div 2 ^ 6 mod 2 ^ 5 < 2 ^ 5" "n div 2 ^ 12 mod 2 ^ 4 < 2 ^ 4"
    "n div 2 ^ 18 mod 2 ^ 3 < 2 ^ 3" "n div 2 ^ 24 mod 2 ^ 2 < 2 ^ 2" "n div 2 ^ 30 mod 2 ^ 1 < 2 ^ 1"
    by simp_all
  note steps = utf8_step_2 [OF mods(1), of 0 n r] utf8_step_3 [OF mods(2), of 6 n 0 r]
    utf8_step_4 [OF mods(3), of 12 n 6 0 r] utf8_step_5 [OF mods(4), of 18 n 12 6 0 r]
    utf8_step_6 [OF mods(5), of 24 n 18 12 6 0 r]
  consider "n < 2 ^ 7" | "\<not> n < 2 ^ 7" "n < 2 ^ 11" | "\<not> n < 2 ^ 7" "\<not> n < 2 ^ 11" "n < 2 ^ 16"
    | "\<not> n < 2 ^ 7" "\<not> n < 2 ^ 11" "\<not> n < 2 ^ 16" "n < 2 ^ 21"
    | "\<not> n < 2 ^ 7" "\<not> n < 2 ^ 11" "\<not> n < 2 ^ 16" "\<not> n < 2 ^ 21" "n < 2 ^ 26"
    | "\<not> n < 2 ^ 7" "\<not> n < 2 ^ 11" "\<not> n < 2 ^ 16" "\<not> n < 2 ^ 21" "\<not> n < 2 ^ 26"
    by argo
  then show ?thesis
  proof cases
    case 1
    then show ?thesis by (simp add: fromu_char_bytes utf8_step_ascii del: power_numeral_even)
  qed (unfold fromu_char_bytes, simp_all only: if_True if_False,
      (intro exI conjI, rule refl, simp only: append_Cons append_Nil steps radix64_num low assms, simp)+)
qed

lemma tou_fromu:
  "list_all (\<lambda>u. 0 < u \<and> u < 2 ^ 31) us \<Longrightarrow>
    tou_fill (unicode_utf8_fromu us) = us \<and>
    tou_count strict l m (unicode_utf8_fromu us) = Inr (m + length us)"
proof (induction us arbitrary: l m)
  case (Cons u us)
  then have u: "u = int (nat u)" "nat u < 2 ^ 31"
    by auto
  obtain c s where s: "fromu_char u = c # s"
    "utf8_step c (s @ unicode_utf8_fromu us) = Some (length s + 1, nat u)"
    using utf8_step_char [OF u(2)] u(1) by metis
  have "unicode_utf8_fromu (u # us) = c # (s @ unicode_utf8_fromu us)"
    by (simp add: unicode_utf8_fromu_def case_prod_unfold s(1))
  then show ?case
    using Cons s(2) u(1) by simp
qed (simp add: unicode_utf8_fromu_def)

text \<open>
  C26. UTF-8 round trip: for every array of characters from 1 to 2 ^ 31 - 1 (the whole range
  of the 6 byte encoding, surrogates included), \<open>unicode_utf8_tou\<close> of what
  \<open>unicode_utf8_fromu\<close> wrote gives the array back without reporting an error.
\<close>

theorem utf8_roundtrip:
  assumes "list_all (\<lambda>u. 0 < u \<and> u < 2 ^ 31) us"
  shows "unicode_utf8_tou ip (unicode_utf8_fromu us) = Inr us"
  using tou_fromu [OF assms] by (simp add: unicode_utf8_tou_def)

theorem utf8_roundtrip_witness:
  "unicode_utf8_tou True (unicode_utf8_fromu [0x24, 0xA2, 0x20AC, 0x10348, 0x3FFFFFF, 0x7FFFFFFF])
    = Inr [0x24, 0xA2, 0x20AC, 0x10348, 0x3FFFFFF, 0x7FFFFFFF]"
  by (rule utf8_roundtrip) simp

interpretation utf8: codec unicode_utf8_fromu
    "\<lambda>s. case unicode_utf8_tou True s of Inl _ \<Rightarrow> None | Inr us \<Rightarrow> Some us"
    "list_all (\<lambda>u. 0 < u \<and> u < 2 ^ 31)"
  by unfold_locales (simp add: tou_fromu unicode_utf8_tou_def)

lemma utf8_injective:
  "list_all (\<lambda>u. 0 < u \<and> u < 2 ^ 31) us \<Longrightarrow> list_all (\<lambda>u. 0 < u \<and> u < 2 ^ 31) vs \<Longrightarrow>
    unicode_utf8_fromu us = unicode_utf8_fromu vs \<longleftrightarrow> us = vs"
  by (rule utf8.enc_inject)

end
