(* ===== verification/Utf7imap.thy ===== *)
theory Utf7imap
  imports Utf8
begin

text \<open>
  Modified UTF-7, the encoding of IMAP folder names (\<^verbatim>\<open>unicode/utf7imap.c\<close>). Runs of special
  characters are written as 16 bit units in a base 64 of their own. The encoder keeps the bits
  it has not written yet in \<open>bits\<close> and \<open>bitcount\<close>, the decoder in \<open>uu\<close> and \<open>bitcount\<close> (where
  only the low \<open>bitcount\<close> bits of \<open>uu\<close> count).
\<close>

subsection \<open>The alphabet\<close>

definition mbase64 :: string where
  "mbase64 = ''ABCDEFGHIJKLMNOPQRSTUVWXYZabcdefghijklmnopqrstuvwxyz0123456789+,''"

text \<open>The lookup table: the index in the alphabet, \<open>None\<close> for the entries that stay -1.\<close>

definition mbase64_lookup :: "char \<Rightarrow> nat option" where
  "mbase64_lookup c =
     (let i = length (takeWhile (\<lambda>d. d \<noteq> c) mbase64) in if i < length mbase64 then Some i else None)"

subsection \<open>Decoding\<close>

text \<open>
  \<open>modutf7_plain\<close> is the outer loop at offset \<open>l\<close>, \<open>modutf7_run\<close> the loop over a base 64 run up
  to its \<^verbatim>\<open>-\<close>. The result is the offset stored in \<^verbatim>\<open>*err\<close> or the characters.
\<close>

fun modutf7_plain :: "nat \<Rightarrow> string \<Rightarrow> nat + unicode_char list"
and modutf7_run :: "nat \<Rightarrow> nat \<Rightarrow> nat \<Rightarrow> string \<Rightarrow> nat + unicode_char list" where
  "modutf7_plain l [] = Inr []"
| "modutf7_plain l (c # s) =
     (if schar c < 0x20 \<or> schar c \<ge> 0x7F then Inl l
      else if c \<noteq> CHR ''&'' then map_sum id (\<lambda>us. int (code c) # us) (modutf7_plain (l + 1) s)
      else if s \<noteq> [] \<and> hd s = CHR ''-''
      then map_sum id (\<lambda>us. int (code CHR ''&'') # us) (modutf7_plain (l + 2) (tl s))
      else modutf7_run (l + 1) 0 0 s)"
| "modutf7_run l uu bitcount [] = Inl l"
| "modutf7_run l uu bitcount (c # s) =
     (if c = CHR ''-'' then modutf7_plain (l + 1) s
      else case mbase64_lookup c of
        None \<Rightarrow> Inl l
      | Some bits \<Rightarrow>
          if bitcount + 6 \<ge> 16
          then
            let n = bitcount + 6 - 16;
                uc = (push_bit (6 - n) uu OR drop_bit n bits) AND 0xFFFF
            in map_sum id (\<lambda>us. int uc # us) (modutf7_run (l + 1) bits n s)
          else modutf7_run (l + 1) (push_bit 6 uu OR bits) (bitcount + 6) s)"

definition unicode_modutf7touc :: "string \<Rightarrow> nat + unicode_char list" where
  "unicode_modutf7touc s = modutf7_plain 0 s"

subsection \<open>Encoding\<close>

definition is_special :: "unicode_char \<Rightarrow> unicode_char list \<Rightarrow> bool" where
  "is_special uc specials \<longleftrightarrow> uc \<in> set specials \<or> uc < 0x20 \<or> uc \<ge> 0x7F"

text \<open>
  The loop over the 16 bits of one unit: the indices into the alphabet it writes and the bits
  left. \<open>bitcount\<close> is below 6 in every call the encoder makes.
\<close>

function enc_unit :: "nat \<Rightarrow> nat \<Rightarrow> nat \<Rightarrow> nat \<Rightarrow> nat list \<times> nat \<times> nat" where
  "enc_unit bits bitcount uu counter =
     (if counter = 0 \<or> bitcount \<ge> 6 then ([], bits, bitcount)
      else if counter + bitcount < 6
      then ([], push_bit counter bits OR drop_bit (16 - counter) uu, bitcount + counter)
      else
        let x = 6 - bitcount;
            bits = push_bit x bits OR drop_bit (16 - x) uu
        in apfst (\<lambda>out. bits # out) (enc_unit 0 0 (push_bit x uu AND 0xFFFF) (counter - x)))"
  by pat_completeness auto
termination by (relation "measure (\<lambda>(b, c, u, n). n)") auto

declare enc_unit.simps [simp del]

text \<open>The loop over a run of special characters, with the leftovers written at its end.\<close>

fun enc_run :: "nat \<Rightarrow> nat \<Rightarrow> unicode_char list \<Rightarrow> nat list" where
  "enc_run bits bitcount [] = (if bitcount \<noteq> 0 then [push_bit (6 - bitcount) bits] else [])"
| "enc_run bits bitcount (uc # us) =
     (let uu = nat (uc AND 0xFFFF);
          uu = (if uu = 0 then 0xFFFD else uu)
      in case enc_unit bits bitcount uu 16 of (out, bits, bitcount) \<Rightarrow>
           out @ enc_run bits bitcount us)"

text \<open>One pass: what it writes when it has a buffer, and its count with the terminator.\<close>

function uctoutf7_pass ::
    "unicode_char list \<Rightarrow> unicode_char list \<Rightarrow> bool \<Rightarrow> string \<times> nat" where
  "uctoutf7_pass [] specials p = ([], 1)"
| "uctoutf7_pass (uc # us) specials p =
     (if \<not> is_special uc specials then
        (case uctoutf7_pass us specials p of (s, n) \<Rightarrow>
           (if p then to_char uc # (if uc = int (code CHR ''&'') then ''-'' else []) @ s else s,
            (if uc = int (code CHR ''&'') then n + 2 else n + 1)))
      else
        let run = takeWhile (\<lambda>uc. is_special uc specials) (uc # us);
            out = enc_run 0 0 run
        in case uctoutf7_pass (dropWhile (\<lambda>uc. is_special uc specials) us) specials p of (s, n) \<Rightarrow>
             (if p then CHR ''&'' # map (\<lambda>b. mbase64 ! b) out @ CHR ''-'' # s else s,
              n + length out + 2))"
  by pat_completeness auto
termination by (relation "measure (\<lambda>(us, specials, p). length us)")
    (auto simp: length_dropWhile_le le_imp_less_Suc)

definition unicode_uctomodutf7x :: "unicode_char list \<Rightarrow> unicode_char list \<Rightarrow> string" where
  "unicode_uctomodutf7x p specials = fst (uctoutf7_pass p specials True)"

definition unicode_uctomodutf7 :: "unicode_char list \<Rightarrow> string" where
  "unicode_uctomodutf7 p = unicode_uctomodutf7x p []"

subsection \<open>Numbers written in base 64 and base 2 ^ 16\<close>

definition hor :: "nat \<Rightarrow> nat \<Rightarrow> nat list \<Rightarrow> nat" where
  "hor b v ds = foldl (\<lambda>v d. v * b + d) v ds"

lemma hor_simps [simp]:
  "hor b v [] = v" "hor b v (d # ds) = hor b (v * b + d) ds" "hor b v (ds @ es) = hor b (hor b v ds) es"
  by (simp_all add: hor_def)

lemma hor_shift: "hor b v ds = v * b ^ length ds + hor b 0 ds"
proof (induction ds arbitrary: v)
  case (Cons d ds)
  show ?case
    using Cons [of "v * b + d"] Cons [of d] by (simp add: algebra_simps)
qed simp

lemma hor_bound: "list_all (\<lambda>d. d < b) ds \<Longrightarrow> hor b 0 ds < b ^ length ds"
proof (induction ds rule: rev_induct)
  case (snoc d ds)
  then have "hor b 0 ds + 1 \<le> b ^ length ds" "d < b" by auto
  then have "(hor b 0 ds + 1) * b \<le> b ^ length ds * b"
    by (intro mult_le_mono1)
  with \<open>d < b\<close> show ?case by (simp add: algebra_simps)
qed simp

lemma hor_inject:
  "length ds = length es \<Longrightarrow> list_all (\<lambda>d. d < b) ds \<Longrightarrow> list_all (\<lambda>d. d < b) es \<Longrightarrow>
    hor b 0 ds = hor b 0 es \<Longrightarrow> ds = es"
proof (induction ds arbitrary: es rule: rev_induct)
  case (snoc d ds)
  then obtain e es' where es: "es = es' @ [e]"
    by (cases es rule: rev_cases) auto
  from snoc.prems es have "hor b 0 ds * b + d = hor b 0 es' * b + e" "d < b" "e < b"
    by auto
  then have "hor b 0 ds = hor b 0 es'" "d = e"
    by (metis add.commute div_mult_self1_is_m div_mult_self3 div_less add.right_neutral
        less_nat_zero_code neq0_conv) (metis mod_less mod_mult_self3 \<open>hor b 0 ds * b + d = _\<close> \<open>d < b\<close> \<open>e < b\<close>)
  with snoc es show ?case by auto
qed simp

subsection \<open>The encoder's bit buffer\<close>

lemma split_bits:
  fixes u :: nat
  assumes "u < 2 ^ 16" "x \<le> k" "k \<le> 16"
  shows "u div 2 ^ (16 - x) * 2 ^ (k - x) + push_bit x u mod 2 ^ 16 div 2 ^ (16 - (k - x))
    = u div 2 ^ (16 - k)"
proof -
  define q r where "q = u div 2 ^ (16 - x)" and "r = u mod 2 ^ (16 - x)"
  have u: "u = q * 2 ^ (16 - x) + r" "r < 2 ^ (16 - x)"
    unfolding q_def r_def by (rule div_mult_mod_eq [symmetric], rule mod_less_divisor) simp
  have p16: "2 ^ (16 - x) * 2 ^ x = (2 :: nat) ^ 16"
    using assms by (simp flip: power_add)
  have "push_bit x u = q * 2 ^ 16 + r * 2 ^ x"
    using p16 by (simp add: push_bit_eq_mult u(1) algebra_simps)
  moreover have "r * 2 ^ x < 2 ^ 16"
    using u(2) p16 by (metis mult_less_mono1 zero_less_numeral zero_less_power)
  ultimately have "push_bit x u mod 2 ^ 16 = r * 2 ^ x"
    by simp
  moreover have "16 - (k - x) = x + (16 - k)"
    using assms by simp
  then have "r * 2 ^ x div 2 ^ (16 - (k - x)) = r div 2 ^ (16 - k)"
    by (simp add: power_add div_mult2_eq)
  moreover have "(2 :: nat) ^ (16 - x) = 2 ^ (16 - k) * 2 ^ (k - x)"
    using assms by (simp flip: power_add)
  then have "u = r + q * 2 ^ (k - x) * 2 ^ (16 - k)"
    using u(1) by (simp add: mult.assoc mult.commute add.commute)
  then have "u div 2 ^ (16 - k) = q * 2 ^ (k - x) + r div 2 ^ (16 - k)"
    by (simp only: div_mult_self1 power_not_zero zero_neq_numeral [symmetric] not_False_eq_True)
  ultimately show ?thesis
    by (simp add: q_def)
qed

lemma drop_bits_bound: "u < 2 ^ 16 \<Longrightarrow> x \<le> 16 \<Longrightarrow> drop_bit (16 - x) u < 2 ^ x" for u :: nat
  by (simp add: drop_bit_eq_div less_mult_imp_div_less flip: power_add)

lemma enc_unit_value:
  "enc_unit bits bc u k = (out, bits', bc') \<Longrightarrow> bits < 2 ^ bc \<Longrightarrow> bc < 6 \<Longrightarrow> u < 2 ^ 16 \<Longrightarrow> k \<le> 16 \<Longrightarrow>
    bits' < 2 ^ bc' \<and> bc' < 6 \<and> list_all (\<lambda>d. d < 64) out \<and> 6 * length out + bc' = bc + k \<and>
    hor 64 v out * 2 ^ bc' + bits' = (v * 2 ^ bc + bits) * 2 ^ k + u div 2 ^ (16 - k)"
proof (induction bits bc u k arbitrary: out v rule: enc_unit.induct)
  case (1 bits bc u k)
  consider "k = 0" | "k \<noteq> 0" "k + bc < 6" | "k \<noteq> 0" "\<not> k + bc < 6"
    by blast
  then show ?case
  proof cases
    case 1
    with "1.prems" show ?thesis by (simp add: enc_unit.simps)
  next
    case 2
    then have out: "out = []" "bits' = push_bit k bits OR drop_bit (16 - k) u" "bc' = bc + k"
      using "1.prems" by (simp_all add: enc_unit.simps)
    have d: "drop_bit (16 - k) u < 2 ^ k"
      using drop_bits_bound "1.prems" by simp
    then have b: "bits' = bits * 2 ^ k + u div 2 ^ (16 - k)"
      using out(2) push_bit_or_nat by (simp add: drop_bit_eq_div)
    have "bits * 2 ^ k + drop_bit (16 - k) u < (bits + 1) * 2 ^ k"
      using d by simp
    also have "\<dots> \<le> 2 ^ bc * 2 ^ k"
      using "1.prems"(2) by (intro mult_le_mono1) simp
    finally show ?thesis
      using 2 b out by (simp add: drop_bit_eq_div power_add algebra_simps)
  next
    case 3
    define x where "x = 6 - bc"
    define e where "e = push_bit x bits OR drop_bit (16 - x) u"
    define u' where "u' = push_bit x u AND 0xFFFF"
    have x: "x \<le> k" "bc + x = 6" "x \<le> 16"
      using 3 "1.prems" by (simp_all add: x_def)
    have u': "u' = push_bit x u mod 2 ^ 16"
      unfolding u'_def by (simp add: low_bits)
    then have u'_less: "push_bit x u AND 0xFFFF < 65536" "k - x \<le> 16"
      using "1.prems"(5) by (simp_all add: u'_def)
    obtain out' where rec: "enc_unit 0 0 u' (k - x) = (out', bits', bc')" "out = e # out'"
      using "1.prems" 3 by (auto simp: enc_unit.simps [of bits] Let_def apfst_def map_prod_def
          x_def e_def u'_def split: prod.splits)
    have d: "drop_bit (16 - x) u < 2 ^ x"
      using drop_bits_bound "1.prems"(4) x(3) by simp
    then have e: "e = bits * 2 ^ x + u div 2 ^ (16 - x)"
      unfolding e_def using push_bit_or_nat by (simp add: drop_bit_eq_div)
    have "bits * 2 ^ x + drop_bit (16 - x) u < (bits + 1) * 2 ^ x"
      using d by simp
    also have "\<dots> \<le> 2 ^ bc * 2 ^ x"
      using "1.prems"(2) by (intro mult_le_mono1) simp
    finally have e64: "e < 64"
      using x(2) by (simp add: e drop_bit_eq_div flip: power_add)
    have IH: "bits' < 2 ^ bc' \<and> bc' < 6 \<and> list_all (\<lambda>d. d < 64) out' \<and> 6 * length out' + bc' = k - x \<and>
        hor 64 (v * 64 + e) out' * 2 ^ bc' + bits' = (v * 64 + e) * 2 ^ (k - x) + u' div 2 ^ (16 - (k - x))"
      using "1.IH" [of x e out' "v * 64 + e"] 3 "1.prems" rec(1) u'_less
      by (simp add: x_def e_def u'_def)
    have "(v * 64 + e) * 2 ^ (k - x) + u' div 2 ^ (16 - (k - x))
        = (v * 64 + bits * 2 ^ x) * 2 ^ (k - x)
          + (u div 2 ^ (16 - x) * 2 ^ (k - x) + push_bit x u mod 2 ^ 16 div 2 ^ (16 - (k - x)))"
      by (simp add: e u' algebra_simps)
    also have "\<dots> = (v * 2 ^ bc + bits) * 2 ^ x * 2 ^ (k - x) + u div 2 ^ (16 - k)"
      using split_bits [of u x k] "1.prems"(4,5) x
      by (simp add: algebra_simps flip: power_add)
    also have "\<dots> = (v * 2 ^ bc + bits) * 2 ^ k + u div 2 ^ (16 - k)"
      using x(1) by (simp add: mult.assoc flip: power_add)
    finally show ?thesis
      using IH e64 rec(2) x by auto
  qed
qed

text \<open>The 16 bit value of a character.\<close>

definition unit16 :: "unicode_char \<Rightarrow> nat" where
  "unit16 uc = (let uu = nat (uc AND 0xFFFF) in if uu = 0 then 0xFFFD else uu)"

lemma unit16_less: "unit16 uc < 2 ^ 16"
proof -
  have "uc AND 0xFFFF \<le> 0xFFFF"
    by (simp add: and.commute [of uc] AND_upper1)
  then have "nat (uc AND 0xFFFF) \<le> 0xFFFF" by (simp add: nat_le_iff)
  then show ?thesis by (simp add: unit16_def Let_def)
qed

lemma unit16_id: "0 < uc \<Longrightarrow> uc < 2 ^ 16 \<Longrightarrow> unit16 uc = nat uc"
proof -
  assume "0 < uc" "uc < 2 ^ 16"
  then obtain n where "uc = int n" "0 < n" "n < 2 ^ 16"
    by (metis nat_less_numeral_power_cancel_iff int_nat_eq less_imp_le of_nat_0_less_iff)
  then show ?thesis
    by (simp add: unit16_def int_and_nat low_bits)
qed

lemma enc_run_Cons:
  "enc_run bits bc (uc # us) =
     (case enc_unit bits bc (unit16 uc) 16 of (out, bits, bc) \<Rightarrow> out @ enc_run bits bc us)"
  by (simp add: unit16_def Let_def)

declare enc_run.simps(2) [simp del]

text \<open>What a run writes: the units as one number, padded on the right with \<open>pad\<close> zero bits.\<close>

lemma enc_run_value:
  "bits < 2 ^ bc \<Longrightarrow> bc < 6 \<Longrightarrow> enc_run bits bc us = out \<Longrightarrow>
    list_all (\<lambda>d. d < 64) out \<and>
    (\<exists>pad < 6. 6 * length out = bc + 16 * length us + pad \<and>
      hor 64 v out = hor (2 ^ 16) (v * 2 ^ bc + bits) (map unit16 us) * 2 ^ pad)"
proof (induction us arbitrary: bits bc out v)
  case Nil
  show ?case
  proof (cases "bc = 0")
    case True
    with Nil show ?thesis by auto
  next
    case False
    have p: "2 ^ bc * 2 ^ (6 - bc) = (64 :: nat)"
      using Nil.prems(2) by (simp flip: power_add)
    have "bits * 2 ^ (6 - bc) < 2 ^ bc * 2 ^ (6 - bc)"
      using Nil.prems(1) by simp
    with False Nil.prems p show ?thesis
      by (auto simp: push_bit_eq_mult algebra_simps intro!: exI [of _ "6 - bc"])
  qed
next
  case (Cons uc us)
  obtain out1 bits' bc' where unit: "enc_unit bits bc (unit16 uc) 16 = (out1, bits', bc')"
    by (metis prod.collapse)
  define out2 where "out2 = enc_run bits' bc' us"
  have out: "out = out1 @ out2"
    using Cons.prems(3) unit by (simp add: enc_run_Cons out2_def)
  have step: "bits' < 2 ^ bc'" "bc' < 6" "list_all (\<lambda>d. d < 64) out1" "6 * length out1 + bc' = bc + 16"
    "hor 64 v out1 * 2 ^ bc' + bits' = (v * 2 ^ bc + bits) * 2 ^ 16 + unit16 uc"
    using enc_unit_value [OF unit Cons.prems(1,2) unit16_less, of v] by simp_all
  from Cons.IH [OF step(1,2) out2_def [symmetric], of "hor 64 v out1"] obtain pad where
    "list_all (\<lambda>d. d < 64) out2" "pad < 6" "6 * length out2 = bc' + 16 * length us + pad"
    "hor 64 (hor 64 v out1) out2 = hor (2 ^ 16) (hor 64 v out1 * 2 ^ bc' + bits') (map unit16 us) * 2 ^ pad"
    by blast
  with step out show ?case
    by (auto intro!: exI [of _ pad])
qed

subsection \<open>The decoder's bit buffer\<close>

text \<open>What the loop over a run stores for the indices \<open>ds\<close>.\<close>

fun dec_sext :: "nat \<Rightarrow> nat \<Rightarrow> nat list \<Rightarrow> nat list" where
  "dec_sext uu bc [] = []"
| "dec_sext uu bc (bits # ds) =
     (if bc + 6 \<ge> 16
      then ((push_bit (6 - (bc - 10)) uu OR drop_bit (bc - 10) bits) AND 0xFFFF) # dec_sext bits (bc - 10) ds
      else dec_sext (push_bit 6 uu OR bits) (bc + 6) ds)"

lemma dec_emit:
  fixes bits bc uu :: nat
  assumes "bits < 64" "10 \<le> bc" "bc < 16"
  defines "n \<equiv> bc - 10"
  shows "(push_bit (6 - n) uu OR drop_bit n bits) AND 0xFFFF = uu mod 2 ^ bc * 2 ^ (6 - n) + bits div 2 ^ n"
    "uu mod 2 ^ bc * 2 ^ (6 - n) + bits div 2 ^ n < 2 ^ 16"
proof -
  have n: "n \<le> 6" "bc + (6 - n) = 16"
    using assms by auto
  have b: "bits div 2 ^ n < 2 ^ (6 - n)"
    using assms(1) n(1) by (simp add: less_mult_imp_div_less flip: power_add)
  have p: "(2 :: nat) ^ 16 = 2 ^ (6 - n) * 2 ^ bc"
    using n(2) by (simp add: add.commute flip: power_add)
  have "(uu * 2 ^ (6 - n) + bits div 2 ^ n) mod (2 ^ (6 - n) * 2 ^ bc)
      = 2 ^ (6 - n) * (uu mod 2 ^ bc) + bits div 2 ^ n"
    using b mod_mult2_eq [of "uu * 2 ^ (6 - n) + bits div 2 ^ n" "2 ^ (6 - n)" "2 ^ bc"]
    by simp
  then show eq: "(push_bit (6 - n) uu OR drop_bit n bits) AND 0xFFFF
      = uu mod 2 ^ bc * 2 ^ (6 - n) + bits div 2 ^ n"
    using push_bit_or_nat [OF b, of uu] by (simp only: low_bits drop_bit_eq_div p mult.commute)
  have "(push_bit (6 - n) uu OR drop_bit n bits) AND 0xFFFF < 2 ^ 16"
    by (simp only: low_bits) simp
  then show "uu mod 2 ^ bc * 2 ^ (6 - n) + bits div 2 ^ n < 2 ^ 16"
    by (simp only: eq)
qed

lemma dec_sext_value:
  "bc < 16 \<Longrightarrow> list_all (\<lambda>d. d < 64) ds \<Longrightarrow>
    list_all (\<lambda>d. d < 2 ^ 16) (dec_sext uu bc ds) \<and>
    (\<exists>bc' lo. bc' < 16 \<and> lo < 2 ^ bc' \<and> 16 * length (dec_sext uu bc ds) + bc' = bc + 6 * length ds \<and>
      hor (2 ^ 16) w (dec_sext uu bc ds) * 2 ^ bc' + lo = hor 64 (w * 2 ^ bc + uu mod 2 ^ bc) ds)"
proof (induction uu bc ds arbitrary: w rule: dec_sext.induct)
  case (1 uu bc)
  then show ?case
    by (simp, intro exI [of _ bc] exI [of _ "uu mod 2 ^ bc"]) simp
next
  case (2 uu bc bits ds)
  then have bits: "bits < 64" "list_all (\<lambda>d. d < 64) ds" by auto
  show ?case
  proof (cases "bc + 6 \<ge> 16")
    case True
    define n where "n = bc - 10"
    define e where "e = uu mod 2 ^ bc * 2 ^ (6 - n) + bits div 2 ^ n"
    have dec: "dec_sext uu bc (bits # ds) = e # dec_sext bits n ds" "e < 2 ^ 16"
      using True dec_emit [of bits bc uu] bits "2.prems"(1) by (simp_all add: n_def e_def)
    have n: "n < 16" "n \<le> 6" "bc = 10 + n"
      using True "2.prems"(1) by (simp_all add: n_def)
    have "2 ^ (6 - n) * 2 ^ n = (2 :: nat) ^ 6" "(2 :: nat) ^ 16 * 2 ^ n = 2 ^ bc * 64"
      using n by (auto simp: power_add simp flip: power_add [of _ "6 - n"])
    then have "m * 2 ^ (6 - n) * 2 ^ n = m * 64" "w * 2 ^ 16 * 2 ^ n = w * 2 ^ bc * 64" for m :: nat
      by (simp_all add: mult.assoc)
    then have "(w * 2 ^ 16 + e) * 2 ^ n + bits mod 2 ^ n = (w * 2 ^ bc + uu mod 2 ^ bc) * 64 + bits"
      using div_mult_mod_eq [of bits "2 ^ n"]
      by (simp only: e_def distrib_right)
    moreover obtain bc' lo where "list_all (\<lambda>d. d < 2 ^ 16) (dec_sext bits n ds)" "bc' < 16" "lo < 2 ^ bc'"
      "16 * length (dec_sext bits n ds) + bc' = n + 6 * length ds"
      "hor (2 ^ 16) (w * 2 ^ 16 + e) (dec_sext bits n ds) * 2 ^ bc' + lo
        = hor 64 ((w * 2 ^ 16 + e) * 2 ^ n + bits mod 2 ^ n) ds"
      using "2.IH"(1) [OF True, of "w * 2 ^ 16 + e", folded n_def] n(1) bits(2) by blast
    ultimately show ?thesis
      unfolding dec(1) using dec(2) n(3) by (intro conjI exI [of _ bc'] exI [of _ lo]) auto
  next
    case False
    have "(uu * 64 + bits) mod (64 * 2 ^ bc) = 64 * (uu mod 2 ^ bc) + bits"
      using bits mod_mult2_eq [of "uu * 64 + bits" 64 "2 ^ bc"] by simp
    then have "(push_bit 6 uu OR bits) mod 2 ^ (bc + 6) = 64 * (uu mod 2 ^ bc) + bits"
      using push_bit_or_nat [of bits 6 uu] bits by (simp add: power_add mult.commute)
    then have "w * 2 ^ (bc + 6) + (push_bit 6 uu OR bits) mod 2 ^ (bc + 6)
        = (w * 2 ^ bc + uu mod 2 ^ bc) * 64 + bits"
      by (simp add: power_add algebra_simps)
    moreover have "bc + 6 < 16"
      using False by simp
    then obtain bc' lo where "list_all (\<lambda>d. d < 2 ^ 16) (dec_sext (push_bit 6 uu OR bits) (bc + 6) ds)"
      "bc' < 16" "lo < 2 ^ bc'"
      "16 * length (dec_sext (push_bit 6 uu OR bits) (bc + 6) ds) + bc' = bc + 6 + 6 * length ds"
      "hor (2 ^ 16) w (dec_sext (push_bit 6 uu OR bits) (bc + 6) ds) * 2 ^ bc' + lo
        = hor 64 (w * 2 ^ (bc + 6) + (push_bit 6 uu OR bits) mod 2 ^ (bc + 6)) ds"
      using "2.IH"(2) [OF False, of w] bits(2) by blast
    ultimately show ?thesis
      using False by (intro conjI exI [of _ bc'] exI [of _ lo]) auto
  qed
qed

subsection \<open>Round trip\<close>

lemma same_length: "16 * m + b = 16 * n + p \<Longrightarrow> b < 16 \<Longrightarrow> p < 6 \<Longrightarrow> m = n \<and> b = p" for m n :: nat
  by presburger

lemma dec_enc_run: "dec_sext 0 0 (enc_run 0 0 us) = map unit16 us"
proof -
  define out where "out = enc_run 0 0 us"
  obtain pad where enc: "list_all (\<lambda>d. d < 64) out" "pad < 6" "6 * length out = 16 * length us + pad"
    "hor 64 0 out = hor (2 ^ 16) 0 (map unit16 us) * 2 ^ pad"
    using enc_run_value [of 0 0 us out 0] by (auto simp: out_def)
  obtain bc lo where dec: "bc < 16" "lo < 2 ^ bc" "16 * length (dec_sext 0 0 out) + bc = 6 * length out"
    "hor (2 ^ 16) 0 (dec_sext 0 0 out) * 2 ^ bc + lo = hor 64 0 out"
    "list_all (\<lambda>d. d < 2 ^ 16) (dec_sext 0 0 out)"
    using dec_sext_value [of 0 out 0 0] enc(1) by auto
  have len: "length (dec_sext 0 0 out) = length us" "bc = pad"
    using same_length [of "length (dec_sext 0 0 out)" bc "length us" pad] enc(2,3) dec(1,3) by simp_all
  have "hor (2 ^ 16) 0 (dec_sext 0 0 out) = (hor (2 ^ 16) 0 (dec_sext 0 0 out) * 2 ^ pad + lo) div 2 ^ pad"
    using dec(2) len(2) by simp
  also have "\<dots> = hor (2 ^ 16) 0 (map unit16 us)"
    using dec(4) enc(4) len(2) by simp
  finally have "hor (2 ^ 16) 0 (dec_sext 0 0 out) = hor (2 ^ 16) 0 (map unit16 us)" .
  then have "dec_sext 0 0 out = map unit16 us"
    using hor_inject [of "dec_sext 0 0 out" "map unit16 us" "2 ^ 16"] len dec(5) unit16_less
    by (simp add: list_all_iff)
  then show ?thesis by (simp add: out_def)
qed

lemma mbase64_distinct: "distinct mbase64" "length mbase64 = 64" "CHR ''-'' \<notin> set mbase64"
  by (simp_all add: mbase64_def)

lemma mbase64_lookup_nth: "b < 64 \<Longrightarrow> mbase64_lookup (mbase64 ! b) = Some b"
  using mbase64_distinct by (simp add: mbase64_lookup_def index_distinct)

lemma mbase64_not_dash: "b < 64 \<Longrightarrow> mbase64 ! b \<noteq> CHR ''-''"
  using mbase64_distinct(2,3) nth_mem by metis

lemma modutf7_run_sext:
  "list_all (\<lambda>d. d < 64) ds \<Longrightarrow>
    modutf7_run l uu bc (map (\<lambda>b. mbase64 ! b) ds @ CHR ''-'' # r) =
    map_sum id (\<lambda>us. map int (dec_sext uu bc ds) @ us) (modutf7_plain (l + length ds + 1) r)"
proof (induction ds arbitrary: l uu bc)
  case Nil
  then show ?case by (cases "modutf7_plain (Suc l) r") simp_all
next
  case (Cons b ds)
  then show ?case
    by (auto simp: mbase64_lookup_nth mbase64_not_dash Let_def sum.map_comp o_def)
qed

lemma enc_run_ne: "us \<noteq> [] \<Longrightarrow> enc_run 0 0 us \<noteq> []"
  using enc_run_value [of 0 0 us "[]" 0] by auto

lemma modutf7_encoded:
  "list_all (\<lambda>u. 0 < u \<and> u < 2 ^ 16) us \<Longrightarrow>
    modutf7_plain l (fst (uctoutf7_pass us specials True)) = Inr us"
proof (induction us specials True arbitrary: l rule: uctoutf7_pass.induct)
  case (2 uc us specials)
  show ?case
  proof (cases "is_special uc specials")
    case False
    define n where "n = nat uc"
    have uc: "uc = int n" "0x20 \<le> n" "n < 0x7F"
      using False by (auto simp: is_special_def n_def)
    then have c: "to_char uc = char_of n" "code (to_char uc) = n" "schar (to_char uc) = uc"
      by (simp_all add: to_char_int schar_def)
    have amp: "to_char uc = CHR ''&'' \<longleftrightarrow> uc = 38"
      using c(2) uc(1) by (auto simp: char_eq_code)
    show ?thesis
      using False "2.hyps"(1) [OF False] "2.prems" c uc amp
      by (auto simp: case_prod_unfold)
  next
    case True
    define run where "run = takeWhile (\<lambda>u. is_special u specials) (uc # us)"
    define rest where "rest = dropWhile (\<lambda>u. is_special u specials) us"
    define out where "out = enc_run 0 0 run"
    have whole: "uc # us = run @ rest"
      using True takeWhile_dropWhile_id [of "\<lambda>u. is_special u specials" "uc # us"]
      by (simp add: run_def rest_def)
    have out: "list_all (\<lambda>d. d < 64) out" "out \<noteq> []"
      using enc_run_value [of 0 0 run out 0] enc_run_ne [of run] True
      by (auto simp: out_def run_def)
    have pos: "list_all (\<lambda>u. 0 < u \<and> u < 2 ^ 16) run" "list_all (\<lambda>u. 0 < u \<and> u < 2 ^ 16) rest"
      using "2.prems" unfolding whole by simp_all
    then have units: "map int (map unit16 run) = run"
      by (induction run) (auto simp: unit16_id list_all_iff)
    have enc: "fst (uctoutf7_pass (uc # us) specials True)
        = CHR ''&'' # map (\<lambda>b. mbase64 ! b) out @ CHR ''-'' # fst (uctoutf7_pass rest specials True)"
      using True by (simp add: case_prod_unfold run_def rest_def out_def Let_def)
    have "hd (map (\<lambda>b. mbase64 ! b) out @ x) \<noteq> CHR ''-''" for x
      using out mbase64_not_dash by (cases out) auto
    moreover have "modutf7_plain m (fst (uctoutf7_pass rest specials True)) = Inr rest" for m
      using "2.hyps"(2) True pos(2) by (simp add: rest_def)
    ultimately have "modutf7_plain l (fst (uctoutf7_pass (uc # us) specials True))
        = Inr (map int (dec_sext 0 0 out) @ rest)"
      unfolding enc using out modutf7_run_sext [of out] by (simp add: schar_def del: uctoutf7_pass.simps)
    then show ?thesis
      by (simp only: out_def dec_enc_run units whole)
  qed
qed simp

text \<open>
  C25. Modified UTF-7 round trip: every folder name of characters from 1 to 0xFFFF, encoded by
  \<open>unicode_uctomodutf7x\<close> with any list of special characters, is decoded by
  \<open>unicode_modutf7touc\<close> to the same name without an error. The bits the encoder carries over
  from one 16 bit unit to the next and the padding it adds at the end of a run never show up
  in what the decoder stores.
\<close>

theorem modutf7_roundtrip:
  assumes "list_all (\<lambda>u. 0 < u \<and> u < 2 ^ 16) us"
  shows "unicode_modutf7touc (unicode_uctomodutf7x us specials) = Inr us"
  using modutf7_encoded [OF assms]
  by (simp add: unicode_modutf7touc_def unicode_uctomodutf7x_def)

theorem modutf7_roundtrip_witness:
  "unicode_modutf7touc (unicode_uctomodutf7x [0x41, 0x26, 0x4E2D, 0x6587, 0x7E, 0xE9, 0x2E, 0x10] [0x2E])
    = Inr [0x41, 0x26, 0x4E2D, 0x6587, 0x7E, 0xE9, 0x2E, 0x10]"
  by (rule modutf7_roundtrip) simp

interpretation modutf7: codec unicode_uctomodutf7
    "\<lambda>s. case unicode_modutf7touc s of Inl _ \<Rightarrow> None | Inr us \<Rightarrow> Some us"
    "list_all (\<lambda>u. 0 < u \<and> u < 2 ^ 16)"
  by unfold_locales
    (simp add: unicode_uctomodutf7_def unicode_uctomodutf7x_def unicode_modutf7touc_def modutf7_encoded)

text \<open>
  The buffers: the encoder's counting pass gives the number of bytes the writing pass stores,
  terminator included, and the decoder never stores more characters than its input has bytes.
\<close>

lemma uctoutf7_pass_count:
  "snd (uctoutf7_pass us specials p) = length (fst (uctoutf7_pass us specials True)) + 1"
  by (induction us specials p rule: uctoutf7_pass.induct) (auto simp: case_prod_unfold Let_def)

lemma map_sum_Inr: "map_sum f g x = Inr y \<longleftrightarrow> (\<exists>z. x = Inr z \<and> y = g z)"
  by (cases x) auto

lemma modutf7_length:
  "modutf7_plain l s = Inr us \<Longrightarrow> length us \<le> length s"
  "modutf7_run l uu bc s = Inr us \<Longrightarrow> length us \<le> length s"
proof (induction l s and l uu bc s arbitrary: us and us rule: modutf7_plain_modutf7_run.induct)
  case (2 l c s)
  consider "schar c < 0x20 \<or> schar c \<ge> 0x7F" | "\<not> (schar c < 0x20 \<or> schar c \<ge> 0x7F)" "c \<noteq> CHR ''&''"
    | "\<not> (schar c < 0x20 \<or> schar c \<ge> 0x7F)" "\<not> c \<noteq> CHR ''&''" "s \<noteq> [] \<and> hd s = CHR ''-''"
    | "\<not> (schar c < 0x20 \<or> schar c \<ge> 0x7F)" "\<not> c \<noteq> CHR ''&''" "\<not> (s \<noteq> [] \<and> hd s = CHR ''-'')"
    by blast
  then show ?case
  proof cases
    case 1
    with "2.prems" show ?thesis by simp
  next
    case 2
    with "2.prems" obtain z where "modutf7_plain (l + 1) s = Inr z" "us = int (code c) # z"
      by (auto simp: map_sum_Inr)
    with "2.IH"(1) [OF 2] show ?thesis by simp
  next
    case 3
    with "2.prems" obtain z where z: "modutf7_plain (l + 2) (tl s) = Inr z" "us = int (code CHR ''&'') # z"
      by (auto simp: map_sum_Inr)
    with "2.IH"(2) [OF 3] show ?thesis by (cases s) auto
  next
    case 4
    with "2.prems" have "modutf7_run (l + 1) 0 0 s = Inr us"
      by auto
    with "2.IH"(3) [OF 4] show ?thesis by simp
  qed
next
  case (4 l uu bc c s)
  then show ?case
    by (auto simp: Let_def map_sum_Inr split: if_splits option.splits intro: le_SucI)
qed auto

text \<open>
  The buffers of both conversions are large enough: the encoder's counting pass gives
  exactly the bytes the writing pass stores with the terminator, for any characters and
  specials, and the array of \<open>strlen + 1\<close> characters the decoder allocates (the worst case
  scenario of the code's comment) holds what it stores for any input it accepts.
\<close>

theorem modutf7_buffers:
  assumes "unicode_modutf7touc s = Inr us"
  shows "length us + 1 \<le> length s + 1 \<and>
    snd (uctoutf7_pass ucs specials False) = length (unicode_uctomodutf7x ucs specials) + 1"
  using modutf7_length(1) [of 0 s us] assms uctoutf7_pass_count [of ucs specials False]
  by (simp add: unicode_modutf7touc_def unicode_uctomodutf7x_def)

theorem modutf7_buffers_witness:
  "length [0x61, 0x26, 0x62 :: unicode_char] + 1 \<le> length ''a&-b'' + 1 \<and>
    snd (uctoutf7_pass [0xE9] [] False) = length (unicode_uctomodutf7x [0xE9] []) + 1"
  by (rule modutf7_buffers) (simp add: unicode_modutf7touc_def schar_def)

end
