(* ===== verification/Base64.thy ===== *)
theory Base64
  imports Utf8
begin

text \<open>
  Base64 (\<^verbatim>\<open>rfc2045/base64.c\<close>, the decoder with a work buffer of its own) and the arithmetic of
  the groups of three bytes that the encoder and both decoders of the library share. The
  decoder's callback is a parameter \<open>f\<close> that takes the caller's state (what
  \<^verbatim>\<open>decode_func_arg\<close> points to) and returns it with its result.
\<close>

subsection \<open>The decoder\<close>

definition base64tab :: string where
  "base64tab = ''ABCDEFGHIJKLMNOPQRSTUVWXYZabcdefghijklmnopqrstuvwxyz0123456789+/''"

text \<open>
  What the loop stores for a character: 100 for the pad, the index in the table otherwise.
  \<^verbatim>\<open>strchr\<close> finds the terminator of the table too, so a NUL byte counts as 64.
\<close>

definition base64_symbol :: "char \<Rightarrow> nat option" where
  "base64_symbol c =
     (if c = CHR ''='' then Some 100
      else
        let s = length (takeWhile (\<lambda>d. d \<noteq> c) (base64tab @ [nul]))
        in if s \<le> 64 then Some s else None)"

record 'a base64decode =
  workbuf :: "nat list"
  decode_arg :: 'a

type_synonym 'a callback = "'a \<Rightarrow> string \<Rightarrow> 'a \<times> int"

text \<open>
  Four symbols as up to three bytes, where \<open>pad\<close> is the value of the pad character. The bytes overwrite symbols of the buffer that have been
  read already, since a group of four makes at most three.
\<close>

definition decode4 :: "nat \<Rightarrow> nat \<Rightarrow> nat \<Rightarrow> nat \<Rightarrow> nat \<Rightarrow> string" where
  "decode4 pad w x y z =
     [char_of ((push_bit 2 w OR drop_bit 4 x) mod 256)]
     @ (if y \<noteq> pad then [char_of ((push_bit 4 x OR drop_bit 2 y) mod 256)] else [])
     @ (if z \<noteq> pad then [char_of ((push_bit 6 y OR z) mod 256)] else [])"

fun decode_groups :: "nat \<Rightarrow> nat list \<Rightarrow> string" where
  "decode_groups pad (w # x # y # z # ws) = decode4 pad w x y z @ decode_groups pad ws"
| "decode_groups pad _ = []"

definition base64_doflush :: "'a callback \<Rightarrow> 'a base64decode \<Rightarrow> 'a base64decode \<times> int" where
  "base64_doflush f p =
     (let i = length (workbuf p) div 4 * 4
      in case f (decode_arg p) (decode_groups 100 (take i (workbuf p))) of (arg, j) \<Rightarrow>
           (p\<lparr>decode_arg := arg, workbuf := drop i (workbuf p)\<rparr>, j))"

fun base64_decode :: "'a callback \<Rightarrow> 'a base64decode \<Rightarrow> string \<Rightarrow> 'a base64decode \<times> int" where
  "base64_decode f b [] = (b, 0)"
| "base64_decode f b (c # p) =
     (case (if length (workbuf b) \<ge> 256 then base64_doflush f b else (b, 0)) of (b, rc) \<Rightarrow>
        if rc \<noteq> 0 then (b, rc)
        else case base64_symbol c of
          None \<Rightarrow> base64_decode f b p
        | Some s \<Rightarrow> base64_decode f (b\<lparr>workbuf := workbuf b @ [s]\<rparr>) p)"

definition base64_decode_init :: "'a \<Rightarrow> 'a base64decode" where
  "base64_decode_init arg = \<lparr>workbuf = [], decode_arg = arg\<rparr>"

definition base64_decode_end :: "'a callback \<Rightarrow> 'a base64decode \<Rightarrow> 'a base64decode \<times> int" where
  "base64_decode_end f b = base64_doflush f b"

text \<open>\<open>save_str\<close> appends to the buffer of \<open>base64_decode_str\<close>, a copy of the input.\<close>

definition save_str :: "string callback" where
  "save_str out p = (out @ p, 0)"

definition base64_decode_str :: "string \<Rightarrow> string" where
  "base64_decode_str s =
     (let b = base64_decode_init [];
          (b, _) = base64_decode save_str b s;
          (b, _) = base64_decode_end save_str b
      in decode_arg b)"

subsection \<open>Groups of three bytes\<close>

text \<open>The four indices of the encoder for the bytes \<open>a\<close>, \<open>b\<close>, \<open>c\<close>.\<close>

definition sextets :: "nat \<Rightarrow> nat \<Rightarrow> nat \<Rightarrow> nat list" where
  "sextets a b c =
     [drop_bit 2 a, push_bit 4 (a AND 3) OR drop_bit 4 b, push_bit 2 (b AND 15) OR drop_bit 6 c,
      c AND 63]"

lemma sextets_arith:
  "a < 256 \<Longrightarrow> b < 256 \<Longrightarrow> c < 256 \<Longrightarrow>
    sextets a b c = [a div 4, a mod 4 * 16 + b div 16, b mod 16 * 4 + c div 64, c mod 64]"
  using push_bit_or_nat [of "b div 16" 4 "a mod 4"] push_bit_or_nat [of "c div 64" 2 "b mod 16"]
  by (simp add: sextets_def and_mask_nat drop_bit_eq_div)

text \<open>Decoding the indices of a group gives its bytes; the pads drop the bytes that are not there.\<close>

lemma decode4_arith:
  assumes "x < 64" "y < 64 \<or> y = pad" "z < 64 \<or> z = pad"
  shows "decode4 pad w x y z =
    [char_of ((w * 4 + x div 16) mod 256)]
    @ (if y \<noteq> pad then [char_of ((x * 16 + y div 4) mod 256)] else [])
    @ (if z \<noteq> pad then [char_of ((y * 64 + z) mod 256)] else [])"
  using assms push_bit_or_nat [of "x div 16" 2 w] push_bit_or_nat [of "y div 4" 4 x]
    push_bit_or_nat [of z 6 y]
  by (auto simp: decode4_def drop_bit_eq_div)

lemma group_bytes:
  fixes a b c :: nat
  assumes "a < 256" "b < 256" "c < 256"
  shows "(a div 4 * 4 + (a mod 4 * 16 + b div 16) div 16) mod 256 = a"
    "((a mod 4 * 16 + b div 16) * 16 + (b mod 16 * 4 + c div 64) div 4) mod 256 = b"
    "((b mod 16 * 4 + c div 64) * 64 + c mod 64) mod 256 = c"
proof -
  have d: "(a mod 4 * 16 + b div 16) div 16 = a mod 4" "(b mod 16 * 4 + c div 64) div 4 = b mod 16"
    using assms by (simp_all add: div_add1_eq)
  show "(a div 4 * 4 + (a mod 4 * 16 + b div 16) div 16) mod 256 = a"
    unfolding d using assms(1) by simp
  have "(a mod 4 * 16 + b div 16) * 16 + b mod 16 = a mod 4 * 256 + b"
    by (simp add: algebra_simps)
  then show "((a mod 4 * 16 + b div 16) * 16 + (b mod 16 * 4 + c div 64) div 4) mod 256 = b"
    unfolding d using assms(2) by simp
  have "(b mod 16 * 4 + c div 64) * 64 + c mod 64 = b mod 16 * 256 + c"
    by (simp add: algebra_simps)
  then show "((b mod 16 * 4 + c div 64) * 64 + c mod 64) mod 256 = c"
    using assms(3) by simp
qed

lemma sextets_less:
  fixes a b c :: nat
  assumes "a < 256" "b < 256" "c < 256"
  shows "a div 4 < 64" "a mod 4 * 16 + b div 16 < 64" "b mod 16 * 4 + c div 64 < 64" "c mod 64 < 64"
proof -
  have "b div 16 < 16" "c div 64 < 4" "a mod 4 < 4" "b mod 16 < 16"
    using assms by (simp_all add: less_mult_imp_div_less)
  then show "a div 4 < 64" "a mod 4 * 16 + b div 16 < 64" "b mod 16 * 4 + c div 64 < 64" "c mod 64 < 64"
    using assms by (simp_all add: less_mult_imp_div_less)
qed

lemma sextets_bound: "a < 256 \<Longrightarrow> b < 256 \<Longrightarrow> c < 256 \<Longrightarrow> list_all (\<lambda>s. s < 64) (sextets a b c)"
  by (simp add: sextets_arith sextets_less)

lemma decode4_three:
  assumes "64 \<le> pad" "a < 256" "b < 256" "c < 256"
  shows "decode4 pad (a div 4) (a mod 4 * 16 + b div 16) (b mod 16 * 4 + c div 64) (c mod 64)
    = [char_of a, char_of b, char_of c]"
proof -
  note less = sextets_less [OF assms(2-4)]
  have "c mod 64 \<noteq> pad" "b mod 16 * 4 + c div 64 \<noteq> pad"
    using less assms(1) by linarith+
  then show ?thesis
    using decode4_arith [OF less(2) disjI1 [OF less(3)] disjI1 [OF less(4)], where w = "a div 4" and pad = pad]
    by (simp only: group_bytes [OF assms(2-4)] if_True simp_thms append_Cons append_Nil)
qed

lemma decode4_two:
  assumes "64 \<le> pad" "a < 256" "b < 256"
  shows "decode4 pad (a div 4) (a mod 4 * 16 + b div 16) (b mod 16 * 4) pad = [char_of a, char_of b]"
  using sextets_less [of a b 0] group_bytes [of a b 0] assms
  by (subst decode4_arith) auto

lemma decode4_one:
  assumes "64 \<le> pad" "a < 256"
  shows "decode4 pad (a div 4) (a mod 4 * 16) pad pad = [char_of a]"
  using sextets_less [of a 0 0] group_bytes [of a 0 0] assms
  by (subst decode4_arith) auto

end
