(* ===== verification/Rfc2045_Encode.thy ===== *)
theory Rfc2045_Encode
  imports Base64
begin

text \<open>
  The MIME content encoders (\<^verbatim>\<open>rfc2045/rfc2045encode.c\<close>): quoted-printable and base64, fed in
  pieces, with their output collected in a buffer of \<open>bufsiz\<close> bytes (\<^verbatim>\<open>BUFSIZ\<close> of the C
  library) that is passed to the caller's callback when it is full and at the end. A nonzero
  result of the callback stops the encoder.
\<close>

subsection \<open>The code\<close>

datatype encoding_func = Quoted_printable | Base64_encoding | Eflush

record 'a encode_info =
  output_buffer :: string
  input_buffer :: string
  input_buf_cnt :: nat
  encoding_func :: encoding_func
  callback_arg :: 'a

text \<open>\<open>rfc2045_encode_autodetect_fp\<close> over the bytes of the file.\<close>

fun autodetect_loop :: "bool \<Rightarrow> bool \<Rightarrow> nat \<Rightarrow> bool \<Rightarrow> string \<Rightarrow> string" where
  "autodetect_loop okQp eight l longline [] =
     (if longline \<and> okQp then ''quoted-printable'' else if eight then ''8bit'' else ''7bit'')"
| "autodetect_loop okQp eight l longline (ch # s) =
     (let eight = (eight \<or> code ch \<ge> 0x80)
      in if ch = nul then ''base64''
         else if ch = nl then autodetect_loop okQp eight 0 longline s
         else if l + 1 > 990 then
           (if \<not> okQp then ''base64'' else autodetect_loop okQp eight (l + 1) True s)
         else autodetect_loop okQp eight (l + 1) longline s)"

definition rfc2045_encode_autodetect_fp :: "string \<Rightarrow> bool \<Rightarrow> string" where
  "rfc2045_encode_autodetect_fp fp okQp = autodetect_loop okQp False 0 False fp"

definition rfc2045_encode_start :: "string \<Rightarrow> 'a \<Rightarrow> 'a encode_info" where
  "rfc2045_encode_start transfer_encoding arg =
     \<lparr>output_buffer = [], input_buffer = [], input_buf_cnt = 0,
      encoding_func =
        (if cread transfer_encoding \<in> {CHR ''q'', CHR ''Q''} then Quoted_printable
         else if cread transfer_encoding \<in> {CHR ''b'', CHR ''B''} then Base64_encoding
         else Eflush),
      callback_arg = arg\<rparr>"

definition call_back :: "'a callback \<Rightarrow> 'a encode_info \<Rightarrow> 'a encode_info \<times> int" where
  "call_back f info =
     (case f (callback_arg info) (output_buffer info) of (arg, rc) \<Rightarrow>
        (info\<lparr>callback_arg := arg, output_buffer := []\<rparr>, rc))"

text \<open>The buffer always has room (\<open>bufsiz\<close> is positive), which the third test stands for.\<close>

function eflush :: "nat \<Rightarrow> 'a callback \<Rightarrow> 'a encode_info \<Rightarrow> string \<Rightarrow> 'a encode_info \<times> int" where
  "eflush bufsiz f info ptr =
     (if ptr = [] then (info, 0)
      else case (if length (output_buffer info) = bufsiz then call_back f info else (info, 0)) of
        (info, rc) \<Rightarrow>
          if rc \<noteq> 0 \<or> bufsiz \<le> length (output_buffer info) then (info, rc)
          else
            let i = min (length ptr) (bufsiz - length (output_buffer info))
            in eflush bufsiz f (info\<lparr>output_buffer := output_buffer info @ take i ptr\<rparr>) (drop i ptr))"
  by pat_completeness auto
termination
  by (relation "measure (\<lambda>(bufsiz, f, info, ptr). length ptr)") auto

declare eflush.simps [simp del]

fun enc_groups :: "nat list \<Rightarrow> string" where
  "enc_groups (a # b # c # bs) = map (\<lambda>s. base64tab ! s) (sextets a b c) @ enc_groups bs"
| "enc_groups [a, b] = map (\<lambda>s. base64tab ! s) (take 3 (sextets a b 0)) @ ''=''"
| "enc_groups [a] = map (\<lambda>s. base64tab ! s) (take 2 (sextets a 0 0)) @ ''==''"
| "enc_groups [] = []"

definition base64_flush :: "nat \<Rightarrow> 'a callback \<Rightarrow> 'a encode_info \<Rightarrow> 'a encode_info \<times> int" where
  "base64_flush bufsiz f info =
     eflush bufsiz f (info\<lparr>input_buf_cnt := 0\<rparr>)
       (enc_groups (map code (take (input_buf_cnt info) (input_buffer info))) @ [nl])"

text \<open>The loop of \<^verbatim>\<open>base64\<close> over the input; the input buffer has 57 bytes.\<close>

function base64_loop :: "nat \<Rightarrow> 'a callback \<Rightarrow> 'a encode_info \<Rightarrow> string \<Rightarrow> 'a encode_info \<times> int" where
  "base64_loop bufsiz f info buf =
     (if buf = [] then (info, 0)
      else case (if input_buf_cnt info = 57 then base64_flush bufsiz f info else (info, 0)) of
        (info, rc) \<Rightarrow>
          if rc \<noteq> 0 \<or> 57 \<le> input_buf_cnt info then (info, rc)
          else
            let i = min (length buf) (57 - input_buf_cnt info)
            in base64_loop bufsiz f
                 (info\<lparr>input_buffer := take (input_buf_cnt info) (input_buffer info) @ take i buf,
                       input_buf_cnt := input_buf_cnt info + i\<rparr>)
                 (drop i buf))"
  by pat_completeness auto
termination
  by (relation "measure (\<lambda>(bufsiz, f, info, buf). length buf)") auto

declare base64_loop.simps [simp del]

definition xdigit :: string where
  "xdigit = ''0123456789ABCDEF''"

text \<open>\<open>QPUT\<close> for one character: the buffer of 256 bytes is flushed when it is full.\<close>

type_synonym 'a qpstate = "('a encode_info \<times> int) + ('a encode_info \<times> string)"

definition qput :: "nat \<Rightarrow> 'a callback \<Rightarrow> 'a encode_info \<times> string \<Rightarrow> char \<Rightarrow> 'a qpstate" where
  "qput bufsiz f st c =
     (case st of (info, local_buf) \<Rightarrow>
        if length local_buf = 256
        then case eflush bufsiz f info local_buf of (info, rc) \<Rightarrow>
          if rc \<noteq> 0 then Inl (info, rc) else Inr (info, [c])
        else Inr (info, local_buf @ [c]))"

fun qputs :: "nat \<Rightarrow> 'a callback \<Rightarrow> 'a encode_info \<times> string \<Rightarrow> string \<Rightarrow> 'a qpstate" where
  "qputs bufsiz f st [] = Inr st"
| "qputs bufsiz f st (c # cs) =
     (case qput bufsiz f st c of Inl r \<Rightarrow> Inl r | Inr st \<Rightarrow> qputs bufsiz f st cs)"

definition set_cnt :: "'a encode_info \<times> string \<Rightarrow> nat \<Rightarrow> 'a encode_info \<times> string" where
  "set_cnt st n = apfst (input_buf_cnt_update (\<lambda>_. n)) st"

fun qp_loop :: "nat \<Rightarrow> 'a callback \<Rightarrow> 'a encode_info \<times> string \<Rightarrow> string \<Rightarrow> 'a qpstate" where
  "qp_loop bufsiz f st [] = Inr st"
| "qp_loop bufsiz f st (c # p) =
     (case (if input_buf_cnt (fst st) > 72 \<and> c \<noteq> nl
            then map_sum id (\<lambda>st. set_cnt st 0) (qputs bufsiz f st [CHR ''='', nl]) else Inr st) of
        Inl r \<Rightarrow> Inl r
      | Inr st \<Rightarrow>
          let cnt = input_buf_cnt (fst st)
          in case (if c = nl then qputs bufsiz f (set_cnt st 0) [c]
                   else if schar c < 32 \<or> c = CHR ''='' \<or> schar c \<ge> 0x7F
                   then map_sum id (\<lambda>st. set_cnt st (cnt + 3))
                     (qputs bufsiz f st [CHR ''='', xdigit ! (code c div 16), xdigit ! (code c mod 16)])
                   else qputs bufsiz f (set_cnt st (cnt + 1)) [c]) of
               Inl r \<Rightarrow> Inl r
             | Inr st \<Rightarrow> qp_loop bufsiz f st p)"

definition quoted_printable :: "nat \<Rightarrow> 'a callback \<Rightarrow> 'a encode_info \<Rightarrow> string \<Rightarrow> 'a encode_info \<times> int" where
  "quoted_printable bufsiz f info p =
     (case qp_loop bufsiz f (info, []) p of
        Inl r \<Rightarrow> r
      | Inr (info, local_buf) \<Rightarrow>
          if local_buf \<noteq> [] then eflush bufsiz f info local_buf else (info, 0))"

text \<open>The encoding function on a piece, and at the end (where it is passed NULL).\<close>

definition rfc2045_encode :: "nat \<Rightarrow> 'a callback \<Rightarrow> 'a encode_info \<Rightarrow> string \<Rightarrow> 'a encode_info \<times> int" where
  "rfc2045_encode bufsiz f info ptr =
     (case encoding_func info of
        Quoted_printable \<Rightarrow> quoted_printable bufsiz f info ptr
      | Base64_encoding \<Rightarrow> base64_loop bufsiz f info ptr
      | Eflush \<Rightarrow> eflush bufsiz f info ptr)"

definition rfc2045_encode_end :: "nat \<Rightarrow> 'a callback \<Rightarrow> 'a encode_info \<Rightarrow> 'a encode_info \<times> int" where
  "rfc2045_encode_end bufsiz f info =
     (case (if encoding_func info = Base64_encoding \<and> input_buf_cnt info > 0
            then base64_flush bufsiz f info else (info, 0)) of
        (info, rc) \<Rightarrow>
          if rc = 0 \<and> output_buffer info \<noteq> [] then call_back f info else (info, rc))"

subsection \<open>What reaches the callback\<close>

text \<open>
  With a callback that takes everything (\<open>save_str\<close>), the output is what was passed to it
  with what is still in the buffer. \<open>emits\<close>: a step adds \<open>x\<close> to the output and keeps the rest.
\<close>

definition enc_out :: "string encode_info \<Rightarrow> string" where
  "enc_out info = callback_arg info @ output_buffer info"

definition emits :: "nat \<Rightarrow> string encode_info \<Rightarrow> string \<Rightarrow> string encode_info \<Rightarrow> bool" where
  "emits bufsiz info x info' \<longleftrightarrow>
     enc_out info' = enc_out info @ x \<and> length (output_buffer info') \<le> bufsiz \<and>
     input_buf_cnt info' = input_buf_cnt info \<and> input_buffer info' = input_buffer info \<and>
     encoding_func info' = encoding_func info"

definition room :: "nat \<Rightarrow> string encode_info \<Rightarrow> bool" where
  "room bufsiz info \<longleftrightarrow> 0 < bufsiz \<and> length (output_buffer info) \<le> bufsiz"

lemma emits_refl: "room bufsiz info \<Longrightarrow> emits bufsiz info [] info"
  by (simp add: emits_def room_def)

lemma emits_trans:
  "emits bufsiz info x info' \<Longrightarrow> emits bufsiz info' y info'' \<Longrightarrow> emits bufsiz info (x @ y) info''"
  by (simp add: emits_def)

lemma emits_room: "room bufsiz info \<Longrightarrow> emits bufsiz info x info' \<Longrightarrow> room bufsiz info'"
  by (simp add: emits_def room_def)

lemma call_back_emits:
  "room bufsiz info \<Longrightarrow> \<exists>info'. call_back save_str info = (info', 0) \<and> emits bufsiz info [] info' \<and>
    output_buffer info' = []"
  by (auto simp: call_back_def save_str_def emits_def room_def enc_out_def)

lemma eflush_emits:
  "room bufsiz info \<Longrightarrow> \<exists>info'. eflush bufsiz save_str info ptr = (info', 0) \<and> emits bufsiz info ptr info'"
proof (induction "length ptr" arbitrary: info ptr rule: less_induct)
  case less
  show ?case
  proof (cases "ptr = []")
    case True
    then show ?thesis
      using emits_refl [OF less.prems] by (simp add: eflush.simps)
  next
    case False
    obtain info1 where info1: "(if length (output_buffer info) = bufsiz then call_back save_str info else (info, 0))
        = (info1, 0)" "emits bufsiz info [] info1" "length (output_buffer info1) < bufsiz"
      using call_back_emits [OF less.prems] emits_refl [OF less.prems] less.prems
      by (cases "length (output_buffer info) = bufsiz") (auto simp: room_def)
    define i where "i = min (length ptr) (bufsiz - length (output_buffer info1))"
    define info2 where "info2 = info1\<lparr>output_buffer := output_buffer info1 @ take i ptr\<rparr>"
    have i: "0 < i"
      using False info1(3) by (simp add: i_def)
    have step: "eflush bufsiz save_str info ptr = eflush bufsiz save_str info2 (drop i ptr)"
      using False info1 by (subst eflush.simps) (simp add: i_def info2_def Let_def)
    have e2: "emits bufsiz info1 (take i ptr) info2"
      using info1(3) by (simp add: emits_def info2_def enc_out_def i_def)
    have "emits bufsiz info (take i ptr) info2"
      using emits_trans [OF info1(2) e2] by simp
    moreover have "room bufsiz info2"
      using emits_room less.prems calculation by blast
    then obtain info3 where "eflush bufsiz save_str info2 (drop i ptr) = (info3, 0)"
      "emits bufsiz info2 (drop i ptr) info3"
      using less.hyps [of "drop i ptr" info2] i False by auto
    ultimately show ?thesis
      unfolding step using emits_trans [of bufsiz info "take i ptr" info2 "drop i ptr" info3] by auto
  qed
qed

subsection \<open>Quoted-printable\<close>

text \<open>The text of the encoding from column \<open>col\<close>, and the column after it.\<close>

definition qp_special :: "char \<Rightarrow> bool" where
  "qp_special c \<longleftrightarrow> schar c < 32 \<or> c = CHR ''='' \<or> schar c \<ge> 0x7F"

definition qp_escape :: "char \<Rightarrow> string" where
  "qp_escape c = [CHR ''='', xdigit ! (code c div 16), xdigit ! (code c mod 16)]"

definition qp_break :: "nat \<Rightarrow> char \<Rightarrow> bool" where
  "qp_break col c \<longleftrightarrow> col > 72 \<and> c \<noteq> nl"

definition qp_next :: "nat \<Rightarrow> char \<Rightarrow> nat" where
  "qp_next col c =
     (let col = (if qp_break col c then 0 else col)
      in if c = nl then 0 else if qp_special c then col + 3 else col + 1)"

definition qp_piece :: "nat \<Rightarrow> char \<Rightarrow> string" where
  "qp_piece col c =
     (if qp_break col c then [CHR ''='', nl] else [])
     @ (if c = nl then [nl] else if qp_special c then qp_escape c else [c])"

fun qp_enc :: "nat \<Rightarrow> string \<Rightarrow> string" where
  "qp_enc col [] = []"
| "qp_enc col (c # p) = qp_piece col c @ qp_enc (qp_next col c) p"

definition qp_col :: "nat \<Rightarrow> string \<Rightarrow> nat" where
  "qp_col col p = foldl qp_next col p"

lemma qp_col_simps [simp]: "qp_col col [] = col" "qp_col col (c # p) = qp_col (qp_next col c) p"
  by (simp_all add: qp_col_def)

lemma qp_enc_append: "qp_enc col (p @ q) = qp_enc col p @ qp_enc (qp_col col p) q"
  by (induction p arbitrary: col) simp_all

text \<open>The state of the loop: the output so far is in the callback, the buffer and \<open>local_buf\<close>.\<close>

definition qp_emits ::
    "nat \<Rightarrow> string encode_info \<times> string \<Rightarrow> string \<Rightarrow> nat \<Rightarrow> string encode_info \<times> string \<Rightarrow> bool" where
  "qp_emits bufsiz st x n st' \<longleftrightarrow>
     enc_out (fst st') @ snd st' = enc_out (fst st) @ snd st @ x \<and> room bufsiz (fst st') \<and>
     length (snd st') \<le> 256 \<and> input_buf_cnt (fst st') = n \<and>
     encoding_func (fst st') = encoding_func (fst st)"

lemma qp_emits_trans:
  "qp_emits bufsiz st x n st' \<Longrightarrow> qp_emits bufsiz st' y m st'' \<Longrightarrow> qp_emits bufsiz st (x @ y) m st''"
  by (simp add: qp_emits_def)

lemma qput_emits:
  assumes "room bufsiz (fst st)" "length (snd st) \<le> 256"
  shows "\<exists>st'. qput bufsiz save_str st c = Inr st' \<and> qp_emits bufsiz st [c] (input_buf_cnt (fst st)) st'"
proof (cases "length (snd st) = 256")
  case True
  obtain info' where "eflush bufsiz save_str (fst st) (snd st) = (info', 0)"
    "emits bufsiz (fst st) (snd st) info'"
    using eflush_emits [OF assms(1)] by blast
  with True emits_room [OF assms(1)] show ?thesis
    by (auto simp: qput_def case_prod_unfold qp_emits_def emits_def)
next
  case False
  with assms show ?thesis
    by (auto simp: qput_def case_prod_unfold qp_emits_def)
qed

lemma qputs_emits:
  "room bufsiz (fst st) \<Longrightarrow> length (snd st) \<le> 256 \<Longrightarrow>
    \<exists>st'. qputs bufsiz save_str st cs = Inr st' \<and> qp_emits bufsiz st cs (input_buf_cnt (fst st)) st'"
proof (induction cs arbitrary: st)
  case (Cons c cs)
  obtain st1 where st1: "qput bufsiz save_str st c = Inr st1"
    "qp_emits bufsiz st [c] (input_buf_cnt (fst st)) st1"
    using qput_emits [OF Cons.prems] by blast
  then obtain st2 where "qputs bufsiz save_str st1 cs = Inr st2"
    "qp_emits bufsiz st1 cs (input_buf_cnt (fst st1)) st2"
    using Cons.IH [of st1] by (auto simp: qp_emits_def)
  with st1 show ?case
    using qp_emits_trans [OF st1(2)] by (fastforce simp: qp_emits_def)
qed (simp add: qp_emits_def)

lemma set_cnt_emits: "qp_emits bufsiz st x n st' \<Longrightarrow> qp_emits bufsiz st x m (set_cnt st' m)"
  by (cases st') (simp add: qp_emits_def set_cnt_def enc_out_def room_def)

lemma set_cnt_emits_refl:
  "room bufsiz (fst st) \<Longrightarrow> length (snd st) \<le> 256 \<Longrightarrow> qp_emits bufsiz st [] m (set_cnt st m)"
  by (rule set_cnt_emits [of _ _ _ "input_buf_cnt (fst st)"]) (simp add: qp_emits_def)

lemma qp_loop_emits:
  "room bufsiz (fst st) \<Longrightarrow> length (snd st) \<le> 256 \<Longrightarrow>
    \<exists>st'. qp_loop bufsiz save_str st p = Inr st' \<and>
      qp_emits bufsiz st (qp_enc (input_buf_cnt (fst st)) p) (qp_col (input_buf_cnt (fst st)) p) st'"
proof (induction p arbitrary: st)
  case (Cons c p)
  define col where "col = input_buf_cnt (fst st)"
  define col1 where "col1 = (if qp_break col c then 0 else col)"
  define brk where "brk = (if qp_break col c then [CHR ''='', nl] else [])"
  define out where "out = (if c = nl then [nl] else if qp_special c then qp_escape c else [c])"
  obtain st1 where st1:
    "(if input_buf_cnt (fst st) > 72 \<and> c \<noteq> nl
       then map_sum id (\<lambda>st. set_cnt st 0) (qputs bufsiz save_str st [CHR ''='', nl]) else Inr st) = Inr st1"
    "qp_emits bufsiz st brk col1 st1"
  proof (cases "qp_break col c")
    case True
    obtain st' where "qputs bufsiz save_str st [CHR ''='', nl] = Inr st'"
      "qp_emits bufsiz st [CHR ''='', nl] col st'"
      using qputs_emits [OF Cons.prems] unfolding col_def by blast
    with True show ?thesis
      using that [of "set_cnt st' 0"] set_cnt_emits [of bufsiz st brk col st' 0]
      by (auto simp: brk_def col1_def qp_break_def col_def)
  next
    case False
    with Cons.prems show ?thesis
      using that [of st] by (auto simp: brk_def col1_def qp_break_def col_def qp_emits_def)
  qed
  have ok1: "room bufsiz (fst st1)" "length (snd st1) \<le> 256" "input_buf_cnt (fst st1) = col1"
    using st1(2) by (simp_all add: qp_emits_def)
  obtain st2 where st2:
    "(if c = nl then qputs bufsiz save_str (set_cnt st1 0) [c]
      else if schar c < 32 \<or> c = CHR ''='' \<or> schar c \<ge> 0x7F
      then map_sum id (\<lambda>st. set_cnt st (col1 + 3))
        (qputs bufsiz save_str st1 [CHR ''='', xdigit ! (code c div 16), xdigit ! (code c mod 16)])
      else qputs bufsiz save_str (set_cnt st1 (col1 + 1)) [c]) = Inr st2"
    "qp_emits bufsiz st1 out (qp_next col c) st2"
  proof -
    have put: "\<exists>st'. qputs bufsiz save_str (set_cnt st1 m) [c] = Inr st' \<and> qp_emits bufsiz st1 [c] m st'" for m
    proof -
      have s: "qp_emits bufsiz st1 [] m (set_cnt st1 m)"
        by (rule set_cnt_emits_refl [OF ok1(1,2)])
      then obtain st' where "qputs bufsiz save_str (set_cnt st1 m) [c] = Inr st'"
        "qp_emits bufsiz (set_cnt st1 m) [c] m st'"
        using qputs_emits [of bufsiz "set_cnt st1 m" "[c]"] by (auto simp: qp_emits_def)
      with qp_emits_trans [OF s] show ?thesis by auto
    qed
    obtain st' where esc: "qputs bufsiz save_str st1 (qp_escape c) = Inr st'"
      "qp_emits bufsiz st1 (qp_escape c) col1 st'"
      using qputs_emits [OF ok1(1,2), of "qp_escape c"] ok1(3) by auto
    show ?thesis
    proof (cases "c \<noteq> nl \<and> qp_special c")
      case True
      then show ?thesis
        using that [of "set_cnt st' (col1 + 3)"] esc set_cnt_emits [OF esc(2), of "col1 + 3"]
        unfolding qp_special_def [symmetric] qp_escape_def [symmetric]
        by (simp add: out_def qp_next_def col1_def Let_def del: qputs.simps)
    next
      case False
      obtain s2 where s2: "qputs bufsiz save_str (set_cnt st1 (qp_next col c)) [c] = Inr s2"
        "qp_emits bufsiz st1 [c] (qp_next col c) s2"
        using put by blast
      show ?thesis
        by (rule that [of s2], unfold qp_special_def [symmetric])
          (use False s2 in \<open>cases "c = nl"; simp add: out_def qp_next_def col1_def Let_def del: qputs.simps\<close>)+
    qed
  qed
  have ok2: "room bufsiz (fst st2)" "length (snd st2) \<le> 256" "input_buf_cnt (fst st2) = qp_next col c"
    using st2(2) by (simp_all add: qp_emits_def)
  obtain st3 where st3: "qp_loop bufsiz save_str st2 p = Inr st3"
    "qp_emits bufsiz st2 (qp_enc (qp_next col c) p) (qp_col (qp_next col c) p) st3"
    using Cons.IH [OF ok2(1,2)] ok2(3) by auto
  have "qp_loop bufsiz save_str st (c # p) = Inr st3"
    using st1(1) st2(1) st3(1) ok1(3) by (simp add: Let_def del: qputs.simps)
  moreover have "qp_emits bufsiz st (brk @ out @ qp_enc (qp_next col c) p) (qp_col (qp_next col c) p) st3"
    using qp_emits_trans [OF st1(2) qp_emits_trans [OF st2(2) st3(2)]] by simp
  ultimately show ?case
    by (simp add: qp_piece_def brk_def out_def col_def del: qp_loop.simps)
qed (simp add: qp_emits_def)

lemma quoted_printable_emits:
  assumes "room bufsiz info"
  shows "\<exists>info'. quoted_printable bufsiz save_str info p = (info', 0) \<and> room bufsiz info' \<and>
    enc_out info' = enc_out info @ qp_enc (input_buf_cnt info) p \<and>
    input_buf_cnt info' = qp_col (input_buf_cnt info) p \<and> encoding_func info' = encoding_func info"
proof -
  obtain info1 lb where st: "qp_loop bufsiz save_str (info, []) p = Inr (info1, lb)"
    "qp_emits bufsiz (info, []) (qp_enc (input_buf_cnt info) p) (qp_col (input_buf_cnt info) p) (info1, lb)"
    using qp_loop_emits [of bufsiz "(info, [])" p] assms by auto
  show ?thesis
  proof (cases "lb = []")
    case True
    with st show ?thesis by (simp add: quoted_printable_def qp_emits_def)
  next
    case False
    obtain info2 where "eflush bufsiz save_str info1 lb = (info2, 0)" "emits bufsiz info1 lb info2"
      using eflush_emits [of bufsiz info1 lb] st(2) by (auto simp: qp_emits_def)
    with st False emits_room [of bufsiz info1 lb info2] show ?thesis
      by (auto simp: quoted_printable_def qp_emits_def emits_def)
  qed
qed

subsection \<open>Base64\<close>

text \<open>The text of the encoding: lines of 57 bytes.\<close>

function b64_text :: "string \<Rightarrow> string" where
  "b64_text s = (if s = [] then [] else enc_groups (map code (take 57 s)) @ nl # b64_text (drop 57 s))"
  by pat_completeness auto
termination by (relation "measure length") auto

declare b64_text.simps [simp del]

lemma b64_text_Nil [simp]: "b64_text [] = []"
  by (simp add: b64_text.simps)

lemma b64_text_line: "length l = 57 \<Longrightarrow> b64_text (l @ s) = enc_groups (map code l) @ nl # b64_text s"
  by (subst b64_text.simps) auto

lemma b64_text_last: "l \<noteq> [] \<Longrightarrow> length l \<le> 57 \<Longrightarrow> b64_text l = enc_groups (map code l) @ [nl]"
  by (subst b64_text.simps) simp

definition pending :: "string encode_info \<Rightarrow> string" where
  "pending info = take (input_buf_cnt info) (input_buffer info)"

definition b64_inv :: "nat \<Rightarrow> string encode_info \<Rightarrow> bool" where
  "b64_inv bufsiz info \<longleftrightarrow> room bufsiz info \<and> input_buf_cnt info \<le> 57 \<and>
     input_buf_cnt info \<le> length (input_buffer info)"

lemma length_pending: "b64_inv bufsiz info \<Longrightarrow> length (pending info) = input_buf_cnt info"
  by (simp add: pending_def b64_inv_def)

lemma base64_flush_emits:
  assumes "b64_inv bufsiz info"
  shows "\<exists>info'. base64_flush bufsiz save_str info = (info', 0) \<and> b64_inv bufsiz info' \<and>
    enc_out info' = enc_out info @ enc_groups (map code (pending info)) @ [nl] \<and>
    input_buf_cnt info' = 0 \<and> encoding_func info' = encoding_func info"
proof -
  have "room bufsiz (info\<lparr>input_buf_cnt := 0\<rparr>)"
    using assms by (simp add: b64_inv_def room_def)
  then obtain info' where "eflush bufsiz save_str (info\<lparr>input_buf_cnt := 0\<rparr>)
      (enc_groups (map code (pending info)) @ [nl]) = (info', 0)"
    "emits bufsiz (info\<lparr>input_buf_cnt := 0\<rparr>) (enc_groups (map code (pending info)) @ [nl]) info'"
    using eflush_emits by blast
  with assms show ?thesis
    by (auto simp: base64_flush_def pending_def emits_def b64_inv_def room_def enc_out_def)
qed

lemma base64_loop_emits:
  "b64_inv bufsiz info \<Longrightarrow>
    \<exists>info'. base64_loop bufsiz save_str info buf = (info', 0) \<and> b64_inv bufsiz info' \<and>
      encoding_func info' = encoding_func info \<and>
      (\<forall>r. enc_out info' @ b64_text (pending info' @ r) = enc_out info @ b64_text (pending info @ buf @ r))"
proof (induction "length buf" arbitrary: info buf rule: less_induct)
  case less
  show ?case
  proof (cases "buf = []")
    case True
    with less.prems show ?thesis by (simp add: base64_loop.simps)
  next
    case False
    obtain info1 where info1: "(if input_buf_cnt info = 57 then base64_flush bufsiz save_str info else (info, 0))
        = (info1, 0)" "b64_inv bufsiz info1" "input_buf_cnt info1 < 57" "encoding_func info1 = encoding_func info"
      "\<forall>r. enc_out info1 @ b64_text (pending info1 @ r) = enc_out info @ b64_text (pending info @ r)"
    proof (cases "input_buf_cnt info = 57")
      case True
      obtain info' where i: "base64_flush bufsiz save_str info = (info', 0)" "b64_inv bufsiz info'"
        "enc_out info' = enc_out info @ enc_groups (map code (pending info)) @ [nl]"
        "input_buf_cnt info' = 0" "encoding_func info' = encoding_func info"
        using base64_flush_emits [OF less.prems] by blast
      then show ?thesis
        using True that [of info'] b64_text_line [of "pending info"] length_pending [OF less.prems]
          length_pending [OF i(2)] by simp
    next
      case False
      with less.prems show ?thesis
        using that [of info] by (simp add: b64_inv_def)
    qed
    define i where "i = min (length buf) (57 - input_buf_cnt info1)"
    define info2 where "info2 = info1\<lparr>input_buffer := take (input_buf_cnt info1) (input_buffer info1) @ take i buf,
        input_buf_cnt := input_buf_cnt info1 + i\<rparr>"
    have i: "0 < i" "i \<le> length buf" "input_buf_cnt info1 + i \<le> 57"
      using False info1(3) by (simp_all add: i_def)
    have step: "base64_loop bufsiz save_str info buf = base64_loop bufsiz save_str info2 (drop i buf)"
      using False info1(1,3) by (subst base64_loop.simps) (simp add: i_def info2_def Let_def)
    have info2: "b64_inv bufsiz info2" "pending info2 = pending info1 @ take i buf"
      "enc_out info2 = enc_out info1" "encoding_func info2 = encoding_func info1"
      using info1(2) i by (simp_all add: b64_inv_def room_def info2_def pending_def enc_out_def)
    obtain info3 where info3: "base64_loop bufsiz save_str info2 (drop i buf) = (info3, 0)"
      "b64_inv bufsiz info3" "encoding_func info3 = encoding_func info2"
      "\<forall>r. enc_out info3 @ b64_text (pending info3 @ r) = enc_out info2 @ b64_text (pending info2 @ drop i buf @ r)"
      using less.hyps [of "drop i buf" info2] i info2(1) False by auto
    have td: "take i buf @ drop i buf @ r = buf @ r" for r
      by (simp flip: append_assoc)
    then show ?thesis
      unfolding step using info3 info2 info1 by (auto simp: td)
  qed
qed

subsection \<open>The encoders on a whole message\<close>

text \<open>The text of the encoding that a transfer encoding asks for.\<close>

definition encoded_text :: "string \<Rightarrow> string \<Rightarrow> string" where
  "encoded_text te s =
     (if cread te \<in> {CHR ''q'', CHR ''Q''} then qp_enc 0 s
      else if cread te \<in> {CHR ''b'', CHR ''B''} then b64_text s else s)"

definition rfc2045_encode_pieces ::
    "nat \<Rightarrow> 'a callback \<Rightarrow> 'a encode_info \<Rightarrow> string list \<Rightarrow> 'a encode_info \<times> int" where
  "rfc2045_encode_pieces bufsiz f info pieces =
     foldl (\<lambda>(info, rc) p. if rc \<noteq> 0 then (info, rc) else rfc2045_encode bufsiz f info p) (info, 0) pieces"

text \<open>What the encoder still owes: the output when \<open>s\<close> is all that is still to come.\<close>

definition completed :: "string encode_info \<Rightarrow> string \<Rightarrow> string" where
  "completed info s = enc_out info @
     (case encoding_func info of
        Quoted_printable \<Rightarrow> qp_enc (input_buf_cnt info) s
      | Base64_encoding \<Rightarrow> b64_text (pending info @ s)
      | Eflush \<Rightarrow> s)"

definition enc_inv :: "nat \<Rightarrow> string encode_info \<Rightarrow> bool" where
  "enc_inv bufsiz info \<longleftrightarrow> room bufsiz info \<and> (encoding_func info = Base64_encoding \<longrightarrow> b64_inv bufsiz info)"

lemma rfc2045_encode_completed:
  assumes "enc_inv bufsiz info"
  shows "\<exists>info'. rfc2045_encode bufsiz save_str info p = (info', 0) \<and> enc_inv bufsiz info' \<and>
    encoding_func info' = encoding_func info \<and> (\<forall>r. completed info' r = completed info (p @ r))"
proof (cases "encoding_func info")
  case Quoted_printable
  then show ?thesis
    using quoted_printable_emits [of bufsiz info p] assms
    by (auto simp: rfc2045_encode_def enc_inv_def completed_def qp_enc_append)
next
  case Base64_encoding
  then obtain info' where "base64_loop bufsiz save_str info p = (info', 0)" "b64_inv bufsiz info'"
    "encoding_func info' = encoding_func info"
    "\<forall>r. enc_out info' @ b64_text (pending info' @ r) = enc_out info @ b64_text (pending info @ p @ r)"
    using base64_loop_emits [of bufsiz info p] assms by (auto simp: enc_inv_def)
  with Base64_encoding show ?thesis
    by (auto simp: rfc2045_encode_def enc_inv_def completed_def b64_inv_def)
next
  case Eflush
  then obtain info' where "eflush bufsiz save_str info p = (info', 0)" "emits bufsiz info p info'"
    using eflush_emits [of bufsiz info p] assms by (auto simp: enc_inv_def)
  with Eflush show ?thesis
    using emits_room [of bufsiz info p info'] assms
    by (auto simp: rfc2045_encode_def enc_inv_def completed_def emits_def)
qed

lemma rfc2045_encode_end_completed:
  assumes "enc_inv bufsiz info"
  shows "\<exists>info'. rfc2045_encode_end bufsiz save_str info = (info', 0) \<and> callback_arg info' = completed info []"
proof -
  obtain info1 where info1: "(if encoding_func info = Base64_encoding \<and> input_buf_cnt info > 0
      then base64_flush bufsiz save_str info else (info, 0)) = (info1, 0)"
    "room bufsiz info1" "enc_out info1 = completed info []"
  proof (cases "encoding_func info = Base64_encoding \<and> input_buf_cnt info > 0")
    case True
    then have inv: "b64_inv bufsiz info"
      using assms by (simp add: enc_inv_def)
    then obtain info' where "base64_flush bufsiz save_str info = (info', 0)" "b64_inv bufsiz info'"
      "enc_out info' = enc_out info @ enc_groups (map code (pending info)) @ [nl]"
      using base64_flush_emits by blast
    moreover have "b64_text (pending info) = enc_groups (map code (pending info)) @ [nl]"
      using True inv length_pending [OF inv]
      by (intro b64_text_last) (auto simp: b64_inv_def pending_def)
    ultimately show ?thesis
      using True that [of info'] by (simp add: b64_inv_def completed_def)
  next
    case False
    moreover have "input_buf_cnt info = 0 \<Longrightarrow> pending info = []"
      by (simp add: pending_def)
    ultimately show ?thesis
      using that [of info] assms by (auto simp: enc_inv_def completed_def split: encoding_func.splits)
  qed
  show ?thesis
  proof (cases "output_buffer info1 = []")
    case True
    with info1 show ?thesis
      by (simp add: rfc2045_encode_end_def enc_out_def)
  next
    case False
    obtain info2 where "call_back save_str info1 = (info2, 0)" "emits bufsiz info1 [] info2"
      "output_buffer info2 = []"
      using call_back_emits [OF info1(2)] by blast
    with info1 False show ?thesis
      by (auto simp: rfc2045_encode_end_def emits_def enc_out_def)
  qed
qed

lemma rfc2045_encode_pieces_completed:
  "enc_inv bufsiz info \<Longrightarrow>
    \<exists>info'. rfc2045_encode_pieces bufsiz save_str info pieces = (info', 0) \<and> enc_inv bufsiz info' \<and>
      completed info' [] = completed info (concat pieces)"
proof (induction pieces arbitrary: info)
  case (Cons p pieces)
  obtain info1 where "rfc2045_encode bufsiz save_str info p = (info1, 0)" "enc_inv bufsiz info1"
    "\<forall>r. completed info1 r = completed info (p @ r)"
    using rfc2045_encode_completed [OF Cons.prems] by blast
  with Cons.IH [of info1] show ?case
    by (simp add: rfc2045_encode_pieces_def)
qed (simp add: rfc2045_encode_pieces_def)

lemma rfc2045_encode_whole:
  assumes "0 < bufsiz"
  shows "\<exists>info info'.
    rfc2045_encode_pieces bufsiz save_str (rfc2045_encode_start te []) pieces = (info, 0) \<and>
    rfc2045_encode_end bufsiz save_str info = (info', 0) \<and>
    callback_arg info' = encoded_text te (concat pieces)"
proof -
  have "enc_inv bufsiz (rfc2045_encode_start te [])"
    using assms by (simp add: enc_inv_def room_def b64_inv_def rfc2045_encode_start_def)
  moreover have "completed (rfc2045_encode_start te []) s = encoded_text te s" for s
    by (simp add: completed_def rfc2045_encode_start_def enc_out_def pending_def encoded_text_def)
  ultimately show ?thesis
    using rfc2045_encode_pieces_completed [of bufsiz "rfc2045_encode_start te []" pieces]
      rfc2045_encode_end_completed by metis
qed

subsection \<open>Lines that mail can carry\<close>

definition mail_safe :: "string \<Rightarrow> bool" where
  "mail_safe s \<longleftrightarrow> list_all (\<lambda>l. length l \<le> 76) (split_nl s) \<and>
     list_all (\<lambda>c. c = nl \<or> 32 \<le> code c \<and> code c < 127) s"

lemma split_nl_append:
  "split_nl (x @ y) = butlast (split_nl x) @ (last (split_nl x) @ hd (split_nl y)) # tl (split_nl y)"
  by (induction x) (auto split: list.splits)

lemma qp_escape_nonl: "nl \<notin> set (qp_escape c)" "length (qp_escape c) = 3"
  "list_all (\<lambda>c. 32 \<le> code c \<and> code c < 127) (qp_escape c)"
proof -
  have x: "nl \<notin> set xdigit" "length xdigit = 16" "list_all (\<lambda>c. 32 \<le> code c \<and> code c < 127) xdigit"
    by (simp_all add: xdigit_def)
  have i: "code c div 16 < 16" "code c mod 16 < 16"
    using code_less_256 [of c] by (simp_all add: less_mult_imp_div_less)
  show "nl \<notin> set (qp_escape c)"
    using x(1) nth_mem [of _ xdigit] i unfolding x(2) by (auto simp: qp_escape_def)
  show "list_all (\<lambda>c. 32 \<le> code c \<and> code c < 127) (qp_escape c)"
  proof -
    have "n < 16 \<Longrightarrow> 32 \<le> code (xdigit ! n) \<and> code (xdigit ! n) < 127" for n
      using x(2,3) by (simp add: list_all_length)
    then show ?thesis
      using i by (simp add: qp_escape_def)
  qed
qed (simp add: qp_escape_def)

lemma qp_plain: "c \<noteq> nl \<Longrightarrow> \<not> qp_special c \<Longrightarrow> 32 \<le> code c \<and> code c < 127"
proof (cases "code c < 128")
  case False
  assume "\<not> qp_special c"
  with False schar_high [of c] show ?thesis by (simp add: qp_special_def)
qed (auto simp: qp_special_def schar_def)

lemma qp_chars: "list_all (\<lambda>c. c = nl \<or> 32 \<le> code c \<and> code c < 127) (qp_enc col s)"
proof (induction s arbitrary: col)
  case (Cons c s)
  have "list_all (\<lambda>c. c = nl \<or> 32 \<le> code c \<and> code c < 127) (qp_piece col c)"
    using qp_escape_nonl(3) [of c] qp_plain [of c] by (auto simp: qp_piece_def list_all_iff)
  with Cons show ?case by simp
qed simp

lemma qp_lines:
  "col \<le> 75 \<Longrightarrow> col + length (hd (split_nl (qp_enc col s))) \<le> 76 \<and>
    list_all (\<lambda>l. length l \<le> 76) (tl (split_nl (qp_enc col s)))"
proof (induction s arbitrary: col)
  case (Cons c s)
  have next75: "qp_next col c \<le> 75"
    using Cons.prems by (auto simp: qp_next_def qp_break_def Let_def)
  note IH = Cons.IH [OF next75]
  have piece: "split_nl (qp_escape c @ r) = (qp_escape c @ hd (split_nl r)) # tl (split_nl r)" for r
    by (rule split_nl_nonl) (rule qp_escape_nonl)
  show ?case
    using IH Cons.prems piece qp_escape_nonl(2) [of c]
    by (cases "split_nl (qp_enc (qp_next col c) s)")
      (auto simp: qp_piece_def qp_next_def qp_break_def Let_def split: if_splits)
qed simp

lemma base64tab_safe: "s < 64 \<Longrightarrow> base64tab ! s \<noteq> nl \<and> 32 \<le> code (base64tab ! s) \<and> code (base64tab ! s) < 127"
proof -
  have "length base64tab = 64" "list_all (\<lambda>c. c \<noteq> nl \<and> 32 \<le> code c \<and> code c < 127) base64tab"
    by (simp_all add: base64tab_def)
  then show "s < 64 \<Longrightarrow> ?thesis" by (simp add: list_all_length)
qed

definition tab_safe :: "string \<Rightarrow> bool" where
  "tab_safe s \<longleftrightarrow> list_all (\<lambda>c. c \<noteq> nl \<and> 32 \<le> code c \<and> code c < 127) s"

lemma tab_safe_simps [simp]:
  "tab_safe []" "tab_safe (x @ y) \<longleftrightarrow> tab_safe x \<and> tab_safe y"
  "tab_safe (CHR ''='' # x) \<longleftrightarrow> tab_safe x"
  by (simp_all add: tab_safe_def)

lemma tab_safe_map: "list_all (\<lambda>s. s < 64) ss \<Longrightarrow> tab_safe (map (\<lambda>s. base64tab ! s) ss)"
  by (induction ss) (simp_all add: tab_safe_def base64tab_safe)

lemma list_all_take: "list_all P xs \<Longrightarrow> list_all P (take n xs)"
  by (auto simp: list_all_iff dest: in_set_takeD)

lemma length_sextets [simp]: "length (sextets a b c) = 4"
  by (simp add: sextets_def)

lemma enc_groups_safe:
  "list_all (\<lambda>b. b < 256) bs \<Longrightarrow>
    length (enc_groups bs) = (length bs + 2) div 3 * 4 \<and> tab_safe (enc_groups bs)"
proof (induction bs rule: enc_groups.induct)
  case (1 a b c bs)
  have "(length bs + 5) div 3 = Suc ((length bs + 2) div 3)"
    by presburger
  with 1 show ?case
    using sextets_bound [of a b c] by (simp add: tab_safe_map add.commute)
next
  case (2 a b)
  then show ?case
    using sextets_bound [of a b 0] by (simp add: tab_safe_map list_all_take)
next
  case (3 a)
  then show ?case
    using sextets_bound [of a 0 0] by (simp add: tab_safe_map list_all_take)
qed simp

lemma mail_safe_line:
  "tab_safe g \<Longrightarrow> length g \<le> 76 \<Longrightarrow> mail_safe s \<Longrightarrow> mail_safe (g @ nl # s)"
proof -
  assume g: "tab_safe g" "length g \<le> 76" "mail_safe s"
  then have "nl \<notin> set g"
    by (auto simp: tab_safe_def list_all_iff)
  with g show ?thesis
    by (auto simp: mail_safe_def split_nl_line tab_safe_def list_all_iff)
qed

lemma b64_safe: "mail_safe (b64_text s)"
proof (induction s rule: b64_text.induct)
  case (1 s)
  show ?case
  proof (cases "s = []")
    case False
    have g: "length (enc_groups (map code (take 57 s))) = (length (take 57 s) + 2) div 3 * 4"
      "tab_safe (enc_groups (map code (take 57 s)))"
      using enc_groups_safe [of "map code (take 57 s)"] by (simp_all add: list_all_iff code_less_256)
    have "(length (take 57 s) + 2) div 3 \<le> (57 + 2) div 3"
      by (intro div_le_mono) simp
    then have "mail_safe (enc_groups (map code (take 57 s)) @ nl # b64_text (drop 57 s))"
      using g 1 [OF False] by (intro mail_safe_line) simp_all
    with False show ?thesis
      by (subst b64_text.simps) simp
  qed (simp add: mail_safe_def)
qed

lemma qp_safe: "mail_safe (qp_enc 0 s)"
  using qp_lines [of 0 s] qp_chars [of 0 s]
  by (cases "split_nl (qp_enc 0 s)") (auto simp: mail_safe_def)

text \<open>
  C4. The MIME encoders deliver an encoding that mail can carry: whatever the size of the
  output buffer and in whatever pieces a message is passed to \<open>rfc2045_encode\<close>, a callback that
  takes everything has received after \<open>rfc2045_encode_end\<close> the text that depends on the message
  alone, no byte lost or repeated at the ends of the pieces and of the three buffers. For
  quoted-printable and base64 every line of it has at most 76 characters, all of them printable
  ASCII.
\<close>

theorem rfc2045_encode_delivers:
  assumes "0 < bufsiz"
  shows "\<exists>info info'.
    rfc2045_encode_pieces bufsiz save_str (rfc2045_encode_start te []) pieces = (info, 0) \<and>
    rfc2045_encode_end bufsiz save_str info = (info', 0) \<and>
    callback_arg info' = encoded_text te (concat pieces) \<and>
    (cread te \<in> {CHR ''q'', CHR ''Q'', CHR ''b'', CHR ''B''} \<longrightarrow> mail_safe (callback_arg info'))"
  using rfc2045_encode_whole [OF assms, of te pieces] qp_safe b64_safe
  by (auto simp: encoded_text_def)

theorem rfc2045_encode_delivers_witness:
  "\<exists>info info'.
    rfc2045_encode_pieces 5 save_str (rfc2045_encode_start ''base64'' []) [''ab'', ''cdefg''] = (info, 0) \<and>
    rfc2045_encode_end 5 save_str info = (info', 0) \<and>
    callback_arg info' = encoded_text ''base64'' ''abcdefg'' \<and>
    mail_safe (callback_arg info')"
  using rfc2045_encode_delivers [of 5 "''base64''" "[''ab'', ''cdefg'']"] by simp

end
