(* ===== verification/Rfc2045_Decode.thy ===== *)
theory Rfc2045_Decode
  imports Rfc2045_Encode
begin

text \<open>
  The MIME content decoders (\<^verbatim>\<open>rfc2045/rfc2045cdecode.c\<close>), which take the body of a message in
  pieces and pass its decoded content to the callback, and the proofs that they and the decoder
  of \<^verbatim>\<open>base64.c\<close> undo the encoders. The state is the fields of \<^verbatim>\<open>struct rfc2045\<close> the decoders use.
\<close>

subsection \<open>The code\<close>

datatype decode_func = Decode_raw | Decode_qp | Decode_base64

record 'a rfc2045 =
  cd_workbuf :: string
  decode_func :: decode_func
  misc_decode_ptr :: 'a

definition add_workbuf :: "'a rfc2045 \<Rightarrow> string \<Rightarrow> 'a rfc2045" where
  "add_workbuf p s = p\<lparr>cd_workbuf := cd_workbuf p @ s\<rparr>"

definition udecode :: "'a callback \<Rightarrow> 'a rfc2045 \<Rightarrow> string \<Rightarrow> 'a rfc2045 \<times> int" where
  "udecode f p s = (case f (misc_decode_ptr p) s of (arg, rc) \<Rightarrow> (p\<lparr>misc_decode_ptr := arg\<rparr>, rc))"

definition decode_raw :: "'a callback \<Rightarrow> 'a rfc2045 \<Rightarrow> string \<Rightarrow> 'a rfc2045 \<times> int" where
  "decode_raw f p s = (if s \<noteq> [] then udecode f p s else (p, 0))"

text \<open>\<^verbatim>\<open>strchr\<close> in the digits, after the test for NUL.\<close>

definition xdigit_index :: "char \<Rightarrow> nat option" where
  "xdigit_index c =
     (let i = length (takeWhile (\<lambda>d. d \<noteq> c) xdigit) in if i < 16 then Some i else None)"

text \<open>
  The loop of \<open>do_decode_qp\<close> from \<open>a\<close> to \<open>end\<close>. A bad escape is left out up to its first
  character that is no digit; a blank after the \<open>=\<close> ends the line.
\<close>

fun qp_dec :: "string \<Rightarrow> string" where
  "qp_dec [] = []"
| "qp_dec (a # s) =
     (if a \<noteq> CHR ''='' then a # qp_dec s
      else case s of
        [] \<Rightarrow> []
      | h # t \<Rightarrow>
          if h = nul \<or> isspace h then []
          else case xdigit_index h of
            None \<Rightarrow> qp_dec s
          | Some d \<Rightarrow>
              (case t of
                 [] \<Rightarrow> []
               | l # t' \<Rightarrow>
                   if l = nul then []
                   else case xdigit_index l of
                     None \<Rightarrow> qp_dec t
                   | Some e \<Rightarrow> char_of (d * 16 + e) # qp_dec t'))"

definition do_decode_qp :: "'a callback \<Rightarrow> 'a rfc2045 \<Rightarrow> 'a rfc2045 \<times> int" where
  "do_decode_qp f p = apfst (cd_workbuf_update (\<lambda>_. [])) (udecode f p (qp_dec (cd_workbuf p)))"

definition decode64tab :: "char \<Rightarrow> nat" where
  "decode64tab c =
     (if c = CHR ''='' then 99
      else
        let i = length (takeWhile (\<lambda>d. d \<noteq> c) base64tab)
        in if i < 64 then i else 100)"

definition do_decode_base64 :: "'a callback \<Rightarrow> 'a rfc2045 \<Rightarrow> 'a rfc2045 \<times> int" where
  "do_decode_base64 f p =
     (let w = filter (\<lambda>c. decode64tab c < 100) (cd_workbuf p);
          i = length w div 4 * 4;
          (p, rc) = udecode f p (decode_groups 99 (map decode64tab (take i w)))
      in (p\<lparr>cd_workbuf := drop i w\<rparr>, 0))"

text \<open>
  The flush of a long line: an escape that starts in the last five characters stays behind
  (what \<^verbatim>\<open>strlen\<close> sees of it).
\<close>

definition qp_spill :: "'a callback \<Rightarrow> 'a rfc2045 \<Rightarrow> 'a rfc2045 \<times> int" where
  "qp_spill f p =
     (if length (cd_workbuf p) > 1024 then
        let w = cd_workbuf p;
            n = length w - 5;
            i = n + length (takeWhile (\<lambda>c. c \<noteq> CHR ''='') (drop n w))
        in case do_decode_qp f (p\<lparr>cd_workbuf := take i w\<rparr>) of (p, rc) \<Rightarrow>
             if rc \<noteq> 0 then (p, rc)
             else (add_workbuf p (takeWhile (\<lambda>c. c \<noteq> nul) (drop i w)), 0)
      else (p, 0))"

function decode_qp :: "'a callback \<Rightarrow> 'a rfc2045 \<Rightarrow> string \<Rightarrow> 'a rfc2045 \<times> int" where
  "decode_qp f p s =
     (if s = [] then (p, 0)
      else
        let x = takeWhile (\<lambda>c. c \<noteq> nl) s;
            rest = drop (length x) s
        in case (if rest \<noteq> [] then do_decode_qp f (add_workbuf (add_workbuf p x) [nl]) else (p, 0)) of
          (p, rc) \<Rightarrow>
            if rc \<noteq> 0 then (p, rc)
            else case qp_spill f (add_workbuf p (if rest \<noteq> [] then [] else x)) of
              (p, rc) \<Rightarrow> if rc \<noteq> 0 then (p, rc) else decode_qp f p (tl rest))"
  by pat_completeness auto
termination
  by (relation "measure (\<lambda>(f, p, s). length s)") (auto simp: less_Suc_eq_le le_diff_conv)

declare decode_qp.simps [simp del]

definition decode_base64 :: "'a callback \<Rightarrow> 'a rfc2045 \<Rightarrow> string \<Rightarrow> 'a rfc2045 \<times> int" where
  "decode_base64 f p s =
     (let p = add_workbuf p s
      in if length (cd_workbuf p) > 256 then do_decode_base64 f p else (p, 0))"

definition rfc2045_cdecode_start :: "string option \<Rightarrow> 'a \<Rightarrow> 'a rfc2045" where
  "rfc2045_cdecode_start content_transfer_encoding miscptr =
     \<lparr>cd_workbuf = [],
      decode_func =
        (if content_transfer_encoding = Some ''quoted-printable'' then Decode_qp
         else if content_transfer_encoding = Some ''base64'' then Decode_base64
         else Decode_raw),
      misc_decode_ptr = miscptr\<rparr>"

definition rfc2045_cdecode_end :: "'a callback \<Rightarrow> 'a rfc2045 \<Rightarrow> 'a rfc2045 \<times> int" where
  "rfc2045_cdecode_end f p =
     (case decode_func p of
        Decode_raw \<Rightarrow> (p, 0)
      | Decode_qp \<Rightarrow> do_decode_qp f p
      | Decode_base64 \<Rightarrow> do_decode_base64 f p)"

definition rfc2045_cdecode :: "'a callback \<Rightarrow> 'a rfc2045 \<Rightarrow> string \<Rightarrow> 'a rfc2045 \<times> int" where
  "rfc2045_cdecode f p s =
     (if s = [] then (p, 0)
      else case decode_func p of
        Decode_raw \<Rightarrow> decode_raw f p s
      | Decode_qp \<Rightarrow> decode_qp f p s
      | Decode_base64 \<Rightarrow> decode_base64 f p s)"

text \<open>The pieces a reader passes on, stopping at the first nonzero result.\<close>

fun cdecode_pieces :: "'a callback \<Rightarrow> 'a rfc2045 \<Rightarrow> string list \<Rightarrow> 'a rfc2045 \<times> int" where
  "cdecode_pieces f p [] = (p, 0)"
| "cdecode_pieces f p (s # ss) =
     (case rfc2045_cdecode f p s of (p, rc) \<Rightarrow> if rc \<noteq> 0 then (p, rc) else cdecode_pieces f p ss)"

definition content_decode :: "string option \<Rightarrow> string list \<Rightarrow> string option" where
  "content_decode te ss =
     (case cdecode_pieces save_str (rfc2045_cdecode_start te []) ss of (p, rc) \<Rightarrow>
        if rc \<noteq> 0 then None
        else case rfc2045_cdecode_end save_str p of (p, rc) \<Rightarrow>
          if rc \<noteq> 0 then None else Some (misc_decode_ptr p))"

subsection \<open>Groups of four symbols\<close>

lemma decode_groups_append:
  "4 dvd length xs \<Longrightarrow> decode_groups pad (xs @ ys) = decode_groups pad xs @ decode_groups pad ys"
proof (induction pad xs rule: decode_groups.induct)
  case (1 pad w x y z ws)
  have "4 dvd length ws"
    using 1(2) by simp presburger
  with 1(1) show ?case by simp
qed (auto dest: dvd_imp_le)

lemma decode_groups_take: "decode_groups pad (take (length xs div 4 * 4) xs) = decode_groups pad xs"
proof (induction pad xs rule: decode_groups.induct)
  case (1 pad w x y z ws)
  have "length (w # x # y # z # ws) div 4 * 4 = Suc (Suc (Suc (Suc (length ws div 4 * 4))))"
    by simp presburger
  then show ?case
    using 1 by (simp only: take_Suc_Cons decode_groups.simps)
qed simp_all

lemma decode_groups_split:
  "decode_groups pad (take (length xs div 4 * 4) xs) @ decode_groups pad (drop (length xs div 4 * 4) xs @ ys)
    = decode_groups pad (xs @ ys)"
proof -
  have "length (take (length xs div 4 * 4) xs) = length xs div 4 * 4"
    by (simp add: min_absorb2)
  then have "4 dvd length (take (length xs div 4 * 4) xs)"
    by (simp only: dvd_triv_right)
  from decode_groups_append [OF this, of pad "drop (length xs div 4 * 4) xs @ ys"] show ?thesis
    by (simp flip: append_assoc)
qed

text \<open>Any reading of the encoder's alphabet that gives the pad a value of its own decodes its groups.\<close>

lemma enc_groups_decode:
  assumes g: "\<And>s. s < 64 \<Longrightarrow> g (base64tab ! s) = s" and pad: "g (CHR ''='') = pad" "64 \<le> pad"
  shows "list_all (\<lambda>b. b < 256) bs \<Longrightarrow> decode_groups pad (map g (enc_groups bs)) = map char_of bs"
proof (induction bs rule: enc_groups.induct)
  case (1 a b c bs)
  then show ?case
    using sextets_less [of a b c] pad decode4_three [of pad a b c] by (simp add: sextets_arith g)
next
  case (2 a b)
  then show ?case
    using sextets_less [of a b 0] pad decode4_two [of pad a b] by (simp add: sextets_arith g)
next
  case (3 a)
  then show ?case
    using sextets_less [of a 0 0] pad decode4_one [of pad a] by (simp add: sextets_arith g)
qed simp

lemma enc_groups_decode_chars:
  assumes "\<And>s. s < 64 \<Longrightarrow> g (base64tab ! s) = s" "g (CHR ''='') = pad" "64 \<le> pad"
  shows "decode_groups pad (map g (enc_groups (map code s))) = s"
  using enc_groups_decode [OF assms, of "map code s"]
  by (simp add: list_all_iff code_less_256 comp_def)

lemma enc_groups_4: "4 dvd length (enc_groups (map code s))"
  using enc_groups_safe [of "map code s"] by (simp add: list_all_iff code_less_256)

lemma base64tab_index: "s < 64 \<Longrightarrow> length (takeWhile (\<lambda>d. d \<noteq> base64tab ! s) base64tab) = s"
proof -
  have "distinct base64tab" "length base64tab = 64"
    by (simp_all add: base64tab_def)
  then show "s < 64 \<Longrightarrow> ?thesis" by (simp add: index_distinct)
qed

lemma base64tab_not_pad: "s < 64 \<Longrightarrow> base64tab ! s \<noteq> CHR ''=''"
proof -
  have "list_all (\<lambda>c. c \<noteq> CHR ''='') base64tab" "length base64tab = 64"
    by (simp_all add: base64tab_def)
  then show "s < 64 \<Longrightarrow> ?thesis" by (simp add: list_all_length)
qed

lemma decode64tab_tab: "s < 64 \<Longrightarrow> decode64tab (base64tab ! s) = s"
  by (simp add: decode64tab_def base64tab_index base64tab_not_pad)

lemma decode64tab_pad: "decode64tab (CHR ''='') = 99" "decode64tab nl = 100"
  by (simp_all add: decode64tab_def base64tab_def)

text \<open>The characters of a group are all symbols of the alphabet or pads.\<close>

lemma enc_groups_symbols:
  assumes "\<And>s. s < 64 \<Longrightarrow> P (base64tab ! s)" "P (CHR ''='')"
  shows "list_all (\<lambda>b. b < 256) bs \<Longrightarrow> list_all P (enc_groups bs)"
proof (induction bs rule: enc_groups.induct)
  case (1 a b c bs)
  then show ?case
    using sextets_less [of a b c] by (simp add: sextets_arith assms)
next
  case (2 a b)
  then show ?case
    using sextets_less [of a b 0] by (simp add: sextets_arith assms)
next
  case (3 a)
  then show ?case
    using sextets_less [of a 0 0] by (simp add: sextets_arith assms)
qed simp

lemma b64_text_decode:
  assumes g: "\<And>s. s < 64 \<Longrightarrow> g (base64tab ! s) = s" and pad: "g (CHR ''='') = pad" "64 \<le> pad"
    and P: "\<And>s. s < 64 \<Longrightarrow> P (base64tab ! s)" "P (CHR ''='')" "\<not> P nl"
  shows "decode_groups pad (map g (filter P (b64_text s))) = s"
proof (induction s rule: b64_text.induct)
  case (1 s)
  show ?case
  proof (cases "s = []")
    case False
    have "list_all P (enc_groups (map code (take 57 s)))"
      by (rule enc_groups_symbols) (simp_all add: P list_all_iff code_less_256)
    then have "filter P (b64_text s) = enc_groups (map code (take 57 s)) @ filter P (b64_text (drop 57 s))"
      using False P(3) by (subst b64_text.simps) (simp add: list_all_iff)
    moreover have "4 dvd length (map g (enc_groups (map code (take 57 s))))"
      using enc_groups_4 [of "take 57 s"] by simp
    ultimately show ?thesis
      using 1 [OF False] enc_groups_decode_chars [OF g pad, where s = "take 57 s"]
      by (simp add: decode_groups_append)
  qed simp
qed

subsection \<open>Quoted-printable lines\<close>

text \<open>What the decoder makes of a text: each line with its newline, and the rest at the end.\<close>

definition qp_text :: "string \<Rightarrow> string" where
  "qp_text s =
     concat (map (\<lambda>l. qp_dec (l @ [nl])) (butlast (split_nl s))) @ qp_dec (last (split_nl s))"

lemma qp_text_line: "nl \<notin> set x \<Longrightarrow> qp_text (x @ nl # s) = qp_dec (x @ [nl]) @ qp_text s"
  by (simp add: qp_text_def split_nl_line)

lemma qp_text_nonl: "nl \<notin> set x \<Longrightarrow> qp_text x = qp_dec x"
  by (simp add: qp_text_def split_nl_plain)

lemma qp_text_piece:
  assumes "nl \<notin> set x" "\<And>r. qp_dec (x @ r) = d @ qp_dec r"
  shows "qp_text (x @ s) = d @ qp_text s"
  using assms(2) by (cases "split_nl s") (auto simp: qp_text_def split_nl_nonl [OF assms(1)])

lemma xdigit_index_nth: "n < 16 \<Longrightarrow> xdigit_index (xdigit ! n) = Some n"
proof -
  have "distinct xdigit" "length xdigit = 16"
    by (simp_all add: xdigit_def)
  then show "n < 16 \<Longrightarrow> ?thesis"
    by (simp add: xdigit_index_def index_distinct)
qed

lemma xdigit_nonspace: "n < 16 \<Longrightarrow> xdigit ! n \<noteq> nul \<and> \<not> isspace (xdigit ! n)"
proof -
  have "list_all (\<lambda>c. c \<noteq> nul \<and> \<not> isspace c) xdigit" "length xdigit = 16"
    by (simp_all add: xdigit_def isspace_def)
  then show "n < 16 \<Longrightarrow> ?thesis" by (simp add: list_all_length)
qed

lemma qp_escape_decode: "qp_dec (qp_escape c @ r) = c # qp_dec r"
proof -
  have i: "code c div 16 < 16" "code c mod 16 < 16"
    using code_less_256 [of c] by (simp_all add: less_mult_imp_div_less)
  have "code c div 16 * 16 + code c mod 16 = code c"
    by simp
  then show ?thesis
    using xdigit_nonspace [OF i(1)] xdigit_nonspace [OF i(2)] xdigit_index_nth [OF i(1)]
      xdigit_index_nth [OF i(2)]
    by (simp add: qp_escape_def del: div_mult_mod_eq)
qed

lemma qp_text_enc: "qp_text (qp_enc col s) = s"
proof (induction s arbitrary: col)
  case (Cons c s)
  have soft: "qp_text (CHR ''='' # nl # r) = qp_text r" for r
    using qp_text_line [of "''=''" r] by (simp add: isspace_def)
  have line: "qp_text (nl # r) = nl # qp_text r" for r
    using qp_text_line [of "[]" r] by simp
  have esc: "qp_text (qp_escape c @ r) = c # qp_text r" for r
    using qp_text_piece [of "qp_escape c" "[c]" r] qp_escape_nonl(1) qp_escape_decode by simp
  have plain: "\<not> qp_special c \<Longrightarrow> c \<noteq> nl \<Longrightarrow> qp_text (c # r) = c # qp_text r" for r
    using qp_text_piece [of "[c]" "[c]" r] by (simp add: qp_special_def)
  show ?case
    using Cons by (simp add: qp_piece_def soft line esc plain)
qed (simp add: qp_text_def)

subsection \<open>What the decoders deliver\<close>

text \<open>
  What the callback will have received when the state is fed \<open>r\<close> and closed. For
  quoted-printable this holds of lines the decoder keeps whole (at most 1024 bytes).
\<close>

definition decode_total :: "string rfc2045 \<Rightarrow> string \<Rightarrow> string" where
  "decode_total p r =
     misc_decode_ptr p @
     (case decode_func p of
        Decode_raw \<Rightarrow> r
      | Decode_qp \<Rightarrow> qp_text (cd_workbuf p @ r)
      | Decode_base64 \<Rightarrow>
          decode_groups 99 (map decode64tab (filter (\<lambda>c. decode64tab c < 100) (cd_workbuf p @ r))))"

definition short_lines :: "string \<Rightarrow> bool" where
  "short_lines s \<longleftrightarrow> list_all (\<lambda>l. length l \<le> 1024) (split_nl s)"

lemma mail_safe_short: "mail_safe s \<Longrightarrow> short_lines s"
  unfolding mail_safe_def short_lines_def by (elim conjE list.pred_mono_strong) simp

lemma short_lines_line: "nl \<notin> set x \<Longrightarrow> short_lines (x @ nl # s) \<longleftrightarrow> length x \<le> 1024 \<and> short_lines s"
  by (simp add: short_lines_def split_nl_line)

lemma short_lines_nonl: "nl \<notin> set x \<Longrightarrow> short_lines x \<longleftrightarrow> length x \<le> 1024"
  by (simp add: short_lines_def split_nl_plain)

lemma udecode_save: "udecode save_str p s = (p\<lparr>misc_decode_ptr := misc_decode_ptr p @ s\<rparr>, 0)"
  by (simp add: udecode_def save_str_def)

lemma do_decode_qp_save:
  "do_decode_qp save_str p = (p\<lparr>cd_workbuf := [], misc_decode_ptr := misc_decode_ptr p @ qp_dec (cd_workbuf p)\<rparr>, 0)"
  by (simp add: do_decode_qp_def udecode_save)

lemma do_decode_base64_total:
  assumes "decode_func p = Decode_base64"
  shows "\<exists>p'. do_decode_base64 save_str p = (p', 0) \<and> decode_func p' = Decode_base64 \<and>
    decode_total p' r = decode_total p r \<and> misc_decode_ptr p' = decode_total p []"
proof -
  define w where "w = filter (\<lambda>c. decode64tab c < 100) (cd_workbuf p)"
  define i where "i = length w div 4 * 4"
  have "filter (\<lambda>c. decode64tab c < 100) (drop i w) = drop i w"
    using set_drop_subset [of i w] by (auto simp: filter_id_conv w_def)
  moreover have "decode_groups 99 (map decode64tab (take i w)) @ decode_groups 99 (map decode64tab (drop i w) @ ys)
      = decode_groups 99 (map decode64tab w @ ys)" for ys
    using decode_groups_split [of 99 "map decode64tab w" ys] by (simp add: i_def take_map drop_map)
  moreover have "decode_groups 99 (map decode64tab (take i w)) = decode_groups 99 (map decode64tab w)"
    using decode_groups_take [of 99 "map decode64tab w"] by (simp add: i_def take_map)
  ultimately show ?thesis
    using assms by (simp add: do_decode_base64_def decode_total_def udecode_save Let_def
        w_def [symmetric] i_def [symmetric])
qed

lemma decode_base64_total:
  assumes "decode_func p = Decode_base64"
  shows "\<exists>p'. decode_base64 save_str p s = (p', 0) \<and> decode_func p' = Decode_base64 \<and>
    decode_total p' r = decode_total p (s @ r)"
proof -
  have "decode_total (add_workbuf p s) r = decode_total p (s @ r)" "decode_func (add_workbuf p s) = Decode_base64"
    using assms by (simp_all add: decode_total_def add_workbuf_def)
  with do_decode_base64_total [of "add_workbuf p s" r] show ?thesis
    by (auto simp: decode_base64_def Let_def)
qed

lemma decode_raw_total:
  "decode_func p = Decode_raw \<Longrightarrow> \<exists>p'. decode_raw save_str p s = (p', 0) \<and> decode_func p' = Decode_raw \<and>
    decode_total p' r = decode_total p (s @ r)"
  by (simp add: decode_raw_def udecode_save decode_total_def)

text \<open>The decoder of quoted-printable, one line at a time.\<close>

lemma decode_qp_Nil: "decode_qp f p [] = (p, 0)"
  by (subst decode_qp.simps) simp

lemma decode_qp_nonl:
  assumes "nl \<notin> set x" "length (cd_workbuf p @ x) \<le> 1024"
  shows "decode_qp f p x = (add_workbuf p x, 0)"
proof -
  have tw: "takeWhile (\<lambda>c. c \<noteq> nl) x = x"
    using assms(1) by (auto simp: takeWhile_eq_all_conv)
  have sp: "qp_spill f (add_workbuf p x) = (add_workbuf p x, 0)"
    using assms(2) by (simp add: qp_spill_def add_workbuf_def)
  show ?thesis
    by (subst decode_qp.simps) (simp add: Let_def decode_qp_Nil tw sp, simp add: add_workbuf_def)
qed

lemma decode_qp_line:
  assumes "nl \<notin> set x"
  shows "decode_qp save_str p (x @ nl # s) = decode_qp save_str
    (p\<lparr>misc_decode_ptr := misc_decode_ptr p @ qp_dec (cd_workbuf p @ x @ [nl]), cd_workbuf := []\<rparr>) s"
proof -
  have tw: "takeWhile (\<lambda>c. c \<noteq> nl) (x @ nl # s) = x"
    using assms by (simp add: takeWhile_append)
  show ?thesis
    by (subst decode_qp.simps)
      (simp add: Let_def tw do_decode_qp_save add_workbuf_def qp_spill_def del: takeWhile_append2)
qed

lemma decode_qp_total:
  "decode_func p = Decode_qp \<Longrightarrow> nl \<notin> set (cd_workbuf p) \<Longrightarrow> short_lines (cd_workbuf p @ s) \<Longrightarrow>
    \<exists>p'. decode_qp save_str p s = (p', 0) \<and> decode_func p' = Decode_qp \<and> nl \<notin> set (cd_workbuf p') \<and>
      (\<forall>r. decode_total p' r = decode_total p (s @ r) \<and>
        (short_lines (cd_workbuf p' @ r) \<longleftrightarrow> short_lines (cd_workbuf p @ s @ r)))"
proof (induction "length s" arbitrary: p s rule: less_induct)
  case less
  define x where "x = takeWhile (\<lambda>c. c \<noteq> nl) s"
  have x: "nl \<notin> set (cd_workbuf p @ x)"
    using less.prems(2) by (auto simp: x_def dest: set_takeWhileD)
  have rest: "drop (length x) s = dropWhile (\<lambda>c. c \<noteq> nl) s"
    by (simp add: x_def dropWhile_eq_drop)
  have "x @ dropWhile (\<lambda>c. c \<noteq> nl) s = s"
    by (simp add: x_def)
  then have split: "s = x @ drop (length x) s"
    by (simp only: rest)
  show ?case
  proof (cases "drop (length x) s")
    case Nil
    with split have s: "s = x" by simp
    then have "length (cd_workbuf p @ x) \<le> 1024"
      using less.prems(3) x short_lines_nonl by blast
    then have "decode_qp save_str p s = (add_workbuf p s, 0)"
      using s x decode_qp_nonl [of x p] by simp
    then show ?thesis
      using s x less.prems(1) by (simp add: add_workbuf_def decode_total_def)
  next
    case (Cons c t)
    then have "c = nl"
      using hd_dropWhile [of "\<lambda>c. c \<noteq> nl" s] unfolding rest by simp
    with Cons split have s: "s = x @ nl # t" by simp
    have short: "short_lines t"
      using less.prems(3) x short_lines_line [of "cd_workbuf p @ x" t] by (simp add: s)
    define p1 where "p1 = p\<lparr>misc_decode_ptr := misc_decode_ptr p @ qp_dec (cd_workbuf p @ x @ [nl]), cd_workbuf := []\<rparr>"
    have "decode_qp save_str p s = decode_qp save_str p1 t"
      using x decode_qp_line [of x p t] by (simp add: s p1_def)
    moreover have "length t < length s"
      using s by simp
    then obtain p' where "decode_qp save_str p1 t = (p', 0)" "decode_func p' = Decode_qp"
      "nl \<notin> set (cd_workbuf p')"
      "\<forall>r. decode_total p' r = decode_total p1 (t @ r) \<and>
        (short_lines (cd_workbuf p' @ r) \<longleftrightarrow> short_lines (t @ r))"
      using less.hyps [of t p1] less.prems(1) short by (auto simp: p1_def)
    moreover have "decode_total p1 (t @ r) = decode_total p (s @ r)" for r
      using less.prems(1) x qp_text_line [of "cd_workbuf p @ x" "t @ r"] by (simp add: p1_def s decode_total_def)
    moreover have "short_lines (cd_workbuf p @ s @ r) \<longleftrightarrow> short_lines (t @ r)" for r
      using less.prems(3) x short_lines_line [of "cd_workbuf p @ x" "t @ r"]
        short_lines_line [of "cd_workbuf p @ x" t] by (simp add: s)
    ultimately show ?thesis by auto
  qed
qed

text \<open>The whole decoder: the state after a piece, and what has been delivered at the end.\<close>

definition decode_wf :: "string rfc2045 \<Rightarrow> string \<Rightarrow> bool" where
  "decode_wf p r \<longleftrightarrow>
     (decode_func p = Decode_qp \<longrightarrow> nl \<notin> set (cd_workbuf p) \<and> short_lines (cd_workbuf p @ r))"

lemma short_lines_append: "short_lines (x @ y) \<Longrightarrow> short_lines x"
proof (induction "length x" arbitrary: x rule: less_induct)
  case less
  show ?case
  proof (cases "nl \<in> set x")
    case True
    then obtain l t where x: "x = l @ nl # t" "nl \<notin> set l"
      by (meson split_list_first)
    then show ?thesis
      using less.hyps [of t] less.prems by (simp add: short_lines_line)
  next
    case False
    then have "length x + length (hd (split_nl y)) \<le> 1024"
      using less.prems by (simp add: short_lines_def split_nl_nonl)
    with False show ?thesis by (simp add: short_lines_nonl)
  qed
qed

lemma rfc2045_cdecode_total:
  assumes "decode_wf p (s @ r)"
  shows "\<exists>p'. rfc2045_cdecode save_str p s = (p', 0) \<and> decode_wf p' r \<and>
    decode_total p' r = decode_total p (s @ r)"
proof (cases "decode_func p")
  case Decode_raw
  then show ?thesis
    using decode_raw_total [of p s r] by (auto simp: rfc2045_cdecode_def decode_wf_def)
next
  case Decode_qp
  have "short_lines (cd_workbuf p @ s)"
    using assms Decode_qp short_lines_append [of "cd_workbuf p @ s" r] by (simp add: decode_wf_def)
  with Decode_qp show ?thesis
    using decode_qp_total [of p s] assms by (auto simp: rfc2045_cdecode_def decode_wf_def)
next
  case Decode_base64
  then show ?thesis
    using decode_base64_total [of p s r] by (auto simp: rfc2045_cdecode_def decode_wf_def)
qed

lemma rfc2045_cdecode_end_total:
  assumes "decode_wf p []"
  shows "\<exists>p'. rfc2045_cdecode_end save_str p = (p', 0) \<and> misc_decode_ptr p' = decode_total p []"
proof (cases "decode_func p")
  case Decode_qp
  with assms show ?thesis
    by (simp add: rfc2045_cdecode_end_def do_decode_qp_save decode_total_def decode_wf_def qp_text_nonl)
next
  case Decode_base64
  with do_decode_base64_total [OF this, of "[]"] show ?thesis
    by (auto simp: rfc2045_cdecode_end_def)
qed (simp add: rfc2045_cdecode_end_def decode_total_def)

lemma cdecode_pieces_total:
  "decode_wf p (concat ss @ r) \<Longrightarrow>
    \<exists>p'. cdecode_pieces save_str p ss = (p', 0) \<and> decode_wf p' r \<and>
      decode_total p' r = decode_total p (concat ss @ r)"
proof (induction ss arbitrary: p)
  case (Cons s ss)
  obtain p1 where "rfc2045_cdecode save_str p s = (p1, 0)" "decode_wf p1 (concat ss @ r)"
    "decode_total p1 (concat ss @ r) = decode_total p (s @ concat ss @ r)"
    using rfc2045_cdecode_total [of p s "concat ss @ r"] Cons.prems by auto
  with Cons.IH [of p1] show ?case by simp
qed simp

lemma content_decode_total:
  assumes "te = Some ''quoted-printable'' \<Longrightarrow> short_lines (concat ss)"
  shows "content_decode te ss = Some (decode_total (rfc2045_cdecode_start te []) (concat ss))"
proof -
  have "decode_wf (rfc2045_cdecode_start te []) (concat ss @ [])"
    using assms by (simp add: decode_wf_def rfc2045_cdecode_start_def)
  from cdecode_pieces_total [OF this] show ?thesis
    using rfc2045_cdecode_end_total by (fastforce simp: content_decode_def)
qed

text \<open>The base64 and the plain decoder satisfy the contract of a consumer.\<close>

interpretation cdecode: consumer "\<lambda>p s. fst (rfc2045_cdecode save_str p s)"
  "\<lambda>p. decode_func p \<noteq> Decode_qp" decode_total
proof
  fix p :: "string rfc2045" and s r :: string
  assume p: "decode_func p \<noteq> Decode_qp"
  show "decode_total (fst (rfc2045_cdecode save_str p s)) r = decode_total p (s @ r)"
    using rfc2045_cdecode_total [of p s r] p by (auto simp: decode_wf_def)
  show "decode_func (fst (rfc2045_cdecode save_str p s)) \<noteq> Decode_qp"
    using p decode_raw_total [of p s r] decode_base64_total [of p s r]
    by (cases "decode_func p") (auto simp: rfc2045_cdecode_def)
qed

lemma base64_total_enc:
  "decode_groups 99 (map decode64tab (filter (\<lambda>c. decode64tab c < 100) (b64_text s))) = s"
  by (rule b64_text_decode) (simp_all add: decode64tab_tab decode64tab_pad)

interpretation quoted_printable: codec "qp_enc 0" "\<lambda>e. content_decode (Some ''quoted-printable'') [e]"
  "\<lambda>s. True"
proof
  fix s
  have "content_decode (Some ''quoted-printable'') [qp_enc 0 s] =
      Some (decode_total (rfc2045_cdecode_start (Some ''quoted-printable'') []) (concat [qp_enc 0 s]))"
    using mail_safe_short [OF qp_safe [of s]]
    by (intro content_decode_total) (simp only: concat.simps append_Nil2)
  moreover have "decode_total (rfc2045_cdecode_start (Some ''quoted-printable'') []) r = qp_text r" for r
    by (simp add: decode_total_def rfc2045_cdecode_start_def)
  ultimately show "content_decode (Some ''quoted-printable'') [qp_enc 0 s] = Some s"
    by (simp only: qp_text_enc concat.simps append_Nil2)
qed

interpretation base64: codec b64_text "\<lambda>e. content_decode (Some ''base64'') [e]" "\<lambda>s. True"
proof
  fix s
  have "decode_total (rfc2045_cdecode_start (Some ''base64'') []) r =
      decode_groups 99 (map decode64tab (filter (\<lambda>c. decode64tab c < 100) r))" for r
    by (simp add: decode_total_def rfc2045_cdecode_start_def)
  moreover have "content_decode (Some ''base64'') [b64_text s] =
      Some (decode_total (rfc2045_cdecode_start (Some ''base64'') []) (concat [b64_text s]))"
    by (rule content_decode_total) simp
  ultimately show "content_decode (Some ''base64'') [b64_text s] = Some s"
    by (simp only: base64_total_enc concat.simps append_Nil2)
qed

subsection \<open>The decoder of \<^verbatim>\<open>base64.c\<close>\<close>

text \<open>What its callback will have received when it is fed \<open>r\<close> and closed.\<close>

definition base64_str_total :: "string base64decode \<Rightarrow> string \<Rightarrow> string" where
  "base64_str_total b r =
     decode_arg b @
     decode_groups 100 (workbuf b @ map (the \<circ> base64_symbol) (filter (\<lambda>c. base64_symbol c \<noteq> None) r))"

lemma base64_doflush_total:
  "\<exists>b'. base64_doflush save_str b = (b', 0) \<and> base64_str_total b' r = base64_str_total b r \<and>
    decode_arg b' = base64_str_total b []"
  by (simp add: base64_doflush_def save_str_def base64_str_total_def Let_def
      decode_groups_split [unfolded decode_groups_take] decode_groups_take)

lemma base64_decode_total:
  "\<exists>b'. base64_decode save_str b s = (b', 0) \<and> base64_str_total b' r = base64_str_total b (s @ r)"
proof (induction s arbitrary: b)
  case (Cons c s)
  obtain b1 where b1: "(if length (workbuf b) \<ge> 256 then base64_doflush save_str b else (b, 0)) = (b1, 0)"
    "base64_str_total b1 (c # s @ r) = base64_str_total b (c # s @ r)"
    using base64_doflush_total [of b "c # s @ r"] by (cases "length (workbuf b) \<ge> 256") auto
  show ?case
  proof (cases "base64_symbol c")
    case None
    then have "base64_str_total b1 (s @ r) = base64_str_total b1 (c # s @ r)"
      by (simp add: base64_str_total_def)
    with None b1 Cons.IH [of b1] show ?thesis by simp
  next
    case (Some n)
    then have "base64_str_total (b1\<lparr>workbuf := workbuf b1 @ [n]\<rparr>) (s @ r) = base64_str_total b1 (c # s @ r)"
      by (simp add: base64_str_total_def)
    with Some b1 Cons.IH [of "b1\<lparr>workbuf := workbuf b1 @ [n]\<rparr>"] show ?thesis by simp
  qed
qed simp

interpretation base64_stream: consumer "\<lambda>b s. fst (base64_decode save_str b s)" "\<lambda>b. True" base64_str_total
  using base64_decode_total by unfold_locales (metis fst_conv)+

lemma base64_decode_str_total: "base64_decode_str s = base64_str_total (base64_decode_init []) s"
proof -
  obtain b where "base64_decode save_str (base64_decode_init []) s = (b, 0)"
    "base64_str_total b [] = base64_str_total (base64_decode_init []) s"
    using base64_decode_total [of "base64_decode_init []" s "[]"] by auto
  then show ?thesis
    using base64_doflush_total [of b "[]"] by (auto simp: base64_decode_str_def base64_decode_end_def)
qed

lemma base64_symbol_tab: "n < 64 \<Longrightarrow> base64_symbol (base64tab ! n) = Some n"
proof -
  have "length base64tab = 64"
    by (simp add: base64tab_def)
  then have "n < 64 \<Longrightarrow> base64tab ! n \<in> set base64tab"
    by simp
  then show "n < 64 \<Longrightarrow> ?thesis"
    using base64tab_index [of n] base64tab_not_pad [of n]
    by (auto simp: base64_symbol_def Let_def takeWhile_append)
qed

text \<open>
  C3. The MIME decoders undo the encoders: a message passed to the encoder in any pieces, with
  an output buffer of any size, and what that delivers passed to the decoder in any other pieces,
  comes back byte by byte. This holds for quoted-printable, for base64 and for the encodings
  that leave the text as it is.
\<close>

theorem content_decode_encoded:
  assumes "0 < bufsiz"
    and "te \<in> {''quoted-printable'', ''base64''} \<or> cread te \<notin> {CHR ''q'', CHR ''Q'', CHR ''b'', CHR ''B''}"
  shows "\<exists>info info'.
    rfc2045_encode_pieces bufsiz save_str (rfc2045_encode_start te []) pieces = (info, 0) \<and>
    rfc2045_encode_end bufsiz save_str info = (info', 0) \<and>
    (\<forall>chunks. concat chunks = callback_arg info' \<longrightarrow> content_decode (Some te) chunks = Some (concat pieces))"
proof -
  let ?e = "encoded_text te (concat pieces)"
  have "content_decode (Some te) chunks = Some (concat pieces)" if c: "concat chunks = ?e" for chunks
  proof -
    consider (qp) "te = ''quoted-printable''" "?e = qp_enc 0 (concat pieces)"
      | (b64) "te = ''base64''" "?e = b64_text (concat pieces)"
      | (raw) "te \<noteq> ''quoted-printable''" "te \<noteq> ''base64''" "?e = concat pieces"
      using assms(2) by (cases "te = ''quoted-printable''"; cases "te = ''base64''")
        (auto simp: encoded_text_def)
    then show ?thesis
    proof cases
      case qp
      with c show ?thesis
        using mail_safe_short [OF qp_safe [of "concat pieces"]]
        by (subst content_decode_total)
          (simp_all add: decode_total_def rfc2045_cdecode_start_def qp_text_enc)
    next
      case b64
      with c show ?thesis
        by (subst content_decode_total)
          (simp_all only: decode_total_def rfc2045_cdecode_start_def, simp_all add: base64_total_enc)
    next
      case raw
      with c show ?thesis
        by (subst content_decode_total) (simp_all add: decode_total_def rfc2045_cdecode_start_def)
    qed
  qed
  then show ?thesis
    using rfc2045_encode_whole [OF assms(1), of te pieces] by metis
qed

theorem content_decode_encoded_witness:
  "\<exists>info info'.
    rfc2045_encode_pieces 3 save_str (rfc2045_encode_start ''base64'' []) [''ab'', ''cdefg''] = (info, 0) \<and>
    rfc2045_encode_end 3 save_str info = (info', 0) \<and>
    (\<forall>chunks. concat chunks = callback_arg info' \<longrightarrow> content_decode (Some ''base64'') chunks = Some ''abcdefg'')"
  using content_decode_encoded [of 3 "''base64''" "[''ab'', ''cdefg'']"] by simp

text \<open>
  \<open>base64_decode_str\<close> decodes what the encoder makes, across the flushes of its buffer of
  256 symbols: the newlines are skipped, the pads drop the bytes that are not there.
\<close>

theorem base64_decode_str_text: "base64_decode_str (b64_text s) = s"
proof -
  have "decode_groups 100 (map (the \<circ> base64_symbol) (filter (\<lambda>c. base64_symbol c \<noteq> None) (b64_text s))) = s"
    by (rule b64_text_decode)
      (simp_all add: base64_symbol_tab, simp_all add: base64_symbol_def base64tab_def)
  then show ?thesis
    unfolding base64_decode_str_total by (simp only: base64_str_total_def base64_decode_init_def) simp
qed

end
