(* ===== verification/Block_Stream.thy ===== *)
theory Block_Stream
  imports C_Interfaces
begin

text \<open>
  The streaming part of the two hash functions (\<^verbatim>\<open>md5/md5.c\<close> and \<^verbatim>\<open>sha1/sha1.c\<close>), whose
  \<open>hashstream\<close> functions are the same loop over a context with a 64 byte block buffer, with the
  function that hashes one block as a parameter. The specification of a stream is the list of
  the bytes it was given: what counts of a context is the hash value and the bytes of the
  unfinished block.
\<close>

type_synonym byte = "8 word"

record 'h block_ctx =
  hval :: 'h
  blk :: "byte list"
  blk_ptr :: nat

text \<open>The loop of \<open>md5_context_hashstream\<close> and \<open>sha1_context_hashstream\<close>; \<^verbatim>\<open>l\<close> is the length of \<open>cp\<close>.\<close>

function hashstream :: "('h \<Rightarrow> byte list \<Rightarrow> 'h) \<Rightarrow> 'h block_ctx \<Rightarrow> byte list \<Rightarrow> 'h block_ctx" where
  "hashstream hash c cp =
     (if cp = [] then c
      else if blk_ptr c = 0 \<and> 64 \<le> length cp
      then hashstream hash (c\<lparr>hval := hash (hval c) (take 64 cp)\<rparr>) (drop 64 cp)
      else
        let ll = min (length cp) (64 - blk_ptr c);
            c = c\<lparr>blk := take (blk_ptr c) (blk c) @ take ll cp @ drop (blk_ptr c + ll) (blk c),
                  blk_ptr := blk_ptr c + ll\<rparr>;
            c = (if 64 \<le> blk_ptr c then c\<lparr>hval := hash (hval c) (blk c), blk_ptr := 0\<rparr> else c)
        in hashstream hash c (drop ll cp))"
  by pat_completeness auto
termination
  by (relation "measures [\<lambda>(hash, c, cp). length cp, \<lambda>(hash, c, cp). blk_ptr c]") auto

declare hashstream.simps [simp del]

definition ctx_wf :: "'h block_ctx \<Rightarrow> bool" where
  "ctx_wf c \<longleftrightarrow> length (blk c) = 64 \<and> blk_ptr c < 64"

definition ctx_view :: "'h block_ctx \<Rightarrow> 'h \<times> byte list" where
  "ctx_view c = (hval c, take (blk_ptr c) (blk c))"

subsection \<open>The specification\<close>

fun absorb :: "('h \<Rightarrow> byte list \<Rightarrow> 'h) \<Rightarrow> 'h \<Rightarrow> byte list \<Rightarrow> 'h \<times> byte list" where
  "absorb hash h xs =
     (if length xs < 64 then (h, xs) else absorb hash (hash h (take 64 xs)) (drop 64 xs))"

declare absorb.simps [simp del]

lemma absorb_short: "length xs < 64 \<Longrightarrow> absorb hash h xs = (h, xs)"
  by (simp add: absorb.simps)

lemma absorb_block: "length xs = 64 \<Longrightarrow> absorb hash h (xs @ ys) = absorb hash (hash h xs) ys"
  by (subst absorb.simps) simp

lemma absorb_append:
  "absorb hash h (xs @ ys) = (case absorb hash h xs of (h', r) \<Rightarrow> absorb hash h' (r @ ys))"
proof (induction hash h xs rule: absorb.induct)
  case (1 hash h xs)
  show ?case
  proof (cases "length xs < 64")
    case True
    then show ?thesis by (simp add: absorb_short)
  next
    case False
    then have "absorb hash h (xs @ ys) = absorb hash (hash h (take 64 xs)) (drop 64 xs @ ys)"
      using absorb_block [of "take 64 xs" hash h "drop 64 xs @ ys"]
      by (simp flip: append_assoc)
    moreover have "absorb hash h xs = absorb hash (hash h (take 64 xs)) (drop 64 xs)"
      using False by (subst absorb.simps) simp
    ultimately show ?thesis
      using 1 [OF False] by simp
  qed
qed

lemma absorb_rest: "length (snd (absorb hash h xs)) = length xs mod 64"
proof (induction hash h xs rule: absorb.induct)
  case (1 hash h xs)
  then show ?case
    by (subst absorb.simps) (auto simp: mod_if [of "length xs"])
qed

text \<open>The loop implements the specification, from the bytes the context holds.\<close>

lemma hashstream_absorb:
  "ctx_wf c \<Longrightarrow>
    ctx_wf (hashstream hash c cp) \<and>
    ctx_view (hashstream hash c cp) = absorb hash (hval c) (take (blk_ptr c) (blk c) @ cp)"
proof (induction hash c cp rule: hashstream.induct)
  case (1 hash c cp)
  define ll where "ll = min (length cp) (64 - blk_ptr c)"
  define b where "b = take (blk_ptr c) (blk c) @ take ll cp @ drop (blk_ptr c + ll) (blk c)"
  note wf = "1.prems" [unfolded ctx_wf_def]
  consider (over) "cp = []" | (direct) "cp \<noteq> []" "blk_ptr c = 0 \<and> 64 \<le> length cp"
    | (full) "cp \<noteq> []" "\<not> (blk_ptr c = 0 \<and> 64 \<le> length cp)" "64 \<le> blk_ptr c + ll"
    | (part) "cp \<noteq> []" "\<not> (blk_ptr c = 0 \<and> 64 \<le> length cp)" "\<not> 64 \<le> blk_ptr c + ll"
    by blast
  then show ?case
  proof cases
    case over
    then show ?thesis
      using wf by (simp add: hashstream.simps ctx_wf_def ctx_view_def absorb_short)
  next
    case direct
    then have "hashstream hash c cp = hashstream hash (c\<lparr>hval := hash (hval c) (take 64 cp)\<rparr>) (drop 64 cp)"
      by (subst hashstream.simps) simp
    moreover have "absorb hash (hval c) cp = absorb hash (hash (hval c) (take 64 cp)) (drop 64 cp)"
      using direct absorb_block [of "take 64 cp" hash "hval c" "drop 64 cp"] by simp
    ultimately show ?thesis
      using "1.IH"(1) [OF direct] direct wf by (simp add: ctx_wf_def)
  next
    case full
    define c' where "c' = c\<lparr>blk := b, hval := hash (hval c) b, blk_ptr := 0\<rparr>"
    have step: "hashstream hash c cp = hashstream hash c' (drop ll cp)"
      using full by (subst hashstream.simps) (auto simp: ll_def b_def c'_def Let_def)
    have ll: "blk_ptr c + ll = 64" "ll \<le> length cp"
      using full(3) wf by (auto simp: ll_def)
    then have b: "b = take (blk_ptr c) (blk c) @ take ll cp" "length b = 64"
      using wf by (simp_all add: b_def)
    have "ctx_wf c'"
      using b wf by (simp add: ctx_wf_def c'_def)
    then have "ctx_wf (hashstream hash c' (drop ll cp)) \<and>
      ctx_view (hashstream hash c' (drop ll cp)) = absorb hash (hval c') (take (blk_ptr c') (blk c') @ drop ll cp)"
      using "1.IH"(2) [OF full(1,2) ll_def refl refl] full
      by (simp add: c'_def b_def)
    moreover have "take (blk_ptr c) (blk c) @ cp = b @ drop ll cp"
      by (simp add: b(1))
    ultimately show ?thesis
      using absorb_block [OF b(2), of hash "hval c"] by (simp add: step c'_def)
  next
    case part
    then have ll: "ll = length cp" "blk_ptr c + length cp < 64"
      using wf by (auto simp: ll_def min_def split: if_splits)
    then have "hashstream hash c cp = c\<lparr>blk := b, blk_ptr := blk_ptr c + length cp\<rparr>"
      using part by (subst hashstream.simps)
        (simp add: b_def Let_def hashstream.simps flip: ll_def)
    then show ?thesis
      using wf ll by (simp add: ctx_wf_def ctx_view_def b_def absorb_short)
  qed
qed

interpretation stream: byte_stream "hashstream hash" ctx_wf ctx_view for hash
proof unfold_locales
  fix c d :: "'a block_ctx" and xs ys
  assume c: "ctx_wf c"
  note A = hashstream_absorb [OF c, of hash]
  show "ctx_wf (hashstream hash c xs)"
    using A by blast
  then show "ctx_view (hashstream hash c (xs @ ys)) = ctx_view (hashstream hash (hashstream hash c xs) ys)"
    using A [of xs] A [of "xs @ ys"] hashstream_absorb [of "hashstream hash c xs" hash ys]
      absorb_append [of hash "hval c" "take (blk_ptr c) (blk c) @ xs" ys]
    by (auto simp: ctx_view_def [of "hashstream hash c xs"] split: prod.splits)
  show "ctx_view (hashstream hash c []) = ctx_view c"
    by (simp add: hashstream.simps)
  assume "ctx_wf d" "ctx_view c = ctx_view d"
  then show "ctx_view (hashstream hash c xs) = ctx_view (hashstream hash d xs)"
    using A [of xs] hashstream_absorb [of d hash xs] by (simp add: ctx_view_def)
qed

subsection \<open>Padding\<close>

text \<open>
  The loop of the \<open>endstream\<close> functions that fills up with zeros to 8 bytes before the end of
  a block. \<open>blk_ptr\<close> is always below 64 here, since a call of \<open>hashstream\<close> comes before it.
\<close>

lemma hashstream_part:
  "xs \<noteq> [] \<Longrightarrow> blk_ptr c + length xs < 64 \<Longrightarrow> blk_ptr (hashstream hash c xs) = blk_ptr c + length xs"
  by (subst hashstream.simps) (simp add: Let_def hashstream.simps min_def)

lemma hashstream_full:
  "xs \<noteq> [] \<Longrightarrow> 0 < blk_ptr c \<Longrightarrow> blk_ptr c + length xs = 64 \<Longrightarrow> blk_ptr (hashstream hash c xs) = 0"
  by (subst hashstream.simps) (simp add: Let_def hashstream.simps)

lemma hashstream_zeros:
  "blk_ptr c < 56 \<Longrightarrow> blk_ptr (hashstream hash c (replicate (56 - blk_ptr c) 0)) = 56"
  "56 < blk_ptr c \<Longrightarrow> blk_ptr c < 64 \<Longrightarrow>
    blk_ptr (hashstream hash c (replicate (64 - blk_ptr c) 0)) = 0"
  using hashstream_part [of "replicate (56 - blk_ptr c) 0" c hash]
    hashstream_full [of "replicate (64 - blk_ptr c) 0" c hash]
  by simp_all

function pad_loop :: "('h \<Rightarrow> byte list \<Rightarrow> 'h) \<Rightarrow> 'h block_ctx \<Rightarrow> 'h block_ctx" where
  "pad_loop hash c =
     (if blk_ptr c = 56 \<or> 64 \<le> blk_ptr c then c
      else if 56 < blk_ptr c
      then pad_loop hash (hashstream hash c (replicate (64 - blk_ptr c) 0))
      else pad_loop hash (hashstream hash c (replicate (56 - blk_ptr c) 0)))"
  by pat_completeness auto
termination
  by (relation "measure (\<lambda>(hash, c). if blk_ptr c = 56 then 0 else if blk_ptr c < 56 then 1 else 2)")
    (auto simp: hashstream_zeros)

declare pad_loop.simps [simp del]

text \<open>What is appended to a message of \<open>n\<close> bytes before its length.\<close>

definition md_pad :: "nat \<Rightarrow> byte list" where
  "md_pad n = 0x80 # replicate (if n mod 64 < 56 then 55 - n mod 64 else 119 - n mod 64) 0"

lemma mod64_small: "x < 128 \<Longrightarrow> x mod 64 = (if x < 64 then x else x - 64)" for x :: nat
  by (simp add: mod_if)

definition streamed :: "('h \<Rightarrow> byte list \<Rightarrow> 'h) \<Rightarrow> 'h \<Rightarrow> byte list \<Rightarrow> 'h block_ctx \<Rightarrow> bool" where
  "streamed hash h xs c \<longleftrightarrow> ctx_wf c \<and> ctx_view c = absorb hash h xs"

lemma streamed_hashstream:
  "streamed hash h xs c \<Longrightarrow> streamed hash h (xs @ ys) (hashstream hash c ys)"
  using hashstream_absorb [of c hash ys]
  by (auto simp: streamed_def absorb_append [of hash h xs] ctx_view_def split: prod.splits)

lemma streamed_ptr: "streamed hash h xs c \<Longrightarrow> blk_ptr c = length xs mod 64"
proof -
  assume c: "streamed hash h xs c"
  then have "length (snd (ctx_view c)) = length xs mod 64"
    using absorb_rest [of hash h xs] by (simp add: streamed_def)
  moreover have "ctx_wf c"
    using c by (simp add: streamed_def)
  then have "length (snd (ctx_view c)) = blk_ptr c"
    by (simp add: ctx_view_def ctx_wf_def)
  ultimately show ?thesis by simp
qed

lemma mod64_fill: "length xs mod 64 = p \<Longrightarrow> p + k = m \<Longrightarrow> m < 128 \<Longrightarrow>
    (length xs + k) mod 64 = (if m < 64 then m else m - 64)" for xs :: "'a list"
  using mod64_small [of m] mod_add_left_eq [of "length xs" 64 k] by simp

text \<open>The loop in closed form: it runs at most twice.\<close>

lemma pad_loop_closed:
  "blk_ptr c < 64 \<Longrightarrow> pad_loop hash c =
    (if blk_ptr c = 56 then c
     else if 56 < blk_ptr c
     then hashstream hash (hashstream hash c (replicate (64 - blk_ptr c) 0)) (replicate 56 0)
     else hashstream hash c (replicate (56 - blk_ptr c) 0))"
proof -
  have low: "blk_ptr c < 56 \<Longrightarrow> pad_loop hash c = hashstream hash c (replicate (56 - blk_ptr c) 0)" for c
    using hashstream_zeros(1) [of c hash]
    by (simp add: pad_loop.simps [of hash c]
        pad_loop.simps [of hash "hashstream hash c (replicate (56 - blk_ptr c) 0)"])
  have "56 < blk_ptr c \<Longrightarrow> blk_ptr c < 64 \<Longrightarrow>
      pad_loop hash c = pad_loop hash (hashstream hash c (replicate (64 - blk_ptr c) 0))"
    by (simp add: pad_loop.simps [of hash c])
  then show "blk_ptr c < 64 \<Longrightarrow> ?thesis"
    using low [of c] low [of "hashstream hash c (replicate (64 - blk_ptr c) 0)"] hashstream_zeros(2) [of c hash]
    by (cases "blk_ptr c = 56") (simp_all add: pad_loop.simps [of hash c])
qed

lemma streamed_zeros:
  "streamed hash h xs c \<Longrightarrow> 56 < blk_ptr c \<Longrightarrow>
    streamed hash h (xs @ replicate (120 - blk_ptr c) 0)
      (hashstream hash (hashstream hash c (replicate (64 - blk_ptr c) 0)) (replicate 56 0))"
proof -
  assume c: "streamed hash h xs c" "56 < blk_ptr c"
  then have "blk_ptr c < 64"
    by (simp add: streamed_def ctx_wf_def)
  then have "replicate (120 - blk_ptr c) 0 = replicate (64 - blk_ptr c) 0 @ replicate 56 (0 :: byte)"
    by (simp flip: replicate_add)
  then show ?thesis
    using streamed_hashstream [OF streamed_hashstream [OF c(1)], of "replicate (64 - blk_ptr c) 0" "replicate 56 0"]
    by simp
qed

lemma pad_loop_streamed:
  assumes c: "streamed hash h xs c"
  shows "streamed hash h
    (xs @ replicate (if length xs mod 64 \<le> 56 then 56 - length xs mod 64 else 120 - length xs mod 64) 0)
    (pad_loop hash c)"
  using streamed_ptr [OF c] streamed_zeros [OF c] c streamed_hashstream [OF c]
  by (auto simp: pad_loop_closed)

lemma md_pad_split:
  "md_pad n = 0x80 # replicate (if Suc n mod 64 \<le> 56 then 56 - Suc n mod 64 else 120 - Suc n mod 64) 0"
proof -
  have n: "n mod 64 < 64" "Suc n mod 64 = Suc (n mod 64) mod 64"
    by (simp_all add: mod_Suc_eq)
  then show ?thesis
    using mod64_small [of "Suc (n mod 64)"] by (auto simp: md_pad_def)
qed

lemma streamed_pad:
  assumes "streamed hash h xs c"
  shows "streamed hash h (xs @ md_pad (length xs)) (pad_loop hash (hashstream hash c [0x80]))"
  using pad_loop_streamed [OF streamed_hashstream [OF assms, of "[0x80]"]]
  by (cases "Suc (length xs) mod 64 \<le> 56") (simp_all add: md_pad_split)

lemma md_pad_length: "(n + length (md_pad n)) mod 64 = 56"
  using mod64_fill [of "replicate n ()" "n mod 64" "length (md_pad n)"]
  by (simp add: md_pad_def)

end
