(* ===== verification/Md5.thy ===== *)
theory Md5
  imports Block_Stream
begin

text \<open>
  MD5 (\<^verbatim>\<open>md5/md5.c\<close>): the compression of one block, the context operations and the one-call
  digest. \<^verbatim>\<open>MD5_WORD\<close> is a 32 bit word; the block buffer is the one of \<open>Block_Stream\<close>, so a
  context is a block context over the four words.
\<close>

subsection \<open>One block\<close>

type_synonym MD5_WORD = "32 word"

record md5_words =
  md5_A :: MD5_WORD
  md5_B :: MD5_WORD
  md5_C :: MD5_WORD
  md5_D :: MD5_WORD

type_synonym MD5_CONTEXT = "md5_words block_ctx"

definition MD5_ROL :: "MD5_WORD \<Rightarrow> nat \<Rightarrow> MD5_WORD" where
  "MD5_ROL w n = push_bit n w OR drop_bit (32 - n) w"

definition md5_T :: "MD5_WORD list" where
  "md5_T =
    [0xd76aa478, 0xe8c7b756, 0x242070db, 0xc1bdceee, 0xf57c0faf, 0x4787c62a, 0xa8304613, 0xfd469501,
     0x698098d8, 0x8b44f7af, 0xffff5bb1, 0x895cd7be, 0x6b901122, 0xfd987193, 0xa679438e, 0x49b40821,
     0xf61e2562, 0xc040b340, 0x265e5a51, 0xe9b6c7aa, 0xd62f105d, 0x2441453, 0xd8a1e681, 0xe7d3fbc8,
     0x21e1cde6, 0xc33707d6, 0xf4d50d87, 0x455a14ed, 0xa9e3e905, 0xfcefa3f8, 0x676f02d9, 0x8d2a4c8a,
     0xfffa3942, 0x8771f681, 0x6d9d6122, 0xfde5380c, 0xa4beea44, 0x4bdecfa9, 0xf6bb4b60, 0xbebfbc70,
     0x289b7ec6, 0xeaa127fa, 0xd4ef3085, 0x4881d05, 0xd9d4d039, 0xe6db99e5, 0x1fa27cf8, 0xc4ac5665,
     0xf4292244, 0x432aff97, 0xab9423a7, 0xfc93a039, 0x655b59c3, 0x8f0ccc92, 0xffeff47d, 0x85845dd1,
     0x6fa87e4f, 0xfe2ce6e0, 0xa3014314, 0x4e0811a1, 0xf7537e82, 0xbd3af235, 0x2ad7d2bb, 0xeb86d391]"

definition md5_F :: "MD5_WORD \<Rightarrow> MD5_WORD \<Rightarrow> MD5_WORD \<Rightarrow> MD5_WORD" where
  "md5_F X Y Z = (X AND Y) OR (NOT X AND Z)"

definition md5_G :: "MD5_WORD \<Rightarrow> MD5_WORD \<Rightarrow> MD5_WORD \<Rightarrow> MD5_WORD" where
  "md5_G X Y Z = (X AND Z) OR (Y AND NOT Z)"

definition md5_H :: "MD5_WORD \<Rightarrow> MD5_WORD \<Rightarrow> MD5_WORD \<Rightarrow> MD5_WORD" where
  "md5_H X Y Z = X XOR Y XOR Z"

definition md5_I :: "MD5_WORD \<Rightarrow> MD5_WORD \<Rightarrow> MD5_WORD \<Rightarrow> MD5_WORD" where
  "md5_I X Y Z = Y XOR (X OR NOT Z)"

text \<open>
  The rows of the four rounds: which word of the block (\<open>k\<close>) and how far to rotate (\<open>s\<close>); the
  index into \<open>md5_T\<close> is the row's number. The roles of the variables rotate from a row to the
  next (A,B,C,D, then D,A,B,C, then C,D,A,B, then B,C,D,A), so the four variables are passed on
  in the roles they have in the next row.
\<close>

definition md5_rows1 :: "(nat \<times> nat) list" where
  "md5_rows1 =
    [(0, 7), (1, 12), (2, 17), (3, 22),
     (4, 7), (5, 12), (6, 17), (7, 22),
     (8, 7), (9, 12), (10, 17), (11, 22),
     (12, 7), (13, 12), (14, 17), (15, 22)]"

definition md5_rows2 :: "(nat \<times> nat) list" where
  "md5_rows2 =
    [(1, 5), (6, 9), (11, 14), (0, 20),
     (5, 5), (10, 9), (15, 14), (4, 20),
     (9, 5), (14, 9), (3, 14), (8, 20),
     (13, 5), (2, 9), (7, 14), (12, 20)]"

definition md5_rows3 :: "(nat \<times> nat) list" where
  "md5_rows3 =
    [(5, 4), (8, 11), (11, 16), (14, 23),
     (1, 4), (4, 11), (7, 16), (10, 23),
     (13, 4), (0, 11), (3, 16), (6, 23),
     (9, 4), (12, 11), (15, 16), (2, 23)]"

definition md5_rows4 :: "(nat \<times> nat) list" where
  "md5_rows4 =
    [(0, 6), (7, 10), (14, 15), (5, 21),
     (12, 6), (3, 10), (10, 15), (1, 21),
     (8, 6), (15, 10), (6, 15), (13, 21),
     (4, 6), (11, 10), (2, 15), (9, 21)]"

text \<open>\<^verbatim>\<open>zz = a + F(b,c,d) + x[k] + T[i]; a = b + MD5_ROL(zz, s)\<close>\<close>

fun md5_round ::
    "(MD5_WORD \<Rightarrow> MD5_WORD \<Rightarrow> MD5_WORD \<Rightarrow> MD5_WORD) \<Rightarrow> MD5_WORD list \<Rightarrow> nat \<Rightarrow> (nat \<times> nat) list \<Rightarrow>
      MD5_WORD \<times> MD5_WORD \<times> MD5_WORD \<times> MD5_WORD \<Rightarrow> MD5_WORD \<times> MD5_WORD \<times> MD5_WORD \<times> MD5_WORD" where
  "md5_round f x i [] v = v"
| "md5_round f x i ((k, s) # rows) (a, b, c, d) =
     (let zz = a + f b c d + x ! k + md5_T ! i;
          a = b + MD5_ROL zz s
      in md5_round f x (i + 1) rows (d, a, b, c))"

text \<open>The words of a block, least significant byte first.\<close>

fun md5_unpack :: "byte list \<Rightarrow> MD5_WORD list" where
  "md5_unpack (b0 # b1 # b2 # b3 # bs) =
     (ucast b0 OR push_bit 8 (ucast b1) OR push_bit 16 (ucast b2) OR push_bit 24 (ucast b3))
     # md5_unpack bs"
| "md5_unpack _ = []"

definition md5_context_hash :: "md5_words \<Rightarrow> byte list \<Rightarrow> md5_words" where
  "md5_context_hash v block =
     (let x = md5_unpack block;
          w = md5_round md5_F x 0 md5_rows1 (md5_A v, md5_B v, md5_C v, md5_D v);
          w = md5_round md5_G x 16 md5_rows2 w;
          w = md5_round md5_H x 32 md5_rows3 w;
          w = md5_round md5_I x 48 md5_rows4 w
      in case w of (A, B, C, D) \<Rightarrow>
           \<lparr>md5_A = md5_A v + A, md5_B = md5_B v + B, md5_C = md5_C v + C, md5_D = md5_D v + D\<rparr>)"

subsection \<open>The context\<close>

definition md5_context_init :: "MD5_CONTEXT \<Rightarrow> MD5_CONTEXT" where
  "md5_context_init c =
     c\<lparr>hval := \<lparr>md5_A = 0x67452301, md5_B = 0xefcdab89, md5_C = 0x98badcfe, md5_D = 0x10325476\<rparr>,
       blk_ptr := 0\<rparr>"

definition md5_context_hashstream :: "MD5_CONTEXT \<Rightarrow> byte list \<Rightarrow> MD5_CONTEXT" where
  "md5_context_hashstream = hashstream md5_context_hash"

text \<open>The eight bytes of the length, from a 32 bit copy of it.\<close>

definition md5_length_bytes :: "nat \<Rightarrow> byte list" where
  "md5_length_bytes ll =
     (let l = push_bit 3 (word_of_nat ll :: MD5_WORD);
          l' = drop_bit 29 (word_of_nat ll :: MD5_WORD)
      in [ucast l, ucast (drop_bit 8 l), ucast (drop_bit 16 l), ucast (drop_bit 24 l),
          ucast l', ucast (drop_bit 8 l'), ucast (drop_bit 16 l'), ucast (drop_bit 24 l')])"

definition md5_context_endstream :: "MD5_CONTEXT \<Rightarrow> nat \<Rightarrow> MD5_CONTEXT" where
  "md5_context_endstream c ll =
     (let c = md5_context_hashstream c [0x80];
          c = pad_loop md5_context_hash c
      in md5_context_hashstream c (md5_length_bytes ll))"

definition md5_put :: "MD5_WORD \<Rightarrow> byte list" where
  "md5_put w = [ucast w, ucast (drop_bit 8 w), ucast (drop_bit 16 w), ucast (drop_bit 24 w)]"

definition md5_context_digest :: "MD5_CONTEXT \<Rightarrow> byte list" where
  "md5_context_digest c =
     md5_put (md5_A (hval c)) @ md5_put (md5_B (hval c)) @ md5_put (md5_C (hval c))
     @ md5_put (md5_D (hval c))"

text \<open>\<open>GET\<close> reads the four bytes before its pointer, the last one first.\<close>

definition md5_get :: "byte list \<Rightarrow> MD5_WORD" where
  "md5_get bs = foldl (\<lambda>w b. push_bit 8 w OR ucast b) 0 (rev bs)"

definition md5_context_restore :: "MD5_CONTEXT \<Rightarrow> byte list \<Rightarrow> MD5_CONTEXT" where
  "md5_context_restore c d =
     c\<lparr>hval := \<lparr>md5_A = md5_get (take 4 d), md5_B = md5_get (take 4 (drop 4 d)),
        md5_C = md5_get (take 4 (drop 8 d)), md5_D = md5_get (take 4 (drop 12 d))\<rparr>,
       blk_ptr := 0\<rparr>"

text \<open>The context starts with whatever is on the stack.\<close>

definition md5_digest :: "MD5_CONTEXT \<Rightarrow> byte list \<Rightarrow> byte list" where
  "md5_digest stack msg =
     (let c = md5_context_init stack;
          c = md5_context_hashstream c msg;
          c = md5_context_endstream c (length msg)
      in md5_context_digest c)"

subsection \<open>The digest of a message\<close>

text \<open>
  The specification: the message, padded and followed by its length in bits as 64 bits, least
  significant byte first, hashed block by block.
\<close>

definition md5_IV :: md5_words where
  "md5_IV = \<lparr>md5_A = 0x67452301, md5_B = 0xefcdab89, md5_C = 0x98badcfe, md5_D = 0x10325476\<rparr>"

definition le_bytes :: "nat \<Rightarrow> nat \<Rightarrow> byte list" where
  "le_bytes n v = map (\<lambda>i. word_of_nat (v div 2 ^ (8 * i))) [0..<n]"

definition md5_padded :: "byte list \<Rightarrow> byte list" where
  "md5_padded msg = msg @ md_pad (length msg) @ le_bytes 8 (8 * length msg)"

definition md5_spec :: "byte list \<Rightarrow> md5_words" where
  "md5_spec msg = fst (absorb md5_context_hash md5_IV (md5_padded msg))"

lemma ucast_drop_bit_nat:
  "k + 8 \<le> 32 \<Longrightarrow> ucast (drop_bit k (word_of_nat m :: 32 word)) = (word_of_nat (m div 2 ^ k) :: 8 word)"
  by (rule bit_word_eqI) (auto simp: bit_simps simp flip: drop_bit_eq_div)

lemma push_bit_word_of_nat: "push_bit k (word_of_nat m :: 32 word) = word_of_nat (m * 2 ^ k)"
  by (simp add: push_bit_eq_mult)

lemma drop_bit_word_of_nat:
  "m < 2 ^ 32 \<Longrightarrow> drop_bit k (word_of_nat m :: 32 word) = word_of_nat (m div 2 ^ k)"
proof -
  assume "m < 2 ^ 32"
  then have "unat (word_of_nat m :: 32 word) = m"
    by (simp add: unat_of_nat take_bit_nat_eq_self)
  moreover have "m div 2 ^ k < 2 ^ 32"
    using \<open>m < 2 ^ 32\<close> by (meson div_le_dividend le_less_trans)
  ultimately show ?thesis
    by (simp add: word_unat_eq_iff unat_drop_bit_eq drop_bit_eq_div [of k m] unat_of_nat take_bit_nat_eq_self)
qed

lemma md5_length_bytes_le: "ll < 2 ^ 32 \<Longrightarrow> md5_length_bytes ll = le_bytes 8 (8 * ll)"
  using ucast_drop_bit_nat [of 0 "8 * ll"] ucast_drop_bit_nat [of 8 "8 * ll"]
    ucast_drop_bit_nat [of 16 "8 * ll"] ucast_drop_bit_nat [of 24 "8 * ll"]
    ucast_drop_bit_nat [of 0 "ll div 2 ^ 29"] ucast_drop_bit_nat [of 8 "ll div 2 ^ 29"]
    ucast_drop_bit_nat [of 16 "ll div 2 ^ 29"] ucast_drop_bit_nat [of 24 "ll div 2 ^ 29"]
  by (simp add: md5_length_bytes_def le_bytes_def push_bit_word_of_nat drop_bit_word_of_nat
      upt_rec [of 0 8] upt_rec [of "Suc k" 8 for k] mult.commute Let_def flip: div_mult2_eq)

text \<open>The invariant of a stream: the context holds what the specification made of the bytes.\<close>

definition md5_streamed :: "byte list \<Rightarrow> MD5_CONTEXT \<Rightarrow> bool" where
  "md5_streamed xs c \<longleftrightarrow> streamed md5_context_hash md5_IV xs c"

lemma md5_init_streamed: "length (blk c) = 64 \<Longrightarrow> md5_streamed [] (md5_context_init c)"
  by (simp add: md5_streamed_def streamed_def ctx_wf_def ctx_view_def md5_context_init_def md5_IV_def
      absorb_short)

lemma md5_hashstream_streamed:
  "md5_streamed xs c \<Longrightarrow> md5_streamed (xs @ ys) (md5_context_hashstream c ys)"
  by (simp add: md5_streamed_def md5_context_hashstream_def streamed_hashstream)

lemma md5_pieces_streamed:
  "md5_streamed xs c \<Longrightarrow>
    md5_streamed (xs @ concat pieces) (fold (\<lambda>p c. md5_context_hashstream c p) pieces c)"
proof (induction pieces arbitrary: xs c)
  case (Cons p pieces)
  show ?case
    using Cons.IH [OF md5_hashstream_streamed [OF Cons.prems]] by simp
qed simp

lemma md5_endstream_streamed:
  "md5_streamed xs c \<Longrightarrow>
    md5_streamed (xs @ md_pad (length xs) @ md5_length_bytes ll) (md5_context_endstream c ll)"
  using streamed_hashstream [OF streamed_pad, of md5_context_hash md5_IV xs c "md5_length_bytes ll"]
  by (simp add: md5_streamed_def md5_context_endstream_def md5_context_hashstream_def)

lemma md5_streamed_hval:
  "md5_streamed xs c \<Longrightarrow> hval c = fst (absorb md5_context_hash md5_IV xs)"
  by (auto simp: md5_streamed_def streamed_def ctx_view_def dest: arg_cong [of _ _ fst])

definition md5_bytes :: "md5_words \<Rightarrow> byte list" where
  "md5_bytes v = md5_put (md5_A v) @ md5_put (md5_B v) @ md5_put (md5_C v) @ md5_put (md5_D v)"

lemma md5_endstream_spec:
  "md5_streamed xs c \<Longrightarrow> length xs < 2 ^ 32 \<Longrightarrow>
    md5_context_digest (md5_context_endstream c (length xs)) = md5_bytes (md5_spec xs)"
  using md5_streamed_hval [OF md5_endstream_streamed, of xs c "length xs"]
  by (simp add: md5_context_digest_def md5_bytes_def md5_spec_def md5_padded_def md5_length_bytes_le)


definition blank_context :: "md5_words block_ctx" where
  "blank_context = \<lparr>hval = md5_IV, blk = replicate 64 0, blk_ptr = 0\<rparr>"


definition bytes_of :: "string \<Rightarrow> byte list" where
  "bytes_of s = map (\<lambda>c. word_of_nat (code c)) s"

text \<open>
  The digests of the test suite of RFC 1321 for \<^verbatim>\<open>abc\<close> and \<^verbatim>\<open>message digest\<close>. The table, the rotations, the order of the words and the byte order of
  the code are all in these.
\<close>

theorem md5_test_suite:
  "md5_digest blank_context (bytes_of ''abc'') =
     [0x90, 0x01, 0x50, 0x98, 0x3c, 0xd2, 0x4f, 0xb0, 0xd6, 0x96, 0x3f, 0x7d, 0x28, 0xe1, 0x7f, 0x72] \<and>
   md5_digest blank_context (bytes_of ''message digest'') =
     [0xf9, 0x6b, 0x69, 0x7d, 0x7c, 0xb7, 0x93, 0x8d, 0x52, 0x5a, 0x2f, 0x31, 0xaa, 0xf1, 0x61, 0xd0]"
  by (intro conjI; code_simp)

subsection \<open>Saving and restoring a digest\<close>

lemma md5_get_put: "md5_get (md5_put w) = w"
proof (rule bit_word_eqI)
  fix n assume "n < LENGTH(32)"
  then show "bit (md5_get (md5_put w)) n = bit w n"
    by (cases "n < 8"; cases "n < 16"; cases "n < 24") (auto simp: md5_get_def md5_put_def bit_simps)
qed

lemma length_md5_put [simp]: "length (md5_put w) = 4"
  by (simp add: md5_put_def)

lemma md5_restore_digest:
  "hval (md5_context_restore d (md5_context_digest c)) = hval c \<and>
   blk_ptr (md5_context_restore d (md5_context_digest c)) = 0"
  by (simp add: md5_context_restore_def md5_context_digest_def md5_get_put)

end
