(* ===== verification/Sha1.thy ===== *)
theory Sha1
  imports Block_Stream
begin

text \<open>
  SHA1 (\<^verbatim>\<open>sha1/sha1.c\<close>): the compression of one block, the context operations and the
  one-call digest, over the block contexts of \<open>Block_Stream\<close>. The hash value is the array \<open>H\<close>
  of five 32 bit words.
\<close>

subsection \<open>One block\<close>

type_synonym SHA1_WORD = "32 word"

type_synonym SHA1_CONTEXT = "SHA1_WORD list block_ctx"

definition sha1_K :: "SHA1_WORD list" where
  "sha1_K = replicate 20 0x5A827999 @ replicate 20 0x6ED9EBA1 @ replicate 20 0x8F1BBCDC
     @ replicate 20 0xCA62C1D6"

definition sha1_S :: "SHA1_WORD \<Rightarrow> nat \<Rightarrow> SHA1_WORD" where
  "sha1_S a b = push_bit b a OR drop_bit (32 - b) a"

definition sha1_f :: "nat \<Rightarrow> SHA1_WORD \<Rightarrow> SHA1_WORD \<Rightarrow> SHA1_WORD \<Rightarrow> SHA1_WORD" where
  "sha1_f t B C D =
     (if t < 20 then (B AND C) OR (NOT B AND D)
      else if 40 \<le> t \<and> t < 60 then (B AND C) OR (B AND D) OR (C AND D)
      else B XOR C XOR D)"

text \<open>The words of a block, most significant byte first.\<close>

fun sha1_unpack :: "byte list \<Rightarrow> SHA1_WORD list" where
  "sha1_unpack (b0 # b1 # b2 # b3 # bs) =
     foldl (\<lambda>w b. push_bit 8 w OR ucast b) (ucast b0) [b1, b2, b3] # sha1_unpack bs"
| "sha1_unpack _ = []"

definition sha1_extend :: "SHA1_WORD list \<Rightarrow> nat \<Rightarrow> SHA1_WORD list" where
  "sha1_extend W t = W @ [sha1_S (W ! (t - 3) XOR W ! (t - 8) XOR W ! (t - 14) XOR W ! (t - 16)) 1]"

definition sha1_schedule :: "byte list \<Rightarrow> SHA1_WORD list" where
  "sha1_schedule block = foldl sha1_extend (sha1_unpack block) [16..<80]"

fun sha1_step :: "SHA1_WORD list \<Rightarrow> SHA1_WORD list \<Rightarrow> nat \<Rightarrow> SHA1_WORD list" where
  "sha1_step W [A, B, C, D, E] t =
     (let TEMP = sha1_S A 5 + sha1_f t B C D + E + W ! t + sha1_K ! t
      in [TEMP, A, sha1_S B 30, C, D])"
| "sha1_step W v t = v"

definition sha1_context_hash :: "SHA1_WORD list \<Rightarrow> byte list \<Rightarrow> SHA1_WORD list" where
  "sha1_context_hash H block =
     map2 (+) H (foldl (sha1_step (sha1_schedule block)) H [0..<80])"

subsection \<open>The context\<close>

definition sha1_context_init :: "SHA1_CONTEXT \<Rightarrow> SHA1_CONTEXT" where
  "sha1_context_init c =
     c\<lparr>hval := [0x67452301, 0xEFCDAB89, 0x98BADCFE, 0x10325476, 0xC3D2E1F0], blk_ptr := 0\<rparr>"

definition sha1_context_hashstream :: "SHA1_CONTEXT \<Rightarrow> byte list \<Rightarrow> SHA1_CONTEXT" where
  "sha1_context_hashstream = hashstream sha1_context_hash"

text \<open>The length in bits, as a 64 bit \<^verbatim>\<open>unsigned long\<close> of which the low four bytes are kept.\<close>

definition sha1_length_bytes :: "nat \<Rightarrow> byte list" where
  "sha1_length_bytes ll =
     (let l = (word_of_nat ll :: 64 word) * 8
      in [0, 0, 0, 0, ucast (drop_bit 24 l), ucast (drop_bit 16 l), ucast (drop_bit 8 l), ucast l])"

definition sha1_context_endstream :: "SHA1_CONTEXT \<Rightarrow> nat \<Rightarrow> SHA1_CONTEXT" where
  "sha1_context_endstream c ll =
     (let c = sha1_context_hashstream c [0x80];
          c = pad_loop sha1_context_hash c
      in sha1_context_hashstream c (sha1_length_bytes ll))"

definition sha1_put :: "SHA1_WORD \<Rightarrow> byte list" where
  "sha1_put w = [ucast (drop_bit 24 w), ucast (drop_bit 16 w), ucast (drop_bit 8 w), ucast w]"

definition sha1_context_digest :: "SHA1_CONTEXT \<Rightarrow> byte list" where
  "sha1_context_digest c = concat (map sha1_put (hval c))"

definition sha1_get :: "byte list \<Rightarrow> SHA1_WORD" where
  "sha1_get bs = foldl (\<lambda>w b. push_bit 8 w OR ucast b) 0 bs"

definition sha1_context_restore :: "SHA1_CONTEXT \<Rightarrow> byte list \<Rightarrow> SHA1_CONTEXT" where
  "sha1_context_restore c d =
     c\<lparr>hval := map (\<lambda>i. sha1_get (take 4 (drop (4 * i) d))) [0..<5], blk_ptr := 0\<rparr>"

definition sha1_digest :: "SHA1_CONTEXT \<Rightarrow> byte list \<Rightarrow> byte list" where
  "sha1_digest stack msg =
     (let c = sha1_context_init stack;
          c = sha1_context_hashstream c msg;
          c = sha1_context_endstream c (length msg)
      in sha1_context_digest c)"

subsection \<open>The digest of a message\<close>

definition sha1_IV :: "SHA1_WORD list" where
  "sha1_IV = [0x67452301, 0xEFCDAB89, 0x98BADCFE, 0x10325476, 0xC3D2E1F0]"

definition be_bytes :: "nat \<Rightarrow> nat \<Rightarrow> byte list" where
  "be_bytes n v = map (\<lambda>i. word_of_nat (v div 2 ^ (8 * i))) (rev [0..<n])"

definition sha1_padded :: "byte list \<Rightarrow> byte list" where
  "sha1_padded msg = msg @ md_pad (length msg) @ be_bytes 8 (8 * length msg)"

definition sha1_spec :: "byte list \<Rightarrow> SHA1_WORD list" where
  "sha1_spec msg = fst (absorb sha1_context_hash sha1_IV (sha1_padded msg))"

lemma ucast_drop_bit_nat64:
  "k + 8 \<le> 64 \<Longrightarrow> ucast (drop_bit k (word_of_nat m :: 64 word)) = (word_of_nat (m div 2 ^ k) :: 8 word)"
  by (rule bit_word_eqI) (auto simp: bit_simps simp flip: drop_bit_eq_div)

text \<open>The upper half of the length is zero only for messages shorter than 2 ^ 29 bytes.\<close>

lemma sha1_length_bytes_be: "ll < 2 ^ 29 \<Longrightarrow> sha1_length_bytes ll = be_bytes 8 (8 * ll)"
proof -
  assume ll: "ll < 2 ^ 29"
  have l: "(word_of_nat ll :: 64 word) * 8 = word_of_nat (8 * ll)"
    by simp
  show ?thesis
    unfolding sha1_length_bytes_def Let_def l be_bytes_def
    using ucast_drop_bit_nat64 [of 0 "8 * ll"] ucast_drop_bit_nat64 [of 8 "8 * ll"]
      ucast_drop_bit_nat64 [of 16 "8 * ll"] ucast_drop_bit_nat64 [of 24 "8 * ll"] ll
    by (simp add: upt_rec [of 0 8] upt_rec [of "Suc k" 8 for k])
qed

text \<open>The invariant of a stream: the context holds what the specification made of the bytes.\<close>

definition sha1_streamed :: "byte list \<Rightarrow> SHA1_CONTEXT \<Rightarrow> bool" where
  "sha1_streamed xs c \<longleftrightarrow> streamed sha1_context_hash sha1_IV xs c"

lemma sha1_init_streamed: "length (blk c) = 64 \<Longrightarrow> sha1_streamed [] (sha1_context_init c)"
  by (simp add: sha1_streamed_def streamed_def ctx_wf_def ctx_view_def sha1_context_init_def
      sha1_IV_def absorb_short)

lemma sha1_hashstream_streamed:
  "sha1_streamed xs c \<Longrightarrow> sha1_streamed (xs @ ys) (sha1_context_hashstream c ys)"
  by (simp add: sha1_streamed_def sha1_context_hashstream_def streamed_hashstream)

lemma sha1_pieces_streamed:
  "sha1_streamed xs c \<Longrightarrow>
    sha1_streamed (xs @ concat pieces) (fold (\<lambda>p c. sha1_context_hashstream c p) pieces c)"
proof (induction pieces arbitrary: xs c)
  case (Cons p pieces)
  show ?case
    using Cons.IH [OF sha1_hashstream_streamed [OF Cons.prems]] by simp
qed simp

lemma sha1_endstream_streamed:
  "sha1_streamed xs c \<Longrightarrow>
    sha1_streamed (xs @ md_pad (length xs) @ sha1_length_bytes ll) (sha1_context_endstream c ll)"
  using streamed_hashstream [OF streamed_pad, of sha1_context_hash sha1_IV xs c "sha1_length_bytes ll"]
  by (simp add: sha1_streamed_def sha1_context_endstream_def sha1_context_hashstream_def)

lemma sha1_streamed_hval:
  "sha1_streamed xs c \<Longrightarrow> hval c = fst (absorb sha1_context_hash sha1_IV xs)"
  by (auto simp: sha1_streamed_def streamed_def ctx_view_def dest: arg_cong [of _ _ fst])

definition sha1_bytes :: "SHA1_WORD list \<Rightarrow> byte list" where
  "sha1_bytes v = concat (map sha1_put v)"

lemma sha1_endstream_spec:
  "sha1_streamed xs c \<Longrightarrow> length xs < 2 ^ 29 \<Longrightarrow>
    sha1_context_digest (sha1_context_endstream c (length xs)) = sha1_bytes (sha1_spec xs)"
  using sha1_streamed_hval [OF sha1_endstream_streamed, of xs c "length xs"]
  by (simp add: sha1_context_digest_def sha1_bytes_def sha1_spec_def sha1_padded_def sha1_length_bytes_be)


definition blank_sha1 :: "SHA1_WORD list block_ctx" where
  "blank_sha1 = \<lparr>hval = sha1_IV, blk = replicate 64 0, blk_ptr = 0\<rparr>"


subsection \<open>Saving and restoring a digest\<close>

lemma sha1_get_put: "sha1_get (sha1_put w) = w"
proof (rule bit_word_eqI)
  fix n assume "n < LENGTH(32)"
  then show "bit (sha1_get (sha1_put w)) n = bit w n"
    by (cases "n < 8"; cases "n < 16"; cases "n < 24") (auto simp: sha1_get_def sha1_put_def bit_simps)
qed

lemma length_sha1_put [simp]: "length (sha1_put w) = 4"
  by (simp add: sha1_put_def)

lemma sha1_restore_digest:
  "length (hval c) = 5 \<Longrightarrow>
    hval (sha1_context_restore d (sha1_context_digest c)) = hval c \<and>
    blk_ptr (sha1_context_restore d (sha1_context_digest c)) = 0"
  by (auto simp: length_Suc_conv eval_nat_numeral sha1_context_restore_def sha1_context_digest_def
      sha1_get_put)

end
