(* ===== verification/Hmac.thy ===== *)
theory Hmac
  imports Md5 Sha1
begin

text \<open>
  HMAC (\<^verbatim>\<open>libhmac/hmac.c\<close>) over any hash function given by its descriptor, and the two
  descriptors of the library (\<^verbatim>\<open>md5/hmac.c\<close>, \<^verbatim>\<open>sha1/hmac.c\<close>). The functions that
  allocate a context on the stack call back with an uninitialised one, which is the argument
  \<open>c\<close> here.
\<close>

subsection \<open>The code\<close>

record 'c hmac_hashinfo =
  hh_name :: string
  hh_B :: nat
  hh_L :: nat
  hh_init :: "'c \<Rightarrow> 'c"
  hh_hash :: "'c \<Rightarrow> byte list \<Rightarrow> 'c"
  hh_endhash :: "'c \<Rightarrow> nat \<Rightarrow> 'c"
  hh_getdigest :: "'c \<Rightarrow> byte list"
  hh_setdigest :: "'c \<Rightarrow> byte list \<Rightarrow> 'c"

definition hmac_md5 :: "MD5_CONTEXT hmac_hashinfo" where
  "hmac_md5 = \<lparr>hh_name = ''md5'', hh_B = 64, hh_L = 16, hh_init = md5_context_init,
     hh_hash = md5_context_hashstream, hh_endhash = md5_context_endstream,
     hh_getdigest = md5_context_digest, hh_setdigest = md5_context_restore\<rparr>"

definition hmac_sha1 :: "SHA1_CONTEXT hmac_hashinfo" where
  "hmac_sha1 = \<lparr>hh_name = ''sha1'', hh_B = 64, hh_L = 20, hh_init = sha1_context_init,
     hh_hash = sha1_context_hashstream, hh_endhash = sha1_context_endstream,
     hh_getdigest = sha1_context_digest, hh_setdigest = sha1_context_restore\<rparr>"

text \<open>
  The loop over the block of a pad: \<open>ls\<close> are the values of \<^verbatim>\<open>l\<close> still to come, \<open>buf\<close> is the
  filled part of the buffer of 64 bytes, which is hashed when it is full and at the end.
\<close>

fun keypad_loop ::
    "'c hmac_hashinfo \<Rightarrow> byte list \<Rightarrow> byte \<Rightarrow> 'c \<Rightarrow> byte list \<Rightarrow> nat list \<Rightarrow> 'c" where
  "keypad_loop hh k pad c buf [] = (if buf \<noteq> [] then hh_hash hh c buf else c)"
| "keypad_loop hh k pad c buf (l # ls) =
     (let buf = buf @ [(if l < length k then k ! l else 0) XOR pad]
      in if 64 \<le> length buf then keypad_loop hh k pad (hh_hash hh c buf) [] ls
         else keypad_loop hh k pad c buf ls)"

text \<open>The two prehashed pads, the outer one first.\<close>

definition dokeycalc :: "'c hmac_hashinfo \<Rightarrow> 'c \<Rightarrow> byte list \<Rightarrow> byte list \<times> byte list" where
  "dokeycalc hh c k =
     (let c = keypad_loop hh k 0x5C (hh_init hh c) [] [0..<hh_B hh];
          kxopad = hh_getdigest hh c;
          c = keypad_loop hh k 0x36 (hh_init hh c) [] [0..<hh_B hh]
      in (kxopad, hh_getdigest hh c))"

definition dohashkey :: "'c hmac_hashinfo \<Rightarrow> 'c \<Rightarrow> byte list \<Rightarrow> byte list \<times> byte list" where
  "dohashkey hh c k =
     (let c = hh_init hh c;
          c = hh_hash hh c k;
          c = hh_endhash hh c (length k)
      in dokeycalc hh c (hh_getdigest hh c))"

definition hmac_hashkey :: "'c hmac_hashinfo \<Rightarrow> 'c \<Rightarrow> byte list \<Rightarrow> byte list \<times> byte list" where
  "hmac_hashkey hh c k = (if length k > hh_B hh then dohashkey hh c k else dokeycalc hh c k)"

definition hmac_hashtext ::
    "'c hmac_hashinfo \<Rightarrow> 'c \<Rightarrow> byte list \<Rightarrow> byte list \<Rightarrow> byte list \<Rightarrow> byte list" where
  "hmac_hashtext hh c t kxopad kxipad =
     (let c = hh_setdigest hh c kxipad;
          c = hh_hash hh c t;
          c = hh_endhash hh c (length t + hh_B hh);
          hash = hh_getdigest hh c;
          c = hh_setdigest hh c kxopad;
          c = hh_hash hh c (take (hh_L hh) hash);
          c = hh_endhash hh c (hh_L hh + hh_B hh)
      in hh_getdigest hh c)"

subsection \<open>The specification\<close>

text \<open>The key, hashed when it is too long, filled up with zeros to a block and xored.\<close>

definition key0 :: "'c hmac_hashinfo \<Rightarrow> (byte list \<Rightarrow> byte list) \<Rightarrow> byte list \<Rightarrow> byte list" where
  "key0 hh H k = (if length k > hh_B hh then H k else k)"

definition keypad :: "'c hmac_hashinfo \<Rightarrow> byte list \<Rightarrow> byte \<Rightarrow> byte list" where
  "keypad hh k pad = map (\<lambda>l. (if l < length k then k ! l else 0) XOR pad) [0..<hh_B hh]"

definition hmac_of :: "'c hmac_hashinfo \<Rightarrow> (byte list \<Rightarrow> byte list) \<Rightarrow> byte list \<Rightarrow> byte list \<Rightarrow> byte list" where
  "hmac_of hh H k t =
     H (keypad hh (key0 hh H k) 0x5C @ H (keypad hh (key0 hh H k) 0x36 @ t))"

subsection \<open>The interface to a hash function\<close>

text \<open>
  What HMAC relies on: feeding in pieces, the hash \<open>H\<close> of a whole message below a size \<open>M\<close>, and
  that a digest taken after one block restores the state there. \<open>raw\<close> is what an uninitialised
  context satisfies.
\<close>

locale hmac_hash = byte_stream "hh_hash hh" wf view
  for hh :: "'c hmac_hashinfo" and wf :: "'c \<Rightarrow> bool" and view :: "'c \<Rightarrow> 'v" +
  fixes raw :: "'c \<Rightarrow> bool"
    and H :: "byte list \<Rightarrow> byte list"
    and M :: nat
  assumes init_wf: "raw c \<Longrightarrow> wf (hh_init hh c)"
    and wf_raw: "wf c \<Longrightarrow> raw c"
    and endhash_raw: "wf c \<Longrightarrow> raw (hh_endhash hh c n)"
    and setdigest_wf: "raw c \<Longrightarrow> wf (hh_setdigest hh c dg)"
    and digest_view: "wf c \<Longrightarrow> wf d \<Longrightarrow> view c = view d \<Longrightarrow> hh_getdigest hh c = hh_getdigest hh d"
    and H_digest: "raw c \<Longrightarrow> length t < M \<Longrightarrow>
      hh_getdigest hh (hh_endhash hh (hh_hash hh (hh_init hh c) t) (length t)) = H t"
    and H_resume: "raw c \<Longrightarrow> raw d \<Longrightarrow> length pre = hh_B hh \<Longrightarrow> length t + hh_B hh < M \<Longrightarrow>
      hh_getdigest hh (hh_endhash hh (hh_hash hh
        (hh_setdigest hh d (hh_getdigest hh (hh_hash hh (hh_init hh c) pre))) t) (length t + hh_B hh))
      = H (pre @ t)"
    and H_length: "length (H t) = hh_L hh"
    and sizes: "hh_L hh \<le> hh_B hh" "hh_L hh + hh_B hh < M"
begin

lemma length_keypad [simp]: "length (keypad hh k pad) = hh_B hh"
  by (simp add: keypad_def)

lemma keypad_loop_feeds:
  "\<exists>pieces. concat pieces = buf @ map (\<lambda>l. (if l < length k then k ! l else 0) XOR pad) ls \<and>
    keypad_loop hh k pad c buf ls = feeds pieces c"
proof (induction ls arbitrary: c buf)
  case Nil
  show ?case
    by (cases "buf = []") (auto intro: exI [of _ "[]"] exI [of _ "[buf]"])
next
  case (Cons l ls)
  define buf' where "buf' = buf @ [(if l < length k then k ! l else 0) XOR pad]"
  show ?case
  proof (cases "64 \<le> length buf'")
    case True
    obtain pieces where
      "concat pieces = map (\<lambda>l. (if l < length k then k ! l else 0) XOR pad) ls"
      "keypad_loop hh k pad (hh_hash hh c buf') [] ls = feeds pieces (hh_hash hh c buf')"
      using Cons.IH [of "[]"] by auto
    with True show ?thesis
      by (intro exI [of _ "buf' # pieces"]) (simp add: buf'_def Let_def)
  next
    case False
    then show ?thesis
      using Cons.IH [of buf' c] by (simp add: buf'_def Let_def)
  qed
qed

lemma keypad_loop_digest:
  assumes "raw c"
  shows "wf (keypad_loop hh k pad (hh_init hh c) [] [0..<hh_B hh])"
    and "hh_getdigest hh (keypad_loop hh k pad (hh_init hh c) [] [0..<hh_B hh])
      = hh_getdigest hh (hh_hash hh (hh_init hh c) (keypad hh k pad))"
proof -
  obtain pieces where p: "concat pieces = keypad hh k pad"
    "keypad_loop hh k pad (hh_init hh c) [] [0..<hh_B hh] = feeds pieces (hh_init hh c)"
    using keypad_loop_feeds [of "[]" k pad "[0..<hh_B hh]" "hh_init hh c"]
    by (auto simp: keypad_def)
  show "wf (keypad_loop hh k pad (hh_init hh c) [] [0..<hh_B hh])"
    unfolding p(2) by (rule feeds_wf) (rule init_wf [OF assms])
  show "hh_getdigest hh (keypad_loop hh k pad (hh_init hh c) [] [0..<hh_B hh])
      = hh_getdigest hh (hh_hash hh (hh_init hh c) (keypad hh k pad))"
    unfolding p(2) p(1) [symmetric]
    by (intro digest_view feeds_wf feed_wf feeds_concat init_wf assms)
qed

lemma dokeycalc_pads:
  assumes "raw c"
  shows "\<exists>c1 c2. raw c1 \<and> raw c2 \<and> dokeycalc hh c k =
    (hh_getdigest hh (hh_hash hh (hh_init hh c1) (keypad hh k 0x5C)),
     hh_getdigest hh (hh_hash hh (hh_init hh c2) (keypad hh k 0x36)))"
  using keypad_loop_digest [OF assms, of k "0x5C"]
    keypad_loop_digest [OF wf_raw [OF keypad_loop_digest(1) [OF assms, of k "0x5C"]], of k "0x36"]
  unfolding dokeycalc_def Let_def using assms wf_raw by blast

lemma hashkey_pads:
  assumes "raw c" "length k < M"
  shows "\<exists>c1 c2. raw c1 \<and> raw c2 \<and> hmac_hashkey hh c k =
    (hh_getdigest hh (hh_hash hh (hh_init hh c1) (keypad hh (key0 hh H k) 0x5C)),
     hh_getdigest hh (hh_hash hh (hh_init hh c2) (keypad hh (key0 hh H k) 0x36)))"
proof (cases "length k > hh_B hh")
  case True
  have "raw (hh_endhash hh (hh_hash hh (hh_init hh c) k) (length k))"
    by (intro endhash_raw feed_wf init_wf assms)
  then show ?thesis
    using dokeycalc_pads [of "hh_endhash hh (hh_hash hh (hh_init hh c) k) (length k)" "H k"]
      H_digest [OF assms] True
    by (simp add: hmac_hashkey_def dohashkey_def key0_def Let_def)
next
  case False
  then show ?thesis
    using dokeycalc_pads [OF assms(1), of k] by (simp add: hmac_hashkey_def key0_def)
qed

theorem hmac_spec:
  assumes "raw c" "raw d" "length k < M" "length t + hh_B hh < M"
  shows "(case hmac_hashkey hh c k of (kxopad, kxipad) \<Rightarrow> hmac_hashtext hh d t kxopad kxipad)
    = hmac_of hh H k t"
proof -
  obtain c1 c2 where pads: "raw c1" "raw c2" "hmac_hashkey hh c k =
    (hh_getdigest hh (hh_hash hh (hh_init hh c1) (keypad hh (key0 hh H k) 0x5C)),
     hh_getdigest hh (hh_hash hh (hh_init hh c2) (keypad hh (key0 hh H k) 0x36)))"
    using hashkey_pads [OF assms(1,3)] by blast
  define ik where "ik = keypad hh (key0 hh H k) 0x36"
  define d1 where "d1 = hh_endhash hh (hh_hash hh (hh_setdigest hh d
    (hh_getdigest hh (hh_hash hh (hh_init hh c2) ik))) t) (length t + hh_B hh)"
  have d1: "hh_getdigest hh d1 = H (ik @ t)" "raw d1"
    unfolding d1_def
    by (rule H_resume [OF pads(2) assms(2)])
      (use assms(4) in \<open>auto simp: ik_def intro!: endhash_raw feed_wf setdigest_wf assms(2)\<close>)
  have "hh_getdigest hh (hh_endhash hh (hh_hash hh (hh_setdigest hh d1
      (hh_getdigest hh (hh_hash hh (hh_init hh c1) (keypad hh (key0 hh H k) 0x5C)))) (H (ik @ t))) (length (H (ik @ t)) + hh_B hh))
      = H (keypad hh (key0 hh H k) 0x5C @ H (ik @ t))"
    by (rule H_resume [OF pads(1) d1(2)]) (simp_all add: H_length sizes)
  then show ?thesis
    using d1(1) by (simp add: pads(3) hmac_hashtext_def Let_def H_length hmac_of_def flip: d1_def ik_def)
qed

end

subsection \<open>MD5 and SHA1 as hash functions\<close>

lemma md5_hash_is: "hh_hash hmac_md5 = hashstream md5_context_hash"
  by (simp add: hmac_md5_def md5_context_hashstream_def)

lemma sha1_hash_is: "hh_hash hmac_sha1 = hashstream sha1_context_hash"
  by (simp add: hmac_sha1_def sha1_context_hashstream_def)

text \<open>After whole blocks, a restored digest continues the stream.\<close>

lemma md5_restore_streamed:
  assumes "md5_streamed xs c" "length xs mod 64 = 0" "length (blk d) = 64"
  shows "md5_streamed xs (md5_context_restore d (md5_context_digest c))"
proof -
  have "blk_ptr c = 0"
    using streamed_ptr [of md5_context_hash md5_IV xs c] assms(1,2) by (simp add: md5_streamed_def)
  then show ?thesis
    using assms(1,3) md5_restore_digest [of d c]
    by (simp add: md5_streamed_def streamed_def ctx_view_def ctx_wf_def md5_context_restore_def)
qed

lemma length_md5_bytes: "length (md5_bytes v) = 16"
  by (simp add: md5_bytes_def)

lemma stream_wf: "ctx_wf c \<Longrightarrow> ctx_wf (hashstream hash c xs)"
  by (simp add: hashstream_absorb)

lemma pad_loop_wf: "ctx_wf c \<Longrightarrow> ctx_wf (pad_loop hash c)"
proof -
  assume c: "ctx_wf c"
  then have "blk_ptr c < 64" by (simp add: ctx_wf_def)
  with c show ?thesis by (simp add: pad_loop_closed stream_wf)
qed

interpretation hmac_md5: hmac_hash hmac_md5 ctx_wf ctx_view "\<lambda>c. length (blk c) = 64"
    "\<lambda>t. md5_bytes (md5_spec t)" "2 ^ 32"
proof (unfold hmac_hash_def, intro conjI)
  show "byte_stream (hh_hash hmac_md5) ctx_wf ctx_view"
    unfolding md5_hash_is by (rule stream.byte_stream_axioms)
  show "hmac_hash_axioms hmac_md5 ctx_wf ctx_view (\<lambda>c. length (blk c) = 64)
      (\<lambda>t. md5_bytes (md5_spec t)) (2 ^ 32)"
  proof
    fix c d :: MD5_CONTEXT and n and dg t pre :: "byte list"
    show "length (blk c) = 64 \<Longrightarrow> ctx_wf (hh_init hmac_md5 c)"
      by (simp add: hmac_md5_def md5_context_init_def ctx_wf_def)
    show "ctx_wf c \<Longrightarrow> length (blk c) = 64"
      by (simp add: ctx_wf_def)
    have "ctx_wf c \<Longrightarrow> ctx_wf (md5_context_endstream c n)"
      by (simp add: md5_context_endstream_def md5_context_hashstream_def Let_def stream_wf pad_loop_wf)
    then show "ctx_wf c \<Longrightarrow> length (blk (hh_endhash hmac_md5 c n)) = 64"
      by (simp add: hmac_md5_def ctx_wf_def)
    show "length (blk c) = 64 \<Longrightarrow> ctx_wf (hh_setdigest hmac_md5 c dg)"
      by (simp add: hmac_md5_def md5_context_restore_def ctx_wf_def)
    show "ctx_wf c \<Longrightarrow> ctx_wf d \<Longrightarrow> ctx_view c = ctx_view d \<Longrightarrow>
        hh_getdigest hmac_md5 c = hh_getdigest hmac_md5 d"
      by (simp add: hmac_md5_def md5_context_digest_def ctx_view_def)
    show "length (blk c) = 64 \<Longrightarrow> length t < 2 ^ 32 \<Longrightarrow>
        hh_getdigest hmac_md5 (hh_endhash hmac_md5 (hh_hash hmac_md5 (hh_init hmac_md5 c) t) (length t))
        = md5_bytes (md5_spec t)"
      using md5_endstream_spec [OF md5_hashstream_streamed [OF md5_init_streamed, of c t]]
      by (simp add: hmac_md5_def)
    assume "length (blk c) = 64" "length (blk d) = 64" "length pre = hh_B hmac_md5"
      "length t + hh_B hmac_md5 < 2 ^ 32"
    then show "hh_getdigest hmac_md5 (hh_endhash hmac_md5 (hh_hash hmac_md5 (hh_setdigest hmac_md5 d
          (hh_getdigest hmac_md5 (hh_hash hmac_md5 (hh_init hmac_md5 c) pre))) t)
          (length t + hh_B hmac_md5)) = md5_bytes (md5_spec (pre @ t))"
      using md5_endstream_spec [OF md5_hashstream_streamed [OF md5_restore_streamed
            [OF md5_hashstream_streamed [OF md5_init_streamed, of c pre]]], of d t]
      by (simp add: hmac_md5_def add.commute)
  qed (simp_all add: hmac_md5_def length_md5_bytes)
qed

lemma length_sha1_step: "length v = 5 \<Longrightarrow> length (sha1_step W v t) = 5"
  by (auto simp: length_Suc_conv eval_nat_numeral Let_def)

lemma length_sha1_hash: "length H = 5 \<Longrightarrow> length (sha1_context_hash H b) = 5"
proof -
  have "length v = 5 \<Longrightarrow> length (foldl (sha1_step W) v ts) = 5" for W v ts
    by (induction ts arbitrary: v) (simp_all add: length_sha1_step)
  then show "length H = 5 \<Longrightarrow> ?thesis"
    by (simp add: sha1_context_hash_def)
qed

lemma length_absorb:
  "(\<And>H b. length H = n \<Longrightarrow> length (hash H b) = n) \<Longrightarrow> length H = n \<Longrightarrow>
    length (fst (absorb hash H xs)) = n"
proof (induction hash H xs rule: absorb.induct)
  case (1 hash H xs)
  then show ?case
    by (subst absorb.simps) simp
qed

lemma length_sha1_absorb: "length (fst (absorb sha1_context_hash sha1_IV xs)) = 5"
  by (rule length_absorb) (simp_all add: length_sha1_hash sha1_IV_def)

lemma length_sha1_bytes: "length (sha1_bytes (sha1_spec t)) = 20"
proof -
  have "length (sha1_bytes v) = 4 * length v" for v
    by (induction v) (simp_all add: sha1_bytes_def)
  then show ?thesis
    by (simp add: sha1_spec_def length_sha1_absorb)
qed

lemma sha1_restore_streamed:
  assumes "sha1_streamed xs c" "length xs mod 64 = 0" "length (blk d) = 64"
  shows "sha1_streamed xs (sha1_context_restore d (sha1_context_digest c))"
proof -
  have "blk_ptr c = 0"
    using streamed_ptr [of sha1_context_hash sha1_IV xs c] assms(1,2) by (simp add: sha1_streamed_def)
  moreover have "length (hval c) = 5"
    using sha1_streamed_hval [OF assms(1)] length_sha1_absorb by simp
  ultimately show ?thesis
    using assms(1,3) sha1_restore_digest [of c d]
    by (simp add: sha1_streamed_def streamed_def ctx_view_def ctx_wf_def sha1_context_restore_def)
qed

interpretation hmac_sha1: hmac_hash hmac_sha1 ctx_wf ctx_view "\<lambda>c. length (blk c) = 64"
    "\<lambda>t. sha1_bytes (sha1_spec t)" "2 ^ 29"
proof (unfold hmac_hash_def, intro conjI)
  show "byte_stream (hh_hash hmac_sha1) ctx_wf ctx_view"
    unfolding sha1_hash_is by (rule stream.byte_stream_axioms)
  show "hmac_hash_axioms hmac_sha1 ctx_wf ctx_view (\<lambda>c. length (blk c) = 64)
      (\<lambda>t. sha1_bytes (sha1_spec t)) (2 ^ 29)"
  proof
    fix c d :: SHA1_CONTEXT and n and dg t pre :: "byte list"
    show "length (blk c) = 64 \<Longrightarrow> ctx_wf (hh_init hmac_sha1 c)"
      by (simp add: hmac_sha1_def sha1_context_init_def ctx_wf_def)
    show "ctx_wf c \<Longrightarrow> length (blk c) = 64"
      by (simp add: ctx_wf_def)
    have "ctx_wf c \<Longrightarrow> ctx_wf (sha1_context_endstream c n)"
      by (simp add: sha1_context_endstream_def sha1_context_hashstream_def Let_def stream_wf pad_loop_wf)
    then show "ctx_wf c \<Longrightarrow> length (blk (hh_endhash hmac_sha1 c n)) = 64"
      by (simp add: hmac_sha1_def ctx_wf_def)
    show "length (blk c) = 64 \<Longrightarrow> ctx_wf (hh_setdigest hmac_sha1 c dg)"
      by (simp add: hmac_sha1_def sha1_context_restore_def ctx_wf_def)
    show "ctx_wf c \<Longrightarrow> ctx_wf d \<Longrightarrow> ctx_view c = ctx_view d \<Longrightarrow>
        hh_getdigest hmac_sha1 c = hh_getdigest hmac_sha1 d"
      by (simp add: hmac_sha1_def sha1_context_digest_def ctx_view_def)
    show "length (blk c) = 64 \<Longrightarrow> length t < 2 ^ 29 \<Longrightarrow>
        hh_getdigest hmac_sha1 (hh_endhash hmac_sha1 (hh_hash hmac_sha1 (hh_init hmac_sha1 c) t) (length t))
        = sha1_bytes (sha1_spec t)"
      using sha1_endstream_spec [OF sha1_hashstream_streamed [OF sha1_init_streamed, of c t]]
      by (simp add: hmac_sha1_def)
    assume "length (blk c) = 64" "length (blk d) = 64" "length pre = hh_B hmac_sha1"
      "length t + hh_B hmac_sha1 < 2 ^ 29"
    then show "hh_getdigest hmac_sha1 (hh_endhash hmac_sha1 (hh_hash hmac_sha1 (hh_setdigest hmac_sha1 d
          (hh_getdigest hmac_sha1 (hh_hash hmac_sha1 (hh_init hmac_sha1 c) pre))) t)
          (length t + hh_B hmac_sha1)) = sha1_bytes (sha1_spec (pre @ t))"
      using sha1_endstream_spec [OF sha1_hashstream_streamed [OF sha1_restore_streamed
            [OF sha1_hashstream_streamed [OF sha1_init_streamed, of c pre]]], of d t]
      by (simp add: hmac_sha1_def add.commute)
  qed (simp_all add: hmac_sha1_def length_sha1_bytes)
qed

text \<open>
  C12. HMAC-MD5 and HMAC-SHA1 are the keyed hash of RFC 2104: for every key (hashed first when
  it is longer than a block) and every text, on any uninitialised stack contexts,
  \<open>hmac_hashtext\<close> with the two pads of \<open>hmac_hashkey\<close> is H (K xor opad, H (K xor ipad, text)),
  where H is the hash of the whole message. The pads saved as digests of one block are enough to
  continue both hashes.
\<close>

theorem hmac_rfc2104:
  assumes "length (blk c) = 64" "length (blk d) = 64" "length (blk e) = 64" "length (blk f) = 64"
    and "length k < 2 ^ 29" "length t + 64 < 2 ^ 29"
  shows "(case hmac_hashkey hmac_md5 c k of (kxopad, kxipad) \<Rightarrow> hmac_hashtext hmac_md5 d t kxopad kxipad)
      = hmac_of hmac_md5 (\<lambda>x. md5_bytes (md5_spec x)) k t \<and>
    (case hmac_hashkey hmac_sha1 e k of (kxopad, kxipad) \<Rightarrow> hmac_hashtext hmac_sha1 f t kxopad kxipad)
      = hmac_of hmac_sha1 (\<lambda>x. sha1_bytes (sha1_spec x)) k t"
  using hmac_md5.hmac_spec [of c d k t] hmac_sha1.hmac_spec [of e f k t] assms
  by (simp add: hmac_md5_def hmac_sha1_def)

theorem hmac_rfc2104_witness:
  "(case hmac_hashkey hmac_md5 blank_context [0x4b] of (kxopad, kxipad) \<Rightarrow>
      hmac_hashtext hmac_md5 blank_context [0x74, 0x65] kxopad kxipad)
      = hmac_of hmac_md5 (\<lambda>x. md5_bytes (md5_spec x)) [0x4b] [0x74, 0x65] \<and>
    (case hmac_hashkey hmac_sha1 blank_sha1 [0x4b] of (kxopad, kxipad) \<Rightarrow>
      hmac_hashtext hmac_sha1 blank_sha1 [0x74, 0x65] kxopad kxipad)
      = hmac_of hmac_sha1 (\<lambda>x. sha1_bytes (sha1_spec x)) [0x4b] [0x74, 0x65]"
  by (rule hmac_rfc2104) (simp_all add: blank_context_def blank_sha1_def)

end
