(* ===== verification/Sasl.thy ===== *)
theory Sasl
  imports Rfc2045_Decode Hmac Userdb
begin

text \<open>
  SASL authentication (\<^verbatim>\<open>authlib/authsasl*.c\<close>, \<^verbatim>\<open>authlib/cramlib.c\<close>,
  \<^verbatim>\<open>authlib/authcram.c\<close>): the server side of the methods LOGIN, PLAIN and CRAM, their
  clients, and the check of a CRAM response against the user database. The conversation
  \<open>getresp\<close> is a parameter that threads a state of its own; a missing response is \<open>None\<close>.
  Memory allocation succeeds. What C reads as a string ends at its first NUL, which is \<open>cut\<close>.
\<close>

subsection \<open>Base64 of the exchange\<close>

definition cut :: "string \<Rightarrow> string" where
  "cut s = takeWhile (\<lambda>c. c \<noteq> nul) s"

definition sasl_tab :: "char \<Rightarrow> nat" where
  "sasl_tab c = (let i = length (takeWhile (\<lambda>d. d \<noteq> c) base64tab) in if i < 64 then i else 100)"

definition authsasl_frombase64 :: "string \<Rightarrow> string option" where
  "authsasl_frombase64 s =
     (let j = length (takeWhile (\<lambda>c. sasl_tab c < 100) s)
      in if j + 2 < length s then None
         else
           let j = j + length (takeWhile (\<lambda>c. c = CHR ''='') (drop j s))
           in if j mod 4 \<noteq> 0 then None else Some (decode_groups 100 (map sasl_tab (take j s))))"

definition write_challenge :: "string callback" where
  "write_challenge out p = (out @ filter (\<lambda>c. c \<noteq> cr \<and> c \<noteq> nl) p, 0)"

definition authsasl_tobase64 :: "nat \<Rightarrow> string \<Rightarrow> string" where
  "authsasl_tobase64 bufsiz p =
     (let info = rfc2045_encode_start ''base64'' [];
          (info, _) = rfc2045_encode bufsiz write_challenge info p;
          (info, _) = rfc2045_encode_end bufsiz write_challenge info
      in callback_arg info)"

subsection \<open>The methods of the server\<close>

datatype sasl_error = AUTHSASL_ERROR | AUTHSASL_ABORTED

type_synonym 's conv = "'s \<Rightarrow> string \<Rightarrow> 's \<times> string option"
type_synonym 's sasl_result = "'s \<times> (sasl_error + string \<times> string)"

text \<open>A response of the client, or the end of the exchange.\<close>

definition get_response :: "'s conv \<Rightarrow> 's \<Rightarrow> string \<Rightarrow> 's \<times> (sasl_error + string)" where
  "get_response getresp s p =
     (case getresp s p of
        (s, None) \<Rightarrow> (s, Inl AUTHSASL_ERROR)
      | (s, Some r) \<Rightarrow> if cread r = CHR ''*'' then (s, Inl AUTHSASL_ABORTED) else (s, Inr r))"

definition authsasl_login :: "nat \<Rightarrow> string option \<Rightarrow> 's conv \<Rightarrow> 's \<Rightarrow> 's sasl_result" where
  "authsasl_login bufsiz initresponse getresp s =
     (case (case initresponse of
              Some r \<Rightarrow> (s, Inr r)
            | None \<Rightarrow> get_response getresp s (authsasl_tobase64 bufsiz ''Username:'')) of
        (s, Inl e) \<Rightarrow> (s, Inl e)
      | (s, Inr uid) \<Rightarrow>
          (case get_response getresp s (authsasl_tobase64 bufsiz ''Password:'') of
             (s, Inl e) \<Rightarrow> (s, Inl e)
           | (s, Inr pw) \<Rightarrow>
               (s, case (authsasl_frombase64 uid, authsasl_frombase64 pw) of
                     (Some uid, Some pw) \<Rightarrow> Inr (''login'', cut uid @ nl # cut pw @ [nl])
                   | _ \<Rightarrow> Inl AUTHSASL_ABORTED)))"

text \<open>The loop of \<open>authsasl_plain\<close> over the decoded message, from its index \<^verbatim>\<open>i\<close> on.\<close>

function plain_loop :: "string \<Rightarrow> string option \<Rightarrow> string option \<Rightarrow> string option \<times> string option" where
  "plain_loop [] uid pw = (uid, pw)"
| "plain_loop (c # p) uid pw =
     (if c = nul then
        (case dropWhile (\<lambda>c. c \<noteq> nul) p of
           [] \<Rightarrow> (Some p, pw)
         | _ # q \<Rightarrow> plain_loop q (Some p) (Some q))
      else plain_loop p uid pw)"
  by pat_completeness auto
termination
proof (relation "measure (\<lambda>(p, uid, pw). length p)")
  have "length q < length p" if "dropWhile (\<lambda>c. c \<noteq> nul) p = d # q" for p q d
    using length_dropWhile_le [of "\<lambda>c. c \<noteq> nul" p] unfolding that by simp
  then show "c = nul \<Longrightarrow> dropWhile (\<lambda>c. c \<noteq> nul) p = d # q \<Longrightarrow>
      ((q, Some p, Some q), c # p, uid, pw) \<in> measure (\<lambda>(p, uid, pw). length p)" for c p d q uid pw
    by (simp add: less_Suc_eq)
qed simp_all

definition authsasl_plain :: "nat \<Rightarrow> string option \<Rightarrow> 's conv \<Rightarrow> 's \<Rightarrow> 's sasl_result" where
  "authsasl_plain bufsiz initresponse getresp s =
     (case (case initresponse of
              Some r \<Rightarrow> (s, Inr r)
            | None \<Rightarrow> get_response getresp s (authsasl_tobase64 bufsiz '''')) of
        (s, Inl e) \<Rightarrow> (s, Inl e)
      | (s, Inr p) \<Rightarrow>
          (s, case authsasl_frombase64 p of
                None \<Rightarrow> Inl AUTHSASL_ABORTED
              | Some p \<Rightarrow>
                  (case plain_loop p None None of
                     (Some uid, Some pw) \<Rightarrow> Inr (''login'', cut uid @ nl # cut pw @ [nl])
                   | _ \<Rightarrow> Inl AUTHSASL_ABORTED)))"

definition authsasl_cram ::
    "nat \<Rightarrow> string \<Rightarrow> string \<Rightarrow> string \<Rightarrow> string option \<Rightarrow> 's conv \<Rightarrow> 's \<Rightarrow> 's sasl_result" where
  "authsasl_cram bufsiz randtoken hostname meth initresponse getresp s =
     (if initresponse \<noteq> None \<and> initresponse \<noteq> Some [] then (s, Inl AUTHSASL_ERROR)
      else
        let challenge = authsasl_tobase64 bufsiz (''<'' @ randtoken @ ''@'' @ hostname @ ''>'')
        in case get_response getresp s challenge of
             (s, Inl e) \<Rightarrow> (s, Inl e)
           | (s, Inr response) \<Rightarrow>
               (s, Inr (map tolower meth, challenge @ nl # response @ [nl])))"

text \<open>
  The method is looked up in upper case; \<open>sasl_list\<close> is the list the configuration builds.
\<close>

definition authsasl ::
    "(string \<times> (string \<Rightarrow> string option \<Rightarrow> 's conv \<Rightarrow> 's \<Rightarrow> 's sasl_result)) list \<Rightarrow>
      string \<Rightarrow> string option \<Rightarrow> 's conv \<Rightarrow> 's \<Rightarrow> 's sasl_result" where
  "authsasl sasl_list meth initreply getresp s =
     (case map_of sasl_list (map toupper meth) of
        None \<Rightarrow> (s, Inl AUTHSASL_ERROR)
      | Some f \<Rightarrow> f meth initreply getresp s)"

subsection \<open>The clients\<close>

definition authsaslclient_plain :: "nat \<Rightarrow> string \<Rightarrow> string \<Rightarrow> string" where
  "authsaslclient_plain bufsiz userid password =
     authsasl_tobase64 bufsiz (nul # userid @ nul # password)"

text \<open>The two messages of LOGIN, each sent for whatever the server has asked.\<close>

definition authsaslclient_login :: "nat \<Rightarrow> string \<Rightarrow> string \<Rightarrow> string list" where
  "authsaslclient_login bufsiz userid password =
     [authsasl_tobase64 bufsiz userid, authsasl_tobase64 bufsiz password]"

definition hex_of :: "byte list \<Rightarrow> string" where
  "hex_of bs = concat (map (\<lambda>b. [''0123456789abcdef'' ! (unat b div 16), ''0123456789abcdef'' ! (unat b mod 16)]) bs)"

text \<open>\<open>c\<close> and \<open>d\<close> are the uninitialised contexts of the two hash functions.\<close>

definition authsaslclient_cram ::
    "nat \<Rightarrow> 'c hmac_hashinfo \<Rightarrow> 'c \<Rightarrow> 'c \<Rightarrow> string \<Rightarrow> string \<Rightarrow> string \<Rightarrow> string option" where
  "authsaslclient_cram bufsiz hh c d userid password challenge =
     (case authsasl_frombase64 challenge of
        None \<Rightarrow> None
      | Some ch \<Rightarrow>
          (case hmac_hashkey hh c (bytes_of password) of (kxopad, kxipad) \<Rightarrow>
             Some (authsasl_tobase64 bufsiz
               (userid @ '' '' @ hex_of (take (hh_L hh) (hmac_hashtext hh d (bytes_of ch) kxopad kxipad))))))"

subsection \<open>The check of a CRAM response\<close>

definition nybble :: "char \<Rightarrow> int" where
  "nybble c =
     (if isdigit c then int (code c) - 48
      else if 97 \<le> code c \<and> code c \<le> 102 then int (code c) - 97 + 10
      else if 65 \<le> code c \<and> code c \<le> 70 then int (code c) - 65 + 10
      else - 1)"

text \<open>
  The bytes of the secret: \<open>None\<close> when a digit is not hexadecimal. The digits of the response
  are not checked, so \<open>response_byte\<close> goes on with \<^verbatim>\<open>nybble\<close>'s -1.
\<close>

fun secret_bytes :: "string \<Rightarrow> byte list option" where
  "secret_bytes (a # b # s) =
     (if nybble a < 0 \<or> nybble b < 0 then None
      else map_option (\<lambda>bs. word_of_int (nybble a * 16 + nybble b) # bs) (secret_bytes s))"
| "secret_bytes _ = Some []"

fun response_bytes :: "string \<Rightarrow> byte list" where
  "response_bytes (a # b # s) = word_of_int (nybble a * 16 + nybble b) # response_bytes s"
| "response_bytes _ = []"

definition auth_verify_cram :: "'c hmac_hashinfo \<Rightarrow> 'c \<Rightarrow> string \<Rightarrow> string \<Rightarrow> string \<Rightarrow> bool" where
  "auth_verify_cram hash c challenge response hashsecret =
     (if length hashsecret \<noteq> hh_L hash * 4 \<or> length response \<noteq> hh_L hash * 2 then False
      else
        case secret_bytes hashsecret of
          None \<Rightarrow> False
        | Some context \<Rightarrow>
            let h = hmac_hashtext hash c (bytes_of challenge) (take (hh_L hash) context) (drop (hh_L hash) context)
            in response_bytes response = take (hh_L hash) h)"

text \<open>\<^verbatim>\<open>strtok\<close> at newlines: the token and what is left after its delimiter.\<close>

definition strtok_nl :: "string \<Rightarrow> (string \<times> string) option" where
  "strtok_nl s =
     (let s = dropWhile (\<lambda>c. c = nl) s
      in if s = [] then None
         else Some (takeWhile (\<lambda>c. c \<noteq> nl) s, tl (dropWhile (\<lambda>c. c \<noteq> nl) s)))"

datatype auth_error = EPERM | EACCES

definition auth_get_cram ::
    "'c hmac_hashinfo list \<Rightarrow> string \<Rightarrow> string \<Rightarrow>
      auth_error + 'c hmac_hashinfo \<times> string \<times> string \<times> string" where
  "auth_get_cram hmac_list authtype authdata =
     (if take 5 authtype \<noteq> ''cram-'' then Inl EPERM
      else case strtok_nl authdata of
        None \<Rightarrow> Inl EPERM
      | Some (challenge, rest) \<Rightarrow>
          (case strtok_nl rest of
             None \<Rightarrow> Inl EPERM
           | Some (response, rest) \<Rightarrow>
               (case (find (\<lambda>hh. hh_name hh = drop 5 authtype) hmac_list, authsasl_frombase64 challenge,
                      authsasl_frombase64 response) of
                  (Some hh, Some challenge, Some response) \<Rightarrow>
                    let i = length (takeWhile (\<lambda>c. c \<noteq> sp) response)
                    in if i \<ge> length response then Inl EACCES
                       else Inr (hh, cut (take i response), cut challenge, cut (drop (i + 1) response))
                | _ \<Rightarrow> Inl EACCES)))"

text \<open>
  \<open>auth_cram\<close> up to the report of its success: the account's name and record, or the error. The
  database files are the parameters \<open>fetch\<close> and \<open>shadow\<close>, \<open>u\<close> is the open connection.
\<close>

definition auth_cram ::
    "'c hmac_hashinfo list \<Rightarrow> 'c \<Rightarrow> (string \<Rightarrow> string option) \<Rightarrow> userdb_conn \<Rightarrow>
      (string \<Rightarrow> string option) option \<Rightarrow> string \<Rightarrow> string \<Rightarrow> string \<Rightarrow>
      auth_error + string \<times> userdbs" where
  "auth_cram hmac_list c fetch conn shadow service authtype authdata =
     (case auth_get_cram hmac_list authtype authdata of
        Inl e \<Rightarrow> Inl e
      | Inr (hh, user, challenge, response) \<Rightarrow>
          (case userdb fetch conn user of
             None \<Rightarrow> Inl EPERM
           | Some u \<Rightarrow>
               (case userdbshadow shadow user of
                  None \<Rightarrow> Inl EPERM
                | Some udbs \<Rightarrow>
                    (case (case userdb_gets udbs (service @ ''-hmac-'' @ hh_name hh @ ''pw'') of
                             None \<Rightarrow> userdb_gets udbs (''hmac-'' @ hh_name hh @ ''pw'')
                           | Some p \<Rightarrow> Some p) of
                       None \<Rightarrow> Inl EPERM
                     | Some passwords \<Rightarrow>
                         if \<not> auth_verify_cram hh c challenge response passwords then Inl EACCES
                         else case userdb_creates u of
                           None \<Rightarrow> Inl EACCES
                         | Some udb \<Rightarrow> Inr (user, udb)))))"

subsection \<open>Base64 without lines\<close>

definition base64_of :: "string \<Rightarrow> string" where
  "base64_of s = enc_groups (map code s)"

lemma enc_groups_append:
  "3 dvd length xs \<Longrightarrow> enc_groups (xs @ ys) = enc_groups xs @ enc_groups ys"
proof (induction xs rule: enc_groups.induct)
  case (1 a b c bs)
  have "3 dvd length bs"
    using 1(2) by simp presburger
  with 1(1) show ?case by simp
qed (auto dest: dvd_imp_le)

lemma enc_groups_nonl: "list_all (\<lambda>c. c \<noteq> cr \<and> c \<noteq> nl) (enc_groups (map code s))"
proof (rule enc_groups_symbols)
  have "list_all (\<lambda>c. c \<noteq> cr \<and> c \<noteq> nl) base64tab" "length base64tab = 64"
    by (simp_all add: base64tab_def)
  then show "base64tab ! n \<noteq> cr \<and> base64tab ! n \<noteq> nl" if "n < 64" for n
    using that by (simp add: list_all_length)
qed (simp_all add: list_all_iff code_less_256)

lemma b64_text_filter: "filter (\<lambda>c. c \<noteq> cr \<and> c \<noteq> nl) (b64_text s) = enc_groups (map code s)"
proof (induction s rule: b64_text.induct)
  case (1 s)
  show ?case
  proof (cases "s = []")
    case False
    have f: "filter (\<lambda>c. c \<noteq> cr \<and> c \<noteq> nl) (enc_groups (map code x)) = enc_groups (map code x)" for x
      using enc_groups_nonl [of x] by (simp only: filter_id_conv list_all_iff)
    have "enc_groups (map code s) = enc_groups (map code (take 57 s)) @ enc_groups (map code (drop 57 s))"
    proof (cases "length s \<le> 57")
      case False
      then have "3 dvd length (map code (take 57 s))" by simp
      then show ?thesis
        using enc_groups_append [of "map code (take 57 s)" "map code (drop 57 s)"]
        by (simp flip: map_append)
    qed simp
    with 1 [OF False] False f show ?thesis
      by (subst b64_text.simps) (simp del: filter_append add: filter_append [of _ "enc_groups _"])
  qed simp
qed

text \<open>
  A callback that maps the state of another one: the encoder does the same in both.
\<close>

definition map_arg :: "('a \<Rightarrow> 'b) \<Rightarrow> 'a encode_info \<Rightarrow> 'b encode_info" where
  "map_arg h info = \<lparr>output_buffer = output_buffer info, input_buffer = input_buffer info,
     input_buf_cnt = input_buf_cnt info, encoding_func = encoding_func info, callback_arg = h (callback_arg info)\<rparr>"

lemma map_arg_simps [simp]:
  "output_buffer (map_arg h info) = output_buffer info" "input_buffer (map_arg h info) = input_buffer info"
  "input_buf_cnt (map_arg h info) = input_buf_cnt info" "encoding_func (map_arg h info) = encoding_func info"
  "callback_arg (map_arg h info) = h (callback_arg info)"
  "(map_arg h info)\<lparr>output_buffer := x\<rparr> = map_arg h (info\<lparr>output_buffer := x\<rparr>)"
  "(map_arg h info)\<lparr>input_buffer := y, input_buf_cnt := n\<rparr> = map_arg h (info\<lparr>input_buffer := y, input_buf_cnt := n\<rparr>)"
  "(map_arg h info)\<lparr>input_buf_cnt := n\<rparr> = map_arg h (info\<lparr>input_buf_cnt := n\<rparr>)"
  by (simp_all add: map_arg_def)

definition callback_map :: "('a \<Rightarrow> 'b) \<Rightarrow> 'a callback \<Rightarrow> 'b callback \<Rightarrow> bool" where
  "callback_map h g f \<longleftrightarrow> (\<forall>a p. f (h a) p = apfst h (g a p))"

lemma call_back_map:
  "callback_map h g f \<Longrightarrow> call_back f (map_arg h info) = apfst (map_arg h) (call_back g info)"
  by (simp add: call_back_def callback_map_def case_prod_unfold map_arg_def)

lemma eflush_map:
  assumes "callback_map h g f"
  shows "eflush n f (map_arg h info) ptr = apfst (map_arg h) (eflush n g info ptr)"
proof (induction "length ptr" arbitrary: info ptr rule: less_induct)
  case less
  define r where "r = (if length (output_buffer info) = n then call_back g info else (info, 0))"
  have r: "(if length (output_buffer (map_arg h info)) = n then call_back f (map_arg h info)
      else (map_arg h info, 0)) = apfst (map_arg h) r"
    by (simp add: r_def call_back_map [OF assms])
  obtain info1 rc where info1: "r = (info1, rc)" by force
  show ?case
  proof (cases "ptr = [] \<or> rc \<noteq> 0 \<or> n \<le> length (output_buffer info1)")
    case True
    then show ?thesis
      using r info1 by (subst (1 2) eflush.simps) (auto simp: r_def)
  next
    case False
    define i where "i = min (length ptr) (n - length (output_buffer info1))"
    have "length (drop i ptr) < length ptr"
      using False by (simp add: i_def)
    note IH = less [OF this, of "info1\<lparr>output_buffer := output_buffer info1 @ take i ptr\<rparr>"]
    have "eflush n g info ptr =
        eflush n g (info1\<lparr>output_buffer := output_buffer info1 @ take i ptr\<rparr>) (drop i ptr)"
      using False info1 by (subst eflush.simps) (simp add: r_def i_def Let_def)
    moreover have "eflush n f (map_arg h info) ptr =
        eflush n f (map_arg h (info1\<lparr>output_buffer := output_buffer info1 @ take i ptr\<rparr>)) (drop i ptr)"
      using False info1 r by (subst eflush.simps) (simp add: i_def Let_def del: map_arg_simps(6) add: map_arg_simps(6) [symmetric])
    ultimately show ?thesis
      using IH by simp
  qed
qed

lemma base64_flush_map:
  "callback_map h g f \<Longrightarrow> base64_flush n f (map_arg h info) = apfst (map_arg h) (base64_flush n g info)"
  by (simp add: base64_flush_def eflush_map)

lemma base64_loop_map:
  assumes "callback_map h g f"
  shows "base64_loop n f (map_arg h info) buf = apfst (map_arg h) (base64_loop n g info buf)"
proof (induction "length buf" arbitrary: info buf rule: less_induct)
  case less
  define r where "r = (if input_buf_cnt info = 57 then base64_flush n g info else (info, 0))"
  have r: "(if input_buf_cnt (map_arg h info) = 57 then base64_flush n f (map_arg h info)
      else (map_arg h info, 0)) = apfst (map_arg h) r"
    by (simp add: r_def base64_flush_map [OF assms])
  obtain info1 rc where info1: "r = (info1, rc)" by force
  show ?case
  proof (cases "buf = [] \<or> rc \<noteq> 0 \<or> 57 \<le> input_buf_cnt info1")
    case True
    then show ?thesis
      using r info1 by (subst (1 2) base64_loop.simps) (auto simp: r_def)
  next
    case False
    define i where "i = min (length buf) (57 - input_buf_cnt info1)"
    define info2 where "info2 = info1\<lparr>input_buffer := take (input_buf_cnt info1) (input_buffer info1) @ take i buf,
      input_buf_cnt := input_buf_cnt info1 + i\<rparr>"
    have "length (drop i buf) < length buf"
      using False by (simp add: i_def)
    note IH = less [OF this, of info2]
    have "base64_loop n g info buf = base64_loop n g info2 (drop i buf)"
      using False info1 by (subst base64_loop.simps) (simp add: r_def i_def info2_def Let_def)
    moreover have "base64_loop n f (map_arg h info) buf = base64_loop n f (map_arg h info2) (drop i buf)"
      using False info1 r
      by (subst base64_loop.simps) (simp add: i_def info2_def Let_def)
    ultimately show ?thesis
      using IH by simp
  qed
qed

lemma rfc2045_encode_end_map:
  assumes "callback_map h g f"
  shows "rfc2045_encode_end n f (map_arg h info) = apfst (map_arg h) (rfc2045_encode_end n g info)"
  using base64_flush_map [OF assms, of n info] call_back_map [OF assms]
  by (auto simp: rfc2045_encode_end_def case_prod_unfold)

lemma write_challenge_map: "callback_map (filter (\<lambda>c. c \<noteq> cr \<and> c \<noteq> nl)) save_str write_challenge"
  by (simp add: callback_map_def write_challenge_def save_str_def)

lemma authsasl_tobase64: 
  assumes "0 < bufsiz"
  shows "authsasl_tobase64 bufsiz s = base64_of s"
proof -
  let ?h = "filter (\<lambda>c. c \<noteq> cr \<and> c \<noteq> nl)"
  define st :: "string encode_info" where "st = rfc2045_encode_start ''base64'' []"
  have st: "map_arg ?h st = st" "encoding_func st = Base64_encoding"
    by (simp_all add: st_def rfc2045_encode_start_def map_arg_def)
  obtain info info' where e: "rfc2045_encode_pieces bufsiz save_str st [s] = (info, 0)"
    "rfc2045_encode_end bufsiz save_str info = (info', 0)" "callback_arg info' = b64_text s"
    using rfc2045_encode_whole [OF assms, of "''base64''" "[s]"] by (auto simp: encoded_text_def st_def)
  then have "base64_loop bufsiz save_str st s = (info, 0)"
    by (simp add: rfc2045_encode_pieces_def rfc2045_encode_def st)
  then have "rfc2045_encode bufsiz write_challenge st s = (map_arg ?h info, 0)"
    using base64_loop_map [OF write_challenge_map, of bufsiz st s]
    by (simp add: rfc2045_encode_def st)
  then show ?thesis
    using rfc2045_encode_end_map [OF write_challenge_map, of bufsiz info] e b64_text_filter [of s]
    by (simp add: authsasl_tobase64_def st_def base64_of_def)
qed

lemma sasl_tab_tab: "n < 64 \<Longrightarrow> sasl_tab (base64tab ! n) = n"
  by (simp add: sasl_tab_def base64tab_index)

lemma sasl_tab_pad: "sasl_tab (CHR ''='') = 100"
  by (simp add: sasl_tab_def base64tab_def)

lemma enc_groups_pads:
  "list_all (\<lambda>b. b < 256) bs \<Longrightarrow>
    \<exists>x k. enc_groups bs = x @ replicate k (CHR ''='') \<and> k \<le> 2 \<and> list_all (\<lambda>c. sasl_tab c < 100) x"
proof (induction bs rule: enc_groups.induct)
  case (1 a b c bs)
  then obtain x k where "enc_groups bs = x @ replicate k (CHR ''='')" "k \<le> 2"
    "list_all (\<lambda>c. sasl_tab c < 100) x" by auto
  moreover have "list_all (\<lambda>c. sasl_tab c < 100) (map (\<lambda>s. base64tab ! s) (sextets a b c))"
    using sextets_less [of a b c] 1(2) by (simp add: sextets_arith sasl_tab_tab)
  ultimately show ?case
    by (intro exI [of _ "map (\<lambda>s. base64tab ! s) (sextets a b c) @ x"] exI [of _ k]) simp
next
  case (2 a b)
  have "list_all (\<lambda>c. sasl_tab c < 100) (map (\<lambda>s. base64tab ! s) (take 3 (sextets a b 0)))"
    using sextets_less [of a b 0] 2 by (simp add: sextets_arith sasl_tab_tab)
  then show ?case
    by (intro exI [of _ "map (\<lambda>s. base64tab ! s) (take 3 (sextets a b 0))"] exI [of _ 1]) simp
next
  case (3 a)
  have "list_all (\<lambda>c. sasl_tab c < 100) (map (\<lambda>s. base64tab ! s) (take 2 (sextets a 0 0)))"
    using sextets_less [of a 0 0] 3 by (simp add: sextets_arith sasl_tab_tab)
  then show ?case
    by (intro exI [of _ "map (\<lambda>s. base64tab ! s) (take 2 (sextets a 0 0))"] exI [of _ 2])
      (simp add: numeral_2_eq_2)
qed (intro exI [of _ "[]"] exI [of _ 0], simp)

lemma authsasl_frombase64_enc: "authsasl_frombase64 (base64_of s) = Some s"
proof -
  obtain x k where e: "enc_groups (map code s) = x @ replicate k (CHR ''='')" "k \<le> 2"
    "list_all (\<lambda>c. sasl_tab c < 100) x"
    using enc_groups_pads [of "map code s"] by (auto simp: list_all_iff code_less_256)
  have "takeWhile (\<lambda>c. sasl_tab c < 100) (x @ replicate k (CHR ''='')) = x"
    using e(3) sasl_tab_pad by (cases k) (auto simp: list_all_iff takeWhile_append)
  moreover have "takeWhile (\<lambda>c. c = CHR ''='') (replicate k (CHR ''='')) = replicate k (CHR ''='')"
    by (induction k) simp_all
  moreover have "(length x + k) mod 4 = 0"
    using enc_groups_4 [of s] by (simp add: e(1) dvd_eq_mod_eq_0)
  moreover have "decode_groups 100 (map sasl_tab (enc_groups (map code s))) = s"
    by (rule enc_groups_decode_chars) (simp_all add: sasl_tab_tab sasl_tab_pad)
  ultimately show ?thesis
    using e(2) by (simp add: authsasl_frombase64_def base64_of_def e(1) Let_def)
qed

interpretation sasl64: codec base64_of authsasl_frombase64 "\<lambda>s. True"
  by unfold_locales (rule authsasl_frombase64_enc)

text \<open>
  The base64 of the SASL exchange is decoded by its decoder, for every string of bytes, NULs
  included, and fits in the buffer \<open>authsasl_tobase64\<close> allocates, with its terminator.
\<close>

theorem authsasl_base64_roundtrip:
  assumes "0 < bufsiz"
  shows "authsasl_frombase64 (authsasl_tobase64 bufsiz s) = Some s \<and>
    length (authsasl_tobase64 bufsiz s) + 1 \<le> (length s + 3) div 3 * 4 + 1"
proof -
  have "length (enc_groups (map code s)) = (length s + 2) div 3 * 4"
    using enc_groups_safe [of "map code s"] by (simp add: list_all_iff code_less_256)
  moreover have "(length s + 2) div 3 \<le> (length s + 3) div 3"
    by (intro div_le_mono) simp
  ultimately show ?thesis
    by (simp add: authsasl_tobase64 [OF assms] authsasl_frombase64_enc) (simp add: base64_of_def)
qed

theorem authsasl_base64_roundtrip_witness:
  "authsasl_frombase64 (authsasl_tobase64 3 [nul, CHR ''x'', nl]) = Some [nul, CHR ''x'', nl]"
  using authsasl_base64_roundtrip [of 3 "[nul, CHR ''x'', nl]"] by simp

subsection \<open>LOGIN and PLAIN\<close>

lemma base64_nostar: "cread (base64_of s) \<noteq> CHR ''*''"
proof -
  have "list_all (\<lambda>c. c \<noteq> CHR ''*'') base64tab" "length base64tab = 64"
    by (simp_all add: base64tab_def)
  then have "list_all (\<lambda>c. c \<noteq> CHR ''*'') (enc_groups (map code s))"
    by (intro enc_groups_symbols) (simp_all add: list_all_length list_all_iff code_less_256)
  then show ?thesis
    by (cases "base64_of s") (auto simp: base64_of_def)
qed

lemma cut_cstring: "cstring s \<Longrightarrow> cut s = s" "cstring s \<Longrightarrow> cut (s @ nul # r) = s"
  by (auto simp: cstring_def cut_def takeWhile_append takeWhile_eq_all_conv)

lemma plain_loop_cstring: "cstring p \<Longrightarrow> plain_loop p uid pw = (uid, pw)"
  by (induction p) (auto simp: cstring_def)

lemma plain_loop_message:
  "cstring u \<Longrightarrow> cstring p \<Longrightarrow>
    plain_loop (nul # u @ nul # p) None None = (Some (u @ nul # p), Some p)"
proof -
  assume "cstring u" "cstring p"
  moreover have "dropWhile (\<lambda>c. c \<noteq> nul) (u @ nul # p) = nul # p" if "cstring u"
    using that by (subst dropWhile_append2) (auto simp: cstring_def)
  ultimately show ?thesis
    by (simp add: plain_loop_cstring)
qed

text \<open>
  C35. PLAIN and LOGIN deliver the credentials: what the clients send for a user name and a
  password, the server methods turn into the same authentication request, the two strings each
  on its line, whichever method is used.
\<close>

theorem sasl_login_plain:
  assumes "0 < bufsiz" "cstring u" "cstring p"
  shows "authsasl_plain bufsiz (Some (authsaslclient_plain bufsiz u p)) getresp s
      = (s, Inr (''login'', u @ nl # p @ [nl])) \<and>
    authsasl_login bufsiz None (\<lambda>rs _. (tl rs, Some (hd rs))) (authsaslclient_login bufsiz u p)
      = ([], Inr (''login'', u @ nl # p @ [nl]))"
  using assms(2,3) base64_nostar
  by (simp add: authsasl_plain_def authsasl_login_def authsaslclient_plain_def authsaslclient_login_def
      authsasl_tobase64 [OF assms(1)] authsasl_frombase64_enc get_response_def plain_loop_message
      cut_cstring del: plain_loop.simps)

theorem sasl_login_plain_witness:
  "authsasl_plain 8192 (Some (authsaslclient_plain 8192 ''ann'' ''secret'')) (\<lambda>s p. (s, None)) ()
    = ((), Inr (''login'', ''ann'' @ nl # ''secret'' @ [nl]))"
  using sasl_login_plain [of 8192 "''ann''" "''secret''" "\<lambda>s p. (s, None)" "()"]
  by (simp add: cstring_def)

subsection \<open>CRAM\<close>

lemma nybble_hex: "n < 16 \<Longrightarrow> nybble (''0123456789abcdef'' ! n) = int n"
proof -
  have "list_all (\<lambda>n. nybble (''0123456789abcdef'' ! n) = int n) [0..<16]"
    by (simp add: upt_rec nybble_def isdigit_def)
  then show "n < 16 \<Longrightarrow> ?thesis" by (simp add: list_all_iff)
qed

lemma hex_chars: "n < 16 \<Longrightarrow> ''0123456789abcdef'' ! n \<notin> {nul, nl, sp, CHR ''|''}"
proof -
  have "list_all (\<lambda>n. ''0123456789abcdef'' ! n \<notin> {nul, nl, sp, CHR ''|''}) [0..<16]"
    by (simp add: upt_rec)
  then show "n < 16 \<Longrightarrow> ?thesis" by (simp add: list_all_iff)
qed

lemma byte_nybbles: "unat (b :: byte) div 16 < 16" "unat b mod 16 < 16"
  "word_of_nat (unat b div 16) * 16 + word_of_nat (unat b mod 16) = b"
proof -
  have "unat b < 256"
    using unsigned_less [of b, where ?'a = nat] by simp
  then show "unat b div 16 < 16" "unat b mod 16 < 16"
    by (simp_all add: less_mult_imp_div_less)
  have "(word_of_nat (unat b div 16) * 16 + word_of_nat (unat b mod 16) :: byte)
      = word_of_nat (unat b div 16 * 16 + unat b mod 16)"
    by (simp only: of_nat_add of_nat_mult of_nat_numeral)
  then show "word_of_nat (unat b div 16) * 16 + word_of_nat (unat b mod 16) = b"
    by (simp only: div_mult_mod_eq) simp
qed

lemma hex_of_simps [simp]: "hex_of [] = []"
  "hex_of (b # bs) = ''0123456789abcdef'' ! (unat b div 16) # ''0123456789abcdef'' ! (unat b mod 16) # hex_of bs"
  by (simp_all add: hex_of_def)

lemma length_hex_of: "length (hex_of bs) = 2 * length bs"
  by (induction bs) (simp_all del: nth_Cons_numeral)

lemma hex_of_chars: "list_all (\<lambda>c. c \<notin> {nul, nl, sp, CHR ''|''}) (hex_of bs)"
proof (induction bs)
  case (Cons b bs)
  then show ?case
    using hex_chars [OF byte_nybbles(1) [of b]] hex_chars [OF byte_nybbles(2) [of b]]
    by (simp only: hex_of_simps list.pred_inject simp_thms)
qed simp

lemma secret_bytes_hex: "secret_bytes (hex_of bs) = Some bs"
  by (induction bs) (simp_all add: nybble_hex byte_nybbles)

lemma response_bytes_hex: "response_bytes (hex_of bs) = bs"
  by (induction bs) (simp_all add: nybble_hex byte_nybbles)

lemma strtok_nl_token:
  "x \<noteq> [] \<Longrightarrow> nl \<notin> set x \<Longrightarrow> strtok_nl (x @ nl # r) = Some (x, r)"
  by (cases x) (auto simp: strtok_nl_def Let_def takeWhile_append dropWhile_append)

lemma base64_of_token: "nl \<notin> set (base64_of s)" "s \<noteq> [] \<Longrightarrow> base64_of s \<noteq> []"
proof -
  show "nl \<notin> set (base64_of s)"
    using enc_groups_nonl [of s] by (auto simp: base64_of_def list_all_iff)
  have "length (base64_of s) = (length s + 2) div 3 * 4"
    using enc_groups_safe [of "map code s"] by (simp add: base64_of_def list_all_iff code_less_256)
  moreover have "s \<noteq> [] \<Longrightarrow> 0 < (length s + 2) div 3"
    by (cases s) (simp_all add: div_greater_zero_iff)
  ultimately show "s \<noteq> [] \<Longrightarrow> base64_of s \<noteq> []"
    by auto
qed

text \<open>The request of a CRAM exchange is taken apart again.\<close>

lemma auth_get_cram_request:
  assumes "ch \<noteq> []" "cstring ch" "cstring user" "sp \<notin> set user" "cstring r"
    and "find (\<lambda>hh. hh_name hh = name) hmac_list = Some hh"
  shows "auth_get_cram hmac_list (''cram-'' @ name)
      (base64_of ch @ nl # base64_of (user @ sp # r) @ [nl]) = Inr (hh, user, ch, r)"
proof -
  have "takeWhile (\<lambda>c. c \<noteq> sp) (user @ sp # r) = user"
    using assms(4) by (auto simp: takeWhile_append)
  then show ?thesis
    using assms strtok_nl_token [OF base64_of_token(2) base64_of_token(1), of ch]
      strtok_nl_token [OF base64_of_token(2) base64_of_token(1), of "user @ sp # r" "[]"]
    by (simp add: auth_get_cram_def authsasl_frombase64_enc Let_def cut_cstring)
qed

text \<open>
  The hash functions CRAM works with: the digests \<open>hmac_hashkey\<close> saves have the length of the hash.
\<close>

locale cram_hash = hmac_hash hh wf view raw H M
  for hh :: "'c hmac_hashinfo" and wf :: "'c \<Rightarrow> bool" and view :: "'c \<Rightarrow> 'v" and raw :: "'c \<Rightarrow> bool"
    and H :: "byte list \<Rightarrow> byte list" and M :: nat +
  assumes hashkey_length: "raw c \<Longrightarrow> length k < M \<Longrightarrow>
    length (fst (hmac_hashkey hh c k)) = hh_L hh \<and> length (snd (hmac_hashkey hh c k)) = hh_L hh"
begin

lemma hashtext_is:
  assumes "raw c" "raw d" "length k < M" "length t + hh_B hh < M"
  shows "hmac_hashtext hh d t (fst (hmac_hashkey hh c k)) (snd (hmac_hashkey hh c k)) = hmac_of hh H k t"
  using hmac_spec [OF assms] by (simp add: case_prod_unfold)

text \<open>With the hashed password as the secret, the right digest and no other one is accepted.\<close>

lemma verify_iff:
  assumes "raw c" "raw d" "length k < M" "length ch + hh_B hh < M" "length r = hh_L hh"
  shows "auth_verify_cram hh d ch (hex_of r)
      (hex_of (fst (hmac_hashkey hh c k) @ snd (hmac_hashkey hh c k))) \<longleftrightarrow> r = hmac_of hh H k (bytes_of ch)"
proof -
  have "length (bytes_of ch) + hh_B hh < M"
    using assms(4) by (simp add: bytes_of_def)
  moreover have "length (hmac_of hh H k (bytes_of ch)) = hh_L hh"
    by (simp add: hmac_of_def H_length)
  ultimately show ?thesis
    using hashkey_length [OF assms(1,3)] hashtext_is [OF assms(1-3)] assms(5)
    by (simp add: auth_verify_cram_def length_hex_of secret_bytes_hex response_bytes_hex Let_def)
qed

lemma cram_login:
  assumes "0 < bufsiz" "raw c" "raw d" "raw e" "length pw < M"
    and "ch = ''<'' @ randtoken @ ''@'' @ hostname @ ''>''" "cstring ch" "length ch + hh_B hh < M"
    and "cstring user" "sp \<notin> set user"
    and "map tolower meth = ''cram-'' @ hh_name hh" "find (\<lambda>h. hh_name h = hh_name hh) hmac_list = Some hh"
    and "userdb fetch conn user = Some u" "userdb_creates u = Some udb"
    and "userdbshadow shadow user = Some udbs"
    and "userdb_gets udbs (service @ ''-hmac-'' @ hh_name hh @ ''pw'') =
      Some (hex_of (fst (hmac_hashkey hh c (bytes_of pw)) @ snd (hmac_hashkey hh c (bytes_of pw))))"
  shows "\<exists>authdata.
    authsasl_cram bufsiz randtoken hostname meth None
      (\<lambda>s ch. (s, authsaslclient_cram bufsiz hh c d user pw ch)) s = (s, Inr (''cram-'' @ hh_name hh, authdata)) \<and>
    auth_cram hmac_list e fetch conn shadow service (''cram-'' @ hh_name hh) authdata = Inr (user, udb)"
proof -
  let ?k = "hmac_hashkey hh c (bytes_of pw)"
  define r where "r = hmac_of hh H (bytes_of pw) (bytes_of ch)"
  have r: "length r = hh_L hh"
    by (simp add: r_def hmac_of_def H_length)
  have len: "length (bytes_of pw) < M" "length (bytes_of ch) + hh_B hh < M"
    using assms(5,8) by (simp_all add: bytes_of_def)
  have ch: "ch \<noteq> []" by (simp add: assms(6))
  have client: "authsaslclient_cram bufsiz hh c d user pw (base64_of ch) =
      Some (base64_of (user @ sp # hex_of r))"
    using hashtext_is [OF assms(2,3) len] r
    by (simp add: authsaslclient_cram_def authsasl_frombase64_enc case_prod_unfold r_def
        authsasl_tobase64 [OF assms(1)])
  have "cstring (hex_of r)"
    using hex_of_chars [of r] by (auto simp: cstring_def list_all_iff)
  note get = auth_get_cram_request [OF ch assms(7,9,10) this assms(12)]
  have "auth_verify_cram hh e ch (hex_of r) (hex_of (fst ?k @ snd ?k))"
    using verify_iff [OF assms(2,4) len(1) assms(8) r] by (simp add: r_def)
  with get assms(13-16) have "auth_cram hmac_list e fetch conn shadow service (''cram-'' @ hh_name hh)
      (base64_of ch @ nl # base64_of (user @ sp # hex_of r) @ [nl]) = Inr (user, udb)"
    by (simp add: auth_cram_def)
  moreover have "authsasl_cram bufsiz randtoken hostname meth None
      (\<lambda>s ch. (s, authsaslclient_cram bufsiz hh c d user pw ch)) s =
      (s, Inr (''cram-'' @ hh_name hh, base64_of ch @ nl # base64_of (user @ sp # hex_of r) @ [nl]))"
    using client base64_nostar [of "user @ sp # hex_of r"] assms(6,11)
    by (simp add: authsasl_cram_def get_response_def Let_def authsasl_tobase64 [OF assms(1)])
  ultimately show ?thesis by blast
qed

end

text \<open>Both hash functions of the library have digests of a fixed length.\<close>

lemma length_md5_digest: "length (md5_context_digest c) = 16"
  by (simp add: md5_context_digest_def md5_put_def)

interpretation cram_md5: cram_hash hmac_md5 ctx_wf ctx_view "\<lambda>c. length (blk c) = 64"
    "\<lambda>t. md5_bytes (md5_spec t)" "2 ^ 32"
proof
  fix c :: MD5_CONTEXT and k :: "byte list"
  assume "length (blk c) = 64" "length k < 2 ^ 32"
  from hmac_md5.hashkey_pads [OF this]
  show "length (fst (hmac_hashkey hmac_md5 c k)) = hh_L hmac_md5 \<and>
      length (snd (hmac_hashkey hmac_md5 c k)) = hh_L hmac_md5"
    by (auto simp: hmac_md5_def length_md5_digest)
qed

lemma sha1_step_length: "length v = 5 \<Longrightarrow> length (sha1_step W v t) = 5"
  by (cases "(W, v, t)" rule: sha1_step.cases) (simp_all add: Let_def)

lemma length_sha1_context_hash: "length h = 5 \<Longrightarrow> length (sha1_context_hash h b) = 5"
proof -
  have "length v = 5 \<Longrightarrow> length (foldl (sha1_step W) v ts) = 5" for W v ts
    by (induction ts arbitrary: v) (simp_all add: sha1_step_length)
  then show "length h = 5 \<Longrightarrow> ?thesis"
    by (simp add: sha1_context_hash_def)
qed

lemma hashstream_inv:
  "\<forall>h b. P h \<longrightarrow> P (hash h b) \<Longrightarrow> P (hval c) \<Longrightarrow> P (hval (hashstream hash c xs))"
proof (induction hash c xs rule: hashstream.induct)
  case (1 hash c cp)
  define ll where "ll = min (length cp) (64 - blk_ptr c)"
  define c1 where "c1 = c\<lparr>blk := take (blk_ptr c) (blk c) @ take ll cp @ drop (blk_ptr c + ll) (blk c),
    blk_ptr := blk_ptr c + ll\<rparr>"
  define c2 where "c2 = (if 64 \<le> blk_ptr c1 then c1\<lparr>hval := hash (hval c1) (blk c1), blk_ptr := 0\<rparr> else c1)"
  have "P (hval c2)"
    using 1(3,4) by (simp add: c2_def c1_def)
  then have last: "P (hval (hashstream hash c2 (drop ll cp)))"
    if "cp \<noteq> []" "\<not> (blk_ptr c = 0 \<and> 64 \<le> length cp)"
    using 1(2) [OF that ll_def c1_def c2_def 1(3)] by simp
  have "hashstream hash c cp =
      (if cp = [] then c
       else if blk_ptr c = 0 \<and> 64 \<le> length cp
       then hashstream hash (c\<lparr>hval := hash (hval c) (take 64 cp)\<rparr>) (drop 64 cp)
       else hashstream hash c2 (drop ll cp))"
    by (subst hashstream.simps) (simp only: Let_def ll_def c1_def c2_def)
  with 1(1) 1(3,4) last show ?case by simp
qed

lemma length_sha1_digest: "length (hval c) = 5 \<Longrightarrow> length (sha1_context_digest c) = 20"
  by (simp add: sha1_context_digest_def length_concat sha1_put_def comp_def sum_list_triv)

interpretation cram_sha1: cram_hash hmac_sha1 ctx_wf ctx_view "\<lambda>c. length (blk c) = 64"
    "\<lambda>t. sha1_bytes (sha1_spec t)" "2 ^ 29"
proof
  fix c :: SHA1_CONTEXT and k :: "byte list"
  assume "length (blk c) = 64" "length k < 2 ^ 29"
  note pads = hmac_sha1.hashkey_pads [OF this]
  have "length (hval (hashstream sha1_context_hash (sha1_context_init d) xs)) = 5" for d xs
    by (rule hashstream_inv) (simp_all add: length_sha1_context_hash sha1_context_init_def)
  then have "length (sha1_context_digest (sha1_context_hashstream (sha1_context_init d) xs)) = 20" for d xs
    by (simp add: length_sha1_digest sha1_context_hashstream_def)
  with pads show "length (fst (hmac_hashkey hmac_sha1 c k)) = hh_L hmac_sha1 \<and>
      length (snd (hmac_hashkey hmac_sha1 c k)) = hh_L hmac_sha1"
    by (auto simp: hmac_sha1_def)
qed

text \<open>A digit of the response that is not hexadecimal counts as -1, so this one passes for \<^verbatim>\<open>ef\<close>.\<close>

lemma response_unchecked: "response_bytes ''zz'' = response_bytes ''ef''"
  by (simp add: nybble_def isdigit_def)

text \<open>
  C13. CRAM-MD5 works end to end and checks the password: with the hashed password in the shadow
  record of a known account, the client's answer to the server's challenge makes an
  authentication request that \<open>auth_cram\<close> accepts for that account; and of all answers of the
  form the client sends, for this challenge and this secret, only the keyed hash of the challenge
  under the password is accepted.
\<close>

theorem cram_md5_login:
  assumes "0 < bufsiz" "length (blk c) = 64" "length (blk d) = 64" "length (blk e) = 64"
    and "length pw < 2 ^ 32" "length ch + 64 < 2 ^ 32"
    and "ch = ''<'' @ randtoken @ ''@'' @ hostname @ ''>''" "cstring ch" "cstring user" "sp \<notin> set user"
    and "userdb fetch conn user = Some u" "userdb_creates u = Some udb"
    and "userdbshadow shadow user = Some udbs"
    and "hmac_hashkey hmac_md5 c (bytes_of pw) = (kxopad, kxipad)"
    and "userdb_gets udbs (service @ ''-hmac-md5pw'') = Some (hex_of (kxopad @ kxipad))"
  shows "(\<exists>authdata.
      authsasl_cram bufsiz randtoken hostname ''CRAM-MD5'' None
        (\<lambda>s ch. (s, authsaslclient_cram bufsiz hmac_md5 c d user pw ch)) s = (s, Inr (''cram-md5'', authdata)) \<and>
      auth_cram [hmac_md5] e fetch conn shadow service ''cram-md5'' authdata = Inr (user, udb)) \<and>
    (\<forall>r. length r = 16 \<longrightarrow> auth_verify_cram hmac_md5 e ch (hex_of r) (hex_of (kxopad @ kxipad)) \<longrightarrow>
      r = hmac_of hmac_md5 (\<lambda>t. md5_bytes (md5_spec t)) (bytes_of pw) (bytes_of ch))"
proof -
  have name: "hh_name hmac_md5 = ''md5''" "hh_B hmac_md5 = 64" "hh_L hmac_md5 = 16"
    by (simp_all add: hmac_md5_def)
  have meth: "map tolower ''CRAM-MD5'' = ''cram-'' @ hh_name hmac_md5"
    unfolding name by code_simp
  have gets: "userdb_gets udbs (service @ ''-hmac-'' @ hh_name hmac_md5 @ ''pw'') =
      Some (hex_of (fst (hmac_hashkey hmac_md5 c (bytes_of pw)) @ snd (hmac_hashkey hmac_md5 c (bytes_of pw))))"
    using assms(15) by (simp add: name assms(14))
  have find: "find (\<lambda>h. hh_name h = hh_name hmac_md5) [hmac_md5] = Some hmac_md5"
    by simp
  have len: "length ch + hh_B hmac_md5 < 2 ^ 32" "length (bytes_of pw) < 2 ^ 32"
    using assms(5,6) by (simp_all add: name bytes_of_def)
  note login = cram_md5.cram_login [OF assms(1-5,7,8) len(1) assms(9,10) meth find assms(11-13) gets, of s]
  note check = cram_md5.verify_iff [OF assms(2,4) len(2,1)]
  show ?thesis
    using login check by (simp add: name assms(14))
qed

definition witness_key :: "byte list \<times> byte list" where
  "witness_key = hmac_hashkey hmac_md5 blank_context (bytes_of ''secret'')"

theorem cram_md5_login_witness:
  "\<exists>authdata.
    authsasl_cram 8192 ''4711'' ''host'' ''CRAM-MD5'' None
      (\<lambda>s ch. (s, authsaslclient_cram 8192 hmac_md5 blank_context blank_context ''ann'' ''secret'' ch)) ()
      = ((), Inr (''cram-md5'', authdata)) \<and>
    auth_cram [hmac_md5] blank_context (\<lambda>k. Some ''home=/h|uid=1|gid=2'')
      \<lparr>initialized = True, conn_dt = 0, conn_di = 0\<rparr>
      (Some (\<lambda>k. Some (''imap-hmac-md5pw='' @ hex_of (fst witness_key @ snd witness_key)))) ''imap'' ''cram-md5'' authdata
      = Inr (''ann'', the (userdb_creates ''home=/h|uid=1|gid=2''))"
proof -
  let ?secret = "hex_of (fst witness_key @ snd witness_key)"
  let ?rec = "''imap-hmac-md5pw='' @ ?secret"
  have chars: "nul \<notin> set ?secret" "CHR ''|'' \<notin> set ?secret"
    using hex_of_chars [of "fst witness_key @ snd witness_key"]
    by (auto simp: list_all_iff)
  then have "takeWhile (\<lambda>c. c \<noteq> nul) ?rec = ?rec"
    by (auto simp: takeWhile_eq_all_conv)
  then have shadow: "userdbshadow (Some (\<lambda>k. Some ?rec)) ''ann'' = Some ?rec"
    by (simp add: userdbshadow_def)
  have "userdb_gets (field_text (''imap-hmac-md5pw'', Some ?secret) @ []) ''imap-hmac-md5pw'' = Some ?secret"
    using chars by (subst field_text(4)) (auto simp: udb_field_def)
  then have gets: "userdb_gets ?rec (''imap'' @ ''-hmac-md5pw'') = Some ?secret"
    by (simp add: field_text_def)
  have creates: "userdb_creates ''home=/h|uid=1|gid=2'' = Some (the (userdb_creates ''home=/h|uid=1|gid=2''))"
    by code_simp
  have fetch: "userdb (\<lambda>k. Some ''home=/h|uid=1|gid=2'') \<lparr>initialized = True, conn_dt = 0, conn_di = 0\<rparr> ''ann''
      = Some ''home=/h|uid=1|gid=2''"
    by (simp add: userdb_def)
  have key: "hmac_hashkey hmac_md5 blank_context (bytes_of ''secret'') = (fst witness_key, snd witness_key)"
    by (simp add: witness_key_def)
  show ?thesis
    using cram_md5_login [OF _ _ _ _ _ _ refl _ _ _ fetch creates shadow key gets,
        of 8192 blank_context blank_context "''4711''" "''host''" "()"]
    by (simp add: blank_context_def cstring_def)
qed

end
