(* ===== verification/Password_Hash.thy ===== *)
theory Password_Hash
  imports Hmac Rfc2045_Encode
begin

text \<open>
  Password hashes: \<^verbatim>\<open>md5/md5_hash.c\<close>, \<^verbatim>\<open>sha1/sha1_hash.c\<close>, \<^verbatim>\<open>md5/redhat-crypt-md5.c\<close>, and
  their use in \<^verbatim>\<open>authlib/checkpassword.c\<close>, \<^verbatim>\<open>checkpasswordmd5.c\<close>, \<^verbatim>\<open>checkpasswordsha1.c\<close> and
  \<^verbatim>\<open>cryptpassword.c\<close>. The hash contexts the functions have on the stack, with whatever is in
  them, are arguments, and so is \<^verbatim>\<open>crypt\<close> of the C library, which may return a null pointer. Passwords are C strings.
\<close>

subsection \<open>The code\<close>

text \<open>The loop over the digest in \<open>md5_hash_courier\<close> and \<open>sha1_hash\<close>.\<close>

fun hash_groups :: "nat list \<Rightarrow> string" where
  "hash_groups [] = []"
| "hash_groups (a # s) =
     (let b = (if s \<noteq> [] then hd s else 0);
          c = (if tl s \<noteq> [] then hd (tl s) else 0);
          d = base64tab ! drop_bit 2 a;
          e = base64tab ! (push_bit 4 (a AND 3) OR drop_bit 4 b);
          f = base64tab ! (push_bit 2 (b AND 15) OR drop_bit 6 c);
          g = base64tab ! (c AND 63);
          f = (if s = [] then CHR ''='' else f);
          g = (if tl s = [] then CHR ''='' else g)
      in d # e # f # g # hash_groups (drop 2 s))"

definition md5_hash_courier :: "MD5_CONTEXT \<Rightarrow> string \<Rightarrow> string" where
  "md5_hash_courier stack passw = hash_groups (map unat (md5_digest stack (bytes_of passw)))"

definition sha1_hash :: "SHA1_CONTEXT \<Rightarrow> string \<Rightarrow> string" where
  "sha1_hash stack passw = hash_groups (map unat (sha1_digest stack (bytes_of passw)))"

text \<open>The salt: at most eight characters, up to a \<^verbatim>\<open>$\<close>, after an optional prefix.\<close>

definition crypt_base64 :: string where
  "crypt_base64 = ''./0123456789ABCDEFGHIJKLMNOPQRSTUVWXYZabcdefghijklmnopqrstuvwxyz''"

definition md5_salt :: "string \<Rightarrow> string" where
  "md5_salt salt =
     (let salt = (if take 3 salt = ''$1$'' then drop 3 salt else salt)
      in take 8 (takeWhile (\<lambda>c. c \<noteq> CHR ''$'') salt))"

definition md5_crypt_inner :: "MD5_CONTEXT \<Rightarrow> byte list \<Rightarrow> byte list \<Rightarrow> byte list" where
  "md5_crypt_inner c pw salt =
     (let c = md5_context_init c;
          c = md5_context_hashstream c pw;
          c = md5_context_hashstream c salt;
          c = md5_context_hashstream c pw;
          c = md5_context_endstream c (length pw * 2 + length salt)
      in md5_context_digest c)"

text \<open>The two loops over the length of the password.\<close>

function crypt_digest_loop :: "byte list \<Rightarrow> MD5_CONTEXT \<Rightarrow> nat \<Rightarrow> MD5_CONTEXT" where
  "crypt_digest_loop digest c i =
     (if i = 0 then c
      else let j = (if 16 < i then 16 else i)
           in crypt_digest_loop digest (md5_context_hashstream c (take j digest)) (i - j))"
  by pat_completeness auto
termination
  by (relation "measure (\<lambda>(digest, c, i). i)") (auto simp: Let_def)

function crypt_bits_loop :: "byte list \<Rightarrow> MD5_CONTEXT \<Rightarrow> nat \<Rightarrow> nat \<Rightarrow> MD5_CONTEXT \<times> nat" where
  "crypt_bits_loop pw c i j =
     (if i = 0 then (c, j)
      else crypt_bits_loop pw (md5_context_hashstream c [if i AND 1 \<noteq> 0 then 0 else hd pw]) (drop_bit 1 i) (j + 1))"
  by pat_completeness auto
termination
  by (relation "measure (\<lambda>(pw, c, i, j). i)") (auto simp: drop_bit_Suc)

declare crypt_digest_loop.simps [simp del] crypt_bits_loop.simps [simp del]

definition md5_crypt_outer :: "MD5_CONTEXT \<Rightarrow> byte list \<Rightarrow> byte list \<Rightarrow> byte list \<Rightarrow> MD5_CONTEXT \<times> byte list" where
  "md5_crypt_outer c pw salt digest =
     (let c = md5_context_init c;
          c = md5_context_hashstream c pw;
          c = md5_context_hashstream c (bytes_of ''$1$'');
          c = md5_context_hashstream c salt;
          c = crypt_digest_loop digest c (length pw);
          j = length pw * 2 + length salt + 3;
          (c, j) = crypt_bits_loop pw c (length pw) j;
          c = md5_context_endstream c j
      in (c, md5_context_digest c))"

text \<open>One of the thousand rounds, with the context the round before left behind.\<close>

definition md5_crypt_round ::
    "byte list \<Rightarrow> byte list \<Rightarrow> nat \<Rightarrow> MD5_CONTEXT \<times> byte list \<Rightarrow> MD5_CONTEXT \<times> byte list" where
  "md5_crypt_round pw salt i = (\<lambda>(c, digest).
     let c = md5_context_init c;
         (c, j) = (if i AND 1 \<noteq> 0 then (md5_context_hashstream c pw, length pw)
                   else (md5_context_hashstream c (take 16 digest), 16));
         (c, j) = (if i mod 3 \<noteq> 0 then (md5_context_hashstream c salt, j + length salt) else (c, j));
         (c, j) = (if i mod 7 \<noteq> 0 then (md5_context_hashstream c pw, j + length pw) else (c, j));
         (c, j) = (if i AND 1 \<noteq> 0 then (md5_context_hashstream c (take 16 digest), j + 16)
                   else (md5_context_hashstream c pw, j + length pw));
         c = md5_context_endstream c j
     in (c, md5_context_digest c))"

definition crypt_put :: "nat \<Rightarrow> nat \<Rightarrow> string" where
  "crypt_put n j = map (\<lambda>k. crypt_base64 ! (drop_bit (6 * k) j AND 63)) [0..<n]"

definition md5_crypt_text :: "byte list \<Rightarrow> string" where
  "md5_crypt_text digest =
     (let d = (\<lambda>i. unat (digest ! i))
      in concat (map (\<lambda>i. crypt_put 4 (push_bit 16 (d i) OR push_bit 8 (d (i + 6))
            OR d (if i = 4 then 5 else 12 + i))) [0..<5])
         @ crypt_put 2 (d 11))"

definition md5_crypt_redhat :: "MD5_CONTEXT \<Rightarrow> MD5_CONTEXT \<Rightarrow> string \<Rightarrow> string \<Rightarrow> string" where
  "md5_crypt_redhat outer_context inner_context pw salt =
     (let salt = md5_salt salt;
          digest = md5_crypt_inner inner_context (bytes_of pw) (bytes_of salt);
          (c, digest) = md5_crypt_outer outer_context (bytes_of pw) (bytes_of salt) digest;
          (c, digest) = fold (md5_crypt_round (bytes_of pw) (bytes_of salt)) [0..<1000] (c, digest)
      in ''$1$'' @ salt @ ''$'' @ md5_crypt_text digest)"

text \<open>
  The contexts on the stack of one call: the two of \<open>md5_crypt_redhat\<close>, that of \<open>md5_digest\<close>
  and that of \<open>sha1_digest\<close>.
\<close>

type_synonym stack = "MD5_CONTEXT \<times> MD5_CONTEXT \<times> MD5_CONTEXT \<times> SHA1_CONTEXT"

definition authcheckpasswordmd5 :: "stack \<Rightarrow> string \<Rightarrow> string \<Rightarrow> bool" where
  "authcheckpasswordmd5 = (\<lambda>(outer, inner, md5c, sha1c) password encrypted.
     if take 3 encrypted = ''$1$'' then encrypted = md5_crypt_redhat outer inner password encrypted
     else if caseprefix ''{MD5}'' encrypted then drop 5 encrypted = md5_hash_courier md5c password
     else False)"

definition authcheckpasswordsha1 :: "stack \<Rightarrow> string \<Rightarrow> string \<Rightarrow> bool" where
  "authcheckpasswordsha1 = (\<lambda>(outer, inner, md5c, sha1c) password encrypted.
     if caseprefix ''{SHA}'' encrypted then drop 5 encrypted = sha1_hash sha1c password else False)"

text \<open>\<open>None\<close>: \<^verbatim>\<open>strcmp\<close> of the null pointer that \<^verbatim>\<open>crypt\<close> returned.\<close>

definition authcheckpassword ::
    "(string \<Rightarrow> string \<Rightarrow> string option) \<Rightarrow> stack \<Rightarrow> string \<Rightarrow> string \<Rightarrow> bool option" where
  "authcheckpassword crypt stack password encrypted =
     (if take 3 encrypted = ''$1$'' \<or> caseprefix ''{MD5}'' encrypted
      then Some (authcheckpasswordmd5 stack password encrypted)
      else if caseprefix ''{SHA}'' encrypted then Some (authcheckpasswordsha1 stack password encrypted)
      else map_option (\<lambda>c. encrypted = c) (crypt password encrypted))"

text \<open>The salt of \<open>crypt_hash\<close>, from the time and the process id.\<close>

definition crypt_salt :: string where
  "crypt_salt = ''ABCDEFGHIJKLMNOPQRSTUVWXYZabcdefghijklmnopqrstuvwxyz0123456789./''"

definition crypt_hash ::
    "(string \<Rightarrow> string \<Rightarrow> string option) \<Rightarrow> nat \<Rightarrow> nat \<Rightarrow> nat \<Rightarrow> string \<Rightarrow> string option" where
  "crypt_hash crypt tv_sec tv_usec pid pw =
     (let tv = (tv_sec OR tv_usec) XOR pid
      in crypt pw [crypt_salt ! (tv mod 64), crypt_salt ! (tv div 64 mod 64)])"

definition authcryptpasswd ::
    "(string \<Rightarrow> string \<Rightarrow> string option) \<Rightarrow> nat \<times> nat \<times> nat \<Rightarrow> stack \<Rightarrow> string \<Rightarrow> string option \<Rightarrow>
      string option" where
  "authcryptpasswd crypt = (\<lambda>(tv_sec, tv_usec, pid) (outer, inner, md5c, sha1c) password hint.
     let md5 = (case hint of None \<Rightarrow> True | Some h \<Rightarrow> take 3 h = ''$1$'' \<or> caseprefix ''{MD5}'' h);
         sha1 = (case hint of None \<Rightarrow> True | Some h \<Rightarrow> caseprefix ''{SHA}'' h)
     in if sha1 then Some (''{SHA}'' @ sha1_hash sha1c password)
        else if md5 then Some (''{MD5}'' @ md5_hash_courier md5c password)
        else map_option (\<lambda>p. ''{CRYPT}'' @ p) (crypt_hash crypt tv_sec tv_usec pid password))"

subsection \<open>The MD5 based crypt\<close>

text \<open>
  What \<open>md5_crypt_redhat\<close> computes, over whole messages and the MD5 of RFC 1321: the digest of
  password, salt and password, repeated to the length of the password; the bits of that length;
  and a thousand rounds.
\<close>

definition md5h :: "byte list \<Rightarrow> byte list" where
  "md5h msg = md5_bytes (md5_spec msg)"

definition cyc :: "nat \<Rightarrow> 'a list \<Rightarrow> 'a list" where
  "cyc n d = map (\<lambda>k. d ! (k mod length d)) [0..<n]"

fun nbits :: "nat \<Rightarrow> nat" where
  "nbits n = (if n = 0 then 0 else Suc (nbits (n div 2)))"

declare nbits.simps [simp del]

definition crypt_bits :: "byte list \<Rightarrow> nat \<Rightarrow> byte list" where
  "crypt_bits pw n = map (\<lambda>k. if bit n k then 0 else hd pw) [0..<nbits n]"

definition crypt_first :: "byte list \<Rightarrow> byte list \<Rightarrow> byte list" where
  "crypt_first pw salt =
     md5h (pw @ bytes_of ''$1$'' @ salt @ cyc (length pw) (md5h (pw @ salt @ pw)) @ crypt_bits pw (length pw))"

definition crypt_round :: "byte list \<Rightarrow> byte list \<Rightarrow> nat \<Rightarrow> byte list \<Rightarrow> byte list" where
  "crypt_round pw salt i d =
     md5h ((if odd i then pw else d) @ (if 3 dvd i then [] else salt) @ (if 7 dvd i then [] else pw)
       @ (if odd i then d else pw))"

definition md5_crypt :: "string \<Rightarrow> string \<Rightarrow> string" where
  "md5_crypt pw salt =
     ''$1$'' @ salt @ ''$'' @ md5_crypt_text
       (fold (crypt_round (bytes_of pw) (bytes_of salt)) [0..<1000] (crypt_first (bytes_of pw) (bytes_of salt)))"

lemma length_md5h [simp]: "length (md5h msg) = 16"
  by (simp add: md5h_def md5_bytes_def)

lemma length_bytes_of [simp]: "length (bytes_of s) = length s"
  by (simp add: bytes_of_def)

lemma md5_streamed_blk: "md5_streamed xs c \<Longrightarrow> length (blk c) = 64"
  by (simp add: md5_streamed_def streamed_def ctx_wf_def)

lemma md5_streamed_blk_end: "md5_streamed xs c \<Longrightarrow> length (blk (md5_context_endstream c n)) = 64"
  by (rule md5_streamed_blk [OF md5_endstream_streamed])

lemma md5_streamed_digest:
  "md5_streamed xs c \<Longrightarrow> n = length xs \<Longrightarrow> length xs < 2 ^ 32 \<Longrightarrow>
    md5_context_digest (md5_context_endstream c n) = md5h xs"
  by (simp add: md5_endstream_spec md5h_def)

lemma cyc_step: "length d = 16 \<Longrightarrow> 16 < i \<Longrightarrow> d @ cyc (i - 16) d = cyc i d"
  by (rule nth_equalityI) (auto simp: cyc_def nth_append mod_less le_mod_geq)

lemma crypt_digest_loop_streamed:
  "length d = 16 \<Longrightarrow> md5_streamed xs c \<Longrightarrow> md5_streamed (xs @ cyc i d) (crypt_digest_loop d c i)"
proof (induction i arbitrary: xs c rule: less_induct)
  case (less i)
  show ?case
  proof (cases "16 < i")
    case True
    with less.IH [of "i - 16" "xs @ d" "md5_context_hashstream c d"] less.prems show ?thesis
      by (simp add: crypt_digest_loop.simps [of d c i] md5_hashstream_streamed cyc_step)
  next
    case False
    have "take i d = cyc i d"
      using False less.prems(1) by (intro nth_equalityI) (auto simp: cyc_def)
    with False md5_hashstream_streamed [OF less.prems(2), of "take i d"] less.prems(2) show ?thesis
      by (simp add: crypt_digest_loop.simps [of d c i] crypt_digest_loop.simps [of d _ 0] cyc_def)
  qed
qed

lemma crypt_bits_step:
  "0 < n \<Longrightarrow> crypt_bits pw n = (if odd n then 0 else hd pw) # crypt_bits pw (n div 2)"
  by (simp add: crypt_bits_def nbits.simps [of n] upt_conv_Cons map_Suc_upt [symmetric] bit_0 bit_Suc
      del: upt_Suc)

lemma crypt_bits_loop_streamed:
  "md5_streamed xs c \<Longrightarrow>
    \<exists>c'. crypt_bits_loop pw c i j = (c', j + length (crypt_bits pw i)) \<and> md5_streamed (xs @ crypt_bits pw i) c'"
proof (induction i arbitrary: xs c j rule: less_induct)
  case (less i)
  show ?case
  proof (cases "i = 0")
    case True
    with less.prems show ?thesis
      by (simp add: crypt_bits_loop.simps [of pw c 0] crypt_bits_def nbits.simps [of 0])
  next
    case False
    define b where "b = (if odd i then 0 else hd pw)"
    have "(i AND 1 \<noteq> 0) = odd i" by (simp add: and_one_eq mod_2_eq_odd)
    with False have "crypt_bits_loop pw c i j = crypt_bits_loop pw (md5_context_hashstream c [b]) (i div 2) (j + 1)"
      by (simp add: crypt_bits_loop.simps [of pw c i] b_def drop_bit_Suc)
    moreover have "crypt_bits pw i = b # crypt_bits pw (i div 2)"
      using False by (simp add: crypt_bits_step b_def)
    ultimately show ?thesis
      using less.IH [of "i div 2" "xs @ [b]" "md5_context_hashstream c [b]" "j + 1"] False less.prems
      by (simp add: md5_hashstream_streamed)
  qed
qed

lemma length_crypt_bits: "length (crypt_bits pw n) \<le> n"
proof (induction n rule: less_induct)
  case (less n)
  show ?case
  proof (cases "n = 0")
    case True
    then show ?thesis by (simp add: crypt_bits_def nbits.simps)
  next
    case False
    with less [of "n div 2"] show ?thesis by (simp add: crypt_bits_step)
  qed
qed

lemma md5_hashstream_Nil: "md5_context_hashstream c [] = c"
  by (simp add: md5_context_hashstream_def hashstream.simps)

lemma md5_crypt_inner:
  assumes "length (blk c) = 64" "2 * length pw + length salt < 2 ^ 32"
  shows "md5_crypt_inner c pw salt = md5h (pw @ salt @ pw)"
proof -
  note h = md5_hashstream_streamed
  have "md5_streamed ((([] @ pw) @ salt) @ pw)
      (md5_context_hashstream (md5_context_hashstream (md5_context_hashstream (md5_context_init c) pw) salt) pw)"
    by (intro h md5_init_streamed assms(1))
  from md5_streamed_digest [OF this, of "length pw * 2 + length salt"] show ?thesis
    using assms(2) by (simp add: md5_crypt_inner_def)
qed

lemma md5_crypt_outer:
  assumes "length (blk c) = 64" "length pw < 2 ^ 30" "length salt \<le> 8" "d = md5h (pw @ salt @ pw)"
  shows "\<exists>c'. md5_crypt_outer c pw salt d = (c', crypt_first pw salt) \<and> length (blk c') = 64"
proof -
  define xs where "xs = ((([] @ pw) @ bytes_of ''$1$'') @ salt) @ cyc (length pw) d"
  define c1 where "c1 = crypt_digest_loop d (md5_context_hashstream (md5_context_hashstream
    (md5_context_hashstream (md5_context_init c) pw) (bytes_of ''$1$'')) salt) (length pw)"
  have "md5_streamed xs c1"
    unfolding xs_def c1_def assms(4)
    by (intro crypt_digest_loop_streamed length_md5h md5_hashstream_streamed md5_init_streamed assms(1))
  from crypt_bits_loop_streamed [OF this, of pw "length pw" "length pw * 2 + length salt + 3"]
  obtain c2 where loop: "crypt_bits_loop pw c1 (length pw) (length pw * 2 + length salt + 3) =
      (c2, length pw * 2 + length salt + 3 + length (crypt_bits pw (length pw)))"
    and c2: "md5_streamed (xs @ crypt_bits pw (length pw)) c2" by blast
  have "length (xs @ crypt_bits pw (length pw)) < 2 ^ 32"
    using assms(2,3) length_crypt_bits [of pw "length pw"] by (simp add: xs_def cyc_def)
  then have "md5_context_digest (md5_context_endstream c2
      (length pw * 2 + length salt + 3 + length (crypt_bits pw (length pw)))) = crypt_first pw salt"
    using md5_streamed_digest [OF c2, of "length pw * 2 + length salt + 3 + length (crypt_bits pw (length pw))"]
    by (simp add: xs_def cyc_def crypt_first_def assms(4))
  with md5_streamed_blk_end [OF c2] loop show ?thesis
    by (simp add: md5_crypt_outer_def Let_def c1_def)
qed

lemma md5_crypt_round:
  assumes "length (blk c) = 64" "length pw < 2 ^ 30" "length salt \<le> 8" "length d = 16"
  shows "\<exists>c'. md5_crypt_round pw salt i (c, d) = (c', crypt_round pw salt i d) \<and> length (blk c') = 64"
proof -
  note h = md5_hashstream_streamed
  define xs where "xs = (((([] @ (if odd i then pw else d)) @ (if 3 dvd i then [] else salt))
    @ (if 7 dvd i then [] else pw)) @ (if odd i then d else pw))"
  have bit: "(i AND 1 \<noteq> 0) = odd i" by (simp add: and_one_eq mod_2_eq_odd)
  have len: "length xs < 2 ^ 32" using assms(2-4) by (simp add: xs_def)
  note init = md5_init_streamed [OF assms(1)]
  define c' where "c' = md5_context_hashstream (md5_context_hashstream (md5_context_hashstream
    (md5_context_hashstream (md5_context_init c) (if odd i then pw else d)) (if 3 dvd i then [] else salt))
    (if 7 dvd i then [] else pw)) (if odd i then d else pw)"
  have c': "md5_streamed xs c'"
    unfolding xs_def c'_def by (intro h init)
  have "md5_crypt_round pw salt i (c, d) =
      (md5_context_endstream c' (length xs), md5_context_digest (md5_context_endstream c' (length xs)))"
    using assms(4)
    by (simp add: md5_crypt_round_def Let_def c'_def xs_def bit dvd_eq_mod_eq_0 md5_hashstream_Nil ac_simps)
  with md5_streamed_digest [OF c' refl len] md5_streamed_blk_end [OF c'] show ?thesis
    by (simp add: xs_def crypt_round_def)
qed

lemma md5_crypt_rounds:
  assumes "length pw < 2 ^ 30" "length salt \<le> 8"
  shows "length (blk c) = 64 \<Longrightarrow> length d = 16 \<Longrightarrow>
    \<exists>c'. fold (md5_crypt_round pw salt) is (c, d) = (c', fold (crypt_round pw salt) is d)"
proof (induction "is" arbitrary: c d)
  case (Cons i "is")
  from md5_crypt_round [OF Cons.prems(1) assms Cons.prems(2), of i] obtain c' where
    "md5_crypt_round pw salt i (c, d) = (c', crypt_round pw salt i d)" "length (blk c') = 64" by blast
  moreover have "length (crypt_round pw salt i d) = 16" by (simp add: crypt_round_def)
  ultimately show ?case using Cons.IH [of c' "crypt_round pw salt i d"] by simp
qed simp

lemma length_md5_salt: "length (md5_salt salt) \<le> 8"
  by (simp add: md5_salt_def Let_def)

lemma md5_crypt_redhat_eq:
  assumes "length (blk outer) = 64" "length (blk inner) = 64" "length pw < 2 ^ 30"
  shows "md5_crypt_redhat outer inner pw salt = md5_crypt pw (md5_salt salt)"
proof -
  let ?p = "bytes_of pw" and ?s = "bytes_of (md5_salt salt)"
  have len: "length ?p < 2 ^ 30" "length ?s \<le> 8" "2 * length ?p + length ?s < 2 ^ 32"
    using assms(3) length_md5_salt [of salt] by simp_all
  from md5_crypt_outer [OF assms(1) len(1,2) refl] obtain c' where
    "md5_crypt_outer outer ?p ?s (md5h (?p @ ?s @ ?p)) = (c', crypt_first ?p ?s)" "length (blk c') = 64" by blast
  moreover from this(2) obtain c'' where
    "fold (md5_crypt_round ?p ?s) [0..<1000] (c', crypt_first ?p ?s) =
      (c'', fold (crypt_round ?p ?s) [0..<1000] (crypt_first ?p ?s))"
    using md5_crypt_rounds [OF len(1,2), of c' "crypt_first ?p ?s" "[0..<1000]"] by (auto simp: crypt_first_def)
  ultimately show ?thesis
    unfolding md5_crypt_redhat_def Let_def md5_crypt_inner [OF assms(2) len(3)] md5_crypt_def by simp
qed

lemma length_crypt_put [simp]: "length (crypt_put n j) = n"
  by (simp add: crypt_put_def)

lemma length_md5_crypt_text [simp]: "length (md5_crypt_text d) = 22"
  by (simp add: md5_crypt_text_def length_concat o_def sum_list_triv)

lemma md5_salt_md5_crypt: "length salt \<le> 8 \<Longrightarrow> CHR ''$'' \<notin> set salt \<Longrightarrow> md5_salt (md5_crypt pw salt) = salt"
  by (simp add: md5_salt_def md5_crypt_def takeWhile_append)

lemma length_md5_crypt: "length (md5_crypt pw salt) = length salt + 26"
  by (simp add: md5_crypt_def)

lemma md5_salt_clean: "CHR ''$'' \<notin> set (md5_salt salt)"
  by (auto simp: md5_salt_def Let_def dest!: in_set_takeD set_takeWhileD)



subsection \<open>Checking a password\<close>

lemma hash_groups_enc: "hash_groups bs = enc_groups bs"
  by (induction bs rule: enc_groups.induct) (simp_all add: sextets_def)

definition sha1h :: "byte list \<Rightarrow> byte list" where
  "sha1h msg = sha1_bytes (sha1_spec msg)"

lemma md5_digest_md5h: "length (blk stack) = 64 \<Longrightarrow> length msg < 2 ^ 32 \<Longrightarrow> md5_digest stack msg = md5h msg"
  using md5_streamed_digest [where xs = msg and n = "length msg"] md5_hashstream_streamed [OF md5_init_streamed]
  by (fastforce simp: md5_digest_def)

lemma sha1_digest_sha1h: "length (blk stack) = 64 \<Longrightarrow> length msg < 2 ^ 29 \<Longrightarrow> sha1_digest stack msg = sha1h msg"
  using sha1_endstream_spec [of msg] sha1_hashstream_streamed [OF sha1_init_streamed]
  by (fastforce simp: sha1_digest_def sha1h_def)

text \<open>What a stored password accepts, by its prefix.\<close>

definition base64_bytes :: "byte list \<Rightarrow> string" where
  "base64_bytes bs = enc_groups (map unat bs)"

definition password_matches :: "(string \<Rightarrow> string \<Rightarrow> string option) \<Rightarrow> string \<Rightarrow> string \<Rightarrow> bool option" where
  "password_matches crypt pw e =
     (if take 3 e = ''$1$'' then Some (e = md5_crypt pw (md5_salt e))
      else if strcaseeq ''{MD5}'' (take 5 e) then Some (drop 5 e = base64_bytes (md5h (bytes_of pw)))
      else if strcaseeq ''{SHA}'' (take 5 e) then Some (drop 5 e = base64_bytes (sha1h (bytes_of pw)))
      else map_option (\<lambda>c. e = c) (crypt pw e))"

definition stack_ok :: "stack \<Rightarrow> bool" where
  "stack_ok = (\<lambda>(outer, inner, md5c, sha1c).
     length (blk outer) = 64 \<and> length (blk inner) = 64 \<and> length (blk md5c) = 64 \<and> length (blk sha1c) = 64)"

lemma caseprefix_take: "caseprefix pat s \<longleftrightarrow> strcaseeq pat (take (length pat) s)"
  by (induction pat s rule: caseprefix.induct) (auto simp: strcaseeq_def)

lemma authcheckpassword_matches:
  assumes "stack_ok st" "length pw < 2 ^ 29"
  shows "authcheckpassword crypt st pw e = password_matches crypt pw e"
proof -
  obtain outer inner md5c sha1c where st: "st = (outer, inner, md5c, sha1c)" by (cases st)
  have "md5_crypt_redhat outer inner pw e = md5_crypt pw (md5_salt e)"
    "md5_hash_courier md5c pw = base64_bytes (md5h (bytes_of pw))"
    "sha1_hash sha1c pw = base64_bytes (sha1h (bytes_of pw))"
    using assms unfolding st
    by (simp_all add: stack_ok_def md5_crypt_redhat_eq md5_hash_courier_def sha1_hash_def hash_groups_enc
        base64_bytes_def md5_digest_md5h sha1_digest_sha1h)
  moreover have "caseprefix ''{MD5}'' e = strcaseeq ''{MD5}'' (take 5 e)"
    "caseprefix ''{SHA}'' e = strcaseeq ''{SHA}'' (take 5 e)"
    by (simp_all only: caseprefix_take, simp_all add: eval_nat_numeral)
  ultimately show ?thesis
    by (simp add: st authcheckpassword_def authcheckpasswordmd5_def authcheckpasswordsha1_def
        password_matches_def)
qed

lemma authcryptpasswd_eq:
  assumes "stack_ok st" "length pw < 2 ^ 29"
  shows "authcryptpasswd crypt t st pw hint =
    (case hint of None \<Rightarrow> Some (''{SHA}'' @ base64_bytes (sha1h (bytes_of pw)))
     | Some h \<Rightarrow>
        if caseprefix ''{SHA}'' h then Some (''{SHA}'' @ base64_bytes (sha1h (bytes_of pw)))
        else if take 3 h = ''$1$'' \<or> caseprefix ''{MD5}'' h then Some (''{MD5}'' @ base64_bytes (md5h (bytes_of pw)))
        else map_option (\<lambda>p. ''{CRYPT}'' @ p) (crypt_hash crypt (fst t) (fst (snd t)) (snd (snd t)) pw))"
proof -
  obtain outer inner md5c sha1c sec usec pid where st: "st = (outer, inner, md5c, sha1c)" "t = (sec, usec, pid)"
    by (cases st; cases t)
  then show ?thesis
    using assms by (simp add: stack_ok_def authcryptpasswd_def md5_hash_courier_def sha1_hash_def hash_groups_enc
        base64_bytes_def md5_digest_md5h sha1_digest_sha1h split: option.splits)
qed

text \<open>
  C38. \<open>authcheckpassword\<close> accepts a password exactly when the stored hash is that of the
  password, for each kind of hash, whatever was on the stack; and every hash \<open>authcryptpasswd\<close>
  makes, except those of \<^verbatim>\<open>crypt\<close>, is accepted again for its password, also by another process.
\<close>

theorem authcheckpassword_exact:
  assumes "stack_ok st" "stack_ok st'" "length pw < 2 ^ 29"
    and "\<forall>h. hint = Some h \<longrightarrow> take 3 h = ''$1$'' \<or> caseprefix ''{MD5}'' h \<or> caseprefix ''{SHA}'' h"
  shows "authcheckpassword crypt st pw e = password_matches crypt pw e \<and>
    (\<exists>e'. authcryptpasswd crypt t st' pw hint = Some e' \<and> authcheckpassword crypt st pw e' = Some True)"
proof -
  have [simp]: "strcaseeq ''{MD5}'' ''{MD5}''" "strcaseeq ''{SHA}'' ''{SHA}''" "\<not> strcaseeq ''{MD5}'' ''{SHA}''"
    by code_simp+
  have "password_matches crypt pw (''{SHA}'' @ base64_bytes (sha1h (bytes_of pw))) = Some True"
    "password_matches crypt pw (''{MD5}'' @ base64_bytes (md5h (bytes_of pw))) = Some True"
    by (simp_all add: password_matches_def)
  then show ?thesis
    using assms(4) unfolding authcheckpassword_matches [OF assms(1,3)] authcryptpasswd_eq [OF assms(2,3)]
    by (auto split: option.splits)
qed

theorem authcheckpassword_exact_witness:
  "authcheckpassword (\<lambda>pw s. Some s) (blank_context, blank_context, blank_context, blank_sha1) ''secret'' ''{md5}x'' =
     password_matches (\<lambda>pw s. Some s) ''secret'' ''{md5}x'' \<and>
   (\<exists>e'. authcryptpasswd (\<lambda>pw s. Some s) (0, 0, 0) (blank_context, blank_context, blank_context, blank_sha1)
       ''secret'' None = Some e' \<and>
     authcheckpassword (\<lambda>pw s. Some s) (blank_context, blank_context, blank_context, blank_sha1) ''secret'' e' =
       Some True)"
  by (rule authcheckpassword_exact) (simp_all add: stack_ok_def blank_context_def blank_sha1_def)

end
