(* ===== verification/Maildir_Search.thy ===== *)
theory Maildir_Search
  imports C_Prelude "HOL-Library.Sublist"
begin

text \<open>
  The search engine of \<^verbatim>\<open>maildir/maildirsearch.c\<close> and \<^verbatim>\<open>maildirsearch.h\<close>: a table of retry
  indexes is made of the string searched for, and the text is fed one character at a time. The
  string has no NUL, \<open>sptr\<close> is \<open>None\<close> for a null pointer, and memory allocation succeeds.
\<close>

subsection \<open>The code\<close>

record maildir_searchengine =
  sstring :: string
  sptr :: "string option"
  sr :: "nat list"
  si :: nat

definition maildir_search_init :: maildir_searchengine where
  "maildir_search_init = \<lparr>sstring = [], sptr = None, sr = [], si = 0\<rparr>"

text \<open>The inner loop of \<open>maildir_search_start\<close>: the first mismatch of the string with itself, shifted by \<open>i\<close>.\<close>

function start_inner :: "string \<Rightarrow> nat \<Rightarrow> nat \<Rightarrow> nat list \<Rightarrow> nat list" where
  "start_inner s i j r =
     (if i + j < length s then
        if s ! j \<noteq> s ! (i + j) then (if r ! (i + j) < j then r[i + j := j] else r)
        else start_inner s i (j + 1) r
      else r)"
  by pat_completeness auto
termination
  by (relation "measure (\<lambda>(s, i, j, r). length s - j)") auto

declare start_inner.simps [simp del]

definition maildir_search_reset :: "maildir_searchengine \<Rightarrow> maildir_searchengine" where
  "maildir_search_reset e = e\<lparr>si := 0, sptr := Some (sstring e)\<rparr>"

definition maildir_search_start :: "maildir_searchengine \<Rightarrow> string \<Rightarrow> maildir_searchengine" where
  "maildir_search_start e s =
     maildir_search_reset
       (e\<lparr>sstring := s, si := 0, sr := fold (\<lambda>i r. start_inner s i 0 r) [0..<length s] (replicate (length s) 0)\<rparr>)"

definition maildir_search_found :: "maildir_searchengine \<Rightarrow> bool" where
  "maildir_search_found e \<longleftrightarrow> (case sptr e of None \<Rightarrow> False | Some p \<Rightarrow> si e = length p)"

text \<open>The loop of a step; \<open>None\<close> would be a step that does not end.\<close>

partial_function (option) step_loop :: "string \<Rightarrow> nat list \<Rightarrow> char \<Rightarrow> nat \<Rightarrow> nat option" where
  "step_loop p r ch i =
     (if p ! i = ch then Some (i + 1) else if i = 0 then Some i else step_loop p r ch (r ! i))"

definition maildir_search_step :: "maildir_searchengine \<Rightarrow> char \<Rightarrow> maildir_searchengine option" where
  "maildir_search_step e ch =
     (case sptr e of
        None \<Rightarrow> Some e
      | Some p \<Rightarrow>
          if si e < length p then map_option (\<lambda>i. e\<lparr>si := i\<rparr>) (step_loop p (sr e) ch (si e)) else Some e)"

text \<open>The text, one character after the other, as the callers do.\<close>

fun search_text :: "maildir_searchengine \<Rightarrow> string \<Rightarrow> maildir_searchengine option" where
  "search_text e [] = Some e"
| "search_text e (c # t) = (case maildir_search_step e c of None \<Rightarrow> None | Some e \<Rightarrow> search_text e t)"

subsection \<open>The retry indexes\<close>

text \<open>
  A retry index for a mismatch at \<open>k\<close>: a prefix that also ends before \<open>k\<close>, and goes on with another character
  than the one that did not match.
\<close>

definition retry :: "string \<Rightarrow> nat \<Rightarrow> nat \<Rightarrow> bool" where
  "retry s k j \<longleftrightarrow> j < k \<and> take j s = take j (drop (k - j) s) \<and> s ! j \<noteq> s ! k"

definition retry_table :: "string \<Rightarrow> nat \<Rightarrow> nat list \<Rightarrow> bool" where
  "retry_table s n r \<longleftrightarrow>
     length r = length s \<and>
     (\<forall>k < length s. (r ! k = 0 \<or> retry s k (r ! k)) \<and> (\<forall>j. retry s k j \<longrightarrow> k - j < n \<longrightarrow> j \<le> r ! k))"

lemma retry_tableD:
  assumes "retry_table s n r" "k < length s"
  shows "r ! k = 0 \<or> retry s k (r ! k)" "retry s k j \<Longrightarrow> k - j < n \<Longrightarrow> j \<le> r ! k"
  using assms by (simp_all add: retry_table_def)

lemma take_Suc_eq:
  "take j s = take j t \<Longrightarrow> j < length s \<Longrightarrow> j < length t \<Longrightarrow> s ! j = t ! j \<Longrightarrow> take (Suc j) s = take (Suc j) t"
  by (simp add: take_Suc_conv_app_nth)

text \<open>Where a string differs from itself shifted by \<open>i\<close>: the index is unique, and \<open>start_inner\<close> records it.\<close>

definition differs :: "string \<Rightarrow> nat \<Rightarrow> nat \<Rightarrow> bool" where
  "differs s i m \<longleftrightarrow> i + m < length s \<and> take m s = take m (drop i s) \<and> s ! m \<noteq> s ! (i + m)"

lemma retry_differs: "k < length s \<Longrightarrow> retry s k j \<longleftrightarrow> j < k \<and> differs s (k - j) j"
  by (auto simp: retry_def differs_def)

lemma differs_0: "\<not> differs s 0 m"
  by (simp add: differs_def)

lemma differs_take: "differs s i m \<Longrightarrow> take j s = take j (drop i s) \<Longrightarrow> j \<le> m"
proof (rule ccontr)
  assume d: "differs s i m" "take j s = take j (drop i s)" "\<not> j \<le> m"
  then have "m < j" and "i + m < length s" by (simp_all add: differs_def)
  then have "s ! m = take j s ! m" "take j (drop i s) ! m = s ! (i + m)" by simp_all
  with d(1,2) show False by (simp add: differs_def)
qed

lemma differs_unique: "differs s i m \<Longrightarrow> differs s i n \<Longrightarrow> m = n"
  by (meson differs_def differs_take le_antisym)

lemma start_inner_differs:
  "take j s = take j (drop i s) \<Longrightarrow>
    (start_inner s i j r = r \<and> (\<nexists>m. differs s i m)) \<or>
    (\<exists>m. differs s i m \<and> start_inner s i j r = (if r ! (i + m) < m then r[i + m := m] else r))"
proof (induction s i j r rule: start_inner.induct)
  case (1 s i j r)
  show ?case
  proof (cases "i + j < length s")
    case True
    then show ?thesis
    proof (cases "s ! j = s ! (i + j)")
      case True
      with \<open>i + j < length s\<close> 1(2) have "take (j + 1) s = take (j + 1) (drop i s)"
        using take_Suc_eq [of j s "drop i s"] by simp
      with True \<open>i + j < length s\<close> 1(1) show ?thesis
        by (simp add: start_inner.simps [of s i j])
    next
      case False
      with \<open>i + j < length s\<close> 1(2) show ?thesis
        by (intro disjI2 exI [of _ j]) (simp add: start_inner.simps [of s i j] differs_def)
    qed
  next
    case False
    moreover have "\<not> differs s i m" for m
      using differs_take [OF _ 1(2)] False by (fastforce simp: differs_def)
    ultimately show ?thesis by (simp add: start_inner.simps [of s i j])
  qed
qed

lemma retry_table_start_inner:
  assumes "retry_table s i r"
  shows "retry_table s (Suc i) (start_inner s i 0 r)"
proof -
  consider "\<forall>m. \<not> differs s i m" "start_inner s i 0 r = r"
    | m where "differs s i m" "start_inner s i 0 r = (if r ! (i + m) < m then r[i + m := m] else r)"
    using start_inner_differs [of 0 s i r] by auto
  then show ?thesis
  proof cases
  case none: 1
  have "j \<le> r ! k" if "k < length s" "retry s k j" "k - j < Suc i" for k j
    using that none(1) retry_tableD(2) [OF assms that(1,2)]
    by (metis less_SucE retry_differs)
  with assms none(2) show ?thesis by (simp add: retry_table_def)
next
  case m': (2 m)
  note m = m'(1)
  let ?r = "if r ! (i + m) < m then r[i + m := m] else r"
  have len: "length r = length s" "i + m < length s"
    using assms m by (simp_all add: retry_table_def differs_def)
  have val: "?r ! k = (if k = i + m \<and> r ! k < m then m else r ! k)" if "k < length s" for k
    using that len by auto
  have "retry s (i + m) m"
    using m differs_0 [of s m] len(2) by (simp add: retry_differs) (metis gr0I)
  then have 1: "?r ! k = 0 \<or> retry s k (?r ! k)" if "k < length s" for k
    using that retry_tableD(1) [OF assms that] unfolding val [OF that] by simp
  have 2: "j \<le> ?r ! k" if "k < length s" "retry s k j" "k - j < Suc i" for k j
  proof (cases "k - j = i")
    case True
    with that differs_unique [OF m, of j] have "j = m" "k = i + m"
      by (auto simp: retry_differs)
    then show ?thesis using len(1) that(1) by simp
  next
    case False
    then have "j \<le> r ! k" using retry_tableD(2) [OF assms that(1,2)] that(3) by simp
    then show ?thesis unfolding val [OF that(1)] by simp
  qed
  have "retry_table s (Suc i) ?r"
    using 1 2 len(1) by (simp add: retry_table_def)
  with m'(2) show ?thesis by simp
  qed
qed

lemma retry_table_fold:
  "retry_table s n (fold (\<lambda>i r. start_inner s i 0 r) [0..<n] (replicate (length s) 0))"
proof (induction n)
  case 0
  show ?case by (simp add: retry_table_def)
next
  case (Suc n)
  then show ?case by (simp add: retry_table_start_inner)
qed

subsection \<open>A step of the search\<close>

text \<open>
  The prefixes of the string that end the text: \<open>i\<close> is always the longest. In a step the
  retry indexes go through those that could be extended by the next character.
\<close>

definition ends :: "string \<Rightarrow> string \<Rightarrow> nat \<Rightarrow> bool" where
  "ends s t j \<longleftrightarrow> j \<le> length s \<and> suffix (take j s) t"

definition longest :: "string \<Rightarrow> string \<Rightarrow> nat \<Rightarrow> bool" where
  "longest s t i \<longleftrightarrow> ends s t i \<and> (\<forall>j. ends s t j \<longrightarrow> j \<le> i)"

lemma ends_0 [simp]: "ends s t 0"
  by (simp add: ends_def)

lemma ends_Suc: "ends s (t @ [c]) (Suc j) \<longleftrightarrow> j < length s \<and> s ! j = c \<and> ends s t j"
  by (auto simp: ends_def take_Suc_conv_app_nth)

lemma suffix_iff_drop: "suffix x y \<longleftrightarrow> length x \<le> length y \<and> drop (length y - length x) y = x"
  by (metis append_take_drop_id suffixI suffix_length_le suffix_take append_eq_conv_conj)

lemma ends_shorter:
  assumes k: "ends s t k" and "j \<le> k"
  shows "ends s t j \<longleftrightarrow> take j s = take j (drop (k - j) s)"
proof -
  have kl: "k \<le> length s" and suf: "suffix (take k s) t"
    using k by (simp_all add: ends_def)
  have "suffix (take j s) t \<longleftrightarrow> suffix (take j s) (take k s)"
  proof
    assume "suffix (take j s) t"
    moreover have "length (take j s) \<le> length (take k s)" using assms(2) by simp
    ultimately show "suffix (take j s) (take k s)" using suf by (blast intro: suffix_length_suffix)
  next
    assume "suffix (take j s) (take k s)"
    then show "suffix (take j s) t" using suf by (rule suffix_order.trans)
  qed
  also have "\<dots> \<longleftrightarrow> drop (k - j) (take k s) = take j s"
    using assms(2) kl by (simp add: suffix_iff_drop min_def)
  also have "drop (k - j) (take k s) = take j (drop (k - j) s)"
    using assms(2) by (simp add: drop_take)
  finally show ?thesis
    using assms(2) kl unfolding ends_def by (metis le_trans)
qed

lemma longest_Suc:
  assumes "k < length s" "s ! k = c" "ends s t k" "\<And>j. ends s t j \<Longrightarrow> j < length s \<Longrightarrow> s ! j = c \<Longrightarrow> j \<le> k"
  shows "longest s (t @ [c]) (Suc k)"
proof -
  have "j \<le> Suc k" if "ends s (t @ [c]) j" for j
    using that assms(4) by (cases j) (simp_all add: ends_Suc)
  with assms(1-3) show ?thesis by (simp add: longest_def ends_Suc)
qed

lemma step_loop_longest:
  assumes "retry_table s (length s) r"
  shows "k < length s \<Longrightarrow> ends s t k \<Longrightarrow> (\<And>j. ends s t j \<Longrightarrow> j < length s \<Longrightarrow> s ! j = c \<Longrightarrow> j \<le> k) \<Longrightarrow>
    \<exists>i. step_loop s r c k = Some i \<and> longest s (t @ [c]) i"
proof (induction k rule: less_induct)
  case (less k)
  show ?case
  proof (cases "s ! k = c")
    case True
    have "longest s (t @ [c]) (Suc k)"
      using less.prems(1) True less.prems(2,3) by (rule longest_Suc)
    with True show ?thesis by (simp add: step_loop.simps [of s r c k])
  next
    case differ: False
    have before: "j < k" "retry s k j" if "ends s t j" "j < length s" "s ! j = c" for j
    proof -
      show j: "j < k" using less.prems(3) [OF that] that(3) differ by (cases "j = k") auto
      show "retry s k j"
        using j that(1,3) differ ends_shorter [OF less.prems(2), of j] by (auto simp: retry_def)
    qed
    show ?thesis
    proof (cases "k = 0")
      case True
      have "j = 0" if "ends s (t @ [c]) j" for j
        using that before(1) True by (cases j) (auto simp: ends_Suc)
      then have "longest s (t @ [c]) 0" by (auto simp: longest_def)
      with True differ show ?thesis by (simp add: step_loop.simps [of s r c 0])
    next
      case False
      note r = retry_tableD [OF assms less.prems(1)]
      have "r ! k < k" "ends s t (r ! k)"
        using r(1) False ends_shorter [OF less.prems(2), of "r ! k"] by (auto simp: retry_def)
      moreover have "j \<le> r ! k" if "ends s t j" "j < length s" "s ! j = c" for j
        using r(2) [OF before(2) [OF that]] less.prems(1) by simp
      ultimately have "\<exists>i. step_loop s r c (r ! k) = Some i \<and> longest s (t @ [c]) i"
        using less.IH [of "r ! k"] less.prems(1) by simp
      with differ False show ?thesis by (simp add: step_loop.simps [of s r c k])
    qed
  qed
qed

subsection \<open>The search\<close>

definition searching :: "string \<Rightarrow> string \<Rightarrow> maildir_searchengine \<Rightarrow> bool" where
  "searching s t e \<longleftrightarrow>
     sptr e = Some s \<and> retry_table s (length s) (sr e) \<and>
     (if sublist s t then si e = length s else longest s t (si e))"

lemma sublist_snoc: "sublist s (t @ [c]) \<longleftrightarrow> sublist s t \<or> suffix s (t @ [c])"
proof
  assume "sublist s (t @ [c])"
  then obtain ps ss where eq: "t @ [c] = ps @ s @ ss" by (auto simp: sublist_def)
  show "sublist s t \<or> suffix s (t @ [c])"
  proof (cases ss rule: rev_cases)
    case Nil
    with eq show ?thesis by (auto simp: suffix_def)
  next
    case (snoc ss' d)
    with eq have "t = ps @ s @ ss'" by simp
    then show ?thesis by (auto simp: sublist_def)
  qed
next
  assume "sublist s t \<or> suffix s (t @ [c])"
  then show "sublist s (t @ [c])"
  proof
    assume "sublist s t"
    then obtain ps ss where "t = ps @ s @ ss" by (auto simp: sublist_def)
    then have "t @ [c] = ps @ s @ (ss @ [c])" by simp
    then show ?thesis unfolding sublist_def by blast
  qed (rule suffix_imp_sublist)
qed

lemma longest_length: "longest s t (length s) \<longleftrightarrow> suffix s t"
  by (auto simp: longest_def ends_def)

lemma longest_unique: "longest s t i \<Longrightarrow> longest s t j \<Longrightarrow> i = j"
  by (auto simp: longest_def intro: le_antisym)

lemma searching_found: "searching s t e \<Longrightarrow> maildir_search_found e \<longleftrightarrow> sublist s t"
  using longest_length [of s t] suffix_imp_sublist [of s t]
  by (auto simp: searching_def maildir_search_found_def split: if_splits)

lemma searching_start: "searching s [] (maildir_search_start e s)"
proof -
  have "longest s [] 0" "sublist s [] \<longleftrightarrow> s = []"
    by (auto simp: longest_def ends_def)
  with retry_table_fold [of s "length s"] show ?thesis
    by (simp add: searching_def maildir_search_start_def maildir_search_reset_def)
qed

lemma searching_step:
  assumes "searching s t e"
  shows "\<exists>e'. maildir_search_step e c = Some e' \<and> searching s (t @ [c]) e'"
proof (cases "sublist s t")
  case True
  with assms show ?thesis
    by (auto simp: searching_def maildir_search_step_def sublist_snoc)
next
  case False
  then have long: "longest s t (si e)" and tab: "retry_table s (length s) (sr e)" and ptr: "sptr e = Some s"
    using assms by (simp_all add: searching_def)
  have less: "si e < length s"
    using long False longest_length [of s t] suffix_imp_sublist [of s t]
    by (metis ends_def le_neq_implies_less longest_def)
  obtain i where i: "step_loop s (sr e) c (si e) = Some i" "longest s (t @ [c]) i"
    using step_loop_longest [OF tab less, of t c] long by (auto simp: longest_def)
  have "searching s (t @ [c]) (e\<lparr>si := i\<rparr>)"
    using False tab ptr i(2) longest_unique [OF i(2), of "length s"]
    by (auto simp: searching_def sublist_snoc longest_length)
  with i(1) less ptr show ?thesis
    by (simp add: maildir_search_step_def)
qed

lemma searching_text: "searching s t e \<Longrightarrow> \<exists>e'. search_text e u = Some e' \<and> searching s (t @ u) e'"
proof (induction u arbitrary: e t)
  case (Cons c u)
  from searching_step [OF Cons.prems, of c] obtain e' where
    "maildir_search_step e c = Some e'" "searching s (t @ [c]) e'" by blast
  with Cons.IH [of "t @ [c]" e'] show ?case by simp
qed simp

text \<open>
  C36. The search engine finds exactly the texts that contain the string: started on any string, from any
  state, and fed any text character by character, every step ends, and \<open>maildir_search_found\<close>
  tells whether the string occurs somewhere in the text.
\<close>

theorem maildir_search_sublist:
  "\<exists>e'. search_text (maildir_search_start e s) t = Some e' \<and> (maildir_search_found e' \<longleftrightarrow> sublist s t)"
  using searching_text [OF searching_start [of s e], of t] searching_found [of s t] by auto

end
