(* ===== verification/Maildir_Names.thy ===== *)
theory Maildir_Names
  imports C_Prelude
begin

text \<open>
  Names in a maildir: the size and the flags in the name of a message
  (\<^verbatim>\<open>maildirparsequota.c\<close>, \<^verbatim>\<open>maildirrequota.c\<close>, \<^verbatim>\<open>maildirflags.c\<close>, \<^verbatim>\<open>maildirfilename.c\<close>,
  \<^verbatim>\<open>maildirgetnew.c\<close> and the two name tests of \<^verbatim>\<open>maildirquota.c\<close>), and the directories of
  folders (\<^verbatim>\<open>maildirpath.c\<close>, \<^verbatim>\<open>maildirlist.c\<close>, \<^verbatim>\<open>maildirshared2.c\<close>). \<^verbatim>\<open>MDIRSEP\<close> has its
  default, a colon. What the file system answers (\<^verbatim>\<open>stat\<close>, \<^verbatim>\<open>readdir\<close>, \<^verbatim>\<open>access\<close>) is an argument of
  the definitions; memory allocation succeeds.
\<close>

subsection \<open>The size in a file name\<close>

abbreviation slash :: char where "slash \<equiv> CHR ''/''"
abbreviation mdirsep :: char where "mdirsep \<equiv> CHR '':''"
abbreviation dot :: char where "dot \<equiv> CHR ''.''"

text \<open>The index \<^verbatim>\<open>strrchr\<close> returns.\<close>

definition strrchr :: "char \<Rightarrow> string \<Rightarrow> nat option" where
  "strrchr c s = (if c \<in> set s then Some (length s - 1 - length (takeWhile (\<lambda>d. d \<noteq> c) (rev s))) else None)"

text \<open>The start of the file name in a path: its last slash, if it has one.\<close>

definition name_start :: "string \<Rightarrow> nat" where
  "name_start n = (case strrchr slash n of None \<Rightarrow> 0 | Some i \<Rightarrow> i)"

text \<open>The backward loop of \<open>maildir_parsequota\<close>, from index \<open>k\<close>.\<close>

fun scan_back :: "string \<Rightarrow> nat \<Rightarrow> string option" where
  "scan_back n 0 =
     (if cread n = slash then None else if take 3 n = '',S='' then Some (drop 3 n) else None)"
| "scan_back n (Suc k) =
     (if cread (drop (Suc k) n) = slash then None
      else if take 3 (drop (Suc k) n) = '',S='' then Some (drop 3 (drop (Suc k) n))
      else scan_back n k)"

definition maildir_parsequota :: "string \<Rightarrow> 64 word option" where
  "maildir_parsequota n =
     (let o1 = name_start n;
          o2 = o1 + length (takeWhile (\<lambda>c. c \<noteq> mdirsep) (drop o1 n))
      in map_option (\<lambda>p. foldl (\<lambda>s c. s * 10 + word_of_nat (digit_val c)) 0 (takeWhile isdigit p))
           (scan_back n o2))"

text \<open>The loop of \<open>maildir_requota\<close>: \<open>p\<close> is the part of the old name before \<open>q\<close>.\<close>

fun requota_loop :: "string \<Rightarrow> string \<Rightarrow> string \<Rightarrow> string" where
  "requota_loop buf p [] = p @ buf"
| "requota_loop buf p (c # q) =
     (if take 3 (c # q) = '',S='' \<or> c = mdirsep
      then p @ buf @ dropWhile isdigit (if c = CHR '','' then drop 3 (c # q) else c # q)
      else requota_loop buf (p @ [c]) q)"

definition maildir_requota :: "string \<Rightarrow> 64 word \<Rightarrow> string" where
  "maildir_requota oldname s =
     (let q = name_start oldname
      in requota_loop ('',S='' @ dec (unat s)) (take q oldname) (drop q oldname))"

subsection \<open>The flags in a file name\<close>

definition maildir_hasflag :: "string \<Rightarrow> char \<Rightarrow> bool" where
  "maildir_hasflag filename flag =
     (let filename = (case strrchr slash filename of None \<Rightarrow> filename | Some i \<Rightarrow> drop (i + 1) filename)
      in case strrchr mdirsep filename of
           None \<Rightarrow> False
         | Some i \<Rightarrow> take 3 (drop i filename) = '':2,'' \<and> flag \<in> set (drop (i + 3) filename @ [nul]))"

text \<open>
  Whether a folder and a file count for the quota; \<open>trashquota\<close> is the configuration option
  \<^verbatim>\<open>TRASHQUOTA\<close>.
\<close>

definition is_trash :: "string \<Rightarrow> bool" where
  "is_trash f \<longleftrightarrow> f = ''.Trash'' \<or> f = ''.Trash/''"

fun countfolder_loop :: "string \<Rightarrow> bool" where
  "countfolder_loop [] = True"
| "countfolder_loop (c # f) = (if c = slash \<and> is_trash f then False else countfolder_loop f)"

definition maildirquota_countfolder :: "bool \<Rightarrow> string \<Rightarrow> bool" where
  "maildirquota_countfolder trashquota f = (trashquota \<or> (\<not> is_trash f \<and> countfolder_loop f))"

fun countfile_loop :: "string \<Rightarrow> bool" where
  "countfile_loop [] = True"
| "countfile_loop (c # n) =
     (if take 3 (c # n) \<noteq> '':2,'' then countfile_loop n
      else CHR ''T'' \<notin> set (takeWhile isupper (drop 3 (c # n))))"

definition maildirquota_countfile :: "bool \<Rightarrow> string \<Rightarrow> bool" where
  "maildirquota_countfile trashquota n =
     (trashquota \<or> countfile_loop (case strrchr slash n of None \<Rightarrow> n | Some i \<Rightarrow> drop (i + 1) n))"

text \<open>The comparison of names in \<open>maildir_filename\<close>, which ignores sizes and flags.\<close>

definition skip_size :: "string \<Rightarrow> string" where
  "skip_size a = (if take 3 a = '',S='' then dropWhile isdigit (drop 3 a) else a)"

definition name_ends :: "string \<Rightarrow> bool" where
  "name_ends a \<longleftrightarrow> a = [] \<or> hd a = mdirsep"

lemma length_skip_size: "length (skip_size a) \<le> length a"
proof -
  have "length (dropWhile isdigit (drop 3 a)) \<le> length a"
    using length_dropWhile_le [of isdigit "drop 3 a"] by (simp del: length_dropWhile_le)
  then show ?thesis by (simp add: skip_size_def)
qed

function same_message :: "string \<Rightarrow> string \<Rightarrow> bool" where
  "same_message a b =
     (let a' = skip_size a; b' = skip_size b
      in if name_ends a' \<and> name_ends b' then True
         else if name_ends a' \<or> name_ends b' \<or> hd a' \<noteq> hd b' then False
         else same_message (tl a') (tl b'))"
  by pat_completeness auto
termination
proof (relation "measure (\<lambda>(a, b). length a)")
  fix a b x y
  assume "x = skip_size a" "\<not> (name_ends x \<or> name_ends y \<or> hd x \<noteq> hd y)"
  then have "length (tl x) < length x" "length x \<le> length a"
    using length_skip_size [of a] by (auto simp: name_ends_def)
  then show "((tl x, tl y), a, b) \<in> measure (\<lambda>(a, b). length a)" by simp
qed simp

declare same_message.simps [simp del]

subsection \<open>Folders\<close>

definition INBOX :: string where
  "INBOX = ''INBOX''"

text \<open>No dot is the last character or followed by another.\<close>

fun dots_ok :: "string \<Rightarrow> bool" where
  "dots_ok [] \<longleftrightarrow> True"
| "dots_ok (c # r) \<longleftrightarrow> (c = dot \<longrightarrow> r \<noteq> [] \<and> hd r \<noteq> dot) \<and> dots_ok r"

text \<open>\<open>None\<close> as an argument is a null pointer, as a result \<^verbatim>\<open>EINVAL\<close>.\<close>

definition maildir_name2dir :: "string option \<Rightarrow> string option \<Rightarrow> string option" where
  "maildir_name2dir maildir foldername =
     (let maildir = (case maildir of None \<Rightarrow> ''.'' | Some m \<Rightarrow> m)
      in case foldername of
           None \<Rightarrow> None
         | Some f \<Rightarrow>
             if caseprefix INBOX f \<and> slash \<notin> set f then
               (if drop 5 f = [] then Some maildir
                else if hd (drop 5 f) = dot then
                  (if dots_ok f then Some (maildir @ ''/'' @ dropWhile (\<lambda>c. c \<noteq> dot) f) else None)
                else None)
             else None)"

definition maildir_folderdir :: "string option \<Rightarrow> string option \<Rightarrow> string option" where
  "maildir_folderdir maildir foldername =
     (let maildir = (case maildir of None \<Rightarrow> ''.'' | Some m \<Rightarrow> m)
      in case foldername of
           None \<Rightarrow> Some maildir
         | Some f \<Rightarrow>
             if strcaseeq f INBOX then Some maildir
             else if cread f = dot \<or> slash \<in> set f then None
             else if \<not> dots_ok f then None
             else Some ((if maildir \<noteq> ''.'' then maildir @ ''/'' else []) @ ''.'' @ f))"

text \<open>\<open>exists\<close> is \<^verbatim>\<open>stat(...) == 0\<close>, \<open>ls\<close> the entries of a directory that can be opened.\<close>

definition maildir_filename ::
    "(string \<Rightarrow> bool) \<Rightarrow> (string \<Rightarrow> string list option) \<Rightarrow> string option \<Rightarrow> string option \<Rightarrow> string \<Rightarrow>
      string option" where
  "maildir_filename exists ls maildir folder filename =
     (if slash \<in> set filename \<or> cread filename = dot then None
      else
        case maildir_folderdir maildir folder of
          None \<Rightarrow> None
        | Some dir \<Rightarrow>
            let p = dir @ ''/cur/'' @ filename
            in if exists p then Some p
               else case ls (dir @ ''/cur'') of
                      None \<Rightarrow> Some p
                    | Some es \<Rightarrow>
                        (case find (same_message filename) es of
                           Some e \<Rightarrow> Some (dir @ ''/cur/'' @ e)
                         | None \<Rightarrow> Some p))"

text \<open>Moving the messages of \<^verbatim>\<open>new\<close> to \<^verbatim>\<open>cur\<close>: the renames, and the names reported to the callback.\<close>

definition getnew_name :: "string \<Rightarrow> string" where
  "getnew_name n =
     (let u = takeWhile (\<lambda>c. c \<noteq> mdirsep) n; a = dropWhile (\<lambda>c. c \<noteq> mdirsep) n
      in if a = [] then n @ '':2,'' else if take 3 a \<noteq> '':2,'' then u @ '':2,'' else n)"

definition maildir_getnew ::
    "(string \<Rightarrow> string list option) \<Rightarrow> string option \<Rightarrow> string option \<Rightarrow> (string \<times> string) list \<times> string list" where
  "maildir_getnew ls maildir folder =
     (case maildir_folderdir maildir folder of
        None \<Rightarrow> ([], [])
      | Some dir \<Rightarrow>
          let es = filter (\<lambda>n. cread n \<noteq> dot) (case ls (dir @ ''/new'') of None \<Rightarrow> [] | Some es \<Rightarrow> es)
          in (map (\<lambda>n. (dir @ ''/new/'' @ n, dir @ ''/cur/'' @ getnew_name n)) es, map getnew_name es))"

text \<open>The folders of a maildir; \<open>ok\<close> is \<^verbatim>\<open>access(p, X_OK) == 0\<close>.\<close>

definition maildir_list :: "(string \<Rightarrow> bool) \<Rightarrow> (string \<Rightarrow> string list option) \<Rightarrow> string \<Rightarrow> string list" where
  "maildir_list ok ls maildir =
     map (\<lambda>d. INBOX @ (if d \<noteq> ''.'' then d else []))
       (filter (\<lambda>d. d \<noteq> ''..'' \<and> cread d = dot \<and> ok (maildir @ ''/'' @ d @ ''/cur/.''))
         (case ls maildir of None \<Rightarrow> [] | Some es \<Rightarrow> es))"

text \<open>A line of \<^verbatim>\<open>shared-maildirs\<close>: the name and the directory.\<close>

definition maildir_shared_fparse :: "string \<Rightarrow> (string \<times> string) option" where
  "maildir_shared_fparse p =
     (let p = takeWhile (\<lambda>c. c \<noteq> nl) p;
          p = takeWhile (\<lambda>c. c \<noteq> CHR ''#'') p;
          name = takeWhile (\<lambda>c. \<not> isspace c) p;
          dir = skipspace (drop (length name) p)
      in if dir = [] then None else Some (name, dir))"

subsection \<open>The names of messages\<close>

text \<open>
  The names the program gives to messages: a unique part, a size and an info part, which is empty or starts
  with \<^verbatim>\<open>MDIRSEP\<close>.
\<close>

fun no_size :: "string \<Rightarrow> bool" where
  "no_size [] \<longleftrightarrow> True"
| "no_size (c # s) \<longleftrightarrow> take 3 (c # s) \<noteq> '',S='' \<and> no_size s"

definition size_text :: "nat option \<Rightarrow> string" where
  "size_text sz = (case sz of None \<Rightarrow> [] | Some n \<Rightarrow> '',S='' @ dec n)"

definition unique_part :: "string \<Rightarrow> bool" where
  "unique_part u \<longleftrightarrow> slash \<notin> set u \<and> mdirsep \<notin> set u \<and> no_size u"

definition info_part :: "string \<Rightarrow> bool" where
  "info_part f \<longleftrightarrow> slash \<notin> set f \<and> (f = [] \<or> hd f = mdirsep)"

definition directory :: "string \<Rightarrow> bool" where
  "directory d \<longleftrightarrow> d = [] \<or> last d = slash"

lemma strrchr_append: "c \<notin> set b \<Longrightarrow> strrchr c (a @ c # b) = Some (length a)"
proof -
  assume "c \<notin> set b"
  then have "takeWhile (\<lambda>d. d \<noteq> c) (rev b @ c # rev a) = rev b"
    by (subst takeWhile_append2) auto
  then show ?thesis by (simp add: strrchr_def)
qed

lemma strrchr_none: "c \<notin> set a \<Longrightarrow> strrchr c a = None"
  by (simp add: strrchr_def)

lemma slash_dec: "slash \<notin> set (dec n)" "mdirsep \<notin> set (dec n)" "CHR '','' \<notin> set (dec n)"
  using isdigit_dec [of _ n] by (auto simp: isdigit_def dest!: isdigit_dec)

lemma size_text_chars: "slash \<notin> set (size_text sz)" "mdirsep \<notin> set (size_text sz)"
  by (auto simp: size_text_def slash_dec split: option.splits)

lemma directory_cases:
  assumes "directory d"
  obtains "d = []" | d' where "d = d' @ [slash]"
  using assms by (cases d rule: rev_cases) (auto simp: directory_def)

text \<open>Only the file name after the directory matters.\<close>

lemma name_start_directory:
  assumes "directory d" "slash \<notin> set b"
  shows "name_start (d @ b) = length d - 1" "drop (name_start (d @ b)) (d @ b) = (if d = [] then b else slash # b)"
    "take (name_start (d @ b)) (d @ b) = butlast d"
  using assms strrchr_append [of slash b] by (auto simp: name_start_def strrchr_none elim!: directory_cases)

lemma scan_back_slash: "cread (drop k n) = slash \<Longrightarrow> scan_back n k = None"
  by (cases k) simp_all

lemma scan_back_directory:
  assumes "directory d" "slash \<notin> set b"
  shows "scan_back (d @ b) (length d + k) = scan_back b k"
proof (induction k)
  case 0
  have "cread b \<noteq> slash" using assms(2) by (cases b) auto
  with assms(1) show ?case
    by (cases rule: directory_cases) (simp_all add: scan_back_slash)
next
  case (Suc k)
  then show ?case by simp
qed

lemma scan_back_hit:
  "take 3 (drop k n) = '',S='' \<Longrightarrow> scan_back n k = Some (drop 3 (drop k n))"
proof -
  assume hit: "take 3 (drop k n) = '',S=''"
  then have "cread (drop k n) = CHR '',''" by (cases "drop k n") auto
  with hit show ?thesis by (cases k) auto
qed

lemma scan_back_skip:
  "(\<And>m. i < m \<Longrightarrow> m \<le> i + j \<Longrightarrow> cread (drop m b) \<notin> {slash, CHR '',''}) \<Longrightarrow> scan_back b (i + j) = scan_back b i"
proof (induction j)
  case (Suc j)
  have c: "cread (drop (Suc (i + j)) b) \<notin> {slash, CHR '',''}" using Suc.prems [of "Suc (i + j)"] by simp
  moreover from this have "take 3 (drop (Suc (i + j)) b) \<noteq> '',S=''" by (cases "drop (Suc (i + j)) b") auto
  ultimately show ?case using Suc.IH Suc.prems by simp
qed simp

lemma no_size_append:
  "no_size u \<Longrightarrow> r = [] \<or> hd r = CHR '','' \<or> hd r = mdirsep \<Longrightarrow> m < length u \<Longrightarrow>
    take 3 (drop m (u @ r)) \<noteq> '',S=''"
proof (induction u arbitrary: m)
  case (Cons c u)
  show ?case
  proof (cases m)
    case 0
    have "take 3 (c # u @ r) \<noteq> '',S=''"
    proof (cases u)
      case Nil
      with Cons.prems(2) show ?thesis by (cases r) auto
    next
      case (Cons d u')
      show ?thesis
      proof (cases u')
        case Nil
        with Cons \<open>r = [] \<or> _\<close> show ?thesis by (cases r) auto
      next
        case (Cons e u'')
        with \<open>u = d # u'\<close> \<open>no_size (c # u)\<close> show ?thesis by simp
      qed
    qed
    with 0 show ?thesis by simp
  next
    case (Suc k)
    with Cons show ?thesis by simp
  qed
qed simp

lemma cread_drop_append: "k \<le> length x \<Longrightarrow> cread (drop k (x @ f)) \<in> set x \<union> {cread f}"
proof (cases "k < length x")
  case True
  then have "drop k (x @ f) = x ! k # drop (Suc k) (x @ f)" by (simp add: Cons_nth_drop_Suc nth_append)
  with True show ?thesis by simp
qed simp

lemma info_part_cread: "info_part f \<Longrightarrow> cread f = nul \<or> cread f = mdirsep"
  by (cases f) (auto simp: info_part_def)

lemma info_part_nodigit: "info_part f \<Longrightarrow> nodigit f"
  by (cases f) (auto simp: info_part_def isdigit_def)

lemma dec_info: "info_part f \<Longrightarrow> takeWhile isdigit (dec n @ f) = dec n \<and> dropWhile isdigit (dec n @ f) = f"
  using takeWhile_digits [OF dec_digits info_part_nodigit] .

lemma scan_back_name:
  assumes u: "unique_part u" and f: "info_part f"
  shows "scan_back (u @ size_text sz @ f) (length (u @ size_text sz)) = map_option (\<lambda>n. dec n @ f) sz"
proof (cases sz)
  case None
  define b where "b = u @ f"
  have "take 3 (drop m b) \<noteq> '',S=''" if "m \<le> length u" for m
  proof (cases "m = length u")
    case True
    with f show ?thesis by (cases f) (auto simp: info_part_def b_def)
  next
    case False
    with that u f show ?thesis unfolding b_def by (intro no_size_append) (auto simp: unique_part_def info_part_def)
  qed
  then have "scan_back b m = None" if "m \<le> length u" for m
    using that by (induction m) (fastforce, simp)
  with None show ?thesis by (simp add: size_text_def b_def)
next
  case (Some n)
  define b where "b = u @ '',S='' @ dec n @ f"
  have "cread (drop m b) \<notin> {slash, CHR '',''}" if "length u < m" "m \<le> length u + (3 + length (dec n))" for m
  proof -
    note m = that
    obtain k where k: "m = length u + Suc k"
      using less_imp_Suc_add [OF m(1)] by auto
    then have "drop m b = drop k ((''S='' @ dec n) @ f)" "k \<le> length (''S='' @ dec n)"
      using m(2) by (simp_all add: b_def)
    then have "cread (drop m b) \<in> set (''S='' @ dec n) \<union> {cread f}"
      using cread_drop_append [of k "''S='' @ dec n" f] by simp
    then show ?thesis using slash_dec [of n] info_part_cread [OF f] by auto
  qed
  then have "scan_back b (length u + (3 + length (dec n))) = scan_back b (length u)"
    by (rule scan_back_skip)
  also have "\<dots> = Some (dec n @ f)"
    by (subst scan_back_hit) (simp_all add: b_def)
  finally have "scan_back b (length u + (3 + length (dec n))) = Some (dec n @ f)" .
  moreover have "u @ size_text sz @ f = b" "length (u @ size_text sz) = length u + (3 + length (dec n))"
    by (simp_all add: Some size_text_def b_def)
  ultimately show ?thesis using Some by (simp only: option.map)
qed

lemma foldl_dec: "foldl (\<lambda>s c. s * 10 + word_of_nat (digit_val c)) (word_of_nat i :: 64 word) ds = word_of_nat (dec_val i ds)"
proof (induction ds arbitrary: i)
  case (Cons c ds)
  have "word_of_nat i * 10 + word_of_nat (digit_val c) = (word_of_nat (i * 10 + digit_val c) :: 64 word)" by simp
  with Cons.IH [of "i * 10 + digit_val c"] show ?case by (simp only: foldl_Cons dec_val_simps)
qed simp

lemma parsequota_name:
  assumes "directory d" "unique_part u" "info_part f"
  shows "maildir_parsequota (d @ u @ size_text sz @ f) = map_option word_of_nat sz"
proof -
  let ?b = "u @ size_text sz @ f"
  have noslash: "slash \<notin> set ?b"
    using assms(2,3) by (simp add: unique_part_def info_part_def size_text_chars)
  have "takeWhile (\<lambda>c. c \<noteq> mdirsep) ((u @ size_text sz) @ f) = u @ size_text sz"
    using assms(2,3) size_text_chars(2) [of sz]
    by (subst takeWhile_append2; cases f) (auto simp: unique_part_def info_part_def)
  then have unsized: "takeWhile (\<lambda>c. c \<noteq> mdirsep) (u @ size_text sz @ f) = u @ size_text sz" by simp
  have pos: "name_start (d @ ?b) + length (takeWhile (\<lambda>c. c \<noteq> mdirsep) (drop (name_start (d @ ?b)) (d @ ?b))) =
      length d + length (u @ size_text sz)"
    using assms(1) unfolding name_start_directory(2) [OF assms(1) noslash] unfolding name_start_directory(1) [OF assms(1) noslash]
    by (cases rule: directory_cases) (simp_all add: unsized)
  have scan: "scan_back (d @ ?b) (length d + length (u @ size_text sz)) = map_option (\<lambda>n. dec n @ f) sz"
    using scan_back_directory [OF assms(1) noslash] scan_back_name [OF assms(2,3)] by (rule trans)
  have "foldl (\<lambda>s c. s * 10 + word_of_nat (digit_val c)) 0 (takeWhile isdigit (dec n @ f)) = (word_of_nat n :: 64 word)" for n
    using foldl_dec [of 0 "dec n"] dec_info [OF assms(3), of n] by simp
  then show ?thesis
    unfolding maildir_parsequota_def Let_def pos scan by (cases sz) simp_all
qed

lemma requota_loop_skip:
  "no_size u \<Longrightarrow> mdirsep \<notin> set u \<Longrightarrow> r = [] \<or> hd r = CHR '','' \<or> hd r = mdirsep \<Longrightarrow>
    requota_loop buf p (u @ r) = requota_loop buf (p @ u) r"
proof (induction u arbitrary: p)
  case (Cons c u)
  have "take 3 ((c # u) @ r) \<noteq> '',S=''" "c \<noteq> mdirsep"
    using no_size_append [OF Cons.prems(1,3), of 0] Cons.prems(2) by auto
  then have "requota_loop buf p ((c # u) @ r) = requota_loop buf (p @ [c]) (u @ r)"
    by (simp only: append_Cons requota_loop.simps) simp
  with Cons show ?case by simp
qed simp

lemma requota_loop_name:
  assumes "unique_part u" "info_part f"
  shows "requota_loop buf p (u @ size_text sz @ f) = p @ u @ buf @ f"
proof -
  have "requota_loop buf p (u @ size_text sz @ f) = requota_loop buf (p @ u) (size_text sz @ f)"
    using assms by (intro requota_loop_skip)
      (auto simp: unique_part_def info_part_def size_text_def split: option.splits)
  also have "\<dots> = p @ u @ buf @ f"
  proof (cases sz)
    case None
    with assms(2) show ?thesis
      by (cases f) (auto simp: size_text_def info_part_def isdigit_def)
  next
    case (Some n)
    with dec_info [OF assms(2)] show ?thesis by (simp add: size_text_def)
  qed
  finally show ?thesis .
qed

lemma requota_name:
  assumes "directory d" "unique_part u" "info_part f"
  shows "maildir_requota (d @ u @ size_text sz @ f) s = d @ u @ size_text (Some (unat s)) @ f"
proof -
  have "slash \<notin> set (u @ size_text sz @ f)"
    using assms(2,3) by (simp add: unique_part_def info_part_def size_text_chars)
  note start = name_start_directory [OF assms(1) this]
  show ?thesis
    using assms(1) unfolding maildir_requota_def Let_def start(2,3)
    by (cases rule: directory_cases)
      (simp_all add: requota_loop_name [OF assms(2,3), of _ _ sz, simplified] size_text_def [of "Some _"])
qed

lemma skip_size_name:
  assumes "no_size (c # u)" "info_part f"
  shows "skip_size (size_text sz @ f) = f" "skip_size ((c # u) @ size_text sz @ f) = (c # u) @ size_text sz @ f"
proof -
  show "skip_size (size_text sz @ f) = f"
    using assms(2) dec_info [OF assms(2)]
    by (cases sz; cases f) (auto simp: skip_size_def size_text_def info_part_def)
  show "skip_size ((c # u) @ size_text sz @ f) = (c # u) @ size_text sz @ f"
    using no_size_append [OF assms(1), of "size_text sz @ f" 0] assms(2)
    by (auto simp: skip_size_def size_text_def info_part_def split: option.splits)
qed

lemma same_message_name:
  assumes "info_part f" "info_part f'"
  shows "unique_part u \<Longrightarrow> unique_part u' \<Longrightarrow>
    same_message (u @ size_text sz @ f) (u' @ size_text sz' @ f') \<longleftrightarrow> u = u'"
proof (induction u arbitrary: u')
  case Nil
  have ends: "name_ends f" "name_ends f'" using assms by (auto simp: name_ends_def info_part_def)
  note skip = skip_size_name(1) [of nul "[]", OF _ assms(1), of sz] skip_size_name(1) [of nul "[]", OF _ assms(2), of sz']
  show ?case
  proof (cases u')
    case Nil
    with ends skip show ?thesis by (simp add: same_message.simps [of "size_text sz @ f"])
  next
    case (Cons c v)
    with Nil.prems have "c \<noteq> mdirsep" "no_size (c # v)" by (auto simp: unique_part_def)
    with Cons ends skip skip_size_name(2) [of c v f' sz'] assms show ?thesis
      by (auto simp: same_message.simps [of "size_text sz @ f"] name_ends_def)
  qed
next
  case (Cons c u)
  have c: "c \<noteq> mdirsep" "no_size (c # u)" "unique_part u" using Cons.prems(1) by (auto simp: unique_part_def)
  note skip = skip_size_name(2) [OF c(2) assms(1), of sz]
  show ?case
  proof (cases u')
    case Nil
    have "name_ends f'" using assms by (auto simp: name_ends_def info_part_def)
    with Nil c skip skip_size_name(1) [OF c(2) assms(2), of sz'] show ?thesis
      by (simp add: same_message.simps [of "c # _"] name_ends_def)
  next
    case (Cons e v)
    with Cons.prems(2) have e: "e \<noteq> mdirsep" "no_size (e # v)" "unique_part v" by (auto simp: unique_part_def)
    with Cons c skip skip_size_name(2) [OF e(2) assms(2), of sz'] Cons.IH [OF c(3) e(3)] show ?thesis
      by (simp add: same_message.simps [of "c # _"] name_ends_def)
  qed
qed

text \<open>The info part with a list of flags.\<close>

definition flags_part :: "string \<Rightarrow> string" where
  "flags_part fl = '':2,'' @ fl"

definition flags_ok :: "string \<Rightarrow> bool" where
  "flags_ok fl \<longleftrightarrow> list_all isupper fl"

lemma flags_ok_chars: "flags_ok fl \<Longrightarrow> slash \<notin> set fl \<and> mdirsep \<notin> set fl \<and> nul \<notin> set fl"
  by (auto simp: flags_ok_def list_all_iff isupper_def)

lemma info_part_flags: "flags_ok fl \<Longrightarrow> info_part (flags_part fl)"
  using flags_ok_chars [of fl] by (simp add: info_part_def flags_part_def)

lemma base_name:
  assumes "directory d" "slash \<notin> set b"
  shows "(case strrchr slash (d @ b) of None \<Rightarrow> d @ b | Some i \<Rightarrow> drop (i + 1) (d @ b)) = b"
  using assms strrchr_append [of slash b] by (auto simp: strrchr_none elim!: directory_cases)

lemma hasflag_name:
  assumes "directory d" "unique_part u" "flags_ok fl" "c \<noteq> nul"
  shows "maildir_hasflag (d @ u @ size_text sz @ flags_part fl) c \<longleftrightarrow> c \<in> set fl"
proof -
  have "slash \<notin> set (u @ size_text sz @ flags_part fl)"
    using assms(2,3) flags_ok_chars [of fl] by (simp add: unique_part_def size_text_chars flags_part_def)
  note base = base_name [OF assms(1) this]
  have "strrchr mdirsep ((u @ size_text sz) @ mdirsep # (''2,'' @ fl)) = Some (length (u @ size_text sz))"
    using flags_ok_chars [OF assms(3)] by (intro strrchr_append) simp
  then have "strrchr mdirsep (u @ size_text sz @ flags_part fl) = Some (length (u @ size_text sz))"
    by (simp add: flags_part_def)
  with assms(4) show ?thesis
    unfolding maildir_hasflag_def Let_def base by (simp add: flags_part_def)
qed

lemma countfile_skip: "mdirsep \<notin> set u \<Longrightarrow> countfile_loop (u @ r) = countfile_loop r"
  by (induction u) auto

lemma countfile_name:
  assumes "directory d" "unique_part u" "flags_ok fl"
  shows "maildirquota_countfile False (d @ u @ size_text sz @ flags_part fl) \<longleftrightarrow> CHR ''T'' \<notin> set fl"
proof -
  have "slash \<notin> set (u @ size_text sz @ flags_part fl)"
    using assms(2,3) flags_ok_chars [of fl] by (simp add: unique_part_def size_text_chars flags_part_def)
  note base = base_name [OF assms(1) this]
  have "countfile_loop ((u @ size_text sz) @ flags_part fl) = countfile_loop (flags_part fl)"
    using assms(2) size_text_chars(2) [of sz] by (intro countfile_skip) (simp add: unique_part_def)
  also have "\<dots> \<longleftrightarrow> CHR ''T'' \<notin> set (takeWhile isupper fl)" by (simp add: flags_part_def)
  also have "takeWhile isupper fl = fl" using assms(3) by (simp add: flags_ok_def list_all_iff)
  finally show ?thesis by (simp add: maildirquota_countfile_def base)
qed

text \<open>
  The names of messages carry their size and flags: in any directory and for any unique part, size and
  flags, \<open>maildir_requota\<close> replaces or inserts the size and touches nothing else, \<open>maildir_parsequota\<close>
  then reads it back, \<open>maildir_hasflag\<close> tells exactly the flags set, a trashed message and no other is left out of
  the quota, and two names are taken for the same message exactly when their unique parts agree.
\<close>

theorem maildir_names:
  assumes "directory d" "unique_part u" "unique_part u'" "flags_ok fl" "flags_ok fl'"
  shows "maildir_requota (d @ u @ size_text sz @ flags_part fl) s = d @ u @ size_text (Some (unat s)) @ flags_part fl \<and>
    maildir_parsequota (maildir_requota (d @ u @ size_text sz @ flags_part fl) s) = Some s \<and>
    maildir_parsequota (d @ u @ flags_part fl) = None \<and>
    (\<forall>c. c \<noteq> nul \<longrightarrow> maildir_hasflag (d @ u @ size_text sz @ flags_part fl) c = (c \<in> set fl)) \<and>
    maildirquota_countfile False (d @ u @ size_text sz @ flags_part fl) = (CHR ''T'' \<notin> set fl) \<and>
    same_message (u @ size_text sz @ flags_part fl) (u' @ size_text sz' @ flags_part fl') = (u = u')"
proof -
  note info = info_part_flags [OF assms(4)] info_part_flags [OF assms(5)]
  have "maildir_parsequota (d @ u @ size_text (Some (unat s)) @ flags_part fl) = Some s"
    "maildir_parsequota (d @ u @ flags_part fl) = None"
    using parsequota_name [OF assms(1,2) info(1), of "Some (unat s)"] parsequota_name [OF assms(1,2) info(1), of None]
    by (simp_all add: size_text_def)
  then show ?thesis
    unfolding requota_name [OF assms(1,2) info(1)]
    by (intro conjI allI impI refl hasflag_name [OF assms(1,2,4)] countfile_name [OF assms(1,2,4)]
        same_message_name [OF info assms(2,3)])
qed

theorem maildir_names_witness:
  "maildir_requota (''cur/'' @ ''1053.M1.host'' @ size_text (Some 17) @ flags_part ''ST'') 4711 =
     ''cur/'' @ ''1053.M1.host'' @ size_text (Some (unat (4711 :: 64 word))) @ flags_part ''ST'' \<and>
   maildir_hasflag (''cur/'' @ ''1053.M1.host'' @ size_text (Some 17) @ flags_part ''ST'') CHR ''S''"
  using maildir_names [of "''cur/''" "''1053.M1.host''" "''1053.M1.host''" "''ST''" "''S''" "Some 17" 4711]
  by (simp add: directory_def unique_part_def flags_ok_def isupper_def)

subsection \<open>Folders stay in their maildir\<close>

definition in_maildir :: "string \<Rightarrow> string \<Rightarrow> bool" where
  "in_maildir m p \<longleftrightarrow>
     p = m \<or> (\<exists>f. p \<in> {m @ ''/'' @ f, if m = ''.'' then f else m @ ''/'' @ f} \<and> cread f = dot \<and> slash \<notin> set f \<and> f \<noteq> ''..'')"

lemma dots_ok_drop: "dots_ok (u @ r) \<Longrightarrow> dots_ok r"
  by (induction u) auto

lemma folderdir_in_maildir: "maildir_folderdir (Some m) f = Some p \<Longrightarrow> in_maildir m p"
  by (auto simp: maildir_folderdir_def in_maildir_def split: option.splits if_splits)

lemma name2dir_in_maildir:
  assumes "maildir_name2dir (Some m) (Some f) = Some p"
  shows "in_maildir m p"
proof -
  define r where "r = dropWhile (\<lambda>c. c \<noteq> dot) f"
  consider "p = m" | "p = m @ ''/'' @ r" "slash \<notin> set f" "dots_ok f" "hd (drop 5 f) = dot" "drop 5 f \<noteq> []"
    using assms by (auto simp: maildir_name2dir_def r_def split: if_splits)
  then show ?thesis
  proof cases
    case 2
    have "hd (drop 5 f) \<in> set f" by (rule in_set_dropD [OF hd_in_set [OF 2(5)]])
    with 2(4) have ne: "r \<noteq> []" by (auto simp: r_def)
    moreover have "hd r = dot" using hd_dropWhile [OF ne [unfolded r_def]] by (simp add: r_def)
    ultimately obtain r' where r': "r = dot # r'" by (cases r) auto
    have "dots_ok r" using dots_ok_drop [of "takeWhile (\<lambda>c. c \<noteq> dot) f" r] 2(3) by (simp add: r_def)
    with r' have "r \<noteq> ''..''" by auto
    moreover have "slash \<notin> set r" using 2(2) set_dropWhileD [of slash] by (auto simp: r_def)
    ultimately show ?thesis using 2(1) r' by (auto simp: in_maildir_def)
  qed (simp add: in_maildir_def)
qed

lemma name2dir_folderdir:
  assumes "m \<noteq> ''.''" "f \<noteq> []" "\<not> strcaseeq f INBOX"
  shows "maildir_name2dir (Some m) (Some (''INBOX.'' @ f)) = maildir_folderdir (Some m) (Some f)"
proof -
  have "caseprefix INBOX (''INBOX.'' @ f)" by (simp add: INBOX_def)
  moreover have "dots_ok (''INBOX.'' @ f) \<longleftrightarrow> cread f \<noteq> dot \<and> dots_ok f"
    using assms(2) by (cases f) auto
  moreover have "cread f = hd f" using assms(2) by (cases f) auto
  ultimately show ?thesis
    using assms by (simp add: maildir_name2dir_def maildir_folderdir_def)
qed

text \<open>
  C18. Whatever folder and message names a client sends, the paths made of them stay in its
  maildir: the directory of a folder is the maildir or one entry of it that starts with a dot and
  is not the parent, a message is a file in \<^verbatim>\<open>cur\<close> of such a directory, either named as
  asked for or an entry found there for the same message; and both functions for folder names agree.
\<close>

theorem maildir_paths_contained:
  "(\<forall>f p. maildir_folderdir (Some m) f = Some p \<longrightarrow> in_maildir m p) \<and>
   (\<forall>f p. maildir_name2dir (Some m) (Some f) = Some p \<longrightarrow> in_maildir m p) \<and>
   (\<forall>f n p. maildir_filename exists ls (Some m) f n = Some p \<longrightarrow>
      (\<exists>dir e. in_maildir m dir \<and> p = dir @ ''/cur/'' @ e \<and> slash \<notin> set n \<and> cread n \<noteq> dot \<and>
        (e = n \<or> (\<exists>es. ls (dir @ ''/cur'') = Some es \<and> e \<in> set es \<and> same_message n e)))) \<and>
   (\<forall>f. m \<noteq> ''.'' \<longrightarrow> f \<noteq> [] \<longrightarrow> \<not> strcaseeq f INBOX \<longrightarrow>
      maildir_name2dir (Some m) (Some (''INBOX.'' @ f)) = maildir_folderdir (Some m) (Some f))"
proof (intro conjI allI impI)
  fix f n p
  assume p: "maildir_filename exists ls (Some m) f n = Some p"
  then obtain dir where dir: "maildir_folderdir (Some m) f = Some dir" and n: "slash \<notin> set n" "cread n \<noteq> dot"
    by (auto simp: maildir_filename_def split: if_splits option.splits)
  have "\<exists>e. p = dir @ ''/cur/'' @ e \<and> (e = n \<or> (\<exists>es. ls (dir @ ''/cur'') = Some es \<and> e \<in> set es \<and> same_message n e))"
    using p dir n unfolding maildir_filename_def Let_def
    by (auto split: if_splits option.splits simp: find_Some_iff in_set_conv_nth; fastforce)
  with folderdir_in_maildir [OF dir] n show "\<exists>dir e. in_maildir m dir \<and> p = dir @ ''/cur/'' @ e \<and> slash \<notin> set n \<and>
      cread n \<noteq> dot \<and> (e = n \<or> (\<exists>es. ls (dir @ ''/cur'') = Some es \<and> e \<in> set es \<and> same_message n e))"
    by blast
qed (fact folderdir_in_maildir name2dir_in_maildir name2dir_folderdir)+

theorem maildir_paths_contained_witness:
  "in_maildir ''Maildir'' ''Maildir/.work.old'' \<and>
   maildir_name2dir (Some ''Maildir'') (Some (''INBOX.'' @ ''work'')) = maildir_folderdir (Some ''Maildir'') (Some ''work'')"
proof -
  note c = maildir_paths_contained [of "''Maildir''" "\<lambda>_. True" "\<lambda>_. None"]
  have "maildir_folderdir (Some ''Maildir'') (Some ''work.old'') = Some ''Maildir/.work.old''" by code_simp
  then have "in_maildir ''Maildir'' ''Maildir/.work.old''" using c by blast
  moreover have "\<not> strcaseeq ''work'' INBOX" by code_simp
  ultimately show ?thesis using c by blast
qed

end
