(* ===== verification/Maildir_Quota.thy ===== *)
theory Maildir_Quota
  imports Maildir_Names Numlib
begin

text \<open>
  Maildir quotas (\<^verbatim>\<open>maildir/maildirquota.c\<close>, \<^verbatim>\<open>maildirgetquota.c\<close>). The quota and the size of a
  maildir are in its file \<^verbatim>\<open>maildirsize\<close>: the quota on the first line, then one line for every change, so that
  deliveries only append to it. It is recounted from the directories when it seems to be over quota
  or has grown too long.

  The file system is an argument of the operations: the contents and the time stamp of
  \<^verbatim>\<open>maildirsize\<close>, and for each check what the two passes over the directories see. \<^verbatim>\<open>off_t\<close> and
  \<^verbatim>\<open>long\<close> are integers (64 bits; an overflow is undefined in C); memory allocation,
  \<^verbatim>\<open>read\<close>, \<^verbatim>\<open>fstat\<close> and \<^verbatim>\<open>closedir\<close> succeed.
\<close>

subsection \<open>The file\<close>

record maildirquota =
  nbytes :: int
  nmessages :: int

text \<open>What \<open>fd\<close> refers to: nothing (-1), \<^verbatim>\<open>/dev/null\<close>, or the \<^verbatim>\<open>maildirsize\<close> file.\<close>

datatype size_fd = Closed | Dev_null | Size_file

record maildirsize =
  fd :: size_fd
  quota :: maildirquota
  sizes :: maildirquota
  recalculation_needed :: bool
  st_mtime :: int
  nlines :: nat

text \<open>The contents of \<^verbatim>\<open>maildirsize\<close> and its modification time; \<open>None\<close>: it cannot be opened.\<close>

type_synonym size_file = "(string \<times> int) option"

definition no_quota :: maildirquota where
  "no_quota = \<lparr>nbytes = 0, nmessages = 0\<rparr>"

function parsequota_loop :: "string \<Rightarrow> maildirquota \<Rightarrow> maildirquota" where
  "parsequota_loop s q =
     (if s = [] then q
      else if \<not> isdigit (hd s) then parsequota_loop (tl s) q
      else
        let i = dec_val 0 (takeWhile isdigit s);
            s = dropWhile isdigit s
        in parsequota_loop s
             (if cread s = CHR ''S'' then q\<lparr>nbytes := int i\<rparr>
              else if cread s = CHR ''C'' then q\<lparr>nmessages := sint (word_of_nat i :: 32 word)\<rparr>
              else q))"
  by pat_completeness auto
termination
proof (relation "measure (\<lambda>(s, q). length s)")
  fix s :: string and q :: maildirquota and x xa
  assume "s \<noteq> []" "\<not> \<not> isdigit (hd s)" "xa = dropWhile isdigit s"
  then have "length xa < length s"
    by (cases s) (auto simp: less_Suc_eq_le length_dropWhile_le)
  then show "((xa, if cread xa = CHR ''S'' then q\<lparr>nbytes := int x\<rparr>
      else if cread xa = CHR ''C'' then q\<lparr>nmessages := sint (word_of_nat x :: 32 word)\<rparr> else q), s, q)
      \<in> measure (\<lambda>(s, q). length s)" by simp
qed auto

declare parsequota_loop.simps [simp del]

definition parsequotastr :: "string \<Rightarrow> maildirquota" where
  "parsequotastr s = parsequota_loop s no_quota"

text \<open>A number of \<^verbatim>\<open>sscanf\<close>: blanks, a sign, digits.\<close>

definition scan_int :: "string \<Rightarrow> (int \<times> string) option" where
  "scan_int s =
     (let s = skipspace s;
          neg = (cread s = CHR ''-'');
          t = (if neg \<or> cread s = CHR ''+'' then tl s else s);
          ds = takeWhile isdigit t
      in if ds = [] then None
         else Some (if neg then - int (dec_val 0 ds) else int (dec_val 0 ds), dropWhile isdigit t))"

definition size_line :: "string \<Rightarrow> int \<times> int" where
  "size_line q =
     (case scan_int q of
        None \<Rightarrow> (0, 0)
      | Some (n, r) \<Rightarrow> (case scan_int r of None \<Rightarrow> (n, 0) | Some (c, _) \<Rightarrow> (n, c)))"

text \<open>The lines the loop of \<open>do_maildir_openquotafile\<close> cuts the buffer into.\<close>

function buf_lines :: "string \<Rightarrow> string list" where
  "buf_lines p =
     (if p = [] then []
      else takeWhile (\<lambda>c. c \<noteq> nl) p # buf_lines (drop 1 (dropWhile (\<lambda>c. c \<noteq> nl) p)))"
  by pat_completeness auto
termination
proof (relation "measure length")
  fix p :: string
  assume "p \<noteq> []"
  then show "(drop 1 (dropWhile (\<lambda>c. c \<noteq> nl) p), p) \<in> measure length"
    using length_dropWhile_le [of "\<lambda>c. c \<noteq> nl" p] by (cases p) auto
qed simp

declare buf_lines.simps [simp del]

definition add_line :: "string \<Rightarrow> maildirsize \<Rightarrow> maildirsize" where
  "add_line q info =
     (case size_line q of (n, c) \<Rightarrow>
        info\<lparr>sizes := \<lparr>nbytes = nbytes (sizes info) + n, nmessages = nmessages (sizes info) + c\<rparr>,
             nlines := nlines info + 1\<rparr>)"

definition empty_info :: maildirsize where
  "empty_info = \<lparr>fd = Closed, quota = no_quota, sizes = no_quota, recalculation_needed = False, st_mtime = 0, nlines = 0\<rparr>"

text \<open>\<open>do_maildir_openquotafile\<close>; the flag says that 0 is returned.\<close>

definition do_maildir_openquotafile :: "size_file \<Rightarrow> string option \<Rightarrow> maildirsize \<times> bool" where
  "do_maildir_openquotafile file newquota =
     (case newquota of
        Some q \<Rightarrow>
          let info = empty_info\<lparr>quota := parsequotastr q\<rparr>
          in if nbytes (quota info) = 0 \<and> nmessages (quota info) = 0 then (info, False)
             else (info\<lparr>fd := Dev_null, recalculation_needed := True\<rparr>, True)
      | None \<Rightarrow>
          (case file of
             None \<Rightarrow> (empty_info, True)
           | Some (contents, mtime) \<Rightarrow>
               let info = empty_info\<lparr>fd := Size_file, st_mtime := mtime\<rparr>
               in if 5120 \<le> length contents
                  then (info\<lparr>quota := parsequotastr
                            (takeWhile (\<lambda>c. c \<noteq> nl) (takeWhile (\<lambda>c. c \<noteq> nul) (take 5119 contents))),
                          recalculation_needed := True\<rparr>, True)
                  else
                    (case buf_lines (takeWhile (\<lambda>c. c \<noteq> nul) contents) of
                       [] \<Rightarrow> (info, True)
                     | q # qs \<Rightarrow> (fold add_line qs (info\<lparr>quota := parsequotastr q\<rparr>), True))))"

text \<open>
  The maildir of a folder, which has a file \<^verbatim>\<open>maildirfolder\<close>, is its parent; \<open>None\<close> would be an
  endless chain of parents.
\<close>

partial_function (option) quota_maildir :: "(string \<Rightarrow> bool) \<Rightarrow> string \<Rightarrow> string option" where
  "quota_maildir exists maildir =
     (if exists (maildir @ ''/maildirfolder'') then quota_maildir exists (maildir @ ''/..'') else Some maildir)"

definition maildir_getquota :: "size_file \<Rightarrow> nat \<Rightarrow> string option" where
  "maildir_getquota file bufsize =
     map_option (\<lambda>(contents, _). takeWhile (\<lambda>c. c \<noteq> nl) (take (bufsize - 1) contents)) file"

definition maildir_closequotafile :: "maildirsize \<Rightarrow> maildirsize" where
  "maildir_closequotafile info = info\<lparr>fd := Closed\<rparr>"

subsection \<open>Writing the file\<close>

definition pad_left :: "nat \<Rightarrow> string \<Rightarrow> string" where
  "pad_left n s = replicate (n - length s) sp @ s"

definition quota_text :: "maildirquota \<Rightarrow> string" where
  "quota_text q =
     (let buf = (if 0 < nbytes q then libmail_str_off_t (word_of_int (nbytes q)) @ ''S'' else [])
      in if 0 < nmessages q
         then buf @ (if buf \<noteq> [] then '','' else []) @ libmail_str_size_t (word_of_int (nmessages q)) @ ''C''
         else buf)"

text \<open>The text \<open>doaddquota\<close> writes.\<close>

definition doaddquota :: "maildirsize \<Rightarrow> int \<Rightarrow> int \<Rightarrow> bool \<Rightarrow> string" where
  "doaddquota info maildirsize_size maildirsize_cnt isnew =
     (if isnew then quota_text (quota info) @ [nl] else [])
     @ pad_left 8 (libmail_str_off_t (word_of_int maildirsize_size)) @ [sp]
     @ pad_left 4 (libmail_str_off_t (word_of_int maildirsize_cnt)) @ [nl]"

text \<open>Appending to the open file; \<open>ok\<close> says that \<^verbatim>\<open>write\<close> succeeds.\<close>

definition maildir_addquota :: "bool \<Rightarrow> maildirsize \<Rightarrow> int \<Rightarrow> int \<Rightarrow> size_file \<Rightarrow> size_file \<times> bool" where
  "maildir_addquota ok info n c file =
     (if fd info = Closed then (file, True)
      else if \<not> ok then (file, False)
      else if fd info = Dev_null then (file, True)
      else (map_option (apfst (\<lambda>t. t @ doaddquota info n c False)) file, True))"

subsection \<open>Checking\<close>

datatype quota_errno = ENOSPC | EAGAIN | EIO

definition checkOneQuota :: "int \<Rightarrow> int \<Rightarrow> int \<times> bool" where
  "checkOneQuota sz qt =
     (if qt = 0 then (0, True)
      else if sz > qt then (100, False)
      else let x = (if qt > 20000000 then 1024 else 1)
           in (if qt > 0 then ((sz sdiv x) * 100) sdiv (qt sdiv x) else 0, True))"

definition checkQuota :: "maildirquota \<Rightarrow> maildirquota \<Rightarrow> int \<times> quota_errno option" where
  "checkQuota sz qt =
     (case checkOneQuota (nbytes sz) (nbytes qt) of (b_quota, b_ok) \<Rightarrow>
        if \<not> b_ok then (100, Some ENOSPC)
        else case checkOneQuota (nmessages sz) (nmessages qt) of (n_quota, n_ok) \<Rightarrow>
          if \<not> n_ok then (100, Some ENOSPC)
          else (if b_quota < n_quota then n_quota else b_quota, None))"

text \<open>
  A directory: \<open>None\<close> when \<^verbatim>\<open>stat\<close> fails, else its modification time and, unless it cannot be
  opened, its entries with the size \<^verbatim>\<open>stat\<close> gives.
\<close>

type_synonym dir = "(int \<times> (string \<times> int option) list option) option"

definition docount_entry :: "bool \<Rightarrow> string \<times> int option \<Rightarrow> int \<times> nat \<Rightarrow> int \<times> nat" where
  "docount_entry trash = (\<lambda>(n, st) (sz, cnt).
     if cread n = dot \<or> \<not> maildirquota_countfile trash n then (sz, cnt)
     else case maildir_parsequota n of
            Some s \<Rightarrow> (sz + sint s, cnt + 1)
          | None \<Rightarrow> (case st of None \<Rightarrow> (sz, cnt) | Some s \<Rightarrow> (sz + s, cnt + 1)))"

definition docount :: "bool \<Rightarrow> dir \<Rightarrow> int \<times> int \<times> nat \<Rightarrow> int \<times> int \<times> nat" where
  "docount trash d = (\<lambda>(stamp, sz, cnt).
     case d of
       None \<Rightarrow> (stamp, sz, cnt)
     | Some (mtime, entries) \<Rightarrow>
         (max stamp mtime, fold (docount_entry trash) (case entries of None \<Rightarrow> [] | Some es \<Rightarrow> es) (sz, cnt)))"

text \<open>What a pass over a maildir sees: \<^verbatim>\<open>new\<close>, \<^verbatim>\<open>cur\<close>, and the entries of the maildir with theirs.\<close>

record scan =
  sc_new :: dir
  sc_cur :: dir
  sc_sub :: "(string \<times> dir \<times> dir) list"

definition countcurnew :: "bool \<Rightarrow> dir \<Rightarrow> dir \<Rightarrow> int \<times> int \<times> nat \<Rightarrow> int \<times> int \<times> nat" where
  "countcurnew trash dnew dcur acc = docount trash dcur (docount trash dnew acc)"

definition countsubdir :: "bool \<Rightarrow> string \<times> dir \<times> dir \<Rightarrow> int \<times> int \<times> nat \<Rightarrow> int \<times> int \<times> nat" where
  "countsubdir trash = (\<lambda>(subdir, dnew, dcur) acc.
     if cread subdir \<noteq> dot \<or> subdir = ''.'' \<or> subdir = ''..'' \<or> \<not> maildirquota_countfolder trash subdir
     then acc else countcurnew trash dnew dcur acc)"

definition count_all :: "bool \<Rightarrow> scan \<Rightarrow> int \<times> int \<times> nat" where
  "count_all trash sc =
     fold (countsubdir trash) (sc_sub sc) (countcurnew trash (sc_new sc) (sc_cur sc) (0, 0, 0))"

definition statdir :: "dir \<Rightarrow> int \<Rightarrow> int" where
  "statdir d stamp = (case d of None \<Rightarrow> stamp | Some (mtime, _) \<Rightarrow> max stamp mtime)"

definition statsubdir :: "string \<times> dir \<times> dir \<Rightarrow> int \<Rightarrow> int" where
  "statsubdir = (\<lambda>(subdir, dnew, dcur) stamp.
     if cread subdir \<noteq> dot \<or> subdir = ''.'' \<or> subdir = ''..'' \<or> subdir = ''.Trash''
     then stamp else statdir dnew (statdir dcur stamp))"

definition stat_all :: "scan \<Rightarrow> int" where
  "stat_all sc = fold statsubdir (sc_sub sc) (statdir (sc_new sc) (statdir (sc_cur sc) 0))"

text \<open>
  What happens around a check: the time, the scan that counts and the scan that looks for
  changes since, and whether writing and renaming the new file succeed.
\<close>

record env =
  now :: int
  scan1 :: scan
  scan2 :: scan
  write_ok :: bool
  rename_ok :: bool

definition extra :: "maildirquota \<Rightarrow> int \<Rightarrow> int \<Rightarrow> maildirquota" where
  "extra q n c = \<lparr>nbytes = nbytes q + n, nmessages = nmessages q + c\<rparr>"

text \<open>
  \<open>docheckquota\<close>, from the recalculation on: the new info, the new file, the percentage and
  the error.
\<close>

definition recalculate ::
    "bool \<Rightarrow> env \<Rightarrow> maildirsize \<Rightarrow> int \<Rightarrow> int \<Rightarrow> size_file \<Rightarrow>
      int \<Rightarrow> maildirsize \<times> size_file \<times> int \<times> quota_errno option" where
  "recalculate trash e info n c file percentage =
     (case count_all trash (scan1 e) of (maxtime, sz, cnt) \<Rightarrow>
        if \<not> write_ok e \<or> \<not> rename_ok e then (info, file, percentage, Some EIO)
        else
          let file = Some (doaddquota info sz (int cnt) True, now e);
              info = info\<lparr>recalculation_needed := False, sizes := \<lparr>nbytes = sz, nmessages = int cnt\<rparr>,
                nlines := 1, fd := Size_file\<rparr>
          in if stat_all (scan2 e) \<noteq> maxtime
             then (info\<lparr>recalculation_needed := True, nlines := 0\<rparr>, file, percentage, Some EAGAIN)
             else case checkQuota (extra (sizes info) n c) (quota info) of (p, r) \<Rightarrow> (info, file, p, r))"

definition docheckquota ::
    "bool \<Rightarrow> env \<Rightarrow> maildirsize \<Rightarrow> int \<Rightarrow> int \<Rightarrow> size_file \<Rightarrow>
      maildirsize \<times> size_file \<times> int \<times> quota_errno option" where
  "docheckquota trash e info n c file =
     (if fd info = Closed then (info, file, 0, None)
      else if recalculation_needed info then recalculate trash e info n c file 0
      else
        case checkQuota (extra (sizes info) n c) (quota info) of (p, r) \<Rightarrow>
          if r = None then (info, file, p, None)
          else if nlines info = 1 \<and> now e < st_mtime info + 15 * 60 then (info, file, p, r)
          else recalculate trash e info n c file p)"

definition maildir_checkquota ::
    "bool \<Rightarrow> env \<Rightarrow> maildirsize \<Rightarrow> int \<Rightarrow> int \<Rightarrow> size_file \<Rightarrow> maildirsize \<times> size_file \<times> quota_errno option" where
  "maildir_checkquota trash e info n c file =
     (case docheckquota trash e info n c file of (info, file, _, r) \<Rightarrow> (info, file, r))"

definition maildir_readquota :: "bool \<Rightarrow> env \<Rightarrow> maildirsize \<Rightarrow> size_file \<Rightarrow> maildirsize \<times> size_file \<times> int" where
  "maildir_readquota trash e info file =
     (case docheckquota trash e info 0 0 file of (info, file, p, _) \<Rightarrow> (info, file, p))"

subsection \<open>The operations on a maildir\<close>

definition maildir_openquotafile :: "size_file \<Rightarrow> maildirsize" where
  "maildir_openquotafile file =
     (case do_maildir_openquotafile file None of (info, ok) \<Rightarrow> if ok then info else info\<lparr>fd := Closed\<rparr>)"

definition maildir_quota_set :: "bool \<Rightarrow> env \<Rightarrow> string \<Rightarrow> size_file \<Rightarrow> size_file" where
  "maildir_quota_set trash e q file =
     (case do_maildir_openquotafile file (Some q) of (info, ok) \<Rightarrow>
        if ok then fst (snd (maildir_checkquota trash e info 0 0 file)) else file)"

text \<open>
  The retries of \<open>maildir_quota_add_start\<close>; \<open>envs\<close> are the surroundings of the checks. The
  flag says that the addition is allowed.
\<close>

fun add_start_loop ::
    "bool \<Rightarrow> env list \<Rightarrow> maildirsize \<Rightarrow> int \<Rightarrow> int \<Rightarrow> size_file \<Rightarrow> maildirsize \<times> size_file \<times> bool" where
  "add_start_loop trash [] info n c file = (maildir_closequotafile info, file, True)"
| "add_start_loop trash (e # es) info n c file =
     (case maildir_checkquota trash e info n c file of (info, file, r) \<Rightarrow>
        if r = None then (info, file, True)
        else if r \<noteq> Some EAGAIN then (maildir_closequotafile info, file, False)
        else add_start_loop trash es info n c file)"

definition maildir_quota_add_start ::
    "bool \<Rightarrow> env \<Rightarrow> env list \<Rightarrow> int \<Rightarrow> int \<Rightarrow> string option \<Rightarrow> size_file \<Rightarrow> maildirsize \<times> size_file \<times> bool" where
  "maildir_quota_add_start trash e0 es msgsize nmsgs newquota file =
     (let info = maildir_openquotafile file;
          (info, file) =
            (case newquota of
               None \<Rightarrow> (info, file)
             | Some q \<Rightarrow>
                 let mq = parsequotastr q
                 in if (nbytes mq > 0 \<or> nmessages mq > 0) \<and>
                       (fd info = Closed \<or> nbytes (quota info) \<noteq> nbytes mq \<or> nmessages (quota info) \<noteq> nmessages mq)
                    then
                      (if fd info = Closed
                       then let file = maildir_quota_set trash e0 q file in (maildir_openquotafile file, file)
                       else (info\<lparr>quota := mq, recalculation_needed := True\<rparr>, file))
                    else (info, file))
      in if fd info = Closed then (info, file, True)
         else add_start_loop trash (take 5 es) info msgsize nmsgs file)"

definition maildir_quota_add_end ::
    "bool \<Rightarrow> maildirsize \<Rightarrow> int \<Rightarrow> int \<Rightarrow> size_file \<Rightarrow> maildirsize \<times> size_file" where
  "maildir_quota_add_end ok info msgsize nmsgs file =
     (maildir_closequotafile info, fst (maildir_addquota ok info msgsize nmsgs file))"

definition maildir_quota_deleted :: "bool \<Rightarrow> env \<Rightarrow> bool \<Rightarrow> int \<Rightarrow> int \<Rightarrow> size_file \<Rightarrow> size_file" where
  "maildir_quota_deleted trash e ok n c file =
     (case maildir_checkquota trash e (maildir_openquotafile file) n c file of (info, file, _) \<Rightarrow>
        fst (maildir_addquota ok info n c file))"

definition maildir_quota_recalculate :: "bool \<Rightarrow> env \<Rightarrow> size_file \<Rightarrow> size_file" where
  "maildir_quota_recalculate trash e file =
     (case maildir_readquota trash e ((maildir_openquotafile file)\<lparr>recalculation_needed := True\<rparr>) file of
        (info, file, _) \<Rightarrow> file)"

definition maildir_quota_delundel_start ::
    "bool \<Rightarrow> env \<Rightarrow> env list \<Rightarrow> bool \<Rightarrow> maildirsize \<Rightarrow> int \<Rightarrow> int \<Rightarrow> size_file \<Rightarrow> maildirsize \<times> size_file \<times> bool" where
  "maildir_quota_delundel_start trash e0 es ok info msgsize nmsgs file =
     (if trash then (info, file, True)
      else if nmsgs < 0 then (info, maildir_quota_deleted trash e0 ok msgsize nmsgs file, True)
      else maildir_quota_add_start trash e0 es msgsize nmsgs None file)"

definition maildir_quota_delundel_end ::
    "bool \<Rightarrow> bool \<Rightarrow> maildirsize \<Rightarrow> int \<Rightarrow> int \<Rightarrow> size_file \<Rightarrow> maildirsize \<times> size_file" where
  "maildir_quota_delundel_end trash ok info msgsize nmsgs file =
     (if trash \<or> nmsgs < 0 then (info, file) else maildir_quota_add_end ok info msgsize nmsgs file)"

text \<open>Whether a warning is due: the percentage \<open>maildir_deliver_quota_warning\<close> compares.\<close>

definition quota_warning_due :: "bool \<Rightarrow> env \<Rightarrow> int \<Rightarrow> size_file \<Rightarrow> bool \<times> size_file" where
  "quota_warning_due trash e percent file =
     (if percent \<ge> 0
      then case maildir_readquota trash e (maildir_openquotafile file) file of
             (info, file, p) \<Rightarrow> (p \<ge> percent, file)
      else (False, file))"

subsection \<open>Reading back what was written\<close>

text \<open>A file as the program keeps it: the quota, then the sizes and counts of the changes.\<close>

definition change_line :: "int \<times> int \<Rightarrow> string" where
  "change_line = (\<lambda>(n, c). pad_left 8 (libmail_str_off_t (word_of_int n)) @ [sp]
     @ pad_left 4 (libmail_str_off_t (word_of_int c)))"

definition quota_file_text :: "maildirquota \<Rightarrow> (int \<times> int) list \<Rightarrow> string" where
  "quota_file_text q ds = quota_text q @ [nl] @ concat (map (\<lambda>d. change_line d @ [nl]) ds)"

definition in_off_t :: "int \<Rightarrow> bool" where
  "in_off_t n \<longleftrightarrow> - (2 ^ 63) < n \<and> n < 2 ^ 63"

definition quota_ok :: "maildirquota \<Rightarrow> bool" where
  "quota_ok q \<longleftrightarrow> 0 \<le> nbytes q \<and> nbytes q < 2 ^ 63 \<and> 0 \<le> nmessages q \<and> nmessages q < 2 ^ 31"

definition signed_text :: "int \<Rightarrow> string" where
  "signed_text n = (if n < 0 then CHR ''-'' # dec (nat (- n)) else dec (nat n))"

lemma doaddquota_False: "doaddquota info n c False = change_line (n, c) @ [nl]"
  by (simp add: doaddquota_def change_line_def)

lemma doaddquota_True: "doaddquota info n c True = quota_file_text (quota info) [(n, c)]"
  by (simp add: doaddquota_def change_line_def quota_file_text_def)

lemma str_off_t_text: "in_off_t n \<Longrightarrow> libmail_str_off_t (word_of_int n) = signed_text n"
proof -
  assume "in_off_t n"
  then have "sint (word_of_int n :: 64 word) = n" "n \<noteq> - (2 ^ 63)"
    by (simp_all add: in_off_t_def signed_of_int signed_take_bit_int_eq_self)
  then show ?thesis
    using off_dec [of "word_of_int n"] by (simp add: signed_text_def)
qed

lemma str_size_t_text: "0 \<le> n \<Longrightarrow> n < 2 ^ 63 \<Longrightarrow> libmail_str_size_t (word_of_int n) = dec (nat n)"
  using uint_dec [of "word_of_int n :: 64 word"]
  by (simp add: libmail_str_size_t_def unsigned_of_int take_bit_int_eq_self)

lemma parsequota_loop_letter: "\<not> isdigit c \<Longrightarrow> parsequota_loop (c # r) q = parsequota_loop r q"
  by (simp add: parsequota_loop.simps [of "c # r"])

lemma parsequota_loop_number:
  assumes "\<not> isdigit c"
  shows "parsequota_loop (dec n @ c # r) q =
    parsequota_loop r (if c = CHR ''S'' then q\<lparr>nbytes := int n\<rparr>
      else if c = CHR ''C'' then q\<lparr>nmessages := sint (word_of_nat n :: 32 word)\<rparr> else q)"
proof -
  have digits: "takeWhile isdigit (dec n @ c # r) = dec n" "dropWhile isdigit (dec n @ c # r) = c # r"
    using takeWhile_digits [OF dec_digits, of "c # r"] assms by simp_all
  have "isdigit (hd (dec n @ c # r))" "dec n @ c # r \<noteq> []" by simp_all
  then show ?thesis
    using parsequota_loop_letter [OF assms] digits
    by (subst parsequota_loop.simps) (simp only: digits Let_def dec_val_dec if_False not_True_eq_False cread_simps)
qed

lemma parsequota_quota_text:
  assumes "quota_ok q"
  shows "parsequotastr (quota_text q) = q"
proof -
  obtain n m where q: "q = \<lparr>nbytes = int n, nmessages = int m\<rparr>" and b: "int n < 2 ^ 63" "int m < 2 ^ 31"
    using assms zero_le_imp_eq_int [of "nbytes q"] zero_le_imp_eq_int [of "nmessages q"]
    by (cases q) (auto simp: quota_ok_def)
  have [simp]: "libmail_str_off_t (word_of_int (int n)) = dec n" "libmail_str_size_t (word_of_int (int m)) = dec m"
    using b str_off_t_text [of "int n"] str_size_t_text [of "int m"] by (simp_all add: in_off_t_def signed_text_def)
  have [simp]: "sint (word_of_nat m :: 32 word) = int m"
    using b by (simp add: signed_of_nat signed_take_bit_int_eq_self)
  have [simp]: "\<not> isdigit CHR ''S''" "\<not> isdigit CHR ''C''" "\<not> isdigit CHR '',''"
    by (simp_all add: isdigit_def)
  have [simp]: "parsequota_loop [] q' = q'" for q'
    by (simp add: parsequota_loop.simps)
  show ?thesis
    by (simp add: q parsequotastr_def quota_text_def no_quota_def parsequota_loop_number parsequota_loop_letter
        del: of_int_of_nat_eq dec.simps)
qed

lemma scan_int_text:
  assumes "nodigit r"
  shows "scan_int (replicate k sp @ signed_text n @ r) = Some (n, r)"
proof -
  have "isspace sp" by (simp add: isspace_def)
  then have "dropWhile isspace (replicate k sp @ signed_text n @ r) = dropWhile isspace (signed_text n @ r)"
    by (induction k) simp_all
  moreover have hd: "isdigit (hd (dec m))" for m by simp
  have c: "\<not> isspace (hd (dec m)) \<and> hd (dec m) \<noteq> CHR ''-'' \<and> hd (dec m) \<noteq> CHR ''+''" for m
    using hd [of m] by (auto simp: isdigit_def isspace_def simp del: isdigit_hd_dec)
  have d: "dropWhile isspace (dec m @ r) = dec m @ r" "cread (dec m @ r) \<noteq> CHR ''-''" "cread (dec m @ r) \<noteq> CHR ''+''" for m
  proof -
    obtain x xs where x: "dec m = x # xs" by (metis dec_ne neq_Nil_conv)
    show "dropWhile isspace (dec m @ r) = dec m @ r" "cread (dec m @ r) \<noteq> CHR ''-''" "cread (dec m @ r) \<noteq> CHR ''+''"
      using c [of m] unfolding x by simp_all
  qed
  moreover have "\<not> isspace CHR ''-''" by (simp add: isspace_def)
  ultimately show ?thesis
    using takeWhile_digits [OF dec_digits assms]
    by (simp add: scan_int_def skipspace_def signed_text_def Let_def)
qed

lemma size_line_change:
  assumes "in_off_t n" "in_off_t c"
  shows "size_line (change_line (n, c)) = (n, c)"
proof -
  define k j where "k = 8 - length (signed_text n)" and "j = 4 - length (signed_text c)"
  have line: "change_line (n, c) = replicate k sp @ signed_text n @ replicate (Suc j) sp @ signed_text c @ []"
    using assms by (simp add: change_line_def pad_left_def str_off_t_text k_def j_def)
  have "nodigit (replicate (Suc j) sp @ signed_text c @ [])" by (simp add: isdigit_def)
  then show ?thesis
    unfolding line size_line_def scan_int_text by (simp add: scan_int_text del: replicate_Suc append_Nil2)
qed

text \<open>The characters of a line: no newline and no NUL.\<close>

definition line_ok :: "string \<Rightarrow> bool" where
  "line_ok s \<longleftrightarrow> nl \<notin> set s \<and> nul \<notin> set s"

lemma line_ok_simps [simp]:
  "line_ok []" "line_ok (c # s) \<longleftrightarrow> c \<noteq> nl \<and> c \<noteq> nul \<and> line_ok s" "line_ok (s @ t) \<longleftrightarrow> line_ok s \<and> line_ok t"
  "line_ok (replicate n sp)"
  by (auto simp: line_ok_def)

lemma line_ok_dec [simp]: "line_ok (dec n)"
  by (auto simp: line_ok_def isdigit_def dest: isdigit_dec)

lemma line_ok_signed_text [simp]: "line_ok (signed_text n)"
  by (simp add: signed_text_def)

definition changes_ok :: "(int \<times> int) list \<Rightarrow> bool" where
  "changes_ok ds \<longleftrightarrow> list_all (\<lambda>(n, c). in_off_t n \<and> in_off_t c) ds"

lemma changes_ok_simps [simp]:
  "changes_ok []" "changes_ok ((n, c) # ds) \<longleftrightarrow> in_off_t n \<and> in_off_t c \<and> changes_ok ds"
  "changes_ok (ds @ es) \<longleftrightarrow> changes_ok ds \<and> changes_ok es"
  by (simp_all add: changes_ok_def)

lemma line_ok_change: "in_off_t n \<Longrightarrow> in_off_t c \<Longrightarrow> line_ok (change_line (n, c))"
  by (simp add: change_line_def pad_left_def str_off_t_text)

lemma quota_text_ok:
  assumes "quota_ok q"
  shows "line_ok (quota_text q)" "length (quota_text q) \<le> 45"
proof -
  have printed: "libmail_str_off_t (word_of_int (nbytes q)) = signed_text (nbytes q)"
    "libmail_str_size_t (word_of_int (nmessages q)) = dec (nat (nmessages q))"
    using assms by (simp_all add: quota_ok_def str_off_t_text in_off_t_def str_size_t_text)
  show "line_ok (quota_text q)"
    by (simp add: quota_text_def printed Let_def)
  have "length (libmail_str_off_t (word_of_int (nbytes q))) \<le> 21" "length (libmail_str_size_t (word_of_int (nmessages q))) \<le> 21"
    using length_print(1,2) [of "word_of_int (nbytes q)"] length_print(1) [of "word_of_int (nmessages q)"]
      length_print(2) [of "- word_of_int (nbytes q)"]
    by (simp_all add: libmail_str_off_t_def libmail_str_size_t_def)
  then show "length (quota_text q) \<le> 45"
    by (simp add: quota_text_def Let_def)
qed

lemma buf_lines_line: "line_ok x \<Longrightarrow> buf_lines (x @ nl # r) = x # buf_lines r"
proof -
  assume x: "line_ok x"
  then have "takeWhile (\<lambda>c. c \<noteq> nl) (x @ nl # r) = x" "dropWhile (\<lambda>c. c \<noteq> nl) (x @ nl # r) = nl # r"
    by (auto simp: line_ok_def takeWhile_append dropWhile_append)
  then show ?thesis by (simp add: buf_lines.simps [of "x @ nl # r"])
qed

lemma buf_lines_file:
  assumes "quota_ok q" "changes_ok ds"
  shows "buf_lines (quota_file_text q ds) = quota_text q # map change_line ds"
proof -
  have "buf_lines (concat (map (\<lambda>d. change_line d @ [nl]) ds)) = map change_line ds"
    using assms(2)
    by (induction ds) (auto simp: buf_lines.simps [of "[]"] buf_lines_line line_ok_change)
  then show ?thesis
    using buf_lines_line [OF quota_text_ok(1) [OF assms(1)]] by (simp add: quota_file_text_def)
qed

lemma nul_file:
  assumes "quota_ok q" "changes_ok ds"
  shows "nul \<notin> set (quota_file_text q ds)"
proof -
  have "line_ok (change_line d)" if "d \<in> set ds" for d
    using that assms(2) by (cases d) (auto simp: changes_ok_def list_all_iff line_ok_change)
  then have "nul \<notin> set (concat (map (\<lambda>d. change_line d @ [nl]) ds))"
    by (auto simp: line_ok_def)
  then show ?thesis
    using quota_text_ok(1) [OF assms(1)] by (simp add: quota_file_text_def line_ok_def)
qed

definition changes_total :: "(int \<times> int) list \<Rightarrow> maildirquota" where
  "changes_total ds = \<lparr>nbytes = sum_list (map fst ds), nmessages = sum_list (map snd ds)\<rparr>"

lemma fold_add_line:
  "changes_ok ds \<Longrightarrow> fold add_line (map change_line ds) info =
    info\<lparr>sizes := extra (sizes info) (nbytes (changes_total ds)) (nmessages (changes_total ds)),
      nlines := nlines info + length ds\<rparr>"
proof (induction ds arbitrary: info)
  case Nil
  then show ?case by (simp add: changes_total_def extra_def)
next
  case (Cons d ds)
  then show ?case
    by (cases d) (simp add: add_line_def size_line_change changes_total_def extra_def)
qed

lemma takeWhile_short: "c \<notin> set s \<Longrightarrow> takeWhile (\<lambda>d. d \<noteq> c) (s @ c # r) = s"
  by (induction s) auto

lemma open_quota_file:
  assumes "quota_ok q" "changes_ok ds"
  shows "maildir_openquotafile (Some (quota_file_text q ds, t)) =
    (if 5120 \<le> length (quota_file_text q ds)
     then empty_info\<lparr>fd := Size_file, st_mtime := t, quota := q, recalculation_needed := True\<rparr>
     else empty_info\<lparr>fd := Size_file, st_mtime := t, quota := q, sizes := changes_total ds, nlines := length ds\<rparr>)"
proof -
  let ?f = "quota_file_text q ds"
  note nonul = nul_file [OF assms]
  have all: "takeWhile (\<lambda>c. c \<noteq> nul) ?f = ?f"
    using nonul by (intro takeWhile_eq_all_conv [THEN iffD2]) auto
  have "takeWhile (\<lambda>c. c \<noteq> nul) (take 5119 ?f) = take 5119 ?f"
    using nonul by (intro takeWhile_eq_all_conv [THEN iffD2]) (auto dest: in_set_takeD)
  moreover have "take 5119 ?f = quota_text q @ nl # take (5118 - length (quota_text q)) (concat (map (\<lambda>d. change_line d @ [nl]) ds))"
    using quota_text_ok(2) [OF assms(1)] by (simp add: quota_file_text_def take_Cons')
  moreover have "takeWhile (\<lambda>c. c \<noteq> nl) (quota_text q @ nl # r) = quota_text q" for r
    using quota_text_ok(1) [OF assms(1)] by (intro takeWhile_short) (simp add: line_ok_def)
  ultimately have first: "takeWhile (\<lambda>c. c \<noteq> nl) (takeWhile (\<lambda>c. c \<noteq> nul) (take 5119 ?f)) = quota_text q"
    by (simp only:)
  show ?thesis
    using fold_add_line [OF assms(2)]
    by (simp add: maildir_openquotafile_def do_maildir_openquotafile_def Let_def first all buf_lines_file [OF assms]
        parsequota_quota_text [OF assms(1)] empty_info_def no_quota_def extra_def changes_total_def)
qed

text \<open>
  C23. The file \<^verbatim>\<open>maildirsize\<close> is a faithful log: written by a recalculation and followed by
  any changes appended by any number of deliveries and removals, opening it gives the quota it was written
  with and the sum of all changes, in any order; once it has grown to 5120 bytes the quota is still read,
  and a recalculation is asked for.
\<close>

theorem quota_file_log:
  assumes "quota_ok (quota info)" "in_off_t n" "in_off_t c" "changes_ok ds"
    and contents: "contents = doaddquota info n c True @ concat (map (\<lambda>(n, c). doaddquota info n c False) ds)"
  shows "let opened = maildir_openquotafile (Some (contents, t)) in
    fd opened = Size_file \<and> quota opened = quota info \<and> st_mtime opened = t \<and>
    (if 5120 \<le> length contents then recalculation_needed opened
     else \<not> recalculation_needed opened \<and> nlines opened = 1 + length ds \<and>
       sizes opened = \<lparr>nbytes = n + sum_list (map fst ds), nmessages = c + sum_list (map snd ds)\<rparr>)"
proof -
  have "concat (map (\<lambda>(n, c). doaddquota info n c False) ds) = concat (map (\<lambda>d. change_line d @ [nl]) ds)"
    by (rule arg_cong [of _ _ concat]) (auto simp: doaddquota_False)
  then have "contents = quota_file_text (quota info) ((n, c) # ds)"
    unfolding contents doaddquota_True by (simp add: quota_file_text_def)
  moreover have "changes_ok ((n, c) # ds)" using assms by simp
  ultimately show ?thesis
    using open_quota_file [OF assms(1), of "(n, c) # ds" t] by (simp add: empty_info_def changes_total_def)
qed

theorem quota_file_log_witness:
  "let opened = maildir_openquotafile (Some (doaddquota (empty_info\<lparr>quota := \<lparr>nbytes = 1000, nmessages = 0\<rparr>\<rparr>) 300 2 True
      @ concat (map (\<lambda>(n, c). doaddquota (empty_info\<lparr>quota := \<lparr>nbytes = 1000, nmessages = 0\<rparr>\<rparr>) n c False) [(50, 1), (- 200, - 1)]), 7))
   in fd opened = Size_file"
  using quota_file_log [of "empty_info\<lparr>quota := \<lparr>nbytes = 1000, nmessages = 0\<rparr>\<rparr>" 300 2 "[(50, 1), (- 200, - 1)]" _ 7, OF _ _ _ _ refl]
  by (simp add: quota_ok_def in_off_t_def Let_def)

subsection \<open>The quota is kept\<close>

definition within :: "maildirquota \<Rightarrow> maildirquota \<Rightarrow> bool" where
  "within sz qt \<longleftrightarrow> (nbytes qt = 0 \<or> nbytes sz \<le> nbytes qt) \<and> (nmessages qt = 0 \<or> nmessages sz \<le> nmessages qt)"

lemma checkOneQuota_ok: "snd (checkOneQuota sz qt) \<longleftrightarrow> qt = 0 \<or> sz \<le> qt"
  by (simp add: checkOneQuota_def Let_def)

lemma checkQuota_within: "snd (checkQuota sz qt) = (if within sz qt then None else Some ENOSPC)"
  using checkOneQuota_ok [of "nbytes sz" "nbytes qt"] checkOneQuota_ok [of "nmessages sz" "nmessages qt"]
  by (auto simp: checkQuota_def within_def split: prod.splits)

text \<open>What a scan finds, and a scan that finds nothing changed since.\<close>

definition scan_total :: "bool \<Rightarrow> scan \<Rightarrow> maildirquota" where
  "scan_total trash sc = (case count_all trash sc of (_, sz, cnt) \<Rightarrow> \<lparr>nbytes = sz, nmessages = int cnt\<rparr>)"

definition sees :: "bool \<Rightarrow> env \<Rightarrow> scan \<Rightarrow> bool" where
  "sees trash e sc \<longleftrightarrow> scan1 e = sc \<and> stat_all (scan2 e) = fst (count_all trash sc)"

definition countable :: "maildirquota \<Rightarrow> bool" where
  "countable q \<longleftrightarrow> in_off_t (nbytes q) \<and> \<bar>nmessages q\<bar> < 2 ^ 31"

lemma recalculate_sees:
  assumes "sees trash e sc"
  shows "recalculate trash e info n c file p =
    (if write_ok e \<and> rename_ok e then
       (let info' = info\<lparr>recalculation_needed := False, sizes := scan_total trash sc, nlines := 1, fd := Size_file\<rparr>
        in case checkQuota (extra (scan_total trash sc) n c) (quota info) of (p, r) \<Rightarrow>
          (info', Some (quota_file_text (quota info) [(nbytes (scan_total trash sc), nmessages (scan_total trash sc))], now e), p, r))
     else (info, file, p, Some EIO))"
  using assms by (auto simp: recalculate_def sees_def scan_total_def doaddquota_True Let_def split: prod.splits)

text \<open>The file of a maildir agrees with what is in it.\<close>

definition accurate :: "maildirquota \<Rightarrow> size_file \<Rightarrow> maildirquota \<Rightarrow> bool" where
  "accurate q file tot \<longleftrightarrow>
     (\<exists>ds t. file = Some (quota_file_text q ds, t) \<and> changes_ok ds \<and> changes_total ds = tot)"

lemma changes_total_snoc: "changes_total (ds @ [(n, c)]) = extra (changes_total ds) n c"
  by (simp add: changes_total_def extra_def)

lemma accurate_add:
  assumes "accurate q file tot" "in_off_t n" "in_off_t c" "fd info = Size_file"
  shows "accurate q (fst (maildir_addquota True info n c file)) (extra tot n c)"
proof -
  obtain ds t where ds: "file = Some (quota_file_text q ds, t)" "changes_ok ds" "changes_total ds = tot"
    using assms(1) by (auto simp: accurate_def)
  then have "fst (maildir_addquota True info n c file) = Some (quota_file_text q (ds @ [(n, c)]), t)"
    using assms(4) by (simp add: maildir_addquota_def doaddquota_False quota_file_text_def)
  moreover have "changes_ok (ds @ [(n, c)])" "changes_total (ds @ [(n, c)]) = extra tot n c"
    using ds assms(2,3) by (simp_all add: changes_total_snoc)
  ultimately show ?thesis unfolding accurate_def by blast
qed

text \<open>
  A check on an accurate file: no error other than \<open>ENOSPC\<close> and \<open>EIO\<close>, the file stays accurate
  and open, and the addition is allowed exactly when there is room, unless the recount cannot be written.
\<close>

definition checked ::
    "maildirquota \<Rightarrow> maildirquota \<Rightarrow> int \<Rightarrow> int \<Rightarrow> maildirsize \<times> size_file \<times> quota_errno option \<Rightarrow> bool" where
  "checked q tot n c = (\<lambda>(info, file, r).
     accurate q file tot \<and> fd info = Size_file \<and> quota info = q \<and>
     (r = None \<and> within (extra tot n c) q \<or> r = Some ENOSPC \<and> \<not> within (extra tot n c) q \<or> r = Some EIO))"

lemma checked_recalculate:
  assumes "accurate q file (scan_total trash sc)" "sees trash e sc" "countable (scan_total trash sc)"
    "fd info = Size_file" "quota info = q"
  shows "checked q (scan_total trash sc) n c
    (case recalculate trash e info n c file p of (info, file, _, r) \<Rightarrow> (info, file, r))"
proof -
  let ?tot = "scan_total trash sc"
  have "changes_ok [(nbytes ?tot, nmessages ?tot)]" "changes_total [(nbytes ?tot, nmessages ?tot)] = ?tot"
    using assms(3) by (auto simp: countable_def changes_total_def in_off_t_def)
  then have "accurate q (Some (quota_file_text q [(nbytes ?tot, nmessages ?tot)], now e)) ?tot"
    unfolding accurate_def by blast
  then show ?thesis
    using assms(1,4,5) checkQuota_within [of "extra ?tot n c" q]
    unfolding recalculate_sees [OF assms(2)]
    by (auto simp: checked_def Let_def split: prod.splits if_splits)
qed

lemma checkquota_accurate:
  assumes acc: "accurate q file (scan_total trash sc)" and q: "quota_ok q" and sees: "sees trash e sc"
    and cnt: "countable (scan_total trash sc)"
    and info: "info = maildir_openquotafile file \<or> info = (maildir_openquotafile file)\<lparr>recalculation_needed := True\<rparr>"
  shows "checked q (scan_total trash sc) n c (maildir_checkquota trash e info n c file)"
proof -
  let ?tot = "scan_total trash sc"
  obtain ds t where contents: "file = Some (quota_file_text q ds, t)" and ds: "changes_ok ds" "changes_total ds = ?tot"
    using acc by (auto simp: accurate_def)
  have opened: "fd info = Size_file" "quota info = q" "\<not> recalculation_needed info \<Longrightarrow> sizes info = ?tot"
    using info unfolding contents open_quota_file [OF q ds(1)] by (auto simp: empty_info_def ds(2) split: if_splits)
  note recalc = checked_recalculate [OF acc sees cnt opened(1,2), of n c]
  show ?thesis
  proof (cases "recalculation_needed info")
    case True
    with opened(1) recalc [of 0] show ?thesis by (simp add: maildir_checkquota_def docheckquota_def)
  next
    case False
    obtain p r where pr: "checkQuota (extra ?tot n c) q = (p, r)" by fastforce
    then have "r = (if within (extra ?tot n c) q then None else Some ENOSPC)"
      using checkQuota_within [of "extra ?tot n c" q] by simp
    then show ?thesis
      using False opened pr recalc [of p] acc
      by (simp add: maildir_checkquota_def docheckquota_def) (simp add: checked_def)
  qed
qed

subsection \<open>The life of a maildir\<close>

text \<open>
  The states of a maildir with the quota \<open>q\<close>: its size file, and what is in its directories. A
  message is delivered when \<open>maildir_quota_add_start\<close> allows it and removed messages are
  reported to \<open>maildir_quota_deleted\<close>; messages change their names, and recalculations happen at any time. The
  surroundings of each check see the directories as they are, at any time and whether or not a new file
  can be written.
\<close>

inductive quota_step :: "maildirquota \<Rightarrow> size_file \<times> scan \<Rightarrow> size_file \<times> scan \<Rightarrow> bool" for q where
  deliver:
    "quota_step q (file, sc) (snd (maildir_quota_add_end True info n c file'), sc')"
      if "maildir_quota_add_start False e0 (e # es) n c newquota file = (info, file', True)"
        "sees False e sc" "newquota = None \<or> (\<exists>t. newquota = Some t \<and> parsequotastr t = q)"
        "0 \<le> n" "n < 2 ^ 63" "0 \<le> c" "c < 2 ^ 31"
        "scan_total False sc' = extra (scan_total False sc) n c" "countable (scan_total False sc')"
| delete:
    "quota_step q (file, sc) (maildir_quota_deleted False e True n c file, sc')"
      if "sees False e sc" "- (2 ^ 63) < n" "n \<le> 0" "- (2 ^ 31) < c" "c \<le> 0"
        "scan_total False sc' = extra (scan_total False sc) n c" "countable (scan_total False sc')"
| recalculated:
    "quota_step q (file, sc) (maildir_quota_recalculate False e file, sc)" if "sees False e sc"
| renamed:
    "quota_step q (file, sc) (file, sc')" if "scan_total False sc' = scan_total False sc"

inductive_cases quota_stepE: "quota_step q s s'"

definition quota_inv :: "maildirquota \<Rightarrow> size_file \<times> scan \<Rightarrow> bool" where
  "quota_inv q = (\<lambda>(file, sc). accurate q file (scan_total False sc) \<and> countable (scan_total False sc) \<and>
     within (scan_total False sc) q)"

lemma within_less: "within (extra tot n c) q" if "within tot q" "n \<le> 0" "c \<le> 0"
  using that by (auto simp: within_def extra_def)

lemma add_start_accurate:
  assumes "accurate q file (scan_total False sc)" "quota_ok q" "sees False e sc" "countable (scan_total False sc)"
    and newquota: "newquota = None \<or> (\<exists>t. newquota = Some t \<and> parsequotastr t = q)"
    and start: "maildir_quota_add_start False e0 (e # es) n c newquota file = (info, file', True)"
  shows "accurate q file' (scan_total False sc) \<and> fd info = Size_file \<and> within (extra (scan_total False sc) n c) q"
proof -
  let ?info = "maildir_openquotafile file"
  obtain ds t where contents: "file = Some (quota_file_text q ds, t)" "changes_ok ds"
    using assms(1) by (auto simp: accurate_def)
  have "fd ?info = Size_file" "quota ?info = q"
    unfolding contents(1) open_quota_file [OF assms(2) contents(2)] by (simp_all add: empty_info_def)
  then have "add_start_loop False (take 5 (e # es)) ?info n c file = (info, file', True)"
    using start newquota by (auto simp: maildir_quota_add_start_def Let_def)
  moreover have "checked q (scan_total False sc) n c (maildir_checkquota False e ?info n c file)"
    using assms by (intro checkquota_accurate) simp_all
  ultimately show ?thesis
    by (auto simp: checked_def maildir_closequotafile_def split: prod.splits if_splits)
qed

lemma quota_inv_step: "quota_step q s s' \<Longrightarrow> quota_ok q \<Longrightarrow> quota_inv q s \<Longrightarrow> quota_inv q s'"
proof (induction rule: quota_step.induct)
  case (deliver e0 e es n c newquota f info f' sc sc')
  from deliver have "accurate q f' (scan_total False sc) \<and> fd info = Size_file \<and> within (extra (scan_total False sc) n c) q"
    by (intro add_start_accurate) (auto simp: quota_inv_def)
  moreover have "in_off_t n" "in_off_t c" using deliver by (simp_all add: in_off_t_def)
  ultimately show ?case
    using deliver accurate_add [of q f' "scan_total False sc" n c info]
    by (auto simp: quota_inv_def maildir_quota_add_end_def)
next
  case (delete e sc n c sc' f)
  then have "checked q (scan_total False sc) n c (maildir_checkquota False e (maildir_openquotafile f) n c f)"
    by (intro checkquota_accurate) (auto simp: quota_inv_def)
  moreover have "in_off_t n" "in_off_t c" using delete by (simp_all add: in_off_t_def)
  ultimately show ?case
    using delete by (auto simp: quota_inv_def checked_def maildir_quota_deleted_def intro: accurate_add within_less split: prod.splits)
next
  case (recalculated e sc f)
  let ?info = "(maildir_openquotafile f)\<lparr>recalculation_needed := True\<rparr>"
  from recalculated have "checked q (scan_total False sc) 0 0 (maildir_checkquota False e ?info 0 0 f)"
    by (intro checkquota_accurate) (auto simp: quota_inv_def)
  with recalculated show ?case
    by (auto simp: quota_inv_def checked_def maildir_quota_recalculate_def maildir_readquota_def maildir_checkquota_def
        split: prod.splits)
next
  case (renamed sc' sc f)
  then show ?case by (simp add: quota_inv_def)
qed


definition witness_quota :: maildirquota where
  "witness_quota = \<lparr>nbytes = 1000, nmessages = 0\<rparr>"

definition witness_scan :: "(string \<times> int option) list \<Rightarrow> scan" where
  "witness_scan es = \<lparr>sc_new = Some (5, Some es), sc_cur = Some (5, Some []), sc_sub = [(''.Trash'', Some (9, Some []), None)]\<rparr>"

definition witness_env :: env where
  "witness_env = \<lparr>now = 100, scan1 = witness_scan [], scan2 = witness_scan [], write_ok = True, rename_ok = False\<rparr>"


subsection \<open>Races\<close>

lemma countcurnew_stamp: "fst (countcurnew trash dn dc acc) = statdir dn (statdir dc (fst acc))"
  by (cases acc) (auto simp: countcurnew_def docount_def statdir_def max.assoc max.commute max.left_commute
      split: option.splits)

lemma countfolder_name: "slash \<notin> set f \<Longrightarrow> maildirquota_countfolder False f \<longleftrightarrow> f \<noteq> ''.Trash''"
proof -
  have "slash \<notin> set f \<Longrightarrow> countfolder_loop f" by (induction f) auto
  then show "slash \<notin> set f \<Longrightarrow> ?thesis"
    by (auto simp: maildirquota_countfolder_def is_trash_def)
qed

lemma count_all_stamp:
  assumes "list_all (\<lambda>(f, _). slash \<notin> set f) (sc_sub sc)"
  shows "fst (count_all False sc) = stat_all sc"
proof -
  have "fst (fold (countsubdir False) fs acc) = fold statsubdir fs (fst acc)"
    if "list_all (\<lambda>(f, _). slash \<notin> set f) fs" for fs acc
    using that by (induction fs arbitrary: acc)
      (auto simp: countsubdir_def statsubdir_def countfolder_name countcurnew_stamp)
  from this [OF assms] show ?thesis by (simp add: count_all_def stat_all_def countcurnew_stamp)
qed

lemma add_start_race:
  "(\<And>e. e \<in> set es \<Longrightarrow> scan1 e = sc \<and> scan2 e = sc \<and> write_ok e \<and> rename_ok e) \<Longrightarrow>
    stat_all sc \<noteq> fst (count_all trash sc) \<Longrightarrow> fd info \<noteq> Closed \<Longrightarrow> recalculation_needed info \<Longrightarrow>
    \<exists>info' sf'. add_start_loop trash es info n c sf = (info', sf', True) \<and> fd info' = Closed"
proof (induction es arbitrary: info sf)
  case Nil
  then show ?case by (simp add: maildir_closequotafile_def)
next
  case (Cons e es)
  obtain maxtime sz cnt where cnt: "count_all trash sc = (maxtime, sz, cnt)" by (cases "count_all trash sc")
  have e: "scan1 e = sc" "scan2 e = sc" "write_ok e" "rename_ok e" using Cons.prems(1) [of e] by simp_all
  define info1 where "info1 = info\<lparr>recalculation_needed := True, sizes := \<lparr>nbytes = sz, nmessages = int cnt\<rparr>,
    nlines := 0, fd := Size_file\<rparr>"
  define f1 where "f1 = Some (doaddquota info sz (int cnt) True, now e)"
  have "maildir_checkquota trash e info n c sf = (info1, f1, Some EAGAIN)"
    using Cons.prems(2-4) e cnt
    by (simp add: maildir_checkquota_def docheckquota_def recalculate_def Let_def info1_def f1_def)
  moreover have "\<exists>info' sf'. add_start_loop trash es info1 n c f1 = (info', sf', True) \<and> fd info' = Closed"
    using Cons.prems by (intro Cons.IH) (simp_all add: info1_def)
  ultimately show ?case by simp
qed

lemma fd_fold_add_line: "fd (fold add_line qs info) = fd info"
  by (induction qs arbitrary: info) (simp_all add: add_line_def split: prod.splits)

lemma open_recalculation:
  "recalculation_needed (maildir_openquotafile sf) \<Longrightarrow> fd (maildir_openquotafile sf) \<noteq> Closed"
  by (auto simp: maildir_openquotafile_def do_maildir_openquotafile_def empty_info_def Let_def fd_fold_add_line
      split: option.splits list.splits)



end
