(* ===== verification/Cgi_Args.thy ===== *)
theory Cgi_Args
  imports C_Prelude C_Interfaces
begin

text \<open>
  The arguments of a CGI request (\<^verbatim>\<open>cgi/cgi.c\<close>): the URL encoding, the list of arguments \<open>cgi_setup\<close>
  takes from the environment, and the lookups in it. The list is linked from the last argument to the
  first. \<open>cgiurldecode\<close> works in place; it never writes past what it has read, so it is a function of the string.
\<close>

subsection \<open>URL encoding\<close>

definition hex_digits :: string where "hex_digits = ''0123456789ABCDEF''"

text \<open>A character that is encoded: punctuation, controls and everything that is not ASCII (\<^verbatim>\<open>char\<close> is signed).\<close>

definition url_special :: "string \<Rightarrow> char \<Rightarrow> bool" where
  "url_special punct c \<longleftrightarrow> c \<in> set punct \<or> schar c < 32 \<or> 127 \<le> schar c"

text \<open>The first pass counts, the second fills.\<close>

fun url_count :: "string \<Rightarrow> string \<Rightarrow> nat" where
  "url_count punct [] = 0"
| "url_count punct (c # p) = (if url_special punct c then 3 else 1) + url_count punct p"

fun url_fill :: "string \<Rightarrow> string \<Rightarrow> string" where
  "url_fill punct [] = []"
| "url_fill punct (c # p) =
     (if url_special punct c then [CHR ''%'', hex_digits ! (code c div 16), hex_digits ! (code c mod 16)]
      else [if c = sp then CHR ''+'' else c]) @ url_fill punct p"

text \<open>\<open>None\<close> when the second pass writes past the buffer, which has room for the count and the terminator.\<close>

definition cgiurlencode_common :: "string \<Rightarrow> string \<Rightarrow> string option" where
  "cgiurlencode_common buf punct =
     (let newbuf = url_fill punct buf
      in if length newbuf + 1 \<le> url_count punct buf + 1 then Some newbuf else None)"

definition url_punct :: string where
  "url_punct = dquote # ''?;<>&=/:%@+#''"

definition url_punct_noamp :: string where
  "url_punct_noamp = dquote # ''?<>=/:%@+#''"

definition url_punct_noeq :: string where
  "url_punct_noeq = dquote # ''?;<>&/:%@+#''"

definition cgiurlencode :: "string \<Rightarrow> string option" where
  "cgiurlencode buf = cgiurlencode_common buf url_punct"

definition cgiurlencode_noamp :: "string \<Rightarrow> string option" where
  "cgiurlencode_noamp buf = cgiurlencode_common buf url_punct_noamp"

definition cgiurlencode_noeq :: "string \<Rightarrow> string option" where
  "cgiurlencode_noeq buf = cgiurlencode_common buf url_punct_noeq"

subsection \<open>URL decoding\<close>

definition cgi_nybble :: "string \<Rightarrow> nat \<Rightarrow> string \<times> nat" where
  "cgi_nybble p n =
     (let c = code (cread p)
      in if 48 \<le> c \<and> c \<le> 57 then (tl p, n * 16 + (c - 48))
         else if 65 \<le> c \<and> c \<le> 70 then (tl p, n * 16 + (c - 65 + 10))
         else (p, n))"

abbreviation nbsp :: char where "nbsp \<equiv> CHR 0xA0"

lemma cgi_nybble_length: "length (fst (cgi_nybble p n)) \<le> length p"
  by (simp add: cgi_nybble_def Let_def)

function cgiurldecode :: "string \<Rightarrow> string" where
  "cgiurldecode [] = []"
| "cgiurldecode (d # q) =
     (if d = CHR ''+'' \<or> d = nbsp then sp # cgiurldecode q
      else if d \<noteq> CHR ''%'' then d # cgiurldecode q
      else
        let (q1, c1) = cgi_nybble q 0;
            (q2, c2) = cgi_nybble q1 c1;
            c = (if c2 = 160 then 32 else c2)
        in (if c \<noteq> 0 \<and> c \<noteq> 13 then [char_of c] else []) @ cgiurldecode q2)"
  by pat_completeness auto
termination
proof (relation "measure length"; clarsimp)
  fix q q1 q2 :: string and c1 c2
  assume "(q1, c1) = cgi_nybble q 0" "(q2, c2) = cgi_nybble q1 c1"
  then show "length q2 < Suc (length q)"
    using cgi_nybble_length [of q 0] cgi_nybble_length [of q1 c1] by (metis fst_conv le_imp_less_Suc le_trans)
qed

declare cgiurldecode.simps(2) [simp del]

subsection \<open>The arguments\<close>

type_synonym arglist = "(string \<times> string) list"

text \<open>The loop of \<open>cgi_setup_1\<close> over \<^verbatim>\<open>name=value&name=value...\<close>; \<open>l\<close> is the list built so far.\<close>

definition cgi_arg :: "string \<Rightarrow> string \<times> string" where
  "cgi_arg p =
     (let name = takeWhile (\<lambda>c. c \<noteq> CHR ''='') p; rest = dropWhile (\<lambda>c. c \<noteq> CHR ''='') p
      in (cgiurldecode name, if rest = [] then [] else cgiurldecode (tl rest)))"

function cgi_parse :: "string \<Rightarrow> arglist \<Rightarrow> arglist" where
  "cgi_parse q l =
     (if q = [] then l
      else
        let p = takeWhile (\<lambda>c. c \<noteq> CHR ''&'') q; q' = drop (length p + 1) q
        in cgi_parse q' (cgi_arg p # l))"
  by pat_completeness auto
termination
  by (relation "measure (\<lambda>(q, l). length q)") auto

declare cgi_parse.simps [simp del]

subsection \<open>Looking arguments up\<close>

definition cgi :: "arglist \<Rightarrow> string \<Rightarrow> string" where
  "cgi l arg = (case find (\<lambda>a. fst a = arg) l of None \<Rightarrow> [] | Some a \<Rightarrow> snd a)"

text \<open>
  \<open>cgi_multiple\<close>: the size of the buffer, and the values from the last element of the list to the first. \<open>None\<close>
  when the buffer is too small.
\<close>

definition multiple_size :: "arglist \<Rightarrow> string \<Rightarrow> string \<Rightarrow> nat" where
  "multiple_size l arg sep =
     foldl (\<lambda>n a. if fst a = arg then n + (length (snd a) + length sep) else n) 1 l"

definition multiple_fill :: "arglist \<Rightarrow> string \<Rightarrow> string \<Rightarrow> string" where
  "multiple_fill l arg sep =
     foldr (\<lambda>a buf. if fst a = arg then buf @ (if buf = [] then [] else sep) @ snd a else buf) l []"

definition cgi_multiple :: "arglist \<Rightarrow> string \<Rightarrow> string \<Rightarrow> string option" where
  "cgi_multiple l arg sep =
     (let buf = multiple_fill l arg sep in if length buf + 1 \<le> multiple_size l arg sep then Some buf else None)"

fun put_value :: "arglist \<Rightarrow> string \<Rightarrow> string \<Rightarrow> arglist option" where
  "put_value [] n v = None"
| "put_value (a # l) n v = (if fst a = n then Some ((fst a, v) # l) else map_option ((#) a) (put_value l n v))"

definition cgi_put :: "arglist \<Rightarrow> string \<Rightarrow> string \<Rightarrow> arglist" where
  "cgi_put l n v = (case put_value l n v of Some l' \<Rightarrow> l' | None \<Rightarrow> (n, v) # l)"

subsection \<open>Decoding what was encoded\<close>

text \<open>
  What arrives when text is encoded and decoded: carriage returns are dropped and a no-break space becomes a space.
\<close>

definition cgi_text :: "string \<Rightarrow> string" where
  "cgi_text s = map (\<lambda>c. if c = nbsp then sp else c) (filter (\<lambda>c. c \<noteq> cr) s)"

lemma cgi_text_simps [simp]:
  "cgi_text [] = []"
  "cgi_text (c # s) = (if c = cr then cgi_text s else if c = nbsp then sp # cgi_text s else c # cgi_text s)"
  by (auto simp: cgi_text_def)

lemma nybble_hex_digit:
  assumes "n < 16"
  shows "cgi_nybble (hex_digits ! n # q) c = (q, c * 16 + n)"
proof -
  have "\<forall>n < 16. (let d = code (hex_digits ! n) in
      (if n < 10 then d = 48 + n else d = 55 + n))"
    by code_simp
  with assms show ?thesis
    by (auto simp: cgi_nybble_def Let_def split: if_splits)
qed

lemma url_char_plain:
  assumes "\<not> url_special punct c" "{CHR ''+'', CHR ''%''} \<subseteq> set punct"
  shows "c \<noteq> CHR ''+'' \<and> c \<noteq> CHR ''%'' \<and> c \<noteq> nbsp \<and> c \<noteq> cr"
  using assms by (auto simp: url_special_def schar_def)

lemma cgiurldecode_percent:
  "n < 256 \<Longrightarrow> cgiurldecode (CHR ''%'' # hex_digits ! (n div 16) # hex_digits ! (n mod 16) # q) =
     (let c = (if n = 160 then 32 else n) in if c \<noteq> 0 \<and> c \<noteq> 13 then char_of c # cgiurldecode q else cgiurldecode q)"
  by (simp add: cgiurldecode.simps(2) nybble_hex_digit Let_def)

lemma cgiurldecode_fill:
  assumes "{CHR ''+'', CHR ''%''} \<subseteq> set punct" "cstring s"
  shows "cgiurldecode (url_fill punct s @ r) = cgi_text s @ cgiurldecode r"
  using assms(2)
proof (induction s)
  case (Cons c s)
  then have IH: "cgiurldecode (url_fill punct s @ r) = cgi_text s @ cgiurldecode r" and c: "c \<noteq> nul"
    by (auto simp: cstring_def)
  show ?case
  proof (cases "url_special punct c")
    case True
    have "char_of (32 :: nat) = sp" by (simp add: char_eq_code)
    moreover have "code c = 0 \<longleftrightarrow> c = nul" "code c = 13 \<longleftrightarrow> c = cr" "code c = 160 \<longleftrightarrow> c = nbsp"
      by (auto simp: char_eq_code)
    ultimately show ?thesis
      using True c cgiurldecode_percent [of "code c" "url_fill punct s @ r"] IH code_less_256 [of c] by auto
  next
    case False
    from url_char_plain [OF this assms(1)] show ?thesis
      using False IH by (simp add: cgiurldecode.simps(2))
  qed
qed simp

lemma url_count_fill: "length (url_fill punct s) = url_count punct s"
  by (induction s) auto

lemma cgiurlencode_common: "cgiurlencode_common s punct = Some (url_fill punct s)"
  by (simp add: cgiurlencode_common_def url_count_fill)


text \<open>What the encoding leaves in the string: no separators.\<close>

lemma url_fill_chars:
  assumes "c \<in> set (url_fill punct s)"
  shows "c \<notin> set punct - {CHR ''%'', CHR ''+''}  \<or> c \<in> set hex_digits"
  using assms
proof (induction s)
  case (Cons d s)
  have "code d div 16 < length hex_digits" "code d mod 16 < length hex_digits"
    using code_less_256 [of d] by (simp_all add: hex_digits_def less_mult_imp_div_less)
  with Cons show ?case
    by (auto simp: url_special_def split: if_splits)
qed simp

lemma url_fill_sep:
  "d \<in> {CHR ''&'', CHR ''=''} \<Longrightarrow> d \<notin> set (url_fill url_punct s)"
  using url_fill_chars [of d url_punct s] by (auto simp: url_punct_def hex_digits_def)

subsection \<open>The list of arguments\<close>

definition encode_arg :: "string \<times> string \<Rightarrow> string" where
  "encode_arg = (\<lambda>(n, v). url_fill url_punct n @ CHR ''='' # url_fill url_punct v)"

fun join_args :: "(string \<times> string) list \<Rightarrow> string" where
  "join_args [] = []"
| "join_args [a] = encode_arg a"
| "join_args (a # as) = encode_arg a @ CHR ''&'' # join_args as"

lemma cgi_arg_encode:
  assumes "cstring n" "cstring v"
  shows "cgi_arg (encode_arg (n, v)) = (cgi_text n, cgi_text v)"
proof -
  have "cgiurldecode (url_fill url_punct t) = cgi_text t" if "cstring t" for t
    using cgiurldecode_fill [of url_punct t "[]"] that by (simp add: url_punct_def)
  moreover have "CHR ''='' \<notin> set (url_fill url_punct n)" by (rule url_fill_sep) simp
  then have "takeWhile (\<lambda>c. c \<noteq> CHR ''='') (encode_arg (n, v)) = url_fill url_punct n"
    "dropWhile (\<lambda>c. c \<noteq> CHR ''='') (encode_arg (n, v)) = CHR ''='' # url_fill url_punct v"
    by (simp_all add: encode_arg_def)
  ultimately show ?thesis using assms by (simp add: cgi_arg_def)
qed

lemma encode_arg_amp: "CHR ''&'' \<notin> set (encode_arg a)"
  using url_fill_sep [of "CHR ''&''"] by (auto simp: encode_arg_def split: prod.split)

lemma encode_arg_ne [simp]: "encode_arg a \<noteq> []"
  by (simp add: encode_arg_def split: prod.split)

lemma cgi_parse_one: "CHR ''&'' \<notin> set p \<Longrightarrow> p \<noteq> [] \<Longrightarrow> cgi_parse p l = cgi_arg p # l"
proof -
  assume "CHR ''&'' \<notin> set p" "p \<noteq> []"
  then show ?thesis by (simp add: cgi_parse.simps [of p] cgi_parse.simps [of "[]"] Let_def)
qed

lemma cgi_parse_more:
  "CHR ''&'' \<notin> set p \<Longrightarrow> cgi_parse (p @ CHR ''&'' # q) l = cgi_parse q (cgi_arg p # l)"
proof -
  assume "CHR ''&'' \<notin> set p"
  then show ?thesis by (simp add: cgi_parse.simps [of "p @ CHR ''&'' # q"] Let_def)
qed

lemma cgi_parse_join:
  "\<forall>(n, v) \<in> set as. cstring n \<and> cstring v \<Longrightarrow>
    cgi_parse (join_args as) l = rev (map (\<lambda>(n, v). (cgi_text n, cgi_text v)) as) @ l"
proof (induction as arbitrary: l rule: join_args.induct)
  case 1
  show ?case by (simp add: cgi_parse.simps)
next
  case (2 a)
  then show ?case by (cases a) (simp add: cgi_parse_one encode_arg_amp cgi_arg_encode)
next
  case (3 a b as)
  then show ?case by (cases a) (simp add: cgi_parse_more encode_arg_amp cgi_arg_encode)
qed

subsection \<open>Values of one name\<close>

text \<open>The values of a name, in the order they were sent, which is the list from its end.\<close>

definition sent_values :: "arglist \<Rightarrow> string \<Rightarrow> string list" where
  "sent_values l arg = map snd (filter (\<lambda>a. fst a = arg) (rev l))"

lemma multiple_size: "multiple_size l arg sep = 1 + (\<Sum>v \<leftarrow> sent_values l arg. length v + length sep)"
proof -
  have "foldl (\<lambda>n a. if fst a = arg then n + (length (snd a) + length sep) else n) k l =
      k + (\<Sum>v \<leftarrow> sent_values l arg. length v + length sep)" for k
    by (induction l arbitrary: k) (auto simp: sent_values_def)
  then show ?thesis by (simp add: multiple_size_def)
qed

text \<open>Empty values at the beginning leave no separator.\<close>

fun join_values :: "string \<Rightarrow> string list \<Rightarrow> string" where
  "join_values sep [] = []"
| "join_values sep (v # vs) = (if v = [] then join_values sep vs else v @ concat (map (\<lambda>w. sep @ w) vs))"

lemma fill_values: "multiple_fill l arg sep = join_values sep (sent_values l arg)"
proof -
  have ne: "b \<noteq> [] \<Longrightarrow> foldl (\<lambda>b v. b @ (if b = [] then [] else sep) @ v) b vs = b @ concat (map (\<lambda>w. sep @ w) vs)"
    for b sep :: string and vs
    by (induction vs arbitrary: b) auto
  have "foldl (\<lambda>b v. b @ (if b = [] then [] else sep) @ v) [] vs = join_values sep vs" for vs
    by (induction sep vs rule: join_values.induct) (auto simp: ne)
  moreover have "multiple_fill l arg sep = foldl (\<lambda>b v. b @ (if b = [] then [] else sep) @ v) [] (sent_values l arg)"
  proof -
    have "foldl (\<lambda>b a. if fst a = arg then b @ (if b = [] then [] else sep) @ snd a else b) b l =
        foldl (\<lambda>b v. b @ (if b = [] then [] else sep) @ v) b (map snd (filter (\<lambda>a. fst a = arg) l))" for b l
      by (induction l arbitrary: b) auto
    then show ?thesis by (simp add: multiple_fill_def sent_values_def foldr_conv_foldl)
  qed
  ultimately show ?thesis by simp
qed

lemma join_values_length: "length (join_values sep vs) \<le> (\<Sum>v \<leftarrow> vs. length v + length sep)"
proof -
  have "length (concat (map (\<lambda>w. sep @ w) vs)) = (\<Sum>v \<leftarrow> vs. length v + length sep)" for vs
    by (induction vs) auto
  then show ?thesis by (induction sep vs rule: join_values.induct) (auto simp del: length_concat)
qed


text \<open>Putting an argument: it is the one looked up, and the others stay.\<close>

lemma cgi_simps [simp]: "cgi [] m = []" "cgi (a # l) m = (if fst a = m then snd a else cgi l m)"
  by (simp_all add: cgi_def)

lemma put_value_cgi: "put_value l n v = Some l' \<Longrightarrow> cgi l' m = (if m = n then v else cgi l m)"
  by (induction l n v arbitrary: l' rule: put_value.induct) (auto split: if_splits)

lemma cgi_put_cgi: "cgi (cgi_put l n v) m = (if m = n then v else cgi l m)"
  by (cases "put_value l n v") (auto simp: cgi_put_def put_value_cgi)

interpretation url: codec cgiurlencode "\<lambda>e. map_option cgiurldecode e" "\<lambda>s. cstring s \<and> cr \<notin> set s \<and> nbsp \<notin> set s"
proof
  fix s :: string
  assume s: "cstring s \<and> cr \<notin> set s \<and> nbsp \<notin> set s"
  then have "cgi_text s = s" by (induction s) (auto simp: cstring_def)
  with s show "map_option cgiurldecode (cgiurlencode s) = Some s"
    using cgiurldecode_fill [of url_punct s "[]"] by (simp add: cgiurlencode_def cgiurlencode_common url_punct_def)
qed

text \<open>
  C1. URL encoding fills its buffer exactly, and what is decoded again is the text without carriage returns and
  with no-break spaces as spaces, for each of the three encoders. Texts without either are told apart by their
  encodings.
\<close>

theorem cgiurl_roundtrip:
  assumes "cstring s" "cstring t"
  shows "(\<exists>e. cgiurlencode s = Some e \<and> length e = url_count url_punct s \<and> cgiurldecode e = cgi_text s) \<and>
    (\<exists>e. cgiurlencode_noamp s = Some e \<and> cgiurldecode e = cgi_text s) \<and>
    (\<exists>e. cgiurlencode_noeq s = Some e \<and> cgiurldecode e = cgi_text s) \<and>
    (cr \<notin> set (s @ t) \<and> nbsp \<notin> set (s @ t) \<longrightarrow> (cgiurlencode s = cgiurlencode t \<longleftrightarrow> s = t))"
  using cgiurldecode_fill [of url_punct s "[]"] cgiurldecode_fill [of url_punct_noamp s "[]"]
    cgiurldecode_fill [of url_punct_noeq s "[]"] url.enc_inject [of s t] assms
  by (simp add: cgiurlencode_def cgiurlencode_noamp_def cgiurlencode_noeq_def cgiurlencode_common url_count_fill
      url_punct_def url_punct_noamp_def url_punct_noeq_def)

lemma cgiurl_roundtrip_witness:
  "cgiurlencode ''a&b c'' = Some ''a%26b+c'' \<and> (\<exists>e. cgiurlencode ''a&b c'' = Some e \<and> cgiurldecode e = ''a&b c'') \<and>
   cgiurlencode ''a&b c'' \<noteq> cgiurlencode ''a&b+c''"
proof (intro conjI)
  have c: "cstring ''a&b c''" "cstring ''a&b+c''" by (simp_all add: cstring_def)
  show "cgiurlencode ''a&b c'' = Some ''a%26b+c''" by code_simp
  show "\<exists>e. cgiurlencode ''a&b c'' = Some e \<and> cgiurldecode e = ''a&b c''"
    using cgiurl_roundtrip [OF c] by auto
  show "cgiurlencode ''a&b c'' \<noteq> cgiurlencode ''a&b+c''"
    using cgiurl_roundtrip [OF c] by simp
qed

text \<open>
  C40. A query made of encoded names and values is parsed into the list of its arguments, decoded, the last one
  first; \<open>cgi\<close> gives the last value of a name and \<open>cgi_multiple\<close> all its values in the order they were sent, in a buffer that
  is large enough for any separator. An argument that is put is the one found from then on, the others stay.
\<close>

theorem cgi_query:
  assumes "\<forall>(n, v) \<in> set as. cstring n \<and> cstring v"
  defines "l \<equiv> cgi_parse (join_args as) []"
  shows "l = rev (map (\<lambda>(n, v). (cgi_text n, cgi_text v)) as) \<and>
    (\<forall>n. cgi l n = (case filter (\<lambda>(m, v). cgi_text m = n) as of [] \<Rightarrow> [] | as' \<Rightarrow> cgi_text (snd (last as')))) \<and>
    (\<forall>n sep. cgi_multiple l n sep =
       Some (join_values sep (map (\<lambda>(m, v). cgi_text v) (filter (\<lambda>(m, v). cgi_text m = n) as)))) \<and>
    (\<forall>m v n. cgi (cgi_put l m v) n = (if n = m then v else cgi l n))"
proof -
  have l: "l = rev (map (\<lambda>(n, v). (cgi_text n, cgi_text v)) as)"
    using cgi_parse_join [OF assms(1), of "[]"] by (simp add: l_def)
  have "cgi l n = (case filter (\<lambda>(m, v). cgi_text m = n) as of [] \<Rightarrow> [] | as' \<Rightarrow> cgi_text (snd (last as')))" for n
    unfolding l by (induction as rule: rev_induct) (auto simp: cgi_def split: list.splits)
  moreover have "cgi_multiple l n sep =
      Some (join_values sep (map (\<lambda>(m, v). cgi_text v) (filter (\<lambda>(m, v). cgi_text m = n) as)))" for n sep
  proof -
    have "sent_values l n = map (\<lambda>(m, v). cgi_text v) (filter (\<lambda>(m, v). cgi_text m = n) as)"
      unfolding l sent_values_def by (induction as) auto
    then show ?thesis
      using join_values_length [of sep "sent_values l n"]
      by (simp add: cgi_multiple_def Let_def multiple_size fill_values)
  qed
  ultimately show ?thesis using l cgi_put_cgi by blast
qed

lemma cgi_query_witness:
  "cgi (cgi_parse (join_args [(''f'', ''x y''), (''g'', ''=&''), (''f'', ''z'')]) []) ''f'' = ''z'' \<and>
   cgi_multiple (cgi_parse (join_args [(''f'', ''x y''), (''g'', ''=&''), (''f'', ''z'')]) []) ''f'' '', '' = Some ''x y, z''"
proof -
  let ?as = "[(''f'', ''x y''), (''g'', ''=&''), (''f'', ''z'')]"
  have "\<forall>(n, v) \<in> set ?as. cstring n \<and> cstring v" by (simp add: cstring_def)
  note query = cgi_query [OF this]
  have "cgi (cgi_parse (join_args ?as) []) ''f'' =
      (case filter (\<lambda>(m, v). cgi_text m = ''f'') ?as of [] \<Rightarrow> [] | as' \<Rightarrow> cgi_text (snd (last as')))"
    using query by blast
  also have "\<dots> = ''z''" by code_simp
  finally have "cgi (cgi_parse (join_args ?as) []) ''f'' = ''z''" .
  moreover have "cgi_multiple (cgi_parse (join_args ?as) []) ''f'' '', '' =
      Some (join_values '', '' (map (\<lambda>(m, v). cgi_text v) (filter (\<lambda>(m, v). cgi_text m = ''f'') ?as)))"
    using query by blast
  moreover have "join_values '', '' (map (\<lambda>(m, v). cgi_text v) (filter (\<lambda>(m, v). cgi_text m = ''f'') ?as)) = ''x y, z''"
    by code_simp
  ultimately show ?thesis by simp
qed

end
