(* ===== verification/Html_Filter.thy ===== *)
theory Html_Filter
  imports Cgi_Args
begin

text \<open>
  The filter the web mail applies to HTML messages (\<^verbatim>\<open>sqwebmail/html.c\<close>), with the joining of URLs it uses
  (\<^verbatim>\<open>rfc2045/rfc2045appendurl.c\<close>). The filter is a state machine over the bytes of the message; it collects a tag in
  \<^verbatim>\<open>tagbuf\<close>, which grows in steps of 256 bytes and takes nothing more once it has 1024, splits it into attributes and rewrites
  it in place. A byte of the buffer that was never written is \<open>None\<close>. Pointers into the buffer are offsets. The
  result of an operation is \<open>None\<close> where the code reads what was never written, past the end of a buffer or through a null pointer.
\<close>

subsection \<open>URLs\<close>

definition get_method_path :: "string \<Rightarrow> string \<times> string" where
  "get_method_path p =
     (let i = length (takeWhile isalpha p)
      in if i < length p \<and> p ! i = CHR '':'' then (take (i + 1) p, drop (i + 1) p) else ([], p))"

definition rfc2045_append_url :: "string option \<Rightarrow> string \<Rightarrow> string" where
  "rfc2045_append_url base loc =
     (let (base_method, base_path) = (case base of None \<Rightarrow> ([], []) | Some b \<Rightarrow> get_method_path b);
          (loc_method, loc_path) = get_method_path loc
      in if loc_method \<noteq> [] then loc
         else
           let q = base_path @ ''/'';
               r = takeWhile (\<lambda>c. c \<noteq> CHR ''/'') (drop 2 q);
               q = (if take 1 loc_path = ''/'' then
                      if take 2 loc_path = ''//'' then []
                      else if take 2 q = ''//'' \<and> length r < length (drop 2 q) then take (2 + length r) q
                      else []
                    else q)
           in base_method @ q @ loc_path)"

subsection \<open>Character references\<close>

text \<open>
  \<open>decodehtmlchar\<close> on what is left of the buffer, its terminator included. A numeric reference takes every other digit: the loop
  advances twice.
\<close>

function html_number :: "string \<Rightarrow> 32 word \<Rightarrow> (32 word \<times> string) option" where
  "html_number [] c = None"
| "html_number (d # p) c =
     (if isdigit d then html_number (drop 1 p) (c * 10 + word_of_nat (digit_val d)) else Some (c, d # p))"
  by pat_completeness auto
termination
  by (relation "measure (\<lambda>(p, c). length p)") auto

lemma html_number_length: "html_number p c = Some (n, p') \<Longrightarrow> length p' \<le> length p"
  by (induction p c rule: html_number.induct) (auto split: if_splits)

definition html_entity :: "string \<Rightarrow> string" where
  "html_entity p =
     (if take 4 p = ''&lt;'' then ''<'' else if take 4 p = ''&gt;'' then ''>''
      else if take 5 p = ''&amp;'' then ''&'' else if take 6 p = ''&quot;'' then [dquote] else [])"

definition html_reference :: "string \<Rightarrow> (string \<times> string) option" where
  "html_reference p =
     (if take 1 (drop 1 p) = ''#'' then
        (case html_number (drop 2 p) 0 of
           None \<Rightarrow> None
         | Some (c, p) \<Rightarrow>
             Some (if take_bit 8 c = 0 then [] else [char_of (unat (take_bit 8 c))], if take 1 p = '';'' then drop 1 p else p))
      else Some ([], p))"

lemma html_reference_length: "html_reference p = Some (n, r) \<Longrightarrow> length r \<le> length p"
  by (auto simp: html_reference_def split: if_splits option.splits dest!: html_number_length)

function decodehtmlchar_loop :: "string \<Rightarrow> string option" where
  "decodehtmlchar_loop [] = None"
| "decodehtmlchar_loop (c # p) =
     (if c = nul then Some []
      else if c \<noteq> CHR ''&'' then map_option ((#) c) (decodehtmlchar_loop p)
      else
        case html_reference (c # p) of
          None \<Rightarrow> None
        | Some (num, r) \<Rightarrow>
            let i = 1 + length (takeWhile isalpha (drop 1 r))
            in if length r \<le> i then None
               else if r ! i \<noteq> CHR '';'' then map_option ((@) (num @ [hd r])) (decodehtmlchar_loop (tl r))
               else
                 let j = length (takeWhile (\<lambda>c. c \<noteq> CHR '';'') r);
                     r = map tolower (take j r) @ drop j r
                 in map_option ((@) (num @ html_entity r)) (decodehtmlchar_loop (drop (j + 1) r)))"
  by pat_completeness auto
termination
  by (relation "measure length"; clarsimp) (fastforce dest!: html_reference_length)+

declare decodehtmlchar_loop.simps [simp del]

text \<open>The string the buffer holds after decoding in place.\<close>

definition decodehtmlchar :: "string \<Rightarrow> string option" where
  "decodehtmlchar s = map_option (takeWhile (\<lambda>c. c \<noteq> nul)) (decodehtmlchar_loop (s @ [nul]))"

subsection \<open>The tag buffer\<close>

record html_buf =
  bmem :: "char option list"
  blen :: nat

definition addtagbuf :: "char \<Rightarrow> html_buf \<Rightarrow> html_buf" where
  "addtagbuf c b =
     (if 1024 \<le> length (bmem b) then b
      else
        let m = (if length (bmem b) \<le> blen b then bmem b @ replicate 256 None else bmem b)
        in \<lparr>bmem = m[blen b := Some c], blen = blen b + 1\<rparr>)"

fun buf_text :: "char option list \<Rightarrow> string option" where
  "buf_text [] = None"
| "buf_text (None # m) = None"
| "buf_text (Some c # m) = (if c = nul then Some [] else map_option ((#) c) (buf_text m))"

text \<open>
  The attributes of a tag: where the name, the value and the whole attribute are. The value of an attribute without
  quotes ends up as the empty string at its end. The first attribute is the tag itself.
\<close>

record tagattrinfo =
  atagstart :: nat
  tagnamelen :: nat
  tagvalue :: "nat option"
  tagvaluelen :: nat
  ataglen :: nat

definition parse_one :: "nat \<Rightarrow> string \<Rightarrow> tagattrinfo" where
  "parse_one i p =
     (let n = length (takeWhile (\<lambda>c. \<not> isspace c \<and> c \<noteq> CHR ''='') p); q = drop n p
      in if take 1 q \<noteq> ''='' then
           \<lparr>atagstart = i, tagnamelen = n, tagvalue = None, tagvaluelen = 0, ataglen = n\<rparr>
         else
           let q = drop 1 q
           in if take 1 q = [dquote] \<or> take 1 q = [CHR 0x27] then
                let v = length (takeWhile (\<lambda>c. c \<noteq> hd q) (tl q));
                    k = 1 + v + (if v < length (tl q) then 1 else 0)
                in \<lparr>atagstart = i, tagnamelen = n, tagvalue = Some (i + n + 2), tagvaluelen = v, ataglen = n + 1 + k\<rparr>
              else
                let k = length (takeWhile (\<lambda>c. \<not> isspace c) q)
                in \<lparr>atagstart = i, tagnamelen = n, tagvalue = Some (i + n + 1 + k), tagvaluelen = 0, ataglen = n + 1 + k\<rparr>)"

lemma skipspace_hd: "skipspace s \<noteq> [] \<Longrightarrow> \<not> isspace (hd (skipspace s))"
  by (simp add: skipspace_def hd_dropWhile)

lemma parse_one_pos: "p \<noteq> [] \<Longrightarrow> \<not> isspace (hd p) \<Longrightarrow> 0 < ataglen (parse_one i p)"
  by (cases p) (auto simp: parse_one_def Let_def)

function parseattr :: "nat \<Rightarrow> string \<Rightarrow> tagattrinfo list" where
  "parseattr i s =
     (let p = skipspace s; i = i + (length s - length p)
      in if p = [] then []
         else let a = parse_one i p in a # parseattr (i + ataglen a) (drop (ataglen a) p))"
  by pat_completeness auto
termination
proof (relation "measure (\<lambda>(i, s). length s)"; clarsimp simp: Let_def)
  fix i and s :: string
  assume "skipspace s \<noteq> []"
  with parse_one_pos [OF this skipspace_hd [OF this]] length_skipspace [of s]
  show "length (skipspace s) - ataglen (parse_one i (skipspace s)) < length s"
    by (meson diff_less length_greater_0_conv order_less_le_trans)
qed

declare parseattr.simps [simp del]

definition parsetagbuf :: "html_buf \<Rightarrow> (html_buf \<times> tagattrinfo list) option" where
  "parsetagbuf b =
     (case buf_text (bmem b) of
        None \<Rightarrow> None
      | Some t \<Rightarrow>
          let t = map (\<lambda>c. if c = CHR ''<'' then sp else c) t
          in Some (b\<lparr>bmem := map Some t @ drop (length t) (bmem b)\<rparr>, parseattr 0 t))"

text \<open>The string in the buffer, once it is known that there is one.\<close>

definition tag_text :: "html_buf \<Rightarrow> string" where
  "tag_text b = the (buf_text (bmem b))"

definition attr_name :: "html_buf \<Rightarrow> tagattrinfo \<Rightarrow> string" where
  "attr_name b a = take (tagnamelen a) (drop (atagstart a) (tag_text b))"

definition attr_value :: "html_buf \<Rightarrow> tagattrinfo \<Rightarrow> string" where
  "attr_value b a = (case tagvalue a of None \<Rightarrow> [] | Some v \<Rightarrow> take (tagvaluelen a) (drop v (tag_text b)))"

definition is_attr :: "html_buf \<Rightarrow> tagattrinfo \<Rightarrow> string \<Rightarrow> bool" where
  "is_attr b a l \<longleftrightarrow> strcaseeq (attr_name b a) l"

definition is_htmltag :: "html_buf \<times> tagattrinfo list \<Rightarrow> string \<Rightarrow> bool" where
  "is_htmltag = (\<lambda>(b, as) l. as \<noteq> [] \<and> is_attr b (hd as) l)"

definition is_valuestart :: "string \<Rightarrow> string \<Rightarrow> bool" where
  "is_valuestart v l \<longleftrightarrow> caseprefix l (skipspace v)"

definition find_tag :: "html_buf \<times> tagattrinfo list \<Rightarrow> string \<Rightarrow> nat" where
  "find_tag = (\<lambda>(b, as) tagname.
     case find (\<lambda>l. is_attr b (as ! l) tagname) [1..<length as] of None \<Rightarrow> 0 | Some l \<Rightarrow> l)"

text \<open>\<^verbatim>\<open>memset(atagstart, ' ', ataglen)\<close>.\<close>

definition blank_attr :: "tagattrinfo \<Rightarrow> html_buf \<Rightarrow> html_buf" where
  "blank_attr a b =
     b\<lparr>bmem := take (atagstart a) (bmem b) @ replicate (ataglen a) (Some sp) @ drop (atagstart a + ataglen a) (bmem b)\<rparr>"

subsection \<open>Rewriting links\<close>

record html_conf =
  washlink :: "string option"
  washlinkmailto :: "string option"
  contentbase :: "string option"
  convertcid :: "(string \<Rightarrow> string) option"

definition replacelink :: "nat \<Rightarrow> string \<Rightarrow> html_buf \<times> tagattrinfo list \<Rightarrow> (html_buf \<times> tagattrinfo list) option" where
  "replacelink l p = (\<lambda>(b, as).
     if length as \<le> l then None
     else
       case tagvalue (as ! l) of
         None \<Rightarrow> None
       | Some v \<Rightarrow>
           let newbuf = take v (tag_text b) @ p @ drop (v + tagvaluelen (as ! l)) (tag_text b)
           in parsetagbuf (fold addtagbuf (newbuf @ [nul]) (b\<lparr>blen := 0\<rparr>)))"

definition redirectencode :: "string \<Rightarrow> string option" where
  "redirectencode p = (case decodehtmlchar p of None \<Rightarrow> None | Some q \<Rightarrow> cgiurlencode q)"

definition dowashlink :: "string \<Rightarrow> nat \<Rightarrow> string \<Rightarrow> html_buf \<times> tagattrinfo list \<Rightarrow> (html_buf \<times> tagattrinfo list) option" where
  "dowashlink wash l val st =
     (case redirectencode val of None \<Rightarrow> None | Some url \<Rightarrow> replacelink l (wash @ url) st)"

definition wash_or_replace :: "html_conf \<Rightarrow> nat \<Rightarrow> string \<Rightarrow> html_buf \<times> tagattrinfo list \<Rightarrow> (html_buf \<times> tagattrinfo list) option" where
  "wash_or_replace conf l q st = (case washlink conf of Some w \<Rightarrow> dowashlink w l q st | None \<Rightarrow> replacelink l q st)"

definition mailto_query :: "string \<Rightarrow> string" where
  "mailto_query s =
     (let r = dropWhile (\<lambda>c. c \<noteq> CHR ''?'') s
      in if r = [] then s else takeWhile (\<lambda>c. c \<noteq> CHR ''?'') s @ CHR ''&'' # tl r)"

definition dowashlinkmailto ::
    "html_conf \<Rightarrow> nat \<Rightarrow> string \<Rightarrow> html_buf \<times> tagattrinfo list \<Rightarrow> (html_buf \<times> tagattrinfo list) option" where
  "dowashlinkmailto conf l mailtolink st =
     (case washlinkmailto conf of None \<Rightarrow> None | Some w \<Rightarrow> replacelink l (w @ mailto_query mailtolink) st)"

definition dowashcid :: "html_conf \<Rightarrow> nat \<Rightarrow> string \<Rightarrow> html_buf \<times> tagattrinfo list \<Rightarrow> (html_buf \<times> tagattrinfo list) option" where
  "dowashcid conf l link st = replacelink l (case convertcid conf of None \<Rightarrow> [] | Some f \<Rightarrow> f (drop 4 link)) st"

text \<open>The URL of an attribute, cut where someone is \<^emph>\<open>playing games\<close>.\<close>

definition link_url :: "html_conf \<Rightarrow> string \<Rightarrow> string" where
  "link_url conf v =
     takeWhile (\<lambda>c. c \<notin> {dquote, CHR ''<'', CHR ''>''}) (rfc2045_append_url (contentbase conf) v)"

subsection \<open>A tag\<close>

text \<open>What is passed to the output function, with the place it comes from.\<close>

datatype html_site = In_text | In_comment | In_tag | In_link

type_synonym html_out = "(html_site \<times> string) list"

definition blocked_tags :: "string list" where
  "blocked_tags =
     [''TITLE'', ''/TITLE'', ''SCRIPT'', ''/SCRIPT'', ''FRAME'', ''/FRAME'', ''IFRAME'', ''/IFRAME'', ''APP'', ''/APP'',
      ''APPLET'', ''/APPLET'', ''SERVER'', ''/SERVER'', ''OBJECT'', ''/OBJECT'', ''HTML'', ''/HTML'', ''HEAD'', ''/HEAD'',
      ''BODY'', ''/BODY'', ''LINK'', ''META'']"

definition blank_on :: "html_buf \<times> tagattrinfo list \<Rightarrow> html_buf" where
  "blank_on = (\<lambda>(b, as).
     fold (\<lambda>a b. if 2 < tagnamelen a \<and> caseprefix ''ON'' (attr_name b a) then blank_attr a b else b) (tl as) b)"

definition img_out ::
    "html_conf \<Rightarrow> nat \<Rightarrow> nat \<Rightarrow> html_buf \<times> tagattrinfo list \<Rightarrow> ((html_buf \<times> tagattrinfo list) \<times> html_out) option" where
  "img_out conf nsrc nalt = (\<lambda>(b, as).
     let q = link_url conf (attr_value b (as ! nsrc));
         alt = (if nalt \<noteq> 0 then Some (attr_value b (as ! nalt)) else None)
     in case wash_or_replace conf nsrc q (b, as) of
          None \<Rightarrow> None
        | Some (b, as) \<Rightarrow>
            if length as \<le> nsrc then None
            else Some ((b, as),
              [(In_link, ''<A TARGET='' @ [dquote] @ ''_blank'' @ [dquote] @ '' HREF='' @ [dquote]),
               (In_link, attr_value b (as ! nsrc)), (In_link, [dquote, CHR ''>''])] @
              (case alt of Some t \<Rightarrow> [(In_link, t)] | None \<Rightarrow> [(In_link, ''[''), (In_link, q), (In_link, '']'')]) @
              [(In_link, ''</A>'')]))"

text \<open>An attribute with a link: the new state, and whether the link is good and opens a window.\<close>

definition wash_attr ::
    "html_conf \<Rightarrow> nat \<Rightarrow> html_buf \<times> tagattrinfo list \<Rightarrow> ((html_buf \<times> tagattrinfo list) \<times> bool \<times> bool) option" where
  "wash_attr conf l = (\<lambda>(b, as).
     let q = link_url conf (attr_value b (as ! l))
     in if CHR '':'' \<notin> set q then Some ((b, as), False, False)
        else if is_valuestart q ''cid:'' then map_option (\<lambda>st. (st, True, False)) (dowashcid conf l q (b, as))
        else if (is_valuestart q ''http:'' \<or> is_valuestart q ''https:'') \<and> is_attr b (as ! l) ''href'' then
          map_option (\<lambda>st. (st, True, is_htmltag st ''A'')) (wash_or_replace conf l q (b, as))
        else if is_valuestart q ''mailto:'' then
          map_option (\<lambda>st. (st, True, False))
            (dowashlinkmailto conf l (tl (dropWhile (\<lambda>c. c \<noteq> CHR '':'') q)) (b, as))
        else if is_valuestart q ''ftp:'' \<or> is_valuestart q ''gopher:'' \<or> is_valuestart q ''wais:'' \<or> is_valuestart q ''telnet:''
        then Some ((b, as), True, is_htmltag (b, as) ''A'')
        else Some ((b, as), False, False))"

definition drops_attr :: "html_buf \<times> tagattrinfo list \<Rightarrow> nat \<Rightarrow> bool" where
  "drops_attr = (\<lambda>(b, as) l.
     is_attr b (as ! l) ''target'' \<or> is_attr b (as ! l) ''code'' \<or> is_attr b (as ! l) ''language'' \<or>
     is_attr b (as ! l) ''action'' \<or> (is_attr b (as ! l) ''type'' \<and> \<not> is_htmltag (b, as) ''BLOCKQUOTE'') \<or>
     is_attr b (as ! l) ''codetype'')"

definition attr_step ::
    "html_conf \<Rightarrow> nat \<Rightarrow> html_buf \<times> tagattrinfo list \<Rightarrow> ((html_buf \<times> tagattrinfo list) \<times> bool) option" where
  "attr_step conf l = (\<lambda>(b, as).
     let b = (if drops_attr (b, as) l then blank_attr (as ! l) b else b)
     in if is_attr b (as ! l) ''href'' \<or> is_attr b (as ! l) ''src'' \<or> is_attr b (as ! l) ''lowsrc'' then
          (case wash_attr conf l (b, as) of
             None \<Rightarrow> None
           | Some ((b, as), goodhref, open_window) \<Rightarrow>
               if goodhref then Some ((b, as), open_window)
               else if length as \<le> l then None else Some ((blank_attr (as ! l) b, as), open_window))
        else Some ((b, as), False))"

text \<open>
  The loop over the attributes. Their number changes when a link is replaced; the buffer has at most 1024 bytes, so
  1280 rounds are enough (\<open>attr_loop_enough\<close> below).
\<close>

fun attr_loop ::
    "nat \<Rightarrow> html_conf \<Rightarrow> nat \<Rightarrow> bool \<Rightarrow> html_buf \<times> tagattrinfo list \<Rightarrow> ((html_buf \<times> tagattrinfo list) \<times> bool) option" where
  "attr_loop 0 conf l w st = None"
| "attr_loop (Suc n) conf l w st =
     (if length (snd st) \<le> l then Some (st, w)
      else case attr_step conf l st of None \<Rightarrow> None | Some (st, w') \<Rightarrow> attr_loop n conf (l + 1) (w \<or> w') st)"

definition tag_out :: "bool \<Rightarrow> html_buf \<Rightarrow> html_out" where
  "tag_out open_window b =
     [(In_tag, ''<''), (In_tag, tag_text b)] @
     (if open_window then [(In_tag, '' target='' @ [dquote] @ ''_blank'' @ [dquote])] else []) @ [(In_tag, ''>'')]"

text \<open>An image with a \<^verbatim>\<open>cid:\<close> URL is passed on when they are converted.\<close>

definition cid_image :: "html_conf \<Rightarrow> string \<Rightarrow> bool" where
  "cid_image conf v \<longleftrightarrow> convertcid conf \<noteq> None \<and> caseprefix ''cid:'' (skipspace v)"

definition filtered_tag ::
    "html_conf \<Rightarrow> 32 word \<Rightarrow> html_buf \<Rightarrow> (32 word \<times> html_buf \<times> html_out) option" where
  "filtered_tag conf instyletag b =
     (case parsetagbuf (addtagbuf nul b) of
        None \<Rightarrow> None
      | Some st \<Rightarrow>
          if list_ex (is_htmltag st) blocked_tags then Some (instyletag, fst st, [])
          else if is_htmltag st ''STYLE'' then Some (instyletag + 1, fst st, [])
          else if is_htmltag st ''/STYLE'' then Some (instyletag - 1, fst st, [])
          else if instyletag \<noteq> 0 then Some (instyletag, fst st, [])
          else
            let st = (blank_on st, snd st);
                rest = (\<lambda>st out.
                  case attr_loop 1280 conf 1 False st of
                    None \<Rightarrow> None
                  | Some ((b, as), open_window) \<Rightarrow> Some (instyletag, b, out @ tag_out open_window b))
            in if is_htmltag st ''IMG'' then
                 let nsrc = find_tag st ''src''; nalt = find_tag st ''alt''
                 in if nsrc \<noteq> 0 \<and> cid_image conf (attr_value (fst st) (snd st ! nsrc)) then rest st []
                    else if nsrc \<noteq> 0 then
                      map_option (\<lambda>((b, as), out). (instyletag, b, out)) (img_out conf nsrc nalt st)
                    else Some (instyletag, fst st, [])
               else rest st [])"

subsection \<open>The state machine\<close>

datatype htmlstate = intext | seenlt | seenltbang | seenltbangdash | intag | incomment | incommentseendash | incommentseendashdash

record html_filter =
  cur_state :: htmlstate
  instyletag :: "32 word"
  tagbuf :: html_buf

text \<open>
  One byte: the state, the bytes of the chunk since \<^verbatim>\<open>start\<close>, and the output.
\<close>

definition intag_byte ::
    "html_conf \<Rightarrow> char \<Rightarrow> html_filter \<times> string \<times> html_out \<Rightarrow> (html_filter \<times> string \<times> html_out) option" where
  "intag_byte conf c = (\<lambda>(f, pend, out).
     let f = f\<lparr>cur_state := intag\<rparr>
     in if c = CHR ''>'' then
          (case filtered_tag conf (instyletag f) (tagbuf f) of
             None \<Rightarrow> None
           | Some (n, b, out') \<Rightarrow> Some (f\<lparr>cur_state := intext, instyletag := n, tagbuf := b\<rparr>, [], out @ out'))
        else Some (f\<lparr>tagbuf := addtagbuf c (tagbuf f)\<rparr>, pend @ [c], out))"

definition unless_style :: "html_filter \<Rightarrow> html_out \<Rightarrow> html_out" where
  "unless_style f out = (if instyletag f = 0 then out else [])"

definition htmlfilter_byte ::
    "html_conf \<Rightarrow> char \<Rightarrow> html_filter \<times> string \<times> html_out \<Rightarrow> (html_filter \<times> string \<times> html_out) option" where
  "htmlfilter_byte conf c = (\<lambda>(f, pend, out).
     case cur_state f of
       intext \<Rightarrow>
         if c = CHR ''>'' then Some (f, [], out @ [(In_text, pend), (In_text, ''&nbsp;'')])
         else if c \<noteq> CHR ''<'' then Some (f, pend @ [c], out)
         else Some (f\<lparr>cur_state := seenlt, tagbuf := (tagbuf f)\<lparr>blen := 0\<rparr>\<rparr>, pend @ [c],
                out @ unless_style f [(In_text, pend)])
     | seenlt \<Rightarrow>
         if c = CHR ''>'' then Some (f\<lparr>cur_state := intext\<rparr>, [], out @ unless_style f [(In_tag, ''<>'')])
         else if isspace c then Some (f, pend @ [c], out)
         else if c = CHR ''!'' then
           Some (f\<lparr>cur_state := seenltbang, tagbuf := addtagbuf c (tagbuf f)\<rparr>, pend @ [c], out)
         else if c \<noteq> CHR ''/'' \<and> \<not> isalpha c then Some (f\<lparr>cur_state := intext\<rparr>, [], out)
         else Some (f\<lparr>cur_state := intag, tagbuf := addtagbuf c (tagbuf f)\<rparr>, pend @ [c], out)
     | intag \<Rightarrow> intag_byte conf c (f, pend, out)
     | seenltbang \<Rightarrow>
         if c \<noteq> CHR ''-'' then intag_byte conf c (f, pend, out)
         else Some (f\<lparr>cur_state := seenltbangdash, tagbuf := addtagbuf c (tagbuf f)\<rparr>, pend @ [c], out)
     | seenltbangdash \<Rightarrow>
         if c \<noteq> CHR ''-'' then intag_byte conf c (f, pend, out)
         else Some (f\<lparr>cur_state := incomment\<rparr>, [], out @ unless_style f [(In_comment, ''<!--'')])
     | incomment \<Rightarrow>
         Some (if c = CHR ''-'' then f\<lparr>cur_state := incommentseendash\<rparr> else f, pend @ [c], out)
     | incommentseendash \<Rightarrow>
         Some (f\<lparr>cur_state := (if c = CHR ''-'' then incommentseendashdash else incomment)\<rparr>, pend @ [c], out)
     | incommentseendashdash \<Rightarrow>
         if c = CHR ''-'' then Some (f, pend @ [c], out)
         else if c \<noteq> CHR ''>'' then Some (f\<lparr>cur_state := incomment\<rparr>, pend @ [c], out)
         else Some (f\<lparr>cur_state := intext\<rparr>, [], out @ unless_style f [(In_comment, pend @ [c])]))"

text \<open>What is left at the end of a chunk is passed on, unless it is part of a tag.\<close>

definition chunk_end :: "html_filter \<times> string \<times> html_out \<Rightarrow> html_filter \<times> html_out" where
  "chunk_end = (\<lambda>(f, pend, out).
     (f, out @
       (if cur_state f = intext then unless_style f [(In_text, pend)]
        else if cur_state f \<in> {incomment, incommentseendash, incommentseendashdash} then unless_style f [(In_comment, pend)]
        else [])))"

fun htmlfilter_bytes ::
    "html_conf \<Rightarrow> string \<Rightarrow> html_filter \<times> string \<times> html_out \<Rightarrow> (html_filter \<times> string \<times> html_out) option" where
  "htmlfilter_bytes conf [] st = Some st"
| "htmlfilter_bytes conf (c # p) st =
     (case htmlfilter_byte conf c st of None \<Rightarrow> None | Some st \<Rightarrow> htmlfilter_bytes conf p st)"

definition htmlfilter :: "html_conf \<Rightarrow> string \<Rightarrow> html_filter \<Rightarrow> (html_filter \<times> html_out) option" where
  "htmlfilter conf p f = map_option chunk_end (htmlfilter_bytes conf p (f, [], []))"

definition htmlfilter_init :: "html_buf \<Rightarrow> html_filter" where
  "htmlfilter_init b = \<lparr>cur_state = intext, instyletag = 0, tagbuf = b\<rparr>"

text \<open>A message in pieces.\<close>

fun htmlfilter_chunks :: "html_conf \<Rightarrow> string list \<Rightarrow> html_filter \<Rightarrow> (html_filter \<times> html_out) option" where
  "htmlfilter_chunks conf [] f = Some (f, [])"
| "htmlfilter_chunks conf (p # ps) f =
     (case htmlfilter conf p f of
        None \<Rightarrow> None
      | Some (f, out) \<Rightarrow> map_option (apsnd ((@) out)) (htmlfilter_chunks conf ps f))"

subsection \<open>The text in the buffer\<close>

definition holds :: "html_buf \<Rightarrow> string \<Rightarrow> bool" where
  "holds b t \<longleftrightarrow> nul \<notin> set t \<and> (\<exists>r. bmem b = map Some t @ Some nul # r)"

lemma buf_text_iff: "buf_text m = Some t \<longleftrightarrow> nul \<notin> set t \<and> (\<exists>r. m = map Some t @ Some nul # r)"
proof (induction m arbitrary: t rule: buf_text.induct)
  case (2 m)
  then show ?case by (cases t) auto
next
  case (3 c m)
  then show ?case by (cases t) auto
qed auto

lemma holds_text: "holds b t \<longleftrightarrow> buf_text (bmem b) = Some t"
  by (simp add: holds_def buf_text_iff)

lemma tag_text_holds [simp]: "holds b t \<Longrightarrow> tag_text b = t"
  by (simp add: holds_text tag_text_def)

lemma fold_full: "1024 \<le> length (bmem b) \<Longrightarrow> fold addtagbuf s b = b"
  by (induction s) (simp_all add: addtagbuf_def)

text \<open>
  Writing a string and its terminator from the beginning of the buffer: nothing is written to a full buffer, and one that
  becomes full on the way is left without a terminator.
\<close>

lemma addtagbuf_write:
  assumes "length (bmem b) < 1024" "bmem b = map Some w @ r" "blen b = length w"
  obtains r' where "bmem (addtagbuf c b) = map Some (w @ [c]) @ r'" "blen (addtagbuf c b) = length (w @ [c])"
    "1024 \<le> length (bmem (addtagbuf c b)) \<Longrightarrow> r' = replicate 255 None" "length (bmem (addtagbuf c b)) < 1280"
proof (cases r)
  case Nil
  with assms have "bmem (addtagbuf c b) = map Some (w @ [c]) @ replicate 255 None"
    using replicate_Suc [of 255 "None :: char option"] by (simp add: addtagbuf_def Let_def list_update_append eval_nat_numeral)
  with Nil assms show ?thesis by (intro that [of "replicate 255 None"]) (simp_all add: addtagbuf_def)
next
  case (Cons x r')
  with assms have "bmem (addtagbuf c b) = map Some (w @ [c]) @ r'"
    by (simp add: addtagbuf_def Let_def list_update_append)
  with Cons assms show ?thesis by (intro that [of r']) (simp_all add: addtagbuf_def)
qed

lemma fold_write:
  assumes "length (bmem b) < 1024" "bmem b = map Some w @ r" "blen b = length w" "nul \<notin> set (w @ s)"
  shows "holds (fold addtagbuf (s @ [nul]) b) (w @ s) \<or> buf_text (bmem (fold addtagbuf (s @ [nul]) b)) = None"
  using assms
proof (induction s arbitrary: b w r)
  case Nil
  obtain r' where "bmem (addtagbuf nul b) = map Some (w @ [nul]) @ r'"
    using addtagbuf_write [OF Nil(1-3)] by blast
  with Nil(4) have "holds (addtagbuf nul b) w" by (simp add: holds_def)
  then show ?case by simp
next
  case (Cons c s)
  obtain r' where r': "bmem (addtagbuf c b) = map Some (w @ [c]) @ r'" "blen (addtagbuf c b) = length (w @ [c])"
    "1024 \<le> length (bmem (addtagbuf c b)) \<Longrightarrow> r' = replicate 255 None"
    using addtagbuf_write [OF Cons.prems(1-3)] by blast
  show ?case
  proof (cases "1024 \<le> length (bmem (addtagbuf c b))")
    case True
    have "buf_text (map Some u @ replicate 255 None) = None" if "nul \<notin> set u" for u
      using that by (induction u) (auto simp: eval_nat_numeral)
    from this [of "w @ [c]"] True r' Cons.prems(4) have "buf_text (bmem (addtagbuf c b)) = None" by auto
    then show ?thesis using fold_full [OF True, of "s @ [nul]"] by simp
  next
    case False
    with Cons.IH [OF _ r'(1,2)] Cons.prems(4) show ?thesis by simp
  qed
qed

lemma addtagbuf_set: "x \<in> set (bmem (addtagbuf c b)) \<Longrightarrow> x \<in> set (bmem b) \<or> x = Some c \<or> x = None"
  by (auto simp: addtagbuf_def Let_def split: if_splits dest!: set_update_subset_insert [THEN subsetD])

lemma fold_addtagbuf_set: "x \<in> set (bmem (fold addtagbuf s b)) \<Longrightarrow> x \<in> set (bmem b) \<or> x \<in> Some ` set s \<or> x = None"
proof (induction s arbitrary: b)
  case (Cons c s)
  then show ?case using Cons.IH [of "addtagbuf c b"] addtagbuf_set [of x c b] by auto
qed simp

lemma addtagbuf_length: "length (bmem b) < 1280 \<Longrightarrow> length (bmem (addtagbuf c b)) < 1280"
  by (simp add: addtagbuf_def)

lemma fold_addtagbuf_length: "length (bmem b) < 1280 \<Longrightarrow> length (bmem (fold addtagbuf s b)) < 1280"
  by (induction s arbitrary: b) (simp_all add: addtagbuf_length)

subsection \<open>Attributes lie within the tag\<close>

definition attrs_in :: "nat \<Rightarrow> nat \<Rightarrow> tagattrinfo list \<Rightarrow> bool" where
  "attrs_in k n as \<longleftrightarrow> (\<forall>a \<in> set as. k \<le> atagstart a \<and> atagstart a + ataglen a \<le> n \<and>
     (\<forall>v. tagvalue a = Some v \<longrightarrow> atagstart a \<le> v \<and> v + tagvaluelen a \<le> n))"

lemma attrs_in_mono: "attrs_in k n as \<Longrightarrow> k' \<le> k \<Longrightarrow> n \<le> n' \<Longrightarrow> attrs_in k' n' as"
  by (fastforce simp: attrs_in_def)

lemma parse_one_in: "attrs_in i (i + length p) [parse_one i p] \<and> atagstart (parse_one i p) = i"
proof -
  let ?n = "length (takeWhile (\<lambda>c. \<not> isspace c \<and> c \<noteq> CHR ''='') p)"
  have n: "?n \<le> length p" by (rule length_takeWhile_le)
  show ?thesis
  proof (cases "take 1 (drop ?n p) = ''=''")
    case False
    with n show ?thesis by (simp add: attrs_in_def parse_one_def Let_def)
  next
    case True
    then have "drop ?n p \<noteq> []" by auto
    then have m: "?n < length p" by simp
    let ?q = "drop (?n + 1) p"
    have v: "length (takeWhile (\<lambda>c. c \<noteq> hd ?q) (tl ?q)) \<le> length p - (?n + 2)"
      using length_takeWhile_le [of "\<lambda>c. c \<noteq> hd ?q" "tl ?q"] by simp
    have k: "length (takeWhile (\<lambda>c. \<not> isspace c) ?q) \<le> length p - (?n + 1)"
      using length_takeWhile_le [of "\<lambda>c. \<not> isspace c" ?q] by simp
    show ?thesis
    proof (cases "take 1 ?q = [dquote] \<or> take 1 ?q = [CHR 0x27]")
      case quoted: True
      then have "?q \<noteq> []" by auto
      then have "?n + 1 < length p" by simp
      with True m v quoted show ?thesis by (auto simp: attrs_in_def parse_one_def Let_def)
    next
      case False
      with True m k show ?thesis by (simp add: attrs_in_def parse_one_def Let_def)
    qed
  qed
qed

lemma parseattr_in: "attrs_in i (i + length s) (parseattr i s)"
proof (induction i s rule: parseattr.induct)
  case (1 i s)
  let ?p = "skipspace s" and ?i = "i + (length s - length (skipspace s))"
  show ?case
  proof (cases "?p = []")
    case True
    then show ?thesis by (subst parseattr.simps) (simp add: attrs_in_def)
  next
    case False
    let ?a = "parse_one ?i ?p"
    have a: "attrs_in ?i (?i + length ?p) [?a]" "atagstart ?a = ?i" using parse_one_in by auto
    then have "ataglen ?a \<le> length ?p" by (simp add: attrs_in_def)
    then have "attrs_in i (i + length s) (parseattr (?i + ataglen ?a) (drop (ataglen ?a) ?p))"
      using 1 [OF refl refl False refl] length_skipspace [of s] by (elim attrs_in_mono) simp_all
    moreover have "attrs_in i (i + length s) [?a]"
      using a(1) length_skipspace [of s] by (elim attrs_in_mono) simp_all
    ultimately show ?thesis
      using False by (subst parseattr.simps) (simp add: Let_def attrs_in_def)
  qed
qed

lemma parseattr_count: "length (parseattr i s) \<le> length s"
proof (induction i s rule: parseattr.induct)
  case (1 i s)
  let ?p = "skipspace s" and ?i = "i + (length s - length (skipspace s))"
  show ?case
  proof (cases "?p = []")
    case True
    then show ?thesis by (subst parseattr.simps) simp
  next
    case False
    then have "0 < length ?p" by simp
    with 1 [OF refl refl False refl] parse_one_pos [OF False skipspace_hd [OF False], of ?i] length_skipspace [of s]
    have "Suc (length (parseattr (?i + ataglen (parse_one ?i ?p)) (drop (ataglen (parse_one ?i ?p)) ?p))) \<le> length s"
      by (simp only: length_drop)
    with False show ?thesis by (subst parseattr.simps) (simp add: Let_def)
  qed
qed

text \<open>The name of a tag, and a prefix of the tag that settles it.\<close>

definition tag_name :: "string \<Rightarrow> string" where
  "tag_name t = takeWhile (\<lambda>c. \<not> isspace c \<and> c \<noteq> CHR ''='') (skipspace t)"

definition settles :: "nat \<Rightarrow> string \<Rightarrow> string \<Rightarrow> bool" where
  "settles k t n \<longleftrightarrow> k \<le> length t \<and> (\<forall>x. tag_name (take k t @ x) = n)"

lemma settlesI:
  assumes "list_all isspace ws" "list_all (\<lambda>c. \<not> isspace c \<and> c \<noteq> CHR ''='') n" "isspace d \<or> d = CHR ''=''"
    "n \<noteq> [] \<or> \<not> isspace d"
  shows "tag_name (ws @ n @ d # x) = n"
proof -
  have "skipspace (ws @ n @ d # x) = n @ d # x"
    using assms unfolding skipspace_def by (cases n) (auto simp: dropWhile_append2 list_all_iff dropWhile_append)
  moreover have "takeWhile (\<lambda>c. \<not> isspace c \<and> c \<noteq> CHR ''='') (n @ d # x) = n"
    using assms by (subst takeWhile_append2) (auto simp: list_all_iff)
  ultimately show ?thesis by (simp add: tag_name_def)
qed

lemma tag_name_take: "tag_name t = take (tagnamelen (parse_one i (skipspace t))) (skipspace t)"
proof -
  have "tagnamelen (parse_one i p) = length (takeWhile (\<lambda>c. \<not> isspace c \<and> c \<noteq> CHR ''='') p)" for p
    by (simp add: parse_one_def Let_def)
  then show ?thesis by (simp add: tag_name_def takeWhile_eq_take [symmetric])
qed

lemma parseattr_Nil: "skipspace s = [] \<Longrightarrow> parseattr i s = []"
  by (subst parseattr.simps) simp

lemma parseattr_Cons:
  "skipspace s \<noteq> [] \<Longrightarrow> a = parse_one (i + (length s - length (skipspace s))) (skipspace s) \<Longrightarrow>
   parseattr i s =
     a # parseattr (i + (length s - length (skipspace s)) + ataglen a) (drop (ataglen a) (skipspace s))"
  by (subst parseattr.simps) (simp add: Let_def)

lemma parseattr_space: "isspace d \<Longrightarrow> parseattr i (d # s) = parseattr (i + 1) s"
proof -
  assume "isspace d"
  then have "skipspace (d # s) = skipspace s" by (simp add: skipspace_def)
  then show ?thesis
    using length_skipspace [of s]
    by (cases "skipspace s = []") (simp_all add: parseattr_Nil parseattr_Cons [OF _ refl] Suc_diff_le)
qed

text \<open>When there are attributes, the tag ends before them.\<close>

lemma parseattr_settles:
  assumes "parseattr 0 t = a # as"
  shows "take (tagnamelen a) (drop (atagstart a) t) = tag_name t \<and>
    (as \<noteq> [] \<longrightarrow> (\<exists>k. settles k t (tag_name t) \<and> attrs_in k (length t) as))"
proof -
  let ?p = "skipspace t" and ?i = "length t - length (skipspace t)"
  have t: "t = takeWhile isspace t @ ?p" "length (takeWhile isspace t) = ?i"
    unfolding skipspace_def by (simp, metis add_diff_cancel_right' length_append takeWhile_dropWhile_id)
  then have d: "drop ?i t = ?p" by (metis append_eq_conv_conj)
  have ne: "?p \<noteq> []" and a: "a = parse_one ?i ?p" and as: "as = parseattr (?i + ataglen a) (drop (ataglen a) ?p)"
  proof -
    show "?p \<noteq> []" using assms parseattr_Nil [of t 0] by auto
    from parseattr_Cons [OF this refl, of 0] assms
    show "a = parse_one ?i ?p" "as = parseattr (?i + ataglen a) (drop (ataglen a) ?p)" by simp_all
  qed
  have start: "atagstart a = ?i" using parse_one_in a by simp
  let ?n = "length (takeWhile (\<lambda>c. \<not> isspace c \<and> c \<noteq> CHR ''='') ?p)"
  have name: "tagnamelen a = ?n" by (simp add: a parse_one_def Let_def)
  have "take (tagnamelen a) (drop (atagstart a) t) = tag_name t"
    unfolding start d using tag_name_take [of t ?i] by (simp add: a)
  moreover have "\<exists>k. settles k t (tag_name t) \<and> attrs_in k (length t) as" if "as \<noteq> []"
  proof -
    have "skipspace (drop (ataglen a) ?p) \<noteq> []"
      using that as parseattr_Nil by metis
    then have r: "drop (ataglen a) ?p \<noteq> []" by (auto simp: skipspace_def)
    have len: "?n \<le> ataglen a" by (auto simp: a parse_one_def Let_def)
    have n: "?n < length ?p" using r len by simp
    let ?d = "?p ! ?n"
    have delim: "isspace ?d \<or> ?d = CHR ''=''" using nth_length_takeWhile [OF n] by blast
    have first: "tag_name t \<noteq> [] \<or> \<not> isspace ?d"
      using skipspace_hd [OF ne] ne by (auto simp: tag_name_def hd_conv_nth)
    have take: "take (?i + ?n + 1) t = takeWhile isspace t @ tag_name t @ [?d]"
    proof -
      have "take (?i + ?n + 1) (takeWhile isspace t @ ?p) = takeWhile isspace t @ take (?n + 1) ?p"
        by (simp add: t(2))
      also have "take (?n + 1) ?p = tag_name t @ [?d]"
        using n by (simp add: take_Suc_conv_app_nth tag_name_def takeWhile_eq_take [symmetric])
      finally show ?thesis using t(1) by simp
    qed
    have "?i + ?n + 1 \<le> length t" using n length_skipspace [of t] by linarith
    moreover have "tag_name (take (?i + ?n + 1) t @ x) = tag_name t" for x
      unfolding take using first delim
      by (simp, intro settlesI) (auto simp: list_all_iff tag_name_def dest: set_takeWhileD)
    ultimately have "settles (?i + ?n + 1) t (tag_name t)" by (simp add: settles_def)
    moreover have "attrs_in (?i + ?n + 1) (length t) as"
    proof (cases "?d = CHR ''=''")
      case True
      then have "take 1 (drop ?n ?p) = ''=''" using n by (simp add: take_Suc_conv_app_nth flip: Cons_nth_drop_Suc)
      then have "?n + 1 \<le> ataglen a" by (auto simp: a parse_one_def Let_def)
      then show ?thesis
        unfolding as using parseattr_in [of "?i + ataglen a" "drop (ataglen a) ?p"] r length_skipspace [of t]
        by (elim attrs_in_mono) simp_all
    next
      case False
      then have "ataglen a = ?n" using n by (simp add: a parse_one_def Let_def flip: Cons_nth_drop_Suc)
      then have "drop (ataglen a) ?p = ?d # drop (?n + 1) ?p" using n by (simp add: Cons_nth_drop_Suc)
      with False delim have tl: "as = parseattr (?i + ?n + 1) (drop (?n + 1) ?p)"
        using as parseattr_space [of ?d "?i + ?n" "drop (?n + 1) ?p"] \<open>ataglen a = ?n\<close> by simp
      show ?thesis
        unfolding tl using parseattr_in [of "?i + ?n + 1" "drop (?n + 1) ?p"] n length_skipspace [of t]
        by (elim attrs_in_mono) simp_all
    qed
    ultimately show ?thesis by blast
  qed
  ultimately show ?thesis by blast
qed

subsection \<open>The tag in the buffer keeps its name\<close>

definition no_angle :: "string \<Rightarrow> bool" where
  "no_angle s \<longleftrightarrow> CHR ''<'' \<notin> set s \<and> CHR ''>'' \<notin> set s"

definition plain :: "string \<Rightarrow> bool" where
  "plain s \<longleftrightarrow> no_angle s \<and> nul \<notin> set s"

lemma plain_simps [simp]:
  "plain []" "plain (c # s) \<longleftrightarrow> c \<noteq> CHR ''<'' \<and> c \<noteq> CHR ''>'' \<and> c \<noteq> nul \<and> plain s" "plain (s @ t) \<longleftrightarrow> plain s \<and> plain t"
  by (auto simp: plain_def no_angle_def)

lemma plain_subset: "plain s \<Longrightarrow> set t \<subseteq> set s \<Longrightarrow> plain t"
  by (auto simp: plain_def no_angle_def)

lemma plain_take [simp]: "plain s \<Longrightarrow> plain (take n s)"
  by (erule plain_subset) (rule set_take_subset)

lemma plain_drop [simp]: "plain s \<Longrightarrow> plain (drop n s)"
  by (erule plain_subset) (rule set_drop_subset)

lemma plain_no_angle [simp]: "plain s \<Longrightarrow> no_angle s"
  by (simp add: plain_def)

text \<open>The contents of the buffer never have the end of a tag, and leave room for the attributes the loop handles.\<close>

definition good_buf :: "html_buf \<Rightarrow> bool" where
  "good_buf b \<longleftrightarrow> length (bmem b) < 1280 \<and> Some (CHR ''>'') \<notin> set (bmem b)"

lemma good_buf_blen [simp]: "good_buf (b\<lparr>blen := n\<rparr>) = good_buf b"
  by (simp add: good_buf_def)

lemma good_buf_add: "good_buf b \<Longrightarrow> c \<noteq> CHR ''>'' \<Longrightarrow> good_buf (addtagbuf c b)"
  using addtagbuf_length [of b c] addtagbuf_set [of "Some CHR ''>''" c b] by (auto simp: good_buf_def)

lemma good_buf_fold: "good_buf b \<Longrightarrow> CHR ''>'' \<notin> set s \<Longrightarrow> good_buf (fold addtagbuf s b)"
  using fold_addtagbuf_length [of b s] fold_addtagbuf_set [of "Some CHR ''>''" s b] by (auto simp: good_buf_def)

text \<open>A tag in the buffer, with its name and its attributes.\<close>

definition tag_state :: "string \<Rightarrow> html_buf \<times> tagattrinfo list \<Rightarrow> bool" where
  "tag_state n st \<longleftrightarrow> (\<exists>t. holds (fst st) t \<and> plain t \<and> tag_name t = n \<and> good_buf (fst st) \<and> length (snd st) \<le> length t \<and>
     (tl (snd st) \<noteq> [] \<longrightarrow> (\<exists>k. settles k t n \<and> attrs_in k (length t) (tl (snd st)))))"

lemma holds_length: "holds b t \<Longrightarrow> length t < length (bmem b)"
  by (auto simp: holds_def)

lemma tag_state_count: "tag_state n (b, as) \<Longrightarrow> length as < 1280"
  using holds_length unfolding tag_state_def good_buf_def by fastforce

lemma parsetagbuf_tag_state:
  assumes "parsetagbuf b = Some st" "good_buf b" "buf_text (bmem b) = Some t"
    "t' = map (\<lambda>c. if c = CHR ''<'' then sp else c) t"
  shows "tag_state (tag_name t') st \<and>
    tag_name t' = (if snd st = [] then [] else attr_name (fst st) (hd (snd st)))"
proof -
  obtain r where t: "nul \<notin> set t" "bmem b = map Some t @ Some nul # r"
    using assms(3) by (auto simp: buf_text_iff)
  let ?b = "b\<lparr>bmem := map Some t' @ drop (length t') (bmem b)\<rparr>"
  have st: "st = (?b, parseattr 0 t')"
    using assms(1,3,4) by (simp add: parsetagbuf_def)
  have len: "length t' = length t" by (simp add: assms(4))
  have mem: "bmem ?b = map Some t' @ Some nul # r" using len t(2) by simp
  have gt: "CHR ''>'' \<notin> set t" using t(2) assms(2) by (auto simp: good_buf_def)
  then have "plain t'" using t(1) by (auto simp: plain_def no_angle_def assms(4))
  moreover have "holds ?b t'" using mem calculation by (auto simp: holds_def plain_def)
  moreover have "good_buf ?b"
  proof -
    have "CHR ''>'' \<notin> set t'" using calculation(1) by (simp add: plain_def no_angle_def)
    with assms(2) show ?thesis unfolding good_buf_def mem t(2) by (auto simp: len)
  qed
  ultimately show ?thesis
  proof (cases "parseattr 0 t'")
    case Nil
    then have "skipspace t' = []" using parseattr_Cons [of t'] by fastforce
    then have "tag_name t' = []" by (simp add: tag_name_def)
    with Nil \<open>holds ?b t'\<close> \<open>plain t'\<close> \<open>good_buf ?b\<close> show ?thesis unfolding st tag_state_def by auto
  next
    case (Cons a as)
    note s = parseattr_settles [OF Cons]
    have "length (a # as) \<le> length t'" using parseattr_count [of 0 t'] Cons by simp
    with \<open>holds ?b t'\<close> \<open>plain t'\<close> \<open>good_buf ?b\<close> s [THEN conjunct2]
    have "tag_state (tag_name t') (?b, a # as)"
      unfolding tag_state_def fst_conv snd_conv list.sel by blast
    moreover have "attr_name ?b a = tag_name t'"
      unfolding attr_name_def tag_text_holds [OF \<open>holds ?b t'\<close>] by (rule s [THEN conjunct1])
    ultimately show ?thesis unfolding st Cons by simp
  qed
qed

lemma parsetagbuf_good:
  assumes "parsetagbuf b = Some st" "good_buf b"
  obtains n where "tag_state n st" "n = (if snd st = [] then [] else attr_name (fst st) (hd (snd st)))"
proof -
  obtain t where "buf_text (bmem b) = Some t" using assms(1) by (auto simp: parsetagbuf_def split: option.splits)
  from parsetagbuf_tag_state [OF assms this refl] that show ?thesis by blast
qed

lemma tag_state_good: "tag_state n st \<Longrightarrow> good_buf (fst st)"
  by (auto simp: tag_state_def)

text \<open>Blanking an attribute.\<close>

lemma tag_state_blank:
  assumes "tag_state n (b, as)" "a \<in> set (tl as)"
  shows "tag_state n (blank_attr a b, as)"
proof -
  from assms(2) have ne: "tl as \<noteq> []" by auto
  with assms(1) obtain t k where t: "holds b t" "plain t" "tag_name t = n" "good_buf b" "length as \<le> length t"
    and k: "settles k t n" "attrs_in k (length t) (tl as)"
    unfolding tag_state_def by auto
  let ?s = "atagstart a" and ?e = "atagstart a + ataglen a"
  have in_t: "k \<le> ?s" "?e \<le> length t" using k(2) assms(2) by (auto simp: attrs_in_def)
  obtain r where mem: "bmem b = map Some t @ Some nul # r" using t(1) by (auto simp: holds_def)
  define t' where "t' = take ?s t @ replicate (ataglen a) sp @ drop ?e t"
  have len: "length t' = length t" using in_t by (simp add: t'_def)
  have pl: "plain t'" using t(2) by (auto simp: t'_def plain_def no_angle_def dest: in_set_takeD in_set_dropD)
  have mem': "bmem (blank_attr a b) = map Some t' @ Some nul # r"
    using in_t by (simp add: blank_attr_def mem t'_def take_map drop_map)
  have "holds (blank_attr a b) t'" using pl mem' by (auto simp: holds_def plain_def)
  moreover have "good_buf (blank_attr a b)"
    using t(4) pl unfolding good_buf_def mem mem' by (auto simp: len plain_def no_angle_def)
  moreover have pre: "take k t' = take k t" using in_t by (simp add: t'_def)
  then have "settles k t' n" using k(1) by (simp add: settles_def len)
  moreover have "tag_name t' = n" using k(1) pre append_take_drop_id [of k t'] unfolding settles_def by metis
  moreover have "length as \<le> length t'" "attrs_in k (length t') (tl as)" using t(5) k(2) by (simp_all add: len)
  ultimately show ?thesis using pl unfolding tag_state_def fst_conv snd_conv by blast
qed

lemma tag_state_blank_on:
  assumes "tag_state n (b, as)"
  shows "tag_state n (blank_on (b, as), as)"
proof -
  have "tag_state n (fold (\<lambda>a b. if 2 < tagnamelen a \<and> caseprefix ''ON'' (attr_name b a) then blank_attr a b else b) l b, as)"
    if "set l \<subseteq> set (tl as)" for l
    using assms that
  proof (induction l arbitrary: b)
    case (Cons a l)
    then show ?case using tag_state_blank [of n b as a] by simp
  qed simp
  from this [of "tl as"] show ?thesis by (simp add: blank_on_def)
qed

text \<open>Replacing a link, also when the buffer is full.\<close>

lemma tl_nth_in: "l < length as \<Longrightarrow> 1 \<le> l \<Longrightarrow> as ! l \<in> set (tl as)"
  by (cases as; cases l) auto

lemma tag_state_replacelink:
  assumes "tag_state n (b, as)" "replacelink l p (b, as) = Some st" "1 \<le> l" "plain p"
  shows "tag_state n st"
proof -
  from assms(2) obtain v where l: "l < length as" and v: "tagvalue (as ! l) = Some v"
    and st: "parsetagbuf (fold addtagbuf ((take v (tag_text b) @ p @ drop (v + tagvaluelen (as ! l)) (tag_text b)) @ [nul])
      (b\<lparr>blen := 0\<rparr>)) = Some st"
    by (auto simp: replacelink_def split: option.splits if_splits)
  have a: "as ! l \<in> set (tl as)" using l assms(3) by (rule tl_nth_in)
  then have "tl as \<noteq> []" by auto
  with assms(1) obtain t k where t: "holds b t" "plain t" "tag_name t = n" "good_buf b" "length as \<le> length t"
    and k: "settles k t n" "attrs_in k (length t) (tl as)"
    unfolding tag_state_def by auto
  have kv: "k \<le> atagstart (as ! l)" "atagstart (as ! l) \<le> v" "v \<le> length t"
    using k(2) a v by (auto simp: attrs_in_def)
  define q where "q = take v t @ p @ drop (v + tagvaluelen (as ! l)) t"
  let ?b = "fold addtagbuf (q @ [nul]) (b\<lparr>blen := 0\<rparr>)"
  have pl: "plain q" using t(2) assms(4) by (simp add: q_def)
  have st: "parsetagbuf ?b = Some st" using st t(1) by (simp add: q_def)
  have good: "good_buf ?b" using t(4) pl by (intro good_buf_fold) (auto simp: plain_def no_angle_def)
  have id: "map (\<lambda>c. if c = CHR ''<'' then sp else c) u = u" if "plain u" for u
    using that by (auto simp: plain_def no_angle_def intro!: map_idI)
  have "take k q = take k t" using kv by (simp add: q_def)
  then have q: "tag_name q = n" using k(1) append_take_drop_id [of k q] unfolding settles_def by metis
  have "\<exists>u. buf_text (bmem ?b) = Some u \<and> plain u \<and> tag_name u = n"
  proof (cases "length (bmem b) < 1024")
    case True
    have "holds ?b ([] @ q) \<or> buf_text (bmem ?b) = None"
      using True pl by (intro fold_write [of _ "[]" "bmem b"]) (simp_all add: plain_def)
    then show ?thesis using st pl q by (auto simp: holds_text parsetagbuf_def split: option.splits)
  next
    case False
    then have "?b = b\<lparr>blen := 0\<rparr>" by (intro fold_full) simp
    then show ?thesis using t(1-3) by (auto simp: holds_text)
  qed
  then obtain u where "buf_text (bmem ?b) = Some u" "plain u" "tag_name u = n" by blast
  from parsetagbuf_tag_state [OF st good this(1) id [OF this(2), symmetric], THEN conjunct1] this(3)
  show ?thesis by simp
qed

text \<open>What the links are replaced with.\<close>

definition plain_conf :: "html_conf \<Rightarrow> bool" where
  "plain_conf conf \<longleftrightarrow> pred_option plain (washlink conf) \<and> pred_option plain (washlinkmailto conf) \<and>
     pred_option (\<lambda>s. nul \<notin> set s) (contentbase conf) \<and> pred_option (\<lambda>f. \<forall>s. plain s \<longrightarrow> plain (f s)) (convertcid conf)"

lemma url_fill_plain: "{CHR ''<'', CHR ''>''} \<subseteq> set punct \<Longrightarrow> plain (url_fill punct s)"
proof (induction s)
  case (Cons c s)
  have "\<forall>i < 16. hex_digits ! i \<notin> {CHR ''<'', CHR ''>'', nul}" by code_simp
  then have "hex_digits ! (code c div 16) \<notin> {CHR ''<'', CHR ''>'', nul}" "hex_digits ! (code c mod 16) \<notin> {CHR ''<'', CHR ''>'', nul}"
    using code_less_256 [of c] by (simp_all add: less_mult_imp_div_less)
  moreover have "\<not> url_special punct c \<Longrightarrow> c \<noteq> CHR ''<'' \<and> c \<noteq> CHR ''>'' \<and> c \<noteq> nul"
    using Cons.prems by (auto simp: url_special_def schar_def)
  ultimately show ?case using Cons by auto
qed simp

lemma redirectencode_plain: "redirectencode s = Some u \<Longrightarrow> plain u"
  by (auto simp: redirectencode_def cgiurlencode_def cgiurlencode_common_def Let_def url_punct_def
      intro!: url_fill_plain split: option.splits if_splits)

lemma append_url_nul:
  assumes "plain s" "plain_conf conf"
  shows "nul \<notin> set (rfc2045_append_url (contentbase conf) s)"
proof -
  have m: "nul \<notin> set (fst (get_method_path s)) \<and> nul \<notin> set (snd (get_method_path s))" if "nul \<notin> set s" for s
    using that by (auto simp: get_method_path_def Let_def dest: in_set_takeD in_set_dropD)
  obtain bm bp where b: "(case contentbase conf of None \<Rightarrow> ([], []) | Some b \<Rightarrow> get_method_path b) = (bm, bp)"
    by fastforce
  have bn: "nul \<notin> set bm \<and> nul \<notin> set bp"
  proof (cases "contentbase conf")
    case (Some s)
    then have "nul \<notin> set s" using assms(2) by (simp add: plain_conf_def)
    from m [OF this] b Some show ?thesis by simp
  qed (use b in simp)
  obtain lm lp where l: "get_method_path s = (lm, lp)" by fastforce
  have sn: "nul \<notin> set s" using assms(1) by (simp add: plain_def)
  from m [OF this] l have ln: "nul \<notin> set lp" by simp
  show ?thesis
    using bn ln sn unfolding rfc2045_append_url_def b l by (auto simp: Let_def dest!: in_set_takeD)
qed

lemma link_url_plain:
  assumes "plain s" "plain_conf conf"
  shows "plain (link_url conf s)"
  using append_url_nul [OF assms]
  by (auto simp: link_url_def plain_def no_angle_def dest: set_takeWhileD)

lemma plain_attr_value:
  assumes "tag_state n (b, as)"
  shows "plain (attr_value b a)"
  using assms by (auto simp: tag_state_def attr_value_def split: option.splits)

text \<open>Every step of the loop keeps the name of the tag.\<close>

lemma in_set_tl: "x \<in> set (tl s) \<Longrightarrow> x \<in> set s"
  by (cases s) auto

lemma tag_state_wash_or_replace:
  assumes "tag_state n st" "wash_or_replace conf l q st = Some st'" "1 \<le> l" "plain q" "plain_conf conf"
  shows "tag_state n st'"
  using assms
  by (cases st) (auto simp: wash_or_replace_def dowashlink_def plain_conf_def redirectencode_plain
      intro: tag_state_replacelink split: option.splits)

lemma mailto_query_plain: "plain s \<Longrightarrow> plain (mailto_query s)"
  by (auto simp: mailto_query_def Let_def intro: plain_subset dest: set_takeWhileD set_dropWhileD in_set_tl)

lemma tag_state_wash_attr:
  assumes "tag_state n (b, as)" "wash_attr conf l (b, as) = Some (st, g, w)" "1 \<le> l" "plain_conf conf"
  shows "tag_state n st"
proof -
  define q where "q = link_url conf (attr_value b (as ! l))"
  have q: "plain q" unfolding q_def by (rule link_url_plain [OF plain_attr_value [OF assms(1)] assms(4)])
  have "plain (tl (dropWhile (\<lambda>c. c \<noteq> CHR '':'') q))"
    by (rule plain_subset [OF q]) (auto dest: in_set_tl set_dropWhileD)
  then have mail: "plain (mailto_query (tl (dropWhile (\<lambda>c. c \<noteq> CHR '':'') q)))" by (rule mailto_query_plain)
  have "tag_state n st" if "dowashlinkmailto conf l (tl (dropWhile (\<lambda>c. c \<noteq> CHR '':'') q)) (b, as) = Some st" for st
    using that assms mail by (auto simp: dowashlinkmailto_def plain_conf_def intro: tag_state_replacelink split: option.splits)
  moreover have "tag_state n st" if "dowashcid conf l q (b, as) = Some st" for st
    using that assms q by (auto simp: dowashcid_def plain_conf_def intro: tag_state_replacelink split: option.splits)
  moreover have "tag_state n st" if "wash_or_replace conf l q (b, as) = Some st" for st
    using tag_state_wash_or_replace [OF assms(1) that assms(3) q assms(4)] .
  ultimately show ?thesis
    using assms(1,2) by (auto simp: wash_attr_def Let_def q_def [symmetric] split: if_splits)
qed

lemma tag_state_attr_step:
  assumes "tag_state n (b, as)" "attr_step conf l (b, as) = Some (st, w)" "1 \<le> l" "l < length as" "plain_conf conf"
  shows "tag_state n st"
proof -
  define b' where "b' = (if drops_attr (b, as) l then blank_attr (as ! l) b else b)"
  have b': "tag_state n (b', as)"
    unfolding b'_def using assms(1) tag_state_blank [OF assms(1) tl_nth_in [OF assms(4,3)]] by simp
  have blank: "tag_state n (blank_attr (as' ! l) b1, as')" if "tag_state n (b1, as')" "l < length as'" for b1 as'
    using tag_state_blank [OF that(1) tl_nth_in [OF that(2) assms(3)]] .
  from assms(2) show ?thesis
    unfolding attr_step_def prod.case Let_def b'_def [symmetric]
    using b' tag_state_wash_attr [OF b' _ assms(3,5)]
    by (auto split: if_splits option.splits prod.splits intro: blank)
qed

lemma tag_state_attr_loop:
  "attr_loop m conf l w st = Some (st', w') \<Longrightarrow> tag_state n st \<Longrightarrow> 1 \<le> l \<Longrightarrow> plain_conf conf \<Longrightarrow> tag_state n st'"
proof (induction m conf l w st rule: attr_loop.induct)
  case (2 m conf l w st)
  obtain b as where st: "st = (b, as)" by (cases st)
  show ?case
  proof (cases "length as \<le> l")
    case False
    with 2(2) st obtain st1 w1 where step: "attr_step conf l (b, as) = Some (st1, w1)"
      and loop: "attr_loop m conf (l + 1) (w \<or> w1) st1 = Some (st', w')"
      by (auto split: option.splits)
    have "tag_state n st1"
      using tag_state_attr_step [OF _ step 2(4) _ 2(5)] 2(3) False st by simp
    with 2(1) [of "(st1, w1)" st1 w1] step loop False st 2(4,5) show ?thesis by simp
  qed (use 2 st in simp)
qed simp

text \<open>The rounds are enough: with more of them the loop gives the same result.\<close>

lemma attr_loop_enough:
  "tag_state n st \<Longrightarrow> plain_conf conf \<Longrightarrow> 1 \<le> l \<Longrightarrow> 1 \<le> m \<Longrightarrow> 1280 \<le> m + l \<Longrightarrow>
   attr_loop (m + k) conf l w st = attr_loop m conf l w st"
proof (induction m arbitrary: l w st)
  case (Suc m)
  obtain b as where st: "st = (b, as)" by (cases st)
  show ?case
  proof (cases "length as \<le> l")
    case False
    have m: "1 \<le> m" using tag_state_count [of n b as] Suc.prems(1,5) False st by (cases m) auto
    have "attr_loop (m + k) conf (l + 1) (w \<or> w1) st1 = attr_loop m conf (l + 1) (w \<or> w1) st1"
      if "attr_step conf l (b, as) = Some (st1, w1)" for st1 w1
      using that Suc.prems st False m tag_state_attr_step [OF _ that Suc.prems(3)] by (intro Suc.IH) simp_all
    with False st show ?thesis by (auto split: option.splits)
  qed (use st in simp)
qed simp

subsection \<open>What is passed on\<close>

text \<open>
  The pieces of the output: text and links have no markup but the fixed tags around a link; what is passed on as a tag has
  no brackets inside and is none of the blocked tags. Comments are passed on as they are.
\<close>

definition tag_allowed :: "string \<Rightarrow> bool" where
  "tag_allowed n \<longleftrightarrow> \<not> list_ex (strcaseeq n) (''STYLE'' # ''/STYLE'' # blocked_tags)"

definition link_markup :: "string list" where
  "link_markup = [''<A TARGET='' @ [dquote] @ ''_blank'' @ [dquote] @ '' HREF='' @ [dquote], [dquote, CHR ''>''], ''</A>'']"

definition safe_piece :: "html_site \<times> string \<Rightarrow> bool" where
  "safe_piece = (\<lambda>(site, s).
     case site of
       In_text \<Rightarrow> no_angle s
     | In_comment \<Rightarrow> True
     | In_link \<Rightarrow> no_angle s \<or> s \<in> set link_markup
     | In_tag \<Rightarrow> s \<in> {''<'', ''>'', ''<>''} \<or> no_angle s \<and> tag_allowed (tag_name s))"

lemma safe_img_out:
  assumes "tag_state n (b, as)" "img_out conf nsrc nalt (b, as) = Some ((b', as'), out)" "1 \<le> nsrc" "plain_conf conf"
  shows "tag_state n (b', as') \<and> list_all safe_piece out"
proof -
  define q where "q = link_url conf (attr_value b (as ! nsrc))"
  have q: "plain q" unfolding q_def by (rule link_url_plain [OF plain_attr_value [OF assms(1)] assms(4)])
  from assms(2) obtain st where st: "wash_or_replace conf nsrc q (b, as) = Some st"
    unfolding img_out_def q_def [symmetric] prod.case Let_def by (auto split: option.splits)
  have "tag_state n st" by (rule tag_state_wash_or_replace [OF assms(1) st assms(3) q assms(4)])
  moreover obtain b1 as1 where "st = (b1, as1)" by (cases st)
  moreover have "no_angle (attr_value b a)" "tag_state n (b1, as1) \<Longrightarrow> no_angle (attr_value b1 a)" for a
    using plain_attr_value assms(1) by auto
  moreover have "no_angle q" "no_angle ''[''" "no_angle '']''" using q plain_no_angle by (simp, simp_all add: no_angle_def)
  ultimately show ?thesis
    using assms(2) st unfolding img_out_def q_def [symmetric] prod.case Let_def
    by (auto simp: safe_piece_def link_markup_def split: if_splits option.splits)
qed

lemma safe_tag_out:
  assumes "tag_state n (b, as)" "tag_allowed n"
  shows "list_all safe_piece (tag_out w b)"
proof -
  obtain t where "holds b t" "plain t" "tag_name t = n" using assms(1) by (auto simp: tag_state_def)
  with assms(2) have "safe_piece (In_tag, tag_text b)" by (simp add: safe_piece_def)
  moreover have "tag_allowed (tag_name ('' target='' @ [dquote] @ ''_blank'' @ [dquote]))"
    "no_angle ('' target='' @ [dquote] @ ''_blank'' @ [dquote])"
    by code_simp+
  ultimately show ?thesis by (simp add: tag_out_def safe_piece_def)
qed

lemma find_tag_pos: "find_tag st l \<noteq> 0 \<Longrightarrow> 1 \<le> find_tag st l"
  by simp

lemma safe_rest:
  assumes "tag_state n st" "plain_conf conf" "tag_allowed n"
    "attr_loop m conf 1 False st = Some ((b, as), w)"
  shows "good_buf b \<and> list_all safe_piece (tag_out w b)"
  using tag_state_attr_loop [OF assms(4,1) _ assms(2)] safe_tag_out [OF _ assms(3)] tag_state_good by fastforce

lemma safe_filtered_tag:
  assumes "filtered_tag conf i b = Some (i', b', out)" "good_buf b" "plain_conf conf"
  shows "good_buf b' \<and> list_all safe_piece out"
proof -
  from assms(1) obtain st where st: "parsetagbuf (addtagbuf nul b) = Some st"
    by (auto simp: filtered_tag_def split: option.splits)
  have "good_buf (addtagbuf nul b)" using assms(2) by (intro good_buf_add) simp_all
  from parsetagbuf_good [OF st this] obtain n
    where n: "tag_state n st" "n = (if snd st = [] then [] else attr_name (fst st) (hd (snd st)))" .
  note def = assms(1) [unfolded filtered_tag_def st option.case Let_def]
  show ?thesis
  proof (cases "list_ex (is_htmltag st) (''STYLE'' # ''/STYLE'' # blocked_tags) \<or> i \<noteq> 0")
    case True
    with def tag_state_good [OF n(1)] show ?thesis by (auto split: if_splits)
  next
    case False
    define st1 where "st1 = (blank_on st, snd st)"
    have st1: "tag_state n st1" using n(1) tag_state_blank_on [of n "fst st" "snd st"] by (simp add: st1_def)
    have allowed: "tag_allowed n"
    proof (cases "snd st")
      case Nil
      have "tag_allowed []" by code_simp
      with n(2) Nil show ?thesis by simp
    next
      case (Cons a as)
      then have "is_htmltag st = strcaseeq n" using n(2) by (auto simp: is_htmltag_def is_attr_def split: prod.splits)
      with False show ?thesis by (simp add: tag_allowed_def)
    qed
    obtain b1 as1 where pair: "st1 = (b1, as1)" by (cases st1)
    have rest: "good_buf b' \<and> list_all safe_piece out"
      if "(case attr_loop 1280 conf 1 False st1 of None \<Rightarrow> None
           | Some ((b, as), w) \<Rightarrow> Some (i, b, [] @ tag_out w b)) = Some (i', b', out)"
      using that safe_rest [OF st1 assms(3) allowed] by (fastforce split: option.splits prod.splits)
    have img: "good_buf b' \<and> list_all safe_piece out"
      if "map_option (\<lambda>((b, as), out). (i, b, out)) (img_out conf nsrc nalt st1) = Some (i', b', out)" "nsrc \<noteq> 0" for nsrc nalt
      using that safe_img_out [of n b1 as1 conf nsrc nalt] st1 assms(3) tag_state_good pair by fastforce
    have none: "good_buf (fst st1)" using tag_state_good [OF st1] .
    show ?thesis
      using def False rest img none unfolding st1_def [symmetric] by (auto split: if_splits)
  qed
qed

subsection \<open>The whole filter\<close>

definition safe_run :: "html_filter \<times> string \<times> html_out \<Rightarrow> bool" where
  "safe_run = (\<lambda>(f, pend, out).
     good_buf (tagbuf f) \<and> (cur_state f = intext \<longrightarrow> no_angle pend) \<and> list_all safe_piece out)"

lemma no_angle_simps [simp]:
  "no_angle []" "no_angle (s @ t) \<longleftrightarrow> no_angle s \<and> no_angle t"
  "no_angle (c # s) \<longleftrightarrow> c \<noteq> CHR ''<'' \<and> c \<noteq> CHR ''>'' \<and> no_angle s"
  by (auto simp: no_angle_def)

lemma safe_unless_style: "list_all safe_piece out \<Longrightarrow> list_all safe_piece (unless_style f out)"
  by (simp add: unless_style_def)

lemma safe_intag_byte:
  assumes "intag_byte conf c (f, pend, out) = Some st" "safe_run (f, pend, out)" "plain_conf conf"
  shows "safe_run st"
proof (cases "c = CHR ''>''")
  case True
  with assms(1) obtain i b o' where t: "filtered_tag conf (instyletag f) (tagbuf f) = Some (i, b, o')"
    "st = (f\<lparr>cur_state := intext, instyletag := i, tagbuf := b\<rparr>, [], out @ o')"
    by (auto simp: intag_byte_def Let_def split: option.splits)
  from safe_filtered_tag [OF t(1) _ assms(3)] assms(2) show ?thesis
    by (simp add: safe_run_def t(2))
next
  case False
  with assms(1,2) show ?thesis by (auto simp: intag_byte_def safe_run_def intro: good_buf_add)
qed

lemma safe_byte:
  assumes "htmlfilter_byte conf c (f, pend, out) = Some st" "safe_run (f, pend, out)" "plain_conf conf"
  shows "safe_run st"
proof -
  have in_tag: "safe_run st" if "intag_byte conf c (f, pend, out) = Some st" using that assms(2,3) by (rule safe_intag_byte)
  show ?thesis
  proof (cases "cur_state f")
    case intext
    with assms(1,2) show ?thesis
      by (auto simp: htmlfilter_byte_def safe_run_def safe_piece_def unless_style_def split: if_splits)
  next
    case seenlt
    with assms(1,2) show ?thesis
      by (auto simp: htmlfilter_byte_def safe_run_def safe_piece_def unless_style_def intro!: good_buf_add split: if_splits)
  next
    case seenltbang
    with assms(1,2) in_tag show ?thesis
      by (auto simp: htmlfilter_byte_def safe_run_def intro!: good_buf_add split: if_splits)
  next
    case seenltbangdash
    with assms(1,2) in_tag show ?thesis
      by (auto simp: htmlfilter_byte_def safe_run_def safe_piece_def unless_style_def split: if_splits)
  next
    case intag
    with assms(1) in_tag show ?thesis by (simp add: htmlfilter_byte_def)
  next
    case incomment
    with assms(1,2) show ?thesis by (auto simp: htmlfilter_byte_def safe_run_def split: if_splits)
  next
    case incommentseendash
    with assms(1,2) show ?thesis by (auto simp: htmlfilter_byte_def safe_run_def split: if_splits)
  next
    case incommentseendashdash
    with assms(1,2) show ?thesis
      by (auto simp: htmlfilter_byte_def safe_run_def safe_piece_def unless_style_def split: if_splits)
  qed
qed

lemma safe_bytes:
  "htmlfilter_bytes conf p st = Some st' \<Longrightarrow> safe_run st \<Longrightarrow> plain_conf conf \<Longrightarrow> safe_run st'"
proof (induction p arbitrary: st)
  case (Cons c p)
  obtain f pend out where st: "st = (f, pend, out)" by (cases st)
  with Cons.prems(1) obtain st1 where 1: "htmlfilter_byte conf c (f, pend, out) = Some st1" "htmlfilter_bytes conf p st1 = Some st'"
    by (auto split: option.splits)
  from safe_byte [OF 1(1) _ Cons.prems(3)] Cons.prems(2) st Cons.IH [OF 1(2) _ Cons.prems(3)] show ?case by simp
qed simp

lemma safe_chunk:
  assumes "htmlfilter conf p f = Some (f', out)" "good_buf (tagbuf f)" "plain_conf conf"
  shows "good_buf (tagbuf f') \<and> list_all safe_piece out"
proof -
  obtain f1 pend o1 where run: "htmlfilter_bytes conf p (f, [], []) = Some (f1, pend, o1)"
    and "(f', out) = chunk_end (f1, pend, o1)"
    using assms(1) by (auto simp: htmlfilter_def)
  moreover have "safe_run (f1, pend, o1)"
    using assms(2) by (intro safe_bytes [OF run _ assms(3)]) (simp add: safe_run_def)
  ultimately show ?thesis
    by (auto simp: chunk_end_def safe_run_def safe_piece_def unless_style_def)
qed

text \<open>
  C6. Whatever the message and however it is cut into pieces, the filter passes on no markup of its own making: text and
  links have no angle brackets besides the fixed tags around a link, and what is passed on as a tag has no brackets inside
  and is none of the blocked tags (scripts, frames, applets, objects, styles, document structure). This holds with an
  attribute blanked or a link rewritten in place, after a tag that filled the buffer, and with whatever an earlier
  message left in it; comments are passed on as they are. The strings of the configuration have no brackets.
\<close>

theorem html_filter_markup:
  assumes "plain_conf conf" "good_buf b" "htmlfilter_chunks conf ps (htmlfilter_init b) = Some (f, out)"
  shows "list_all safe_piece out \<and> good_buf (tagbuf f)"
proof -
  have "good_buf (tagbuf f') \<Longrightarrow> htmlfilter_chunks conf ps f' = Some (f, out) \<Longrightarrow> list_all safe_piece out \<and> good_buf (tagbuf f)" for f'
  proof (induction ps arbitrary: f' out)
    case (Cons p ps)
    then obtain f1 o1 o2 where c: "htmlfilter conf p f' = Some (f1, o1)"
      and r: "htmlfilter_chunks conf ps f1 = Some (f, o2)" "out = o1 @ o2"
      by (auto split: option.splits)
    from safe_chunk [OF c Cons.prems(1) assms(1)] Cons.IH [OF _ r(1)] r(2) show ?case by simp
  qed simp
  from this [of "htmlfilter_init b"] assms(2,3) show ?thesis by (simp add: htmlfilter_init_def)
qed

text \<open>A page with a handler, in a tag cut in two.\<close>

definition html_page :: "string list" where
  "html_page = [''<b onx'', ''>y<'']"

lemma html_filter_markup_witness:
  "case htmlfilter_chunks \<lparr>washlink = None, washlinkmailto = None, contentbase = None, convertcid = None\<rparr> html_page
      (htmlfilter_init \<lparr>bmem = [], blen = 0\<rparr>) of
     None \<Rightarrow> False
   | Some (f, out) \<Rightarrow> list_all safe_piece out \<and> concat (map snd out) = ''<b    >y''"
  (is "case ?r of None \<Rightarrow> _ | Some _ \<Rightarrow> _")
proof -
  have "case ?r of None \<Rightarrow> False | Some (f, out) \<Rightarrow> concat (map snd out) = ''<b    >y''"
    by code_simp
  moreover have "plain_conf \<lparr>washlink = None, washlinkmailto = None, contentbase = None, convertcid = None\<rparr>"
    by (simp add: plain_conf_def)
  moreover have "good_buf \<lparr>bmem = [], blen = 0\<rparr>" by (simp add: good_buf_def)
  ultimately show ?thesis
    using html_filter_markup [of "\<lparr>washlink = None, washlinkmailto = None, contentbase = None, convertcid = None\<rparr>"
      "\<lparr>bmem = [], blen = 0\<rparr>" html_page]
    by (auto split: option.splits)
qed

end
