(* ===== verification/Rfc2231.thy ===== *)
theory Rfc2231
  imports Rfc2045_Header "HOL-Library.Multiset"
begin

text \<open>
  Parameters of MIME headers with a character set, a language, or in several pieces (\<^verbatim>\<open>rfc2045/rfc2231.c\<close>,
  \<^verbatim>\<open>rfc2045/rfc2231encode.c\<close>): the attributes of a header that belong to a parameter are collected in the order of their
  numbers and decoded; a value is encoded into one attribute. Both run twice, to size and to fill their buffers.
\<close>

subsection \<open>Collecting the pieces\<close>

record rfc2231param =
  paramnum :: int
  encoded :: bool
  param_value :: string

text \<open>\<^verbatim>\<open>atoi(p) + 1\<close>, an \<^verbatim>\<open>int\<close>.\<close>

definition piece_num :: "string \<Rightarrow> int" where
  "piece_num p = (let n = sint (word_of_int (c_atol p + 1) :: 32 word) in if n \<le> 0 then 1 else n)"

definition is_param :: "string \<Rightarrow> string \<Rightarrow> bool" where
  "is_param name attr \<longleftrightarrow> take (length name) attr = name \<and>
     (drop (length name) attr = [] \<or> hd (drop (length name) attr) = CHR ''*'')"

fun insert_param :: "rfc2231param \<Rightarrow> rfc2231param list \<Rightarrow> rfc2231param list" where
  "insert_param n [] = [n]"
| "insert_param n (x # l) = (if paramnum x > paramnum n then n # x # l else x # insert_param n l)"

definition param_of :: "string \<Rightarrow> string \<times> string \<Rightarrow> rfc2231param" where
  "param_of name = (\<lambda>(attr, val).
     let p = drop (length name) attr
     in \<lparr>paramnum = (if p = [] then 0 else piece_num (tl p)),
         encoded = (attr \<noteq> [] \<and> last attr = CHR ''*''), param_value = val\<rparr>)"

definition rfc2231_buildAttrList :: "string \<Rightarrow> string \<times> string \<Rightarrow> rfc2231param list \<Rightarrow> rfc2231param list" where
  "rfc2231_buildAttrList name a l = (if is_param name (fst a) then insert_param (param_of name a) l else l)"

definition rfc2231_paramCreate :: "(string \<times> string) list \<Rightarrow> string \<Rightarrow> rfc2231param list" where
  "rfc2231_paramCreate attrs name = fold (rfc2231_buildAttrList name) attrs []"

subsection \<open>Decoding\<close>

definition rfc2231_xdigit :: string where "rfc2231_xdigit = ''0123456789ABCDEFabcdef''"

definition param_nyb :: "char \<Rightarrow> nat" where
  "param_nyb c =
     (let n = length (takeWhile (\<lambda>d. d \<noteq> c) rfc2231_xdigit)
      in if n = length rfc2231_xdigit then 0 else if n \<ge> 16 then n - 6 else n)"

text \<open>The text of a value, and its length as the first pass counts it.\<close>

fun param_fill :: "bool \<Rightarrow> string \<Rightarrow> string" where
  "param_fill e [] = []"
| "param_fill e (c # p) =
     (if c = CHR ''%'' \<and> e then
        (case p of
           a # b # q \<Rightarrow> char_of (param_nyb a * 16 + param_nyb b) # param_fill e q
         | _ \<Rightarrow> c # param_fill e p)
      else c # param_fill e p)"

fun param_count :: "bool \<Rightarrow> string \<Rightarrow> nat" where
  "param_count e [] = 0"
| "param_count e (c # p) =
     (if c = CHR ''%'' \<and> e then
        (case p of
           a # b # q \<Rightarrow> 1 + param_count e q
         | _ \<Rightarrow> 1 + param_count e p)
      else 1 + param_count e p)"

text \<open>The character set and the language before the text of the first piece.\<close>

definition split_charset :: "bool \<Rightarrow> string \<Rightarrow> string \<times> string \<times> string" where
  "split_charset enc p =
     (let cs = takeWhile (\<lambda>c. c \<noteq> CHR 0x27) p; r = drop (length cs + 1) p;
          lang = takeWhile (\<lambda>c. c \<noteq> CHR 0x27) r
      in if enc \<and> length cs < length p \<and> length lang < length r then (cs, lang, drop (length lang + 1) r)
         else ([], [], p))"

definition better_param :: "rfc2231param list \<Rightarrow> rfc2231param list" where
  "better_param l = (case l of p # q # l' \<Rightarrow> if paramnum p = 0 then q # l' else l | _ \<Rightarrow> l)"

definition rfc2231_paramDecode :: "rfc2231param list \<Rightarrow> string \<times> string \<times> string" where
  "rfc2231_paramDecode l =
     (case better_param l of
        [] \<Rightarrow> ([], [], [])
      | p # ps \<Rightarrow>
          (case split_charset (encoded p) (param_value p) of (cs, lang, rest) \<Rightarrow>
             (cs, lang, param_fill (encoded p) rest @ concat (map (\<lambda>q. param_fill (encoded q) (param_value q)) ps))))"

definition rfc2231_paramLengths :: "rfc2231param list \<Rightarrow> nat \<times> nat \<times> nat" where
  "rfc2231_paramLengths l =
     (case better_param l of
        [] \<Rightarrow> (1, 1, 1)
      | p # ps \<Rightarrow>
          (case split_charset (encoded p) (param_value p) of (cs, lang, rest) \<Rightarrow>
             (length cs + 1, length lang + 1,
              param_count (encoded p) rest + sum_list (map (\<lambda>q. param_count (encoded q) (param_value q)) ps) + 1)))"

text \<open>\<open>None\<close> when the second pass does not fit the buffers of the first.\<close>

definition rfc2231_decode :: "(string \<times> string) list \<Rightarrow> string \<Rightarrow> (string \<times> string \<times> string) option" where
  "rfc2231_decode attrs name =
     (let l = rfc2231_paramCreate attrs name
      in case (rfc2231_paramLengths l, rfc2231_paramDecode l) of ((n1, n2, n3), (cs, lang, txt)) \<Rightarrow>
        if length cs + 1 \<le> n1 \<and> length lang + 1 \<le> n2 \<and> length txt + 1 \<le> n3 then Some (cs, lang, txt) else None)"

definition rfc2231_decodeType :: "part_info \<Rightarrow> string \<Rightarrow> (string \<times> string \<times> string) option" where
  "rfc2231_decodeType rfc name = rfc2231_decode (content_type_attr rfc) name"

definition rfc2231_decodeDisposition :: "part_info \<Rightarrow> string \<Rightarrow> (string \<times> string \<times> string) option" where
  "rfc2231_decodeDisposition rfc name = rfc2231_decode (content_disposition_attr rfc) name"

subsection \<open>Encoding\<close>

definition do_encode :: "char \<Rightarrow> bool" where
  "do_encode c \<longleftrightarrow> c \<in> {CHR 0x27, dquote, bslash, CHR ''%'', CHR '':'', CHR '';'', CHR ''=''} \<or> schar c \<le> 32 \<or> 127 \<le> schar c"

definition encode_value :: "string \<Rightarrow> string" where
  "encode_value val =
     concat (map (\<lambda>c. if do_encode c
       then [CHR ''%'', rfc2231_xdigit ! (code c div 16), rfc2231_xdigit ! (code c mod 16)] else [c]) val)"

definition rfc2231_attrCreate :: "string \<Rightarrow> string \<Rightarrow> string \<Rightarrow> string option \<Rightarrow> string" where
  "rfc2231_attrCreate name val charset language =
     (if list_ex do_encode val
      then name @ ''*='' @ charset @ [CHR 0x27] @ (case language of None \<Rightarrow> [] | Some l \<Rightarrow> l) @ [CHR 0x27] @ encode_value val
      else name @ ''='' @ val)"

text \<open>The length the first pass reports, with the terminator.\<close>

definition rfc2231_attrLen :: "string \<Rightarrow> string \<Rightarrow> string \<Rightarrow> string option \<Rightarrow> nat" where
  "rfc2231_attrLen name val charset language =
     (if list_ex do_encode val
      then (length name + 2) + (length charset + 1) + (length (case language of None \<Rightarrow> [] | Some l \<Rightarrow> l) + 1) +
        sum_list (map (\<lambda>c. if do_encode c then 3 else 1) val) + 1
      else (length name + 1) + length val + 1)"

subsection \<open>Sizes\<close>

lemma param_count_fill: "length (param_fill e p) = param_count e p"
  by (induction e p rule: param_fill.induct) (auto split: list.splits)

lemma rfc2231_decode_fits: "rfc2231_decode attrs name = Some (rfc2231_paramDecode (rfc2231_paramCreate attrs name))"
  by (auto simp: rfc2231_decode_def rfc2231_paramLengths_def rfc2231_paramDecode_def Let_def length_concat comp_def
      param_count_fill split: list.split prod.split)

lemma rfc2231_attrLen: "length (rfc2231_attrCreate name val charset language) + 1 = rfc2231_attrLen name val charset language"
proof -
  have "length (encode_value val) = sum_list (map (\<lambda>c. if do_encode c then 3 else 1) val)"
    by (induction val) (auto simp: encode_value_def)
  then show ?thesis by (simp add: rfc2231_attrCreate_def rfc2231_attrLen_def)
qed

subsection \<open>A single attribute\<close>

lemma param_nyb_xdigit: "n < 16 \<Longrightarrow> param_nyb (rfc2231_xdigit ! n) = n"
proof -
  have "\<forall>n < 16. param_nyb (rfc2231_xdigit ! n) = n" by code_simp
  then show "n < 16 \<Longrightarrow> ?thesis" by blast
qed

lemma param_fill_encode: "param_fill True (encode_value val) = val"
proof (induction val)
  case (Cons c val)
  have "code c div 16 < 16" "code c mod 16 < 16" using code_less_256 [of c] by (simp_all add: less_mult_imp_div_less)
  with Cons show ?case
    by (auto simp: encode_value_def param_nyb_xdigit do_encode_def)
qed (simp add: encode_value_def)

lemma param_fill_plain: "param_fill False val = val"
  by (induction val) auto

lemma xdigit_mem: "rfc2231_xdigit ! (code c div 16) \<in> set rfc2231_xdigit" "rfc2231_xdigit ! (code c mod 16) \<in> set rfc2231_xdigit"
proof -
  have "length rfc2231_xdigit = 22" by code_simp
  moreover have "code c div 16 < 16" "code c mod 16 < 16" using code_less_256 [of c] by (simp_all add: less_mult_imp_div_less)
  ultimately show "rfc2231_xdigit ! (code c div 16) \<in> set rfc2231_xdigit"
    "rfc2231_xdigit ! (code c mod 16) \<in> set rfc2231_xdigit"
    by simp_all
qed

lemma encode_value_quote: "CHR 0x27 \<notin> set (encode_value val)"
proof -
  have "x = CHR ''%'' \<or> x \<in> set rfc2231_xdigit \<or> \<not> do_encode x" if "x \<in> set (encode_value val)" for x
    using that xdigit_mem by (induction val) (auto simp: encode_value_def split: if_splits)
  moreover have "CHR 0x27 \<notin> set rfc2231_xdigit" "do_encode (CHR 0x27)" by (simp_all add: rfc2231_xdigit_def do_encode_def)
  ultimately show ?thesis by blast
qed

lemma split_charset_quoted:
  assumes "CHR 0x27 \<notin> set cs" "CHR 0x27 \<notin> set lang"
  shows "split_charset True (cs @ [CHR 0x27] @ lang @ [CHR 0x27] @ r) = (cs, lang, r)"
  using assms by (simp add: split_charset_def Let_def)

subsection \<open>Pieces in any order\<close>

text \<open>The attributes of the pieces of a value: a star, the number, and a star when the piece is encoded.\<close>

definition piece_attr :: "string \<Rightarrow> nat \<Rightarrow> bool \<times> string \<Rightarrow> string \<times> string" where
  "piece_attr name i = (\<lambda>(e, v). (name @ CHR ''*'' # dec i @ (if e then ''*'' else []), v))"

lemma piece_num_dec:
  assumes "i < 2 ^ 31 - 1" "nodigit r"
  shows "piece_num (dec i @ r) = int i + 1"
proof -
  have d: "isdigit (hd (dec i @ r))" "dec i @ r \<noteq> []" by simp_all
  then have "skipspace (dec i @ r) = dec i @ r"
    by (cases "dec i @ r") (auto simp: skipspace_def ctype_simps)
  moreover have "takeWhile isdigit (dec i @ r) = dec i" using takeWhile_digits [OF dec_digits assms(2)] by simp
  moreover have "hd (dec i @ r) \<noteq> CHR ''-''" "hd (dec i @ r) \<noteq> CHR ''+''"
    using d(1) by (auto simp: isdigit_def)
  ultimately have "c_atol (dec i @ r) = int i"
    using assms(1) d(2) by (simp add: c_atol_def Let_def)
  moreover have "sint (word_of_int (int i + 1) :: 32 word) = int i + 1"
    by (subst sint_sbintrunc') (use assms(1) in \<open>simp add: signed_take_bit_int_eq_self\<close>)
  ultimately show ?thesis by (simp add: piece_num_def Let_def)
qed

lemma param_piece:
  assumes "i < 2 ^ 31 - 1"
  shows "is_param name (fst (piece_attr name i a))"
    "param_of name (piece_attr name i a) = \<lparr>paramnum = int i + 1, encoded = fst a, param_value = snd a\<rparr>"
proof -
  have "last (CHR ''*'' # dec i) \<noteq> CHR ''*''"
    using isdigit_dec [of "last (dec i)" i] by (auto simp: isdigit_def)
  then show "param_of name (piece_attr name i a) = \<lparr>paramnum = int i + 1, encoded = fst a, param_value = snd a\<rparr>"
    using piece_num_dec [OF assms, of "[]"] piece_num_dec [OF assms, of "''*''"]
    by (cases a) (auto simp: param_of_def piece_attr_def isdigit_def)
  show "is_param name (fst (piece_attr name i a))"
    by (cases a) (simp add: is_param_def piece_attr_def)
qed

lemma set_insert_param [simp]: "set (insert_param n l) = insert n (set l)"
  by (induction n l rule: insert_param.induct) auto

lemma sorted_insert_param: "sorted (map paramnum l) \<Longrightarrow> sorted (map paramnum (insert_param n l))"
  by (induction n l rule: insert_param.induct) auto

lemma distinct_insert_param:
  "distinct (map paramnum l) \<Longrightarrow> paramnum n \<notin> paramnum ` set l \<Longrightarrow> distinct (map paramnum (insert_param n l))"
  by (induction n l rule: insert_param.induct) auto

lemma paramCreate_sorted:
  assumes "sorted (map paramnum l)" "distinct (map paramnum l @ map (\<lambda>a. paramnum (param_of name a)) (filter (\<lambda>a. is_param name (fst a)) as))"
  shows "sorted (map paramnum (fold (rfc2231_buildAttrList name) as l)) \<and>
    distinct (map paramnum (fold (rfc2231_buildAttrList name) as l)) \<and>
    set (fold (rfc2231_buildAttrList name) as l) = set l \<union> param_of name ` set (filter (\<lambda>a. is_param name (fst a)) as)"
  using assms
proof (induction as arbitrary: l)
  case (Cons a as)
  let ?l = "rfc2231_buildAttrList name a l"
  have "sorted (map paramnum ?l)" using Cons.prems(1) by (simp add: rfc2231_buildAttrList_def sorted_insert_param)
  moreover have "distinct (map paramnum ?l @ map (\<lambda>a. paramnum (param_of name a)) (filter (\<lambda>a. is_param name (fst a)) as))"
    using Cons.prems(2) distinct_insert_param [of l "param_of name a"]
    by (auto simp: rfc2231_buildAttrList_def)
  ultimately show ?case
    using Cons.IH [of ?l] by (auto simp: rfc2231_buildAttrList_def)
qed auto

lemma paramCreate_unique:
  assumes "mset (filter (\<lambda>a. is_param name (fst a)) as) = mset bs"
    and "sorted (map paramnum (map (param_of name) bs))" "distinct (map paramnum (map (param_of name) bs))"
  shows "rfc2231_paramCreate as name = map (param_of name) bs"
proof -
  let ?as = "filter (\<lambda>a. is_param name (fst a)) as"
  have "mset (map (\<lambda>a. paramnum (param_of name a)) ?as) = mset (map (\<lambda>a. paramnum (param_of name a)) bs)"
    using assms(1) by simp
  then have "distinct (map (\<lambda>a. paramnum (param_of name a)) ?as)"
    using mset_eq_imp_distinct_iff assms(3) by (fastforce simp: comp_def)
  then have l: "sorted (map paramnum (rfc2231_paramCreate as name))" "distinct (map paramnum (rfc2231_paramCreate as name))"
    "set (rfc2231_paramCreate as name) = param_of name ` set ?as"
    using paramCreate_sorted [of "[]" name as] by (simp_all add: rfc2231_paramCreate_def)
  moreover have "set ?as = set bs" using assms(1) by (rule mset_eq_setD)
  ultimately have "set (rfc2231_paramCreate as name) = set (map (param_of name) bs)" by simp
  with l assms(2,3) show ?thesis
    by (intro map_sorted_distinct_set_unique [of paramnum]) (simp_all add: distinct_map)
qed

text \<open>An attribute in a header: its name and its value.\<close>

definition split_attr :: "string \<Rightarrow> string \<times> string" where
  "split_attr s = (takeWhile (\<lambda>c. c \<noteq> CHR ''='') s, tl (dropWhile (\<lambda>c. c \<noteq> CHR ''='') s))"



text \<open>
  The pieces of a value are put together in the order of their numbers, in whatever order the header has
  them, each decoded if it is marked as encoded and the character set taken from the first; a plain attribute of the same
  name is ignored when there are pieces.
\<close>

theorem rfc2231_pieces:
  assumes "mset (filter (\<lambda>a. is_param name (fst a)) attrs) =
      mset (plain @ map (\<lambda>i. piece_attr name i (vs ! i)) [0..<length vs])"
    and "plain = [] \<or> plain = [(name, w)]" "vs \<noteq> []" "length vs < 2 ^ 31"
  shows "rfc2231_decode attrs name =
    Some (case split_charset (fst (hd vs)) (snd (hd vs)) of (cs, lang, rest) \<Rightarrow>
      (cs, lang, param_fill (fst (hd vs)) rest @ concat (map (\<lambda>(e, v). param_fill e v) (tl vs))))"
proof -
  let ?p = "\<lambda>i. \<lparr>paramnum = int i + 1, encoded = fst (vs ! i), param_value = snd (vs ! i)\<rparr>"
  have p: "map (param_of name) (map (\<lambda>i. piece_attr name i (vs ! i)) [0..<length vs]) = map ?p [0..<length vs]"
    using assms(4) by (simp add: param_piece(2))
  have w: "paramnum (param_of name (name, w)) = 0" by (simp add: param_of_def)
  have l: "rfc2231_paramCreate attrs name = map (param_of name) plain @ map ?p [0..<length vs]"
  proof -
    have m: "map (param_of name) (plain @ map (\<lambda>i. piece_attr name i (vs ! i)) [0..<length vs]) =
        map (param_of name) plain @ map ?p [0..<length vs]"
      by (simp only: map_append p)
    have n: "map paramnum (map (param_of name) plain @ map ?p [0..<length vs]) =
        map (\<lambda>a. 0) plain @ map (\<lambda>i. int i + 1) [0..<length vs]"
      using assms(2) w by auto
    have "sorted (map (\<lambda>i. int i + 1) [0..<length vs])" by (auto simp: sorted_iff_nth_mono)
    then have "sorted (map (\<lambda>a. 0) plain @ map (\<lambda>i. int i + 1) [0..<length vs])"
      using assms(2) by (auto simp: sorted_append)
    moreover have "distinct (map (\<lambda>a. 0) plain @ map (\<lambda>i. int i + 1) [0..<length vs])"
      using assms(2) by (auto simp: distinct_map inj_on_def)
    ultimately show ?thesis
      using paramCreate_unique [OF assms(1), unfolded m n] by blast
  qed
  have "map ?p [0..<length vs] = ?p 0 # map ?p [1..<length vs]"
    using assms(3) by (simp add: upt_conv_Cons)
  moreover from this have "better_param (map (param_of name) plain @ map ?p [0..<length vs]) = map ?p [0..<length vs]"
    using assms(2) w by (auto simp: better_param_def split: list.splits)
  moreover have "map (\<lambda>i. param_fill (fst (vs ! i)) (snd (vs ! i))) [1..<length vs] = map (\<lambda>(e, v). param_fill e v) (tl vs)"
    by (rule nth_equalityI) (auto simp: nth_tl split: prod.split)
  ultimately show ?thesis
    using assms(3) by (simp add: rfc2231_decode_fits rfc2231_paramDecode_def l hd_conv_nth comp_def split: prod.split)
qed

lemma rfc2231_pieces_witness:
  "rfc2231_decode [(''f*1*'', ''%41x''), (''g'', ''y''), (''f*0'', ''%42''), (''f'', ''z'')] ''f'' = Some ([], [], ''%42Ax'')"
proof -
  let ?attrs = "[(''f*1*'', ''%41x''), (''g'', ''y''), (''f*0'', ''%42''), (''f'', ''z'')]"
  let ?vs = "[(False, ''%42''), (True, ''%41x'')]"
  have "filter (\<lambda>a. is_param ''f'' (fst a)) ?attrs = [(''f*1*'', ''%41x''), (''f*0'', ''%42''), (''f'', ''z'')]"
    by code_simp
  moreover have "map (\<lambda>i. piece_attr ''f'' i (?vs ! i)) [0..<length ?vs] = [(''f*0'', ''%42''), (''f*1*'', ''%41x'')]"
    by code_simp
  ultimately have "mset (filter (\<lambda>a. is_param ''f'' (fst a)) ?attrs) =
      mset ([(''f'', ''z'')] @ map (\<lambda>i. piece_attr ''f'' i (?vs ! i)) [0..<length ?vs])"
    by (simp only: mset.simps mset_append) simp
  from rfc2231_pieces [OF this, of "''z''"] have "rfc2231_decode ?attrs ''f'' =
      Some (case split_charset False ''%42'' of (cs, lang, rest) \<Rightarrow>
        (cs, lang, param_fill False rest @ concat (map (\<lambda>(e, v). param_fill e v) [(True, ''%41x'')])))"
    by simp
  also have "\<dots> = Some ([], [], ''%42Ax'')" by code_simp
  finally show ?thesis .
qed

end
