(* ===== verification/Rfc2045_Sections.thy ===== *)
theory Rfc2045_Sections
  imports Rfc2045_Parse
begin

text \<open>
  The sections of a parsed message and their numbers (\<^verbatim>\<open>rfc2045/rfc2045decode.c\<close>, \<^verbatim>\<open>rfc2045find.c\<close>,
  \<^verbatim>\<open>rfc2045searchcontenttype.c\<close>): the walk over the tree that numbers the sections, the lookup of a section by
  a number like \<^verbatim>\<open>1.2.1\<close>, and the search for the main text. A chain of \<^verbatim>\<open>rfc2045id\<close> is a list of numbers.
\<close>

subsection \<open>The walk\<close>

definition is_multipart :: "mime_part \<Rightarrow> bool" where
  "is_multipart r = (case content_type (info r) of None \<Rightarrow> False | Some t \<Rightarrow> take 10 t = ''multipart/'')"

text \<open>\<open>decode\<close>: the sections in the order the function is called for them, with their numbers.\<close>

function decode_parts :: "nat list \<Rightarrow> mime_part \<Rightarrow> (nat list \<times> mime_part) list"
  and decode_list :: "nat list \<Rightarrow> nat \<Rightarrow> mime_part list \<Rightarrow> (nat list \<times> mime_part) list" where
  "decode_parts topid r = (topid, r) # decode_list topid (if is_multipart r then 0 else 1) (subparts r)"
| "decode_list topid idnum [] = []"
| "decode_list topid idnum (r # rs) =
     (if idnum \<noteq> 0 then decode_parts (topid @ [idnum]) r else []) @ decode_list topid (idnum + 1) rs"
  by pat_completeness auto
termination
proof (relation "measure (\<lambda>x. case x of Inl (_, r) \<Rightarrow> 2 * size r | Inr (_, _, rs) \<Rightarrow> 2 * size_list size rs + 1)")
  show "(Inr (topid, n, subparts r), Inl (topid, r)) \<in>
      measure (\<lambda>x. case x of Inl (_, r) \<Rightarrow> 2 * size r | Inr (_, _, rs) \<Rightarrow> 2 * size_list size rs + 1)" for topid n r
    by (cases r) simp
qed auto

definition rfc2045_decode :: "mime_part \<Rightarrow> (nat list \<times> mime_part) list" where
  "rfc2045_decode p = decode_parts [1] p"

subsection \<open>The lookup\<close>

text \<open>\<open>do_decode\<close> of \<^verbatim>\<open>rfc2045find.c\<close>: whether a number is that of a section; the numbers are \<^verbatim>\<open>unsigned\<close>.\<close>

fun id_match :: "nat list \<Rightarrow> string \<Rightarrow> bool" where
  "id_match [] partnum \<longleftrightarrow> partnum = []"
| "id_match (i # is) partnum \<longleftrightarrow>
     (let ds = takeWhile isdigit partnum; r = dropWhile isdigit partnum
      in ds \<noteq> [] \<and> (r = [] \<or> hd r = CHR ''.'') \<and> (word_of_nat (dec_val 0 ds) :: 32 word) = word_of_nat i \<and>
         id_match is (tl r))"

definition rfc2045_find :: "mime_part \<Rightarrow> string \<Rightarrow> mime_part option" where
  "rfc2045_find p str =
     fold (\<lambda>(topid, r) found. if id_match topid str then Some r else found) (rfc2045_decode p) None"

subsection \<open>The main text\<close>

function rfc2045_searchcontenttype :: "string \<Rightarrow> mime_part \<Rightarrow> string \<Rightarrow> mime_part option"
  and search_list :: "string \<Rightarrow> mime_part list \<Rightarrow> string \<Rightarrow> mime_part option" where
  "rfc2045_searchcontenttype defcharset rfc ct =
     (if fst (rfc2045_mimeinfo defcharset (info rfc)) = ct then Some rfc
      else search_list defcharset (subparts rfc) ct)"
| "search_list defcharset [] ct = None"
| "search_list defcharset (p # ps) ct =
     (if isdummy (info p) then search_list defcharset ps ct
      else
        let content_type = fst (rfc2045_mimeinfo defcharset (info p))
        in if content_type = ct then Some p
           else if take 10 content_type = ''multipart/'' then rfc2045_searchcontenttype defcharset p ct
           else search_list defcharset ps ct)"
  by pat_completeness auto
termination
proof (relation "measure (\<lambda>x. case x of Inl (_, r, _) \<Rightarrow> 2 * size r | Inr (_, rs, _) \<Rightarrow> 2 * size_list size rs + 1)")
  show "(Inr (cs, subparts r, ct), Inl (cs, r, ct)) \<in>
      measure (\<lambda>x. case x of Inl (_, r, _) \<Rightarrow> 2 * size r | Inr (_, rs, _) \<Rightarrow> 2 * size_list size rs + 1)" for cs r ct
    by (cases r) simp
qed auto

subsection \<open>Numbers are addresses\<close>

text \<open>A number as it is written.\<close>

fun print_id :: "nat list \<Rightarrow> string" where
  "print_id [] = []"
| "print_id [i] = dec i"
| "print_id (i # is) = dec i @ CHR ''.'' # print_id is"

lemma id_match_print:
  assumes "list_all (\<lambda>i. i < 2 ^ 32) is" "list_all (\<lambda>i. i < 2 ^ 32) js" "js \<noteq> []"
  shows "id_match is (print_id js) \<longleftrightarrow> is = js"
  using assms
proof (induction js arbitrary: "is" rule: print_id.induct)
  case (2 j)
  have d: "takeWhile isdigit (dec j) = dec j" "dropWhile isdigit (dec j) = []"
    using takeWhile_digits [OF dec_digits, of "[]" j] by simp_all
  have "i = j" if "(word_of_nat j :: 32 word) = word_of_nat i" "i < 2 ^ 32" for i
    using that 2 by (simp add: word_of_nat_eq_iff take_bit_nat_eq_self)
  moreover have "id_match ks [] \<longleftrightarrow> ks = []" for ks by (cases ks) simp_all
  ultimately show ?case using 2 by (cases "is") (auto simp: Let_def d)
next
  case (3 j j' js)
  have "nodigit (CHR ''.'' # print_id (j' # js))" by (simp add: isdigit_def)
  note d = takeWhile_digits [OF dec_digits this, of j]
  have "i = j" if "(word_of_nat j :: 32 word) = word_of_nat i" "i < 2 ^ 32" for i
    using that 3 by (simp add: word_of_nat_eq_iff take_bit_nat_eq_self)
  moreover have "id_match ks (print_id (j' # js)) \<longleftrightarrow> ks = j' # js" if "list_all (\<lambda>i. i < 2 ^ 32) ks" for ks
    using 3 that by simp
  ultimately show ?case using 3(2,3) by (cases "is") (auto simp: Let_def d)
qed simp

text \<open>Sections with less than 2^32 - 1 sections each.\<close>

fun narrow :: "mime_part \<Rightarrow> bool" where
  "narrow (Part i ps) \<longleftrightarrow> length ps < 2 ^ 32 - 1 \<and> (\<forall>p \<in> set ps. narrow p)"

lemma decode_ids:
  "narrow r \<Longrightarrow> list_all (\<lambda>i. i < 2 ^ 32) topid \<Longrightarrow> (jd, q) \<in> set (decode_parts topid r) \<Longrightarrow>
     list_all (\<lambda>i. i < 2 ^ 32) jd \<and> (\<exists>ks. jd = topid @ ks)"
  "\<forall>p \<in> set rs. narrow p \<Longrightarrow> idnum + length rs < 2 ^ 32 \<Longrightarrow> list_all (\<lambda>i. i < 2 ^ 32) topid \<Longrightarrow>
     (jd, q) \<in> set (decode_list topid idnum rs) \<Longrightarrow>
     list_all (\<lambda>i. i < 2 ^ 32) jd \<and> (\<exists>k ks. jd = topid @ k # ks \<and> idnum \<le> k)"
proof (induction topid r and topid idnum rs arbitrary: jd q and jd q rule: decode_parts_decode_list.induct)
  case (1 topid r)
  then show ?case by (cases r) (fastforce split: if_splits)
next
  case (3 topid idnum r rs)
  show ?case
  proof (cases "(jd, q) \<in> set (decode_list topid (idnum + 1) rs)")
    case True
    with 3(2) [OF _ _ 3(5) True] 3(3,4) show ?thesis by fastforce
  next
    case False
    with 3(6) have "idnum \<noteq> 0" "(jd, q) \<in> set (decode_parts (topid @ [idnum]) r)" by (auto split: if_splits)
    with 3(1) [of jd q] 3(3,4,5) show ?thesis by auto
  qed
qed simp

lemma decode_distinct:
  "narrow r \<Longrightarrow> list_all (\<lambda>i. i < 2 ^ 32) topid \<Longrightarrow> distinct (map fst (decode_parts topid r))"
  "\<forall>p \<in> set rs. narrow p \<Longrightarrow> idnum + length rs < 2 ^ 32 \<Longrightarrow> list_all (\<lambda>i. i < 2 ^ 32) topid \<Longrightarrow>
     distinct (map fst (decode_list topid idnum rs))"
proof (induction topid r and topid idnum rs rule: decode_parts_decode_list.induct)
  case (1 topid r)
  obtain i ps where r: "r = Part i ps" by (cases r)
  let ?n = "if is_multipart r then 0 else 1"
  have n: "?n + length (subparts r) < 2 ^ 32" "\<forall>p \<in> set (subparts r). narrow p" using 1 by (auto simp: r)
  have "topid \<notin> set (map fst (decode_list topid ?n (subparts r)))"
    using decode_ids(2) [OF n(2,1) 1(3)] by fastforce
  then show ?case using 1(1) [OF n(2,1) 1(3)] by simp
next
  case (3 topid idnum r rs)
  have "jd \<notin> set (map fst (decode_list topid (idnum + 1) rs))"
    if t: "idnum \<noteq> 0" "jd \<in> set (map fst (decode_parts (topid @ [idnum]) r))" for jd
  proof
    assume "jd \<in> set (map fst (decode_list topid (idnum + 1) rs))"
    then obtain q where "(jd, q) \<in> set (decode_list topid (idnum + 1) rs)" by auto
    from decode_ids(2) [OF _ _ 3(5) this] 3(3,4) have "\<exists>k ks. jd = topid @ k # ks \<and> idnum + 1 \<le> k" by simp
    moreover obtain q' where "(jd, q') \<in> set (decode_parts (topid @ [idnum]) r)"
      using t(2) by (auto simp del: decode_parts.simps)
    from decode_ids(1) [OF _ _ this] 3(3,4,5) have "\<exists>ks. jd = topid @ idnum # ks" by simp
    ultimately show False by auto
  qed
  then have "idnum \<noteq> 0 \<Longrightarrow>
      set (map fst (decode_parts (topid @ [idnum]) r)) \<inter> set (map fst (decode_list topid (idnum + 1) rs)) = {}"
    by blast
  moreover have "idnum \<noteq> 0 \<Longrightarrow> distinct (map fst (decode_parts (topid @ [idnum]) r))"
    using 3(1) 3(3-5) by simp
  moreover have "distinct (map fst (decode_list topid (idnum + 1) rs))"
    using 3(2) 3(3-5) by simp
  ultimately show ?case
    by (cases "idnum = 0") (simp_all only: decode_list.simps map_append distinct_append if_True if_False append_Nil
        list.map simp_thms)
qed simp

lemma fold_last_match:
  assumes "distinct (map fst xs)" "(a, b) \<in> set xs" "\<And>a' b'. (a', b') \<in> set xs \<Longrightarrow> P a' \<longleftrightarrow> a' = a"
  shows "fold (\<lambda>(a, b) found. if P a then Some b else found) xs found = Some b"
  using assms
proof (induction xs arbitrary: found)
  case (Cons x xs)
  have keep: "fold (\<lambda>(a, b) found. if P a then Some b else found) xs f = f" if "\<forall>x \<in> set xs. \<not> P (fst x)" for f
    using that by (induction xs) auto
  show ?case
  proof (cases "x = (a, b)")
    case True
    with Cons.prems have "\<not> P (fst x)" if "x \<in> set xs" for x
      using that by (cases x) (force simp: image_iff)
    with True Cons.prems(3) [of a b] show ?thesis by (simp add: keep)
  next
    case False
    with Cons show ?thesis by auto
  qed
qed simp

fun all_parts :: "mime_part \<Rightarrow> mime_part set" where
  "all_parts (Part i ps) = insert (Part i ps) (\<Union>p \<in> set ps. all_parts p)"

lemma all_parts_self: "p \<in> all_parts p"
  by (cases p) simp

lemma all_parts_sub: "p \<in> set (subparts r) \<Longrightarrow> q \<in> all_parts p \<Longrightarrow> q \<in> all_parts r"
  by (cases r) auto

lemma search_found:
  "rfc2045_searchcontenttype defcharset rfc ct = Some q \<Longrightarrow>
     q \<in> all_parts rfc \<and> fst (rfc2045_mimeinfo defcharset (info q)) = ct"
  "search_list defcharset ps ct = Some q \<Longrightarrow>
     (\<exists>p \<in> set ps. q \<in> all_parts p) \<and> fst (rfc2045_mimeinfo defcharset (info q)) = ct"
proof (induction defcharset rfc ct and defcharset ps ct rule: rfc2045_searchcontenttype_search_list.induct)
  case (1 defcharset rfc ct)
  then show ?case using all_parts_self all_parts_sub by (auto split: if_splits)
next
  case (3 defcharset p ps ct)
  then show ?case
    using all_parts_self by (auto simp: Let_def simp del: rfc2045_searchcontenttype.simps split: if_splits)
qed simp

text \<open>
  The numbers of the sections are addresses: no two sections have the same, and the lookup of a number as it is
  written finds the section. What the search for a content type returns has that type and is a section of the message.
\<close>

theorem mime_sections_found:
  assumes "narrow p"
  shows "distinct (map fst (rfc2045_decode p)) \<and>
    (\<forall>(topid, q) \<in> set (rfc2045_decode p). rfc2045_find p (print_id topid) = Some q) \<and>
    (\<forall>q. rfc2045_searchcontenttype defcharset p ct = Some q \<longrightarrow>
      q \<in> all_parts p \<and> fst (rfc2045_mimeinfo defcharset (info q)) = ct)"
proof -
  let ?l = "decode_parts [1] p"
  have d: "distinct (map fst ?l)" by (rule decode_distinct(1) [OF assms]) simp
  have "rfc2045_find p (print_id topid) = Some q" if "(topid, q) \<in> set ?l" for topid q
  proof -
    have "list_all (\<lambda>i. i < 2 ^ 32) jd \<and> (\<exists>ks. jd = [1] @ ks)" if "(jd, r) \<in> set ?l" for jd r
      by (rule decode_ids(1) [OF assms _ that]) simp
    then have "id_match jd (print_id topid) \<longleftrightarrow> jd = topid" if "(jd, r) \<in> set ?l" for jd r
      using id_match_print [of jd topid] that \<open>(topid, q) \<in> set ?l\<close> by fastforce
    from fold_last_match [OF d that this] show ?thesis
      by (simp add: rfc2045_find_def rfc2045_decode_def)
  qed
  with d search_found(1) show ?thesis unfolding rfc2045_decode_def by blast
qed

definition two_sections :: mime_part where
  "two_sections = Part (alloc_info\<lparr>content_type := Some ''multipart/mixed''\<rparr>)
     [Part alloc_info [], Part (alloc_info\<lparr>content_type := Some ''text/html''\<rparr>) [], Part alloc_info []]"

lemma mime_sections_found_witness:
  "map fst (rfc2045_decode two_sections) = [[1], [1, 1], [1, 2]] \<and>
   rfc2045_find two_sections ''1.1'' = Some (Part (alloc_info\<lparr>content_type := Some ''text/html''\<rparr>) [])"
proof -
  have ids: "map fst (rfc2045_decode two_sections) = [[1], [1, 1], [1, 2]]" by code_simp
  have "narrow two_sections" by (simp add: two_sections_def)
  note found = mime_sections_found [OF this]
  have "([1, 1], Part (alloc_info\<lparr>content_type := Some ''text/html''\<rparr>) []) \<in> set (rfc2045_decode two_sections)"
    by code_simp
  with found have "rfc2045_find two_sections (print_id [1, 1]) = Some (Part (alloc_info\<lparr>content_type := Some ''text/html''\<rparr>) [])"
    by blast
  moreover have "print_id [1, 1] = ''1.1''" by code_simp
  ultimately show ?thesis using ids by simp
qed

end
