(* ===== verification/Charset.thy ===== *)
theory Charset
  imports Utf8
begin

text \<open>
  Conversion between character sets (\<^verbatim>\<open>unicode/unicode.c\<close>, \<^verbatim>\<open>unicode2.c\<close>) and the functions the single byte
  character sets share (\<^verbatim>\<open>iso8859.c\<close>, \<^verbatim>\<open>iso8859_convert.c\<close>, \<^verbatim>\<open>windows874u.c\<close>, \<^verbatim>\<open>ibm864convert.c\<close>). A
  \<^verbatim>\<open>struct unicode_info\<close> is a record of functions; the locale \<open>charset\<close> is the contract the conversions rely on,
  \<open>exact_charset\<close> the one of a character set where every text is the only encoding of its characters.
  A conversion returns the array, or the offset of the character that cannot be converted when the caller asked for it (\<open>ip\<close>).
\<close>

record unicode_info =
  chset :: string
  uflags :: nat
  c2u :: "bool \<Rightarrow> string \<Rightarrow> nat + unicode_char list"
  u2c :: "bool \<Rightarrow> unicode_char list \<Rightarrow> nat + string"
  toupper_func :: "bool \<Rightarrow> string \<Rightarrow> nat + string"
  tolower_func :: "bool \<Rightarrow> string \<Rightarrow> nat + string"
  totitle_func :: "bool \<Rightarrow> string \<Rightarrow> nat + string"

subsection \<open>Single byte character sets\<close>

text \<open>The loop all of these functions have: a character at a time, \<open>None\<close> stops it.\<close>

fun conv_loop :: "('a \<Rightarrow> 'b option) \<Rightarrow> nat \<Rightarrow> 'a list \<Rightarrow> nat + 'b list" where
  "conv_loop f l [] = Inr []"
| "conv_loop f l (x # xs) =
     (case f x of
        None \<Rightarrow> Inl l
      | Some y \<Rightarrow> (case conv_loop f (l + 1) xs of Inl e \<Rightarrow> Inl e | Inr ys \<Rightarrow> Inr (y # ys)))"

definition iso8859_c2u_char :: "bool \<Rightarrow> unicode_char list \<Rightarrow> char \<Rightarrow> unicode_char option" where
  "iso8859_c2u_char err table s =
     (let c = (if code s < 128 then int (code s) else table ! (code s AND 0x7F))
      in if c = 0 then if err then None else Some (int (code s)) else Some c)"

definition unicode_iso8859_c2u :: "string \<Rightarrow> bool \<Rightarrow> unicode_char list \<Rightarrow> nat + unicode_char list" where
  "unicode_iso8859_c2u str err table = conv_loop (iso8859_c2u_char err table) 0 str"

text \<open>The search of the table, when the guess was wrong, and the byte that is stored.\<close>

definition find_byte :: "nat \<Rightarrow> unicode_char list \<Rightarrow> unicode_char \<Rightarrow> nat option" where
  "find_byte n tab uc = find (\<lambda>c. tab ! c = uc) [0..<n]"

definition store_byte :: "int \<Rightarrow> char" where
  "store_byte c = to_char (if c = 0 then 255 else c)"

definition iso8859_u2c_char :: "bool \<Rightarrow> unicode_char list \<Rightarrow> unicode_char \<Rightarrow> char option" where
  "iso8859_u2c_char errflag tab ucc =
     (if ucc AND 0x7F = ucc then Some (store_byte ucc)
      else if tab ! nat (ucc AND 0x7F) = ucc then Some (store_byte ((ucc AND 0x7F) OR 0x80))
      else case find_byte 128 tab ucc of
             Some c \<Rightarrow> Some (store_byte (int c OR 0x80))
           | None \<Rightarrow> if errflag then None else Some (store_byte (ucc OR 0x80)))"

definition unicode_iso8859_u2c :: "unicode_char list \<Rightarrow> bool \<Rightarrow> unicode_char list \<Rightarrow> nat + string" where
  "unicode_iso8859_u2c uc errflag tab = conv_loop (iso8859_u2c_char errflag tab) 0 uc"

text \<open>A second guess, for the Thai block.\<close>

definition windows874_u2c_char :: "bool \<Rightarrow> unicode_char list \<Rightarrow> unicode_char \<Rightarrow> char option" where
  "windows874_u2c_char errflag tab ucc =
     (if ucc AND 0x7F = ucc then Some (store_byte ucc)
      else if tab ! nat (ucc AND 0x7F) = ucc then Some (store_byte ((ucc AND 0x7F) OR 0x80))
      else if ucc > 0x0E00 \<and> ucc < 0x0E60 \<and> tab ! nat ((ucc + 0x20) AND 0x7F) = ucc then
        Some (store_byte (((ucc + 0x20) AND 0x7F) OR 0x80))
      else case find_byte 128 tab ucc of
             Some c \<Rightarrow> Some (store_byte (int c OR 0x80))
           | None \<Rightarrow> if errflag then None else Some (store_byte (ucc OR 0x80)))"

definition unicode_windows874_u2c :: "unicode_char list \<Rightarrow> bool \<Rightarrow> unicode_char list \<Rightarrow> nat + string" where
  "unicode_windows874_u2c uc errflag tab = conv_loop (windows874_u2c_char errflag tab) 0 uc"

text \<open>The table of IBM864 has 256 entries: the percent sign is not ASCII.\<close>

definition ibm864_c2u_char :: "bool \<Rightarrow> unicode_char list \<Rightarrow> char \<Rightarrow> unicode_char option" where
  "ibm864_c2u_char err table s =
     (let c = table ! code s
      in if c = 0 then if err then None else Some (int (code s)) else Some c)"

definition unicode_ibm864_c2u :: "string \<Rightarrow> bool \<Rightarrow> unicode_char list \<Rightarrow> nat + unicode_char list" where
  "unicode_ibm864_c2u str err table = conv_loop (ibm864_c2u_char err table) 0 str"

definition ibm864_u2c_char :: "bool \<Rightarrow> unicode_char list \<Rightarrow> unicode_char \<Rightarrow> char option" where
  "ibm864_u2c_char errflag tab ucc =
     (if tab ! nat (ucc AND 0xFF) = ucc then Some (store_byte (ucc AND 0xFF))
      else case find_byte 256 tab ucc of
             Some c \<Rightarrow> Some (store_byte (int c))
           | None \<Rightarrow> if errflag then None else Some (store_byte ucc))"

definition unicode_ibm864_u2c :: "unicode_char list \<Rightarrow> bool \<Rightarrow> unicode_char list \<Rightarrow> nat + string" where
  "unicode_ibm864_u2c uc errflag tab = conv_loop (ibm864_u2c_char errflag tab) 0 uc"

text \<open>Case conversion: a byte the table has no entry for is an error, or stays as it is.\<close>

definition iso8859_convert_char :: "bool \<Rightarrow> string \<Rightarrow> char \<Rightarrow> char option" where
  "iso8859_convert_char err table q =
     (let c = table ! code q in if c = nul then if err then None else Some q else Some c)"

definition unicode_iso8859_convert :: "string \<Rightarrow> bool \<Rightarrow> string \<Rightarrow> nat + string" where
  "unicode_iso8859_convert str err table = conv_loop (iso8859_convert_char err table) 0 str"

text \<open>The structures of the three kinds of character sets, with the functions their files have.\<close>

definition iso8859_info :: "string \<Rightarrow> unicode_char list \<Rightarrow> string \<Rightarrow> string \<Rightarrow> string \<Rightarrow> unicode_info" where
  "iso8859_info name tab uc lc tc =
     \<lparr>chset = name, uflags = 0, c2u = (\<lambda>ip cp. unicode_iso8859_c2u cp ip tab), u2c = (\<lambda>ip cp. unicode_iso8859_u2c cp ip tab),
      toupper_func = (\<lambda>ip cp. unicode_iso8859_convert cp ip uc), tolower_func = (\<lambda>ip cp. unicode_iso8859_convert cp ip lc),
      totitle_func = (\<lambda>ip cp. unicode_iso8859_convert cp ip tc)\<rparr>"

definition windows874_info :: "string \<Rightarrow> unicode_char list \<Rightarrow> string \<Rightarrow> string \<Rightarrow> string \<Rightarrow> unicode_info" where
  "windows874_info name tab uc lc tc =
     (iso8859_info name tab uc lc tc)\<lparr>u2c := (\<lambda>ip cp. unicode_windows874_u2c cp ip tab)\<rparr>"

definition ibm864_info :: "string \<Rightarrow> unicode_char list \<Rightarrow> string \<Rightarrow> string \<Rightarrow> string \<Rightarrow> unicode_info" where
  "ibm864_info name tab uc lc tc =
     (iso8859_info name tab uc lc tc)\<lparr>c2u := (\<lambda>ip cp. unicode_ibm864_c2u cp ip tab), u2c := (\<lambda>ip cp. unicode_ibm864_u2c cp ip tab)\<rparr>"

subsection \<open>Conversion\<close>

text \<open>The characters a function sees in an array: up to the first zero.\<close>

definition uchars :: "unicode_char list \<Rightarrow> unicode_char list" where
  "uchars = takeWhile (\<lambda>u. u \<noteq> 0)"

definition unicode_convert :: "string \<Rightarrow> unicode_info \<Rightarrow> unicode_info \<Rightarrow> string option" where
  "unicode_convert txt from to =
     (if chset from = chset to then Some txt
      else case c2u from True txt of
             Inl _ \<Rightarrow> None
           | Inr uc \<Rightarrow> (case u2c to True (uchars uc) of Inl _ \<Rightarrow> None | Inr s \<Rightarrow> Some s))"

text \<open>
  The list of character sets, in the order of the search, is generated from \<^verbatim>\<open>charsetlist.txt\<close> when the library is
  built; \<open>iso88591\<close> is \<open>unicode_ISO8859_1\<close>.
\<close>

definition unicode_find :: "unicode_info \<Rightarrow> (string \<times> unicode_info) list \<Rightarrow> string option \<Rightarrow> unicode_info option" where
  "unicode_find iso88591 unicode_chsetlist name =
     (case name of
        None \<Rightarrow> Some iso88591
      | Some name \<Rightarrow>
          let p = map toupper name
          in if chset iso88591 = p then Some iso88591
             else map_option snd (find (\<lambda>e. fst e = p) unicode_chsetlist))"

definition unicode_convert_fromchset ::
    "unicode_info \<Rightarrow> (string \<times> unicode_info) list \<Rightarrow> string \<Rightarrow> string option \<Rightarrow> unicode_info \<Rightarrow> string option" where
  "unicode_convert_fromchset iso88591 unicode_chsetlist txt from to =
     (case unicode_find iso88591 unicode_chsetlist from of None \<Rightarrow> None | Some fromu \<Rightarrow> unicode_convert txt fromu to)"

definition unicode_ctoutf8 :: "unicode_info \<Rightarrow> string \<Rightarrow> bool \<Rightarrow> nat + string" where
  "unicode_ctoutf8 ui c err = (case c2u ui err c of Inl l \<Rightarrow> Inl l | Inr uc \<Rightarrow> Inr (unicode_utf8_fromu (uchars uc)))"

definition unicode_cfromutf8 :: "unicode_info \<Rightarrow> string \<Rightarrow> bool \<Rightarrow> nat + string" where
  "unicode_cfromutf8 ui c err =
     (case unicode_utf8_tou err c of
        Inl l \<Rightarrow> Inl l
      | Inr uc \<Rightarrow> (case u2c ui err (uchars uc) of Inl l \<Rightarrow> Inl 0 | Inr p \<Rightarrow> Inr p))"

subsection \<open>Conversion that ignores errors\<close>

text \<open>
  The string under construction and the size of its buffer (\<^verbatim>\<open>struct ux_buf\<close>); \<open>None\<close> when \<^verbatim>\<open>strcat\<close> writes past it.
\<close>

type_synonym ux_buf = "string \<times> nat"

definition ux_alloc :: "nat \<Rightarrow> ux_buf \<Rightarrow> ux_buf" where
  "ux_alloc l = (\<lambda>(buffer, bufsize). (buffer, if l < bufsize then bufsize else l + 64))"

definition ux_strcat :: "string \<Rightarrow> ux_buf \<Rightarrow> ux_buf option" where
  "ux_strcat s = (\<lambda>(buffer, bufsize). if length buffer + length s < bufsize then Some (buffer @ s, bufsize) else None)"

text \<open>
  The attempt with the whole text, and the one with the text before the error: the result, and how much of the text was
  converted.
\<close>

definition conv_part :: "(bool \<Rightarrow> 'a list \<Rightarrow> nat + 'b list) \<Rightarrow> 'a list \<Rightarrow> ('b list \<times> nat) option" where
  "conv_part f x =
     (case f True x of
        Inr y \<Rightarrow> Some (y, length x)
      | Inl d \<Rightarrow> (case f True (take d x) of Inl _ \<Rightarrow> None | Inr y \<Rightarrow> Some (y, d)))"

text \<open>The inner loop, over the characters: those the destination does not have become periods.\<close>

function xconvert_out :: "unicode_info \<Rightarrow> unicode_char list \<Rightarrow> ux_buf \<Rightarrow> ux_buf option" where
  "xconvert_out to ucptr dst =
     (if ucptr = [] then Some dst
      else
        case conv_part (u2c to) ucptr of
          None \<Rightarrow> None
        | Some (s, cnt_done) \<Rightarrow>
            (case ux_strcat s (ux_alloc (length (fst dst) + length s + 2) dst) of
               None \<Rightarrow> None
             | Some dst \<Rightarrow>
                 if drop cnt_done ucptr = [] then Some dst
                 else (case ux_strcat ''.'' dst of
                         None \<Rightarrow> None
                       | Some dst \<Rightarrow> xconvert_out to (drop (cnt_done + 1) ucptr) dst)))"
  by pat_completeness auto
termination
  by (relation "measure (\<lambda>(to, ucptr, dst). length ucptr)") auto

text \<open>The outer loop, over the text: bytes that are no characters of the source are passed on as they are.\<close>

function xconvert_in :: "unicode_info \<Rightarrow> unicode_info \<Rightarrow> string \<Rightarrow> ux_buf \<Rightarrow> ux_buf option" where
  "xconvert_in from to cur_conv dst =
     (if cur_conv = [] then Some dst
      else
        case conv_part (c2u from) cur_conv of
          None \<Rightarrow> None
        | Some (uc, l) \<Rightarrow>
            (case xconvert_out to (uchars uc) dst of
               None \<Rightarrow> None
             | Some dst \<Rightarrow>
                 if drop l cur_conv = [] then Some dst
                 else (case ux_strcat [hd (drop l cur_conv)] (ux_alloc (length (fst dst) + 1) dst) of
                         None \<Rightarrow> None
                       | Some dst \<Rightarrow> xconvert_in from to (drop (l + 1) cur_conv) dst)))"
  by pat_completeness auto
termination
  by (relation "measure (\<lambda>(from, to, cur_conv, dst). length cur_conv)") auto

declare xconvert_out.simps [simp del] xconvert_in.simps [simp del]

definition unicode_xconvert :: "string \<Rightarrow> unicode_info \<Rightarrow> unicode_info \<Rightarrow> string option" where
  "unicode_xconvert txt from to =
     (if chset from = chset to then Some txt
      else map_option fst (xconvert_in from to txt (ux_alloc (length txt * 2) ([], 0))))"

subsection \<open>The contract of a character set\<close>

definition uvalid :: "unicode_char list \<Rightarrow> bool" where
  "uvalid us \<longleftrightarrow> list_all (\<lambda>u. 0 < u \<and> u < 2 ^ 31) us"

lemma uchars_valid [simp]: "uvalid us \<Longrightarrow> uchars us = us"
  by (simp add: uvalid_def uchars_def takeWhile_eq_all_conv list_all_iff) blast

lemma uvalid_uchars: "list_all (\<lambda>u. 0 \<le> u \<and> u < 2 ^ 31) u \<Longrightarrow> uvalid (uchars u)"
  by (auto simp: uvalid_def uchars_def list_all_iff dest!: set_takeWhileD)

lemma uvalid_take: "uvalid u \<Longrightarrow> uvalid (take n u)" and uvalid_drop: "uvalid u \<Longrightarrow> uvalid (drop n u)"
  by (auto simp: uvalid_def list_all_iff dest: in_set_takeD in_set_dropD)

lemma uchars_no_zero: "0 \<notin> set (uchars us)"
  by (auto simp: uchars_def dest: set_takeWhileD)

locale charset =
  fixes cs :: unicode_info
  assumes c2u_error: "cstring s \<Longrightarrow> c2u cs True s = Inl d \<Longrightarrow> d < length s \<and> (\<exists>u. c2u cs True (take d s) = Inr u)"
    and u2c_error: "0 \<notin> set u \<Longrightarrow> u2c cs True u = Inl d \<Longrightarrow> d < length u \<and> (\<exists>s. u2c cs True (take d u) = Inr s)"
    and c2u_Nil: "c2u cs True [] = Inr []"
    and u2c_Nil: "u2c cs True [] = Inr []"
    and c2u_u2c: "uvalid u \<Longrightarrow> u2c cs True u = Inr s \<Longrightarrow> c2u cs True s = Inr u"
    and c2u_range: "cstring s \<Longrightarrow> c2u cs True s = Inr u \<Longrightarrow> list_all (\<lambda>u. 0 \<le> u \<and> u < 2 ^ 31) u"
    and u2c_cstring: "uvalid u \<Longrightarrow> u2c cs True u = Inr s \<Longrightarrow> cstring s"
begin

lemma conv_part_out: "0 \<notin> set u \<Longrightarrow> \<exists>s d. conv_part (u2c cs) u = Some (s, d)"
  using u2c_error [of u] by (fastforce simp: conv_part_def split: sum.splits)

lemma conv_part_in: "cstring s \<Longrightarrow> \<exists>u d. conv_part (c2u cs) s = Some (u, d)"
  using c2u_error [of s] by (fastforce simp: conv_part_def split: sum.splits)

text \<open>Every text is converted, and never past the buffer.\<close>

lemma out_total: "0 \<notin> set us \<Longrightarrow> \<exists>dst'. xconvert_out cs us dst = Some dst'"
proof (induction "length us" arbitrary: us dst rule: less_induct)
  case less
  show ?case
  proof (cases "us = []")
    case True
    then show ?thesis by (simp add: xconvert_out.simps)
  next
    case False
    obtain s d where p: "conv_part (u2c cs) us = Some (s, d)" using conv_part_out [OF less.prems] by blast
    obtain b n where dst: "dst = (b, n)" by (cases dst)
    let ?m = "snd (ux_alloc (length b + length s + 2) dst)"
    have m: "ux_strcat s (ux_alloc (length b + length s + 2) dst) = Some (b @ s, ?m)" "length b + length s + 2 \<le> ?m"
      by (simp_all add: ux_strcat_def ux_alloc_def dst)
    then have d1: "ux_strcat ''.'' (b @ s, ?m) = Some (b @ s @ ''.'', ?m)" by (simp add: ux_strcat_def)
    have "length (drop (d + 1) us) < length us" "0 \<notin> set (drop (d + 1) us)"
      using False less.prems by (auto dest: in_set_dropD)
    from less.hyps [OF this] p m(1) d1 False show ?thesis
      by (subst xconvert_out.simps) (auto simp: dst)
  qed
qed

lemma in_total:
  assumes "charset to"
  shows "cstring s \<Longrightarrow> \<exists>dst'. xconvert_in cs to s dst = Some dst'"
proof (induction "length s" arbitrary: s dst rule: less_induct)
  case less
  show ?case
  proof (cases "s = []")
    case True
    then show ?thesis by (simp add: xconvert_in.simps)
  next
    case False
    obtain u d where p: "conv_part (c2u cs) s = Some (u, d)" using conv_part_in [OF less.prems] by blast
    obtain b n where dst: "xconvert_out to (uchars u) dst = Some (b, n)"
      using charset.out_total [OF assms uchars_no_zero, of u dst] by auto
    have "\<exists>dst1. ux_strcat [hd (drop d s)] (ux_alloc (length b + 1) (b, n)) = Some dst1"
      by (simp add: ux_strcat_def ux_alloc_def)
    then obtain dst1 where s: "ux_strcat [hd (drop d s)] (ux_alloc (length b + 1) (b, n)) = Some dst1" ..
    have "length (drop (d + 1) s) < length s" "cstring (drop (d + 1) s)"
      using False less.prems by (auto simp: cstring_def dest: in_set_dropD)
    from less.hyps [OF this] p dst s False show ?thesis
      by (subst xconvert_in.simps) auto
  qed
qed

lemma xconvert_total: "charset to \<Longrightarrow> cstring txt \<Longrightarrow> \<exists>s. unicode_xconvert txt cs to = Some s"
  using in_total [where dst = "ux_alloc (length txt * 2) ([], 0)"] by (auto simp: unicode_xconvert_def)

text \<open>The results are C strings.\<close>

lemma convert_cstring:
  assumes "charset to" "cstring txt" "unicode_convert txt cs to = Some s"
  shows "cstring s"
  using assms(2,3) charset.u2c_cstring [OF assms(1) uvalid_uchars [OF c2u_range [OF assms(2)]]]
  by (auto simp: unicode_convert_def split: if_splits sum.splits)

lemma out_cstring: "uvalid us \<Longrightarrow> xconvert_out cs us dst = Some dst' \<Longrightarrow> cstring (fst dst) \<Longrightarrow> cstring (fst dst')"
proof (induction "length us" arbitrary: us dst rule: less_induct)
  case less
  show ?case
  proof (cases "us = []")
    case True
    with less.prems show ?thesis by (simp add: xconvert_out.simps)
  next
    case False
    obtain s d where p: "conv_part (u2c cs) us = Some (s, d)"
      using less.prems(2) False by (subst (asm) xconvert_out.simps) (auto split: option.splits)
    then have s: "cstring s"
      using u2c_cstring [OF less.prems(1)] u2c_cstring [OF uvalid_take [OF less.prems(1)]]
      by (auto simp: conv_part_def split: sum.splits)
    obtain b n where dst: "dst = (b, n)" by (cases dst)
    have "length (drop (Suc d) us) < length us" using False by simp
    from less.hyps [OF this uvalid_drop [OF less.prems(1)]]
    have IH: "xconvert_out cs (drop (Suc d) us) dst1 = Some dst' \<Longrightarrow> nul \<notin> set (fst dst1) \<Longrightarrow> nul \<notin> set (fst dst')" for dst1
      by (simp add: cstring_def)
    from less.prems(2,3) p s dst False show ?thesis
      by (subst (asm) xconvert_out.simps)
        (auto simp: ux_strcat_def ux_alloc_def cstring_def split: if_splits option.splits dest: IH)
  qed
qed

lemma in_cstring:
  assumes "charset to"
  shows "cstring s \<Longrightarrow> xconvert_in cs to s dst = Some dst' \<Longrightarrow> cstring (fst dst) \<Longrightarrow> cstring (fst dst')"
proof (induction "length s" arbitrary: s dst rule: less_induct)
  case less
  show ?case
  proof (cases "s = []")
    case True
    with less.prems show ?thesis by (simp add: xconvert_in.simps)
  next
    case False
    from less.prems(2) obtain u d dst1 where p: "conv_part (c2u cs) s = Some (u, d)" "xconvert_out to (uchars u) dst = Some dst1"
      using False by (subst (asm) xconvert_in.simps) (auto split: option.splits)
    have "cstring (take d s)" using less.prems(1) by (auto simp: cstring_def dest: in_set_takeD)
    note range = c2u_range [OF less.prems(1)] c2u_range [OF this]
    from p(1) have "uvalid (uchars u)"
      by (auto simp: conv_part_def split: sum.splits intro!: uvalid_uchars dest: range)
    from charset.out_cstring [OF assms this p(2) less.prems(3)] have c: "cstring (fst dst1)" .
    have "length (drop (Suc d) s) < length s" "cstring (drop (Suc d) s)"
      using False less.prems(1) by (auto simp: cstring_def dest: in_set_dropD)
    from less.hyps [OF this]
    have IH: "xconvert_in cs to (drop (Suc d) s) dst1 = Some dst' \<Longrightarrow> nul \<notin> set (fst dst1) \<Longrightarrow> nul \<notin> set (fst dst')" for dst1
      by (simp add: cstring_def)
    have "hd (drop d s) \<noteq> nul" if "drop d s \<noteq> []"
      using less.prems(1) that by (metis cstring_def hd_in_set in_set_dropD)
    with less.prems(2) p c False show ?thesis
      by (subst (asm) xconvert_in.simps)
        (auto simp: ux_strcat_def ux_alloc_def cstring_def split: if_splits option.splits prod.splits dest: IH)
  qed
qed

lemma xconvert_cstring: "charset to \<Longrightarrow> cstring txt \<Longrightarrow> unicode_xconvert txt cs to = Some s \<Longrightarrow> cstring s"
  using in_cstring [where dst = "ux_alloc (length txt * 2) ([], 0)"]
  by (auto simp: unicode_xconvert_def cstring_def ux_alloc_def split: if_splits)

text \<open>On a text that can be converted there is nothing to ignore.\<close>

lemma xconvert_convert:
  assumes "charset to" "unicode_convert txt cs to = Some s"
  shows "unicode_xconvert txt cs to = Some s"
proof (cases "chset cs = chset to")
  case True
  with assms(2) show ?thesis by (simp add: unicode_convert_def unicode_xconvert_def)
next
  case False
  with assms(2) obtain uc where c: "c2u cs True txt = Inr uc" "u2c to True (uchars uc) = Inr s"
    by (auto simp: unicode_convert_def split: sum.splits)
  have out: "map_option fst (xconvert_out to (uchars uc) ([], n)) = Some s" for n
    using c(2) charset.u2c_Nil [OF assms(1)]
    by (subst xconvert_out.simps) (auto simp: conv_part_def ux_strcat_def ux_alloc_def)
  show ?thesis
  proof (cases "txt = []")
    case True
    with c c2u_Nil charset.u2c_Nil [OF assms(1)] have "s = []" by (simp add: uchars_def)
    with True \<open>chset cs \<noteq> chset to\<close> show ?thesis by (simp add: unicode_xconvert_def xconvert_in.simps ux_alloc_def)
  next
    case False
    then have "xconvert_in cs to txt dst = xconvert_out to (uchars uc) dst" for dst
      using c(1) by (subst xconvert_in.simps) (simp add: conv_part_def split: option.splits)
    with out \<open>chset cs \<noteq> chset to\<close> show ?thesis by (simp add: unicode_xconvert_def ux_alloc_def)
  qed
qed

end

text \<open>A character set where every text is the only encoding of its characters.\<close>

locale exact_charset = charset +
  assumes u2c_c2u: "cstring s \<Longrightarrow> c2u cs True s = Inr u \<Longrightarrow> uvalid u \<and> u2c cs True u = Inr s"
begin

lemma convert_back:
  assumes "charset to" "cstring txt" "unicode_convert txt cs to = Some s"
  shows "unicode_convert s to cs = Some txt"
proof (cases "chset cs = chset to")
  case True
  with assms(3) show ?thesis by (simp add: unicode_convert_def)
next
  case False
  with assms(3) obtain uc where c: "c2u cs True txt = Inr uc" "u2c to True (uchars uc) = Inr s"
    by (auto simp: unicode_convert_def split: sum.splits)
  from u2c_c2u [OF assms(2) c(1)] have uc: "uvalid uc" "u2c cs True uc = Inr txt" by simp_all
  then have "c2u to True s = Inr uc" using c(2) charset.c2u_u2c [OF assms(1)] by simp
  with uc False show ?thesis by (simp add: unicode_convert_def)
qed

end

subsection \<open>Single byte character sets keep the contract\<close>

lemma conv_loop_Inr: "conv_loop f l xs = Inr ys \<longleftrightarrow> list_all2 (\<lambda>x y. f x = Some y) xs ys"
proof (induction xs arbitrary: l ys)
  case (Cons x xs)
  show ?case
    using Cons.IH [of "l + 1" "tl ys"] by (cases ys; cases "conv_loop f (l + 1) xs") (simp_all split: option.split)
qed auto

lemma conv_loop_Inl: "conv_loop f l xs = Inl d \<Longrightarrow> l \<le> d \<and> d < l + length xs \<and> (\<exists>ys. conv_loop f l (take (d - l) xs) = Inr ys)"
proof (induction xs arbitrary: l)
  case (Cons x xs)
  show ?case
  proof (cases "f x")
    case (Some y)
    with Cons.prems have "conv_loop f (l + 1) xs = Inl d" by (auto split: sum.splits)
    from Cons.IH [OF this] obtain ys
      where d: "l + 1 \<le> d" "d < l + 1 + length xs" "conv_loop f (l + 1) (take (d - (l + 1)) xs) = Inr ys"
      by blast
    then have "d - l = Suc (d - (l + 1))" by simp
    then have "take (d - l) (x # xs) = x # take (d - (l + 1)) xs" by (simp only: take_Suc_Cons)
    with d Some show ?thesis by auto
  qed (use Cons.prems in simp)
qed simp

text \<open>The step functions of a character set, inverse to each other.\<close>

locale byte_set =
  fixes to_u :: "char \<Rightarrow> unicode_char option"
    and to_c :: "unicode_char \<Rightarrow> char option"
  assumes to_u_nul: "to_u nul = None"
    and to_c_to_u: "c \<noteq> nul \<Longrightarrow> to_u c = Some u \<Longrightarrow> 0 < u \<and> u < 2 ^ 31 \<and> to_c u = Some c"
    and to_u_to_c: "0 < u \<Longrightarrow> u < 2 ^ 31 \<Longrightarrow> to_c u = Some c \<Longrightarrow> to_u c = Some u"
begin

lemma exact:
  assumes "c2u cs True = conv_loop to_u 0" "u2c cs True = conv_loop to_c 0"
  shows "exact_charset cs"
proof
  show "d < length s \<and> (\<exists>u. c2u cs True (take d s) = Inr u)" if "c2u cs True s = Inl d" for s d
    using conv_loop_Inl [of to_u 0 s d] that by (simp add: assms)
  show "d < length u \<and> (\<exists>s. u2c cs True (take d u) = Inr s)" if "u2c cs True u = Inl d" for u d
    using conv_loop_Inl [of to_c 0 u d] that by (simp add: assms)
  show "c2u cs True s = Inr u" if "uvalid u" "u2c cs True u = Inr s" for u s
  proof -
    have "list_all2 (\<lambda>u c. to_c u = Some c) u s" using that(2) by (simp add: assms conv_loop_Inr)
    with that(1) have "list_all2 (\<lambda>c u. to_u c = Some u) s u"
      by (auto simp: list_all2_conv_all_nth uvalid_def list_all_length to_u_to_c)
    then show ?thesis by (simp add: assms conv_loop_Inr)
  qed
  show "uvalid u \<and> u2c cs True u = Inr s" if "cstring s" "c2u cs True s = Inr u" for s u
  proof -
    have "list_all2 (\<lambda>c u. to_u c = Some u) s u" using that(2) by (simp add: assms conv_loop_Inr)
    then have u: "length s = length u" "\<And>i. i < length u \<Longrightarrow> to_u (s ! i) = Some (u ! i)" "\<And>i. i < length u \<Longrightarrow> s ! i \<noteq> nul"
      using that(1) by (auto simp: list_all2_conv_all_nth cstring_def) (metis nth_mem)
    then show ?thesis
      using to_c_to_u [OF u(3) u(2)]
      by (simp add: uvalid_def list_all_length assms conv_loop_Inr list_all2_conv_all_nth)
  qed
  then show "list_all (\<lambda>u. 0 \<le> u \<and> u < 2 ^ 31) u" if "cstring s" "c2u cs True s = Inr u" for s u
    using that by (force simp: uvalid_def list_all_iff)
  show "cstring s" if "uvalid u" "u2c cs True u = Inr s" for u s
  proof -
    have "list_all2 (\<lambda>u c. to_c u = Some c) u s" using that(2) by (simp add: assms conv_loop_Inr)
    with that(1) have "to_u (s ! i) = Some (u ! i)" if "i < length s" for i
      using that by (intro to_u_to_c) (auto simp: list_all2_conv_all_nth uvalid_def list_all_length)
    with to_u_nul show ?thesis unfolding cstring_def by (metis in_set_conv_nth option.distinct(1))
  qed
qed (simp_all add: assms)

end

text \<open>What makes the tables of the single byte character sets invertible, checked for each of them.\<close>

definition distinct_codes :: "unicode_char list \<Rightarrow> bool" where
  "distinct_codes tab \<longleftrightarrow> successively (<) (sort (filter (\<lambda>u. u \<noteq> 0) tab))"

definition iso8859_table :: "unicode_char list \<Rightarrow> bool" where
  "iso8859_table tab \<longleftrightarrow> length tab = 128 \<and> list_all (\<lambda>u. u = 0 \<or> 128 \<le> u \<and> u < 65536) tab \<and> distinct_codes tab"

definition ibm864_table :: "unicode_char list \<Rightarrow> bool" where
  "ibm864_table tab \<longleftrightarrow> length tab = 256 \<and> hd tab = 0 \<and> list_all (\<lambda>u. 0 \<le> u \<and> u < 65536) tab \<and> distinct_codes tab"

lemma distinct_nth:
  assumes "distinct_codes tab" "i < length tab" "j < length tab" "tab ! i = tab ! j" "tab ! i \<noteq> 0"
  shows "i = j"
proof -
  have "distinct (filter (\<lambda>u. u \<noteq> 0) tab)"
    using assms(1) strict_sorted_iff [of "sort (filter (\<lambda>u. u \<noteq> 0) tab)"] by (simp add: distinct_codes_def successively_conv_sorted_wrt)
  then show ?thesis
    using assms(2-5)
  proof (induction tab arbitrary: i j)
    case (Cons u tab)
    then show ?case
      by (cases i; cases j) (auto split: if_splits dest: nth_mem)
  qed simp
qed

lemma find_byte_Some: "find_byte n tab u = Some c \<Longrightarrow> c < n \<and> tab ! c = u"
  by (auto simp: find_byte_def find_Some_iff)

lemma find_byte_found: "c < n \<Longrightarrow> tab ! c = u \<Longrightarrow> \<exists>d. find_byte n tab u = Some d"
  by (cases "find_byte n tab u") (auto simp: find_byte_def find_None_iff)

text \<open>Masks and bytes, arithmetically.\<close>

lemma and_127: "u AND 0x7F = u mod 128" and and_255: "u AND 0xFF = u mod 256" for u :: int
  using take_bit_eq_mask [of 7 u] take_bit_eq_mask [of 8 u] by (simp_all add: take_bit_eq_mod mask_eq_exp_minus_1)

lemma or_128: "0 \<le> c \<Longrightarrow> c < 128 \<Longrightarrow> c OR 0x80 = c + 128" for c :: int
  using or_nat_disjoint [of "nat c" 7 1] int_or_nat [of "nat c" "num.Bit0 (num.Bit0 (num.Bit0 (num.Bit0 (num.Bit0 (num.Bit0 (num.Bit0 num.One))))))"]
  by (simp add: or.commute)

lemma code_minus_128 [simp]: "code c - 128 < 128"
  using code_less_256 [of c] by linarith

lemma code_and_127: "code c AND 0x7F = (if code c < 128 then code c else code c - 128)"
  using mod_if [of "code c" 128] mod_less [OF code_minus_128, of c] by (simp add: and_mask_nat)

lemma store_byte_code: "0 < i \<Longrightarrow> i < 256 \<Longrightarrow> store_byte i = char_of (nat i)"
  using to_char_int [of "nat i"] by (simp add: store_byte_def)

lemma iso8859_c2u_step:
  assumes "iso8859_table tab" "c \<noteq> nul" "iso8859_c2u_char True tab c = Some u"
  shows "0 < u \<and> u < 65536 \<and> (if code c < 128 then u = int (code c) else tab ! (code c - 128) = u \<and> 128 \<le> u)"
proof -
  have "code c - 128 < length tab" using assms(1) by (simp add: iso8859_table_def)
  then have "tab ! (code c - 128) = 0 \<or> 128 \<le> tab ! (code c - 128) \<and> tab ! (code c - 128) < 65536"
    using assms(1) by (simp add: iso8859_table_def list_all_length)
  moreover have "code c \<noteq> 0" using assms(2) by (simp add: char_eq_code)
  ultimately show ?thesis
    using assms(3) by (auto simp: iso8859_c2u_char_def Let_def code_and_127 split: if_splits)
qed

text \<open>A byte found in the table, by a guess or by the search, is the byte of the character.\<close>

lemma table_byte:
  assumes "iso8859_table tab" "j < 128" "tab ! j = u" "0 < u"
  shows "store_byte (int j OR 0x80) = char_of (j + 128)" "iso8859_c2u_char True tab (char_of (j + 128)) = Some u"
    "i < 128 \<Longrightarrow> tab ! i = u \<Longrightarrow> i = j"
proof -
  have j: "int j OR 0x80 = int (j + 128)" using assms(2) or_128 [of "int j"] by simp
  then show "store_byte (int j OR 0x80) = char_of (j + 128)"
    unfolding j using assms(2) by (subst store_byte_code) (simp_all del: of_nat_add)
  show "iso8859_c2u_char True tab (char_of (j + 128)) = Some u"
    unfolding iso8859_c2u_char_def Let_def code_and_127 using assms(2-4) by simp
  show "i = j" if "i < 128" "tab ! i = u"
    using that assms by (intro distinct_nth [of tab]) (auto simp: iso8859_table_def)
qed

lemma ascii_byte:
  assumes "0 < u" "u < 128"
  shows "store_byte u = char_of (nat u)" "iso8859_c2u_char e tab (char_of (nat u)) = Some u"
proof -
  have n: "nat u < 128" using assms by simp
  show "store_byte u = char_of (nat u)" using assms by (simp add: store_byte_code)
  show "iso8859_c2u_char e tab (char_of (nat u)) = Some u" using assms n by (simp add: iso8859_c2u_char_def)
qed

text \<open>The bytes a character can have.\<close>

definition hit :: "unicode_char list \<Rightarrow> unicode_char \<Rightarrow> char \<Rightarrow> bool" where
  "hit tab u c \<longleftrightarrow> u < 128 \<and> c = store_byte u \<or> (\<exists>j. j < 128 \<and> tab ! j = u \<and> c = store_byte (int j OR 0x80))"

lemma hit_guess: "tab ! nat (v AND 0x7F) = u \<Longrightarrow> hit tab u (store_byte ((v AND 0x7F) OR 0x80))"
  unfolding hit_def by (intro disjI2 exI [of _ "nat (v AND 0x7F)"]) (simp add: and_127)

lemma hit_found: "find_byte 128 tab u = Some j \<Longrightarrow> hit tab u (store_byte (int j OR 0x80))"
  unfolding hit_def using find_byte_Some [of 128 tab u j] by blast

lemma hit_missing: "find_byte 128 tab u = None \<Longrightarrow> \<not> u < 128 \<Longrightarrow> \<not> hit tab u c"
  unfolding hit_def using find_byte_found [of _ 128 tab u] by fastforce

lemma ascii_127: "u AND 0x7F = u \<longleftrightarrow> 0 \<le> u \<and> u < 128" for u :: int
  by (auto simp: and_127)

lemma hit_c2u:
  assumes "iso8859_table tab" "hit tab u c" "0 < u"
  shows "iso8859_c2u_char True tab c = Some u"
  using assms ascii_byte [of u] table_byte(1,2) [OF assms(1) _ _ assms(3)] by (auto simp: hit_def)

lemma c2u_hit:
  assumes "iso8859_table tab" "c \<noteq> nul" "iso8859_c2u_char True tab c = Some u"
  shows "hit tab u c \<and> (\<forall>c'. hit tab u c' \<longrightarrow> c' = c)"
proof (cases "code c < 128")
  case True
  with iso8859_c2u_step [OF assms] have u: "u = int (code c)" "0 < u" "u < 128" by simp_all
  then have "\<And>j. j < 128 \<Longrightarrow> tab ! j \<noteq> u"
    using assms(1) unfolding iso8859_table_def list_all_length by (metis not_less less_irrefl)
  then have "hit tab u c' \<longleftrightarrow> c' = store_byte u" for c' using u(3) unfolding hit_def by blast
  moreover have "store_byte u = c" using ascii_byte(1) [OF u(2,3)] u(1) by simp
  ultimately show ?thesis by simp
next
  case False
  let ?j = "code c - 128"
  have j: "?j < 128" "tab ! ?j = u" "0 < u" "\<not> u < 128"
    using False iso8859_c2u_step [OF assms] by simp_all
  note t = table_byte [OF assms(1) j(1-3)]
  have "char_of (?j + 128) = c" using False by simp
  with t(1) have c: "c = store_byte (int ?j OR 0x80)" by simp
  have "c' = c" if h: "hit tab u c'" for c'
  proof -
    from h j(4) obtain i where i: "i < 128" "tab ! i = u" "c' = store_byte (int i OR 0x80)" unfolding hit_def by blast
    from t(3) [OF i(1,2)] i(3) c show ?thesis by simp
  qed
  moreover have "hit tab u c" unfolding hit_def by (intro disjI2 exI [of _ ?j] conjI j(1,2) c)
  ultimately show ?thesis by blast
qed

lemma hit_byte_set:
  assumes "iso8859_table tab"
    and some: "\<And>u c. 0 < u \<Longrightarrow> to_c u = Some c \<Longrightarrow> hit tab u c"
    and none: "\<And>u c. 0 < u \<Longrightarrow> to_c u = None \<Longrightarrow> \<not> hit tab u c"
  shows "byte_set (iso8859_c2u_char True tab) to_c"
proof
  show "iso8859_c2u_char True tab nul = None" by (simp add: iso8859_c2u_char_def)
next
  fix c u assume c: "c \<noteq> nul" "iso8859_c2u_char True tab c = Some u"
  have u: "0 < u" "u < 2 ^ 31" using iso8859_c2u_step [OF assms(1) c] by simp_all
  have "to_c u = Some c"
    using c2u_hit [OF assms(1) c] none [OF u(1)] some [OF u(1)] by (cases "to_c u") auto
  with u show "0 < u \<and> u < 2 ^ 31 \<and> to_c u = Some c" by simp
next
  show "iso8859_c2u_char True tab c = Some u" if "0 < u" "to_c u = Some c" for u c
    using hit_c2u [OF assms(1) some [OF that]] that(1) by simp
qed

lemma iso8859_byte_set: "iso8859_table tab \<Longrightarrow> byte_set (iso8859_c2u_char True tab) (iso8859_u2c_char True tab)"
proof (erule hit_byte_set)
  show "hit tab u c" if "0 < u" "iso8859_u2c_char True tab u = Some c" for u c
    using that by (auto simp: iso8859_u2c_char_def ascii_127 hit_guess hit_found split: if_splits option.splits)
      (simp add: hit_def)
  show "\<not> hit tab u c" if "0 < u" "iso8859_u2c_char True tab u = None" for u c
    using that hit_missing [of tab u c]
    by (auto simp: iso8859_u2c_char_def ascii_127 split: if_splits option.splits)
qed

lemma windows874_byte_set: "iso8859_table tab \<Longrightarrow> byte_set (iso8859_c2u_char True tab) (windows874_u2c_char True tab)"
proof (erule hit_byte_set)
  show "hit tab u c" if "0 < u" "windows874_u2c_char True tab u = Some c" for u c
    using that by (auto simp: windows874_u2c_char_def ascii_127 hit_guess hit_found split: if_splits option.splits)
      (simp add: hit_def)
  show "\<not> hit tab u c" if "0 < u" "windows874_u2c_char True tab u = None" for u c
    using that hit_missing [of tab u c]
    by (auto simp: windows874_u2c_char_def ascii_127 split: if_splits option.splits)
qed

lemma ibm864_byte_set:
  assumes "ibm864_table tab"
  shows "byte_set (ibm864_c2u_char True tab) (ibm864_u2c_char True tab)"
proof -
  have len: "length tab = 256" and t0: "tab ! 0 = 0" using assms by (cases tab; simp add: ibm864_table_def)+
  have small: "0 \<le> tab ! i \<and> tab ! i < 65536" if "i < 256" for i
    using assms that by (simp add: ibm864_table_def list_all_length)
  have uniq: "i = j" if "i < 256" "j < 256" "tab ! i = tab ! j" "tab ! i \<noteq> 0" for i j
    using distinct_nth [of tab i j] that assms by (simp add: ibm864_table_def)
  have u2c: "\<exists>j. j < 256 \<and> tab ! j = u \<and> c = char_of j" if "0 < u" "ibm864_u2c_char True tab u = Some c" for u c
  proof -
    have st: "store_byte (int j) = char_of j" if "tab ! j = u" "j < 256" for j
      using that t0 \<open>0 < u\<close> store_byte_code [of "int j"] by (cases "j = 0") auto
    have "\<exists>j. j < 256 \<and> tab ! j = u \<and> c = store_byte (int j)"
    proof (cases "tab ! nat (u AND 0xFF) = u")
      case True
      with that show ?thesis
        by (intro exI [of _ "nat (u AND 0xFF)"]) (auto simp: ibm864_u2c_char_def and_255)
    next
      case False
      with that show ?thesis
        by (auto simp: ibm864_u2c_char_def dest!: find_byte_Some split: option.splits)
    qed
    with st show ?thesis by auto
  qed
  show ?thesis
  proof
    show "ibm864_c2u_char True tab nul = None" using t0 by (simp add: ibm864_c2u_char_def)
  next
    fix c u assume c: "c \<noteq> nul" "ibm864_c2u_char True tab c = Some u"
    then have u: "tab ! code c = u" "u \<noteq> 0" by (auto simp: ibm864_c2u_char_def Let_def split: if_splits)
    with small [of "code c"] have pos: "0 < u" "u < 65536" by auto
    have "ibm864_u2c_char True tab u \<noteq> None"
      using find_byte_found [of "code c" 256 tab u] u(1) by (auto simp: ibm864_u2c_char_def)
    then obtain c' where c': "ibm864_u2c_char True tab u = Some c'" by auto
    from u2c [OF pos(1) this] obtain j where "j < 256" "tab ! j = u" "c' = char_of j" by blast
    with uniq [of j "code c"] u c' pos show "0 < u \<and> u < 2 ^ 31 \<and> ibm864_u2c_char True tab u = Some c" by simp
  next
    show "ibm864_c2u_char True tab c = Some u" if "0 < u" "ibm864_u2c_char True tab u = Some c" for u c
      using u2c [OF that] that(1) by (auto simp: ibm864_c2u_char_def)
  qed
qed

lemma iso8859_exact: "iso8859_table tab \<Longrightarrow> exact_charset (iso8859_info name tab uc lc tc)"
  by (rule byte_set.exact [OF iso8859_byte_set])
    (auto simp: iso8859_info_def unicode_iso8859_c2u_def unicode_iso8859_u2c_def)

lemma windows874_exact: "iso8859_table tab \<Longrightarrow> exact_charset (windows874_info name tab uc lc tc)"
  by (rule byte_set.exact [OF windows874_byte_set])
    (auto simp: windows874_info_def iso8859_info_def unicode_iso8859_c2u_def unicode_windows874_u2c_def)

lemma ibm864_exact: "ibm864_table tab \<Longrightarrow> exact_charset (ibm864_info name tab uc lc tc)"
  by (rule byte_set.exact [OF ibm864_byte_set])
    (auto simp: ibm864_info_def iso8859_info_def unicode_ibm864_c2u_def unicode_ibm864_u2c_def)

subsection \<open>Case conversion\<close>

text \<open>A table that maps no byte to the terminator and maps what it gives to itself.\<close>

definition case_table :: "string \<Rightarrow> bool" where
  "case_table t \<longleftrightarrow> (\<forall>c. c \<noteq> nul \<longrightarrow> t ! code c \<noteq> nul \<and> t ! code (t ! code c) = t ! code c)"

text \<open>The check of a table: no byte that changes is the result of a change. The sorted lists are compared in one pass.\<close>

fun apart :: "int list \<Rightarrow> int list \<Rightarrow> bool" where
  "apart [] ys \<longleftrightarrow> True"
| "apart (x # xs) [] \<longleftrightarrow> True"
| "apart (x # xs) (y # ys) \<longleftrightarrow> (if x < y then apart xs (y # ys) else if y < x then apart (x # xs) ys else False)"

definition case_codes :: "int list \<Rightarrow> bool" where
  "case_codes t \<longleftrightarrow>
     (let changed = filter (\<lambda>(i, v). i \<noteq> v) (zip [0..255] t)
      in length t = 256 \<and> list_all (\<lambda>v. 0 < v \<and> v < 256) (tl t) \<and> hd t = 0 \<and>
         apart (sort (map fst changed)) (sort (map snd changed)))"

lemma apart_disjoint: "apart xs ys \<Longrightarrow> sorted xs \<Longrightarrow> sorted ys \<Longrightarrow> set xs \<inter> set ys = {}"
  by (induction xs ys rule: apart.induct) (fastforce split: if_splits)+

lemma case_codes_table:
  assumes "case_codes t"
  shows "case_table (map to_char t)"
  unfolding case_table_def
proof (intro allI impI)
  fix c :: char assume "c \<noteq> nul"
  then have c: "0 < code c" "code c < 256" by (auto simp: char_eq_code)
  have t: "length t = 256" "list_all (\<lambda>v. 0 < v \<and> v < 256) (tl t)" using assms by (simp_all add: case_codes_def Let_def)
  have pos: "0 < t ! i \<and> t ! i < 256" if "0 < i" "i < 256" for i
    using t that by (cases t; cases i) (auto simp: list_all_length)
  define v where "v = t ! code c"
  have v: "0 < v" "v < 256" using pos [OF c] by (simp_all add: v_def)
  have "t ! nat v = v"
  proof (rule ccontr)
    assume ne: "t ! nat v \<noteq> v"
    let ?ch = "filter (\<lambda>(i, v). i \<noteq> v) (zip [0..255] t)"
    have nth: "(int i, t ! i) \<in> set (zip [0..255] t)" if "i < 256" for i
      unfolding set_zip using that t(1) by (auto simp: nth_upto intro!: exI [of _ i])
    have "(v, t ! nat v) \<in> set ?ch" using nth [of "nat v"] v ne by simp
    then have "v \<in> set (map fst ?ch)" by force
    moreover have "int (code c) \<noteq> v"
    proof
      assume "int (code c) = v"
      then have "nat v = code c" by simp
      with ne show False by (simp add: v_def)
    qed
    then have "(int (code c), v) \<in> set ?ch" using nth [OF c(2)] by (simp add: v_def)
    then have "v \<in> set (map snd ?ch)" by force
    moreover have "set (map fst ?ch) \<inter> set (map snd ?ch) = {}"
      using assms apart_disjoint [of "sort (map fst ?ch)" "sort (map snd ?ch)"] by (simp add: case_codes_def Let_def)
    ultimately show False by blast
  qed
  moreover have "to_char v \<noteq> nul" "code (to_char v) = nat v"
    using v to_char_int [of "nat v"] by (auto simp: char_eq_code)
  moreover have "map to_char t ! i = to_char (t ! i)" if "i < 256" for i using that t(1) by simp
  ultimately show "map to_char t ! code c \<noteq> nul \<and> map to_char t ! code (map to_char t ! code c) = map to_char t ! code c"
    using c v by (simp add: v_def [symmetric])
qed

lemma convert_total:
  assumes "case_table t" "cstring s"
  shows "\<exists>r. unicode_iso8859_convert s ip t = Inr r \<and> cstring r \<and> length r = length s \<and> unicode_iso8859_convert r ip t = Inr r"
proof (intro exI conjI)
  let ?r = "map (\<lambda>c. t ! code c) s"
  have t: "t ! code c \<noteq> nul" "t ! code (t ! code c) = t ! code c" if "c \<in> set s" for c
  proof -
    have "c \<noteq> nul" using assms(2) that by (auto simp: cstring_def)
    then show "t ! code c \<noteq> nul" "t ! code (t ! code c) = t ! code c" using assms(1) unfolding case_table_def by blast+
  qed
  show "cstring ?r" using t(1) unfolding cstring_def by fastforce
  show "unicode_iso8859_convert s ip t = Inr ?r" "unicode_iso8859_convert ?r ip t = Inr ?r"
    using t by (auto simp: unicode_iso8859_convert_def conv_loop_Inr iso8859_convert_char_def list_all2_conv_all_nth)
qed simp

text \<open>A character set with case conversions that are total and have nothing to do the second time.\<close>

locale byte_charset = exact_charset +
  assumes casing: "f \<in> {toupper_func cs, tolower_func cs, totitle_func cs} \<Longrightarrow> cstring s \<Longrightarrow>
    \<exists>r. f ip s = Inr r \<and> cstring r \<and> length r = length s \<and> f ip r = Inr r"

lemma byte_charsetI:
  assumes "exact_charset cs" "case_table uc" "case_table lc" "case_table tc"
    "toupper_func cs = (\<lambda>ip cp. unicode_iso8859_convert cp ip uc)" "tolower_func cs = (\<lambda>ip cp. unicode_iso8859_convert cp ip lc)"
    "totitle_func cs = (\<lambda>ip cp. unicode_iso8859_convert cp ip tc)"
  shows "byte_charset cs"
  unfolding byte_charset_def byte_charset_axioms_def
proof (intro conjI assms(1) allI impI)
  fix f s ip
  assume f: "f \<in> {toupper_func cs, tolower_func cs, totitle_func cs}" and s: "cstring s"
  define P where "P t = (\<lambda>ip cp. unicode_iso8859_convert cp ip t)" for t
  have "f \<in> {P uc, P lc, P tc}" using f unfolding assms(5-7) P_def .
  with assms(2-4) obtain t where "case_table t" "f = P t" by auto
  from convert_total [OF this(1) s, of ip] this(2) P_def
  show "\<exists>r. f ip s = Inr r \<and> cstring r \<and> length r = length s \<and> f ip r = Inr r" by simp
qed

lemma iso8859_charset:
  "iso8859_table tab \<Longrightarrow> case_codes uc \<Longrightarrow> case_codes lc \<Longrightarrow>
   byte_charset (iso8859_info name tab (map to_char uc) (map to_char lc) (map to_char uc))"
  by (rule byte_charsetI [OF iso8859_exact]) (simp_all add: case_codes_table iso8859_info_def)

lemma windows874_charset:
  "iso8859_table tab \<Longrightarrow> case_codes uc \<Longrightarrow> case_codes lc \<Longrightarrow>
   byte_charset (windows874_info name tab (map to_char uc) (map to_char lc) (map to_char uc))"
  by (rule byte_charsetI [OF windows874_exact]) (simp_all add: case_codes_table windows874_info_def iso8859_info_def)

lemma ibm864_charset:
  "ibm864_table tab \<Longrightarrow> case_codes uc \<Longrightarrow> case_codes lc \<Longrightarrow>
   byte_charset (ibm864_info name tab (map to_char uc) (map to_char lc) (map to_char uc))"
  by (rule byte_charsetI [OF ibm864_exact]) (simp_all add: case_codes_table ibm864_info_def iso8859_info_def)

end
