(* ===== verification/Unicode_Case.thy ===== *)
theory Unicode_Case
  imports Charset
begin

text \<open>
  Upper, lower and title case of Unicode characters (\<^verbatim>\<open>unicode/unicode_ultcase.c\<close> with the tables of
  \<^verbatim>\<open>unicode_ultcasetab.c\<close>) and the UTF-8 character set (\<^verbatim>\<open>utf8_chset.c\<close>). The rows are hashed by the
  character modulo 1024: the rows of a bucket are next to each other, and an array has the index of the first one. Both arrays are
  given in parts of 64 buckets.
\<close>

subsection \<open>The tables\<close>

type_synonym case_row = "unicode_char \<times> unicode_char \<times> unicode_char \<times> unicode_char"

definition unicode_case_hash :: int where "unicode_case_hash = 1024"

definition case_tab0 :: "case_row list" where
  "case_tab0 =
    [(0x10400, 0x10400, 0x10428, 0x10400), (0x0400, 0x0400, 0x0450, 0x0400), (0x10401, 0x10401, 0x10429, 0x10401), (0x0401, 0x0401, 0x0451, 0x0401),
     (0x0402, 0x0402, 0x0452, 0x0402), (0x10402, 0x10402, 0x1042a, 0x10402), (0x10403, 0x10403, 0x1042b, 0x10403), (0x0403, 0x0403, 0x0453, 0x0403),
     (0x0404, 0x0404, 0x0454, 0x0404), (0x10404, 0x10404, 0x1042c, 0x10404), (0x0405, 0x0405, 0x0455, 0x0405), (0x10405, 0x10405, 0x1042d, 0x10405),
     (0x10406, 0x10406, 0x1042e, 0x10406), (0x0406, 0x0406, 0x0456, 0x0406), (0x0407, 0x0407, 0x0457, 0x0407), (0x10407, 0x10407, 0x1042f, 0x10407),
     (0x0408, 0x0408, 0x0458, 0x0408), (0x10408, 0x10408, 0x10430, 0x10408), (0x0409, 0x0409, 0x0459, 0x0409), (0x10409, 0x10409, 0x10431, 0x10409),
     (0x040a, 0x040a, 0x045a, 0x040a), (0x1040a, 0x1040a, 0x10432, 0x1040a), (0x1040b, 0x1040b, 0x10433, 0x1040b), (0x040b, 0x040b, 0x045b, 0x040b),
     (0x1040c, 0x1040c, 0x10434, 0x1040c), (0x040c, 0x040c, 0x045c, 0x040c), (0x040d, 0x040d, 0x045d, 0x040d), (0x1040d, 0x1040d, 0x10435, 0x1040d),
     (0x1040e, 0x1040e, 0x10436, 0x1040e), (0x040e, 0x040e, 0x045e, 0x040e), (0x1040f, 0x1040f, 0x10437, 0x1040f), (0x040f, 0x040f, 0x045f, 0x040f),
     (0x0410, 0x0410, 0x0430, 0x0410), (0x10410, 0x10410, 0x10438, 0x10410), (0x10411, 0x10411, 0x10439, 0x10411), (0x0411, 0x0411, 0x0431, 0x0411),
     (0x10412, 0x10412, 0x1043a, 0x10412), (0x0412, 0x0412, 0x0432, 0x0412), (0x10413, 0x10413, 0x1043b, 0x10413), (0x0413, 0x0413, 0x0433, 0x0413),
     (0x0414, 0x0414, 0x0434, 0x0414), (0x10414, 0x10414, 0x1043c, 0x10414), (0x0415, 0x0415, 0x0435, 0x0415), (0x10415, 0x10415, 0x1043d, 0x10415),
     (0x10416, 0x10416, 0x1043e, 0x10416), (0x0416, 0x0416, 0x0436, 0x0416), (0x10417, 0x10417, 0x1043f, 0x10417), (0x0417, 0x0417, 0x0437, 0x0417),
     (0x0418, 0x0418, 0x0438, 0x0418), (0x10418, 0x10418, 0x10440, 0x10418), (0x0419, 0x0419, 0x0439, 0x0419), (0x10419, 0x10419, 0x10441, 0x10419),
     (0x041a, 0x041a, 0x043a, 0x041a), (0x1041a, 0x1041a, 0x10442, 0x1041a), (0x1041b, 0x1041b, 0x10443, 0x1041b), (0x041b, 0x041b, 0x043b, 0x041b),
     (0x1041c, 0x1041c, 0x10444, 0x1041c), (0x041c, 0x041c, 0x043c, 0x041c), (0x1041d, 0x1041d, 0x10445, 0x1041d), (0x041d, 0x041d, 0x043d, 0x041d),
     (0x041e, 0x041e, 0x043e, 0x041e), (0x1041e, 0x1041e, 0x10446, 0x1041e), (0x1041f, 0x1041f, 0x10447, 0x1041f), (0x041f, 0x041f, 0x043f, 0x041f),
     (0x0420, 0x0420, 0x0440, 0x0420), (0x10420, 0x10420, 0x10448, 0x10420), (0x10421, 0x10421, 0x10449, 0x10421), (0x0421, 0x0421, 0x0441, 0x0421),
     (0x10422, 0x10422, 0x1044a, 0x10422), (0x0422, 0x0422, 0x0442, 0x0422), (0x0423, 0x0423, 0x0443, 0x0423), (0x10423, 0x10423, 0x1044b, 0x10423),
     (0x10424, 0x10424, 0x1044c, 0x10424), (0x0424, 0x0424, 0x0444, 0x0424), (0x0425, 0x0425, 0x0445, 0x0425), (0x10425, 0x10425, 0x1044d, 0x10425),
     (0x0426, 0x0426, 0x0446, 0x0426), (0x0427, 0x0427, 0x0447, 0x0427), (0x0428, 0x0428, 0x0448, 0x0428), (0x10428, 0x10400, 0x10428, 0x10400),
     (0x10429, 0x10401, 0x10429, 0x10401), (0x0429, 0x0429, 0x0449, 0x0429), (0x1042a, 0x10402, 0x1042a, 0x10402), (0x042a, 0x042a, 0x044a, 0x042a),
     (0x1042b, 0x10403, 0x1042b, 0x10403), (0x042b, 0x042b, 0x044b, 0x042b), (0x042c, 0x042c, 0x044c, 0x042c), (0x1042c, 0x10404, 0x1042c, 0x10404),
     (0x042d, 0x042d, 0x044d, 0x042d), (0x1042d, 0x10405, 0x1042d, 0x10405), (0x1042e, 0x10406, 0x1042e, 0x10406), (0x042e, 0x042e, 0x044e, 0x042e),
     (0x1042f, 0x10407, 0x1042f, 0x10407), (0x042f, 0x042f, 0x044f, 0x042f), (0x10430, 0x10408, 0x10430, 0x10408), (0x0430, 0x0410, 0x0430, 0x0410),
     (0x0431, 0x0411, 0x0431, 0x0411), (0x10431, 0x10409, 0x10431, 0x10409), (0x10432, 0x1040a, 0x10432, 0x1040a), (0x0432, 0x0412, 0x0432, 0x0412),
     (0x0433, 0x0413, 0x0433, 0x0413), (0x10433, 0x1040b, 0x10433, 0x1040b), (0x0434, 0x0414, 0x0434, 0x0414), (0x10434, 0x1040c, 0x10434, 0x1040c),
     (0x10435, 0x1040d, 0x10435, 0x1040d), (0x0435, 0x0415, 0x0435, 0x0415), (0x0436, 0x0416, 0x0436, 0x0416), (0x10436, 0x1040e, 0x10436, 0x1040e),
     (0x10437, 0x1040f, 0x10437, 0x1040f), (0x0437, 0x0417, 0x0437, 0x0417), (0x10438, 0x10410, 0x10438, 0x10410), (0x0438, 0x0418, 0x0438, 0x0418),
     (0x0439, 0x0419, 0x0439, 0x0419), (0x10439, 0x10411, 0x10439, 0x10411), (0x1043a, 0x10412, 0x1043a, 0x10412), (0x043a, 0x041a, 0x043a, 0x041a),
     (0x043b, 0x041b, 0x043b, 0x041b), (0x1043b, 0x10413, 0x1043b, 0x10413), (0x043c, 0x041c, 0x043c, 0x041c), (0x1043c, 0x10414, 0x1043c, 0x10414),
     (0x043d, 0x041d, 0x043d, 0x041d), (0x1043d, 0x10415, 0x1043d, 0x10415), (0x043e, 0x041e, 0x043e, 0x041e), (0x1043e, 0x10416, 0x1043e, 0x10416),
     (0x043f, 0x041f, 0x043f, 0x041f), (0x1043f, 0x10417, 0x1043f, 0x10417)]"

definition case_offset0 :: "int list" where
  "case_offset0 =
    [0, 2, 4, 6, 8, 10, 12, 14, 16, 18, 20, 22, 24, 26, 28, 30,
     32, 34, 36, 38, 40, 42, 44, 46, 48, 50, 52, 54, 56, 58, 60, 62,
     64, 66, 68, 70, 72, 74, 76, 77, 78, 80, 82, 84, 86, 88, 90, 92,
     94, 96, 98, 100, 102, 104, 106, 108, 110, 112, 114, 116, 118, 120, 122, 124]"

definition case_tab1 :: "case_row list" where
  "case_tab1 =
    [(0x10440, 0x10418, 0x10440, 0x10418), (0x0440, 0x0420, 0x0440, 0x0420), (0x0441, 0x0421, 0x0441, 0x0421), (0x10441, 0x10419, 0x10441, 0x10419),
     (0x0041, 0x0041, 0x0061, 0x0041), (0x10442, 0x1041a, 0x10442, 0x1041a), (0x0042, 0x0042, 0x0062, 0x0042), (0x0442, 0x0422, 0x0442, 0x0422),
     (0x10443, 0x1041b, 0x10443, 0x1041b), (0x0443, 0x0423, 0x0443, 0x0423), (0x0043, 0x0043, 0x0063, 0x0043), (0x0444, 0x0424, 0x0444, 0x0424),
     (0x0044, 0x0044, 0x0064, 0x0044), (0x10444, 0x1041c, 0x10444, 0x1041c), (0x10445, 0x1041d, 0x10445, 0x1041d), (0x0045, 0x0045, 0x0065, 0x0045),
     (0x0445, 0x0425, 0x0445, 0x0425), (0x10446, 0x1041e, 0x10446, 0x1041e), (0x0446, 0x0426, 0x0446, 0x0426), (0x0046, 0x0046, 0x0066, 0x0046),
     (0x0047, 0x0047, 0x0067, 0x0047), (0x10447, 0x1041f, 0x10447, 0x1041f), (0x0447, 0x0427, 0x0447, 0x0427), (0x0448, 0x0428, 0x0448, 0x0428),
     (0x10448, 0x10420, 0x10448, 0x10420), (0x0048, 0x0048, 0x0068, 0x0048), (0x10449, 0x10421, 0x10449, 0x10421), (0x0049, 0x0049, 0x0069, 0x0049),
     (0x0449, 0x0429, 0x0449, 0x0429), (0x044a, 0x042a, 0x044a, 0x042a), (0x004a, 0x004a, 0x006a, 0x004a), (0x1044a, 0x10422, 0x1044a, 0x10422),
     (0x044b, 0x042b, 0x044b, 0x042b), (0x1044b, 0x10423, 0x1044b, 0x10423), (0x004b, 0x004b, 0x006b, 0x004b), (0x004c, 0x004c, 0x006c, 0x004c),
     (0x1044c, 0x10424, 0x1044c, 0x10424), (0x044c, 0x042c, 0x044c, 0x042c), (0x1044d, 0x10425, 0x1044d, 0x10425), (0x044d, 0x042d, 0x044d, 0x042d),
     (0x004d, 0x004d, 0x006d, 0x004d), (0x004e, 0x004e, 0x006e, 0x004e), (0x044e, 0x042e, 0x044e, 0x042e), (0x044f, 0x042f, 0x044f, 0x042f),
     (0x004f, 0x004f, 0x006f, 0x004f), (0x0450, 0x0400, 0x0450, 0x0400), (0x0050, 0x0050, 0x0070, 0x0050), (0x0051, 0x0051, 0x0071, 0x0051),
     (0x0451, 0x0401, 0x0451, 0x0401), (0x0452, 0x0402, 0x0452, 0x0402), (0x0052, 0x0052, 0x0072, 0x0052), (0x0453, 0x0403, 0x0453, 0x0403),
     (0x0053, 0x0053, 0x0073, 0x0053), (0x0054, 0x0054, 0x0074, 0x0054), (0x0454, 0x0404, 0x0454, 0x0404), (0x0455, 0x0405, 0x0455, 0x0405),
     (0x0055, 0x0055, 0x0075, 0x0055), (0x0456, 0x0406, 0x0456, 0x0406), (0x0056, 0x0056, 0x0076, 0x0056), (0x0057, 0x0057, 0x0077, 0x0057),
     (0x0457, 0x0407, 0x0457, 0x0407), (0x0458, 0x0408, 0x0458, 0x0408), (0x0058, 0x0058, 0x0078, 0x0058), (0x0059, 0x0059, 0x0079, 0x0059),
     (0x0459, 0x0409, 0x0459, 0x0409), (0x045a, 0x040a, 0x045a, 0x040a), (0x005a, 0x005a, 0x007a, 0x005a), (0x045b, 0x040b, 0x045b, 0x040b),
     (0x045c, 0x040c, 0x045c, 0x040c), (0x045d, 0x040d, 0x045d, 0x040d), (0x045e, 0x040e, 0x045e, 0x040e), (0x045f, 0x040f, 0x045f, 0x040f),
     (0x0460, 0x0460, 0x0461, 0x0460), (0x0061, 0x0041, 0x0061, 0x0041), (0x0461, 0x0460, 0x0461, 0x0460), (0x0062, 0x0042, 0x0062, 0x0042),
     (0x0462, 0x0462, 0x0463, 0x0462), (0x0463, 0x0462, 0x0463, 0x0462), (0x0063, 0x0043, 0x0063, 0x0043), (0x0064, 0x0044, 0x0064, 0x0044),
     (0x0464, 0x0464, 0x0465, 0x0464), (0x0065, 0x0045, 0x0065, 0x0045), (0x0465, 0x0464, 0x0465, 0x0464), (0x0066, 0x0046, 0x0066, 0x0046),
     (0x0466, 0x0466, 0x0467, 0x0466), (0x0467, 0x0466, 0x0467, 0x0466), (0x0067, 0x0047, 0x0067, 0x0047), (0x0468, 0x0468, 0x0469, 0x0468),
     (0x0068, 0x0048, 0x0068, 0x0048), (0x0069, 0x0049, 0x0069, 0x0049), (0x0469, 0x0468, 0x0469, 0x0468), (0x046a, 0x046a, 0x046b, 0x046a),
     (0x006a, 0x004a, 0x006a, 0x004a), (0x006b, 0x004b, 0x006b, 0x004b), (0x046b, 0x046a, 0x046b, 0x046a), (0x006c, 0x004c, 0x006c, 0x004c),
     (0x046c, 0x046c, 0x046d, 0x046c), (0x046d, 0x046c, 0x046d, 0x046c), (0x006d, 0x004d, 0x006d, 0x004d), (0x006e, 0x004e, 0x006e, 0x004e),
     (0x046e, 0x046e, 0x046f, 0x046e), (0x046f, 0x046e, 0x046f, 0x046e), (0x006f, 0x004f, 0x006f, 0x004f), (0x0070, 0x0050, 0x0070, 0x0050),
     (0x0470, 0x0470, 0x0471, 0x0470), (0x0071, 0x0051, 0x0071, 0x0051), (0x0471, 0x0470, 0x0471, 0x0470), (0x0472, 0x0472, 0x0473, 0x0472),
     (0x0072, 0x0052, 0x0072, 0x0052), (0x0073, 0x0053, 0x0073, 0x0053), (0x0473, 0x0472, 0x0473, 0x0472), (0x0074, 0x0054, 0x0074, 0x0054),
     (0x0474, 0x0474, 0x0475, 0x0474), (0x0475, 0x0474, 0x0475, 0x0474), (0x0075, 0x0055, 0x0075, 0x0055), (0x0476, 0x0476, 0x0477, 0x0476),
     (0x0076, 0x0056, 0x0076, 0x0056), (0x0077, 0x0057, 0x0077, 0x0057), (0x0477, 0x0476, 0x0477, 0x0476), (0x0478, 0x0478, 0x0479, 0x0478),
     (0x0078, 0x0058, 0x0078, 0x0058), (0x0479, 0x0478, 0x0479, 0x0478), (0x0079, 0x0059, 0x0079, 0x0059), (0x047a, 0x047a, 0x047b, 0x047a),
     (0x007a, 0x005a, 0x007a, 0x005a), (0x047b, 0x047a, 0x047b, 0x047a), (0x047c, 0x047c, 0x047d, 0x047c), (0x047d, 0x047c, 0x047d, 0x047c),
     (0x047e, 0x047e, 0x047f, 0x047e), (0x047f, 0x047e, 0x047f, 0x047e)]"

definition case_offset1 :: "int list" where
  "case_offset1 =
    [126, 128, 131, 134, 137, 140, 143, 146, 149, 152, 155, 158, 161, 164, 167, 169,
     171, 173, 175, 177, 179, 181, 183, 185, 187, 189, 191, 193, 194, 195, 196, 197,
     198, 199, 201, 203, 205, 207, 209, 211, 213, 215, 217, 219, 221, 223, 225, 227,
     229, 231, 233, 235, 237, 239, 241, 243, 245, 247, 249, 251, 252, 253, 254, 255]"

definition case_tab2 :: "case_row list" where
  "case_tab2 =
    [(0x0480, 0x0480, 0x0481, 0x0480), (0x0481, 0x0480, 0x0481, 0x0480), (0x048c, 0x048c, 0x048d, 0x048c), (0x048d, 0x048c, 0x048d, 0x048c),
     (0x048e, 0x048e, 0x048f, 0x048e), (0x048f, 0x048e, 0x048f, 0x048e), (0x0490, 0x0490, 0x0491, 0x0490), (0x0491, 0x0490, 0x0491, 0x0490),
     (0x0492, 0x0492, 0x0493, 0x0492), (0x0493, 0x0492, 0x0493, 0x0492), (0x0494, 0x0494, 0x0495, 0x0494), (0x0495, 0x0494, 0x0495, 0x0494),
     (0x0496, 0x0496, 0x0497, 0x0496), (0x0497, 0x0496, 0x0497, 0x0496), (0x0498, 0x0498, 0x0499, 0x0498), (0x0499, 0x0498, 0x0499, 0x0498),
     (0x049a, 0x049a, 0x049b, 0x049a), (0x049b, 0x049a, 0x049b, 0x049a), (0x049c, 0x049c, 0x049d, 0x049c), (0x049d, 0x049c, 0x049d, 0x049c),
     (0x049e, 0x049e, 0x049f, 0x049e), (0x049f, 0x049e, 0x049f, 0x049e), (0x04a0, 0x04a0, 0x04a1, 0x04a0), (0x04a1, 0x04a0, 0x04a1, 0x04a0),
     (0x04a2, 0x04a2, 0x04a3, 0x04a2), (0x04a3, 0x04a2, 0x04a3, 0x04a2), (0x04a4, 0x04a4, 0x04a5, 0x04a4), (0x04a5, 0x04a4, 0x04a5, 0x04a4),
     (0x04a6, 0x04a6, 0x04a7, 0x04a6), (0x04a7, 0x04a6, 0x04a7, 0x04a6), (0x04a8, 0x04a8, 0x04a9, 0x04a8), (0x04a9, 0x04a8, 0x04a9, 0x04a8),
     (0x04aa, 0x04aa, 0x04ab, 0x04aa), (0x04ab, 0x04aa, 0x04ab, 0x04aa), (0x04ac, 0x04ac, 0x04ad, 0x04ac), (0x04ad, 0x04ac, 0x04ad, 0x04ac),
     (0x04ae, 0x04ae, 0x04af, 0x04ae), (0x04af, 0x04ae, 0x04af, 0x04ae), (0x04b0, 0x04b0, 0x04b1, 0x04b0), (0x04b1, 0x04b0, 0x04b1, 0x04b0),
     (0x04b2, 0x04b2, 0x04b3, 0x04b2), (0x04b3, 0x04b2, 0x04b3, 0x04b2), (0x04b4, 0x04b4, 0x04b5, 0x04b4), (0x00b5, 0x039c, 0x00b5, 0x039c),
     (0x04b5, 0x04b4, 0x04b5, 0x04b4), (0x04b6, 0x04b6, 0x04b7, 0x04b6), (0x24b6, 0x24b6, 0x24d0, 0x24b6), (0x24b7, 0x24b7, 0x24d1, 0x24b7),
     (0x04b7, 0x04b6, 0x04b7, 0x04b6), (0x04b8, 0x04b8, 0x04b9, 0x04b8), (0x24b8, 0x24b8, 0x24d2, 0x24b8), (0x24b9, 0x24b9, 0x24d3, 0x24b9),
     (0x04b9, 0x04b8, 0x04b9, 0x04b8), (0x04ba, 0x04ba, 0x04bb, 0x04ba), (0x24ba, 0x24ba, 0x24d4, 0x24ba), (0x24bb, 0x24bb, 0x24d5, 0x24bb),
     (0x04bb, 0x04ba, 0x04bb, 0x04ba), (0x04bc, 0x04bc, 0x04bd, 0x04bc), (0x24bc, 0x24bc, 0x24d6, 0x24bc), (0x24bd, 0x24bd, 0x24d7, 0x24bd),
     (0x04bd, 0x04bc, 0x04bd, 0x04bc), (0x04be, 0x04be, 0x04bf, 0x04be), (0x24be, 0x24be, 0x24d8, 0x24be), (0x24bf, 0x24bf, 0x24d9, 0x24bf),
     (0x04bf, 0x04be, 0x04bf, 0x04be)]"

definition case_offset2 :: "int list" where
  "case_offset2 =
    [256, 257, 258, 258, 258, 258, 258, 258, 258, 258, 258, 258, 258, 259, 260, 261,
     262, 263, 264, 265, 266, 267, 268, 269, 270, 271, 272, 273, 274, 275, 276, 277,
     278, 279, 280, 281, 282, 283, 284, 285, 286, 287, 288, 289, 290, 291, 292, 293,
     294, 295, 296, 297, 298, 299, 301, 303, 305, 307, 309, 311, 313, 315, 317, 319]"

definition case_tab3 :: "case_row list" where
  "case_tab3 =
    [(0x24c0, 0x24c0, 0x24da, 0x24c0), (0x00c0, 0x00c0, 0x00e0, 0x00c0), (0x00c1, 0x00c1, 0x00e1, 0x00c1), (0x04c1, 0x04c1, 0x04c2, 0x04c1),
     (0x24c1, 0x24c1, 0x24db, 0x24c1), (0x04c2, 0x04c1, 0x04c2, 0x04c1), (0x00c2, 0x00c2, 0x00e2, 0x00c2), (0x24c2, 0x24c2, 0x24dc, 0x24c2),
     (0x00c3, 0x00c3, 0x00e3, 0x00c3), (0x04c3, 0x04c3, 0x04c4, 0x04c3), (0x24c3, 0x24c3, 0x24dd, 0x24c3), (0x04c4, 0x04c3, 0x04c4, 0x04c3),
     (0x24c4, 0x24c4, 0x24de, 0x24c4), (0x00c4, 0x00c4, 0x00e4, 0x00c4), (0x24c5, 0x24c5, 0x24df, 0x24c5), (0x00c5, 0x00c5, 0x00e5, 0x00c5),
     (0x00c6, 0x00c6, 0x00e6, 0x00c6), (0x24c6, 0x24c6, 0x24e0, 0x24c6), (0x04c7, 0x04c7, 0x04c8, 0x04c7), (0x00c7, 0x00c7, 0x00e7, 0x00c7),
     (0x24c7, 0x24c7, 0x24e1, 0x24c7), (0x24c8, 0x24c8, 0x24e2, 0x24c8), (0x00c8, 0x00c8, 0x00e8, 0x00c8), (0x04c8, 0x04c7, 0x04c8, 0x04c7),
     (0x00c9, 0x00c9, 0x00e9, 0x00c9), (0x24c9, 0x24c9, 0x24e3, 0x24c9), (0x00ca, 0x00ca, 0x00ea, 0x00ca), (0x24ca, 0x24ca, 0x24e4, 0x24ca),
     (0x24cb, 0x24cb, 0x24e5, 0x24cb), (0x00cb, 0x00cb, 0x00eb, 0x00cb), (0x04cb, 0x04cb, 0x04cc, 0x04cb), (0x24cc, 0x24cc, 0x24e6, 0x24cc),
     (0x04cc, 0x04cb, 0x04cc, 0x04cb), (0x00cc, 0x00cc, 0x00ec, 0x00cc), (0x00cd, 0x00cd, 0x00ed, 0x00cd), (0x24cd, 0x24cd, 0x24e7, 0x24cd),
     (0x00ce, 0x00ce, 0x00ee, 0x00ce), (0x24ce, 0x24ce, 0x24e8, 0x24ce), (0x24cf, 0x24cf, 0x24e9, 0x24cf), (0x00cf, 0x00cf, 0x00ef, 0x00cf),
     (0x04d0, 0x04d0, 0x04d1, 0x04d0), (0x24d0, 0x24b6, 0x24d0, 0x24b6), (0x00d0, 0x00d0, 0x00f0, 0x00d0), (0x04d1, 0x04d0, 0x04d1, 0x04d0),
     (0x24d1, 0x24b7, 0x24d1, 0x24b7), (0x00d1, 0x00d1, 0x00f1, 0x00d1), (0x04d2, 0x04d2, 0x04d3, 0x04d2), (0x00d2, 0x00d2, 0x00f2, 0x00d2),
     (0x24d2, 0x24b8, 0x24d2, 0x24b8), (0x00d3, 0x00d3, 0x00f3, 0x00d3), (0x24d3, 0x24b9, 0x24d3, 0x24b9), (0x04d3, 0x04d2, 0x04d3, 0x04d2),
     (0x00d4, 0x00d4, 0x00f4, 0x00d4), (0x04d4, 0x04d4, 0x04d5, 0x04d4), (0x24d4, 0x24ba, 0x24d4, 0x24ba), (0x24d5, 0x24bb, 0x24d5, 0x24bb),
     (0x00d5, 0x00d5, 0x00f5, 0x00d5), (0x04d5, 0x04d4, 0x04d5, 0x04d4), (0x04d6, 0x04d6, 0x04d7, 0x04d6), (0x00d6, 0x00d6, 0x00f6, 0x00d6),
     (0x24d6, 0x24bc, 0x24d6, 0x24bc), (0x24d7, 0x24bd, 0x24d7, 0x24bd), (0x04d7, 0x04d6, 0x04d7, 0x04d6), (0x04d8, 0x04d8, 0x04d9, 0x04d8),
     (0x24d8, 0x24be, 0x24d8, 0x24be), (0x00d8, 0x00d8, 0x00f8, 0x00d8), (0x00d9, 0x00d9, 0x00f9, 0x00d9), (0x04d9, 0x04d8, 0x04d9, 0x04d8),
     (0x24d9, 0x24bf, 0x24d9, 0x24bf), (0x00da, 0x00da, 0x00fa, 0x00da), (0x04da, 0x04da, 0x04db, 0x04da), (0x24da, 0x24c0, 0x24da, 0x24c0),
     (0x04db, 0x04da, 0x04db, 0x04da), (0x00db, 0x00db, 0x00fb, 0x00db), (0x24db, 0x24c1, 0x24db, 0x24c1), (0x04dc, 0x04dc, 0x04dd, 0x04dc),
     (0x24dc, 0x24c2, 0x24dc, 0x24c2), (0x00dc, 0x00dc, 0x00fc, 0x00dc), (0x00dd, 0x00dd, 0x00fd, 0x00dd), (0x24dd, 0x24c3, 0x24dd, 0x24c3),
     (0x04dd, 0x04dc, 0x04dd, 0x04dc), (0x24de, 0x24c4, 0x24de, 0x24c4), (0x00de, 0x00de, 0x00fe, 0x00de), (0x04de, 0x04de, 0x04df, 0x04de),
     (0x04df, 0x04de, 0x04df, 0x04de), (0x24df, 0x24c5, 0x24df, 0x24c5), (0x24e0, 0x24c6, 0x24e0, 0x24c6), (0x00e0, 0x00c0, 0x00e0, 0x00c0),
     (0x04e0, 0x04e0, 0x04e1, 0x04e0), (0x24e1, 0x24c7, 0x24e1, 0x24c7), (0x00e1, 0x00c1, 0x00e1, 0x00c1), (0x04e1, 0x04e0, 0x04e1, 0x04e0),
     (0x04e2, 0x04e2, 0x04e3, 0x04e2), (0x00e2, 0x00c2, 0x00e2, 0x00c2), (0x24e2, 0x24c8, 0x24e2, 0x24c8), (0x24e3, 0x24c9, 0x24e3, 0x24c9),
     (0x00e3, 0x00c3, 0x00e3, 0x00c3), (0x04e3, 0x04e2, 0x04e3, 0x04e2), (0x24e4, 0x24ca, 0x24e4, 0x24ca), (0x04e4, 0x04e4, 0x04e5, 0x04e4),
     (0x00e4, 0x00c4, 0x00e4, 0x00c4), (0x24e5, 0x24cb, 0x24e5, 0x24cb), (0x00e5, 0x00c5, 0x00e5, 0x00c5), (0x04e5, 0x04e4, 0x04e5, 0x04e4),
     (0x00e6, 0x00c6, 0x00e6, 0x00c6), (0x04e6, 0x04e6, 0x04e7, 0x04e6), (0x24e6, 0x24cc, 0x24e6, 0x24cc), (0x24e7, 0x24cd, 0x24e7, 0x24cd),
     (0x00e7, 0x00c7, 0x00e7, 0x00c7), (0x04e7, 0x04e6, 0x04e7, 0x04e6), (0x00e8, 0x00c8, 0x00e8, 0x00c8), (0x04e8, 0x04e8, 0x04e9, 0x04e8),
     (0x24e8, 0x24ce, 0x24e8, 0x24ce), (0x04e9, 0x04e8, 0x04e9, 0x04e8), (0x00e9, 0x00c9, 0x00e9, 0x00c9), (0x24e9, 0x24cf, 0x24e9, 0x24cf),
     (0x00ea, 0x00ca, 0x00ea, 0x00ca), (0x04ea, 0x04ea, 0x04eb, 0x04ea), (0x04eb, 0x04ea, 0x04eb, 0x04ea), (0x00eb, 0x00cb, 0x00eb, 0x00cb),
     (0x00ec, 0x00cc, 0x00ec, 0x00cc), (0x04ec, 0x04ec, 0x04ed, 0x04ec), (0x00ed, 0x00cd, 0x00ed, 0x00cd), (0x04ed, 0x04ec, 0x04ed, 0x04ec),
     (0x00ee, 0x00ce, 0x00ee, 0x00ce), (0x04ee, 0x04ee, 0x04ef, 0x04ee), (0x00ef, 0x00cf, 0x00ef, 0x00cf), (0x04ef, 0x04ee, 0x04ef, 0x04ee),
     (0x00f0, 0x00d0, 0x00f0, 0x00d0), (0x04f0, 0x04f0, 0x04f1, 0x04f0), (0x04f1, 0x04f0, 0x04f1, 0x04f0), (0x00f1, 0x00d1, 0x00f1, 0x00d1),
     (0x04f2, 0x04f2, 0x04f3, 0x04f2), (0x00f2, 0x00d2, 0x00f2, 0x00d2), (0x04f3, 0x04f2, 0x04f3, 0x04f2), (0x00f3, 0x00d3, 0x00f3, 0x00d3),
     (0x04f4, 0x04f4, 0x04f5, 0x04f4), (0x00f4, 0x00d4, 0x00f4, 0x00d4), (0x04f5, 0x04f4, 0x04f5, 0x04f4), (0x00f5, 0x00d5, 0x00f5, 0x00d5),
     (0x00f6, 0x00d6, 0x00f6, 0x00d6), (0x04f8, 0x04f8, 0x04f9, 0x04f8), (0x00f8, 0x00d8, 0x00f8, 0x00d8), (0x04f9, 0x04f8, 0x04f9, 0x04f8),
     (0x00f9, 0x00d9, 0x00f9, 0x00d9), (0x00fa, 0x00da, 0x00fa, 0x00da), (0x00fb, 0x00db, 0x00fb, 0x00db), (0x00fc, 0x00dc, 0x00fc, 0x00dc),
     (0x00fd, 0x00dd, 0x00fd, 0x00dd), (0x00fe, 0x00de, 0x00fe, 0x00de), (0x00ff, 0x0178, 0x00ff, 0x0178)]"

definition case_offset3 :: "int list" where
  "case_offset3 =
    [321, 323, 326, 329, 332, 335, 337, 339, 342, 345, 347, 349, 352, 355, 357, 359,
     361, 364, 367, 370, 373, 376, 379, 382, 384, 387, 390, 393, 396, 399, 402, 405,
     407, 410, 413, 416, 419, 422, 425, 428, 431, 434, 437, 439, 441, 443, 445, 447,
     449, 451, 453, 455, 457, 459, 461, 462, 462, 464, 466, 467, 468, 469, 470, 471]"

definition case_tab4 :: "case_row list" where
  "case_tab4 =
    [(0x0100, 0x0100, 0x0101, 0x0100), (0x0101, 0x0100, 0x0101, 0x0100), (0x0102, 0x0102, 0x0103, 0x0102), (0x0103, 0x0102, 0x0103, 0x0102),
     (0x0104, 0x0104, 0x0105, 0x0104), (0x0105, 0x0104, 0x0105, 0x0104), (0x0106, 0x0106, 0x0107, 0x0106), (0x0107, 0x0106, 0x0107, 0x0106),
     (0x0108, 0x0108, 0x0109, 0x0108), (0x0109, 0x0108, 0x0109, 0x0108), (0x010a, 0x010a, 0x010b, 0x010a), (0x010b, 0x010a, 0x010b, 0x010a),
     (0x010c, 0x010c, 0x010d, 0x010c), (0x010d, 0x010c, 0x010d, 0x010c), (0x010e, 0x010e, 0x010f, 0x010e), (0x010f, 0x010e, 0x010f, 0x010e),
     (0x0110, 0x0110, 0x0111, 0x0110), (0x0111, 0x0110, 0x0111, 0x0110), (0x0112, 0x0112, 0x0113, 0x0112), (0x0113, 0x0112, 0x0113, 0x0112),
     (0x0114, 0x0114, 0x0115, 0x0114), (0x0115, 0x0114, 0x0115, 0x0114), (0x0116, 0x0116, 0x0117, 0x0116), (0x0117, 0x0116, 0x0117, 0x0116),
     (0x0118, 0x0118, 0x0119, 0x0118), (0x0119, 0x0118, 0x0119, 0x0118), (0x011a, 0x011a, 0x011b, 0x011a), (0x011b, 0x011a, 0x011b, 0x011a),
     (0x011c, 0x011c, 0x011d, 0x011c), (0x011d, 0x011c, 0x011d, 0x011c), (0x011e, 0x011e, 0x011f, 0x011e), (0x011f, 0x011e, 0x011f, 0x011e),
     (0x0120, 0x0120, 0x0121, 0x0120), (0x0121, 0x0120, 0x0121, 0x0120), (0x0122, 0x0122, 0x0123, 0x0122), (0x0123, 0x0122, 0x0123, 0x0122),
     (0x0124, 0x0124, 0x0125, 0x0124), (0x0125, 0x0124, 0x0125, 0x0124), (0x0126, 0x0126, 0x0127, 0x0126), (0x2126, 0x2126, 0x03c9, 0x2126),
     (0x0127, 0x0126, 0x0127, 0x0126), (0x0128, 0x0128, 0x0129, 0x0128), (0x0129, 0x0128, 0x0129, 0x0128), (0x212a, 0x212a, 0x006b, 0x212a),
     (0x012a, 0x012a, 0x012b, 0x012a), (0x212b, 0x212b, 0x00e5, 0x212b), (0x012b, 0x012a, 0x012b, 0x012a), (0x012c, 0x012c, 0x012d, 0x012c),
     (0x012d, 0x012c, 0x012d, 0x012c), (0x012e, 0x012e, 0x012f, 0x012e), (0x012f, 0x012e, 0x012f, 0x012e), (0x0130, 0x0130, 0x0069, 0x0130),
     (0x0531, 0x0531, 0x0561, 0x0531), (0x0131, 0x0049, 0x0131, 0x0049), (0x0532, 0x0532, 0x0562, 0x0532), (0x0132, 0x0132, 0x0133, 0x0132),
     (0x0533, 0x0533, 0x0563, 0x0533), (0x0133, 0x0132, 0x0133, 0x0132), (0x0134, 0x0134, 0x0135, 0x0134), (0x0534, 0x0534, 0x0564, 0x0534),
     (0x0535, 0x0535, 0x0565, 0x0535), (0x0135, 0x0134, 0x0135, 0x0134), (0x0136, 0x0136, 0x0137, 0x0136), (0x0536, 0x0536, 0x0566, 0x0536),
     (0x0137, 0x0136, 0x0137, 0x0136), (0x0537, 0x0537, 0x0567, 0x0537), (0x0538, 0x0538, 0x0568, 0x0538), (0x0139, 0x0139, 0x013a, 0x0139),
     (0x0539, 0x0539, 0x0569, 0x0539), (0x053a, 0x053a, 0x056a, 0x053a), (0x013a, 0x0139, 0x013a, 0x0139), (0x013b, 0x013b, 0x013c, 0x013b),
     (0x053b, 0x053b, 0x056b, 0x053b), (0x053c, 0x053c, 0x056c, 0x053c), (0x013c, 0x013b, 0x013c, 0x013b), (0x013d, 0x013d, 0x013e, 0x013d),
     (0x053d, 0x053d, 0x056d, 0x053d), (0x053e, 0x053e, 0x056e, 0x053e), (0x013e, 0x013d, 0x013e, 0x013d), (0x013f, 0x013f, 0x0140, 0x013f),
     (0x053f, 0x053f, 0x056f, 0x053f)]"

definition case_offset4 :: "int list" where
  "case_offset4 =
    [472, 473, 474, 475, 476, 477, 478, 479, 480, 481, 482, 483, 484, 485, 486, 487,
     488, 489, 490, 491, 492, 493, 494, 495, 496, 497, 498, 499, 500, 501, 502, 503,
     504, 505, 506, 507, 508, 509, 510, 512, 513, 514, 515, 517, 519, 520, 521, 522,
     523, 524, 526, 528, 530, 532, 534, 536, 538, 539, 541, 543, 545, 547, 549, 551]"

definition case_tab5 :: "case_row list" where
  "case_tab5 =
    [(0x0140, 0x013f, 0x0140, 0x013f), (0x0540, 0x0540, 0x0570, 0x0540), (0x0541, 0x0541, 0x0571, 0x0541), (0x0141, 0x0141, 0x0142, 0x0141),
     (0x0142, 0x0141, 0x0142, 0x0141), (0x0542, 0x0542, 0x0572, 0x0542), (0x0143, 0x0143, 0x0144, 0x0143), (0x0543, 0x0543, 0x0573, 0x0543),
     (0x0144, 0x0143, 0x0144, 0x0143), (0x0544, 0x0544, 0x0574, 0x0544), (0x0145, 0x0145, 0x0146, 0x0145), (0x0545, 0x0545, 0x0575, 0x0545),
     (0x0146, 0x0145, 0x0146, 0x0145), (0x0546, 0x0546, 0x0576, 0x0546), (0x0147, 0x0147, 0x0148, 0x0147), (0x0547, 0x0547, 0x0577, 0x0547),
     (0x0148, 0x0147, 0x0148, 0x0147), (0x0548, 0x0548, 0x0578, 0x0548), (0x0549, 0x0549, 0x0579, 0x0549), (0x054a, 0x054a, 0x057a, 0x054a),
     (0x014a, 0x014a, 0x014b, 0x014a), (0x014b, 0x014a, 0x014b, 0x014a), (0x054b, 0x054b, 0x057b, 0x054b), (0x054c, 0x054c, 0x057c, 0x054c),
     (0x014c, 0x014c, 0x014d, 0x014c), (0x014d, 0x014c, 0x014d, 0x014c), (0x054d, 0x054d, 0x057d, 0x054d), (0x054e, 0x054e, 0x057e, 0x054e),
     (0x014e, 0x014e, 0x014f, 0x014e), (0x054f, 0x054f, 0x057f, 0x054f), (0x014f, 0x014e, 0x014f, 0x014e), (0x0150, 0x0150, 0x0151, 0x0150),
     (0x0550, 0x0550, 0x0580, 0x0550), (0x0151, 0x0150, 0x0151, 0x0150), (0x0551, 0x0551, 0x0581, 0x0551), (0x0152, 0x0152, 0x0153, 0x0152),
     (0x0552, 0x0552, 0x0582, 0x0552), (0x0553, 0x0553, 0x0583, 0x0553), (0x0153, 0x0152, 0x0153, 0x0152), (0x0554, 0x0554, 0x0584, 0x0554),
     (0x0154, 0x0154, 0x0155, 0x0154), (0x0155, 0x0154, 0x0155, 0x0154), (0x0555, 0x0555, 0x0585, 0x0555), (0x0156, 0x0156, 0x0157, 0x0156),
     (0x0556, 0x0556, 0x0586, 0x0556), (0x0157, 0x0156, 0x0157, 0x0156), (0x0158, 0x0158, 0x0159, 0x0158), (0x0159, 0x0158, 0x0159, 0x0158),
     (0x015a, 0x015a, 0x015b, 0x015a), (0x015b, 0x015a, 0x015b, 0x015a), (0x015c, 0x015c, 0x015d, 0x015c), (0x015d, 0x015c, 0x015d, 0x015c),
     (0x015e, 0x015e, 0x015f, 0x015e), (0x015f, 0x015e, 0x015f, 0x015e), (0x2160, 0x2160, 0x2170, 0x2160), (0x0160, 0x0160, 0x0161, 0x0160),
     (0x2161, 0x2161, 0x2171, 0x2161), (0x0161, 0x0160, 0x0161, 0x0160), (0x0561, 0x0531, 0x0561, 0x0531), (0x0562, 0x0532, 0x0562, 0x0532),
     (0x2162, 0x2162, 0x2172, 0x2162), (0x0162, 0x0162, 0x0163, 0x0162), (0x2163, 0x2163, 0x2173, 0x2163), (0x0163, 0x0162, 0x0163, 0x0162),
     (0x0563, 0x0533, 0x0563, 0x0533), (0x0564, 0x0534, 0x0564, 0x0534), (0x2164, 0x2164, 0x2174, 0x2164), (0x0164, 0x0164, 0x0165, 0x0164),
     (0x0565, 0x0535, 0x0565, 0x0535), (0x2165, 0x2165, 0x2175, 0x2165), (0x0165, 0x0164, 0x0165, 0x0164), (0x0166, 0x0166, 0x0167, 0x0166),
     (0x2166, 0x2166, 0x2176, 0x2166), (0x0566, 0x0536, 0x0566, 0x0536), (0x0567, 0x0537, 0x0567, 0x0537), (0x2167, 0x2167, 0x2177, 0x2167),
     (0x0167, 0x0166, 0x0167, 0x0166), (0x0168, 0x0168, 0x0169, 0x0168), (0x0568, 0x0538, 0x0568, 0x0538), (0x2168, 0x2168, 0x2178, 0x2168),
     (0x0169, 0x0168, 0x0169, 0x0168), (0x2169, 0x2169, 0x2179, 0x2169), (0x0569, 0x0539, 0x0569, 0x0539), (0x056a, 0x053a, 0x056a, 0x053a),
     (0x216a, 0x216a, 0x217a, 0x216a), (0x016a, 0x016a, 0x016b, 0x016a), (0x056b, 0x053b, 0x056b, 0x053b), (0x016b, 0x016a, 0x016b, 0x016a),
     (0x216b, 0x216b, 0x217b, 0x216b), (0x016c, 0x016c, 0x016d, 0x016c), (0x056c, 0x053c, 0x056c, 0x053c), (0x216c, 0x216c, 0x217c, 0x216c),
     (0x216d, 0x216d, 0x217d, 0x216d), (0x016d, 0x016c, 0x016d, 0x016c), (0x056d, 0x053d, 0x056d, 0x053d), (0x216e, 0x216e, 0x217e, 0x216e),
     (0x016e, 0x016e, 0x016f, 0x016e), (0x056e, 0x053e, 0x056e, 0x053e), (0x056f, 0x053f, 0x056f, 0x053f), (0x216f, 0x216f, 0x217f, 0x216f),
     (0x016f, 0x016e, 0x016f, 0x016e), (0x2170, 0x2160, 0x2170, 0x2160), (0x0170, 0x0170, 0x0171, 0x0170), (0x0570, 0x0540, 0x0570, 0x0540),
     (0x2171, 0x2161, 0x2171, 0x2161), (0x0171, 0x0170, 0x0171, 0x0170), (0x0571, 0x0541, 0x0571, 0x0541), (0x0572, 0x0542, 0x0572, 0x0542),
     (0x0172, 0x0172, 0x0173, 0x0172), (0x2172, 0x2162, 0x2172, 0x2162), (0x2173, 0x2163, 0x2173, 0x2163), (0x0573, 0x0543, 0x0573, 0x0543),
     (0x0173, 0x0172, 0x0173, 0x0172), (0x0574, 0x0544, 0x0574, 0x0544), (0x2174, 0x2164, 0x2174, 0x2164), (0x0174, 0x0174, 0x0175, 0x0174),
     (0x0175, 0x0174, 0x0175, 0x0174), (0x0575, 0x0545, 0x0575, 0x0545), (0x2175, 0x2165, 0x2175, 0x2165), (0x0576, 0x0546, 0x0576, 0x0546),
     (0x2176, 0x2166, 0x2176, 0x2166), (0x0176, 0x0176, 0x0177, 0x0176), (0x0177, 0x0176, 0x0177, 0x0176), (0x2177, 0x2167, 0x2177, 0x2167),
     (0x0577, 0x0547, 0x0577, 0x0547), (0x0578, 0x0548, 0x0578, 0x0548), (0x0178, 0x0178, 0x00ff, 0x0178), (0x2178, 0x2168, 0x2178, 0x2168),
     (0x2179, 0x2169, 0x2179, 0x2169), (0x0179, 0x0179, 0x017a, 0x0179), (0x0579, 0x0549, 0x0579, 0x0549), (0x017a, 0x0179, 0x017a, 0x0179),
     (0x057a, 0x054a, 0x057a, 0x054a), (0x217a, 0x216a, 0x217a, 0x216a), (0x217b, 0x216b, 0x217b, 0x216b), (0x017b, 0x017b, 0x017c, 0x017b),
     (0x057b, 0x054b, 0x057b, 0x054b), (0x057c, 0x054c, 0x057c, 0x054c), (0x217c, 0x216c, 0x217c, 0x216c), (0x017c, 0x017b, 0x017c, 0x017b),
     (0x017d, 0x017d, 0x017e, 0x017d), (0x217d, 0x216d, 0x217d, 0x216d), (0x057d, 0x054d, 0x057d, 0x054d), (0x217e, 0x216e, 0x217e, 0x216e),
     (0x057e, 0x054e, 0x057e, 0x054e), (0x017e, 0x017d, 0x017e, 0x017d), (0x017f, 0x0053, 0x017f, 0x0053), (0x057f, 0x054f, 0x057f, 0x054f),
     (0x217f, 0x216f, 0x217f, 0x216f)]"

definition case_offset5 :: "int list" where
  "case_offset5 =
    [553, 555, 557, 559, 561, 563, 565, 567, 569, 571, 572, 574, 576, 578, 580, 582,
     584, 586, 588, 590, 592, 594, 596, 598, 599, 600, 601, 602, 603, 604, 605, 606,
     607, 609, 612, 615, 618, 621, 624, 627, 630, 633, 636, 639, 642, 645, 648, 651,
     654, 657, 660, 663, 666, 669, 672, 675, 678, 681, 684, 687, 690, 693, 696, 699]"

definition case_tab6 :: "case_row list" where
  "case_tab6 =
    [(0x0580, 0x0550, 0x0580, 0x0550), (0x0181, 0x0181, 0x0253, 0x0181), (0x0581, 0x0551, 0x0581, 0x0551), (0x0182, 0x0182, 0x0183, 0x0182),
     (0x0582, 0x0552, 0x0582, 0x0552), (0x0183, 0x0182, 0x0183, 0x0182), (0x0583, 0x0553, 0x0583, 0x0553), (0x0184, 0x0184, 0x0185, 0x0184),
     (0x0584, 0x0554, 0x0584, 0x0554), (0x0185, 0x0184, 0x0185, 0x0184), (0x0585, 0x0555, 0x0585, 0x0555), (0x0586, 0x0556, 0x0586, 0x0556),
     (0x0186, 0x0186, 0x0254, 0x0186), (0x0187, 0x0187, 0x0188, 0x0187), (0x0188, 0x0187, 0x0188, 0x0187), (0x0189, 0x0189, 0x0256, 0x0189),
     (0x018a, 0x018a, 0x0257, 0x018a), (0x018b, 0x018b, 0x018c, 0x018b), (0x018c, 0x018b, 0x018c, 0x018b), (0x018e, 0x018e, 0x01dd, 0x018e),
     (0x018f, 0x018f, 0x0259, 0x018f), (0x0190, 0x0190, 0x025b, 0x0190), (0x0191, 0x0191, 0x0192, 0x0191), (0x0192, 0x0191, 0x0192, 0x0191),
     (0x0193, 0x0193, 0x0260, 0x0193), (0x0194, 0x0194, 0x0263, 0x0194), (0x0195, 0x01f6, 0x0195, 0x01f6), (0x0196, 0x0196, 0x0269, 0x0196),
     (0x0197, 0x0197, 0x0268, 0x0197), (0x0198, 0x0198, 0x0199, 0x0198), (0x0199, 0x0198, 0x0199, 0x0198), (0x019c, 0x019c, 0x026f, 0x019c),
     (0x019d, 0x019d, 0x0272, 0x019d), (0x019f, 0x019f, 0x0275, 0x019f), (0x01a0, 0x01a0, 0x01a1, 0x01a0), (0x01a1, 0x01a0, 0x01a1, 0x01a0),
     (0x01a2, 0x01a2, 0x01a3, 0x01a2), (0x01a3, 0x01a2, 0x01a3, 0x01a2), (0x01a4, 0x01a4, 0x01a5, 0x01a4), (0x01a5, 0x01a4, 0x01a5, 0x01a4),
     (0x01a6, 0x01a6, 0x0280, 0x01a6), (0x01a7, 0x01a7, 0x01a8, 0x01a7), (0x01a8, 0x01a7, 0x01a8, 0x01a7), (0x01a9, 0x01a9, 0x0283, 0x01a9),
     (0x01ac, 0x01ac, 0x01ad, 0x01ac), (0x01ad, 0x01ac, 0x01ad, 0x01ac), (0x01ae, 0x01ae, 0x0288, 0x01ae), (0x01af, 0x01af, 0x01b0, 0x01af),
     (0x01b0, 0x01af, 0x01b0, 0x01af), (0x01b1, 0x01b1, 0x028a, 0x01b1), (0x01b2, 0x01b2, 0x028b, 0x01b2), (0x01b3, 0x01b3, 0x01b4, 0x01b3),
     (0x01b4, 0x01b3, 0x01b4, 0x01b3), (0x01b5, 0x01b5, 0x01b6, 0x01b5), (0x01b6, 0x01b5, 0x01b6, 0x01b5), (0x01b7, 0x01b7, 0x0292, 0x01b7),
     (0x01b8, 0x01b8, 0x01b9, 0x01b8), (0x01b9, 0x01b8, 0x01b9, 0x01b8), (0x01bc, 0x01bc, 0x01bd, 0x01bc), (0x01bd, 0x01bc, 0x01bd, 0x01bc),
     (0x01bf, 0x01f7, 0x01bf, 0x01f7)]"

definition case_offset6 :: "int list" where
  "case_offset6 =
    [702, 703, 705, 707, 709, 711, 713, 715, 716, 717, 718, 719, 720, 721, 721, 722,
     723, 724, 725, 726, 727, 728, 729, 730, 731, 732, 733, 733, 733, 734, 735, 735,
     736, 737, 738, 739, 740, 741, 742, 743, 744, 745, 746, 746, 746, 747, 748, 749,
     750, 751, 752, 753, 754, 755, 756, 757, 758, 759, 760, 760, 760, 761, 762, 762]"

definition case_tab7 :: "case_row list" where
  "case_tab7 =
    [(0x01c4, 0x01c4, 0x01c6, 0x01c5), (0x01c5, 0x01c4, 0x01c6, 0x01c4), (0x01c6, 0x01c4, 0x01c6, 0x01c5), (0x01c7, 0x01c7, 0x01c9, 0x01c8),
     (0x01c8, 0x01c7, 0x01c9, 0x01c7), (0x01c9, 0x01c7, 0x01c9, 0x01c8), (0x01ca, 0x01ca, 0x01cc, 0x01cb), (0x01cb, 0x01ca, 0x01cc, 0x01ca),
     (0x01cc, 0x01ca, 0x01cc, 0x01cb), (0x01cd, 0x01cd, 0x01ce, 0x01cd), (0x01ce, 0x01cd, 0x01ce, 0x01cd), (0x01cf, 0x01cf, 0x01d0, 0x01cf),
     (0x01d0, 0x01cf, 0x01d0, 0x01cf), (0x01d1, 0x01d1, 0x01d2, 0x01d1), (0x01d2, 0x01d1, 0x01d2, 0x01d1), (0x01d3, 0x01d3, 0x01d4, 0x01d3),
     (0x01d4, 0x01d3, 0x01d4, 0x01d3), (0x01d5, 0x01d5, 0x01d6, 0x01d5), (0x01d6, 0x01d5, 0x01d6, 0x01d5), (0x01d7, 0x01d7, 0x01d8, 0x01d7),
     (0x01d8, 0x01d7, 0x01d8, 0x01d7), (0x01d9, 0x01d9, 0x01da, 0x01d9), (0x01da, 0x01d9, 0x01da, 0x01d9), (0x01db, 0x01db, 0x01dc, 0x01db),
     (0x01dc, 0x01db, 0x01dc, 0x01db), (0x01dd, 0x018e, 0x01dd, 0x018e), (0x01de, 0x01de, 0x01df, 0x01de), (0x01df, 0x01de, 0x01df, 0x01de),
     (0x01e0, 0x01e0, 0x01e1, 0x01e0), (0x01e1, 0x01e0, 0x01e1, 0x01e0), (0x01e2, 0x01e2, 0x01e3, 0x01e2), (0x01e3, 0x01e2, 0x01e3, 0x01e2),
     (0x01e4, 0x01e4, 0x01e5, 0x01e4), (0x01e5, 0x01e4, 0x01e5, 0x01e4), (0x01e6, 0x01e6, 0x01e7, 0x01e6), (0x01e7, 0x01e6, 0x01e7, 0x01e6),
     (0x01e8, 0x01e8, 0x01e9, 0x01e8), (0x01e9, 0x01e8, 0x01e9, 0x01e8), (0x01ea, 0x01ea, 0x01eb, 0x01ea), (0x01eb, 0x01ea, 0x01eb, 0x01ea),
     (0x01ec, 0x01ec, 0x01ed, 0x01ec), (0x01ed, 0x01ec, 0x01ed, 0x01ec), (0x01ee, 0x01ee, 0x01ef, 0x01ee), (0x01ef, 0x01ee, 0x01ef, 0x01ee),
     (0x01f1, 0x01f1, 0x01f3, 0x01f2), (0x01f2, 0x01f1, 0x01f3, 0x01f1), (0x01f3, 0x01f1, 0x01f3, 0x01f2), (0x01f4, 0x01f4, 0x01f5, 0x01f4),
     (0x01f5, 0x01f4, 0x01f5, 0x01f4), (0x01f6, 0x01f6, 0x0195, 0x01f6), (0x01f7, 0x01f7, 0x01bf, 0x01f7), (0x01f8, 0x01f8, 0x01f9, 0x01f8),
     (0x01f9, 0x01f8, 0x01f9, 0x01f8), (0x01fa, 0x01fa, 0x01fb, 0x01fa), (0x01fb, 0x01fa, 0x01fb, 0x01fa), (0x01fc, 0x01fc, 0x01fd, 0x01fc),
     (0x01fd, 0x01fc, 0x01fd, 0x01fc), (0x01fe, 0x01fe, 0x01ff, 0x01fe), (0x01ff, 0x01fe, 0x01ff, 0x01fe)]"

definition case_offset7 :: "int list" where
  "case_offset7 =
    [763, 763, 763, 763, 763, 764, 765, 766, 767, 768, 769, 770, 771, 772, 773, 774,
     775, 776, 777, 778, 779, 780, 781, 782, 783, 784, 785, 786, 787, 788, 789, 790,
     791, 792, 793, 794, 795, 796, 797, 798, 799, 800, 801, 802, 803, 804, 805, 806,
     807, 807, 808, 809, 810, 811, 812, 813, 814, 815, 816, 817, 818, 819, 820, 821]"

definition case_tab8 :: "case_row list" where
  "case_tab8 =
    [(0x0200, 0x0200, 0x0201, 0x0200), (0x1e00, 0x1e00, 0x1e01, 0x1e00), (0x1e01, 0x1e00, 0x1e01, 0x1e00), (0x0201, 0x0200, 0x0201, 0x0200),
     (0x1e02, 0x1e02, 0x1e03, 0x1e02), (0x0202, 0x0202, 0x0203, 0x0202), (0x0203, 0x0202, 0x0203, 0x0202), (0x1e03, 0x1e02, 0x1e03, 0x1e02),
     (0x0204, 0x0204, 0x0205, 0x0204), (0x1e04, 0x1e04, 0x1e05, 0x1e04), (0x0205, 0x0204, 0x0205, 0x0204), (0x1e05, 0x1e04, 0x1e05, 0x1e04),
     (0x1e06, 0x1e06, 0x1e07, 0x1e06), (0x0206, 0x0206, 0x0207, 0x0206), (0x1e07, 0x1e06, 0x1e07, 0x1e06), (0x0207, 0x0206, 0x0207, 0x0206),
     (0x0208, 0x0208, 0x0209, 0x0208), (0x1e08, 0x1e08, 0x1e09, 0x1e08), (0x1e09, 0x1e08, 0x1e09, 0x1e08), (0x0209, 0x0208, 0x0209, 0x0208),
     (0x020a, 0x020a, 0x020b, 0x020a), (0x1e0a, 0x1e0a, 0x1e0b, 0x1e0a), (0x1e0b, 0x1e0a, 0x1e0b, 0x1e0a), (0x020b, 0x020a, 0x020b, 0x020a),
     (0x020c, 0x020c, 0x020d, 0x020c), (0x1e0c, 0x1e0c, 0x1e0d, 0x1e0c), (0x1e0d, 0x1e0c, 0x1e0d, 0x1e0c), (0x020d, 0x020c, 0x020d, 0x020c),
     (0x020e, 0x020e, 0x020f, 0x020e), (0x1e0e, 0x1e0e, 0x1e0f, 0x1e0e), (0x1e0f, 0x1e0e, 0x1e0f, 0x1e0e), (0x020f, 0x020e, 0x020f, 0x020e),
     (0x1e10, 0x1e10, 0x1e11, 0x1e10), (0x0210, 0x0210, 0x0211, 0x0210), (0x1e11, 0x1e10, 0x1e11, 0x1e10), (0x0211, 0x0210, 0x0211, 0x0210),
     (0x1e12, 0x1e12, 0x1e13, 0x1e12), (0x0212, 0x0212, 0x0213, 0x0212), (0x1e13, 0x1e12, 0x1e13, 0x1e12), (0x0213, 0x0212, 0x0213, 0x0212),
     (0x0214, 0x0214, 0x0215, 0x0214), (0x1e14, 0x1e14, 0x1e15, 0x1e14), (0x0215, 0x0214, 0x0215, 0x0214), (0x1e15, 0x1e14, 0x1e15, 0x1e14),
     (0x0216, 0x0216, 0x0217, 0x0216), (0x1e16, 0x1e16, 0x1e17, 0x1e16), (0x0217, 0x0216, 0x0217, 0x0216), (0x1e17, 0x1e16, 0x1e17, 0x1e16),
     (0x1e18, 0x1e18, 0x1e19, 0x1e18), (0x0218, 0x0218, 0x0219, 0x0218), (0x0219, 0x0218, 0x0219, 0x0218), (0x1e19, 0x1e18, 0x1e19, 0x1e18),
     (0x1e1a, 0x1e1a, 0x1e1b, 0x1e1a), (0x021a, 0x021a, 0x021b, 0x021a), (0x021b, 0x021a, 0x021b, 0x021a), (0x1e1b, 0x1e1a, 0x1e1b, 0x1e1a),
     (0x021c, 0x021c, 0x021d, 0x021c), (0x1e1c, 0x1e1c, 0x1e1d, 0x1e1c), (0x021d, 0x021c, 0x021d, 0x021c), (0x1e1d, 0x1e1c, 0x1e1d, 0x1e1c),
     (0x021e, 0x021e, 0x021f, 0x021e), (0x1e1e, 0x1e1e, 0x1e1f, 0x1e1e), (0x1e1f, 0x1e1e, 0x1e1f, 0x1e1e), (0x021f, 0x021e, 0x021f, 0x021e),
     (0x1e20, 0x1e20, 0x1e21, 0x1e20), (0x1e21, 0x1e20, 0x1e21, 0x1e20), (0x0222, 0x0222, 0x0223, 0x0222), (0x1e22, 0x1e22, 0x1e23, 0x1e22),
     (0x1e23, 0x1e22, 0x1e23, 0x1e22), (0x0223, 0x0222, 0x0223, 0x0222), (0x0224, 0x0224, 0x0225, 0x0224), (0x1e24, 0x1e24, 0x1e25, 0x1e24),
     (0x0225, 0x0224, 0x0225, 0x0224), (0x1e25, 0x1e24, 0x1e25, 0x1e24), (0x1e26, 0x1e26, 0x1e27, 0x1e26), (0x0226, 0x0226, 0x0227, 0x0226),
     (0x1e27, 0x1e26, 0x1e27, 0x1e26), (0x0227, 0x0226, 0x0227, 0x0226), (0x0228, 0x0228, 0x0229, 0x0228), (0x1e28, 0x1e28, 0x1e29, 0x1e28),
     (0x1e29, 0x1e28, 0x1e29, 0x1e28), (0x0229, 0x0228, 0x0229, 0x0228), (0x022a, 0x022a, 0x022b, 0x022a), (0x1e2a, 0x1e2a, 0x1e2b, 0x1e2a),
     (0x1e2b, 0x1e2a, 0x1e2b, 0x1e2a), (0x022b, 0x022a, 0x022b, 0x022a), (0x1e2c, 0x1e2c, 0x1e2d, 0x1e2c), (0x022c, 0x022c, 0x022d, 0x022c),
     (0x1e2d, 0x1e2c, 0x1e2d, 0x1e2c), (0x022d, 0x022c, 0x022d, 0x022c), (0x022e, 0x022e, 0x022f, 0x022e), (0x1e2e, 0x1e2e, 0x1e2f, 0x1e2e),
     (0x022f, 0x022e, 0x022f, 0x022e), (0x1e2f, 0x1e2e, 0x1e2f, 0x1e2e), (0x0230, 0x0230, 0x0231, 0x0230), (0x1e30, 0x1e30, 0x1e31, 0x1e30),
     (0x1e31, 0x1e30, 0x1e31, 0x1e30), (0x0231, 0x0230, 0x0231, 0x0230), (0x1e32, 0x1e32, 0x1e33, 0x1e32), (0x0232, 0x0232, 0x0233, 0x0232),
     (0x0233, 0x0232, 0x0233, 0x0232), (0x1e33, 0x1e32, 0x1e33, 0x1e32), (0x1e34, 0x1e34, 0x1e35, 0x1e34), (0x1e35, 0x1e34, 0x1e35, 0x1e34),
     (0x1e36, 0x1e36, 0x1e37, 0x1e36), (0x1e37, 0x1e36, 0x1e37, 0x1e36), (0x1e38, 0x1e38, 0x1e39, 0x1e38), (0x1e39, 0x1e38, 0x1e39, 0x1e38),
     (0x1e3a, 0x1e3a, 0x1e3b, 0x1e3a), (0x1e3b, 0x1e3a, 0x1e3b, 0x1e3a), (0x1e3c, 0x1e3c, 0x1e3d, 0x1e3c), (0x1e3d, 0x1e3c, 0x1e3d, 0x1e3c),
     (0x1e3e, 0x1e3e, 0x1e3f, 0x1e3e), (0x1e3f, 0x1e3e, 0x1e3f, 0x1e3e)]"

definition case_offset8 :: "int list" where
  "case_offset8 =
    [822, 824, 826, 828, 830, 832, 834, 836, 838, 840, 842, 844, 846, 848, 850, 852,
     854, 856, 858, 860, 862, 864, 866, 868, 870, 872, 874, 876, 878, 880, 882, 884,
     886, 887, 888, 890, 892, 894, 896, 898, 900, 902, 904, 906, 908, 910, 912, 914,
     916, 918, 920, 922, 924, 925, 926, 927, 928, 929, 930, 931, 932, 933, 934, 935]"

definition case_tab9 :: "case_row list" where
  "case_tab9 =
    [(0x1e40, 0x1e40, 0x1e41, 0x1e40), (0x1e41, 0x1e40, 0x1e41, 0x1e40), (0x1e42, 0x1e42, 0x1e43, 0x1e42), (0x1e43, 0x1e42, 0x1e43, 0x1e42),
     (0x1e44, 0x1e44, 0x1e45, 0x1e44), (0x1e45, 0x1e44, 0x1e45, 0x1e44), (0x1e46, 0x1e46, 0x1e47, 0x1e46), (0x1e47, 0x1e46, 0x1e47, 0x1e46),
     (0x1e48, 0x1e48, 0x1e49, 0x1e48), (0x1e49, 0x1e48, 0x1e49, 0x1e48), (0x1e4a, 0x1e4a, 0x1e4b, 0x1e4a), (0x1e4b, 0x1e4a, 0x1e4b, 0x1e4a),
     (0x1e4c, 0x1e4c, 0x1e4d, 0x1e4c), (0x1e4d, 0x1e4c, 0x1e4d, 0x1e4c), (0x1e4e, 0x1e4e, 0x1e4f, 0x1e4e), (0x1e4f, 0x1e4e, 0x1e4f, 0x1e4e),
     (0x1e50, 0x1e50, 0x1e51, 0x1e50), (0x1e51, 0x1e50, 0x1e51, 0x1e50), (0x1e52, 0x1e52, 0x1e53, 0x1e52), (0x0253, 0x0181, 0x0253, 0x0181),
     (0x1e53, 0x1e52, 0x1e53, 0x1e52), (0x1e54, 0x1e54, 0x1e55, 0x1e54), (0x0254, 0x0186, 0x0254, 0x0186), (0x1e55, 0x1e54, 0x1e55, 0x1e54),
     (0x0256, 0x0189, 0x0256, 0x0189), (0x1e56, 0x1e56, 0x1e57, 0x1e56), (0x1e57, 0x1e56, 0x1e57, 0x1e56), (0x0257, 0x018a, 0x0257, 0x018a),
     (0x1e58, 0x1e58, 0x1e59, 0x1e58), (0x1e59, 0x1e58, 0x1e59, 0x1e58), (0x0259, 0x018f, 0x0259, 0x018f), (0x1e5a, 0x1e5a, 0x1e5b, 0x1e5a),
     (0x1e5b, 0x1e5a, 0x1e5b, 0x1e5a), (0x025b, 0x0190, 0x025b, 0x0190), (0x1e5c, 0x1e5c, 0x1e5d, 0x1e5c), (0x1e5d, 0x1e5c, 0x1e5d, 0x1e5c),
     (0x1e5e, 0x1e5e, 0x1e5f, 0x1e5e), (0x1e5f, 0x1e5e, 0x1e5f, 0x1e5e), (0x0260, 0x0193, 0x0260, 0x0193), (0x1e60, 0x1e60, 0x1e61, 0x1e60),
     (0x1e61, 0x1e60, 0x1e61, 0x1e60), (0x1e62, 0x1e62, 0x1e63, 0x1e62), (0x1e63, 0x1e62, 0x1e63, 0x1e62), (0x0263, 0x0194, 0x0263, 0x0194),
     (0x1e64, 0x1e64, 0x1e65, 0x1e64), (0x1e65, 0x1e64, 0x1e65, 0x1e64), (0x1e66, 0x1e66, 0x1e67, 0x1e66), (0x1e67, 0x1e66, 0x1e67, 0x1e66),
     (0x1e68, 0x1e68, 0x1e69, 0x1e68), (0x0268, 0x0197, 0x0268, 0x0197), (0x1e69, 0x1e68, 0x1e69, 0x1e68), (0x0269, 0x0196, 0x0269, 0x0196),
     (0x1e6a, 0x1e6a, 0x1e6b, 0x1e6a), (0x1e6b, 0x1e6a, 0x1e6b, 0x1e6a), (0x1e6c, 0x1e6c, 0x1e6d, 0x1e6c), (0x1e6d, 0x1e6c, 0x1e6d, 0x1e6c),
     (0x1e6e, 0x1e6e, 0x1e6f, 0x1e6e), (0x026f, 0x019c, 0x026f, 0x019c), (0x1e6f, 0x1e6e, 0x1e6f, 0x1e6e), (0x1e70, 0x1e70, 0x1e71, 0x1e70),
     (0x1e71, 0x1e70, 0x1e71, 0x1e70), (0x0272, 0x019d, 0x0272, 0x019d), (0x1e72, 0x1e72, 0x1e73, 0x1e72), (0x1e73, 0x1e72, 0x1e73, 0x1e72),
     (0x1e74, 0x1e74, 0x1e75, 0x1e74), (0x0275, 0x019f, 0x0275, 0x019f), (0x1e75, 0x1e74, 0x1e75, 0x1e74), (0x1e76, 0x1e76, 0x1e77, 0x1e76),
     (0x1e77, 0x1e76, 0x1e77, 0x1e76), (0x1e78, 0x1e78, 0x1e79, 0x1e78), (0x1e79, 0x1e78, 0x1e79, 0x1e78), (0x1e7a, 0x1e7a, 0x1e7b, 0x1e7a),
     (0x1e7b, 0x1e7a, 0x1e7b, 0x1e7a), (0x1e7c, 0x1e7c, 0x1e7d, 0x1e7c), (0x1e7d, 0x1e7c, 0x1e7d, 0x1e7c), (0x1e7e, 0x1e7e, 0x1e7f, 0x1e7e),
     (0x1e7f, 0x1e7e, 0x1e7f, 0x1e7e)]"

definition case_offset9 :: "int list" where
  "case_offset9 =
    [936, 937, 938, 939, 940, 941, 942, 943, 944, 945, 946, 947, 948, 949, 950, 951,
     952, 953, 954, 955, 957, 959, 960, 962, 964, 965, 967, 968, 970, 971, 972, 973,
     974, 976, 977, 978, 980, 981, 982, 983, 984, 986, 988, 989, 990, 991, 992, 993,
     995, 996, 997, 999, 1000, 1001, 1003, 1004, 1005, 1006, 1007, 1008, 1009, 1010, 1011, 1012]"

definition case_tab10 :: "case_row list" where
  "case_tab10 =
    [(0x1e80, 0x1e80, 0x1e81, 0x1e80), (0x0280, 0x01a6, 0x0280, 0x01a6), (0x1e81, 0x1e80, 0x1e81, 0x1e80), (0x1e82, 0x1e82, 0x1e83, 0x1e82),
     (0x1e83, 0x1e82, 0x1e83, 0x1e82), (0x0283, 0x01a9, 0x0283, 0x01a9), (0x1e84, 0x1e84, 0x1e85, 0x1e84), (0x1e85, 0x1e84, 0x1e85, 0x1e84),
     (0x1e86, 0x1e86, 0x1e87, 0x1e86), (0x1e87, 0x1e86, 0x1e87, 0x1e86), (0x1e88, 0x1e88, 0x1e89, 0x1e88), (0x0288, 0x01ae, 0x0288, 0x01ae),
     (0x1e89, 0x1e88, 0x1e89, 0x1e88), (0x028a, 0x01b1, 0x028a, 0x01b1), (0x1e8a, 0x1e8a, 0x1e8b, 0x1e8a), (0x1e8b, 0x1e8a, 0x1e8b, 0x1e8a),
     (0x028b, 0x01b2, 0x028b, 0x01b2), (0x1e8c, 0x1e8c, 0x1e8d, 0x1e8c), (0x1e8d, 0x1e8c, 0x1e8d, 0x1e8c), (0x1e8e, 0x1e8e, 0x1e8f, 0x1e8e),
     (0x1e8f, 0x1e8e, 0x1e8f, 0x1e8e), (0x1e90, 0x1e90, 0x1e91, 0x1e90), (0x1e91, 0x1e90, 0x1e91, 0x1e90), (0x0292, 0x01b7, 0x0292, 0x01b7),
     (0x1e92, 0x1e92, 0x1e93, 0x1e92), (0x1e93, 0x1e92, 0x1e93, 0x1e92), (0x1e94, 0x1e94, 0x1e95, 0x1e94), (0x1e95, 0x1e94, 0x1e95, 0x1e94),
     (0x1e9b, 0x1e60, 0x1e9b, 0x1e60), (0x1ea0, 0x1ea0, 0x1ea1, 0x1ea0), (0x1ea1, 0x1ea0, 0x1ea1, 0x1ea0), (0x1ea2, 0x1ea2, 0x1ea3, 0x1ea2),
     (0x1ea3, 0x1ea2, 0x1ea3, 0x1ea2), (0x1ea4, 0x1ea4, 0x1ea5, 0x1ea4), (0x1ea5, 0x1ea4, 0x1ea5, 0x1ea4), (0x1ea6, 0x1ea6, 0x1ea7, 0x1ea6),
     (0x1ea7, 0x1ea6, 0x1ea7, 0x1ea6), (0x1ea8, 0x1ea8, 0x1ea9, 0x1ea8), (0x1ea9, 0x1ea8, 0x1ea9, 0x1ea8), (0x1eaa, 0x1eaa, 0x1eab, 0x1eaa),
     (0x1eab, 0x1eaa, 0x1eab, 0x1eaa), (0x1eac, 0x1eac, 0x1ead, 0x1eac), (0x1ead, 0x1eac, 0x1ead, 0x1eac), (0x1eae, 0x1eae, 0x1eaf, 0x1eae),
     (0x1eaf, 0x1eae, 0x1eaf, 0x1eae), (0x1eb0, 0x1eb0, 0x1eb1, 0x1eb0), (0x1eb1, 0x1eb0, 0x1eb1, 0x1eb0), (0x1eb2, 0x1eb2, 0x1eb3, 0x1eb2),
     (0x1eb3, 0x1eb2, 0x1eb3, 0x1eb2), (0x1eb4, 0x1eb4, 0x1eb5, 0x1eb4), (0x1eb5, 0x1eb4, 0x1eb5, 0x1eb4), (0x1eb6, 0x1eb6, 0x1eb7, 0x1eb6),
     (0x1eb7, 0x1eb6, 0x1eb7, 0x1eb6), (0x1eb8, 0x1eb8, 0x1eb9, 0x1eb8), (0x1eb9, 0x1eb8, 0x1eb9, 0x1eb8), (0x1eba, 0x1eba, 0x1ebb, 0x1eba),
     (0x1ebb, 0x1eba, 0x1ebb, 0x1eba), (0x1ebc, 0x1ebc, 0x1ebd, 0x1ebc), (0x1ebd, 0x1ebc, 0x1ebd, 0x1ebc), (0x1ebe, 0x1ebe, 0x1ebf, 0x1ebe),
     (0x1ebf, 0x1ebe, 0x1ebf, 0x1ebe)]"

definition case_offset10 :: "int list" where
  "case_offset10 =
    [1013, 1015, 1016, 1017, 1019, 1020, 1021, 1022, 1023, 1025, 1026, 1028, 1030, 1031, 1032, 1033,
     1034, 1035, 1036, 1038, 1039, 1040, 1041, 1041, 1041, 1041, 1041, 1041, 1042, 1042, 1042, 1042,
     1042, 1043, 1044, 1045, 1046, 1047, 1048, 1049, 1050, 1051, 1052, 1053, 1054, 1055, 1056, 1057,
     1058, 1059, 1060, 1061, 1062, 1063, 1064, 1065, 1066, 1067, 1068, 1069, 1070, 1071, 1072, 1073]"

definition case_tab11 :: "case_row list" where
  "case_tab11 =
    [(0x1ec0, 0x1ec0, 0x1ec1, 0x1ec0), (0x1ec1, 0x1ec0, 0x1ec1, 0x1ec0), (0x1ec2, 0x1ec2, 0x1ec3, 0x1ec2), (0x1ec3, 0x1ec2, 0x1ec3, 0x1ec2),
     (0x1ec4, 0x1ec4, 0x1ec5, 0x1ec4), (0x1ec5, 0x1ec4, 0x1ec5, 0x1ec4), (0x1ec6, 0x1ec6, 0x1ec7, 0x1ec6), (0x1ec7, 0x1ec6, 0x1ec7, 0x1ec6),
     (0x1ec8, 0x1ec8, 0x1ec9, 0x1ec8), (0x1ec9, 0x1ec8, 0x1ec9, 0x1ec8), (0x1eca, 0x1eca, 0x1ecb, 0x1eca), (0x1ecb, 0x1eca, 0x1ecb, 0x1eca),
     (0x1ecc, 0x1ecc, 0x1ecd, 0x1ecc), (0x1ecd, 0x1ecc, 0x1ecd, 0x1ecc), (0x1ece, 0x1ece, 0x1ecf, 0x1ece), (0x1ecf, 0x1ece, 0x1ecf, 0x1ece),
     (0x1ed0, 0x1ed0, 0x1ed1, 0x1ed0), (0x1ed1, 0x1ed0, 0x1ed1, 0x1ed0), (0x1ed2, 0x1ed2, 0x1ed3, 0x1ed2), (0x1ed3, 0x1ed2, 0x1ed3, 0x1ed2),
     (0x1ed4, 0x1ed4, 0x1ed5, 0x1ed4), (0x1ed5, 0x1ed4, 0x1ed5, 0x1ed4), (0x1ed6, 0x1ed6, 0x1ed7, 0x1ed6), (0x1ed7, 0x1ed6, 0x1ed7, 0x1ed6),
     (0x1ed8, 0x1ed8, 0x1ed9, 0x1ed8), (0x1ed9, 0x1ed8, 0x1ed9, 0x1ed8), (0x1eda, 0x1eda, 0x1edb, 0x1eda), (0x1edb, 0x1eda, 0x1edb, 0x1eda),
     (0x1edc, 0x1edc, 0x1edd, 0x1edc), (0x1edd, 0x1edc, 0x1edd, 0x1edc), (0x1ede, 0x1ede, 0x1edf, 0x1ede), (0x1edf, 0x1ede, 0x1edf, 0x1ede),
     (0x1ee0, 0x1ee0, 0x1ee1, 0x1ee0), (0x1ee1, 0x1ee0, 0x1ee1, 0x1ee0), (0x1ee2, 0x1ee2, 0x1ee3, 0x1ee2), (0x1ee3, 0x1ee2, 0x1ee3, 0x1ee2),
     (0x1ee4, 0x1ee4, 0x1ee5, 0x1ee4), (0x1ee5, 0x1ee4, 0x1ee5, 0x1ee4), (0x1ee6, 0x1ee6, 0x1ee7, 0x1ee6), (0x1ee7, 0x1ee6, 0x1ee7, 0x1ee6),
     (0x1ee8, 0x1ee8, 0x1ee9, 0x1ee8), (0x1ee9, 0x1ee8, 0x1ee9, 0x1ee8), (0x1eea, 0x1eea, 0x1eeb, 0x1eea), (0x1eeb, 0x1eea, 0x1eeb, 0x1eea),
     (0x1eec, 0x1eec, 0x1eed, 0x1eec), (0x1eed, 0x1eec, 0x1eed, 0x1eec), (0x1eee, 0x1eee, 0x1eef, 0x1eee), (0x1eef, 0x1eee, 0x1eef, 0x1eee),
     (0x1ef0, 0x1ef0, 0x1ef1, 0x1ef0), (0x1ef1, 0x1ef0, 0x1ef1, 0x1ef0), (0x1ef2, 0x1ef2, 0x1ef3, 0x1ef2), (0x1ef3, 0x1ef2, 0x1ef3, 0x1ef2),
     (0x1ef4, 0x1ef4, 0x1ef5, 0x1ef4), (0x1ef5, 0x1ef4, 0x1ef5, 0x1ef4), (0x1ef6, 0x1ef6, 0x1ef7, 0x1ef6), (0x1ef7, 0x1ef6, 0x1ef7, 0x1ef6),
     (0x1ef8, 0x1ef8, 0x1ef9, 0x1ef8), (0x1ef9, 0x1ef8, 0x1ef9, 0x1ef8)]"

definition case_offset11 :: "int list" where
  "case_offset11 =
    [1074, 1075, 1076, 1077, 1078, 1079, 1080, 1081, 1082, 1083, 1084, 1085, 1086, 1087, 1088, 1089,
     1090, 1091, 1092, 1093, 1094, 1095, 1096, 1097, 1098, 1099, 1100, 1101, 1102, 1103, 1104, 1105,
     1106, 1107, 1108, 1109, 1110, 1111, 1112, 1113, 1114, 1115, 1116, 1117, 1118, 1119, 1120, 1121,
     1122, 1123, 1124, 1125, 1126, 1127, 1128, 1129, 1130, 1131, 1132, 1132, 1132, 1132, 1132, 1132]"

definition case_tab12 :: "case_row list" where
  "case_tab12 =
    [(0x1f00, 0x1f08, 0x1f00, 0x1f08), (0x1f01, 0x1f09, 0x1f01, 0x1f09), (0x1f02, 0x1f0a, 0x1f02, 0x1f0a), (0x1f03, 0x1f0b, 0x1f03, 0x1f0b),
     (0x1f04, 0x1f0c, 0x1f04, 0x1f0c), (0x1f05, 0x1f0d, 0x1f05, 0x1f0d), (0x1f06, 0x1f0e, 0x1f06, 0x1f0e), (0x1f07, 0x1f0f, 0x1f07, 0x1f0f),
     (0x1f08, 0x1f08, 0x1f00, 0x1f08), (0x1f09, 0x1f09, 0x1f01, 0x1f09), (0x1f0a, 0x1f0a, 0x1f02, 0x1f0a), (0x1f0b, 0x1f0b, 0x1f03, 0x1f0b),
     (0x1f0c, 0x1f0c, 0x1f04, 0x1f0c), (0x1f0d, 0x1f0d, 0x1f05, 0x1f0d), (0x1f0e, 0x1f0e, 0x1f06, 0x1f0e), (0x1f0f, 0x1f0f, 0x1f07, 0x1f0f),
     (0x1f10, 0x1f18, 0x1f10, 0x1f18), (0x1f11, 0x1f19, 0x1f11, 0x1f19), (0x1f12, 0x1f1a, 0x1f12, 0x1f1a), (0x1f13, 0x1f1b, 0x1f13, 0x1f1b),
     (0x1f14, 0x1f1c, 0x1f14, 0x1f1c), (0x1f15, 0x1f1d, 0x1f15, 0x1f1d), (0x1f18, 0x1f18, 0x1f10, 0x1f18), (0x1f19, 0x1f19, 0x1f11, 0x1f19),
     (0x1f1a, 0x1f1a, 0x1f12, 0x1f1a), (0x1f1b, 0x1f1b, 0x1f13, 0x1f1b), (0x1f1c, 0x1f1c, 0x1f14, 0x1f1c), (0x1f1d, 0x1f1d, 0x1f15, 0x1f1d),
     (0x1f20, 0x1f28, 0x1f20, 0x1f28), (0x1f21, 0x1f29, 0x1f21, 0x1f29), (0xff21, 0xff21, 0xff41, 0xff21), (0xff22, 0xff22, 0xff42, 0xff22),
     (0x1f22, 0x1f2a, 0x1f22, 0x1f2a), (0x1f23, 0x1f2b, 0x1f23, 0x1f2b), (0xff23, 0xff23, 0xff43, 0xff23), (0xff24, 0xff24, 0xff44, 0xff24),
     (0x1f24, 0x1f2c, 0x1f24, 0x1f2c), (0xff25, 0xff25, 0xff45, 0xff25), (0x1f25, 0x1f2d, 0x1f25, 0x1f2d), (0x1f26, 0x1f2e, 0x1f26, 0x1f2e),
     (0xff26, 0xff26, 0xff46, 0xff26), (0xff27, 0xff27, 0xff47, 0xff27), (0x1f27, 0x1f2f, 0x1f27, 0x1f2f), (0xff28, 0xff28, 0xff48, 0xff28),
     (0x1f28, 0x1f28, 0x1f20, 0x1f28), (0xff29, 0xff29, 0xff49, 0xff29), (0x1f29, 0x1f29, 0x1f21, 0x1f29), (0x1f2a, 0x1f2a, 0x1f22, 0x1f2a),
     (0xff2a, 0xff2a, 0xff4a, 0xff2a), (0x1f2b, 0x1f2b, 0x1f23, 0x1f2b), (0xff2b, 0xff2b, 0xff4b, 0xff2b), (0xff2c, 0xff2c, 0xff4c, 0xff2c),
     (0x1f2c, 0x1f2c, 0x1f24, 0x1f2c), (0x1f2d, 0x1f2d, 0x1f25, 0x1f2d), (0xff2d, 0xff2d, 0xff4d, 0xff2d), (0xff2e, 0xff2e, 0xff4e, 0xff2e),
     (0x1f2e, 0x1f2e, 0x1f26, 0x1f2e), (0x1f2f, 0x1f2f, 0x1f27, 0x1f2f), (0xff2f, 0xff2f, 0xff4f, 0xff2f), (0x1f30, 0x1f38, 0x1f30, 0x1f38),
     (0xff30, 0xff30, 0xff50, 0xff30), (0x1f31, 0x1f39, 0x1f31, 0x1f39), (0xff31, 0xff31, 0xff51, 0xff31), (0x1f32, 0x1f3a, 0x1f32, 0x1f3a),
     (0xff32, 0xff32, 0xff52, 0xff32), (0xff33, 0xff33, 0xff53, 0xff33), (0x1f33, 0x1f3b, 0x1f33, 0x1f3b), (0xff34, 0xff34, 0xff54, 0xff34),
     (0x1f34, 0x1f3c, 0x1f34, 0x1f3c), (0xff35, 0xff35, 0xff55, 0xff35), (0x1f35, 0x1f3d, 0x1f35, 0x1f3d), (0x1f36, 0x1f3e, 0x1f36, 0x1f3e),
     (0xff36, 0xff36, 0xff56, 0xff36), (0x1f37, 0x1f3f, 0x1f37, 0x1f3f), (0xff37, 0xff37, 0xff57, 0xff37), (0xff38, 0xff38, 0xff58, 0xff38),
     (0x1f38, 0x1f38, 0x1f30, 0x1f38), (0x1f39, 0x1f39, 0x1f31, 0x1f39), (0xff39, 0xff39, 0xff59, 0xff39), (0xff3a, 0xff3a, 0xff5a, 0xff3a),
     (0x1f3a, 0x1f3a, 0x1f32, 0x1f3a), (0x1f3b, 0x1f3b, 0x1f33, 0x1f3b), (0x1f3c, 0x1f3c, 0x1f34, 0x1f3c), (0x1f3d, 0x1f3d, 0x1f35, 0x1f3d),
     (0x1f3e, 0x1f3e, 0x1f36, 0x1f3e), (0x1f3f, 0x1f3f, 0x1f37, 0x1f3f)]"

definition case_offset12 :: "int list" where
  "case_offset12 =
    [1132, 1133, 1134, 1135, 1136, 1137, 1138, 1139, 1140, 1141, 1142, 1143, 1144, 1145, 1146, 1147,
     1148, 1149, 1150, 1151, 1152, 1153, 1154, 1154, 1154, 1155, 1156, 1157, 1158, 1159, 1160, 1160,
     1160, 1161, 1163, 1165, 1167, 1169, 1171, 1173, 1175, 1177, 1179, 1181, 1183, 1185, 1187, 1189,
     1191, 1193, 1195, 1197, 1199, 1201, 1203, 1205, 1207, 1209, 1211, 1213, 1214, 1215, 1216, 1217]"

definition case_tab13 :: "case_row list" where
  "case_tab13 =
    [(0x1f40, 0x1f48, 0x1f40, 0x1f48), (0x1f41, 0x1f49, 0x1f41, 0x1f49), (0xff41, 0xff21, 0xff41, 0xff21), (0x1f42, 0x1f4a, 0x1f42, 0x1f4a),
     (0xff42, 0xff22, 0xff42, 0xff22), (0xff43, 0xff23, 0xff43, 0xff23), (0x1f43, 0x1f4b, 0x1f43, 0x1f4b), (0xff44, 0xff24, 0xff44, 0xff24),
     (0x1f44, 0x1f4c, 0x1f44, 0x1f4c), (0x0345, 0x0399, 0x0345, 0x0399), (0x1f45, 0x1f4d, 0x1f45, 0x1f4d), (0xff45, 0xff25, 0xff45, 0xff25),
     (0xff46, 0xff26, 0xff46, 0xff26), (0xff47, 0xff27, 0xff47, 0xff27), (0x1f48, 0x1f48, 0x1f40, 0x1f48), (0xff48, 0xff28, 0xff48, 0xff28),
     (0xff49, 0xff29, 0xff49, 0xff29), (0x1f49, 0x1f49, 0x1f41, 0x1f49), (0xff4a, 0xff2a, 0xff4a, 0xff2a), (0x1f4a, 0x1f4a, 0x1f42, 0x1f4a),
     (0x1f4b, 0x1f4b, 0x1f43, 0x1f4b), (0xff4b, 0xff2b, 0xff4b, 0xff2b), (0x1f4c, 0x1f4c, 0x1f44, 0x1f4c), (0xff4c, 0xff2c, 0xff4c, 0xff2c),
     (0x1f4d, 0x1f4d, 0x1f45, 0x1f4d), (0xff4d, 0xff2d, 0xff4d, 0xff2d), (0xff4e, 0xff2e, 0xff4e, 0xff2e), (0xff4f, 0xff2f, 0xff4f, 0xff2f),
     (0xff50, 0xff30, 0xff50, 0xff30), (0xff51, 0xff31, 0xff51, 0xff31), (0x1f51, 0x1f59, 0x1f51, 0x1f59), (0xff52, 0xff32, 0xff52, 0xff32),
     (0x1f53, 0x1f5b, 0x1f53, 0x1f5b), (0xff53, 0xff33, 0xff53, 0xff33), (0xff54, 0xff34, 0xff54, 0xff34), (0xff55, 0xff35, 0xff55, 0xff35),
     (0x1f55, 0x1f5d, 0x1f55, 0x1f5d), (0xff56, 0xff36, 0xff56, 0xff36), (0xff57, 0xff37, 0xff57, 0xff37), (0x1f57, 0x1f5f, 0x1f57, 0x1f5f),
     (0xff58, 0xff38, 0xff58, 0xff38), (0xff59, 0xff39, 0xff59, 0xff39), (0x1f59, 0x1f59, 0x1f51, 0x1f59), (0xff5a, 0xff3a, 0xff5a, 0xff3a),
     (0x1f5b, 0x1f5b, 0x1f53, 0x1f5b), (0x1f5d, 0x1f5d, 0x1f55, 0x1f5d), (0x1f5f, 0x1f5f, 0x1f57, 0x1f5f), (0x1f60, 0x1f68, 0x1f60, 0x1f68),
     (0x1f61, 0x1f69, 0x1f61, 0x1f69), (0x1f62, 0x1f6a, 0x1f62, 0x1f6a), (0x1f63, 0x1f6b, 0x1f63, 0x1f6b), (0x1f64, 0x1f6c, 0x1f64, 0x1f6c),
     (0x1f65, 0x1f6d, 0x1f65, 0x1f6d), (0x1f66, 0x1f6e, 0x1f66, 0x1f6e), (0x1f67, 0x1f6f, 0x1f67, 0x1f6f), (0x1f68, 0x1f68, 0x1f60, 0x1f68),
     (0x1f69, 0x1f69, 0x1f61, 0x1f69), (0x1f6a, 0x1f6a, 0x1f62, 0x1f6a), (0x1f6b, 0x1f6b, 0x1f63, 0x1f6b), (0x1f6c, 0x1f6c, 0x1f64, 0x1f6c),
     (0x1f6d, 0x1f6d, 0x1f65, 0x1f6d), (0x1f6e, 0x1f6e, 0x1f66, 0x1f6e), (0x1f6f, 0x1f6f, 0x1f67, 0x1f6f), (0x1f70, 0x1fba, 0x1f70, 0x1fba),
     (0x1f71, 0x1fbb, 0x1f71, 0x1fbb), (0x1f72, 0x1fc8, 0x1f72, 0x1fc8), (0x1f73, 0x1fc9, 0x1f73, 0x1fc9), (0x1f74, 0x1fca, 0x1f74, 0x1fca),
     (0x1f75, 0x1fcb, 0x1f75, 0x1fcb), (0x1f76, 0x1fda, 0x1f76, 0x1fda), (0x1f77, 0x1fdb, 0x1f77, 0x1fdb), (0x1f78, 0x1ff8, 0x1f78, 0x1ff8),
     (0x1f79, 0x1ff9, 0x1f79, 0x1ff9), (0x1f7a, 0x1fea, 0x1f7a, 0x1fea), (0x1f7b, 0x1feb, 0x1f7b, 0x1feb), (0x1f7c, 0x1ffa, 0x1f7c, 0x1ffa),
     (0x1f7d, 0x1ffb, 0x1f7d, 0x1ffb)]"

definition case_offset13 :: "int list" where
  "case_offset13 =
    [1218, 1219, 1221, 1223, 1225, 1227, 1230, 1231, 1232, 1234, 1236, 1238, 1240, 1242, 1244, 1245,
     1246, 1247, 1249, 1250, 1252, 1253, 1255, 1256, 1258, 1259, 1261, 1262, 1263, 1263, 1264, 1264,
     1265, 1266, 1267, 1268, 1269, 1270, 1271, 1272, 1273, 1274, 1275, 1276, 1277, 1278, 1279, 1280,
     1281, 1282, 1283, 1284, 1285, 1286, 1287, 1288, 1289, 1290, 1291, 1292, 1293, 1294, 1295, 1295]"

definition case_tab14 :: "case_row list" where
  "case_tab14 =
    [(0x1f80, 0x1f88, 0x1f80, 0x1f88), (0x1f81, 0x1f89, 0x1f81, 0x1f89), (0x1f82, 0x1f8a, 0x1f82, 0x1f8a), (0x1f83, 0x1f8b, 0x1f83, 0x1f8b),
     (0x1f84, 0x1f8c, 0x1f84, 0x1f8c), (0x1f85, 0x1f8d, 0x1f85, 0x1f8d), (0x1f86, 0x1f8e, 0x1f86, 0x1f8e), (0x0386, 0x0386, 0x03ac, 0x0386),
     (0x1f87, 0x1f8f, 0x1f87, 0x1f8f), (0x0388, 0x0388, 0x03ad, 0x0388), (0x1f88, 0x1f88, 0x1f80, 0x1f88), (0x1f89, 0x1f89, 0x1f81, 0x1f89),
     (0x0389, 0x0389, 0x03ae, 0x0389), (0x038a, 0x038a, 0x03af, 0x038a), (0x1f8a, 0x1f8a, 0x1f82, 0x1f8a), (0x1f8b, 0x1f8b, 0x1f83, 0x1f8b),
     (0x1f8c, 0x1f8c, 0x1f84, 0x1f8c), (0x038c, 0x038c, 0x03cc, 0x038c), (0x1f8d, 0x1f8d, 0x1f85, 0x1f8d), (0x1f8e, 0x1f8e, 0x1f86, 0x1f8e),
     (0x038e, 0x038e, 0x03cd, 0x038e), (0x1f8f, 0x1f8f, 0x1f87, 0x1f8f), (0x038f, 0x038f, 0x03ce, 0x038f), (0x1f90, 0x1f98, 0x1f90, 0x1f98),
     (0x0391, 0x0391, 0x03b1, 0x0391), (0x1f91, 0x1f99, 0x1f91, 0x1f99), (0x1f92, 0x1f9a, 0x1f92, 0x1f9a), (0x0392, 0x0392, 0x03b2, 0x0392),
     (0x1f93, 0x1f9b, 0x1f93, 0x1f9b), (0x0393, 0x0393, 0x03b3, 0x0393), (0x1f94, 0x1f9c, 0x1f94, 0x1f9c), (0x0394, 0x0394, 0x03b4, 0x0394),
     (0x0395, 0x0395, 0x03b5, 0x0395), (0x1f95, 0x1f9d, 0x1f95, 0x1f9d), (0x1f96, 0x1f9e, 0x1f96, 0x1f9e), (0x0396, 0x0396, 0x03b6, 0x0396),
     (0x0397, 0x0397, 0x03b7, 0x0397), (0x1f97, 0x1f9f, 0x1f97, 0x1f9f), (0x0398, 0x0398, 0x03b8, 0x0398), (0x1f98, 0x1f98, 0x1f90, 0x1f98),
     (0x1f99, 0x1f99, 0x1f91, 0x1f99), (0x0399, 0x0399, 0x03b9, 0x0399), (0x1f9a, 0x1f9a, 0x1f92, 0x1f9a), (0x039a, 0x039a, 0x03ba, 0x039a),
     (0x1f9b, 0x1f9b, 0x1f93, 0x1f9b), (0x039b, 0x039b, 0x03bb, 0x039b), (0x1f9c, 0x1f9c, 0x1f94, 0x1f9c), (0x039c, 0x039c, 0x03bc, 0x039c),
     (0x1f9d, 0x1f9d, 0x1f95, 0x1f9d), (0x039d, 0x039d, 0x03bd, 0x039d), (0x039e, 0x039e, 0x03be, 0x039e), (0x1f9e, 0x1f9e, 0x1f96, 0x1f9e),
     (0x039f, 0x039f, 0x03bf, 0x039f), (0x1f9f, 0x1f9f, 0x1f97, 0x1f9f), (0x1fa0, 0x1fa8, 0x1fa0, 0x1fa8), (0x03a0, 0x03a0, 0x03c0, 0x03a0),
     (0x03a1, 0x03a1, 0x03c1, 0x03a1), (0x1fa1, 0x1fa9, 0x1fa1, 0x1fa9), (0x1fa2, 0x1faa, 0x1fa2, 0x1faa), (0x03a3, 0x03a3, 0x03c3, 0x03a3),
     (0x1fa3, 0x1fab, 0x1fa3, 0x1fab), (0x1fa4, 0x1fac, 0x1fa4, 0x1fac), (0x03a4, 0x03a4, 0x03c4, 0x03a4), (0x1fa5, 0x1fad, 0x1fa5, 0x1fad),
     (0x03a5, 0x03a5, 0x03c5, 0x03a5), (0x1fa6, 0x1fae, 0x1fa6, 0x1fae), (0x03a6, 0x03a6, 0x03c6, 0x03a6), (0x1fa7, 0x1faf, 0x1fa7, 0x1faf),
     (0x03a7, 0x03a7, 0x03c7, 0x03a7), (0x03a8, 0x03a8, 0x03c8, 0x03a8), (0x1fa8, 0x1fa8, 0x1fa0, 0x1fa8), (0x03a9, 0x03a9, 0x03c9, 0x03a9),
     (0x1fa9, 0x1fa9, 0x1fa1, 0x1fa9), (0x1faa, 0x1faa, 0x1fa2, 0x1faa), (0x03aa, 0x03aa, 0x03ca, 0x03aa), (0x03ab, 0x03ab, 0x03cb, 0x03ab),
     (0x1fab, 0x1fab, 0x1fa3, 0x1fab), (0x1fac, 0x1fac, 0x1fa4, 0x1fac), (0x03ac, 0x0386, 0x03ac, 0x0386), (0x1fad, 0x1fad, 0x1fa5, 0x1fad),
     (0x03ad, 0x0388, 0x03ad, 0x0388), (0x1fae, 0x1fae, 0x1fa6, 0x1fae), (0x03ae, 0x0389, 0x03ae, 0x0389), (0x03af, 0x038a, 0x03af, 0x038a),
     (0x1faf, 0x1faf, 0x1fa7, 0x1faf), (0x1fb0, 0x1fb8, 0x1fb0, 0x1fb8), (0x03b1, 0x0391, 0x03b1, 0x0391), (0x1fb1, 0x1fb9, 0x1fb1, 0x1fb9),
     (0x03b2, 0x0392, 0x03b2, 0x0392), (0x03b3, 0x0393, 0x03b3, 0x0393), (0x1fb3, 0x1fbc, 0x1fb3, 0x1fbc), (0x03b4, 0x0394, 0x03b4, 0x0394),
     (0x03b5, 0x0395, 0x03b5, 0x0395), (0x03b6, 0x0396, 0x03b6, 0x0396), (0x03b7, 0x0397, 0x03b7, 0x0397), (0x1fb8, 0x1fb8, 0x1fb0, 0x1fb8),
     (0x03b8, 0x0398, 0x03b8, 0x0398), (0x03b9, 0x0399, 0x03b9, 0x0399), (0x1fb9, 0x1fb9, 0x1fb1, 0x1fb9), (0x03ba, 0x039a, 0x03ba, 0x039a),
     (0x1fba, 0x1fba, 0x1f70, 0x1fba), (0x1fbb, 0x1fbb, 0x1f71, 0x1fbb), (0x03bb, 0x039b, 0x03bb, 0x039b), (0x03bc, 0x039c, 0x03bc, 0x039c),
     (0x1fbc, 0x1fbc, 0x1fb3, 0x1fbc), (0x03bd, 0x039d, 0x03bd, 0x039d), (0x1fbe, 0x0399, 0x1fbe, 0x0399), (0x03be, 0x039e, 0x03be, 0x039e),
     (0x03bf, 0x039f, 0x03bf, 0x039f)]"

definition case_offset14 :: "int list" where
  "case_offset14 =
    [1295, 1296, 1297, 1298, 1299, 1300, 1301, 1303, 1304, 1306, 1308, 1310, 1311, 1313, 1314, 1316,
     1318, 1319, 1321, 1323, 1325, 1327, 1329, 1331, 1333, 1335, 1337, 1339, 1341, 1343, 1345, 1347,
     1349, 1351, 1353, 1354, 1356, 1358, 1360, 1362, 1364, 1366, 1368, 1370, 1372, 1374, 1376, 1378,
     1380, 1381, 1383, 1384, 1386, 1387, 1388, 1389, 1390, 1392, 1394, 1396, 1398, 1400, 1401, 1403]"

definition case_tab15 :: "case_row list" where
  "case_tab15 =
    [(0x03c0, 0x03a0, 0x03c0, 0x03a0), (0x03c1, 0x03a1, 0x03c1, 0x03a1), (0x03c2, 0x03a3, 0x03c2, 0x03a3), (0x03c3, 0x03a3, 0x03c3, 0x03a3),
     (0x1fc3, 0x1fcc, 0x1fc3, 0x1fcc), (0x03c4, 0x03a4, 0x03c4, 0x03a4), (0x03c5, 0x03a5, 0x03c5, 0x03a5), (0x03c6, 0x03a6, 0x03c6, 0x03a6),
     (0x03c7, 0x03a7, 0x03c7, 0x03a7), (0x1fc8, 0x1fc8, 0x1f72, 0x1fc8), (0x03c8, 0x03a8, 0x03c8, 0x03a8), (0x03c9, 0x03a9, 0x03c9, 0x03a9),
     (0x1fc9, 0x1fc9, 0x1f73, 0x1fc9), (0x1fca, 0x1fca, 0x1f74, 0x1fca), (0x03ca, 0x03aa, 0x03ca, 0x03aa), (0x1fcb, 0x1fcb, 0x1f75, 0x1fcb),
     (0x03cb, 0x03ab, 0x03cb, 0x03ab), (0x03cc, 0x038c, 0x03cc, 0x038c), (0x1fcc, 0x1fcc, 0x1fc3, 0x1fcc), (0x03cd, 0x038e, 0x03cd, 0x038e),
     (0x03ce, 0x038f, 0x03ce, 0x038f), (0x03d0, 0x0392, 0x03d0, 0x0392), (0x1fd0, 0x1fd8, 0x1fd0, 0x1fd8), (0x03d1, 0x0398, 0x03d1, 0x0398),
     (0x1fd1, 0x1fd9, 0x1fd1, 0x1fd9), (0x03d5, 0x03a6, 0x03d5, 0x03a6), (0x03d6, 0x03a0, 0x03d6, 0x03a0), (0x1fd8, 0x1fd8, 0x1fd0, 0x1fd8),
     (0x1fd9, 0x1fd9, 0x1fd1, 0x1fd9), (0x1fda, 0x1fda, 0x1f76, 0x1fda), (0x03da, 0x03da, 0x03db, 0x03da), (0x03db, 0x03da, 0x03db, 0x03da),
     (0x1fdb, 0x1fdb, 0x1f77, 0x1fdb), (0x03dc, 0x03dc, 0x03dd, 0x03dc), (0x03dd, 0x03dc, 0x03dd, 0x03dc), (0x03de, 0x03de, 0x03df, 0x03de),
     (0x03df, 0x03de, 0x03df, 0x03de), (0x03e0, 0x03e0, 0x03e1, 0x03e0), (0x1fe0, 0x1fe8, 0x1fe0, 0x1fe8), (0x03e1, 0x03e0, 0x03e1, 0x03e0),
     (0x1fe1, 0x1fe9, 0x1fe1, 0x1fe9), (0x03e2, 0x03e2, 0x03e3, 0x03e2), (0x03e3, 0x03e2, 0x03e3, 0x03e2), (0x03e4, 0x03e4, 0x03e5, 0x03e4),
     (0x1fe5, 0x1fec, 0x1fe5, 0x1fec), (0x03e5, 0x03e4, 0x03e5, 0x03e4), (0x03e6, 0x03e6, 0x03e7, 0x03e6), (0x03e7, 0x03e6, 0x03e7, 0x03e6),
     (0x03e8, 0x03e8, 0x03e9, 0x03e8), (0x1fe8, 0x1fe8, 0x1fe0, 0x1fe8), (0x03e9, 0x03e8, 0x03e9, 0x03e8), (0x1fe9, 0x1fe9, 0x1fe1, 0x1fe9),
     (0x03ea, 0x03ea, 0x03eb, 0x03ea), (0x1fea, 0x1fea, 0x1f7a, 0x1fea), (0x1feb, 0x1feb, 0x1f7b, 0x1feb), (0x03eb, 0x03ea, 0x03eb, 0x03ea),
     (0x1fec, 0x1fec, 0x1fe5, 0x1fec), (0x03ec, 0x03ec, 0x03ed, 0x03ec), (0x03ed, 0x03ec, 0x03ed, 0x03ec), (0x03ee, 0x03ee, 0x03ef, 0x03ee),
     (0x03ef, 0x03ee, 0x03ef, 0x03ee), (0x03f0, 0x039a, 0x03f0, 0x039a), (0x03f1, 0x03a1, 0x03f1, 0x03a1), (0x03f2, 0x03a3, 0x03f2, 0x03a3),
     (0x1ff3, 0x1ffc, 0x1ff3, 0x1ffc), (0x03f4, 0x03f4, 0x03b8, 0x03f4), (0x03f5, 0x0395, 0x03f5, 0x0395), (0x1ff8, 0x1ff8, 0x1f78, 0x1ff8),
     (0x1ff9, 0x1ff9, 0x1f79, 0x1ff9), (0x1ffa, 0x1ffa, 0x1f7c, 0x1ffa), (0x1ffb, 0x1ffb, 0x1f7d, 0x1ffb), (0x1ffc, 0x1ffc, 0x1ff3, 0x1ffc)]"

definition case_offset15 :: "int list" where
  "case_offset15 =
    [1404, 1405, 1406, 1407, 1409, 1410, 1411, 1412, 1413, 1415, 1417, 1419, 1421, 1423, 1424, 1425,
     1425, 1427, 1429, 1429, 1429, 1429, 1430, 1431, 1431, 1432, 1433, 1435, 1437, 1438, 1439, 1440,
     1441, 1443, 1445, 1446, 1447, 1448, 1450, 1451, 1452, 1454, 1456, 1458, 1460, 1462, 1463, 1464,
     1465, 1466, 1467, 1468, 1469, 1470, 1471, 1471, 1471, 1472, 1473, 1474, 1475, 1476, 1476, 1476]"

text \<open>The rows, and the one with zeros that ends the table.\<close>

definition case_rows :: "case_row list" where
  "case_rows =
     case_tab0 @ case_tab1 @ case_tab2 @ case_tab3 @ case_tab4 @ case_tab5 @ case_tab6 @ case_tab7 @
     case_tab8 @ case_tab9 @ case_tab10 @ case_tab11 @ case_tab12 @ case_tab13 @ case_tab14 @ case_tab15"

definition unicode_case_tab :: "case_row list" where
  "unicode_case_tab = case_rows @ [(0, 0, 0, 0)]"

definition unicode_case_offset :: "int list" where
  "unicode_case_offset =
     case_offset0 @ case_offset1 @ case_offset2 @ case_offset3 @ case_offset4 @ case_offset5 @ case_offset6 @ case_offset7 @
     case_offset8 @ case_offset9 @ case_offset10 @ case_offset11 @ case_offset12 @ case_offset13 @ case_offset14 @ case_offset15"

subsection \<open>The search\<close>

text \<open>
  The loop from row \<open>i\<close> on, with the rows from there; \<open>None\<close> when it runs past the table. The character is
  converted to \<^verbatim>\<open>unsigned\<close> for the hash.
\<close>

definition case_idx :: "unicode_char \<Rightarrow> int" where
  "case_idx c = c mod 2 ^ 32 mod unicode_case_hash"

fun case_scan :: "unicode_char \<Rightarrow> int \<Rightarrow> nat \<Rightarrow> case_row list \<Rightarrow> nat option" where
  "case_scan c idx i [] = None"
| "case_scan c idx i (r # rows) =
     (if fst r = c then Some i else if case_idx (fst r) = idx then case_scan c idx (i + 1) rows else Some 0)"

definition find_case :: "unicode_char \<Rightarrow> nat option" where
  "find_case c =
     (let idx = case_idx c; i = nat (unicode_case_offset ! nat idx)
      in case_scan c idx i (drop i unicode_case_tab))"

definition unicode_uc :: "unicode_char \<Rightarrow> unicode_char option" where
  "unicode_uc c =
     map_option (\<lambda>i. case unicode_case_tab ! i of (k, u, l, t) \<Rightarrow> if k \<noteq> c then c else u) (find_case c)"

definition unicode_lc :: "unicode_char \<Rightarrow> unicode_char option" where
  "unicode_lc c =
     map_option (\<lambda>i. case unicode_case_tab ! i of (k, u, l, t) \<Rightarrow> if k \<noteq> c then c else l) (find_case c)"

definition unicode_tc :: "unicode_char \<Rightarrow> unicode_char option" where
  "unicode_tc c =
     map_option (\<lambda>i. case unicode_case_tab ! i of (k, u, l, t) \<Rightarrow> if k \<noteq> c then c else t) (find_case c)"

subsection \<open>The buckets\<close>

lemma case_idx_and [code]: "case_idx c = c AND 0x3FF"
  using take_bit_eq_mask [of 10 c] mod_mod_cancel [of "2 ^ 10" "2 ^ 32" c]
  by (simp add: case_idx_def unicode_case_hash_def take_bit_eq_mod mask_eq_exp_minus_1)

text \<open>
  What the offsets are: how many rows have a smaller hash, in a table sorted by the hash. The table is put together from
  parts that end at bucket \<open>idx'\<close> and row \<open>i'\<close>.
\<close>

definition bucketed :: "int \<Rightarrow> int \<Rightarrow> unicode_char list \<Rightarrow> int list \<Rightarrow> int \<times> int \<Rightarrow> bool" where
  "bucketed idx i cs ks st \<longleftrightarrow>
     (\<forall>j < length ks. ks ! j = i + int (length (filter (\<lambda>c. case_idx c < idx + 1 + int j) cs))) \<and>
     sorted_wrt (\<lambda>a b. case_idx a \<le> case_idx b) cs \<and> (\<forall>c \<in> set cs. idx \<le> case_idx c \<and> case_idx c \<le> fst st) \<and>
     st = (idx + int (length ks), i + int (length cs))"

lemma bucketed_append:
  assumes "bucketed idx i cs ks st" "bucketed (fst st) (snd st) cs' ks' st'"
  shows "bucketed idx i (cs @ cs') (ks @ ks') st'"
proof -
  have st: "st = (idx + int (length ks), i + int (length cs))" using assms(1) by (simp add: bucketed_def)
  have r: "idx \<le> case_idx c \<and> case_idx c \<le> fst st" if "c \<in> set cs" for c using assms(1) that unfolding bucketed_def by blast
  have r': "fst st \<le> case_idx c \<and> case_idx c \<le> fst st'" if "c \<in> set cs'" for c using assms(2) that unfolding bucketed_def by blast
  have "(ks @ ks') ! j = i + int (length (filter (\<lambda>c. case_idx c < idx + 1 + int j) (cs @ cs')))"
    if j: "j < length (ks @ ks')" for j
  proof (cases "j < length ks")
    case True
    have "filter (\<lambda>c. case_idx c < idx + 1 + int j) cs' = []"
      using r' True by (fastforce simp: st filter_empty_conv)
    with True assms(1) show ?thesis by (simp add: bucketed_def nth_append)
  next
    case False
    have "filter (\<lambda>c. case_idx c < idx + 1 + int j) cs = cs"
      using r False by (fastforce simp: st filter_id_conv)
    moreover have e: "fst st + 1 + int (j - length ks) = idx + 1 + int j" using False by (simp add: st)
    moreover have "ks' ! (j - length ks) = snd st + int (length (filter (\<lambda>c. case_idx c < fst st + 1 + int (j - length ks)) cs'))"
      using assms(2) j False by (simp add: bucketed_def)
    ultimately show ?thesis using False unfolding e by (simp add: nth_append st)
  qed
  moreover have "sorted_wrt (\<lambda>a b. case_idx a \<le> case_idx b) (cs @ cs')"
    using assms r r' by (fastforce simp: bucketed_def sorted_wrt_append)
  moreover have "st' = (fst st + int (length ks'), snd st + int (length cs'))" using assms(2) by (simp add: bucketed_def)
  moreover have "\<forall>c \<in> set (cs @ cs'). idx \<le> case_idx c \<and> case_idx c \<le> fst st'"
    using r r' calculation(3) by (fastforce simp: st)
  ultimately show ?thesis unfolding bucketed_def using st by simp
qed

text \<open>
  The check of a part, in one pass over both arrays: \<open>i\<close> is the row, and the bucket after \<open>idx\<close> is the next with an
  offset.
\<close>

fun bucket_walk :: "int \<Rightarrow> int \<Rightarrow> unicode_char list \<Rightarrow> int list \<Rightarrow> (int \<times> int) option" where
  "bucket_walk idx i [] [] = Some (idx, i)"
| "bucket_walk idx i [] (k # ks) = (if k = i then bucket_walk (idx + 1) i [] ks else None)"
| "bucket_walk idx i (c # cs) ks =
     (if case_idx c = idx then bucket_walk idx (i + 1) cs ks
      else case ks of [] \<Rightarrow> None | k # ks' \<Rightarrow> if k = i then bucket_walk (idx + 1) i (c # cs) ks' else None)"

lemma bucketed_skip:
  assumes "bucketed (idx + 1) i cs ks st"
  shows "bucketed idx i cs (i # ks) st"
proof -
  have r: "idx + 1 \<le> case_idx c" if "c \<in> set cs" for c using assms that by (simp add: bucketed_def)
  then have none: "filter (\<lambda>c. case_idx c < idx + 1) cs = []" by (fastforce simp: filter_empty_conv)
  have "(i # ks) ! j = i + int (length (filter (\<lambda>c. case_idx c < idx + 1 + int j) cs))" if "j < length (i # ks)" for j
    using that assms none by (cases j) (auto simp: bucketed_def add.commute add.left_commute)
  then show ?thesis using assms r by (fastforce simp: bucketed_def)
qed

lemma bucketed_row:
  assumes "bucketed idx (i + 1) cs ks st" "case_idx c = idx"
  shows "bucketed idx i (c # cs) ks st"
  using assms by (auto simp: bucketed_def)

lemma bucket_walk: "bucket_walk idx i cs ks = Some st \<Longrightarrow> bucketed idx i cs ks st"
proof (induction idx i cs ks rule: bucket_walk.induct)
  case (3 idx i c cs ks)
  show ?case
  proof (cases "case_idx c = idx")
    case True
    with 3 show ?thesis using bucketed_row [of idx i cs ks st c] by simp
  next
    case False
    with 3(3) obtain k ks' where ks: "ks = k # ks'" "k = i" "bucket_walk (idx + 1) i (c # cs) ks' = Some st"
      by (auto split: list.splits if_splits)
    from bucketed_skip [OF 3(2) [OF False ks(1,2,3)]] ks(1,2) show ?thesis by simp
  qed
next
  case (1 idx i)
  then show ?case by (auto simp: bucketed_def)
next
  case (2 idx i k ks)
  then show ?case by (auto intro: bucketed_skip split: if_splits)
qed

lemma buckets0: "bucketed (- 1) 0 (map fst case_tab0) case_offset0 (63, 126)"
  by (rule bucket_walk) code_simp

lemma buckets1: "bucketed 63 126 (map fst case_tab1) case_offset1 (127, 256)"
  by (rule bucket_walk) code_simp

lemma buckets2: "bucketed 127 256 (map fst case_tab2) case_offset2 (191, 321)"
  by (rule bucket_walk) code_simp

lemma buckets3: "bucketed 191 321 (map fst case_tab3) case_offset3 (255, 472)"
  by (rule bucket_walk) code_simp

lemma buckets4: "bucketed 255 472 (map fst case_tab4) case_offset4 (319, 553)"
  by (rule bucket_walk) code_simp

lemma buckets5: "bucketed 319 553 (map fst case_tab5) case_offset5 (383, 702)"
  by (rule bucket_walk) code_simp

lemma buckets6: "bucketed 383 702 (map fst case_tab6) case_offset6 (447, 763)"
  by (rule bucket_walk) code_simp

lemma buckets7: "bucketed 447 763 (map fst case_tab7) case_offset7 (511, 822)"
  by (rule bucket_walk) code_simp

lemma buckets8: "bucketed 511 822 (map fst case_tab8) case_offset8 (575, 936)"
  by (rule bucket_walk) code_simp

lemma buckets9: "bucketed 575 936 (map fst case_tab9) case_offset9 (639, 1013)"
  by (rule bucket_walk) code_simp

lemma buckets10: "bucketed 639 1013 (map fst case_tab10) case_offset10 (703, 1074)"
  by (rule bucket_walk) code_simp

lemma buckets11: "bucketed 703 1074 (map fst case_tab11) case_offset11 (767, 1132)"
  by (rule bucket_walk) code_simp

lemma buckets12: "bucketed 767 1132 (map fst case_tab12) case_offset12 (831, 1218)"
  by (rule bucket_walk) code_simp

lemma buckets13: "bucketed 831 1218 (map fst case_tab13) case_offset13 (895, 1295)"
  by (rule bucket_walk) code_simp

lemma buckets14: "bucketed 895 1295 (map fst case_tab14) case_offset14 (959, 1404)"
  by (rule bucket_walk) code_simp

lemma buckets15: "bucketed 959 1404 (map fst case_tab15) case_offset15 (1023, 1476)"
  by (rule bucket_walk) code_simp

lemma case_tables: "bucketed (- 1) 0 (map fst case_rows) unicode_case_offset (1023, 1476)"
  unfolding case_rows_def unicode_case_offset_def map_append
  by (rule bucketed_append [OF buckets0], unfold fst_conv snd_conv,
    rule bucketed_append [OF buckets1], unfold fst_conv snd_conv,
    rule bucketed_append [OF buckets2], unfold fst_conv snd_conv,
    rule bucketed_append [OF buckets3], unfold fst_conv snd_conv,
    rule bucketed_append [OF buckets4], unfold fst_conv snd_conv,
    rule bucketed_append [OF buckets5], unfold fst_conv snd_conv,
    rule bucketed_append [OF buckets6], unfold fst_conv snd_conv,
    rule bucketed_append [OF buckets7], unfold fst_conv snd_conv,
    rule bucketed_append [OF buckets8], unfold fst_conv snd_conv,
    rule bucketed_append [OF buckets9], unfold fst_conv snd_conv,
    rule bucketed_append [OF buckets10], unfold fst_conv snd_conv,
    rule bucketed_append [OF buckets11], unfold fst_conv snd_conv,
    rule bucketed_append [OF buckets12], unfold fst_conv snd_conv,
    rule bucketed_append [OF buckets13], unfold fst_conv snd_conv,
    rule bucketed_append [OF buckets14], unfold fst_conv snd_conv,
    rule buckets15)

subsection \<open>The search finds the row of a character\<close>

lemma case_idx_bound: "0 \<le> case_idx c \<and> case_idx c < 1024"
  by (simp add: case_idx_def unicode_case_hash_def)

text \<open>In a list sorted by the hash, the rows from a bucket on are those with no smaller hash.\<close>

lemma drop_smaller:
  "sorted_wrt (\<lambda>a b. f a \<le> f b) rs \<Longrightarrow> drop (length (filter (\<lambda>r. f r < (k :: int)) rs)) rs = filter (\<lambda>r. \<not> f r < k) rs"
proof (induction rs)
  case (Cons r rs)
  show ?case
  proof (cases "f r < k")
    case False
    then have "filter (\<lambda>r. f r < k) rs = []" "filter (\<lambda>r. \<not> f r < k) rs = rs"
      using Cons.prems by (fastforce simp: filter_empty_conv filter_id_conv)+
    with False show ?thesis by simp
  qed (use Cons in simp)
qed simp

lemma case_scan_found:
  assumes "find (\<lambda>r. fst r = c) rs = Some r" "sorted_wrt (\<lambda>a b. case_idx (fst a) \<le> case_idx (fst b)) rs"
    "\<forall>r \<in> set rs. case_idx c \<le> case_idx (fst r)"
  shows "\<exists>j. j < length rs \<and> rs ! j = r \<and> case_scan c (case_idx c) i (rs @ e) = Some (i + j)"
  using assms
proof (induction rs arbitrary: i)
  case (Cons s rs)
  show ?case
  proof (cases "fst s = c")
    case True
    with Cons.prems(1) show ?thesis by auto
  next
    case False
    with Cons.prems(1) have f: "find (\<lambda>r. fst r = c) rs = Some r" by simp
    then have r: "r \<in> set rs" "fst r = c" by (auto simp: find_Some_iff)
    have "case_idx (fst s) \<le> case_idx (fst r)" using Cons.prems(2) r(1) unfolding sorted_wrt.simps by blast
    then have "case_idx (fst s) = case_idx c" using Cons.prems(3) r(2) by simp
    moreover have "sorted_wrt (\<lambda>a b. case_idx (fst a) \<le> case_idx (fst b)) rs" "\<forall>r \<in> set rs. case_idx c \<le> case_idx (fst r)"
      using Cons.prems(2,3) by simp_all
    from Cons.IH [OF f this, of "i + 1"] obtain j
      where "j < length rs" "rs ! j = r" "case_scan c (case_idx c) (i + 1) (rs @ e) = Some (i + 1 + j)" by blast
    ultimately show ?thesis using False by (intro exI [of _ "Suc j"]) simp
  qed
qed simp

lemma case_scan_missing:
  assumes "\<forall>r \<in> set rs. fst r \<noteq> c"
    "(\<exists>r \<in> set rs. case_idx (fst r) \<noteq> case_idx c) \<or> (\<exists>r. e = [r] \<and> fst r \<noteq> c \<and> case_idx (fst r) \<noteq> case_idx c)"
  shows "case_scan c (case_idx c) i (rs @ e) = Some 0"
  using assms by (induction rs arbitrary: i) auto

lemma find_filter: "(\<And>x. P x \<Longrightarrow> Q x) \<Longrightarrow> find P (filter Q xs) = find P xs"
  by (induction xs) auto

text \<open>The table, without the row that ends it, has a row for no character twice: the first one counts.\<close>

definition case_row :: "unicode_char \<Rightarrow> case_row option" where
  "case_row c = find (\<lambda>r. fst r = c) case_rows"

lemma case_rows_bound: "sorted_wrt (\<lambda>a b. case_idx (fst a) \<le> case_idx (fst b)) case_rows"
  and case_offset_nth: "0 \<le> k \<Longrightarrow> k < 1024 \<Longrightarrow>
    nat (unicode_case_offset ! nat k) = length (filter (\<lambda>r. case_idx (fst r) < k) case_rows)"
proof -
  note b = case_tables [unfolded bucketed_def]
  then show "sorted_wrt (\<lambda>a b. case_idx (fst a) \<le> case_idx (fst b)) case_rows" by (simp add: sorted_wrt_map)
  have "length unicode_case_offset = 1024" using b by simp
  then show "nat (unicode_case_offset ! nat k) = length (filter (\<lambda>r. case_idx (fst r) < k) case_rows)" if "0 \<le> k" "k < 1024"
    using b that by (simp add: filter_map o_def)
qed

lemma case_rows_other: "\<exists>r \<in> set case_rows. case_idx (fst r) \<noteq> 0"
proof -
  have "\<exists>r \<in> set case_tab15. case_idx (fst r) \<noteq> 0" by code_simp
  then show ?thesis unfolding case_rows_def set_append by blast
qed

lemma find_case_row:
  "\<exists>i. find_case c = Some i \<and>
     (case case_row c of Some r \<Rightarrow> unicode_case_tab ! i = r | None \<Rightarrow> fst (unicode_case_tab ! i) \<noteq> c)"
proof -
  define big where "big = filter (\<lambda>r. \<not> case_idx (fst r) < case_idx c) case_rows"
  define n where "n = length (filter (\<lambda>r. case_idx (fst r) < case_idx c) case_rows)"
  have n: "nat (unicode_case_offset ! nat (case_idx c)) = n"
    unfolding n_def using case_idx_bound by (intro case_offset_nth) auto
  have d: "drop n case_rows = big" unfolding n_def big_def by (rule drop_smaller) (rule case_rows_bound)
  have le: "n \<le> length case_rows" unfolding n_def by (rule length_filter_le)
  have scan: "find_case c = case_scan c (case_idx c) n (big @ [(0, 0, 0, 0)])"
    unfolding find_case_def Let_def n unicode_case_tab_def using le d by simp
  have sorted: "sorted_wrt (\<lambda>a b. case_idx (fst a) \<le> case_idx (fst b)) big"
    unfolding big_def by (intro sorted_wrt_filter case_rows_bound)
  have large: "\<forall>r \<in> set big. case_idx c \<le> case_idx (fst r)" by (auto simp: big_def)
  have same: "find (\<lambda>r. fst r = c) big = case_row c"
    unfolding case_row_def big_def by (rule find_filter) simp
  show ?thesis
  proof (cases "case_row c")
    case (Some r)
    from case_scan_found [OF same [unfolded Some] sorted large] obtain j
      where j: "j < length big" "big ! j = r" "find_case c = Some (n + j)"
      unfolding scan by blast
    have "unicode_case_tab ! (n + j) = big ! j"
    proof -
      have "n + j < length case_rows" using j(1) le unfolding d [symmetric] by simp
      then show ?thesis using le unfolding d [symmetric] unicode_case_tab_def by (simp add: nth_append)
    qed
    with j Some show ?thesis by simp
  next
    case None
    then have all: "\<forall>r \<in> set case_rows. fst r \<noteq> c" by (auto simp: case_row_def find_None_iff)
    obtain r where r: "r \<in> set case_rows" "case_idx (fst r) \<noteq> 0" using case_rows_other by blast
    then have "case_rows \<noteq> []" by auto
    then have "unicode_case_tab ! 0 \<in> set case_rows" by (auto simp: unicode_case_tab_def nth_append)
    moreover have "find_case c = Some 0"
      unfolding scan
    proof (rule case_scan_missing)
      show "\<forall>r \<in> set big. fst r \<noteq> c" using all by (simp add: big_def)
      show "(\<exists>r \<in> set big. case_idx (fst r) \<noteq> case_idx c) \<or>
        (\<exists>r. [(0, 0, 0, 0)] = [r] \<and> fst r \<noteq> c \<and> case_idx (fst r) \<noteq> case_idx c)"
      proof (cases "case_idx c = 0")
        case True
        then have "r \<in> set big" using r(1) case_idx_bound [of "fst r"] by (simp add: big_def)
        with r(2) True show ?thesis by auto
      next
        case False
        moreover have "case_idx 0 = 0" by (simp add: case_idx_def)
        ultimately show ?thesis by auto
      qed
    qed
    ultimately show ?thesis using None all by auto
  qed
qed

text \<open>
  The case conversion of a character finds what the table has for it: for every 32 bit value, negative ones included, the search
  in the hash table ends within the table and the result is the one of the first row with the character, or
  the character itself when there is none.
\<close>

theorem unicode_case_search:
  "unicode_uc c = Some (case case_row c of None \<Rightarrow> c | Some (k, u, l, t) \<Rightarrow> u) \<and>
   unicode_lc c = Some (case case_row c of None \<Rightarrow> c | Some (k, u, l, t) \<Rightarrow> l) \<and>
   unicode_tc c = Some (case case_row c of None \<Rightarrow> c | Some (k, u, l, t) \<Rightarrow> t)"
proof -
  obtain i where i: "find_case c = Some i"
    "case case_row c of Some r \<Rightarrow> unicode_case_tab ! i = r | None \<Rightarrow> fst (unicode_case_tab ! i) \<noteq> c"
    using find_case_row by blast
  show ?thesis
  proof (cases "case_row c")
    case None
    with i show ?thesis by (cases "unicode_case_tab ! i") (simp add: unicode_uc_def unicode_lc_def unicode_tc_def)
  next
    case (Some r)
    then have "fst r = c" by (auto simp: case_row_def find_Some_iff)
    with Some i show ?thesis by (cases r) (auto simp: unicode_uc_def unicode_lc_def unicode_tc_def)
  qed
qed

subsection \<open>UTF-8\<close>

text \<open>The searches stay within the table, as \<open>find_case_row\<close> shows.\<close>

definition utf8_convert :: "(unicode_char \<Rightarrow> unicode_char option) \<Rightarrow> bool \<Rightarrow> string \<Rightarrow> nat + string" where
  "utf8_convert f ip cp =
     (case unicode_utf8_tou ip cp of
        Inl l \<Rightarrow> Inl l
      | Inr uc \<Rightarrow> Inr (unicode_utf8_fromu (map (\<lambda>u. the (f u)) (uchars uc))))"

definition unicode_UTF8 :: unicode_info where
  "unicode_UTF8 =
     \<lparr>chset = ''UTF-8'', uflags = 1 OR 2, c2u = unicode_utf8_tou, u2c = (\<lambda>err p. Inr (unicode_utf8_fromu p)),
      toupper_func = utf8_convert unicode_uc, tolower_func = utf8_convert unicode_lc, totitle_func = utf8_convert unicode_tc\<rparr>"

text \<open>A text with an invalid byte is valid up to there.\<close>

lemma conts_take: "conts j (take m s) \<longleftrightarrow> j \<le> m \<and> conts j s"
  by (auto simp: conts_def min_def)

lemma utf8_step_take: "utf8_step c s = Some (k, uc) \<Longrightarrow> k \<le> m + 1 \<Longrightarrow> utf8_step c (take m s) = Some (k, uc)"
  unfolding utf8_step_def Let_def conts_take by (auto simp: min_def split: if_splits)

lemma tou_count_error:
  "tou_count True l n s = Inl d \<Longrightarrow> l \<le> d \<and> d < l + length s \<and> (\<exists>m. tou_count True l n (take (d - l) s) = Inr m)"
proof (induction True l n s rule: tou_count.induct)
  case (2 l n c s)
  show ?case
  proof (cases "utf8_step c s")
    case None
    with 2(3) show ?thesis by simp
  next
    case (Some p)
    obtain k uc where p: "p = (k, uc)" by (cases p)
    note step = Some [unfolded p]
    have k: "1 \<le> k" "k \<le> length (c # s)" using utf8_step_consumes [OF step] by simp_all
    from 2(3) step have "tou_count True (l + k) (n + 1) (drop k (c # s)) = Inl d" by simp
    from 2(2) [OF Some p [symmetric] this] obtain m
      where d: "l + k \<le> d" "d < l + k + length (drop k (c # s))" "tou_count True (l + k) (n + 1) (take (d - (l + k)) (drop k (c # s))) = Inr m"
      by blast
    have "take (d - l) (c # s) = c # take (d - l - 1) s" using d(1) k(1) by (cases "d - l") auto
    moreover have "utf8_step c (take (d - l - 1) s) = Some (k, uc)"
      using d(1) k(1) by (intro utf8_step_take [OF step]) simp
    moreover have "drop k (take (d - l) (c # s)) = take (d - (l + k)) (drop k (c # s))" by (simp add: drop_take)
    ultimately have "tou_count True l n (take (d - l) (c # s)) = Inr m" using d(3) by simp
    with d(1,2) k show ?thesis by auto
  qed
qed simp

text \<open>The values are those of 31 bits, and a character other than the terminator has no zero byte.\<close>

lemma ushift_bound: "uc < 2 ^ b \<Longrightarrow> ushift uc c < 2 ^ (b + 6)"
proof -
  assume "uc < 2 ^ b"
  then have "Suc uc * 2 ^ 6 \<le> 2 ^ b * 2 ^ 6" by (intro mult_right_mono) simp_all
  moreover have "ushift uc c = uc * 2 ^ 6 + code c mod 2 ^ 6"
    using or_nat_disjoint [of "code c mod 2 ^ 6" 6 uc]
    by (simp add: ushift_def low_bits push_bit_eq_mult or.commute add.commute mult.commute)
  ultimately show ?thesis by (simp add: power_add) 
qed

lemma foldl_ushift: "uc < 2 ^ b \<Longrightarrow> foldl ushift uc cs < 2 ^ (b + 6 * length cs)"
proof (induction cs arbitrary: uc b)
  case (Cons c cs)
  from Cons.IH [OF ushift_bound [OF Cons.prems]] show ?case by (simp add: algebra_simps)
qed simp

lemma utf8_value: "foldl ushift (n mod 2 ^ b) (take k s) < 2 ^ 31" if "b + 6 * k \<le> 31"
proof -
  have "b + 6 * length (take k s) \<le> 31" using that by simp
  then have "(2 :: nat) ^ (b + 6 * length (take k s)) \<le> 2 ^ 31" by (intro power_increasing) simp_all
  with foldl_ushift [of "n mod 2 ^ b" b "take k s"] show ?thesis by simp
qed

lemma utf8_step_range: "utf8_step c s = Some (k, uc) \<Longrightarrow> uc < 2 ^ 31"
  using utf8_value [of 5 1 "code c" s] utf8_value [of 4 2 "code c" s] utf8_value [of 3 3 "code c" s]
    utf8_value [of 2 4 "code c" s] utf8_value [of 1 5 "code c" s] less_trans [OF code_less_256 [of c], of "2 ^ 31"]
  by (auto simp: utf8_step_def Let_def low_bits split: if_splits)

lemma tou_fill_range: "tou_count True l n s = Inr m \<Longrightarrow> list_all (\<lambda>u. 0 \<le> u \<and> u < 2 ^ 31) (tou_fill s)"
  by (induction True l n s rule: tou_count.induct) (auto dest: utf8_step_range split: option.splits)

lemma fromu_char_cstring: "0 < u \<Longrightarrow> cstring (fromu_char u)"
proof -
  assume "0 < u"
  then obtain n where u: "u = int n" "0 < n" by (metis pos_int_cases)
  have t: "tailb k m \<noteq> nul" for k m using code_tailb [of k m] by auto
  have l: "char_of (h + m mod 2 ^ j) \<noteq> nul" if "0 < h" "h + 2 ^ j \<le> 256" for h m j :: nat
  proof
    assume "char_of (h + m mod 2 ^ j) = nul"
    moreover have "m mod 2 ^ j < 2 ^ j" by simp
    then have "h + m mod 2 ^ j < 256" using that(2) by linarith
    then have "code (char_of (h + m mod 2 ^ j)) = h + m mod 2 ^ j" by simp
    ultimately show False using that(1) by simp
  qed
  have h: "nul \<noteq> char_of (0xC0 + m mod 2 ^ 5)" "nul \<noteq> char_of (0xE0 + m mod 2 ^ 4)" "nul \<noteq> char_of (0xF0 + m mod 2 ^ 3)"
    "nul \<noteq> char_of (0xF8 + m mod 2 ^ 2)" "nul \<noteq> char_of (0xFC + m mod 2 ^ 1)" for m :: nat
    by (rule l [symmetric], simp, simp)+
  have n: "char_of n \<noteq> nul" if "n < 2 ^ 7"
  proof
    assume "char_of n = nul"
    moreover have "code (char_of n) = n" using that by simp
    ultimately show False using u(2) by simp
  qed
  show ?thesis
    unfolding u(1) fromu_char_bytes cstring_def by (simp add: t [symmetric] h h [unfolded power_one_right] n [symmetric] del: power_numeral One_nat_def)
qed

lemma fromu_cstring: "list_all (\<lambda>u. 0 < u) us \<Longrightarrow> cstring (unicode_utf8_fromu us)"
  by (induction us) (use fromu_char_cstring in \<open>auto simp: unicode_utf8_fromu_def cstring_def split: prod.splits\<close>)

interpretation UTF8: charset unicode_UTF8
proof
  show "d < length s \<and> (\<exists>u. c2u unicode_UTF8 True (take d s) = Inr u)" if "c2u unicode_UTF8 True s = Inl d" for s d
    using that tou_count_error [of 0 1 s d] by (auto simp: unicode_UTF8_def unicode_utf8_tou_def split: sum.splits)
  show "c2u unicode_UTF8 True s = Inr u" if "uvalid u" "u2c unicode_UTF8 True u = Inr s" for u s
    using that tou_fromu [of u True 0 1] by (auto simp: unicode_UTF8_def uvalid_def unicode_utf8_tou_def)
  show "list_all (\<lambda>u. 0 \<le> u \<and> u < 2 ^ 31) u" if "c2u unicode_UTF8 True s = Inr u" for s u
    using that tou_fill_range [of 0 1 s] by (auto simp: unicode_UTF8_def unicode_utf8_tou_def split: sum.splits)
  show "cstring s" if "uvalid u" "u2c unicode_UTF8 True u = Inr s" for u s
    using that fromu_cstring [of u] by (auto simp: unicode_UTF8_def uvalid_def list_all_iff)
qed (simp_all add: unicode_UTF8_def unicode_utf8_tou_def unicode_utf8_fromu_def)

end
