(* ===== verification/Charset_List.thy ===== *)
theory Charset_List
  imports Charset_Iso8859 Charset_Ibm Charset_Windows Unicode_Case
begin

text \<open>
  What holds for all the character sets of the library: the single byte ones, and UTF-8 on one side of a conversion.
\<close>

definition byte_charsets :: "unicode_info list" where
  "byte_charsets =
    [unicode_ISO8859_1, unicode_ISO8859_2, unicode_ISO8859_3, unicode_ISO8859_4, unicode_ISO8859_5,
     unicode_ISO8859_6, unicode_ISO8859_7, unicode_ISO8859_8, unicode_ISO8859_9, unicode_ISO8859_10,
     unicode_ISO8859_13, unicode_ISO8859_14, unicode_ISO8859_15,
     unicode_IBM_437, unicode_IBM_775, unicode_IBM_850, unicode_IBM_852, unicode_IBM_855,
     unicode_IBM_857, unicode_IBM_860, unicode_IBM_861, unicode_IBM_862, unicode_IBM_863,
     unicode_IBM_864, unicode_IBM_865, unicode_IBM_866, unicode_IBM_869,
     unicode_WINDOWS_874, unicode_WINDOWS_1250, unicode_WINDOWS_1251, unicode_WINDOWS_1252, unicode_WINDOWS_1253,
     unicode_WINDOWS_1254, unicode_WINDOWS_1255, unicode_WINDOWS_1256, unicode_WINDOWS_1257, unicode_WINDOWS_1258,
     unicode_KOI8R]"

lemmas byte_charset_facts =
    iso88591.byte_charset_axioms iso88592.byte_charset_axioms iso88593.byte_charset_axioms iso88594.byte_charset_axioms iso88595.byte_charset_axioms
    iso88596.byte_charset_axioms iso88597.byte_charset_axioms iso88598.byte_charset_axioms iso88599.byte_charset_axioms iso885910.byte_charset_axioms
    iso885913.byte_charset_axioms iso885914.byte_charset_axioms iso885915.byte_charset_axioms ibm437.byte_charset_axioms ibm775.byte_charset_axioms
    ibm850.byte_charset_axioms ibm852.byte_charset_axioms ibm855.byte_charset_axioms ibm857.byte_charset_axioms ibm860.byte_charset_axioms
    ibm861.byte_charset_axioms ibm862.byte_charset_axioms ibm863.byte_charset_axioms ibm864.byte_charset_axioms ibm865.byte_charset_axioms
    ibm866.byte_charset_axioms ibm869.byte_charset_axioms windows874.byte_charset_axioms windows1250.byte_charset_axioms windows1251.byte_charset_axioms
    windows1252.byte_charset_axioms windows1253.byte_charset_axioms windows1254.byte_charset_axioms windows1255.byte_charset_axioms windows1256.byte_charset_axioms
    windows1257.byte_charset_axioms windows1258.byte_charset_axioms koi8r.byte_charset_axioms

lemma byte_charsets: "list_all byte_charset byte_charsets"
  unfolding byte_charsets_def by (simp only: list.pred_inject byte_charset_facts simp_thms)

lemma byte_charset_in: "cs \<in> set byte_charsets \<Longrightarrow> byte_charset cs"
  using byte_charsets unfolding list_all_iff by blast

lemma charset_in: "cs \<in> set (unicode_UTF8 # byte_charsets) \<Longrightarrow> charset cs"
  using byte_charset_in UTF8.charset_axioms byte_charset.axioms(1) exact_charset.axioms(1) by auto

lemma exact_in: "cs \<in> set byte_charsets \<Longrightarrow> exact_charset cs"
  using byte_charset_in byte_charset.axioms(1) by blast

text \<open>
  C16. Converting back: a text of a single byte character set that another character set, UTF-8 included, has all the characters of is
  what conversion of the result to the first character set gives, for each of the thirty-eight tables with every other.
\<close>

theorem charset_convert_back:
  assumes "cs \<in> set byte_charsets" "cs' \<in> set (unicode_UTF8 # byte_charsets)" "cstring s" "unicode_convert s cs cs' = Some r"
  shows "unicode_convert r cs' cs = Some s"
  by (rule exact_charset.convert_back [OF exact_in [OF assms(1)] charset_in [OF assms(2)] assms(3,4)])

lemma charset_convert_back_witness:
  "unicode_convert [CHR 0xC3, CHR 0xBC, CHR 0xC5, CHR 0xB1] unicode_UTF8 unicode_ISO8859_2 = Some [CHR 0xFC, CHR 0xFB]"
proof -
  have "unicode_convert [CHR 0xFC, CHR 0xFB] unicode_ISO8859_2 unicode_UTF8 = Some [CHR 0xC3, CHR 0xBC, CHR 0xC5, CHR 0xB1]"
  proof -
    have "unicode_iso8859_c2u [CHR 0xFC, CHR 0xFB] True iso88592_unicode = Inr [0xFC, 0x171]"
      "unicode_utf8_fromu [0xFC, 0x171] = [CHR 0xC3, CHR 0xBC, CHR 0xC5, CHR 0xB1]"
      by code_simp+
    then show ?thesis
      by (simp add: unicode_convert_def unicode_ISO8859_2_def iso8859_info_def unicode_UTF8_def uchars_def)
  qed
  moreover have "unicode_ISO8859_2 \<in> set byte_charsets" by (simp add: byte_charsets_def)
  moreover have "cstring [CHR 0xFC, CHR 0xFB]" by (simp add: cstring_def)
  moreover have "unicode_UTF8 \<in> set (unicode_UTF8 # byte_charsets)" by (rule list.set_intros)
  ultimately show ?thesis using charset_convert_back by blast
qed

text \<open>
  Conversion that ignores errors always ends with a result, and never writes past its buffer, whatever bytes the text
  has; a text that can be converted gives what \<open>unicode_convert\<close> gives.
\<close>

theorem unicode_xconvert_result:
  assumes "cs \<in> set (unicode_UTF8 # byte_charsets)" "cs' \<in> set (unicode_UTF8 # byte_charsets)" "cstring s"
  shows "\<exists>r. unicode_xconvert s cs cs' = Some r \<and> unicode_convert s cs cs' \<in> {None, Some r}"
  using charset.xconvert_total [OF charset_in [OF assms(1)] charset_in [OF assms(2)] assms(3)]
    charset.xconvert_convert [OF charset_in [OF assms(1)] charset_in [OF assms(2)], of s]
  by (cases "unicode_convert s cs cs'") auto

lemma unicode_xconvert_result_witness:
  "unicode_xconvert [CHR 0xC5, CHR 0xB1] unicode_UTF8 unicode_ISO8859_2 = Some [CHR 0xFB]"
proof -
  have "unicode_utf8_tou True [CHR 0xC5, CHR 0xB1] = Inr [0x171]"
    "unicode_iso8859_u2c [0x171] True iso88592_unicode = Inr [CHR 0xFB]"
    by code_simp+
  then have "unicode_convert [CHR 0xC5, CHR 0xB1] unicode_UTF8 unicode_ISO8859_2 = Some [CHR 0xFB]"
    by (simp add: unicode_convert_def unicode_ISO8859_2_def iso8859_info_def unicode_UTF8_def uchars_def)
  moreover have "unicode_ISO8859_2 \<in> set (unicode_UTF8 # byte_charsets)" by (simp add: byte_charsets_def)
  ultimately show ?thesis
    using unicode_xconvert_result [of unicode_UTF8 unicode_ISO8859_2 "[CHR 0xC5, CHR 0xB1]"] by (auto simp: cstring_def)
qed



text \<open>
  The case conversions of the single byte character sets work on every text: there is no byte without an entry, the
  length stays the same, and converting the result again changes nothing.
\<close>

theorem byte_case_conversion:
  assumes "cs \<in> set byte_charsets" "f \<in> {toupper_func cs, tolower_func cs, totitle_func cs}" "cstring s"
  shows "\<exists>r. f ip s = Inr r \<and> cstring r \<and> length r = length s \<and> f ip r = Inr r"
  by (rule byte_charset.casing [OF byte_charset_in [OF assms(1)] assms(2,3)])

lemma byte_case_conversion_witness:
  "tolower_func unicode_KOI8R True [CHR 0xF0, CHR 0xD5] = Inr [CHR 0xD0, CHR 0xD5] \<and>
   tolower_func unicode_KOI8R True [CHR 0xD0, CHR 0xD5] = Inr [CHR 0xD0, CHR 0xD5]"
proof -
  have "tolower_func unicode_KOI8R True [CHR 0xF0, CHR 0xD5] = Inr [CHR 0xD0, CHR 0xD5]"
  proof -
    have "code (CHR 0xF0) = 240" "code (CHR 0xD5) = 213" "to_char 0xD0 = CHR 0xD0" "to_char 0xD5 = CHR 0xD5" by code_simp+
    then have "iso8859_convert_char True koi8_lc (CHR 0xF0) = Some (CHR 0xD0)" "iso8859_convert_char True koi8_lc (CHR 0xD5) = Some (CHR 0xD5)"
      by (simp_all add: iso8859_convert_char_def koi8_lc_def)
    then show ?thesis by (simp add: unicode_KOI8R_def iso8859_info_def unicode_iso8859_convert_def)
  qed
  moreover have "unicode_KOI8R \<in> set byte_charsets" by (simp add: byte_charsets_def)
  ultimately show ?thesis
    using byte_case_conversion [of unicode_KOI8R "tolower_func unicode_KOI8R" "[CHR 0xF0, CHR 0xD5]" True]
    by (auto simp: cstring_def)
qed

end
