(* ===== verification/Rfc2646.thy ===== *)
theory Rfc2646
  imports C_Prelude C_Interfaces
begin

text \<open>
  Flowed text (\<^verbatim>\<open>rfc2045/rfc2646.c\<close>, \<^verbatim>\<open>rfc2646create.c\<close>, \<^verbatim>\<open>rfc2646fwd.c\<close>, \<^verbatim>\<open>rfc2646reply.c\<close>,
  \<^verbatim>\<open>rfc2646rewrap.c\<close> and \<^verbatim>\<open>sqwebmail/rfc2646html.c\<close>). The parser calls its handler with the quote depth, the line
  and whether it flows into the next; the other components are such handlers, or make flowed text from a draft. What they write is
  the concatenation of what they pass to their own handler, which is taken to succeed.
\<close>

type_synonym flow_line = "nat \<times> string \<times> bool"

subsection \<open>The parser\<close>

record rfc2646parser =
  quote_depth :: nat
  parse_mode :: nat
  line :: string

definition PARSER_QUOTECNT :: nat where "PARSER_QUOTECNT = 1"
definition PARSER_LINE :: nat where "PARSER_LINE = 2"

definition rfc2646_alloc :: rfc2646parser where
  "rfc2646_alloc = \<lparr>quote_depth = 0, parse_mode = 0, line = []\<rparr>"

definition parse_byte :: "char \<Rightarrow> rfc2646parser \<times> flow_line list \<Rightarrow> rfc2646parser \<times> flow_line list" where
  "parse_byte c = (\<lambda>(p, out).
     if c = cr then (p, out)
     else
       let p = (if parse_mode p = 0 then p\<lparr>parse_mode := PARSER_QUOTECNT, quote_depth := 0, line := []\<rparr> else p)
       in if c = nl then
            let isflowed = (line p \<noteq> [] \<and> last (line p) = sp \<and> line p \<noteq> ''-- '');
                p = (if isflowed then p\<lparr>line := butlast (line p)\<rparr> else p)
            in (p\<lparr>parse_mode := 0\<rparr>, out @ [(quote_depth p, line p, isflowed)])
          else if parse_mode p = PARSER_QUOTECNT \<and> c = CHR ''>'' then (p\<lparr>quote_depth := quote_depth p + 1\<rparr>, out)
          else if parse_mode p = PARSER_QUOTECNT \<and> c = sp then (p\<lparr>parse_mode := PARSER_LINE\<rparr>, out)
          else
            let p = p\<lparr>parse_mode := PARSER_LINE\<rparr>
            in (if length (line p) < 4096 - 1 then p\<lparr>line := line p @ [c]\<rparr> else p, out))"

definition rfc2646_parse :: "string \<Rightarrow> rfc2646parser \<times> flow_line list \<Rightarrow> rfc2646parser \<times> flow_line list" where
  "rfc2646_parse = fold parse_byte"

definition rfc2646_free :: "rfc2646parser \<times> flow_line list \<Rightarrow> flow_line list" where
  "rfc2646_free = (\<lambda>(p, out). snd (if parse_mode p \<noteq> 0 then rfc2646_parse [nl] (p, out) else (p, out)))"

text \<open>The lines of a whole text.\<close>

definition flow_lines :: "string \<Rightarrow> flow_line list" where
  "flow_lines s = rfc2646_free (rfc2646_parse s (rfc2646_alloc, []))"

subsection \<open>Making flowed text\<close>

definition linesize :: nat where "linesize = 76"

definition wordwrap_line :: "string \<Rightarrow> string" where
  "wordwrap_line s = (if take 5 s = ''From '' \<or> take 1 s = ''-'' \<and> s \<noteq> ''-- '' then sp # s else s)"

text \<open>The last blank a line of the full size can be broken at.\<close>

definition break_at :: "string \<Rightarrow> nat option" where
  "break_at s = find (\<lambda>j. s ! j = sp) (rev [1..<linesize + 1])"

text \<open>
  The length of a line without a blank: a byte more when a character of two bytes would be cut. At the very beginning of the
  buffer the loop that looks for a byte below 128 runs past it: \<open>None\<close>.
\<close>

definition hard_break :: "bool \<Rightarrow> string \<Rightarrow> nat option" where
  "hard_break start s =
     (let n = length (takeWhile (\<lambda>c. schar c < 0) (rev (take linesize s)))
      in if n = linesize \<and> start then None else Some (if n mod 2 = 1 then linesize + 1 else linesize))"

lemma break_at_Some: "break_at s = Some j \<Longrightarrow> 1 \<le> j \<and> j \<le> linesize \<and> s ! j = sp"
proof -
  assume "break_at s = Some j"
  then have "j \<in> set (rev [1..<linesize + 1])" "s ! j = sp" unfolding break_at_def find_Some_iff by (metis nth_mem)+
  then show ?thesis by (auto simp: linesize_def)
qed

lemma hard_break_pos: "hard_break start s = Some j \<Longrightarrow> linesize \<le> j \<and> j \<le> linesize + 1"
  by (auto simp: hard_break_def Let_def split: if_splits)

lemma wrap_rest_length: "s \<noteq> [] \<Longrightarrow> length (dropWhile P (drop (Suc j) s)) < length s"
  by (rule le_less_trans [OF length_dropWhile_le]) simp

text \<open>\<open>start\<close> is whether \<open>s\<close> is at the beginning of the buffer.\<close>

function flow_wrap :: "bool \<Rightarrow> string \<Rightarrow> string option" where
  "flow_wrap start s =
     (if s = [] then Some []
      else if length s \<le> linesize then Some (wordwrap_line s)
      else
        case break_at s of
          Some j \<Rightarrow>
            let rest = dropWhile (\<lambda>c. c = sp) (drop (j + 1) s)
            in if rest = [] then Some (wordwrap_line (take j s))
               else map_option (\<lambda>r. wordwrap_line (take j s) @ [sp, nl] @ r) (flow_wrap False rest)
        | None \<Rightarrow>
            (case hard_break start s of
               None \<Rightarrow> None
             | Some j \<Rightarrow> map_option (\<lambda>r. wordwrap_line (take j s) @ [sp, nl] @ r) (flow_wrap False (drop j s))))"
  by pat_completeness auto
termination
  by (relation "measure (\<lambda>(start, s). length s)")
    (auto simp: wrap_rest_length linesize_def dest!: hard_break_pos)

declare flow_wrap.simps [simp del]

record rfc2646create =
  buffer :: string
  has_sent_paragraph :: bool
  last_sent_quotelevel :: nat
  sent_firsttime :: bool

definition rfc2646create_alloc :: rfc2646create where
  "rfc2646create_alloc = \<lparr>buffer = [], has_sent_paragraph = False, last_sent_quotelevel = 0, sent_firsttime = True\<rparr>"

definition strip_blanks :: "string \<Rightarrow> string" where
  "strip_blanks s =
     (if take 3 s = ''-- '' \<and> list_all (\<lambda>c. c = sp) (drop 3 s) then ''-- '' else rev (dropWhile (\<lambda>c. c = sp) (rev s)))"

definition wordwrap_sent :: "bool \<Rightarrow> string \<Rightarrow> rfc2646create \<times> string \<Rightarrow> (rfc2646create \<times> string) option" where
  "wordwrap_sent start buf = (\<lambda>(r, out).
     let depth = length (takeWhile (\<lambda>c. c = CHR ''>'') buf);
         i = (if take 1 (drop depth buf) = [sp] then depth + 1 else depth);
         out = out @ (if has_sent_paragraph r \<and> length buf \<le> i \<and> last_sent_quotelevel r = depth then [sp, nl]
                      else if \<not> sent_firsttime r then [nl] else []);
         r = r\<lparr>has_sent_paragraph := \<not> (has_sent_paragraph r \<and> length buf \<le> i \<and> last_sent_quotelevel r = depth),
               sent_firsttime := False, last_sent_quotelevel := depth\<rparr>
     in if depth \<noteq> 0 then Some (r, out @ buf)
        else map_option (\<lambda>w. (r, out @ w)) (flow_wrap (start \<and> i = 0) (strip_blanks (drop i buf))))"

text \<open>The complete lines of the buffer; the first one is at its beginning.\<close>

function create_lines :: "bool \<Rightarrow> string \<Rightarrow> rfc2646create \<times> string \<Rightarrow> (rfc2646create \<times> string) option" where
  "create_lines start buf st =
     (if nl \<notin> set buf then Some ((fst st)\<lparr>buffer := buf\<rparr>, snd st)
      else
        case wordwrap_sent start (takeWhile (\<lambda>c. c \<noteq> nl) buf) st of
          None \<Rightarrow> None
        | Some st \<Rightarrow> create_lines False (tl (dropWhile (\<lambda>c. c \<noteq> nl) buf)) st)"
  by pat_completeness auto
termination
proof (relation "measure (\<lambda>(start, buf, st). length buf)"; clarsimp)
  fix buf :: string assume "nl \<in> set buf"
  then have "dropWhile (\<lambda>c. c \<noteq> nl) buf \<noteq> []" by (auto simp: dropWhile_eq_Nil_conv)
  then show "length (dropWhile (\<lambda>c. c \<noteq> nl) buf) - Suc 0 < length buf"
    using length_dropWhile_le [of "\<lambda>c. c \<noteq> nl" buf] by (cases "dropWhile (\<lambda>c. c \<noteq> nl) buf") auto
qed

declare create_lines.simps [simp del]

definition rfc2646create_parse :: "string \<Rightarrow> rfc2646create \<times> string \<Rightarrow> (rfc2646create \<times> string) option" where
  "rfc2646create_parse str = (\<lambda>(r, out). create_lines True (buffer r @ str) (r, out))"

definition rfc2646create_free :: "rfc2646create \<times> string \<Rightarrow> string option" where
  "rfc2646create_free = (\<lambda>(r, out).
     map_option (\<lambda>st. snd st @ [nl]) (if buffer r \<noteq> [] then wordwrap_sent True (buffer r) (r, out) else Some (r, out)))"

text \<open>A whole draft.\<close>

definition flowed :: "string \<Rightarrow> string option" where
  "flowed s =
     (case rfc2646create_parse s (rfc2646create_alloc, []) of None \<Rightarrow> None | Some st \<Rightarrow> rfc2646create_free st)"

subsection \<open>Flowed text as a draft\<close>

text \<open>The handler of \<open>rfc2646fwd\<close>: the state is \<^verbatim>\<open>prev_was_0depth\<close>.\<close>

definition rfc2646fwd_handler :: "flow_line \<Rightarrow> bool \<times> string \<Rightarrow> bool \<times> string" where
  "rfc2646fwd_handler = (\<lambda>(depth, l, isflowed) (prev, out).
     if depth > 0 then
       (False, out @ (if prev then [nl] else []) @ replicate depth (CHR ''>'') @ [sp] @ l @ (if isflowed then [sp] else []) @ [nl])
     else if l = [] then (False, out @ (if prev then [nl, nl] else [nl]))
     else if \<not> prev \<and> l = ''-- '' \<and> \<not> isflowed then (prev, out @ l)
     else (isflowed, out @ (if prev \<or> hd l = CHR ''>'' then [sp] else []) @ l @ (if isflowed then [] else [nl])))"

definition rfc2646fwd_free :: "bool \<times> string \<Rightarrow> string" where
  "rfc2646fwd_free = (\<lambda>(prev, out). out @ (if prev then [nl] else []))"

definition flow_draft :: "flow_line list \<Rightarrow> string" where
  "flow_draft ls = rfc2646fwd_free (fold rfc2646fwd_handler ls (False, []))"

subsection \<open>Running the parser and the handler together\<close>

definition run :: "string \<Rightarrow> rfc2646parser \<times> bool \<times> string \<Rightarrow> rfc2646parser \<times> bool \<times> string" where
  "run s = (\<lambda>(p, f). case rfc2646_parse s (p, []) of (p', evs) \<Rightarrow> (p', fold rfc2646fwd_handler evs f))"

lemma parse_byte_out: "parse_byte c (p, evs) = (case parse_byte c (p, []) of (p', e) \<Rightarrow> (p', evs @ e))"
  by (simp add: parse_byte_def Let_def)

lemma rfc2646_parse_out: "rfc2646_parse s (p, evs) = (case rfc2646_parse s (p, []) of (p', e) \<Rightarrow> (p', evs @ e))"
proof (induction s arbitrary: p evs)
  case (Cons c s)
  obtain p1 e1 where "parse_byte c (p, []) = (p1, e1)" by fastforce
  then show ?case
    using parse_byte_out [of c p evs] Cons [of p1 "evs @ e1"] Cons [of p1 e1]
    by (simp add: rfc2646_parse_def split: prod.splits)
qed (simp add: rfc2646_parse_def)

lemma run_append: "run (s @ t) st = run t (run s st)"
proof -
  obtain p f where st: "st = (p, f)" by (cases st)
  obtain p1 e1 where 1: "rfc2646_parse s (p, []) = (p1, e1)" by fastforce
  obtain p2 e2 where 2: "rfc2646_parse t (p1, []) = (p2, e2)" by fastforce
  have "rfc2646_parse (s @ t) (p, []) = (p2, e1 @ e2)"
    using rfc2646_parse_out [of t p1 e1] 1 2 by (simp add: rfc2646_parse_def)
  then show ?thesis using 1 2 by (simp add: run_def st)
qed

text \<open>One line of text: the event it gives.\<close>

definition text_event :: "string \<Rightarrow> flow_line" where
  "text_event c = (if c \<noteq> [] \<and> last c = sp \<and> c \<noteq> ''-- '' then (0, butlast c, True) else (0, c, False))"

lemma parse_text:
  assumes "parse_mode p = 2" "cr \<notin> set c" "nl \<notin> set c" "length (line p) + length c \<le> 4095"
  shows "rfc2646_parse c (p, evs) = (p\<lparr>line := line p @ c\<rparr>, evs)"
  using assms
proof (induction c arbitrary: p)
  case (Cons d c)
  have "d \<noteq> cr" "d \<noteq> nl" using Cons.prems by auto
  with Cons.prems have "parse_byte d (p, evs) = (p\<lparr>line := line p @ [d]\<rparr>, evs)"
    by (simp add: parse_byte_def Let_def PARSER_QUOTECNT_def PARSER_LINE_def)
  with Cons show ?case by (simp add: rfc2646_parse_def)
qed (simp add: rfc2646_parse_def)

lemma parse_text_nl:
  assumes "parse_mode p = 2" "quote_depth p = 0"
  shows "\<exists>p'. rfc2646_parse [nl] (p, evs) = (p', evs @ [text_event (line p)]) \<and> parse_mode p' = 0"
  using assms by (simp add: rfc2646_parse_def parse_byte_def Let_def text_event_def)

text \<open>A line that starts with a blank, which is dropped, or with text.\<close>

lemma parse_first:
  assumes "parse_mode p = 0" "d \<notin> {cr, nl, CHR ''>''}"
  shows "\<exists>p'. rfc2646_parse [d] (p, evs) = (p', evs) \<and> parse_mode p' = 2 \<and> quote_depth p' = 0 \<and> line p' = (if d = sp then [] else [d])"
  using assms by (simp add: rfc2646_parse_def parse_byte_def Let_def PARSER_QUOTECNT_def PARSER_LINE_def)

lemma parse_line:
  assumes "parse_mode p = 0" "hd c \<notin> {cr, nl, CHR ''>''}" "c \<noteq> []" "cr \<notin> set c" "nl \<notin> set c" "length c \<le> 4095"
  shows "\<exists>p'. rfc2646_parse (c @ [nl]) (p, []) = (p', [text_event (if hd c = sp then tl c else c)]) \<and> parse_mode p' = 0"
proof -
  obtain d r where c: "c = d # r" using assms(3) by (cases c) auto
  obtain p1 where 1: "rfc2646_parse [d] (p, []) = (p1, [])" "parse_mode p1 = 2" "quote_depth p1 = 0"
    "line p1 = (if d = sp then [] else [d])"
    using parse_first [of p d "[]"] assms(1,2) c by auto
  have 2: "rfc2646_parse r (p1, []) = (p1\<lparr>line := line p1 @ r\<rparr>, [])"
    using assms(4-6) c 1(2,4) by (intro parse_text) auto
  obtain p2 where 3: "rfc2646_parse [nl] (p1\<lparr>line := line p1 @ r\<rparr>, []) = (p2, [text_event (line p1 @ r)])" "parse_mode p2 = 0"
    using parse_text_nl [of "p1\<lparr>line := line p1 @ r\<rparr>" "[]"] 1(2,3) by auto
  have "rfc2646_parse (c @ [nl]) (p, []) = (p2, [text_event (line p1 @ r)])"
    using 1(1) 2 3(1) by (simp add: c rfc2646_parse_def)
  with 3(2) 1(4) c show ?thesis by simp
qed

lemma run_line:
  assumes "parse_mode p = 0" "hd c \<notin> {cr, nl, CHR ''>''}" "c \<noteq> []" "cr \<notin> set c" "nl \<notin> set c" "length c \<le> 4095"
  obtains p' where "run (c @ [nl]) (p, f) = (p', rfc2646fwd_handler (text_event (if hd c = sp then tl c else c)) f)" "parse_mode p' = 0"
  using parse_line [OF assms] by (auto simp: run_def)

lemma run_nl:
  assumes "parse_mode p = 0"
  obtains p' where "run [nl] (p, f) = (p', rfc2646fwd_handler (0, [], False) f)" "parse_mode p' = 0"
  using assms by (auto simp: run_def rfc2646_parse_def parse_byte_def Let_def)

subsection \<open>Words\<close>

fun join_words :: "string list \<Rightarrow> string" where
  "join_words [] = []"
| "join_words [w] = w"
| "join_words (w # v # ws) = w @ sp # join_words (v # ws)"

definition good_word :: "string \<Rightarrow> bool" where
  "good_word w \<longleftrightarrow> w \<noteq> [] \<and> length w \<le> linesize \<and> set w \<inter> {sp, nl, cr} = {} \<and> hd w \<noteq> CHR ''>'' \<and> w \<noteq> ''--''"

lemma join_words_Cons: "ws \<noteq> [] \<Longrightarrow> join_words (w # ws) = w @ sp # join_words ws"
  by (cases ws) auto

lemma join_words_nonempty: "list_all good_word ws \<Longrightarrow> ws \<noteq> [] \<Longrightarrow> join_words ws \<noteq> []"
  by (cases ws rule: join_words.cases) (auto simp: good_word_def)

lemma join_words_hd: "list_all good_word ws \<Longrightarrow> ws \<noteq> [] \<Longrightarrow> hd (join_words ws) \<notin> {sp, nl, cr, CHR ''>''}"
  by (cases ws rule: join_words.cases) (auto simp: good_word_def hd_append dest: hd_in_set)

lemma join_words_last: "list_all good_word ws \<Longrightarrow> ws \<noteq> [] \<Longrightarrow> last (join_words ws) \<noteq> sp"
proof (induction ws rule: join_words.induct)
  case (2 w)
  then show ?case by (auto simp: good_word_def dest: last_in_set)
next
  case (3 w v ws)
  then show ?case using join_words_nonempty [of "v # ws"] by simp
qed simp

lemma join_words_set: "list_all good_word ws \<Longrightarrow> nl \<notin> set (join_words ws) \<and> cr \<notin> set (join_words ws)"
  by (induction ws rule: join_words.induct) (auto simp: good_word_def)

text \<open>A blank of the line is between two words.\<close>

lemma join_words_break:
  "list_all good_word ws \<Longrightarrow> i < length (join_words ws) \<Longrightarrow> join_words ws ! i = sp \<Longrightarrow>
   \<exists>k. 0 < k \<and> k < length ws \<and> take i (join_words ws) = join_words (take k ws) \<and>
     drop (Suc i) (join_words ws) = join_words (drop k ws)"
proof (induction ws arbitrary: i rule: join_words.induct)
  case (2 w)
  then show ?case by (auto simp: good_word_def) (metis nth_mem)
next
  case (3 w v ws)
  have w: "sp \<notin> set w" using 3(2) by (auto simp: good_word_def)
  consider "i < length w" | "i = length w" | "length w < i" by linarith
  then show ?case
  proof cases
    case 1
    with 3(4) w have "sp \<in> set w" by (simp add: nth_append) (metis nth_mem)
    with w show ?thesis by simp
  next
    case 2
    then show ?thesis by (intro exI [of _ 1]) simp
  next
    case 3
    then obtain j where i: "i = Suc (length w + j)" using less_imp_Suc_add by blast
    with \<open>i < length (join_words (w # v # ws))\<close> \<open>join_words (w # v # ws) ! i = sp\<close>
    have "j < length (join_words (v # ws))" "join_words (v # ws) ! j = sp" by (simp_all add: nth_append)
    from "3.IH" [OF _ this] \<open>list_all good_word (w # v # ws)\<close> obtain k where k: "0 < k" "k < length (v # ws)"
      "take j (join_words (v # ws)) = join_words (take k (v # ws))" "drop (Suc j) (join_words (v # ws)) = join_words (drop k (v # ws))"
      by auto
    then have "take k (v # ws) \<noteq> []" by auto
    with k i show ?thesis by (intro exI [of _ "Suc k"]) (simp add: join_words_Cons)
  qed
qed simp

lemma break_at_words:
  assumes "list_all good_word ws" "linesize < length (join_words ws)"
  obtains j k where "break_at (join_words ws) = Some j" "0 < k" "k < length ws" "j \<le> linesize"
    "take j (join_words ws) = join_words (take k ws)" "drop (Suc j) (join_words ws) = join_words (drop k ws)"
proof -
  obtain w v us where ws: "ws = w # v # us"
    using assms by (cases ws rule: join_words.cases) (auto simp: good_word_def)
  have w: "w \<noteq> []" "length w \<le> linesize" using assms(1) ws by (auto simp: good_word_def)
  have "1 \<le> length w" using w(1) by (cases w) simp_all
  then have "length w \<in> set (rev [1..<linesize + 1])" using w(2) by auto
  moreover have "join_words ws ! length w = sp" unfolding ws join_words.simps by (rule nth_append_length)
  ultimately have "break_at (join_words ws) \<noteq> None" unfolding break_at_def find_None_iff by blast
  then obtain j where j: "break_at (join_words ws) = Some j" by blast
  from break_at_Some [OF this] have "j < length (join_words ws)" "join_words ws ! j = sp" "j \<le> linesize" using assms(2) by auto
  with join_words_break [OF assms(1) this(1,2)] j show ?thesis by (blast intro: that)
qed

subsection \<open>A wrapped line, parsed and put together again\<close>

lemma wordwrap_line_cases: "wordwrap_line c = c \<or> wordwrap_line c = sp # c"
  by (simp add: wordwrap_line_def)

lemma join_words_dash: "list_all good_word ws \<Longrightarrow> join_words ws \<noteq> ''--''"
  by (cases ws rule: join_words.cases) (auto simp: good_word_def append_eq_Cons_conv)

text \<open>A chunk of a line, at most as long as a line, with or without the blank that makes it flow.\<close>

lemma run_chunk:
  assumes "list_all good_word ws" "ws \<noteq> []" "length (join_words ws) \<le> linesize" "parse_mode p = 0"
  obtains p' where "run (wordwrap_line (join_words ws) @ (if e then [sp, nl] else [nl])) (p, f) = (p', rfc2646fwd_handler (0, join_words ws, e) f)"
    "parse_mode p' = 0"
proof -
  define c where "c = join_words ws"
  have c: "c \<noteq> []" "hd c \<notin> {sp, nl, cr, CHR ''>''}" "last c \<noteq> sp" "nl \<notin> set c" "cr \<notin> set c" "c \<noteq> ''--''" "length c \<le> 76"
    using assms join_words_nonempty join_words_hd join_words_last join_words_set join_words_dash
    unfolding c_def linesize_def by metis+
  let ?e = "if e then [sp] else []"
  have ev: "text_event (c @ ?e) = (0, c, e)"
    using c by (auto simp: text_event_def)
  have hd_e: "hd (c @ ?e) = hd c" using c(1) by simp
  define d where "d = wordwrap_line c @ ?e"
  have d: "d = c @ ?e \<or> d = sp # c @ ?e" using wordwrap_line_cases [of c] by (auto simp: d_def)
  then have ok: "hd d \<notin> {cr, nl, CHR ''>''}" "d \<noteq> []" "cr \<notin> set d" "nl \<notin> set d" "length d \<le> 4095"
    using c by (auto simp: hd_append)
  have "(if hd d = sp then tl d else d) = c @ ?e" using d c(2) hd_e by auto
  moreover obtain p' where "run (d @ [nl]) (p, f) = (p', rfc2646fwd_handler (text_event (if hd d = sp then tl d else d)) f)" "parse_mode p' = 0"
    using run_line [OF assms(4) ok] by blast
  moreover have "d @ [nl] = wordwrap_line c @ (if e then [sp, nl] else [nl])" by (simp add: d_def)
  ultimately show ?thesis using ev that by (simp add: c_def)
qed

text \<open>What the handler makes of a piece of a paragraph: a blank before it when the last line flows.\<close>

lemma fwd_text:
  "c \<noteq> [] \<Longrightarrow> hd c \<noteq> CHR ''>'' \<Longrightarrow> last c \<noteq> sp \<Longrightarrow>
   rfc2646fwd_handler (0, c, e) (prev, out) = (e, out @ (if prev then [sp] else []) @ c @ (if e then [] else [nl]))"
  by (auto simp: rfc2646fwd_handler_def)

lemma wrap_words:
  assumes "list_all good_word ws" "ws \<noteq> []" "parse_mode p = 0"
  shows "\<exists>w p'. flow_wrap start (join_words ws) = Some w \<and> parse_mode p' = 0 \<and>
    run (w @ (if e then [sp, nl] else [nl])) (p, prev, out) =
      (p', e, out @ (if prev then [sp] else []) @ join_words ws @ (if e then [] else [nl]))"
  using assms
proof (induction "length ws" arbitrary: ws p prev out start rule: less_induct)
  case less
  have piece: "rfc2646fwd_handler (0, join_words us, e) (prev, out) =
      (e, out @ (if prev then [sp] else []) @ join_words us @ (if e then [] else [nl]))"
    if "list_all good_word us" "us \<noteq> []" for us e prev out
    using join_words_nonempty [OF that] join_words_hd [OF that] join_words_last [OF that] by (intro fwd_text) simp_all
  show ?case
  proof (cases "length (join_words ws) \<le> linesize")
    case True
    then have "flow_wrap start (join_words ws) = Some (wordwrap_line (join_words ws))"
      using join_words_nonempty [OF less.prems(1,2)] by (subst flow_wrap.simps) simp
    moreover obtain p' where "run (wordwrap_line (join_words ws) @ (if e then [sp, nl] else [nl])) (p, prev, out) =
        (p', rfc2646fwd_handler (0, join_words ws, e) (prev, out))" "parse_mode p' = 0"
      using run_chunk [OF less.prems(1,2) True less.prems(3)] by blast
    ultimately show ?thesis using piece [OF less.prems(1,2)] by auto
  next
    case False
    then have "linesize < length (join_words ws)" by simp
    from break_at_words [OF less.prems(1) this] obtain j k where j: "break_at (join_words ws) = Some j" "0 < k" "k < length ws"
      "j \<le> linesize" "take j (join_words ws) = join_words (take k ws)" "drop (Suc j) (join_words ws) = join_words (drop k ws)"
      by blast
    have tk: "list_all good_word (take k ws)" "take k ws \<noteq> []" and dk: "list_all good_word (drop k ws)" "drop k ws \<noteq> []"
      using less.prems j(2,3) by (auto simp: list_all_iff dest: in_set_takeD in_set_dropD)
    have "length (join_words (take k ws)) \<le> linesize" using j(4) unfolding j(5) [symmetric] by simp
    then obtain p1 where p1: "run (wordwrap_line (join_words (take k ws)) @ [sp, nl]) (p, prev, out) =
        (p1, rfc2646fwd_handler (0, join_words (take k ws), True) (prev, out))" "parse_mode p1 = 0"
      using run_chunk [OF tk _ less.prems(3), of True "(prev, out)"] by auto
    let ?out = "out @ (if prev then [sp] else []) @ join_words (take k ws)"
    have "length (drop k ws) < length ws" using j(2,3) by simp
    from less.hyps [OF this dk p1(2), of False True ?out] obtain w p' where w: "flow_wrap False (join_words (drop k ws)) = Some w"
      "parse_mode p' = 0" "run (w @ (if e then [sp, nl] else [nl])) (p1, True, ?out) =
        (p', e, ?out @ [sp] @ join_words (drop k ws) @ (if e then [] else [nl]))"
      by auto
    have rest: "dropWhile (\<lambda>c. c = sp) (drop (j + 1) (join_words ws)) = join_words (drop k ws)" "join_words (drop k ws) \<noteq> []"
      using j(6) join_words_hd [OF dk] join_words_nonempty [OF dk] by (cases "join_words (drop k ws)"; simp)+
    have "flow_wrap start (join_words ws) = Some (wordwrap_line (join_words (take k ws)) @ [sp, nl] @ w)"
      using False join_words_nonempty [OF less.prems(1,2)] j(1,5) rest w(1)
      by (subst flow_wrap.simps) (simp add: Let_def del: dropWhile_eq_Cons_conv)
    moreover have "run ((wordwrap_line (join_words (take k ws)) @ [sp, nl]) @ (w @ (if e then [sp, nl] else [nl]))) (p, prev, out) =
        (p', e, ?out @ [sp] @ join_words (drop k ws) @ (if e then [] else [nl]))"
      unfolding run_append [of "wordwrap_line (join_words (take k ws)) @ [sp, nl]"] p1(1) piece [OF tk] if_True append_Nil2 by (rule w(3))
    moreover have "join_words ws = join_words (take k ws) @ sp # join_words (drop k ws)"
    proof -
      have "j < length (join_words ws)" "join_words ws ! j = sp" using False j(4) break_at_Some [OF j(1)] by auto
      then show ?thesis using id_take_nth_drop [of j "join_words ws"] j(5,6) by simp
    qed
    ultimately show ?thesis using w(2) by (intro exI [of _ "wordwrap_line (join_words (take k ws)) @ [sp, nl] @ w"] exI [of _ p']) simp
  qed
qed

text \<open>A line of the draft with what ends it; after a flowing line only an empty one follows.\<close>

lemma run_block:
  assumes "list_all good_word ws" "parse_mode p = 0" "prev \<Longrightarrow> ws = []"
  shows "\<exists>w p'. flow_wrap start (join_words ws) = Some w \<and> parse_mode p' = 0 \<and>
    run (w @ (if e then [sp, nl] else [nl])) (p, prev, out) =
      (p', e \<and> ws \<noteq> [], out @ (if prev then [nl] else []) @ join_words ws @ (if e \<and> ws \<noteq> [] then [] else [nl]))"
proof (cases "ws = []")
  case True
  have h: "rfc2646fwd_handler (0, [], False) (prev, out) = (False, out @ (if prev then [nl] else []) @ [nl])"
    by (simp add: rfc2646fwd_handler_def)
  obtain p1 where 1: "run [nl] (p, prev, out) = (p1, rfc2646fwd_handler (0, [], False) (prev, out))" "parse_mode p1 = 0"
    using run_nl [OF assms(2)] by blast
  obtain p2 where 2: "run ([sp] @ [nl]) (p, prev, out) = (p2, rfc2646fwd_handler (text_event []) (prev, out))" "parse_mode p2 = 0"
    using run_line [of p "[sp]"] assms(2) by auto
  have "text_event [] = (0, [], False)" by (simp add: text_event_def)
  moreover have "flow_wrap start [] = Some []" by (simp add: flow_wrap.simps)
  ultimately show ?thesis using True 1 2 h by (cases e) auto
next
  case False
  with assms(3) have "\<not> prev" by blast
  then show ?thesis using wrap_words [OF assms(1) False assms(2), of start e prev out] False by auto
qed

lemma strip_blanks_words: "list_all good_word ws \<Longrightarrow> strip_blanks (join_words ws) = join_words ws"
proof (cases "ws = []")
  case False
  assume g: "list_all good_word ws"
  have l: "last (join_words ws) \<noteq> sp" "join_words ws \<noteq> []"
    using join_words_last [OF g False] join_words_nonempty [OF g False] by simp_all
  have "\<not> (take 3 (join_words ws) = ''-- '' \<and> list_all (\<lambda>c. c = sp) (drop 3 (join_words ws)))"
  proof
    assume a: "take 3 (join_words ws) = ''-- '' \<and> list_all (\<lambda>c. c = sp) (drop 3 (join_words ws))"
    then have "join_words ws = ''-- '' @ drop 3 (join_words ws)" by (metis append_take_drop_id)
    moreover have "last (''-- '' @ x) = sp" if "list_all (\<lambda>c. c = sp) x" for x
      using that last_in_set [of x] by (cases "x = []") (auto simp: list_all_iff)
    ultimately show False using l(1) a by metis
  qed
  moreover have "rev (dropWhile (\<lambda>c. c = sp) (rev (join_words ws))) = join_words ws"
    using l by (cases "join_words ws" rule: rev_cases) auto
  ultimately show ?thesis unfolding strip_blanks_def by (simp only: if_False)
qed (simp add: strip_blanks_def)

lemma sent_words:
  assumes "list_all good_word ws" "last_sent_quotelevel r = 0" "flow_wrap start (join_words ws) = Some w"
  shows "wordwrap_sent start (join_words ws) (r, out) =
    (let e = has_sent_paragraph r \<and> ws = []
     in Some (r\<lparr>has_sent_paragraph := \<not> e, sent_firsttime := False, last_sent_quotelevel := 0\<rparr>,
          out @ (if e then [sp, nl] else if \<not> sent_firsttime r then [nl] else []) @ w))"
proof -
  have d: "takeWhile (\<lambda>c. c = CHR ''>'') (join_words ws) = []" "take 1 (join_words ws) \<noteq> [sp]"
    using join_words_hd [OF assms(1)] by (cases "join_words ws"; cases ws; auto)+
  have "join_words ws = [] \<longleftrightarrow> ws = []" using join_words_nonempty [OF assms(1)] by auto
  then show ?thesis
    using assms strip_blanks_words [OF assms(1)] d
    by (cases "has_sent_paragraph r"; cases "ws = []") (simp_all add: wordwrap_sent_def Let_def)
qed

text \<open>The rest of a draft, after a line that is not ended yet.\<close>

lemma create_rest:
  assumes "list_all (list_all good_word) (w0 # wss)" "last_sent_quotelevel r = 0" "\<not> sent_firsttime r"
    "flow_wrap s0 (join_words w0) = Some b" "prev \<Longrightarrow> w0 = [] \<and> \<not> has_sent_paragraph r" "parse_mode p = 0"
  shows "\<exists>r' w p'. create_lines start (concat (map (\<lambda>ws. join_words ws @ [nl]) wss)) (r, out) = Some (r', out @ w) \<and>
    buffer r' = [] \<and> parse_mode p' = 0 \<and>
    run (b @ w @ [nl]) (p, prev, o') =
      (p', False, o' @ (if prev then [nl] else []) @ join_words w0 @ [nl] @ concat (map (\<lambda>ws. join_words ws @ [nl]) wss))"
  using assms
proof (induction wss arbitrary: w0 r s0 b prev p start out o')
  case Nil
  have "list_all good_word w0" using Nil.prems(1) by simp
  from run_block [OF this Nil.prems(6), of prev s0 False o'] Nil.prems(4,5) show ?case
    by (auto simp: create_lines.simps)
next
  case (Cons w1 wss)
  let ?e = "has_sent_paragraph r \<and> w1 = []"
  have g: "list_all good_word w0" "list_all good_word w1" using Cons.prems(1) by simp_all
  obtain p1 where p1: "parse_mode p1 = 0" "run (b @ (if ?e then [sp, nl] else [nl])) (p, prev, o') =
      (p1, ?e \<and> w0 \<noteq> [], o' @ (if prev then [nl] else []) @ join_words w0 @ (if ?e \<and> w0 \<noteq> [] then [] else [nl]))"
    using run_block [OF g(1) Cons.prems(6), of prev s0 ?e o'] Cons.prems(4,5) by auto
  obtain b1 where b1: "flow_wrap start (join_words w1) = Some b1"
    using run_block [OF g(2) p1(1), of False start False "[]"] by blast
  let ?r = "r\<lparr>has_sent_paragraph := \<not> ?e, sent_firsttime := False, last_sent_quotelevel := 0\<rparr>"
  have sent: "wordwrap_sent start (join_words w1) (r, out) = Some (?r, out @ (if ?e then [sp, nl] else [nl]) @ b1)"
    using sent_words [OF g(2) Cons.prems(2) b1] Cons.prems(3) by (simp add: Let_def)
  have nl: "nl \<notin> set (join_words w1)" using join_words_set [OF g(2)] by simp
  have step: "create_lines start (concat (map (\<lambda>ws. join_words ws @ [nl]) (w1 # wss))) (r, out) =
      create_lines False (concat (map (\<lambda>ws. join_words ws @ [nl]) wss)) (?r, out @ (if ?e then [sp, nl] else [nl]) @ b1)"
    using nl sent by (subst create_lines.simps) simp
  have "list_all (list_all good_word) (w1 # wss)" using Cons.prems(1) by simp
  from Cons.IH [OF this _ _ b1 _ p1(1), of ?r "?e \<and> w0 \<noteq> []" False "out @ (if ?e then [sp, nl] else [nl]) @ b1"
      "o' @ (if prev then [nl] else []) @ join_words w0 @ (if ?e \<and> w0 \<noteq> [] then [] else [nl])"]
  obtain r' w p' where w: "create_lines False (concat (map (\<lambda>ws. join_words ws @ [nl]) wss)) (?r, out @ (if ?e then [sp, nl] else [nl]) @ b1) =
        Some (r', (out @ (if ?e then [sp, nl] else [nl]) @ b1) @ w)"
      "buffer r' = []" "parse_mode p' = 0"
      "run (b1 @ w @ [nl]) (p1, ?e \<and> w0 \<noteq> [], o' @ (if prev then [nl] else []) @ join_words w0 @ (if ?e \<and> w0 \<noteq> [] then [] else [nl])) =
        (p', False, (o' @ (if prev then [nl] else []) @ join_words w0 @ (if ?e \<and> w0 \<noteq> [] then [] else [nl])) @
          (if ?e \<and> w0 \<noteq> [] then [nl] else []) @ join_words w1 @ [nl] @ concat (map (\<lambda>ws. join_words ws @ [nl]) wss))"
    by auto
  have "run ((b @ (if ?e then [sp, nl] else [nl])) @ (b1 @ w @ [nl])) (p, prev, o') =
      run (b1 @ w @ [nl]) (run (b @ (if ?e then [sp, nl] else [nl])) (p, prev, o'))" by (rule run_append)
  then have "run (b @ ((if ?e then [sp, nl] else [nl]) @ b1 @ w) @ [nl]) (p, prev, o') =
      (p', False, o' @ (if prev then [nl] else []) @ join_words w0 @ [nl] @ concat (map (\<lambda>ws. join_words ws @ [nl]) (w1 # wss)))"
    unfolding p1(2) w(4) by (cases "?e \<and> w0 \<noteq> []") auto
  with step w(1-3) show ?case by (intro exI [of _ r'] exI [of _ "(if ?e then [sp, nl] else [nl]) @ b1 @ w"] exI [of _ p']) simp
qed

text \<open>
  C14. A draft survives being sent as flowed text: the lines of the draft, of any length, are wrapped at 76 bytes, stuffed and flowed by
  \<open>rfc2646create\<close>, and the parser with the handler of \<open>rfc2646fwd\<close> gives the same draft back, empty lines included. The words of
  a line are separated by one blank, have at most 76 bytes, do not start with \<^verbatim>\<open>>\<close> and are not \<^verbatim>\<open>--\<close>.
\<close>

theorem flowed_roundtrip:
  assumes "list_all (list_all good_word) wss" "wss \<noteq> []" "draft = concat (map (\<lambda>ws. join_words ws @ [nl]) wss)"
  shows "\<exists>s. flowed draft = Some s \<and> flow_draft (flow_lines s) = draft"
proof -
  obtain w0 rest where wss: "wss = w0 # rest" using assms(2) by (cases wss) auto
  have g: "list_all good_word w0" using assms(1) wss by simp
  have p0: "parse_mode rfc2646_alloc = 0" by (simp add: rfc2646_alloc_def)
  obtain b where b: "flow_wrap True (join_words w0) = Some b"
    using run_block [OF g p0, of False True False "[]"] by blast
  let ?r = "rfc2646create_alloc\<lparr>has_sent_paragraph := True, sent_firsttime := False, last_sent_quotelevel := 0\<rparr>"
  have "wordwrap_sent True (join_words w0) (rfc2646create_alloc, []) = Some (?r, b)"
    using sent_words [OF g _ b, of rfc2646create_alloc "[]"] by (simp add: rfc2646create_alloc_def Let_def)
  then have first: "create_lines True draft (rfc2646create_alloc, []) =
      create_lines False (concat (map (\<lambda>ws. join_words ws @ [nl]) rest)) (?r, b)"
    using join_words_set [OF g] assms(3) wss by (subst create_lines.simps) simp
  obtain r' w p' where w: "create_lines False (concat (map (\<lambda>ws. join_words ws @ [nl]) rest)) (?r, b) = Some (r', b @ w)"
      "buffer r' = []" "parse_mode p' = 0" "run (b @ w @ [nl]) (rfc2646_alloc, False, []) = (p', False, draft)"
    using create_rest [OF assms(1) [unfolded wss] _ _ b _ p0, of ?r False False b "[]"] assms(3) wss by auto
  have "flowed draft = Some (b @ w @ [nl])"
    using first w(1,2) by (simp add: flowed_def rfc2646create_parse_def rfc2646create_alloc_def rfc2646create_free_def)
  moreover have "flow_draft (flow_lines (b @ w @ [nl])) = draft"
    using w(3,4) unfolding run_def flow_draft_def flow_lines_def rfc2646_free_def rfc2646fwd_free_def
    by (auto split: prod.splits)
  ultimately show ?thesis by blast
qed

lemma flowed_roundtrip_witness:
  "\<exists>s. flowed (''From me'' @ [nl, nl] @ ''-x'' @ [nl]) = Some s \<and> flow_draft (flow_lines s) = ''From me'' @ [nl, nl] @ ''-x'' @ [nl]"
  using flowed_roundtrip [of "[[''From'', ''me''], [], [''-x'']]" "''From me'' @ [nl, nl] @ ''-x'' @ [nl]"]
  by (simp add: good_word_def linesize_def)

end
