(* ===== verification/Rfc2646_Handlers.thy ===== *)
theory Rfc2646_Handlers
  imports Rfc2646
begin

text \<open>
  What is done with the lines of flowed text: a reply that quotes them (\<^verbatim>\<open>rfc2045/rfc2646reply.c\<close>), lines of another
  width (\<^verbatim>\<open>rfc2646rewrap.c\<close>) and HTML (\<^verbatim>\<open>sqwebmail/rfc2646html.c\<close>). The first two have buffers of a fixed
  size: \<open>None\<close> when something would be written past them.
\<close>

subsection \<open>Replies\<close>

record rfc2646reply =
  current_quote_depth :: nat
  prev_was_flowed :: bool
  first_line :: bool
  replybuffer :: string

definition replysize :: nat where "replysize = 74"

definition rfc2646reply_alloc :: rfc2646reply where
  "rfc2646reply_alloc = \<lparr>current_quote_depth = 0, prev_was_flowed = True, first_line = True, replybuffer = []\<rparr>"

definition flushreply :: "bool \<Rightarrow> rfc2646reply \<times> string \<Rightarrow> rfc2646reply \<times> string" where
  "flushreply isflowed = (\<lambda>(p, out).
     let buf = (if isflowed then replybuffer p else strip_blanks (replybuffer p))
     in (p\<lparr>replybuffer := []\<rparr>,
         out @ replicate (current_quote_depth p + 1) (CHR ''>'') @ [sp] @ buf @ (if isflowed then [sp] else []) @ [nl]))"

definition reply_maxlen :: "nat \<Rightarrow> nat" where
  "reply_maxlen depth = (if depth + 20 > replysize then 15 else replysize - depth)"

definition set_reply :: "string \<Rightarrow> rfc2646reply \<Rightarrow> rfc2646reply option" where
  "set_reply buf p = (if length buf \<le> replysize then Some (p\<lparr>replybuffer := buf\<rparr>) else None)"

function fillreply :: "string \<Rightarrow> rfc2646reply \<times> string \<Rightarrow> (rfc2646reply \<times> string) option" where
  "fillreply txt' (p, out) =
     (if txt' = [] then Some (p, out)
      else
        let maxlen = reply_maxlen (current_quote_depth p); buf = replybuffer p;
            blank = (if buf = [] then [] else [sp]);
            i = length (takeWhile (\<lambda>c. c \<noteq> sp) txt')
        in if length buf + length txt' + 1 \<le> maxlen then map_option (\<lambda>p. (p, out)) (set_reply (buf @ blank @ txt') p)
           else if length buf + i + 1 \<le> maxlen then
             (case set_reply (buf @ blank @ take i txt') p of None \<Rightarrow> None | Some p' \<Rightarrow> fillreply (drop (i + 1) txt') (p', out))
           else if buf \<noteq> [] then fillreply txt' (flushreply True (p, out))
           else
             (case set_reply (take maxlen txt') p of None \<Rightarrow> None | Some p' \<Rightarrow> fillreply (drop maxlen txt') (p', out)))"
  by pat_completeness auto
termination
  by (relation "measures [\<lambda>(txt', p, out). length txt', \<lambda>(txt', p, out). length (replybuffer p)]")
    (auto simp: flushreply_def Let_def reply_maxlen_def replysize_def)

declare fillreply.simps [simp del]

definition rfc2646reply_handler :: "flow_line \<Rightarrow> rfc2646reply \<times> string \<Rightarrow> (rfc2646reply \<times> string) option" where
  "rfc2646reply_handler = (\<lambda>(depth, l, isflowed) (r, out).
     let first = first_line r;
         changed = (depth \<noteq> current_quote_depth r);
         (r, out) = (r\<lparr>first_line := False\<rparr>, out);
         (r, out) =
           (if changed then
              let (r, out) = (if replybuffer r \<noteq> [] \<or> prev_was_flowed r then flushreply False (r, out) else (r, out))
              in (r\<lparr>current_quote_depth := depth, prev_was_flowed := False\<rparr>, out)
            else (r, out))
     in if changed \<and> l = [] \<and> \<not> isflowed then Some (flushreply False (r, out))
        else if prev_was_flowed r \<and> \<not> isflowed \<and> l = [] \<and> \<not> first then
          (case flushreply False (flushreply True (r, out)) of (r, out) \<Rightarrow> Some (r\<lparr>prev_was_flowed := False\<rparr>, out))
        else
          map_option (\<lambda>st. case if isflowed then st else flushreply False st of (r, out) \<Rightarrow> (r\<lparr>prev_was_flowed := isflowed\<rparr>, out))
            (fillreply l (r, out)))"

definition rfc2646reply_free :: "rfc2646reply \<times> string \<Rightarrow> string" where
  "rfc2646reply_free = (\<lambda>(p, out). snd (if replybuffer p \<noteq> [] then flushreply False (p, out) else (p, out)))"

fun reply_lines :: "flow_line list \<Rightarrow> rfc2646reply \<times> string \<Rightarrow> (rfc2646reply \<times> string) option" where
  "reply_lines [] st = Some st"
| "reply_lines (l # ls) st = (case rfc2646reply_handler l st of None \<Rightarrow> None | Some st \<Rightarrow> reply_lines ls st)"

definition flow_reply :: "flow_line list \<Rightarrow> string option" where
  "flow_reply ls = map_option rfc2646reply_free (reply_lines ls (rfc2646reply_alloc, []))"

subsection \<open>Another width\<close>

record rfc2646rewrap =
  has_prev :: bool
  rw_quote_depth :: nat
  wrap_width :: nat
  wrap_buf :: string

definition rfc2646rewrap_alloc :: "nat \<Rightarrow> rfc2646rewrap" where
  "rfc2646rewrap_alloc w = \<lparr>has_prev = False, rw_quote_depth = 0, wrap_width = (if w < 20 then 20 else w), wrap_buf = []\<rparr>"

text \<open>The string handed to the handler, written to the buffer with its terminator.\<close>

definition rewrap_out :: "string \<Rightarrow> rfc2646rewrap \<times> (nat \<times> string) list \<Rightarrow> (rfc2646rewrap \<times> (nat \<times> string) list) option" where
  "rewrap_out s = (\<lambda>(r, out).
     if length s + 1 \<le> wrap_width r + 1 then Some (r\<lparr>wrap_buf := []\<rparr>, out @ [(rw_quote_depth r, s)]) else None)"

text \<open>The length of a word: of the blanks that follow it, the last one is left.\<close>

definition word_len :: "string \<Rightarrow> nat" where
  "word_len s =
     (let n = length (takeWhile (\<lambda>c. c \<noteq> sp) s)
      in if n < length s then n + length (takeWhile (\<lambda>c. c = sp) (drop n s)) - 1 else n)"

text \<open>The loop over the words; \<open>w\<close> is never so small that it makes no progress.\<close>

function rewrap_loop ::
    "nat \<Rightarrow> bool \<Rightarrow> string \<Rightarrow> rfc2646rewrap \<times> (nat \<times> string) list \<Rightarrow> (rfc2646rewrap \<times> (nat \<times> string) list) option" where
  "rewrap_loop w needspc s (r, out) =
     (if s = [] then Some (r, out)
      else
        let i = word_len s; blank = (if needspc then [sp] else [])
        in if length (wrap_buf r) + length blank + i < w then
             (if length (wrap_buf r) + length blank + i \<le> wrap_width r + 1 then
                rewrap_loop w True (drop (i + 1) s) (r\<lparr>wrap_buf := wrap_buf r @ blank @ take i s\<rparr>, out)
              else None)
           else if wrap_buf r \<noteq> [] then
             (case rewrap_out (rev (dropWhile (\<lambda>c. c = sp) (rev (wrap_buf r))) @ [sp]) (r, out) of
                None \<Rightarrow> None | Some (r', out') \<Rightarrow> rewrap_loop w False s (r\<lparr>wrap_buf := []\<rparr>, out'))
           else if w \<le> 1 \<or> length s < w - 1 then None
           else
             (case rewrap_out (take (w - 1) s @ [sp]) (r, out) of
                None \<Rightarrow> None | Some st \<Rightarrow> rewrap_loop w False (drop (w - 1) s) st))"
  by pat_completeness auto
termination
  by (relation "measures [\<lambda>(w, n, s, r, out). length s, \<lambda>(w, n, s, r, out). length (wrap_buf r)]") auto

declare rewrap_loop.simps [simp del]

definition rewrap_text_width :: "rfc2646rewrap \<Rightarrow> nat" where
  "rewrap_text_width r =
     (if rw_quote_depth r + 20 < wrap_width r then wrap_width r - 2 - rw_quote_depth r - 1 else wrap_width r - 2)"

definition rfc2646rewrap_handler ::
    "flow_line \<Rightarrow> rfc2646rewrap \<times> (nat \<times> string) list \<Rightarrow> (rfc2646rewrap \<times> (nat \<times> string) list) option" where
  "rfc2646rewrap_handler = (\<lambda>(depth, l, isflowed) (r, out).
     let flushed =
           (if has_prev r then
              if rw_quote_depth r \<noteq> depth then map_option (\<lambda>(r, out). (r\<lparr>has_prev := False\<rparr>, out)) (rewrap_out (wrap_buf r) (r, out))
              else if \<not> isflowed \<and> l = [] then
                map_option (\<lambda>(r, out). (r\<lparr>has_prev := False\<rparr>, out)) (rewrap_out (wrap_buf r @ [sp]) (r, out))
              else Some (r, out)
            else Some (r\<lparr>wrap_buf := []\<rparr>, out))
     in case flushed of
          None \<Rightarrow> None
        | Some (r, out) \<Rightarrow>
            let r = r\<lparr>rw_quote_depth := depth\<rparr>
            in if \<not> has_prev r \<and> l = ''-- '' then rewrap_out ''-- '' (r, out)
               else
                 case rewrap_loop (rewrap_text_width r) (has_prev r) l (r, out) of
                   None \<Rightarrow> None
                 | Some (r, out) \<Rightarrow>
                     let r = r\<lparr>has_prev := isflowed\<rparr>
                     in if isflowed then Some (r, out) else rewrap_out (wrap_buf r) (r, out))"

definition rfc2646rewrap_free :: "rfc2646rewrap \<times> (nat \<times> string) list \<Rightarrow> (nat \<times> string) list option" where
  "rfc2646rewrap_free = (\<lambda>(r, out). if has_prev r then map_option snd (rewrap_out (wrap_buf r) (r, out)) else Some out)"

fun rewrap_lines ::
    "flow_line list \<Rightarrow> rfc2646rewrap \<times> (nat \<times> string) list \<Rightarrow> (rfc2646rewrap \<times> (nat \<times> string) list) option" where
  "rewrap_lines [] st = Some st"
| "rewrap_lines (l # ls) st = (case rfc2646rewrap_handler l st of None \<Rightarrow> None | Some st \<Rightarrow> rewrap_lines ls st)"

definition flow_rewrap :: "nat \<Rightarrow> flow_line list \<Rightarrow> (nat \<times> string) list option" where
  "flow_rewrap w ls =
     (case rewrap_lines ls (rfc2646rewrap_alloc w, []) of None \<Rightarrow> None | Some st \<Rightarrow> rfc2646rewrap_free st)"

subsection \<open>HTML\<close>

record rfc2646tohtml =
  html_quote_depth :: nat
  html_was_flowed :: bool
  prev_was_0length :: bool

definition rfc2646tohtml_alloc :: rfc2646tohtml where
  "rfc2646tohtml_alloc = \<lparr>html_quote_depth = 0, html_was_flowed = True, prev_was_0length = False\<rparr>"

definition blockquote :: string where "blockquote = nl # ''<blockquote type=cite>''"
definition blockquote_end :: string where "blockquote_end = ''</blockquote>'' @ [nl]"

text \<open>The strings passed to the handler.\<close>

definition endquote :: "rfc2646tohtml \<times> string list \<Rightarrow> rfc2646tohtml \<times> string list" where
  "endquote = (\<lambda>(p, out).
     (p\<lparr>html_quote_depth := html_quote_depth p - 1, html_was_flowed := False, prev_was_0length := False\<rparr>, out @ [blockquote_end]))"

definition openquote :: "rfc2646tohtml \<times> string list \<Rightarrow> rfc2646tohtml \<times> string list" where
  "openquote = (\<lambda>(r, out).
     (r\<lparr>html_quote_depth := html_quote_depth r + 1, html_was_flowed := True, prev_was_0length := False\<rparr>, out @ [blockquote]))"

text \<open>The loop over the line: \<open>pend\<close> is the text since the last entity.\<close>

definition pending :: "string \<Rightarrow> string list" where
  "pending pend = (if pend = [] then [] else [pend])"

fun html_line :: "string \<Rightarrow> nat \<Rightarrow> string \<Rightarrow> string list" where
  "html_line pend colcnt [] = pending pend @ [[nl]]"
| "html_line pend colcnt (c # str) =
     (if c = CHR ''&'' then pending pend @ [''&amp;''] @ html_line [] (colcnt + length pend + 1) str
      else if c = CHR ''<'' then pending pend @ [''&lt;''] @ html_line [] (colcnt + length pend + 1) str
      else if c = CHR ''>'' then pending pend @ [''&gt;''] @ html_line [] (colcnt + length pend + 1) str
      else if c = sp \<and> (take 1 str = [sp] \<or> take 1 str = [CHR 0x09]) then
        pending pend @ [''&nbsp;''] @ html_line [] (colcnt + length pend + 1) str
      else if c = CHR 0x09 then
        let col = colcnt + length pend; n = 8 - col mod 8
        in pending pend @ replicate n ''&nbsp;'' @ html_line [] (col + n) str
      else html_line (pend @ [c]) colcnt str)"

definition rfc2646tohtml_handler :: "flow_line \<Rightarrow> rfc2646tohtml \<times> string list \<Rightarrow> rfc2646tohtml \<times> string list" where
  "rfc2646tohtml_handler = (\<lambda>(depth, str, isflowed) (r, out).
     let str = takeWhile (\<lambda>c. c \<noteq> nul) str; st = (r, out);
         st = (endquote ^^ (html_quote_depth (fst st) - depth)) st;
         st = (openquote ^^ (depth - html_quote_depth (fst st))) st;
         (r, out) = st;
         out = out @ (if html_was_flowed r then [] else [if prev_was_0length r then ''<p>'' else ''<br>''])
     in (r\<lparr>html_was_flowed := isflowed, prev_was_0length := (str = [])\<rparr>, out @ html_line [] 0 str))"

definition rfc2646tohtml_free :: "rfc2646tohtml \<times> string list \<Rightarrow> string list" where
  "rfc2646tohtml_free st = snd ((endquote ^^ html_quote_depth (fst st)) st)"

definition flow_html :: "flow_line list \<Rightarrow> string list" where
  "flow_html ls = rfc2646tohtml_free (fold rfc2646tohtml_handler ls (rfc2646tohtml_alloc, []))"

subsection \<open>Replies quote every line, and nothing is lost\<close>

text \<open>The text that is not blank, with its quote depth.\<close>

definition dtext :: "nat \<times> string \<Rightarrow> (nat \<times> char) list" where
  "dtext = (\<lambda>(depth, s). map (Pair depth) (filter (\<lambda>c. c \<noteq> sp) s))"

lemma dtext_simps [simp]:
  "dtext (d, []) = []" "dtext (d, c # s) = (if c = sp then [] else [(d, c)]) @ dtext (d, s)" "dtext (d, s @ t) = dtext (d, s) @ dtext (d, t)"
  by (simp_all add: dtext_def)

lemma dtext_rstrip: "dtext (d, rev (dropWhile (\<lambda>c. c = sp) (rev s))) = dtext (d, s)"
proof -
  have "filter (\<lambda>c. c \<noteq> sp) (rev (dropWhile (\<lambda>c. c = sp) t)) = filter (\<lambda>c. c \<noteq> sp) (rev t)" for t
    by (induction t) auto
  from this [of "rev s"] show ?thesis by (simp add: dtext_def)
qed

lemma dtext_strip [simp]: "dtext (d, strip_blanks s) = dtext (d, s)"
proof (cases "take 3 s = ''-- '' \<and> list_all (\<lambda>c. c = sp) (drop 3 s)")
  case True
  then have "s = ''-- '' @ drop 3 s" by (metis append_take_drop_id)
  moreover have "dtext (d, t) = []" if "list_all (\<lambda>c. c = sp) t" for t using that by (auto simp: dtext_def list_all_iff filter_empty_conv)
  ultimately have "dtext (d, s) = dtext (d, ''-- '')" using True by (metis append_Nil2 dtext_simps(3))
  with True show ?thesis by (simp add: strip_blanks_def)
qed (auto simp: strip_blanks_def dtext_rstrip)

lemma strip_blanks_length: "length (strip_blanks s) \<le> length s"
proof (cases "take 3 s = ''-- '' \<and> list_all (\<lambda>c. c = sp) (drop 3 s)")
  case True
  then have "length (take 3 s) = length ''-- ''" by (simp only:)
  then have "3 \<le> length s" by simp
  with True show ?thesis by (simp add: strip_blanks_def)
next
  case False
  then show ?thesis using length_dropWhile_le [of "\<lambda>c. c = sp" "rev s"] by (auto simp: strip_blanks_def)
qed

lemma dtext_word: "dtext (d, s) = dtext (d, take (length (takeWhile (\<lambda>c. c \<noteq> sp) s)) s) @ dtext (d, drop (Suc (length (takeWhile (\<lambda>c. c \<noteq> sp) s))) s)"
  by (induction s) auto

definition reply_line :: "nat \<times> string \<Rightarrow> string" where
  "reply_line = (\<lambda>(depth, s). replicate (depth + 1) (CHR ''>'') @ [sp] @ s @ [nl])"

text \<open>What the reply holds of the text up to now: the lines that are written, and the buffer.\<close>

definition reply_inv :: "(nat \<times> char) list \<Rightarrow> rfc2646reply \<times> string \<Rightarrow> bool" where
  "reply_inv t st \<longleftrightarrow> length (replybuffer (fst st)) \<le> replysize \<and>
     (\<exists>ls. snd st = concat (map reply_line ls) \<and> (\<forall>l \<in> set ls. length (snd l) \<le> replysize + 1) \<and>
        t = concat (map dtext ls) @ dtext (current_quote_depth (fst st), replybuffer (fst st)))"

lemma reply_inv_flush: "reply_inv t st \<Longrightarrow> reply_inv t (flushreply f st)"
proof -
  assume i: "reply_inv t st"
  obtain p out where st: "st = (p, out)" by (cases st)
  from i obtain ls where ls: "out = concat (map reply_line ls)" "\<forall>l \<in> set ls. length (snd l) \<le> replysize + 1"
    "t = concat (map dtext ls) @ dtext (current_quote_depth p, replybuffer p)" "length (replybuffer p) \<le> replysize"
    by (auto simp: reply_inv_def st)
  let ?l = "(current_quote_depth p, (if f then replybuffer p @ [sp] else strip_blanks (replybuffer p)))"
  have "snd (flushreply f st) = concat (map reply_line (ls @ [?l]))"
    using ls(1) by (simp add: flushreply_def st Let_def reply_line_def)
  moreover have "\<forall>l \<in> set (ls @ [?l]). length (snd l) \<le> replysize + 1"
    using ls(2,4) strip_blanks_length [of "replybuffer p"] by auto
  moreover have "t = concat (map dtext (ls @ [?l]))" using ls(3) by simp
  moreover have "replybuffer (fst (flushreply f st)) = []" by (simp add: flushreply_def st Let_def)
  ultimately show ?thesis unfolding reply_inv_def by (intro conjI exI [of _ "ls @ [?l]"]) simp_all
qed

lemma flushreply_depth [simp]: "current_quote_depth (fst (flushreply f st)) = current_quote_depth (fst st)"
  by (cases st) (simp add: flushreply_def Let_def)

lemma reply_inv_set:
  assumes "reply_inv t (p, out)" "length buf \<le> replysize"
    "dtext (current_quote_depth p, buf) = dtext (current_quote_depth p, replybuffer p) @ u"
  shows "\<exists>p'. set_reply buf p = Some p' \<and> current_quote_depth p' = current_quote_depth p \<and> reply_inv (t @ u) (p', out)"
  using assms by (auto simp: reply_inv_def set_reply_def)

lemma reply_inv_fill:
  "reply_inv t (p, out) \<Longrightarrow> \<exists>st. fillreply s (p, out) = Some st \<and> current_quote_depth (fst st) = current_quote_depth p \<and>
     reply_inv (t @ dtext (current_quote_depth p, s)) st"
proof (induction s "(p, out)" arbitrary: p out t rule: fillreply.induct)
  case (1 s p out)
  let ?d = "current_quote_depth p" and ?buf = "replybuffer p" and ?i = "length (takeWhile (\<lambda>c. c \<noteq> sp) s)"
  let ?blank = "if ?buf = [] then [] else [sp]" and ?max = "reply_maxlen ?d"
  have max: "?max \<le> replysize" by (simp add: reply_maxlen_def replysize_def)
  have i: "?i \<le> length s" by (rule length_takeWhile_le)
  have put: "\<exists>p'. set_reply (?buf @ ?blank @ x) p = Some p' \<and> current_quote_depth p' = ?d \<and> reply_inv (t @ dtext (?d, x)) (p', out)"
    if "length ?buf + length x + 1 \<le> ?max" for x
  proof (rule reply_inv_set [OF \<open>reply_inv t (p, out)\<close>])
    show "length (?buf @ ?blank @ x) \<le> replysize" using that max by auto
    show "dtext (?d, ?buf @ ?blank @ x) = dtext (?d, ?buf) @ dtext (?d, x)" by auto
  qed
  consider "s = []" | "s \<noteq> []" "length ?buf + length s + 1 \<le> ?max"
    | "s \<noteq> []" "\<not> length ?buf + length s + 1 \<le> ?max" "length ?buf + ?i + 1 \<le> ?max"
    | "s \<noteq> []" "\<not> length ?buf + length s + 1 \<le> ?max" "\<not> length ?buf + ?i + 1 \<le> ?max" "?buf \<noteq> []"
    | "s \<noteq> []" "\<not> length ?buf + length s + 1 \<le> ?max" "\<not> length ?buf + ?i + 1 \<le> ?max" "?buf = []"
    by blast
  then show ?case
  proof cases
    case 1
    then show ?thesis using \<open>reply_inv t (p, out)\<close> by (simp add: fillreply.simps)
  next
    case 2
    obtain p' where "set_reply (?buf @ ?blank @ s) p = Some p'" "current_quote_depth p' = ?d" "reply_inv (t @ dtext (?d, s)) (p', out)"
      using put [OF 2(2)] by blast
    with 2 show ?thesis by (simp add: fillreply.simps Let_def)
  next
    case 3
    obtain p' where p': "set_reply (?buf @ ?blank @ take ?i s) p = Some p'" "current_quote_depth p' = ?d"
      "reply_inv (t @ dtext (?d, take ?i s)) (p', out)"
      using put [of "take ?i s"] 3(3) i by auto
    from "1.hyps"(1) [OF 3(1) refl refl refl refl 3(2,3) p'(1,3)]
    show ?thesis using 3 p' dtext_word [of ?d s] by (subst fillreply.simps) (simp add: Let_def)
  next
    case 4
    obtain p1 out1 where f: "flushreply True (p, out) = (p1, out1)" by fastforce
    have "reply_inv t (p1, out1)" using reply_inv_flush [OF \<open>reply_inv t (p, out)\<close>, of True] f by simp
    moreover have "current_quote_depth p1 = ?d" using flushreply_depth [of True "(p, out)"] f by simp
    ultimately show ?thesis
      using "1.hyps"(2) [OF 4(1) refl refl refl refl 4(2,3,4) f] 4 f by (subst fillreply.simps) (simp add: Let_def)
  next
    case 5
    obtain p' where p': "set_reply (take ?max s) p = Some p'" "current_quote_depth p' = ?d" "reply_inv (t @ dtext (?d, take ?max s)) (p', out)"
      using reply_inv_set [OF \<open>reply_inv t (p, out)\<close>, of "take ?max s" "dtext (?d, take ?max s)"] 5 max by auto
    have "dtext (?d, s) = dtext (?d, take ?max s) @ dtext (?d, drop ?max s)"
      by (metis append_take_drop_id dtext_simps(3))
    with "1.hyps"(3) [OF 5(1) refl refl refl refl 5(2,3) _ p'(1,3)] 5 p' show ?thesis
      by (subst fillreply.simps) (simp add: Let_def)
  qed
qed

lemma reply_inv_upd [simp]:
  "reply_inv t (p\<lparr>first_line := a\<rparr>, out) = reply_inv t (p, out)"
  "reply_inv t (p\<lparr>prev_was_flowed := b\<rparr>, out) = reply_inv t (p, out)"
  by (simp_all add: reply_inv_def)

lemma reply_inv_depth: "reply_inv t (p, out) \<Longrightarrow> replybuffer p = [] \<Longrightarrow> reply_inv t (p\<lparr>current_quote_depth := d\<rparr>, out)"
  by (simp add: reply_inv_def)

lemma reply_inv_handler:
  assumes "reply_inv t (r, out)"
  shows "\<exists>st. rfc2646reply_handler (depth, l, isflowed) (r, out) = Some st \<and> reply_inv (t @ dtext (depth, l)) st"
proof -
  define changed where "changed \<longleftrightarrow> depth \<noteq> current_quote_depth r"
  let ?r = "r\<lparr>first_line := False\<rparr>"
  define st where "st = (if changed then
      let (r, out) = (if replybuffer r \<noteq> [] \<or> prev_was_flowed r then flushreply False (?r, out) else (?r, out))
      in (r\<lparr>current_quote_depth := depth, prev_was_flowed := False\<rparr>, out) else (?r, out))"
  obtain r1 out1 where st1: "st = (r1, out1)" by (cases st)
  have st: "reply_inv t (r1, out1) \<and> current_quote_depth r1 = depth"
  proof (cases changed)
    case False
    then show ?thesis using assms st1 by (auto simp: st_def changed_def)
  next
    case True
    obtain r2 out2 where f: "flushreply False (?r, out) = (r2, out2)" by fastforce
    have "reply_inv t (r2, out2)" using reply_inv_flush [of t "(?r, out)" False] assms f by simp
    moreover have "replybuffer r2 = []" using f by (auto simp: flushreply_def Let_def)
    ultimately have "reply_inv t (r2\<lparr>current_quote_depth := depth\<rparr>, out2)" by (rule reply_inv_depth)
    moreover have "reply_inv t (?r\<lparr>current_quote_depth := depth\<rparr>, out)" if "replybuffer r = []"
      using assms that by (intro reply_inv_depth) simp_all
    ultimately show ?thesis using True st1 f by (auto simp: st_def split: if_splits)
  qed
  have handler: "rfc2646reply_handler (depth, l, isflowed) (r, out) =
     (if changed \<and> l = [] \<and> \<not> isflowed then Some (flushreply False (r1, out1))
      else if prev_was_flowed r1 \<and> \<not> isflowed \<and> l = [] \<and> \<not> first_line r then
        (case flushreply False (flushreply True (r1, out1)) of (r, out) \<Rightarrow> Some (r\<lparr>prev_was_flowed := False\<rparr>, out))
      else
        map_option (\<lambda>st. case if isflowed then st else flushreply False st of (r, out) \<Rightarrow> (r\<lparr>prev_was_flowed := isflowed\<rparr>, out))
          (fillreply l (r1, out1)))"
    using st1 unfolding st_def changed_def by (auto simp: rfc2646reply_handler_def Let_def split: prod.splits if_splits)
  obtain st2 where fill: "fillreply l (r1, out1) = Some st2" "reply_inv (t @ dtext (depth, l)) st2"
    using reply_inv_fill [of t r1 out1 l] st by auto
  obtain p3 out3 where 3: "flushreply False (r1, out1) = (p3, out3)" by fastforce
  have fl: "reply_inv t (flushreply f s)" if "reply_inv t s" for f s t using reply_inv_flush [OF that] .
  show ?thesis
    unfolding handler using 3 fl [of t "(r1, out1)" False, unfolded 3] fl [OF fl, of t "(r1, out1)" False True] fl [OF fill(2), of False] st fill
    by (auto split: prod.splits)
qed

text \<open>
  C30. A reply to flowed text is made without writing past its 74 byte buffer, whatever the lines and their quote depths
  are: every line of it is quoted one level deeper, has at most 75 bytes after the quotes, and together they have the text of the
  original, in order and at its depth.
\<close>

theorem flow_reply_quotes:
  "\<exists>ls. flow_reply fls = Some (concat (map reply_line ls)) \<and> list_all (\<lambda>l. length (snd l) \<le> replysize + 1) ls \<and>
     concat (map dtext ls) = concat (map (\<lambda>(depth, l, isflowed). dtext (depth, l)) fls)"
proof -
  have "reply_inv t st \<Longrightarrow> \<exists>st'. reply_lines fls st = Some st' \<and>
      reply_inv (t @ concat (map (\<lambda>(depth, l, isflowed). dtext (depth, l)) fls)) st'" for t st
  proof (induction fls arbitrary: t st)
    case (Cons fl fls)
    obtain depth l isflowed where fl: "fl = (depth, l, isflowed)" by (cases fl)
    obtain r out where st: "st = (r, out)" by (cases st)
    obtain st1 where "rfc2646reply_handler fl st = Some st1" "reply_inv (t @ dtext (depth, l)) st1"
      using reply_inv_handler [of t r out depth l isflowed] Cons.prems fl st by auto
    with Cons.IH [OF this(2)] fl show ?case by simp
  qed simp
  moreover have "reply_inv [] (rfc2646reply_alloc, [])"
    by (auto simp: reply_inv_def rfc2646reply_alloc_def intro!: exI [of _ "[]"])
  ultimately obtain p out where run: "reply_lines fls (rfc2646reply_alloc, []) = Some (p, out)"
    "reply_inv (concat (map (\<lambda>(depth, l, isflowed). dtext (depth, l)) fls)) (p, out)"
    by (metis append_Nil surj_pair)
  define st where "st = (if replybuffer p \<noteq> [] then flushreply False (p, out) else (p, out))"
  have "reply_inv (concat (map (\<lambda>(depth, l, isflowed). dtext (depth, l)) fls)) st"
    using run(2) reply_inv_flush [OF run(2), of False] by (auto simp: st_def)
  moreover have "replybuffer (fst st) = []" by (simp add: st_def flushreply_def Let_def)
  moreover have "flow_reply fls = Some (snd st)"
    using run(1) by (simp add: flow_reply_def rfc2646reply_free_def st_def)
  ultimately obtain ls where "snd st = concat (map reply_line ls)" "\<forall>l \<in> set ls. length (snd l) \<le> replysize + 1"
    "concat (map (\<lambda>(depth, l, isflowed). dtext (depth, l)) fls) = concat (map dtext ls)"
    unfolding reply_inv_def by (metis append_Nil2 dtext_simps(1))
  with \<open>flow_reply fls = Some (snd st)\<close> show ?thesis by (intro exI [of _ ls]) (simp add: list_all_iff)
qed

subsection \<open>Rewrapping keeps the text within the width\<close>

lemma word_len_le: "word_len s \<le> length s"
proof -
  let ?n = "length (takeWhile (\<lambda>c. c \<noteq> sp) s)"
  have "length (takeWhile (\<lambda>c. c = sp) (drop ?n s)) \<le> length s - ?n"
    using length_takeWhile_le [of "\<lambda>c. c = sp" "drop ?n s"] by simp
  moreover have "?n \<le> length s" by (rule length_takeWhile_le)
  ultimately show ?thesis unfolding word_len_def Let_def by (split if_split) (intro conjI impI; linarith)
qed

lemma word_len_sp: "word_len s < length s \<Longrightarrow> s ! word_len s = sp"
proof -
  assume a: "word_len s < length s"
  let ?n = "length (takeWhile (\<lambda>c. c \<noteq> sp) s)" and ?t = "takeWhile (\<lambda>c. c = sp) (drop (length (takeWhile (\<lambda>c. c \<noteq> sp) s)) s)"
  have n: "?n < length s" using a by (simp add: word_len_def Let_def split: if_splits)
  then have "s ! ?n = sp" using nth_length_takeWhile [of "\<lambda>c. c \<noteq> sp" s] by simp
  then have "hd (drop ?n s) = sp" "drop ?n s \<noteq> []" using n by (simp_all add: hd_drop_conv_nth)
  then have "?t \<noteq> []" by (cases "drop ?n s") auto
  then have t: "length ?t - 1 < length ?t" by (cases ?t) auto
  have "?t ! (length ?t - 1) = drop ?n s ! (length ?t - 1)" by (rule takeWhile_nth [OF t])
  moreover have "?t ! (length ?t - 1) = sp" using nth_mem [OF t] set_takeWhileD [of _ "\<lambda>c. c = sp"] by blast
  moreover have "word_len s = ?n + (length ?t - 1)" using n t by (simp add: word_len_def Let_def)
  ultimately show ?thesis using n by simp
qed

lemma dtext_word_len: "dtext (d, s) = dtext (d, take (word_len s) s) @ dtext (d, drop (word_len s + 1) s)"
proof (cases "word_len s < length s")
  case True
  then have "s = take (word_len s) s @ sp # drop (word_len s + 1) s"
    using id_take_nth_drop [OF True] word_len_sp [OF True] by simp
  then have "dtext (d, s) = dtext (d, take (word_len s) s @ sp # drop (word_len s + 1) s)" by simp
  then show ?thesis by simp
qed simp

definition rw_ok :: "rfc2646rewrap \<times> (nat \<times> string) list \<Rightarrow> bool" where
  "rw_ok st \<longleftrightarrow> 20 \<le> wrap_width (fst st) \<and> (\<forall>l \<in> set (snd st). length (snd l) \<le> wrap_width (fst st) - 2)"

definition rw_text :: "rfc2646rewrap \<times> (nat \<times> string) list \<Rightarrow> (nat \<times> char) list" where
  "rw_text st = concat (map dtext (snd st)) @ dtext (rw_quote_depth (fst st), wrap_buf (fst st))"

lemma rewrap_out_ok:
  assumes "rw_ok (r, out)" "length s \<le> wrap_width r - 2"
  shows "rewrap_out s (r, out) = Some (r\<lparr>wrap_buf := []\<rparr>, out @ [(rw_quote_depth r, s)])"
    "rw_ok (r\<lparr>wrap_buf := []\<rparr>, out @ [(rw_quote_depth r, s)])"
  using assms by (auto simp: rewrap_out_def rw_ok_def)

lemma rewrap_text_width_bounds: "20 \<le> wrap_width r \<Longrightarrow> 18 \<le> rewrap_text_width r \<and> rewrap_text_width r \<le> wrap_width r - 2"
  by (auto simp: rewrap_text_width_def)

lemma rewrap_text_width_upd [simp]: "rewrap_text_width (r\<lparr>wrap_buf := b\<rparr>) = rewrap_text_width r"
  by (simp add: rewrap_text_width_def)

lemma rewrap_loop_ok:
  assumes "rw_ok (r, out)" "w = rewrap_text_width r" "length (wrap_buf r) < w"
  shows "\<exists>b out'. rewrap_loop w needspc s (r, out) = Some (r\<lparr>wrap_buf := b\<rparr>, out') \<and> length b < w \<and>
    rw_ok (r\<lparr>wrap_buf := b\<rparr>, out') \<and> rw_text (r\<lparr>wrap_buf := b\<rparr>, out') = rw_text (r, out) @ dtext (rw_quote_depth r, s)"
  using assms
proof (induction w needspc s "(r, out)" arbitrary: r out rule: rewrap_loop.induct)
  case (1 w needspc s r out)
  let ?i = "word_len s" and ?blank = "if needspc then [sp] else []"
  have w: "18 \<le> w" "w \<le> wrap_width r - 2" "20 \<le> wrap_width r"
    using rewrap_text_width_bounds [of r] 1(4,5) by (simp_all add: rw_ok_def)
  consider "s = []" | "s \<noteq> []" "length (wrap_buf r) + length ?blank + ?i < w"
    | "s \<noteq> []" "\<not> length (wrap_buf r) + length ?blank + ?i < w" "wrap_buf r \<noteq> []"
    | "s \<noteq> []" "\<not> length (wrap_buf r) + length ?blank + ?i < w" "wrap_buf r = []"
    by blast
  then show ?case
  proof cases
    case s: 1
    then show ?thesis using 1(4-6) by (intro exI [of _ "wrap_buf r"] exI [of _ out]) (simp add: rewrap_loop.simps)
  next
    case 2
    let ?r = "r\<lparr>wrap_buf := wrap_buf r @ ?blank @ take ?i s\<rparr>"
    have fit: "length (wrap_buf r) + length ?blank + ?i \<le> wrap_width r + 1" using 2(2) w by linarith
    have "length (wrap_buf ?r) < w" using 2(2) word_len_le [of s] by simp
    moreover have "rw_ok (?r, out)" using 1(4) by (simp add: rw_ok_def)
    ultimately obtain b out' where b: "rewrap_loop w True (drop (?i + 1) s) (?r, out) = Some (?r\<lparr>wrap_buf := b\<rparr>, out')" "length b < w"
      "rw_ok (?r\<lparr>wrap_buf := b\<rparr>, out')" "rw_text (?r\<lparr>wrap_buf := b\<rparr>, out') = rw_text (?r, out) @ dtext (rw_quote_depth ?r, drop (?i + 1) s)"
      using "1.hyps"(1) [OF 2(1) refl refl 2(2) fit] 1(5) by (simp only: rewrap_text_width_upd) blast
    have "dtext (rw_quote_depth r, ?blank) = []" by simp
    with b 2 fit dtext_word_len [of "rw_quote_depth r" s] show ?thesis
      by (intro exI [of _ b] exI [of _ out'], subst rewrap_loop.simps) (simp add: Let_def rw_text_def)
  next
    case 3
    let ?s = "rev (dropWhile (\<lambda>c. c = sp) (rev (wrap_buf r))) @ [sp]"
    have "length ?s \<le> wrap_width r - 2"
      using length_dropWhile_le [of "\<lambda>c. c = sp" "rev (wrap_buf r)"] 1(6) w(2) by simp
    note o = rewrap_out_ok [OF 1(4) this]
    have t: "rw_text (r\<lparr>wrap_buf := []\<rparr>, out @ [(rw_quote_depth r, ?s)]) = rw_text (r, out)"
      by (simp add: rw_text_def dtext_rstrip)
    from "1.hyps"(2) [OF 3(1) refl refl 3(2,3) o(1) refl o(2)] 1(5) w(1)
    show ?thesis using 3 o(1) t by (subst rewrap_loop.simps) (simp add: Let_def)
  next
    case 4
    have len: "w - 1 \<le> length s" using 4(2,3) word_len_le [of s] by (auto split: if_splits)
    have "length (take (w - 1) s @ [sp]) \<le> wrap_width r - 2" using w by simp
    note o = rewrap_out_ok [OF 1(4) this]
    have "dtext (rw_quote_depth r, s) = dtext (rw_quote_depth r, take (w - 1) s) @ dtext (rw_quote_depth r, drop (w - 1) s)"
      by (metis append_take_drop_id dtext_simps(3))
    then have t: "rw_text (r\<lparr>wrap_buf := []\<rparr>, out @ [(rw_quote_depth r, take (w - 1) s @ [sp])]) @ dtext (rw_quote_depth r, drop (w - 1) s) =
        rw_text (r, out) @ dtext (rw_quote_depth r, s)"
      using 4(3) by (simp add: rw_text_def)
    have nw: "\<not> (w \<le> 1 \<or> length s < w - 1)" using w(1) len by simp
    from "1.hyps"(3) [OF 4(1) refl refl 4(2) _ nw o(1) o(2)] 1(5) w(1) 4(3)
    show ?thesis using 4 o(1) t nw by (subst rewrap_loop.simps) (simp add: Let_def)
  qed
qed

text \<open>Between two lines: a buffer that is in use has room.\<close>

definition rw_inv :: "(nat \<times> char) list \<Rightarrow> rfc2646rewrap \<times> (nat \<times> string) list \<Rightarrow> bool" where
  "rw_inv t st \<longleftrightarrow> rw_ok st \<and>
     (if has_prev (fst st) then length (wrap_buf (fst st)) < rewrap_text_width (fst st) \<and> rw_text st = t
      else concat (map dtext (snd st)) = t)"

lemma rewrap_handler_ok:
  assumes "rw_inv t (r, out)"
  shows "\<exists>st. rfc2646rewrap_handler (depth, l, isflowed) (r, out) = Some st \<and> wrap_width (fst st) = wrap_width r \<and>
    rw_inv (t @ dtext (depth, l)) st"
proof -
  have ok: "rw_ok (r, out)" and width: "20 \<le> wrap_width r" using assms by (auto simp: rw_inv_def rw_ok_def)
  note tw = rewrap_text_width_bounds [OF width]
  define flushed where "flushed =
      (if has_prev r then
         if rw_quote_depth r \<noteq> depth then map_option (\<lambda>(r, out). (r\<lparr>has_prev := False\<rparr>, out)) (rewrap_out (wrap_buf r) (r, out))
         else if \<not> isflowed \<and> l = [] then
           map_option (\<lambda>(r, out). (r\<lparr>has_prev := False\<rparr>, out)) (rewrap_out (wrap_buf r @ [sp]) (r, out))
         else Some (r, out)
       else Some (r\<lparr>wrap_buf := []\<rparr>, out))"
  have "\<exists>r1 out1. flushed = Some (r1, out1) \<and> rw_ok (r1, out1) \<and> wrap_width r1 = wrap_width r \<and>
      (has_prev r1 \<longrightarrow> rw_quote_depth r1 = depth \<and> length (wrap_buf r1) < rewrap_text_width r1) \<and>
      (\<not> has_prev r1 \<longrightarrow> wrap_buf r1 = []) \<and> rw_text (r1, out1) = t"
  proof (cases "has_prev r")
    case False
    with assms show ?thesis by (auto simp: flushed_def rw_inv_def rw_ok_def rw_text_def)
  next
    case True
    then have b: "length (wrap_buf r) < rewrap_text_width r" "rw_text (r, out) = t" using assms by (auto simp: rw_inv_def)
    with tw have l: "length (wrap_buf r) \<le> wrap_width r - 2" "length (wrap_buf r @ [sp]) \<le> wrap_width r - 2" by simp_all
    note o1 = rewrap_out_ok [OF ok l(1)] and o2 = rewrap_out_ok [OF ok l(2)]
    show ?thesis
      using True b o1 o2 ok by (auto simp: flushed_def rw_text_def rw_ok_def)
  qed
  then obtain r1 out1 where r1: "flushed = Some (r1, out1)" "rw_ok (r1, out1)" "wrap_width r1 = wrap_width r"
    "has_prev r1 \<Longrightarrow> rw_quote_depth r1 = depth \<and> length (wrap_buf r1) < rewrap_text_width r1"
    "\<not> has_prev r1 \<Longrightarrow> wrap_buf r1 = []" "rw_text (r1, out1) = t"
    by blast
  let ?r = "r1\<lparr>rw_quote_depth := depth\<rparr>"
  have ok2: "rw_ok (?r, out1)" using r1(2) by (simp add: rw_ok_def)
  have w2: "20 \<le> wrap_width ?r" using width r1(3) by simp
  have text2: "rw_text (?r, out1) = t" using r1(4,5,6) by (cases "has_prev r1") (simp_all add: rw_text_def)
  have room: "length (wrap_buf ?r) < rewrap_text_width ?r"
  proof (cases "has_prev r1")
    case True
    with r1(4) have eq: "?r = r1" by simp
    show ?thesis unfolding eq using r1(4) True by blast
  next
    case False
    with r1(5) rewrap_text_width_bounds [OF w2] show ?thesis by simp
  qed
  have handler: "rfc2646rewrap_handler (depth, l, isflowed) (r, out) =
      (if \<not> has_prev r1 \<and> l = ''-- '' then rewrap_out ''-- '' (?r, out1)
       else case rewrap_loop (rewrap_text_width ?r) (has_prev r1) l (?r, out1) of
              None \<Rightarrow> None
            | Some (r, out) \<Rightarrow>
                let r = r\<lparr>has_prev := isflowed\<rparr> in if isflowed then Some (r, out) else rewrap_out (wrap_buf r) (r, out))"
    using r1(1) unfolding flushed_def by (auto simp: rfc2646rewrap_handler_def Let_def)
  show ?thesis
  proof (cases "\<not> has_prev r1 \<and> l = ''-- ''")
    case True
    have "length ''-- '' \<le> wrap_width ?r - 2" using w2 by simp
    note o = rewrap_out_ok [OF ok2 this]
    show ?thesis
      unfolding handler if_P [OF True] o(1)
      using o(2) text2 r1(3,5) True by (auto simp: rw_inv_def rw_text_def)
  next
    case False
    obtain b out2 where b: "rewrap_loop (rewrap_text_width ?r) (has_prev r1) l (?r, out1) = Some (?r\<lparr>wrap_buf := b\<rparr>, out2)"
      "length b < rewrap_text_width ?r" "rw_ok (?r\<lparr>wrap_buf := b\<rparr>, out2)" "rw_text (?r\<lparr>wrap_buf := b\<rparr>, out2) = t @ dtext (depth, l)"
      using rewrap_loop_ok [OF ok2 refl room, of "has_prev r1" l] text2 by auto
    let ?r2 = "?r\<lparr>wrap_buf := b, has_prev := isflowed\<rparr>"
    have ok3: "rw_ok (?r2, out2)" using b(3) by (simp add: rw_ok_def)
    have tw2: "rewrap_text_width ?r2 = rewrap_text_width ?r" by (simp add: rewrap_text_width_def)
    have h: "rfc2646rewrap_handler (depth, l, isflowed) (r, out) = (if isflowed then Some (?r2, out2) else rewrap_out b (?r2, out2))"
      unfolding handler if_not_P [OF False] b(1) by (simp add: Let_def)
    have "length b \<le> wrap_width ?r2 - 2" using b(2) rewrap_text_width_bounds [OF w2] by simp
    note o = rewrap_out_ok [OF ok3 this]
    show ?thesis
      unfolding h using o b(2,4) ok3 tw2 r1(3) by (cases isflowed) (auto simp: rw_inv_def rw_text_def)
  qed
qed

text \<open>
  C31. Flowed text is rewrapped to any width (at least 20) without writing past the buffer, whatever the lines and their quote
  depths are, and every line can be wrapped: the lines that come out have at most two bytes less than the width, and together they
  have the text of the original, in order and at its depth.
\<close>

theorem flow_rewrap_text:
  "\<exists>ls. flow_rewrap w fls = Some ls \<and> list_all (\<lambda>l. length (snd l) \<le> max w 20 - 2) ls \<and>
     concat (map dtext ls) = concat (map (\<lambda>(depth, l, isflowed). dtext (depth, l)) fls)"
proof -
  have "rw_inv t st \<Longrightarrow> \<exists>st'. rewrap_lines fls st = Some st' \<and> wrap_width (fst st') = wrap_width (fst st) \<and>
      rw_inv (t @ concat (map (\<lambda>(depth, l, isflowed). dtext (depth, l)) fls)) st'" for t st
  proof (induction fls arbitrary: t st)
    case (Cons fl fls)
    obtain depth l isflowed where fl: "fl = (depth, l, isflowed)" by (cases fl)
    obtain r out where st: "st = (r, out)" by (cases st)
    obtain st1 where "rfc2646rewrap_handler fl st = Some st1" "wrap_width (fst st1) = wrap_width r" "rw_inv (t @ dtext (depth, l)) st1"
      using rewrap_handler_ok [of t r out depth l isflowed] Cons.prems fl st by auto
    with Cons.IH [OF this(3)] fl st show ?case by simp
  qed simp
  moreover have "rw_inv [] (rfc2646rewrap_alloc w, [])"
    by (simp add: rw_inv_def rw_ok_def rfc2646rewrap_alloc_def)
  ultimately obtain r out where run: "rewrap_lines fls (rfc2646rewrap_alloc w, []) = Some (r, out)"
    "wrap_width r = max w 20" "rw_inv (concat (map (\<lambda>(depth, l, isflowed). dtext (depth, l)) fls)) (r, out)"
    by (fastforce simp: rfc2646rewrap_alloc_def max_def)
  show ?thesis
  proof (cases "has_prev r")
    case False
    with run show ?thesis by (auto simp: list_all_iff flow_rewrap_def rfc2646rewrap_free_def rw_inv_def rw_ok_def)
  next
    case True
    have ok: "rw_ok (r, out)" using run(3) by (simp add: rw_inv_def)
    have "length (wrap_buf r) \<le> wrap_width r - 2"
      using run(3) True rewrap_text_width_bounds [of r] ok by (simp add: rw_inv_def rw_ok_def)
    note o = rewrap_out_ok [OF ok this]
    show ?thesis
      using run True o by (auto simp: list_all_iff flow_rewrap_def rfc2646rewrap_free_def rw_inv_def rw_ok_def rw_text_def)
  qed
qed

subsection \<open>HTML has the text and balanced quotes\<close>

text \<open>A string of the output as text: tags have none, and what is no entity stands for itself.\<close>

definition html_tags :: "string list" where
  "html_tags = [blockquote, blockquote_end, ''<p>'', ''<br>'']"

definition html_plain :: "string \<Rightarrow> bool" where
  "html_plain s \<longleftrightarrow> set s \<inter> {CHR ''<'', CHR ''>''} = {}"

definition html_unescape :: "string \<Rightarrow> string" where
  "html_unescape s =
     (if s \<in> set html_tags then [] else if s = ''&amp;'' then ''&'' else if s = ''&lt;'' then ''<''
      else if s = ''&gt;'' then ''>'' else if s = ''&nbsp;'' then [sp] else s)"

definition visible :: "string \<Rightarrow> string" where
  "visible = filter (\<lambda>c. c \<notin> {sp, CHR 0x09, nl})"

lemma visible_simps [simp]:
  "visible [] = []" "visible (s @ t) = visible s @ visible t"
  "visible (c # s) = (if c = sp \<or> c = CHR 0x09 \<or> c = nl then [] else [c]) @ visible s"
  by (auto simp: visible_def)

lemma unescape_plain:
  assumes "set s \<inter> {CHR ''<'', CHR ''>'', CHR ''&''} = {}"
  shows "html_unescape s = s"
proof -
  have "list_all (\<lambda>x. CHR ''<'' \<in> set x \<or> CHR ''>'' \<in> set x \<or> CHR ''&'' \<in> set x) ([''&amp;'', ''&lt;'', ''&gt;'', ''&nbsp;''] @ html_tags)"
    by code_simp
  then have "s \<noteq> x" if "x \<in> set ([''&amp;'', ''&lt;'', ''&gt;'', ''&nbsp;''] @ html_tags)" for x
    using that assms unfolding list_all_iff by blast
  from this [of "''&amp;''"] this [of "''&lt;''"] this [of "''&gt;''"] this [of "''&nbsp;''"] this [of s]
  show ?thesis unfolding html_unescape_def by auto
qed

lemma plain_consts [simp]:
  "html_plain ''&amp;''" "html_plain ''&lt;''" "html_plain ''&gt;''" "html_plain ''&nbsp;''" "html_plain [nl]"
  by code_simp+

lemma unescape_consts:
  "html_unescape ''&amp;'' = ''&''" "html_unescape ''&lt;'' = ''<''" "html_unescape ''&gt;'' = ''>''" "html_unescape ''&nbsp;'' = [sp]"
  "html_unescape blockquote = []" "html_unescape blockquote_end = []" "html_unescape ''<p>'' = []" "html_unescape ''<br>'' = []"
  "html_unescape [nl] = [nl]"
  by code_simp+

lemma html_line_ok:
  "set pend \<inter> {CHR ''<'', CHR ''>'', CHR ''&''} = {} \<Longrightarrow>
   visible (concat (map html_unescape (html_line pend n str))) = visible (pend @ str) \<and> list_all html_plain (html_line pend n str)"
proof (induction pend n str rule: html_line.induct)
  case (1 pend colcnt)
  then show ?case by (auto simp: pending_def unescape_plain unescape_consts html_plain_def)
next
  case (2 pend colcnt c str)
  have pend: "visible (concat (map html_unescape (pending pend))) = visible pend" "list_all html_plain (pending pend)"
    using 2(7) by (auto simp: pending_def unescape_plain html_plain_def)
  have nbsp: "visible (concat (map html_unescape (replicate k ''&nbsp;''))) = []" "list_all html_plain (replicate k ''&nbsp;'')" for k
    by (induction k) (simp_all add: unescape_consts)
  have empty: "set ([] :: string) \<inter> {CHR ''<'', CHR ''>'', CHR ''&''} = {}" by simp
  consider "c = CHR ''&''" | "c = CHR ''<''" | "c = CHR ''>''"
    | "c \<notin> {CHR ''&'', CHR ''<'', CHR ''>''}" "c = sp \<and> (take 1 str = [sp] \<or> take 1 str = [CHR 0x09])"
    | "c \<notin> {CHR ''&'', CHR ''<'', CHR ''>''}" "\<not> (c = sp \<and> (take 1 str = [sp] \<or> take 1 str = [CHR 0x09]))" "c = CHR 0x09"
    | "c \<notin> {CHR ''&'', CHR ''<'', CHR ''>''}" "\<not> (c = sp \<and> (take 1 str = [sp] \<or> take 1 str = [CHR 0x09]))" "c \<noteq> CHR 0x09"
    by blast
  then show ?case
  proof cases
    case 1
    with 2(1) [OF 1 empty] pend show ?thesis by (simp add: unescape_consts)
  next
    case c: 2
    with 2(2) [OF _ c empty] pend show ?thesis by (simp add: unescape_consts)
  next
    case 3
    with 2(3) [OF _ _ 3 empty] pend show ?thesis by (simp add: unescape_consts)
  next
    case 4
    with 2(4) [OF _ _ _ 4(2) empty] pend show ?thesis by (simp add: unescape_consts)
  next
    case 5
    with 2(5) [OF _ _ _ 5(2,3) refl refl empty] pend nbsp show ?thesis by (simp add: Let_def)
  next
    case 6
    then have "html_line pend colcnt (c # str) = html_line (pend @ [c]) colcnt str" by auto
    with 6 2(6) [OF _ _ _ 6(2,3)] 2(7) show ?thesis by (simp del: html_line.simps)
  qed
qed

definition html_inv :: "string \<Rightarrow> rfc2646tohtml \<times> string list \<Rightarrow> bool" where
  "html_inv t st \<longleftrightarrow>
     list_all (\<lambda>s. s \<in> set html_tags \<or> html_plain s) (snd st) \<and>
     count_list (snd st) blockquote = count_list (snd st) blockquote_end + html_quote_depth (fst st) \<and>
     visible (concat (map html_unescape (snd st))) = visible t"

lemma blockquote_ne [simp]: "blockquote \<noteq> blockquote_end" "blockquote_end \<noteq> blockquote"
  by (simp_all add: blockquote_def blockquote_end_def)

lemma html_inv_end: "html_inv t st \<Longrightarrow> 0 < html_quote_depth (fst st) \<Longrightarrow> html_inv t (endquote st)"
  by (cases st) (auto simp: html_inv_def endquote_def unescape_consts html_tags_def)

lemma html_inv_open: "html_inv t st \<Longrightarrow> html_inv t (openquote st)"
  by (cases st) (auto simp: html_inv_def openquote_def unescape_consts html_tags_def)

lemma html_inv_ends: "html_inv t st \<Longrightarrow> n \<le> html_quote_depth (fst st) \<Longrightarrow>
    html_inv t ((endquote ^^ n) st) \<and> html_quote_depth (fst ((endquote ^^ n) st)) = html_quote_depth (fst st) - n"
proof (induction n)
  case (Suc n)
  then have "html_inv t ((endquote ^^ n) st)" "html_quote_depth (fst ((endquote ^^ n) st)) = html_quote_depth (fst st) - n" by simp_all
  moreover have "html_quote_depth (fst (endquote s)) = html_quote_depth (fst s) - 1" for s by (cases s) (simp add: endquote_def)
  ultimately show ?case using Suc.prems(2) html_inv_end [of t "(endquote ^^ n) st"] by simp
qed simp

lemma html_inv_opens: "html_inv t st \<Longrightarrow> html_inv t ((openquote ^^ n) st)"
  by (induction n) (simp_all add: html_inv_open)

lemma count_plain: "list_all html_plain xs \<Longrightarrow> count_list xs blockquote = 0 \<and> count_list xs blockquote_end = 0"
  by (induction xs) (auto simp: html_plain_def blockquote_def blockquote_end_def)

lemma html_inv_handler:
  assumes "html_inv t (r, out)"
  shows "html_inv (t @ takeWhile (\<lambda>c. c \<noteq> nul) str) (rfc2646tohtml_handler (depth, str, isflowed) (r, out))"
proof -
  let ?str = "takeWhile (\<lambda>c. c \<noteq> nul) str"
  define st1 where "st1 = (endquote ^^ (html_quote_depth r - depth)) (r, out)"
  define st2 where "st2 = (openquote ^^ (depth - html_quote_depth (fst st1))) st1"
  have "html_inv t st1" using html_inv_ends [OF assms, of "html_quote_depth r - depth"] by (simp add: st1_def)
  then have inv: "html_inv t st2" unfolding st2_def by (rule html_inv_opens)
  obtain r2 out2 where st2: "st2 = (r2, out2)" by (cases st2)
  let ?br = "if html_was_flowed r2 then [] else [if prev_was_0length r2 then ''<p>'' else ''<br>'']"
  have h: "rfc2646tohtml_handler (depth, str, isflowed) (r, out) =
      (r2\<lparr>html_was_flowed := isflowed, prev_was_0length := (?str = [])\<rparr>, (out2 @ ?br) @ html_line [] 0 ?str)"
    using st2 unfolding st2_def st1_def by (simp add: rfc2646tohtml_handler_def Let_def)
  have "list_all (\<lambda>s. s \<in> set html_tags) ?br" "concat (map html_unescape ?br) = []"
    "count_list ?br blockquote = 0" "count_list ?br blockquote_end = 0"
    by (auto simp: html_tags_def unescape_consts blockquote_def blockquote_end_def)
  moreover have line: "visible (concat (map html_unescape (html_line [] 0 ?str))) = visible ?str" "list_all html_plain (html_line [] 0 ?str)"
    using html_line_ok [of "[]" 0 ?str] by simp_all
  ultimately show ?thesis
    using inv count_plain [OF line(2)] unfolding h st2 html_inv_def
    by (auto simp: list_all_iff)
qed

text \<open>
  C32. Flowed text becomes HTML in which no part of the text is taken for a tag: every string passed on is one of the tags
  the code writes or has no angle brackets; there are as many ends of quotes as quotes; and, entities read as the characters they stand
  for, the visible text is that of the lines (up to a NUL in them), in order.
\<close>

theorem flow_html_safe:
  "list_all (\<lambda>s. s \<in> set html_tags \<or> html_plain s) (flow_html fls) \<and>
   count_list (flow_html fls) blockquote = count_list (flow_html fls) blockquote_end \<and>
   visible (concat (map html_unescape (flow_html fls))) = visible (concat (map (\<lambda>(depth, l, isflowed). takeWhile (\<lambda>c. c \<noteq> nul) l) fls))"
proof -
  have "html_inv t st \<Longrightarrow> html_inv (t @ concat (map (\<lambda>(depth, l, isflowed). takeWhile (\<lambda>c. c \<noteq> nul) l) fls)) (fold rfc2646tohtml_handler fls st)" for t st
  proof (induction fls arbitrary: t st)
    case (Cons fl fls)
    obtain depth l isflowed where fl: "fl = (depth, l, isflowed)" by (cases fl)
    obtain r out where st: "st = (r, out)" by (cases st)
    from Cons.IH [OF html_inv_handler [of t r out l depth isflowed]] Cons.prems fl st show ?case by simp
  qed simp
  moreover have "html_inv [] (rfc2646tohtml_alloc, [])" by (simp add: html_inv_def rfc2646tohtml_alloc_def)
  ultimately have inv: "html_inv (concat (map (\<lambda>(depth, l, isflowed). takeWhile (\<lambda>c. c \<noteq> nul) l) fls))
      (fold rfc2646tohtml_handler fls (rfc2646tohtml_alloc, []))"
    by fastforce
  from html_inv_ends [OF this, of "html_quote_depth (fst (fold rfc2646tohtml_handler fls (rfc2646tohtml_alloc, [])))"]
  show ?thesis by (simp add: flow_html_def rfc2646tohtml_free_def html_inv_def)
qed

end
