(* ===== verification/Rfc2047.thy ===== *)
theory Rfc2047
  imports Rfc822_Addr_Print Charset
begin

text \<open>
  Encoded words of headers (\<^verbatim>\<open>rfc822/rfc2047.c\<close>, \<^verbatim>\<open>rfc2047u.c\<close>). Decoding calls back with pieces of text; here they are a list,
  each with its character set and language when it comes from an encoded word. The encoder writes its output through a
  callback that succeeds; its loop over the bytes of a run ends only when the name of the character set leaves room in a
  word, so it is a partial function, whose \<open>None\<close> is an endless loop.
\<close>

subsection \<open>Decoding\<close>

definition rfc2047_search_quote :: "string \<Rightarrow> string \<times> string" where
  "rfc2047_search_quote p = (takeWhile (\<lambda>c. c \<noteq> CHR ''?'') p, dropWhile (\<lambda>c. c \<noteq> CHR ''?'') p)"

definition word_xdigit :: string where "word_xdigit = ''0123456789ABCDEF''"

definition word_nyb :: "char \<Rightarrow> nat" where
  "word_nyb c =
     (let n = length (takeWhile (\<lambda>d. d \<noteq> toupper c) word_xdigit) in if n = length word_xdigit then 0 else n)"

definition word_64 :: string where
  "word_64 = ''ABCDEFGHIJKLMNOPQRSTUVWXYZabcdefghijklmnopqrstuvwxyz0123456789+/''"

definition word64tab :: "char \<Rightarrow> nat" where
  "word64tab c =
     (if c = CHR ''='' then 99
      else let n = length (takeWhile (\<lambda>d. d \<noteq> c) word_64) in if n = length word_64 then 0 else n)"

fun decodebase64 :: "string \<Rightarrow> string" where
  "decodebase64 (p0 # p1 # p2 # p3 # q) =
     (let w = word64tab p0; x = word64tab p1; y = word64tab p2; z = word64tab p3
      in char_of (push_bit 2 w OR drop_bit 4 x)
         # (if p2 \<noteq> CHR ''='' then [char_of (push_bit 4 x OR drop_bit 2 y)] else [])
         @ (if p3 \<noteq> CHR ''='' then [char_of (push_bit 6 y OR z)] else [])
         @ decodebase64 q)"
| "decodebase64 _ = []"

fun decode_q :: "string \<Rightarrow> string" where
  "decode_q [] = []"
| "decode_q (c # q) =
     (if c = CHR ''='' then
        (case q of
           a # b # r \<Rightarrow> char_of (word_nyb a * 16 + word_nyb b) # decode_q r
         | _ \<Rightarrow> c # decode_q q)
      else (if c = CHR ''_'' then sp else c) # decode_q q)"

text \<open>The text of a word as a C string, its character set and its language.\<close>

definition decode_enctext :: "string \<Rightarrow> string \<Rightarrow> string" where
  "decode_enctext encoding enctext =
     takeWhile (\<lambda>c. c \<noteq> nul)
       (if encoding = ''Q'' \<or> encoding = ''q'' then decode_q enctext
        else if encoding = ''B'' \<or> encoding = ''b'' then decodebase64 enctext
        else enctext)"

definition split_lang :: "string \<Rightarrow> string \<times> string option" where
  "split_lang cset =
     (if CHR ''*'' \<in> set cset
      then (butlast (rev (dropWhile (\<lambda>c. c \<noteq> CHR ''*'') (rev cset))), Some (rev (takeWhile (\<lambda>c. c \<noteq> CHR ''*'') (rev cset))))
      else (cset, None))"

type_synonym word_piece = "string \<times> (string \<times> string option) option"

definition decode_word :: "string \<Rightarrow> word_piece \<times> string" where
  "decode_word txt =
     (let (cset, txt) = rfc2047_search_quote txt; (encoding, txt) = rfc2047_search_quote (drop 1 txt);
          (enctext, txt) = rfc2047_search_quote (drop 1 txt)
      in ((decode_enctext encoding enctext, Some (split_lang cset)), if take 2 txt = ''?='' then drop 2 txt else txt))"

fun plain_span :: "string \<Rightarrow> string \<times> string" where
  "plain_span [] = ([], [])"
| "plain_span (c # s) =
     (if c = CHR ''='' \<and> take 1 s = ''?'' then ([], c # s) else (case plain_span s of (p, r) \<Rightarrow> (c # p, r)))"

lemma plain_span_append: "fst (plain_span s) @ snd (plain_span s) = s"
  by (induction s rule: plain_span.induct) (auto split: prod.splits)

lemma search_quote_length: "length (snd (rfc2047_search_quote p)) \<le> length p"
  by (simp add: rfc2047_search_quote_def length_dropWhile_le)

lemma decode_word_length: "length (snd (decode_word txt')) \<le> length txt'"
proof -
  define a where "a = snd (rfc2047_search_quote txt')"
  define b where "b = snd (rfc2047_search_quote (drop 1 a))"
  define r where "r = snd (rfc2047_search_quote (drop 1 b))"
  have "length r \<le> length (drop 1 b)" "length b \<le> length (drop 1 a)" "length a \<le> length txt'"
    unfolding a_def b_def r_def by (rule search_quote_length)+
  then have "length r \<le> length txt'" by simp
  moreover have "snd (decode_word txt') = (if take 2 r = ''?='' then drop 2 r else r)"
    by (simp add: decode_word_def Let_def case_prod_unfold a_def b_def r_def)
  ultimately show ?thesis by auto
qed

function rfc2047_decode :: "bool \<Rightarrow> string \<Rightarrow> word_piece list" where
  "rfc2047_decode had_last_word [] = []"
| "rfc2047_decode had_last_word (c # s) =
     (if c = CHR ''='' \<and> take 1 s = ''?'' then
        (case decode_word (drop 1 s) of (w, r) \<Rightarrow> w # rfc2047_decode True r)
      else
        (case plain_span (c # s) of
           (p, r) \<Rightarrow>
             let had = (had_last_word \<and> list_all isspace p)
             in (if had then [] else [(p, None)]) @ rfc2047_decode had r))"
  by pat_completeness auto
termination
proof (relation "measure (\<lambda>(h, s). length s)"; clarsimp)
  fix s :: string and w r
  assume "(w, r) = decode_word (drop (Suc 0) s)"
  then show "length r < Suc (length s)"
    using decode_word_length [of "drop (Suc 0) s"] by (metis diff_le_self le_imp_less_Suc le_trans length_drop snd_conv)
next
  fix c :: char and s p r :: string
  assume a: "c = CHR ''='' \<longrightarrow> take (Suc 0) s \<noteq> ''?''"
    and "(p, r) = (if c = CHR ''='' \<and> take (Suc 0) s = ''?'' then ([], c # s) else case plain_span s of (p, r) \<Rightarrow> (c # p, r))"
  then have "r = snd (plain_span s)" by (auto split: prod.splits)
  then show "length r < Suc (length s)"
    using arg_cong [where f = length, OF plain_span_append [of s]] by simp
qed

declare rfc2047_decode.simps(2) [simp del] plain_span.simps(2) [simp del]

text \<open>Without the character sets; with the ones that are not the reader's in brackets.\<close>

definition rfc2047_decode_simple :: "string \<Rightarrow> string" where
  "rfc2047_decode_simple txt = concat (map fst (rfc2047_decode False txt))"

definition do_enhanced :: "string option \<Rightarrow> word_piece \<Rightarrow> string" where
  "do_enhanced mychset = (\<lambda>(txt, cset).
     (case cset of
        None \<Rightarrow> []
      | Some (c, lang) \<Rightarrow>
          if mychset \<noteq> None \<and> map tolower c = map tolower (the mychset) then []
          else '' ['' @ c @ (case lang of None \<Rightarrow> [] | Some l \<Rightarrow> ''*'' @ l) @ ''] '') @ txt)"

definition rfc2047_decode_enhanced :: "string \<Rightarrow> string option \<Rightarrow> string" where
  "rfc2047_decode_enhanced txt mychset = concat (map (do_enhanced mychset) (rfc2047_decode False txt))"

definition rfc2047_print :: "string \<Rightarrow> rfc822addr list \<Rightarrow> string option \<Rightarrow> pcall list" where
  "rfc2047_print buf a cset = rfc822_print_common buf (Some (\<lambda>s. Some (rfc2047_decode_enhanced s cset))) a"

text \<open>
  To one character set. The options of the caller do not count: \<open>rfc2047_decode_unicode\<close> stores 0. A piece that cannot be
  converted is passed on with its character set in brackets.
\<close>

definition save_unicode :: "unicode_info \<Rightarrow> (string \<times> unicode_info) list \<Rightarrow> unicode_info \<Rightarrow> word_piece \<Rightarrow> string" where
  "save_unicode iso88591 unicode_chsetlist mychset = (\<lambda>(txt, cset).
     let c = (case cset of None \<Rightarrow> chset iso88591 | Some (c, _) \<Rightarrow> c)
     in case unicode_convert_fromchset iso88591 unicode_chsetlist txt (Some c) mychset of
          Some s \<Rightarrow> s
        | None \<Rightarrow> '' ['' @ c @ ''] '' @ txt)"

definition rfc2047_decode_unicode ::
    "unicode_info \<Rightarrow> (string \<times> unicode_info) list \<Rightarrow> string \<Rightarrow> unicode_info \<Rightarrow> string" where
  "rfc2047_decode_unicode iso88591 unicode_chsetlist txt mychset =
     concat (map (save_unicode iso88591 unicode_chsetlist mychset) (rfc2047_decode False txt))"

subsection \<open>Encoding\<close>

definition doencode :: "char \<Rightarrow> bool" where
  "doencode c \<longleftrightarrow> 128 \<le> code c \<or> c = dquote \<or> c = CHR ''=''"

text \<open>The text before the first word with a character to encode.\<close>

definition encode_prefix :: "string \<Rightarrow> string" where
  "encode_prefix str = rev (dropWhile (\<lambda>c. \<not> isspace c) (rev (takeWhile (\<lambda>c. \<not> doencode c) str)))"

text \<open>How far a run of consecutive words to encode goes.\<close>

function encode_run :: "string \<Rightarrow> nat" where
  "encode_run str =
     (let i = length (takeWhile (\<lambda>c. \<not> isspace c) str);
          c = i + length (takeWhile isspace (drop i str));
          d = c + length (takeWhile (\<lambda>c. \<not> isspace c \<and> \<not> doencode c) (drop c str))
      in if length str \<le> d \<or> isspace (str ! d) then i else d + encode_run (drop d str))"
  by pat_completeness auto
termination
proof (relation "measure length")
  fix str :: string and i c d
  assume i: "i = length (takeWhile (\<lambda>c. \<not> isspace c) str)" and c: "c = i + length (takeWhile isspace (drop i str))"
    and d: "d = c + length (takeWhile (\<lambda>c. \<not> isspace c \<and> \<not> doencode c) (drop c str))"
    and r: "\<not> (length str \<le> d \<or> isspace (str ! d))"
  have "d \<noteq> 0"
  proof
    assume "d = 0"
    with c d have z: "i = 0" "c = 0" by linarith+
    from c z have "takeWhile isspace (drop i str) = []" by (metis add_0 length_0_conv)
    with z have "takeWhile isspace str = []" by simp
    moreover from i z have "takeWhile (\<lambda>c. \<not> isspace c) str = []" by simp
    ultimately show False using r by (cases str) (auto split: if_splits)
  qed
  with r show "(drop d str, str) \<in> measure length" by auto
qed simp

declare encode_run.simps [simp del]

definition q_encoded :: "char \<Rightarrow> bool" where
  "q_encoded c \<longleftrightarrow> 128 \<le> code c \<or> c \<in> {dquote, sp, CHR ''_'', CHR ''='', CHR ''?''}"

definition encode_char :: "char \<Rightarrow> string" where
  "encode_char c =
     (if c = sp then ''_'' else [CHR ''='', word_xdigit ! (code c div 16), word_xdigit ! (code c mod 16)])"

text \<open>The words of a run: \<open>c\<close> bytes of the current word were written, none of a new one.\<close>

partial_function (option) encode_words :: "string \<Rightarrow> nat \<Rightarrow> string \<Rightarrow> string option" where
  "encode_words cset c str =
     (if str = [] then Some []
      else
        let start = (if c = 0 then ''=?'' @ cset @ ''?Q?'' else []);
            c = (if c = 0 then length cset + 5 else c);
            j = min (length (takeWhile (\<lambda>c. \<not> q_encoded c) str)) (50 - c);
            out = (if q_encoded (hd str) then encode_char (hd str) else take j str);
            c = c + length out;
            str = (if q_encoded (hd str) then tl str else drop j str);
            final = (if str = [] then ''?='' else if 50 \<le> c then ''?= '' else [])
        in Option.bind (encode_words cset (if str = [] \<or> 50 \<le> c then 0 else c) str) (\<lambda>r. Some (start @ out @ final @ r)))"

partial_function (option) rfc2047_encode_callback :: "string \<Rightarrow> string \<Rightarrow> string option" where
  "rfc2047_encode_callback cset str =
     (if list_all (\<lambda>c. \<not> doencode c) str then Some str
      else
        let p = encode_prefix str; str = drop (length p) str; i = encode_run str
        in Option.bind (encode_words cset 0 (take i str))
             (\<lambda>w. Option.bind (rfc2047_encode_callback cset (drop i str)) (\<lambda>r. Some (p @ w @ r))))"

definition rfc2047_encode_str :: "string \<Rightarrow> string \<Rightarrow> string option" where
  "rfc2047_encode_str str cset = rfc2047_encode_callback cset str"

text \<open>A name in quotes or a comment. A name that is one quote alone has no inside: \<open>None\<close>.\<close>

definition a_rfc2047_encode_str :: "string \<Rightarrow> string \<Rightarrow> string option" where
  "a_rfc2047_encode_str cset str =
     (if str = [] then Some []
      else if hd str = dquote \<and> last str = dquote \<or> hd str = CHR ''('' \<and> last str = CHR '')'' then
        if length str < 2 then None
        else map_option (\<lambda>s. hd str # s @ [last str]) (rfc2047_encode_str (butlast (tl str)) cset)
      else rfc2047_encode_str str cset)"

definition encode_header_sep :: "pcall \<Rightarrow> pcall" where
  "encode_header_sep c = (if c = PSep '', '' then PSep ('','' @ [nl] @ ''  '') else c)"

definition rfc2047_encode_header :: "string \<Rightarrow> rfc822addr list \<Rightarrow> string \<Rightarrow> string option" where
  "rfc2047_encode_header buf a cset =
     (if list_all (\<lambda>x. atokens x = [] \<or> aname x = [] \<or> a_rfc2047_encode_str cset (rfc822_gettok buf (aname x)) \<noteq> None) a
      then Some (saveaddrs (map encode_header_sep (rfc822_print_common buf (Some (a_rfc2047_encode_str cset)) a)))
      else None)"

subsection \<open>Decoding gives back what was encoded\<close>

definition encode_q :: "string \<Rightarrow> string" where
  "encode_q t = concat (map (\<lambda>c. if q_encoded c then encode_char c else [c]) t)"

definition texts :: "bool \<Rightarrow> string \<Rightarrow> string" where
  "texts h s = concat (map fst (rfc2047_decode h s))"

lemma encode_q_simps: "encode_q [] = []" "encode_q (s @ t) = encode_q s @ encode_q t"
  "encode_q [c] = (if q_encoded c then encode_char c else [c])"
  by (simp_all add: encode_q_def)

lemma encode_q_plain: "list_all (\<lambda>c. \<not> q_encoded c) t \<Longrightarrow> encode_q t = t"
  by (induction t) (simp_all add: encode_q_def)

lemma word_nyb_digit: "n < 16 \<Longrightarrow> word_nyb (word_xdigit ! n) = n"
proof -
  have "list_all (\<lambda>n. word_nyb (word_xdigit ! n) = n) [0..<16]" by code_simp
  then show "n < 16 \<Longrightarrow> ?thesis" by (simp add: list_all_iff)
qed

lemma word_digit: "n < 16 \<Longrightarrow> word_xdigit ! n \<noteq> CHR ''?'' \<and> code (word_xdigit ! n) < 128"
proof -
  have "list_all (\<lambda>n. word_xdigit ! n \<noteq> CHR ''?'' \<and> code (word_xdigit ! n) < 128) [0..<16]" by code_simp
  then show "n < 16 \<Longrightarrow> ?thesis" by (simp add: list_all_iff)
qed

lemma code_nibbles: "code c div 16 < 16" "code c mod 16 < 16"
  by (rule less_mult_imp_div_less) (use code_less_256 [of c] in simp_all)

lemma decode_encode_q: "decode_q (encode_q t) = t"
proof (induction t)
  case (Cons c t)
  have e: "encode_q (c # t) = (if q_encoded c then encode_char c else [c]) @ encode_q t" by (simp add: encode_q_def)
  show ?case
  proof (cases "q_encoded c \<and> c \<noteq> sp")
    case True
    then show ?thesis using code_nibbles [of c] Cons
      unfolding e by (simp add: encode_char_def word_nyb_digit)
  next
    case False
    then show ?thesis using Cons unfolding e by (auto simp: encode_char_def q_encoded_def)
  qed
qed (simp add: encode_q_def)

lemma encode_q_chars: "list_all (\<lambda>c. c \<noteq> CHR ''?'' \<and> code c < 128) (encode_q t)"
proof (induction t)
  case (Cons c t)
  have "list_all (\<lambda>c. c \<noteq> CHR ''?'' \<and> code c < 128) (if q_encoded c then encode_char c else [c])"
    using word_digit [OF code_nibbles(1) [of c]] word_digit [OF code_nibbles(2) [of c]]
    by (auto simp: encode_char_def q_encoded_def)
  with Cons show ?case by (simp add: encode_q_def)
qed (simp add: encode_q_def)

lemma search_quote_at: "CHR ''?'' \<notin> set p \<Longrightarrow> rfc2047_search_quote (p @ CHR ''?'' # r) = (p, CHR ''?'' # r)"
  by (induction p) (auto simp: rfc2047_search_quote_def)

text \<open>An encoded word that is closed.\<close>

definition word_start :: "string \<Rightarrow> string" where
  "word_start cset = ''=?'' @ cset @ ''?Q?''"

lemma texts_word:
  assumes "CHR ''?'' \<notin> set cset" "cstring t"
  shows "texts h (word_start cset @ encode_q t @ ''?='' @ rest) = t @ texts True rest"
proof -
  have q: "CHR ''?'' \<notin> set (encode_q t)" using encode_q_chars [of t] by (auto simp: list_all_iff)
  have "takeWhile (\<lambda>c. c \<noteq> nul) t = t" using assms(2) by (auto simp: cstring_def takeWhile_eq_all_conv)
  then have "decode_word (cset @ ''?Q?'' @ encode_q t @ ''?='' @ rest) = ((t, Some (split_lang cset)), rest)"
    using search_quote_at [OF assms(1)] search_quote_at [of "''Q''"] search_quote_at [OF q]
    by (simp add: decode_word_def decode_enctext_def decode_encode_q)
  then show ?thesis by (simp add: texts_def word_start_def rfc2047_decode.simps(2))
qed

lemma plain_span_text:
  assumes "CHR ''='' \<notin> set p" "r = [] \<or> take 2 r = ''=?''"
  shows "plain_span (p @ r) = (p, r)"
  using assms
proof (induction p)
  case Nil
  then show ?case by (cases r) (auto simp: plain_span.simps(2))
qed (auto simp: plain_span.simps(2))

lemma texts_plain:
  assumes "CHR ''='' \<notin> set p" "r = [] \<or> take 2 r = ''=?''" "p \<noteq> []"
  shows "texts h (p @ r) = (if h \<and> list_all isspace p then texts True r else p @ texts False r)"
proof -
  obtain c q where p: "p = c # q" using assms(3) by (cases p) auto
  then have "plain_span (c # q @ r) = (c # q, r)" "c \<noteq> CHR ''=''"
    using assms(1) plain_span_text [OF assms(1,2)] by auto
  then show ?thesis unfolding p texts_def by (auto simp: rfc2047_decode.simps(2) Let_def)
qed

text \<open>The words of a run. In the middle of a word, \<open>t\<close> is the text it has so far.\<close>

lemma texts_blank: "take 2 r = ''=?'' \<Longrightarrow> texts True (sp # r) = texts True r"
  using texts_plain [of "[sp]" r True] by (simp add: isspace_def)

abbreviation bytes7 :: "string \<Rightarrow> bool" where "bytes7 \<equiv> list_all (\<lambda>c. code c < 128)"

lemma bytes7_encode: "bytes7 (encode_q t)"
  using encode_q_chars [of t] by (auto simp: list_all_iff)

lemma encode_words_step:
  assumes "length cset < 45" "str \<noteq> []" "c < 50"
  obtains k n where "1 \<le> k" "k \<le> length str" "n \<noteq> 0"
    "encode_words cset c str = map_option
       (\<lambda>r. (if c = 0 then word_start cset else []) @ encode_q (take k str)
          @ (if drop k str = [] then ''?='' else if 50 \<le> n then ''?= '' else []) @ r)
       (encode_words cset (if drop k str = [] \<or> 50 \<le> n then 0 else n) (drop k str))"
proof -
  define c0 where "c0 = (if c = 0 then length cset + 5 else c)"
  define j where "j = min (length (takeWhile (\<lambda>c. \<not> q_encoded c) str)) (50 - c0)"
  define k where "k = (if q_encoded (hd str) then 1 else j)"
  define out where "out = encode_q (take k str)"
  have c0: "c0 < 50" using assms by (simp add: c0_def)
  obtain a q where str: "str = a # q" using assms(2) by (cases str) auto
  have "length (takeWhile (\<lambda>c. \<not> q_encoded c) q) \<le> length q" by (rule length_takeWhile_le)
  then have "\<not> q_encoded a \<Longrightarrow> 1 \<le> j \<and> j \<le> length str" using c0 unfolding j_def str by (simp add: min_def) linarith
  then have k: "1 \<le> k" "k \<le> length str" by (simp_all add: k_def str)
  have "take j str = take j (takeWhile (\<lambda>c. \<not> q_encoded c) str)"
    by (subst takeWhile_eq_take) (simp add: j_def)
  then have "encode_q (take j str) = take j str"
    by (auto simp: list_all_iff intro!: encode_q_plain dest!: in_set_takeD set_takeWhileD)
  then have out': "out = (if q_encoded (hd str) then encode_char (hd str) else take j str)"
    by (simp add: out_def k_def str encode_q_simps(3))
  have str': "(if q_encoded (hd str) then tl str else drop j str) = drop k str" by (simp add: k_def str)
  define start where "start = (if c = 0 then word_start cset else [])"
  define final where "final = (if drop k str = [] then ''?='' else if 50 \<le> c0 + length out then ''?= '' else [])"
  define c1 where "c1 = (if drop k str = [] \<or> 50 \<le> c0 + length out then 0 else c0 + length out)"
  have "encode_words cset c str = Option.bind (encode_words cset c1 (drop k str)) (\<lambda>r. Some (start @ out @ final @ r))"
    by (subst encode_words.simps) (simp only: Let_def assms(2) if_False c0_def [symmetric] j_def [symmetric] out' [symmetric] str'
        start_def word_start_def final_def c1_def)
  then have "encode_words cset c str = map_option (\<lambda>r. start @ out @ final @ r) (encode_words cset c1 (drop k str))"
    by (cases "encode_words cset c1 (drop k str)") simp_all
  moreover have "c0 + length out \<noteq> 0" by (simp add: c0_def)
  ultimately show thesis using that [OF k] by (simp only: start_def out_def final_def c1_def)
qed

lemma encode_words_decode:
  assumes "CHR ''?'' \<notin> set cset" "length cset < 45"
  shows "str \<noteq> [] \<Longrightarrow> cstring (t @ str) \<Longrightarrow> c < 50 \<Longrightarrow> (c = 0 \<longrightarrow> t = []) \<Longrightarrow>
    \<exists>w. encode_words cset c str = Some w \<and> (c = 0 \<longrightarrow> take 2 w = ''=?'') \<and> (bytes7 cset \<longrightarrow> bytes7 w) \<and>
      (\<forall>h rest. texts h ((if c = 0 then [] else word_start cset @ encode_q t) @ w @ rest) = t @ str @ texts True rest)"
proof (induction "length str" arbitrary: c str t rule: less_induct)
  case less
  obtain k n where k: "1 \<le> k" "k \<le> length str" "n \<noteq> 0" and step: "encode_words cset c str = map_option
       (\<lambda>r. (if c = 0 then word_start cset else []) @ encode_q (take k str)
          @ (if drop k str = [] then ''?='' else if 50 \<le> n then ''?= '' else []) @ r)
       (encode_words cset (if drop k str = [] \<or> 50 \<le> n then 0 else n) (drop k str))"
    using encode_words_step [OF assms(2) less.prems(1,3)] .
  let ?open = "if c = 0 then [] else word_start cset @ encode_q t" and ?start = "if c = 0 then word_start cset else []"
  have eq: "?open @ (?start @ encode_q (take k str) @ u) @ rest = word_start cset @ encode_q (t @ take k str) @ u @ rest" for u rest
    using less.prems(4) by (simp add: encode_q_simps)
  have cs: "cstring (t @ take k str)" "cstring (drop k str)"
    using less.prems(2) by (auto simp: cstring_def dest: in_set_takeD in_set_dropD)
  have w0: "take 2 (word_start cset) = ''=?''" "2 \<le> length (word_start cset)" "bytes7 cset \<Longrightarrow> bytes7 (word_start cset)"
    by (simp_all add: word_start_def)
  show ?case
  proof (cases "drop k str = []")
    case True
    then have "encode_words cset c str = Some (?start @ encode_q (take k str) @ ''?='')"
      using step by (simp add: encode_words.simps [of cset 0 "[]"])
    moreover have "texts h (?open @ (?start @ encode_q (take k str) @ ''?='') @ rest) = t @ str @ texts True rest" for h rest
      using texts_word [OF assms(1) cs(1), of h rest] True unfolding eq by simp
    ultimately show ?thesis using w0 bytes7_encode by auto
  next
    case False
    have len: "length (drop k str) < length str" using k less.prems(1) by simp
    show ?thesis
    proof (cases "50 \<le> n")
      case True
      from less.hyps [OF len False, of "[]" 0] cs(2) obtain w where
        w: "encode_words cset 0 (drop k str) = Some w" "take 2 w = ''=?''" "bytes7 cset \<longrightarrow> bytes7 w"
          "\<And>h rest. texts h (w @ rest) = drop k str @ texts True rest" by auto
      have "texts h (?open @ (?start @ encode_q (take k str) @ ''?='' @ sp # w) @ rest) = t @ str @ texts True rest" for h rest
      proof -
        have "take 2 (w @ rest) = ''=?''" using w(2) by (cases w; cases "tl w") auto
        from texts_word [OF assms(1) cs(1), of h "sp # w @ rest"] texts_blank [OF this] w(4) [of True rest]
        show ?thesis unfolding eq by simp
      qed
      with step w True False w0 bytes7_encode show ?thesis by auto
    next
      case short: False
      with less.hyps [OF len False, of "t @ take k str" n] less.prems(2) k(3) obtain w where
        w: "encode_words cset n (drop k str) = Some w" "bytes7 cset \<longrightarrow> bytes7 w"
          "\<And>h rest. texts h (word_start cset @ encode_q (t @ take k str) @ w @ rest) = t @ str @ texts True rest" by auto
      have "texts h (?open @ (?start @ encode_q (take k str) @ w) @ rest) = t @ str @ texts True rest" for h rest
        using w(3) [of h rest] unfolding eq by simp
      with step w(1,2) short False w0 bytes7_encode show ?thesis by auto
    qed
  qed
qed

text \<open>After a run there is nothing, blanks, or blanks and a word that is not encoded.\<close>

lemma encode_run_rest:
  "\<exists>b v t. drop (encode_run str) str = b @ v @ t \<and> list_all isspace b \<and> list_all (\<lambda>c. \<not> isspace c \<and> \<not> doencode c) v \<and>
     (t = [] \<or> v \<noteq> [] \<and> isspace (hd t))"
proof (induction str rule: encode_run.induct)
  case (1 str)
  define i where "i = length (takeWhile (\<lambda>c. \<not> isspace c) str)"
  define b where "b = takeWhile isspace (drop i str)"
  define v where "v = takeWhile (\<lambda>c. \<not> isspace c \<and> \<not> doencode c) (drop (i + length b) str)"
  define d where "d = i + length b + length v"
  have r: "encode_run str = (if length str \<le> d \<or> isspace (str ! d) then i else d + encode_run (drop d str))"
    by (subst encode_run.simps) (simp add: Let_def i_def b_def v_def d_def)
  show ?case
  proof (cases "length str \<le> d \<or> isspace (str ! d)")
    case True
    have eb: "drop i str = b @ drop (i + length b) str"
      using takeWhile_dropWhile_id [of isspace "drop i str"] by (simp add: b_def dropWhile_eq_drop add.commute)
    have ev: "drop (i + length b) str = v @ drop d str"
      using takeWhile_dropWhile_id [of "\<lambda>c. \<not> isspace c \<and> \<not> doencode c" "drop (i + length b) str"]
      by (simp add: v_def d_def dropWhile_eq_drop add.commute add.left_commute)
    have "v \<noteq> []" "isspace (hd (drop d str))" if "drop d str \<noteq> []"
    proof -
      show hd: "isspace (hd (drop d str))" using that True by (simp add: hd_drop_conv_nth)
      show "v \<noteq> []"
      proof
        assume "v = []"
        then have "drop (i + length b) str = drop d str" by (simp add: d_def)
        moreover have "drop (i + length b) str = dropWhile isspace (drop i str)"
          by (simp add: b_def dropWhile_eq_drop add.commute)
        ultimately show False using that hd hd_dropWhile [of isspace "drop i str"] by simp
      qed
    qed
    moreover have "list_all isspace b" "list_all (\<lambda>c. \<not> isspace c \<and> \<not> doencode c) v"
      by (auto simp: b_def v_def list_all_iff dest: set_takeWhileD)
    moreover have "drop (encode_run str) str = b @ v @ drop d str" using r True eb ev by simp
    ultimately show ?thesis by blast
  next
    case False
    from 1 [OF i_def refl refl] False have "\<exists>b v t. drop (encode_run (drop d str)) (drop d str) = b @ v @ t \<and> list_all isspace b \<and>
        list_all (\<lambda>c. \<not> isspace c \<and> \<not> doencode c) v \<and> (t = [] \<or> v \<noteq> [] \<and> isspace (hd t))"
      by (simp add: b_def v_def d_def)
    then show ?thesis using r False by (simp add: add.commute)
  qed
qed

lemma encode_run_pos: "str \<noteq> [] \<Longrightarrow> \<not> isspace (hd str) \<Longrightarrow> 0 < encode_run str"
  by (subst encode_run.simps) (cases str; auto simp: Let_def)

text \<open>What is passed on before the next run, and that a word that is not encoded is part of it.\<close>

definition raw_part :: "string \<Rightarrow> string" where
  "raw_part str = (if list_all (\<lambda>c. \<not> doencode c) str then str else encode_prefix str)"

lemma encode_prefix_split:
  obtains u where "takeWhile (\<lambda>c. \<not> doencode c) str = encode_prefix str @ u" "list_all (\<lambda>c. \<not> isspace c) u"
proof -
  let ?p = "rev (takeWhile (\<lambda>c. \<not> doencode c) str)"
  have "rev ?p = encode_prefix str @ rev (takeWhile (\<lambda>c. \<not> isspace c) ?p)"
    unfolding encode_prefix_def rev_append [symmetric] takeWhile_dropWhile_id ..
  then show thesis by (intro that [of "rev (takeWhile (\<lambda>c. \<not> isspace c) ?p)"]) (auto simp: list_all_iff dest: set_takeWhileD)
qed

lemma encode_prefix_drop:
  assumes "\<not> list_all (\<lambda>c. \<not> doencode c) str"
  shows "str = encode_prefix str @ drop (length (encode_prefix str)) str" "drop (length (encode_prefix str)) str \<noteq> []"
    "\<not> isspace (hd (drop (length (encode_prefix str)) str))" "list_all (\<lambda>c. \<not> doencode c) (encode_prefix str)"
proof -
  obtain u where u: "takeWhile (\<lambda>c. \<not> doencode c) str = encode_prefix str @ u" "list_all (\<lambda>c. \<not> isspace c) u"
    by (rule encode_prefix_split)
  define d where "d = dropWhile (\<lambda>c. \<not> doencode c) str"
  have d: "d \<noteq> []" "doencode (hd d)"
    using assms hd_dropWhile [of "\<lambda>c. \<not> doencode c" str] by (auto simp: d_def dropWhile_eq_Nil_conv list_all_iff)
  have s: "str = encode_prefix str @ u @ d" using takeWhile_dropWhile_id [of "\<lambda>c. \<not> doencode c" str] u(1) by (simp add: d_def)
  then have e: "drop (length (encode_prefix str)) str = u @ d" by (metis append_eq_conv_conj)
  show "str = encode_prefix str @ drop (length (encode_prefix str)) str" "drop (length (encode_prefix str)) str \<noteq> []"
    using s d unfolding e by simp_all
  have "\<not> isspace (hd d)" using d(2) by (auto simp: doencode_def isspace_def)
  then show "\<not> isspace (hd (drop (length (encode_prefix str)) str))" using u(2) unfolding e by (cases u) auto
  have "set (encode_prefix str) \<subseteq> set (takeWhile (\<lambda>c. \<not> doencode c) str)" unfolding u(1) by simp
  then show "list_all (\<lambda>c. \<not> doencode c) (encode_prefix str)" by (auto simp: list_all_iff dest: set_takeWhileD)
qed

lemma raw_part_word:
  assumes "list_all isspace b" "list_all (\<lambda>c. \<not> isspace c \<and> \<not> doencode c) v" "t = [] \<or> isspace (hd t)" "v \<noteq> []"
  shows "\<not> list_all isspace (raw_part (b @ v @ t))"
proof (cases "list_all (\<lambda>c. \<not> doencode c) (b @ v @ t)")
  case True
  then show ?thesis using assms(2,4) by (cases v) (simp_all add: raw_part_def)
next
  case False
  have b: "list_all (\<lambda>c. \<not> doencode c) b" using assms(1) by (auto simp: list_all_iff doencode_def isspace_def)
  with False assms(2) obtain a t' where t: "t = a # t'" by (cases t) (auto simp: list_all_iff)
  with assms(3) have a: "isspace a" "\<not> doencode a" by (auto simp: doencode_def isspace_def)
  let ?str = "b @ v @ t"
  obtain u where u: "takeWhile (\<lambda>c. \<not> doencode c) ?str = encode_prefix ?str @ u" "list_all (\<lambda>c. \<not> isspace c) u"
    by (rule encode_prefix_split)
  have "takeWhile (\<lambda>c. \<not> doencode c) ?str = (b @ v) @ a # takeWhile (\<lambda>c. \<not> doencode c) t'"
    using b assms(2) a by (simp add: t takeWhile_append2 list_all_iff)
  with u(1) have "(b @ v) @ a # takeWhile (\<lambda>c. \<not> doencode c) t' = encode_prefix ?str @ u" by simp
  then have "\<exists>w. encode_prefix ?str = (b @ v) @ w"
    unfolding append_eq_append_conv2 using u(2) a(1) by (auto simp: Cons_eq_append_conv append_eq_append_conv2) metis
  then show ?thesis using False assms(2,4) by (cases v) (auto simp: raw_part_def)
qed

lemma encode_callback_decode:
  assumes "CHR ''?'' \<notin> set cset" "length cset < 45" "bytes7 cset"
  shows "cstring str \<Longrightarrow> str = [] \<or> \<not> isspace (last str) \<Longrightarrow> h \<longrightarrow> str = [] \<or> \<not> list_all isspace (raw_part str) \<Longrightarrow>
    \<exists>e. rfc2047_encode_callback cset str = Some e \<and> texts h e = str \<and> bytes7 e"
proof (induction "length str" arbitrary: str h rule: less_induct)
  case less
  have raw: "CHR ''='' \<notin> set p" "bytes7 p" if "list_all (\<lambda>c. \<not> doencode c) p" for p
  proof -
    have "doencode (CHR ''='')" by (simp add: doencode_def)
    with that show "CHR ''='' \<notin> set p" unfolding list_all_iff by blast
    show "bytes7 p" by (rule list.pred_mono_strong [OF that]) (simp add: doencode_def)
  qed
  show ?case
  proof (cases "list_all (\<lambda>c. \<not> doencode c) str")
    case True
    have "texts h str = str"
    proof (cases "str = []")
      case False
      then show ?thesis
        using texts_plain [OF raw(1) [OF True], of "[]" h] less.prems(3) True by (auto simp: raw_part_def texts_def)
    qed (simp add: texts_def)
    then show ?thesis using True raw(2) by (simp add: rfc2047_encode_callback.simps [of cset str])
  next
    case False
    define p where "p = encode_prefix str"
    define s where "s = drop (length p) str"
    define i where "i = encode_run s"
    note p = encode_prefix_drop [OF False, folded p_def, folded s_def]
    have i: "0 < i" using encode_run_pos [OF p(2,3)] by (simp add: i_def)
    have sub: "cstring (take i s)" "cstring (drop i s)"
      using less.prems(1) by (auto simp: s_def cstring_def dest: in_set_takeD in_set_dropD)
    have "take i s \<noteq> []" using p(2) i by simp
    from encode_words_decode [OF assms(1,2) this, of "[]" 0] sub(1) obtain w where
      w: "encode_words cset 0 (take i s) = Some w" "take 2 w = ''=?''" "bytes7 w"
        "\<And>h rest. texts h (w @ rest) = take i s @ texts True rest" using assms(3) by auto
    have "0 < length s" "length s \<le> length str" using p(2) by (simp_all add: s_def)
    then have "length (drop i s) < length str" using i unfolding length_drop by linarith
    note len = this
    have l: "drop i s = [] \<or> \<not> isspace (last (drop i s))"
    proof (cases "drop i s = []")
      case False
      then have "i + length p < length str" by (simp add: s_def)
      then have "last (drop i s) = last str" "str \<noteq> []" by (auto simp: s_def last_drop)
      with less.prems(2) show ?thesis by simp
    qed simp
    have "drop i s = [] \<or> \<not> list_all isspace (raw_part (drop i s))"
    proof -
      obtain b v t where r: "drop i s = b @ v @ t" "list_all isspace b" "list_all (\<lambda>c. \<not> isspace c \<and> \<not> doencode c) v"
        "t = [] \<or> v \<noteq> [] \<and> isspace (hd t)" using encode_run_rest [of s] unfolding i_def by blast
      show ?thesis
      proof (cases "v = []")
        case True
        with r(1,4) have "drop i s = b" by auto
        with r(2) l show ?thesis by (cases b rule: rev_cases) auto
      next
        case False
        with raw_part_word [OF r(2,3) _ this, of t] r(1,4) show ?thesis by auto
      qed
    qed
    with less.hyps [OF len sub(2) l, of True] obtain e where
      e: "rfc2047_encode_callback cset (drop i s) = Some e" "texts True e = drop i s" "bytes7 e" by blast
    have "rfc2047_encode_callback cset str = Some (p @ w @ e)"
      using False w(1) e(1) by (subst rfc2047_encode_callback.simps) (simp add: Let_def p_def s_def i_def)
    moreover have "texts h (p @ w @ e) = str"
    proof -
      have t: "take 2 (w @ e) = ''=?''" using w(2) by (cases w; cases "tl w") auto
      have we: "texts h' (w @ e) = s" for h' using w(4) [of h' e] e(2) by simp
      show ?thesis
      proof (cases "p = []")
        case True
        with we [of h] p(1) show ?thesis by (metis append_Nil)
      next
        case ne: False
        have "\<not> (h \<and> list_all isspace p)" using less.prems(3) False ne by (auto simp: raw_part_def p_def encode_prefix_def)
        with texts_plain [OF raw(1) [OF p(4)] disjI2 [OF t] ne, of h] we [of False] p(1) show ?thesis by (metis append_assoc)
      qed
    qed
    moreover have "bytes7 (p @ w @ e)" using raw(2) [OF p(4)] w(3) e(3) by simp
    ultimately show ?thesis by blast
  qed
qed

text \<open>
  C15. A header that is encoded is decoded to itself: for every text, whatever bytes it has, that does not end in a blank, the
  encoder ends, writes only bytes of seven bits, and what it writes decodes to the text. The blanks between encoded
  words, which the decoder drops, are those the encoder put in. The name of the character set has less than 45 characters; with
  more the encoder does not end.
\<close>

theorem rfc2047_roundtrip:
  assumes "cstring str" "str = [] \<or> \<not> isspace (last str)" "CHR ''?'' \<notin> set cset" "length cset < 45" "list_all (\<lambda>c. code c < 128) cset"
  shows "\<exists>e. rfc2047_encode_str str cset = Some e \<and> rfc2047_decode_simple e = str \<and> list_all (\<lambda>c. code c < 128) e"
  using encode_callback_decode [OF assms(3,4,5,1,2), of False]
  by (simp add: rfc2047_encode_str_def rfc2047_decode_simple_def texts_def)

lemma rfc2047_roundtrip_witness:
  "\<exists>e. rfc2047_encode_str [CHR 0xE9, sp, CHR ''='', sp, CHR ''a'', sp, CHR 0xFC] ''iso-8859-1'' = Some e \<and>
     rfc2047_decode_simple e = [CHR 0xE9, sp, CHR ''='', sp, CHR ''a'', sp, CHR 0xFC] \<and> list_all (\<lambda>c. code c < 128) e"
  by (rule rfc2047_roundtrip) (simp_all add: cstring_def isspace_def)

text \<open>With a longer name of the character set no byte that is written as it is fits into a word: the loop goes on for ever.\<close>

lemma encode_words_endless:
  assumes "45 \<le> length cset" "str \<noteq> []" "\<not> q_encoded (hd str)"
  shows "encode_words cset 0 str = None"
proof -
  have "encode_words cs c s = Some r \<Longrightarrow> \<not> (45 \<le> length cs \<and> c = 0 \<and> s \<noteq> [] \<and> \<not> q_encoded (hd s))" for cs c s r
  proof (erule encode_words.raw_induct [rotated, where P = "\<lambda>cs c s r. \<not> (45 \<le> length cs \<and> c = 0 \<and> s \<noteq> [] \<and> \<not> q_encoded (hd s))"], rule notI)
    fix f cs c s r
    assume IH: "\<And>cs c s r. f cs c s = Some r \<Longrightarrow> \<not> (45 \<le> length cs \<and> c = 0 \<and> s \<noteq> [] \<and> \<not> q_encoded (hd s))"
      and a: "45 \<le> length cs \<and> c = 0 \<and> s \<noteq> [] \<and> \<not> q_encoded (hd s)"
      and b: "(if s = [] then Some []
      else
        let start = (if c = 0 then ''=?'' @ cs @ ''?Q?'' else []);
            c = (if c = 0 then length cs + 5 else c);
            j = min (length (takeWhile (\<lambda>c. \<not> q_encoded c) s)) (50 - c);
            out = (if q_encoded (hd s) then encode_char (hd s) else take j s);
            c = c + length out;
            s = (if q_encoded (hd s) then tl s else drop j s);
            final = (if s = [] then ''?='' else if 50 \<le> c then ''?= '' else [])
        in Option.bind (f cs (if s = [] \<or> 50 \<le> c then 0 else c) s) (\<lambda>r. Some (start @ out @ final @ r))) = Some r"
    from a have z: "50 - (length cs + 5) = 0" by simp
    obtain r' where "f cs 0 s = Some r'"
      using b a unfolding Let_def by (auto simp: z bind_eq_Some_conv)
    from IH [OF this] a show False by simp
  qed
  with assms show ?thesis by (cases "encode_words cset 0 str") auto
qed

end
