(* ===== verification/Imap_Refs.thy ===== *)
theory Imap_Refs
  imports Rfc822_Addr_Print Rfc822_Date Imap_Subject "HOL-Library.Multiset"
begin

text \<open>
  Threading of messages by their references (\<^verbatim>\<open>rfc822/imaprefs.c\<close>). The messages of a table are a list, in the order of
  its linked list, and a pointer to a message is its index; the doubly linked lists of siblings (\<^verbatim>\<open>firstchild\<close>,
  \<^verbatim>\<open>lastchild\<close>, \<^verbatim>\<open>prevsib\<close>, \<^verbatim>\<open>nextsib\<close>) are the lists \<open>children\<close>. A loop that empties the list of children, or walks along it
  while only the message it is at leaves it, is a fold over the list as it is at the start. Loops along parents and
  descendants end only when there is no cycle, so they are partial functions: \<open>None\<close> is not to return, to follow
  a null pointer, or the error return. The sorting routine of the C library is a parameter, which gets the comparison as it is.
\<close>

subsection \<open>Messages and their links\<close>

record refmsg =
  parent :: "nat option"
  children :: "nat list"
  isdummy :: bool
  flag2 :: bool
  msgid :: string
  msubj :: "string option"
  timestamp :: int
  seqnum :: nat

type_synonym refheap = "refmsg list"

definition linkparent :: "nat \<Rightarrow> nat \<Rightarrow> refheap \<Rightarrow> refheap" where
  "linkparent m lastmsg h =
     (let h = h[m := (h ! m)\<lparr>parent := Some lastmsg\<rparr>]
      in h[lastmsg := (h ! lastmsg)\<lparr>children := children (h ! lastmsg) @ [m]\<rparr>])"

definition breakparent :: "nat \<Rightarrow> refheap \<Rightarrow> refheap" where
  "breakparent m h =
     (case parent (h ! m) of
        None \<Rightarrow> h
      | Some p \<Rightarrow>
          let h = h[p := (h ! p)\<lparr>children := remove1 m (children (h ! p))\<rparr>]
          in h[m := (h ! m)\<lparr>parent := None\<rparr>])"

text \<open>\<^verbatim>\<open>while ((p=a->firstchild) != 0) { breakparent(p); linkparent(p, b); }\<close>\<close>

definition move_msg :: "nat \<Rightarrow> nat \<Rightarrow> refheap \<Rightarrow> refheap" where
  "move_msg b p h = linkparent p b (breakparent p h)"

definition move_children :: "nat \<Rightarrow> nat \<Rightarrow> refheap \<Rightarrow> refheap" where
  "move_children a b h = fold (move_msg b) (children (h ! a)) h"

definition swapmsgdata :: "nat \<Rightarrow> nat \<Rightarrow> refheap \<Rightarrow> refheap" where
  "swapmsgdata a b h =
     (let copy = (\<lambda>x y. x\<lparr>msgid := msgid y, isdummy := isdummy y, flag2 := flag2 y, timestamp := timestamp y, seqnum := seqnum y\<rparr>)
      in h[a := copy (h ! a) (h ! b), b := copy (h ! b) (h ! a)])"

subsection \<open>The table\<close>

record subjlookup =
  lsubj :: string
  lmsg :: "nat option"
  msgisrefwd :: bool

record refmsgtable =
  msgs :: refheap
  hashtable :: "nat \<Rightarrow> nat list"
  subjtable :: "nat \<Rightarrow> subjlookup list"
  rootptr :: "nat option"

definition rfc822_threadalloc :: refmsgtable where
  "rfc822_threadalloc = \<lparr>msgs = [], hashtable = (\<lambda>_. []), subjtable = (\<lambda>_. []), rootptr = None\<rparr>"

fun strcmp :: "string \<Rightarrow> string \<Rightarrow> int" where
  "strcmp [] [] = 0"
| "strcmp [] (d # t) = - 1"
| "strcmp (c # s) [] = 1"
| "strcmp (c # s) (d # t) = (if c = d then strcmp s t else if code c < code d then - 1 else 1)"

definition hashmsgid :: "string \<Rightarrow> nat" where
  "hashmsgid s =
     unat (fold (\<lambda>c hashno.
       let n = push_bit 1 hashno; n = (if hashno AND 512 \<noteq> 0 then n XOR 1 else n)
       in n XOR word_of_nat (code c)) s (0 :: 64 word)) mod 512"

fun insert_hash :: "refheap \<Rightarrow> string \<Rightarrow> nat \<Rightarrow> nat list \<Rightarrow> nat list" where
  "insert_hash h s x [] = [x]"
| "insert_hash h s x (m # ms) = (if strcmp (msgid (h ! m)) s > 0 then x # m # ms else m # insert_hash h s x ms)"

definition rfc822_threadallocmsg :: "string \<Rightarrow> refmsgtable \<Rightarrow> nat \<times> refmsgtable" where
  "rfc822_threadallocmsg s mt =
     (let n = hashmsgid s; x = length (msgs mt)
      in (x, mt\<lparr>hashtable := (hashtable mt)(n := insert_hash (msgs mt) s x (hashtable mt n)),
                msgs := msgs mt @ [\<lparr>parent = None, children = [], isdummy = False, flag2 = False, msgid = s, msubj = None,
                  timestamp = 0, seqnum = 0\<rparr>]\<rparr>))"

fun search_hash :: "refheap \<Rightarrow> string \<Rightarrow> nat list \<Rightarrow> nat option" where
  "search_hash h s [] = None"
| "search_hash h s (m # ms) =
     (let rc = strcmp (msgid (h ! m)) s in if rc = 0 then Some m else if rc > 0 then None else search_hash h s ms)"

definition rfc822_threadsearchmsg :: "string \<Rightarrow> refmsgtable \<Rightarrow> nat option" where
  "rfc822_threadsearchmsg s mt = search_hash (msgs mt) s (hashtable mt (hashmsgid s))"

subsection \<open>Adding a message\<close>

text \<open>A loop over a list whose step may fail.\<close>

fun each :: "('a \<Rightarrow> 's \<Rightarrow> 's option) \<Rightarrow> 'a list \<Rightarrow> 's \<Rightarrow> 's option" where
  "each f [] s = Some s"
| "each f (x # xs) s = (case f x s of None \<Rightarrow> None | Some s \<Rightarrow> each f xs s)"

text \<open>\<^verbatim>\<open>for (m=lastmsg; m; m=m->parent) if (strcmp(m->msgid, msg->msgid) == 0) break;\<close>\<close>

partial_function (option) id_above :: "refheap \<Rightarrow> string \<Rightarrow> nat \<Rightarrow> bool option" where
  "id_above h s m =
     (if msgid (h ! m) = s then Some True
      else case parent (h ! m) of None \<Rightarrow> Some False | Some p \<Rightarrow> id_above h s p)"

definition on_msgs :: "(refheap \<Rightarrow> refheap) \<Rightarrow> refmsgtable \<Rightarrow> refmsgtable" where
  "on_msgs f mt = mt\<lparr>msgs := f (msgs mt)\<rparr>"

definition ref_step :: "string \<Rightarrow> refmsgtable \<times> nat option \<Rightarrow> (refmsgtable \<times> nat option) option" where
  "ref_step s = (\<lambda>(mt, lastmsg).
     let (m, mt) =
           (case if s \<noteq> [] then rfc822_threadsearchmsg s mt else None of
              Some m \<Rightarrow> (m, mt)
            | None \<Rightarrow> (case rfc822_threadallocmsg s mt of (m, mt) \<Rightarrow> (m, on_msgs (\<lambda>h. h[m := (h ! m)\<lparr>isdummy := True\<rparr>]) mt)))
     in case lastmsg of
          None \<Rightarrow> Some (mt, Some m)
        | Some l \<Rightarrow>
            if parent (msgs mt ! m) \<noteq> None then Some (mt, Some m)
            else map_option (\<lambda>above. (if above then mt else on_msgs (linkparent m l) mt, Some m))
                   (id_above (msgs mt) (msgid (msgs mt ! m)) l))"

text \<open>The message itself: a dummy with its ID, or a new one; an older message with the same ID loses its links.\<close>

definition own_msg :: "string \<Rightarrow> refmsgtable \<Rightarrow> nat \<times> refmsgtable" where
  "own_msg newmsgid mt =
     (case if newmsgid \<noteq> [] then rfc822_threadsearchmsg newmsgid mt else None of
        None \<Rightarrow> rfc822_threadallocmsg newmsgid mt
      | Some m \<Rightarrow>
          if isdummy (msgs mt ! m)
          then (m, on_msgs (\<lambda>h. breakparent m (h[m := (h ! m)\<lparr>isdummy := False\<rparr>])) mt)
          else rfc822_threadallocmsg [] (on_msgs (\<lambda>h. breakparent m (fold breakparent (children (h ! m)) h)) mt))"

definition dorefcreate :: "string \<Rightarrow> string list \<Rightarrow> refmsgtable \<Rightarrow> (refmsgtable \<times> nat) option" where
  "dorefcreate newmsgid refs mt =
     (case each ref_step refs (mt, None) of
        None \<Rightarrow> None
      | Some (mt, lastmsg) \<Rightarrow>
          (case own_msg newmsgid mt of
             (m, mt) \<Rightarrow>
               (case lastmsg of
                  None \<Rightarrow> Some (mt, m)
                | Some l \<Rightarrow>
                    map_option (\<lambda>above. (if above then mt else on_msgs (linkparent m l) mt, m))
                      (id_above (msgs mt) (msgid (msgs mt ! m)) l))))"

text \<open>The addresses of a header, as message IDs; \<open>None\<close> of \<open>rfc822a_alloc\<close> does not occur (\<open>rfc822a_alloc_safe\<close>).\<close>

definition header_ids :: "string \<Rightarrow> string list" where
  "header_ids hdr =
     (case rfc822a_alloc (rfc822t_alloc hdr) of
        None \<Rightarrow> []
      | Some (as, _) \<Rightarrow> map (\<lambda>n. rfc822_getaddr hdr as (int n)) [0..<length as])"

record refheaders =
  msgidhdr :: "string option"
  refhdr :: "string option"
  subjheader :: "string option"
  dateheader :: "string option"
  hseqnum :: nat

definition rfc822_threadmsg :: "refheaders \<Rightarrow> refmsgtable \<Rightarrow> refmsgtable option" where
  "rfc822_threadmsg hs mt =
     (let ids = header_ids (case msgidhdr hs of None \<Rightarrow> [] | Some s \<Rightarrow> s)
      in case dorefcreate (if ids = [] then [] else hd ids) (header_ids (case refhdr hs of None \<Rightarrow> [] | Some s \<Rightarrow> s)) mt of
           None \<Rightarrow> None
         | Some (mt, m) \<Rightarrow>
             Some (on_msgs (\<lambda>h. h[m := (h ! m)
               \<lparr>msubj := (case subjheader hs of None \<Rightarrow> msubj (h ! m) | Some s \<Rightarrow> Some s),
                timestamp := (case dateheader hs of None \<Rightarrow> 0 | Some d \<Rightarrow> rfc822_parsedt d),
                seqnum := hseqnum hs\<rparr>]) mt))"

definition rfc822_threadmsgs :: "refheaders list \<Rightarrow> refmsgtable \<Rightarrow> refmsgtable option" where
  "rfc822_threadmsgs = each rfc822_threadmsg"

subsection \<open>The root, and pruning\<close>

definition root_step :: "nat \<Rightarrow> nat \<Rightarrow> refheap \<Rightarrow> refheap" where
  "root_step r m h =
     (if parent (h ! m) = None \<and> \<not> (isdummy (h ! m) \<and> children (h ! m) = []) then linkparent m r h else h)"

definition rfc822_threadgetroot :: "refmsgtable \<Rightarrow> nat \<times> refmsgtable" where
  "rfc822_threadgetroot mt =
     (case rootptr mt of
        Some r \<Rightarrow> (r, mt)
      | None \<Rightarrow>
          (case rfc822_threadallocmsg ''(root)'' mt of
             (r, mt) \<Rightarrow>
               let mt = on_msgs (\<lambda>h. h[r := (h ! r)\<lparr>parent := Some r, isdummy := True\<rparr>]) mt;
                   mt = on_msgs (\<lambda>h. fold (root_step r) [0..<length h] h) mt;
                   mt = on_msgs (\<lambda>h. h[r := (h ! r)\<lparr>parent := None\<rparr>]) mt
               in (r, mt\<lparr>rootptr := Some r\<rparr>)))"

definition prune_step :: "nat \<Rightarrow> refheap \<Rightarrow> refheap" where
  "prune_step m h =
     (case parent (h ! m) of
        None \<Rightarrow> h
      | Some saveparent \<Rightarrow>
          if \<not> isdummy (h ! m) then h
          else if children (h ! m) = [] then breakparent m h
          else if length (children (h ! m)) > 1 \<and> parent (h ! saveparent) \<noteq> None then h
          else move_children m saveparent (breakparent m h))"

definition rfc822_threadprune :: "refmsgtable \<Rightarrow> refmsgtable" where
  "rfc822_threadprune = on_msgs (\<lambda>h. fold prune_step [0..<length h] h)"

subsection \<open>Sorting siblings\<close>

text \<open>\<^verbatim>\<open>while (ma && ma->isdummy) ma=ma->firstchild;\<close>\<close>

partial_function (option) first_msg :: "refheap \<Rightarrow> nat \<Rightarrow> nat option option" where
  "first_msg h m =
     (if isdummy (h ! m) then (case children (h ! m) of [] \<Rightarrow> Some None | c # _ \<Rightarrow> first_msg h c) else Some (Some m))"

definition cmp_msgs :: "refheap \<Rightarrow> nat \<Rightarrow> nat \<Rightarrow> int option" where
  "cmp_msgs h a b =
     (case (first_msg h a, first_msg h b) of
        (Some ma, Some mb) \<Rightarrow>
          let ta = (case ma of None \<Rightarrow> 0 | Some m \<Rightarrow> timestamp (h ! m));
              na = (case ma of None \<Rightarrow> 0 | Some m \<Rightarrow> seqnum (h ! m));
              tb = (case mb of None \<Rightarrow> 0 | Some m \<Rightarrow> timestamp (h ! m));
              nb = (case mb of None \<Rightarrow> 0 | Some m \<Rightarrow> seqnum (h ! m))
          in Some (if ta \<noteq> 0 \<and> tb \<noteq> 0 \<and> ta \<noteq> tb then if ta < tb then - 1 else 1
                   else if na < nb then - 1 else if na > nb then 1 else 0)
      | _ \<Rightarrow> None)"

type_synonym qsort = "(nat \<Rightarrow> nat \<Rightarrow> int option) \<Rightarrow> nat list \<Rightarrow> nat list option"

text \<open>The children are taken off one by one into an array, which is sorted and linked again.\<close>

definition resort :: "qsort \<Rightarrow> nat \<Rightarrow> refheap \<Rightarrow> refheap option" where
  "resort qs r h =
     (let h' = fold breakparent (children (h ! r)) h
      in case qs (cmp_msgs h') (children (h ! r)) of
           None \<Rightarrow> None
         | Some ys \<Rightarrow> Some (fold (\<lambda>c. linkparent c r) ys h'))"

text \<open>
  The two recursive sorts differ in the nodes they go down to: the dummies below the root, or all of them.
  A call sorts the siblings \<open>q # qs\<close> one after the other.
\<close>

partial_function (option) sort_nodes :: "bool \<Rightarrow> qsort \<Rightarrow> nat list \<Rightarrow> refheap \<Rightarrow> refheap option" where
  "sort_nodes every qs xs h =
     (case xs of
        [] \<Rightarrow> Some h
      | x # xs \<Rightarrow>
          if every \<or> isdummy (h ! x)
          then Option.bind (sort_nodes every qs (children (h ! x)) h)
                 (\<lambda>h. Option.bind (resort qs x h) (sort_nodes every qs xs))
          else sort_nodes every qs xs h)"

definition rfc822_threadsortsubj :: "qsort \<Rightarrow> nat \<Rightarrow> refheap \<Rightarrow> refheap option" where
  "rfc822_threadsortsubj qs r h = Option.bind (sort_nodes False qs (children (h ! r)) h) (resort qs r)"

definition dothreadsort :: "qsort \<Rightarrow> nat \<Rightarrow> refheap \<Rightarrow> refheap option" where
  "dothreadsort qs p h = sort_nodes True qs [p] h"

definition rfc822_threadsortbydate :: "qsort \<Rightarrow> refmsgtable \<Rightarrow> refmsgtable option" where
  "rfc822_threadsortbydate qs mt =
     (case rootptr mt of
        None \<Rightarrow> None
      | Some r \<Rightarrow> (case dothreadsort qs r (msgs mt) of None \<Rightarrow> None | Some h \<Rightarrow> Some (mt\<lparr>msgs := h\<rparr>)))"

subsection \<open>Threads with the same subject\<close>

fun find_chain :: "string \<Rightarrow> subjlookup list \<Rightarrow> subjlookup option" where
  "find_chain ss [] = None"
| "find_chain ss (e # es) =
     (let rc = strcmp (lsubj e) ss in if rc = 0 then Some e else if rc > 0 then None else find_chain ss es)"

text \<open>A new entry goes where the search stops; an assignment through the pointer to an entry replaces it.\<close>

fun put_chain :: "subjlookup \<Rightarrow> subjlookup list \<Rightarrow> subjlookup list" where
  "put_chain e [] = [e]"
| "put_chain e (f # fs) =
     (let rc = strcmp (lsubj f) (lsubj e) in if rc = 0 then e # fs else if rc > 0 then e # f # fs else f # put_chain e fs)"

definition put_subj :: "subjlookup \<Rightarrow> refmsgtable \<Rightarrow> refmsgtable" where
  "put_subj e mt =
     mt\<lparr>subjtable := (subjtable mt)(hashmsgid (lsubj e) := put_chain e (subjtable mt (hashmsgid (lsubj e))))\<rparr>"

definition findsubj :: "string \<Rightarrow> bool \<Rightarrow> refmsgtable \<Rightarrow> bool \<times> subjlookup option \<times> refmsgtable" where
  "findsubj s create mt =
     (case rfc822_coresubj s of
        (ss, isrefwd) \<Rightarrow>
          (case find_chain ss (subjtable mt (hashmsgid ss)) of
             Some e \<Rightarrow> (isrefwd, Some e, mt)
           | None \<Rightarrow>
               if \<not> create then (isrefwd, None, mt)
               else let e = \<lparr>lsubj = ss, lmsg = None, msgisrefwd = isrefwd\<rparr> in (isrefwd, Some e, put_subj e mt)))"

text \<open>The subject of a thread; \<open>None\<close> is to follow the null pointer of a dummy without children.\<close>

definition own_subj :: "refheap \<Rightarrow> nat \<Rightarrow> string" where
  "own_subj h m = (case msubj (h ! m) of None \<Rightarrow> [] | Some s \<Rightarrow> s)"

definition thread_subj :: "refheap \<Rightarrow> nat \<Rightarrow> string option" where
  "thread_subj h m =
     (if isdummy (h ! m) then (case children (h ! m) of [] \<Rightarrow> None | c # _ \<Rightarrow> Some (own_subj h c)) else Some (own_subj h m))"

definition gather_step :: "nat \<Rightarrow> refmsgtable \<Rightarrow> refmsgtable option" where
  "gather_step t mt =
     (case thread_subj (msgs mt) t of
        None \<Rightarrow> None
      | Some s \<Rightarrow>
          if s = [] then Some mt
          else (case findsubj s True mt of
                  (isrefwd, None, mt) \<Rightarrow> None
                | (isrefwd, Some e, mt) \<Rightarrow>
                    let tp = put_subj (e\<lparr>lmsg := Some t, msgisrefwd := isrefwd\<rparr>) mt
                    in case lmsg e of
                         None \<Rightarrow> Some tp
                       | Some m \<Rightarrow>
                           Some (if isdummy (msgs mt ! m) then mt
                                 else if isdummy (msgs mt ! t) then tp
                                 else if msgisrefwd e \<and> \<not> isrefwd then tp
                                 else mt)))"

definition rfc822_threadgathersubj :: "nat \<Rightarrow> refmsgtable \<Rightarrow> refmsgtable option" where
  "rfc822_threadgathersubj r mt = each gather_step (children (msgs mt ! r)) mt"

definition set_flag2 :: "bool \<Rightarrow> nat \<Rightarrow> refheap \<Rightarrow> refheap" where
  "set_flag2 b m h = h[m := (h ! m)\<lparr>flag2 := b\<rparr>]"

text \<open>A new dummy container: the message in the table moves into the new node, and becomes the dummy itself.\<close>

definition new_container :: "nat \<Rightarrow> nat \<Rightarrow> refmsgtable \<Rightarrow> refmsgtable" where
  "new_container t tp mt =
     (case rfc822_threadallocmsg ''(dummy)'' mt of
        (q, mt) \<Rightarrow>
          on_msgs (\<lambda>h.
            let h = h[q := (h ! q)\<lparr>isdummy := True\<rparr>];
                h = linkparent q tp (move_children tp q (swapmsgdata q tp h))
            in move_msg tp t h) mt)"

definition merge_pair :: "nat \<Rightarrow> nat \<Rightarrow> bool \<Rightarrow> refmsgtable \<Rightarrow> refmsgtable option" where
  "merge_pair t tp isrefwd mt =
     (let h = msgs mt
      in if isdummy (h ! tp) \<and> isdummy (h ! t) then Some (on_msgs (\<lambda>h. breakparent t (move_children t tp h)) mt)
         else if isdummy (h ! tp) then Some (on_msgs (move_msg tp t) mt)
         else if isrefwd
         then (case thread_subj h tp of
                 None \<Rightarrow> None
               | Some s \<Rightarrow>
                   if \<not> snd (rfc822_coresubj s) then Some (on_msgs (move_msg tp t) mt)
                   else Some (new_container t tp mt))
         else Some (new_container t tp mt))"

definition merge_step :: "nat \<Rightarrow> refmsgtable \<Rightarrow> refmsgtable option" where
  "merge_step t mt =
     (case thread_subj (msgs mt) t of
        None \<Rightarrow> None
      | Some s \<Rightarrow>
          if s = [] then Some mt
          else (case findsubj s False mt of
                  (isrefwd, None, mt) \<Rightarrow> None
                | (isrefwd, Some e, mt) \<Rightarrow>
                    (case lmsg e of
                       None \<Rightarrow> None
                     | Some tp \<Rightarrow>
                         let mt = on_msgs (set_flag2 True tp) mt
                         in if flag2 (msgs mt ! t) then Some (on_msgs (set_flag2 False t) mt)
                            else merge_pair t tp isrefwd (on_msgs (set_flag2 False tp) mt))))"

definition rfc822_threadmergesubj :: "nat \<Rightarrow> refmsgtable \<Rightarrow> refmsgtable option" where
  "rfc822_threadmergesubj r mt = each merge_step (children (msgs mt ! r)) mt"

definition rfc822_thread :: "qsort \<Rightarrow> refmsgtable \<Rightarrow> (nat \<times> refmsgtable) option" where
  "rfc822_thread qs mt =
     (case rootptr mt of
        Some r \<Rightarrow> Some (r, mt)
      | None \<Rightarrow>
          (case rfc822_threadgetroot (rfc822_threadprune mt) of
             (r, mt) \<Rightarrow>
               Option.bind (rfc822_threadsortsubj qs r (msgs mt)) (\<lambda>h.
               Option.bind (rfc822_threadgathersubj r (mt\<lparr>msgs := h\<rparr>)) (\<lambda>mt.
               Option.bind (rfc822_threadmergesubj r mt) (\<lambda>mt.
               Option.bind (rfc822_threadsortbydate qs mt) (\<lambda>mt. Some (r, mt)))))))"

declare id_above.simps [code] first_msg.simps [code] sort_nodes.simps [code]

end
