(* ===== verification/Imap_Refs_Links.thy ===== *)
theory Imap_Refs_Links
  imports Imap_Refs
begin

text \<open>
  What the operations on the links of \<open>Imap_Refs\<close> keep: the children of a message are the messages whose parent
  it is, each once, and no message is above itself.
\<close>

subsection \<open>Consistent links\<close>

definition par :: "refheap \<Rightarrow> (nat \<times> nat) set" where
  "par h = {(c, p). c < length h \<and> parent (h ! c) = Some p}"

definition linked :: "refheap \<Rightarrow> bool" where
  "linked h \<longleftrightarrow>
     (\<forall>m < length h. distinct (children (h ! m)) \<and>
       (\<forall>c. c \<in> set (children (h ! m)) \<longleftrightarrow> c < length h \<and> parent (h ! c) = Some m)) \<and>
     (\<forall>c < length h. \<forall>p. parent (h ! c) = Some p \<longrightarrow> p < length h) \<and> acyclic (par h)"

lemma linked_children:
  "linked h \<Longrightarrow> m < length h \<Longrightarrow> c \<in> set (children (h ! m)) \<longleftrightarrow> c < length h \<and> parent (h ! c) = Some m"
  by (simp add: linked_def)

lemma linked_distinct: "linked h \<Longrightarrow> m < length h \<Longrightarrow> distinct (children (h ! m))"
  by (simp add: linked_def)

lemma linked_parent: "linked h \<Longrightarrow> c < length h \<Longrightarrow> parent (h ! c) = Some p \<Longrightarrow> p < length h"
  by (simp add: linked_def)

lemma linked_acyclic: "linked h \<Longrightarrow> acyclic (par h)"
  by (simp add: linked_def)

lemma finite_par: "linked h \<Longrightarrow> finite (par h)"
  by (rule finite_subset [of _ "{..<length h} \<times> {..<length h}"]) (auto simp: par_def dest: linked_parent)

lemma wf_par: "linked h \<Longrightarrow> wf (par h)"
  by (simp add: finite_par linked_acyclic wf_iff_acyclic_if_finite)

lemma wf_child: "linked h \<Longrightarrow> wf ((par h)\<inverse>)"
  by (simp add: finite_par linked_acyclic finite_acyclic_wf_converse)

lemma single_valued_par: "single_valued (par h)"
  by (auto simp: single_valued_def par_def)

lemma no_self_parent: "linked h \<Longrightarrow> m < length h \<Longrightarrow> parent (h ! m) \<noteq> Some m"
  using linked_acyclic [of h] by (auto simp: acyclic_def par_def)

lemma linked_above_child:
  assumes h: "linked h" and c: "c < length h" "parent (h ! c) = Some a"
  shows "(a, c) \<notin> (par h)\<^sup>*"
proof
  assume "(a, c) \<in> (par h)\<^sup>*"
  moreover have "(c, a) \<in> par h"
    using c by (simp add: par_def)
  ultimately have "(a, a) \<in> (par h)\<^sup>+"
    by (rule rtrancl_into_trancl1)
  then show False
    using linked_acyclic [OF h] by (auto simp: acyclic_def)
qed

lemma above_root: "parent (h ! r) = None \<Longrightarrow> (r, x) \<in> (par h)\<^sup>* \<Longrightarrow> x = r"
  by (auto simp: par_def elim: converse_rtranclE)

lemma above_top:
  assumes "c < length h" "parent (h ! c) = Some r" "parent (h ! r) = None" "(c, x) \<in> (par h)\<^sup>*"
  shows "x = c \<or> x = r"
  using assms(4)
proof (cases rule: converse_rtranclE)
  case (step y)
  then show ?thesis
    using assms above_root [of h r x] by (auto simp: par_def)
qed simp

subsection \<open>Linking and unlinking\<close>

lemma length_linkparent [simp]: "length (linkparent m l h) = length h"
  by (simp add: linkparent_def Let_def)

lemma length_breakparent [simp]: "length (breakparent m h) = length h"
  by (simp add: breakparent_def Let_def split: option.split)

lemma length_move_msg [simp]: "length (move_msg b p h) = length h"
  by (simp add: move_msg_def)

lemma length_fold_links [simp]:
  "length (fold breakparent xs h) = length h"
  "length (fold (\<lambda>c. linkparent c r) xs h) = length h"
  "length (fold (move_msg b) xs h) = length h"
  by (induction xs arbitrary: h) simp_all

lemma length_move_children [simp]: "length (move_children a b h) = length h"
  by (simp add: move_children_def)

lemma linkparent_nth:
  "m < length h \<Longrightarrow> l < length h \<Longrightarrow>
   linkparent m l h ! x = (h ! x)\<lparr>parent := if x = m then Some l else parent (h ! x),
     children := if x = l then children (h ! l) @ [m] else children (h ! x)\<rparr>"
  by (cases "x = m"; cases "x = l") (simp_all add: linkparent_def Let_def nth_list_update)

lemma breakparent_nth:
  "linked h \<Longrightarrow> m < length h \<Longrightarrow>
   breakparent m h ! x = (h ! x)\<lparr>parent := if x = m then None else parent (h ! x),
     children := if parent (h ! m) = Some x then remove1 m (children (h ! x)) else children (h ! x)\<rparr>"
  using linked_parent [of h m] no_self_parent [of h m]
  by (cases "parent (h ! m)"; cases "x = m") (auto simp: breakparent_def Let_def nth_list_update)

lemma par_linkparent:
  "m < length h \<Longrightarrow> l < length h \<Longrightarrow> parent (h ! m) = None \<Longrightarrow> par (linkparent m l h) = insert (m, l) (par h)"
  by (auto simp: par_def linkparent_nth split: if_splits)

lemma par_breakparent: "linked h \<Longrightarrow> m < length h \<Longrightarrow> par (breakparent m h) = par h - {m} \<times> UNIV"
  by (auto simp: par_def breakparent_nth split: if_splits)

lemma linked_linkparent:
  assumes h: "linked h" and m: "m < length h" "l < length h" "parent (h ! m) = None" "(l, m) \<notin> (par h)\<^sup>*"
  shows "linked (linkparent m l h)"
proof -
  have "acyclic (par (linkparent m l h))"
    using linked_acyclic [OF h] m by (simp add: par_linkparent)
  moreover have "m \<notin> set (children (h ! l))"
    using m by (simp add: linked_children [OF h])
  ultimately show ?thesis
    using m linked_distinct [OF h] linked_parent [OF h]
    unfolding linked_def by (auto simp: linkparent_nth linked_children [OF h])
qed

lemma linked_breakparent:
  assumes h: "linked h" and m: "m < length h"
  shows "linked (breakparent m h)"
proof -
  have "acyclic (par (breakparent m h))"
    using acyclic_subset [OF linked_acyclic [OF h]] m by (auto simp: par_breakparent [OF h])
  then show ?thesis
    using m linked_distinct [OF h] linked_parent [OF h]
    unfolding linked_def by (auto simp: breakparent_nth [OF h] linked_children [OF h] dest: notin_set_remove1)
qed

lemma move_msg_nth:
  assumes h: "linked h" and p: "p < length h" "b < length h"
  shows "move_msg b p h ! x = (h ! x)\<lparr>parent := if x = p then Some b else parent (h ! x),
     children := (if parent (h ! p) = Some x then remove1 p (children (h ! x)) else children (h ! x)) @ (if x = b then [p] else [])\<rparr>"
  using p by (simp add: move_msg_def linkparent_nth breakparent_nth [OF h])

lemma par_move_msg:
  "linked h \<Longrightarrow> p < length h \<Longrightarrow> b < length h \<Longrightarrow> par (move_msg b p h) = insert (p, b) (par h - {p} \<times> UNIV)"
  by (auto simp: par_def move_msg_nth split: if_splits)

lemma linked_move_msg:
  assumes h: "linked h" and p: "p < length h" "b < length h" "(b, p) \<notin> (par h)\<^sup>*"
  shows "linked (move_msg b p h)"
proof -
  have "(b, p) \<notin> (par (breakparent p h))\<^sup>*"
    using p(3) rtrancl_mono [of "par h - {p} \<times> UNIV" "par h"] by (auto simp: par_breakparent [OF h p(1)])
  then show ?thesis
    unfolding move_msg_def using p by (intro linked_linkparent linked_breakparent h) (simp_all add: breakparent_nth [OF h])
qed

lemma above_move_msg:
  assumes h: "linked h" "p < length h" "b < length h" and b: "(b, p) \<notin> (par h)\<^sup>*" and x: "(b, x) \<in> (par (move_msg b p h))\<^sup>*"
  shows "(b, x) \<in> (par h)\<^sup>*"
  using x
proof induction
  case (step y z)
  then show ?case
    using b by (auto simp: par_move_msg [OF h] intro: rtrancl_into_rtrancl)
qed simp


subsection \<open>Moving all children\<close>

lemma above_child_a:
  assumes h: "linked h" and a: "a < length h" and b: "(b, a) \<notin> (par h)\<^sup>*" and c: "c \<in> set (children (h ! a))"
  shows "c < length h" "parent (h ! c) = Some a" "(b, c) \<notin> (par h)\<^sup>*"
proof -
  show c': "c < length h" "parent (h ! c) = Some a"
    using c a by (simp_all add: linked_children [OF h])
  then have "(c, a) \<in> par h"
    by (simp add: par_def)
  then show "(b, c) \<notin> (par h)\<^sup>*"
    using b by (auto intro: rtrancl_into_rtrancl)
qed

lemma fold_move_msg:
  assumes "linked h" "a < length h" "b < length h" "a \<noteq> b" "(b, a) \<notin> (par h)\<^sup>*" "children (h ! a) = cs"
  shows "linked (fold (move_msg b) cs h) \<and>
    (\<forall>x. fold (move_msg b) cs h ! x = (h ! x)\<lparr>parent := if x \<in> set cs then Some b else parent (h ! x),
       children := if x = a then [] else if x = b then children (h ! b) @ cs else children (h ! x)\<rparr>)"
  using assms
proof (induction cs arbitrary: h)
  case Nil
  then show ?case
    by simp
next
  case (Cons c cs)
  note h = Cons.prems(1)
  have c: "c < length h" "parent (h ! c) = Some a" "(b, c) \<notin> (par h)\<^sup>*"
    using above_child_a [OF h, of a b c] Cons.prems by auto
  let ?h = "move_msg b c h"
  have nth: "?h ! x = (h ! x)\<lparr>parent := if x = c then Some b else parent (h ! x),
      children := if x = a then cs else if x = b then children (h ! b) @ [c] else children (h ! x)\<rparr>" for x
    using Cons.prems c by (simp add: move_msg_nth [OF h])
  have l: "linked ?h"
    using Cons.prems c by (simp add: linked_move_msg)
  have "(b, a) \<notin> (par ?h)\<^sup>*"
    using above_move_msg [OF h c(1) Cons.prems(3) c(3), of a] Cons.prems(5) by blast
  then have "linked (fold (move_msg b) cs ?h) \<and>
    (\<forall>x. fold (move_msg b) cs ?h ! x = (?h ! x)\<lparr>parent := if x \<in> set cs then Some b else parent (?h ! x),
       children := if x = a then [] else if x = b then children (?h ! b) @ cs else children (?h ! x)\<rparr>)"
    using Cons.prems(2-4) by (intro Cons.IH l) (simp_all add: nth)
  then show ?case
    using Cons.prems(4) by (simp add: nth)
qed

lemma linked_move_children:
  "linked h \<Longrightarrow> a < length h \<Longrightarrow> b < length h \<Longrightarrow> a \<noteq> b \<Longrightarrow> (b, a) \<notin> (par h)\<^sup>* \<Longrightarrow> linked (move_children a b h)"
  using fold_move_msg [of h a b "children (h ! a)"] by (simp add: move_children_def)

lemma move_children_nth:
  "linked h \<Longrightarrow> a < length h \<Longrightarrow> b < length h \<Longrightarrow> a \<noteq> b \<Longrightarrow> (b, a) \<notin> (par h)\<^sup>* \<Longrightarrow>
   move_children a b h ! x = (h ! x)\<lparr>parent := if x \<in> set (children (h ! a)) then Some b else parent (h ! x),
     children := if x = a then [] else if x = b then children (h ! b) @ children (h ! a) else children (h ! x)\<rparr>"
  using fold_move_msg [of h a b "children (h ! a)"] by (simp add: move_children_def)

lemma fold_breakparent_children:
  assumes "linked h" "a < length h" "children (h ! a) = cs"
  shows "linked (fold breakparent cs h) \<and>
    (\<forall>x. fold breakparent cs h ! x = (h ! x)\<lparr>parent := if x \<in> set cs then None else parent (h ! x),
       children := if x = a then [] else children (h ! x)\<rparr>)"
  using assms
proof (induction cs arbitrary: h)
  case Nil
  then show ?case
    by simp
next
  case (Cons c cs)
  note h = Cons.prems(1)
  have c: "c < length h" "parent (h ! c) = Some a"
    using linked_children [OF h Cons.prems(2), of c] Cons.prems(3) by auto
  let ?h = "breakparent c h"
  have nth: "?h ! x = (h ! x)\<lparr>parent := if x = c then None else parent (h ! x), children := if x = a then cs else children (h ! x)\<rparr>" for x
    using Cons.prems c by (simp add: breakparent_nth [OF h])
  have "linked (fold breakparent cs ?h) \<and>
    (\<forall>x. fold breakparent cs ?h ! x = (?h ! x)\<lparr>parent := if x \<in> set cs then None else parent (?h ! x),
       children := if x = a then [] else children (?h ! x)\<rparr>)"
    using Cons.prems(2) c by (intro Cons.IH linked_breakparent h) (simp_all add: nth)
  then show ?case
    by (simp add: nth)
qed

lemma fold_linkparent_nth:
  "set ys \<subseteq> {..<length h} \<Longrightarrow> r < length h \<Longrightarrow>
   fold (\<lambda>c. linkparent c r) ys h ! x = (h ! x)\<lparr>parent := if x \<in> set ys then Some r else parent (h ! x),
     children := if x = r then children (h ! r) @ ys else children (h ! x)\<rparr>"
  by (induction ys arbitrary: h) (auto simp: linkparent_nth)

text \<open>Unlinking the children and linking them in another order changes their order only.\<close>

lemma relink:
  assumes h: "linked h" "r < length h" and ys: "mset ys = mset (children (h ! r))"
  shows "fold (\<lambda>c. linkparent c r) ys (fold breakparent (children (h ! r)) h) = h[r := (h ! r)\<lparr>children := ys\<rparr>]"
proof (rule nth_equalityI)
  fix x
  have s: "set ys = set (children (h ! r))"
    using ys by (metis set_mset_mset)
  then have le: "set ys \<subseteq> {..<length h}"
    by (auto simp: linked_children [OF h])
  assume "x < length (fold (\<lambda>c. linkparent c r) ys (fold breakparent (children (h ! r)) h))"
  then show "fold (\<lambda>c. linkparent c r) ys (fold breakparent (children (h ! r)) h) ! x = h[r := (h ! r)\<lparr>children := ys\<rparr>] ! x"
    using fold_breakparent_children [OF h refl] le h(2)
    by (cases "x = r") (auto simp: fold_linkparent_nth s nth_list_update linked_children [OF h])
qed simp

subsection \<open>New messages and other data\<close>

lemma linked_same:
  assumes h: "linked h" and same: "length h' = length h" "\<And>x. x < length h \<Longrightarrow> parent (h' ! x) = parent (h ! x)"
    "\<And>x. x < length h \<Longrightarrow> mset (children (h' ! x)) = mset (children (h ! x))"
  shows "linked h'" "par h' = par h"
proof -
  show p: "par h' = par h"
    by (auto simp: par_def same)
  have "set (children (h' ! x)) = set (children (h ! x))" "distinct (children (h' ! x))" if "x < length h" for x
    using same(3) [OF that] linked_distinct [OF h that] by (metis set_mset_mset, metis mset_eq_imp_distinct_iff)
  then show "linked h'"
    using linked_acyclic [OF h] linked_parent [OF h] unfolding linked_def p by (auto simp: same linked_children [OF h])
qed

lemma linked_update:
  assumes h: "linked h" and m: "parent m' = parent (h ! m)" "children m' = children (h ! m)"
  shows "linked (h[m := m'])" "par (h[m := m']) = par h"
proof -
  have "parent (h[m := m'] ! x) = parent (h ! x)" "mset (children (h[m := m'] ! x)) = mset (children (h ! x))"
    if "x < length h" for x
    using that by (cases "x = m"; simp add: m)+
  then show "linked (h[m := m'])" "par (h[m := m']) = par h"
    using linked_same [OF h, of "h[m := m']"] by auto
qed

lemma linked_append:
  assumes h: "linked h" and m: "parent m = None" "children m = []"
  shows "linked (h @ [m])" "par (h @ [m]) = par h"
proof -
  show p: "par (h @ [m]) = par h"
    using m by (auto simp: par_def nth_append split: if_splits)
  have none: "parent (h ! c) \<noteq> Some (length h)" if "c < length h" for c
    using linked_parent [OF h that] by auto
  have "c \<in> set (children ((h @ [m]) ! x)) \<longleftrightarrow> c < length (h @ [m]) \<and> parent ((h @ [m]) ! c) = Some x"
    if "x < length (h @ [m])" for x c
    using that none m by (auto simp: nth_append linked_children [OF h] less_Suc_eq)
  moreover have "distinct (children ((h @ [m]) ! x))" if "x < length (h @ [m])" for x
    using that m linked_distinct [OF h] by (auto simp: nth_append less_Suc_eq)
  moreover have "q < length (h @ [m])" if "c < length (h @ [m])" "parent ((h @ [m]) ! c) = Some q" for c q
    using that m linked_parent [OF h, of c q] by (auto simp: nth_append less_Suc_eq split: if_splits)
  ultimately show "linked (h @ [m])"
    using linked_acyclic [OF h] unfolding linked_def p by blast
qed


text \<open>The data of the messages apart from their links, and the sequence numbers of those that are there.\<close>

definition strip :: "refmsg \<Rightarrow> refmsg" where
  "strip r = r\<lparr>parent := None, children := []\<rparr>"

definition alive :: "refmsg \<Rightarrow> nat multiset" where
  "alive r = (if isdummy r then {#} else {#seqnum r#})"

definition live :: "refheap \<Rightarrow> nat multiset" where
  "live h = sum_list (map alive h)"

lemma strip_links [simp]: "strip (r\<lparr>parent := p\<rparr>) = strip r" "strip (r\<lparr>children := cs\<rparr>) = strip r"
  by (simp_all add: strip_def)

lemma strip_data:
  assumes "strip r = strip r'"
  shows "isdummy r = isdummy r'" "flag2 r = flag2 r'" "msubj r = msubj r'" "seqnum r = seqnum r'" "msgid r = msgid r'"
    "timestamp r = timestamp r'"
  using arg_cong [OF assms, of isdummy] arg_cong [OF assms, of flag2] arg_cong [OF assms, of msubj]
    arg_cong [OF assms, of seqnum] arg_cong [OF assms, of msgid] arg_cong [OF assms, of timestamp]
  by (simp_all add: strip_def)

lemma map_update_same: "f y = f (xs ! i) \<Longrightarrow> map f (xs[i := y]) = map f xs"
  by (cases "i < length xs") (simp_all add: map_update list_update_same_conv list_update_beyond)

lemma strip_linkparent [simp]: "map strip (linkparent m l h) = map strip h"
  by (simp add: linkparent_def Let_def map_update_same)

lemma strip_breakparent [simp]: "map strip (breakparent m h) = map strip h"
  by (simp add: breakparent_def Let_def map_update_same split: option.split)

lemma strip_move_msg [simp]: "map strip (move_msg b p h) = map strip h"
  by (simp add: move_msg_def)

lemma strip_folds [simp]:
  "map strip (fold breakparent xs h) = map strip h"
  "map strip (fold (\<lambda>c. linkparent c r) xs h) = map strip h"
  "map strip (fold (move_msg b) xs h) = map strip h"
  by (induction xs arbitrary: h) simp_all

lemma strip_move_children [simp]: "map strip (move_children a b h) = map strip h"
  by (simp add: move_children_def)

lemma strip_nth: "map strip h' = map strip h \<Longrightarrow> x < length h \<Longrightarrow> strip (h' ! x) = strip (h ! x)"
  by (metis length_map nth_map)

lemma live_strip: "map strip h' = map strip h \<Longrightarrow> live h' = live h"
proof -
  have "map alive h = map (alive \<circ> (\<lambda>r. r)) (map strip h)" for h
    by (simp add: alive_def strip_def)
  then show "map strip h' = map strip h \<Longrightarrow> live h' = live h"
    by (metis live_def)
qed

lemma live_append [simp]: "live (h @ h') = live h + live h'"
  by (simp add: live_def)

lemma live_Cons [simp]: "live (r # h) = alive r + live h"
  by (simp add: live_def)

lemma live_Nil [simp]: "live [] = {#}"
  by (simp add: live_def)

lemma live_update: "m < length h \<Longrightarrow> live (h[m := r]) + alive (h ! m) = live h + alive r"
  by (induction h arbitrary: m) (auto simp: less_Suc_eq_0_disj nth_Cons' split: nat.split)

end
