(* ===== verification/Imap_Refs_Build.thy ===== *)
theory Imap_Refs_Build
  imports Imap_Refs_Links
begin

text \<open>
  The first phases of threading (\<open>Imap_Refs\<close>): adding messages keeps the links of the table consistent and adds one
  sequence number each; pruning keeps both, and then every message is below the root or is an empty dummy.
\<close>

subsection \<open>Lookups\<close>

lemma strcmp_eq [simp]: "strcmp a b = 0 \<longleftrightarrow> a = b"
  by (induction a b rule: strcmp.induct) auto

lemma strcmp_refl [simp]: "strcmp a a = 0"
  by simp

lemma strcmp_Nil [simp]: "\<not> strcmp [] b > 0"
  by (cases b) simp_all

lemma strcmp_trans: "strcmp a b > 0 \<Longrightarrow> strcmp b c > 0 \<Longrightarrow> strcmp a c > 0"
proof (induction a b arbitrary: c rule: strcmp.induct)
  case (4 x s y t)
  then show ?case
    by (cases c) (auto split: if_splits)
qed auto

lemma set_insert_hash [simp]: "set (insert_hash h s x ms) = insert x (set ms)"
  by (induction ms) auto

lemma search_hash_mem: "search_hash h s ms = Some m \<Longrightarrow> m \<in> set ms"
  by (induction ms) (auto simp: Let_def split: if_splits)

lemma find_put_same [simp]: "find_chain (lsubj e) (put_chain e es) = Some e"
  by (induction es) (auto simp: Let_def)

lemma find_put_other:
  "ss \<noteq> lsubj e \<Longrightarrow> find_chain ss (put_chain e es) = find_chain ss es"
  by (induction es) (auto simp: Let_def dest: strcmp_trans)

lemma find_chain_key: "find_chain ss es = Some e \<Longrightarrow> lsubj e = ss"
  by (induction es) (auto simp: Let_def split: if_splits)

subsection \<open>Tables under construction\<close>

definition building :: "refmsgtable \<Rightarrow> bool" where
  "building mt \<longleftrightarrow>
     linked (msgs mt) \<and> (\<forall>n. set (hashtable mt n) \<subseteq> {..<length (msgs mt)}) \<and>
     (\<forall>m < length (msgs mt). \<not> flag2 (msgs mt ! m)) \<and> subjtable mt = (\<lambda>_. []) \<and> rootptr mt = None"

lemma building_linked: "building mt \<Longrightarrow> linked (msgs mt)"
  by (simp add: building_def)

lemma building_alloc: "building rfc822_threadalloc"
  by (simp add: building_def rfc822_threadalloc_def linked_def par_def acyclic_def)

lemma building_on_msgs:
  assumes "building mt" "linked (f (msgs mt))" "length (f (msgs mt)) = length (msgs mt)"
    "\<And>m. m < length (msgs mt) \<Longrightarrow> flag2 (f (msgs mt) ! m) = flag2 (msgs mt ! m)"
  shows "building (on_msgs f mt)"
  using assms by (simp add: building_def on_msgs_def)

lemma msgs_on_msgs [simp]: "msgs (on_msgs f mt) = f (msgs mt)"
  by (simp add: on_msgs_def)

lemma building_strip:
  assumes "building mt" "linked (f (msgs mt))" "map strip (f (msgs mt)) = map strip (msgs mt)"
  shows "building (on_msgs f mt)"
  using assms map_eq_imp_length_eq [OF assms(3)] by (intro building_on_msgs) (auto intro!: strip_data(2) strip_nth)

text \<open>A new message, with what its data are.\<close>

lemma building_append:
  assumes mt: "building mt" and r: "parent r = None" "children r = []" "\<not> flag2 r"
    and ht: "\<And>n. set (ht n) \<subseteq> insert (length (msgs mt)) (set (hashtable mt n))"
  shows "building (mt\<lparr>msgs := msgs mt @ [r], hashtable := ht\<rparr>)"
proof -
  have "set (ht n) \<subseteq> {..<Suc (length (msgs mt))}" for n
    using ht [of n] mt by (fastforce simp: building_def)
  then show ?thesis
    using mt r by (auto simp: building_def linked_append nth_append less_Suc_eq)
qed

lemma alloc_msg:
  assumes mt: "building mt" and e: "rfc822_threadallocmsg s mt = (x, mt')"
  shows "x = length (msgs mt)" "length (msgs mt') = Suc (length (msgs mt))" "parent (msgs mt' ! x) = None" "\<not> isdummy (msgs mt' ! x)"
    "live (msgs mt') = add_mset (seqnum (msgs mt' ! x)) (live (msgs mt))"
    "children (msgs mt' ! x) = []" "building mt'" "building (on_msgs (\<lambda>h. h[x := (h ! x)\<lparr>isdummy := True\<rparr>]) mt')"
    "live ((msgs mt')[x := (msgs mt' ! x)\<lparr>isdummy := True\<rparr>]) = live (msgs mt)"
proof -
  let ?r = "\<lparr>parent = None, children = [], isdummy = False, flag2 = False, msgid = s, msubj = None, timestamp = 0, seqnum = 0\<rparr>"
  have mt': "mt' = mt\<lparr>msgs := msgs mt @ [?r], hashtable :=
      (hashtable mt)(hashmsgid s := insert_hash (msgs mt) s x (hashtable mt (hashmsgid s)))\<rparr>" and x: "x = length (msgs mt)"
    using e by (auto simp: rfc822_threadallocmsg_def Let_def)
  show "x = length (msgs mt)"
    by (fact x)
  show "length (msgs mt') = Suc (length (msgs mt))" "parent (msgs mt' ! x) = None" "\<not> isdummy (msgs mt' ! x)"
    "live (msgs mt') = add_mset (seqnum (msgs mt' ! x)) (live (msgs mt))" "children (msgs mt' ! x) = []"
    "live ((msgs mt')[x := (msgs mt' ! x)\<lparr>isdummy := True\<rparr>]) = live (msgs mt)"
    by (simp_all add: mt' x nth_append alive_def)
  show "building mt'"
    unfolding mt' by (rule building_append [OF mt]) (auto simp: x)
  have "on_msgs (\<lambda>h. h[x := (h ! x)\<lparr>isdummy := True\<rparr>]) mt' = mt\<lparr>msgs := msgs mt @ [?r\<lparr>isdummy := True\<rparr>], hashtable :=
      (hashtable mt)(hashmsgid s := insert_hash (msgs mt) s x (hashtable mt (hashmsgid s)))\<rparr>"
    by (simp add: on_msgs_def mt' x)
  then show "building (on_msgs (\<lambda>h. h[x := (h ! x)\<lparr>isdummy := True\<rparr>]) mt')"
    by (simp only:) (rule building_append [OF mt], auto simp: x)
qed

lemma search_msg: "building mt \<Longrightarrow> rfc822_threadsearchmsg s mt = Some m \<Longrightarrow> m < length (msgs mt)"
  by (force simp: building_def rfc822_threadsearchmsg_def dest!: search_hash_mem)

text \<open>The search for a loop ends, and finds the message itself above the other.\<close>

lemma id_above_total:
  assumes h: "linked h" and l: "l < length h"
  shows "\<exists>b. id_above h s l = Some b \<and> (\<not> b \<longrightarrow> (\<forall>m. (l, m) \<in> (par h)\<^sup>* \<longrightarrow> msgid (h ! m) \<noteq> s))"
  using l
proof (induction l rule: wf_induct_rule [OF wf_child [OF h]])
  case (1 l)
  show ?case
  proof (cases "msgid (h ! l) = s")
    case True
    then show ?thesis
      by (intro exI [of _ True]) (simp add: id_above.simps)
  next
    case other: False
    show ?thesis
    proof (cases "parent (h ! l)")
      case None
      then show ?thesis
        using other above_root [OF None] by (auto simp: id_above.simps)
    next
      case (Some p)
      then have p: "(l, p) \<in> par h" "p < length h"
        using 1(2) linked_parent [OF h] by (auto simp: par_def)
      then obtain b where b: "id_above h s p = Some b" "\<not> b \<longrightarrow> (\<forall>m. (p, m) \<in> (par h)\<^sup>* \<longrightarrow> msgid (h ! m) \<noteq> s)"
        using 1(1) [of p] by auto
      have "m = l \<or> (p, m) \<in> (par h)\<^sup>*" if "(l, m) \<in> (par h)\<^sup>*" for m
        using that p(1) single_valuedD [OF single_valued_par] by (metis converse_rtranclE)
      then show ?thesis
        using b other Some by (auto simp: id_above.simps)
    qed
  qed
qed

text \<open>The guarded link, and so the loop over the references.\<close>

lemma guarded_link:
  assumes mt: "building mt" and m: "m < length (msgs mt)" "l < length (msgs mt)" "parent (msgs mt ! m) = None"
  shows "\<exists>mt'. map_option (\<lambda>above. (if above then mt else on_msgs (linkparent m l) mt, y)) (id_above (msgs mt) (msgid (msgs mt ! m)) l)
      = Some (mt', y) \<and> building mt' \<and> map strip (msgs mt') = map strip (msgs mt)"
proof -
  note h = building_linked [OF mt]
  obtain b where b: "id_above (msgs mt) (msgid (msgs mt ! m)) l = Some b"
    "\<not> b \<longrightarrow> (l, m) \<notin> (par (msgs mt))\<^sup>*"
    using id_above_total [OF h m(2), of "msgid (msgs mt ! m)"] by blast
  show ?thesis
  proof (cases b)
    case False
    then have "building (on_msgs (linkparent m l) mt)"
      using b m by (intro building_strip mt linked_linkparent h) simp_all
    then show ?thesis
      using b False by simp
  qed (use b mt in simp)
qed


lemma length_strip: "map strip h' = map strip h \<Longrightarrow> length h' = length h"
  by (rule map_eq_imp_length_eq)

lemma ref_step_valid:
  assumes mt: "building mt" and l: "\<And>l. lastmsg = Some l \<Longrightarrow> l < length (msgs mt)"
  shows "\<exists>mt' m. ref_step s (mt, lastmsg) = Some (mt', Some m) \<and> building mt' \<and> m < length (msgs mt') \<and> live (msgs mt') = live (msgs mt)"
proof -
  obtain m mt1 where e: "(case if s \<noteq> [] then rfc822_threadsearchmsg s mt else None of
        Some m \<Rightarrow> (m, mt)
      | None \<Rightarrow> (case rfc822_threadallocmsg s mt of (m, mt) \<Rightarrow> (m, on_msgs (\<lambda>h. h[m := (h ! m)\<lparr>isdummy := True\<rparr>]) mt))) = (m, mt1)"
    by (rule prod.exhaust)
  have m: "building mt1" "m < length (msgs mt1)" "live (msgs mt1) = live (msgs mt)" "length (msgs mt) \<le> length (msgs mt1)"
    using e mt search_msg [OF mt] alloc_msg [OF mt] by (auto split: option.splits if_splits prod.splits)
  show ?thesis
  proof (cases lastmsg)
    case None
    then show ?thesis
      using e m by (simp add: ref_step_def Let_def)
  next
    case (Some l)
    then have l: "l < length (msgs mt1)"
      using assms(2) m(4) by fastforce
    show ?thesis
    proof (cases "parent (msgs mt1 ! m)")
      case None
      obtain mt' where g: "map_option (\<lambda>above. (if above then mt1 else on_msgs (linkparent m l) mt1, Some m))
          (id_above (msgs mt1) (msgid (msgs mt1 ! m)) l) = Some (mt', Some m)" "building mt'"
          "map strip (msgs mt') = map strip (msgs mt1)"
        using guarded_link [OF m(1,2) l None, of "Some m"] by blast
      have "ref_step s (mt, lastmsg) = Some (mt', Some m)"
        using g(1) None by (simp add: ref_step_def e Some)
      then show ?thesis
        using g(2) m(2,3) live_strip [OF g(3)] length_strip [OF g(3)] by simp
    qed (use e m Some in \<open>auto simp: ref_step_def Let_def\<close>)
  qed
qed

lemma each_ref_step:
  assumes "building mt" "\<And>l. lastmsg = Some l \<Longrightarrow> l < length (msgs mt)"
  shows "\<exists>mt' lastmsg'. each ref_step refs (mt, lastmsg) = Some (mt', lastmsg') \<and> building mt' \<and> live (msgs mt') = live (msgs mt) \<and>
    (\<forall>l. lastmsg' = Some l \<longrightarrow> l < length (msgs mt'))"
  using assms
proof (induction refs arbitrary: mt lastmsg)
  case (Cons s refs)
  obtain mt' m where "ref_step s (mt, lastmsg) = Some (mt', Some m)" "building mt'" "m < length (msgs mt')"
      "live (msgs mt') = live (msgs mt)"
    using ref_step_valid [of mt lastmsg s] Cons.prems by blast
  then show ?case
    using Cons.IH [of mt' "Some m"] by auto
qed simp

lemma own_msg_valid:
  assumes mt: "building mt" and e: "own_msg s mt = (m, mt')"
  shows "building mt'" "m < length (msgs mt')" "length (msgs mt) \<le> length (msgs mt')" "parent (msgs mt' ! m) = None"
    "\<not> isdummy (msgs mt' ! m)" "live (msgs mt') = add_mset (seqnum (msgs mt' ! m)) (live (msgs mt))"
proof -
  note h = building_linked [OF mt]
  define found where "found = (if s \<noteq> [] then rfc822_threadsearchmsg s mt else None)"
  have "building mt' \<and> m < length (msgs mt') \<and> length (msgs mt) \<le> length (msgs mt') \<and> parent (msgs mt' ! m) = None \<and>
    \<not> isdummy (msgs mt' ! m) \<and> live (msgs mt') = add_mset (seqnum (msgs mt' ! m)) (live (msgs mt))"
  proof (cases found)
    case None
    then show ?thesis
      using e alloc_msg [OF mt, of s m mt'] by (simp add: own_msg_def flip: found_def)
  next
    case (Some x)
    then have x: "x < length (msgs mt)"
      using search_msg [OF mt, of s] by (simp add: found_def split: if_splits)
    show ?thesis
    proof (cases "isdummy (msgs mt ! x)")
      case True
      define r where "r = (msgs mt ! x)\<lparr>isdummy := False\<rparr>"
      have m: "m = x" "mt' = on_msgs (\<lambda>h. breakparent x (h[x := (h ! x)\<lparr>isdummy := False\<rparr>])) mt"
        using e Some True by (auto simp: own_msg_def simp flip: found_def)
      have l: "linked ((msgs mt)[x := r])"
        by (simp add: linked_update h r_def)
      have strip: "map strip (msgs mt') = map strip ((msgs mt)[x := r])"
        by (simp add: m r_def)
      have live: "live (msgs mt') = add_mset (seqnum (msgs mt ! x)) (live (msgs mt))"
        using live_update [OF x, of r] True unfolding live_strip [OF strip] by (simp add: alive_def r_def)
      have nth: "msgs mt' ! x = r\<lparr>parent := None\<rparr>"
        using x no_self_parent [OF h x] breakparent_nth [OF l, of x x] by (auto simp: m r_def)
      have "building mt'"
        unfolding m using x linked_breakparent [OF l] breakparent_nth [OF l]
        by (intro building_on_msgs mt) (auto simp: r_def nth_list_update)
      then show ?thesis
        using x nth live by (simp add: m r_def)
    next
      case False
      define mt1 where "mt1 = on_msgs (\<lambda>h. breakparent x (fold breakparent (children (h ! x)) h)) mt"
      have strip: "map strip (msgs mt1) = map strip (msgs mt)"
        by (simp add: mt1_def)
      have "building mt1"
        unfolding mt1_def using fold_breakparent_children [OF h x refl] x
        by (intro building_strip mt) (auto intro: linked_breakparent)
      moreover have "rfc822_threadallocmsg [] mt1 = (m, mt')"
        using e Some False by (simp add: own_msg_def mt1_def flip: found_def)
      ultimately show ?thesis
        using alloc_msg [of mt1 "[]" m mt'] live_strip [OF strip] length_strip [OF strip] by simp
    qed
  qed
  then show "building mt'" "m < length (msgs mt')" "length (msgs mt) \<le> length (msgs mt')" "parent (msgs mt' ! m) = None"
    "\<not> isdummy (msgs mt' ! m)" "live (msgs mt') = add_mset (seqnum (msgs mt' ! m)) (live (msgs mt))"
    by simp_all
qed

lemma dorefcreate_valid:
  assumes mt: "building mt"
  shows "\<exists>mt' m. dorefcreate s refs mt = Some (mt', m) \<and> building mt' \<and> m < length (msgs mt') \<and> \<not> isdummy (msgs mt' ! m) \<and>
    live (msgs mt') = add_mset (seqnum (msgs mt' ! m)) (live (msgs mt))"
proof -
  obtain mt1 lastmsg where 1: "each ref_step refs (mt, None) = Some (mt1, lastmsg)" "building mt1" "live (msgs mt1) = live (msgs mt)"
      "\<forall>l. lastmsg = Some l \<longrightarrow> l < length (msgs mt1)"
    using each_ref_step [OF mt, of None refs] by auto
  obtain m mt2 where e: "own_msg s mt1 = (m, mt2)"
    by (rule prod.exhaust)
  note 2 = own_msg_valid [OF 1(2) e]
  show ?thesis
  proof (cases lastmsg)
    case None
    then show ?thesis
      using 1 2 e by (simp add: dorefcreate_def)
  next
    case (Some l)
    then have "l < length (msgs mt2)"
      using 1(4) 2(3) by fastforce
    from guarded_link [OF 2(1,2) this 2(4), of m] obtain mt' where
      3: "dorefcreate s refs mt = Some (mt', m)" "building mt'" "map strip (msgs mt') = map strip (msgs mt2)"
      using 1(1) e Some by (auto simp: dorefcreate_def)
    then show ?thesis
      using 2 1(3) live_strip [OF 3(3)] length_strip [OF 3(3)] strip_data [OF strip_nth [OF 3(3) 2(2)]] by simp
  qed
qed

lemma rfc822_threadmsg_valid:
  assumes mt: "building mt"
  shows "\<exists>mt'. rfc822_threadmsg hs mt = Some mt' \<and> building mt' \<and> live (msgs mt') = add_mset (hseqnum hs) (live (msgs mt))"
proof -
  let ?ids = "header_ids (case msgidhdr hs of None \<Rightarrow> [] | Some s \<Rightarrow> s)"
  let ?refs = "header_ids (case refhdr hs of None \<Rightarrow> [] | Some s \<Rightarrow> s)"
  obtain mt1 m where 1: "dorefcreate (if ?ids = [] then [] else hd ?ids) ?refs mt = Some (mt1, m)" "building mt1"
      "m < length (msgs mt1)" "\<not> isdummy (msgs mt1 ! m)" "live (msgs mt1) = add_mset (seqnum (msgs mt1 ! m)) (live (msgs mt))"
    using dorefcreate_valid [OF mt, of "if ?ids = [] then [] else hd ?ids" ?refs] by blast
  define f where "f = (\<lambda>h :: refheap. h[m := (h ! m)
               \<lparr>msubj := (case subjheader hs of None \<Rightarrow> msubj (h ! m) | Some s \<Rightarrow> Some s),
                timestamp := (case dateheader hs of None \<Rightarrow> 0 | Some d \<Rightarrow> rfc822_parsedt d),
                seqnum := hseqnum hs\<rparr>])"
  have "building (on_msgs f mt1)"
    using 1(3) building_linked [OF 1(2)] by (intro building_on_msgs 1(2)) (auto simp: f_def linked_update nth_list_update)
  moreover have "live (f (msgs mt1)) = add_mset (hseqnum hs) (live (msgs mt))"
    using live_update [OF 1(3), of "f (msgs mt1) ! m"] 1(3-5) by (simp add: f_def alive_def)
  ultimately show ?thesis
    using 1(1) by (simp add: rfc822_threadmsg_def Let_def f_def)
qed

lemma rfc822_threadmsgs_valid:
  assumes "building mt"
  shows "\<exists>mt'. rfc822_threadmsgs hss mt = Some mt' \<and> building mt' \<and> live (msgs mt') = mset (map hseqnum hss) + live (msgs mt)"
  using assms
proof (induction hss arbitrary: mt)
  case (Cons hs hss)
  obtain mt' where "rfc822_threadmsg hs mt = Some mt'" "building mt'" "live (msgs mt') = add_mset (hseqnum hs) (live (msgs mt))"
    using rfc822_threadmsg_valid [OF Cons.prems] by blast
  then show ?case
    using Cons.IH [of mt'] by (auto simp: rfc822_threadmsgs_def)
qed (simp add: rfc822_threadmsgs_def)


subsection \<open>Pruning and the root\<close>

lemma prune_step_linked:
  assumes h: "linked h" and m: "m < length h"
  shows "linked (prune_step m h)" "map strip (prune_step m h) = map strip h"
proof -
  have "linked (move_children m p (breakparent m h))" if p: "parent (h ! m) = Some p" for p
  proof -
    have "(p, m) \<notin> (par (breakparent m h))\<^sup>*"
      using linked_above_child [OF h m p] rtrancl_mono [of "par h - {m} \<times> UNIV" "par h"] by (auto simp: par_breakparent [OF h m])
    then show ?thesis
      using m linked_parent [OF h m p] no_self_parent [OF h m] p by (intro linked_move_children linked_breakparent h) auto
  qed
  then show "linked (prune_step m h)"
    using h linked_breakparent [OF h m] by (auto simp: prune_step_def split: option.split)
  show "map strip (prune_step m h) = map strip h"
    by (simp add: prune_step_def split: option.split)
qed

lemma fold_prune_step:
  "linked h \<Longrightarrow> set xs \<subseteq> {..<length h} \<Longrightarrow> linked (fold prune_step xs h) \<and> map strip (fold prune_step xs h) = map strip h"
proof (induction xs arbitrary: h)
  case (Cons m xs)
  have m: "m < length h"
    using Cons.prems by simp
  have "length (prune_step m h) = length h"
    by (rule length_strip [OF prune_step_linked(2) [OF Cons.prems(1) m]])
  then show ?case
    using Cons.IH [of "prune_step m h"] Cons.prems prune_step_linked [OF Cons.prems(1) m] by simp
qed simp

lemma prune_building:
  assumes mt: "building mt"
  shows "building (rfc822_threadprune mt)" "live (msgs (rfc822_threadprune mt)) = live (msgs mt)"
proof -
  have "linked (fold prune_step [0..<length (msgs mt)] (msgs mt))"
    "map strip (fold prune_step [0..<length (msgs mt)] (msgs mt)) = map strip (msgs mt)"
    using fold_prune_step [OF building_linked [OF mt], of "[0..<length (msgs mt)]"] by (simp_all add: lessThan_atLeast0)
  then show "building (rfc822_threadprune mt)" "live (msgs (rfc822_threadprune mt)) = live (msgs mt)"
    unfolding rfc822_threadprune_def by (auto intro: building_strip mt live_strip)
qed

text \<open>Every message is below the root or an empty dummy.\<close>

definition rooted :: "nat \<Rightarrow> refheap \<Rightarrow> bool" where
  "rooted r h \<longleftrightarrow>
     linked h \<and> r < length h \<and> isdummy (h ! r) \<and> parent (h ! r) = None \<and>
     (\<forall>m < length h. m \<noteq> r \<longrightarrow> parent (h ! m) = None \<longrightarrow> isdummy (h ! m) \<and> children (h ! m) = [])"

lemma rootedD:
  assumes "rooted r h"
  shows "linked h" "r < length h" "isdummy (h ! r)" "parent (h ! r) = None"
    "m < length h \<Longrightarrow> m \<noteq> r \<Longrightarrow> parent (h ! m) = None \<Longrightarrow> isdummy (h ! m) \<and> children (h ! m) = []"
  using assms by (auto simp: rooted_def)

lemma root_step_linked:
  assumes h: "linked h" "r < length h" "parent (h ! r) = None" and m: "m < length h" "m \<noteq> r"
  shows "linked (root_step r m h)" "length (root_step r m h) = length h" "map strip (root_step r m h) = map strip h"
    "x \<noteq> m \<Longrightarrow> parent (root_step r m h ! x) = parent (h ! x)" "x \<noteq> r \<Longrightarrow> children (root_step r m h ! x) = children (h ! x)"
    "parent (root_step r m h ! m) = None \<Longrightarrow> isdummy (h ! m) \<and> children (h ! m) = []"
    "isdummy (h ! m) \<Longrightarrow> children (h ! m) = [] \<Longrightarrow> root_step r m h = h"
  using assms above_root [OF h(3), of m] linked_linkparent [OF h(1) m(1) h(2)]
  by (auto simp: root_step_def linkparent_nth split: if_splits)

lemma fold_root_step:
  assumes "linked h" "r < length h" "parent (h ! r) = None" "set xs \<subseteq> {..<length h}" "r \<notin> set xs"
  shows "linked (fold (root_step r) xs h) \<and> map strip (fold (root_step r) xs h) = map strip h \<and>
    parent (fold (root_step r) xs h ! r) = None \<and> (\<forall>x. x \<noteq> r \<longrightarrow> children (fold (root_step r) xs h ! x) = children (h ! x)) \<and>
    (\<forall>x. x \<notin> set xs \<longrightarrow> parent (fold (root_step r) xs h ! x) = parent (h ! x)) \<and>
    (\<forall>m \<in> set xs. parent (fold (root_step r) xs h ! m) = None \<longrightarrow> isdummy (h ! m) \<and> children (h ! m) = [])"
  using assms
proof (induction xs arbitrary: h)
  case (Cons m xs)
  have m: "m < length h" "m \<noteq> r"
    using Cons.prems by auto
  note st = root_step_linked [OF Cons.prems(1-3) m]
  note IH = Cons.IH [of "root_step r m h"]
  have d: "isdummy (root_step r m h ! x) = isdummy (h ! x)" if "x \<in> set xs" for x
    using that Cons.prems(4) by (intro strip_data(1) strip_nth [OF st(3)]) auto
  have c: "children (root_step r m h ! x) = children (h ! x)" if "x \<in> set xs" for x
    using that Cons.prems(5) by (intro st(5)) auto
  show ?case
    using IH st(1-6) Cons.prems d c by (cases "m \<in> set xs") auto
qed simp

lemma fold_root_step_idle:
  assumes "linked h" "r < length h" "parent (h ! r) = None" "set xs \<subseteq> {..<length h}" "r \<notin> set xs"
    and "x < length h" "x \<noteq> r" "isdummy (h ! x)" "children (h ! x) = []"
  shows "parent (fold (root_step r) xs h ! x) = parent (h ! x)"
  using assms
proof (induction xs arbitrary: h)
  case (Cons m xs)
  have m: "m < length h" "m \<noteq> r"
    using Cons.prems by auto
  note st = root_step_linked [OF Cons.prems(1-3) m]
  have "isdummy (root_step r m h ! x)" "children (root_step r m h ! x) = []"
    using strip_data(1) [OF strip_nth [OF st(3)]] st(5) Cons.prems by auto
  moreover have "parent (root_step r m h ! x) = parent (h ! x)" "parent (root_step r m h ! r) = None"
    using st(4) [of x] st(4) [of r] st(7) m Cons.prems by (cases "x = m"; simp)+
  ultimately show ?case
    using Cons.IH [of "root_step r m h"] st(1,2) Cons.prems by simp
qed simp

text \<open>While the messages are linked to the root, the root is its own parent; that only keeps it from being linked.\<close>

lemma root_step_self:
  "m \<noteq> r \<Longrightarrow> m < length h \<Longrightarrow> r < length h \<Longrightarrow>
   root_step r m (h[r := (h ! r)\<lparr>parent := p\<rparr>]) = (root_step r m h)[r := (root_step r m h ! r)\<lparr>parent := p\<rparr>]"
  by (rule nth_equalityI) (auto simp: root_step_def linkparent_nth nth_list_update)

lemma length_root_step [simp]: "length (root_step r m h) = length h"
  by (simp add: root_step_def)

lemma fold_root_step_self:
  "set xs \<subseteq> {..<length h} \<Longrightarrow> r \<notin> set xs \<Longrightarrow> r < length h \<Longrightarrow>
   fold (root_step r) xs (h[r := (h ! r)\<lparr>parent := p\<rparr>]) = (fold (root_step r) xs h)[r := (fold (root_step r) xs h ! r)\<lparr>parent := p\<rparr>]"
proof (induction xs arbitrary: h)
  case (Cons m xs)
  then show ?case
    using root_step_self [of m r h p] Cons.IH [of "root_step r m h"] by auto
qed simp

definition tops :: "nat \<Rightarrow> refheap \<Rightarrow> bool" where
  "tops r h \<longleftrightarrow> (\<forall>c \<in> set (children (h ! r)). isdummy (h ! c) \<longrightarrow> children (h ! c) \<noteq> [])"

definition threading :: "nat \<Rightarrow> refmsgtable \<Rightarrow> bool" where
  "threading r mt \<longleftrightarrow> rooted r (msgs mt) \<and> tops r (msgs mt) \<and> (\<forall>m < length (msgs mt). \<not> flag2 (msgs mt ! m)) \<and> rootptr mt = Some r"

lemma getroot_rooted:
  assumes mt: "building mt" and e: "rfc822_threadgetroot mt = (r, mt')"
  shows "threading r mt'" "live (msgs mt') = live (msgs mt)" "subjtable mt' = (\<lambda>_. [])"
proof -
  obtain x mt1 where a: "rfc822_threadallocmsg ''(root)'' mt = (x, mt1)"
    by (rule prod.exhaust)
  note al = alloc_msg [OF mt a]
  define h where "h = (msgs mt1)[x := (msgs mt1 ! x)\<lparr>isdummy := True\<rparr>]"
  have x: "x < length h" "length h = Suc x" "parent (h ! x) = None" "isdummy (h ! x)"
    using al(1-3) by (simp_all add: h_def)
  have h: "linked h" "\<forall>m < length h. \<not> flag2 (h ! m)" "live h = live (msgs mt)"
    using al(8,9) by (simp_all add: building_def h_def)
  define h1 where "h1 = fold (root_step x) [0..<x] h"
  have h1: "linked h1" "map strip h1 = map strip h" "parent (h1 ! x) = None"
      "\<forall>m \<in> set [0..<x]. parent (h1 ! m) = None \<longrightarrow> isdummy (h ! m) \<and> children (h1 ! m) = []"
      "\<forall>m. m \<noteq> x \<longrightarrow> children (h1 ! m) = children (h ! m)"
    using fold_root_step [OF h(1) x(1,3), of "[0..<x]"] x(2) by (simp_all add: h1_def subset_iff)
  have len: "length h1 = length h"
    by (rule length_strip [OF h1(2)])
  have f1: "(msgs mt1)[x := (msgs mt1 ! x)\<lparr>parent := Some x, isdummy := True\<rparr>] = h[x := (h ! x)\<lparr>parent := Some x\<rparr>]"
    using x by (cases "msgs mt1 ! x") (simp add: h_def)
  have "fold (root_step x) [0..<x] (h[x := (h ! x)\<lparr>parent := Some x\<rparr>]) = h1[x := (h1 ! x)\<lparr>parent := Some x\<rparr>]"
    unfolding h1_def using x by (intro fold_root_step_self) auto
  then have f2: "fold (root_step x) [0..<length (msgs mt1)] (h[x := (h ! x)\<lparr>parent := Some x\<rparr>]) = h1[x := (h1 ! x)\<lparr>parent := Some x\<rparr>]"
    using al(1,2) x len by (simp add: root_step_def)
  have f3: "h1[x := (h1 ! x)\<lparr>parent := None\<rparr>] = h1"
    using h1(3) by (metis (full_types) list_update_id refmsg.surjective refmsg.update_convs(1))
  have "rootptr mt = None" "x < length h1"
    using mt len x by (simp_all add: building_def)
  then have mt': "mt' = mt1\<lparr>msgs := h1, rootptr := Some x\<rparr>" "r = x"
    using e a by (auto simp: rfc822_threadgetroot_def on_msgs_def Let_def f1 f2 f3)
  have d: "isdummy (h1 ! m) = isdummy (h ! m)" "flag2 (h1 ! m) = flag2 (h ! m)" if "m < length h" for m
    using strip_data [OF strip_nth [OF h1(2) that]] by simp_all
  have "isdummy (h1 ! c) \<longrightarrow> children (h1 ! c) \<noteq> []" if "c \<in> set (children (h1 ! x))" for c
  proof (rule ccontr)
    assume idle: "\<not> (isdummy (h1 ! c) \<longrightarrow> children (h1 ! c) \<noteq> [])"
    have c: "c < length h" "parent (h1 ! c) = Some x" "c \<noteq> x"
      using that linked_children [OF h1(1), of x c] len x(1) no_self_parent [OF h1(1), of x] by auto
    have "isdummy (h ! c)" "children (h ! c) = []"
      using idle d(1) [OF c(1)] h1(5) c(3) by auto
    then have "parent (h ! c) = Some x"
      using fold_root_step_idle [OF h(1) x(1,3), of "[0..<x]" c] c x(2) by (simp add: h1_def subset_iff)
    moreover have "children (h ! x) = []"
      using al(1,6) x(1) by (simp add: h_def)
    ultimately show False
      using linked_children [OF h(1) x(1), of c] c(1) by simp
  qed
  then have "tops x h1"
    by (simp add: tops_def)
  then show "threading r mt'"
    using h1 h(2) len x d by (auto simp: threading_def rooted_def mt' less_Suc_eq)
  show "live (msgs mt') = live (msgs mt)"
    using live_strip [OF h1(2)] h(3) by (simp add: mt')
  show "subjtable mt' = (\<lambda>_. [])"
    using al(7) by (simp add: mt' building_def)
qed

end
