(* ===== verification/Imap_Refs_Thread.thy ===== *)
theory Imap_Refs_Thread
  imports Imap_Refs_Build
begin

text \<open>
  The later phases of threading: sorting siblings, gathering and merging the threads with the same subject. Together
  with \<open>Imap_Refs_Build\<close>: threading returns, and no message is lost or shown twice.
\<close>

subsection \<open>Sorting\<close>

text \<open>What the code needs of the sorting routine: it permutes the array it gets, whatever the comparison says.\<close>

definition sorts :: "qsort \<Rightarrow> bool" where
  "sorts qs \<longleftrightarrow>
     (\<forall>cmp xs. (\<forall>x \<in> set xs. \<forall>y \<in> set xs. cmp x y \<noteq> None) \<longrightarrow> (\<exists>ys. qs cmp xs = Some ys \<and> mset ys = mset xs))"

definition same_links :: "refheap \<Rightarrow> refheap \<Rightarrow> bool" where
  "same_links h h' \<longleftrightarrow>
     length h' = length h \<and>
     (\<forall>x < length h. (h' ! x)\<lparr>children := []\<rparr> = (h ! x)\<lparr>children := []\<rparr> \<and> mset (children (h' ! x)) = mset (children (h ! x)))"

lemma same_links_refl: "same_links h h"
  by (simp add: same_links_def)

lemma same_links_trans: "same_links h h' \<Longrightarrow> same_links h' h'' \<Longrightarrow> same_links h h''"
  by (simp add: same_links_def)

lemma same_links_nth:
  assumes s: "same_links h h'" and x: "x < length h"
  shows "parent (h' ! x) = parent (h ! x)" "set (children (h' ! x)) = set (children (h ! x))" "strip (h' ! x) = strip (h ! x)"
proof -
  have e: "(h' ! x)\<lparr>children := []\<rparr> = (h ! x)\<lparr>children := []\<rparr>" "mset (children (h' ! x)) = mset (children (h ! x))"
    using s x by (simp_all add: same_links_def)
  show "parent (h' ! x) = parent (h ! x)" "strip (h' ! x) = strip (h ! x)"
    using arg_cong [OF e(1), of parent] arg_cong [OF e(1), of strip] by simp_all
  show "set (children (h' ! x)) = set (children (h ! x))"
    using e(2) by (metis set_mset_mset)
qed

lemma same_links_linked:
  assumes h: "linked h" and s: "same_links h h'"
  shows "linked h'" "par h' = par h"
  using linked_same [OF h, of h'] s same_links_nth(1) [OF s] by (auto simp: same_links_def)

lemma same_links_strip: "same_links h h' \<Longrightarrow> map strip h' = map strip h"
  by (rule nth_equalityI) (auto simp: same_links_def [of h h'] intro: same_links_nth(3))

lemma first_msg_total:
  assumes h: "linked h" and m: "m < length h"
  shows "first_msg h m \<noteq> None"
  using m
proof (induction m rule: wf_induct_rule [OF wf_par [OF h]])
  case (1 m)
  have "first_msg h c \<noteq> None" if "children (h ! m) = c # cs" for c cs
    using linked_children [OF h 1(2), of c] that by (intro 1(1)) (auto simp: par_def)
  then show ?case
    by (subst first_msg.simps) (auto split: list.split)
qed

lemma cmp_msgs_total: "linked h \<Longrightarrow> a < length h \<Longrightarrow> b < length h \<Longrightarrow> cmp_msgs h a b \<noteq> None"
  using first_msg_total [of h a] first_msg_total [of h b] by (auto simp: cmp_msgs_def Let_def)

lemma resort_total:
  assumes qs: "sorts qs" and h: "linked h" "r < length h"
  shows "\<exists>h'. resort qs r h = Some h' \<and> same_links h h'"
proof -
  let ?h = "fold breakparent (children (h ! r)) h"
  have "linked ?h"
    using fold_breakparent_children [OF h refl] by simp
  then have "\<forall>x \<in> set (children (h ! r)). \<forall>y \<in> set (children (h ! r)). cmp_msgs ?h x y \<noteq> None"
    using linked_children [OF h] by (intro ballI cmp_msgs_total) auto
  then obtain ys where ys: "qs (cmp_msgs ?h) (children (h ! r)) = Some ys" "mset ys = mset (children (h ! r))"
    using qs unfolding sorts_def by blast
  then have "resort qs r h = Some (h[r := (h ! r)\<lparr>children := ys\<rparr>])"
    using relink [OF h ys(2)] by (simp add: resort_def Let_def)
  moreover have "same_links h (h[r := (h ! r)\<lparr>children := ys\<rparr>])"
    using ys(2) h(2) by (auto simp: same_links_def nth_list_update)
  ultimately show ?thesis
    by blast
qed

lemma sort_nodes_simps:
  "sort_nodes every qs [] h = Some h"
  "sort_nodes every qs (x # xs) h =
     (if every \<or> isdummy (h ! x)
      then Option.bind (sort_nodes every qs (children (h ! x)) h) (\<lambda>h. Option.bind (resort qs x h) (sort_nodes every qs xs))
      else sort_nodes every qs xs h)"
  by (subst sort_nodes.simps, simp)+

lemma sort_nodes_list:
  assumes "\<forall>x \<in> set xs. x < length h0 \<and> (\<forall>h. same_links h0 h \<longrightarrow> (\<exists>h'. sort_nodes every qs (children (h ! x)) h = Some h' \<and> same_links h0 h'))"
    and "sorts qs" "linked h0" "same_links h0 h"
  shows "\<exists>h'. sort_nodes every qs xs h = Some h' \<and> same_links h0 h'"
  using assms
proof (induction xs arbitrary: h)
  case (Cons x xs)
  show ?case
  proof (cases "every \<or> isdummy (h ! x)")
    case True
    obtain h1 where h1: "sort_nodes every qs (children (h ! x)) h = Some h1" "same_links h0 h1"
      using Cons.prems(1,4) by auto
    have "x < length h1"
      using h1(2) Cons.prems(1) by (simp add: same_links_def)
    then obtain h2 where h2: "resort qs x h1 = Some h2" "same_links h1 h2"
      using resort_total [OF Cons.prems(2) same_links_linked(1) [OF Cons.prems(3) h1(2)]] by blast
    have "same_links h0 h2"
      by (rule same_links_trans [OF h1(2) h2(2)])
    then show ?thesis
      using True h1(1) h2(1) Cons.IH [of h2] Cons.prems by (simp add: sort_nodes_simps)
  qed (use Cons in \<open>simp add: sort_nodes_simps\<close>)
qed (simp add: sort_nodes_simps)

lemma sort_nodes_total:
  assumes qs: "sorts qs" and h0: "linked h0" and xs: "set xs \<subseteq> {..<length h0}" and h: "same_links h0 h"
  shows "\<exists>h'. sort_nodes every qs xs h = Some h' \<and> same_links h0 h'"
proof -
  have "\<forall>h. same_links h0 h \<longrightarrow> (\<exists>h'. sort_nodes every qs (children (h ! x)) h = Some h' \<and> same_links h0 h')" if "x < length h0" for x
    using that
  proof (induction x rule: wf_induct_rule [OF wf_par [OF h0]])
    case (1 x)
    have "c < length h0 \<and> (c, x) \<in> par h0" if "c \<in> set (children (h ! x))" "same_links h0 h" for c h
      using that same_links_nth(2) [OF that(2) 1(2)] linked_children [OF h0 1(2)] by (auto simp: par_def)
    then show ?case
      using 1(1) by (intro allI impI sort_nodes_list qs h0) auto
  qed
  then show ?thesis
    using xs by (intro sort_nodes_list qs h0 h) auto
qed

lemma rfc822_threadsortsubj_total:
  assumes qs: "sorts qs" and h: "linked h" "r < length h"
  shows "\<exists>h'. rfc822_threadsortsubj qs r h = Some h' \<and> same_links h h'"
proof -
  obtain h1 where h1: "sort_nodes False qs (children (h ! r)) h = Some h1" "same_links h h1"
    using sort_nodes_total [OF qs h(1) _ same_links_refl, of "children (h ! r)"] linked_children [OF h] by blast
  then obtain h2 where "resort qs r h1 = Some h2" "same_links h1 h2"
    using resort_total [OF qs same_links_linked(1) [OF h(1) h1(2)], of r] h(2) by (auto simp: same_links_def)
  then show ?thesis
    using h1 same_links_trans [of h h1 h2] by (auto simp: rfc822_threadsortsubj_def)
qed

lemma dothreadsort_total:
  "sorts qs \<Longrightarrow> linked h \<Longrightarrow> r < length h \<Longrightarrow> \<exists>h'. dothreadsort qs r h = Some h' \<and> same_links h h'"
  unfolding dothreadsort_def by (intro sort_nodes_total same_links_refl) auto

lemma same_links_tops:
  assumes h: "rooted r h" "tops r h" and s: "same_links h h'"
  shows "tops r h'"
  unfolding tops_def
proof
  fix c assume c: "c \<in> set (children (h' ! r))"
  have cs: "c \<in> set (children (h ! r))"
    using c same_links_nth(2) [OF s rootedD(2) [OF h(1)]] by simp
  then have "c < length h"
    using linked_children [OF rootedD(1,2) [OF h(1)]] by simp
  from same_links_nth(2) [OF s this] strip_data(1) [OF same_links_nth(3) [OF s this]]
  show "isdummy (h' ! c) \<longrightarrow> children (h' ! c) \<noteq> []"
    using h(2) cs by (auto simp: tops_def)
qed

lemma same_links_rooted:
  assumes h: "rooted r h" and s: "same_links h h'"
  shows "rooted r h'"
proof -
  have len: "length h' = length h"
    using s by (simp add: same_links_def)
  have e: "parent (h' ! x) = parent (h ! x)" "children (h' ! x) = [] \<longleftrightarrow> children (h ! x) = []" "isdummy (h' ! x) = isdummy (h ! x)"
    if "x < length h" for x
    using same_links_nth [OF s that] strip_data(1) [OF same_links_nth(3) [OF s that]] by (simp_all flip: set_empty)
  show ?thesis
    unfolding rooted_def len
    using rootedD(2-5) [OF h] same_links_linked(1) [OF rootedD(1) [OF h] s] by (simp add: e)
qed


subsection \<open>The table of subjects\<close>

definition entry :: "refmsgtable \<Rightarrow> string \<Rightarrow> subjlookup option" where
  "entry mt k = find_chain k (subjtable mt (hashmsgid k))"

definition key :: "string \<Rightarrow> string" where
  "key s = fst (rfc822_coresubj s)"

lemma entry_put [simp]: "entry (put_subj e mt) k = (if k = lsubj e then Some e else entry mt k)"
  by (simp add: entry_def put_subj_def find_put_other)

lemma put_subj_fields [simp]: "msgs (put_subj e mt) = msgs mt" "rootptr (put_subj e mt) = rootptr mt"
  by (simp_all add: put_subj_def)

lemma entry_key: "entry mt k = Some e \<Longrightarrow> lsubj e = k"
  by (simp add: entry_def find_chain_key)

lemma findsubj_entry:
  "findsubj s create mt =
     (case entry mt (key s) of
        Some e \<Rightarrow> (snd (rfc822_coresubj s), Some e, mt)
      | None \<Rightarrow>
          if create then let e = \<lparr>lsubj = key s, lmsg = None, msgisrefwd = snd (rfc822_coresubj s)\<rparr>
            in (snd (rfc822_coresubj s), Some e, put_subj e mt)
          else (snd (rfc822_coresubj s), None, mt))"
  by (simp add: findsubj_def entry_def key_def Let_def split: prod.split option.split)

text \<open>Each entry names a thread below the root with that subject.\<close>

definition gathered :: "refheap \<Rightarrow> nat set \<Rightarrow> refmsgtable \<Rightarrow> bool" where
  "gathered h ts mt \<longleftrightarrow>
     msgs mt = h \<and>
     (\<forall>k e. entry mt k = Some e \<longrightarrow> (\<exists>t s. lmsg e = Some t \<and> t \<in> ts \<and> thread_subj h t = Some s \<and> key s = k))"

definition covered :: "refmsgtable \<Rightarrow> nat \<Rightarrow> bool" where
  "covered mt t \<longleftrightarrow> (\<forall>s. thread_subj (msgs mt) t = Some s \<longrightarrow> s \<noteq> [] \<longrightarrow> entry mt (key s) \<noteq> None)"

lemma gather_step_gathered:
  assumes g: "gathered h ts mt" and t: "t \<in> ts" "thread_subj h t = Some s"
  shows "\<exists>mt'. gather_step t mt = Some mt' \<and> gathered h ts mt' \<and> covered mt' t \<and> rootptr mt' = rootptr mt \<and>
    (\<forall>k. entry mt k \<noteq> None \<longrightarrow> entry mt' k \<noteq> None)"
proof (cases "s = []")
  case True
  then show ?thesis
    using assms by (simp add: gather_step_def gathered_def covered_def)
next
  case False
  have m: "msgs mt = h"
    using g by (simp add: gathered_def)
  define b where "b = snd (rfc822_coresubj s)"
  have put: "gathered h ts (put_subj e mt')" "covered (put_subj e mt') t"
    if "lsubj e = key s" "lmsg e = Some t" "msgs mt' = h" "\<And>k. k \<noteq> key s \<Longrightarrow> entry mt' k = entry mt k" for e mt'
    using g t that by (auto simp: gathered_def covered_def)
  show ?thesis
  proof (cases "entry mt (key s)")
    case None
    then show ?thesis
      using t False put m by (simp add: gather_step_def findsubj_entry Let_def)
  next
    case (Some e)
    then obtain x where x: "lmsg e = Some x"
      using g by (auto simp: gathered_def)
    have k: "lsubj e = key s"
      by (rule entry_key [OF Some])
    have "covered mt t"
      using Some t m by (simp add: covered_def)
    then show ?thesis
      using t False put k m Some x g by (simp add: gather_step_def findsubj_entry Let_def)
  qed
qed

lemma covered_mono: "covered mt t \<Longrightarrow> msgs mt' = msgs mt \<Longrightarrow> (\<forall>k. entry mt k \<noteq> None \<longrightarrow> entry mt' k \<noteq> None) \<Longrightarrow> covered mt' t"
  by (simp add: covered_def)

lemma each_gather_step:
  assumes "gathered h ts mt" "\<forall>t \<in> set xs. t \<in> ts \<and> thread_subj h t \<noteq> None"
  shows "\<exists>mt'. each gather_step xs mt = Some mt' \<and> gathered h ts mt' \<and> (\<forall>t \<in> set xs. covered mt' t) \<and> rootptr mt' = rootptr mt \<and>
    (\<forall>k. entry mt k \<noteq> None \<longrightarrow> entry mt' k \<noteq> None)"
  using assms
proof (induction xs arbitrary: mt)
  case (Cons t xs)
  then obtain s where "thread_subj h t = Some s" "t \<in> ts"
    by auto
  then obtain mt1 where 1: "gather_step t mt = Some mt1" "gathered h ts mt1" "covered mt1 t" "rootptr mt1 = rootptr mt"
      "\<forall>k. entry mt k \<noteq> None \<longrightarrow> entry mt1 k \<noteq> None"
    using gather_step_gathered [OF Cons.prems(1)] by blast
  then obtain mt2 where 2: "each gather_step xs mt1 = Some mt2" "gathered h ts mt2" "\<forall>t \<in> set xs. covered mt2 t"
      "rootptr mt2 = rootptr mt1" "\<forall>k. entry mt1 k \<noteq> None \<longrightarrow> entry mt2 k \<noteq> None"
    using Cons.IH [of mt1] Cons.prems(2) by auto
  have "covered mt2 t"
    using 1(2) 2(2) by (intro covered_mono [OF 1(3)] 2(5)) (simp add: gathered_def)
  then show ?case
    using 1 2 by simp
qed simp


subsection \<open>Merging two threads\<close>

definition pair :: "nat \<Rightarrow> refheap \<Rightarrow> nat \<Rightarrow> nat \<Rightarrow> bool" where
  "pair r h t tp \<longleftrightarrow>
     rooted r h \<and> t < length h \<and> tp < length h \<and> t \<noteq> tp \<and> parent (h ! t) = Some r \<and> parent (h ! tp) = Some r"

lemma pairD:
  assumes "pair r h t tp"
  shows "rooted r h" "linked h" "t < length h" "tp < length h" "t \<noteq> tp" "parent (h ! t) = Some r" "parent (h ! tp) = Some r"
    "r < length h" "parent (h ! r) = None" "t \<noteq> r" "tp \<noteq> r" "(tp, t) \<notin> (par h)\<^sup>*" "t \<in> set (children (h ! r))"
proof -
  show p: "rooted r h" "t < length h" "tp < length h" "t \<noteq> tp" "parent (h ! t) = Some r" "parent (h ! tp) = Some r"
    using assms by (simp_all add: pair_def)
  show r: "linked h" "r < length h" "parent (h ! r) = None"
    by (fact rootedD [OF p(1)])+
  show "t \<noteq> r" "tp \<noteq> r"
    using p r by auto
  then show "(tp, t) \<notin> (par h)\<^sup>*"
    using above_top [OF p(3,6) r(3), of t] p(4) by auto
  show "t \<in> set (children (h ! r))"
    using p r by (simp add: linked_children)
qed

text \<open>The current thread below the one of the table.\<close>

lemma move_pair:
  assumes p: "pair r h t tp"
  shows "rooted r (move_msg tp t h)"
    "move_msg tp t h ! x = (h ! x)\<lparr>parent := if x = t then Some tp else parent (h ! x),
       children := if x = r then remove1 t (children (h ! r)) else if x = tp then children (h ! tp) @ [t] else children (h ! x)\<rparr>"
proof -
  note d = pairD [OF p]
  show nth: "move_msg tp t h ! x = (h ! x)\<lparr>parent := if x = t then Some tp else parent (h ! x),
       children := if x = r then remove1 t (children (h ! r)) else if x = tp then children (h ! tp) @ [t] else children (h ! x)\<rparr>" for x
    using d by (auto simp: move_msg_nth)
  show "rooted r (move_msg tp t h)"
    using d rootedD(3,5) [OF d(1)] linked_move_msg [OF d(2-4,12)] unfolding rooted_def by (auto simp: nth)
qed

text \<open>Two dummies.\<close>

lemma join_pair:
  assumes p: "pair r h t tp" and dummy: "isdummy (h ! t)"
  shows "rooted r (breakparent t (move_children t tp h))"
    "breakparent t (move_children t tp h) ! x =
       (h ! x)\<lparr>parent := if x \<in> set (children (h ! t)) then Some tp else if x = t then None else parent (h ! x),
         children := if x = t then [] else if x = r then remove1 t (children (h ! r))
           else if x = tp then children (h ! tp) @ children (h ! t) else children (h ! x)\<rparr>"
proof -
  note d = pairD [OF p]
  let ?h = "move_children t tp h"
  note nth1 = move_children_nth [OF d(2-5,12)]
  have l: "linked ?h"
    by (rule linked_move_children [OF d(2-5,12)])
  have "t \<notin> set (children (h ! t))"
    using d by (simp add: linked_children)
  then show nth: "breakparent t ?h ! x =
       (h ! x)\<lparr>parent := if x \<in> set (children (h ! t)) then Some tp else if x = t then None else parent (h ! x),
         children := if x = t then [] else if x = r then remove1 t (children (h ! r))
           else if x = tp then children (h ! tp) @ children (h ! t) else children (h ! x)\<rparr>" for x
    using d by (auto simp: breakparent_nth [OF l] nth1)
  have "linked (breakparent t ?h)"
    using d by (intro linked_breakparent l) simp
  moreover have "r \<notin> set (children (h ! t))"
    using d by (simp add: linked_children)
  ultimately show "rooted r (breakparent t ?h)"
    using d rootedD(3,5) [OF d(1)] dummy unfolding rooted_def by (auto simp: nth)
qed

text \<open>A new dummy container for the two.\<close>

definition container_heap :: "refmsg \<Rightarrow> nat \<Rightarrow> nat \<Rightarrow> refheap \<Rightarrow> refheap" where
  "container_heap r0 t tp h =
     (let h = h @ [r0]; q = length h - 1
      in move_msg tp t (linkparent q tp (move_children tp q (swapmsgdata q tp h))))"

definition swapped :: "refmsg \<Rightarrow> nat \<Rightarrow> refheap \<Rightarrow> nat \<Rightarrow> refmsg" where
  "swapped r0 tp h x =
     (let copy = (\<lambda>x y :: refmsg. x\<lparr>msgid := msgid y, isdummy := isdummy y, flag2 := flag2 y, timestamp := timestamp y, seqnum := seqnum y\<rparr>)
      in if x = tp then copy (h ! tp) r0 else if x < length h then h ! x else copy r0 (h ! tp))"

lemma swap_new:
  assumes h: "linked h" "tp < length h" and r0: "parent r0 = None" "children r0 = []" "isdummy r0" and tp: "\<not> isdummy (h ! tp)"
  shows "linked (swapmsgdata (length h) tp (h @ [r0]))" "length (swapmsgdata (length h) tp (h @ [r0])) = Suc (length h)"
    "live (swapmsgdata (length h) tp (h @ [r0])) = live h"
    "x \<le> length h \<Longrightarrow> swapmsgdata (length h) tp (h @ [r0]) ! x = swapped r0 tp h x"
proof -
  let ?copy = "\<lambda>(x :: refmsg) (y :: refmsg). x\<lparr>msgid := msgid y, isdummy := isdummy y, flag2 := flag2 y, timestamp := timestamp y, seqnum := seqnum y\<rparr>"
  have e: "swapmsgdata (length h) tp (h @ [r0]) = h[tp := ?copy (h ! tp) r0] @ [?copy r0 (h ! tp)]"
    using h(2) by (simp add: swapmsgdata_def Let_def nth_append list_update_append)
  have "linked (h[tp := ?copy (h ! tp) r0])"
    by (rule linked_update(1) [OF h(1)]) simp_all
  then show "linked (swapmsgdata (length h) tp (h @ [r0]))"
    unfolding e by (rule linked_append(1)) (simp_all add: r0)
  show "length (swapmsgdata (length h) tp (h @ [r0])) = Suc (length h)"
    by (simp add: e)
  show "live (swapmsgdata (length h) tp (h @ [r0])) = live h"
    using live_update [OF h(2), of "?copy (h ! tp) r0"] r0 tp by (simp add: e alive_def)
  show "swapmsgdata (length h) tp (h @ [r0]) ! x = swapped r0 tp h x" if "x \<le> length h"
    using that h(2) by (auto simp: e swapped_def Let_def nth_append)
qed

lemma swapped_links:
  "parent (swapped r0 tp h x) = (if x < length h \<or> x = tp then parent (h ! x) else parent r0)"
  "children (swapped r0 tp h x) = (if x < length h \<or> x = tp then children (h ! x) else children r0)"
  by (simp_all add: swapped_def Let_def)

lemma container_links:
  assumes p: "pair r h t tp" and r0: "parent r0 = None" "children r0 = []" "isdummy r0" and tp: "\<not> isdummy (h ! tp)"
  shows "linked (container_heap r0 t tp h)" "length (container_heap r0 t tp h) = Suc (length h)"
    "live (container_heap r0 t tp h) = live h"
    "x \<le> length h \<Longrightarrow> container_heap r0 t tp h ! x = (swapped r0 tp h x)
      \<lparr>parent := if x = t \<or> x = length h then Some tp else if x \<in> set (children (h ! tp)) then Some (length h) else parent (h ! x),
       children := if x = tp then [length h, t] else if x = length h then children (h ! tp)
         else if x = r then remove1 t (children (h ! r)) else children (h ! x)\<rparr>"
proof -
  note d = pairD [OF p]
  define q where "q = length h"
  define h2 where "h2 = swapmsgdata q tp (h @ [r0])"
  note l2 = swap_new(1-3) [OF d(2,4) r0 tp, folded q_def, folded h2_def]
  note nth2 = swap_new(4) [OF d(2,4) r0 tp, folded q_def, folded h2_def]
  have q: "q < length h2" "tp < length h2" "t < length h2" "tp \<noteq> q" "t \<noteq> q" "r < length h2" "r \<noteq> q" "t < q" "tp < q" "r < q"
    using d l2(2) by (auto simp: q_def)
  have p2: "parent (h2 ! q) = None" "children (h2 ! q) = []" "parent (h2 ! tp) = Some r" "parent (h2 ! r) = None" "parent (h2 ! t) = Some r"
      "children (h2 ! tp) = children (h ! tp)" "children (h2 ! r) = children (h ! r)"
    using q d r0 by (auto simp: nth2 swapped_links simp flip: q_def)
  have qa: "(q, tp) \<notin> (par h2)\<^sup>*"
    using above_root [OF p2(1), of tp] q(4) by blast
  let ?h3 = "move_children tp q h2"
  note nth3 = move_children_nth [OF l2(1) q(2,1,4) qa]
  have l3: "linked ?h3"
    by (rule linked_move_children [OF l2(1) q(2,1,4) qa])
  have c: "q \<notin> set (children (h ! tp))" "r \<notin> set (children (h ! tp))" "tp \<notin> set (children (h ! tp))" "t \<notin> set (children (h ! tp))"
    using d by (auto simp: q_def linked_children [OF d(2,4)])
  have p3: "parent (?h3 ! q) = None" "parent (?h3 ! tp) = Some r" "parent (?h3 ! r) = None" "parent (?h3 ! t) = Some r"
    using p2 c by (simp_all add: nth3)
  have "(tp, q) \<notin> (par ?h3)\<^sup>*"
    using above_top [OF _ p3(2,3), of q] q by auto
  then have l4: "linked (linkparent q tp ?h3)"
    using q p3 by (intro linked_linkparent l3) simp_all
  let ?h4 = "linkparent q tp ?h3"
  have nth4: "?h4 ! x = (h2 ! x)\<lparr>parent := if x = q then Some tp else if x \<in> set (children (h ! tp)) then Some q else parent (h2 ! x),
      children := if x = tp then [q] else if x = q then children (h ! tp) else children (h2 ! x)\<rparr>" for x
    using q p2 c by (simp add: linkparent_nth nth3)
  have p4: "parent (?h4 ! tp) = Some r" "parent (?h4 ! r) = None" "parent (?h4 ! t) = Some r"
    using q p2 c by (simp_all add: nth4)
  have "(tp, t) \<notin> (par ?h4)\<^sup>*"
    using above_top [OF _ p4(1,2), of t] q d by auto
  then have l5: "linked (move_msg tp t ?h4)"
    using q by (intro linked_move_msg l4) simp_all
  have e: "container_heap r0 t tp h = move_msg tp t ?h4"
    by (simp add: container_heap_def q_def Let_def h2_def)
  show "linked (container_heap r0 t tp h)" "length (container_heap r0 t tp h) = Suc (length h)"
    using l5 l2(2) by (simp_all add: e q_def)
  have "map strip (container_heap r0 t tp h) = map strip h2"
    by (simp add: e)
  from live_strip [OF this] show "live (container_heap r0 t tp h) = live h"
    using l2(3) by simp
  show "container_heap r0 t tp h ! x = (swapped r0 tp h x)
      \<lparr>parent := if x = t \<or> x = length h then Some tp else if x \<in> set (children (h ! tp)) then Some (length h) else parent (h ! x),
       children := if x = tp then [length h, t] else if x = length h then children (h ! tp)
         else if x = r then remove1 t (children (h ! r)) else children (h ! x)\<rparr>" if "x \<le> length h"
    unfolding e using q d(5,8,10,11) p2 p4 that nth2 [of x]
    by (auto simp: move_msg_nth [OF l4] nth4 swapped_links simp flip: q_def)
qed

lemma container_pair:
  assumes p: "pair r h t tp" and r0: "parent r0 = None" "children r0 = []" "isdummy r0" "msubj r0 = None" "\<not> flag2 r0"
    and tp: "\<not> isdummy (h ! tp)" "\<not> flag2 (h ! tp)"
  shows "rooted r (container_heap r0 t tp h)"
    "x < length h \<Longrightarrow> children (container_heap r0 t tp h ! x) =
      (if x = r then remove1 t (children (h ! r)) else if x = tp then [length h, t] else children (h ! x))"
    "x < length h \<Longrightarrow> isdummy (container_heap r0 t tp h ! x) = (isdummy (h ! x) \<or> x = tp)"
    "x < length h \<Longrightarrow> msubj (container_heap r0 t tp h ! x) = msubj (h ! x)"
    "x < length h \<Longrightarrow> flag2 (container_heap r0 t tp h ! x) = flag2 (h ! x)"
    "msubj (container_heap r0 t tp h ! length h) = None" "\<not> flag2 (container_heap r0 t tp h ! length h)"
proof -
  note d = pairD [OF p]
  note l = container_links [OF p r0(1-3) tp(1)]
  show "children (container_heap r0 t tp h ! x) =
      (if x = r then remove1 t (children (h ! r)) else if x = tp then [length h, t] else children (h ! x))"
    "isdummy (container_heap r0 t tp h ! x) = (isdummy (h ! x) \<or> x = tp)"
    "msubj (container_heap r0 t tp h ! x) = msubj (h ! x)"
    "flag2 (container_heap r0 t tp h ! x) = flag2 (h ! x)" if "x < length h"
    using that l(4) [of x] r0 tp d(4,11) by (auto simp: swapped_def Let_def)
  show "msubj (container_heap r0 t tp h ! length h) = None" "\<not> flag2 (container_heap r0 t tp h ! length h)"
    using l(4) [of "length h"] r0 tp d(4) by (auto simp: swapped_def Let_def)
  have "r \<notin> set (children (h ! tp))"
    using d by (simp add: linked_children)
  then show "rooted r (container_heap r0 t tp h)"
    unfolding rooted_def l(2) using l(1,4) d rootedD(3,5) [OF d(1)]
    by (auto simp: swapped_def Let_def less_Suc_eq)
qed


subsection \<open>Merging the threads with the same subject\<close>

definition merging :: "nat list \<Rightarrow> nat \<Rightarrow> refmsgtable \<Rightarrow> bool" where
  "merging ts r mt \<longleftrightarrow>
     threading r mt \<and> distinct ts \<and> set ts \<subseteq> set (children (msgs mt ! r)) \<and>
     (\<forall>t \<in> set ts. covered mt t) \<and>
     (\<forall>k e. entry mt k = Some e \<longrightarrow>
       (\<exists>t \<in> set (children (msgs mt ! r)). lmsg e = Some t \<and>
         (t \<in> set ts \<longrightarrow> (\<forall>s. thread_subj (msgs mt) t = Some s \<longrightarrow> s = [] \<or> key s = k))))"

lemma mergingD:
  assumes "merging ts r mt"
  shows "rooted r (msgs mt)" "m < length (msgs mt) \<Longrightarrow> \<not> flag2 (msgs mt ! m)" "rootptr mt = Some r" "distinct ts"
    "t \<in> set ts \<Longrightarrow> t \<in> set (children (msgs mt ! r))"
    "c \<in> set (children (msgs mt ! r)) \<Longrightarrow> isdummy (msgs mt ! c) \<Longrightarrow> children (msgs mt ! c) \<noteq> []"
    "t \<in> set ts \<Longrightarrow> covered mt t"
    "entry mt k = Some e \<Longrightarrow> \<exists>t \<in> set (children (msgs mt ! r)). lmsg e = Some t \<and>
       (t \<in> set ts \<longrightarrow> (\<forall>s. thread_subj (msgs mt) t = Some s \<longrightarrow> s = [] \<or> key s = k))"
  using assms by (auto simp: merging_def threading_def tops_def)

lemma merging_tail: "merging (t # ts) r mt \<Longrightarrow> merging ts r mt"
  unfolding merging_def by (simp, blast)

text \<open>The current thread leaves the top level; the subject of another stays, or becomes empty.\<close>

lemma merging_leave:
  assumes m: "merging (t # ts) r mt" and s: "thread_subj (msgs mt) t = Some s" "s \<noteq> []"
    and e: "entry mt (key s) = Some e" "lmsg e = Some tp" "t \<noteq> tp"
    and mt': "rooted r (msgs mt')" "subjtable mt' = subjtable mt" "rootptr mt' = rootptr mt"
      "\<And>m. m < length (msgs mt') \<Longrightarrow> \<not> flag2 (msgs mt' ! m)"
      "children (msgs mt' ! r) = remove1 t (children (msgs mt ! r))"
      "\<And>c. c \<in> set (children (msgs mt ! r)) \<Longrightarrow> c \<noteq> t \<Longrightarrow> isdummy (msgs mt' ! c) \<Longrightarrow> children (msgs mt' ! c) \<noteq> []"
      "\<And>c. c \<in> set (children (msgs mt ! r)) \<Longrightarrow> c \<noteq> t \<Longrightarrow> thread_subj (msgs mt') c = thread_subj (msgs mt) c \<or> thread_subj (msgs mt') c = Some []"
  shows "merging ts r mt'"
proof -
  note d = mergingD [OF m]
  have c: "set (children (msgs mt' ! r)) = set (children (msgs mt ! r)) - {t}"
    using linked_distinct [OF rootedD(1,2) [OF d(1)]] by (simp add: mt'(5))
  have en: "entry mt' = entry mt"
    by (simp add: entry_def mt'(2) fun_eq_iff)
  have "covered mt' x" if "x \<in> set ts" for x
  proof -
    have "x \<noteq> t" "x \<in> set (children (msgs mt ! r))" "covered mt x"
      using that d(4) d(5,7) [of x] by auto
    then show ?thesis
      using mt'(7) [of x] by (auto simp: covered_def en)
  qed
  moreover have "\<exists>x \<in> set (children (msgs mt ! r)) - {t}. lmsg e' = Some x \<and>
       (x \<in> set ts \<longrightarrow> (\<forall>s. thread_subj (msgs mt') x = Some s \<longrightarrow> s = [] \<or> key s = k))"
    if k: "entry mt k = Some e'" for k e'
  proof -
    obtain x where x: "x \<in> set (children (msgs mt ! r))" "lmsg e' = Some x"
        "x \<in> set (t # ts) \<longrightarrow> (\<forall>s. thread_subj (msgs mt) x = Some s \<longrightarrow> s = [] \<or> key s = k)"
      using d(8) [OF k] by blast
    have "x \<noteq> t"
      using x s k e by auto
    then show ?thesis
      using x mt'(7) [OF x(1)] by (intro bexI [of _ x]) auto
  qed
  ultimately show ?thesis
    unfolding merging_def threading_def tops_def c en using mt'(1,3,4,6) d(3,4) d(5) by auto
qed

lemma thread_subj_same:
  assumes "isdummy (h' ! x) = isdummy (h ! x)" "msubj (h' ! x) = msubj (h ! x)"
    and "isdummy (h ! x) \<Longrightarrow> \<exists>c cs cs'. children (h ! x) = c # cs \<and> children (h' ! x) = c # cs' \<and> msubj (h' ! c) = msubj (h ! c)"
  shows "thread_subj h' x = thread_subj h x"
  using assms by (auto simp: thread_subj_def own_subj_def)

lemma merging_child:
  assumes m: "merging ts r mt" and c: "c \<in> set (children (msgs mt ! r))"
  shows "c < length (msgs mt)" "parent (msgs mt ! c) = Some r" "c \<noteq> r"
    "isdummy (msgs mt ! c) \<Longrightarrow> \<exists>b bs. children (msgs mt ! c) = b # bs \<and> b < length (msgs mt)"
proof -
  note d = mergingD [OF m]
  note h = rootedD(1,2,4) [OF d(1)]
  show l: "c < length (msgs mt)" "parent (msgs mt ! c) = Some r"
    using linked_children [OF h(1,2)] c by blast+
  then show "c \<noteq> r"
    using h(3) by auto
  show "\<exists>b bs. children (msgs mt ! c) = b # bs \<and> b < length (msgs mt)" if "isdummy (msgs mt ! c)"
    using d(6) [OF c that] linked_children [OF h(1) l(1)] by (cases "children (msgs mt ! c)") auto
qed

lemma merging_pair:
  assumes m: "merging (t # ts) r mt" and e: "entry mt k = Some e" "lmsg e = Some tp" "t \<noteq> tp"
  shows "pair r (msgs mt) t tp" "tp \<in> set (children (msgs mt ! r))"
proof -
  show tp: "tp \<in> set (children (msgs mt ! r))"
    using mergingD(8) [OF m e(1)] e(2) by auto
  show "pair r (msgs mt) t tp"
    using mergingD(1) [OF m] merging_child [OF m tp] merging_child [OF m mergingD(5) [OF m, of t]] e(3)
    by (simp add: pair_def)
qed

lemma join_merging:
  assumes m: "merging (t # ts) r mt" and s: "thread_subj (msgs mt) t = Some s" "s \<noteq> []"
    and e: "entry mt (key s) = Some e" "lmsg e = Some tp" "t \<noteq> tp" and dummy: "isdummy (msgs mt ! t)"
  shows "merging ts r (on_msgs (\<lambda>h. breakparent t (move_children t tp h)) mt)"
proof (rule merging_leave [OF m s e])
  note p = merging_pair(1) [OF m e]
  note j = join_pair [OF p dummy]
  let ?mt = "on_msgs (\<lambda>h. breakparent t (move_children t tp h)) mt"
  fix c assume c: "c \<in> set (children (msgs mt ! r))" "c \<noteq> t"
  then show "thread_subj (msgs ?mt) c = thread_subj (msgs mt) c \<or> thread_subj (msgs ?mt) c = Some []"
    using merging_child(3,4) [OF m c(1)] by (intro disjI1 thread_subj_same) (auto simp: j(2))
  show "isdummy (msgs ?mt ! c) \<Longrightarrow> children (msgs ?mt ! c) \<noteq> []"
    using merging_child(3,4) [OF m c(1)] c by (auto simp: j(2))
qed (use join_pair [OF merging_pair(1) [OF m e] dummy] mergingD(2) [OF m] pairD(10) [OF merging_pair(1) [OF m e]] in
  \<open>simp_all add: on_msgs_def\<close>)

lemma move_merging:
  assumes m: "merging (t # ts) r mt" and s: "thread_subj (msgs mt) t = Some s" "s \<noteq> []"
    and e: "entry mt (key s) = Some e" "lmsg e = Some tp" "t \<noteq> tp"
  shows "merging ts r (on_msgs (move_msg tp t) mt)"
proof (rule merging_leave [OF m s e])
  note j = move_pair [OF merging_pair(1) [OF m e]]
  fix c assume c: "c \<in> set (children (msgs mt ! r))" "c \<noteq> t"
  then show "thread_subj (msgs (on_msgs (move_msg tp t) mt)) c = thread_subj (msgs mt) c \<or>
      thread_subj (msgs (on_msgs (move_msg tp t) mt)) c = Some []"
    using merging_child(3,4) [OF m c(1)] by (intro disjI1 thread_subj_same) (auto simp: j(2))
  show "isdummy (msgs (on_msgs (move_msg tp t) mt) ! c) \<Longrightarrow> children (msgs (on_msgs (move_msg tp t) mt) ! c) \<noteq> []"
    using merging_child(3,4) [OF m c(1)] c by (auto simp: j(2))
qed (use move_pair [OF merging_pair(1) [OF m e]] mergingD(2) [OF m] pairD(10) [OF merging_pair(1) [OF m e]] in
  \<open>simp_all add: on_msgs_def\<close>)

lemma new_container_merging:
  assumes m: "merging (t # ts) r mt" and s: "thread_subj (msgs mt) t = Some s" "s \<noteq> []"
    and e: "entry mt (key s) = Some e" "lmsg e = Some tp" "t \<noteq> tp" and nd: "\<not> isdummy (msgs mt ! tp)"
  shows "merging ts r (new_container t tp mt)" "live (msgs (new_container t tp mt)) = live (msgs mt)"
proof -
  note d = mergingD [OF m] and p = merging_pair(1) [OF m e]
  note pd = pairD [OF p]
  define r0 where "r0 = \<lparr>parent = None, children = [], isdummy = True, flag2 = False, msgid = ''(dummy)'', msubj = None,
    timestamp = 0, seqnum = 0\<rparr>"
  have r0: "parent r0 = None" "children r0 = []" "isdummy r0" "msubj r0 = None" "\<not> flag2 r0"
    by (simp_all add: r0_def)
  note cp = container_pair [OF p r0 nd d(2) [OF pd(4)]] and cl = container_links [OF p r0(1-3) nd]
  have mt': "msgs (new_container t tp mt) = container_heap r0 t tp (msgs mt)"
    "subjtable (new_container t tp mt) = subjtable mt" "rootptr (new_container t tp mt) = rootptr mt"
    by (simp_all add: new_container_def rfc822_threadallocmsg_def Let_def on_msgs_def container_heap_def r0_def)
  show "live (msgs (new_container t tp mt)) = live (msgs mt)"
    by (simp add: mt' cl(3))
  show "merging ts r (new_container t tp mt)"
  proof (rule merging_leave [OF m s e], unfold mt')
    fix c assume c: "c \<in> set (children (msgs mt ! r))" "c \<noteq> t"
    note ch = merging_child [OF m c(1)]
    have "thread_subj (container_heap r0 t tp (msgs mt)) c = thread_subj (msgs mt) c" if "c \<noteq> tp"
      using that ch by (intro thread_subj_same) (auto simp: cp)
    moreover have "thread_subj (container_heap r0 t tp (msgs mt)) tp = Some []"
      using pd(4,11) by (simp add: thread_subj_def own_subj_def cp)
    ultimately show "thread_subj (container_heap r0 t tp (msgs mt)) c = thread_subj (msgs mt) c \<or>
        thread_subj (container_heap r0 t tp (msgs mt)) c = Some []"
      by auto
    show "isdummy (container_heap r0 t tp (msgs mt) ! c) \<Longrightarrow> children (container_heap r0 t tp (msgs mt) ! c) \<noteq> []"
      using ch by (auto simp: cp split: if_splits)
  qed (use cp(1) pd(8) d(2) in \<open>auto simp: cp cl(2) less_Suc_eq\<close>)
qed

lemma merge_pair_merging:
  assumes m: "merging (t # ts) r mt" and s: "thread_subj (msgs mt) t = Some s" "s \<noteq> []"
    and e: "entry mt (key s) = Some e" "lmsg e = Some tp" "t \<noteq> tp"
  shows "\<exists>mt'. merge_pair t tp isrefwd mt = Some mt' \<and> merging ts r mt' \<and> live (msgs mt') = live (msgs mt)"
proof -
  have "thread_subj (msgs mt) tp \<noteq> None"
    using merging_child(4) [OF m merging_pair(2) [OF m e]] by (auto simp: thread_subj_def)
  moreover have "live (move_msg tp t (msgs mt)) = live (msgs mt)"
    "live (breakparent t (move_children t tp (msgs mt))) = live (msgs mt)"
    by (rule live_strip, simp)+
  ultimately show ?thesis
    using join_merging [OF m s e] move_merging [OF m s e] new_container_merging [OF m s e]
    by (auto simp: merge_pair_def Let_def)
qed

lemma set_flag2_id: "\<not> flag2 (h ! m) \<Longrightarrow> set_flag2 False m (set_flag2 b m h) = h"
  by (cases "m < length h"; cases "h ! m") (auto simp: set_flag2_def list_update_same_conv list_update_beyond)

lemma on_msgs_twice: "on_msgs f (on_msgs g mt) = mt\<lparr>msgs := f (g (msgs mt))\<rparr>"
  by (simp add: on_msgs_def)

lemma merge_step_merging:
  assumes m: "merging (t # ts) r mt"
  shows "\<exists>mt'. merge_step t mt = Some mt' \<and> merging ts r mt' \<and> live (msgs mt') = live (msgs mt)"
proof -
  note d = mergingD [OF m]
  have t: "t \<in> set (children (msgs mt ! r))"
    using d(5) by simp
  then have tl: "t < length (msgs mt)"
    using linked_children [OF rootedD(1,2) [OF d(1)]] by simp
  obtain s where s: "thread_subj (msgs mt) t = Some s"
    using d(6) [OF t] by (cases "isdummy (msgs mt ! t)"; cases "children (msgs mt ! t)") (auto simp: thread_subj_def)
  show ?thesis
  proof (cases "s = []")
    case True
    then show ?thesis
      using s merging_tail [OF m] by (simp add: merge_step_def)
  next
    case False
    obtain e where e: "entry mt (key s) = Some e"
      using d(7) [of t] s False by (auto simp: covered_def)
    obtain tp where tp: "lmsg e = Some tp" "tp \<in> set (children (msgs mt ! r))"
      using d(8) [OF e] by blast
    have tpl: "tp < length (msgs mt)"
      using tp(2) linked_children [OF rootedD(1,2) [OF d(1)]] by simp
    have id: "mt\<lparr>msgs := set_flag2 False x (set_flag2 True x (msgs mt))\<rparr> = mt" if "x < length (msgs mt)" for x
      using set_flag2_id [OF d(2) [OF that]] by simp
    have flag: "flag2 (set_flag2 True tp (msgs mt) ! t) \<longleftrightarrow> t = tp"
      using d(2) tl tpl by (auto simp: set_flag2_def nth_list_update)
    have "merge_step t mt = (if t = tp then Some mt else merge_pair t tp (snd (rfc822_coresubj s)) mt)"
      using s False e tp(1) flag id [OF tl] id [OF tpl]
      by (simp add: merge_step_def findsubj_entry on_msgs_twice)
    then show ?thesis
      using merge_pair_merging [OF m s False e tp(1), of "snd (rfc822_coresubj s)"] merging_tail [OF m]
      by (cases "t = tp") auto
  qed
qed

lemma each_merge_step:
  "merging ts r mt \<Longrightarrow> \<exists>mt'. each merge_step ts mt = Some mt' \<and> merging [] r mt' \<and> live (msgs mt') = live (msgs mt)"
proof (induction ts arbitrary: mt)
  case (Cons t ts)
  obtain mt1 where "merge_step t mt = Some mt1" "merging ts r mt1" "live (msgs mt1) = live (msgs mt)"
    using merge_step_merging [OF Cons.prems] by blast
  then show ?case
    using Cons.IH [of mt1] by auto
qed simp

subsection \<open>All messages, once\<close>

text \<open>Reading the threads: a message, then the threads below it.\<close>

partial_function (option) preorder :: "refheap \<Rightarrow> nat list \<Rightarrow> nat list option" where
  "preorder h xs =
     (case xs of
        [] \<Rightarrow> Some []
      | x # xs \<Rightarrow>
          Option.bind (preorder h (children (h ! x))) (\<lambda>below. Option.bind (preorder h xs) (\<lambda>after. Some (x # below @ after))))"

declare preorder.simps [code]

lemma preorder_simps:
  "preorder h [] = Some []"
  "preorder h (x # xs) =
     Option.bind (preorder h (children (h ! x))) (\<lambda>below. Option.bind (preorder h xs) (\<lambda>after. Some (x # below @ after)))"
  by (subst preorder.simps, simp)+

definition apart :: "refheap \<Rightarrow> nat list \<Rightarrow> bool" where
  "apart h xs \<longleftrightarrow> distinct xs \<and> (\<forall>x \<in> set xs. \<forall>y \<in> set xs. (x, y) \<in> (par h)\<^sup>* \<longrightarrow> x = y)"

lemma preorder_list:
  assumes "linked h" "apart h xs"
    "\<forall>x \<in> set xs. \<exists>l. preorder h (children (h ! x)) = Some l \<and> distinct l \<and> set l = {y. (y, x) \<in> (par h)\<^sup>+}"
  shows "\<exists>l. preorder h xs = Some l \<and> distinct l \<and> set l = {y. \<exists>x \<in> set xs. (y, x) \<in> (par h)\<^sup>*}"
  using assms
proof (induction xs)
  case (Cons x xs)
  have a: "apart h xs" "x \<notin> set xs" "\<forall>y \<in> set xs. (x, y) \<notin> (par h)\<^sup>* \<and> (y, x) \<notin> (par h)\<^sup>*"
    using Cons.prems(2) by (auto simp: apart_def)
  obtain l where l: "preorder h xs = Some l" "distinct l" "set l = {y. \<exists>x \<in> set xs. (y, x) \<in> (par h)\<^sup>*}"
    using Cons.IH Cons.prems a by auto
  obtain b where b: "preorder h (children (h ! x)) = Some b" "distinct b" "set b = {y. (y, x) \<in> (par h)\<^sup>+}"
    using Cons.prems(3) by auto
  have "(x, x) \<notin> (par h)\<^sup>+"
    using linked_acyclic [OF Cons.prems(1)] by (simp add: acyclic_def)
  moreover have "False" if "(y, x) \<in> (par h)\<^sup>*" "z \<in> set xs" "(y, z) \<in> (par h)\<^sup>*" for y z
    using single_valued_confluent [OF single_valued_par that(1,3)] a(3) that(2) by blast
  ultimately have "distinct (x # b @ l)"
    using b l by (auto dest: trancl_into_rtrancl)
  moreover have "set (x # b @ l) = {y. \<exists>x \<in> set (x # xs). (y, x) \<in> (par h)\<^sup>*}"
    using b l by (auto simp: rtrancl_eq_or_trancl)
  ultimately show ?case
    using b l by (simp add: preorder_simps)
qed (simp add: preorder_simps)

lemma apart_children:
  assumes h: "linked h" and x: "x < length h"
  shows "apart h (children (h ! x))"
proof -
  have "c = c'" if c: "c \<in> set (children (h ! x))" "c' \<in> set (children (h ! x))" "(c, c') \<in> (par h)\<^sup>*" for c c'
  proof (rule ccontr)
    assume "c \<noteq> c'"
    then obtain z where z: "(c, z) \<in> par h" "(z, c') \<in> (par h)\<^sup>*"
      using c(3) by (auto elim: converse_rtranclE)
    then have "z = x"
      using c(1) linked_children [OF h x] by (simp add: par_def)
    then show False
      using z(2) linked_above_child [OF h, of c' x] linked_children [OF h x] c(2) by simp
  qed
  then show ?thesis
    using linked_distinct [OF h x] by (auto simp: apart_def)
qed

lemma preorder_total:
  assumes h: "linked h" and x: "x < length h"
  shows "\<exists>l. preorder h (children (h ! x)) = Some l \<and> distinct l \<and> set l = {y. (y, x) \<in> (par h)\<^sup>+}"
  using x
proof (induction x rule: wf_induct_rule [OF wf_par [OF h]])
  case (1 x)
  have c: "c \<in> set (children (h ! x)) \<longleftrightarrow> (c, x) \<in> par h" for c
    using linked_children [OF h 1(2)] by (simp add: par_def)
  have "\<forall>c \<in> set (children (h ! x)). \<exists>l. preorder h (children (h ! c)) = Some l \<and> distinct l \<and> set l = {y. (y, c) \<in> (par h)\<^sup>+}"
    using 1(1) c by (auto simp: par_def)
  from preorder_list [OF h apart_children [OF h 1(2)] this] obtain l where
    l: "preorder h (children (h ! x)) = Some l" "distinct l" "set l = {y. \<exists>c. (c, x) \<in> par h \<and> (y, c) \<in> (par h)\<^sup>*}"
    unfolding c Bex_def by blast
  have "set l = {y. (y, x) \<in> (par h)\<^sup>+}"
    using l(3) by (auto dest: tranclD2 intro: rtrancl_into_trancl1)
  then show ?case
    using l(1,2) by blast
qed

lemma preorder_root:
  assumes h: "linked h" "r < length h"
  shows "\<exists>l. preorder h [r] = Some l \<and> distinct l \<and> set l = {y. (y, r) \<in> (par h)\<^sup>*}"
  using preorder_list [OF h(1), of "[r]"] preorder_total [OF h] by (auto simp: apart_def)

lemma rooted_reach:
  assumes h: "rooted r h" and m: "m < length h"
  shows "(m, r) \<in> (par h)\<^sup>* \<or> isdummy (h ! m) \<and> children (h ! m) = []"
  using m
proof (induction m rule: wf_induct_rule [OF wf_child [OF rootedD(1) [OF h]]])
  case (1 m)
  show ?case
  proof (cases "parent (h ! m)")
    case None
    then show ?thesis
      using rootedD(5) [OF h 1(2)] by (cases "m = r") auto
  next
    case (Some p)
    have p: "(m, p) \<in> par h" "p < length h"
      using Some 1(2) linked_parent [OF rootedD(1) [OF h]] by (auto simp: par_def)
    have "children (h ! p) \<noteq> []"
      using linked_children [OF rootedD(1) [OF h] p(2), of m] Some 1(2) by auto
    then show ?thesis
      using 1(1) [of p] p by (auto intro: converse_rtrancl_into_rtrancl)
  qed
qed

lemma live_filter: "live h = mset (map (\<lambda>m. seqnum (h ! m)) (filter (\<lambda>m. \<not> isdummy (h ! m)) [0..<length h]))"
proof -
  have "live h = mset (map seqnum (filter (\<lambda>r. \<not> isdummy r) h))" for h
    by (induction h) (auto simp: alive_def)
  moreover have "map seqnum (filter (\<lambda>r. \<not> isdummy r) h) = map (\<lambda>m. seqnum (h ! m)) (filter (\<lambda>m. \<not> isdummy (h ! m)) [0..<length h])"
    by (subst (1) map_nth [of h, symmetric]) (simp add: filter_map o_def)
  ultimately show ?thesis
    by metis
qed

lemma preorder_live:
  assumes h: "rooted r h"
  shows "\<exists>l. preorder h [r] = Some l \<and> distinct l \<and> mset (map (\<lambda>m. seqnum (h ! m)) (filter (\<lambda>m. \<not> isdummy (h ! m)) l)) = live h"
proof -
  obtain l where l: "preorder h [r] = Some l" "distinct l" "set l = {y. (y, r) \<in> (par h)\<^sup>*}"
    using preorder_root [OF rootedD(1,2) [OF h]] by blast
  have lt: "y < length h" if "(y, r) \<in> (par h)\<^sup>*" for y
    using that rootedD(2) [OF h] by (auto elim: converse_rtranclE simp: par_def)
  have "set (filter (\<lambda>m. \<not> isdummy (h ! m)) l) = set (filter (\<lambda>m. \<not> isdummy (h ! m)) [0..<length h])"
    using rooted_reach [OF h] lt by (auto simp: l(3))
  then have "mset (filter (\<lambda>m. \<not> isdummy (h ! m)) l) = mset (filter (\<lambda>m. \<not> isdummy (h ! m)) [0..<length h])"
    using set_eq_iff_mset_eq_distinct l(2) distinct_filter distinct_upt by metis
  then have "mset (map (\<lambda>m. seqnum (h ! m)) (filter (\<lambda>m. \<not> isdummy (h ! m)) l)) = live h"
    unfolding live_filter mset_map by (rule arg_cong)
  then show ?thesis
    using l(1,2) by blast
qed


subsection \<open>The composition\<close>

lemma threading_sorted:
  assumes mt: "threading r mt" and s: "same_links (msgs mt) h"
  shows "threading r (mt\<lparr>msgs := h\<rparr>)" "live h = live (msgs mt)"
proof -
  have d: "rooted r (msgs mt)" "tops r (msgs mt)" "\<forall>m < length (msgs mt). \<not> flag2 (msgs mt ! m)" "rootptr mt = Some r"
    using mt by (simp_all add: threading_def)
  have "\<not> flag2 (h ! m)" if "m < length h" for m
  proof -
    have "m < length (msgs mt)"
      using that s by (simp add: same_links_def)
    then show ?thesis
      using d(3) strip_data(2) [OF same_links_nth(3) [OF s]] by simp
  qed
  then show "threading r (mt\<lparr>msgs := h\<rparr>)"
    using same_links_rooted [OF d(1) s] same_links_tops [OF d(1,2) s] d(4) by (simp add: threading_def)
  show "live h = live (msgs mt)"
    by (rule live_strip [OF same_links_strip [OF s]])
qed

lemma gather_merging:
  assumes mt: "threading r mt" and empty: "subjtable mt = (\<lambda>_. [])"
  shows "\<exists>mt'. rfc822_threadgathersubj r mt = Some mt' \<and> msgs mt' = msgs mt \<and> merging (children (msgs mt ! r)) r mt'"
proof -
  have d: "rooted r (msgs mt)" "tops r (msgs mt)" "rootptr mt = Some r"
    using mt by (simp_all add: threading_def)
  let ?ts = "children (msgs mt ! r)"
  have "\<forall>t \<in> set ?ts. t \<in> set ?ts \<and> thread_subj (msgs mt) t \<noteq> None"
    using d(2) by (auto simp: tops_def thread_subj_def split: list.split)
  moreover have "gathered (msgs mt) (set ?ts) mt"
    using empty by (simp add: gathered_def entry_def)
  ultimately obtain mt' where mt': "each gather_step ?ts mt = Some mt'" "gathered (msgs mt) (set ?ts) mt'"
      "\<forall>t \<in> set ?ts. covered mt' t" "rootptr mt' = rootptr mt"
    using each_gather_step by blast
  have m: "msgs mt' = msgs mt"
    using mt'(2) by (simp add: gathered_def)
  have "merging ?ts r mt'"
    using mt mt' linked_distinct [OF rootedD(1,2) [OF d(1)]] unfolding merging_def gathered_def threading_def m
    by (fastforce simp: m)
  then show ?thesis
    using mt'(1) m by (simp add: rfc822_threadgathersubj_def)
qed

lemma rfc822_thread_rooted:
  assumes qs: "sorts qs" and mt: "building mt"
  shows "\<exists>r mt'. rfc822_thread qs mt = Some (r, mt') \<and> rooted r (msgs mt') \<and> live (msgs mt') = live (msgs mt)"
proof -
  obtain r mt1 where 1: "rfc822_threadgetroot (rfc822_threadprune mt) = (r, mt1)"
    by (rule prod.exhaust)
  note root = getroot_rooted [OF prune_building(1) [OF mt] 1]
  have l1: "linked (msgs mt1)" "r < length (msgs mt1)"
    using root(1) rootedD by (auto simp: threading_def)
  obtain h where h: "rfc822_threadsortsubj qs r (msgs mt1) = Some h" "same_links (msgs mt1) h"
    using rfc822_threadsortsubj_total [OF qs l1] by blast
  note 2 = threading_sorted [OF root(1) h(2)]
  obtain mt3 where 3: "rfc822_threadgathersubj r (mt1\<lparr>msgs := h\<rparr>) = Some mt3" "msgs mt3 = h" "merging (children (h ! r)) r mt3"
    using gather_merging [OF 2(1)] root(3) by auto
  obtain mt4 where 4: "rfc822_threadmergesubj r mt3 = Some mt4" "merging [] r mt4" "live (msgs mt4) = live h"
    using each_merge_step [OF 3(3)] 3(2) by (auto simp: rfc822_threadmergesubj_def)
  have t4: "threading r mt4"
    using 4(2) by (simp add: merging_def)
  then obtain h5 where h5: "dothreadsort qs r (msgs mt4) = Some h5" "same_links (msgs mt4) h5"
    using dothreadsort_total [OF qs, of "msgs mt4" r] rootedD by (auto simp: threading_def)
  note 5 = threading_sorted [OF t4 h5(2)]
  have "rfc822_thread qs mt = Some (r, mt4\<lparr>msgs := h5\<rparr>)"
    using mt t4 1 h(1) 3(1) 4(1) h5(1)
    by (simp add: rfc822_thread_def building_def threading_def rfc822_threadsortbydate_def)
  moreover have "live h5 = live (msgs mt)"
    using 5(2) 4(3) 2(2) root(2) prune_building(2) [OF mt] by simp
  ultimately show ?thesis
    using 5(1) by (simp add: threading_def)
qed


text \<open>An insertion sort is such a routine; three messages with one subject, the second a reply to the first.\<close>

fun insert_cmp :: "(nat \<Rightarrow> nat \<Rightarrow> int option) \<Rightarrow> nat \<Rightarrow> nat list \<Rightarrow> nat list option" where
  "insert_cmp cmp x [] = Some [x]"
| "insert_cmp cmp x (y # ys) =
     Option.bind (cmp x y) (\<lambda>c. if c \<le> 0 then Some (x # y # ys) else map_option (Cons y) (insert_cmp cmp x ys))"

fun isort_cmp :: qsort where
  "isort_cmp cmp [] = Some []"
| "isort_cmp cmp (x # xs) = Option.bind (isort_cmp cmp xs) (insert_cmp cmp x)"

lemma insert_cmp_perm:
  "\<forall>y \<in> set ys. cmp x y \<noteq> None \<Longrightarrow> \<exists>zs. insert_cmp cmp x ys = Some zs \<and> mset zs = add_mset x (mset ys)"
  by (induction ys) auto

lemma isort_cmp_sorts: "sorts isort_cmp"
proof -
  have "\<exists>ys. isort_cmp cmp xs = Some ys \<and> mset ys = mset xs" if "\<forall>x \<in> set xs. \<forall>y \<in> set xs. cmp x y \<noteq> None" for cmp xs
    using that
  proof (induction xs)
    case (Cons x xs)
    then obtain ys where ys: "isort_cmp cmp xs = Some ys" "mset ys = mset xs"
      by auto
    then have "\<forall>y \<in> set ys. cmp x y \<noteq> None"
      using Cons.prems by (metis list.set_intros set_mset_mset)
    then show ?case
      using insert_cmp_perm [of ys cmp x] ys by simp
  qed simp
  then show ?thesis
    by (simp add: sorts_def)
qed



subsection \<open>Cases where the comments say otherwise\<close>

text \<open>The threads in preorder, with the children of each node, and the dummies.\<close>

definition threads_of :: "refheaders list \<Rightarrow> (nat list \<times> nat list list \<times> nat list) option" where
  "threads_of hss =
     Option.bind (rfc822_threadmsgs hss rfc822_threadalloc) (\<lambda>mt.
     Option.bind (rfc822_thread isort_cmp mt) (\<lambda>(r, mt).
     map_option (\<lambda>l. (l, map (\<lambda>m. children (msgs mt ! m)) l, filter (\<lambda>m. isdummy (msgs mt ! m)) l)) (preorder (msgs mt) [r])))"

text \<open>Threads whose extracted subject is empty are merged: the code looks at the subject before it is extracted.\<close>

lemma thread_empty_subject:
  "threads_of [\<lparr>msgidhdr = None, refhdr = None, subjheader = Some ''Re:'', dateheader = None, hseqnum = 1\<rparr>,
     \<lparr>msgidhdr = None, refhdr = None, subjheader = Some ''Re:'', dateheader = None, hseqnum = 2\<rparr>]
   = Some ([2, 0, 3, 1], [[0], [3, 1], [], []], [2, 0])"
  by code_simp

text \<open>A dummy at the top with a single child stays: pruning runs before there is a root, and skips what has no parent.\<close>

lemma thread_dummy_one_child:
  "threads_of [\<lparr>msgidhdr = None, refhdr = Some ''<x@b>'', subjheader = None, dateheader = None, hseqnum = 1\<rparr>]
   = Some ([2, 0, 1], [[0], [1], []], [2, 0])"
  by code_simp

text \<open>With a message without a date the comparison goes around in a circle, which the sorting routine need not expect.\<close>

lemma cmp_msgs_cycle:
  "let msg = (\<lambda>t n. \<lparr>parent = None, children = [], isdummy = False, flag2 = False, msgid = [], msubj = None, timestamp = t, seqnum = n\<rparr>);
       h = [msg 3 1, msg 0 2, msg 1 3]
   in cmp_msgs h 0 1 = Some (- 1) \<and> cmp_msgs h 1 2 = Some (- 1) \<and> cmp_msgs h 2 0 = Some (- 1)"
  by code_simp

end
