(* ===== verification/C_Stdio.thy ===== *)
theory C_Stdio
  imports C_Prelude
begin

text \<open>
  Reading a file by \<^verbatim>\<open>fgets\<close>, \<^verbatim>\<open>getc\<close> and \<^verbatim>\<open>fread\<close>: a file at its read position is the list of the characters
  that are left.
\<close>

definition bufsiz :: nat where
  "bufsiz = 8192"

text \<open>The characters \<^verbatim>\<open>fgets\<close> takes with a buffer of \<open>n\<close>.\<close>

definition fgets_length :: "nat \<Rightarrow> string \<Rightarrow> nat" where
  "fgets_length n s =
     (let l = take (n - 1) s in if nl \<in> set l then length (takeWhile (\<lambda>c. c \<noteq> nl) l) + 1 else length l)"

lemma fgets_length_pos: "s \<noteq> [] \<Longrightarrow> 1 < n \<Longrightarrow> 0 < fgets_length n s"
  by (auto simp: fgets_length_def Let_def)

lemma fgets_length_le: "fgets_length n s \<le> length s"
proof -
  have "nl \<in> set l \<Longrightarrow> length (takeWhile (\<lambda>c. c \<noteq> nl) l) < length l" for l
    by (induction l) auto
  from this [of "take (n - 1) s"] show ?thesis
    by (auto simp: fgets_length_def Let_def)
qed

lemma fgets_smaller: "s \<noteq> [] \<Longrightarrow> 1 < n \<Longrightarrow> length (drop (fgets_length n s) s) < length s"
  using fgets_length_pos [of s n] by (cases s) simp_all

text \<open>The string in a buffer of characters.\<close>

definition cstr :: "string \<Rightarrow> string" where
  "cstr s = takeWhile (\<lambda>c. c \<noteq> nul) s"

end
