(* ===== verification/Maildir_Filter.thy ===== *)
theory Maildir_Filter
  imports C_Stdio Numlib Maildir_Names
begin

text \<open>
  Mail filters (\<^verbatim>\<open>maildir/maildirfilter.c\<close>): the checks of a rule, the list of rules, the file for
  \<^verbatim>\<open>maildrop\<close> that has the rules in comments and as code, and its reading. A null pointer for the name, the header,
  the value or the From header is the empty string (the callers never pass a null From header, which the code would follow),
  the bits of \<open>flags\<close> are a set. The program of the autoreplies \<^verbatim>\<open>MAILBOT\<close>, which the build finds, is a parameter.
\<close>

subsection \<open>Rules\<close>

datatype maildirfiltertype = startswith | endswith | contains | hasrecipient | mimemultipart | textplain | islargerthan

datatype mfr = MFR_DOESNOT | MFR_BODY | MFR_CONTINUE | MFR_PLAINSTRING

datatype mf_err = MF_ERR_BADRULENAME | MF_ERR_BADRULEHEADER | MF_ERR_BADRULEVALUE | MF_ERR_BADRULEFOLDER | MF_ERR_BADFROMHDR

record maildirfilterrule =
  rulename :: string
  rtype :: maildirfiltertype
  rflags :: "mfr set"
  fieldname :: string
  fieldvalue :: string
  tofolder :: string
  fromhdr :: string

subsection \<open>Parameters of an autoreply\<close>

record autoresp_info =
  aname :: string
  dsnflag :: bool
  days :: "32 word"

text \<open>\<^verbatim>\<open>strtok\<close>: the first token ends the string in place, so that what comes before it stays; the other tokens follow.\<close>

definition tok_delim :: "char \<Rightarrow> bool" where
  "tok_delim c \<longleftrightarrow> c \<in> {sp, CHR 0x09, cr, nl}"

function tokens :: "string \<Rightarrow> string list" where
  "tokens s =
     (case dropWhile tok_delim s of
        [] \<Rightarrow> []
      | c # cs \<Rightarrow> (c # takeWhile (\<lambda>c. \<not> tok_delim c) cs) # tokens (dropWhile (\<lambda>c. \<not> tok_delim c) cs))"
  by pat_completeness auto
termination
proof (relation "measure length")
  fix s c cs
  assume "dropWhile tok_delim s = c # cs"
  then have "length (c # cs) \<le> length s"
    by (metis length_dropWhile_le)
  then show "(dropWhile (\<lambda>c. \<not> tok_delim c) cs, s) \<in> measure length"
    using length_dropWhile_le [of "\<lambda>c. \<not> tok_delim c" cs] by simp
qed simp

declare tokens.simps [simp del]

definition atoi :: "string \<Rightarrow> int" where
  "atoi s =
     (let s = skipspace s; neg = cread s = CHR ''-''; s = (if cread s \<in> {CHR ''-'', CHR ''+''} then tl s else s);
          n = int (dec_val 0 (takeWhile isdigit s))
      in if neg then - n else n)"

definition autoresp_arg :: "string \<Rightarrow> autoresp_info \<Rightarrow> autoresp_info" where
  "autoresp_arg p i =
     (if take 4 p = ''dsn='' then i\<lparr>dsnflag := atoi (drop 4 p) \<noteq> 0\<rparr>
      else if take 5 p = ''days='' then i\<lparr>days := word_of_int (atoi (drop 5 p))\<rparr>
      else i)"

definition maildir_filter_autoresp_info_init_str :: "string \<Rightarrow> autoresp_info option" where
  "maildir_filter_autoresp_info_init_str c =
     (case tokens c of
        [] \<Rightarrow> None
      | t # ts \<Rightarrow> Some (fold autoresp_arg ts \<lparr>aname = takeWhile tok_delim c @ t, dsnflag = False, days = 0\<rparr>))"

definition maildir_filter_autoresp_info_asstr :: "autoresp_info \<Rightarrow> string" where
  "maildir_filter_autoresp_info_asstr i =
     aname i @ (if dsnflag i then '' dsn=1'' else []) @
     (if days i > 0 then '' days='' @ libmail_str_size_t (ucast (days i)) else [])"

text \<open>The file of an autoreply (\<^verbatim>\<open>autoresponse.c\<close>); \<open>None\<close> is a null pointer.\<close>

definition afilename :: "string option \<Rightarrow> string \<Rightarrow> string option" where
  "afilename maildir filename =
     (if filename = [] \<or>
         list_ex (\<lambda>c. c \<in> set [CHR ''.'', CHR ''/'', CHR 0x27, dquote, CHR ''*'', CHR ''?'', CHR ''['', CHR '']'', sp, nl, CHR 0x09, cr, CHR ''~'']) filename
      then None
      else Some ((case maildir of None \<Rightarrow> ''.'' | Some d \<Rightarrow> d) @ ''/autoresponses/'' @ filename))"

definition maildir_autoresponse_validate :: "string option \<Rightarrow> string \<Rightarrow> int" where
  "maildir_autoresponse_validate maildir filename = (if afilename maildir filename = None then - 1 else 0)"

definition maildir_filter_autoresp_info_init :: "string \<Rightarrow> autoresp_info option" where
  "maildir_filter_autoresp_info_init c =
     (if maildir_autoresponse_validate None c \<noteq> 0 then None else Some \<lparr>aname = c, dsnflag = False, days = 0\<rparr>)"

subsection \<open>The checks\<close>

definition quotes :: "char set" where
  "quotes = {CHR 0x27, dquote, CHR 0x60}"

definition name_ok :: "string \<Rightarrow> bool" where
  "name_ok name \<longleftrightarrow> name \<noteq> [] \<and> length name \<le> 200 \<and> list_all (\<lambda>c. code c \<ge> 32 \<and> c \<notin> quotes) name"

definition header_ok :: "maildirfiltertype \<Rightarrow> mfr set \<Rightarrow> string \<Rightarrow> bool" where
  "header_ok t flags header \<longleftrightarrow>
     length header \<le> 200 \<and>
     (if header = [] then t \<in> {hasrecipient, islargerthan, mimemultipart, textplain} \<or> MFR_BODY \<in> flags
      else list_all (\<lambda>c. schar c > 32 \<and> c \<noteq> mdirsep \<and> schar c < 127 \<and> c \<notin> quotes \<and> c \<noteq> bslash \<and> c \<noteq> CHR ''/'') header)"

text \<open>One character of a set, and the rest of the set up to its bracket.\<close>

definition set_char :: "string \<Rightarrow> string option" where
  "set_char c =
     (if c \<noteq> [] \<and> hd c \<in> quotes then None
      else let c = (if cread c = bslash then tl c else c)
           in if c = [] \<or> code (hd c) < 32 then None else Some (tl c))"

lemma length_set_char: "set_char c = Some d \<Longrightarrow> length d < length c"
  by (cases c) (auto simp: set_char_def Let_def split: if_splits)

function scan_set :: "string \<Rightarrow> string option" where
  "scan_set c =
     (case set_char c of
        None \<Rightarrow> None
      | Some c \<Rightarrow>
          if cread c = CHR '']'' then Some (tl c)
          else if cread c \<noteq> CHR ''-'' then scan_set c
          else (case set_char (tl c) of None \<Rightarrow> None | Some c \<Rightarrow> scan_set c))"
  by pat_completeness auto
termination
proof (relation "measure length")
  fix c d e
  assume "set_char c = Some d" "set_char (tl d) = Some e"
  then have "length d < length c" "length e < length (tl d)"
    by (blast dest: length_set_char)+
  then show "(e, c) \<in> measure length"
    by simp
qed (auto dest: length_set_char)

declare scan_set.simps [simp del]

lemma length_scan_set: "scan_set c = Some d \<Longrightarrow> length d < length c"
proof (induction c rule: scan_set.induct)
  case (1 c)
  obtain e where e: "set_char c = Some e" "length e < length c"
    using 1(3) by (subst (asm) scan_set.simps) (auto split: option.splits dest: length_set_char)
  show ?case
  proof (cases "cread e = CHR '']''")
    case True
    then show ?thesis
      using 1(3) e by (subst (asm) scan_set.simps) auto
  next
    case no_end: False
    show ?thesis
    proof (cases "cread e = CHR ''-''")
      case False
      then show ?thesis
        using 1(1) [OF e(1) no_end] 1(3) e no_end by (subst (asm) (2) scan_set.simps) auto
    next
      case True
      obtain g where g: "set_char (tl e) = Some g" "scan_set g = Some d"
        using 1(3) e True by (subst (asm) scan_set.simps) (auto split: option.splits)
      have "length g < length (tl e)"
        by (rule length_set_char [OF g(1)])
      then show ?thesis
        using 1(2) [OF e(1) no_end _ g] True e(2) by simp
    qed
  qed
qed

function pattern_loop :: "maildirfiltertype \<Rightarrow> nat \<Rightarrow> string \<Rightarrow> bool" where
  "pattern_loop t lparencount [] \<longleftrightarrow> lparencount = 0"
| "pattern_loop t lparencount (c # cs) \<longleftrightarrow>
     (if c \<in> {CHR ''/'', CHR ''$'', CHR ''!''} \<union> quotes \<or> code c < 32 then False
      else if t = islargerthan \<and> \<not> isdigit c then False
      else if c = CHR ''('' then
        t \<noteq> hasrecipient \<and> cread cs \<noteq> CHR '')'' \<and> pattern_loop t (lparencount + 1) cs
      else if c = CHR '')'' then t \<noteq> hasrecipient \<and> lparencount \<noteq> 0 \<and> pattern_loop t (lparencount - 1) cs
      else if c = CHR ''['' then
        t \<noteq> hasrecipient \<and> (case scan_set cs of None \<Rightarrow> False | Some r \<Rightarrow> pattern_loop t lparencount r)
      else if c = bslash then t \<noteq> hasrecipient \<and> cs \<noteq> [] \<and> pattern_loop t lparencount (tl cs)
      else pattern_loop t lparencount cs)"
  by pat_completeness auto
termination
  by (relation "measure (\<lambda>(t, n, c). length c)") (auto dest: length_scan_set)

definition value_ok :: "maildirfiltertype \<Rightarrow> mfr set \<Rightarrow> string \<Rightarrow> bool" where
  "value_ok t flags c \<longleftrightarrow>
     length c \<le> 200 \<and>
     (if c = [] then t \<in> {mimemultipart, textplain} else MFR_PLAINSTRING \<in> flags \<or> pattern_loop t 0 c)"

definition from_ok :: "string \<Rightarrow> bool" where
  "from_ok c \<longleftrightarrow> list_all (\<lambda>c. c \<noteq> CHR 0x27 \<and> c \<noteq> bslash \<and> code c \<ge> 32) c"

fun folder_chars :: "string \<Rightarrow> bool" where
  "folder_chars [] \<longleftrightarrow> True"
| "folder_chars (c # cs) \<longleftrightarrow>
     (if c = CHR ''.'' \<and> (cs = [] \<or> hd cs = CHR ''.'') then False
      else if code c < 32 \<or> c \<in> {bslash, CHR ''|'', CHR ''!''} then False
      else folder_chars cs)"

definition folder_ok :: "string \<Rightarrow> bool" where
  "folder_ok c \<longleftrightarrow>
     length c \<le> 200 \<and>
     (if cread c \<in> {CHR ''*'', CHR ''!''}
      then list_all (\<lambda>c. c \<notin> set [CHR 0x27, dquote, CHR ''$'', bslash, CHR 0x60, CHR '';'', CHR ''('', CHR '')'', CHR ''{'',
             CHR ''}'', CHR ''#'', CHR ''&'', CHR ''<'', CHR ''>'', CHR ''~''] \<and> code c \<ge> 32) (tl c)
      else if cread c = CHR ''+'' then maildir_filter_autoresp_info_init_str (tl c) \<noteq> None
      else c = ''.'' \<or> folder_chars c)"

definition maildir_filter_ruleupdate ::
    "string \<Rightarrow> maildirfiltertype \<Rightarrow> mfr set \<Rightarrow> string \<Rightarrow> string \<Rightarrow> string \<Rightarrow> string \<Rightarrow> mf_err + maildirfilterrule" where
  "maildir_filter_ruleupdate name t flags header val folder from =
     (let from = skipspace from
      in if \<not> name_ok name then Inl MF_ERR_BADRULENAME
         else if \<not> header_ok t flags header then Inl MF_ERR_BADRULEHEADER
         else if \<not> value_ok t flags val then Inl MF_ERR_BADRULEVALUE
         else if \<not> from_ok from then Inl MF_ERR_BADFROMHDR
         else if \<not> folder_ok folder then Inl MF_ERR_BADRULEFOLDER
         else Inr \<lparr>rulename = name, rtype = t, rflags = flags, fieldname = header, fieldvalue = val,
           tofolder = (if cread folder \<notin> {CHR ''*'', CHR ''!'', CHR ''.'', CHR ''+''} then ''.'' else []) @ folder,
           fromhdr = from\<rparr>)"

subsection \<open>The list of rules\<close>

text \<open>A pointer to a rule is its position.\<close>

definition maildir_filter_appendrule ::
    "maildirfilterrule list \<Rightarrow> string \<Rightarrow> maildirfiltertype \<Rightarrow> mfr set \<Rightarrow> string \<Rightarrow> string \<Rightarrow> string \<Rightarrow> string \<Rightarrow>
      mf_err + maildirfilterrule list" where
  "maildir_filter_appendrule r name t flags header val folder from =
     (case maildir_filter_ruleupdate name t flags header val folder from of Inl e \<Rightarrow> Inl e | Inr p \<Rightarrow> Inr (r @ [p]))"

definition maildir_filter_ruledel :: "maildirfilterrule list \<Rightarrow> nat \<Rightarrow> maildirfilterrule list" where
  "maildir_filter_ruledel r p = take p r @ drop (p + 1) r"

definition maildir_filter_ruleup :: "maildirfilterrule list \<Rightarrow> nat \<Rightarrow> maildirfilterrule list" where
  "maildir_filter_ruleup r p = (if p = 0 then r else r[p - 1 := r ! p, p := r ! (p - 1)])"

definition maildir_filter_ruledown :: "maildirfilterrule list \<Rightarrow> nat \<Rightarrow> maildirfilterrule list" where
  "maildir_filter_ruledown r p = (if p + 1 = length r then r else r[p := r ! (p + 1), p + 1 := r ! p])"


subsection \<open>Writing the file\<close>

definition typelist :: "(maildirfiltertype \<times> string) list" where
  "typelist =
     [(startswith, ''startswith''), (endswith, ''endswith''), (contains, ''contains''), (hasrecipient, ''hasrecipient''),
      (mimemultipart, ''mimemultipart''), (textplain, ''textplain''), (islargerthan, ''islargerthan'')]"

definition type_name :: "maildirfiltertype \<Rightarrow> string" where
  "type_name t = (case map_of typelist t of None \<Rightarrow> [] | Some n \<Rightarrow> n)"

definition print_pattern :: "mfr set \<Rightarrow> string \<Rightarrow> string" where
  "print_pattern flags v =
     (if MFR_PLAINSTRING \<notin> flags then (if v \<noteq> [] \<and> isspace (hd v) then [bslash] else []) @ v
      else concat (map (\<lambda>c. if isalnum c then [c] else [bslash, c]) v))"

text \<open>The lines of the file, without their newlines.\<close>

definition flag_lines :: "mfr set \<Rightarrow> string list" where
  "flag_lines flags =
     (if MFR_PLAINSTRING \<in> flags then [''##PlainString''] else []) @ (if MFR_DOESNOT \<in> flags then [''##DoesNot''] else []) @
     (if MFR_BODY \<in> flags then [''##Body''] else []) @ (if MFR_CONTINUE \<in> flags then [''##Continue''] else [])"

definition comment_lines :: "maildirfilterrule \<Rightarrow> string list" where
  "comment_lines p =
     [''##Op:'' @ type_name (rtype p), ''##Header:'' @ fieldname p, ''##Value:'' @ fieldvalue p, ''##Folder:'' @ tofolder p,
      ''##From:'' @ fromhdr p] @
     flag_lines (rflags p) @
     [''##Name:'' @ rulename p, [], []]"

definition condition :: "maildirfilterrule \<Rightarrow> string" where
  "condition p =
     (let pat = print_pattern (rflags p) (fieldvalue p); body = MFR_BODY \<in> rflags p
      in case rtype p of
           startswith \<Rightarrow> if body then ''/^'' @ pat @ ''/:b'' else ''/^'' @ fieldname p @ '': *'' @ pat @ ''/''
         | endswith \<Rightarrow> if body then ''/'' @ pat @ ''$/:b'' else ''/^'' @ fieldname p @ '':.*'' @ pat @ ''$/''
         | contains \<Rightarrow> if body then ''/'' @ pat @ ''/:b'' else ''/^'' @ fieldname p @ '':.*'' @ pat @ ''/''
         | hasrecipient \<Rightarrow> ''hasaddr('' @ [dquote] @ fieldvalue p @ [dquote] @ '')''
         | mimemultipart \<Rightarrow> ''/^Content-Type: *multipart'' @ [bslash] @ ''/mixed/''
         | textplain \<Rightarrow> '' (! /^Content-Type:/) || /^Content-Type: text'' @ [bslash] @ ''/plain$/ || /^Content-Type: text'' @ [bslash] @ ''/plain;/''
         | islargerthan \<Rightarrow> ''$SIZE > '' @ fieldvalue p)"

definition autoreply_lines :: "string \<Rightarrow> string \<Rightarrow> maildirfilterrule \<Rightarrow> string list" where
  "autoreply_lines mailbot maildirpath p =
     (case maildir_filter_autoresp_info_init_str (tl (tofolder p)) of
        None \<Rightarrow> []
      | Some ai \<Rightarrow>
          [if fromhdr p \<noteq> [] then ''    AUTOREPLYFROM='' @ [CHR 0x27] @ fromhdr p @ [CHR 0x27] else ''    AUTOREPLYFROM=$FROM'',
           ''   '' @ [CHR 0x60] @ mailbot @ '' -A '' @ [dquote] @ ''X-Sender: $FROM'' @ [dquote] @ '' -A '' @ [dquote] @ ''From: $AUTOREPLYFROM'' @ [dquote] @
           (if dsnflag ai then '' -M '' @ [dquote] @ ''$FROM'' @ [dquote] else []) @
           '' -m '' @ [dquote] @ maildirpath @ ''/autoresponses/'' @ aname ai @ [dquote] @
           (if days ai > 0 then '' -d '' @ [dquote] @ maildirpath @ ''/autoresponses/'' @ aname ai @ ''.dat'' @ [dquote] @ '' -D '' @ dec (unat (days ai)) else []) @
           '' $SENDMAIL -t -f '' @ [dquote, dquote, CHR 0x60]])"

definition action_lines :: "string \<Rightarrow> string \<Rightarrow> maildirfilterrule \<Rightarrow> string list" where
  "action_lines mailbot maildirpath p =
     (let f = tofolder p; cc = (if MFR_CONTINUE \<in> rflags p then ''cc'' else ''to'')
      in if cread f = CHR ''!''
         then [''    '' @ cc @ '' '' @ [dquote] @ ''| $SENDMAIL -f '' @ [dquote] @ '' '' @ [CHR 0x27, dquote] @ ''$SENDER'' @ [dquote, CHR 0x27] @ '' '' @ [dquote] @ '' '' @ tl f @ [dquote]]
         else if cread f = CHR ''*'' then [''    echo '' @ [dquote] @ tl f @ [dquote], ''    EXITCODE=77'', ''    exit'']
         else if cread f = CHR ''+'' then autoreply_lines mailbot maildirpath p
         else let f = (if cread f = CHR ''.'' then tl f else f)
              in [''   '' @ cc @ '' '' @ [dquote] @ maildirpath @ (if f \<noteq> [] then ''/.'' else []) @ f @ ''/.'' @ [dquote]])"

definition code_lines :: "string \<Rightarrow> string \<Rightarrow> maildirfilterrule \<Rightarrow> string list" where
  "code_lines mailbot maildirpath p =
     [''if ('' @ (if MFR_DOESNOT \<in> rflags p then ''!'' else []) @ ''('' @ condition p @ ''))'', ''{''] @
     action_lines mailbot maildirpath p @ [''}'', []]"

definition rule_lines :: "string \<Rightarrow> string \<Rightarrow> maildirfilterrule \<Rightarrow> string list" where
  "rule_lines mailbot maildirpath p = comment_lines p @ code_lines mailbot maildirpath p"

definition saved_lines :: "string \<Rightarrow> string \<Rightarrow> string \<Rightarrow> maildirfilterrule list \<Rightarrow> string list" where
  "saved_lines mailbot maildirpath fromaddr r =
     [''#MFMAILDROP=2'', ''#'', ''# DO NOT EDIT THIS FILE.  This is an automatically generated filter.'', [],
      ''FROM='' @ [CHR 0x27] @ filter (\<lambda>c. c \<noteq> dquote \<and> c \<noteq> CHR 0x27 \<and> c \<noteq> bslash) fromaddr @ [CHR 0x27],
      ''import SENDER'', ''if ($SENDER eq '' @ [dquote, dquote] @ '')'', ''{'', '' SENDER=$FROM'', ''}'', []] @
     concat (map (rule_lines mailbot maildirpath) r) @
     [''to '' @ [dquote] @ maildirpath @ ''/.'' @ [dquote]]"

definition maildir_filter_saverules :: "string \<Rightarrow> string \<Rightarrow> string \<Rightarrow> maildirfilterrule list \<Rightarrow> string" where
  "maildir_filter_saverules mailbot maildirpath fromaddr r =
     concat (map (\<lambda>l. l @ [nl]) (saved_lines mailbot maildirpath fromaddr r))"

subsection \<open>Reading the file\<close>

datatype mf_load = MF_LOADOK | MF_LOADNOTFOUND | MF_LOADFOREIGN | MF_LOADERROR

text \<open>The string in the buffer after \<^verbatim>\<open>fgets\<close>, up to its newline.\<close>

definition line_of :: "nat \<Rightarrow> string \<Rightarrow> string" where
  "line_of n s = takeWhile (\<lambda>c. c \<noteq> nul \<and> c \<noteq> nl) (take (fgets_length n s) s)"

record load_state =
  new_type :: maildirfiltertype
  new_header :: string
  new_value :: string
  new_folder :: string
  new_autoreplyfrom :: string
  new_flags :: "mfr set"
  new_rules :: "maildirfilterrule list"

definition load_init :: "maildirfilterrule list \<Rightarrow> load_state" where
  "load_init r =
     \<lparr>new_type = contains, new_header = [], new_value = [], new_folder = [], new_autoreplyfrom = [], new_flags = {}, new_rules = r\<rparr>"

definition load_line :: "string \<Rightarrow> load_state \<Rightarrow> mf_load + load_state" where
  "load_line buf st =
     (if take 2 buf \<noteq> ''##'' then Inr st
      else let p = skipspace (drop 2 buf)
      in if caseprefix ''From:'' p then Inr (st\<lparr>new_autoreplyfrom := take 511 (drop 5 p)\<rparr>)
         else if caseprefix ''Op:'' p then
           (case filter (\<lambda>(t, n). strcaseeq n (drop 3 p)) typelist of
              [] \<Rightarrow> Inl MF_LOADFOREIGN
            | (t, n) # _ \<Rightarrow> Inr (st\<lparr>new_type := t\<rparr>))
         else if caseprefix ''Header:'' p then Inr (st\<lparr>new_header := take 255 (drop 7 p)\<rparr>)
         else if caseprefix ''Value:'' p then Inr (st\<lparr>new_value := take 255 (drop 6 p)\<rparr>)
         else if caseprefix ''Folder:'' p then Inr (st\<lparr>new_folder := take 255 (drop 7 p)\<rparr>)
         else if strcaseeq p ''plainstring'' then Inr (st\<lparr>new_flags := insert MFR_PLAINSTRING (new_flags st)\<rparr>)
         else if strcaseeq p ''doesnot'' then Inr (st\<lparr>new_flags := insert MFR_DOESNOT (new_flags st)\<rparr>)
         else if strcaseeq p ''continue'' then Inr (st\<lparr>new_flags := insert MFR_CONTINUE (new_flags st)\<rparr>)
         else if strcaseeq p ''body'' then Inr (st\<lparr>new_flags := insert MFR_BODY (new_flags st)\<rparr>)
         else if caseprefix ''Name:'' p then
           (case maildir_filter_appendrule (new_rules st) (drop 5 p) (new_type st) (new_flags st) (new_header st) (new_value st)
                   (new_folder st) (new_autoreplyfrom st) of
              Inl _ \<Rightarrow> Inl MF_LOADERROR
            | Inr r \<Rightarrow> Inr (load_init r))
         else Inr st)"

function load_loop :: "string \<Rightarrow> load_state \<Rightarrow> mf_load \<times> maildirfilterrule list" where
  "load_loop s st =
     (if s = [] then (MF_LOADOK, new_rules st)
      else case load_line (line_of bufsiz s) st of
             Inl e \<Rightarrow> (e, new_rules st)
           | Inr st \<Rightarrow> load_loop (drop (fgets_length bufsiz s) s) st)"
  by pat_completeness auto
termination
  by (relation "measure (\<lambda>(s, st). length s)") (auto simp: fgets_length_def bufsiz_def Let_def)

declare load_loop.simps [simp del]

definition maildir_filter_loadrules :: "maildirfilterrule list \<Rightarrow> string option \<Rightarrow> mf_load \<times> maildirfilterrule list" where
  "maildir_filter_loadrules r content =
     (case content of
        None \<Rightarrow> (MF_LOADNOTFOUND, r)
      | Some s \<Rightarrow>
          let buf = takeWhile (\<lambda>c. c \<noteq> nul) (take (fgets_length bufsiz s) s)
          in if take 12 buf \<noteq> ''#MFMAILDROP='' then (MF_LOADFOREIGN, r)
             else if atoi (drop 12 buf) \<notin> {1, 2} then (MF_LOADFOREIGN, r)
             else load_loop (drop (fgets_length bufsiz s) s) (load_init r))"


subsection \<open>The filter of a maildir\<close>

text \<open>
  \<^verbatim>\<open>maildirfilter2.c\<close>: the configuration file of the maildir, or else the common one, tells where the filter is;
  it is edited in a temporary file of the maildir. A file that is not there is \<open>None\<close>.
\<close>

function config_loop :: "string \<Rightarrow> string \<Rightarrow> string" where
  "config_loop varname s =
     (if s = [] then []
      else let p = line_of 256 s
           in if CHR ''='' \<in> set p \<and> takeWhile (\<lambda>c. c \<noteq> CHR ''='') p = varname then tl (dropWhile (\<lambda>c. c \<noteq> CHR ''='') p)
              else config_loop varname (drop (fgets_length 256 s) s))"
  by pat_completeness auto
termination
  by (relation "measure (\<lambda>(v, s). length s)") (auto simp: fgets_length_def Let_def)

declare config_loop.simps [simp del]

definition maildir_filter_config :: "string option \<Rightarrow> string option \<Rightarrow> string \<Rightarrow> string option" where
  "maildir_filter_config own common varname =
     (case (case own of None \<Rightarrow> common | Some f \<Rightarrow> Some f) of None \<Rightarrow> None | Some f \<Rightarrow> Some (config_loop varname f))"

definition maildir_filter_config_maildirfilter :: "string option \<Rightarrow> string option \<Rightarrow> string \<Rightarrow> string option" where
  "maildir_filter_config_maildirfilter own common maildir =
     (case maildir_filter_config own common ''MAILDIRFILTER'' of
        None \<Rightarrow> None
      | Some p \<Rightarrow> if p = [] then None else Some ((if cread p \<noteq> slash then maildir @ ''/'' else []) @ p))"

definition maildir_filter_hasmaildirfilter :: "string option \<Rightarrow> string option \<Rightarrow> int" where
  "maildir_filter_hasmaildirfilter own common =
     (if maildir_filter_config own common ''MAILDIR'' \<in> {None, Some []} then - 1
      else if maildir_filter_config own common ''MAILDIRFILTER'' \<in> {None, Some []} then - 1
      else 0)"

definition maildir_filter_loadmaildirfilter :: "string option \<Rightarrow> int \<times> maildirfilterrule list" where
  "maildir_filter_loadmaildirfilter tmp =
     (case maildir_filter_loadrules [] tmp of (rc, r) \<Rightarrow> (if rc \<noteq> MF_LOADOK \<and> rc \<noteq> MF_LOADNOTFOUND then - 1 else 0, r))"

text \<open>The new temporary file; \<open>None\<close> when the return address is empty up to its \<^verbatim>\<open>@\<close>, and \<^verbatim>\<open>strtok\<close> gives a null pointer.\<close>

definition maildir_filter_savemaildirfilter :: "string \<Rightarrow> string \<Rightarrow> string \<Rightarrow> maildirfilterrule list \<Rightarrow> string option" where
  "maildir_filter_savemaildirfilter mailbot returnaddr from mf =
     (let user = takeWhile (\<lambda>c. c \<noteq> CHR ''@'') (dropWhile (\<lambda>c. c = CHR ''@'') returnaddr)
      in if user = [] then None else Some (maildir_filter_saverules mailbot (''./'' @ user @ ''/Maildir'') from mf))"

subsection \<open>Lines are read as they were written\<close>

definition text_of :: "string list \<Rightarrow> string" where
  "text_of ls = concat (map (\<lambda>l. l @ [nl]) ls)"

definition oneline :: "string \<Rightarrow> bool" where
  "oneline s \<longleftrightarrow> nl \<notin> set s \<and> nul \<notin> set s"

definition line_ok :: "string \<Rightarrow> bool" where
  "line_ok l \<longleftrightarrow> oneline l \<and> length l < 8191"

lemma oneline_simps [simp]:
  "oneline []" "oneline (c # s) \<longleftrightarrow> c \<noteq> nl \<and> c \<noteq> nul \<and> oneline s" "oneline (s @ t) \<longleftrightarrow> oneline s \<and> oneline t"
  by (auto simp: oneline_def)

lemma oneline_codes: "list_all (\<lambda>c. code c \<ge> 32) s \<Longrightarrow> oneline s"
  by (induction s) auto

lemma oneline_subset: "set s \<subseteq> set t \<Longrightarrow> oneline t \<Longrightarrow> oneline s"
  by (auto simp: oneline_def)

lemma fgets_line:
  assumes "line_ok l"
  shows "fgets_length bufsiz (l @ nl # s) = length l + 1" "line_of bufsiz (l @ nl # s) = l"
    "takeWhile (\<lambda>c. c \<noteq> nul) (take (length l + 1) (l @ nl # s)) = l @ [nl]"
proof -
  have t: "take (bufsiz - 1) (l @ nl # s) = l @ nl # take (8190 - length l) s"
    using assms by (simp add: line_ok_def bufsiz_def Suc_diff_le take_Cons')
  show f: "fgets_length bufsiz (l @ nl # s) = length l + 1"
    using assms unfolding fgets_length_def Let_def t by (simp add: line_ok_def oneline_def)
  have "takeWhile (\<lambda>c. c \<noteq> nul \<and> c \<noteq> nl) (l @ [nl]) = l"
    using assms by (subst takeWhile_append2) (auto simp: line_ok_def oneline_def)
  then show "line_of bufsiz (l @ nl # s) = l"
    by (simp add: line_of_def f)
  have "take (length l + 1) (l @ nl # s) = l @ [nl]"
    by simp
  then show "takeWhile (\<lambda>c. c \<noteq> nul) (take (length l + 1) (l @ nl # s)) = l @ [nl]"
    using assms by (auto simp: line_ok_def oneline_def takeWhile_eq_all_conv)
qed

fun load_all :: "string list \<Rightarrow> load_state \<Rightarrow> mf_load \<times> maildirfilterrule list" where
  "load_all [] st = (MF_LOADOK, new_rules st)"
| "load_all (l # ls) st = (case load_line l st of Inl e \<Rightarrow> (e, new_rules st) | Inr st \<Rightarrow> load_all ls st)"

lemma load_loop_lines: "list_all line_ok ls \<Longrightarrow> load_loop (text_of ls) st = load_all ls st"
proof (induction ls arbitrary: st)
  case Nil
  then show ?case
    by (simp add: text_of_def load_loop.simps)
next
  case (Cons l ls)
  have t: "text_of (l # ls) = l @ nl # text_of ls"
    by (simp add: text_of_def)
  show ?case
    unfolding t using Cons fgets_line [of l "text_of ls"]
    by (subst load_loop.simps) (simp split: sum.split)
qed

lemma load_code: "list_all (\<lambda>l. take 2 l \<noteq> ''##'') ls \<Longrightarrow> load_all (ls @ ms) st = load_all ms st"
  by (induction ls arbitrary: st) (simp_all add: load_line_def)

subsection \<open>The comments of a rule\<close>

lemma load_comment:
  "load_line (''##Op:'' @ type_name t) st = Inr (st\<lparr>new_type := t\<rparr>)"
  "load_line (''##Header:'' @ x) st = Inr (st\<lparr>new_header := take 255 x\<rparr>)"
  "load_line (''##Value:'' @ x) st = Inr (st\<lparr>new_value := take 255 x\<rparr>)"
  "load_line (''##Folder:'' @ x) st = Inr (st\<lparr>new_folder := take 255 x\<rparr>)"
  "load_line (''##From:'' @ x) st = Inr (st\<lparr>new_autoreplyfrom := take 511 x\<rparr>)"
  "load_line ''##PlainString'' st = Inr (st\<lparr>new_flags := insert MFR_PLAINSTRING (new_flags st)\<rparr>)"
  "load_line ''##DoesNot'' st = Inr (st\<lparr>new_flags := insert MFR_DOESNOT (new_flags st)\<rparr>)"
  "load_line ''##Body'' st = Inr (st\<lparr>new_flags := insert MFR_BODY (new_flags st)\<rparr>)"
  "load_line ''##Continue'' st = Inr (st\<lparr>new_flags := insert MFR_CONTINUE (new_flags st)\<rparr>)"
  "load_line (''##Name:'' @ x) st =
     (case maildir_filter_appendrule (new_rules st) x (new_type st) (new_flags st) (new_header st) (new_value st)
             (new_folder st) (new_autoreplyfrom st) of
        Inl _ \<Rightarrow> Inl MF_LOADERROR
      | Inr r \<Rightarrow> Inr (load_init r))"
  "load_line [] st = Inr st"
  by (cases t; simp add: load_line_def type_name_def typelist_def strcaseeq_def tolower_def isupper_def skipspace_def isspace_def)
    (simp_all add: load_line_def strcaseeq_def tolower_def isupper_def skipspace_def isspace_def char_eq_code)

definition stored :: "maildirfilterrule \<Rightarrow> bool" where
  "stored p \<longleftrightarrow>
     maildir_filter_ruleupdate (rulename p) (rtype p) (rflags p) (fieldname p) (fieldvalue p) (tofolder p) (fromhdr p) = Inr p \<and>
     length (fromhdr p) \<le> 511"

lemma ruleupdate_checks:
  assumes "maildir_filter_ruleupdate name t flags header val folder from = Inr p"
  shows "name_ok name" "header_ok t flags header" "value_ok t flags val" "from_ok (skipspace from)" "folder_ok folder"
    "p = \<lparr>rulename = name, rtype = t, rflags = flags, fieldname = header, fieldvalue = val,
      tofolder = (if cread folder \<notin> {CHR ''*'', CHR ''!'', CHR ''.'', CHR ''+''} then ''.'' else []) @ folder, fromhdr = skipspace from\<rparr>"
  using assms by (auto simp: maildir_filter_ruleupdate_def Let_def split: if_splits)

text \<open>A rule that was accepted is accepted again as it was stored, unless the dot makes its folder too long.\<close>

lemma ruleupdate_again:
  assumes u: "maildir_filter_ruleupdate name t flags header val folder from = Inr p" and len: "length folder < 200"
  shows "maildir_filter_ruleupdate (rulename p) (rtype p) (rflags p) (fieldname p) (fieldvalue p) (tofolder p) (fromhdr p) = Inr p"
proof -
  note c = ruleupdate_checks [OF u]
  have "folder_ok (tofolder p)"
    using c(5) len by (cases folder) (auto simp: folder_ok_def c(6) split: if_splits)
  then show ?thesis
    using c by (auto simp: maildir_filter_ruleupdate_def Let_def)
qed

lemma stored_lengths:
  assumes "stored p"
  shows "length (rulename p) \<le> 200" "length (fieldname p) \<le> 200" "length (fieldvalue p) \<le> 200" "length (tofolder p) \<le> 200"
    "length (fromhdr p) \<le> 511"
proof -
  have u: "maildir_filter_ruleupdate (rulename p) (rtype p) (rflags p) (fieldname p) (fieldvalue p) (tofolder p) (fromhdr p) = Inr p"
    and f: "length (fromhdr p) \<le> 511"
    using assms by (simp_all add: stored_def)
  show "length (rulename p) \<le> 200" "length (fieldname p) \<le> 200" "length (fieldvalue p) \<le> 200" "length (tofolder p) \<le> 200"
    "length (fromhdr p) \<le> 511"
    using ruleupdate_checks(1-5) [OF u] f by (simp_all add: name_ok_def header_ok_def value_ok_def folder_ok_def)
qed

lemma load_flag:
  "load_all ((if b then [''##PlainString''] else []) @ ls) st = load_all ls (st\<lparr>new_flags := (if b then {MFR_PLAINSTRING} else {}) \<union> new_flags st\<rparr>)"
  "load_all ((if b then [''##DoesNot''] else []) @ ls) st = load_all ls (st\<lparr>new_flags := (if b then {MFR_DOESNOT} else {}) \<union> new_flags st\<rparr>)"
  "load_all ((if b then [''##Body''] else []) @ ls) st = load_all ls (st\<lparr>new_flags := (if b then {MFR_BODY} else {}) \<union> new_flags st\<rparr>)"
  "load_all ((if b then [''##Continue''] else []) @ ls) st = load_all ls (st\<lparr>new_flags := (if b then {MFR_CONTINUE} else {}) \<union> new_flags st\<rparr>)"
  by (simp_all add: load_comment)

lemma flag_set:
  "(if MFR_CONTINUE \<in> F then {MFR_CONTINUE} else {}) \<union> ((if MFR_BODY \<in> F then {MFR_BODY} else {}) \<union>
    ((if MFR_DOESNOT \<in> F then {MFR_DOESNOT} else {}) \<union> ((if MFR_PLAINSTRING \<in> F then {MFR_PLAINSTRING} else {}) \<union> G))) = F \<union> G"
  (is "?G = _")
proof (rule set_eqI)
  show "x \<in> ?G \<longleftrightarrow> x \<in> F \<union> G" for x
    by (cases x) simp_all
qed

lemma load_flags: "load_all (flag_lines F @ ls) st = load_all ls (st\<lparr>new_flags := F \<union> new_flags st\<rparr>)"
  unfolding flag_lines_def append_assoc load_flag
  by (rule arg_cong [of _ _ "load_all ls"], cases st) (simp only: load_state.simps flag_set)

lemma load_comments:
  assumes p: "stored p"
  shows "load_all (comment_lines p @ ls) (load_init r) = load_all ls (load_init (r @ [p]))"
proof -
  note len = stored_lengths [OF p]
  let ?st = "\<lparr>new_type = rtype p, new_header = fieldname p, new_value = fieldvalue p, new_folder = tofolder p,
    new_autoreplyfrom = fromhdr p, new_flags = {}, new_rules = r\<rparr>"
  have "load_all (comment_lines p @ ls) (load_init r) = load_all (flag_lines (rflags p) @ ((''##Name:'' @ rulename p) # [] # [] # ls)) ?st"
    using len by (simp only: comment_lines_def append_Cons [where ?'a = string] append_Nil [where ?'a = string] append_assoc [where ?'a = string] load_all.simps load_comment sum.case) (simp add: load_init_def)
  also have "\<dots> = load_all ((''##Name:'' @ rulename p) # [] # [] # ls) (?st\<lparr>new_flags := rflags p\<rparr>)"
    by (simp only: load_flags load_state.simps Un_empty_right)
  also have "load_line (''##Name:'' @ rulename p) (?st\<lparr>new_flags := rflags p\<rparr>) = Inr (load_init (r @ [p]))"
    unfolding load_comment(10) using p by (simp add: maildir_filter_appendrule_def stored_def)
  then have "load_all ((''##Name:'' @ rulename p) # [] # [] # ls) (?st\<lparr>new_flags := rflags p\<rparr>) = load_all ls (load_init (r @ [p]))"
    by (simp only: load_all.simps load_comment sum.case)
  finally show ?thesis .
qed


subsection \<open>The code of a rule\<close>

lemma oneline_header:
  assumes "header_ok t flags h"
  shows "oneline h"
proof -
  have "list_all (\<lambda>c. schar c > 32) h"
    using assms by (cases "h = []") (simp_all add: header_ok_def list_all_iff)
  then show ?thesis
    by (induction h) (auto simp: schar_def)
qed

lemma oneline_print_pattern: "oneline v \<Longrightarrow> oneline (print_pattern flags v)"
  by (induction v) (auto simp: print_pattern_def oneline_def split: if_splits)

lemma length_print_pattern: "length (print_pattern flags v) \<le> 2 * length v + 1"
proof -
  have "length (concat (map (\<lambda>c. if isalnum c then [c] else [bslash, c]) v)) \<le> 2 * length v"
    by (induction v) auto
  then show ?thesis
    by (simp add: print_pattern_def)
qed

lemma autoresp_args_name: "aname (fold autoresp_arg ts i) = aname i"
  by (induction ts arbitrary: i) (auto simp: autoresp_arg_def)

lemma autoresp_name:
  assumes "maildir_filter_autoresp_info_init_str c = Some ai"
  shows "aname ai = takeWhile tok_delim c @ takeWhile (\<lambda>c. \<not> tok_delim c) (dropWhile tok_delim c)"
proof -
  obtain t ts where t: "tokens c = t # ts" "aname ai = takeWhile tok_delim c @ t"
    using assms by (auto simp: maildir_filter_autoresp_info_init_str_def autoresp_args_name split: list.splits)
  then obtain d ds where d: "dropWhile tok_delim c = d # ds"
    by (subst (asm) tokens.simps) (auto split: list.splits)
  then have "\<not> tok_delim d"
    by (metis hd_dropWhile list.distinct(1) list.sel(1))
  then show ?thesis
    using t d by (subst (asm) tokens.simps) simp
qed

lemma autoresp_name_ok:
  assumes "maildir_filter_autoresp_info_init_str c = Some ai" "oneline c"
  shows "oneline (aname ai)" "length (aname ai) \<le> length c"
proof -
  have e: "aname ai = takeWhile tok_delim c @ takeWhile (\<lambda>c. \<not> tok_delim c) (dropWhile tok_delim c)"
    by (rule autoresp_name [OF assms(1)])
  show "oneline (aname ai)"
    unfolding e using assms(2) by (auto simp: oneline_def dest!: set_takeWhileD set_dropWhileD)
  have "length c = length (takeWhile tok_delim c) + length (dropWhile tok_delim c)"
    by (metis length_append takeWhile_dropWhile_id)
  then show "length (aname ai) \<le> length c"
    unfolding e using length_takeWhile_le [of "\<lambda>c. \<not> tok_delim c" "dropWhile tok_delim c"] by simp
qed

lemma days_digits: "oneline (dec (unat (w :: 32 word)))" "length (dec (unat w)) \<le> 10"
proof -
  show "oneline (dec (unat w))"
    using isdigit_dec [of nl "unat w"] isdigit_dec [of nul "unat w"] by (auto simp: oneline_def isdigit_def)
  have "unat w < 10 ^ 10"
    using unsigned_less [of w, where ?'a = nat] by simp
  then show "length (dec (unat w)) \<le> 10"
    by (intro length_dec) simp_all
qed

definition written :: "maildirfilterrule \<Rightarrow> bool" where
  "written p \<longleftrightarrow> stored p \<and> oneline (fieldvalue p) \<and> oneline (tofolder p)"

lemma written_oneline:
  assumes "written p"
  shows "oneline (rulename p)" "oneline (fieldname p)" "oneline (fromhdr p)" "oneline (fieldvalue p)" "oneline (tofolder p)"
proof -
  have u: "maildir_filter_ruleupdate (rulename p) (rtype p) (rflags p) (fieldname p) (fieldvalue p) (tofolder p) (fromhdr p) = Inr p"
    using assms by (simp add: written_def stored_def)
  note c = ruleupdate_checks [OF u]
  have "fromhdr p = skipspace (fromhdr p)"
    using arg_cong [OF c(6), of fromhdr] by simp
  then show "oneline (rulename p)" "oneline (fieldname p)" "oneline (fromhdr p)" "oneline (fieldvalue p)" "oneline (tofolder p)"
    using c(1,2,4) assms oneline_codes
    by (auto simp: name_ok_def written_def from_ok_def list_all_iff oneline_header intro: oneline_codes)
qed

definition code_ok :: "string \<Rightarrow> bool" where
  "code_ok l \<longleftrightarrow> line_ok l \<and> take 2 l \<noteq> ''##''"

lemma code_ok_Cons: "c \<noteq> CHR ''#'' \<Longrightarrow> oneline (c # l) \<Longrightarrow> length l < 8190 \<Longrightarrow> code_ok (c # l)"
  by (simp add: code_ok_def line_ok_def)

lemma condition_ok:
  assumes "written p"
  shows "oneline (condition p)" "length (condition p) \<le> 700"
proof -
  note w = written_oneline [OF assms] and l = stored_lengths [of p]
  show "oneline (condition p)"
    using w oneline_print_pattern by (simp add: condition_def Let_def split: maildirfiltertype.split)
  show "length (condition p) \<le> 700"
    using l length_print_pattern [of "rflags p" "fieldvalue p"] assms
    by (simp add: condition_def Let_def written_def split: maildirfiltertype.split)
qed

lemma code_lines_ok:
  assumes p: "written p" and path: "oneline maildirpath" "length maildirpath \<le> 2000" and bot: "oneline mailbot" "length mailbot \<le> 2000"
  shows "list_all code_ok (code_lines mailbot maildirpath p)"
proof -
  note w = written_oneline [OF p] and l = stored_lengths [of p] and c = condition_ok [OF p]
  have st: "stored p"
    using p by (simp add: written_def)
  have tl: "oneline (tl (tofolder p))" "length (tl (tofolder p)) \<le> 200"
    using w(5) l(4) [OF st] by (cases "tofolder p"; simp)+
  have auto: "list_all code_ok (autoreply_lines mailbot maildirpath p)"
  proof (cases "maildir_filter_autoresp_info_init_str (tl (tofolder p))")
    case (Some ai)
    note a = autoresp_name_ok [OF Some tl(1)]
    show ?thesis
      using w(3) l(5) [OF st] a tl(2) path bot days_digits [of "days ai"]
      by (simp add: autoreply_lines_def Some code_ok_Cons)
  qed (simp add: autoreply_lines_def)
  have "list_all code_ok (action_lines mailbot maildirpath p)"
    using auto tl w(5) l(4) [OF st] path by (simp add: action_lines_def Let_def code_ok_Cons)
  then show ?thesis
    using c by (simp add: code_lines_def code_ok_Cons) (simp add: code_ok_def line_ok_def)
qed

lemma comment_lines_ok:
  assumes p: "written p"
  shows "list_all line_ok (comment_lines p)"
proof -
  have "length (type_name t) \<le> 200 \<and> oneline (type_name t)" for t
    by (cases t) (simp_all add: type_name_def typelist_def)
  from this [of "rtype p"] show ?thesis
    using written_oneline [OF p] stored_lengths [of p] p
    by (simp add: comment_lines_def flag_lines_def line_ok_def written_def)
qed


subsection \<open>Saving and loading\<close>

lemma load_rules:
  assumes "list_all written r" and "oneline maildirpath" "length maildirpath \<le> 2000" "oneline mailbot" "length mailbot \<le> 2000"
  shows "load_all (concat (map (rule_lines mailbot maildirpath) r) @ ls) (load_init r0) = load_all ls (load_init (r0 @ r))"
    "list_all line_ok (concat (map (rule_lines mailbot maildirpath) r))"
  using assms(1)
proof (induction r arbitrary: r0)
  case (Cons p r)
  {
    case 1
    have "list_all (\<lambda>l. take 2 l \<noteq> ''##'') (code_lines mailbot maildirpath p)"
      using code_lines_ok [OF _ assms(2-5), of p] 1 by (simp add: list_all_iff code_ok_def)
    then show ?case
      using Cons.IH(1) [of "r0 @ [p]"] 1 by (simp add: rule_lines_def load_comments written_def load_code)
  next
    case 2
    then show ?case
      using Cons.IH(2) comment_lines_ok [of p] code_lines_ok [OF _ assms(2-5), of p]
      by (auto simp: rule_lines_def list_all_iff code_ok_def)
  }
qed simp_all

definition update_of :: "string \<times> maildirfiltertype \<times> mfr set \<times> string \<times> string \<times> string \<times> string \<Rightarrow> mf_err + maildirfilterrule" where
  "update_of = (\<lambda>(name, t, flags, header, val, folder, from). maildir_filter_ruleupdate name t flags header val folder from)"

lemma update_written:
  assumes "update_of (name, t, flags, header, val, folder, from) = Inr p"
    and "oneline val" "oneline folder" "length folder < 200" "length from \<le> 511"
  shows "written p"
proof -
  note u = assms(1) [unfolded update_of_def prod.case]
  have "length (skipspace from) \<le> length from"
    by (rule length_skipspace)
  then show ?thesis
    using ruleupdate_again [OF u assms(4)] assms(2,3,5) unfolding written_def stored_def ruleupdate_checks(6) [OF u] by auto
qed

text \<open>
  C19. Mail filters survive their file: rules that were accepted, saved as a program of \<^verbatim>\<open>maildrop\<close> with the rules in its
  comments, load as the same rules in the same order, whatever their types, flags, patterns and autoreplies; the lines of
  the program are never taken for rules. No value or folder may have a newline, which the checks of a rule do not ensure (see below).
\<close>

theorem filter_roundtrip:
  assumes "list_all2 (\<lambda>a p. update_of a = Inr p) as r"
    and "list_all (\<lambda>(name, t, flags, header, val, folder, from). oneline val \<and> oneline folder \<and> length folder < 200 \<and> length from \<le> 511) as"
    and path: "oneline maildirpath" "length maildirpath \<le> 2000" and bot: "oneline mailbot" "length mailbot \<le> 2000"
    and addr: "oneline fromaddr" "length fromaddr \<le> 8000"
  shows "maildir_filter_loadrules [] (Some (maildir_filter_saverules mailbot maildirpath fromaddr r)) = (MF_LOADOK, r)"
proof -
  have "list_all written r"
    using assms(1,2) by (induction rule: list_all2_induct) (auto intro: update_written)
  note rules = load_rules [OF this path bot]
  let ?f = "filter (\<lambda>c. c \<noteq> dquote \<and> c \<noteq> CHR 0x27 \<and> c \<noteq> bslash) fromaddr"
  have f: "oneline ?f" "length ?f \<le> 8000"
    using addr le_trans [OF length_filter_le addr(2)] by (auto simp: oneline_def)
  obtain hs where ls: "saved_lines mailbot maildirpath fromaddr r = ''#MFMAILDROP=2'' # hs @ concat (map (rule_lines mailbot maildirpath) r) @
      [''to '' @ [dquote] @ maildirpath @ ''/.'' @ [dquote]]" and hs: "list_all line_ok hs" "list_all (\<lambda>l. take 2 l \<noteq> ''##'') hs"
    using f by (fastforce simp: saved_lines_def line_ok_def)
  let ?last = "[''to '' @ [dquote] @ maildirpath @ ''/.'' @ [dquote]]"
  let ?tl = "hs @ concat (map (rule_lines mailbot maildirpath) r) @ ?last"
  have t: "maildir_filter_saverules mailbot maildirpath fromaddr r = ''#MFMAILDROP=2'' @ nl # text_of ?tl"
    by (simp add: maildir_filter_saverules_def ls text_of_def)
  have first: "line_ok ''#MFMAILDROP=2''"
    by (simp add: line_ok_def)
  have "list_all line_ok ?tl"
    using hs(1) rules(2) path by (simp add: line_ok_def)
  then have "load_loop (text_of ?tl) (load_init []) = load_all ?tl (load_init [])"
    by (rule load_loop_lines)
  also have "\<dots> = load_all ?last (load_init r)"
    using rules(1) [of ?last "[]"] by (simp only: load_code [OF hs(2)] append_Nil)
  also have "\<dots> = (MF_LOADOK, r)"
    by (simp add: load_line_def load_init_def)
  finally have loop: "load_loop (text_of ?tl) (load_init []) = (MF_LOADOK, r)" .
  have "atoi [CHR ''2'', nl] = 2"
    by code_simp
  then show ?thesis
    unfolding maildir_filter_loadrules_def t option.case fgets_line [OF first] Let_def using loop by simp
qed


theorem filter_roundtrip_witness:
  "maildir_filter_loadrules []
     (Some (maildir_filter_saverules ''mailbot'' ''./joe/Maildir'' ''joe@example.com''
       [\<lparr>rulename = ''Work'', rtype = startswith, rflags = {MFR_PLAINSTRING, MFR_CONTINUE}, fieldname = ''Subject'', fieldvalue = ''[work]/1'',
          tofolder = ''.Work'', fromhdr = []\<rparr>,
        \<lparr>rulename = ''Away'', rtype = hasrecipient, rflags = {MFR_DOESNOT}, fieldname = [], fieldvalue = ''joe@'',
          tofolder = ''+away dsn=1 days=7'', fromhdr = ''Joe''\<rparr>])) =
   (MF_LOADOK,
       [\<lparr>rulename = ''Work'', rtype = startswith, rflags = {MFR_PLAINSTRING, MFR_CONTINUE}, fieldname = ''Subject'', fieldvalue = ''[work]/1'',
          tofolder = ''.Work'', fromhdr = []\<rparr>,
        \<lparr>rulename = ''Away'', rtype = hasrecipient, rflags = {MFR_DOESNOT}, fieldname = [], fieldvalue = ''joe@'',
          tofolder = ''+away dsn=1 days=7'', fromhdr = ''Joe''\<rparr>])"
proof (rule filter_roundtrip)
  let ?a = "(''Work'', startswith, {MFR_PLAINSTRING, MFR_CONTINUE}, ''Subject'', ''[work]/1'', ''Work'', [])"
  let ?b = "(''Away'', hasrecipient, {MFR_DOESNOT}, [], ''joe@'', ''+away dsn=1 days=7'', ''  Joe'')"
  have "update_of ?a = Inr \<lparr>rulename = ''Work'', rtype = startswith, rflags = {MFR_PLAINSTRING, MFR_CONTINUE}, fieldname = ''Subject'',
      fieldvalue = ''[work]/1'', tofolder = ''.Work'', fromhdr = []\<rparr>"
    by code_simp
  moreover have "update_of ?b = Inr \<lparr>rulename = ''Away'', rtype = hasrecipient, rflags = {MFR_DOESNOT}, fieldname = [], fieldvalue = ''joe@'',
          tofolder = ''+away dsn=1 days=7'', fromhdr = ''Joe''\<rparr>"
    by code_simp
  ultimately show "list_all2 (\<lambda>a p. update_of a = Inr p) [?a, ?b]
       [\<lparr>rulename = ''Work'', rtype = startswith, rflags = {MFR_PLAINSTRING, MFR_CONTINUE}, fieldname = ''Subject'', fieldvalue = ''[work]/1'',
          tofolder = ''.Work'', fromhdr = []\<rparr>,
        \<lparr>rulename = ''Away'', rtype = hasrecipient, rflags = {MFR_DOESNOT}, fieldname = [], fieldvalue = ''joe@'',
          tofolder = ''+away dsn=1 days=7'', fromhdr = ''Joe''\<rparr>]"
    by (simp only: list_all2_Cons list_all2_Nil simp_thms)
qed simp_all

subsection \<open>What a rule can write into the program\<close>

text \<open>No delimiter without a backslash, and no backslash at the end.\<close>

fun closed :: "char \<Rightarrow> string \<Rightarrow> bool" where
  "closed d [] \<longleftrightarrow> True"
| "closed d (c # s) \<longleftrightarrow> (if c = bslash then (case s of [] \<Rightarrow> False | _ # s \<Rightarrow> closed d s) else c \<noteq> d \<and> closed d s)"

lemma pattern_closed:
  "pattern_loop t n v \<Longrightarrow> CHR ''['' \<notin> set v \<Longrightarrow> closed (CHR ''/'') v"
proof (induction t n v rule: pattern_loop.induct)
  case (2 t n c cs)
  show ?case
  proof (cases "c = bslash")
    case True
    then obtain d ds where cs: "cs = d # ds" "pattern_loop t n ds"
      using "2.prems" by (cases cs) (auto split: if_splits)
    then show ?thesis
      using True "2.prems" "2.IH"(4) by (auto split: if_splits)
  next
    case False
    then have "c \<noteq> CHR ''/''" "\<exists>m. pattern_loop t m cs \<and> (pattern_loop t m cs \<longrightarrow> CHR ''['' \<notin> set cs \<longrightarrow> closed (CHR ''/'') cs)"
      using "2.prems" "2.IH" by (auto split: if_splits)
    then show ?thesis
      using False "2.prems" by auto
  qed
qed simp

lemma plainstring_closed: "\<not> isalnum d \<Longrightarrow> closed d (concat (map (\<lambda>c. if isalnum c then [c] else [bslash, c]) v))"
  by (induction v) (auto simp: isalnum_def isalpha_def isupper_def islower_def isdigit_def)

lemma pattern_digits: "pattern_loop islargerthan n v \<Longrightarrow> list_all isdigit v"
proof (induction v arbitrary: n)
  case (Cons c v)
  then show ?case
    by (auto simp: isdigit_def split: if_splits)
qed simp

lemma pattern_recipient:
  "pattern_loop hasrecipient n v \<Longrightarrow> list_all (\<lambda>c. c \<notin> {dquote, CHR 0x60, CHR ''$'', bslash}) v"
  by (induction v arbitrary: n) (auto simp: quotes_def split: if_splits)




text \<open>The parameters of an autoreply as a string.\<close>

lemma tokens_word:
  assumes w: "w \<noteq> []" "list_all (\<lambda>c. \<not> tok_delim c) w"
  shows "tokens (w @ s) = (if s = [] \<or> tok_delim (hd s) then w # tokens s else tokens (w @ s))" "tokens (sp # s) = tokens s"
proof -
  show "tokens (sp # s) = tokens s"
    by (subst (1 2) tokens.simps) (simp add: tok_delim_def)
  have "tokens (w @ s) = w # tokens s" if "s = [] \<or> tok_delim (hd s)"
  proof -
    obtain c cs where c: "w = c # cs"
      using w(1) by (cases w) auto
    have "takeWhile (\<lambda>c. \<not> tok_delim c) (cs @ s) = cs" "dropWhile (\<lambda>c. \<not> tok_delim c) (cs @ s) = s"
      using that w(2) by (cases s; simp add: c list_all_iff takeWhile_eq_all_conv takeWhile_append dropWhile_append)+
    then show ?thesis
      using w(2) by (subst tokens.simps) (simp add: c)
  qed
  then show "tokens (w @ s) = (if s = [] \<or> tok_delim (hd s) then w # tokens s else tokens (w @ s))"
    by simp
qed

lemma tokens_Nil: "tokens [] = []"
  by (subst tokens.simps) simp

lemma size_t_dec: "libmail_str_size_t (ucast (w :: 32 word)) = dec (unat w)"
proof -
  have "uint (ucast w :: 64 word) = int (unat w)"
    using unsigned_less [of w, where ?'a = int] by (simp add: unsigned_ucast_eq take_bit_int_eq_self)
  then show ?thesis
    using dec_loop_dec [of "unat w" "[]"] by (simp add: libmail_str_size_t_def)
qed

lemma atoi_dec: "atoi (dec n) = int n"
proof -
  have h: "isdigit (hd (dec n))"
    by simp
  then have c: "cread (dec n) \<notin> {CHR ''-'', CHR ''+''}" "skipspace (dec n) = dec n"
    by (cases "dec n"; auto simp: skipspace_def isdigit_def isspace_def)+
  have t: "takeWhile isdigit (dec n) = dec n"
    using takeWhile_digits [OF dec_digits [of n], of "[]"] by (simp only: append_Nil2 nodigit_simps simp_thms)
  have "dec_val 0 (takeWhile isdigit (dec n)) = n"
    unfolding t by (rule dec_val_dec)
  then show ?thesis
    using c by (simp add: atoi_def Let_def)
qed

lemma autoresp_roundtrip:
  assumes n: "aname i \<noteq> []" "list_all (\<lambda>c. \<not> tok_delim c) (aname i)"
  shows "maildir_filter_autoresp_info_init_str (maildir_filter_autoresp_info_asstr i) = Some i"
proof -
  define ds where "ds = ''days='' @ dec (unat (days i))"
  have d: "list_all (\<lambda>c. \<not> tok_delim c) ds" "ds \<noteq> []"
    using isdigit_dec [of _ "unat (days i)"] by (fastforce simp: ds_def list_all_iff tok_delim_def isdigit_def)+
  have dsn: "list_all (\<lambda>c. \<not> tok_delim c) ''dsn=1''" and one: "atoi ''1'' = 1"
    by code_simp+
  define tail where "tail = (if dsnflag i then [''dsn=1''] else []) @ (if days i > 0 then [ds] else [])"
  have s: "maildir_filter_autoresp_info_asstr i = aname i @ concat (map (Cons sp) tail)"
    by (simp add: maildir_filter_autoresp_info_asstr_def size_t_dec tail_def ds_def)
  have "tokens (w @ concat (map (Cons sp) ws)) = w # ws" if "w \<noteq> []" "list_all (\<lambda>c. \<not> tok_delim c) w"
    "list_all (\<lambda>w. w \<noteq> [] \<and> list_all (\<lambda>c. \<not> tok_delim c) w) ws" for w ws
    using that
  proof (induction ws arbitrary: w)
    case (Cons x ws)
    then show ?case
      using tokens_word(1) [of w "sp # x @ concat (map (Cons sp) ws)"] tokens_word(2) [of w "x @ concat (map (Cons sp) ws)"]
      by (simp add: tok_delim_def)
  qed (use tokens_word(1) [of _ "[]"] in \<open>simp add: tokens_Nil\<close>)
  from this [OF n, of tail] have t: "tokens (maildir_filter_autoresp_info_asstr i) = aname i # tail"
    using d dsn by (simp add: s tail_def)
  have "takeWhile tok_delim (maildir_filter_autoresp_info_asstr i) = []"
    using n by (cases "aname i") (simp_all add: s)
  moreover have "autoresp_arg ds j = j\<lparr>days := days i\<rparr>" for j
    by (simp add: autoresp_arg_def ds_def atoi_dec word_of_nat_eq_iff)
  moreover have "autoresp_arg ''dsn=1'' j = j\<lparr>dsnflag := True\<rparr>" for j
    using arg_cong [OF one, of "\<lambda>n. n \<noteq> 0"] by (simp add: autoresp_arg_def)
  ultimately show ?thesis
    unfolding maildir_filter_autoresp_info_init_str_def t tail_def by (cases i) (auto simp: word_greater_zero_iff)
qed

text \<open>The names of autoreplies that are accepted survive.\<close>

lemma autoresp_init_roundtrip:
  assumes "maildir_filter_autoresp_info_init c = Some i"
  shows "maildir_filter_autoresp_info_init_str (maildir_filter_autoresp_info_asstr (i\<lparr>dsnflag := d, days := n\<rparr>)) = Some (i\<lparr>dsnflag := d, days := n\<rparr>)"
proof -
  let ?P = "\<lambda>c. c \<in> set [CHR ''.'', CHR ''/'', CHR 0x27, dquote, CHR ''*'', CHR ''?'', CHR ''['', CHR '']'', sp, nl, CHR 0x09, cr, CHR ''~'']"
  have c: "c \<noteq> []" "\<not> list_ex ?P c" "i = \<lparr>aname = c, dsnflag = False, days = 0\<rparr>"
    using assms by (simp_all add: maildir_filter_autoresp_info_init_def maildir_autoresponse_validate_def afilename_def split: if_splits)
  have "\<not> ?P x \<Longrightarrow> \<not> tok_delim x" for x
    by (simp add: tok_delim_def)
  then have "list_all (\<lambda>c. \<not> tok_delim c) c"
    using c(2) unfolding list_ex_iff list_all_iff by blast
  then show ?thesis
    using c(1,3) by (intro autoresp_roundtrip) simp_all
qed

text \<open>
  The checks leave gaps. A plain string is not checked at all, also as an address, which is written between quotes; the
  character after a backslash may be a newline, and the rest of the value is then a line of the program; and so is the rest
  of the name of an autoreply.
\<close>

lemma address_closes_quotes:
  "case maildir_filter_ruleupdate ''x'' hasrecipient {MFR_PLAINSTRING} [] (''a'' @ [dquote] @ '') || 1 || hasaddr('' @ [dquote]) ''x'' [] of
     Inl _ \<Rightarrow> False
   | Inr p \<Rightarrow> condition p = ''hasaddr('' @ [dquote] @ ''a'' @ [dquote] @ '') || 1 || hasaddr('' @ [dquote, dquote] @ '')''"
  by code_simp

lemma escaped_newline_accepted:
  "case maildir_filter_ruleupdate ''x'' contains {MFR_BODY} [] [bslash, nl, CHR ''e'', CHR ''x'', CHR ''i'', CHR ''t'', bslash, nl] ''x'' [] of
     Inl _ \<Rightarrow> False
   | Inr p \<Rightarrow> take 3 (drop 2 (split_nl (text_of (comment_lines p)))) = [''##Value:'' @ [bslash], ''exit'' @ [bslash], []]"
  by code_simp

lemma autoreply_newline_accepted:
  "case maildir_filter_ruleupdate ''x'' textplain {} [] [] (''+a'' @ nl # ''exit'') [] of
     Inl _ \<Rightarrow> False
   | Inr p \<Rightarrow> take 2 (drop 3 (split_nl (text_of (comment_lines p)))) = [''##Folder:+a'', ''exit'']"
  by code_simp

text \<open>A set that ends in a range is rejected, and its bracket has to be written twice.\<close>

lemma set_ends_in_range: "\<not> value_ok contains {} ''[a-z]''" "value_ok contains {} ''[a-z]]''"
  by code_simp+

end
