(* ===== verification/Rfc2045_Autoconv.thy ===== *)
theory Rfc2045_Autoconv
  imports Rfc2045_Parse
begin

text \<open>
  The preparation of a rewriting (\<^verbatim>\<open>rfc2045/rfc2045acprep.c\<close>, \<^verbatim>\<open>rfc2045acchk.c\<close>): while a message is parsed, hooks
  note which sections have 8 bit characters and long lines; \<open>ac_check\<close> then supplies missing headers and chooses
  the encodings. The default character set is an argument.
\<close>

subsection \<open>What the contents of a section are like\<close>

datatype acstate = Raw | Quotedprint | Qpseeneq | Qpseeneqh | Base64_contents

text \<open>The static variables with the two marks of the section they are about.\<close>

record rwprep =
  curlinepos :: nat
  curstate :: acstate
  statechar :: char
  saw8bit :: bool
  sawlong :: bool

definition start_rwprep :: "string option \<Rightarrow> rwprep" where
  "start_rwprep te =
     \<lparr>curlinepos = 0,
      curstate = (if te = Some ''quoted-printable'' then Quotedprint else if te = Some ''base64'' then Base64_contents else Raw),
      statechar = nul, saw8bit = False, sawlong = False\<rparr>"

definition h2nyb :: "char \<Rightarrow> int" where
  "h2nyb c =
     (if schar (CHR ''a'') \<le> schar c \<and> schar c \<le> schar (CHR ''f'') then schar c - (schar (CHR ''a'') - 10)
      else if schar (CHR ''A'') \<le> schar c \<and> schar c \<le> schar (CHR ''F'') then schar c - (schar (CHR ''A'') - 10)
      else schar c - schar (CHR ''0''))"

definition advance :: "rwprep \<Rightarrow> rwprep" where
  "advance st = st\<lparr>curlinepos := curlinepos st + 1, sawlong := (sawlong st \<or> curlinepos st + 1 > 500)\<rparr>"

definition raw_char :: "char \<Rightarrow> rwprep \<Rightarrow> rwprep" where
  "raw_char c st =
     (let st = (if c = cr \<or> c = nl then st\<lparr>curlinepos := 0\<rparr> else advance st)
      in st\<lparr>saw8bit := (saw8bit st \<or> code c \<ge> 127)\<rparr>)"

definition rwprep_char :: "char \<Rightarrow> rwprep \<Rightarrow> rwprep" where
  "rwprep_char c st =
     (case curstate st of
        Quotedprint \<Rightarrow> if c = CHR ''='' then st\<lparr>curstate := Qpseeneq\<rparr> else raw_char c st
      | Raw \<Rightarrow> raw_char c st
      | Qpseeneq \<Rightarrow>
          if c = nl then st\<lparr>curstate := Quotedprint\<rparr>
          else if isspace c then st
          else st\<lparr>statechar := c, curstate := Qpseeneqh\<rparr>
      | Qpseeneqh \<Rightarrow>
          advance (st\<lparr>curstate := Quotedprint,
            saw8bit := (saw8bit st \<or> (h2nyb (statechar st) * 16 + h2nyb c) mod 256 \<ge> 127)\<rparr>)
      | Base64_contents \<Rightarrow> st)"

definition do_rwprep :: "rwprep \<Rightarrow> string \<Rightarrow> rwprep" where
  "do_rwprep st s = fold rwprep_char s st"

subsection \<open>The parser with the hooks\<close>

text \<open>
  The sections that have been started, in order: the last one is \<open>currwp\<close>, and none is before the first
  section. \<open>end_rwprep\<close> does nothing.
\<close>

type_synonym acprep = "rwprep list"

definition section_contents :: "acprep \<Rightarrow> string \<Rightarrow> acprep" where
  "section_contents ac s = (if ac = [] then [] else butlast ac @ [do_rwprep (last ac) s])"

text \<open>Where \<open>doline\<close> finds that a line belongs.\<close>

definition line_target :: "string \<Rightarrow> mime_part \<Rightarrow> line_kind \<times> nat \<times> string \<times> nat" where
  "line_target line root =
     (let cnt = length line;
          c = map (\<lambda>x. if x = nul then sp else x) line;
          n = cnt - 1;
          n = (if 0 < n \<and> c ! (n - 1) = cr then n - 1 else n);
          d0 = (case formdata_depth root of None \<Rightarrow> 0 | Some d \<Rightarrow> d);
          root = (case formdata_depth root of None \<Rightarrow> root
                  | Some d \<Rightarrow> at_depth d (set_info (\<lambda>i. i\<lparr>informdata := False\<rparr>)) root);
          (kind, d1) = drill c n (node d0 root)
      in (kind, d0 + d1, c, n))"

definition doline_hooks :: "bool \<Rightarrow> string \<Rightarrow> mime_part \<Rightarrow> acprep \<Rightarrow> acprep" where
  "doline_hooks reformime line root ac =
     (if numparts (info root) > 300 then ac
      else
        case line_target line root of (kind, d, c, n) \<Rightarrow>
          let p = info (node d root)
          in if kind \<noteq> Own_line then ac
             else if \<not> workinheader p then (if isdummy p then ac else section_contents ac c)
             else if n = 0 then
               let p = info (node d (doline reformime line root))
               in if content_type p = Some ''message/rfc822'' \<or> boundary p \<noteq> None then ac
                  else ac @ [start_rwprep (content_transfer_encoding p)]
             else ac)"

definition ac_doline :: "bool \<Rightarrow> string \<Rightarrow> mime_part \<times> acprep \<Rightarrow> mime_part \<times> acprep" where
  "ac_doline reformime line = (\<lambda>(root, ac). (doline reformime line root, doline_hooks reformime line root ac))"

type_synonym ac_parser = "(mime_part \<times> acprep) \<times> string"

definition ac_parse_partial :: "ac_parser \<Rightarrow> ac_parser" where
  "ac_parse_partial = (\<lambda>((root, ac), workbuf).
     let p = node (open_depth root) root;
         l = length workbuf;
         l = (if workbuf ! (l - 1) = cr then l - 1 else l);
         ac = (if workbuf \<noteq> [] \<and> \<not> workinheader (info p) \<and> (subparts p = [] \<or> \<not> workclosed (info (last (subparts p))))
               then section_contents ac (take l workbuf) else ac)
     in case rfc2045_parse_partial (root, workbuf) of (root, workbuf) \<Rightarrow> ((root, ac), workbuf))"

function ac_parse_lines :: "bool \<Rightarrow> ac_parser \<Rightarrow> string \<Rightarrow> ac_parser" where
  "ac_parse_lines reformime h buf =
     (if buf = [] then h
      else
        let l = length (takeWhile (\<lambda>c. c \<noteq> nl) buf)
        in if l < length buf
           then ac_parse_lines reformime (ac_doline reformime (snd h @ take (l + 1) buf) (fst h), []) (drop (l + 1) buf)
           else (fst h, snd h @ buf))"
  by pat_completeness auto
termination
  by (relation "measure (\<lambda>(r, h, buf). length buf)") auto

declare ac_parse_lines.simps [simp del]

definition ac_parse :: "bool \<Rightarrow> ac_parser \<Rightarrow> string \<Rightarrow> ac_parser" where
  "ac_parse reformime h buf =
     (let h = ac_parse_lines reformime h buf
      in if length (snd h) > 1024 then ac_parse_partial h else h)"

definition rfc2045_alloc_ac :: ac_parser where
  "rfc2045_alloc_ac = ((rfc2045_alloc, []), [])"

subsection \<open>The sections to rewrite\<close>

record rw_info = part_info +
  has8bitchars :: bool
  haslongline :: bool
  rw_transfer_encoding :: "string option"

datatype rw_part = Rw (rinfo: rw_info) (rparts: "rw_part list")

text \<open>The marks belong to the sections without sections whose header is complete, in the order they were started.\<close>

fun rw_sections :: "mime_part \<Rightarrow> acprep \<Rightarrow> rw_part \<times> acprep"
  and rw_list :: "mime_part list \<Rightarrow> acprep \<Rightarrow> rw_part list \<times> acprep" where
  "rw_sections (Part i ps) ac =
     (let (st, ac) = (if ps = [] \<and> \<not> workinheader i \<and> \<not> isdummy i
                      then (case ac of [] \<Rightarrow> (start_rwprep None, []) | st # ac \<Rightarrow> (st, ac)) else (start_rwprep None, ac));
          (qs, ac) = rw_list ps ac
      in (Rw (part_info.extend i (rw_info.fields (saw8bit st) (sawlong st) None)) qs, ac))"
| "rw_list [] ac = ([], ac)"
| "rw_list (p # ps) ac = (let (q, ac) = rw_sections p ac; (qs, ac) = rw_list ps ac in (q # qs, ac))"

subsection \<open>Headers and encodings\<close>

definition ismime1def :: "string option \<Rightarrow> bool" where
  "ismime1def v = (case v of None \<Rightarrow> True | Some s \<Rightarrow> c_atol s = 1)"

definition RW_7BIT :: nat where "RW_7BIT = 1"
definition RW_8BIT :: nat where "RW_8BIT = 2"

text \<open>The missing headers of a section; \<open>leaf\<close> says that it has no sections.\<close>

definition ac_defaults :: "string \<Rightarrow> bool \<Rightarrow> bool \<Rightarrow> rw_info \<Rightarrow> rw_info \<times> bool" where
  "ac_defaults defcharset hasnon7bit leaf p =
     (let mime = mime_version p \<noteq> None;
          (p, flag) =
            (if content_type p = None then (p\<lparr>content_type := Some ''text/plain''\<rparr>, mime) else (p, False));
          (p, flag) =
            (if rfc2045_getattr (content_type_attr p) ''charset'' = None \<and> caseprefix ''text/'' (the (content_type p))
             then (p\<lparr>content_type_attr := rfc2045_setattr (content_type_attr p) ''charset'' (Some defcharset)\<rparr>,
                   flag \<or> (mime \<and> leaf))
             else (p, flag))
      in if content_transfer_encoding p = None
         then (p\<lparr>content_transfer_encoding := Some (if hasnon7bit then ''8bit'' else ''7bit'')\<rparr>, flag \<or> (mime \<and> leaf))
         else (p, flag))"

text \<open>The conversion.\<close>

definition ac_convert :: "nat \<Rightarrow> bool \<Rightarrow> rw_info \<Rightarrow> rw_info \<times> bool" where
  "ac_convert rwmode hasnon7bit p =
     (let te = the (content_transfer_encoding p);
          is8bitte = (\<not> strcaseeq te ''base64'' \<and> \<not> strcaseeq te ''quoted-printable'' \<and> \<not> strcaseeq te ''uuencode'' \<and>
            \<not> strcaseeq te ''7bit'');
          (p, is8bitte, flag) =
            (if is8bitte \<and> \<not> has8bitchars p \<and> \<not> haslongline p
             then (p\<lparr>rw_transfer_encoding := Some ''7bit''\<rparr>, False, True) else (p, is8bitte, False))
      in if rwmode = RW_7BIT \<and> (is8bitte \<or> haslongline p) then (p\<lparr>rw_transfer_encoding := Some ''quoted-printable''\<rparr>, True)
         else if rwmode = RW_8BIT \<and> strcaseeq te ''quoted-printable'' \<and> \<not> haslongline p
         then (p\<lparr>rw_transfer_encoding := Some (if hasnon7bit then ''8bit'' else ''7bit'')\<rparr>, True)
         else (p, flag))"

definition ac_section :: "string \<Rightarrow> nat \<Rightarrow> bool \<Rightarrow> bool \<Rightarrow> rw_info \<Rightarrow> rw_info \<times> bool" where
  "ac_section defcharset rwmode hasnon7bit leaf p =
     (let (p, flag) =
            (if ismime1def (mime_version p)
             then let (p, flag1) = ac_defaults defcharset hasnon7bit leaf p;
                      (p, flag2) = ac_convert rwmode hasnon7bit p
                  in (p, flag1 \<or> flag2)
             else (p, False))
      in (if mime_version p = None then p\<lparr>mime_version := Some ''1.0''\<rparr> else p, flag))"

text \<open>
  Whether a section makes the one around it non 7 bit, by its encoding, and the walk. The results of the second are the
  sections, whether one is to be rewritten, \<open>hasnon7bit\<close> and \<open>has8bitchars\<close>.
\<close>

definition te_non7bit :: "string option \<Rightarrow> bool" where
  "te_non7bit te = (case te of None \<Rightarrow> False | Some t \<Rightarrow> t \<notin> {''7bit'', ''uuencode'', ''quoted-printable''})"

fun rfc2045_ac_check :: "string \<Rightarrow> nat \<Rightarrow> rw_part \<Rightarrow> rw_part \<times> bool"
  and ac_check_parts :: "string \<Rightarrow> nat \<Rightarrow> rw_part list \<Rightarrow> rw_part list \<times> bool \<times> bool \<times> bool" where
  "rfc2045_ac_check defcharset rwmode (Rw p ps) =
     (case ac_check_parts defcharset rwmode ps of (cs, flag, non7, has8) \<Rightarrow>
        case ac_section defcharset rwmode (has8bitchars p \<or> non7) (ps = []) (p\<lparr>has8bitchars := has8bitchars p \<or> has8\<rparr>) of
          (p, flag') \<Rightarrow> (Rw p cs, flag \<or> flag'))"
| "ac_check_parts defcharset rwmode [] = ([], False, False, False)"
| "ac_check_parts defcharset rwmode (c # cs) =
     (case ac_check_parts defcharset rwmode cs of (cs, flag, non7, has8) \<Rightarrow>
        if isdummy (rinfo c) then (c # cs, flag, non7, has8)
        else case rfc2045_ac_check defcharset rwmode c of (c, flag') \<Rightarrow>
          (c # cs, flag \<or> flag', non7 \<or> te_non7bit (content_transfer_encoding (rinfo c)), has8 \<or> has8bitchars (rinfo c)))"

text \<open>The hooks do not change what is parsed.\<close>

lemma ac_parse_lines_tree:
  "(fst (fst (ac_parse_lines reformime h buf)), snd (ac_parse_lines reformime h buf)) =
    parse_lines reformime (fst (fst h), snd h) buf"
proof (induction reformime h buf rule: ac_parse_lines.induct)
  case (1 reformime h buf)
  obtain root ac where h: "fst h = (root, ac)" by fastforce
  show ?case
    using 1 by (subst ac_parse_lines.simps, subst (2) ac_parse_lines.simps, subst parse_lines.simps)
      (auto simp: Let_def ac_doline_def h)
qed

lemma ac_parse_tree:
  "(fst (fst (ac_parse reformime h buf)), snd (ac_parse reformime h buf)) = rfc2045_parse reformime (fst (fst h), snd h) buf"
proof -
  have "(fst (fst (ac_parse_partial x)), snd (ac_parse_partial x)) = rfc2045_parse_partial (fst (fst x), snd x)" for x
    by (cases x; cases "fst x") (auto simp: ac_parse_partial_def Let_def split: prod.split)
  then show ?thesis
    using ac_parse_lines_tree [of reformime h buf] by (simp add: ac_parse_def rfc2045_parse_def Let_def split: if_splits) (metis snd_conv)
qed

end
