(* ===== verification/Rfc2045_Sim.thy ===== *)
theory Rfc2045_Sim
  imports Rfc2045_Decode C_Stdio
begin

text \<open>
  The decoders of a body do not look at the state of their callback: two callbacks that keep their states in a
  relation keep the decoders in it. The readers of a body pass it on in blocks of the size of their buffer.
\<close>

lemma decode_qp_step:
  assumes "s \<noteq> []" "x = takeWhile (\<lambda>c. c \<noteq> nl) s" "rest = drop (length x) s"
    and "(if rest \<noteq> [] then do_decode_qp f (add_workbuf (add_workbuf p x) [nl]) else (p, 0)) = (p1, 0)"
    and "qp_spill f (add_workbuf p1 (if rest \<noteq> [] then [] else x)) = (p2, 0)"
  shows "decode_qp f p s = decode_qp f p2 (tl rest)"
proof -
  have "decode_qp f p s =
      (case (if rest \<noteq> [] then do_decode_qp f (add_workbuf (add_workbuf p x) [nl]) else (p, 0)) of
          (p, rc) \<Rightarrow>
            if rc \<noteq> 0 then (p, rc)
            else case qp_spill f (add_workbuf p (if rest \<noteq> [] then [] else x)) of
              (p, rc) \<Rightarrow> if rc \<noteq> 0 then (p, rc) else decode_qp f p (tl rest))"
    using assms(1) by (subst decode_qp.simps) (simp only: assms(2,3) Let_def if_False)
  then show ?thesis
    unfolding assms(4) prod.case using assms(5) by simp
qed

locale callback_sim =
  fixes f :: "'a callback" and g :: "'b callback" and R :: "'a \<Rightarrow> 'b \<Rightarrow> bool"
  assumes sim: "R a b \<Longrightarrow> R (fst (f a s)) (fst (g b s))"
    and rc_0: "R a b \<Longrightarrow> snd (f a s) = 0 \<and> snd (g b s) = 0"
begin

definition rel :: "'a rfc2045 \<Rightarrow> 'b rfc2045 \<Rightarrow> bool" where
  "rel p q \<longleftrightarrow> cd_workbuf p = cd_workbuf q \<and> decode_func p = decode_func q \<and> R (misc_decode_ptr p) (misc_decode_ptr q)"

definition rel0 :: "'a rfc2045 \<times> int \<Rightarrow> 'b rfc2045 \<times> int \<Rightarrow> bool" where
  "rel0 x y \<longleftrightarrow> rel (fst x) (fst y) \<and> snd x = 0 \<and> snd y = 0"

lemma udecode_rel: "rel p q \<Longrightarrow> rel0 (udecode f p s) (udecode g q s)"
proof -
  assume r: "rel p q"
  then have R: "R (misc_decode_ptr p) (misc_decode_ptr q)" by (simp add: rel_def)
  show ?thesis
    using r sim [OF R, of s] rc_0 [OF R, of s] by (simp add: rel_def rel0_def udecode_def split_beta)
qed

lemma rel_workbuf: "rel p q \<Longrightarrow> rel (p\<lparr>cd_workbuf := x\<rparr>) (q\<lparr>cd_workbuf := x\<rparr>)"
  "rel p q \<Longrightarrow> rel (add_workbuf p s) (add_workbuf q s)" "rel p q \<Longrightarrow> cd_workbuf p = cd_workbuf q"
  by (simp_all add: rel_def add_workbuf_def)

lemma rel0_pair: "rel0 x y \<Longrightarrow> \<exists>p q. x = (p, 0) \<and> y = (q, 0) \<and> rel p q"
  by (cases x; cases y) (simp add: rel0_def)

lemma do_decode_qp_rel: "rel p q \<Longrightarrow> rel0 (do_decode_qp f p) (do_decode_qp g q)"
proof -
  assume r: "rel p q"
  obtain p' q' where u: "udecode f p (qp_dec (cd_workbuf q)) = (p', 0)" "udecode g q (qp_dec (cd_workbuf q)) = (q', 0)"
    "rel p' q'"
    using rel0_pair [OF udecode_rel [OF r]] by blast
  show ?thesis
    using rel_workbuf(1) [OF u(3)] by (simp add: do_decode_qp_def rel_workbuf(3) [OF r] u(1,2) rel0_def)
qed

lemma do_decode_base64_rel: "rel p q \<Longrightarrow> rel0 (do_decode_base64 f p) (do_decode_base64 g q)"
proof -
  assume r: "rel p q"
  let ?w = "filter (\<lambda>c. decode64tab c < 100) (cd_workbuf q)"
  obtain p' q' where u: "udecode f p (decode_groups 99 (map decode64tab (take (length ?w div 4 * 4) ?w))) = (p', 0)"
    "udecode g q (decode_groups 99 (map decode64tab (take (length ?w div 4 * 4) ?w))) = (q', 0)" "rel p' q'"
    using rel0_pair [OF udecode_rel [OF r]] by blast
  show ?thesis
    unfolding do_decode_base64_def rel_workbuf(3) [OF r] Let_def u prod.case using rel_workbuf(1) [OF u(3)]
    by (simp add: rel0_def)
qed

lemma qp_spill_rel:
  assumes "rel p q"
  shows "rel0 (qp_spill f p) (qp_spill g q)"
proof (cases "length (cd_workbuf p) > 1024")
  case True
  let ?w = "cd_workbuf q"
  let ?i = "length ?w - 5 + length (takeWhile (\<lambda>c. c \<noteq> CHR ''='') (drop (length ?w - 5) ?w))"
  obtain p' q' where d: "do_decode_qp f (p\<lparr>cd_workbuf := take ?i ?w\<rparr>) = (p', 0)"
    "do_decode_qp g (q\<lparr>cd_workbuf := take ?i ?w\<rparr>) = (q', 0)" "rel p' q'"
    using rel0_pair [OF do_decode_qp_rel [OF rel_workbuf(1) [OF assms]]] by blast
  show ?thesis
    using True d(1,2) rel_workbuf(2) [OF d(3)] by (simp add: qp_spill_def rel_workbuf(3) [OF assms] Let_def rel0_def)
next
  case False
  then show ?thesis
    using assms by (simp add: qp_spill_def rel0_def rel_workbuf(3) [OF assms])
qed

lemma decode_qp_rel: "rel p q \<Longrightarrow> rel0 (decode_qp f p s) (decode_qp g q s)"
proof (induction "length s" arbitrary: p q s rule: less_induct)
  case less
  show ?case
  proof (cases "s = []")
    case True
    with less.prems show ?thesis by (simp add: decode_qp_Nil rel0_def)
  next
    case False
    define x where "x = takeWhile (\<lambda>c. c \<noteq> nl) s"
    define rest where "rest = drop (length x) s"
    have "rel0 (if rest \<noteq> [] then do_decode_qp f (add_workbuf (add_workbuf p x) [nl]) else (p, 0))
        (if rest \<noteq> [] then do_decode_qp g (add_workbuf (add_workbuf q x) [nl]) else (q, 0))"
      using do_decode_qp_rel [OF rel_workbuf(2) [OF rel_workbuf(2) [OF less.prems]]] less.prems by (simp add: rel0_def)
    then obtain p1 q1 where 1: "(if rest \<noteq> [] then do_decode_qp f (add_workbuf (add_workbuf p x) [nl]) else (p, 0)) = (p1, 0)"
      "(if rest \<noteq> [] then do_decode_qp g (add_workbuf (add_workbuf q x) [nl]) else (q, 0)) = (q1, 0)" "rel p1 q1"
      using rel0_pair by blast
    let ?x = "if rest \<noteq> [] then [] else x"
    obtain p2 q2 where 2: "qp_spill f (add_workbuf p1 ?x) = (p2, 0)" "qp_spill g (add_workbuf q1 ?x) = (q2, 0)" "rel p2 q2"
      using rel0_pair [OF qp_spill_rel [OF rel_workbuf(2) [OF 1(3)]]] by blast
    have "length (tl rest) < length s"
      using False by (auto simp: rest_def)
    then have "rel0 (decode_qp f p2 (tl rest)) (decode_qp g q2 (tl rest))"
      by (rule less.hyps) (rule 2)
    then show ?thesis
      using decode_qp_step [OF False x_def rest_def 1(1) 2(1)] decode_qp_step [OF False x_def rest_def 1(2) 2(2)]
      by simp
  qed
qed

lemma cdecode_rel: "rel p q \<Longrightarrow> rel0 (rfc2045_cdecode f p s) (rfc2045_cdecode g q s)"
proof -
  assume r: "rel p q"
  then have d: "decode_func p = decode_func q" by (simp add: rel_def)
  have "rel0 (decode_base64 f p s) (decode_base64 g q s)"
    using r do_decode_base64_rel [OF rel_workbuf(2) [OF r], of s] rel_workbuf(2) [OF r, of s]
    by (simp add: decode_base64_def Let_def rel_workbuf(3) [OF rel_workbuf(2) [OF r]] rel0_def)
  moreover have "rel0 (decode_raw f p s) (decode_raw g q s)"
    using udecode_rel [OF r] r by (simp add: decode_raw_def rel0_def)
  ultimately show ?thesis
    using decode_qp_rel [OF r] r by (auto simp: rfc2045_cdecode_def d rel0_def split: decode_func.split)
qed

lemma cdecode_end_rel: "rel p q \<Longrightarrow> rel0 (rfc2045_cdecode_end f p) (rfc2045_cdecode_end g q)"
proof -
  assume r: "rel p q"
  then have d: "decode_func p = decode_func q" by (simp add: rel_def)
  show ?thesis
    using r do_decode_qp_rel [OF r] do_decode_base64_rel [OF r]
    by (auto simp: rfc2045_cdecode_end_def d rel0_def split: decode_func.split)
qed

lemma cdecode_start_rel: "R a b \<Longrightarrow> rel (rfc2045_cdecode_start te a) (rfc2045_cdecode_start te b)"
  by (simp add: rel_def rfc2045_cdecode_start_def)

lemma fold_rel:
  "rel p q \<Longrightarrow> rel (fold (\<lambda>s p. fst (rfc2045_cdecode f p s)) ss p) (fold (\<lambda>s q. fst (rfc2045_cdecode g q s)) ss q)"
  by (induction ss arbitrary: p q) (use cdecode_rel in \<open>auto simp: rel0_def\<close>)

lemma end_rel: "rel p q \<Longrightarrow> R (misc_decode_ptr (fst (rfc2045_cdecode_end f p))) (misc_decode_ptr (fst (rfc2045_cdecode_end g q)))"
  using cdecode_end_rel [of p q] by (simp add: rel0_def rel_def)

end

subsection \<open>Decoded content\<close>

text \<open>The content of a body read in pieces; saving it never fails.\<close>

definition decoded :: "string option \<Rightarrow> string list \<Rightarrow> string" where
  "decoded te ss = misc_decode_ptr (fst (rfc2045_cdecode_end save_str
     (fold (\<lambda>s p. fst (rfc2045_cdecode save_str p s)) ss (rfc2045_cdecode_start te []))))"

interpretation saving: callback_sim save_str save_str "(=)"
  by unfold_locales (simp_all add: save_str_def)

lemma cdecode_rc: "snd (rfc2045_cdecode save_str p s) = 0" "snd (rfc2045_cdecode_end save_str p) = 0"
  using saving.cdecode_rel [of p p s] saving.cdecode_end_rel [of p p] by (simp_all add: saving.rel0_def saving.rel_def)

lemma cdecode_pieces_fold:
  "cdecode_pieces save_str p ss = (fold (\<lambda>s p. fst (rfc2045_cdecode save_str p s)) ss p, 0)"
  by (induction ss arbitrary: p) (use cdecode_rc(1) in \<open>auto split: prod.splits, (metis snd_conv)+\<close>)

lemma content_decode_decoded: "content_decode te ss = Some (decoded te ss)"
  using cdecode_rc(2) by (auto simp: content_decode_def decoded_def cdecode_pieces_fold split: prod.splits) (metis snd_conv)

text \<open>A callback that is kept in a relation with what has been saved.\<close>

lemma decoded_callback:
  assumes "callback_sim f save_str R" "R a []"
  shows "R (misc_decode_ptr (fst (rfc2045_cdecode_end f
    (fold (\<lambda>s p. fst (rfc2045_cdecode f p s)) ss (rfc2045_cdecode_start te a))))) (decoded te ss)"
  using callback_sim.end_rel [OF assms(1) callback_sim.fold_rel [OF assms(1) callback_sim.cdecode_start_rel [OF assms]]]
  by (simp add: decoded_def)

subsection \<open>Blocks\<close>

text \<open>The blocks of at most \<open>k\<close> characters in which \<open>n\<close> characters are read, up to the end of the file.\<close>

function blocks :: "nat \<Rightarrow> nat \<Rightarrow> string \<Rightarrow> string list" where
  "blocks k n s =
     (let b = take (min k n) s in if b = [] then [] else b # blocks k (n - length b) (drop (length b) s))"
  by pat_completeness auto
termination
  by (relation "measure (\<lambda>(k, n, s). length s)") auto

declare blocks.simps [simp del]

lemma concat_blocks: "0 < k \<Longrightarrow> concat (blocks k n s) = take n s"
proof (induction k n s rule: blocks.induct)
  case (1 k n s)
  let ?b = "take (min k n) s"
  show ?case
  proof (cases "?b = []")
    case True
    with 1(2) show ?thesis by (subst blocks.simps) auto
  next
    case False
    then have "concat (blocks k n s) = ?b @ take (n - length ?b) (drop (length ?b) s)"
      using 1 by (subst blocks.simps) (simp add: Let_def)
    also have "\<dots> = take (length ?b + (n - length ?b)) s"
      by (simp only: take_add) (simp add: min_def)
    also have "\<dots> = take n s"
      using False by (cases "length s \<le> n") auto
    finally show ?thesis .
  qed
qed

end
