(* ===== verification/Rfc2045_Boundary.thy ===== *)
theory Rfc2045_Boundary
  imports Rfc2045_Autoconv Rfc2045_Sim Numlib
begin

text \<open>
  The choice of a boundary for a rewritten message (\<^verbatim>\<open>rfc2045/rfc2045mkboundary.c\<close>, \<^verbatim>\<open>rfc2045tryboundary.c\<close>): names made of the
  host, the process, the time and a counter are tried until no line of the decoded sections starts with one. The host
  name, the process and the time are parameters, memory allocation succeeds.
\<close>

subsection \<open>Trying a boundary\<close>

record boundary_buf =
  chk_buf :: string
  chk_flag :: bool

definition boundary_chk_add :: "string \<Rightarrow> string \<Rightarrow> boundary_buf \<Rightarrow> boundary_buf" where
  "boundary_chk_add val s st = (if length (chk_buf st) < length val + 20 then st\<lparr>chk_buf := chk_buf st @ s\<rparr> else st)"

definition boundary_chk_line :: "string \<Rightarrow> boundary_buf \<Rightarrow> boundary_buf" where
  "boundary_chk_line val st =
     st\<lparr>chk_flag := (chk_flag st \<or>
          (length val + 2 \<le> length (chk_buf st) \<and> take 2 (chk_buf st) = ''--'' \<and> caseprefix val (drop 2 (chk_buf st)))),
        chk_buf := []\<rparr>"

text \<open>The loop; \<open>acc\<close> is what has been read of the line.\<close>

fun boundary_chk_loop :: "string \<Rightarrow> string \<Rightarrow> string \<Rightarrow> boundary_buf \<Rightarrow> boundary_buf" where
  "boundary_chk_loop val acc [] st = boundary_chk_add val acc st"
| "boundary_chk_loop val acc (c # p) st =
     (if c = nl then boundary_chk_loop val [] p (boundary_chk_line val (boundary_chk_add val acc st))
      else boundary_chk_loop val (acc @ [c]) p st)"

definition boundary_chk :: "string \<Rightarrow> boundary_buf callback" where
  "boundary_chk val st p = (boundary_chk_loop val [] p st, 0)"

text \<open>The body of a section, read in blocks of 512 until a boundary is found.\<close>

function try_loop :: "string \<Rightarrow> boundary_buf rfc2045 \<Rightarrow> string \<Rightarrow> nat \<Rightarrow> boundary_buf rfc2045 \<times> int" where
  "try_loop val p s n =
     (if n = 0 then (p, 0)
      else
        let buf = take (min 512 n) s
        in if buf = [] then (p, - 1)
           else
             let p = fst (rfc2045_cdecode (boundary_chk val) p buf)
             in if chk_flag (misc_decode_ptr p) then (p, 0)
                else try_loop val p (drop (length buf) s) (n - length buf))"
  by pat_completeness auto
termination
  by (relation "measure (\<lambda>(val, p, s, n). n)") auto

declare try_loop.simps [simp del]

definition try_body :: "string \<Rightarrow> string \<Rightarrow> rw_info \<Rightarrow> int" where
  "try_body val file p =
     (if content_transfer_encoding p = Some ''base64'' then 0
      else
        case try_loop val (rfc2045_cdecode_start (content_transfer_encoding p) \<lparr>chk_buf = [], chk_flag = False\<rparr>)
          (drop (startbody p) file) (endbody p - startbody p) of
          (d, rc) \<Rightarrow>
            if rc \<noteq> 0 then - 1
            else
              let st = misc_decode_ptr (fst (rfc2045_cdecode_end (boundary_chk val) d));
                  st = (if chk_buf st \<noteq> [] then fst (boundary_chk val st [nl]) else st)
              in if chk_flag st then 1 else 0)"

fun try_boundary :: "string \<Rightarrow> string \<Rightarrow> rw_part \<Rightarrow> int"
  and try_parts :: "string \<Rightarrow> string \<Rightarrow> rw_part list \<Rightarrow> int" where
  "try_boundary val file (Rw p ps) = (if ps \<noteq> [] then try_parts val file ps else try_body val file p)"
| "try_parts val file [] = 0"
| "try_parts val file (p # ps) =
     (let rc = try_boundary val file p in if rc \<noteq> 0 then rc else try_parts val file ps)"

subsection \<open>Making a boundary\<close>

definition boundary_name :: "string \<Rightarrow> 32 word \<Rightarrow> 64 word \<Rightarrow> 64 word \<Rightarrow> string" where
  "boundary_name host pid now cnt =
     (let cntbuf = libmail_str_size_t cnt
      in ''=_'' @ host @ ''-'' @ libmail_str_pid_t pid @ ''-'' @ libmail_str_time_t now @ ''-''
           @ replicate (4 - length cntbuf) (CHR ''0'') @ cntbuf)"

text \<open>The loop with its static counter; the inner option is the null pointer.\<close>

partial_function (option) mk_loop ::
    "(string \<Rightarrow> int) \<Rightarrow> (64 word \<Rightarrow> string) \<Rightarrow> 64 word \<Rightarrow> (string option \<times> 64 word) option" where
  "mk_loop attempt name cnt =
     (let cnt = cnt + 1; rc = attempt (name cnt)
      in if rc = 0 then Some (Some (name cnt), cnt) else if rc < 0 then Some (None, cnt) else mk_loop attempt name cnt)"

definition rfc2045_mk_boundary ::
    "string \<Rightarrow> 32 word \<Rightarrow> 64 word \<Rightarrow> string \<Rightarrow> rw_part \<Rightarrow> 64 word \<Rightarrow> (string option \<times> 64 word) option" where
  "rfc2045_mk_boundary host pid now file s cnt = mk_loop (\<lambda>b. try_boundary b file s) (boundary_name host pid now) cnt"

subsection \<open>A boundary is found exactly when a line starts with it\<close>

definition bad_line :: "string \<Rightarrow> string \<Rightarrow> bool" where
  "bad_line val l \<longleftrightarrow> caseprefix (''--'' @ val) l"

lemma caseprefix_take_iff: "caseprefix p (take n l) \<longleftrightarrow> caseprefix p l \<and> length p \<le> n"
proof (induction p l arbitrary: n rule: caseprefix.induct)
  case (3 a as b bs)
  then show ?case by (cases n) auto
qed (auto dest: caseprefix_length)

lemma tolower_dash: "CHR ''-'' = tolower c \<longleftrightarrow> c = CHR ''-''"
  by (auto simp: ctype_simps tolower_def)

lemma bad_line_iff: "bad_line val l \<longleftrightarrow> length val + 2 \<le> length l \<and> take 2 l = ''--'' \<and> caseprefix val (drop 2 l)"
proof -
  have t: "tolower CHR ''-'' = CHR ''-''" by (simp add: tolower_def isupper_def)
  show ?thesis
    by (cases l; cases "tl l") (auto simp: bad_line_def t tolower_dash dest: caseprefix_length)
qed

text \<open>The buffer has the start of the line, all of it or enough.\<close>

definition line_start :: "string \<Rightarrow> string \<Rightarrow> string \<Rightarrow> bool" where
  "line_start val b l \<longleftrightarrow> (\<exists>k. b = take k l) \<and> (b = l \<or> length val + 20 \<le> length b)"

lemma line_start_bad: "line_start val b l \<Longrightarrow> bad_line val b \<longleftrightarrow> bad_line val l"
  by (auto simp: line_start_def bad_line_def caseprefix_take_iff)

lemma line_start_add:
  "line_start val (chk_buf st) l \<Longrightarrow>
    line_start val (chk_buf (boundary_chk_add val acc st)) (l @ acc) \<and> chk_flag (boundary_chk_add val acc st) = chk_flag st"
proof -
  assume a: "line_start val (chk_buf st) l"
  then obtain k where k: "chk_buf st = take k l" by (auto simp: line_start_def)
  have "take k l = take (min k (length l)) (l @ acc)" by (simp add: min_def)
  with a k have "length val + 20 \<le> length (chk_buf st) \<Longrightarrow> line_start val (chk_buf st) (l @ acc)"
    unfolding line_start_def by metis
  moreover have "line_start val (l @ acc) (l @ acc)"
    unfolding line_start_def by (auto intro: exI [of _ "length (l @ acc)"])
  ultimately show ?thesis
    using a by (auto simp: boundary_chk_add_def line_start_def)
qed

text \<open>What has been seen of a text: whether a complete line was bad, and the start of the last one.\<close>

definition chk_ok :: "string \<Rightarrow> boundary_buf \<Rightarrow> string \<Rightarrow> bool" where
  "chk_ok val st out \<longleftrightarrow>
     (chk_flag st \<longleftrightarrow> list_ex (bad_line val) (butlast (split_nl out))) \<and>
     line_start val (chk_buf st) (last (split_nl out))"

lemma split_nl_snoc:
  "butlast (split_nl (out @ [nl])) = split_nl out" "last (split_nl (out @ [nl])) = []"
proof -
  have "split_nl (out @ [nl]) = (butlast (split_nl out) @ [last (split_nl out)]) @ [[]]"
    by (simp add: split_nl_append)
  then have "split_nl (out @ [nl]) = split_nl out @ [[]]"
    by (simp only: append_butlast_last_id split_nl_ne not_False_eq_True)
  then show "butlast (split_nl (out @ [nl])) = split_nl out" "last (split_nl (out @ [nl])) = []"
    by simp_all
qed

lemma split_nl_acc: "nl \<notin> set acc \<Longrightarrow> butlast (split_nl (out @ acc)) = butlast (split_nl out) \<and>
    last (split_nl (out @ acc)) = last (split_nl out) @ acc"
  by (simp add: split_nl_append split_nl_plain)

lemma chk_ok_line: "chk_ok val st out \<Longrightarrow> chk_ok val (boundary_chk_line val st) (out @ [nl])"
proof -
  assume c: "chk_ok val st out"
  have "list_ex (bad_line val) (split_nl out) \<longleftrightarrow>
      list_ex (bad_line val) (butlast (split_nl out)) \<or> bad_line val (last (split_nl out))"
    by (subst append_butlast_last_id [of "split_nl out", symmetric]) (simp, simp only: list_ex_append, simp)
  moreover have "line_start val [] []" by (simp add: line_start_def)
  moreover have "boundary_chk_line val st = st\<lparr>chk_flag := (chk_flag st \<or> bad_line val (chk_buf st)), chk_buf := []\<rparr>"
    by (simp add: boundary_chk_line_def bad_line_iff)
  ultimately show ?thesis
    using c line_start_bad [of val "chk_buf st" "last (split_nl out)"]
    by (simp add: chk_ok_def split_nl_snoc)
qed

lemma chk_ok_loop: "chk_ok val st out \<Longrightarrow> nl \<notin> set acc \<Longrightarrow> chk_ok val (boundary_chk_loop val acc p st) (out @ acc @ p)"
proof (induction val acc p st arbitrary: out rule: boundary_chk_loop.induct)
  case (1 val acc st)
  then show ?case
    using split_nl_acc [of acc out] line_start_add [of val st "last (split_nl out)" acc] by (simp add: chk_ok_def)
next
  case (2 val acc c p st)
  show ?case
  proof (cases "c = nl")
    case True
    have "chk_ok val (boundary_chk_add val acc st) (out @ acc)"
      using 2(3,4) split_nl_acc [of acc out] line_start_add [of val st "last (split_nl out)" acc] by (simp add: chk_ok_def)
    from 2(1) [OF True chk_ok_line [OF this]] True show ?thesis by simp
  next
    case False
    with 2(2) [OF False 2(3)] 2(4) show ?thesis by simp
  qed
qed

interpretation boundary_chk: callback_sim "boundary_chk val" save_str "chk_ok val" for val
  using chk_ok_loop [of val _ _ "[]"] by unfold_locales (simp_all add: boundary_chk_def save_str_def)

text \<open>What has been saved stays, and so does a bad line.\<close>

interpretation saved: callback_sim save_str save_str "\<lambda>a b. a = base @ b" for base
  by unfold_locales (simp_all add: save_str_def)

lemma saved_appends:
  "\<exists>x. misc_decode_ptr (fst (rfc2045_cdecode save_str p s)) = misc_decode_ptr p @ x"
  "\<exists>x. misc_decode_ptr (fst (rfc2045_cdecode_end save_str p)) = misc_decode_ptr p @ x"
proof -
  have "saved.rel (misc_decode_ptr p) p (p\<lparr>misc_decode_ptr := []\<rparr>)"
    by (simp add: saved.rel_def)
  from saved.cdecode_rel [OF this, of s] saved.end_rel [OF this]
  show "\<exists>x. misc_decode_ptr (fst (rfc2045_cdecode save_str p s)) = misc_decode_ptr p @ x"
    "\<exists>x. misc_decode_ptr (fst (rfc2045_cdecode_end save_str p)) = misc_decode_ptr p @ x"
    by (auto simp: saved.rel0_def saved.rel_def)
qed

lemma saved_appends_fold:
  "\<exists>x. misc_decode_ptr (fold (\<lambda>s p. fst (rfc2045_cdecode save_str p s)) ss p) = misc_decode_ptr p @ x"
proof (induction ss arbitrary: p)
  case (Cons s ss)
  show ?case
    using Cons.IH [of "fst (rfc2045_cdecode save_str p s)"] saved_appends(1) [of p s] by auto
qed simp

definition has_bad :: "string \<Rightarrow> string \<Rightarrow> bool" where
  "has_bad val t \<longleftrightarrow> list_ex (bad_line val) (split_nl t)"

lemma complete_bad_append:
  "list_ex (bad_line val) (butlast (split_nl a)) \<Longrightarrow> list_ex (bad_line val) (butlast (split_nl (a @ b)))"
  by (auto simp: split_nl_append list_ex_iff butlast_append)

lemma complete_bad: "list_ex (bad_line val) (butlast (split_nl a)) \<Longrightarrow> has_bad val a"
  by (auto simp: has_bad_def list_ex_iff dest: in_set_butlastD)

lemma has_bad_last:
  "has_bad val a \<longleftrightarrow> list_ex (bad_line val) (butlast (split_nl a)) \<or> bad_line val (last (split_nl a))"
  unfolding has_bad_def by (subst append_butlast_last_id [of "split_nl a", symmetric]) (simp, simp only: list_ex_append, simp)

text \<open>The body of a section: the decoder of the code next to the one that saves.\<close>

abbreviation saving_step :: "string \<Rightarrow> string rfc2045 \<Rightarrow> string rfc2045" where
  "saving_step s q \<equiv> fst (rfc2045_cdecode save_str q s)"

lemma try_loop_saved:
  assumes "boundary_chk.rel val p q" "\<not> chk_flag (misc_decode_ptr p)" "try_loop val p s n = (d, rc)"
  shows "(\<exists>q' ss. boundary_chk.rel val d q' \<and> fold saving_step (blocks 512 n s) q = fold saving_step ss q' \<and>
      (rc = 0 \<longrightarrow> chk_flag (misc_decode_ptr d) \<or> ss = [])) \<and> (rc = 0 \<or> rc = - 1) \<and> (n \<le> length s \<longrightarrow> rc = 0)"
  using assms
proof (induction val p s n arbitrary: q rule: try_loop.induct)
  case (1 val p s n)
  let ?buf = "take (min 512 n) s"
  let ?p = "fst (rfc2045_cdecode (boundary_chk val) p ?buf)"
  consider "n = 0" | "n \<noteq> 0" "?buf = []" | "n \<noteq> 0" "?buf \<noteq> []" by blast
  then show ?case
  proof cases
    case 1
    then have "try_loop val p s n = (p, 0)" "blocks 512 n s = []"
      using try_loop.simps [of val p s n] blocks.simps [of 512 n s] by simp_all
    then have "d = p" "rc = 0" "blocks 512 n s = []"
      using "1.prems"(3) by simp_all
    then show ?thesis
      using "1.prems"(1) by (intro conjI exI [of _ q] exI [of _ "[]"]) auto
  next
    case 2
    then have "try_loop val p s n = (p, - 1)" "blocks 512 n s = []"
      by (simp_all add: try_loop.simps [of val p s n] blocks.simps [of 512 n s])
    then have "d = p" "rc = - 1" "blocks 512 n s = []" "s = []"
      using "1.prems"(3) 2 by (auto simp: min_def split: if_splits)
    then show ?thesis
      using "1.prems"(1) 2 by (intro conjI exI [of _ q] exI [of _ "[]"]) auto
  next
    case 3
    have r: "boundary_chk.rel val ?p (saving_step ?buf q)"
      using boundary_chk.cdecode_rel [OF "1.prems"(1)] by (simp add: boundary_chk.rel0_def)
    have b: "fold saving_step (blocks 512 n s) q =
        fold saving_step (blocks 512 (n - length ?buf) (drop (length ?buf) s)) (saving_step ?buf q)"
      using blocks.simps [of 512 n s] 3(2) unfolding Let_def by (simp only: if_False fold_Cons comp_def)
    have step: "try_loop val p s n =
        (if chk_flag (misc_decode_ptr ?p) then (?p, 0) else try_loop val ?p (drop (length ?buf) s) (n - length ?buf))"
      using try_loop.simps [of val p s n] 3 unfolding Let_def by (simp only: if_False)
    show ?thesis
    proof (cases "chk_flag (misc_decode_ptr ?p)")
      case True
      then have "d = ?p" "rc = 0"
        using "1.prems"(3) unfolding step by (simp_all only: if_True prod.inject)
      with r b True show ?thesis by auto
    next
      case False
      then have "try_loop val ?p (drop (length ?buf) s) (n - length ?buf) = (d, rc)"
        using "1.prems"(3) unfolding step by (simp only: if_False)
      from "1.IH" [OF 3(1) refl 3(2) refl False r False this] show ?thesis
        unfolding b by (elim conjE) (intro conjI; force)
    qed
  qed
qed

lemma boundary_chk_start: "chk_ok val \<lparr>chk_buf = [], chk_flag = False\<rparr> []"
  by (simp add: chk_ok_def line_start_def)

lemma boundary_chk_close:
  assumes "chk_ok val st out"
  shows "chk_flag (if chk_buf st \<noteq> [] then fst (boundary_chk val st [nl]) else st) \<longleftrightarrow> has_bad val out"
proof (cases "chk_buf st = []")
  case True
  with assms have "last (split_nl out) = []"
    by (auto simp: chk_ok_def line_start_def)
  with True assms show ?thesis
    by (simp add: has_bad_last chk_ok_def bad_line_def)
next
  case False
  have "chk_ok val (fst (boundary_chk val st [nl])) (out @ [nl])"
    using chk_ok_loop [OF assms, of "[]" "[nl]"] by (simp add: boundary_chk_def)
  with False show ?thesis
    by (simp add: chk_ok_def split_nl_snoc has_bad_def)
qed

definition body_content :: "nat \<Rightarrow> string \<Rightarrow> rw_info \<Rightarrow> string" where
  "body_content k file p =
     decoded (content_transfer_encoding p) (blocks k (endbody p - startbody p) (drop (startbody p) file))"

lemma try_body_result:
  assumes "content_transfer_encoding p \<noteq> Some ''base64''"
  shows "try_body val file p = 1 \<and> has_bad val (body_content 512 file p) \<or>
    try_body val file p = 0 \<and> \<not> has_bad val (body_content 512 file p) \<or>
    try_body val file p = - 1 \<and> length file - startbody p < endbody p - startbody p"
proof -
  let ?te = "content_transfer_encoding p"
  let ?s = "drop (startbody p) file" and ?n = "endbody p - startbody p"
  let ?p0 = "rfc2045_cdecode_start ?te \<lparr>chk_buf = [], chk_flag = False\<rparr>" and ?q0 = "rfc2045_cdecode_start ?te []"
  obtain d rc where t: "try_loop val ?p0 ?s ?n = (d, rc)" by fastforce
  have r0: "boundary_chk.rel val ?p0 ?q0"
    by (rule boundary_chk.cdecode_start_rel) (rule boundary_chk_start)
  have f0: "\<not> chk_flag (misc_decode_ptr ?p0)" by (simp add: rfc2045_cdecode_start_def)
  obtain q ss where q: "boundary_chk.rel val d q" "fold saving_step (blocks 512 ?n ?s) ?q0 = fold saving_step ss q"
    "rc = 0 \<Longrightarrow> chk_flag (misc_decode_ptr d) \<or> ss = []" "rc = 0 \<or> rc = - 1" "?n \<le> length ?s \<Longrightarrow> rc = 0"
    using try_loop_saved [OF r0 f0 t] by blast
  show ?thesis
  proof (cases "rc = 0")
    case False
    with q(5) have "\<not> ?n \<le> length ?s" by blast
    with False show ?thesis by (simp add: try_body_def assms t)
  next
    case True
    define st where "st = misc_decode_ptr (fst (rfc2045_cdecode_end (boundary_chk val) d))"
    define out where "out = misc_decode_ptr (fst (rfc2045_cdecode_end save_str q))"
    have ok: "chk_ok val st out"
      unfolding st_def out_def by (rule boundary_chk.end_rel [OF q(1)])
    have whole: "body_content 512 file p = misc_decode_ptr (fst (rfc2045_cdecode_end save_str (fold saving_step ss q)))"
      by (simp add: body_content_def decoded_def q(2))
    have "has_bad val out \<longleftrightarrow> has_bad val (body_content 512 file p)"
    proof (cases "ss = []")
      case True
      then show ?thesis by (simp add: whole out_def)
    next
      case False
      with q(3) True have "chk_flag (misc_decode_ptr d)" by blast
      then have b: "list_ex (bad_line val) (butlast (split_nl (misc_decode_ptr q)))"
        using q(1) by (simp add: boundary_chk.rel_def chk_ok_def)
      obtain x y z where "out = misc_decode_ptr q @ x" "misc_decode_ptr (fold saving_step ss q) = misc_decode_ptr q @ y"
        "body_content 512 file p = (misc_decode_ptr q @ y) @ z"
        using saved_appends(2) [of q] saved_appends_fold [of ss q] saved_appends(2) [of "fold saving_step ss q"]
        by (auto simp: out_def whole)
      then show ?thesis
        using complete_bad_append [OF b] complete_bad by auto
    qed
    moreover have "try_body val file p = (if has_bad val out then 1 else 0)"
      using boundary_chk_close [OF ok] by (simp add: try_body_def assms t True st_def [symmetric] Let_def)
    ultimately show ?thesis by simp
  qed
qed

subsection \<open>A new boundary is found\<close>

text \<open>The decoded texts of the sections that are looked at, and whether the file has them all.\<close>

fun checked_texts :: "string \<Rightarrow> rw_part \<Rightarrow> string list" where
  "checked_texts file (Rw p ps) =
     (if ps \<noteq> [] then concat (map (checked_texts file) ps)
      else if content_transfer_encoding p = Some ''base64'' then [] else [body_content 512 file p])"

fun in_file :: "string \<Rightarrow> rw_part \<Rightarrow> bool" where
  "in_file file (Rw p ps) \<longleftrightarrow>
     endbody p - startbody p \<le> length file - startbody p \<and> endbody p - startpos p \<le> length file - startpos p \<and>
     (\<forall>c \<in> set ps. in_file file c)"

definition tried :: "string \<Rightarrow> string list \<Rightarrow> int \<Rightarrow> bool \<Rightarrow> bool" where
  "tried val ts rc whole \<longleftrightarrow>
     rc = 1 \<and> list_ex (has_bad val) ts \<or> rc = 0 \<and> \<not> list_ex (has_bad val) ts \<or> rc = - 1 \<and> \<not> whole"

lemma try_boundary_result:
  "tried val (checked_texts f q) (try_boundary val f q) (in_file f q)"
  "tried val (concat (map (checked_texts f) qs)) (try_parts val f qs) (\<forall>q \<in> set qs. in_file f q)"
proof (induction val f q and val f qs rule: try_boundary_try_parts.induct)
  case (1 val f p ps)
  show ?case
  proof (cases "ps = []")
    case True
    then show ?thesis
      using try_body_result [of p val f] by (cases "content_transfer_encoding p = Some ''base64''")
        (auto simp: tried_def try_body_def [of val f p])
  next
    case False
    with 1 show ?thesis by (auto simp: tried_def)
  qed
next
  case (3 val f p ps)
  then show ?case by (auto simp: tried_def Let_def)
qed (simp add: tried_def)

text \<open>Counters that differ give names of which a line starts with at most one of each length.\<close>

lemma caseprefix_same: "caseprefix p l \<Longrightarrow> caseprefix q l \<Longrightarrow> length p = length q \<Longrightarrow> map tolower p = map tolower q"
proof (induction p l arbitrary: q rule: caseprefix.induct)
  case (3 a as b bs)
  then show ?case by (cases q) auto
qed auto

lemma tolower_digits: "list_all isdigit s \<Longrightarrow> map tolower s = s"
  by (induction s) (auto simp: ctype_simps tolower_def)

lemma boundary_name_cnt:
  "boundary_name host pid now cnt = ''=_'' @ host @ ''-'' @ libmail_str_pid_t pid @ ''-'' @ libmail_str_time_t now @ ''-'' @
    dec_pad 4 (unat cnt)"
  using dec_loop_dec [of "unat cnt" "[]"] by (simp add: boundary_name_def libmail_str_size_t_def dec_pad_def Let_def)

lemma boundary_name_inject:
  "map tolower (boundary_name host pid now c) = map tolower (boundary_name host pid now d) \<Longrightarrow> c = d"
proof -
  assume "map tolower (boundary_name host pid now c) = map tolower (boundary_name host pid now d)"
  then have "dec_pad 4 (unat c) = dec_pad 4 (unat d)"
    by (simp add: boundary_name_cnt tolower_digits [OF dec_pad_digits])
  then have "unat c = unat d"
    by (metis dec_pad_val)
  then show ?thesis by (rule word_unat_eq_iff [THEN iffD2])
qed

lemma card_bad_counters: "card {c. bad_line (boundary_name host pid now c) l} \<le> length l"
proof -
  let ?B = "{c. bad_line (boundary_name host pid now c) l}" and ?len = "\<lambda>c. length (boundary_name host pid now c)"
  have "inj_on ?len ?B"
  proof (rule inj_onI)
    fix c d
    assume "c \<in> ?B" "d \<in> ?B" "?len c = ?len d"
    then have "map tolower (''--'' @ boundary_name host pid now c) = map tolower (''--'' @ boundary_name host pid now d)"
      by (intro caseprefix_same) (auto simp: bad_line_def)
    then show "c = d" by (simp add: boundary_name_inject)
  qed
  moreover have "?len ` ?B \<subseteq> {..< length l}"
    by (auto simp: bad_line_def dest!: caseprefix_length)
  ultimately have "card ?B \<le> card {..< length l}"
    by (rule card_inj_on_le) simp
  then show ?thesis by simp
qed

lemma split_nl_lengths: "sum_list (map length (split_nl t)) \<le> length t"
  by (induction t) (auto split: list.splits)

lemma card_bad_texts:
  "card {c. list_ex (has_bad (boundary_name host pid now c)) ts} \<le> sum_list (map length ts)"
proof (induction ts)
  case (Cons t ts)
  let ?n = "boundary_name host pid now"
  have "card {c. list_ex (bad_line (?n c)) ls} \<le> sum_list (map length ls)" for ls
  proof (induction ls)
    case (Cons l ls)
    have "{c. list_ex (bad_line (?n c)) (l # ls)} = {c. bad_line (?n c) l} \<union> {c. list_ex (bad_line (?n c)) ls}"
      by auto
    then show ?case
      using card_Un_le [of "{c. bad_line (?n c) l}" "{c. list_ex (bad_line (?n c)) ls}"] card_bad_counters [of host pid now l]
        Cons.IH by simp
  qed simp
  from this [of "split_nl t"] split_nl_lengths [of t] have t: "card {c. has_bad (?n c) t} \<le> length t"
    by (simp add: has_bad_def)
  have "{c. list_ex (has_bad (?n c)) (t # ts)} = {c. has_bad (?n c) t} \<union> {c. list_ex (has_bad (?n c)) ts}"
    by auto
  then show ?case
    using card_Un_le [of "{c. has_bad (?n c) t}" "{c. list_ex (has_bad (?n c)) ts}"] t Cons.IH by simp
qed simp

text \<open>The loop ends when a counter it comes to does not collide.\<close>

lemma mk_loop_ends:
  "attempt (name (cnt + of_nat (Suc k))) \<le> 0 \<Longrightarrow>
    \<exists>b c. mk_loop attempt name cnt = Some (b, c) \<and> (b = Some (name c) \<and> attempt (name c) = 0 \<or> b = None \<and> attempt (name c) < 0)"
proof (induction k arbitrary: cnt)
  case 0
  then show ?case by (subst mk_loop.simps) (auto simp: Let_def)
next
  case (Suc k)
  have "cnt + of_nat (Suc (Suc k)) = cnt + 1 + of_nat (Suc k)" by simp
  with Suc.prems have "attempt (name (cnt + 1 + of_nat (Suc k))) \<le> 0" by (simp only:)
  from Suc.IH [OF this] show ?case
    by (subst mk_loop.simps) (auto simp: Let_def)
qed

text \<open>
  C21. A boundary for a rewritten message is always found, though the loop that tries names has no bound: it returns within
  one round of its 64 bit counter for any message whose decoded texts have fewer than \<open>2 ^ 64\<close> characters. No line of a decoded text starts, in upper
  or lower case, with two hyphens and the name it returns, sections in base64 aside, and it returns a null pointer only when
  the file is shorter than the sections say.
\<close>

theorem boundary_found:
  assumes "sum_list (map length (checked_texts fl s)) < 2 ^ 64"
  shows "\<exists>b cnt'. rfc2045_mk_boundary host pid now fl s cnt = Some (b, cnt') \<and>
    (\<forall>v. b = Some v \<longrightarrow> (\<forall>t \<in> set (checked_texts fl s). \<forall>l \<in> set (split_nl t). \<not> caseprefix (''--'' @ v) l)) \<and>
    (b = None \<longrightarrow> \<not> in_file fl s)"
proof -
  let ?n = "boundary_name host pid now" and ?attempt = "\<lambda>b. try_boundary b fl s"
  let ?bad = "{c. list_ex (has_bad (?n c)) (checked_texts fl s)}"
  have "card ?bad < card (UNIV :: 64 word set)"
    using card_bad_texts [of host pid now "checked_texts fl s"] assms by (simp add: card_word)
  then obtain g where g: "g \<notin> ?bad"
    by (metis UNIV_eq_I less_irrefl)
  have "g = cnt + of_nat (Suc (unat (g - cnt - 1)))"
    by simp
  moreover have t: "tried (?n c) (checked_texts fl s) (?attempt (?n c)) (in_file fl s)" for c
    by (rule try_boundary_result)
  then have "?attempt (?n g) \<le> 0"
    using g t [of g] by (auto simp: tried_def)
  ultimately have "?attempt (?n (cnt + of_nat (Suc (unat (g - cnt - 1))))) \<le> 0"
    by (simp only:)
  from mk_loop_ends [of ?attempt ?n, OF this] obtain b c where "mk_loop ?attempt ?n cnt = Some (b, c)"
    "b = Some (?n c) \<and> ?attempt (?n c) = 0 \<or> b = None \<and> ?attempt (?n c) < 0"
    by blast
  then show ?thesis
    using t [of c] by (auto simp: rfc2045_mk_boundary_def tried_def has_bad_def bad_line_def list_ex_iff)
qed

abbreviation plain_section :: "nat \<Rightarrow> nat \<Rightarrow> rw_info" where
  "plain_section s e \<equiv> part_info.extend (alloc_info\<lparr>startbody := s, endbody := e\<rparr>) (rw_info.fields False False None)"

theorem boundary_found_witness:
  "\<exists>b cnt'. rfc2045_mk_boundary ''host'' 1 2 ''--=_'' (Rw (plain_section 0 4) []) 0 = Some (b, cnt') \<and>
    (\<forall>v. b = Some v \<longrightarrow>
      (\<forall>t \<in> set (checked_texts ''--=_'' (Rw (plain_section 0 4) [])). \<forall>l \<in> set (split_nl t). \<not> caseprefix (''--'' @ v) l)) \<and>
    (b = None \<longrightarrow> \<not> in_file ''--=_'' (Rw (plain_section 0 4) []))"
proof (rule boundary_found)
  have "blocks 512 4 ''--=_'' = [''--=_'']"
    using blocks.simps [of 512 4 "''--=_''"] blocks.simps [of 512 0 "[]"] by simp
  then show "sum_list (map length (checked_texts ''--=_'' (Rw (plain_section 0 4) []))) < 2 ^ 64"
    by (simp add: body_content_def part_info.defs rw_info.defs alloc_info_def decoded_def rfc2045_cdecode_def
        rfc2045_cdecode_start_def rfc2045_cdecode_end_def decode_raw_def udecode_def save_str_def)
qed

end
