(* ===== verification/Rfc2045_Rewrite.thy ===== *)
theory Rfc2045_Rewrite
  imports Rfc2045_Boundary
begin

text \<open>
  Rewriting a parsed message (\<^verbatim>\<open>rfc2045/rfc2045rewrite.c\<close>): the headers are copied, those of MIME made from the
  tree of sections, and the bodies are decoded and encoded anew as \<open>ac_check\<close> has decided. The file is its text, read from any position; the
  output goes through a buffer of 512 bytes to the writer of the caller, which takes as much of what it is given as it
  likes and says how much that was. Opening and seeking succeed.
\<close>

subsection \<open>The buffered output\<close>

type_synonym 'a writer = "'a \<Rightarrow> string \<Rightarrow> 'a \<times> int"

record 'a fdout =
  fdout_buf :: string
  fdout_left :: nat
  fdout_arg :: 'a

definition fdout_start :: "'a \<Rightarrow> 'a fdout" where
  "fdout_start arg = \<lparr>fdout_buf = [], fdout_left = 512, fdout_arg = arg\<rparr>"

text \<open>The loop of \<open>fdout_flush\<close>; a writer never takes more than it is given.\<close>

function flush_loop :: "'a writer \<Rightarrow> 'a \<Rightarrow> string \<Rightarrow> 'a \<times> int" where
  "flush_loop w arg p =
     (if p = [] then (arg, 0)
      else case w arg p of (arg, i) \<Rightarrow> if i \<le> 0 then (arg, - 1) else flush_loop w arg (drop (nat i) p))"
  by pat_completeness auto
termination
  by (relation "measure (\<lambda>(w, arg, p). length p)") auto

declare flush_loop.simps [simp del]

definition fdout_flush :: "'a writer \<Rightarrow> 'a fdout \<Rightarrow> 'a fdout \<times> int" where
  "fdout_flush w out =
     (case flush_loop w (fdout_arg out) (fdout_buf out) of (arg, rc) \<Rightarrow>
        if rc \<noteq> 0 then (out\<lparr>fdout_arg := arg\<rparr>, - 1)
        else (\<lparr>fdout_buf = [], fdout_left = 512, fdout_arg = arg\<rparr>, 0))"

function fdout_add :: "'a writer \<Rightarrow> 'a fdout \<Rightarrow> string \<Rightarrow> 'a fdout \<times> int" where
  "fdout_add w out p =
     (if p = [] then (out, 0)
      else if length p < fdout_left out
      then (out\<lparr>fdout_buf := fdout_buf out @ p, fdout_left := fdout_left out - length p\<rparr>, 0)
      else if fdout_left out = 0
      then case fdout_flush w out of (out, rc) \<Rightarrow> if rc \<noteq> 0 then (out, - 1) else fdout_add w out p
      else fdout_add w (out\<lparr>fdout_buf := fdout_buf out @ take (fdout_left out) p, fdout_left := 0\<rparr>)
        (drop (fdout_left out) p))"
  by pat_completeness auto
termination
  by (relation "measure (\<lambda>(w, out, p). 2 * length p + (if fdout_left out = 0 then 1 else 0))")
    (auto simp: fdout_flush_def split: prod.splits if_splits)

declare fdout_add.simps [simp del]

text \<open>
  The rest is written over any way of adding text to the output; several calls, of which the first that fails is
  the last.
\<close>

type_synonym 's adder = "'s \<Rightarrow> string \<Rightarrow> 's \<times> int"

fun adds :: "'s adder \<Rightarrow> 's \<Rightarrow> string list \<Rightarrow> 's \<times> int" where
  "adds add s [] = (s, 0)"
| "adds add s (t # ts) = (case add s t of (s, rc) \<Rightarrow> if rc \<noteq> 0 then (s, - 1) else adds add s ts)"

subsection \<open>Headers of MIME\<close>

definition autoconverted :: "string option \<Rightarrow> string \<Rightarrow> string \<Rightarrow> string list" where
  "autoconverted appname oldte newte =
     [''X-Mime-Autoconverted: from '', oldte, '' to '', newte]
     @ (case appname of None \<Rightarrow> [] | Some a \<Rightarrow> ['' by '', a]) @ [[nl]]"

fun quote_pieces :: "string \<Rightarrow> string \<Rightarrow> string list" where
  "quote_pieces acc [] = [acc, [dquote]]"
| "quote_pieces acc (c # v) =
     (if c = bslash \<or> c = dquote then acc # [bslash] # quote_pieces [c] v else quote_pieces (acc @ [c]) v)"

definition fdout_value :: "string \<Rightarrow> string list" where
  "fdout_value v =
     (if list_ex (\<lambda>c. \<not> isalnum c \<and> c \<noteq> CHR ''-'') v then [dquote] # quote_pieces [] v else [v])"

definition fdout_attr :: "string \<times> string \<Rightarrow> string list" where
  "fdout_attr a = fst a # ''='' # fdout_value (snd a)"

definition rw_te :: "rw_info \<Rightarrow> string option" where
  "rw_te p = (case rw_transfer_encoding p of None \<Rightarrow> content_transfer_encoding p | te \<Rightarrow> te)"

text \<open>A step of the code that goes on only when the one before has succeeded.\<close>

definition check :: "'s \<times> int \<Rightarrow> ('s \<Rightarrow> 's \<times> int) \<Rightarrow> 's \<times> int" where
  "check x f = (case x of (s, rc) \<Rightarrow> if rc \<noteq> 0 then (s, - 1) else f s)"

text \<open>The output with the counter of the boundaries.\<close>

definition emit :: "'s adder \<Rightarrow> string list \<Rightarrow> 's \<times> nat \<Rightarrow> ('s \<times> nat) \<times> int" where
  "emit add ts = (\<lambda>(out, cnt). case adds add out ts of (out, rc) \<Rightarrow> ((out, cnt), rc))"

definition content_type_text :: "rw_info \<Rightarrow> string list" where
  "content_type_text p =
     (case content_type p of None \<Rightarrow> []
      | Some t \<Rightarrow> [''Content-Type: '', t]
          @ concat (map (\<lambda>a. ''; '' # fdout_attr a) (filter (\<lambda>a. fst a \<noteq> ''boundary'') (content_type_attr p))))"

definition te_text :: "nat \<Rightarrow> rw_info \<Rightarrow> string list" where
  "te_text n p =
     (case rw_te p of None \<Rightarrow> [] | Some te \<Rightarrow> if n = 0 then [''Content-Transfer-Encoding: '', te, [nl]] else [])"

text \<open>\<open>child\<close> says that the section has a parent, \<open>n\<close> is the number of its sections.\<close>

definition rwmime :: "'s adder \<Rightarrow> string \<Rightarrow> bool \<Rightarrow> nat \<Rightarrow> rw_info \<Rightarrow> 's \<times> nat \<Rightarrow> ('s \<times> nat) \<times> int" where
  "rwmime add root child n p st =
     check (emit add ((if child then [] else [''Mime-Version: 1.0'' @ [nl]]) @ content_type_text p) st)
       (\<lambda>(out, cnt).
          if n > 1
          then emit add ([''; boundary='' @ [dquote], root, CHR ''-'' # dec (cnt + 1), [dquote], [nl]] @ te_text n p) (out, cnt + 1)
          else emit add ([nl] # te_text n p) (out, cnt))"

subsection \<open>Quoted-printable\<close>

record 's conv_state =
  conv_out :: 's
  conv_err :: bool
  qpe_pos :: nat

definition conv_adds :: "'s adder \<Rightarrow> string list \<Rightarrow> 's conv_state \<Rightarrow> 's conv_state" where
  "conv_adds add ts st =
     (case adds add (conv_out st) ts of (s, rc) \<Rightarrow> st\<lparr>conv_out := s, conv_err := (conv_err st \<or> rc \<noteq> 0)\<rparr>)"

text \<open>The loop; \<open>acc\<close> is what has been read and not yet added.\<close>

fun qpe_loop :: "'s adder \<Rightarrow> 's conv_state \<Rightarrow> string \<Rightarrow> string \<Rightarrow> 's conv_state" where
  "qpe_loop add st acc [] = conv_adds add [acc] st"
| "qpe_loop add st acc (c # p) =
     (if c = nl then qpe_loop add ((conv_adds add [acc @ [c]] st)\<lparr>qpe_pos := 0\<rparr>) [] p
      else
        let (st, acc) = (if qpe_pos st \<ge> 72 then ((conv_adds add [acc, [CHR ''='', nl]] st)\<lparr>qpe_pos := 0\<rparr>, []) else (st, acc))
        in if schar c < 32 \<or> schar c \<ge> 127 \<or> c = CHR ''=''
           then let st = conv_adds add [acc, [CHR ''='', xdigit ! (code c div 16), xdigit ! (code c mod 16)]] st
                in qpe_loop add (st\<lparr>qpe_pos := qpe_pos st + 3\<rparr>) [] p
           else qpe_loop add (st\<lparr>qpe_pos := qpe_pos st + 1\<rparr>) (acc @ [c]) p)"

definition qpe_do :: "'s adder \<Rightarrow> 's conv_state callback" where
  "qpe_do add st p = (if conv_err st then (st, 0) else (qpe_loop add st [] p, 0))"

definition do_8bit :: "'s adder \<Rightarrow> 's conv_state callback" where
  "do_8bit add st p = (conv_adds add [p] st, 0)"

subsection \<open>Headers of the message\<close>

text \<open>What is left after the end of the line, and after the lines that continue it.\<close>

definition next_line :: "string \<Rightarrow> string" where
  "next_line s = drop 1 (dropWhile (\<lambda>c. c \<noteq> nl) s)"

lemma next_line_smaller: "s \<noteq> [] \<Longrightarrow> length (next_line s) < length s"
  using length_dropWhile_le [of "\<lambda>c. c \<noteq> nl" s] by (cases s) (auto simp: next_line_def less_Suc_eq_le le_diff_conv)

definition continued :: "string \<Rightarrow> bool" where
  "continued s \<longleftrightarrow> s \<noteq> [] \<and> hd s \<noteq> nl \<and> isspace (hd s)"

function skip_continued :: "string \<Rightarrow> string" where
  "skip_continued s = (if continued s then skip_continued (next_line (tl s)) else s)"
  by pat_completeness auto
termination
proof (relation "measure length")
  show "continued s \<Longrightarrow> (next_line (tl s), s) \<in> measure length" for s
    using length_dropWhile_le [of "\<lambda>c. c \<noteq> nl" "tl s"] by (cases s) (auto simp: continued_def next_line_def less_Suc_eq_le)
qed simp

declare skip_continued.simps [simp del]

text \<open>The lines of a header that is left out, read by \<^verbatim>\<open>fgets\<close>.\<close>

function skip_gets :: "string \<Rightarrow> string" where
  "skip_gets s =
     (if s = [] then []
      else
        let n = fgets_length bufsiz s
        in if nl \<in> set (cstr (take n s)) then drop n s else skip_gets (drop n s))"
  by pat_completeness auto
termination
  by (relation "measure length") (auto simp: bufsiz_def fgets_smaller simp del: length_drop)

declare skip_gets.simps [simp del]

lemma skip_gets_smaller: "s \<noteq> [] \<Longrightarrow> length (skip_gets s) < length s"
proof (induction s rule: skip_gets.induct)
  case (1 s)
  have l: "length (drop (fgets_length bufsiz s) s) < length s"
    using 1(2) fgets_smaller [of s bufsiz] by (simp add: bufsiz_def del: length_drop)
  have e: "skip_gets [] = []"
    by (subst skip_gets.simps) simp
  show ?case
    using 1 l e by (subst skip_gets.simps) (cases "drop (fgets_length bufsiz s) s = []"; force simp: Let_def simp del: length_drop)
qed

function skip_header :: "string \<Rightarrow> string" where
  "skip_header s = (if continued s then skip_header (skip_gets s) else s)"
  by pat_completeness auto
termination
  by (relation "measure length") (auto simp: continued_def skip_gets_smaller)

declare skip_header.simps [simp del]

text \<open>A header that is copied, from the part of it in the buffer on.\<close>

function copy_header :: "'s adder \<Rightarrow> 's \<Rightarrow> string \<Rightarrow> string \<Rightarrow> ('s \<times> string) \<times> int" where
  "copy_header add out buf s =
     (case add out buf of (out, rc) \<Rightarrow>
        if rc \<noteq> 0 then ((out, s), - 1)
        else if s \<noteq> [] \<and> (nl \<notin> set buf \<or> continued s)
        then copy_header add out (cstr (take (fgets_length bufsiz s) s)) (drop (fgets_length bufsiz s) s)
        else ((out, s), 0))"
  by pat_completeness auto
termination
  by (relation "measure (\<lambda>(add, out, buf, s). length s)") (auto simp: bufsiz_def fgets_smaller simp del: length_drop)

declare copy_header.simps [simp del]

lemma next_line_le: "length (next_line s) \<le> length s"
  using length_dropWhile_le [of "\<lambda>c. c \<noteq> nl" s] by (simp add: next_line_def)

lemma skip_continued_le: "length (skip_continued s) \<le> length s"
proof (induction s rule: skip_continued.induct)
  case (1 s)
  then show ?case
    using next_line_le [of "tl s"] by (subst skip_continued.simps) (cases s; force simp: continued_def)
qed

lemma skip_header_le: "length (skip_header s) \<le> length s"
proof (induction s rule: skip_header.induct)
  case (1 s)
  then show ?case
    using skip_gets_smaller [of s] by (subst skip_header.simps) (force simp: continued_def)
qed

lemma copy_header_le: "copy_header add out buf s = ((out', s'), rc) \<Longrightarrow> length s' \<le> length s"
proof (induction add out buf s rule: copy_header.induct)
  case (1 add out buf s)
  obtain o1 r1 where a: "add out buf = (o1, r1)" by fastforce
  show ?case
    using 1(1) [of o1 r1] 1(2) unfolding copy_header.simps [of add out buf s] a
    by (auto split: if_splits simp del: length_drop intro: le_trans [OF _ length_drop [THEN eq_refl [THEN le_trans [OF _ diff_le_self]]]])
qed

text \<open>
  The loop over the lines of the header. That of the version is replaced by the headers of MIME, with the result of
  \<open>rwmime\<close> ignored; the others of MIME are left out.
\<close>

definition mime_header :: "string \<Rightarrow> bool" where
  "mime_header buf \<longleftrightarrow> caseprefix ''mime-version:'' buf \<or> caseprefix ''content-type:'' buf \<or>
     caseprefix ''content-transfer-encoding:'' buf"

function rw_headers ::
    "'s adder \<Rightarrow> ('s \<times> nat \<Rightarrow> ('s \<times> nat) \<times> int) \<Rightarrow> bool \<Rightarrow> 's \<times> nat \<Rightarrow> bool \<Rightarrow> string \<Rightarrow> (('s \<times> nat) \<times> bool) \<times> int" where
  "rw_headers add mimes mime st seen s =
     (if s = [] \<or> hd s = nl then ((st, seen), 0)
      else
        let buf = cstr (take (fgets_length bufsiz s) s);
            rest = drop (fgets_length bufsiz s) s
        in if mime \<and> caseprefix ''mime-version:'' buf \<and> \<not> seen
           then rw_headers add mimes mime (fst (mimes st)) True
             (skip_continued (if nl \<notin> set buf then next_line rest else rest))
           else if \<not> mime \<or> \<not> mime_header buf
           then case copy_header add (fst st) buf rest of ((out, rest), rc) \<Rightarrow>
             if rc \<noteq> 0 then (((out, snd st), seen), - 1)
             else rw_headers add mimes mime (out, snd st) seen rest
           else rw_headers add mimes mime st seen (skip_header rest))"
  by pat_completeness auto
termination
proof (relation "measure (\<lambda>(add, mimes, mime, st, seen, s). length s)", goal_cases)
  case (2 add mimes mime st seen s buf rest)
  have "length rest < length s"
    using 2 fgets_smaller [of s bufsiz] by (simp add: bufsiz_def del: length_drop)
  then show ?case
    using skip_continued_le [of "if nl \<notin> set buf then next_line rest else rest"] next_line_le [of rest]
    by (simp split: if_splits del: length_drop)
next
  case (3 add mimes mime st seen s buf rest x rc st' rest')
  have "length rest < length s"
    using 3 fgets_smaller [of s bufsiz] by (simp add: bufsiz_def del: length_drop)
  with 3 show ?case
    using copy_header_le [of add "fst st" buf rest st' rest' rc] by (simp del: length_drop)
next
  case (4 add mimes mime st seen s buf rest)
  then show ?case
    using skip_header_le [of rest] fgets_smaller [of s bufsiz] by (simp add: bufsiz_def del: length_drop)
qed simp

declare rw_headers.simps [simp del]

subsection \<open>Bodies\<close>

function copy_section :: "'s adder \<Rightarrow> 's \<Rightarrow> string \<Rightarrow> nat \<Rightarrow> 's \<times> int" where
  "copy_section add out s n =
     (if n = 0 then (out, 0)
      else
        let buf = take (min bufsiz n) s
        in if buf = [] then (out, - 1)
           else check (add out buf) (\<lambda>out. copy_section add out (drop (length buf) s) (n - length buf)))"
  by pat_completeness auto
termination
  by (relation "measure (\<lambda>(add, out, s, n). n)") (auto simp: bufsiz_def)

declare copy_section.simps [simp del]

text \<open>The loop over a body; without a conversion there is no callback.\<close>

function body_loop :: "'s adder \<Rightarrow> 's conv_state callback option \<Rightarrow> 's conv_state rfc2045 \<Rightarrow> string \<Rightarrow> nat \<Rightarrow> 's conv_state rfc2045 \<times> int" where
  "body_loop add f p s n =
     (if n = 0 then (p, 0)
      else
        let buf = take (min bufsiz n) s
        in if buf = [] then (p, - 1)
           else
             let p = (case f of
                        None \<Rightarrow> p\<lparr>misc_decode_ptr := conv_adds add [buf] (misc_decode_ptr p)\<rparr>
                      | Some f \<Rightarrow> fst (rfc2045_cdecode f p buf))
             in if conv_err (misc_decode_ptr p) then (p, 0)
                else body_loop add f p (drop (length buf) s) (n - length buf))"
  by pat_completeness auto
termination
  by (relation "measure (\<lambda>(add, f, p, s, n). n)") (auto simp: bufsiz_def)

declare body_loop.simps [simp del]

definition conversion :: "'s adder \<Rightarrow> rw_info \<Rightarrow> 's conv_state callback option" where
  "conversion add p =
     map_option (\<lambda>te. if strcaseeq te ''quoted-printable'' then qpe_do add else do_8bit add) (rw_transfer_encoding p)"

definition rw_body :: "'s adder \<Rightarrow> string \<Rightarrow> rw_info \<Rightarrow> 's \<Rightarrow> 's \<times> int" where
  "rw_body add file p out =
     (let f = conversion add p
      in case body_loop add f
           (rfc2045_cdecode_start (content_transfer_encoding p) \<lparr>conv_out = out, conv_err = False, qpe_pos = 0\<rparr>)
           (drop (startbody p) file) (endbody p - startbody p) of
         (d, rc) \<Rightarrow>
           if rc \<noteq> 0 then (conv_out (misc_decode_ptr d), - 1)
           else
             let d = (case f of None \<Rightarrow> d | Some f \<Rightarrow> fst (rfc2045_cdecode_end f d))
             in (conv_out (misc_decode_ptr d), if conv_err (misc_decode_ptr d) then - 1 else 0))"

subsection \<open>The message\<close>

record rw_env =
  rw_file :: string
  rw_boundary_root :: string
  rw_appname :: "string option"

definition MIMEMSG :: string where
  "MIMEMSG = ''This is a MIME-formatted message.  If you see this text it means that your'' @ [nl] @
     ''E-mail software does not support MIME-formatted messages.'' @ [nl]"

text \<open>A section up to its body. \<open>ac_check\<close> gives every section with a new encoding an old one.\<close>

definition rw_head :: "'s adder \<Rightarrow> rw_env \<Rightarrow> bool \<Rightarrow> nat \<Rightarrow> rw_info \<Rightarrow> 's \<times> nat \<Rightarrow> ('s \<times> nat) \<times> int" where
  "rw_head add env child n p st =
     (let mimes = rwmime add (rw_boundary_root env) child n p;
          mime = ismime1def (mime_version p)
      in check (if child then mimes st else (st, 0)) (\<lambda>st.
         case rw_headers add mimes mime st child (drop (startpos p) (rw_file env)) of ((st, seen), rc) \<Rightarrow>
         check (st, rc) (\<lambda>st.
         check (if mime \<and> \<not> seen then mimes st else (st, 0)) (\<lambda>st.
         check (case rw_transfer_encoding p of
                  None \<Rightarrow> (st, 0)
                | Some te \<Rightarrow> if mime \<and> n = 0 then emit add (autoconverted (rw_appname env) (the (content_transfer_encoding p)) te) st
                    else (st, 0))
           (emit add [[nl]])))))"

definition boundary_text :: "rw_env \<Rightarrow> nat \<Rightarrow> string \<Rightarrow> string" where
  "boundary_text env n tail = nl # ''--'' @ rw_boundary_root env @ CHR ''-'' # dec n @ tail @ [nl]"

definition lift_cnt :: "nat \<Rightarrow> 's \<times> int \<Rightarrow> ('s \<times> nat) \<times> int" where
  "lift_cnt cnt x = ((fst x, cnt), snd x)"

text \<open>
  \<open>parent\<close> is the content type of the parent, \<open>next\<close> says whether another section of it follows.
\<close>

fun dorw :: "'s adder \<Rightarrow> rw_env \<Rightarrow> string option option \<Rightarrow> bool \<Rightarrow> rw_part \<Rightarrow> 's \<times> nat \<Rightarrow> ('s \<times> nat) \<times> int"
  and dorw_parts :: "'s adder \<Rightarrow> rw_env \<Rightarrow> string option \<Rightarrow> nat \<Rightarrow> rw_part list \<Rightarrow> 's \<times> nat \<Rightarrow> ('s \<times> nat) \<times> int" where
  "dorw add env parent next (Rw p ps) st =
     (if next \<and> (case parent of Some (Some t) \<Rightarrow> strcaseeq t ''multipart/signed'' | _ \<Rightarrow> False)
      then lift_cnt (snd st) (copy_section add (fst st) (drop (startpos p) (rw_file env)) (endbody p - startpos p))
      else check (rw_head add env (parent \<noteq> None) (length ps) p st) (\<lambda>st.
        case ps of
          [] \<Rightarrow> lift_cnt (snd st) (rw_body add (rw_file env) p (fst st))
        | [c] \<Rightarrow> dorw add env None False c st
        | _ \<Rightarrow> check (emit add [MIMEMSG] st) (dorw_parts add env (content_type p) (snd st) ps)))"
| "dorw_parts add env t n [] st = emit add [boundary_text env n ''--''] st"
| "dorw_parts add env t n (c # cs) st =
     (if isdummy (rinfo c) then dorw_parts add env t n cs st
      else check (emit add [boundary_text env n []] st) (\<lambda>st.
        check (dorw add env (Some t) (cs \<noteq> []) c st) (dorw_parts add env t n cs)))"

text \<open>The writer gets what is left in the buffer at the end; \<open>root\<close> is the result of \<open>rfc2045_mk_boundary\<close>.\<close>

definition rfc2045_rewrite_common :: "'a writer \<Rightarrow> string option \<Rightarrow> string \<Rightarrow> string option \<Rightarrow> rw_part \<Rightarrow> 'a \<Rightarrow> 'a \<times> int" where
  "rfc2045_rewrite_common w root file appname p arg =
     (case root of
        None \<Rightarrow> (arg, - 1)
      | Some root \<Rightarrow>
          (case dorw (fdout_add w) \<lparr>rw_file = file, rw_boundary_root = root, rw_appname = appname\<rparr> None False p
                  (fdout_start arg, 1) of
             ((out, cnt), rc) \<Rightarrow>
               if rc = 0 \<and> fdout_buf out \<noteq> [] then apfst fdout_arg (fdout_flush w out) else (fdout_arg out, rc)))"

text \<open>The whole call; the writer of \<open>rfc2045_rewrite\<close> is \<^verbatim>\<open>write\<close>. The counter is that of the names of boundaries.\<close>

definition rfc2045_rewrite_func ::
    "'a writer \<Rightarrow> string \<Rightarrow> 32 word \<Rightarrow> 64 word \<Rightarrow> string \<Rightarrow> string option \<Rightarrow> rw_part \<Rightarrow> 'a \<Rightarrow> 64 word \<Rightarrow>
      (('a \<times> int) \<times> 64 word) option" where
  "rfc2045_rewrite_func w host pid now file appname p arg cnt =
     (case rfc2045_mk_boundary host pid now file p cnt of
        None \<Rightarrow> None
      | Some (root, cnt) \<Rightarrow> Some (rfc2045_rewrite_common w root file appname p arg, cnt))"

end
