(* ===== verification/Rfc2045_Rewrite_Text.thy ===== *)
theory Rfc2045_Rewrite_Text
  imports Rfc2045_Rewrite
begin

text \<open>
  What a rewriting writes: it depends on the message alone, not on the pieces in which the buffer empties or the
  writer takes them (locales \<open>adder\<close>, \<open>writer\<close>); every body is in it, in order, and decodes as before.
\<close>

subsection \<open>Outputs that take everything\<close>

locale adder =
  fixes add :: "'s adder" and wf :: "'s \<Rightarrow> bool" and written :: "'s \<Rightarrow> string"
  assumes add_ok: "wf s \<Longrightarrow> snd (add s t) = 0 \<and> wf (fst (add s t)) \<and> written (fst (add s t)) = written s @ t"

text \<open>The plain text.\<close>

definition put :: "string adder" where
  "put s t = (s @ t, 0)"

interpretation put: adder put "\<lambda>s. True" "\<lambda>s. s"
  by unfold_locales (simp add: put_def)

text \<open>A writer that takes at least one character, and the buffer in front of it.\<close>

locale writer =
  fixes w :: "'a writer" and got :: "'a \<Rightarrow> string"
  assumes w_ok: "p \<noteq> [] \<Longrightarrow> 0 < snd (w a p) \<and> nat (snd (w a p)) \<le> length p \<and>
    got (fst (w a p)) = got a @ take (nat (snd (w a p))) p"
begin

lemma flush_loop_got: "snd (flush_loop w a p) = 0 \<and> got (fst (flush_loop w a p)) = got a @ p"
proof (induction "length p" arbitrary: a p rule: less_induct)
  case less
  show ?case
  proof (cases "p = []")
    case True
    then show ?thesis by (subst (1 2) flush_loop.simps) simp
  next
    case False
    obtain a' i where i: "w a p = (a', i)" by fastforce
    with w_ok [OF False, of a] have ok: "0 < i" "got a' = got a @ take (nat i) p" by simp_all
    then have step: "flush_loop w a p = flush_loop w a' (drop (nat i) p)"
      using False i by (subst flush_loop.simps) simp
    have "length (drop (nat i) p) < length p"
      using False ok(1) by simp
    from less.hyps [OF this, of a'] show ?thesis
      by (simp add: step ok(2))
  qed
qed

end

definition fdout_ok :: "'a fdout \<Rightarrow> bool" where
  "fdout_ok out \<longleftrightarrow> length (fdout_buf out) + fdout_left out = 512"

definition fdout_written :: "('a \<Rightarrow> string) \<Rightarrow> 'a fdout \<Rightarrow> string" where
  "fdout_written got out = got (fdout_arg out) @ fdout_buf out"

context writer
begin

lemma fdout_flush_got:
  "snd (fdout_flush w out) = 0 \<and> fdout_ok (fst (fdout_flush w out)) \<and> fdout_left (fst (fdout_flush w out)) = 512 \<and>
    fdout_written got (fst (fdout_flush w out)) = fdout_written got out"
  using flush_loop_got [of "fdout_arg out" "fdout_buf out"]
  by (auto simp: fdout_flush_def fdout_ok_def fdout_written_def split: prod.splits)

lemma fdout_add_got:
  "fdout_ok out \<Longrightarrow> snd (fdout_add w out p) = 0 \<and> fdout_ok (fst (fdout_add w out p)) \<and>
    fdout_written got (fst (fdout_add w out p)) = fdout_written got out @ p"
proof (induction "2 * length p + (if fdout_left out = 0 then 1 else 0 :: nat)" arbitrary: out p rule: less_induct)
  case less
  consider "p = []" | "p \<noteq> []" "length p < fdout_left out" | "p \<noteq> []" "fdout_left out = 0"
    | "p \<noteq> []" "0 < fdout_left out" "fdout_left out \<le> length p" by force
  then show ?case
  proof cases
    case 1
    then show ?thesis using less.prems by (subst (1 2 3) fdout_add.simps) simp
  next
    case 2
    then show ?thesis
      using less.prems by (subst (1 2 3) fdout_add.simps) (simp add: fdout_ok_def fdout_written_def)
  next
    case 3
    obtain out' where f: "fdout_flush w out = (out', 0)" "fdout_ok out'" "fdout_left out' = 512"
      "fdout_written got out' = fdout_written got out"
      using fdout_flush_got [of out] by (metis prod.collapse)
    have "fdout_add w out p = fdout_add w out' p"
      using 3 f(1) by (subst fdout_add.simps) simp
    with less.hyps [of p out'] 3 f show ?thesis by simp
  next
    case 4
    let ?out = "out\<lparr>fdout_buf := fdout_buf out @ take (fdout_left out) p, fdout_left := 0\<rparr>"
    have "fdout_add w out p = fdout_add w ?out (drop (fdout_left out) p)"
      using 4 by (subst fdout_add.simps) simp
    moreover have "fdout_ok ?out"
      using less.prems 4 by (simp add: fdout_ok_def)
    ultimately show ?thesis
      using less.hyps [of "drop (fdout_left out) p" ?out] 4 by (simp add: fdout_written_def)
  qed
qed

end

sublocale writer < fdout: adder "fdout_add w" fdout_ok "fdout_written got"
  by unfold_locales (rule fdout_add_got)

text \<open>\<^verbatim>\<open>write\<close> on a descriptor, when it takes at most \<open>k\<close> bytes at a time.\<close>

definition write_max :: "nat \<Rightarrow> string writer" where
  "write_max k a p = (a @ take (max 1 k) p, int (min (max 1 k) (length p)))"

interpretation write_max: writer "write_max k" "\<lambda>a. a" for k
  by unfold_locales (auto simp: write_max_def min_def max_def Suc_le_eq)

subsection \<open>The output is that of the plain text\<close>

context adder
begin

definition follows :: "('s \<times> 'n) \<times> int \<Rightarrow> (string \<times> 'n) \<times> int \<Rightarrow> bool" where
  "follows x y \<longleftrightarrow> wf (fst (fst x)) \<and> fst y = (written (fst (fst x)), snd (fst x)) \<and> snd x = snd y"

lemma adds_ok: "wf s \<Longrightarrow> snd (adds add s ts) = 0 \<and> wf (fst (adds add s ts)) \<and> written (fst (adds add s ts)) = written s @ concat ts"
proof (induction ts arbitrary: s)
  case (Cons t ts)
  obtain s' where "add s t = (s', 0)" "wf s'" "written s' = written s @ t"
    using add_ok [OF Cons.prems, of t] by (metis prod.collapse)
  with Cons.IH [of s'] show ?case by simp
qed simp

end

lemma adds_put: "adds put s ts = (s @ concat ts, 0)"
  by (induction ts arbitrary: s) (simp_all add: put_def)

lemma emit_put: "emit put ts (s, n) = ((s @ concat ts, n), 0)"
  by (simp add: emit_def adds_put)

lemma check_0 [simp]: "check (s, 0) f = f s"
  by (simp add: check_def)

context adder
begin

lemma check_follows:
  "follows x y \<Longrightarrow> (\<And>s n. wf s \<Longrightarrow> follows (f (s, n)) (g (written s, n))) \<Longrightarrow> follows (check x f) (check y g)"
  by (cases x; cases y; cases "fst x") (auto simp: follows_def check_def)

lemma follows_pair: "wf s \<Longrightarrow> follows ((s, n), rc) ((written s, n), rc)"
  by (simp add: follows_def)

lemma emit_follows: "wf s \<Longrightarrow> follows (emit add ts (s, n)) (emit put ts (written s, n))"
  using adds_ok [of s ts] by (simp add: emit_def adds_put follows_def split_beta)

lemma rwmime_follows: "wf s \<Longrightarrow> follows (rwmime add root child k p (s, n)) (rwmime put root child k p (written s, n))"
  unfolding rwmime_def by (rule check_follows) (auto intro: emit_follows)

lemma copy_header_follows: "wf out \<Longrightarrow> follows (copy_header add out buf s) (copy_header put (written out) buf s)"
proof (induction "length s" arbitrary: out buf s rule: less_induct)
  case less
  obtain out' where a: "add out buf = (out', 0)" "wf out'" "written out' = written out @ buf"
    using add_ok [OF less.prems, of buf] by (metis prod.collapse)
  let ?again = "s \<noteq> [] \<and> (nl \<notin> set buf \<or> continued s)"
  let ?n = "fgets_length bufsiz s"
  have e: "copy_header add out buf s =
      (if ?again then copy_header add out' (cstr (take ?n s)) (drop ?n s) else ((out', s), 0))"
    "copy_header put (written out) buf s =
      (if ?again then copy_header put (written out') (cstr (take ?n s)) (drop ?n s) else ((written out', s), 0))"
    by (subst copy_header.simps, simp add: a put_def)+
  show ?case
  proof (cases ?again)
    case True
    then have "length (drop ?n s) < length s"
      using fgets_smaller [of s bufsiz] by (simp add: bufsiz_def)
    from less.hyps [OF this a(2)] True show ?thesis unfolding e by simp
  next
    case False
    then show ?thesis using a(2) by (simp only: e if_False follows_pair)
  qed
qed

end

context adder
begin

lemma rw_headers_follows:
  assumes mimes: "\<And>s n. wf s \<Longrightarrow> follows (mimes (s, n)) (mimes' (written s, n))"
  shows "wf out \<Longrightarrow> \<exists>out' n' seen'. wf out' \<and>
    (\<exists>rc. rw_headers add mimes mime (out, n) seen s = (((out', n'), seen'), rc) \<and>
      rw_headers put mimes' mime (written out, n) seen s = (((written out', n'), seen'), rc))"
proof (induction "length s" arbitrary: out n seen s rule: less_induct)
  case less
  let ?buf = "cstr (take (fgets_length bufsiz s) s)" and ?rest = "drop (fgets_length bufsiz s) s"
  let ?step = "\<lambda>add mimes st. rw_headers add mimes mime st seen s"
  consider (blank) "s = [] \<or> hd s = nl"
    | (ver) "\<not> (s = [] \<or> hd s = nl)" "mime \<and> caseprefix ''mime-version:'' ?buf \<and> \<not> seen"
    | (copy) "\<not> (s = [] \<or> hd s = nl)" "\<not> (mime \<and> caseprefix ''mime-version:'' ?buf \<and> \<not> seen)" "\<not> mime \<or> \<not> mime_header ?buf"
    | (skip) "\<not> (s = [] \<or> hd s = nl)" "\<not> (mime \<and> caseprefix ''mime-version:'' ?buf \<and> \<not> seen)"
        "\<not> (\<not> mime \<or> \<not> mime_header ?buf)"
    by blast
  then show ?case
  proof cases
    case blank
    then show ?thesis
      using less.prems by (subst (1 2) rw_headers.simps) auto
  next
    case ver
    let ?r = "skip_continued (if nl \<notin> set ?buf then next_line ?rest else ?rest)"
    have "length ?rest < length s"
      using ver(1) fgets_smaller [of s bufsiz] by (simp add: bufsiz_def del: length_drop)
    then have r: "length ?r < length s"
      using skip_continued_le [of "if nl \<notin> set ?buf then next_line ?rest else ?rest"] next_line_le [of ?rest]
      by (simp split: if_splits del: length_drop)
    obtain o1 n1 rc1 where m: "mimes (out, n) = ((o1, n1), rc1)" "wf o1" "mimes' (written out, n) = ((written o1, n1), rc1)"
      using mimes [OF less.prems, of n] unfolding follows_def by (metis prod.collapse)
    have "rw_headers add mimes mime (out, n) seen s = rw_headers add mimes mime (o1, n1) True ?r"
      "rw_headers put mimes' mime (written out, n) seen s = rw_headers put mimes' mime (written o1, n1) True ?r"
      using ver by (subst rw_headers.simps, simp add: m Let_def)+
    with less.hyps [OF r m(2)] show ?thesis by (simp only:)
  next
    case copy
    obtain o1 r1 rc1 where c: "copy_header add out ?buf ?rest = ((o1, r1), rc1)" "wf o1"
      "copy_header put (written out) ?buf ?rest = ((written o1, r1), rc1)"
      using copy_header_follows [OF less.prems, of ?buf ?rest] unfolding follows_def by (metis prod.collapse)
    have r: "length r1 < length s"
      using copy_header_le [OF c(1)] copy(1) fgets_smaller [of s bufsiz] by (simp add: bufsiz_def del: length_drop)
    have "rw_headers add mimes mime (out, n) seen s =
        (if rc1 \<noteq> 0 then (((o1, n), seen), - 1) else rw_headers add mimes mime (o1, n) seen r1)"
      "rw_headers put mimes' mime (written out, n) seen s =
        (if rc1 \<noteq> 0 then (((written o1, n), seen), - 1) else rw_headers put mimes' mime (written o1, n) seen r1)"
      by (subst rw_headers.simps, simp only: copy(3) [THEN eqTrueI] copy(1,2) [THEN Eq_FalseI] Let_def if_True if_False c prod.case
          fst_conv snd_conv)+
    with less.hyps [OF r c(2)] c(2) show ?thesis by auto
  next
    case skip
    have r: "length (skip_header ?rest) < length s"
      using skip_header_le [of ?rest] skip(1) fgets_smaller [of s bufsiz] by (simp add: bufsiz_def del: length_drop)
    have "rw_headers add mimes mime (out, n) seen s = rw_headers add mimes mime (out, n) seen (skip_header ?rest)"
      "rw_headers put mimes' mime (written out, n) seen s = rw_headers put mimes' mime (written out, n) seen (skip_header ?rest)"
      by (subst rw_headers.simps, simp only: skip [THEN Eq_FalseI] Let_def if_True if_False)+
    with less.hyps [OF r less.prems] show ?thesis by (simp only:)
  qed
qed

lemma copy_section_follows: "wf out \<Longrightarrow> \<exists>out' rc. wf out' \<and> copy_section add out s n = (out', rc) \<and>
    copy_section put (written out) s n = (written out', rc)"
proof (induction n arbitrary: out s rule: less_induct)
  case (less n)
  let ?b = "take (min bufsiz n) s"
  obtain out' where a: "add out ?b = (out', 0)" "wf out'" "written out' = written out @ ?b"
    using add_ok [OF less.prems, of ?b] by (metis prod.collapse)
  have e: "copy_section add out s n = (if n = 0 then (out, 0) else if ?b = [] then (out, - 1)
      else copy_section add out' (drop (length ?b) s) (n - length ?b))"
    by (subst copy_section.simps) (simp only: Let_def a(1) check_0)
  have e': "copy_section put (written out) s n = (if n = 0 then (written out, 0) else if ?b = [] then (written out, - 1)
      else copy_section put (written out') (drop (length ?b) s) (n - length ?b))"
    by (subst copy_section.simps) (simp only: Let_def put_def a(3) check_0)
  have "n \<noteq> 0 \<Longrightarrow> ?b \<noteq> [] \<Longrightarrow> n - length ?b < n" by simp
  from less.IH [OF this a(2)] less.prems show ?case
    unfolding e e' by (cases "n = 0"; cases "?b = []") (simp_all only: if_True if_False, auto)
qed

end

subsection \<open>Conversions\<close>

definition conv_rel :: "('s \<Rightarrow> bool) \<Rightarrow> ('s \<Rightarrow> string) \<Rightarrow> 's conv_state \<Rightarrow> string conv_state \<Rightarrow> bool" where
  "conv_rel ok written c d \<longleftrightarrow> ok (conv_out c) \<and> written (conv_out c) = conv_out d \<and> \<not> conv_err c \<and> \<not> conv_err d \<and>
     qpe_pos c = qpe_pos d"

context adder
begin

abbreviation crel :: "'s conv_state \<Rightarrow> string conv_state \<Rightarrow> bool" where
  "crel \<equiv> conv_rel wf written"

lemma conv_adds_rel: "crel c d \<Longrightarrow> crel (conv_adds add ts c) (conv_adds put ts d)"
  using adds_ok [of "conv_out c" ts] by (simp add: conv_rel_def conv_adds_def adds_put split_beta)

lemma crel_pos: "crel c d \<Longrightarrow> crel (c\<lparr>qpe_pos := n\<rparr>) (d\<lparr>qpe_pos := n\<rparr>)" "crel c d \<Longrightarrow> qpe_pos c = qpe_pos d"
  by (simp_all add: conv_rel_def)

lemma qpe_loop_rel: "crel c d \<Longrightarrow> crel (qpe_loop add c acc p) (qpe_loop put d acc p)"
proof (induction p arbitrary: c d acc)
  case Nil
  then show ?case by (simp add: conv_adds_rel)
next
  case (Cons x p)
  note step = conv_adds_rel crel_pos(1) Cons.prems
  show ?case
    using Cons.IH step crel_pos(2) [OF Cons.prems] crel_pos(2) [OF step(1) [OF step(2) [OF step(1) [OF Cons.prems]]]]
      crel_pos(2) [OF step(1) [OF Cons.prems]]
    by (auto simp: Let_def)
qed

end

text \<open>A conversion next to that of the plain text; \<open>None\<close> is none.\<close>

lemma qpe_do_put: "adder add ok written \<Longrightarrow> callback_sim (qpe_do add) (qpe_do put) (conv_rel ok written)"
  using adder.qpe_loop_rel [of add ok written] by unfold_locales (auto simp: qpe_do_def conv_rel_def)

lemma do_8bit_put: "adder add ok written \<Longrightarrow> callback_sim (do_8bit add) (do_8bit put) (conv_rel ok written)"
  using adder.conv_adds_rel [of add ok written] by unfold_locales (auto simp: do_8bit_def)

definition sim_opt :: "'a callback option \<Rightarrow> 'b callback option \<Rightarrow> ('a \<Rightarrow> 'b \<Rightarrow> bool) \<Rightarrow> bool" where
  "sim_opt f g R \<longleftrightarrow> (case (f, g) of (None, None) \<Rightarrow> True | (Some f, Some g) \<Rightarrow> callback_sim f g R | _ \<Rightarrow> False)"

text \<open>One block, in the order the code looks at it.\<close>

definition body_block :: "'s adder \<Rightarrow> 's conv_state callback option \<Rightarrow> string \<Rightarrow> 's conv_state rfc2045 \<Rightarrow> 's conv_state rfc2045" where
  "body_block add f buf p =
     (case f of None \<Rightarrow> p\<lparr>misc_decode_ptr := conv_adds add [buf] (misc_decode_ptr p)\<rparr> | Some f \<Rightarrow> fst (rfc2045_cdecode f p buf))"

lemma body_loop_step:
  "body_loop add f p s n =
     (if n = 0 then (p, 0)
      else if take (min bufsiz n) s = [] then (p, - 1)
      else
        let p = body_block add f (take (min bufsiz n) s) p
        in if conv_err (misc_decode_ptr p) then (p, 0)
           else body_loop add f p (drop (min bufsiz n) s) (n - length (take (min bufsiz n) s)))"
  by (subst body_loop.simps) (simp add: Let_def body_block_def min_def split: option.split)

definition drel :: "('a \<Rightarrow> 'b \<Rightarrow> bool) \<Rightarrow> 'a rfc2045 \<Rightarrow> 'b rfc2045 \<Rightarrow> bool" where
  "drel R p q \<longleftrightarrow> cd_workbuf p = cd_workbuf q \<and> decode_func p = decode_func q \<and> R (misc_decode_ptr p) (misc_decode_ptr q)"

lemma sim_drel:
  assumes "callback_sim f g R" "drel R p q"
  shows "drel R (fst (rfc2045_cdecode f p s)) (fst (rfc2045_cdecode g q s))"
    "drel R (fst (rfc2045_cdecode_end f p)) (fst (rfc2045_cdecode_end g q))"
proof -
  note sim = callback_sim.cdecode_rel [OF assms(1)] callback_sim.cdecode_end_rel [OF assms(1)]
    callback_sim.rel_def [OF assms(1)] callback_sim.rel0_def [OF assms(1)]
  show "drel R (fst (rfc2045_cdecode f p s)) (fst (rfc2045_cdecode g q s))"
    "drel R (fst (rfc2045_cdecode_end f p)) (fst (rfc2045_cdecode_end g q))"
    using sim(1) [of p q s] sim(2) [of p q] assms(2) by (simp_all add: sim(3,4) drel_def)
qed

context adder
begin

lemma body_block_rel:
  assumes "sim_opt f g crel" "drel crel p q"
  shows "drel crel (body_block add f buf p) (body_block put g buf q)"
  using assms sim_drel(1) [of _ _ crel p q buf] conv_adds_rel
  by (auto simp: body_block_def sim_opt_def drel_def split: option.splits)

lemma body_loop_rel:
  assumes "sim_opt f g crel"
  shows "drel crel p q \<Longrightarrow> \<exists>p' q' rc. body_loop add f p s n = (p', rc) \<and> body_loop put g q s n = (q', rc) \<and> drel crel p' q'"
proof (induction n arbitrary: p q s rule: less_induct)
  case (less n)
  let ?b = "take (min bufsiz n) s"
  have r: "drel crel (body_block add f ?b p) (body_block put g ?b q)"
    by (rule body_block_rel [OF assms less.prems])
  then have e: "\<not> conv_err (misc_decode_ptr (body_block add f ?b p))" "\<not> conv_err (misc_decode_ptr (body_block put g ?b q))"
    by (simp_all add: drel_def conv_rel_def)
  have "n \<noteq> 0 \<Longrightarrow> ?b \<noteq> [] \<Longrightarrow> n - length ?b < n" by simp
  from less.IH [OF this r, of "drop (min bufsiz n) s"] show ?case
    unfolding body_loop_step [of add f p s n] body_loop_step [of put g q s n] Let_def
    using e less.prems by (cases "n = 0"; cases "?b = []") (simp_all only: if_True if_False, auto)
qed

lemma conversion_sim: "sim_opt (conversion add p) (conversion put p) crel"
  using qpe_do_put [OF adder_axioms] do_8bit_put [OF adder_axioms] by (auto simp: sim_opt_def conversion_def split: option.split)

lemma rw_body_follows:
  assumes "wf out"
  shows "\<exists>out' rc. wf out' \<and> rw_body add f p out = (out', rc) \<and> rw_body put f p (written out) = (written out', rc)"
proof -
  let ?te = "content_transfer_encoding p"
  let ?g = "conversion add p" and ?h = "conversion put p"
  have 0: "drel crel (rfc2045_cdecode_start ?te \<lparr>conv_out = out, conv_err = False, qpe_pos = 0\<rparr>)
      (rfc2045_cdecode_start ?te \<lparr>conv_out = written out, conv_err = False, qpe_pos = 0\<rparr>)"
    using assms by (simp add: drel_def conv_rel_def rfc2045_cdecode_start_def)
  obtain d d' rc where l: "body_loop add ?g (rfc2045_cdecode_start ?te \<lparr>conv_out = out, conv_err = False, qpe_pos = 0\<rparr>)
        (drop (startbody p) f) (endbody p - startbody p) = (d, rc)"
      "body_loop put ?h (rfc2045_cdecode_start ?te \<lparr>conv_out = written out, conv_err = False, qpe_pos = 0\<rparr>)
        (drop (startbody p) f) (endbody p - startbody p) = (d', rc)" "drel crel d d'"
    using body_loop_rel [OF conversion_sim [of p] 0] by blast
  let ?e = "case ?g of None \<Rightarrow> d | Some f \<Rightarrow> fst (rfc2045_cdecode_end f d)"
  let ?e' = "case ?h of None \<Rightarrow> d' | Some f \<Rightarrow> fst (rfc2045_cdecode_end f d')"
  have e: "drel crel ?e ?e'"
    using conversion_sim [of p] l(3) sim_drel(2) [of _ _ crel d d'] by (auto simp: sim_opt_def split: option.splits)
  have "rw_body add f p out = (if rc \<noteq> 0 then (conv_out (misc_decode_ptr d), - 1)
      else (conv_out (misc_decode_ptr ?e), if conv_err (misc_decode_ptr ?e) then - 1 else 0))"
    by (simp only: rw_body_def Let_def l(1) prod.case)
  moreover have "rw_body put f p (written out) = (if rc \<noteq> 0 then (conv_out (misc_decode_ptr d'), - 1)
      else (conv_out (misc_decode_ptr ?e'), if conv_err (misc_decode_ptr ?e') then - 1 else 0))"
    by (simp only: rw_body_def Let_def l(2) prod.case)
  ultimately show ?thesis
    using l(3) e by (cases "rc = 0") (auto simp: drel_def conv_rel_def)
qed

lemma rw_head_follows: "wf out \<Longrightarrow> follows (rw_head add env child k p (out, n)) (rw_head put env child k p (written out, n))"
proof -
  assume ok: "wf out"
  have h: "follows (case rw_headers add (rwmime add (rw_boundary_root env) child k p) mime (o1, n1) child t of
        ((st, seen), rc) \<Rightarrow> check (st, rc) (F seen))
      (case rw_headers put (rwmime put (rw_boundary_root env) child k p) mime (written o1, n1) child t of
        ((st, seen), rc) \<Rightarrow> check (st, rc) (G seen))"
    if "wf o1" "\<And>seen o2 n2. wf o2 \<Longrightarrow> follows (F seen (o2, n2)) (G seen (written o2, n2))" for o1 n1 t mime F G
    using rw_headers_follows [where mimes = "rwmime add (rw_boundary_root env) child k p"
        and mimes' = "rwmime put (rw_boundary_root env) child k p" and mime = mime and n = n1 and seen = child and s = t,
        OF _ that(1)] rwmime_follows
    by (auto intro!: check_follows that(2) follows_pair)
  show ?thesis
    unfolding rw_head_def Let_def
    by (rule check_follows; (rule h)?; (rule check_follows)?; (rule check_follows)?)
      (auto intro: rwmime_follows emit_follows follows_pair ok split: option.split)
qed

end

context adder
begin

lemma lift_cnt_follows:
  "\<exists>out' rc. wf out' \<and> x = (out', rc) \<and> y = (written out', rc) \<Longrightarrow> follows (lift_cnt n x) (lift_cnt n y)"
  by (auto simp: lift_cnt_def follows_def)

lemma dorw_parts_follows:
  assumes "\<And>c parent next out n. c \<in> set cs \<Longrightarrow> wf out \<Longrightarrow>
      follows (dorw add env parent next c (out, n)) (dorw put env parent next c (written out, n))"
  shows "wf out \<Longrightarrow> follows (dorw_parts add env t k cs (out, n)) (dorw_parts put env t k cs (written out, n))"
  using assms
proof (induction cs arbitrary: out n)
  case (Cons c cs)
  show ?case
    using Cons.IH Cons.prems by (auto intro!: check_follows emit_follows)
qed (simp add: emit_follows)

lemma dorw_follows: "wf out \<Longrightarrow> follows (dorw add env parent next q (out, n)) (dorw put env parent next q (written out, n))"
proof (induction q arbitrary: parent "next" out n)
  case (Rw p ps)
  let ?signed = "next \<and> (case parent of Some (Some t) \<Rightarrow> strcaseeq t ''multipart/signed'' | _ \<Rightarrow> False)"
  show ?case
  proof (cases ?signed)
    case True
    show ?thesis
      unfolding dorw.simps if_P [OF True] fst_conv snd_conv by (intro lift_cnt_follows copy_section_follows Rw.prems)
  next
    case False
    have "follows (case ps of [] \<Rightarrow> lift_cnt n1 (rw_body add (rw_file env) p o1) | [c] \<Rightarrow> dorw add env None False c (o1, n1)
          | _ \<Rightarrow> check (emit add [MIMEMSG] (o1, n1)) (dorw_parts add env (content_type p) n1 ps))
        (case ps of [] \<Rightarrow> lift_cnt n1 (rw_body put (rw_file env) p (written o1)) | [c] \<Rightarrow> dorw put env None False c (written o1, n1)
          | _ \<Rightarrow> check (emit put [MIMEMSG] (written o1, n1)) (dorw_parts put env (content_type p) n1 ps))" if "wf o1" for o1 n1
      using that Rw.IH lift_cnt_follows [OF rw_body_follows [OF that]] dorw_parts_follows [of ps env _ "content_type p" n1]
      by (auto split: list.split intro!: check_follows emit_follows)
    then show ?thesis
      unfolding dorw.simps if_not_P [OF False]
      by (intro check_follows rw_head_follows Rw.prems) (simp only: fst_conv snd_conv)
  qed
qed

end

text \<open>The whole rewriting, for a writer that takes everything in the end.\<close>

context writer
begin

lemma rewrite_common_text:
  "dorw put \<lparr>rw_file = f, rw_boundary_root = root, rw_appname = app\<rparr> None False q (got arg, 1) = ((text, n), rc) \<Longrightarrow>
    \<exists>arg'. rfc2045_rewrite_common w (Some root) f app q arg = (arg', rc) \<and> (rc = 0 \<longrightarrow> got arg' = text)"
proof -
  let ?env = "\<lparr>rw_file = f, rw_boundary_root = root, rw_appname = app\<rparr>"
  assume t: "dorw put ?env None False q (got arg, 1) = ((text, n), rc)"
  have s: "fdout_ok (fdout_start arg)" "fdout_written got (fdout_start arg) = got arg"
    by (simp_all add: fdout_ok_def fdout_start_def fdout_written_def)
  obtain out where d: "dorw (fdout_add w) ?env None False q (fdout_start arg, 1) = ((out, n), rc)" "fdout_written got out = text"
    using fdout.dorw_follows [OF s(1), of ?env None False q 1] unfolding fdout.follows_def s(2) t
    by (metis fst_conv prod.collapse snd_conv prod.inject)
  obtain out' where fl: "fdout_flush w out = (out', 0)" "fdout_written got out' = text" "fdout_buf out' = []"
    using fdout_flush_got [of out] d(2) by (cases "fdout_flush w out") (auto simp: fdout_ok_def)
  show ?thesis
    unfolding rfc2045_rewrite_common_def option.case d(1) prod.case fl(1)
    using d(2) fl(2,3) by (auto simp: fdout_written_def)
qed

end

subsection \<open>The plain text of a section\<close>

text \<open>The encoding, which breaks a line one character earlier than the encoder of \<^verbatim>\<open>rfc2045encode.c\<close>.\<close>

definition qpe_piece :: "nat \<Rightarrow> char \<Rightarrow> string" where
  "qpe_piece col c =
     (if c \<noteq> nl \<and> 72 \<le> col then [CHR ''='', nl] else []) @ (if c = nl then [nl] else if qp_special c then qp_escape c else [c])"

definition qpe_next :: "nat \<Rightarrow> char \<Rightarrow> nat" where
  "qpe_next col c =
     (if c = nl then 0 else (if 72 \<le> col then 0 else col) + (if qp_special c then 3 else 1))"

fun qpe_text :: "nat \<Rightarrow> string \<Rightarrow> string" where
  "qpe_text col [] = []"
| "qpe_text col (c # p) = qpe_piece col c @ qpe_text (qpe_next col c) p"

definition qpe_col :: "nat \<Rightarrow> string \<Rightarrow> nat" where
  "qpe_col col p = foldl qpe_next col p"

lemma qpe_col_simps [simp]: "qpe_col col [] = col" "qpe_col col (c # p) = qpe_col (qpe_next col c) p"
  by (simp_all add: qpe_col_def)

lemma qpe_text_append:
  "qpe_text col (p @ q) = qpe_text col p @ qpe_text (qpe_col col p) q" "qpe_col col (p @ q) = qpe_col (qpe_col col p) q"
  by (induction p arbitrary: col) simp_all

definition conv_has :: "string \<Rightarrow> nat \<Rightarrow> string conv_state \<Rightarrow> bool" where
  "conv_has out n c \<longleftrightarrow> c = \<lparr>conv_out = out, conv_err = False, qpe_pos = n\<rparr>"

lemma conv_adds_put: "conv_has out n c \<Longrightarrow> conv_has (out @ concat ts) n (conv_adds put ts c)"
  by (simp add: conv_has_def conv_adds_def adds_put)

lemma conv_has_pos: "conv_has out n c \<Longrightarrow> conv_has out m (c\<lparr>qpe_pos := m\<rparr>)" "conv_has out n c \<Longrightarrow> qpe_pos c = n"
  by (simp_all add: conv_has_def)

lemma qpe_loop_step:
  assumes "x \<noteq> nl"
    and "(if qpe_pos c \<ge> 72 then ((conv_adds add [acc, [CHR ''='', nl]] c)\<lparr>qpe_pos := 0\<rparr>, []) else (c, acc)) = (c1, acc1)"
    and "c2 = conv_adds add [acc1, [CHR ''='', xdigit ! (code x div 16), xdigit ! (code x mod 16)]] c1"
  shows "qpe_loop add c acc (x # p) =
      (if schar x < 32 \<or> schar x \<ge> 127 \<or> x = CHR ''='' then qpe_loop add (c2\<lparr>qpe_pos := qpe_pos c2 + 3\<rparr>) [] p
       else qpe_loop add (c1\<lparr>qpe_pos := qpe_pos c1 + 1\<rparr>) (acc1 @ [x]) p)"
  using assms(1) by (simp only: qpe_loop.simps assms(2,3) if_False prod.case Let_def)

lemma qpe_loop_put:
  "conv_has out n c \<Longrightarrow> conv_has (out @ acc @ qpe_text n p) (qpe_col n p) (qpe_loop put c acc p)"
proof (induction p arbitrary: out n c acc)
  case Nil
  then show ?case using conv_adds_put [OF Nil, of "[acc]"] by simp
next
  case (Cons x p)
  let ?special = "schar x < 32 \<or> schar x \<ge> 127 \<or> x = CHR ''=''"
  have sp: "?special \<longleftrightarrow> qp_special x" by (auto simp: qp_special_def)
  show ?case
  proof (cases "x = nl")
    case True
    show ?thesis
      using Cons.IH [OF conv_has_pos(1) [OF conv_adds_put [OF Cons.prems, of "[acc @ [x]]"], of 0], of "[]"] True
      by (simp add: qpe_piece_def qpe_next_def)
  next
    case False
    define c1 acc1 n1 out1 where 1: "c1 = (if n \<ge> 72 then (conv_adds put [acc, [CHR ''='', nl]] c)\<lparr>qpe_pos := 0\<rparr> else c)"
      "acc1 = (if n \<ge> 72 then [] else acc)" "n1 = (if n \<ge> 72 then 0 else n)"
      "out1 = (if n \<ge> 72 then out @ acc @ [CHR ''='', nl] else out)"
    have h: "conv_has out1 n1 c1"
      using conv_has_pos(1) [OF conv_adds_put [OF Cons.prems, of "[acc, [CHR ''='', nl]]"], of 0] Cons.prems by (simp add: 1)
    let ?esc = "[acc1, [CHR ''='', xdigit ! (code x div 16), xdigit ! (code x mod 16)]]"
    have e: "qpe_loop put c acc (x # p) =
        (if ?special then qpe_loop put ((conv_adds put ?esc c1)\<lparr>qpe_pos := n1 + 3\<rparr>) [] p
         else qpe_loop put (c1\<lparr>qpe_pos := n1 + 1\<rparr>) (acc1 @ [x]) p)"
      using qpe_loop_step [OF False _ refl, of c put acc c1 acc1 p] conv_has_pos(2) [OF Cons.prems] conv_has_pos(2) [OF h]
        conv_has_pos(2) [OF conv_adds_put [OF h, of ?esc]] by (simp only: 1(1,2) if_True if_False split: if_split) simp
    have t: "out @ acc @ qpe_text n (x # p) = out1 @ acc1 @ (if qp_special x then qp_escape x else [x]) @ qpe_text (qpe_next n x) p"
      "qpe_next n x = n1 + (if qp_special x then 3 else 1)"
      using False by (simp_all add: 1 qpe_piece_def qpe_next_def)
    show ?thesis
      using Cons.IH [OF conv_has_pos(1) [OF conv_adds_put [OF h, of ?esc], of "n1 + 3"], of "[]"]
        Cons.IH [OF conv_has_pos(1) [OF h, of "n1 + 1"], of "acc1 @ [x]"]
      unfolding e t(1) sp qpe_col_simps t(2) by (cases "qp_special x") (simp_all add: qp_escape_def)
  qed
qed

lemma qpe_decode: "qp_text (qpe_text col s) = s"
proof (induction s arbitrary: col)
  case (Cons c s)
  have soft: "qp_text (CHR ''='' # nl # r) = qp_text r" for r
    using qp_text_line [of "''=''" r] by (simp add: isspace_def)
  have line: "qp_text (nl # r) = nl # qp_text r" for r
    using qp_text_line [of "[]" r] by simp
  have esc: "qp_text (qp_escape c @ r) = c # qp_text r" for r
    using qp_text_piece [of "qp_escape c" "[c]" r] qp_escape_nonl(1) qp_escape_decode by simp
  have plain: "\<not> qp_special c \<Longrightarrow> c \<noteq> nl \<Longrightarrow> qp_text (c # r) = c # qp_text r" for r
    using qp_text_piece [of "[c]" "[c]" r] by (simp add: qp_special_def)
  show ?case
    using Cons by (simp add: qpe_piece_def soft line esc plain)
qed (simp add: qp_text_def)

lemma qpe_chars: "list_all (\<lambda>c. c = nl \<or> 32 \<le> code c \<and> code c < 127) (qpe_text col s)"
proof (induction s arbitrary: col)
  case (Cons c s)
  have "list_all (\<lambda>c. c = nl \<or> 32 \<le> code c \<and> code c < 127) (qpe_piece col c)"
    using qp_escape_nonl(3) [of c] qp_plain [of c] by (auto simp: qpe_piece_def list_all_iff)
  with Cons show ?case by simp
qed simp

lemma qpe_lines:
  "col \<le> 74 \<Longrightarrow> col + length (hd (split_nl (qpe_text col s))) \<le> 75 \<and>
    list_all (\<lambda>l. length l \<le> 76) (tl (split_nl (qpe_text col s)))"
proof (induction s arbitrary: col)
  case (Cons c s)
  have next74: "qpe_next col c \<le> 74"
    using Cons.prems by (auto simp: qpe_next_def)
  note IH = Cons.IH [OF next74]
  have piece: "split_nl (qp_escape c @ r) = (qp_escape c @ hd (split_nl r)) # tl (split_nl r)" for r
    by (rule split_nl_nonl) (rule qp_escape_nonl)
  show ?case
    using IH Cons.prems piece qp_escape_nonl(2) [of c]
    by (cases "split_nl (qpe_text (qpe_next col c) s)") (auto simp: qpe_piece_def qpe_next_def split: if_splits)
qed simp

lemma qpe_safe: "mail_safe (qpe_text 0 s)"
  using qpe_lines [of 0 s] qpe_chars [of 0 s]
  by (cases "split_nl (qpe_text 0 s)") (auto simp: mail_safe_def)

subsection \<open>Bodies\<close>

definition body_slice :: "string \<Rightarrow> rw_info \<Rightarrow> string" where
  "body_slice f p = take (endbody p - startbody p) (drop (startbody p) f)"

text \<open>The body that is written.\<close>

definition new_body :: "string \<Rightarrow> rw_info \<Rightarrow> string" where
  "new_body f p =
     (case rw_transfer_encoding p of
        None \<Rightarrow> body_slice f p
      | Some te \<Rightarrow> if strcaseeq te ''quoted-printable'' then qpe_text 0 (body_content bufsiz f p) else body_content bufsiz f p)"

lemma body_loop_put:
  assumes "\<And>buf p q. drel R p q \<Longrightarrow> drel R (body_block put f buf p) (g buf q)" "\<And>c x. R c x \<Longrightarrow> \<not> conv_err c"
  shows "drel R p q \<Longrightarrow> n \<le> length s \<Longrightarrow>
    body_loop put f p s n = (fold (body_block put f) (blocks bufsiz n s) p, 0)"
proof (induction n arbitrary: p q s rule: less_induct)
  case (less n)
  let ?b = "take (min bufsiz n) s"
  show ?case
  proof (cases "n = 0")
    case True
    then show ?thesis
      using blocks.simps [of bufsiz n s] body_loop_step [of put f p s n] by simp
  next
    case False
    then have b: "?b \<noteq> []" "n - length ?b < n"
      using less.prems(2) by (auto simp: bufsiz_def)
    have r: "drel R (body_block put f ?b p) (g ?b q)"
      by (rule assms(1) [OF less.prems(1)])
    then have "\<not> conv_err (misc_decode_ptr (body_block put f ?b p))"
      using assms(2) by (auto simp: drel_def)
    then have "body_loop put f p s n = body_loop put f (body_block put f ?b p) (drop (min bufsiz n) s) (n - length ?b)"
      using False b(1) unfolding body_loop_step [of put f p s n] Let_def by (simp only: if_False)
    also have "\<dots> = (fold (body_block put f) (blocks bufsiz (n - length ?b) (drop (min bufsiz n) s)) (body_block put f ?b p), 0)"
      by (rule less.IH [OF b(2) r]) (use less.prems(2) in \<open>auto simp: min_def\<close>)
    also have "blocks bufsiz n s = ?b # blocks bufsiz (n - length ?b) (drop (min bufsiz n) s)"
      using blocks.simps [of bufsiz n s] b(1) less.prems(2) unfolding Let_def by (simp add: min_def split: if_splits)
    ultimately show ?thesis by simp
  qed
qed

lemma rw_body_put:
  assumes "endbody p - startbody p \<le> length f - startbody p"
  shows "rw_body put f p out = (out @ new_body f p, 0)"
proof -
  let ?te = "content_transfer_encoding p"
  let ?c = "\<lparr>conv_out = out, conv_err = False, qpe_pos = 0\<rparr>"
  let ?bs = "blocks bufsiz (endbody p - startbody p) (drop (startbody p) f)"
  have len: "endbody p - startbody p \<le> length (drop (startbody p) f)" using assms by simp
  have converted: ?thesis if F: "conversion put p = Some F" "callback_sim F save_str (\<lambda>c x. conv_has (out @ T x) (N x) c)"
      "T [] = []" "N [] = 0" "new_body f p = T (body_content bufsiz f p)" for F and T :: "string \<Rightarrow> string" and N :: "string \<Rightarrow> nat"
  proof -
    let ?R = "\<lambda>c x. conv_has (out @ T x) (N x) c"
    have "drel ?R (rfc2045_cdecode_start ?te ?c) (rfc2045_cdecode_start ?te [])"
      using F(3,4) by (simp add: drel_def conv_has_def rfc2045_cdecode_start_def)
    then have "body_loop put (Some F) (rfc2045_cdecode_start ?te ?c) (drop (startbody p) f) (endbody p - startbody p) =
        (fold (body_block put (Some F)) ?bs (rfc2045_cdecode_start ?te ?c), 0)"
      using sim_drel(1) [OF F(2)] len
      by (intro body_loop_put [where R = ?R and g = saving_step]) (auto simp: body_block_def conv_has_def)
    moreover have "conv_has (out @ T (decoded ?te ?bs)) (N (decoded ?te ?bs)) (misc_decode_ptr (fst (rfc2045_cdecode_end F
        (fold (\<lambda>s p. fst (rfc2045_cdecode F p s)) ?bs (rfc2045_cdecode_start ?te ?c)))))"
      by (rule decoded_callback [OF F(2)]) (simp add: F(3,4) conv_has_def)
    moreover have "body_block put (Some F) = (\<lambda>s p. fst (rfc2045_cdecode F p s))"
      by (simp add: body_block_def fun_eq_iff)
    ultimately show ?thesis
      unfolding rw_body_def F(1,5) by (simp add: conv_has_def body_content_def)
  qed
  consider (none) "rw_transfer_encoding p = None"
    | (qp) te where "rw_transfer_encoding p = Some te" "strcaseeq te ''quoted-printable''"
    | (raw) te where "rw_transfer_encoding p = Some te" "\<not> strcaseeq te ''quoted-printable''"
    by (cases "rw_transfer_encoding p") auto
  then show ?thesis
  proof cases
    case none
    let ?R = "\<lambda>c x. conv_has (out @ x) 0 c"
    let ?g = "\<lambda>buf. misc_decode_ptr_update (\<lambda>x. x @ buf)"
    have g: "drel ?R (body_block put None buf p) (?g buf q)" if "drel ?R p q" for buf p q
      using that conv_adds_put [of "out @ misc_decode_ptr q" 0 "misc_decode_ptr p" "[buf]"] by (simp add: drel_def body_block_def)
    have r: "drel ?R (rfc2045_cdecode_start ?te ?c) (rfc2045_cdecode_start ?te [])"
      by (simp add: drel_def conv_has_def rfc2045_cdecode_start_def)
    have l: "body_loop put None (rfc2045_cdecode_start ?te ?c) (drop (startbody p) f) (endbody p - startbody p) =
        (fold (body_block put None) ?bs (rfc2045_cdecode_start ?te ?c), 0)"
      using body_loop_put [where R = ?R and g = ?g, OF g _ r len] by (simp add: conv_has_def)
    have "drel ?R p q \<Longrightarrow> conv_has (out @ misc_decode_ptr q @ concat bs) 0 (misc_decode_ptr (fold (body_block put None) bs p))" for bs p q
    proof (induction bs arbitrary: p q)
      case (Cons b bs)
      from Cons.IH [OF g [OF Cons.prems, of b]] show ?case by simp
    qed (simp add: drel_def)
    from this [OF r, of ?bs] have "conv_has (out @ body_slice f p) 0 (misc_decode_ptr (fold (body_block put None) ?bs (rfc2045_cdecode_start ?te ?c)))"
      by (simp add: concat_blocks bufsiz_def body_slice_def rfc2045_cdecode_start_def)
    with l show ?thesis
      unfolding rw_body_def conversion_def none new_body_def by (simp add: conv_has_def)
  next
    case qp
    have "callback_sim (qpe_do put) save_str (\<lambda>c x. conv_has (out @ qpe_text 0 x) (qpe_col 0 x) c)"
      using qpe_loop_put [of _ _ _ "[]"] by unfold_locales (auto simp: qpe_do_def save_str_def qpe_text_append conv_has_def)
    with qp show ?thesis
      by (intro converted [of "qpe_do put" "qpe_text 0" "qpe_col 0"]) (simp_all add: conversion_def new_body_def)
  next
    case raw
    have "callback_sim (do_8bit put) save_str (\<lambda>c x. conv_has (out @ x) 0 c)"
    proof (unfold_locales, goal_cases)
      case (1 a b s)
      then show ?case using conv_adds_put [of "out @ b" 0 a "[s]"] by (simp add: do_8bit_def save_str_def)
    qed (simp add: do_8bit_def save_str_def)
    with raw show ?thesis
      by (intro converted [of "do_8bit put" "\<lambda>x. x" "\<lambda>x. 0"]) (simp_all add: conversion_def new_body_def)
  qed
qed

subsection \<open>All the bodies\<close>

text \<open>The plain output only grows and never fails.\<close>

definition grows :: "string \<Rightarrow> (string \<times> 'n) \<times> int \<Rightarrow> bool" where
  "grows out x \<longleftrightarrow> (\<exists>t n. x = ((out @ t, n), 0))"

lemma grows_trans: "grows out x \<Longrightarrow> (\<And>t n. grows (out @ t) (f (out @ t, n))) \<Longrightarrow> grows out (check x f)"
  by (auto simp: grows_def) (metis append.assoc)

lemma grows_emit: "grows out (emit put ts (out, n))"
  by (simp add: grows_def emit_put)

lemma grows_refl: "grows out ((out, n), 0)"
  by (simp add: grows_def)

lemma grows_rwmime: "grows out (rwmime put root child k p (out, n))"
  unfolding rwmime_def by (rule grows_trans) (auto intro: grows_emit)

lemma grows_copy_header: "grows out (copy_header put out buf s)"
proof (induction "length s" arbitrary: out buf s rule: less_induct)
  case less
  let ?n = "fgets_length bufsiz s" and ?again = "s \<noteq> [] \<and> (nl \<notin> set buf \<or> continued s)"
  have e: "copy_header put out buf s =
      (if ?again then copy_header put (out @ buf) (cstr (take ?n s)) (drop ?n s) else ((out @ buf, s), 0))"
    by (subst copy_header.simps) (simp add: put_def)
  show ?case
  proof (cases ?again)
    case True
    then have "length (drop ?n s) < length s"
      using fgets_smaller [of s bufsiz] by (simp add: bufsiz_def)
    from less.hyps [OF this, of "out @ buf" "cstr (take ?n s)"] show ?thesis
      unfolding e if_P [OF True] by (auto simp: grows_def)
  next
    case False
    then show ?thesis unfolding e if_not_P [OF False] by (auto simp: grows_def)
  qed
qed

lemma grows_rw_headers:
  assumes mimes: "\<And>out n. grows out (mimes (out, n))"
  shows "\<exists>t n' seen'. rw_headers put mimes mime (out, n) seen s = (((out @ t, n'), seen'), 0)"
proof (induction "length s" arbitrary: out n seen s rule: less_induct)
  case less
  let ?buf = "cstr (take (fgets_length bufsiz s) s)" and ?rest = "drop (fgets_length bufsiz s) s"
  let ?stop = "s = [] \<or> hd s = nl" and ?ver = "mime \<and> caseprefix ''mime-version:'' ?buf \<and> \<not> seen"
  let ?copy = "\<not> mime \<or> \<not> mime_header ?buf"
  let ?r = "skip_continued (if nl \<notin> set ?buf then next_line ?rest else ?rest)"
  obtain t1 n1 where m: "mimes (out, n) = ((out @ t1, n1), 0)"
    using mimes [of out n] by (auto simp: grows_def)
  obtain t2 r2 where c: "copy_header put out ?buf ?rest = ((out @ t2, r2), 0)"
    using grows_copy_header [of out ?buf ?rest] by (auto simp: grows_def)
  have e: "rw_headers put mimes mime (out, n) seen s =
      (if ?stop then (((out, n), seen), 0)
       else if ?ver then rw_headers put mimes mime (out @ t1, n1) True ?r
       else if ?copy then rw_headers put mimes mime (out @ t2, n) seen r2
       else rw_headers put mimes mime (out, n) seen (skip_header ?rest))"
    by (subst rw_headers.simps) (simp only: Let_def m c prod.case fst_conv snd_conv not_True_eq_False if_False simp_thms)
  have rest: "\<not> ?stop \<Longrightarrow> length ?rest < length s"
    using fgets_smaller [of s bufsiz] by (simp add: bufsiz_def del: length_drop)
  have "length (skip_header ?rest) \<le> length ?rest" "length r2 \<le> length ?rest" "length ?r \<le> length ?rest"
    using skip_header_le [of ?rest] copy_header_le [OF c] skip_continued_le [of "if nl \<notin> set ?buf then next_line ?rest else ?rest"]
      next_line_le [of ?rest] by (auto split: if_splits simp del: length_drop)
  with rest have smaller: "\<not> ?stop \<Longrightarrow> length (skip_header ?rest) < length s" "\<not> ?stop \<Longrightarrow> length r2 < length s"
    "\<not> ?stop \<Longrightarrow> length ?r < length s" by linarith+
  consider ?stop | "\<not> ?stop" ?ver | "\<not> ?stop" "\<not> ?ver" ?copy | "\<not> ?stop" "\<not> ?ver" "\<not> ?copy" by blast
  then show ?case
  proof cases
    case 1
    show ?thesis unfolding e if_P [OF 1] by auto
  next
    case 2
    from less.hyps [OF smaller(3) [OF 2(1)], of "out @ t1" n1 True] show ?thesis
      unfolding e if_not_P [OF 2(1)] if_P [OF 2(2)] by auto
  next
    case 3
    from less.hyps [OF smaller(2) [OF 3(1)], of "out @ t2" n seen] show ?thesis
      unfolding e if_not_P [OF 3(1)] if_not_P [OF 3(2)] if_P [OF 3(3)] by auto
  next
    case 4
    from less.hyps [OF smaller(1) [OF 4(1)], of out n seen] show ?thesis
      unfolding e if_not_P [OF 4(1)] if_not_P [OF 4(2)] if_not_P [OF 4(3)] .
  qed
qed

lemma grows_rw_head: "grows out (rw_head put env child k p (out, n))"
proof -
  have h: "grows out (case rw_headers put (rwmime put (rw_boundary_root env) child k p) mime (out, n) child t of
      ((st, seen), rc) \<Rightarrow> check (st, rc) (F seen))"
    if "\<And>seen out n. grows out (F seen (out, n))" for out n t mime and F :: "bool \<Rightarrow> string \<times> nat \<Rightarrow> (string \<times> nat) \<times> int"
    using grows_rw_headers [where mimes = "rwmime put (rw_boundary_root env) child k p" and mime = mime and out = out and n = n
        and seen = child and s = t, OF grows_rwmime] that
    by (auto simp: grows_def) (metis append.assoc)
  show ?thesis
    unfolding rw_head_def Let_def
    by (rule grows_trans; (rule h)?; (rule grows_trans)?; (rule grows_trans)?)
      (auto intro: grows_rwmime grows_emit grows_refl split: option.split)
qed

text \<open>The sections whose bodies are written, and whether they are copied with their headers, for a signature.\<close>

fun rw_leaves :: "string option option \<Rightarrow> bool \<Rightarrow> rw_part \<Rightarrow> (bool \<times> rw_info) list"
  and rw_leaves_list :: "string option \<Rightarrow> rw_part list \<Rightarrow> (bool \<times> rw_info) list" where
  "rw_leaves parent next (Rw p ps) =
     (if next \<and> (case parent of Some (Some t) \<Rightarrow> strcaseeq t ''multipart/signed'' | _ \<Rightarrow> False) then [(True, p)]
      else case ps of [] \<Rightarrow> [(False, p)] | [c] \<Rightarrow> rw_leaves None False c | _ \<Rightarrow> rw_leaves_list (content_type p) ps)"
| "rw_leaves_list t [] = []"
| "rw_leaves_list t (c # cs) =
     (if isdummy (rinfo c) then [] else rw_leaves (Some t) (cs \<noteq> []) c) @ rw_leaves_list t cs"

definition leaf_text :: "string \<Rightarrow> bool \<times> rw_info \<Rightarrow> string" where
  "leaf_text f = (\<lambda>(signed, p). if signed then take (endbody p - startpos p) (drop (startpos p) f) else new_body f p)"

text \<open>Texts that are in another one, in this order and apart.\<close>

fun in_order :: "string list \<Rightarrow> string \<Rightarrow> bool" where
  "in_order [] t \<longleftrightarrow> True"
| "in_order (b # bs) t \<longleftrightarrow> (\<exists>h r. t = h @ b @ r \<and> in_order bs r)"

lemma in_order_prefix: "in_order bs t \<Longrightarrow> in_order bs (h @ t)"
  by (cases bs) (simp, metis append.assoc in_order.simps(2))

lemma in_order_suffix: "in_order bs t \<Longrightarrow> in_order bs (t @ r)"
proof (induction bs arbitrary: t)
  case (Cons b bs)
  then obtain h u where "t @ r = h @ b @ u @ r" "in_order bs u" by auto
  with Cons.IH [of u] show ?case unfolding in_order.simps by blast
qed simp

lemma in_order_append: "in_order bs t \<Longrightarrow> in_order cs u \<Longrightarrow> in_order (bs @ cs) (t @ u)"
proof (induction bs arbitrary: t)
  case Nil
  then show ?case by (simp add: in_order_prefix)
next
  case (Cons b bs)
  then show ?case by fastforce
qed

definition writes :: "string list \<Rightarrow> string \<Rightarrow> (string \<times> nat) \<times> int \<Rightarrow> bool" where
  "writes bs out x \<longleftrightarrow> (\<exists>t n. x = ((out @ t, n), 0) \<and> in_order bs t)"

lemma writes_after: "grows out x \<Longrightarrow> (\<And>t n. writes bs (out @ t) (f (out @ t, n))) \<Longrightarrow> writes bs out (check x f)"
  by (auto simp: grows_def writes_def) (metis append.assoc in_order_prefix)

lemma writes_then: "writes bs out x \<Longrightarrow> (\<And>t n. writes cs (out @ t) (f (out @ t, n))) \<Longrightarrow> writes (bs @ cs) out (check x f)"
  by (auto simp: writes_def) (metis append.assoc in_order_append)

lemma copy_section_put: "n \<le> length s \<Longrightarrow> copy_section put out s n = (out @ take n s, 0)"
proof (induction n arbitrary: out s rule: less_induct)
  case (less n)
  let ?b = "take (min bufsiz n) s"
  show ?case
  proof (cases "n = 0")
    case True
    then show ?thesis using copy_section.simps [of put out s n] by simp
  next
    case False
    then have b: "?b \<noteq> []" "n - length ?b < n" "length ?b = min bufsiz n"
      using less.prems by (auto simp: bufsiz_def)
    have "copy_section put out s n = copy_section put (out @ ?b) (drop (length ?b) s) (n - length ?b)"
      using copy_section.simps [of put out s n] False b(1) unfolding Let_def put_def [of out ?b] check_0 by (simp only: if_False)
    also have "\<dots> = (out @ ?b @ take (n - length ?b) (drop (length ?b) s), 0)"
      using less.IH [OF b(2), of "drop (length ?b) s" "out @ ?b"] less.prems by simp
    also have "?b @ take (n - length ?b) (drop (length ?b) s) = take (min bufsiz n + (n - min bufsiz n)) s"
      unfolding b(3) by (rule take_add [symmetric])
    finally show ?thesis by simp
  qed
qed

lemma dorw_parts_writes:
  assumes "\<And>c parent next out n. c \<in> set cs \<Longrightarrow> in_file (rw_file env) c \<Longrightarrow>
      writes (map (leaf_text (rw_file env)) (rw_leaves parent next c)) out (dorw put env parent next c (out, n))"
    and "\<forall>c \<in> set cs. in_file (rw_file env) c"
  shows "writes (map (leaf_text (rw_file env)) (rw_leaves_list t cs)) out (dorw_parts put env t k cs (out, n))"
  using assms
proof (induction cs arbitrary: out n)
  case Nil
  then show ?case by (simp add: writes_def emit_put)
next
  case (Cons c cs)
  have rest: "writes (map (leaf_text (rw_file env)) (rw_leaves_list t cs)) out (dorw_parts put env t k cs (out, n))" for out n
    using Cons.prems by (intro Cons.IH) auto
  have first: "writes (map (leaf_text (rw_file env)) (rw_leaves (Some t) (cs \<noteq> []) c)) out (dorw put env (Some t) (cs \<noteq> []) c (out, n))" for out n
    using Cons.prems by (intro Cons.prems(1)) auto
  show ?case
  proof (cases "isdummy (rinfo c)")
    case True
    with rest show ?thesis by simp
  next
    case False
    show ?thesis
      unfolding dorw_parts.simps rw_leaves_list.simps if_not_P [OF False] map_append
      by (rule writes_after, rule grows_emit, rule writes_then, rule first, rule rest)
  qed
qed

lemma dorw_writes:
  "in_file (rw_file env) q \<Longrightarrow>
    writes (map (leaf_text (rw_file env)) (rw_leaves parent next q)) out (dorw put env parent next q (out, n))"
proof (induction q arbitrary: parent "next" out n)
  case (Rw p ps)
  let ?signed = "next \<and> (case parent of Some (Some t) \<Rightarrow> strcaseeq t ''multipart/signed'' | _ \<Rightarrow> False)"
  have p: "endbody p - startbody p \<le> length (rw_file env) - startbody p"
    "endbody p - startpos p \<le> length (drop (startpos p) (rw_file env))" "\<forall>c \<in> set ps. in_file (rw_file env) c"
    using Rw.prems by simp_all
  have one: "in_order [b] b" for b by (auto intro: exI [of _ "[]"])
  show ?case
  proof (cases ?signed)
    case True
    show ?thesis
      unfolding dorw.simps rw_leaves.simps if_P [OF True] fst_conv snd_conv copy_section_put [OF p(2)]
      using one by (auto simp: lift_cnt_def writes_def leaf_text_def)
  next
    case False
    have "writes (map (leaf_text (rw_file env))
            (case ps of [] \<Rightarrow> [(False, p)] | [c] \<Rightarrow> rw_leaves None False c | _ \<Rightarrow> rw_leaves_list (content_type p) ps)) out
          (case ps of [] \<Rightarrow> lift_cnt n (rw_body put (rw_file env) p out) | [c] \<Rightarrow> dorw put env None False c (out, n)
          | _ \<Rightarrow> check (emit put [MIMEMSG] (out, n)) (dorw_parts put env (content_type p) n ps))" for out n
      using Rw.IH p(3) one dorw_parts_writes [of ps env "content_type p"] rw_body_put [OF p(1)]
      by (auto simp: lift_cnt_def writes_def [of "[_]"] leaf_text_def split: list.split intro!: writes_after grows_emit)
    then show ?thesis
      unfolding dorw.simps rw_leaves.simps if_not_P [OF False]
      by (intro writes_after grows_rw_head) (simp only: fst_conv snd_conv)
  qed
qed

lemma raw_content:
  "te \<noteq> Some ''quoted-printable'' \<Longrightarrow> te \<noteq> Some ''base64'' \<Longrightarrow> decoded te ss = concat ss"
  using content_decode_decoded [of te ss] content_decode_total [of te ss]
  by (simp add: decode_total_def rfc2045_cdecode_start_def)

lemma new_body_content:
  assumes "rw_transfer_encoding p = Some te" "te \<in> {''quoted-printable'', ''8bit'', ''7bit''}"
  shows "content_decode (Some te) [new_body f p] = Some (body_content bufsiz f p)"
proof (cases "te = ''quoted-printable''")
  case True
  have "strcaseeq ''quoted-printable'' ''quoted-printable''" by (simp add: strcaseeq_def)
  with True have "new_body f p = qpe_text 0 (body_content bufsiz f p)"
    using assms(1) by (simp add: new_body_def)
  moreover have "content_decode (Some ''quoted-printable'') [qpe_text 0 s] = Some s" for s
    using content_decode_total [of "Some ''quoted-printable''" "[qpe_text 0 s]"] mail_safe_short [OF qpe_safe [of s]]
    by (simp add: decode_total_def rfc2045_cdecode_start_def qpe_decode)
  ultimately show ?thesis using True by simp
next
  case False
  then have te: "te = ''8bit'' \<or> te = ''7bit''" using assms(2) by auto
  then have "\<not> strcaseeq te ''quoted-printable''" by (auto simp: strcaseeq_def)
  then have "new_body f p = body_content bufsiz f p"
    using assms(1) by (simp add: new_body_def)
  then show ?thesis
    using te by (auto simp: content_decode_decoded raw_content)
qed

text \<open>
  C5. A message that is rewritten keeps its contents. For any writer that takes what it is given, in pieces of any size, the
  buffer of 512 bytes loses and repeats nothing: the call returns zero and the writer has received one text, in which the bodies of all sections
  are found in order and apart. A body without a new encoding is written as it is in the file; one that gets the
  encoding quoted-printable, 8bit or 7bit decodes by that to the content that its old encoding had. The sections of a signed multipart before the last one are
  there with their headers, unchanged.
\<close>

theorem rewrite_keeps_contents:
  assumes "writer w got" "in_file f q" "sum_list (map length (checked_texts f q)) < 2 ^ 64"
  shows "\<exists>arg' cnt' text. rfc2045_rewrite_func w host pid now f app q arg cnt = Some ((arg', 0), cnt') \<and>
    got arg' = got arg @ text \<and> in_order (map (leaf_text f) (rw_leaves None False q)) text \<and>
    (\<forall>(signed, p) \<in> set (rw_leaves None False q).
      if signed then leaf_text f (signed, p) = take (endbody p - startpos p) (drop (startpos p) f)
      else case rw_transfer_encoding p of
          None \<Rightarrow> leaf_text f (signed, p) = take (endbody p - startbody p) (drop (startbody p) f)
        | Some te \<Rightarrow> te \<in> {''quoted-printable'', ''8bit'', ''7bit''} \<longrightarrow>
            content_decode (Some te) [leaf_text f (signed, p)] =
              content_decode (content_transfer_encoding p)
                (blocks bufsiz (endbody p - startbody p) (drop (startbody p) f)))"
proof -
  obtain root cnt' where b: "rfc2045_mk_boundary host pid now f q cnt = Some (Some root, cnt')"
    using boundary_found [OF assms(3), of host pid now cnt] assms(2) by auto
  let ?env = "\<lparr>rw_file = f, rw_boundary_root = root, rw_appname = app\<rparr>"
  obtain whole n where t: "dorw put ?env None False q (got arg, 1) = ((got arg @ whole, n), 0)"
    "in_order (map (leaf_text f) (rw_leaves None False q)) whole"
    using dorw_writes [of ?env q None False "got arg" 1] assms(2) by (auto simp: writes_def)
  obtain arg' where a: "rfc2045_rewrite_common w (Some root) f app q arg = (arg', 0)" "got arg' = got arg @ whole"
    using writer.rewrite_common_text [OF assms(1) t(1)] by auto
  have leaves: "if signed then leaf_text f (signed, p) = take (endbody p - startpos p) (drop (startpos p) f)
      else case rw_transfer_encoding p of
          None \<Rightarrow> leaf_text f (signed, p) = take (endbody p - startbody p) (drop (startbody p) f)
        | Some te \<Rightarrow> te \<in> {''quoted-printable'', ''8bit'', ''7bit''} \<longrightarrow>
            content_decode (Some te) [leaf_text f (signed, p)] =
              content_decode (content_transfer_encoding p)
                (blocks bufsiz (endbody p - startbody p) (drop (startbody p) f))" for signed p
    using new_body_content [of p _ f]
    by (auto simp: leaf_text_def new_body_def body_slice_def body_content_def content_decode_decoded split: option.split)
  show ?thesis
    using a t(2) leaves by (auto simp: rfc2045_rewrite_func_def b)
qed

definition converted_section :: rw_info where
  "converted_section = (plain_section 0 4)
     \<lparr>content_transfer_encoding := Some ''8bit'', rw_transfer_encoding := Some ''quoted-printable''\<rparr>"

lemma converted_section_simps [simp]:
  "startbody converted_section = 0" "endbody converted_section = 4" "startpos converted_section = 0"
  "content_transfer_encoding converted_section = Some ''8bit''"
  "rw_transfer_encoding converted_section = Some ''quoted-printable''"
  by (simp_all add: converted_section_def part_info.defs rw_info.defs alloc_info_def)

theorem rewrite_keeps_contents_witness:
  "\<exists>arg' cnt' text. rfc2045_rewrite_func (write_max 3) ''host'' 1 2 ''--=_'' None (Rw converted_section []) [] 0 =
      Some ((arg', 0), cnt') \<and>
    arg' = text \<and> in_order [leaf_text ''--=_'' (False, converted_section)] text \<and>
    content_decode (Some ''quoted-printable'') [leaf_text ''--=_'' (False, converted_section)] =
      content_decode (Some ''8bit'') (blocks bufsiz 4 ''--=_'')"
proof -
  have "body_content 512 ''--=_'' converted_section = concat (blocks 512 4 ''--=_'')"
    by (simp add: body_content_def raw_content)
  then have "sum_list (map length (checked_texts ''--=_'' (Rw converted_section []))) < 2 ^ 64"
    by (simp add: concat_blocks)
  from rewrite_keeps_contents [OF write_max.writer_axioms [of 3] _ this, of "''host''" 1 2 None "[]" 0]
  show ?thesis by simp
qed

subsection \<open>Seven bit messages\<close>

text \<open>The hooks see a blank for NUL.\<close>

definition seen_char :: "char \<Rightarrow> char" where
  "seen_char c = (if c = nul then sp else c)"

definition line_runs :: "string \<Rightarrow> string list" where
  "line_runs s = split_nl (map (\<lambda>c. if c = cr then nl else c) s)"

lemma line_runs_simps:
  "line_runs [] = [[]]"
  "line_runs (c # s) = (if c = nl \<or> c = cr then [] # line_runs s else (c # hd (line_runs s)) # tl (line_runs s))"
proof -
  have "split_nl (x # y) = (x # hd (split_nl y)) # tl (split_nl y)" if "x \<noteq> nl" for x y
    using split_nl_nonl [of "[x]" y] that by simp
  then show "line_runs (c # s) = (if c = nl \<or> c = cr then [] # line_runs s else (c # hd (line_runs s)) # tl (line_runs s))"
    by (auto simp: line_runs_def)
qed (simp add: line_runs_def)

lemma do_rwprep_simps: "do_rwprep st [] = st" "do_rwprep st (c # s) = do_rwprep (rwprep_char c st) s"
  "do_rwprep st (s @ t) = do_rwprep (do_rwprep st s) t"
  by (simp_all add: do_rwprep_def)

lemma rwprep_marks_stay: "saw8bit st \<Longrightarrow> saw8bit (do_rwprep st s)" "sawlong st \<Longrightarrow> sawlong (do_rwprep st s)"
  by (induction s arbitrary: st)
    (auto simp: do_rwprep_simps rwprep_char_def raw_char_def advance_def Let_def split: acstate.split)

lemma rwprep_8bit: "curstate st = Raw \<Longrightarrow> \<not> saw8bit (do_rwprep st (map seen_char s)) \<Longrightarrow> list_all (\<lambda>c. code c < 127) s"
proof (induction s arbitrary: st)
  case (Cons c s)
  let ?st = "rwprep_char (seen_char c) st"
  have "curstate ?st = Raw" "saw8bit ?st \<longleftrightarrow> saw8bit st \<or> 127 \<le> code c"
    using Cons.prems(1) by (auto simp: rwprep_char_def raw_char_def advance_def Let_def seen_char_def)
  with Cons.IH [of ?st] Cons.prems(2) rwprep_marks_stay(1) [of ?st "map seen_char s"] show ?case
    by (auto simp: do_rwprep_simps not_le)
qed simp

lemma rwprep_long:
  "curstate st = Raw \<Longrightarrow> curlinepos st \<le> 500 \<Longrightarrow> \<not> sawlong (do_rwprep st (map seen_char s)) \<Longrightarrow>
    curlinepos st + length (hd (line_runs s)) \<le> 500 \<and> list_all (\<lambda>l. length l \<le> 500) (tl (line_runs s))"
proof (induction s arbitrary: st)
  case (Cons c s)
  let ?st = "rwprep_char (seen_char c) st"
  have st: "curstate ?st = Raw" "curlinepos ?st = (if c = nl \<or> c = cr then 0 else curlinepos st + 1)"
    "\<not> sawlong ?st \<Longrightarrow> curlinepos ?st \<le> 500"
    using Cons.prems(1,2) by (auto simp: rwprep_char_def raw_char_def advance_def Let_def seen_char_def)
  have "\<not> sawlong (do_rwprep ?st (map seen_char s))"
    using Cons.prems(3) by (simp add: do_rwprep_simps)
  moreover from this have "\<not> sawlong ?st"
    using rwprep_marks_stay(2) by blast
  ultimately have "curlinepos ?st + length (hd (line_runs s)) \<le> 500 \<and> list_all (\<lambda>l. length l \<le> 500) (tl (line_runs s))"
    using Cons.IH st by blast
  moreover have "line_runs s = hd (line_runs s) # tl (line_runs s)"
    by (simp add: line_runs_def)
  ultimately show ?case
    using Cons.prems(2) by (cases "line_runs s") (auto simp: line_runs_simps st(2))
qed (simp add: line_runs_simps)

definition seven_bit :: "string \<Rightarrow> bool" where
  "seven_bit b \<longleftrightarrow> list_all (\<lambda>c. code c < 127) b \<and> list_all (\<lambda>l. length l \<le> 500) (line_runs b)"

lemma mail_safe_seven_bit: "mail_safe b \<Longrightarrow> seven_bit b"
proof -
  assume m: "mail_safe b"
  then have "list_all (\<lambda>c. c \<noteq> cr \<and> code c < 127) b"
    unfolding mail_safe_def by (elim conjE list.pred_mono_strong) auto
  moreover from this have "map (\<lambda>c. if c = cr then nl else c) b = b"
    by (intro map_idI) (auto simp: list_all_iff)
  ultimately have "line_runs b = split_nl b" "list_all (\<lambda>c. code c < 127) b"
    by (simp_all add: line_runs_def list_all_iff)
  moreover have "list_all (\<lambda>l. length l \<le> 500) (split_nl b)"
    using m unfolding mail_safe_def by (elim conjE list.pred_mono_strong) simp
  ultimately show ?thesis by (simp only: seven_bit_def simp_thms)
qed

lemma rwprep_seven_bit:
  assumes "te \<noteq> Some ''quoted-printable''" "te \<noteq> Some ''base64''"
    and "\<not> saw8bit (do_rwprep (start_rwprep te) (map seen_char (b @ r)))"
    and "\<not> sawlong (do_rwprep (start_rwprep te) (map seen_char (b @ r)))"
  shows "seven_bit b"
proof -
  let ?st = "start_rwprep te"
  have st: "curstate ?st = Raw" "curlinepos ?st \<le> 500"
    using assms(1,2) by (simp_all add: start_rwprep_def)
  have m: "\<not> saw8bit (do_rwprep ?st (map seen_char b))" "\<not> sawlong (do_rwprep ?st (map seen_char b))"
    using assms(3,4) rwprep_marks_stay by (auto simp: do_rwprep_simps)
  have "line_runs b = hd (line_runs b) # tl (line_runs b)"
    by (simp add: line_runs_def)
  then have "list_all (\<lambda>l. length l \<le> 500) (line_runs b)"
    using rwprep_long [OF st m(2)] by (metis add_leE list.pred_inject(2))
  with rwprep_8bit [OF st(1) m(1)] show ?thesis by (simp only: seven_bit_def simp_thms)
qed

definition declared_7bit :: "string \<Rightarrow> bool" where
  "declared_7bit u \<longleftrightarrow> list_ex (strcaseeq u) [''base64'', ''quoted-printable'', ''uuencode'', ''7bit'']"

lemma strcaseeq_refl: "strcaseeq u u"
  by (simp add: strcaseeq_def)

lemma not_declared_7bit: "\<not> declared_7bit u \<Longrightarrow> u \<noteq> ''quoted-printable'' \<and> u \<noteq> ''base64''" "\<not> declared_7bit ''8bit''" "declared_7bit ''7bit''"
  by (auto simp: declared_7bit_def strcaseeq_refl) (simp_all add: strcaseeq_def tolower_def isupper_def)

text \<open>The section after the defaults, and the choice of its encoding.\<close>

lemma ac_defaults_fields:
  assumes "ac_defaults defcharset hasnon7bit leaf p = (q, flag)"
  shows "startbody q = startbody p \<and> endbody q = endbody p \<and> has8bitchars q = has8bitchars p \<and> haslongline q = haslongline p \<and>
    rw_transfer_encoding q = rw_transfer_encoding p \<and> mime_version q = mime_version p \<and>
    content_transfer_encoding q = Some (case content_transfer_encoding p of None \<Rightarrow> if hasnon7bit then ''8bit'' else ''7bit'' | Some t \<Rightarrow> t)"
proof -
  have "q = fst (ac_defaults defcharset hasnon7bit leaf p)" by (simp add: assms)
  then show ?thesis
    by (cases "content_type p = None"; cases "content_transfer_encoding p") (simp_all add: ac_defaults_def Let_def)
qed

lemma ac_convert_7bit:
  assumes "content_transfer_encoding q = Some u" "ac_convert RW_7BIT hasnon7bit q = (q', flag)"
  shows "q' = (if (\<not> declared_7bit u \<and> has8bitchars q) \<or> haslongline q then q\<lparr>rw_transfer_encoding := Some ''quoted-printable''\<rparr>
    else if \<not> declared_7bit u then q\<lparr>rw_transfer_encoding := Some ''7bit''\<rparr> else q)"
  using assms by (auto simp: ac_convert_def Let_def declared_7bit_def RW_7BIT_def RW_8BIT_def split: if_splits)

text \<open>
  C22. Asked for seven bit output, the check of a section and its rewriting give a body without eight bit characters and without
  lines of more than 500 characters, and a header that says 7bit or quoted-printable. This holds of every section without sections of a
  message that may be MIME, unless it says that it is in base64, quoted-printable, uuencode or 7bit
  already, with the marks the hooks of the parser have made from its body (and the line end after it).
\<close>

theorem rewritten_7bit:
  assumes "ismime1def (mime_version p)" "rw_transfer_encoding p = None"
    and "\<forall>u. content_transfer_encoding p = Some u \<longrightarrow>
      (\<forall>t \<in> {''base64'', ''quoted-printable'', ''uuencode'', ''7bit''}. \<not> strcaseeq u t)"
    and "has8bitchars p = saw8bit (do_rwprep (start_rwprep (content_transfer_encoding p)) (map seen_char (body_slice f p @ r)))"
    and "haslongline p = sawlong (do_rwprep (start_rwprep (content_transfer_encoding p)) (map seen_char (body_slice f p @ r)))"
    and "endbody p - startbody p \<le> length f - startbody p"
    and "rfc2045_ac_check defcharset RW_7BIT (Rw p []) = (Rw p' ps, flag)"
  shows "\<exists>b. rw_body put f p' out = (out @ b, 0) \<and> list_all (\<lambda>c. code c < 127) b \<and>
    list_all (\<lambda>l. length l \<le> 500) (line_runs b) \<and> rw_te p' \<in> {Some ''7bit'', Some ''quoted-printable''}"
proof -
  let ?te = "content_transfer_encoding p"
  obtain q fl where q: "ac_defaults defcharset (has8bitchars p) True p = (q, fl)" by fastforce
  note f = ac_defaults_fields [OF q]
  let ?u = "case ?te of None \<Rightarrow> if has8bitchars p then ''8bit'' else ''7bit'' | Some t \<Rightarrow> t"
  have qu: "content_transfer_encoding q = Some ?u" using f by blast
  obtain q' fl' where c: "ac_convert RW_7BIT (has8bitchars p) q = (q', fl')" by fastforce
  have p': "p' = (if mime_version q' = None then q'\<lparr>mime_version := Some ''1.0''\<rparr> else q')"
    using assms(1,7) by (simp add: ac_section_def q c split: prod.splits)
  have te: "?te \<noteq> Some ''quoted-printable''" "?te \<noteq> Some ''base64''"
    using assms(3) strcaseeq_refl by fastforce+
  have not_declared: "?te \<noteq> None \<Longrightarrow> \<not> declared_7bit ?u"
    using assms(3) by (auto simp: declared_7bit_def)
  have slice: "body_slice f p' = body_slice f p" "startbody p' = startbody p" "endbody p' = endbody p"
    "content_transfer_encoding p' = Some ?u" "rw_transfer_encoding p' = rw_transfer_encoding q'"
    using f ac_convert_7bit [OF qu c] by (auto simp: p' body_slice_def)
  have safe: "seven_bit (body_slice f p)" if "\<not> has8bitchars p" "\<not> haslongline p"
    using rwprep_seven_bit [OF te] that assms(4,5) by simp
  have content: "body_content bufsiz f p' = body_slice f p"
    if "?u \<noteq> ''quoted-printable''" "?u \<noteq> ''base64''"
    using that slice by (simp add: body_content_def raw_content concat_blocks bufsiz_def body_slice_def)
  have "seven_bit (new_body f p') \<and> rw_te p' \<in> {Some ''7bit'', Some ''quoted-printable''}"
  proof -
    consider (qp) "rw_transfer_encoding q' = Some ''quoted-printable''"
      | (relabel) "rw_transfer_encoding q' = Some ''7bit''" "\<not> declared_7bit ?u" "\<not> has8bitchars p" "\<not> haslongline p"
      | (same) "rw_transfer_encoding q' = None" "declared_7bit ?u" "\<not> haslongline p"
      using ac_convert_7bit [OF qu c] f assms(2) by (auto split: if_splits)
    then show ?thesis
    proof cases
      case qp
      then show ?thesis
        using mail_safe_seven_bit [OF qpe_safe] by (simp add: new_body_def rw_te_def slice strcaseeq_refl)
    next
      case relabel
      then have "new_body f p' = body_slice f p"
        using content not_declared_7bit(1) by (simp add: new_body_def slice strcaseeq_def)
      with relabel safe show ?thesis by (simp add: rw_te_def slice)
    next
      case same
      with not_declared have "?te = None" by blast
      with same(2) have "?u = ''7bit''" "\<not> has8bitchars p"
        using not_declared_7bit(2) by (auto split: if_splits)
      with same safe show ?thesis by (simp add: new_body_def rw_te_def slice)
    qed
  qed
  then show ?thesis
    using rw_body_put [of p' f out] assms(6) by (simp add: slice seven_bit_def)
qed

definition eight_bit_section :: rw_info where
  "eight_bit_section = (plain_section 0 1)\<lparr>has8bitchars := True\<rparr>"

lemma eight_bit_section_simps [simp]:
  "startbody eight_bit_section = 0" "endbody eight_bit_section = 1" "mime_version eight_bit_section = None"
  "content_transfer_encoding eight_bit_section = None" "rw_transfer_encoding eight_bit_section = None"
  "has8bitchars eight_bit_section = True" "haslongline eight_bit_section = False"
  by (simp_all add: eight_bit_section_def part_info.defs rw_info.defs alloc_info_def)

theorem rewritten_7bit_witness:
  "\<exists>b. rw_body put [CHR 0xE9] (rinfo (fst (rfc2045_ac_check ''iso-8859-1'' RW_7BIT (Rw eight_bit_section [])))) [] = ([] @ b, 0) \<and>
    list_all (\<lambda>c. code c < 127) b \<and> list_all (\<lambda>l. length l \<le> 500) (line_runs b) \<and>
    rw_te (rinfo (fst (rfc2045_ac_check ''iso-8859-1'' RW_7BIT (Rw eight_bit_section [])))) \<in>
      {Some ''7bit'', Some ''quoted-printable''}"
proof -
  let ?x = "rfc2045_ac_check ''iso-8859-1'' RW_7BIT (Rw eight_bit_section [])"
  have "?x = (Rw (rinfo (fst ?x)) (rparts (fst ?x)), snd ?x)"
    by (simp only: rw_part.collapse prod.collapse)
  from rewritten_7bit [OF _ _ _ _ _ _ this, of "[CHR 0xE9]" "[]" "[]"] show ?thesis
    by (simp add: ismime1def_def body_slice_def seen_char_def do_rwprep_def start_rwprep_def rwprep_char_def raw_char_def advance_def)
qed

subsection \<open>What goes wrong\<close>

text \<open>The parser ends a header at an empty line with a carriage return, the rewriting does not: the body is copied as header.\<close>

lemma crlf_body_in_header:
  "rw_headers put (\<lambda>st. (st, 0)) True ([], n) True [CHR ''A'', CHR '':'', nl, cr, nl, CHR ''b'', nl] =
    ((([CHR ''A'', CHR '':'', nl, cr, nl, CHR ''b'', nl], n), True), 0)"
proof -
  let ?m = "\<lambda>st :: string \<times> nat. (st, 0 :: int)"
  have fg: "fgets_length bufsiz [CHR ''A'', CHR '':'', nl, cr, nl, CHR ''b'', nl] = 3"
    "fgets_length bufsiz [cr, nl, CHR ''b'', nl] = 2" "fgets_length bufsiz [CHR ''b'', nl] = 2"
    by (simp_all add: fgets_length_def bufsiz_def)
  have copy: "copy_header put out [cr, nl] [CHR ''b'', nl] = ((out @ [cr, nl], [CHR ''b'', nl]), 0)"
    "copy_header put out [CHR ''b'', nl] [] = ((out @ [CHR ''b'', nl], []), 0)" for out
    by (subst copy_header.simps, simp add: put_def continued_def isspace_def)+
  have first: "copy_header put [] [CHR ''A'', CHR '':'', nl] [cr, nl, CHR ''b'', nl] =
      (([CHR ''A'', CHR '':'', nl, cr, nl], [CHR ''b'', nl]), 0)"
    by (subst copy_header.simps) (simp add: put_def continued_def isspace_def fg cstr_def copy)
  have rest: "rw_headers put ?m True (out, n) True [] = (((out, n), True), 0)"
    "rw_headers put ?m True (out, n) True [CHR ''b'', nl] = rw_headers put ?m True (out @ [CHR ''b'', nl], n) True []" for out
    by (subst rw_headers.simps, simp add: fg cstr_def mime_header_def copy Let_def)+
  show ?thesis
    by (subst rw_headers.simps) (simp add: fg cstr_def mime_header_def first Let_def rest)
qed

text \<open>A section without a content type, of a MIME version the parser does not know, gets an empty line before its own header.\<close>

lemma unknown_version_header:
  "content_type p = None \<Longrightarrow> \<exists>t n'. rwmime put root True 0 p (out, n) = ((out @ nl # t, n'), 0)"
  by (simp add: rwmime_def emit_put content_type_text_def)

text \<open>An escape that is none hides a boundary from the check, while the body is copied as it is.\<close>

lemma boundary_hidden:
  "decoded (Some ''quoted-printable'') [''--=_h''] = ''--_h'' \<and> \<not> has_bad ''=_h'' ''--_h'' \<and> has_bad ''=_h'' ''--=_h''"
proof -
  have "content_decode (Some ''quoted-printable'') [''--=_h''] = Some (qp_text ''--=_h'')"
    using content_decode_total [of "Some ''quoted-printable''" "[''--=_h'']"]
    by (simp add: decode_total_def rfc2045_cdecode_start_def short_lines_def)
  moreover have "qp_text ''--=_h'' = ''--_h''"
    by (simp add: qp_text_def isspace_def xdigit_index_def xdigit_def)
  ultimately show ?thesis
    by (simp add: content_decode_decoded has_bad_def bad_line_def tolower_def isupper_def)
qed

end
