(* ===== verification/Spec2Isabelle.thy ===== *)
theory Spec2Isabelle
  imports Rfc822_Addr_Print Rfc822_Date Rfc822_Header Rfc2045_Parse Imap_Subject Utf7imap Sasl
    Password_Hash Maildir_Search Maildir_Quota Html_Filter Rfc2231 Rfc2045_Sections Charset_List Rfc2646_Handlers Rfc2047
    Imap_Refs_Thread Maildir_Filter Rfc2045_Rewrite_Text
begin

text \<open>
  A verification library for the mail components of wmail, a web mail server in C built around the
  libraries of the Courier mail server. File names are relative to \<^verbatim>\<open>src/src\<close>.

  \<^bold>\<open>The program.\<close> The CGI program (\<^verbatim>\<open>sqwebmail\<close>) reads messages from maildirs (\<^verbatim>\<open>maildir\<close>), takes them apart with a
  MIME parser (\<^verbatim>\<open>rfc2045\<close>) that sits on a lexer and parser of address headers (\<^verbatim>\<open>rfc822\<close>),
  converts names and texts between character sets (\<^verbatim>\<open>unicode\<close>), and logs users in through \<^verbatim>\<open>authlib\<close>, which checks
  passwords with the hashes of \<^verbatim>\<open>md5\<close>, \<^verbatim>\<open>sha1\<close> and \<^verbatim>\<open>libhmac\<close> and reads records of
  \<^verbatim>\<open>userdb\<close>. The library follows these layers.

  \<^bold>\<open>Conventions.\<close> A C string is a list of characters without its terminator, a buffer a list of
  bytes, \<^verbatim>\<open>char\<close> is signed where the code compares it, \<^verbatim>\<open>int\<close> is an integer or a word of its width where the code can
  overflow it, a null pointer \<open>None\<close>, a list built by pointers a list, an error a value of \<open>option\<close> or a sum. Where C
  runs a routine twice, to size a buffer and to fill it, so does the model, and a write past the buffer is the
  result \<open>None\<close>. Memory allocation succeeds. What the operating system does (files, time, the other processes of
  a maildir) is an argument or a step of the environment, and output functions that are callbacks succeed. Loops are structural
  recursion or functions with a proved measure; one that may not end is a partial function whose \<open>None\<close> is not to end. Fuel is used
  once, for the loop of the HTML filter over the attributes of a tag, whose number changes on the way: 1280 rounds, and
  \<open>attr_loop_enough\<close> shows from the size of the buffer that they are enough. \<open>C_Prelude\<close> holds the characters and the routines of the C library, \<open>C_Stdio\<close> the reading of files; \<open>C_Interfaces\<close> the locales
  \<open>codec\<close> (an encoder with its decoder), \<open>byte_stream\<close> (only the concatenation of the pieces fed counts)
  and \<open>consumer\<close>, which are interpreted on the code's own encoders, hashes, decoders and parsers.

  \<^bold>\<open>Address headers\<close> (\<^verbatim>\<open>rfc822\<close>). \<open>Rfc822_Token\<close> is \<open>tokenize\<close> of \<^verbatim>\<open>rfc822.c\<close>: the two passes agree, the
  array is filled exactly and all tokens lie within the header. \<open>Rfc822_Print\<close> is the printer of tokens: tokenizing what
  it prints gives the tokens back, and a quoted name cannot break out of its quotes. \<open>Rfc822_Addr\<close> is \<open>parseaddr\<close> and
  \<open>rfc822a_alloc\<close>, with their counting pass; \<open>Rfc822_Addr_Print\<close> the printers of address lists and
  the line wrapping of \<^verbatim>\<open>rfc822_getaddrs.c\<close> against a greedy specification. \<open>Rfc822_Date\<close> parses and prints
  dates, with round trips through the calendar arithmetic; \<open>Rfc822_Header\<close> is the reader of header blocks of
  \<^verbatim>\<open>rfc822hdr.c\<close>; \<open>Imap_Subject\<close> the base subject of \<^verbatim>\<open>imapsubj.c\<close>.

  \<^bold>\<open>Threads\<close> (\<^verbatim>\<open>rfc822/imaprefs.c\<close>). \<open>Imap_Refs\<close> is the threading of messages by their references and subjects, on a heap of
  messages with parents and children: adding messages, pruning dummies, the root, sorting, and merging threads of one subject.
  \<open>Imap_Refs_Links\<close> has the invariant of the links (no message is above itself) and what each change of a link does,
  \<open>Imap_Refs_Build\<close> and \<open>Imap_Refs_Thread\<close> the phases: all loops end, and the threads have every message once. The sorting
  routine is a parameter; what is asked of it is that it permutes its array.

  \<^bold>\<open>MIME\<close> (\<^verbatim>\<open>rfc2045\<close>). \<open>Rfc2045_Encode\<close> and \<open>Rfc2045_Decode\<close> are the content encoders and
  decoders with their work buffers: the decoder gives back what any of the encoders produced, however the two are fed. \<open>Base64\<close>
  is the alphabet they share. \<open>Rfc2045_Header\<close> is \<open>do_header\<close> of \<^verbatim>\<open>rfc2045.c\<close>, which uses the lexer and the address parser
  above; \<open>Rfc2045_Parse\<close> the parser itself, a tree of sections that grows line by line. Its invariant says that
  the sections are nested intervals that cover what was read; it does not depend on how the message is cut into pieces.
  \<open>Rfc2045_Sections\<close> numbers the sections of the tree and looks them up (\<^verbatim>\<open>rfc2045decode.c\<close>, \<^verbatim>\<open>rfc2045find.c\<close>,
  \<^verbatim>\<open>rfc2045searchcontenttype.c\<close>). \<open>Rfc2231\<close> are the parameters of a header in encoded pieces, \<open>Rfc2047\<close> its encoded words: what
  the encoders write decodes to the text.
  \<open>Rfc2045_Autoconv\<close> are the hooks of the parser that look for 8 bit characters and long lines and the choice of new encodings
  (\<^verbatim>\<open>rfc2045acprep.c\<close>, \<^verbatim>\<open>rfc2045acchk.c\<close>), \<open>Rfc2045_Boundary\<close> the search for a boundary (\<^verbatim>\<open>rfc2045mkboundary.c\<close>,
  \<^verbatim>\<open>rfc2045tryboundary.c\<close>), which ends and is not found in any text, and \<open>Rfc2045_Rewrite\<close> the rewriting of a message
  (\<^verbatim>\<open>rfc2045rewrite.c\<close>) over any way of adding text to an output. \<open>Rfc2045_Rewrite_Text\<close> shows that the buffer in front of a writer is such a way (locales
  \<open>writer\<close> and \<open>adder\<close>), and that the contents of all sections are kept; \<open>Rfc2045_Sim\<close> that the decoders treat callbacks in a relation
  alike (locale \<open>callback_sim\<close>). \<open>Rfc2646\<close> is the parser and the generator of flowed text, with a round trip of drafts, and
  \<open>Rfc2646_Handlers\<close> the handlers that quote, rewrap and show it: they keep the text, within their buffers.

  \<^bold>\<open>Web pages.\<close> \<open>Cgi_Args\<close> is the encoding and parsing of CGI arguments (\<^verbatim>\<open>cgi/cgi.c\<close>); \<open>Html_Filter\<close> the filter of
  HTML messages (\<^verbatim>\<open>sqwebmail/html.c\<close>) with its tag buffer, attributes rewritten in place and links relative to a base
  (\<^verbatim>\<open>rfc2045/rfc2045appendurl.c\<close>): no blocked tag passes, and no bracket inside text, tags or links.

  \<^bold>\<open>Character sets and numbers.\<close> \<open>Utf8\<close> (\<^verbatim>\<open>unicode/utf8.c\<close>) and \<open>Utf7imap\<close> (\<^verbatim>\<open>unicode/utf7imap.c\<close>) with
  exact buffers and round trips; \<open>Charset\<close> the conversions between character sets (\<^verbatim>\<open>unicode/unicode.c\<close>) and those of the single byte
  sets, with the contract of a character set as the locales \<open>charset\<close>, \<open>exact_charset\<close> and \<open>byte_charset\<close>; \<open>Charset_Iso8859\<close>,
  \<open>Charset_Ibm\<close> and \<open>Charset_Windows\<close> have the 38 tables (\<^verbatim>\<open>unicode/iso8859*.c\<close>, \<^verbatim>\<open>ibm*.c\<close>, \<^verbatim>\<open>windows*.c\<close>, \<^verbatim>\<open>koi8r.c\<close>), each checked and
  an interpretation of the contract; \<open>Unicode_Case\<close> the hash table of case conversions and UTF-8 as a character set;
  \<open>Charset_List\<close> what holds for any two of them; \<open>Numlib\<close> (\<^verbatim>\<open>numlib\<close>) prints numbers into buffers of fixed size.

  \<^bold>\<open>Hashes and authentication.\<close> \<open>Block_Stream\<close> is the buffering \<^verbatim>\<open>md5.c\<close> and \<^verbatim>\<open>sha1.c\<close> share; \<open>Md5\<close> and
  \<open>Sha1\<close> refine the definitions of RFC 1321 and FIPS 180-1 for input fed in any pieces; \<open>Hmac\<close>
  is the HMAC of RFC 2104 computed from saved states of the inner and outer hash. \<open>Userdb\<close> looks fields up in records;
  \<open>Sasl\<close> is the dialogue of PLAIN, LOGIN and CRAM, from the base64 lines of the client to the secret of the user;
  \<open>Password_Hash\<close> the password schemes, with the MD5 crypt against its specification.

  \<^bold>\<open>Maildirs.\<close> \<open>Maildir_Search\<close> is the incremental text search: it stops exactly when the text has occurred.
  \<open>Maildir_Names\<close> are the names of messages and folders: their flags and sizes, and that a folder name never leads
  out of the maildir. \<open>Maildir_Quota\<close> is the quota file as a log that several processes append to, its checking and its
  recount with the race the code detects. \<open>Maildir_Filter\<close> are the mail filters (\<^verbatim>\<open>maildirfilter.c\<close>): the checks of a rule, and the program
  for \<^verbatim>\<open>maildrop\<close> that rules are saved as, from whose comments they load again; what an accepted rule can write into it.

  \<^bold>\<open>Kinds of properties.\<close> Round trips of printers and parsers, encoders and decoders; refinement of and equivalence with
  the specifications in RFCs; safety of buffers and paths; bounds of lengths; invariants of the
  tree of sections, of the links of threads, of the quota and of subjects; termination by the measures of the functions; and behaviour on errors.

  \<^bold>\<open>Not modelled.\<close> The calendar (\<^verbatim>\<open>pcp\<close>), the templates and the state of the web pages (\<^verbatim>\<open>sqwebmail\<close>), the texts
  of replies (\<^verbatim>\<open>rfc2045reply.c\<close>), and form data (\<^verbatim>\<open>cgi_formdata\<close>)
  are mostly input and output of files around the parts that are modelled; the drivers of databases and services, locks, random numbers,
  the GnuPG wrapper and the programs around the libraries are calls of systems outside the repository; the tables of the
  East Asian character sets (\<^verbatim>\<open>unicode/big5.h\<close>, \<^verbatim>\<open>gb2312.h\<close>, \<^verbatim>\<open>iso2022jp.h\<close>) are data too large to check in time.
\<close>

end
